(* ===== verification/Prelude.thy ===== *)
theory Prelude
  imports Main "HOL-Library.Word" "HOL-Library.Sublist"
begin

text \<open>
  What the component theories share: the machine types of the firmware, the part of the C
  library the sources call (ctype classification in the C locale, string comparison and bounded
  copying), generic lemmas on lists, words and ring buffers, and the contracts (locales) several
  components implement.

  Conventions of the whole development.
  \<^item> A C string \<^verbatim>\<open>const char *\<close> is the list of its characters before the terminating NUL; where
    the code tests the pointer against NULL it is a \<^typ>\<open>string option\<close>.
  \<^item> A pointer to a struct that the code tests against NULL is an \<open>option\<close>; a function that
    writes through such a pointer returns the object as it is afterwards.
  \<^item> \<^verbatim>\<open>uint8_t\<close> \<dots> \<^verbatim>\<open>uint64_t\<close> are words of that width: arithmetic wraps and comparison is
    unsigned as in C. \<^verbatim>\<open>size_t\<close> counts are \<^typ>\<open>nat\<close>.
  \<^item> A \<^verbatim>\<open>char[N + 1]\<close> field is a \<^typ>\<open>string\<close>; that it fits is part of the invariants.
  \<^item> An enum is a datatype with the source's enumerators. Where the code has to survive a value
    that is none of them, one more constructor (\<open>..._OTHER\<close>) stands for such a value.
\<close>

unbundle bit_operations_syntax

section \<open>Machine types\<close>

type_synonym u8 = "8 word"
type_synonym u16 = "16 word"
type_synonym u32 = "32 word"
type_synonym u64 = "64 word"

named_theorems c_text "C library text functions, unfolded"
named_theorems inv_defs "invariants and their parts"

lemma unat_u32_less: "unat (w::u32) < 2 ^ 32"
  using unsigned_less [of w] by simp

text \<open>The single-bit test \<open>(v & (v - 1)) == 0\<close>.\<close>

lemma nat_and_pred_power:
  "0 < n \<Longrightarrow> (n AND (n - 1)) = 0 \<longleftrightarrow> (\<exists>k. n = 2 ^ k)" for n :: nat
proof (induction n rule: less_induct)
  case (less n)
  consider m where "n = 2 * m" "0 < m" | m where "n = 2 * m + 1"
    using less.prems by (metis evenE oddE gr0I mult_0_right neq0_conv)
  then show ?case
  proof cases
    case 1
    have pred: "n - 1 = 2 * (m - 1) + 1" using 1 by simp
    have "n AND (n - 1) = 2 * (m AND (m - 1))"
      unfolding pred unfolding 1(1) by (simp add: and_nat_unfold [of "2 * m"])
    then have "(n AND (n - 1)) = 0 \<longleftrightarrow> (\<exists>k. m = 2 ^ k)"
      using less.IH [of m] 1 by simp
    also have "\<dots> \<longleftrightarrow> (\<exists>k. n = 2 ^ k)"
    proof
      assume "\<exists>k. m = 2 ^ k"
      then show "\<exists>k. n = 2 ^ k" using 1 by (metis power_Suc)
    next
      assume "\<exists>k. n = 2 ^ k"
      then obtain k where k: "n = 2 ^ k" by blast
      with 1 show "\<exists>k. m = 2 ^ k" by (cases k) auto
    qed
    finally show ?thesis .
  next
    case 2
    have "n AND (n - 1) = 2 * m"
      unfolding 2 by (subst and_nat_unfold) simp
    moreover have "(\<exists>k. n = 2 ^ k) \<longleftrightarrow> m = 0"
    proof
      assume "\<exists>k. n = 2 ^ k"
      then obtain k where "2 * m + 1 = (2::nat) ^ k" using 2 by auto
      then show "m = 0"
        by (cases k) (simp, metis even_plus_one_iff dvd_triv_left power_Suc)
    next
      assume "m = 0"
      then show "\<exists>k. n = 2 ^ k" using 2 by (intro exI [of _ 0]) simp
    qed
    ultimately show ?thesis by simp
  qed
qed

lemma word_and_pred_power:
  fixes w :: u32
  assumes "w \<noteq> 0"
  shows "w AND (w - 1) = 0 \<longleftrightarrow> (\<exists>k<32. w = 2 ^ k)"
proof -
  have pos: "0 < unat w" using assms by (simp add: unat_gt_0)
  have pred: "unat (w - 1) = unat w - 1" using assms by (simp add: unat_minus_one)
  have "w AND (w - 1) = 0 \<longleftrightarrow> unat w AND (unat w - 1) = 0"
  proof -
    have "w AND (w - 1) = 0 \<longleftrightarrow> unat (w AND (w - 1)) = 0" by (simp only: unat_eq_0)
    then show ?thesis by (simp only: unsigned_and_eq pred)
  qed
  also have "\<dots> \<longleftrightarrow> (\<exists>k. unat w = 2 ^ k)" by (rule nat_and_pred_power [OF pos])
  also have "\<dots> \<longleftrightarrow> (\<exists>k<32. w = 2 ^ k)"
  proof
    assume "\<exists>k. unat w = 2 ^ k"
    then obtain k where k: "unat w = 2 ^ k" by blast
    have "(2::nat) ^ k < 2 ^ 32" using unat_u32_less [of w] k by simp
    then have "k < 32" by (rule power_less_imp_less_exp [rotated]) simp
    moreover have "w = 2 ^ k"
    proof -
      have "w = of_nat (unat w)" by simp
      then show ?thesis unfolding k by simp
    qed
    ultimately show "\<exists>k<32. w = 2 ^ k" by blast
  next
    assume "\<exists>k<32. w = 2 ^ k"
    then obtain k where "k < 32" "w = 2 ^ k" by blast
    moreover have "(2::nat) ^ k < 2 ^ 32"
      using \<open>k < 32\<close> by (rule power_strict_increasing) simp
    ultimately have "unat w = 2 ^ k"
      using unat_of_nat [of "2 ^ k", where 'a = 32] by simp
    then show "\<exists>k. unat w = 2 ^ k" ..
  qed
  finally show ?thesis .
qed

lemma ball_list_update:
  assumes "\<forall>y\<in>set xs. P y" "P x"
  shows "\<forall>y\<in>set (xs[i := x]). P y"
  using assms set_update_subset_insert [of xs i x] by blast

section \<open>The platform\<close>

text \<open>The error codes of the platform the modules return.\<close>

datatype esp_err_t =
    ESP_OK
  | ESP_FAIL
  | ESP_ERR_NO_MEM
  | ESP_ERR_INVALID_ARG
  | ESP_ERR_INVALID_STATE
  | ESP_ERR_NOT_FOUND
  | ESP_ERR_TIMEOUT
  | ESP_ERR_NOT_FINISHED
  | ESP_ERR_NOT_SUPPORTED
  | ESP_ERR_INVALID_SIZE

section \<open>The C library, as far as the sources use it\<close>

subsection \<open>ctype in the C locale\<close>

abbreviation ccode :: "char \<Rightarrow> nat" where
  "ccode c \<equiv> of_char c"

definition isdigit :: "char \<Rightarrow> bool" where
  "isdigit c \<longleftrightarrow> 48 \<le> ccode c \<and> ccode c \<le> 57"

definition islower :: "char \<Rightarrow> bool" where
  "islower c \<longleftrightarrow> 97 \<le> ccode c \<and> ccode c \<le> 122"

definition isupper :: "char \<Rightarrow> bool" where
  "isupper c \<longleftrightarrow> 65 \<le> ccode c \<and> ccode c \<le> 90"

definition isalpha :: "char \<Rightarrow> bool" where
  "isalpha c \<longleftrightarrow> islower c \<or> isupper c"

definition isalnum :: "char \<Rightarrow> bool" where
  "isalnum c \<longleftrightarrow> isalpha c \<or> isdigit c"

definition isspace :: "char \<Rightarrow> bool" where
  "isspace c \<longleftrightarrow> ccode c = 32 \<or> (9 \<le> ccode c \<and> ccode c \<le> 13)"

definition tolower :: "char \<Rightarrow> char" where
  "tolower c = (if isupper c then char_of (ccode c + 32) else c)"

lemmas ctype_defs [c_text] =
  isdigit_def islower_def isupper_def isalpha_def isalnum_def isspace_def

lemma tolower_not_upper: "\<not> isupper (tolower c)"
  by (auto simp: tolower_def isupper_def)

lemma tolower_idem [simp]: "tolower (tolower c) = tolower c"
  by (metis tolower_def tolower_not_upper)

subsection \<open>Strings\<close>

text \<open>
  \<open>strcasecmp (a, b) == 0\<close>; \<open>strncmp (s, p, strlen p) == 0\<close> is \<^const>\<open>prefix\<close> and
  \<open>strstr (s, t) != NULL\<close> is \<^const>\<open>sublist\<close>. \<open>c_strlcpy n v\<close> is what
  \<open>snprintf (out, n, "%s", v)\<close> leaves in a buffer of \<open>n > 0\<close> bytes.
\<close>

definition strcaseeq :: "string \<Rightarrow> string \<Rightarrow> bool" where
  "strcaseeq a b \<longleftrightarrow> map tolower a = map tolower b"

definition c_strlcpy :: "nat \<Rightarrow> string \<Rightarrow> string" where
  "c_strlcpy n v = take (n - 1) v"

definition c_or_empty :: "string option \<Rightarrow> string" where
  "c_or_empty v = (case v of None \<Rightarrow> [] | Some s \<Rightarrow> s)"

lemma length_c_strlcpy [simp]: "0 < n \<Longrightarrow> length (c_strlcpy n v) < n"
  by (auto simp: c_strlcpy_def)

lemma c_strlcpy_fits [simp]: "length v < n \<Longrightarrow> c_strlcpy n v = v"
  by (simp add: c_strlcpy_def)

lemma c_or_empty_simps [simp]: "c_or_empty None = []" "c_or_empty (Some s) = s"
  by (simp_all add: c_or_empty_def)

text \<open>The digits \<open>%u\<close> prints.\<close>

fun dec_digits :: "nat \<Rightarrow> string" where
  "dec_digits n = (if n < 10 then [char_of (48 + n)]
                   else dec_digits (n div 10) @ [char_of (48 + n mod 10)])"

declare dec_digits.simps [simp del]

lemma dec_digits_isdigit: "c \<in> set (dec_digits n) \<Longrightarrow> isdigit c"
proof (induction n rule: dec_digits.induct)
  case (1 n)
  show ?case
  proof (cases "n < 10")
    case True
    with "1.prems" show ?thesis
      by (simp add: dec_digits.simps [of n] isdigit_def)
  next
    case False
    with "1" show ?thesis
      by (auto simp: dec_digits.simps [of n] isdigit_def)
  qed
qed

lemma dec_digits_nonempty [simp]: "dec_digits n \<noteq> []"
  by (subst dec_digits.simps) simp

end
