(* ===== verification/Authorization.thy ===== *)
theory Authorization
  imports Prelude
begin

text \<open>
  The transport-independent authorization decision, \<^verbatim>\<open>core/authorization.c\<close>: a pure function of
  an immutable request snapshot. The contract its clients rely on (deny by default, allow only
  when every gate is open, no gate opened by anything but the matching field) is the locale
  \<open>authorizer\<close>, interpreted here on the code's decision function.
\<close>

section \<open>Data\<close>

type_synonym si_capability_set_t = u32
type_synonym si_capability_t = u32

definition SI_CAPABILITY_NONE :: si_capability_t where "SI_CAPABILITY_NONE = 0"
definition SI_CAPABILITY_OBSERVE :: si_capability_t where "SI_CAPABILITY_OBSERVE = 1"
definition SI_CAPABILITY_SSH :: si_capability_t where "SI_CAPABILITY_SSH = 2"
definition SI_CAPABILITY_UART :: si_capability_t where "SI_CAPABILITY_UART = 4"
definition SI_CAPABILITY_HID :: si_capability_t where "SI_CAPABILITY_HID = 8"
definition SI_CAPABILITY_POWER :: si_capability_t where "SI_CAPABILITY_POWER = 16"
definition SI_CAPABILITY_SETTINGS :: si_capability_t where "SI_CAPABILITY_SETTINGS = 32"
definition SI_CAPABILITY_OTA :: si_capability_t where "SI_CAPABILITY_OTA = 64"
definition SI_CAPABILITY_AGENT_RUN :: si_capability_t where "SI_CAPABILITY_AGENT_RUN = 128"
definition SI_CAPABILITY_CONTROL_LEASE :: si_capability_t where "SI_CAPABILITY_CONTROL_LEASE = 256"
definition SI_CAPABILITY_STORAGE :: si_capability_t where "SI_CAPABILITY_STORAGE = 512"
definition SI_CAPABILITY_VIDEO_CONTROL :: si_capability_t where "SI_CAPABILITY_VIDEO_CONTROL = 1024"

lemmas capability_defs =
  SI_CAPABILITY_NONE_def SI_CAPABILITY_OBSERVE_def SI_CAPABILITY_SSH_def SI_CAPABILITY_UART_def
  SI_CAPABILITY_HID_def SI_CAPABILITY_POWER_def SI_CAPABILITY_SETTINGS_def SI_CAPABILITY_OTA_def
  SI_CAPABILITY_AGENT_RUN_def SI_CAPABILITY_CONTROL_LEASE_def SI_CAPABILITY_STORAGE_def
  SI_CAPABILITY_VIDEO_CONTROL_def

definition SI_CAPABILITIES_WEB_DEFAULT :: si_capability_set_t where
  "SI_CAPABILITIES_WEB_DEFAULT =
     SI_CAPABILITY_OBSERVE OR SI_CAPABILITY_SSH OR SI_CAPABILITY_UART OR SI_CAPABILITY_HID OR
     SI_CAPABILITY_POWER OR SI_CAPABILITY_SETTINGS OR SI_CAPABILITY_OTA OR
     SI_CAPABILITY_AGENT_RUN OR SI_CAPABILITY_CONTROL_LEASE OR SI_CAPABILITY_STORAGE OR
     SI_CAPABILITY_VIDEO_CONTROL"

definition SI_CAPABILITIES_MCP_DEFAULT :: si_capability_set_t where
  "SI_CAPABILITIES_MCP_DEFAULT =
     SI_CAPABILITY_OBSERVE OR SI_CAPABILITY_SSH OR SI_CAPABILITY_UART OR SI_CAPABILITY_HID OR
     SI_CAPABILITY_CONTROL_LEASE OR SI_CAPABILITY_VIDEO_CONTROL"

datatype si_principal_kind_t =
    SI_PRINCIPAL_ANONYMOUS
  | SI_PRINCIPAL_BROWSER
  | SI_PRINCIPAL_MCP
  | SI_PRINCIPAL_AGENT
  | SI_PRINCIPAL_SYSTEM
  | SI_PRINCIPAL_OTHER u32

datatype si_authorization_mode_t =
    SI_AUTHZ_MODE_OBSERVE
  | SI_AUTHZ_MODE_SUPERVISED
  | SI_AUTHZ_MODE_AUTONOMOUS
  | SI_AUTHZ_MODE_OTHER u32

datatype si_authorization_risk_t =
    SI_AUTHZ_RISK_LOW
  | SI_AUTHZ_RISK_MEDIUM
  | SI_AUTHZ_RISK_HIGH
  | SI_AUTHZ_RISK_CRITICAL
  | SI_AUTHZ_RISK_OTHER u32

datatype si_authorization_decision_t =
    SI_AUTHZ_ALLOW
  | SI_AUTHZ_DENY_INVALID_REQUEST
  | SI_AUTHZ_DENY_UNAUTHENTICATED
  | SI_AUTHZ_DENY_CAPABILITY
  | SI_AUTHZ_DENY_POLICY
  | SI_AUTHZ_DENY_KVM_PREEMPTED
  | SI_AUTHZ_DENY_LEASE
  | SI_AUTHZ_DENY_OBSERVE_ONLY
  | SI_AUTHZ_DENY_APPROVAL_REQUIRED

record si_authorization_request_t =
  az_authenticated :: bool
  az_principal :: si_principal_kind_t
  az_capabilities :: si_capability_set_t
  az_required_capability :: si_capability_t
  az_policy_allowed :: bool
  az_lease_required :: bool
  az_lease_held :: bool
  az_human_kvm_active :: bool
  az_mode :: si_authorization_mode_t
  az_risk :: si_authorization_risk_t
  az_approval_required :: bool
  az_approved :: bool

section \<open>Operations\<close>

fun principal_valid :: "si_principal_kind_t \<Rightarrow> bool" where
  "principal_valid (SI_PRINCIPAL_OTHER _) = False"
| "principal_valid _ = True"

fun mode_valid :: "si_authorization_mode_t \<Rightarrow> bool" where
  "mode_valid (SI_AUTHZ_MODE_OTHER _) = False"
| "mode_valid _ = True"

fun risk_valid :: "si_authorization_risk_t \<Rightarrow> bool" where
  "risk_valid (SI_AUTHZ_RISK_OTHER _) = False"
| "risk_valid _ = True"

definition capability_valid :: "si_capability_t \<Rightarrow> bool" where
  "capability_valid capability \<longleftrightarrow>
     (if capability = SI_CAPABILITY_NONE then False
      else capability AND (capability - 1) = 0 \<and> capability \<le> SI_CAPABILITY_VIDEO_CONTROL)"

definition si_capability_set_has :: "si_capability_set_t \<Rightarrow> si_capability_t \<Rightarrow> bool" where
  "si_capability_set_has s capability \<longleftrightarrow> capability_valid capability \<and> s AND capability \<noteq> 0"

definition si_authorization_evaluate ::
    "si_authorization_request_t option \<Rightarrow> si_authorization_decision_t" where
  "si_authorization_evaluate request =
     (case request of None \<Rightarrow> SI_AUTHZ_DENY_INVALID_REQUEST | Some r \<Rightarrow>
      if \<not> principal_valid (az_principal r) \<or> \<not> capability_valid (az_required_capability r) \<or>
         \<not> mode_valid (az_mode r) \<or> \<not> risk_valid (az_risk r)
      then SI_AUTHZ_DENY_INVALID_REQUEST
      else if \<not> az_authenticated r \<or> az_principal r = SI_PRINCIPAL_ANONYMOUS
      then SI_AUTHZ_DENY_UNAUTHENTICATED
      else if \<not> si_capability_set_has (az_capabilities r) (az_required_capability r)
      then SI_AUTHZ_DENY_CAPABILITY
      else if \<not> az_policy_allowed r then SI_AUTHZ_DENY_POLICY
      else if az_lease_required r \<and> az_human_kvm_active r then SI_AUTHZ_DENY_KVM_PREEMPTED
      else if az_lease_required r \<and> \<not> az_lease_held r then SI_AUTHZ_DENY_LEASE
      else if az_mode r = SI_AUTHZ_MODE_OBSERVE \<and> az_risk r \<noteq> SI_AUTHZ_RISK_LOW
      then SI_AUTHZ_DENY_OBSERVE_ONLY
      else if az_approval_required r \<and> \<not> az_approved r then SI_AUTHZ_DENY_APPROVAL_REQUIRED
      else SI_AUTHZ_ALLOW)"

definition si_capability_name :: "si_capability_t \<Rightarrow> string" where
  "si_capability_name capability =
     (if capability = SI_CAPABILITY_OBSERVE then ''observe''
      else if capability = SI_CAPABILITY_SSH then ''ssh''
      else if capability = SI_CAPABILITY_UART then ''uart''
      else if capability = SI_CAPABILITY_HID then ''hid''
      else if capability = SI_CAPABILITY_POWER then ''power''
      else if capability = SI_CAPABILITY_SETTINGS then ''settings''
      else if capability = SI_CAPABILITY_OTA then ''ota''
      else if capability = SI_CAPABILITY_AGENT_RUN then ''agent_run''
      else if capability = SI_CAPABILITY_CONTROL_LEASE then ''control_lease''
      else if capability = SI_CAPABILITY_STORAGE then ''storage''
      else if capability = SI_CAPABILITY_VIDEO_CONTROL then ''video_control''
      else ''none'')"

fun si_principal_kind_name :: "si_principal_kind_t \<Rightarrow> string" where
  "si_principal_kind_name SI_PRINCIPAL_BROWSER = ''browser''"
| "si_principal_kind_name SI_PRINCIPAL_MCP = ''mcp''"
| "si_principal_kind_name SI_PRINCIPAL_AGENT = ''agent''"
| "si_principal_kind_name SI_PRINCIPAL_SYSTEM = ''system''"
| "si_principal_kind_name _ = ''anonymous''"

fun si_authorization_decision_name :: "si_authorization_decision_t \<Rightarrow> string" where
  "si_authorization_decision_name SI_AUTHZ_ALLOW = ''allow''"
| "si_authorization_decision_name SI_AUTHZ_DENY_INVALID_REQUEST = ''invalid_request''"
| "si_authorization_decision_name SI_AUTHZ_DENY_UNAUTHENTICATED = ''unauthenticated''"
| "si_authorization_decision_name SI_AUTHZ_DENY_CAPABILITY = ''capability_missing''"
| "si_authorization_decision_name SI_AUTHZ_DENY_POLICY = ''policy_denied''"
| "si_authorization_decision_name SI_AUTHZ_DENY_KVM_PREEMPTED = ''kvm_preempted''"
| "si_authorization_decision_name SI_AUTHZ_DENY_LEASE = ''lease_required''"
| "si_authorization_decision_name SI_AUTHZ_DENY_OBSERVE_ONLY = ''observe_only''"
| "si_authorization_decision_name SI_AUTHZ_DENY_APPROVAL_REQUIRED = ''approval_required''"

section \<open>Capabilities as bits\<close>

lemma capability_valid_iff: "capability_valid c \<longleftrightarrow> (\<exists>k<11. c = 2 ^ k)"
proof (cases "c = 0")
  case True
  have "(0::u32) \<noteq> 2 ^ k" if "k < 11" for k
    using that by (auto simp: less_Suc_eq numeral_eq_Suc)
  with True show ?thesis by (auto simp: capability_valid_def SI_CAPABILITY_NONE_def)
next
  case False
  have pow: "unat (2 ^ k :: u32) = 2 ^ k" if "k < 32" for k
  proof -
    have "(2::nat) ^ k < 2 ^ 32" using that by (rule power_strict_increasing) simp
    then show ?thesis using unat_of_nat [of "2 ^ k", where 'a = 32] by simp
  qed
  have le: "(2 ^ k :: u32) \<le> 1024 \<longleftrightarrow> k < 11" if "k < 32" for k
  proof -
    have "(2 ^ k :: u32) \<le> 1024 \<longleftrightarrow> (2::nat) ^ k \<le> 2 ^ 10"
      by (simp add: word_le_nat_alt pow that)
    also have "\<dots> \<longleftrightarrow> k \<le> 10" by (rule power_increasing_iff) simp
    finally show ?thesis by auto
  qed
  have "capability_valid c \<longleftrightarrow> (\<exists>k<32. c = 2 ^ k) \<and> c \<le> 1024"
    using False by (simp add: capability_valid_def capability_defs word_and_pred_power)
  also have "\<dots> \<longleftrightarrow> (\<exists>k<11. c = 2 ^ k)"
  proof
    assume "(\<exists>k<32. c = 2 ^ k) \<and> c \<le> 1024"
    then show "\<exists>k<11. c = 2 ^ k" using le by blast
  next
    assume "\<exists>k<11. c = 2 ^ k"
    then obtain k where k: "k < 11" "c = 2 ^ k" by blast
    then have "k < 32" by simp
    with k le show "(\<exists>k<32. c = 2 ^ k) \<and> c \<le> 1024" by blast
  qed
  finally show ?thesis .
qed

lemma set_has_iff: "si_capability_set_has s c \<longleftrightarrow> (\<exists>k<11. c = 2 ^ k \<and> bit s k)"
proof -
  have "s AND 2 ^ k \<noteq> 0 \<longleftrightarrow> bit s k" for k
    by (simp add: and_exp_eq_0_iff_not_bit)
  then show ?thesis by (auto simp: si_capability_set_has_def capability_valid_iff)
qed

lemma set_has_mono: "si_capability_set_has (s AND t) c \<Longrightarrow> si_capability_set_has s c \<and> si_capability_set_has t c"
  by (auto simp: set_has_iff bit_simps)

section \<open>The contract of an authorizer\<close>

text \<open>
  What the code that acts on a decision relies on: nothing is allowed without a request, an
  allowed request has every gate open, and a request with more capabilities and nothing else
  changed is not denied.
\<close>

locale authorizer =
  fixes evaluate :: "si_authorization_request_t option \<Rightarrow> si_authorization_decision_t"
  assumes null_denied: "evaluate None \<noteq> SI_AUTHZ_ALLOW"
    and allow_authenticated: "evaluate (Some r) = SI_AUTHZ_ALLOW \<Longrightarrow>
      az_authenticated r \<and> az_principal r \<noteq> SI_PRINCIPAL_ANONYMOUS"
    and allow_capability: "evaluate (Some r) = SI_AUTHZ_ALLOW \<Longrightarrow>
      si_capability_set_has (az_capabilities r) (az_required_capability r)"
    and allow_policy: "evaluate (Some r) = SI_AUTHZ_ALLOW \<Longrightarrow> az_policy_allowed r"
    and allow_lease: "evaluate (Some r) = SI_AUTHZ_ALLOW \<Longrightarrow> az_lease_required r \<Longrightarrow>
      az_lease_held r \<and> \<not> az_human_kvm_active r"
    and allow_observe: "evaluate (Some r) = SI_AUTHZ_ALLOW \<Longrightarrow> az_mode r = SI_AUTHZ_MODE_OBSERVE \<Longrightarrow>
      az_risk r = SI_AUTHZ_RISK_LOW"
    and allow_approval: "evaluate (Some r) = SI_AUTHZ_ALLOW \<Longrightarrow> az_approval_required r \<Longrightarrow>
      az_approved r"
    and allow_mono: "evaluate (Some r) = SI_AUTHZ_ALLOW \<Longrightarrow>
      s AND az_capabilities r = az_capabilities r \<Longrightarrow>
      evaluate (Some (r\<lparr>az_capabilities := s\<rparr>)) = SI_AUTHZ_ALLOW"
begin

text \<open>Authority can only shrink when it is intersected with a ceiling.\<close>

lemma attenuated_allow:
  assumes "evaluate (Some (r\<lparr>az_capabilities := s AND t\<rparr>)) = SI_AUTHZ_ALLOW"
  shows "evaluate (Some (r\<lparr>az_capabilities := s\<rparr>)) = SI_AUTHZ_ALLOW"
    and "si_capability_set_has t (az_required_capability r)"
proof -
  have "s AND (s AND t) = s AND t" by (simp add: and.left_commute)
  then have "evaluate (Some (r\<lparr>az_capabilities := s AND t, az_capabilities := s\<rparr>)) = SI_AUTHZ_ALLOW"
    using allow_mono [OF assms, of s] by simp
  then show "evaluate (Some (r\<lparr>az_capabilities := s\<rparr>)) = SI_AUTHZ_ALLOW" by simp
  show "si_capability_set_has t (az_required_capability r)"
    using allow_capability [OF assms] by (auto dest: set_has_mono)
qed

lemma no_capability_no_allow:
  assumes "\<not> si_capability_set_has (az_capabilities r) (az_required_capability r)"
  shows "evaluate (Some r) \<noteq> SI_AUTHZ_ALLOW"
  using assms allow_capability by blast

end

lemma evaluate_allow_iff_fields:
  "si_authorization_evaluate (Some r) = SI_AUTHZ_ALLOW \<longleftrightarrow>
     principal_valid (az_principal r) \<and> mode_valid (az_mode r) \<and> risk_valid (az_risk r) \<and>
     az_authenticated r \<and> az_principal r \<noteq> SI_PRINCIPAL_ANONYMOUS \<and>
     si_capability_set_has (az_capabilities r) (az_required_capability r) \<and> az_policy_allowed r \<and>
     (az_lease_required r \<longrightarrow> az_lease_held r \<and> \<not> az_human_kvm_active r) \<and>
     (az_mode r = SI_AUTHZ_MODE_OBSERVE \<longrightarrow> az_risk r = SI_AUTHZ_RISK_LOW) \<and>
     (az_approval_required r \<longrightarrow> az_approved r)"
  by (auto simp: si_authorization_evaluate_def si_capability_set_has_def)

interpretation az: authorizer si_authorization_evaluate
proof
  show "si_authorization_evaluate None \<noteq> SI_AUTHZ_ALLOW"
    by (simp add: si_authorization_evaluate_def)
next
  fix r s
  assume allow: "si_authorization_evaluate (Some r) = SI_AUTHZ_ALLOW"
    and sub: "s AND az_capabilities r = az_capabilities r"
  have "si_capability_set_has (s AND az_capabilities r) (az_required_capability r)"
    using allow sub by (simp add: evaluate_allow_iff_fields)
  then have "si_capability_set_has s (az_required_capability r)" by (auto dest: set_has_mono)
  with allow show "si_authorization_evaluate (Some (r\<lparr>az_capabilities := s\<rparr>)) = SI_AUTHZ_ALLOW"
    by (simp add: evaluate_allow_iff_fields)
qed (simp_all add: evaluate_allow_iff_fields)

section \<open>Properties\<close>

text \<open>
  C2: a request is allowed exactly when every field is a known enumerator, the caller is
  authenticated and not anonymous, the required capability is a single one of the eleven defined
  bits and that bit is in the caller's set, policy allows it, a required control lease is held
  and no human KVM session is active, observe mode is used for low-risk actions only, and a
  required approval was given.
\<close>

theorem authorization_allow_iff:
  "si_authorization_evaluate (Some r) = SI_AUTHZ_ALLOW \<longleftrightarrow>
     principal_valid (az_principal r) \<and> mode_valid (az_mode r) \<and> risk_valid (az_risk r) \<and>
     az_authenticated r \<and> az_principal r \<noteq> SI_PRINCIPAL_ANONYMOUS \<and>
     (\<exists>k<11. az_required_capability r = 2 ^ k \<and> bit (az_capabilities r) k) \<and>
     az_policy_allowed r \<and>
     (az_lease_required r \<longrightarrow> az_lease_held r \<and> \<not> az_human_kvm_active r) \<and>
     (az_mode r = SI_AUTHZ_MODE_OBSERVE \<longrightarrow> az_risk r = SI_AUTHZ_RISK_LOW) \<and>
     (az_approval_required r \<longrightarrow> az_approved r)"
  by (simp add: evaluate_allow_iff_fields set_has_iff)

definition browser_hid_request :: si_authorization_request_t where
  "browser_hid_request = \<lparr>az_authenticated = True, az_principal = SI_PRINCIPAL_BROWSER,
     az_capabilities = SI_CAPABILITIES_WEB_DEFAULT, az_required_capability = SI_CAPABILITY_HID,
     az_policy_allowed = True, az_lease_required = True, az_lease_held = True,
     az_human_kvm_active = False, az_mode = SI_AUTHZ_MODE_SUPERVISED, az_risk = SI_AUTHZ_RISK_HIGH,
     az_approval_required = True, az_approved = True\<rparr>"

theorem authorization_allow_iff_witness:
  "si_authorization_evaluate (Some browser_hid_request) = SI_AUTHZ_ALLOW \<and>
   si_authorization_evaluate (Some (browser_hid_request\<lparr>az_human_kvm_active := True\<rparr>)) \<noteq> SI_AUTHZ_ALLOW"
proof -
  have "bit (SI_CAPABILITIES_WEB_DEFAULT :: u32) 3"
    by (simp add: SI_CAPABILITIES_WEB_DEFAULT_def capability_defs)
  then have "\<exists>k<11. (8::u32) = 2 ^ k \<and> bit (SI_CAPABILITIES_WEB_DEFAULT :: u32) k"
    by (intro exI [of _ 3]) simp
  then show ?thesis
    by (simp add: authorization_allow_iff browser_hid_request_def SI_CAPABILITY_HID_def)
qed

text \<open>
  An MCP caller that holds the default MCP capability set is never allowed an action that
  requires power control, settings, OTA, running the agent or storage, whatever the other fields
  of the request say.
\<close>

theorem mcp_default_never_privileged:
  assumes "az_capabilities r = SI_CAPABILITIES_MCP_DEFAULT"
    and "az_required_capability r \<in> {SI_CAPABILITY_POWER, SI_CAPABILITY_SETTINGS,
           SI_CAPABILITY_OTA, SI_CAPABILITY_AGENT_RUN, SI_CAPABILITY_STORAGE}"
  shows "si_authorization_evaluate (Some r) \<noteq> SI_AUTHZ_ALLOW"
proof (rule az.no_capability_no_allow)
  show "\<not> si_capability_set_has (az_capabilities r) (az_required_capability r)"
    using assms
    by (auto simp: si_capability_set_has_def SI_CAPABILITIES_MCP_DEFAULT_def capability_defs)
qed

theorem mcp_default_never_privileged_witness:
  "si_authorization_evaluate (Some (browser_hid_request\<lparr>az_principal := SI_PRINCIPAL_MCP,
     az_capabilities := SI_CAPABILITIES_MCP_DEFAULT, az_required_capability := SI_CAPABILITY_POWER\<rparr>))
   \<noteq> SI_AUTHZ_ALLOW"
  by (rule mcp_default_never_privileged) simp_all

end
