(* ===== verification/Execution_Guard.thy ===== *)
theory Execution_Guard
  imports Authorization
begin

text \<open>
  The last check before an agent's side effect, \<^verbatim>\<open>core/agent_execution_guard.c\<close>: the intent's
  snapshot must still describe the present (not expired, same target, same authorization
  generation, policy revision and lease epoch, grant consumed), and the authorization decision
  must allow it under the intersection of the caller's capabilities with the ceiling of the
  request's origin. The guard is a client of the authorizer contract.
\<close>

section \<open>Data\<close>

definition SI_AGENT_EXECUTION_ID_MAX_LEN :: nat where "SI_AGENT_EXECUTION_ID_MAX_LEN = 64"
definition SI_AGENT_EXECUTION_TOOL_MAX_LEN :: nat where "SI_AGENT_EXECUTION_TOOL_MAX_LEN = 48"
definition SI_AGENT_EXECUTION_TARGET_MAX_LEN :: nat where "SI_AGENT_EXECUTION_TARGET_MAX_LEN = 96"
definition SI_AGENT_EXECUTION_HASH_MAX_LEN :: nat where "SI_AGENT_EXECUTION_HASH_MAX_LEN = 64"

datatype si_agent_execution_decision_t =
    SI_AGENT_EXECUTION_ALLOW
  | SI_AGENT_EXECUTION_DENY_INVALID
  | SI_AGENT_EXECUTION_DENY_EXPIRED
  | SI_AGENT_EXECUTION_DENY_TARGET_MISMATCH
  | SI_AGENT_EXECUTION_DENY_AUTH_CHANGED
  | SI_AGENT_EXECUTION_DENY_POLICY_CHANGED
  | SI_AGENT_EXECUTION_DENY_LEASE_CHANGED
  | SI_AGENT_EXECUTION_DENY_GRANT
  | SI_AGENT_EXECUTION_DENY_AUTHORIZATION

record si_agent_execution_intent_t =
  in_contract_version :: u32
  in_thread_id :: "string option"
  in_turn_id :: "string option"
  in_run_id :: "string option"
  in_step_id :: "string option"
  in_action_id :: "string option"
  in_idempotency_key :: "string option"
  in_tool_name :: "string option"
  in_normalized_args_hash :: "string option"
  in_expected_target_identity :: "string option"
  in_current_target_identity :: "string option"
  in_now_ms :: u64
  in_expires_at_ms :: u64
  in_expected_policy_revision :: u32
  in_current_policy_revision :: u32
  in_expected_lease_epoch :: u32
  in_current_lease_epoch :: u32
  in_expected_auth_generation :: u32
  in_current_auth_generation :: u32
  in_authenticated :: bool
  in_principal :: si_principal_kind_t
  in_principal_capabilities :: si_capability_set_t
  in_origin_authority_ceiling :: si_capability_set_t
  in_required_capability :: si_capability_t
  in_policy_allowed :: bool
  in_lease_required :: bool
  in_lease_held :: bool
  in_human_kvm_active :: bool
  in_mode :: si_authorization_mode_t
  in_risk :: si_authorization_risk_t
  in_approval_required :: bool
  in_grant_consumed :: bool

record si_agent_execution_guard_result_t =
  gr_decision :: si_agent_execution_decision_t
  gr_authorization_decision :: si_authorization_decision_t
  gr_effective_capabilities :: si_capability_set_t
  gr_reason :: string

section \<open>Operations\<close>

text \<open>
  The scan for the terminating NUL at the indices \<open>0 .. limit\<close>; in a string of \<open>n\<close> characters
  the NUL is at index \<open>n\<close>.
\<close>

definition bounded_nonempty :: "string option \<Rightarrow> nat \<Rightarrow> bool" where
  "bounded_nonempty value limit =
     (case value of None \<Rightarrow> False
      | Some s \<Rightarrow> s \<noteq> [] \<and> list_ex (\<lambda>index. index = length s) [0..<limit + 1])"

definition result :: "si_agent_execution_decision_t \<Rightarrow> si_authorization_decision_t \<Rightarrow>
    si_capability_set_t \<Rightarrow> string \<Rightarrow> si_agent_execution_guard_result_t" where
  "result decision authorization effective reason =
     \<lparr>gr_decision = decision, gr_authorization_decision = authorization,
      gr_effective_capabilities = effective, gr_reason = reason\<rparr>"

definition intent_invalid :: "si_agent_execution_intent_t \<Rightarrow> bool" where
  "intent_invalid i \<longleftrightarrow>
     in_contract_version i \<noteq> 1 \<or>
     \<not> bounded_nonempty (in_thread_id i) SI_AGENT_EXECUTION_ID_MAX_LEN \<or>
     \<not> bounded_nonempty (in_turn_id i) SI_AGENT_EXECUTION_ID_MAX_LEN \<or>
     \<not> bounded_nonempty (in_run_id i) SI_AGENT_EXECUTION_ID_MAX_LEN \<or>
     \<not> bounded_nonempty (in_step_id i) SI_AGENT_EXECUTION_ID_MAX_LEN \<or>
     \<not> bounded_nonempty (in_action_id i) SI_AGENT_EXECUTION_ID_MAX_LEN \<or>
     \<not> bounded_nonempty (in_idempotency_key i) SI_AGENT_EXECUTION_ID_MAX_LEN \<or>
     \<not> bounded_nonempty (in_tool_name i) SI_AGENT_EXECUTION_TOOL_MAX_LEN \<or>
     \<not> bounded_nonempty (in_normalized_args_hash i) SI_AGENT_EXECUTION_HASH_MAX_LEN \<or>
     \<not> bounded_nonempty (in_expected_target_identity i) SI_AGENT_EXECUTION_TARGET_MAX_LEN \<or>
     \<not> bounded_nonempty (in_current_target_identity i) SI_AGENT_EXECUTION_TARGET_MAX_LEN \<or>
     in_now_ms i = 0 \<or> in_expires_at_ms i = 0 \<or>
     in_expected_policy_revision i = 0 \<or> in_current_policy_revision i = 0 \<or>
     in_expected_auth_generation i = 0 \<or> in_current_auth_generation i = 0"

definition intent_request :: "si_agent_execution_intent_t \<Rightarrow> si_authorization_request_t" where
  "intent_request i =
     \<lparr>az_authenticated = in_authenticated i, az_principal = in_principal i,
      az_capabilities = in_principal_capabilities i AND in_origin_authority_ceiling i,
      az_required_capability = in_required_capability i, az_policy_allowed = in_policy_allowed i,
      az_lease_required = in_lease_required i, az_lease_held = in_lease_held i,
      az_human_kvm_active = in_human_kvm_active i, az_mode = in_mode i, az_risk = in_risk i,
      az_approval_required = in_approval_required i,
      az_approved = (\<not> in_approval_required i \<or> in_grant_consumed i)\<rparr>"

definition si_agent_execution_guard_evaluate ::
    "si_agent_execution_intent_t option \<Rightarrow> si_agent_execution_guard_result_t" where
  "si_agent_execution_guard_evaluate intent =
     (case intent of
        None \<Rightarrow> result SI_AGENT_EXECUTION_DENY_INVALID SI_AUTHZ_DENY_INVALID_REQUEST 0
                  ''invalid execution intent''
      | Some i \<Rightarrow>
        if intent_invalid i
        then result SI_AGENT_EXECUTION_DENY_INVALID SI_AUTHZ_DENY_INVALID_REQUEST 0
               ''invalid execution intent''
        else let effective = in_principal_capabilities i AND in_origin_authority_ceiling i in
        if in_now_ms i \<ge> in_expires_at_ms i
        then result SI_AGENT_EXECUTION_DENY_EXPIRED SI_AUTHZ_DENY_INVALID_REQUEST effective
               ''execution intent expired''
        else if in_expected_target_identity i \<noteq> in_current_target_identity i
        then result SI_AGENT_EXECUTION_DENY_TARGET_MISMATCH SI_AUTHZ_DENY_INVALID_REQUEST effective
               ''target identity changed''
        else if in_expected_auth_generation i \<noteq> in_current_auth_generation i
        then result SI_AGENT_EXECUTION_DENY_AUTH_CHANGED SI_AUTHZ_DENY_UNAUTHENTICATED effective
               ''source authorization generation changed''
        else if in_expected_policy_revision i \<noteq> in_current_policy_revision i
        then result SI_AGENT_EXECUTION_DENY_POLICY_CHANGED SI_AUTHZ_DENY_POLICY effective
               ''policy revision changed''
        else if in_lease_required i \<and>
                (in_expected_lease_epoch i = 0 \<or> in_current_lease_epoch i = 0 \<or>
                 in_expected_lease_epoch i \<noteq> in_current_lease_epoch i)
        then result SI_AGENT_EXECUTION_DENY_LEASE_CHANGED SI_AUTHZ_DENY_LEASE effective
               ''control lease epoch changed''
        else if in_approval_required i \<and> \<not> in_grant_consumed i
        then result SI_AGENT_EXECUTION_DENY_GRANT SI_AUTHZ_DENY_APPROVAL_REQUIRED effective
               ''single-use grant not consumed''
        else let authorization = si_authorization_evaluate (Some (intent_request i)) in
        if authorization \<noteq> SI_AUTHZ_ALLOW
        then result SI_AGENT_EXECUTION_DENY_AUTHORIZATION authorization effective
               (si_authorization_decision_name authorization)
        else result SI_AGENT_EXECUTION_ALLOW authorization effective ''allow'')"

fun si_agent_execution_decision_name :: "si_agent_execution_decision_t \<Rightarrow> string" where
  "si_agent_execution_decision_name SI_AGENT_EXECUTION_ALLOW = ''allow''"
| "si_agent_execution_decision_name SI_AGENT_EXECUTION_DENY_INVALID = ''invalid''"
| "si_agent_execution_decision_name SI_AGENT_EXECUTION_DENY_EXPIRED = ''expired''"
| "si_agent_execution_decision_name SI_AGENT_EXECUTION_DENY_TARGET_MISMATCH = ''target_mismatch''"
| "si_agent_execution_decision_name SI_AGENT_EXECUTION_DENY_AUTH_CHANGED = ''auth_changed''"
| "si_agent_execution_decision_name SI_AGENT_EXECUTION_DENY_POLICY_CHANGED = ''policy_changed''"
| "si_agent_execution_decision_name SI_AGENT_EXECUTION_DENY_LEASE_CHANGED = ''lease_changed''"
| "si_agent_execution_decision_name SI_AGENT_EXECUTION_DENY_GRANT = ''grant_required''"
| "si_agent_execution_decision_name SI_AGENT_EXECUTION_DENY_AUTHORIZATION = ''authorization_denied''"

section \<open>Lemmas\<close>


lemma gr_decision_result [simp]:
  "gr_decision (result d a e m) = d" "gr_authorization_decision (result d a e m) = a"
  "gr_effective_capabilities (result d a e m) = e"
  by (simp_all add: result_def)

lemma guard_effective:
  "gr_effective_capabilities (si_agent_execution_guard_evaluate (Some i))
     = (if intent_invalid i then 0
        else in_principal_capabilities i AND in_origin_authority_ceiling i)"
  by (simp add: si_agent_execution_guard_evaluate_def Let_def)

lemma guard_allow_iff:
  "gr_decision (si_agent_execution_guard_evaluate (Some i)) = SI_AGENT_EXECUTION_ALLOW \<longleftrightarrow>
     \<not> intent_invalid i \<and> in_now_ms i < in_expires_at_ms i \<and>
     in_expected_target_identity i = in_current_target_identity i \<and>
     in_expected_auth_generation i = in_current_auth_generation i \<and>
     in_expected_policy_revision i = in_current_policy_revision i \<and>
     (in_lease_required i \<longrightarrow> in_expected_lease_epoch i \<noteq> 0 \<and>
        in_expected_lease_epoch i = in_current_lease_epoch i) \<and>
     (in_approval_required i \<longrightarrow> in_grant_consumed i) \<and>
     si_authorization_evaluate (Some (intent_request i)) = SI_AUTHZ_ALLOW"
  by (auto simp: si_agent_execution_guard_evaluate_def Let_def)

section \<open>Properties\<close>


definition sample_intent :: si_agent_execution_intent_t where
  "sample_intent =
     \<lparr>in_contract_version = 1, in_thread_id = Some ''th'', in_turn_id = Some ''tu'',
      in_run_id = Some ''run'', in_step_id = Some ''st'', in_action_id = Some ''ac'',
      in_idempotency_key = Some ''k'', in_tool_name = Some ''uart_write'',
      in_normalized_args_hash = Some ''00'', in_expected_target_identity = Some ''host-1'',
      in_current_target_identity = Some ''host-1'', in_now_ms = 1000, in_expires_at_ms = 2000,
      in_expected_policy_revision = 3, in_current_policy_revision = 3,
      in_expected_lease_epoch = 9, in_current_lease_epoch = 9,
      in_expected_auth_generation = 4, in_current_auth_generation = 4,
      in_authenticated = True, in_principal = SI_PRINCIPAL_AGENT,
      in_principal_capabilities = SI_CAPABILITIES_WEB_DEFAULT,
      in_origin_authority_ceiling = SI_CAPABILITIES_MCP_DEFAULT,
      in_required_capability = SI_CAPABILITY_UART, in_policy_allowed = True,
      in_lease_required = True, in_lease_held = True, in_human_kvm_active = False,
      in_mode = SI_AUTHZ_MODE_SUPERVISED, in_risk = SI_AUTHZ_RISK_HIGH,
      in_approval_required = True, in_grant_consumed = True\<rparr>"


text \<open>
  The guard never hands out more authority than it was given: in every outcome the effective
  capabilities are a subset of both the caller's capabilities and the origin's ceiling, and an
  allowed side effect stays allowed for the caller when the ceiling is taken away.
\<close>

theorem guard_confines_authority:
  "gr_effective_capabilities (si_agent_execution_guard_evaluate (Some i)) AND
     NOT (in_principal_capabilities i AND in_origin_authority_ceiling i) = 0 \<and>
   (gr_decision (si_agent_execution_guard_evaluate (Some i)) = SI_AGENT_EXECUTION_ALLOW \<longrightarrow>
    si_authorization_evaluate
      (Some ((intent_request i)\<lparr>az_capabilities := in_principal_capabilities i\<rparr>)) = SI_AUTHZ_ALLOW)"
proof (intro conjI impI)
  have "x AND NOT x = 0" for x :: u32 by (rule bit_eqI) (simp add: bit_simps)
  then show "gr_effective_capabilities (si_agent_execution_guard_evaluate (Some i)) AND
      NOT (in_principal_capabilities i AND in_origin_authority_ceiling i) = 0"
    by (simp add: guard_effective del: bit.de_Morgan_conj)
next
  assume "gr_decision (si_agent_execution_guard_evaluate (Some i)) = SI_AGENT_EXECUTION_ALLOW"
  then have "si_authorization_evaluate (Some (intent_request i)) = SI_AUTHZ_ALLOW"
    by (simp add: guard_allow_iff)
  moreover have "intent_request i = (intent_request i)\<lparr>az_capabilities :=
      in_principal_capabilities i AND in_origin_authority_ceiling i\<rparr>"
    by (simp add: intent_request_def)
  ultimately show "si_authorization_evaluate
      (Some ((intent_request i)\<lparr>az_capabilities := in_principal_capabilities i\<rparr>)) = SI_AUTHZ_ALLOW"
    using az.attenuated_allow(1) [where r = "intent_request i" and
        s = "in_principal_capabilities i" and t = "in_origin_authority_ceiling i"] by simp
qed

theorem guard_confines_authority_witness:
  "si_authorization_evaluate (Some ((intent_request sample_intent)
     \<lparr>az_capabilities := in_principal_capabilities sample_intent\<rparr>)) = SI_AUTHZ_ALLOW"
proof -
  have "gr_decision (si_agent_execution_guard_evaluate (Some sample_intent)) = SI_AGENT_EXECUTION_ALLOW"
    by code_simp
  then show ?thesis using guard_confines_authority [of sample_intent] by blast
qed

end
