(* ===== verification/Verifier.thy ===== *)
theory Verifier
  imports Prelude
begin

text \<open>
  The deterministic completion gate, \<^verbatim>\<open>core/agent_verifier.c\<close>: an action counts as done only on
  fresh, target-bound evidence from an authoritative issuer. The loop over the evidence is proved
  equal to a declarative reading of it, and the properties follow from that reading.
\<close>

section \<open>Data\<close>

definition SI_AGENT_VERIFY_ID_MAX_LEN :: nat where "SI_AGENT_VERIFY_ID_MAX_LEN = 64"
definition SI_AGENT_VERIFY_TARGET_MAX_LEN :: nat where "SI_AGENT_VERIFY_TARGET_MAX_LEN = 96"
definition SI_AGENT_VERIFY_HASH_MAX_LEN :: nat where "SI_AGENT_VERIFY_HASH_MAX_LEN = 64"
definition SI_AGENT_VERIFY_REASON_MAX_LEN :: nat where "SI_AGENT_VERIFY_REASON_MAX_LEN = 128"

datatype si_agent_evidence_issuer_t =
    SI_AGENT_EVIDENCE_ISSUER_UNSPECIFIED
  | SI_AGENT_EVIDENCE_ISSUER_DEVICE_MANAGER
  | SI_AGENT_EVIDENCE_ISSUER_DEVICE_OBSERVER
  | SI_AGENT_EVIDENCE_ISSUER_ARTIFACT_STORE
  | SI_AGENT_EVIDENCE_ISSUER_TOOL_ADAPTER
  | SI_AGENT_EVIDENCE_ISSUER_MODEL
  | SI_AGENT_EVIDENCE_ISSUER_OTHER u32

datatype si_agent_evidence_kind_t =
    SI_AGENT_EVIDENCE_NONE
  | SI_AGENT_EVIDENCE_OBSERVATION
  | SI_AGENT_EVIDENCE_ARTIFACT
  | SI_AGENT_EVIDENCE_READBACK
  | SI_AGENT_EVIDENCE_TOOL_RETURN
  | SI_AGENT_EVIDENCE_MODEL_ASSERTION
  | SI_AGENT_EVIDENCE_OTHER u32

datatype si_agent_evidence_outcome_t =
    SI_AGENT_EVIDENCE_OUTCOME_UNKNOWN
  | SI_AGENT_EVIDENCE_OUTCOME_MATCH
  | SI_AGENT_EVIDENCE_OUTCOME_MISMATCH
  | SI_AGENT_EVIDENCE_OUTCOME_OTHER u32

datatype si_agent_verification_verdict_t =
    SI_AGENT_VERIFY_PENDING
  | SI_AGENT_VERIFY_PASSED
  | SI_AGENT_VERIFY_FAILED
  | SI_AGENT_VERIFY_UNKNOWN
  | SI_AGENT_VERIFY_INVALID

record si_agent_verification_spec_t =
  vs_mutation :: bool
  vs_require_readback :: bool
  vs_action_started_ms :: u64
  vs_action_id :: "string option"
  vs_target_identity :: "string option"
  vs_completion_criteria_hash :: "string option"
  vs_minimum_generation :: u64
  vs_required_issuer :: si_agent_evidence_issuer_t

record si_agent_evidence_t =
  ev_kind :: si_agent_evidence_kind_t
  ev_outcome :: si_agent_evidence_outcome_t
  ev_captured_ms :: u64
  ev_evidence_id :: "string option"
  ev_artifact_hash :: "string option"
  ev_action_id :: "string option"
  ev_target_identity :: "string option"
  ev_completion_criteria_hash :: "string option"
  ev_generation :: u64
  ev_issuer :: si_agent_evidence_issuer_t

record si_agent_verification_result_t =
  vr_status :: si_agent_verification_verdict_t
  vr_accepted_kind :: si_agent_evidence_kind_t
  vr_accepted_index :: nat
  vr_evidence_id :: string
  vr_reason :: string

text \<open>\<^verbatim>\<open>SIZE_MAX\<close> on the 32-bit target.\<close>

definition SIZE_MAX :: nat where "SIZE_MAX = 4294967295"

section \<open>Operations\<close>

definition bounded_nonempty :: "string option \<Rightarrow> nat \<Rightarrow> bool" where
  "bounded_nonempty value max_len =
     (case value of None \<Rightarrow> False | Some s \<Rightarrow> s \<noteq> [] \<and> min (length s) (max_len + 1) \<le> max_len)"

definition same_required :: "string option \<Rightarrow> string option \<Rightarrow> nat \<Rightarrow> bool" where
  "same_required expected actual max_len \<longleftrightarrow>
     bounded_nonempty expected max_len \<and> bounded_nonempty actual max_len \<and> expected = actual"

definition hex_lower :: "char \<Rightarrow> bool" where
  "hex_lower c \<longleftrightarrow> (48 \<le> ccode c \<and> ccode c \<le> 57) \<or> (97 \<le> ccode c \<and> ccode c \<le> 102)"

definition sha256_hex_valid :: "string option \<Rightarrow> bool" where
  "sha256_hex_valid value =
     (case value of None \<Rightarrow> False
      | Some s \<Rightarrow> min (length s) (SI_AGENT_VERIFY_HASH_MAX_LEN + 1) = SI_AGENT_VERIFY_HASH_MAX_LEN \<and>
                  list_all hex_lower (take SI_AGENT_VERIFY_HASH_MAX_LEN s))"

definition set_reason :: "si_agent_verification_result_t \<Rightarrow> string \<Rightarrow> si_agent_verification_result_t" where
  "set_reason r reason = r\<lparr>vr_reason := c_strlcpy (SI_AGENT_VERIFY_REASON_MAX_LEN + 1) reason\<rparr>"

definition si_agent_evidence_kind_is_authoritative :: "si_agent_evidence_kind_t \<Rightarrow> bool" where
  "si_agent_evidence_kind_is_authoritative kind \<longleftrightarrow>
     kind = SI_AGENT_EVIDENCE_OBSERVATION \<or> kind = SI_AGENT_EVIDENCE_ARTIFACT \<or>
     kind = SI_AGENT_EVIDENCE_READBACK"

definition si_agent_evidence_issuer_is_authoritative :: "si_agent_evidence_issuer_t \<Rightarrow> bool" where
  "si_agent_evidence_issuer_is_authoritative issuer \<longleftrightarrow>
     issuer = SI_AGENT_EVIDENCE_ISSUER_DEVICE_MANAGER \<or>
     issuer = SI_AGENT_EVIDENCE_ISSUER_DEVICE_OBSERVER \<or>
     issuer = SI_AGENT_EVIDENCE_ISSUER_ARTIFACT_STORE"

definition evidence_shape_valid :: "si_agent_evidence_t \<Rightarrow> bool" where
  "evidence_shape_valid item \<longleftrightarrow>
     (case ev_kind item of SI_AGENT_EVIDENCE_NONE \<Rightarrow> False | SI_AGENT_EVIDENCE_OTHER _ \<Rightarrow> False
      | _ \<Rightarrow> True) \<and>
     (case ev_outcome item of SI_AGENT_EVIDENCE_OUTCOME_OTHER _ \<Rightarrow> False | _ \<Rightarrow> True) \<and>
     bounded_nonempty (ev_evidence_id item) SI_AGENT_VERIFY_ID_MAX_LEN \<and>
     bounded_nonempty (ev_action_id item) SI_AGENT_VERIFY_ID_MAX_LEN \<and>
     bounded_nonempty (ev_target_identity item) SI_AGENT_VERIFY_TARGET_MAX_LEN \<and>
     sha256_hex_valid (ev_completion_criteria_hash item) \<and>
     ev_generation item \<noteq> 0 \<and>
     (case ev_issuer item of SI_AGENT_EVIDENCE_ISSUER_UNSPECIFIED \<Rightarrow> False
      | SI_AGENT_EVIDENCE_ISSUER_OTHER _ \<Rightarrow> False | _ \<Rightarrow> True) \<and>
     (ev_kind item = SI_AGENT_EVIDENCE_ARTIFACT \<longrightarrow> sha256_hex_valid (ev_artifact_hash item))"

definition initial_result :: si_agent_verification_result_t where
  "initial_result = \<lparr>vr_status = SI_AGENT_VERIFY_INVALID, vr_accepted_kind = SI_AGENT_EVIDENCE_NONE,
     vr_accepted_index = SIZE_MAX, vr_evidence_id = [], vr_reason = []\<rparr>"

definition spec_invalid ::
    "si_agent_verification_spec_t \<Rightarrow> si_agent_evidence_t list option \<Rightarrow> nat \<Rightarrow> bool" where
  "spec_invalid spec evidence evidence_count \<longleftrightarrow>
     \<not> bounded_nonempty (vs_action_id spec) SI_AGENT_VERIFY_ID_MAX_LEN \<or>
     \<not> bounded_nonempty (vs_target_identity spec) SI_AGENT_VERIFY_TARGET_MAX_LEN \<or>
     \<not> sha256_hex_valid (vs_completion_criteria_hash spec) \<or>
     vs_minimum_generation spec = 0 \<or>
     \<not> si_agent_evidence_issuer_is_authoritative (vs_required_issuer spec) \<or>
     vs_action_started_ms spec = 0 \<or>
     (evidence_count > 0 \<and> evidence = None)"

text \<open>
  The loop over the evidence from \<open>index\<close> on, with the three flags it accumulates, and the
  verdict after the loop. The accumulator \<open>r\<close> is the result struct.
\<close>

definition verify_end :: "si_agent_verification_spec_t \<Rightarrow> si_agent_verification_result_t \<Rightarrow>
    bool \<Rightarrow> bool \<Rightarrow> bool \<Rightarrow> si_agent_verification_result_t" where
  "verify_end spec r saw_authoritative saw_unknown saw_invalid =
     (if saw_unknown
      then set_reason (r\<lparr>vr_status := SI_AGENT_VERIFY_UNKNOWN\<rparr>) ''device evidence outcome is unknown''
      else if saw_authoritative
      then set_reason (r\<lparr>vr_status := SI_AGENT_VERIFY_PENDING\<rparr>)
             ''matching authoritative evidence required''
      else if saw_invalid
      then set_reason (r\<lparr>vr_status := SI_AGENT_VERIFY_INVALID\<rparr>) ''malformed evidence rejected''
      else set_reason (r\<lparr>vr_status := SI_AGENT_VERIFY_PENDING\<rparr>)
             (if vs_mutation spec then ''tool/model success is not mutation evidence''
              else ''fresh observation, artifact, or readback required''))"

fun verify_loop :: "si_agent_verification_spec_t \<Rightarrow> si_agent_verification_result_t \<Rightarrow> nat \<Rightarrow>
    si_agent_evidence_t list \<Rightarrow> bool \<Rightarrow> bool \<Rightarrow> bool \<Rightarrow> si_agent_verification_result_t" where
  "verify_loop spec r index [] saw_authoritative saw_unknown saw_invalid =
     verify_end spec r saw_authoritative saw_unknown saw_invalid"
| "verify_loop spec r index (item # items) saw_authoritative saw_unknown saw_invalid =
     (if \<not> evidence_shape_valid item
      then verify_loop spec r (index + 1) items saw_authoritative saw_unknown True
      else if \<not> si_agent_evidence_kind_is_authoritative (ev_kind item) \<or>
              \<not> si_agent_evidence_issuer_is_authoritative (ev_issuer item)
      then verify_loop spec r (index + 1) items saw_authoritative saw_unknown saw_invalid
      else if vs_require_readback spec \<and> ev_kind item \<noteq> SI_AGENT_EVIDENCE_READBACK
      then verify_loop spec r (index + 1) items saw_authoritative saw_unknown saw_invalid
      else if \<not> same_required (vs_action_id spec) (ev_action_id item) SI_AGENT_VERIFY_ID_MAX_LEN \<or>
              \<not> same_required (vs_target_identity spec) (ev_target_identity item)
                  SI_AGENT_VERIFY_TARGET_MAX_LEN \<or>
              \<not> same_required (vs_completion_criteria_hash spec) (ev_completion_criteria_hash item)
                  SI_AGENT_VERIFY_HASH_MAX_LEN \<or>
              ev_issuer item \<noteq> vs_required_issuer spec \<or>
              ev_generation item < vs_minimum_generation spec \<or>
              ev_captured_ms item \<le> vs_action_started_ms spec
      then verify_loop spec r (index + 1) items saw_authoritative saw_unknown saw_invalid
      else if ev_outcome item = SI_AGENT_EVIDENCE_OUTCOME_UNKNOWN
      then verify_loop spec r (index + 1) items True True saw_invalid
      else let r = r\<lparr>vr_accepted_kind := ev_kind item, vr_accepted_index := index,
                     vr_evidence_id := c_strlcpy (SI_AGENT_VERIFY_ID_MAX_LEN + 1)
                                         (c_or_empty (ev_evidence_id item))\<rparr> in
           if ev_outcome item = SI_AGENT_EVIDENCE_OUTCOME_MISMATCH
           then set_reason (r\<lparr>vr_status := SI_AGENT_VERIFY_FAILED\<rparr>)
                  ''fresh device evidence contradicts expected effect''
           else set_reason (r\<lparr>vr_status := SI_AGENT_VERIFY_PASSED\<rparr>)
                  ''fresh device evidence matches expected effect'')"

definition si_agent_verify :: "si_agent_verification_spec_t option \<Rightarrow>
    si_agent_evidence_t list option \<Rightarrow> nat \<Rightarrow> si_agent_verification_result_t" where
  "si_agent_verify spec evidence evidence_count =
     (case spec of
        None \<Rightarrow> set_reason initial_result ''invalid verification specification''
      | Some sp \<Rightarrow>
        if spec_invalid sp evidence evidence_count
        then set_reason initial_result ''invalid verification specification''
        else if evidence_count = 0
        then set_reason (initial_result\<lparr>vr_status := SI_AGENT_VERIFY_PENDING\<rparr>)
               ''fresh device evidence required''
        else verify_loop sp initial_result 0
               (take evidence_count (case evidence of None \<Rightarrow> [] | Some es \<Rightarrow> es))
               False False False)"

fun si_agent_evidence_kind_name :: "si_agent_evidence_kind_t \<Rightarrow> string" where
  "si_agent_evidence_kind_name SI_AGENT_EVIDENCE_OBSERVATION = ''observation''"
| "si_agent_evidence_kind_name SI_AGENT_EVIDENCE_ARTIFACT = ''artifact''"
| "si_agent_evidence_kind_name SI_AGENT_EVIDENCE_READBACK = ''readback''"
| "si_agent_evidence_kind_name SI_AGENT_EVIDENCE_TOOL_RETURN = ''tool_return''"
| "si_agent_evidence_kind_name SI_AGENT_EVIDENCE_MODEL_ASSERTION = ''model_assertion''"
| "si_agent_evidence_kind_name _ = ''none''"

fun si_agent_verification_status_name :: "si_agent_verification_verdict_t \<Rightarrow> string" where
  "si_agent_verification_status_name SI_AGENT_VERIFY_PENDING = ''pending''"
| "si_agent_verification_status_name SI_AGENT_VERIFY_PASSED = ''passed''"
| "si_agent_verification_status_name SI_AGENT_VERIFY_FAILED = ''failed''"
| "si_agent_verification_status_name SI_AGENT_VERIFY_UNKNOWN = ''unknown''"
| "si_agent_verification_status_name SI_AGENT_VERIFY_INVALID = ''invalid''"

section \<open>A declarative reading\<close>

text \<open>
  Evidence counts when it is well-formed, of an authoritative kind, issued by the required
  authoritative issuer, about this action, target and criteria, of a recent enough generation and
  captured strictly after the action started; a read-back when one is required.
\<close>

definition counts_for :: "si_agent_verification_spec_t \<Rightarrow> si_agent_evidence_t \<Rightarrow> bool" where
  "counts_for spec item \<longleftrightarrow>
     evidence_shape_valid item \<and> si_agent_evidence_kind_is_authoritative (ev_kind item) \<and>
     (vs_require_readback spec \<longrightarrow> ev_kind item = SI_AGENT_EVIDENCE_READBACK) \<and>
     ev_action_id item = vs_action_id spec \<and> ev_target_identity item = vs_target_identity spec \<and>
     ev_completion_criteria_hash item = vs_completion_criteria_hash spec \<and>
     ev_issuer item = vs_required_issuer spec \<and>
     ev_generation item \<ge> vs_minimum_generation spec \<and>
     ev_captured_ms item > vs_action_started_ms spec"

definition decisive :: "si_agent_verification_spec_t \<Rightarrow> si_agent_evidence_t \<Rightarrow> bool" where
  "decisive spec item \<longleftrightarrow> counts_for spec item \<and> ev_outcome item \<noteq> SI_AGENT_EVIDENCE_OUTCOME_UNKNOWN"

definition verdict :: "si_agent_verification_spec_t \<Rightarrow> si_agent_evidence_t list \<Rightarrow>
    si_agent_verification_verdict_t" where
  "verdict spec items =
     (case find (decisive spec) items of
        Some item \<Rightarrow> if ev_outcome item = SI_AGENT_EVIDENCE_OUTCOME_MATCH
                     then SI_AGENT_VERIFY_PASSED else SI_AGENT_VERIFY_FAILED
      | None \<Rightarrow> if \<exists>item \<in> set items. counts_for spec item then SI_AGENT_VERIFY_UNKNOWN
                else if \<exists>item \<in> set items. \<not> evidence_shape_valid item then SI_AGENT_VERIFY_INVALID
                else SI_AGENT_VERIFY_PENDING)"

section \<open>The loop implements the reading\<close>

lemma verifier_bounded_iff:
  "bounded_nonempty v n \<longleftrightarrow> (\<exists>s. v = Some s \<and> s \<noteq> [] \<and> length s \<le> n)"
  by (auto simp: bounded_nonempty_def min_def split: option.splits)

lemma sha256_hex_valid_bounded: "sha256_hex_valid v \<Longrightarrow> bounded_nonempty v SI_AGENT_VERIFY_HASH_MAX_LEN"
  by (auto simp: sha256_hex_valid_def SI_AGENT_VERIFY_HASH_MAX_LEN_def min_def verifier_bounded_iff
      split: option.splits if_splits)

lemma same_required_iff: "bounded_nonempty v n \<Longrightarrow> same_required v w n \<longleftrightarrow> w = v"
  by (auto simp: same_required_def)

lemma vr_status_set_reason [simp]:
  "vr_status (set_reason r m) = vr_status r" "vr_accepted_index (set_reason r m) = vr_accepted_index r"
  "vr_accepted_kind (set_reason r m) = vr_accepted_kind r" "vr_evidence_id (set_reason r m) = vr_evidence_id r"
  by (simp_all add: set_reason_def)

text \<open>For a valid specification the chain of filters is exactly \<^const>\<open>counts_for\<close>.\<close>

definition spec_ok :: "si_agent_verification_spec_t \<Rightarrow> bool" where
  "spec_ok spec \<longleftrightarrow> \<not> spec_invalid spec (Some []) 0"

lemma spec_invalid_Some [simp]: "spec_invalid spec (Some es) n \<longleftrightarrow> \<not> spec_ok spec"
  unfolding spec_ok_def spec_invalid_def by blast

lemma verify_loop_Cons:
  assumes "spec_ok spec"
  shows "verify_loop spec r index (item # items) a u v =
    (if \<not> counts_for spec item
     then verify_loop spec r (index + 1) items a u (v \<or> \<not> evidence_shape_valid item)
     else if ev_outcome item = SI_AGENT_EVIDENCE_OUTCOME_UNKNOWN
     then verify_loop spec r (index + 1) items True True v
     else set_reason (r\<lparr>vr_accepted_kind := ev_kind item, vr_accepted_index := index,
            vr_evidence_id := c_strlcpy (SI_AGENT_VERIFY_ID_MAX_LEN + 1) (c_or_empty (ev_evidence_id item)),
            vr_status := if ev_outcome item = SI_AGENT_EVIDENCE_OUTCOME_MATCH
                         then SI_AGENT_VERIFY_PASSED else SI_AGENT_VERIFY_FAILED\<rparr>)
          (if ev_outcome item = SI_AGENT_EVIDENCE_OUTCOME_MATCH
           then ''fresh device evidence matches expected effect''
           else ''fresh device evidence contradicts expected effect''))"
proof -
  have b: "bounded_nonempty (vs_action_id spec) SI_AGENT_VERIFY_ID_MAX_LEN"
    "bounded_nonempty (vs_target_identity spec) SI_AGENT_VERIFY_TARGET_MAX_LEN"
    "bounded_nonempty (vs_completion_criteria_hash spec) SI_AGENT_VERIFY_HASH_MAX_LEN"
    "si_agent_evidence_issuer_is_authoritative (vs_required_issuer spec)"
    using assms sha256_hex_valid_bounded unfolding spec_ok_def spec_invalid_def by blast+
  have "ev_outcome item \<noteq> SI_AGENT_EVIDENCE_OUTCOME_UNKNOWN \<Longrightarrow> evidence_shape_valid item \<Longrightarrow>
      (ev_outcome item = SI_AGENT_EVIDENCE_OUTCOME_MISMATCH) \<longleftrightarrow>
      ev_outcome item \<noteq> SI_AGENT_EVIDENCE_OUTCOME_MATCH"
    by (auto simp: evidence_shape_valid_def split: si_agent_evidence_outcome_t.splits)
  moreover have "counts_for spec item \<longleftrightarrow>
      evidence_shape_valid item \<and>
      \<not> (\<not> si_agent_evidence_kind_is_authoritative (ev_kind item) \<or>
         \<not> si_agent_evidence_issuer_is_authoritative (ev_issuer item)) \<and>
      \<not> (vs_require_readback spec \<and> ev_kind item \<noteq> SI_AGENT_EVIDENCE_READBACK) \<and>
      \<not> (\<not> same_required (vs_action_id spec) (ev_action_id item) SI_AGENT_VERIFY_ID_MAX_LEN \<or>
         \<not> same_required (vs_target_identity spec) (ev_target_identity item) SI_AGENT_VERIFY_TARGET_MAX_LEN \<or>
         \<not> same_required (vs_completion_criteria_hash spec) (ev_completion_criteria_hash item)
             SI_AGENT_VERIFY_HASH_MAX_LEN \<or>
         ev_issuer item \<noteq> vs_required_issuer spec \<or>
         ev_generation item < vs_minimum_generation spec \<or>
         ev_captured_ms item \<le> vs_action_started_ms spec)"
    using b(4) unfolding counts_for_def
    by (auto simp: same_required_iff [OF b(1)] same_required_iff [OF b(2)] same_required_iff [OF b(3)]
        not_less not_le)
  ultimately show ?thesis by (simp add: Let_def) (auto simp: set_reason_def)
qed

lemma verify_loop_status:
  assumes "spec_ok spec"
  shows "vr_status (verify_loop spec r index items u u v) =
    (case find (decisive spec) items of
       Some item \<Rightarrow> if ev_outcome item = SI_AGENT_EVIDENCE_OUTCOME_MATCH
                    then SI_AGENT_VERIFY_PASSED else SI_AGENT_VERIFY_FAILED
     | None \<Rightarrow> if u \<or> (\<exists>item \<in> set items. counts_for spec item) then SI_AGENT_VERIFY_UNKNOWN
               else if v \<or> (\<exists>item \<in> set items. \<not> evidence_shape_valid item)
               then SI_AGENT_VERIFY_INVALID else SI_AGENT_VERIFY_PENDING)"
proof (induction items arbitrary: index u v)
  case Nil
  then show ?case by (simp add: verify_end_def)
next
  case (Cons item items)
  note step = verify_loop_Cons [OF assms, of r index item items u u v]
  consider "\<not> counts_for spec item" "\<not> decisive spec item"
    | "counts_for spec item" "ev_outcome item = SI_AGENT_EVIDENCE_OUTCOME_UNKNOWN" "\<not> decisive spec item"
    | "counts_for spec item" "ev_outcome item \<noteq> SI_AGENT_EVIDENCE_OUTCOME_UNKNOWN" "decisive spec item"
    by (auto simp: decisive_def)
  then show ?case
  proof cases
    case 1
    then show ?thesis unfolding step by (simp add: Cons.IH cong: option.case_cong)
  next
    case 2
    then show ?thesis unfolding step by (simp add: Cons.IH cong: option.case_cong)
  next
    case 3
    then show ?thesis unfolding step by simp
  qed
qed

lemma verify_loop_accepted:
  assumes "spec_ok spec" "vr_status (verify_loop spec r index items u u v) = SI_AGENT_VERIFY_PASSED"
  shows "\<exists>k<length items. vr_accepted_index (verify_loop spec r index items u u v) = index + k \<and>
    vr_evidence_id (verify_loop spec r index items u u v) = c_or_empty (ev_evidence_id (items ! k)) \<and>
    counts_for spec (items ! k) \<and> ev_outcome (items ! k) = SI_AGENT_EVIDENCE_OUTCOME_MATCH \<and>
    (\<forall>j<k. \<not> decisive spec (items ! j))"
  using assms(2)
proof (induction items arbitrary: index u v)
  case Nil
  then show ?case by (simp add: verify_end_def split: if_splits)
next
  case (Cons item items)
  note step = verify_loop_Cons [OF assms(1), of r index item items u u v]
  show ?case
  proof (cases "decisive spec item")
    case True
    then have c: "counts_for spec item" "ev_outcome item \<noteq> SI_AGENT_EVIDENCE_OUTCOME_UNKNOWN"
      by (simp_all add: decisive_def)
    have "ev_outcome item = SI_AGENT_EVIDENCE_OUTCOME_MATCH"
      using Cons.prems c by (simp only: step) (simp split: if_splits)
    moreover have "length (c_or_empty (ev_evidence_id item)) < SI_AGENT_VERIFY_ID_MAX_LEN + 1"
      using c(1) by (auto simp: counts_for_def evidence_shape_valid_def verifier_bounded_iff)
    ultimately show ?thesis using c by (intro exI [of _ 0]) (simp only: step, simp)
  next
    case False
    obtain u' v' where eq: "verify_loop spec r index (item # items) u u v
        = verify_loop spec r (index + 1) items u' u' v'"
    proof (cases "counts_for spec item")
      case True
      with False have "ev_outcome item = SI_AGENT_EVIDENCE_OUTCOME_UNKNOWN" by (simp add: decisive_def)
      with True that [of True v] show ?thesis by (simp only: step) simp
    next
      case False
      with that [of u "v \<or> \<not> evidence_shape_valid item"] show ?thesis by (simp only: step) simp
    qed
    obtain k where k: "k < length items"
      "vr_accepted_index (verify_loop spec r (index + 1) items u' u' v') = index + 1 + k"
      "vr_evidence_id (verify_loop spec r (index + 1) items u' u' v') = c_or_empty (ev_evidence_id (items ! k))"
      "counts_for spec (items ! k)" "ev_outcome (items ! k) = SI_AGENT_EVIDENCE_OUTCOME_MATCH"
      "\<forall>j<k. \<not> decisive spec (items ! j)"
      using Cons.IH [of "index + 1" u' v'] Cons.prems eq by auto
    then show ?thesis using False eq
      by (intro exI [of _ "Suc k"]) (auto simp: less_Suc_eq_0_disj)
  qed
qed

lemma verify_status_eq:
  "vr_status (si_agent_verify (Some spec) (Some items) (length items)) =
     (if spec_ok spec then verdict spec items else SI_AGENT_VERIFY_INVALID)"
  by (simp add: si_agent_verify_def verify_loop_status verdict_def initial_result_def
      cong: option.case_cong split: option.split)

section \<open>Properties\<close>

text \<open>
  On every specification and every list of evidence the verifier returns the declarative
  verdict: invalid for an invalid specification; otherwise the first piece of evidence that
  counts and is not inconclusive decides between passed and failed; with none, the outcome is
  unknown if some evidence counted, invalid if some was malformed, and pending otherwise.
\<close>

theorem verify_status_verdict:
  "vr_status (si_agent_verify (Some spec) (Some items) (length items)) =
     (if spec_ok spec then verdict spec items else SI_AGENT_VERIFY_INVALID)"
  by (rule verify_status_eq)

text \<open>
  C4: a passed verification names one piece of evidence, which counts for this action (fresh,
  target-bound, authoritative kind and issuer, not a tool return or a model statement) and
  matches the expected effect, and no evidence before it contradicts the effect.
\<close>

theorem verify_passed_sound:
  assumes "vr_status (si_agent_verify (Some spec) (Some items) (length items)) = SI_AGENT_VERIFY_PASSED"
  shows "\<exists>k<length items.
     vr_accepted_index (si_agent_verify (Some spec) (Some items) (length items)) = k \<and>
     Some (vr_evidence_id (si_agent_verify (Some spec) (Some items) (length items))) = ev_evidence_id (items ! k) \<and>
     counts_for spec (items ! k) \<and> ev_outcome (items ! k) = SI_AGENT_EVIDENCE_OUTCOME_MATCH \<and>
     ev_kind (items ! k) \<notin> {SI_AGENT_EVIDENCE_TOOL_RETURN, SI_AGENT_EVIDENCE_MODEL_ASSERTION} \<and>
     ev_issuer (items ! k) \<notin> {SI_AGENT_EVIDENCE_ISSUER_TOOL_ADAPTER, SI_AGENT_EVIDENCE_ISSUER_MODEL} \<and>
     (\<forall>j<k. counts_for spec (items ! j) \<longrightarrow> ev_outcome (items ! j) = SI_AGENT_EVIDENCE_OUTCOME_UNKNOWN)"
proof -
  have ok: "spec_ok spec" using assms by (simp add: verify_status_eq split: if_splits)
  then have issuer: "si_agent_evidence_issuer_is_authoritative (vs_required_issuer spec)"
    by (simp add: spec_ok_def spec_invalid_def)
  have ne: "items \<noteq> []" using assms ok by (auto simp: si_agent_verify_def initial_result_def)
  then have eq: "si_agent_verify (Some spec) (Some items) (length items)
      = verify_loop spec initial_result 0 items False False False"
    using ok by (simp add: si_agent_verify_def)
  obtain k where k: "k < length items"
    "vr_accepted_index (verify_loop spec initial_result 0 items False False False) = k"
    "vr_evidence_id (verify_loop spec initial_result 0 items False False False)
       = c_or_empty (ev_evidence_id (items ! k))"
    "counts_for spec (items ! k)" "ev_outcome (items ! k) = SI_AGENT_EVIDENCE_OUTCOME_MATCH"
    "\<forall>j<k. \<not> decisive spec (items ! j)"
    using verify_loop_accepted [OF ok assms [unfolded eq]] by auto
  have "ev_evidence_id (items ! k) \<noteq> None"
    using k(4) by (auto simp: counts_for_def evidence_shape_valid_def verifier_bounded_iff)
  moreover have "ev_kind (items ! k) \<notin> {SI_AGENT_EVIDENCE_TOOL_RETURN, SI_AGENT_EVIDENCE_MODEL_ASSERTION}"
    using k(4) by (auto simp: counts_for_def si_agent_evidence_kind_is_authoritative_def)
  moreover have "ev_issuer (items ! k) \<notin> {SI_AGENT_EVIDENCE_ISSUER_TOOL_ADAPTER, SI_AGENT_EVIDENCE_ISSUER_MODEL}"
    using k(4) issuer by (auto simp: counts_for_def si_agent_evidence_issuer_is_authoritative_def)
  ultimately show ?thesis using k unfolding eq by (intro exI [of _ k]) (auto simp: decisive_def)
qed

definition sample_spec :: si_agent_verification_spec_t where
  "sample_spec = \<lparr>vs_mutation = True, vs_require_readback = True, vs_action_started_ms = 10,
     vs_action_id = Some ''a1'', vs_target_identity = Some ''host-1'',
     vs_completion_criteria_hash = Some (replicate 64 CHR ''a''), vs_minimum_generation = 2,
     vs_required_issuer = SI_AGENT_EVIDENCE_ISSUER_DEVICE_MANAGER\<rparr>"

definition sample_evidence :: si_agent_evidence_t where
  "sample_evidence = \<lparr>ev_kind = SI_AGENT_EVIDENCE_READBACK, ev_outcome = SI_AGENT_EVIDENCE_OUTCOME_MATCH,
     ev_captured_ms = 11, ev_evidence_id = Some ''e1'', ev_artifact_hash = None,
     ev_action_id = Some ''a1'', ev_target_identity = Some ''host-1'',
     ev_completion_criteria_hash = Some (replicate 64 CHR ''a''), ev_generation = 3,
     ev_issuer = SI_AGENT_EVIDENCE_ISSUER_DEVICE_MANAGER\<rparr>"

theorem verify_passed_sound_witness:
  "\<exists>k<2. counts_for sample_spec
     ([sample_evidence\<lparr>ev_kind := SI_AGENT_EVIDENCE_TOOL_RETURN\<rparr>, sample_evidence] ! k)"
proof -
  let ?items = "[sample_evidence\<lparr>ev_kind := SI_AGENT_EVIDENCE_TOOL_RETURN\<rparr>, sample_evidence]"
  have "vr_status (si_agent_verify (Some sample_spec) (Some ?items) (length ?items)) = SI_AGENT_VERIFY_PASSED"
    by (simp add: si_agent_verify_def spec_ok_def spec_invalid_def sample_spec_def sample_evidence_def
        bounded_nonempty_def sha256_hex_valid_def SI_AGENT_VERIFY_HASH_MAX_LEN_def list_all_iff
        hex_lower_def SI_AGENT_VERIFY_ID_MAX_LEN_def SI_AGENT_VERIFY_TARGET_MAX_LEN_def
        si_agent_evidence_issuer_is_authoritative_def evidence_shape_valid_def same_required_def
        si_agent_evidence_kind_is_authoritative_def)
  from verify_passed_sound [OF this] obtain k where "k < length ?items" "counts_for sample_spec (?items ! k)"
    by blast
  moreover have "length ?items = 2" by simp
  ultimately show ?thesis by metis
qed

text \<open>
  Tool returns and model statements never change the verdict towards or away from passed or
  failed: dropping every piece of evidence of a non-authoritative kind or issuer leaves both
  verdicts as they were.
\<close>

theorem verify_ignores_claims:
  "let authoritative = filter (\<lambda>e. si_agent_evidence_kind_is_authoritative (ev_kind e) \<and>
         si_agent_evidence_issuer_is_authoritative (ev_issuer e)) items;
       full = vr_status (si_agent_verify (Some spec) (Some items) (length items));
       reduced = vr_status (si_agent_verify (Some spec) (Some authoritative) (length authoritative))
   in (full = SI_AGENT_VERIFY_PASSED \<longleftrightarrow> reduced = SI_AGENT_VERIFY_PASSED) \<and>
      (full = SI_AGENT_VERIFY_FAILED \<longleftrightarrow> reduced = SI_AGENT_VERIFY_FAILED)"
proof (cases "spec_ok spec")
  case True
  then have issuer: "si_agent_evidence_issuer_is_authoritative (vs_required_issuer spec)"
    by (simp add: spec_ok_def spec_invalid_def)
  have "find (decisive spec) (filter (\<lambda>e. si_agent_evidence_kind_is_authoritative (ev_kind e) \<and>
      si_agent_evidence_issuer_is_authoritative (ev_issuer e)) items) = find (decisive spec) items"
    using issuer by (induction items) (auto simp: decisive_def counts_for_def)
  then show ?thesis using True
    by (auto simp: verify_status_eq verdict_def Let_def split: option.split)
next
  case False
  then show ?thesis by (simp add: verify_status_eq)
qed

end
