(* ===== verification/Contracts.thy ===== *)
theory Contracts
  imports Prelude
begin

text \<open>
  The contracts several components of the firmware implement, as locales, with the lemmas their
  clients need proved once: state machines with an invariant, wrapping generation counters that
  skip zero, and ring buffers seen as lists.
\<close>

section \<open>State machines with an invariant\<close>

primrec run_ops :: "('s \<Rightarrow> 'op \<Rightarrow> 's) \<Rightarrow> 's \<Rightarrow> 'op list \<Rightarrow> 's" where
  "run_ops step s [] = s"
| "run_ops step s (x # xs) = run_ops step (step s x) xs"

lemma run_ops_append [simp]:
  "run_ops step s (xs @ ys) = run_ops step (run_ops step s xs) ys"
  by (induction xs arbitrary: s) simp_all

locale invariant_machine =
  fixes step :: "'s \<Rightarrow> 'op \<Rightarrow> 's"
    and inv :: "'s \<Rightarrow> bool"
  assumes step_inv: "inv s \<Longrightarrow> inv (step s x)"
begin

lemma run_inv: "inv s \<Longrightarrow> inv (run_ops step s xs)"
  by (induction xs arbitrary: s) (simp_all add: step_inv)

lemma run_prefix_inv: "inv s \<Longrightarrow> prefix ys xs \<Longrightarrow> inv (run_ops step s ys)"
  by (rule run_inv)

text \<open>A quantity that no step decreases is monotone along every run.\<close>

lemma run_mono:
  fixes f :: "'s \<Rightarrow> 'b::preorder"
  assumes mono: "\<And>t x. inv t \<Longrightarrow> f t \<le> f (step t x)"
  shows "inv s \<Longrightarrow> f s \<le> f (run_ops step s xs)"
proof (induction xs arbitrary: s)
  case Nil
  then show ?case by simp
next
  case (Cons x xs)
  have "f s \<le> f (step s x)" using Cons.prems by (rule mono)
  also have "\<dots> \<le> f (run_ops step (step s x) xs)"
    by (rule Cons.IH) (rule step_inv [OF Cons.prems])
  finally show ?case by simp
qed

end

section \<open>Wrapping generation counters\<close>

text \<open>
  Tokens and leases carry a 32-bit generation in which zero means ``none''. A counter bumps it
  modulo the width and skips zero. The laws are what a holder of an old generation relies on.
\<close>

locale generation_counter =
  fixes bump :: "u32 \<Rightarrow> u32"
  assumes bump_succ: "unat g < 2 ^ 32 - 1 \<Longrightarrow> unat (bump g) = Suc (unat g)"
    and bump_wrap: "unat g = 2 ^ 32 - 1 \<Longrightarrow> bump g = 1"
begin

lemma bump_nonzero: "bump g \<noteq> 0"
proof (cases "unat g < 2 ^ 32 - 1")
  case True
  then have "unat (bump g) = Suc (unat g)" by (rule bump_succ)
  then show ?thesis by auto
next
  case False
  moreover have "unat g < 2 ^ 32" by (rule unat_u32_less)
  ultimately have "unat g = 2 ^ 32 - 1" by simp
  then show ?thesis by (simp add: bump_wrap)
qed

lemma unat_bump:
  assumes "g \<noteq> 0"
  shows "unat (bump g) = unat g mod (2 ^ 32 - 1) + 1"
proof (cases "unat g < 2 ^ 32 - 1")
  case True
  then show ?thesis by (simp add: bump_succ)
next
  case False
  moreover have "unat g < 2 ^ 32" by (rule unat_u32_less)
  ultimately have "unat g = 2 ^ 32 - 1" by simp
  then show ?thesis by (simp add: bump_wrap)
qed

lemma bump_pow_nonzero: "g \<noteq> 0 \<Longrightarrow> (bump ^^ k) g \<noteq> 0"
  by (cases k) (simp_all add: bump_nonzero)

lemma unat_bump_pow:
  assumes "g \<noteq> 0"
  shows "unat ((bump ^^ k) g) = (unat g - 1 + k) mod (2 ^ 32 - 1) + 1"
proof (induction k)
  case 0
  have "unat g < 2 ^ 32" by (rule unat_u32_less)
  moreover have "0 < unat g" using assms by (simp add: unat_gt_0)
  ultimately show ?case by simp
next
  case (Suc k)
  have "unat ((bump ^^ Suc k) g) = unat ((bump ^^ k) g) mod (2 ^ 32 - 1) + 1"
    using unat_bump [OF bump_pow_nonzero [OF assms, of k]] by simp
  also have "\<dots> = (unat g - 1 + Suc k) mod (2 ^ 32 - 1) + 1"
    by (simp add: Suc mod_Suc_eq)
  finally show ?case .
qed

text \<open>
  A generation is not reissued before the counter has gone through all the other
  \<open>2\<^sup>3\<^sup>2 - 2\<close> nonzero values.
\<close>

lemma bump_pow_fresh:
  assumes "g \<noteq> 0" "0 < k" "k < 2 ^ 32 - 1"
  shows "(bump ^^ k) g \<noteq> g"
proof
  assume "(bump ^^ k) g = g"
  then have eq: "unat g = (unat g - 1 + k) mod (2 ^ 32 - 1) + 1"
    using unat_bump_pow [OF assms(1), of k] by metis
  have pos: "0 < unat g" using assms(1) by (simp add: unat_gt_0)
  have lt: "unat g < 2 ^ 32" by (rule unat_u32_less)
  have "(unat g - 1 + k) mod (2 ^ 32 - 1) = unat g - 1" using eq by linarith
  then have "(unat g - 1 + k) mod (2 ^ 32 - 1) = (unat g - 1) mod (2 ^ 32 - 1)"
    using lt pos by simp
  then have "(2 ^ 32 - 1) dvd (unat g - 1 + k - (unat g - 1))"
    by (subst (asm) mod_eq_dvd_iff_nat) auto
  then have "(2 ^ 32 - 1) dvd k" by simp
  then show False using assms(2,3) by (auto dest: dvd_imp_le)
qed

lemma bump_neq: "bump g \<noteq> g"
proof (cases "g = 0")
  case True
  then show ?thesis using bump_nonzero by metis
next
  case False
  then show ?thesis using bump_pow_fresh [of g 1] by simp
qed

end

text \<open>The usual way to write such a counter in C.\<close>

lemma succ_skip_zero_counter: "generation_counter (\<lambda>g. if g + 1 = 0 then 1 else g + 1)"
proof
  fix g :: u32
  have size: "unat g < 2 ^ 32" by (rule unat_u32_less)
  show "unat (if g + 1 = 0 then 1 else g + 1) = Suc (unat g)" if "unat g < 2 ^ 32 - 1"
  proof -
    have "unat (g + 1) = Suc (unat g)"
      using that by (subst unat_word_ariths) simp
    then show ?thesis by auto
  qed
  show "(if g + 1 = 0 then 1 else g + 1) = 1" if "unat g = 2 ^ 32 - 1"
  proof -
    have "unat (g + 1) = 0"
      using that by (subst unat_word_ariths) simp
    then show ?thesis by (simp add: unat_eq_0)
  qed
qed

section \<open>Ring buffers\<close>

text \<open>
  The contents of a ring of \<open>length buf\<close> slots, oldest first, when the oldest entry is at
  \<open>start\<close> and \<open>count\<close> slots are in use.
\<close>

definition ring_contents :: "'a list \<Rightarrow> nat \<Rightarrow> nat \<Rightarrow> 'a list" where
  "ring_contents buf start count = map (\<lambda>i. buf ! ((start + i) mod length buf)) [0..<count]"

lemma length_ring_contents [simp]: "length (ring_contents buf start count) = count"
  by (simp add: ring_contents_def)

lemma ring_contents_nth:
  "i < count \<Longrightarrow> ring_contents buf start count ! i = buf ! ((start + i) mod length buf)"
  by (simp add: ring_contents_def)

lemma ring_contents_0 [simp]: "ring_contents buf start 0 = []"
  by (simp add: ring_contents_def)

lemma ring_index_inj:
  fixes i j :: nat
  assumes "(s + i) mod n = (s + j) mod n" "i < n" "j < n"
  shows "i = j"
proof -
  have "n dvd (j - i)" if "i \<le> j" and "(s + j) mod n = (s + i) mod n" for i j
    using that mod_eq_dvd_iff_nat [of "s + i" "s + j" n] by simp
  then have "j - i = 0" "i - j = 0"
    using assms by (metis diff_is_0_eq dvd_imp_le le_cases less_imp_diff_less linorder_not_less
        zero_less_iff_neq_zero)+
  then show ?thesis by simp
qed

text \<open>Appending to a ring that is not full.\<close>

lemma ring_contents_push:
  assumes "count < length buf"
  shows "ring_contents (buf[(start + count) mod length buf := x]) start (Suc count)
           = ring_contents buf start count @ [x]"
proof (rule nth_equalityI)
  show "length (ring_contents (buf[(start + count) mod length buf := x]) start (Suc count))
          = length (ring_contents buf start count @ [x])" by simp
next
  fix i
  assume "i < length (ring_contents (buf[(start + count) mod length buf := x]) start (Suc count))"
  then have i: "i < Suc count" by simp
  have pos: "(start + i) mod length buf < length buf" "(start + count) mod length buf < length buf"
    using assms by (auto intro!: mod_less_divisor)
  have ne: "(start + i) mod length buf \<noteq> (start + count) mod length buf" if "i < count"
    using that assms ring_index_inj [of start i "length buf" count] by auto
  show "ring_contents (buf[(start + count) mod length buf := x]) start (Suc count) ! i
          = (ring_contents buf start count @ [x]) ! i"
    using i pos ne by (cases "i = count") (auto simp: ring_contents_nth nth_append nth_list_update)
qed

text \<open>Removing the oldest entry; the freed slot may be overwritten.\<close>

lemma ring_contents_pop:
  assumes "0 < count" "count \<le> length buf" "start < length buf"
  shows "ring_contents (buf[start := x]) (Suc start mod length buf) (count - 1)
           = tl (ring_contents buf start count)"
proof (rule nth_equalityI)
  fix i
  assume "i < length (ring_contents (buf[start := x]) (Suc start mod length buf) (count - 1))"
  then have i: "i < count - 1" by simp
  have idx: "(Suc start mod length buf + i) mod length buf = (start + Suc i) mod length buf"
    by (simp add: mod_simps)
  have "(start + Suc i) mod length buf \<noteq> (start + 0) mod length buf"
  proof
    assume "(start + Suc i) mod length buf = (start + 0) mod length buf"
    moreover have "Suc i < length buf" "0 < length buf" using i assms by linarith+
    ultimately show False using ring_index_inj by blast
  qed
  then have "(start + Suc i) mod length buf \<noteq> start" using assms(3) by simp
  then show "ring_contents (buf[start := x]) (Suc start mod length buf) (count - 1) ! i
               = tl (ring_contents buf start count) ! i"
    using i by (simp add: ring_contents_nth nth_tl idx)
qed simp

lemma ring_contents_hd:
  assumes "0 < count" "start < length buf"
  shows "hd (ring_contents buf start count) = buf ! start"
  using assms by (simp add: ring_contents_def hd_map del: upt_Suc)

text \<open>Overwriting the oldest entry of a full ring.\<close>

lemma ring_contents_overwrite:
  assumes "start < length buf"
  shows "ring_contents (buf[start := x]) (Suc start mod length buf) (length buf)
           = tl (ring_contents buf start (length buf)) @ [x]"
proof -
  let ?n = "length buf"
  let ?b = "buf[start := x]"
  have pop: "ring_contents ?b (Suc start mod ?n) (?n - 1) = tl (ring_contents buf start ?n)"
    using assms by (intro ring_contents_pop) auto
  have last: "(Suc start mod ?n + (?n - 1)) mod ?n = start"
  proof -
    have "(Suc start mod ?n + (?n - 1)) mod ?n = (Suc start + (?n - 1)) mod ?n"
      by (rule mod_add_left_eq)
    also have "Suc start + (?n - 1) = start + ?n" using assms by simp
    finally show ?thesis using assms by simp
  qed
  have "ring_contents (?b[(Suc start mod ?n + (?n - 1)) mod length ?b := x]) (Suc start mod ?n)
          (Suc (?n - 1)) = ring_contents ?b (Suc start mod ?n) (?n - 1) @ [x]"
    using assms by (intro ring_contents_push) auto
  moreover have "Suc (?n - 1) = ?n" using assms by simp
  ultimately show ?thesis using assms pop last by (simp del: Suc_diff_1)
qed

lemma set_ring_contents_subset:
  assumes "buf \<noteq> []"
  shows "set (ring_contents buf start count) \<subseteq> set buf"
  using assms by (auto simp: ring_contents_def)

section \<open>Operation slots guarded by generation tokens\<close>

text \<open>
  A table of slots, each held by at most one operation at a time. Beginning an operation issues a
  token (the slot and a fresh generation); only the token of the running operation can finish or
  cancel it, and a token whose operation is over reads as cancelled.
\<close>

datatype ('r, 'x) slot_op = Begin 'r 'x | Finish 'r u32 | Cancel 'r u32

definition slot_step :: "('s \<Rightarrow> 'r \<Rightarrow> 'x \<Rightarrow> ('s \<times> u32) option) \<Rightarrow> ('s \<Rightarrow> 'r \<Rightarrow> u32 \<Rightarrow> 's option) \<Rightarrow>
    ('s \<Rightarrow> 'r \<Rightarrow> u32 \<Rightarrow> 's option) \<Rightarrow> 's \<Rightarrow> ('r, 'x) slot_op \<Rightarrow> 's" where
  "slot_step begin_op finish_op cancel_op s x =
     (case x of
        Begin r a \<Rightarrow> (case begin_op s r a of None \<Rightarrow> s | Some (t, g) \<Rightarrow> t)
      | Finish r g \<Rightarrow> (case finish_op s r g of None \<Rightarrow> s | Some t \<Rightarrow> t)
      | Cancel r g \<Rightarrow> (case cancel_op s r g of None \<Rightarrow> s | Some t \<Rightarrow> t))"

locale operation_slots = generation_counter bump
  for bump :: "u32 \<Rightarrow> u32" +
  fixes begin_op :: "'s \<Rightarrow> 'r \<Rightarrow> 'x \<Rightarrow> ('s \<times> u32) option"
    and finish_op :: "'s \<Rightarrow> 'r \<Rightarrow> u32 \<Rightarrow> 's option"
    and cancel_op :: "'s \<Rightarrow> 'r \<Rightarrow> u32 \<Rightarrow> 's option"
    and revoked :: "'s \<Rightarrow> 'r \<Rightarrow> u32 \<Rightarrow> bool"
    and active :: "'s \<Rightarrow> 'r \<Rightarrow> bool"
    and generation :: "'s \<Rightarrow> 'r \<Rightarrow> u32"
    and inv :: "'s \<Rightarrow> bool"
  assumes begin_inv: "inv s \<Longrightarrow> begin_op s r a = Some (t, g) \<Longrightarrow> inv t"
    and begin_free: "inv s \<Longrightarrow> begin_op s r a = Some (t, g) \<Longrightarrow> \<not> active s r"
    and begin_active: "inv s \<Longrightarrow> begin_op s r a = Some (t, g) \<Longrightarrow> active t = (active s)(r := True)"
    and begin_generation: "inv s \<Longrightarrow> begin_op s r a = Some (t, g) \<Longrightarrow>
      g = bump (generation s r) \<and> generation t = (generation s)(r := g)"
    and finish_inv: "inv s \<Longrightarrow> finish_op s r g = Some t \<Longrightarrow> inv t"
    and finish_active: "inv s \<Longrightarrow> finish_op s r g = Some t \<Longrightarrow>
      active s r \<and> generation s r = g \<and> active t = (active s)(r := False)"
    and finish_generation: "inv s \<Longrightarrow> finish_op s r g = Some t \<Longrightarrow> generation t = generation s"
    and finish_own: "inv s \<Longrightarrow> active s r \<Longrightarrow> finish_op s r (generation s r) \<noteq> None"
    and cancel_inv: "inv s \<Longrightarrow> cancel_op s r g = Some t \<Longrightarrow> inv t"
    and cancel_active: "inv s \<Longrightarrow> cancel_op s r g = Some t \<Longrightarrow>
      active s r \<and> generation s r = g \<and> active t = active s \<and> generation t = generation s"
    and revoked_dead: "inv s \<Longrightarrow> \<not> active s r \<or> generation s r \<noteq> g \<Longrightarrow> revoked s r g"
    and active_generation: "inv s \<Longrightarrow> active s r \<Longrightarrow> generation s r \<noteq> 0"
begin

abbreviation step :: "'s \<Rightarrow> ('r, 'x) slot_op \<Rightarrow> 's" where
  "step \<equiv> slot_step begin_op finish_op cancel_op"

lemma slot_step_inv:
  assumes "inv s"
  shows "inv (step s x)"
proof (cases x)
  case (Begin q a)
  show ?thesis
  proof (cases "begin_op s q a")
    case (Some p)
    then obtain t g where "begin_op s q a = Some (t, g)" by (cases p) simp
    with begin_inv [OF assms this] show ?thesis by (simp add: slot_step_def Begin)
  qed (simp add: slot_step_def Begin assms)
next
  case (Finish q g)
  show ?thesis
  proof (cases "finish_op s q g")
    case (Some t)
    with finish_inv [OF assms this] show ?thesis by (simp add: slot_step_def Finish)
  qed (simp add: slot_step_def Finish assms)
next
  case (Cancel q g)
  show ?thesis
  proof (cases "cancel_op s q g")
    case (Some t)
    with cancel_inv [OF assms this] show ?thesis by (simp add: slot_step_def Cancel)
  qed (simp add: slot_step_def Cancel assms)
qed

sublocale machine: invariant_machine step inv
  by unfold_locales (rule slot_step_inv)

lemma active_step:
  assumes "inv s"
  shows "(generation (step s x) r = generation s r \<and> (active (step s x) r \<longrightarrow> active s r)) \<or>
         (\<not> active s r \<and> generation (step s x) r = bump (generation s r))"
proof (cases x)
  case (Begin q a)
  show ?thesis
  proof (cases "begin_op s q a")
    case (Some p)
    then obtain t g where op: "begin_op s q a = Some (t, g)" by (cases p) simp
    have "step s x = t" by (simp add: slot_step_def Begin op)
    then show ?thesis
      using begin_free [OF assms op] begin_active [OF assms op] begin_generation [OF assms op]
      by (cases "q = r") simp_all
  qed (simp add: slot_step_def Begin)
next
  case (Finish q g)
  show ?thesis
  proof (cases "finish_op s q g")
    case (Some t)
    have "step s x = t" by (simp add: slot_step_def Finish Some)
    then show ?thesis
      using finish_active [OF assms Some] finish_generation [OF assms Some] by simp
  qed (simp add: slot_step_def Finish)
next
  case (Cancel q g)
  show ?thesis
  proof (cases "cancel_op s q g")
    case (Some t)
    have "step s x = t" by (simp add: slot_step_def Cancel Some)
    then show ?thesis using cancel_active [OF assms Some] by simp
  qed (simp add: slot_step_def Cancel)
qed

text \<open>Along a run a slot's generation only moves by bumps, and a free slot stays free until one.\<close>

lemma run_generation:
  assumes "inv s"
  shows "\<exists>k\<le>length xs. generation (run_ops step s xs) r = (bump ^^ k) (generation s r) \<and>
           (k = 0 \<longrightarrow> active (run_ops step s xs) r \<longrightarrow> active s r)"
  using assms
proof (induction xs rule: rev_induct)
  case Nil
  then show ?case by (intro exI [of _ 0]) simp
next
  case (snoc x xs)
  let ?t = "run_ops step s xs"
  obtain k where k: "k \<le> length xs" "generation ?t r = (bump ^^ k) (generation s r)"
    "k = 0 \<longrightarrow> active ?t r \<longrightarrow> active s r" using snoc by blast
  have "inv ?t" using snoc.prems by (rule machine.run_inv)
  from active_step [OF this, of x r] show ?case
  proof
    assume "generation (step ?t x) r = generation ?t r \<and> (active (step ?t x) r \<longrightarrow> active ?t r)"
    then show ?thesis using k by (intro exI [of _ k]) auto
  next
    assume "\<not> active ?t r \<and> generation (step ?t x) r = bump (generation ?t r)"
    then show ?thesis using k by (intro exI [of _ "Suc k"]) auto
  qed
qed

text \<open>
  A token whose operation is over stays dead: no sequence of fewer than \<open>2\<^sup>3\<^sup>2 - 1\<close> operations
  makes it valid again, so it can neither finish nor be taken for a running operation.
\<close>

lemma stale_token_dead:
  assumes "inv s" "\<not> active s r" "generation s r = g" "g \<noteq> 0" "length xs < 2 ^ 32 - 1"
  shows "revoked (run_ops step s xs) r g \<and> finish_op (run_ops step s xs) r g = None"
proof -
  let ?t = "run_ops step s xs"
  obtain k where k: "k \<le> length xs" "generation ?t r = (bump ^^ k) g"
    "k = 0 \<longrightarrow> active ?t r \<longrightarrow> active s r" using run_generation [OF assms(1), of xs r] assms(3) by auto
  have inv: "inv ?t" using assms(1) by (rule machine.run_inv)
  have "\<not> active ?t r \<or> generation ?t r \<noteq> g"
  proof (cases "k = 0")
    case True
    then show ?thesis using k(3) assms(2) by simp
  next
    case False
    then have "(bump ^^ k) g \<noteq> g" using k(1) assms(4,5) by (intro bump_pow_fresh) auto
    then show ?thesis using k(2) by simp
  qed
  then show ?thesis using revoked_dead [OF inv] finish_active [OF inv]
    by (cases "finish_op ?t r g") auto
qed

lemma exclusive: "inv s \<Longrightarrow> active s r \<Longrightarrow> begin_op s r a = None"
  using begin_free by (cases "begin_op s r a") auto

end

section \<open>Streams fed in chunks\<close>

text \<open>
  A component that consumes a byte stream as it arrives must not depend on how the stream was cut.
  It is enough that feeding two pieces in turn is feeding them joined.
\<close>

primrec feed_all :: "('s \<Rightarrow> 'a list \<Rightarrow> 's \<times> 'b list) \<Rightarrow> 's \<Rightarrow> 'a list list \<Rightarrow> 's \<times> 'b list" where
  "feed_all feed s [] = (s, [])"
| "feed_all feed s (c # cs) =
     (case feed s c of (t, out) \<Rightarrow> case feed_all feed t cs of (u, out') \<Rightarrow> (u, out @ out'))"

locale chunked_stream =
  fixes feed :: "'s \<Rightarrow> 'a list \<Rightarrow> 's \<times> 'b list"
  assumes feed_nil: "feed s [] = (s, [])"
    and feed_append: "feed s (xs @ ys) =
      (case feed s xs of (t, out) \<Rightarrow> case feed t ys of (u, out') \<Rightarrow> (u, out @ out'))"
begin

lemma feed_concat: "feed_all feed s chunks = feed s (concat chunks)"
  by (induction chunks arbitrary: s) (simp_all add: feed_nil feed_append split: prod.split)

lemma rechunk: "concat chunks = concat chunks' \<Longrightarrow> feed_all feed s chunks = feed_all feed s chunks'"
  by (simp add: feed_concat)

end

end
