(* ===== verification/Terminal_Control.thy ===== *)
theory Terminal_Control
  imports Contracts
begin

text \<open>
  Exclusive automation control of the UART and SSH terminals, \<^verbatim>\<open>core/terminal_control_state.c\<close>.
  Each channel is a slot of the contract \<open>operation_slots\<close>: the interpretation at the end of the
  theory gives that a token is dead for good once its operation has finished.
\<close>

section \<open>Data\<close>

definition SI_TERMINAL_CONTROL_OPERATION_ID_MAX_LEN :: nat where
  "SI_TERMINAL_CONTROL_OPERATION_ID_MAX_LEN = 48"
definition SI_TERMINAL_CONTROL_RUN_ID_MAX_LEN :: nat where
  "SI_TERMINAL_CONTROL_RUN_ID_MAX_LEN = 64"
definition SI_TERMINAL_CONTROL_LABEL_MAX_LEN :: nat where
  "SI_TERMINAL_CONTROL_LABEL_MAX_LEN = 96"

datatype si_terminal_channel_t =
    SI_TERMINAL_CHANNEL_UART
  | SI_TERMINAL_CHANNEL_SSH
  | SI_TERMINAL_CHANNEL_COUNT
  | SI_TERMINAL_CHANNEL_OTHER u32

datatype si_terminal_actor_t =
    SI_TERMINAL_ACTOR_NONE
  | SI_TERMINAL_ACTOR_AGENT
  | SI_TERMINAL_ACTOR_MCP
  | SI_TERMINAL_ACTOR_OTHER u32

record si_terminal_control_token_t =
  tk_channel :: si_terminal_channel_t
  tk_generation :: u32

record si_terminal_control_status_t =
  tc_active :: bool
  tc_cancel_requested :: bool
  tc_generation :: u32
  tc_started_ms :: u32
  tc_actor :: si_terminal_actor_t
  tc_operation_id :: string
  tc_run_id :: string
  tc_label :: string

record si_terminal_control_state_t =
  tc_channels :: "si_terminal_control_status_t list"

text \<open>The index a valid channel has in the array, and the all-zero slot \<open>memset\<close> leaves.\<close>

fun channel_index :: "si_terminal_channel_t \<Rightarrow> nat" where
  "channel_index SI_TERMINAL_CHANNEL_UART = 0"
| "channel_index SI_TERMINAL_CHANNEL_SSH = 1"
| "channel_index SI_TERMINAL_CHANNEL_COUNT = 2"
| "channel_index (SI_TERMINAL_CHANNEL_OTHER w) = unat w"

definition zero_status :: si_terminal_control_status_t where
  "zero_status = \<lparr>tc_active = False, tc_cancel_requested = False, tc_generation = 0,
     tc_started_ms = 0, tc_actor = SI_TERMINAL_ACTOR_NONE, tc_operation_id = [], tc_run_id = [],
     tc_label = []\<rparr>"

section \<open>Operations\<close>

fun channel_valid :: "si_terminal_channel_t \<Rightarrow> bool" where
  "channel_valid SI_TERMINAL_CHANNEL_UART = True"
| "channel_valid SI_TERMINAL_CHANNEL_SSH = True"
| "channel_valid _ = False"

definition copy_string :: "nat \<Rightarrow> string option \<Rightarrow> string" where
  "copy_string out_size v =
     (let s = c_or_empty v; len = (if length s \<ge> out_size then out_size - 1 else length s)
      in take len s)"

definition si_terminal_control_state_init ::
    "si_terminal_control_state_t option \<Rightarrow> si_terminal_control_state_t option" where
  "si_terminal_control_state_init state =
     (case state of None \<Rightarrow> None | Some _ \<Rightarrow> Some \<lparr>tc_channels = replicate 2 zero_status\<rparr>)"

text \<open>The slot a started operation leaves behind: cleared, then filled in.\<close>

definition begin_slot :: "si_terminal_control_status_t \<Rightarrow> si_terminal_actor_t \<Rightarrow> string option \<Rightarrow>
    string option \<Rightarrow> string option \<Rightarrow> u32 \<Rightarrow> si_terminal_control_status_t" where
  "begin_slot slot actor operation_id run_id label started_ms =
     (let generation = (if tc_generation slot + 1 = 0 then 1 else tc_generation slot + 1) in
      zero_status\<lparr>tc_active := True, tc_generation := generation, tc_started_ms := started_ms,
        tc_actor := actor,
        tc_operation_id := copy_string (SI_TERMINAL_CONTROL_OPERATION_ID_MAX_LEN + 1) operation_id,
        tc_run_id := copy_string (SI_TERMINAL_CONTROL_RUN_ID_MAX_LEN + 1) run_id,
        tc_label := copy_string (SI_TERMINAL_CONTROL_LABEL_MAX_LEN + 1) label\<rparr>)"

definition si_terminal_control_state_begin ::
    "si_terminal_control_state_t option \<Rightarrow> si_terminal_channel_t \<Rightarrow> si_terminal_actor_t \<Rightarrow>
     string option \<Rightarrow> string option \<Rightarrow> string option \<Rightarrow> u32 \<Rightarrow>
     si_terminal_control_token_t option \<Rightarrow>
     bool \<times> si_terminal_control_state_t option \<times> si_terminal_control_token_t option" where
  "si_terminal_control_state_begin state channel actor operation_id run_id label started_ms token =
     (case (state, token) of
        (Some st, Some tok) \<Rightarrow>
          if \<not> channel_valid channel \<or>
             (actor \<noteq> SI_TERMINAL_ACTOR_AGENT \<and> actor \<noteq> SI_TERMINAL_ACTOR_MCP)
          then (False, state, token)
          else
            let slot = tc_channels st ! channel_index channel in
            if tc_active slot then (False, state, token)
            else
              let slot' = begin_slot slot actor operation_id run_id label started_ms
              in (True,
                  Some (st\<lparr>tc_channels := (tc_channels st)[channel_index channel := slot']\<rparr>),
                  Some (tok\<lparr>tk_channel := channel, tk_generation := tc_generation slot'\<rparr>))
      | _ \<Rightarrow> (False, state, token))"

definition si_terminal_control_state_request_cancel ::
    "si_terminal_control_state_t option \<Rightarrow> si_terminal_channel_t \<Rightarrow> u32 \<Rightarrow>
     bool \<times> si_terminal_control_state_t option" where
  "si_terminal_control_state_request_cancel state channel expected_generation =
     (case state of None \<Rightarrow> (False, state) | Some st \<Rightarrow>
      if \<not> channel_valid channel \<or> expected_generation = 0 then (False, state)
      else
        let slot = tc_channels st ! channel_index channel in
        if \<not> tc_active slot \<or> tc_generation slot \<noteq> expected_generation then (False, state)
        else (True, Some (st\<lparr>tc_channels :=
                (tc_channels st)[channel_index channel := slot\<lparr>tc_cancel_requested := True\<rparr>]\<rparr>)))"

definition si_terminal_control_state_cancel_requested ::
    "si_terminal_control_state_t option \<Rightarrow> si_terminal_control_token_t option \<Rightarrow> bool" where
  "si_terminal_control_state_cancel_requested state token =
     (case (state, token) of
        (Some st, Some tok) \<Rightarrow>
          if \<not> channel_valid (tk_channel tok) \<or> tk_generation tok = 0 then True
          else
            let slot = tc_channels st ! channel_index (tk_channel tok) in
            \<not> tc_active slot \<or> tc_generation slot \<noteq> tk_generation tok \<or> tc_cancel_requested slot
      | _ \<Rightarrow> True)"

definition si_terminal_control_state_finish ::
    "si_terminal_control_state_t option \<Rightarrow> si_terminal_control_token_t option \<Rightarrow>
     bool \<times> si_terminal_control_state_t option" where
  "si_terminal_control_state_finish state token =
     (case (state, token) of
        (Some st, Some tok) \<Rightarrow>
          if \<not> channel_valid (tk_channel tok) \<or> tk_generation tok = 0 then (False, state)
          else
            let slot = tc_channels st ! channel_index (tk_channel tok) in
            if \<not> tc_active slot \<or> tc_generation slot \<noteq> tk_generation tok then (False, state)
            else (True, Some (st\<lparr>tc_channels := (tc_channels st)[channel_index (tk_channel tok) :=
                    zero_status\<lparr>tc_generation := tc_generation slot\<rparr>]\<rparr>))
      | _ \<Rightarrow> (False, state))"

definition si_terminal_control_state_manual_input_allowed ::
    "si_terminal_control_state_t option \<Rightarrow> si_terminal_channel_t \<Rightarrow> bool" where
  "si_terminal_control_state_manual_input_allowed state channel =
     (case state of None \<Rightarrow> False
      | Some st \<Rightarrow> channel_valid channel \<and> \<not> tc_active (tc_channels st ! channel_index channel))"

definition si_terminal_control_state_get ::
    "si_terminal_control_state_t option \<Rightarrow> si_terminal_channel_t \<Rightarrow>
     si_terminal_control_status_t option \<Rightarrow> bool \<times> si_terminal_control_status_t option" where
  "si_terminal_control_state_get state channel status =
     (case (state, status) of
        (Some st, Some _) \<Rightarrow>
          if \<not> channel_valid channel then (False, status)
          else (True, Some (tc_channels st ! channel_index channel))
      | _ \<Rightarrow> (False, status))"

section \<open>Invariant\<close>

definition status_ok :: "si_terminal_control_status_t \<Rightarrow> bool" where
  "status_ok s \<longleftrightarrow>
     (tc_active s \<longrightarrow> tc_generation s \<noteq> 0 \<and>
        tc_actor s \<in> {SI_TERMINAL_ACTOR_AGENT, SI_TERMINAL_ACTOR_MCP}) \<and>
     (\<not> tc_active s \<longrightarrow> \<not> tc_cancel_requested s \<and> tc_actor s = SI_TERMINAL_ACTOR_NONE \<and>
        tc_operation_id s = [] \<and> tc_run_id s = [] \<and> tc_label s = []) \<and>
     length (tc_operation_id s) \<le> SI_TERMINAL_CONTROL_OPERATION_ID_MAX_LEN \<and>
     length (tc_run_id s) \<le> SI_TERMINAL_CONTROL_RUN_ID_MAX_LEN \<and>
     length (tc_label s) \<le> SI_TERMINAL_CONTROL_LABEL_MAX_LEN"

definition tc_inv :: "si_terminal_control_state_t \<Rightarrow> bool" where
  "tc_inv st \<longleftrightarrow> length (tc_channels st) = 2 \<and> (\<forall>s\<in>set (tc_channels st). status_ok s)"

lemma length_copy_string: "0 < n \<Longrightarrow> length (copy_string n v) \<le> n - 1"
  by (auto simp: copy_string_def Let_def)

lemma channel_index_less: "channel_valid c \<Longrightarrow> channel_index c < 2"
  by (cases c) simp_all

lemma channel_index_inj:
  "channel_valid c \<Longrightarrow> channel_valid d \<Longrightarrow> channel_index c = channel_index d \<longleftrightarrow> c = d"
  by (cases c; cases d) simp_all

lemma status_ok_zero [simp]: "status_ok (zero_status\<lparr>tc_generation := g\<rparr>)"
  by (simp add: status_ok_def zero_status_def)

lemma tc_inv_update:
  "tc_inv st \<Longrightarrow> status_ok s \<Longrightarrow> tc_inv (st\<lparr>tc_channels := (tc_channels st)[i := s]\<rparr>)"
  using ball_list_update [of "tc_channels st" status_ok s i] by (simp add: tc_inv_def)

lemma tc_inv_slot: "tc_inv st \<Longrightarrow> channel_valid c \<Longrightarrow> status_ok (tc_channels st ! channel_index c)"
  by (simp add: tc_inv_def channel_index_less)

section \<open>The channels as operation slots\<close>

type_synonym tc_begin_args =
  "si_terminal_actor_t \<times> string option \<times> string option \<times> string option \<times> u32"

definition tc_token :: "si_terminal_channel_t \<Rightarrow> u32 \<Rightarrow> si_terminal_control_token_t" where
  "tc_token c g = \<lparr>tk_channel = c, tk_generation = g\<rparr>"

definition tc_begin :: "si_terminal_control_state_t \<Rightarrow> si_terminal_channel_t \<Rightarrow> tc_begin_args \<Rightarrow>
    (si_terminal_control_state_t \<times> u32) option" where
  "tc_begin st c = (\<lambda>(actor, op, run, label, ms).
     case si_terminal_control_state_begin (Some st) c actor op run label ms (Some (tc_token c 0)) of
       (True, Some st', Some tok) \<Rightarrow> Some (st', tk_generation tok)
     | _ \<Rightarrow> None)"

definition tc_finish :: "si_terminal_control_state_t \<Rightarrow> si_terminal_channel_t \<Rightarrow> u32 \<Rightarrow>
    si_terminal_control_state_t option" where
  "tc_finish st c g =
     (case si_terminal_control_state_finish (Some st) (Some (tc_token c g)) of
        (True, st') \<Rightarrow> st' | _ \<Rightarrow> None)"

definition tc_cancel :: "si_terminal_control_state_t \<Rightarrow> si_terminal_channel_t \<Rightarrow> u32 \<Rightarrow>
    si_terminal_control_state_t option" where
  "tc_cancel st c g =
     (case si_terminal_control_state_request_cancel (Some st) c g of
        (True, st') \<Rightarrow> st' | _ \<Rightarrow> None)"

definition tc_revoked :: "si_terminal_control_state_t \<Rightarrow> si_terminal_channel_t \<Rightarrow> u32 \<Rightarrow> bool" where
  "tc_revoked st c g = si_terminal_control_state_cancel_requested (Some st) (Some (tc_token c g))"

definition tc_is_active :: "si_terminal_control_state_t \<Rightarrow> si_terminal_channel_t \<Rightarrow> bool" where
  "tc_is_active st c \<longleftrightarrow> channel_valid c \<and> tc_active (tc_channels st ! channel_index c)"

definition tc_gen :: "si_terminal_control_state_t \<Rightarrow> si_terminal_channel_t \<Rightarrow> u32" where
  "tc_gen st c = (if channel_valid c then tc_generation (tc_channels st ! channel_index c) else 0)"

abbreviation tc_step :: "si_terminal_control_state_t \<Rightarrow>
    (si_terminal_channel_t, tc_begin_args) slot_op \<Rightarrow> si_terminal_control_state_t" where
  "tc_step \<equiv> slot_step tc_begin tc_finish tc_cancel"

lemmas tc_slot_defs = tc_is_active_def tc_gen_def tc_inv_def

lemma begin_slot_ok:
  assumes "actor = SI_TERMINAL_ACTOR_AGENT \<or> actor = SI_TERMINAL_ACTOR_MCP"
  shows "status_ok (begin_slot slot actor op run label ms)"
proof -
  have len: "length (copy_string (Suc n) v) \<le> n" for n v
    using length_copy_string [of "Suc n" v] by simp
  show ?thesis using assms by (auto simp: begin_slot_def status_ok_def Let_def len)
qed

lemma begin_slot_fields [simp]:
  "tc_active (begin_slot slot actor op run label ms)"
  "tc_generation (begin_slot slot actor op run label ms) =
     (if tc_generation slot + 1 = 0 then 1 else tc_generation slot + 1)"
  by (simp_all add: begin_slot_def Let_def)

lemma tc_begin_Some:
  assumes "tc_begin st c (actor, op, run, label, ms) = Some (t, g)"
  defines "s \<equiv> begin_slot (tc_channels st ! channel_index c) actor op run label ms"
  shows "channel_valid c \<and> \<not> tc_active (tc_channels st ! channel_index c) \<and>
    (actor = SI_TERMINAL_ACTOR_AGENT \<or> actor = SI_TERMINAL_ACTOR_MCP) \<and> g = tc_generation s \<and>
    t = st\<lparr>tc_channels := (tc_channels st)[channel_index c := s]\<rparr>"
  using assms(1) unfolding s_def
  by (auto simp: tc_begin_def si_terminal_control_state_begin_def Let_def split: if_splits)

lemma tc_finish_Some:
  "tc_finish st c g = Some t \<Longrightarrow>
     tc_is_active st c \<and> tc_gen st c = g \<and>
     t = st\<lparr>tc_channels := (tc_channels st)[channel_index c := zero_status\<lparr>tc_generation := g\<rparr>]\<rparr>"
  by (auto simp: tc_finish_def si_terminal_control_state_finish_def tc_token_def Let_def
      tc_is_active_def tc_gen_def split: if_splits)

lemma tc_cancel_Some:
  "tc_cancel st c g = Some t \<Longrightarrow>
     tc_is_active st c \<and> tc_gen st c = g \<and>
     t = st\<lparr>tc_channels := (tc_channels st)[channel_index c :=
       (tc_channels st ! channel_index c)\<lparr>tc_cancel_requested := True\<rparr>]\<rparr>"
  by (auto simp: tc_cancel_def si_terminal_control_state_request_cancel_def Let_def
      tc_is_active_def tc_gen_def split: if_splits)

lemma tc_update_view:
  assumes "tc_inv st" "channel_valid c"
  shows "tc_is_active (st\<lparr>tc_channels := (tc_channels st)[channel_index c := s]\<rparr>)
           = (tc_is_active st)(c := tc_active s)"
    and "tc_gen (st\<lparr>tc_channels := (tc_channels st)[channel_index c := s]\<rparr>)
           = (tc_gen st)(c := tc_generation s)"
  using assms channel_index_less [OF assms(2)]
  by (auto simp: tc_slot_defs fun_eq_iff channel_index_inj [symmetric] nth_list_update)

interpretation tc: operation_slots "\<lambda>g. if g + 1 = 0 then 1 else g + 1"
  tc_begin tc_finish tc_cancel tc_revoked tc_is_active tc_gen tc_inv
proof (intro operation_slots.intro operation_slots_axioms.intro succ_skip_zero_counter)
  fix s t :: si_terminal_control_state_t and r g and a :: tc_begin_args
  obtain actor op run label ms where a: "a = (actor, op, run, label, ms)" by (cases a) auto
  let ?u = "begin_slot (tc_channels s ! channel_index r) actor op run label ms"
  assume inv: "tc_inv s"
  {
    assume op: "tc_begin s r a = Some (t, g)"
    note u = tc_begin_Some [OF op [unfolded a]]
    show "tc_inv t" using inv u by (simp add: tc_inv_update begin_slot_ok)
    show "\<not> tc_is_active s r" using u by (simp add: tc_is_active_def)
    show "tc_is_active t = (tc_is_active s)(r := True)"
      using u by (simp add: tc_update_view [OF inv])
    show "g = (if tc_gen s r + 1 = 0 then 1 else tc_gen s r + 1) \<and> tc_gen t = (tc_gen s)(r := g)"
      using u by (simp add: tc_update_view [OF inv] tc_gen_def)
  }
  {
    assume op: "tc_finish s r g = Some t"
    note f = tc_finish_Some [OF op]
    then have v: "channel_valid r" by (simp add: tc_is_active_def)
    show "tc_inv t" using inv f by (simp add: tc_inv_update)
    show "tc_is_active s r \<and> tc_gen s r = g \<and> tc_is_active t = (tc_is_active s)(r := False)"
      using f by (simp add: tc_update_view [OF inv v] zero_status_def)
    show "tc_gen t = tc_gen s"
      using f by (auto simp: tc_update_view [OF inv v] zero_status_def)
  }
  {
    assume op: "tc_cancel s r g = Some t"
    note f = tc_cancel_Some [OF op]
    then have v: "channel_valid r" and act: "tc_active (tc_channels s ! channel_index r)"
      by (simp_all add: tc_is_active_def)
    have ok: "status_ok ((tc_channels s ! channel_index r)\<lparr>tc_cancel_requested := True\<rparr>)"
      using tc_inv_slot [OF inv v] act by (simp add: status_ok_def)
    show "tc_inv t" using inv f ok by (simp add: tc_inv_update)
    show "tc_is_active s r \<and> tc_gen s r = g \<and> tc_is_active t = tc_is_active s \<and> tc_gen t = tc_gen s"
      using f act v by (auto simp: tc_update_view [OF inv v] tc_is_active_def tc_gen_def fun_eq_iff)
  }
  {
    assume act: "tc_is_active s r"
    then have v: "channel_valid r" by (simp add: tc_is_active_def)
    show g0: "tc_gen s r \<noteq> 0"
      using act tc_inv_slot [OF inv v] by (auto simp: tc_is_active_def tc_gen_def status_ok_def)
    show "tc_finish s r (tc_gen s r) \<noteq> None"
      using act g0
      by (auto simp: tc_finish_def si_terminal_control_state_finish_def tc_token_def Let_def
          tc_is_active_def tc_gen_def split: if_splits)
  }
  assume "\<not> tc_is_active s r \<or> tc_gen s r \<noteq> g"
  then show "tc_revoked s r g"
    by (auto simp: tc_revoked_def si_terminal_control_state_cancel_requested_def tc_token_def Let_def
        tc_is_active_def tc_gen_def split: if_splits)
qed

section \<open>Properties\<close>

definition tc_initial :: si_terminal_control_state_t where
  "tc_initial = \<lparr>tc_channels = replicate 2 zero_status\<rparr>"

lemma tc_init_state: "si_terminal_control_state_init (Some s) = Some tc_initial"
  by (simp add: si_terminal_control_state_init_def tc_initial_def)

lemma tc_inv_initial: "tc_inv tc_initial"
  by (simp add: tc_inv_def tc_initial_def status_ok_def zero_status_def)

lemmas tc_reachable_inv = tc.machine.run_inv [OF tc_inv_initial]

lemma tc_token_eq: "tc_token (tk_channel tok) (tk_generation tok) = tok"
  by (simp add: tc_token_def)

lemma tc_finish_accepts:
  "fst (si_terminal_control_state_finish (Some st) (Some tok)) \<longleftrightarrow>
     tc_finish st (tk_channel tok) (tk_generation tok) \<noteq> None"
  by (auto simp: tc_finish_def tc_token_eq si_terminal_control_state_finish_def Let_def)

text \<open>
  After a terminal operation has finished, its token is dead: whatever other begin, finish and
  cancel calls follow (fewer than 2^32 - 1 of them), the token reads as cancelled and cannot
  finish the operation that may then hold the channel.
\<close>

theorem terminal_finished_token_dead:
  assumes init: "si_terminal_control_state_init (Some s) = Some s0"
    and fin: "si_terminal_control_state_finish (Some (run_ops tc_step s0 ys)) (Some tok) = (True, Some t)"
    and len: "length xs < 2 ^ 32 - 1"
  shows "si_terminal_control_state_cancel_requested (Some (run_ops tc_step t xs)) (Some tok) \<and>
    \<not> fst (si_terminal_control_state_finish (Some (run_ops tc_step t xs)) (Some tok))"
proof -
  let ?c = "tk_channel tok" and ?g = "tk_generation tok"
  have inv: "tc_inv (run_ops tc_step s0 ys)"
    using init tc_reachable_inv by (simp add: tc_init_state)
  have f: "tc_finish (run_ops tc_step s0 ys) ?c ?g = Some t"
    using fin by (simp add: tc_finish_def tc_token_eq)
  note fa = tc.finish_active [OF inv f] and fg = tc.finish_generation [OF inv f]
  have "tc_gen (run_ops tc_step s0 ys) ?c \<noteq> 0"
    using tc.active_generation [OF inv] fa by blast
  then have "tc_revoked (run_ops tc_step t xs) ?c ?g \<and> tc_finish (run_ops tc_step t xs) ?c ?g = None"
    using fa fg len by (intro tc.stale_token_dead tc.finish_inv [OF inv f]) auto
  then show ?thesis by (simp add: tc_revoked_def tc_token_eq tc_finish_accepts)
qed

definition uart_begin :: "(si_terminal_channel_t, tc_begin_args) slot_op" where
  "uart_begin = Begin SI_TERMINAL_CHANNEL_UART
     (SI_TERMINAL_ACTOR_AGENT, Some ''op-1'', None, Some ''boot log'', 7)"

theorem terminal_finished_token_dead_witness:
  "let tok = \<lparr>tk_channel = SI_TERMINAL_CHANNEL_UART, tk_generation = 1\<rparr>;
       busy = run_ops tc_step tc_initial [uart_begin];
       t = the (snd (si_terminal_control_state_finish (Some busy) (Some tok)))
   in \<not> si_terminal_control_state_cancel_requested (Some busy) (Some tok) \<and>
      tc_active (tc_channels (run_ops tc_step t [uart_begin]) ! 0) \<and>
      si_terminal_control_state_cancel_requested (Some (run_ops tc_step t [uart_begin])) (Some tok)"
  using terminal_finished_token_dead [OF tc_init_state, of "[uart_begin]"
    "\<lparr>tk_channel = SI_TERMINAL_CHANNEL_UART, tk_generation = 1\<rparr>" _ "[uart_begin]"]
  by (simp add: uart_begin_def slot_step_def tc_begin_def si_terminal_control_state_begin_def
      si_terminal_control_state_finish_def si_terminal_control_state_cancel_requested_def
      tc_initial_def zero_status_def begin_slot_def tc_token_def Let_def numeral_2_eq_2)

text \<open>
  A human may type into a terminal exactly when no automation operation holds it: in every
  reachable state, manual input on a channel is allowed if and only if there is no token with
  which a running operation on it could finish.
\<close>

theorem terminal_manual_input_iff_free:
  "si_terminal_control_state_manual_input_allowed (Some (run_ops tc_step tc_initial xs)) c \<longleftrightarrow>
     channel_valid c \<and>
     \<not> (\<exists>g. fst (si_terminal_control_state_finish (Some (run_ops tc_step tc_initial xs))
               (Some \<lparr>tk_channel = c, tk_generation = g\<rparr>)))"
proof -
  let ?s = "run_ops tc_step tc_initial xs"
  have "tc_is_active ?s c \<longleftrightarrow> (\<exists>g. tc_finish ?s c g \<noteq> None)"
    using tc.finish_own [OF tc_reachable_inv] tc_finish_Some by blast
  then show ?thesis
    by (auto simp: si_terminal_control_state_manual_input_allowed_def tc_finish_accepts tc_is_active_def)
qed

end
