(* ===== verification/Resource_Operation.thy ===== *)
theory Resource_Operation
  imports Contracts
begin

text \<open>
  Exclusive operations on the device's resources, \<^verbatim>\<open>core/resource_operation_state.c\<close>: power,
  video configuration, video hardware, maintenance and agent data. Each resource is a slot of the
  contract \<open>operation_slots\<close>, and maintenance excludes every other operation: the invariant has
  that clause and the interpretation at the end shows that all operations keep it.
\<close>

section \<open>Data\<close>

definition SI_RESOURCE_OPERATION_ID_MAX_LEN :: nat where
  "SI_RESOURCE_OPERATION_ID_MAX_LEN = 48"
definition SI_RESOURCE_OPERATION_RUN_ID_MAX_LEN :: nat where
  "SI_RESOURCE_OPERATION_RUN_ID_MAX_LEN = 64"
definition SI_RESOURCE_OPERATION_LABEL_MAX_LEN :: nat where
  "SI_RESOURCE_OPERATION_LABEL_MAX_LEN = 96"

datatype si_resource_operation_resource_t =
    SI_RESOURCE_OPERATION_POWER
  | SI_RESOURCE_OPERATION_VIDEO_CONFIG
  | SI_RESOURCE_OPERATION_VIDEO_HARDWARE
  | SI_RESOURCE_OPERATION_MAINTENANCE
  | SI_RESOURCE_OPERATION_AGENT_DATA
  | SI_RESOURCE_OPERATION_COUNT
  | SI_RESOURCE_OPERATION_RESOURCE_OTHER u32

datatype si_resource_operation_actor_t =
    SI_RESOURCE_OPERATION_ACTOR_NONE
  | SI_RESOURCE_OPERATION_ACTOR_AGENT
  | SI_RESOURCE_OPERATION_ACTOR_MCP
  | SI_RESOURCE_OPERATION_ACTOR_SYSTEM
  | SI_RESOURCE_OPERATION_ACTOR_OTHER u32

record si_resource_operation_token_t =
  rk_resource :: si_resource_operation_resource_t
  rk_generation :: u32

record si_resource_operation_status_t =
  ro_active :: bool
  ro_cancel_requested :: bool
  ro_cancellable :: bool
  ro_generation :: u32
  ro_started_ms :: u32
  ro_actor :: si_resource_operation_actor_t
  ro_operation_id :: string
  ro_run_id :: string
  ro_label :: string

record si_resource_operation_state_t =
  ro_slots :: "si_resource_operation_status_t list"

text \<open>The index a valid resource has in the array, and the all-zero slot \<open>memset\<close> leaves.\<close>

fun resource_index :: "si_resource_operation_resource_t \<Rightarrow> nat" where
  "resource_index SI_RESOURCE_OPERATION_POWER = 0"
| "resource_index SI_RESOURCE_OPERATION_VIDEO_CONFIG = 1"
| "resource_index SI_RESOURCE_OPERATION_VIDEO_HARDWARE = 2"
| "resource_index SI_RESOURCE_OPERATION_MAINTENANCE = 3"
| "resource_index SI_RESOURCE_OPERATION_AGENT_DATA = 4"
| "resource_index SI_RESOURCE_OPERATION_COUNT = 5"
| "resource_index (SI_RESOURCE_OPERATION_RESOURCE_OTHER w) = unat w"

definition zero_status :: si_resource_operation_status_t where
  "zero_status = \<lparr>ro_active = False, ro_cancel_requested = False, ro_cancellable = False, ro_generation = 0,
     ro_started_ms = 0, ro_actor = SI_RESOURCE_OPERATION_ACTOR_NONE, ro_operation_id = [], ro_run_id = [],
     ro_label = []\<rparr>"

section \<open>Operations\<close>

fun resource_valid :: "si_resource_operation_resource_t \<Rightarrow> bool" where
  "resource_valid SI_RESOURCE_OPERATION_POWER = True"
| "resource_valid SI_RESOURCE_OPERATION_VIDEO_CONFIG = True"
| "resource_valid SI_RESOURCE_OPERATION_VIDEO_HARDWARE = True"
| "resource_valid SI_RESOURCE_OPERATION_MAINTENANCE = True"
| "resource_valid SI_RESOURCE_OPERATION_AGENT_DATA = True"
| "resource_valid _ = False"

definition copy_string :: "nat \<Rightarrow> string option \<Rightarrow> string" where
  "copy_string out_size v =
     (let s = c_or_empty v; len = (if length s \<ge> out_size then out_size - 1 else length s)
      in take len s)"

definition si_resource_operation_state_init ::
    "si_resource_operation_state_t option \<Rightarrow> si_resource_operation_state_t option" where
  "si_resource_operation_state_init state =
     (case state of None \<Rightarrow> None | Some _ \<Rightarrow> Some \<lparr>ro_slots = replicate 5 zero_status\<rparr>)"

text \<open>\<open>actor > NONE && actor <= SYSTEM\<close>.\<close>

fun actor_valid :: "si_resource_operation_actor_t \<Rightarrow> bool" where
  "actor_valid SI_RESOURCE_OPERATION_ACTOR_NONE = False"
| "actor_valid (SI_RESOURCE_OPERATION_ACTOR_OTHER _) = False"
| "actor_valid _ = True"

definition si_resource_operation_state_active_count ::
    "si_resource_operation_state_t option \<Rightarrow> nat" where
  "si_resource_operation_state_active_count state =
     (case state of None \<Rightarrow> 0
      | Some st \<Rightarrow> foldl (\<lambda>count slot. if ro_active slot then count + 1 else count) 0 (ro_slots st))"

text \<open>The slot a started operation leaves behind: cleared, then filled in.\<close>

definition begin_slot :: "si_resource_operation_status_t \<Rightarrow> si_resource_operation_actor_t \<Rightarrow> string option \<Rightarrow>
    string option \<Rightarrow> string option \<Rightarrow> bool \<Rightarrow> u32 \<Rightarrow> si_resource_operation_status_t" where
  "begin_slot slot actor operation_id run_id label cancellable started_ms =
     (let generation = (if ro_generation slot + 1 = 0 then 1 else ro_generation slot + 1) in
      zero_status\<lparr>ro_active := True, ro_cancellable := cancellable, ro_generation := generation, ro_started_ms := started_ms,
        ro_actor := actor,
        ro_operation_id := copy_string (SI_RESOURCE_OPERATION_ID_MAX_LEN + 1) operation_id,
        ro_run_id := copy_string (SI_RESOURCE_OPERATION_RUN_ID_MAX_LEN + 1) run_id,
        ro_label := copy_string (SI_RESOURCE_OPERATION_LABEL_MAX_LEN + 1) label\<rparr>)"

definition si_resource_operation_state_begin ::
    "si_resource_operation_state_t option \<Rightarrow> si_resource_operation_resource_t \<Rightarrow> si_resource_operation_actor_t \<Rightarrow>
     string option \<Rightarrow> string option \<Rightarrow> string option \<Rightarrow> bool \<Rightarrow> u32 \<Rightarrow>
     si_resource_operation_token_t option \<Rightarrow>
     bool \<times> si_resource_operation_state_t option \<times> si_resource_operation_token_t option" where
  "si_resource_operation_state_begin state resource actor operation_id run_id label cancellable
     started_ms token =
     (case (state, token) of
        (Some st, Some tok) \<Rightarrow>
          if \<not> resource_valid resource \<or>
             \<not> actor_valid actor
          then (False, state, token)
          else if (resource \<noteq> SI_RESOURCE_OPERATION_MAINTENANCE \<and>
                   ro_active (ro_slots st ! resource_index SI_RESOURCE_OPERATION_MAINTENANCE)) \<or>
                  (resource = SI_RESOURCE_OPERATION_MAINTENANCE \<and>
                   si_resource_operation_state_active_count (Some st) > 0)
          then (False, state, token)
          else
            let slot = ro_slots st ! resource_index resource in
            if ro_active slot then (False, state, token)
            else
              let slot' = begin_slot slot actor operation_id run_id label cancellable started_ms
              in (True,
                  Some (st\<lparr>ro_slots := (ro_slots st)[resource_index resource := slot']\<rparr>),
                  Some (tok\<lparr>rk_resource := resource, rk_generation := ro_generation slot'\<rparr>))
      | _ \<Rightarrow> (False, state, token))"

definition si_resource_operation_state_request_cancel ::
    "si_resource_operation_state_t option \<Rightarrow> si_resource_operation_resource_t \<Rightarrow> u32 \<Rightarrow>
     bool \<times> si_resource_operation_state_t option" where
  "si_resource_operation_state_request_cancel state resource expected_generation =
     (case state of None \<Rightarrow> (False, state) | Some st \<Rightarrow>
      if \<not> resource_valid resource \<or> expected_generation = 0 then (False, state)
      else
        let slot = ro_slots st ! resource_index resource in
        if \<not> ro_active slot \<or> \<not> ro_cancellable slot \<or> ro_generation slot \<noteq> expected_generation
        then (False, state)
        else (True, Some (st\<lparr>ro_slots :=
                (ro_slots st)[resource_index resource := slot\<lparr>ro_cancel_requested := True\<rparr>]\<rparr>)))"

definition si_resource_operation_state_cancel_requested ::
    "si_resource_operation_state_t option \<Rightarrow> si_resource_operation_token_t option \<Rightarrow> bool" where
  "si_resource_operation_state_cancel_requested state token =
     (case (state, token) of
        (Some st, Some tok) \<Rightarrow>
          if \<not> resource_valid (rk_resource tok) \<or> rk_generation tok = 0 then True
          else
            let slot = ro_slots st ! resource_index (rk_resource tok) in
            \<not> ro_active slot \<or> ro_generation slot \<noteq> rk_generation tok \<or> ro_cancel_requested slot
      | _ \<Rightarrow> True)"

definition si_resource_operation_state_finish ::
    "si_resource_operation_state_t option \<Rightarrow> si_resource_operation_token_t option \<Rightarrow>
     bool \<times> si_resource_operation_state_t option" where
  "si_resource_operation_state_finish state token =
     (case (state, token) of
        (Some st, Some tok) \<Rightarrow>
          if \<not> resource_valid (rk_resource tok) \<or> rk_generation tok = 0 then (False, state)
          else
            let slot = ro_slots st ! resource_index (rk_resource tok) in
            if \<not> ro_active slot \<or> ro_generation slot \<noteq> rk_generation tok then (False, state)
            else (True, Some (st\<lparr>ro_slots := (ro_slots st)[resource_index (rk_resource tok) :=
                    zero_status\<lparr>ro_generation := ro_generation slot\<rparr>]\<rparr>))
      | _ \<Rightarrow> (False, state))"

definition si_resource_operation_state_manual_allowed ::
    "si_resource_operation_state_t option \<Rightarrow> si_resource_operation_resource_t \<Rightarrow> bool" where
  "si_resource_operation_state_manual_allowed state resource =
     (case state of None \<Rightarrow> False
      | Some st \<Rightarrow> resource_valid resource \<and> \<not> ro_active (ro_slots st ! resource_index resource) \<and>
          (resource = SI_RESOURCE_OPERATION_MAINTENANCE \<or>
           \<not> ro_active (ro_slots st ! resource_index SI_RESOURCE_OPERATION_MAINTENANCE)))"

definition si_resource_operation_state_get ::
    "si_resource_operation_state_t option \<Rightarrow> si_resource_operation_resource_t \<Rightarrow>
     si_resource_operation_status_t option \<Rightarrow> bool \<times> si_resource_operation_status_t option" where
  "si_resource_operation_state_get state resource status =
     (case (state, status) of
        (Some st, Some _) \<Rightarrow>
          if \<not> resource_valid resource then (False, status)
          else (True, Some (ro_slots st ! resource_index resource))
      | _ \<Rightarrow> (False, status))"

section \<open>Invariant\<close>

definition status_ok :: "si_resource_operation_status_t \<Rightarrow> bool" where
  "status_ok s \<longleftrightarrow>
     (ro_active s \<longrightarrow> ro_generation s \<noteq> 0 \<and>
        actor_valid (ro_actor s)) \<and>
     (\<not> ro_active s \<longrightarrow> \<not> ro_cancel_requested s \<and> ro_actor s = SI_RESOURCE_OPERATION_ACTOR_NONE \<and>
        ro_operation_id s = [] \<and> ro_run_id s = [] \<and> ro_label s = []) \<and>
     length (ro_operation_id s) \<le> SI_RESOURCE_OPERATION_ID_MAX_LEN \<and>
     length (ro_run_id s) \<le> SI_RESOURCE_OPERATION_RUN_ID_MAX_LEN \<and>
     length (ro_label s) \<le> SI_RESOURCE_OPERATION_LABEL_MAX_LEN"

definition ro_is_active :: "si_resource_operation_state_t \<Rightarrow> si_resource_operation_resource_t \<Rightarrow> bool" where
  "ro_is_active st c \<longleftrightarrow> resource_valid c \<and> ro_active (ro_slots st ! resource_index c)"

definition ro_shape :: "si_resource_operation_state_t \<Rightarrow> bool" where
  "ro_shape st \<longleftrightarrow> length (ro_slots st) = 5 \<and> (\<forall>s\<in>set (ro_slots st). status_ok s)"

definition ro_exclusive :: "si_resource_operation_state_t \<Rightarrow> bool" where
  "ro_exclusive st \<longleftrightarrow> (ro_is_active st SI_RESOURCE_OPERATION_MAINTENANCE \<longrightarrow>
     (\<forall>r. r \<noteq> SI_RESOURCE_OPERATION_MAINTENANCE \<longrightarrow> \<not> ro_is_active st r))"

definition ro_inv :: "si_resource_operation_state_t \<Rightarrow> bool" where
  "ro_inv st \<longleftrightarrow> ro_shape st \<and> ro_exclusive st"

lemma ro_length_copy_string: "0 < n \<Longrightarrow> length (copy_string n v) \<le> n - 1"
  by (auto simp: copy_string_def Let_def)

lemma resource_index_less: "resource_valid c \<Longrightarrow> resource_index c < 5"
  by (cases c) simp_all

lemma resource_index_inj:
  "resource_valid c \<Longrightarrow> resource_valid d \<Longrightarrow> resource_index c = resource_index d \<longleftrightarrow> c = d"
  by (cases c; cases d) simp_all

lemma ro_status_ok_zero [simp]: "status_ok (zero_status\<lparr>ro_generation := g\<rparr>)"
  by (simp add: status_ok_def zero_status_def)

lemma ro_shape_update:
  "ro_shape st \<Longrightarrow> status_ok s \<Longrightarrow> ro_shape (st\<lparr>ro_slots := (ro_slots st)[i := s]\<rparr>)"
  using ball_list_update [of "ro_slots st" status_ok s i] by (simp add: ro_shape_def)

lemma ro_inv_slot: "ro_inv st \<Longrightarrow> resource_valid c \<Longrightarrow> status_ok (ro_slots st ! resource_index c)"
  by (simp add: ro_inv_def ro_shape_def resource_index_less)

section \<open>The resources as operation slots\<close>

type_synonym ro_begin_args =
  "si_resource_operation_actor_t \<times> string option \<times> string option \<times> string option \<times> bool \<times> u32"

definition ro_token :: "si_resource_operation_resource_t \<Rightarrow> u32 \<Rightarrow> si_resource_operation_token_t" where
  "ro_token c g = \<lparr>rk_resource = c, rk_generation = g\<rparr>"

definition ro_begin :: "si_resource_operation_state_t \<Rightarrow> si_resource_operation_resource_t \<Rightarrow> ro_begin_args \<Rightarrow>
    (si_resource_operation_state_t \<times> u32) option" where
  "ro_begin st c = (\<lambda>(actor, op, run, label, cb, ms).
     case si_resource_operation_state_begin (Some st) c actor op run label cb ms (Some (ro_token c 0)) of
       (True, Some st', Some tok) \<Rightarrow> Some (st', rk_generation tok)
     | _ \<Rightarrow> None)"

definition ro_finish :: "si_resource_operation_state_t \<Rightarrow> si_resource_operation_resource_t \<Rightarrow> u32 \<Rightarrow>
    si_resource_operation_state_t option" where
  "ro_finish st c g =
     (case si_resource_operation_state_finish (Some st) (Some (ro_token c g)) of
        (True, st') \<Rightarrow> st' | _ \<Rightarrow> None)"

definition ro_cancel :: "si_resource_operation_state_t \<Rightarrow> si_resource_operation_resource_t \<Rightarrow> u32 \<Rightarrow>
    si_resource_operation_state_t option" where
  "ro_cancel st c g =
     (case si_resource_operation_state_request_cancel (Some st) c g of
        (True, st') \<Rightarrow> st' | _ \<Rightarrow> None)"

definition ro_revoked :: "si_resource_operation_state_t \<Rightarrow> si_resource_operation_resource_t \<Rightarrow> u32 \<Rightarrow> bool" where
  "ro_revoked st c g = si_resource_operation_state_cancel_requested (Some st) (Some (ro_token c g))"

definition ro_gen :: "si_resource_operation_state_t \<Rightarrow> si_resource_operation_resource_t \<Rightarrow> u32" where
  "ro_gen st c = (if resource_valid c then ro_generation (ro_slots st ! resource_index c) else 0)"

abbreviation ro_step :: "si_resource_operation_state_t \<Rightarrow>
    (si_resource_operation_resource_t, ro_begin_args) slot_op \<Rightarrow> si_resource_operation_state_t" where
  "ro_step \<equiv> slot_step ro_begin ro_finish ro_cancel"

lemmas ro_slot_defs = ro_is_active_def ro_gen_def ro_shape_def

lemma ro_begin_slot_ok:
  assumes "actor_valid actor"
  shows "status_ok (begin_slot slot actor op run label cb ms)"
proof -
  have len: "length (copy_string (Suc n) v) \<le> n" for n v
    using ro_length_copy_string [of "Suc n" v] by simp
  show ?thesis using assms by (auto simp: begin_slot_def status_ok_def Let_def len)
qed

lemma ro_begin_slot_fields [simp]:
  "ro_active (begin_slot slot actor op run label cb ms)"
  "ro_generation (begin_slot slot actor op run label cb ms) =
     (if ro_generation slot + 1 = 0 then 1 else ro_generation slot + 1)"
  by (simp_all add: begin_slot_def Let_def)

lemma ro_begin_Some:
  assumes "ro_begin st c (actor, op, run, label, cb, ms) = Some (t, g)"
  defines "s \<equiv> begin_slot (ro_slots st ! resource_index c) actor op run label cb ms"
  shows "resource_valid c \<and> \<not> ro_active (ro_slots st ! resource_index c) \<and>
    actor_valid actor \<and>
    (c \<noteq> SI_RESOURCE_OPERATION_MAINTENANCE \<longrightarrow> \<not> ro_is_active st SI_RESOURCE_OPERATION_MAINTENANCE) \<and>
    (c = SI_RESOURCE_OPERATION_MAINTENANCE \<longrightarrow> si_resource_operation_state_active_count (Some st) = 0) \<and> g = ro_generation s \<and>
    t = st\<lparr>ro_slots := (ro_slots st)[resource_index c := s]\<rparr>"
  using assms(1) unfolding s_def
  by (auto simp: ro_begin_def si_resource_operation_state_begin_def ro_is_active_def Let_def
      split: if_splits)

lemma ro_finish_Some:
  "ro_finish st c g = Some t \<Longrightarrow>
     ro_is_active st c \<and> ro_gen st c = g \<and>
     t = st\<lparr>ro_slots := (ro_slots st)[resource_index c := zero_status\<lparr>ro_generation := g\<rparr>]\<rparr>"
  by (auto simp: ro_finish_def si_resource_operation_state_finish_def ro_token_def Let_def
      ro_is_active_def ro_gen_def split: if_splits)

lemma ro_cancel_Some:
  "ro_cancel st c g = Some t \<Longrightarrow>
     ro_is_active st c \<and> ro_gen st c = g \<and>
     t = st\<lparr>ro_slots := (ro_slots st)[resource_index c :=
       (ro_slots st ! resource_index c)\<lparr>ro_cancel_requested := True\<rparr>]\<rparr>"
  by (auto simp: ro_cancel_def si_resource_operation_state_request_cancel_def Let_def
      ro_is_active_def ro_gen_def split: if_splits)

lemma ro_update_view:
  assumes "ro_shape st" "resource_valid c"
  shows "ro_is_active (st\<lparr>ro_slots := (ro_slots st)[resource_index c := s]\<rparr>)
           = (ro_is_active st)(c := ro_active s)"
    and "ro_gen (st\<lparr>ro_slots := (ro_slots st)[resource_index c := s]\<rparr>)
           = (ro_gen st)(c := ro_generation s)"
  using assms resource_index_less [OF assms(2)]
  by (auto simp: ro_slot_defs fun_eq_iff resource_index_inj [symmetric] nth_list_update)

lemma active_count_filter:
  "si_resource_operation_state_active_count (Some st) = length (filter ro_active (ro_slots st))"
proof -
  have "foldl (\<lambda>count slot. if ro_active slot then count + 1 else count) n xs
          = n + length (filter ro_active xs)" for n and xs :: "si_resource_operation_status_t list"
    by (induction xs arbitrary: n) simp_all
  then show ?thesis by (simp add: si_resource_operation_state_active_count_def)
qed

lemma active_count_0:
  "ro_shape st \<Longrightarrow> si_resource_operation_state_active_count (Some st) = 0 \<Longrightarrow> \<not> ro_is_active st r"
  by (auto simp: active_count_filter filter_empty_conv ro_slot_defs resource_index_less)

lemma ro_begin_exclusive:
  assumes "ro_shape s" "ro_begin s r (actor, op, run, label, cb, ms) = Some (t, g)"
  shows "ro_exclusive t"
proof -
  note u = ro_begin_Some [OF assms(2)]
  have "ro_is_active t = (ro_is_active s)(r := True)"
    using u by (simp add: ro_update_view [OF assms(1)])
  then show ?thesis
    using u active_count_0 [OF assms(1)]
    by (cases "r = SI_RESOURCE_OPERATION_MAINTENANCE") (auto simp: ro_exclusive_def)
qed

interpretation ro: operation_slots "\<lambda>g. if g + 1 = 0 then 1 else g + 1"
  ro_begin ro_finish ro_cancel ro_revoked ro_is_active ro_gen ro_inv
proof (intro operation_slots.intro operation_slots_axioms.intro succ_skip_zero_counter)
  fix s t :: si_resource_operation_state_t and r g and a :: ro_begin_args
  obtain actor op run label cb ms where a: "a = (actor, op, run, label, cb, ms)" by (cases a) auto
  let ?u = "begin_slot (ro_slots s ! resource_index r) actor op run label cb ms"
  assume inv: "ro_inv s"
  then have sh: "ro_shape s" and ex: "ro_exclusive s" by (simp_all add: ro_inv_def)
  {
    assume op: "ro_begin s r a = Some (t, g)"
    note u = ro_begin_Some [OF op [unfolded a]]
    show "ro_inv t"
      using sh u ro_begin_exclusive [OF sh op [unfolded a]]
      by (simp add: ro_inv_def ro_shape_update ro_begin_slot_ok)
    show "\<not> ro_is_active s r" using u by (simp add: ro_is_active_def)
    show "ro_is_active t = (ro_is_active s)(r := True)"
      using u by (simp add: ro_update_view [OF sh])
    show "g = (if ro_gen s r + 1 = 0 then 1 else ro_gen s r + 1) \<and> ro_gen t = (ro_gen s)(r := g)"
      using u by (simp add: ro_update_view [OF sh] ro_gen_def)
  }
  {
    assume op: "ro_finish s r g = Some t"
    note f = ro_finish_Some [OF op]
    then have v: "resource_valid r" by (simp add: ro_is_active_def)
    show act: "ro_is_active s r \<and> ro_gen s r = g \<and> ro_is_active t = (ro_is_active s)(r := False)"
      using f by (simp add: ro_update_view [OF sh v] zero_status_def)
    then show "ro_inv t"
      using sh ex f by (auto simp: ro_inv_def ro_shape_update ro_exclusive_def)
    show "ro_gen t = ro_gen s"
      using f by (auto simp: ro_update_view [OF sh v] zero_status_def)
  }
  {
    assume op: "ro_cancel s r g = Some t"
    note f = ro_cancel_Some [OF op]
    then have v: "resource_valid r" and act: "ro_active (ro_slots s ! resource_index r)"
      by (simp_all add: ro_is_active_def)
    have ok: "status_ok ((ro_slots s ! resource_index r)\<lparr>ro_cancel_requested := True\<rparr>)"
      using ro_inv_slot [OF inv v] act by (simp add: status_ok_def)
    show "ro_is_active s r \<and> ro_gen s r = g \<and> ro_is_active t = ro_is_active s \<and> ro_gen t = ro_gen s"
      using f act v by (auto simp: ro_update_view [OF sh v] ro_is_active_def ro_gen_def fun_eq_iff)
    then show "ro_inv t"
      using sh ex f ok by (simp add: ro_inv_def ro_shape_update ro_exclusive_def)
  }
  {
    assume act: "ro_is_active s r"
    then have v: "resource_valid r" by (simp add: ro_is_active_def)
    show g0: "ro_gen s r \<noteq> 0"
      using act ro_inv_slot [OF inv v] by (auto simp: ro_is_active_def ro_gen_def status_ok_def)
    show "ro_finish s r (ro_gen s r) \<noteq> None"
      using act g0
      by (auto simp: ro_finish_def si_resource_operation_state_finish_def ro_token_def Let_def
          ro_is_active_def ro_gen_def split: if_splits)
  }
  assume "\<not> ro_is_active s r \<or> ro_gen s r \<noteq> g"
  then show "ro_revoked s r g"
    by (auto simp: ro_revoked_def si_resource_operation_state_cancel_requested_def ro_token_def Let_def
        ro_is_active_def ro_gen_def split: if_splits)
qed

section \<open>Properties\<close>

definition ro_initial :: si_resource_operation_state_t where
  "ro_initial = \<lparr>ro_slots = replicate 5 zero_status\<rparr>"

lemma ro_init_state: "si_resource_operation_state_init (Some s) = Some ro_initial"
  by (simp add: si_resource_operation_state_init_def ro_initial_def)

lemma ro_inv_initial: "ro_inv ro_initial"
  by (simp add: ro_inv_def ro_shape_def ro_exclusive_def ro_is_active_def ro_initial_def
      status_ok_def zero_status_def)

lemmas ro_reachable_inv = ro.machine.run_inv [OF ro_inv_initial]

lemma ro_token_eq: "ro_token (rk_resource tok) (rk_generation tok) = tok"
  by (simp add: ro_token_def)

lemma ro_finish_accepts:
  "fst (si_resource_operation_state_finish (Some st) (Some tok)) \<longleftrightarrow>
     ro_finish st (rk_resource tok) (rk_generation tok) \<noteq> None"
  by (auto simp: ro_finish_def ro_token_eq si_resource_operation_state_finish_def Let_def)

text \<open>
  After a resource operation has finished, its token is dead: whatever other begin, finish and
  cancel calls follow (fewer than 2^32 - 1 of them), the token reads as cancelled and cannot
  finish the operation that may then hold the resource.
\<close>

theorem resource_finished_token_dead:
  assumes init: "si_resource_operation_state_init (Some s) = Some s0"
    and fin: "si_resource_operation_state_finish (Some (run_ops ro_step s0 ys)) (Some tok) = (True, Some t)"
    and len: "length xs < 2 ^ 32 - 1"
  shows "si_resource_operation_state_cancel_requested (Some (run_ops ro_step t xs)) (Some tok) \<and>
    \<not> fst (si_resource_operation_state_finish (Some (run_ops ro_step t xs)) (Some tok))"
proof -
  let ?c = "rk_resource tok" and ?g = "rk_generation tok"
  have inv: "ro_inv (run_ops ro_step s0 ys)"
    using init ro_reachable_inv by (simp add: ro_init_state)
  have f: "ro_finish (run_ops ro_step s0 ys) ?c ?g = Some t"
    using fin by (simp add: ro_finish_def ro_token_eq)
  note fa = ro.finish_active [OF inv f] and fg = ro.finish_generation [OF inv f]
  have "ro_gen (run_ops ro_step s0 ys) ?c \<noteq> 0"
    using ro.active_generation [OF inv] fa by blast
  then have "ro_revoked (run_ops ro_step t xs) ?c ?g \<and> ro_finish (run_ops ro_step t xs) ?c ?g = None"
    using fa fg len by (intro ro.stale_token_dead ro.finish_inv [OF inv f]) auto
  then show ?thesis by (simp add: ro_revoked_def ro_token_eq ro_finish_accepts)
qed

definition power_begin :: "(si_resource_operation_resource_t, ro_begin_args) slot_op" where
  "power_begin = Begin SI_RESOURCE_OPERATION_POWER
     (SI_RESOURCE_OPERATION_ACTOR_AGENT, Some ''op-1'', None, Some ''press'', True, 7)"

theorem resource_finished_token_dead_witness:
  "let tok = \<lparr>rk_resource = SI_RESOURCE_OPERATION_POWER, rk_generation = 1\<rparr>;
       busy = run_ops ro_step ro_initial [power_begin];
       t = the (snd (si_resource_operation_state_finish (Some busy) (Some tok)))
   in \<not> si_resource_operation_state_cancel_requested (Some busy) (Some tok) \<and>
      ro_active (ro_slots (run_ops ro_step t [power_begin]) ! 0) \<and>
      si_resource_operation_state_cancel_requested (Some (run_ops ro_step t [power_begin])) (Some tok)"
  using resource_finished_token_dead [OF ro_init_state, of "[power_begin]"
    "\<lparr>rk_resource = SI_RESOURCE_OPERATION_POWER, rk_generation = 1\<rparr>" _ "[power_begin]"]
  by (simp add: power_begin_def slot_step_def ro_begin_def si_resource_operation_state_begin_def
      si_resource_operation_state_finish_def si_resource_operation_state_cancel_requested_def
      ro_initial_def zero_status_def begin_slot_def ro_token_def Let_def numeral_2_eq_2)

text \<open>
  In every reachable state, while a maintenance operation (format, firmware update) runs no
  other resource operation is active, so exactly one slot is in use, and no other operation can
  begin, whatever the caller passes.
\<close>

theorem maintenance_excludes_all:
  assumes "ro_is_active (run_ops ro_step ro_initial xs) SI_RESOURCE_OPERATION_MAINTENANCE"
  shows "(\<forall>r. ro_is_active (run_ops ro_step ro_initial xs) r \<longrightarrow> r = SI_RESOURCE_OPERATION_MAINTENANCE) \<and>
    (\<forall>r. \<not> si_resource_operation_state_manual_allowed (Some (run_ops ro_step ro_initial xs)) r) \<and>
    (\<forall>r actor op run label cb ms token.
       si_resource_operation_state_begin (Some (run_ops ro_step ro_initial xs)) r actor op run label
         cb ms token = (False, Some (run_ops ro_step ro_initial xs), token))"
proof -
  let ?s = "run_ops ro_step ro_initial xs"
  have ex: "ro_exclusive ?s" and sh: "ro_shape ?s"
    using ro_reachable_inv by (simp_all add: ro_inv_def)
  have m: "ro_active (ro_slots ?s ! 3)" using assms by (simp add: ro_is_active_def)
  have only: "\<forall>r. ro_is_active ?s r \<longrightarrow> r = SI_RESOURCE_OPERATION_MAINTENANCE"
    using ex assms by (auto simp: ro_exclusive_def)
  have "si_resource_operation_state_active_count (Some ?s) > 0"
    using active_count_0 [OF sh] assms by (metis gr0I)
  then have "si_resource_operation_state_begin (Some ?s) r actor op run label cb ms token
               = (False, Some ?s, token)" for r actor op run label cb ms token
    using m by (cases "r = SI_RESOURCE_OPERATION_MAINTENANCE"; cases token)
      (auto simp: si_resource_operation_state_begin_def Let_def)
  moreover have "\<not> si_resource_operation_state_manual_allowed (Some ?s) r" for r
    using m by (auto simp: si_resource_operation_state_manual_allowed_def)
  ultimately show ?thesis using only by blast
qed

theorem maintenance_excludes_all_witness:
  "let s = run_ops ro_step ro_initial [Begin SI_RESOURCE_OPERATION_MAINTENANCE
             (SI_RESOURCE_OPERATION_ACTOR_SYSTEM, Some ''ota'', None, None, False, 1)]
   in ro_is_active s SI_RESOURCE_OPERATION_MAINTENANCE \<and>
      \<not> si_resource_operation_state_manual_allowed (Some s) SI_RESOURCE_OPERATION_POWER"
proof -
  let ?xs = "[Begin SI_RESOURCE_OPERATION_MAINTENANCE
             (SI_RESOURCE_OPERATION_ACTOR_SYSTEM, Some ''ota'', None, None, False, 1)]"
  have "ro_is_active (run_ops ro_step ro_initial ?xs) SI_RESOURCE_OPERATION_MAINTENANCE"
    by (simp add: slot_step_def ro_begin_def si_resource_operation_state_begin_def
      si_resource_operation_state_active_count_def ro_is_active_def
      ro_initial_def zero_status_def ro_token_def Let_def eval_nat_numeral)
  from maintenance_excludes_all [OF this] this show ?thesis by (simp add: Let_def)
qed

end
