(* ===== verification/Hid_Owner.thy ===== *)
theory Hid_Owner
  imports Contracts
begin

text \<open>
  Ownership of the USB keyboard and mouse, \<^verbatim>\<open>core/hid_owner.c\<close>: tokens minted by the HID manager
  with a wrapping generation, of which only the current one may emit reports. The operations are
  collected in one step function; its invariant (a current token carries the newest generation)
  is an interpretation of \<open>invariant_machine\<close>, and the generation an interpretation of
  \<open>generation_counter\<close>.
\<close>

section \<open>Data\<close>

definition SI_HID_OWNER_SESSION_ID_MAX_LEN :: nat where
  "SI_HID_OWNER_SESSION_ID_MAX_LEN = 20"

datatype si_hid_owner_kind_t =
    SI_HID_OWNER_NONE
  | SI_HID_OWNER_CONTROL_LEASE
  | SI_HID_OWNER_KVM_STREAM
  | SI_HID_OWNER_OTHER u32

record si_hid_owner_claim_t =
  hc_kind :: si_hid_owner_kind_t
  hc_session_id :: string
  hc_auth_generation :: u32
  hc_resource_id :: u32
  hc_authority_epoch :: u32

record si_hid_owner_token_t =
  ht_claim :: si_hid_owner_claim_t
  ht_generation :: u32

record si_hid_owner_state_t =
  hs_current :: si_hid_owner_token_t
  hs_report_owner :: si_hid_owner_token_t
  hs_next_generation :: u32
  hs_dirty_reports :: u8
  hs_neutral_pending :: bool

definition SI_HID_REPORT_DIRTY_KEYBOARD :: u8 where "SI_HID_REPORT_DIRTY_KEYBOARD = 1"
definition SI_HID_REPORT_DIRTY_MOUSE :: u8 where "SI_HID_REPORT_DIRTY_MOUSE = 2"
definition SI_HID_REPORT_DIRTY_ABS_POINTER :: u8 where "SI_HID_REPORT_DIRTY_ABS_POINTER = 4"

datatype si_hid_embedded_touch_decision_t =
    SI_HID_EMBEDDED_TOUCH_DENY
  | SI_HID_EMBEDDED_TOUCH_NEW
  | SI_HID_EMBEDDED_TOUCH_RENEW

definition zero_claim :: si_hid_owner_claim_t where
  "zero_claim = \<lparr>hc_kind = SI_HID_OWNER_NONE, hc_session_id = [], hc_auth_generation = 0,
     hc_resource_id = 0, hc_authority_epoch = 0\<rparr>"

definition zero_token :: si_hid_owner_token_t where
  "zero_token = \<lparr>ht_claim = zero_claim, ht_generation = 0\<rparr>"

definition SI_HID_OWNER_STATE_INITIALIZER :: si_hid_owner_state_t where
  "SI_HID_OWNER_STATE_INITIALIZER = \<lparr>hs_current = zero_token, hs_report_owner = zero_token,
     hs_next_generation = 0, hs_dirty_reports = 0, hs_neutral_pending = False\<rparr>"

section \<open>Operations\<close>

definition bump_generation :: "u32 \<Rightarrow> u32" where
  "bump_generation g = (if g + 1 = 0 then 1 else g + 1)"

definition next_generation :: "si_hid_owner_state_t \<Rightarrow> si_hid_owner_state_t" where
  "next_generation state = state\<lparr>hs_next_generation := bump_generation (hs_next_generation state)\<rparr>"

definition si_hid_owner_claim_valid :: "si_hid_owner_claim_t option \<Rightarrow> bool" where
  "si_hid_owner_claim_valid claim =
     (case claim of None \<Rightarrow> False | Some c \<Rightarrow>
      if hc_kind c \<notin> {SI_HID_OWNER_CONTROL_LEASE, SI_HID_OWNER_KVM_STREAM} \<or>
         hc_session_id c = [] \<or> hc_authority_epoch c = 0
      then False
      else hc_kind c \<noteq> SI_HID_OWNER_KVM_STREAM \<or> hc_resource_id c \<noteq> 0)"

definition si_hid_owner_claim_equal ::
    "si_hid_owner_claim_t option \<Rightarrow> si_hid_owner_claim_t option \<Rightarrow> bool" where
  "si_hid_owner_claim_equal left right =
     (case (left, right) of
        (Some l, Some r) \<Rightarrow>
          hc_kind l = hc_kind r \<and> hc_auth_generation l = hc_auth_generation r \<and>
          hc_resource_id l = hc_resource_id r \<and> hc_authority_epoch l = hc_authority_epoch r \<and>
          hc_session_id l = hc_session_id r
      | _ \<Rightarrow> False)"

definition si_hid_owner_token_equal ::
    "si_hid_owner_token_t option \<Rightarrow> si_hid_owner_token_t option \<Rightarrow> bool" where
  "si_hid_owner_token_equal left right =
     (case (left, right) of
        (Some l, Some r) \<Rightarrow>
          ht_generation l \<noteq> 0 \<and> ht_generation l = ht_generation r \<and>
          si_hid_owner_claim_equal (Some (ht_claim l)) (Some (ht_claim r))
      | _ \<Rightarrow> False)"

definition si_hid_owner_state_is_current ::
    "si_hid_owner_state_t option \<Rightarrow> si_hid_owner_token_t option \<Rightarrow> bool" where
  "si_hid_owner_state_is_current state token =
     (case (state, token) of
        (Some s, Some t) \<Rightarrow> si_hid_owner_token_equal (Some (hs_current s)) (Some t)
      | _ \<Rightarrow> False)"

text \<open>An optional out-pointer is written when it is not NULL.\<close>

definition write_out :: "'a option \<Rightarrow> 'a \<Rightarrow> 'a option" where
  "write_out out v = (case out of None \<Rightarrow> None | Some _ \<Rightarrow> Some v)"

definition si_hid_owner_state_install ::
    "si_hid_owner_state_t option \<Rightarrow> si_hid_owner_claim_t option \<Rightarrow> bool \<Rightarrow>
     si_hid_owner_token_t option \<Rightarrow>
     bool \<times> si_hid_owner_state_t option \<times> si_hid_owner_token_t option" where
  "si_hid_owner_state_install state claim replace token =
     (case (state, claim) of
        (Some s, Some c) \<Rightarrow>
          if \<not> si_hid_owner_claim_valid claim then (False, state, token)
          else if \<not> replace \<and> ht_generation (hs_current s) \<noteq> 0 \<and>
                  si_hid_owner_claim_equal (Some (ht_claim (hs_current s))) claim
          then (True, state, write_out token (hs_current s))
          else
            let s1 = next_generation s;
                cur = \<lparr>ht_claim = c, ht_generation = hs_next_generation s1\<rparr>
            in (True, Some (s1\<lparr>hs_current := cur\<rparr>), write_out token cur)
      | _ \<Rightarrow> (False, state, token))"

definition si_hid_owner_state_begin_report ::
    "si_hid_owner_state_t option \<Rightarrow> si_hid_owner_token_t option \<Rightarrow>
     bool \<times> si_hid_owner_state_t option" where
  "si_hid_owner_state_begin_report state token =
     (case (state, token) of
        (Some s, Some t) \<Rightarrow>
          if \<not> si_hid_owner_state_is_current state token \<or> hs_neutral_pending s
          then (False, state)
          else (True, Some (s\<lparr>hs_report_owner := t\<rparr>))
      | _ \<Rightarrow> (False, state))"

definition si_hid_owner_state_revoke_current ::
    "si_hid_owner_state_t option \<Rightarrow> si_hid_owner_token_t option \<Rightarrow> si_hid_owner_token_t option \<Rightarrow>
     bool \<times> si_hid_owner_state_t option \<times> si_hid_owner_token_t option" where
  "si_hid_owner_state_revoke_current state expected revoked =
     (case state of None \<Rightarrow> (False, state, revoked) | Some s \<Rightarrow>
      if (expected \<noteq> None \<and> \<not> si_hid_owner_state_is_current state expected) \<or>
         ht_generation (hs_current s) = 0
      then (False, state, revoked)
      else (True, Some (next_generation (s\<lparr>hs_current := zero_token\<rparr>)),
            write_out revoked (hs_current s)))"

definition si_hid_owner_state_revoke_session ::
    "si_hid_owner_state_t option \<Rightarrow> string option \<Rightarrow> u32 \<Rightarrow> si_hid_owner_token_t option \<Rightarrow>
     bool \<times> si_hid_owner_state_t option \<times> si_hid_owner_token_t option" where
  "si_hid_owner_state_revoke_session state session_id auth_generation revoked =
     (case (state, session_id) of
        (Some s, Some sid) \<Rightarrow>
          if sid = [] \<or> ht_generation (hs_current s) = 0 \<or>
             hc_session_id (ht_claim (hs_current s)) \<noteq> sid \<or>
             (auth_generation \<noteq> 0 \<and>
              hc_auth_generation (ht_claim (hs_current s)) \<noteq> auth_generation)
          then (False, state, revoked)
          else si_hid_owner_state_revoke_current state (Some (hs_current s)) revoked
      | _ \<Rightarrow> (False, state, revoked))"

definition si_hid_owner_state_clear_report ::
    "si_hid_owner_state_t option \<Rightarrow> si_hid_owner_token_t option \<Rightarrow> si_hid_owner_state_t option" where
  "si_hid_owner_state_clear_report state expected =
     (case (state, expected) of
        (Some s, Some e) \<Rightarrow>
          if \<not> si_hid_owner_token_equal (Some (hs_report_owner s)) (Some e) then state
          else Some (s\<lparr>hs_report_owner := zero_token\<rparr>)
      | _ \<Rightarrow> state)"

definition si_hid_owner_state_note_report ::
    "si_hid_owner_state_t option \<Rightarrow> u8 \<Rightarrow> bool \<Rightarrow> si_hid_owner_state_t option" where
  "si_hid_owner_state_note_report state report_mask neutral =
     (case state of None \<Rightarrow> None | Some s \<Rightarrow>
      if report_mask = 0 \<or> ht_generation (hs_report_owner s) = 0 then state
      else if neutral
      then Some (s\<lparr>hs_dirty_reports := hs_dirty_reports s AND NOT report_mask\<rparr>)
      else Some (s\<lparr>hs_dirty_reports := hs_dirty_reports s OR report_mask\<rparr>))"

definition si_hid_owner_state_host_reset ::
    "si_hid_owner_state_t option \<Rightarrow> si_hid_owner_state_t option" where
  "si_hid_owner_state_host_reset state =
     (case state of None \<Rightarrow> None
      | Some s \<Rightarrow> Some (s\<lparr>hs_report_owner := zero_token, hs_dirty_reports := 0,
                           hs_neutral_pending := False\<rparr>))"

definition embedded_token_matches_domain ::
    "si_hid_owner_token_t option \<Rightarrow> u32 \<Rightarrow> u32 \<Rightarrow> bool" where
  "embedded_token_matches_domain token lease_resource_id lease_epoch =
     (case token of None \<Rightarrow> False | Some t \<Rightarrow>
        ht_generation t \<noteq> 0 \<and> hc_kind (ht_claim t) = SI_HID_OWNER_CONTROL_LEASE \<and>
        hc_auth_generation (ht_claim t) = 0 \<and> hc_session_id (ht_claim t) = ''embedded-agent'' \<and>
        hc_resource_id (ht_claim t) = lease_resource_id \<and>
        hc_authority_epoch (ht_claim t) = lease_epoch)"

definition si_hid_embedded_touch_decide ::
    "bool \<Rightarrow> si_hid_owner_token_t option \<Rightarrow> si_hid_owner_token_t option \<Rightarrow> u32 \<Rightarrow> u32 \<Rightarrow>
     si_hid_embedded_touch_decision_t" where
  "si_hid_embedded_touch_decide lease_active current expected lease_resource_id lease_epoch =
     (if lease_active
      then if embedded_token_matches_domain expected lease_resource_id lease_epoch \<and>
              si_hid_owner_token_equal current expected
           then SI_HID_EMBEDDED_TOUCH_RENEW else SI_HID_EMBEDDED_TOUCH_DENY
      else if (case expected of None \<Rightarrow> False | Some e \<Rightarrow> ht_generation e \<noteq> 0) \<and>
              \<not> si_hid_owner_token_equal current expected
      then SI_HID_EMBEDDED_TOUCH_DENY
      else SI_HID_EMBEDDED_TOUCH_NEW)"

definition si_hid_embedded_release_matches ::
    "bool \<Rightarrow> si_hid_owner_token_t option \<Rightarrow> u32 \<Rightarrow> u32 \<Rightarrow> bool" where
  "si_hid_embedded_release_matches lease_active expected lease_resource_id lease_epoch \<longleftrightarrow>
     lease_active \<and> embedded_token_matches_domain expected lease_resource_id lease_epoch"

section \<open>The state machine\<close>

datatype hid_op =
    Install si_hid_owner_claim_t bool
  | Begin_Report si_hid_owner_token_t
  | Revoke_Current "si_hid_owner_token_t option"
  | Revoke_Session string u32
  | Clear_Report si_hid_owner_token_t
  | Note_Report u8 bool
  | Host_Reset

definition hid_step :: "si_hid_owner_state_t \<Rightarrow> hid_op \<Rightarrow> si_hid_owner_state_t" where
  "hid_step s x = the (case x of
       Install c r \<Rightarrow> fst (snd (si_hid_owner_state_install (Some s) (Some c) r None))
     | Begin_Report t \<Rightarrow> snd (si_hid_owner_state_begin_report (Some s) (Some t))
     | Revoke_Current e \<Rightarrow> fst (snd (si_hid_owner_state_revoke_current (Some s) e None))
     | Revoke_Session sid g \<Rightarrow> fst (snd (si_hid_owner_state_revoke_session (Some s) (Some sid) g None))
     | Clear_Report t \<Rightarrow> si_hid_owner_state_clear_report (Some s) (Some t)
     | Note_Report m n \<Rightarrow> si_hid_owner_state_note_report (Some s) m n
     | Host_Reset \<Rightarrow> si_hid_owner_state_host_reset (Some s))"

text \<open>A current token carries the newest generation and an acceptable claim.\<close>

definition hid_inv :: "si_hid_owner_state_t \<Rightarrow> bool" where
  "hid_inv s \<longleftrightarrow> (ht_generation (hs_current s) \<noteq> 0 \<longrightarrow>
     ht_generation (hs_current s) = hs_next_generation s \<and>
     si_hid_owner_claim_valid (Some (ht_claim (hs_current s))))"

lemma bump_generation_counter: "generation_counter bump_generation"
  using succ_skip_zero_counter unfolding bump_generation_def .

interpretation hid_gen: generation_counter bump_generation
  by (rule bump_generation_counter)

lemma claim_equal_iff: "si_hid_owner_claim_equal (Some a) (Some b) \<longleftrightarrow> a = b"
  by (cases a; cases b) (auto simp: si_hid_owner_claim_equal_def)

lemma token_equal_iff: "si_hid_owner_token_equal (Some a) (Some b) \<longleftrightarrow> a = b \<and> ht_generation a \<noteq> 0"
  by (cases a; cases b) (auto simp: si_hid_owner_token_equal_def claim_equal_iff)

lemma is_current_iff:
  "si_hid_owner_state_is_current (Some s) (Some t) \<longleftrightarrow> hs_current s = t \<and> ht_generation t \<noteq> 0"
  by (auto simp: si_hid_owner_state_is_current_def token_equal_iff)

lemmas hid_op_defs = hid_step_def si_hid_owner_state_install_def si_hid_owner_state_begin_report_def
  si_hid_owner_state_revoke_current_def si_hid_owner_state_revoke_session_def
  si_hid_owner_state_clear_report_def si_hid_owner_state_note_report_def
  si_hid_owner_state_host_reset_def next_generation_def Let_def

text \<open>
  What a step may do to the ownership: keep it, or move the generation on and leave either no
  current token or one of the new generation.
\<close>

lemma hid_step_cases:
  "(hs_current (hid_step s x) = hs_current s \<and> hs_next_generation (hid_step s x) = hs_next_generation s) \<or>
   (hs_next_generation (hid_step s x) = bump_generation (hs_next_generation s) \<and>
    (hs_current (hid_step s x) = zero_token \<or>
     (\<exists>c. si_hid_owner_claim_valid (Some c) \<and>
       hs_current (hid_step s x) = \<lparr>ht_claim = c, ht_generation = bump_generation (hs_next_generation s)\<rparr>)))"
  by (cases x) (auto simp: hid_op_defs)

lemma hid_step_inv: "hid_inv s \<Longrightarrow> hid_inv (hid_step s x)"
  using hid_step_cases [of s x]
  by (auto simp: hid_inv_def zero_token_def)

interpretation hid: invariant_machine hid_step hid_inv
  by unfold_locales (rule hid_step_inv)

lemma hid_inv_initial: "hid_inv SI_HID_OWNER_STATE_INITIALIZER"
  by (simp add: hid_inv_def SI_HID_OWNER_STATE_INITIALIZER_def zero_token_def)

lemma hid_run_generation:
  "\<exists>k\<le>length xs. hs_next_generation (run_ops hid_step s xs) = (bump_generation ^^ k) (hs_next_generation s) \<and>
     (k = 0 \<longrightarrow> hs_current (run_ops hid_step s xs) = hs_current s)"
proof (induction xs rule: rev_induct)
  case Nil
  then show ?case by (intro exI [of _ 0]) simp
next
  case (snoc x xs)
  let ?t = "run_ops hid_step s xs"
  obtain k where k: "k \<le> length xs"
    "hs_next_generation ?t = (bump_generation ^^ k) (hs_next_generation s)"
    "k = 0 \<longrightarrow> hs_current ?t = hs_current s" using snoc by blast
  from hid_step_cases [of ?t x] show ?case
  proof
    assume "hs_current (hid_step ?t x) = hs_current ?t \<and>
      hs_next_generation (hid_step ?t x) = hs_next_generation ?t"
    then show ?thesis using k by (intro exI [of _ k]) auto
  next
    assume "hs_next_generation (hid_step ?t x) = bump_generation (hs_next_generation ?t) \<and>
      (hs_current (hid_step ?t x) = zero_token \<or> (\<exists>c. si_hid_owner_claim_valid (Some c) \<and>
       hs_current (hid_step ?t x) = \<lparr>ht_claim = c, ht_generation = bump_generation (hs_next_generation ?t)\<rparr>))"
    then show ?thesis using k by (intro exI [of _ "Suc k"]) auto
  qed
qed

text \<open>
  A token whose generation has been left behind, with the counter one bump ahead, is not current
  after any run shorter than the generation space.
\<close>

lemma hid_old_generation_not_current:
  assumes "hid_inv s" "ht_generation t \<noteq> 0" "hs_next_generation s = bump_generation (ht_generation t)"
    and "length xs < 2 ^ 32 - 2"
  shows "hs_current (run_ops hid_step s xs) \<noteq> t"
proof
  let ?s = "run_ops hid_step s xs"
  assume cur: "hs_current ?s = t"
  have "hid_inv ?s" using assms(1) by (rule hid.run_inv)
  then have "ht_generation t = hs_next_generation ?s"
    using cur assms(2) by (simp add: hid_inv_def)
  moreover obtain k where k: "k \<le> length xs"
    "hs_next_generation ?s = (bump_generation ^^ k) (hs_next_generation s)"
    using hid_run_generation by blast
  ultimately have "(bump_generation ^^ Suc k) (ht_generation t) = ht_generation t"
    using assms(3) by (simp add: funpow_swap1)
  moreover have "(bump_generation ^^ Suc k) (ht_generation t) \<noteq> ht_generation t"
    using assms(2,4) k(1) by (intro hid_gen.bump_pow_fresh) auto
  ultimately show False by simp
qed

section \<open>Properties\<close>

text \<open>
  Once the current HID token has been revoked, it is dead: after any sequence of fewer than
  2^32 - 2 further operations it is not current, it cannot begin a report, and an embedded agent
  that still holds it is refused both renewal and a new claim, whatever lease is then active.
\<close>

theorem hid_revoked_token_dead:
  assumes rev: "si_hid_owner_state_revoke_current
      (Some (run_ops hid_step SI_HID_OWNER_STATE_INITIALIZER ys)) expected out = (True, Some s, out')"
    and tok: "t = hs_current (run_ops hid_step SI_HID_OWNER_STATE_INITIALIZER ys)"
    and len: "length xs < 2 ^ 32 - 2"
  shows "\<not> si_hid_owner_state_is_current (Some (run_ops hid_step s xs)) (Some t) \<and>
    \<not> fst (si_hid_owner_state_begin_report (Some (run_ops hid_step s xs)) (Some t)) \<and>
    si_hid_embedded_touch_decide active (Some (hs_current (run_ops hid_step s xs))) (Some t) res epoch
      = SI_HID_EMBEDDED_TOUCH_DENY"
proof -
  let ?r = "run_ops hid_step SI_HID_OWNER_STATE_INITIALIZER ys"
  have inv: "hid_inv ?r" by (rule hid.run_inv) (rule hid_inv_initial)
  have gen: "ht_generation t \<noteq> 0" and s: "s = next_generation (?r\<lparr>hs_current := zero_token\<rparr>)"
    using rev tok by (auto simp: si_hid_owner_state_revoke_current_def split: if_splits)
  have "hid_inv s" by (simp add: s hid_inv_def next_generation_def zero_token_def)
  moreover have "hs_next_generation s = bump_generation (ht_generation t)"
    using inv gen tok by (simp add: s hid_inv_def next_generation_def)
  ultimately have "hs_current (run_ops hid_step s xs) \<noteq> t"
    using gen len by (intro hid_old_generation_not_current)
  then show ?thesis
    using gen by (auto simp: is_current_iff si_hid_owner_state_begin_report_def
        si_hid_embedded_touch_decide_def token_equal_iff)
qed

definition agent_claim :: si_hid_owner_claim_t where
  "agent_claim = \<lparr>hc_kind = SI_HID_OWNER_CONTROL_LEASE, hc_session_id = ''embedded-agent'',
     hc_auth_generation = 0, hc_resource_id = 5, hc_authority_epoch = 9\<rparr>"

theorem hid_revoked_token_dead_witness:
  "let r = run_ops hid_step SI_HID_OWNER_STATE_INITIALIZER [Install agent_claim True];
       s = the (fst (snd (si_hid_owner_state_revoke_current (Some r) None None)));
       s' = run_ops hid_step s [Install agent_claim True]
   in si_hid_owner_state_is_current (Some r) (Some (hs_current r)) \<and>
      ht_generation (hs_current s') = 3 \<and>
      \<not> si_hid_owner_state_is_current (Some s') (Some (hs_current r))"
  using hid_revoked_token_dead [of "[Install agent_claim True]" None None _ None _
      "[Install agent_claim True]"]
  by (simp add: hid_op_defs SI_HID_OWNER_STATE_INITIALIZER_def zero_token_def zero_claim_def
      agent_claim_def si_hid_owner_claim_valid_def is_current_iff bump_generation_def)

text \<open>
  In every reachable state a report can be begun only with the token that is current, that
  token was granted for a valid claim and carries the newest generation, and nothing but the
  report owner changes.
\<close>

theorem hid_begin_report_sound:
  assumes "si_hid_owner_state_begin_report
      (Some (run_ops hid_step SI_HID_OWNER_STATE_INITIALIZER xs)) (Some t) = (True, Some s)"
  shows "hs_current s = t \<and> hs_report_owner s = t \<and> \<not> hs_neutral_pending s \<and>
    si_hid_owner_claim_valid (Some (ht_claim t)) \<and> ht_generation t \<noteq> 0 \<and>
    ht_generation t = hs_next_generation s \<and>
    s = (run_ops hid_step SI_HID_OWNER_STATE_INITIALIZER xs)\<lparr>hs_report_owner := t\<rparr>"
proof -
  let ?r = "run_ops hid_step SI_HID_OWNER_STATE_INITIALIZER xs"
  have "hid_inv ?r" by (rule hid.run_inv) (rule hid_inv_initial)
  then show ?thesis
    using assms
    by (auto simp: si_hid_owner_state_begin_report_def is_current_iff hid_inv_def split: if_splits)
qed

theorem hid_begin_report_sound_witness:
  "let r = run_ops hid_step SI_HID_OWNER_STATE_INITIALIZER [Install agent_claim False]
   in hs_report_owner (the (snd (si_hid_owner_state_begin_report (Some r) (Some (hs_current r)))))
        = \<lparr>ht_claim = agent_claim, ht_generation = 1\<rparr>"
  using hid_begin_report_sound [of "[Install agent_claim False]"
      "\<lparr>ht_claim = agent_claim, ht_generation = 1\<rparr>"]
  by (simp add: hid_op_defs SI_HID_OWNER_STATE_INITIALIZER_def zero_token_def zero_claim_def
      agent_claim_def si_hid_owner_claim_valid_def is_current_iff bump_generation_def)

end
