(* ===== verification/Hid_Fence.thy ===== *)
theory Hid_Fence
  imports Contracts
begin

text \<open>
  The lock-free cancellation fence of \<^verbatim>\<open>core/hid_abort_fence.c\<close> and the keyboard table of
  \<^verbatim>\<open>core/hid_ascii.c\<close>. The fence's compare-and-exchange loop is modelled twice: run alone, as a
  terminating function, and as one atomic access per step of an interleaving of any number of
  callers, whose reachable states are the subject of the invariant.
\<close>

section \<open>The abort fence\<close>

record si_hid_abort_fence_t =
  fe_generation :: u32

definition SI_HID_ABORT_FENCE_INITIALIZER :: si_hid_abort_fence_t where
  "SI_HID_ABORT_FENCE_INITIALIZER = \<lparr>fe_generation = 1\<rparr>"

definition si_hid_abort_fence_snapshot :: "si_hid_abort_fence_t option \<Rightarrow> u32" where
  "si_hid_abort_fence_snapshot fence = (case fence of None \<Rightarrow> 0 | Some f \<Rightarrow> fe_generation f)"

definition si_hid_abort_fence_is_current :: "si_hid_abort_fence_t option \<Rightarrow> u32 \<Rightarrow> bool" where
  "si_hid_abort_fence_is_current fence expected_generation \<longleftrightarrow>
     expected_generation \<noteq> 0 \<and> si_hid_abort_fence_snapshot fence = expected_generation"

definition fence_next :: "u32 \<Rightarrow> u32" where
  "fence_next previous = (let next = previous + 1 in if next = 0 then 1 else next)"

text \<open>The \<open>do \<dots> while\<close> loop when nobody else touches the fence.\<close>

function advance_loop :: "si_hid_abort_fence_t \<Rightarrow> u32 \<Rightarrow> u32 \<times> si_hid_abort_fence_t" where
  "advance_loop f previous =
     (let next = fence_next previous in
      if fe_generation f = previous then (next, f\<lparr>fe_generation := next\<rparr>)
      else advance_loop f (fe_generation f))"
  by pat_completeness auto
termination
  by (relation "measure (\<lambda>(f, previous). if fe_generation f = previous then 0 else 1)") auto

declare advance_loop.simps [simp del]

definition si_hid_abort_fence_advance ::
    "si_hid_abort_fence_t option \<Rightarrow> u32 \<times> si_hid_abort_fence_t option" where
  "si_hid_abort_fence_advance fence =
     (case fence of None \<Rightarrow> (0, None)
      | Some f \<Rightarrow> (case advance_loop f (fe_generation f) of (r, f') \<Rightarrow> (r, Some f')))"

subsection \<open>Interleaved callers\<close>

text \<open>
  A caller is before its first load, in the loop with the value it saw last, or has returned.
  Every step performs one atomic access of the loop's code.
\<close>

datatype advance_pc = Adv_Start | Adv_Loop u32 | Adv_Done u32

fun advance_step :: "si_hid_abort_fence_t \<Rightarrow> advance_pc \<Rightarrow> si_hid_abort_fence_t \<times> advance_pc" where
  "advance_step f Adv_Start = (f, Adv_Loop (fe_generation f))"
| "advance_step f (Adv_Loop previous) =
     (if fe_generation f = previous
      then (f\<lparr>fe_generation := fence_next previous\<rparr>, Adv_Done (fence_next previous))
      else (f, Adv_Loop (fe_generation f)))"
| "advance_step f (Adv_Done r) = (f, Adv_Done r)"

record callers =
  ca_fence :: si_hid_abort_fence_t
  ca_pcs :: "advance_pc list"
  ca_returned :: "u32 list"

definition newly_returned :: "advance_pc \<Rightarrow> advance_pc \<Rightarrow> u32 list" where
  "newly_returned pc pc' = (case (pc, pc') of (Adv_Loop _, Adv_Done r) \<Rightarrow> [r] | _ \<Rightarrow> [])"

inductive callers_step :: "callers \<Rightarrow> callers \<Rightarrow> bool" where
  access: "\<lbrakk>i < length (ca_pcs c); advance_step (ca_fence c) (ca_pcs c ! i) = (f, pc)\<rbrakk> \<Longrightarrow>
     callers_step c (c\<lparr>ca_fence := f, ca_pcs := (ca_pcs c)[i := pc],
       ca_returned := ca_returned c @ newly_returned (ca_pcs c ! i) pc\<rparr>)"
| call: "\<lbrakk>i < length (ca_pcs c); ca_pcs c ! i = Adv_Done r\<rbrakk> \<Longrightarrow>
     callers_step c (c\<lparr>ca_pcs := (ca_pcs c)[i := Adv_Start]\<rparr>)"

inductive_cases callers_stepE: "callers_step c d"

abbreviation callers_steps :: "callers \<Rightarrow> callers \<Rightarrow> bool" where
  "callers_steps \<equiv> callers_step\<^sup>*\<^sup>*"

lemma fence_next_counter: "generation_counter fence_next"
  using succ_skip_zero_counter unfolding fence_next_def Let_def .

interpretation fence: generation_counter fence_next
  by (rule fence_next_counter)

text \<open>A step moves the fence exactly when a call returns, and then by one.\<close>

lemma advance_step_newly:
  "advance_step f pc = (f', pc') \<Longrightarrow>
     (newly_returned pc pc' = [] \<and> f' = f) \<or>
     (newly_returned pc pc' = [fence_next (fe_generation f)] \<and>
      fe_generation f' = fence_next (fe_generation f))"
  by (cases pc) (auto simp: newly_returned_def split: if_splits)

lemma callers_step_log:
  assumes "callers_step c d"
  shows "(ca_returned d = ca_returned c \<and> ca_fence d = ca_fence c) \<or>
    (ca_returned d = ca_returned c @ [fence_next (fe_generation (ca_fence c))] \<and>
     fe_generation (ca_fence d) = fence_next (fe_generation (ca_fence c)))"
  using assms by (cases rule: callers_step.cases) (auto dest: advance_step_newly)

lemma callers_steps_log:
  assumes "callers_steps c d"
  shows "\<exists>n. ca_returned d = ca_returned c
      @ map (\<lambda>k. (fence_next ^^ Suc k) (fe_generation (ca_fence c))) [0..<n] \<and>
    fe_generation (ca_fence d) = (fence_next ^^ n) (fe_generation (ca_fence c))"
  using assms
proof (induction rule: rtranclp_induct)
  case base
  then show ?case by (intro exI [of _ 0]) simp
next
  case (step d e)
  then obtain n where n: "ca_returned d = ca_returned c
      @ map (\<lambda>k. (fence_next ^^ Suc k) (fe_generation (ca_fence c))) [0..<n]"
    "fe_generation (ca_fence d) = (fence_next ^^ n) (fe_generation (ca_fence c))" by blast
  from callers_step_log [OF step.hyps(2)] show ?case
  proof
    assume "ca_returned e = ca_returned d \<and> ca_fence e = ca_fence d"
    then show ?thesis using n by (intro exI [of _ n]) simp
  next
    assume "ca_returned e = ca_returned d @ [fence_next (fe_generation (ca_fence d))] \<and>
      fe_generation (ca_fence e) = fence_next (fe_generation (ca_fence d))"
    then show ?thesis using n by (intro exI [of _ "Suc n"]) simp
  qed
qed

subsection \<open>Properties of the fence\<close>

text \<open>
  Whatever the interleaving of any number of callers, the n calls of advance that returned
  since a state was observed moved the fence exactly n generations on, each returning its own
  successive value; so with at least one and fewer than 2^32 - 1 of them, a snapshot taken in that
  state is no longer current and the command that holds it stops.
\<close>

theorem fence_snapshot_invalidated:
  assumes "callers_steps c d" "fe_generation (ca_fence c) \<noteq> 0"
    and "n = length (ca_returned d) - length (ca_returned c)"
  shows "ca_returned d = ca_returned c
      @ map (\<lambda>k. (fence_next ^^ Suc k) (fe_generation (ca_fence c))) [0..<n] \<and>
    fe_generation (ca_fence d) = (fence_next ^^ n) (fe_generation (ca_fence c)) \<and>
    (0 < n \<and> n < 2 ^ 32 - 1 \<longrightarrow>
      \<not> si_hid_abort_fence_is_current (Some (ca_fence d)) (si_hid_abort_fence_snapshot (Some (ca_fence c))))"
proof -
  obtain m where m: "ca_returned d = ca_returned c
      @ map (\<lambda>k. (fence_next ^^ Suc k) (fe_generation (ca_fence c))) [0..<m]"
    "fe_generation (ca_fence d) = (fence_next ^^ m) (fe_generation (ca_fence c))"
    using callers_steps_log [OF assms(1)] by blast
  moreover have "m = n" using m(1) assms(3) by simp
  moreover have "(fence_next ^^ n) (fe_generation (ca_fence c)) \<noteq> fe_generation (ca_fence c)"
    if "0 < n" "n < 2 ^ 32 - 1" using assms(2) that by (rule fence.bump_pow_fresh)
  ultimately show ?thesis
    by (simp add: si_hid_abort_fence_is_current_def si_hid_abort_fence_snapshot_def)
qed

definition two_callers :: callers where
  "two_callers = \<lparr>ca_fence = SI_HID_ABORT_FENCE_INITIALIZER, ca_pcs = [Adv_Start, Adv_Loop 1],
     ca_returned = []\<rparr>"

theorem fence_snapshot_invalidated_witness:
  "let d = two_callers\<lparr>ca_fence := \<lparr>fe_generation = 2\<rparr>, ca_pcs := [Adv_Start, Adv_Done 2], ca_returned := [2]\<rparr>
   in callers_steps two_callers d \<and>
      \<not> si_hid_abort_fence_is_current (Some (ca_fence d)) (si_hid_abort_fence_snapshot (Some (ca_fence two_callers)))"
proof -
  let ?d = "two_callers\<lparr>ca_fence := \<lparr>fe_generation = 2\<rparr>, ca_pcs := [Adv_Start, Adv_Done 2], ca_returned := [2]\<rparr>"
  have "callers_step two_callers ?d"
    using access [of 1 two_callers "\<lparr>fe_generation = 2\<rparr>" "Adv_Done 2"]
    by (simp add: two_callers_def SI_HID_ABORT_FENCE_INITIALIZER_def fence_next_def newly_returned_def)
  then have steps: "callers_steps two_callers ?d" by blast
  have "\<not> si_hid_abort_fence_is_current (Some (ca_fence ?d)) (si_hid_abort_fence_snapshot (Some (ca_fence two_callers)))"
    using fence_snapshot_invalidated [OF steps, of 1]
    by (simp add: two_callers_def SI_HID_ABORT_FENCE_INITIALIZER_def)
  with steps show ?thesis unfolding Let_def by blast
qed

text \<open>
  The loop cannot be starved silently: a compare-and-exchange that fails shows that some call has
  returned since the caller's last look, and one that runs alone succeeds at once.
\<close>

lemma advance_lock_free:
  assumes "callers_steps c d" "ca_pcs d ! i = Adv_Loop (fe_generation (ca_fence c))"
    and "ca_returned d = ca_returned c"
  shows "\<exists>f r. advance_step (ca_fence d) (ca_pcs d ! i) = (f, Adv_Done r)"
  using callers_steps_log [OF assms(1)] assms(2,3) by (auto simp: fence_next_def)

lemma advance_alone:
  "si_hid_abort_fence_advance (Some f)
     = (fence_next (fe_generation f), Some (f\<lparr>fe_generation := fence_next (fe_generation f)\<rparr>))"
  by (simp add: si_hid_abort_fence_advance_def advance_loop.simps [of f "fe_generation f"] Let_def)

section \<open>Printable ASCII as keys\<close>

record si_hid_ascii_key_t =
  hk_code :: "string option"
  hk_shift :: bool

record ascii_mapping_t =
  am_value :: char
  am_code :: string
  am_shift :: bool

definition DIGIT_CODES :: "string list" where
  "DIGIT_CODES = [''Digit0'', ''Digit1'', ''Digit2'', ''Digit3'', ''Digit4'',
     ''Digit5'', ''Digit6'', ''Digit7'', ''Digit8'', ''Digit9'']"

definition LETTER_CODES :: "string list" where
  "LETTER_CODES = [''KeyA'', ''KeyB'', ''KeyC'', ''KeyD'', ''KeyE'', ''KeyF'', ''KeyG'',
     ''KeyH'', ''KeyI'', ''KeyJ'', ''KeyK'', ''KeyL'', ''KeyM'', ''KeyN'',
     ''KeyO'', ''KeyP'', ''KeyQ'', ''KeyR'', ''KeyS'', ''KeyT'', ''KeyU'',
     ''KeyV'', ''KeyW'', ''KeyX'', ''KeyY'', ''KeyZ'']"

definition am :: "char \<Rightarrow> string \<Rightarrow> bool \<Rightarrow> ascii_mapping_t" where
  "am v c s = \<lparr>am_value = v, am_code = c, am_shift = s\<rparr>"

definition SYMBOLS :: "ascii_mapping_t list" where
  "SYMBOLS = [
     am (CHR '' '') ''Space'' False,
     am (CHR ''-'') ''Minus'' False, am (CHR ''_'') ''Minus'' True,
     am (CHR ''='') ''Equal'' False, am (CHR ''+'') ''Equal'' True,
     am (CHR ''['') ''BracketLeft'' False, am (CHR ''{'') ''BracketLeft'' True,
     am (CHR '']'') ''BracketRight'' False, am (CHR ''}'') ''BracketRight'' True,
     am (CHR 0x5C) ''Backslash'' False, am (CHR ''|'') ''Backslash'' True,
     am (CHR '';'') ''Semicolon'' False, am (CHR '':'') ''Semicolon'' True,
     am (CHR 0x27) ''Quote'' False, am (CHR 0x22) ''Quote'' True,
     am (CHR 0x60) ''Backquote'' False, am (CHR ''~'') ''Backquote'' True,
     am (CHR '','') ''Comma'' False, am (CHR ''<'') ''Comma'' True,
     am (CHR ''.'') ''Period'' False, am (CHR ''>'') ''Period'' True,
     am (CHR ''/'') ''Slash'' False, am (CHR ''?'') ''Slash'' True,
     am (CHR ''!'') ''Digit1'' True, am (CHR ''@'') ''Digit2'' True,
     am (CHR ''#'') ''Digit3'' True, am (CHR ''$'') ''Digit4'' True,
     am (CHR ''%'') ''Digit5'' True, am (CHR ''^'') ''Digit6'' True,
     am (CHR ''&'') ''Digit7'' True, am (CHR ''*'') ''Digit8'' True,
     am (CHR ''('') ''Digit9'' True, am (CHR '')'') ''Digit0'' True]"

definition si_hid_ascii_map ::
    "char \<Rightarrow> si_hid_ascii_key_t option \<Rightarrow> bool \<times> si_hid_ascii_key_t option" where
  "si_hid_ascii_map ch key =
     (case key of None \<Rightarrow> (False, None) | Some _ \<Rightarrow>
      if isdigit ch
      then (True, Some \<lparr>hk_code = Some (DIGIT_CODES ! (ccode ch - 48)), hk_shift = False\<rparr>)
      else if islower ch
      then (True, Some \<lparr>hk_code = Some (LETTER_CODES ! (ccode ch - 97)), hk_shift = False\<rparr>)
      else if isupper ch
      then (True, Some \<lparr>hk_code = Some (LETTER_CODES ! (ccode ch - 65)), hk_shift = True\<rparr>)
      else (case find (\<lambda>m. am_value m = ch) SYMBOLS of
              Some m \<Rightarrow> (True, Some \<lparr>hk_code = Some (am_code m), hk_shift = am_shift m\<rparr>)
            | None \<Rightarrow> (False, Some \<lparr>hk_code = None, hk_shift = False\<rparr>)))"

text \<open>The key that is pressed for a character, if any.\<close>

definition key_of :: "char \<Rightarrow> (string \<times> bool) option" where
  "key_of c =
     (if isdigit c then Some (DIGIT_CODES ! (ccode c - 48), False)
      else if islower c then Some (LETTER_CODES ! (ccode c - 97), False)
      else if isupper c then Some (LETTER_CODES ! (ccode c - 65), True)
      else map_option (\<lambda>m. (am_code m, am_shift m)) (find (\<lambda>m. am_value m = c) SYMBOLS))"

lemma ascii_map_key_of:
  "si_hid_ascii_map c (Some k) =
     (case key_of c of Some (code, shift) \<Rightarrow> (True, Some \<lparr>hk_code = Some code, hk_shift = shift\<rparr>)
      | None \<Rightarrow> (False, Some \<lparr>hk_code = None, hk_shift = False\<rparr>))"
  by (simp add: si_hid_ascii_map_def key_of_def split: option.split)

lemma key_tables:
  "distinct DIGIT_CODES" "distinct LETTER_CODES" "distinct (map (\<lambda>m. (am_code m, am_shift m)) SYMBOLS)"
  "\<forall>s\<in>set DIGIT_CODES. take 3 s = ''Dig''" "\<forall>s\<in>set LETTER_CODES. take 3 s = ''Key''"
  "\<forall>m\<in>set SYMBOLS. take 3 (am_code m) \<noteq> ''Key'' \<and> (take 3 (am_code m) = ''Dig'' \<longrightarrow> am_shift m)"
  by (simp_all add: DIGIT_CODES_def LETTER_CODES_def SYMBOLS_def am_def)

lemma ctype_index:
  "isdigit c \<Longrightarrow> ccode c - 48 < length DIGIT_CODES"
  "islower c \<Longrightarrow> ccode c - 97 < length LETTER_CODES"
  "isupper c \<Longrightarrow> ccode c - 65 < length LETTER_CODES"
  by (auto simp: ctype_defs DIGIT_CODES_def LETTER_CODES_def)

lemma symbol_key:
  "find (\<lambda>m. am_value m = c) SYMBOLS = Some m \<Longrightarrow> m \<in> set SYMBOLS \<and> am_value m = c"
  by (auto simp: find_Some_iff in_set_conv_nth)

lemma key_class:
  assumes "key_of c = Some (code, shift)"
  shows "(isdigit c \<and> take 3 code = ''Dig'' \<and> \<not> shift) \<or>
    (islower c \<and> take 3 code = ''Key'' \<and> \<not> shift) \<or>
    (isupper c \<and> take 3 code = ''Key'' \<and> shift) \<or>
    (\<not> isdigit c \<and> \<not> islower c \<and> \<not> isupper c \<and> take 3 code \<noteq> ''Key'' \<and> (take 3 code = ''Dig'' \<longrightarrow> shift) \<and>
     (\<exists>m\<in>set SYMBOLS. am_value m = c \<and> am_code m = code \<and> am_shift m = shift))"
proof -
  consider "isdigit c" | "islower c" | "isupper c" | "\<not> isdigit c" "\<not> islower c" "\<not> isupper c" by blast
  then show ?thesis
  proof cases
    case 1
    then show ?thesis using assms nth_mem [OF ctype_index(1) [OF 1]] key_tables(4)
      by (auto simp: key_of_def)
  next
    case 2
    then have "\<not> isdigit c" by (simp add: ctype_defs)
    then show ?thesis using 2 assms nth_mem [OF ctype_index(2) [OF 2]] key_tables(5)
      by (auto simp: key_of_def)
  next
    case 3
    then have "\<not> isdigit c" "\<not> islower c" by (simp_all add: ctype_defs)
    then show ?thesis using 3 assms nth_mem [OF ctype_index(3) [OF 3]] key_tables(5)
      by (auto simp: key_of_def)
  next
    case 4
    then obtain m where "find (\<lambda>m. am_value m = c) SYMBOLS = Some m" "am_code m = code" "am_shift m = shift"
      using assms by (auto simp: key_of_def)
    then show ?thesis using 4 symbol_key [of c m] key_tables(6) by blast
  qed
qed

lemma symbol_key_inj:
  assumes "m \<in> set SYMBOLS" "n \<in> set SYMBOLS" "am_code m = am_code n" "am_shift m = am_shift n"
  shows "m = n"
  using assms key_tables(3) by (auto simp: distinct_map dest: inj_onD)

lemma ccode_diff_inj: "k \<le> ccode c \<Longrightarrow> k \<le> ccode d \<Longrightarrow> ccode c - k = ccode d - k \<Longrightarrow> c = d"
  using eq_diff_iff [of k "ccode c" "ccode d"] by simp

lemma key_of_inj:
  assumes c: "key_of c = Some (code, shift)" and d: "key_of d = Some (code, shift)"
  shows "c = d"
proof -
  have "c = d" if "isdigit c" "isdigit d"
    using c d that ctype_index(1) key_tables(1)
    by (intro ccode_diff_inj [of 48]) (auto simp: key_of_def nth_eq_iff_index_eq ctype_defs)
  moreover have "c = d" if "islower c" "islower d" "\<not> shift"
  proof -
    have "\<not> isdigit c" "\<not> isdigit d" using that by (auto simp: ctype_defs)
    then show ?thesis
      using c d that ctype_index(2) key_tables(2)
      by (intro ccode_diff_inj [of 97]) (auto simp: key_of_def nth_eq_iff_index_eq ctype_defs)
  qed
  moreover have "c = d" if "isupper c" "isupper d" "shift"
  proof -
    have "\<not> isdigit c" "\<not> isdigit d" "\<not> islower c" "\<not> islower d" using that by (auto simp: ctype_defs)
    then show ?thesis
      using c d that ctype_index(3) key_tables(2)
      by (intro ccode_diff_inj [of 65]) (auto simp: key_of_def nth_eq_iff_index_eq ctype_defs)
  qed
  ultimately show ?thesis
    using key_class [OF c] key_class [OF d] symbol_key_inj by (elim disjE) auto
qed

lemma punctuation_codes:
  assumes "32 \<le> n" "n \<le> 126" "\<not> (48 \<le> n \<and> n \<le> 57)" "\<not> (97 \<le> n \<and> n \<le> 122)" "\<not> (65 \<le> n \<and> n \<le> 90)"
  shows "(n::nat) \<in> {32, 33, 34, 35, 36, 37, 38, 39, 40, 41, 42, 43, 44, 45, 46, 47, 58, 59, 60, 61, 62, 63, 64, 91, 92, 93, 94, 95, 96, 123, 124, 125, 126}"
  using assms by simp presburger

lemma symbol_values: "ccode ` am_value ` set SYMBOLS = {32, 33, 34, 35, 36, 37, 38, 39, 40, 41, 42, 43, 44, 45, 46, 47, 58, 59, 60, 61, 62, 63, 64, 91, 92, 93, 94, 95, 96, 123, 124, 125, 126}"
  by (auto simp: SYMBOLS_def am_def)

lemma symbol_value_iff: "c \<in> am_value ` set SYMBOLS \<longleftrightarrow> ccode c \<in> ccode ` am_value ` set SYMBOLS"
  by (auto simp: image_iff)

lemma key_of_printable: "key_of c \<noteq> None \<longleftrightarrow> 32 \<le> ccode c \<and> ccode c \<le> 126"
proof -
  let ?alnum = "isdigit c \<or> islower c \<or> isupper c"
  have "key_of c \<noteq> None \<longleftrightarrow> ?alnum \<or> c \<in> am_value ` set SYMBOLS"
    by (cases "find (\<lambda>m. am_value m = c) SYMBOLS")
      (auto simp: key_of_def find_None_iff image_iff dest: symbol_key)
  also have "\<dots> \<longleftrightarrow> 32 \<le> ccode c \<and> ccode c \<le> 126"
  proof
    assume "?alnum \<or> c \<in> am_value ` set SYMBOLS"
    then show "32 \<le> ccode c \<and> ccode c \<le> 126"
      unfolding symbol_value_iff symbol_values by (auto simp: ctype_defs)
  next
    assume r: "32 \<le> ccode c \<and> ccode c \<le> 126"
    show "?alnum \<or> c \<in> am_value ` set SYMBOLS"
    proof (cases ?alnum)
      case False
      then have "ccode c \<in> {32, 33, 34, 35, 36, 37, 38, 39, 40, 41, 42, 43, 44, 45, 46, 47, 58, 59, 60, 61, 62, 63, 64, 91, 92, 93, 94, 95, 96, 123, 124, 125, 126}"
        using r by (intro punctuation_codes) (auto simp: ctype_defs)
      then show ?thesis unfolding symbol_value_iff symbol_values by blast
    qed blast
  qed
  finally show ?thesis .
qed

text \<open>
  The key table accepts exactly the printable ASCII characters, and no two of them share a
  key with the same shift state, so a stored console password that is accepted is typed as the
  characters it consists of.
\<close>

theorem ascii_map_printable_injective:
  "(fst (si_hid_ascii_map c (Some k)) \<longleftrightarrow> 32 \<le> ccode c \<and> ccode c \<le> 126) \<and>
   (fst (si_hid_ascii_map c (Some k)) \<and> si_hid_ascii_map c (Some k) = si_hid_ascii_map d (Some k')
      \<longrightarrow> c = d)"
proof (intro conjI impI)
  show "fst (si_hid_ascii_map c (Some k)) \<longleftrightarrow> 32 \<le> ccode c \<and> ccode c \<le> 126"
    unfolding key_of_printable [symmetric] ascii_map_key_of by (auto split: option.split)
next
  assume a: "fst (si_hid_ascii_map c (Some k)) \<and> si_hid_ascii_map c (Some k) = si_hid_ascii_map d (Some k')"
  then obtain code shift where "key_of c = Some (code, shift)" "key_of d = Some (code, shift)"
    by (auto simp: ascii_map_key_of split: option.splits)
  then show "c = d" by (rule key_of_inj)
qed

theorem ascii_map_printable_injective_witness:
  "fst (si_hid_ascii_map (CHR ''a'') (Some \<lparr>hk_code = None, hk_shift = False\<rparr>)) \<and>
   si_hid_ascii_map (CHR ''a'') (Some \<lparr>hk_code = None, hk_shift = False\<rparr>) \<noteq>
   si_hid_ascii_map (CHR ''A'') (Some \<lparr>hk_code = None, hk_shift = False\<rparr>) \<and>
   \<not> fst (si_hid_ascii_map (CHR 0x0A) (Some \<lparr>hk_code = None, hk_shift = False\<rparr>))"
  using ascii_map_printable_injective [of "CHR ''a''" "\<lparr>hk_code = None, hk_shift = False\<rparr>" "CHR ''A''"]
    ascii_map_printable_injective [of "CHR 0x0A" "\<lparr>hk_code = None, hk_shift = False\<rparr>"]
  by auto

end
