(* ===== verification/Task_Runtime.thy ===== *)
theory Task_Runtime
  imports Contracts
begin

text \<open>
  The agent task runtime, \<^verbatim>\<open>core/agent_task_runtime.c\<close>: one active Turn with its Plan, Steps, Run
  attempt and verification, and a ring of pending Turns. All operations of the module are
  translated here, branch by branch; the invariant and the properties are in the theory
  \<open>Task_Runtime_Props\<close>.

  Arrays are lists of their C length, with the counters the code keeps beside them. A pointer into
  the step array is an index. The operations that start with \<open>active_for_update\<close> share the
  combinator \<open>on_active\<close>, which is that call and its early return.
\<close>

section \<open>Data\<close>

definition SI_AGENT_TASK_ID_MAX :: nat where "SI_AGENT_TASK_ID_MAX = 48"
definition SI_AGENT_TASK_PENDING_CAPACITY :: nat where "SI_AGENT_TASK_PENDING_CAPACITY = 8"
definition SI_AGENT_TASK_STEP_CAPACITY :: nat where "SI_AGENT_TASK_STEP_CAPACITY = 16"

definition UINT32_MAX :: u32 where "UINT32_MAX = 0xFFFFFFFF"

datatype si_agent_task_result_t =
    SI_AGENT_TASK_OK
  | SI_AGENT_TASK_ERR_INVALID_ARGUMENT
  | SI_AGENT_TASK_ERR_INVALID_ID
  | SI_AGENT_TASK_ERR_TIME_REGRESSION
  | SI_AGENT_TASK_ERR_QUEUE_FULL
  | SI_AGENT_TASK_ERR_NO_ACTIVE_TURN
  | SI_AGENT_TASK_ERR_CONFLICT
  | SI_AGENT_TASK_ERR_INVALID_TRANSITION
  | SI_AGENT_TASK_ERR_CAPACITY
  | SI_AGENT_TASK_ERR_NOT_FOUND
  | SI_AGENT_TASK_ERR_VERIFICATION_REQUIRED
  | SI_AGENT_TASK_RESULT_OTHER u32

datatype si_agent_turn_status_t =
    SI_AGENT_TURN_QUEUED
  | SI_AGENT_TURN_UNDERSTANDING
  | SI_AGENT_TURN_PLANNING
  | SI_AGENT_TURN_GATHERING_CONTEXT
  | SI_AGENT_TURN_EXECUTING
  | SI_AGENT_TURN_WAITING_REQUEST
  | SI_AGENT_TURN_WAITING_USER
  | SI_AGENT_TURN_PAUSED
  | SI_AGENT_TURN_VERIFYING
  | SI_AGENT_TURN_BLOCKED
  | SI_AGENT_TURN_COMPLETED
  | SI_AGENT_TURN_FAILED
  | SI_AGENT_TURN_INTERRUPTED
  | SI_AGENT_TURN_CANCELLED
  | SI_AGENT_TURN_OUTCOME_UNKNOWN
  | SI_AGENT_TURN_OTHER u32

datatype si_agent_run_attempt_status_t =
    SI_AGENT_RUN_ATTEMPT_RUNNING
  | SI_AGENT_RUN_ATTEMPT_PAUSED
  | SI_AGENT_RUN_ATTEMPT_COMPLETED
  | SI_AGENT_RUN_ATTEMPT_FAILED
  | SI_AGENT_RUN_ATTEMPT_INTERRUPTED
  | SI_AGENT_RUN_ATTEMPT_CANCELLED
  | SI_AGENT_RUN_ATTEMPT_OUTCOME_UNKNOWN

datatype si_agent_plan_status_t =
    SI_AGENT_PLAN_ACTIVE
  | SI_AGENT_PLAN_COMPLETED
  | SI_AGENT_PLAN_FAILED
  | SI_AGENT_PLAN_OUTCOME_UNKNOWN

datatype si_agent_step_status_t =
    SI_AGENT_STEP_PENDING
  | SI_AGENT_STEP_IN_PROGRESS
  | SI_AGENT_STEP_COMPLETED
  | SI_AGENT_STEP_BLOCKED
  | SI_AGENT_STEP_SKIPPED
  | SI_AGENT_STEP_FAILED
  | SI_AGENT_STEP_OUTCOME_UNKNOWN
  | SI_AGENT_STEP_OTHER u32

datatype si_agent_verification_status_t =
    SI_AGENT_VERIFICATION_UNRECORDED
  | SI_AGENT_VERIFICATION_PASSED
  | SI_AGENT_VERIFICATION_FAILED
  | SI_AGENT_VERIFICATION_OUTCOME_UNKNOWN
  | SI_AGENT_VERIFICATION_OTHER u32

record si_agent_task_run_attempt_t =
  ra_run_attempt_id :: string
  ra_attempt_number :: u32
  ra_status :: si_agent_run_attempt_status_t
  ra_started_at_ms :: u64
  ra_updated_at_ms :: u64
  ra_ended_at_ms :: u64

record si_agent_task_step_t =
  st_step_id :: string
  st_status :: si_agent_step_status_t
  st_verification :: si_agent_verification_status_t
  st_created_at_ms :: u64
  st_updated_at_ms :: u64

record si_agent_task_plan_t =
  pl_plan_id :: string
  pl_version :: u32
  pl_status :: si_agent_plan_status_t
  pl_step_count :: nat
  pl_steps :: "si_agent_task_step_t list"
  pl_created_at_ms :: u64
  pl_updated_at_ms :: u64

record si_agent_task_turn_t =
  tn_thread_id :: string
  tn_turn_id :: string
  tn_status :: si_agent_turn_status_t
  tn_resume_status :: si_agent_turn_status_t
  tn_intent_revision :: u32
  tn_plan_version :: u32
  tn_verification :: si_agent_verification_status_t
  tn_run_attempt :: si_agent_task_run_attempt_t
  tn_has_plan :: bool
  tn_plan :: si_agent_task_plan_t
  tn_created_at_ms :: u64
  tn_updated_at_ms :: u64
  tn_ended_at_ms :: u64

record si_agent_task_pending_turn_t =
  pd_thread_id :: string
  pd_turn_id :: string
  pd_run_attempt_id :: string
  pd_submitted_at_ms :: u64

record si_agent_task_runtime_t =
  rt_runtime_id :: string
  rt_created_at_ms :: u64
  rt_updated_at_ms :: u64
  rt_has_active_turn :: bool
  rt_active_turn :: si_agent_task_turn_t
  rt_pending :: "si_agent_task_pending_turn_t list"
  rt_pending_head :: nat
  rt_pending_count :: nat

text \<open>What \<open>memset(.., 0, ..)\<close> leaves in each of the structs.\<close>

definition zero_run_attempt :: si_agent_task_run_attempt_t where
  "zero_run_attempt = \<lparr>ra_run_attempt_id = [], ra_attempt_number = 0,
     ra_status = SI_AGENT_RUN_ATTEMPT_RUNNING, ra_started_at_ms = 0, ra_updated_at_ms = 0,
     ra_ended_at_ms = 0\<rparr>"

definition zero_step :: si_agent_task_step_t where
  "zero_step = \<lparr>st_step_id = [], st_status = SI_AGENT_STEP_PENDING,
     st_verification = SI_AGENT_VERIFICATION_UNRECORDED, st_created_at_ms = 0, st_updated_at_ms = 0\<rparr>"

definition zero_plan :: si_agent_task_plan_t where
  "zero_plan = \<lparr>pl_plan_id = [], pl_version = 0, pl_status = SI_AGENT_PLAN_ACTIVE, pl_step_count = 0,
     pl_steps = replicate SI_AGENT_TASK_STEP_CAPACITY zero_step, pl_created_at_ms = 0,
     pl_updated_at_ms = 0\<rparr>"

definition zero_turn :: si_agent_task_turn_t where
  "zero_turn = \<lparr>tn_thread_id = [], tn_turn_id = [], tn_status = SI_AGENT_TURN_QUEUED,
     tn_resume_status = SI_AGENT_TURN_QUEUED, tn_intent_revision = 0, tn_plan_version = 0,
     tn_verification = SI_AGENT_VERIFICATION_UNRECORDED, tn_run_attempt = zero_run_attempt,
     tn_has_plan = False, tn_plan = zero_plan, tn_created_at_ms = 0, tn_updated_at_ms = 0,
     tn_ended_at_ms = 0\<rparr>"

definition zero_pending :: si_agent_task_pending_turn_t where
  "zero_pending = \<lparr>pd_thread_id = [], pd_turn_id = [], pd_run_attempt_id = [], pd_submitted_at_ms = 0\<rparr>"

definition zero_runtime :: si_agent_task_runtime_t where
  "zero_runtime = \<lparr>rt_runtime_id = [], rt_created_at_ms = 0, rt_updated_at_ms = 0,
     rt_has_active_turn = False, rt_active_turn = zero_turn,
     rt_pending = replicate SI_AGENT_TASK_PENDING_CAPACITY zero_pending, rt_pending_head = 0,
     rt_pending_count = 0\<rparr>"

section \<open>Helpers\<close>

fun id_valid_loop :: "nat \<Rightarrow> string \<Rightarrow> bool" where
  "id_valid_loop len [] = True"
| "id_valid_loop len (ch # rest) =
     (if len \<ge> SI_AGENT_TASK_ID_MAX \<or> ccode ch \<le> 0x20 \<or> ccode ch \<ge> 0x7f then False
      else id_valid_loop (Suc len) rest)"

definition id_valid :: "string option \<Rightarrow> bool" where
  "id_valid v = (case v of None \<Rightarrow> False | Some s \<Rightarrow> if s = [] then False else id_valid_loop 0 s)"

text \<open>\<open>copy_id\<close> copies without a bound: it is only called on identifiers that are valid.\<close>

definition copy_id :: "string option \<Rightarrow> string" where
  "copy_id v = c_or_empty v"

definition runtime_initialized :: "si_agent_task_runtime_t option \<Rightarrow> bool" where
  "runtime_initialized runtime = (case runtime of None \<Rightarrow> False | Some r \<Rightarrow> rt_runtime_id r \<noteq> [])"

definition time_valid :: "si_agent_task_runtime_t option \<Rightarrow> u64 \<Rightarrow> bool" where
  "time_valid runtime now_ms =
     (case runtime of None \<Rightarrow> False
      | Some r \<Rightarrow> runtime_initialized runtime \<and> now_ms \<ge> rt_updated_at_ms r)"

definition si_agent_turn_status_is_terminal :: "si_agent_turn_status_t \<Rightarrow> bool" where
  "si_agent_turn_status_is_terminal status \<longleftrightarrow>
     status = SI_AGENT_TURN_COMPLETED \<or> status = SI_AGENT_TURN_FAILED \<or>
     status = SI_AGENT_TURN_INTERRUPTED \<or> status = SI_AGENT_TURN_CANCELLED \<or>
     status = SI_AGENT_TURN_OUTCOME_UNKNOWN"

definition phase_status_valid :: "si_agent_turn_status_t \<Rightarrow> bool" where
  "phase_status_valid status \<longleftrightarrow>
     status = SI_AGENT_TURN_UNDERSTANDING \<or> status = SI_AGENT_TURN_PLANNING \<or>
     status = SI_AGENT_TURN_GATHERING_CONTEXT \<or> status = SI_AGENT_TURN_EXECUTING \<or>
     status = SI_AGENT_TURN_WAITING_REQUEST \<or> status = SI_AGENT_TURN_WAITING_USER \<or>
     status = SI_AGENT_TURN_VERIFYING \<or> status = SI_AGENT_TURN_BLOCKED"

definition phase_transition_allowed :: "si_agent_turn_status_t \<Rightarrow> si_agent_turn_status_t \<Rightarrow> bool" where
  "phase_transition_allowed from to =
     (if from = to then True
      else case from of
        SI_AGENT_TURN_UNDERSTANDING \<Rightarrow> to \<in> {
            SI_AGENT_TURN_PLANNING, SI_AGENT_TURN_GATHERING_CONTEXT,
            SI_AGENT_TURN_EXECUTING, SI_AGENT_TURN_WAITING_REQUEST,
            SI_AGENT_TURN_WAITING_USER, SI_AGENT_TURN_VERIFYING, SI_AGENT_TURN_BLOCKED}
      | SI_AGENT_TURN_PLANNING \<Rightarrow> to \<in> {
            SI_AGENT_TURN_GATHERING_CONTEXT, SI_AGENT_TURN_EXECUTING,
            SI_AGENT_TURN_WAITING_REQUEST, SI_AGENT_TURN_WAITING_USER,
            SI_AGENT_TURN_VERIFYING, SI_AGENT_TURN_BLOCKED}
      | SI_AGENT_TURN_GATHERING_CONTEXT \<Rightarrow> to \<in> {
            SI_AGENT_TURN_PLANNING, SI_AGENT_TURN_EXECUTING,
            SI_AGENT_TURN_WAITING_REQUEST, SI_AGENT_TURN_WAITING_USER,
            SI_AGENT_TURN_VERIFYING, SI_AGENT_TURN_BLOCKED}
      | SI_AGENT_TURN_EXECUTING \<Rightarrow> to \<in> {
            SI_AGENT_TURN_PLANNING, SI_AGENT_TURN_GATHERING_CONTEXT,
            SI_AGENT_TURN_WAITING_REQUEST, SI_AGENT_TURN_WAITING_USER,
            SI_AGENT_TURN_VERIFYING, SI_AGENT_TURN_BLOCKED}
      | SI_AGENT_TURN_WAITING_REQUEST \<Rightarrow> to \<in> {
            SI_AGENT_TURN_PLANNING, SI_AGENT_TURN_GATHERING_CONTEXT,
            SI_AGENT_TURN_EXECUTING, SI_AGENT_TURN_WAITING_USER, SI_AGENT_TURN_BLOCKED}
      | SI_AGENT_TURN_WAITING_USER \<Rightarrow> to \<in> {
            SI_AGENT_TURN_PLANNING, SI_AGENT_TURN_GATHERING_CONTEXT,
            SI_AGENT_TURN_EXECUTING, SI_AGENT_TURN_WAITING_REQUEST,
            SI_AGENT_TURN_BLOCKED}
      | SI_AGENT_TURN_VERIFYING \<Rightarrow> to \<in> {
            SI_AGENT_TURN_PLANNING, SI_AGENT_TURN_GATHERING_CONTEXT,
            SI_AGENT_TURN_EXECUTING, SI_AGENT_TURN_WAITING_REQUEST,
            SI_AGENT_TURN_WAITING_USER, SI_AGENT_TURN_BLOCKED}
      | SI_AGENT_TURN_BLOCKED \<Rightarrow> to \<in> {
            SI_AGENT_TURN_UNDERSTANDING, SI_AGENT_TURN_PLANNING,
            SI_AGENT_TURN_GATHERING_CONTEXT, SI_AGENT_TURN_EXECUTING,
            SI_AGENT_TURN_WAITING_REQUEST, SI_AGENT_TURN_WAITING_USER,
            SI_AGENT_TURN_VERIFYING}
      | _ \<Rightarrow> False)"

definition set_run_status ::
    "si_agent_task_turn_t \<Rightarrow> si_agent_run_attempt_status_t \<Rightarrow> u64 \<Rightarrow> bool \<Rightarrow> si_agent_task_turn_t" where
  "set_run_status turn status now_ms ended =
     turn\<lparr>tn_run_attempt := (tn_run_attempt turn)\<lparr>ra_status := status, ra_updated_at_ms := now_ms,
       ra_ended_at_ms := (if ended then now_ms else 0)\<rparr>\<rparr>"

definition turn_apply_status ::
    "si_agent_task_turn_t \<Rightarrow> si_agent_turn_status_t \<Rightarrow> u64 \<Rightarrow> si_agent_task_turn_t" where
  "turn_apply_status t status now_ms =
     (let turn = t\<lparr>tn_status := status, tn_updated_at_ms := now_ms\<rparr>;
          ended = turn\<lparr>tn_ended_at_ms := now_ms\<rparr>
      in case status of
           SI_AGENT_TURN_PAUSED \<Rightarrow> set_run_status turn SI_AGENT_RUN_ATTEMPT_PAUSED now_ms False
         | SI_AGENT_TURN_COMPLETED \<Rightarrow> set_run_status ended SI_AGENT_RUN_ATTEMPT_COMPLETED now_ms True
         | SI_AGENT_TURN_FAILED \<Rightarrow> set_run_status ended SI_AGENT_RUN_ATTEMPT_FAILED now_ms True
         | SI_AGENT_TURN_INTERRUPTED \<Rightarrow>
             set_run_status ended SI_AGENT_RUN_ATTEMPT_INTERRUPTED now_ms True
         | SI_AGENT_TURN_CANCELLED \<Rightarrow> set_run_status ended SI_AGENT_RUN_ATTEMPT_CANCELLED now_ms True
         | SI_AGENT_TURN_OUTCOME_UNKNOWN \<Rightarrow>
             set_run_status ended SI_AGENT_RUN_ATTEMPT_OUTCOME_UNKNOWN now_ms True
         | _ \<Rightarrow> set_run_status (turn\<lparr>tn_ended_at_ms := 0\<rparr>) SI_AGENT_RUN_ATTEMPT_RUNNING now_ms False)"

definition apply_turn_status ::
    "si_agent_task_runtime_t \<Rightarrow> si_agent_turn_status_t \<Rightarrow> u64 \<Rightarrow> si_agent_task_runtime_t" where
  "apply_turn_status runtime status now_ms =
     runtime\<lparr>rt_active_turn := turn_apply_status (rt_active_turn runtime) status now_ms,
             rt_updated_at_ms := now_ms\<rparr>"

definition start_turn ::
    "si_agent_task_runtime_t \<Rightarrow> si_agent_task_pending_turn_t \<Rightarrow> u64 \<Rightarrow> si_agent_task_runtime_t" where
  "start_turn runtime submission now_ms =
     (let turn = zero_turn\<lparr>
            tn_thread_id := copy_id (Some (pd_thread_id submission)),
            tn_turn_id := copy_id (Some (pd_turn_id submission)),
            tn_status := SI_AGENT_TURN_UNDERSTANDING,
            tn_resume_status := SI_AGENT_TURN_UNDERSTANDING,
            tn_intent_revision := 1, tn_plan_version := 1,
            tn_verification := SI_AGENT_VERIFICATION_UNRECORDED,
            tn_created_at_ms := pd_submitted_at_ms submission, tn_updated_at_ms := now_ms,
            tn_run_attempt := zero_run_attempt\<lparr>
              ra_run_attempt_id := copy_id (Some (pd_run_attempt_id submission)),
              ra_attempt_number := 1, ra_status := SI_AGENT_RUN_ATTEMPT_RUNNING,
              ra_started_at_ms := now_ms, ra_updated_at_ms := now_ms\<rparr>\<rparr>
      in runtime\<lparr>rt_active_turn := turn, rt_has_active_turn := True, rt_updated_at_ms := now_ms\<rparr>)"

text \<open>The pending Turn \<open>i\<close> positions behind the head.\<close>

definition pending_slot :: "si_agent_task_runtime_t \<Rightarrow> nat \<Rightarrow> si_agent_task_pending_turn_t" where
  "pending_slot runtime i =
     rt_pending runtime ! ((rt_pending_head runtime + i) mod SI_AGENT_TASK_PENDING_CAPACITY)"

definition id_in_use :: "si_agent_task_runtime_t \<Rightarrow> string \<Rightarrow> string \<Rightarrow> bool" where
  "id_in_use runtime turn_id run_attempt_id =
     (if rt_has_active_turn runtime \<and>
         (tn_turn_id (rt_active_turn runtime) = turn_id \<or>
          ra_run_attempt_id (tn_run_attempt (rt_active_turn runtime)) = run_attempt_id)
      then True
      else list_ex (\<lambda>i. pd_turn_id (pending_slot runtime i) = turn_id \<or>
                         pd_run_attempt_id (pending_slot runtime i) = run_attempt_id)
             [0..<rt_pending_count runtime])"

definition run_attempt_id_in_use :: "si_agent_task_runtime_t \<Rightarrow> string \<Rightarrow> bool" where
  "run_attempt_id_in_use runtime run_attempt_id =
     (if rt_has_active_turn runtime \<and>
         ra_run_attempt_id (tn_run_attempt (rt_active_turn runtime)) = run_attempt_id
      then True
      else list_ex (\<lambda>i. pd_run_attempt_id (pending_slot runtime i) = run_attempt_id)
             [0..<rt_pending_count runtime])"

definition active_for_update :: "si_agent_task_runtime_t option \<Rightarrow> u64 \<Rightarrow> si_agent_task_result_t" where
  "active_for_update runtime now_ms =
     (if \<not> runtime_initialized runtime then SI_AGENT_TASK_ERR_INVALID_ARGUMENT
      else if \<not> time_valid runtime now_ms then SI_AGENT_TASK_ERR_TIME_REGRESSION
      else if \<not> rt_has_active_turn (the runtime) then SI_AGENT_TASK_ERR_NO_ACTIVE_TURN
      else SI_AGENT_TASK_OK)"

definition find_step :: "si_agent_task_plan_t \<Rightarrow> string \<Rightarrow> nat option" where
  "find_step plan step_id =
     find (\<lambda>i. st_step_id (pl_steps plan ! i) = step_id) [0..<pl_step_count plan]"

definition step_transition_allowed :: "si_agent_step_status_t \<Rightarrow> si_agent_step_status_t \<Rightarrow> bool" where
  "step_transition_allowed from to =
     (if from = to then True
      else case from of
        SI_AGENT_STEP_PENDING \<Rightarrow> to \<in> {SI_AGENT_STEP_IN_PROGRESS, SI_AGENT_STEP_SKIPPED}
      | SI_AGENT_STEP_IN_PROGRESS \<Rightarrow> to \<in> {SI_AGENT_STEP_COMPLETED, SI_AGENT_STEP_BLOCKED,
            SI_AGENT_STEP_FAILED, SI_AGENT_STEP_OUTCOME_UNKNOWN}
      | SI_AGENT_STEP_BLOCKED \<Rightarrow> to \<in> {SI_AGENT_STEP_IN_PROGRESS, SI_AGENT_STEP_SKIPPED,
            SI_AGENT_STEP_FAILED, SI_AGENT_STEP_OUTCOME_UNKNOWN}
      | SI_AGENT_STEP_OUTCOME_UNKNOWN \<Rightarrow> to \<in> {SI_AGENT_STEP_IN_PROGRESS, SI_AGENT_STEP_FAILED}
      | _ \<Rightarrow> False)"

definition another_step_in_progress :: "si_agent_task_plan_t \<Rightarrow> nat \<Rightarrow> bool" where
  "another_step_in_progress plan selected =
     list_ex (\<lambda>i. i \<noteq> selected \<and> st_status (pl_steps plan ! i) = SI_AGENT_STEP_IN_PROGRESS)
       [0..<pl_step_count plan]"

text \<open>The loop of \<open>refresh_plan_status\<close> over the flags \<open>(all_finished, has_failed, has_unknown)\<close>.\<close>

definition refresh_flag :: "bool \<times> bool \<times> bool \<Rightarrow> si_agent_task_step_t \<Rightarrow> bool \<times> bool \<times> bool" where
  "refresh_flag = (\<lambda>(all_finished, has_failed, has_unknown) step.
     case st_status step of
       SI_AGENT_STEP_COMPLETED \<Rightarrow> (all_finished, has_failed, has_unknown)
     | SI_AGENT_STEP_SKIPPED \<Rightarrow> (all_finished, has_failed, has_unknown)
     | SI_AGENT_STEP_FAILED \<Rightarrow> (False, True, has_unknown)
     | SI_AGENT_STEP_OUTCOME_UNKNOWN \<Rightarrow> (False, has_failed, True)
     | _ \<Rightarrow> (False, has_failed, has_unknown))"

definition refresh_plan_status :: "si_agent_task_plan_t \<Rightarrow> u64 \<Rightarrow> si_agent_task_plan_t" where
  "refresh_plan_status plan now_ms =
     (case foldl refresh_flag (pl_step_count plan > 0, False, False)
             (take (pl_step_count plan) (pl_steps plan)) of
        (all_finished, has_failed, has_unknown) \<Rightarrow>
          plan\<lparr>pl_status := (if has_unknown then SI_AGENT_PLAN_OUTCOME_UNKNOWN
                            else if has_failed then SI_AGENT_PLAN_FAILED
                            else if all_finished then SI_AGENT_PLAN_COMPLETED
                            else SI_AGENT_PLAN_ACTIVE),
               pl_updated_at_ms := now_ms\<rparr>)"

definition step_unknown :: "u64 \<Rightarrow> si_agent_task_step_t \<Rightarrow> si_agent_task_step_t" where
  "step_unknown now_ms step =
     (if st_status step = SI_AGENT_STEP_IN_PROGRESS
      then step\<lparr>st_status := SI_AGENT_STEP_OUTCOME_UNKNOWN,
                st_verification := SI_AGENT_VERIFICATION_OUTCOME_UNKNOWN,
                st_updated_at_ms := now_ms\<rparr>
      else step)"

definition set_outcome_unknown :: "si_agent_task_runtime_t \<Rightarrow> u64 \<Rightarrow> si_agent_task_runtime_t" where
  "set_outcome_unknown runtime now_ms =
     (let turn = (rt_active_turn runtime)\<lparr>tn_verification := SI_AGENT_VERIFICATION_OUTCOME_UNKNOWN\<rparr>;
          plan = tn_plan turn;
          turn' = (if tn_has_plan turn
                   then turn\<lparr>tn_plan := plan\<lparr>
                          pl_steps := map (step_unknown now_ms) (take (pl_step_count plan) (pl_steps plan))
                                      @ drop (pl_step_count plan) (pl_steps plan),
                          pl_status := SI_AGENT_PLAN_OUTCOME_UNKNOWN,
                          pl_updated_at_ms := now_ms\<rparr>\<rparr>
                   else turn)
      in apply_turn_status (runtime\<lparr>rt_active_turn := turn'\<rparr>) SI_AGENT_TURN_OUTCOME_UNKNOWN now_ms)"

section \<open>Operations\<close>

subsection \<open>Life cycle and queue\<close>

definition si_agent_task_runtime_init ::
    "si_agent_task_runtime_t option \<Rightarrow> string option \<Rightarrow> u64 \<Rightarrow>
     si_agent_task_result_t \<times> si_agent_task_runtime_t option" where
  "si_agent_task_runtime_init runtime runtime_id now_ms =
     (case runtime of None \<Rightarrow> (SI_AGENT_TASK_ERR_INVALID_ARGUMENT, runtime) | Some _ \<Rightarrow>
      if \<not> id_valid runtime_id then (SI_AGENT_TASK_ERR_INVALID_ID, runtime)
      else (SI_AGENT_TASK_OK,
            Some (zero_runtime\<lparr>rt_runtime_id := copy_id runtime_id, rt_created_at_ms := now_ms,
                    rt_updated_at_ms := now_ms\<rparr>)))"

definition si_agent_task_runtime_submit ::
    "si_agent_task_runtime_t option \<Rightarrow> string option \<Rightarrow> string option \<Rightarrow> string option \<Rightarrow> u64 \<Rightarrow>
     bool option \<Rightarrow> si_agent_task_result_t \<times> si_agent_task_runtime_t option \<times> bool option" where
  "si_agent_task_runtime_submit runtime thread_id turn_id run_attempt_id now_ms started_out =
     (let out = (\<lambda>b. map_option (\<lambda>_. b) started_out) in
      if \<not> runtime_initialized runtime
      then (SI_AGENT_TASK_ERR_INVALID_ARGUMENT, runtime, out False)
      else if \<not> id_valid thread_id \<or> \<not> id_valid turn_id \<or> \<not> id_valid run_attempt_id
      then (SI_AGENT_TASK_ERR_INVALID_ID, runtime, out False)
      else if \<not> time_valid runtime now_ms
      then (SI_AGENT_TASK_ERR_TIME_REGRESSION, runtime, out False)
      else
        let rt = the runtime in
        if id_in_use rt (the turn_id) (the run_attempt_id)
        then (SI_AGENT_TASK_ERR_CONFLICT, runtime, out False)
        else
          let submission = \<lparr>pd_thread_id = copy_id thread_id, pd_turn_id = copy_id turn_id,
                pd_run_attempt_id = copy_id run_attempt_id, pd_submitted_at_ms = now_ms\<rparr> in
          if \<not> rt_has_active_turn rt
          then (SI_AGENT_TASK_OK, Some (start_turn rt submission now_ms), out True)
          else if rt_pending_count rt \<ge> SI_AGENT_TASK_PENDING_CAPACITY
          then (SI_AGENT_TASK_ERR_QUEUE_FULL, runtime, out False)
          else
            let tail = (rt_pending_head rt + rt_pending_count rt) mod SI_AGENT_TASK_PENDING_CAPACITY
            in (SI_AGENT_TASK_OK,
                Some (rt\<lparr>rt_pending := (rt_pending rt)[tail := submission],
                         rt_pending_count := rt_pending_count rt + 1,
                         rt_updated_at_ms := now_ms\<rparr>), out False))"

definition si_agent_task_runtime_advance_queue ::
    "si_agent_task_runtime_t option \<Rightarrow> u64 \<Rightarrow> bool option \<Rightarrow>
     si_agent_task_result_t \<times> si_agent_task_runtime_t option \<times> bool option" where
  "si_agent_task_runtime_advance_queue runtime now_ms started_out =
     (let out = (\<lambda>b. map_option (\<lambda>_. b) started_out) in
      if \<not> runtime_initialized runtime
      then (SI_AGENT_TASK_ERR_INVALID_ARGUMENT, runtime, out False)
      else if \<not> time_valid runtime now_ms
      then (SI_AGENT_TASK_ERR_TIME_REGRESSION, runtime, out False)
      else
        let rt = the runtime in
        if rt_has_active_turn rt \<and> \<not> si_agent_turn_status_is_terminal (tn_status (rt_active_turn rt))
        then (SI_AGENT_TASK_ERR_CONFLICT, runtime, out False)
        else
          let rt1 = (if rt_has_active_turn rt
                     then rt\<lparr>rt_active_turn := zero_turn, rt_has_active_turn := False\<rparr> else rt) in
          if rt_pending_count rt1 = 0
          then (SI_AGENT_TASK_OK, Some (rt1\<lparr>rt_updated_at_ms := now_ms\<rparr>), out False)
          else
            let submission = rt_pending rt1 ! rt_pending_head rt1;
                rt2 = rt1\<lparr>rt_pending := (rt_pending rt1)[rt_pending_head rt1 := zero_pending],
                  rt_pending_head := (rt_pending_head rt1 + 1) mod SI_AGENT_TASK_PENDING_CAPACITY,
                  rt_pending_count := rt_pending_count rt1 - 1\<rparr>
            in (SI_AGENT_TASK_OK, Some (start_turn rt2 submission now_ms), out True))"

definition si_agent_task_runtime_active ::
    "si_agent_task_runtime_t option \<Rightarrow> si_agent_task_turn_t option" where
  "si_agent_task_runtime_active runtime =
     (if \<not> runtime_initialized runtime \<or> \<not> rt_has_active_turn (the runtime) then None
      else Some (rt_active_turn (the runtime)))"

definition si_agent_task_runtime_pending_at ::
    "si_agent_task_runtime_t option \<Rightarrow> nat \<Rightarrow> si_agent_task_pending_turn_t option" where
  "si_agent_task_runtime_pending_at runtime index =
     (if \<not> runtime_initialized runtime \<or> index \<ge> rt_pending_count (the runtime) then None
      else Some (pending_slot (the runtime) index))"

definition si_agent_task_runtime_pending_count :: "si_agent_task_runtime_t option \<Rightarrow> nat" where
  "si_agent_task_runtime_pending_count runtime =
     (if runtime_initialized runtime then rt_pending_count (the runtime) else 0)"

subsection \<open>Operations on the active Turn\<close>

type_synonym turn_body =
  "si_agent_task_runtime_t \<Rightarrow> si_agent_task_turn_t \<Rightarrow> si_agent_task_result_t \<times> si_agent_task_runtime_t"

definition on_active :: "si_agent_task_runtime_t option \<Rightarrow> u64 \<Rightarrow> turn_body \<Rightarrow>
    si_agent_task_result_t \<times> si_agent_task_runtime_t option" where
  "on_active runtime now_ms body =
     (let result = active_for_update runtime now_ms in
      if result \<noteq> SI_AGENT_TASK_OK then (result, runtime)
      else case body (the runtime) (rt_active_turn (the runtime)) of
             (result, rt) \<Rightarrow> (result, Some rt))"

text \<open>The timestamps every change of the active Turn leaves.\<close>

definition touch_turn ::
    "si_agent_task_runtime_t \<Rightarrow> si_agent_task_turn_t \<Rightarrow> u64 \<Rightarrow> si_agent_task_runtime_t" where
  "touch_turn rt turn now_ms =
     rt\<lparr>rt_active_turn := turn\<lparr>tn_updated_at_ms := now_ms,
          tn_run_attempt := (tn_run_attempt turn)\<lparr>ra_updated_at_ms := now_ms\<rparr>\<rparr>,
        rt_updated_at_ms := now_ms\<rparr>"

definition si_agent_task_runtime_set_phase ::
    "si_agent_task_runtime_t option \<Rightarrow> si_agent_turn_status_t \<Rightarrow> u64 \<Rightarrow>
     si_agent_task_result_t \<times> si_agent_task_runtime_t option" where
  "si_agent_task_runtime_set_phase runtime status now_ms = on_active runtime now_ms (\<lambda>rt turn.
     if \<not> phase_status_valid status \<or> \<not> phase_transition_allowed (tn_status turn) status
     then (SI_AGENT_TASK_ERR_INVALID_TRANSITION, rt)
     else (SI_AGENT_TASK_OK, apply_turn_status rt status now_ms))"

definition si_agent_task_runtime_begin_plan ::
    "si_agent_task_runtime_t option \<Rightarrow> string option \<Rightarrow> u64 \<Rightarrow>
     si_agent_task_result_t \<times> si_agent_task_runtime_t option" where
  "si_agent_task_runtime_begin_plan runtime plan_id now_ms = on_active runtime now_ms (\<lambda>rt turn.
     if \<not> id_valid plan_id then (SI_AGENT_TASK_ERR_INVALID_ID, rt)
     else if tn_status turn \<noteq> SI_AGENT_TURN_PLANNING then (SI_AGENT_TASK_ERR_INVALID_TRANSITION, rt)
     else if tn_has_plan turn \<and> tn_plan_version turn = UINT32_MAX then (SI_AGENT_TASK_ERR_CONFLICT, rt)
     else
       let turn1 = (if tn_has_plan turn then turn\<lparr>tn_plan_version := tn_plan_version turn + 1\<rparr> else turn);
           plan = zero_plan\<lparr>pl_plan_id := copy_id plan_id, pl_version := tn_plan_version turn1,
             pl_status := SI_AGENT_PLAN_ACTIVE, pl_created_at_ms := now_ms, pl_updated_at_ms := now_ms\<rparr>
       in (SI_AGENT_TASK_OK,
           touch_turn rt (turn1\<lparr>tn_plan := plan, tn_has_plan := True,
             tn_verification := SI_AGENT_VERIFICATION_UNRECORDED\<rparr>) now_ms))"

definition si_agent_task_runtime_add_step ::
    "si_agent_task_runtime_t option \<Rightarrow> string option \<Rightarrow> u64 \<Rightarrow>
     si_agent_task_result_t \<times> si_agent_task_runtime_t option" where
  "si_agent_task_runtime_add_step runtime step_id now_ms = on_active runtime now_ms (\<lambda>rt turn.
     if \<not> id_valid step_id then (SI_AGENT_TASK_ERR_INVALID_ID, rt)
     else if tn_status turn \<noteq> SI_AGENT_TURN_PLANNING \<or> \<not> tn_has_plan turn \<or>
             pl_status (tn_plan turn) \<noteq> SI_AGENT_PLAN_ACTIVE
     then (SI_AGENT_TASK_ERR_INVALID_TRANSITION, rt)
     else if find_step (tn_plan turn) (the step_id) \<noteq> None then (SI_AGENT_TASK_ERR_CONFLICT, rt)
     else if pl_step_count (tn_plan turn) \<ge> SI_AGENT_TASK_STEP_CAPACITY
     then (SI_AGENT_TASK_ERR_CAPACITY, rt)
     else
       let plan = tn_plan turn;
           step = \<lparr>st_step_id = copy_id step_id, st_status = SI_AGENT_STEP_PENDING,
             st_verification = SI_AGENT_VERIFICATION_UNRECORDED, st_created_at_ms = now_ms,
             st_updated_at_ms = now_ms\<rparr>;
           plan' = plan\<lparr>pl_steps := (pl_steps plan)[pl_step_count plan := step],
             pl_step_count := pl_step_count plan + 1, pl_updated_at_ms := now_ms\<rparr>
       in (SI_AGENT_TASK_OK, touch_turn rt (turn\<lparr>tn_plan := plan'\<rparr>) now_ms))"

fun step_status_in_range :: "si_agent_step_status_t \<Rightarrow> bool" where
  "step_status_in_range (SI_AGENT_STEP_OTHER _) = False"
| "step_status_in_range _ = True"

definition si_agent_task_runtime_set_step_status ::
    "si_agent_task_runtime_t option \<Rightarrow> string option \<Rightarrow> si_agent_step_status_t \<Rightarrow> u64 \<Rightarrow>
     si_agent_task_result_t \<times> si_agent_task_runtime_t option" where
  "si_agent_task_runtime_set_step_status runtime step_id status now_ms = on_active runtime now_ms (\<lambda>rt turn.
     if \<not> id_valid step_id then (SI_AGENT_TASK_ERR_INVALID_ID, rt)
     else if si_agent_turn_status_is_terminal (tn_status turn) \<or>
             tn_status turn = SI_AGENT_TURN_PAUSED \<or> \<not> tn_has_plan turn
     then (SI_AGENT_TASK_ERR_INVALID_TRANSITION, rt)
     else case find_step (tn_plan turn) (the step_id) of
       None \<Rightarrow> (SI_AGENT_TASK_ERR_NOT_FOUND, rt)
     | Some i \<Rightarrow>
         let plan = tn_plan turn; step = pl_steps plan ! i in
         if \<not> step_status_in_range status \<or> \<not> step_transition_allowed (st_status step) status
         then (SI_AGENT_TASK_ERR_INVALID_TRANSITION, rt)
         else if status = SI_AGENT_STEP_IN_PROGRESS \<and> another_step_in_progress plan i
         then (SI_AGENT_TASK_ERR_CONFLICT, rt)
         else if status = SI_AGENT_STEP_COMPLETED \<and> st_verification step \<noteq> SI_AGENT_VERIFICATION_PASSED
         then (SI_AGENT_TASK_ERR_VERIFICATION_REQUIRED, rt)
         else
           let step1 = (if status = SI_AGENT_STEP_OUTCOME_UNKNOWN
                        then step\<lparr>st_verification := SI_AGENT_VERIFICATION_OUTCOME_UNKNOWN\<rparr> else step);
               step2 = step1\<lparr>st_status := status, st_updated_at_ms := now_ms\<rparr>;
               plan' = refresh_plan_status (plan\<lparr>pl_steps := (pl_steps plan)[i := step2]\<rparr>) now_ms;
               turn' = turn\<lparr>tn_plan := plan'\<rparr>
           in if status = SI_AGENT_STEP_OUTCOME_UNKNOWN
              then (SI_AGENT_TASK_OK, set_outcome_unknown (rt\<lparr>rt_active_turn := turn'\<rparr>) now_ms)
              else (SI_AGENT_TASK_OK, touch_turn rt turn' now_ms))"

fun verification_recordable :: "si_agent_verification_status_t \<Rightarrow> bool" where
  "verification_recordable SI_AGENT_VERIFICATION_UNRECORDED = False"
| "verification_recordable (SI_AGENT_VERIFICATION_OTHER _) = False"
| "verification_recordable _ = True"

definition si_agent_task_runtime_record_step_verification ::
    "si_agent_task_runtime_t option \<Rightarrow> string option \<Rightarrow> si_agent_verification_status_t \<Rightarrow> u64 \<Rightarrow>
     si_agent_task_result_t \<times> si_agent_task_runtime_t option" where
  "si_agent_task_runtime_record_step_verification runtime step_id verification now_ms =
   on_active runtime now_ms (\<lambda>rt turn.
     if \<not> id_valid step_id then (SI_AGENT_TASK_ERR_INVALID_ID, rt)
     else if \<not> verification_recordable verification then (SI_AGENT_TASK_ERR_INVALID_ARGUMENT, rt)
     else if si_agent_turn_status_is_terminal (tn_status turn) \<or>
             tn_status turn = SI_AGENT_TURN_PAUSED \<or> \<not> tn_has_plan turn
     then (SI_AGENT_TASK_ERR_INVALID_TRANSITION, rt)
     else case find_step (tn_plan turn) (the step_id) of
       None \<Rightarrow> (SI_AGENT_TASK_ERR_NOT_FOUND, rt)
     | Some i \<Rightarrow>
         let plan = tn_plan turn; step = pl_steps plan ! i in
         if st_status step \<noteq> SI_AGENT_STEP_IN_PROGRESS then (SI_AGENT_TASK_ERR_INVALID_TRANSITION, rt)
         else
           let step' = step\<lparr>st_verification := verification, st_updated_at_ms := now_ms\<rparr>;
               plan' = plan\<lparr>pl_steps := (pl_steps plan)[i := step'], pl_updated_at_ms := now_ms\<rparr>;
               turn' = turn\<lparr>tn_plan := plan'\<rparr>
           in if verification = SI_AGENT_VERIFICATION_OUTCOME_UNKNOWN
              then (SI_AGENT_TASK_OK, set_outcome_unknown (rt\<lparr>rt_active_turn := turn'\<rparr>) now_ms)
              else (SI_AGENT_TASK_OK, touch_turn rt turn' now_ms))"

definition si_agent_task_runtime_record_turn_verification ::
    "si_agent_task_runtime_t option \<Rightarrow> si_agent_verification_status_t \<Rightarrow> u64 \<Rightarrow>
     si_agent_task_result_t \<times> si_agent_task_runtime_t option" where
  "si_agent_task_runtime_record_turn_verification runtime verification now_ms =
   on_active runtime now_ms (\<lambda>rt turn.
     if \<not> verification_recordable verification then (SI_AGENT_TASK_ERR_INVALID_ARGUMENT, rt)
     else if tn_status turn \<noteq> SI_AGENT_TURN_VERIFYING then (SI_AGENT_TASK_ERR_INVALID_TRANSITION, rt)
     else if verification = SI_AGENT_VERIFICATION_PASSED \<and> tn_has_plan turn \<and>
             pl_status (tn_plan turn) \<noteq> SI_AGENT_PLAN_COMPLETED
     then (SI_AGENT_TASK_ERR_VERIFICATION_REQUIRED, rt)
     else
       let turn' = turn\<lparr>tn_verification := verification\<rparr>
       in if verification = SI_AGENT_VERIFICATION_OUTCOME_UNKNOWN
          then (SI_AGENT_TASK_OK, set_outcome_unknown (rt\<lparr>rt_active_turn := turn'\<rparr>) now_ms)
          else (SI_AGENT_TASK_OK, touch_turn rt turn' now_ms))"

definition si_agent_task_runtime_steer ::
    "si_agent_task_runtime_t option \<Rightarrow> u64 \<Rightarrow> si_agent_task_result_t \<times> si_agent_task_runtime_t option" where
  "si_agent_task_runtime_steer runtime now_ms = on_active runtime now_ms (\<lambda>rt turn.
     if si_agent_turn_status_is_terminal (tn_status turn) then (SI_AGENT_TASK_ERR_INVALID_TRANSITION, rt)
     else if tn_intent_revision turn = UINT32_MAX \<or> tn_plan_version turn = UINT32_MAX
     then (SI_AGENT_TASK_ERR_CONFLICT, rt)
     else
       let turn' = turn\<lparr>tn_intent_revision := tn_intent_revision turn + 1,
             tn_plan_version := tn_plan_version turn + 1,
             tn_verification := SI_AGENT_VERIFICATION_UNRECORDED, tn_has_plan := False,
             tn_plan := zero_plan, tn_resume_status := SI_AGENT_TURN_PLANNING\<rparr>
       in if tn_status turn = SI_AGENT_TURN_PAUSED
          then (SI_AGENT_TASK_OK, touch_turn rt turn' now_ms)
          else (SI_AGENT_TASK_OK,
                apply_turn_status (rt\<lparr>rt_active_turn := turn'\<rparr>) SI_AGENT_TURN_PLANNING now_ms))"

definition si_agent_task_runtime_pause ::
    "si_agent_task_runtime_t option \<Rightarrow> u64 \<Rightarrow> si_agent_task_result_t \<times> si_agent_task_runtime_t option" where
  "si_agent_task_runtime_pause runtime now_ms = on_active runtime now_ms (\<lambda>rt turn.
     if tn_status turn = SI_AGENT_TURN_PAUSED \<or> si_agent_turn_status_is_terminal (tn_status turn)
     then (SI_AGENT_TASK_ERR_INVALID_TRANSITION, rt)
     else (SI_AGENT_TASK_OK,
           apply_turn_status (rt\<lparr>rt_active_turn := turn\<lparr>tn_resume_status := tn_status turn\<rparr>\<rparr>)
             SI_AGENT_TURN_PAUSED now_ms))"

definition si_agent_task_runtime_resume ::
    "si_agent_task_runtime_t option \<Rightarrow> u64 \<Rightarrow> si_agent_task_result_t \<times> si_agent_task_runtime_t option" where
  "si_agent_task_runtime_resume runtime now_ms = on_active runtime now_ms (\<lambda>rt turn.
     if tn_status turn \<noteq> SI_AGENT_TURN_PAUSED \<or> \<not> phase_status_valid (tn_resume_status turn)
     then (SI_AGENT_TASK_ERR_INVALID_TRANSITION, rt)
     else (SI_AGENT_TASK_OK, apply_turn_status rt (tn_resume_status turn) now_ms))"

definition si_agent_task_runtime_cancel ::
    "si_agent_task_runtime_t option \<Rightarrow> u64 \<Rightarrow> si_agent_task_result_t \<times> si_agent_task_runtime_t option" where
  "si_agent_task_runtime_cancel runtime now_ms = on_active runtime now_ms (\<lambda>rt turn.
     if si_agent_turn_status_is_terminal (tn_status turn) then (SI_AGENT_TASK_ERR_INVALID_TRANSITION, rt)
     else (SI_AGENT_TASK_OK, apply_turn_status rt SI_AGENT_TURN_CANCELLED now_ms))"

definition si_agent_task_runtime_interrupt ::
    "si_agent_task_runtime_t option \<Rightarrow> u64 \<Rightarrow> si_agent_task_result_t \<times> si_agent_task_runtime_t option" where
  "si_agent_task_runtime_interrupt runtime now_ms = on_active runtime now_ms (\<lambda>rt turn.
     if si_agent_turn_status_is_terminal (tn_status turn) then (SI_AGENT_TASK_ERR_INVALID_TRANSITION, rt)
     else (SI_AGENT_TASK_OK, apply_turn_status rt SI_AGENT_TURN_INTERRUPTED now_ms))"

definition si_agent_task_runtime_mark_outcome_unknown ::
    "si_agent_task_runtime_t option \<Rightarrow> u64 \<Rightarrow> si_agent_task_result_t \<times> si_agent_task_runtime_t option" where
  "si_agent_task_runtime_mark_outcome_unknown runtime now_ms = on_active runtime now_ms (\<lambda>rt turn.
     if si_agent_turn_status_is_terminal (tn_status turn) then (SI_AGENT_TASK_ERR_INVALID_TRANSITION, rt)
     else (SI_AGENT_TASK_OK, set_outcome_unknown rt now_ms))"

definition si_agent_task_runtime_fail ::
    "si_agent_task_runtime_t option \<Rightarrow> u64 \<Rightarrow> si_agent_task_result_t \<times> si_agent_task_runtime_t option" where
  "si_agent_task_runtime_fail runtime now_ms = on_active runtime now_ms (\<lambda>rt turn.
     if si_agent_turn_status_is_terminal (tn_status turn) then (SI_AGENT_TASK_ERR_INVALID_TRANSITION, rt)
     else
       let turn' = (if tn_has_plan turn \<and> pl_status (tn_plan turn) = SI_AGENT_PLAN_ACTIVE
                    then turn\<lparr>tn_plan := (tn_plan turn)\<lparr>pl_status := SI_AGENT_PLAN_FAILED,
                           pl_updated_at_ms := now_ms\<rparr>\<rparr>
                    else turn)
       in (SI_AGENT_TASK_OK,
           apply_turn_status (rt\<lparr>rt_active_turn := turn'\<rparr>) SI_AGENT_TURN_FAILED now_ms))"

definition si_agent_task_runtime_complete ::
    "si_agent_task_runtime_t option \<Rightarrow> u64 \<Rightarrow> si_agent_task_result_t \<times> si_agent_task_runtime_t option" where
  "si_agent_task_runtime_complete runtime now_ms = on_active runtime now_ms (\<lambda>rt turn.
     if tn_status turn \<noteq> SI_AGENT_TURN_VERIFYING then (SI_AGENT_TASK_ERR_INVALID_TRANSITION, rt)
     else if tn_verification turn \<noteq> SI_AGENT_VERIFICATION_PASSED \<or>
             (tn_has_plan turn \<and> pl_status (tn_plan turn) \<noteq> SI_AGENT_PLAN_COMPLETED)
     then (SI_AGENT_TASK_ERR_VERIFICATION_REQUIRED, rt)
     else (SI_AGENT_TASK_OK, apply_turn_status rt SI_AGENT_TURN_COMPLETED now_ms))"

definition si_agent_task_runtime_retry ::
    "si_agent_task_runtime_t option \<Rightarrow> string option \<Rightarrow> u64 \<Rightarrow>
     si_agent_task_result_t \<times> si_agent_task_runtime_t option" where
  "si_agent_task_runtime_retry runtime run_attempt_id now_ms = on_active runtime now_ms (\<lambda>rt turn.
     if \<not> id_valid run_attempt_id then (SI_AGENT_TASK_ERR_INVALID_ID, rt)
     else if tn_status turn \<noteq> SI_AGENT_TURN_FAILED \<and> tn_status turn \<noteq> SI_AGENT_TURN_INTERRUPTED \<and>
             tn_status turn \<noteq> SI_AGENT_TURN_OUTCOME_UNKNOWN
     then (SI_AGENT_TASK_ERR_INVALID_TRANSITION, rt)
     else if run_attempt_id_in_use rt (the run_attempt_id) \<or>
             ra_attempt_number (tn_run_attempt turn) = UINT32_MAX \<or> tn_plan_version turn = UINT32_MAX
     then (SI_AGENT_TASK_ERR_CONFLICT, rt)
     else
       let attempt = zero_run_attempt\<lparr>ra_run_attempt_id := copy_id run_attempt_id,
             ra_attempt_number := ra_attempt_number (tn_run_attempt turn) + 1,
             ra_status := SI_AGENT_RUN_ATTEMPT_RUNNING, ra_started_at_ms := now_ms,
             ra_updated_at_ms := now_ms\<rparr>;
           turn' = turn\<lparr>tn_plan_version := tn_plan_version turn + 1,
             tn_verification := SI_AGENT_VERIFICATION_UNRECORDED, tn_has_plan := False,
             tn_plan := zero_plan, tn_run_attempt := attempt,
             tn_status := SI_AGENT_TURN_UNDERSTANDING, tn_resume_status := SI_AGENT_TURN_UNDERSTANDING,
             tn_updated_at_ms := now_ms, tn_ended_at_ms := 0\<rparr>
       in (SI_AGENT_TASK_OK, rt\<lparr>rt_active_turn := turn', rt_updated_at_ms := now_ms\<rparr>))"

section \<open>Names\<close>

fun si_agent_turn_status_name :: "si_agent_turn_status_t \<Rightarrow> string" where
  "si_agent_turn_status_name SI_AGENT_TURN_QUEUED = ''queued''"
| "si_agent_turn_status_name SI_AGENT_TURN_UNDERSTANDING = ''understanding''"
| "si_agent_turn_status_name SI_AGENT_TURN_PLANNING = ''planning''"
| "si_agent_turn_status_name SI_AGENT_TURN_GATHERING_CONTEXT = ''gathering_context''"
| "si_agent_turn_status_name SI_AGENT_TURN_EXECUTING = ''executing''"
| "si_agent_turn_status_name SI_AGENT_TURN_WAITING_REQUEST = ''waiting_request''"
| "si_agent_turn_status_name SI_AGENT_TURN_WAITING_USER = ''waiting_user''"
| "si_agent_turn_status_name SI_AGENT_TURN_PAUSED = ''paused''"
| "si_agent_turn_status_name SI_AGENT_TURN_VERIFYING = ''verifying''"
| "si_agent_turn_status_name SI_AGENT_TURN_BLOCKED = ''blocked''"
| "si_agent_turn_status_name SI_AGENT_TURN_COMPLETED = ''completed''"
| "si_agent_turn_status_name SI_AGENT_TURN_FAILED = ''failed''"
| "si_agent_turn_status_name SI_AGENT_TURN_INTERRUPTED = ''interrupted''"
| "si_agent_turn_status_name SI_AGENT_TURN_CANCELLED = ''cancelled''"
| "si_agent_turn_status_name SI_AGENT_TURN_OUTCOME_UNKNOWN = ''outcome_unknown''"
| "si_agent_turn_status_name (SI_AGENT_TURN_OTHER _) = ''invalid''"

fun si_agent_task_result_name :: "si_agent_task_result_t \<Rightarrow> string" where
  "si_agent_task_result_name SI_AGENT_TASK_OK = ''ok''"
| "si_agent_task_result_name SI_AGENT_TASK_ERR_INVALID_ARGUMENT = ''invalid_argument''"
| "si_agent_task_result_name SI_AGENT_TASK_ERR_INVALID_ID = ''invalid_id''"
| "si_agent_task_result_name SI_AGENT_TASK_ERR_TIME_REGRESSION = ''time_regression''"
| "si_agent_task_result_name SI_AGENT_TASK_ERR_QUEUE_FULL = ''queue_full''"
| "si_agent_task_result_name SI_AGENT_TASK_ERR_NO_ACTIVE_TURN = ''no_active_turn''"
| "si_agent_task_result_name SI_AGENT_TASK_ERR_CONFLICT = ''conflict''"
| "si_agent_task_result_name SI_AGENT_TASK_ERR_INVALID_TRANSITION = ''invalid_transition''"
| "si_agent_task_result_name SI_AGENT_TASK_ERR_CAPACITY = ''capacity''"
| "si_agent_task_result_name SI_AGENT_TASK_ERR_NOT_FOUND = ''not_found''"
| "si_agent_task_result_name SI_AGENT_TASK_ERR_VERIFICATION_REQUIRED = ''verification_required''"
| "si_agent_task_result_name (SI_AGENT_TASK_RESULT_OTHER _) = ''invalid''"

end
