(* ===== verification/Task_Runtime_Props.thy ===== *)
theory Task_Runtime_Props
  imports Task_Runtime
begin

text \<open>
  Invariant and properties of the task runtime. The public operations are one step function with a
  result code; the invariant of Plans, Turns and the queue is kept by every step (interpretation of
  \<open>invariant_machine\<close>), and the pending ring refines a FIFO list by the ring lemmas of
  \<open>Contracts\<close>.
\<close>

section \<open>The invariant\<close>

definition active_steps :: "si_agent_task_plan_t \<Rightarrow> si_agent_task_step_t list" where
  "active_steps plan = take (pl_step_count plan) (pl_steps plan)"

definition step_finished :: "si_agent_task_step_t \<Rightarrow> bool" where
  "step_finished s \<longleftrightarrow> st_status s = SI_AGENT_STEP_COMPLETED \<or> st_status s = SI_AGENT_STEP_SKIPPED"

definition steps_ok :: "si_agent_task_step_t list \<Rightarrow> bool" where
  "steps_ok xs \<longleftrightarrow> distinct (map st_step_id xs) \<and>
     (\<forall>i<length xs. st_status (xs ! i) = SI_AGENT_STEP_COMPLETED \<longrightarrow>
        st_verification (xs ! i) = SI_AGENT_VERIFICATION_PASSED) \<and>
     (\<forall>i<length xs. \<forall>j<length xs. st_status (xs ! i) = SI_AGENT_STEP_IN_PROGRESS \<longrightarrow>
        st_status (xs ! j) = SI_AGENT_STEP_IN_PROGRESS \<longrightarrow> i = j)"

definition plan_ok :: "si_agent_task_plan_t \<Rightarrow> bool" where
  "plan_ok p \<longleftrightarrow> length (pl_steps p) = SI_AGENT_TASK_STEP_CAPACITY \<and>
     pl_step_count p \<le> SI_AGENT_TASK_STEP_CAPACITY \<and> steps_ok (active_steps p) \<and>
     (pl_status p = SI_AGENT_PLAN_COMPLETED \<longrightarrow>
        active_steps p \<noteq> [] \<and> (\<forall>s\<in>set (active_steps p). step_finished s))"

fun run_status_of :: "si_agent_turn_status_t \<Rightarrow> si_agent_run_attempt_status_t" where
  "run_status_of SI_AGENT_TURN_PAUSED = SI_AGENT_RUN_ATTEMPT_PAUSED"
| "run_status_of SI_AGENT_TURN_COMPLETED = SI_AGENT_RUN_ATTEMPT_COMPLETED"
| "run_status_of SI_AGENT_TURN_FAILED = SI_AGENT_RUN_ATTEMPT_FAILED"
| "run_status_of SI_AGENT_TURN_INTERRUPTED = SI_AGENT_RUN_ATTEMPT_INTERRUPTED"
| "run_status_of SI_AGENT_TURN_CANCELLED = SI_AGENT_RUN_ATTEMPT_CANCELLED"
| "run_status_of SI_AGENT_TURN_OUTCOME_UNKNOWN = SI_AGENT_RUN_ATTEMPT_OUTCOME_UNKNOWN"
| "run_status_of _ = SI_AGENT_RUN_ATTEMPT_RUNNING"

definition turn_ok :: "si_agent_task_turn_t \<Rightarrow> bool" where
  "turn_ok t \<longleftrightarrow>
     (tn_has_plan t \<longrightarrow> plan_ok (tn_plan t) \<and> pl_version (tn_plan t) = tn_plan_version t) \<and>
     ra_status (tn_run_attempt t) = run_status_of (tn_status t) \<and>
     (tn_verification t = SI_AGENT_VERIFICATION_PASSED \<and> tn_has_plan t \<longrightarrow>
        pl_status (tn_plan t) = SI_AGENT_PLAN_COMPLETED) \<and>
     (tn_status t = SI_AGENT_TURN_COMPLETED \<longrightarrow> tn_verification t = SI_AGENT_VERIFICATION_PASSED) \<and>
     (phase_status_valid (tn_status t) \<or> tn_status t = SI_AGENT_TURN_PAUSED \<or>
        si_agent_turn_status_is_terminal (tn_status t)) \<and>
     (tn_status t = SI_AGENT_TURN_PAUSED \<longrightarrow> phase_status_valid (tn_resume_status t))"

text \<open>The pending Turns, oldest first.\<close>

definition rt_queue :: "si_agent_task_runtime_t \<Rightarrow> si_agent_task_pending_turn_t list" where
  "rt_queue rt = ring_contents (rt_pending rt) (rt_pending_head rt) (rt_pending_count rt)"

definition pending_ok :: "si_agent_task_pending_turn_t \<Rightarrow> bool" where
  "pending_ok p \<longleftrightarrow> id_valid (Some (pd_thread_id p)) \<and> id_valid (Some (pd_turn_id p)) \<and>
     id_valid (Some (pd_run_attempt_id p))"

definition turn_ids :: "si_agent_task_runtime_t \<Rightarrow> string list" where
  "turn_ids rt = (if rt_has_active_turn rt then [tn_turn_id (rt_active_turn rt)] else [])
     @ map pd_turn_id (rt_queue rt)"

definition run_ids :: "si_agent_task_runtime_t \<Rightarrow> string list" where
  "run_ids rt = (if rt_has_active_turn rt then [ra_run_attempt_id (tn_run_attempt (rt_active_turn rt))] else [])
     @ map pd_run_attempt_id (rt_queue rt)"

definition queue_shape :: "si_agent_task_runtime_t \<Rightarrow> bool" where
  "queue_shape rt \<longleftrightarrow> length (rt_pending rt) = SI_AGENT_TASK_PENDING_CAPACITY \<and>
     rt_pending_head rt < SI_AGENT_TASK_PENDING_CAPACITY \<and>
     rt_pending_count rt \<le> SI_AGENT_TASK_PENDING_CAPACITY"

definition rt_inv :: "si_agent_task_runtime_t \<Rightarrow> bool" where
  "rt_inv rt \<longleftrightarrow> rt_runtime_id rt \<noteq> [] \<and> queue_shape rt \<and>
     (\<forall>p\<in>set (rt_queue rt). pending_ok p) \<and>
     (rt_has_active_turn rt \<longrightarrow> turn_ok (rt_active_turn rt)) \<and>
     (\<not> rt_has_active_turn rt \<longrightarrow> rt_pending_count rt = 0) \<and>
     distinct (turn_ids rt) \<and> distinct (run_ids rt)"

subsection \<open>Plans and steps\<close>

lemma find_step_Some: "find_step plan sid = Some i \<Longrightarrow> i < pl_step_count plan"
  by (auto simp: find_step_def find_Some_iff)

lemma find_step_None:
  "find_step plan sid = None \<Longrightarrow> pl_step_count plan \<le> length (pl_steps plan) \<Longrightarrow>
     sid \<notin> st_step_id ` set (active_steps plan)"
  by (fastforce simp: find_step_def find_None_iff active_steps_def in_set_conv_nth)

lemma refresh_flags:
  "foldl refresh_flag (a, f, u) xs =
     (a \<and> (\<forall>s\<in>set xs. step_finished s), f \<or> (\<exists>s\<in>set xs. st_status s = SI_AGENT_STEP_FAILED),
      u \<or> (\<exists>s\<in>set xs. st_status s = SI_AGENT_STEP_OUTCOME_UNKNOWN))"
proof (induction xs arbitrary: a f u)
  case Nil
  then show ?case by simp
next
  case (Cons s xs)
  then show ?case by (cases "st_status s") (auto simp: refresh_flag_def step_finished_def)
qed

lemma refresh_status_completed:
  "pl_status (refresh_plan_status p now) = SI_AGENT_PLAN_COMPLETED \<longleftrightarrow>
     pl_step_count p > 0 \<and> (\<forall>s\<in>set (active_steps p). step_finished s)"
  by (auto simp: refresh_plan_status_def refresh_flags active_steps_def step_finished_def)

lemma refresh_fields [simp]:
  "pl_steps (refresh_plan_status p now) = pl_steps p"
  "pl_step_count (refresh_plan_status p now) = pl_step_count p"
  "pl_version (refresh_plan_status p now) = pl_version p"
  "active_steps (refresh_plan_status p now) = active_steps p"
  by (simp_all add: refresh_plan_status_def refresh_flags active_steps_def)

lemma steps_ok_update:
  assumes ok: "steps_ok xs" and i: "i < length xs" and sid: "st_step_id s = st_step_id (xs ! i)"
    and comp: "st_status s = SI_AGENT_STEP_COMPLETED \<Longrightarrow> st_verification s = SI_AGENT_VERIFICATION_PASSED"
    and prog: "st_status s = SI_AGENT_STEP_IN_PROGRESS \<Longrightarrow>
      \<forall>j<length xs. j \<noteq> i \<longrightarrow> st_status (xs ! j) \<noteq> SI_AGENT_STEP_IN_PROGRESS"
  shows "steps_ok (xs[i := s])"
proof -
  have "map st_step_id (xs[i := s]) = map st_step_id xs"
    using i sid by (metis list_update_id map_update nth_map)
  then show ?thesis
    using ok i comp prog unfolding steps_ok_def by (auto simp: nth_list_update)
qed

lemma steps_ok_snoc:
  assumes ok: "steps_ok xs" and new: "st_step_id s \<notin> st_step_id ` set xs"
    and pend: "st_status s = SI_AGENT_STEP_PENDING"
  shows "steps_ok (xs @ [s])"
  using assms unfolding steps_ok_def by (auto simp: nth_append less_Suc_eq)

lemma steps_ok_unknown:
  assumes ok: "steps_ok xs"
  shows "steps_ok (map (step_unknown now) xs)"
proof -
  have "st_step_id \<circ> step_unknown now = st_step_id"
    by (simp add: fun_eq_iff step_unknown_def)
  then show ?thesis using ok unfolding steps_ok_def by (auto simp: step_unknown_def)
qed

lemma active_steps_update [simp]:
  "active_steps (p\<lparr>pl_steps := (pl_steps p)[i := s]\<rparr>) = (active_steps p)[i := s]"
  by (simp add: active_steps_def take_update_swap)

lemma active_steps_other [simp]:
  "active_steps (p\<lparr>pl_status := x\<rparr>) = active_steps p"
  "active_steps (p\<lparr>pl_updated_at_ms := now\<rparr>) = active_steps p"
  by (simp_all add: active_steps_def)

lemma plan_ok_length: "plan_ok p \<Longrightarrow> length (active_steps p) = pl_step_count p"
  by (simp add: plan_ok_def active_steps_def)

lemma plan_ok_nth: "plan_ok p \<Longrightarrow> i < pl_step_count p \<Longrightarrow> active_steps p ! i = pl_steps p ! i"
  by (simp add: active_steps_def)

lemma plan_ok_zero: "plan_ok (zero_plan\<lparr>pl_plan_id := i, pl_version := v,
    pl_status := SI_AGENT_PLAN_ACTIVE, pl_created_at_ms := a, pl_updated_at_ms := b\<rparr>)"
  by (simp add: plan_ok_def zero_plan_def active_steps_def steps_ok_def)

lemma plan_ok_add:
  assumes ok: "plan_ok p" and act: "pl_status p = SI_AGENT_PLAN_ACTIVE"
    and new: "find_step p (st_step_id s) = None" and room: "pl_step_count p < SI_AGENT_TASK_STEP_CAPACITY"
    and pend: "st_status s = SI_AGENT_STEP_PENDING"
  shows "plan_ok (p\<lparr>pl_steps := (pl_steps p)[pl_step_count p := s], pl_step_count := pl_step_count p + 1,
    pl_updated_at_ms := now\<rparr>)"
proof -
  have len: "pl_step_count p < length (pl_steps p)" using ok room by (simp add: plan_ok_def)
  have "st_step_id s \<notin> st_step_id ` set (active_steps p)"
    using new len by (intro find_step_None) auto
  then have "steps_ok (active_steps p @ [s])"
    using ok pend by (intro steps_ok_snoc) (auto simp: plan_ok_def)
  moreover have "active_steps (p\<lparr>pl_steps := (pl_steps p)[pl_step_count p := s],
      pl_step_count := pl_step_count p + 1, pl_updated_at_ms := now\<rparr>) = active_steps p @ [s]"
    using len by (simp add: active_steps_def take_Suc_conv_app_nth)
  ultimately show ?thesis using ok room act by (simp add: plan_ok_def)
qed

lemma plan_ok_set_step:
  assumes ok: "plan_ok p" and i: "i < pl_step_count p" and sid: "st_step_id s = st_step_id (pl_steps p ! i)"
    and comp: "st_status s = SI_AGENT_STEP_COMPLETED \<Longrightarrow> st_verification s = SI_AGENT_VERIFICATION_PASSED"
    and prog: "st_status s = SI_AGENT_STEP_IN_PROGRESS \<Longrightarrow> \<not> another_step_in_progress p i"
  shows "plan_ok (refresh_plan_status (p\<lparr>pl_steps := (pl_steps p)[i := s]\<rparr>) now)"
proof -
  note len = plan_ok_length [OF ok]
  have "steps_ok (active_steps p)" using ok by (simp add: plan_ok_def)
  then have "steps_ok ((active_steps p)[i := s])"
    using i len sid comp prog
    by (intro steps_ok_update) (auto simp: plan_ok_nth [OF ok] another_step_in_progress_def list_ex_iff)
  moreover have "(active_steps p)[i := s] \<noteq> []" using len i by auto
  ultimately show ?thesis
    using ok by (simp add: plan_ok_def refresh_status_completed)
qed

lemma plan_ok_record:
  assumes ok: "plan_ok p" and i: "i < pl_step_count p"
    and prog: "st_status (pl_steps p ! i) = SI_AGENT_STEP_IN_PROGRESS"
  shows "plan_ok (p\<lparr>pl_steps := (pl_steps p)[i := (pl_steps p ! i)\<lparr>st_verification := v, st_updated_at_ms := n\<rparr>],
    pl_updated_at_ms := now\<rparr>)"
proof -
  note len = plan_ok_length [OF ok] and nth = plan_ok_nth [OF ok]
  have st: "steps_ok (active_steps p)" using ok by (simp add: plan_ok_def)
  have "\<forall>j<length (active_steps p). j \<noteq> i \<longrightarrow> st_status (active_steps p ! j) \<noteq> SI_AGENT_STEP_IN_PROGRESS"
    using st i prog len nth unfolding steps_ok_def by metis
  then have "steps_ok ((active_steps p)[i := (pl_steps p ! i)\<lparr>st_verification := v, st_updated_at_ms := n\<rparr>])"
    using st i len prog by (intro steps_ok_update) (auto simp: nth)
  moreover have "pl_status p \<noteq> SI_AGENT_PLAN_COMPLETED"
  proof
    assume "pl_status p = SI_AGENT_PLAN_COMPLETED"
    moreover have "pl_steps p ! i \<in> set (active_steps p)"
      using i len nth by (metis nth_mem)
    ultimately show False using ok prog by (auto simp: plan_ok_def step_finished_def)
  qed
  ultimately show ?thesis using ok by (simp add: plan_ok_def)
qed

lemma plan_ok_unknown:
  assumes ok: "plan_ok p"
  shows "plan_ok (p\<lparr>pl_steps := map (step_unknown now) (take (pl_step_count p) (pl_steps p))
      @ drop (pl_step_count p) (pl_steps p), pl_status := SI_AGENT_PLAN_OUTCOME_UNKNOWN,
      pl_updated_at_ms := now\<rparr>)"
proof -
  have "steps_ok (map (step_unknown now) (active_steps p))"
    using ok by (intro steps_ok_unknown) (simp add: plan_ok_def)
  then show ?thesis using ok by (auto simp: plan_ok_def active_steps_def)
qed

subsection \<open>Turns\<close>

lemma turn_apply_fields [simp]:
  "tn_status (turn_apply_status t s now) = s"
  "tn_thread_id (turn_apply_status t s now) = tn_thread_id t"
  "tn_turn_id (turn_apply_status t s now) = tn_turn_id t"
  "tn_resume_status (turn_apply_status t s now) = tn_resume_status t"
  "tn_verification (turn_apply_status t s now) = tn_verification t"
  "tn_has_plan (turn_apply_status t s now) = tn_has_plan t"
  "tn_plan (turn_apply_status t s now) = tn_plan t"
  "tn_plan_version (turn_apply_status t s now) = tn_plan_version t"
  "tn_updated_at_ms (turn_apply_status t s now) = now"
  "ra_status (tn_run_attempt (turn_apply_status t s now)) = run_status_of s"
  "ra_run_attempt_id (tn_run_attempt (turn_apply_status t s now)) = ra_run_attempt_id (tn_run_attempt t)"
  by (simp_all add: turn_apply_status_def set_run_status_def Let_def
      split: si_agent_turn_status_t.split)

definition plan_part :: "si_agent_task_turn_t \<Rightarrow> bool" where
  "plan_part t \<longleftrightarrow>
     (tn_has_plan t \<longrightarrow> plan_ok (tn_plan t) \<and> pl_version (tn_plan t) = tn_plan_version t) \<and>
     (tn_verification t = SI_AGENT_VERIFICATION_PASSED \<and> tn_has_plan t \<longrightarrow>
        pl_status (tn_plan t) = SI_AGENT_PLAN_COMPLETED)"

lemma turn_ok_parts:
  "turn_ok t \<longleftrightarrow> plan_part t \<and> ra_status (tn_run_attempt t) = run_status_of (tn_status t) \<and>
     (tn_status t = SI_AGENT_TURN_COMPLETED \<longrightarrow> tn_verification t = SI_AGENT_VERIFICATION_PASSED) \<and>
     (phase_status_valid (tn_status t) \<or> tn_status t = SI_AGENT_TURN_PAUSED \<or>
        si_agent_turn_status_is_terminal (tn_status t)) \<and>
     (tn_status t = SI_AGENT_TURN_PAUSED \<longrightarrow> phase_status_valid (tn_resume_status t))"
  by (auto simp: turn_ok_def plan_part_def)

lemma turn_ok_apply:
  "turn_ok (turn_apply_status t s now) \<longleftrightarrow> plan_part t \<and>
     (s = SI_AGENT_TURN_COMPLETED \<longrightarrow> tn_verification t = SI_AGENT_VERIFICATION_PASSED) \<and>
     (phase_status_valid s \<or> s = SI_AGENT_TURN_PAUSED \<or> si_agent_turn_status_is_terminal s) \<and>
     (s = SI_AGENT_TURN_PAUSED \<longrightarrow> phase_status_valid (tn_resume_status t))"
  by (auto simp: turn_ok_parts plan_part_def)

section \<open>What an operation on the active Turn may do\<close>

text \<open>
  An error leaves the runtime as it was. A success replaces the active Turn, keeping its identity
  and the invariant, and stamps the time, which may not run backwards; only a retry changes the
  Run attempt, to an identifier not in use.
\<close>

definition turn_update_ok :: "si_agent_task_runtime_t \<Rightarrow> u64 \<Rightarrow> si_agent_task_turn_t \<Rightarrow> bool" where
  "turn_update_ok rt now t' \<longleftrightarrow>
     tn_turn_id t' = tn_turn_id (rt_active_turn rt) \<and>
     tn_thread_id t' = tn_thread_id (rt_active_turn rt) \<and> tn_updated_at_ms t' = now \<and>
     (turn_ok (rt_active_turn rt) \<longrightarrow> turn_ok t') \<and>
     (ra_run_attempt_id (tn_run_attempt t') = ra_run_attempt_id (tn_run_attempt (rt_active_turn rt)) \<or>
      \<not> run_attempt_id_in_use rt (ra_run_attempt_id (tn_run_attempt t')))"

definition body_ok :: "si_agent_task_runtime_t \<Rightarrow> u64 \<Rightarrow> si_agent_task_result_t \<times> si_agent_task_runtime_t \<Rightarrow> bool" where
  "body_ok rt now = (\<lambda>(r, rt'). (r \<noteq> SI_AGENT_TASK_OK \<and> rt' = rt) \<or>
     (r = SI_AGENT_TASK_OK \<and> (\<exists>t'. turn_update_ok rt now t' \<and>
        rt' = rt\<lparr>rt_active_turn := t', rt_updated_at_ms := now\<rparr>)))"

definition turn_result :: "si_agent_task_runtime_t \<Rightarrow> u64 \<Rightarrow>
    si_agent_task_result_t \<times> si_agent_task_runtime_t option \<Rightarrow> bool" where
  "turn_result rt now = (\<lambda>(r, rt'). (r \<noteq> SI_AGENT_TASK_OK \<and> rt' = Some rt) \<or>
     (r = SI_AGENT_TASK_OK \<and> rt_has_active_turn rt \<and> rt_updated_at_ms rt \<le> now \<and>
      (\<exists>t'. turn_update_ok rt now t' \<and>
        rt' = Some (rt\<lparr>rt_active_turn := t', rt_updated_at_ms := now\<rparr>))))"

lemma on_active_result:
  assumes "body_ok rt now (body rt (rt_active_turn rt))"
  shows "turn_result rt now (on_active (Some rt) now body)"
  using assms
  by (cases "body rt (rt_active_turn rt)")
    (auto simp: turn_result_def body_ok_def on_active_def active_for_update_def time_valid_def Let_def)

lemma body_ok_error: "r \<noteq> SI_AGENT_TASK_OK \<Longrightarrow> body_ok rt now (r, rt)"
  by (simp add: body_ok_def)

lemma body_ok_update:
  "turn_update_ok rt now t \<Longrightarrow>
     body_ok rt now (SI_AGENT_TASK_OK, rt\<lparr>rt_active_turn := t, rt_updated_at_ms := now\<rparr>)"
  by (auto simp: body_ok_def)

lemma body_ok_touch:
  assumes "tn_turn_id t = tn_turn_id (rt_active_turn rt)" "tn_thread_id t = tn_thread_id (rt_active_turn rt)"
    and "tn_run_attempt t = tn_run_attempt (rt_active_turn rt)"
    and "turn_ok (rt_active_turn rt) \<Longrightarrow> plan_part t \<and> tn_status t = tn_status (rt_active_turn rt) \<and>
      (tn_status t = SI_AGENT_TURN_COMPLETED \<longrightarrow> tn_verification t = SI_AGENT_VERIFICATION_PASSED) \<and>
      (tn_status t = SI_AGENT_TURN_PAUSED \<longrightarrow> phase_status_valid (tn_resume_status t))"
  shows "body_ok rt now (SI_AGENT_TASK_OK, touch_turn rt t now)"
proof -
  let ?t = "t\<lparr>tn_updated_at_ms := now, tn_run_attempt := (tn_run_attempt t)\<lparr>ra_updated_at_ms := now\<rparr>\<rparr>"
  have part: "plan_part ?t \<longleftrightarrow> plan_part t" by (simp add: plan_part_def)
  have "turn_ok ?t" if ok: "turn_ok (rt_active_turn rt)"
    using assms(3) assms(4) [OF ok] ok unfolding turn_ok_parts part by simp
  then have "turn_update_ok rt now ?t"
    using assms(1-3) by (simp add: turn_update_ok_def)
  then show ?thesis by (auto simp: body_ok_def touch_turn_def)
qed

lemma body_ok_apply:
  assumes "tn_turn_id t = tn_turn_id (rt_active_turn rt)" "tn_thread_id t = tn_thread_id (rt_active_turn rt)"
    and "tn_run_attempt t = tn_run_attempt (rt_active_turn rt)"
    and "turn_ok (rt_active_turn rt) \<Longrightarrow> turn_ok (turn_apply_status t s now)"
  shows "body_ok rt now (SI_AGENT_TASK_OK, apply_turn_status (rt\<lparr>rt_active_turn := t\<rparr>) s now)"
proof -
  have "turn_update_ok rt now (turn_apply_status t s now)"
    using assms by (simp add: turn_update_ok_def)
  then show ?thesis by (auto simp: body_ok_def apply_turn_status_def)
qed

lemma body_ok_apply_same:
  assumes "turn_ok (rt_active_turn rt) \<Longrightarrow> turn_ok (turn_apply_status (rt_active_turn rt) s now)"
  shows "body_ok rt now (SI_AGENT_TASK_OK, apply_turn_status rt s now)"
  using body_ok_apply [of "rt_active_turn rt" rt s now] assms by simp

lemma body_ok_unknown:
  assumes "tn_turn_id t = tn_turn_id (rt_active_turn rt)" "tn_thread_id t = tn_thread_id (rt_active_turn rt)"
    and "tn_run_attempt t = tn_run_attempt (rt_active_turn rt)"
    and "turn_ok (rt_active_turn rt) \<Longrightarrow> tn_has_plan t \<Longrightarrow>
      plan_ok (tn_plan t) \<and> pl_version (tn_plan t) = tn_plan_version t"
  shows "body_ok rt now (SI_AGENT_TASK_OK, set_outcome_unknown (rt\<lparr>rt_active_turn := t\<rparr>) now)"
  using assms plan_ok_unknown
  unfolding set_outcome_unknown_def Let_def si_agent_task_runtime_t.update_convs
  by (auto simp: turn_ok_apply plan_part_def si_agent_turn_status_is_terminal_def
      intro!: body_ok_apply [where rt = rt, simplified])

lemma body_ok_unknown_same:
  assumes "turn_ok (rt_active_turn rt) \<Longrightarrow> tn_has_plan (rt_active_turn rt) \<Longrightarrow>
      plan_ok (tn_plan (rt_active_turn rt)) \<and>
      pl_version (tn_plan (rt_active_turn rt)) = tn_plan_version (rt_active_turn rt)"
  shows "body_ok rt now (SI_AGENT_TASK_OK, set_outcome_unknown rt now)"
  using body_ok_unknown [of "rt_active_turn rt" rt now] assms by simp

lemmas turn_status_defs = si_agent_turn_status_is_terminal_def phase_status_valid_def

lemma turn_ok_plan_part: "turn_ok t \<Longrightarrow> plan_part t"
  by (simp add: turn_ok_parts)

lemma set_phase_result:
  "turn_result rt now (si_agent_task_runtime_set_phase (Some rt) status now)"
  unfolding si_agent_task_runtime_set_phase_def
  by (rule on_active_result)
    (auto simp: turn_ok_apply turn_ok_plan_part phase_status_valid_def
      intro!: body_ok_error body_ok_apply_same)

lemma begin_plan_result:
  "turn_result rt now (si_agent_task_runtime_begin_plan (Some rt) plan_id now)"
  unfolding si_agent_task_runtime_begin_plan_def
  by (rule on_active_result)
    (auto simp: Let_def plan_part_def plan_ok_zero intro!: body_ok_error body_ok_touch)

lemma add_step_result:
  "turn_result rt now (si_agent_task_runtime_add_step (Some rt) step_id now)"
proof -
  have new: "copy_id step_id = the step_id" if "id_valid step_id"
    using that by (cases step_id) (simp_all add: id_valid_def copy_id_def)
  show ?thesis
    unfolding si_agent_task_runtime_add_step_def
    by (rule on_active_result)
      (auto simp: Let_def new plan_part_def turn_ok_parts
        intro!: body_ok_error body_ok_touch plan_ok_add [simplified])
qed

lemma record_turn_result:
  "turn_result rt now (si_agent_task_runtime_record_turn_verification (Some rt) v now)"
  unfolding si_agent_task_runtime_record_turn_verification_def
  by (rule on_active_result)
    (auto simp: Let_def plan_part_def turn_ok_parts
      intro!: body_ok_error body_ok_touch body_ok_unknown)

lemma steer_result: "turn_result rt now (si_agent_task_runtime_steer (Some rt) now)"
  unfolding si_agent_task_runtime_steer_def
  by (rule on_active_result)
    (auto simp: Let_def plan_part_def turn_ok_apply phase_status_valid_def
      intro!: body_ok_error body_ok_touch body_ok_apply)

lemma pause_result: "turn_result rt now (si_agent_task_runtime_pause (Some rt) now)"
  unfolding si_agent_task_runtime_pause_def
  by (rule on_active_result)
    (auto simp: plan_part_def turn_ok_apply turn_ok_parts intro!: body_ok_error body_ok_apply)

lemma resume_result: "turn_result rt now (si_agent_task_runtime_resume (Some rt) now)"
  unfolding si_agent_task_runtime_resume_def
  by (rule on_active_result)
    (auto simp: turn_ok_apply turn_ok_plan_part phase_status_valid_def
      intro!: body_ok_error body_ok_apply_same)

lemma cancel_result: "turn_result rt now (si_agent_task_runtime_cancel (Some rt) now)"
  unfolding si_agent_task_runtime_cancel_def
  by (rule on_active_result)
    (auto simp: turn_ok_apply turn_ok_plan_part si_agent_turn_status_is_terminal_def
      intro!: body_ok_error body_ok_apply_same)

lemma interrupt_result: "turn_result rt now (si_agent_task_runtime_interrupt (Some rt) now)"
  unfolding si_agent_task_runtime_interrupt_def
  by (rule on_active_result)
    (auto simp: turn_ok_apply turn_ok_plan_part si_agent_turn_status_is_terminal_def
      intro!: body_ok_error body_ok_apply_same)

lemma complete_result: "turn_result rt now (si_agent_task_runtime_complete (Some rt) now)"
  unfolding si_agent_task_runtime_complete_def
  by (rule on_active_result)
    (auto simp: turn_ok_apply turn_ok_plan_part si_agent_turn_status_is_terminal_def
      intro!: body_ok_error body_ok_apply_same)

lemma mark_unknown_result: "turn_result rt now (si_agent_task_runtime_mark_outcome_unknown (Some rt) now)"
  unfolding si_agent_task_runtime_mark_outcome_unknown_def
  by (rule on_active_result)
    (auto simp: turn_ok_parts plan_part_def
      intro!: body_ok_error body_ok_unknown_same)

lemma fail_result: "turn_result rt now (si_agent_task_runtime_fail (Some rt) now)"
  unfolding si_agent_task_runtime_fail_def
  by (rule on_active_result)
    (auto simp: Let_def turn_ok_apply turn_ok_parts plan_part_def plan_ok_def
      si_agent_turn_status_is_terminal_def intro!: body_ok_error body_ok_apply body_ok_apply_same)

lemma retry_result: "turn_result rt now (si_agent_task_runtime_retry (Some rt) run_id now)"
proof -
  have new: "copy_id run_id = the run_id" if "id_valid run_id"
    using that by (cases run_id) (simp_all add: id_valid_def copy_id_def)
  show ?thesis
    unfolding si_agent_task_runtime_retry_def
    by (rule on_active_result)
      (auto simp: Let_def new turn_update_ok_def turn_ok_def phase_status_valid_def zero_run_attempt_def
        intro!: body_ok_error body_ok_update)
qed

text \<open>Operations that replace the Plan of a running Turn.\<close>

definition plan_update_ok :: "si_agent_task_turn_t \<Rightarrow> si_agent_task_plan_t \<Rightarrow> bool" where
  "plan_update_ok t p \<longleftrightarrow> plan_ok p \<and> pl_version p = pl_version (tn_plan t) \<and>
     (pl_status (tn_plan t) = SI_AGENT_PLAN_COMPLETED \<longrightarrow> pl_status p = SI_AGENT_PLAN_COMPLETED)"

lemma body_ok_plan_touch:
  assumes "tn_has_plan (rt_active_turn rt)" "\<not> si_agent_turn_status_is_terminal (tn_status (rt_active_turn rt))"
    and "tn_status (rt_active_turn rt) \<noteq> SI_AGENT_TURN_PAUSED"
    and "plan_ok (tn_plan (rt_active_turn rt)) \<Longrightarrow> plan_update_ok (rt_active_turn rt) p"
  shows "body_ok rt now (SI_AGENT_TASK_OK, touch_turn rt ((rt_active_turn rt)\<lparr>tn_plan := p\<rparr>) now)"
  using assms
  by (intro body_ok_touch)
    (auto simp: plan_part_def plan_update_ok_def turn_ok_parts si_agent_turn_status_is_terminal_def)

lemma body_ok_plan_unknown:
  assumes "tn_has_plan (rt_active_turn rt)"
    and "plan_ok (tn_plan (rt_active_turn rt)) \<Longrightarrow>
      plan_ok p \<and> pl_version p = pl_version (tn_plan (rt_active_turn rt))"
  shows "body_ok rt now (SI_AGENT_TASK_OK,
    set_outcome_unknown (rt\<lparr>rt_active_turn := (rt_active_turn rt)\<lparr>tn_plan := p\<rparr>\<rparr>) now)"
  using assms by (intro body_ok_unknown) (auto simp: plan_part_def turn_ok_parts)

lemma completed_step_finished:
  assumes p: "plan_ok p" and i: "i < pl_step_count p" and c: "pl_status p = SI_AGENT_PLAN_COMPLETED"
  shows "step_finished (pl_steps p ! i)"
proof -
  have "pl_steps p ! i \<in> set (active_steps p)"
    using i plan_ok_length [OF p] plan_ok_nth [OF p i] by (metis nth_mem)
  then show ?thesis using p c by (auto simp: plan_ok_def)
qed

lemma record_step_result:
  "turn_result rt now (si_agent_task_runtime_record_step_verification (Some rt) sid v now)"
proof -
  let ?p = "tn_plan (rt_active_turn rt)"
  let ?q = "\<lambda>i. ?p\<lparr>pl_steps := (pl_steps ?p)[i := (pl_steps ?p ! i)\<lparr>st_verification := v,
        st_updated_at_ms := now\<rparr>], pl_updated_at_ms := now\<rparr>"
  have ok: "plan_update_ok (rt_active_turn rt) (?q i)"
    if "plan_ok ?p" "find_step ?p id = Some i" "st_status (pl_steps ?p ! i) = SI_AGENT_STEP_IN_PROGRESS"
    for id i
    using that completed_step_finished [of ?p i] find_step_Some [of ?p id i]
    by (auto simp: plan_update_ok_def step_finished_def intro!: plan_ok_record)
  show ?thesis
    unfolding si_agent_task_runtime_record_step_verification_def
    by (rule on_active_result)
      (auto simp: Let_def ok split: option.split
        intro!: body_ok_error body_ok_plan_touch body_ok_plan_unknown plan_ok_record
        intro: find_step_Some)
qed

lemma set_step_plan:
  fixes now :: u64
  assumes p: "plan_ok p" and i: "i < pl_step_count p"
    and tr: "step_transition_allowed (st_status (pl_steps p ! i)) status"
    and prog: "status = SI_AGENT_STEP_IN_PROGRESS \<longrightarrow> \<not> another_step_in_progress p i"
    and comp: "status = SI_AGENT_STEP_COMPLETED \<longrightarrow>
      st_verification (pl_steps p ! i) = SI_AGENT_VERIFICATION_PASSED"
    and s: "st_step_id s = st_step_id (pl_steps p ! i)" "st_status s = status"
      "status \<noteq> SI_AGENT_STEP_OUTCOME_UNKNOWN \<longrightarrow> st_verification s = st_verification (pl_steps p ! i)"
  defines "q \<equiv> refresh_plan_status (p\<lparr>pl_steps := (pl_steps p)[i := s]\<rparr>) now"
  shows "plan_ok q" "pl_version q = pl_version p"
    and "pl_status p = SI_AGENT_PLAN_COMPLETED \<Longrightarrow> pl_status q = SI_AGENT_PLAN_COMPLETED"
proof -
  show "plan_ok q" unfolding q_def
    using p i prog comp s by (intro plan_ok_set_step) auto
  show "pl_version q = pl_version p" by (simp add: q_def)
  assume c: "pl_status p = SI_AGENT_PLAN_COMPLETED"
  have "step_finished (pl_steps p ! i)" by (rule completed_step_finished [OF p i c])
  then have "step_finished s"
    using tr s(2) by (auto simp: step_finished_def step_transition_allowed_def split: if_splits)
  moreover have "\<forall>y\<in>set (active_steps p). step_finished y" using p c by (simp add: plan_ok_def)
  ultimately have "\<forall>y\<in>set ((active_steps p)[i := s]). step_finished y"
    by (rule ball_list_update [rotated])
  then show "pl_status q = SI_AGENT_PLAN_COMPLETED"
    using i by (simp add: q_def refresh_status_completed)
qed

lemma set_step_status_result:
  "turn_result rt now (si_agent_task_runtime_set_step_status (Some rt) sid status now)"
  unfolding si_agent_task_runtime_set_step_status_def
  by (rule on_active_result)
    (auto simp: Let_def plan_update_ok_def split: option.split
      intro!: body_ok_error body_ok_plan_touch body_ok_plan_unknown set_step_plan
      dest!: find_step_Some)

section \<open>The queue\<close>

lemma rt_queue_map: "queue_shape rt \<Longrightarrow> rt_queue rt = map (pending_slot rt) [0..<rt_pending_count rt]"
  by (simp add: rt_queue_def ring_contents_def pending_slot_def queue_shape_def)

lemma run_attempt_id_in_use_iff:
  "queue_shape rt \<Longrightarrow> run_attempt_id_in_use rt x \<longleftrightarrow> x \<in> set (run_ids rt)"
  by (auto simp: run_attempt_id_in_use_def run_ids_def rt_queue_map list_ex_iff)

lemma id_in_use_iff:
  "queue_shape rt \<Longrightarrow> id_in_use rt a b \<longleftrightarrow> a \<in> set (turn_ids rt) \<or> b \<in> set (run_ids rt)"
  by (auto simp: id_in_use_def turn_ids_def run_ids_def rt_queue_map list_ex_iff)

definition started_turn :: "si_agent_task_pending_turn_t \<Rightarrow> u64 \<Rightarrow> si_agent_task_turn_t" where
  "started_turn p now = rt_active_turn (start_turn zero_runtime p now)"

lemma start_turn_eq:
  "start_turn rt p now = rt\<lparr>rt_active_turn := started_turn p now, rt_has_active_turn := True,
     rt_updated_at_ms := now\<rparr>"
  by (simp add: start_turn_def started_turn_def Let_def)

lemma started_turn_fields [simp]:
  "tn_turn_id (started_turn p now) = pd_turn_id p"
  "tn_thread_id (started_turn p now) = pd_thread_id p"
  "tn_status (started_turn p now) = SI_AGENT_TURN_UNDERSTANDING"
  "ra_run_attempt_id (tn_run_attempt (started_turn p now)) = pd_run_attempt_id p"
  "turn_ok (started_turn p now)"
  by (simp_all add: started_turn_def start_turn_def Let_def copy_id_def turn_ok_def zero_turn_def
      phase_status_valid_def)

definition submission :: "string option \<Rightarrow> string option \<Rightarrow> string option \<Rightarrow> u64 \<Rightarrow> si_agent_task_pending_turn_t" where
  "submission thread turn run now = \<lparr>pd_thread_id = the thread, pd_turn_id = the turn,
     pd_run_attempt_id = the run, pd_submitted_at_ms = now\<rparr>"

lemma id_valid_copy: "id_valid x \<Longrightarrow> copy_id x = the x" "id_valid x \<Longrightarrow> id_valid (Some (the x))"
  by (cases x; simp add: id_valid_def copy_id_def)+

lemma submit_result:
  assumes "queue_shape rt"
    and "si_agent_task_runtime_submit (Some rt) thread turn run now started = (r, rt', s)"
  shows "(r \<noteq> SI_AGENT_TASK_OK \<and> rt' = Some rt) \<or>
    (r = SI_AGENT_TASK_OK \<and> rt_updated_at_ms rt \<le> now \<and> pending_ok (submission thread turn run now) \<and>
     the turn \<notin> set (turn_ids rt) \<and> the run \<notin> set (run_ids rt) \<and>
     (if rt_has_active_turn rt
      then rt_pending_count rt < SI_AGENT_TASK_PENDING_CAPACITY \<and>
        rt' = Some (rt\<lparr>rt_pending := (rt_pending rt)[(rt_pending_head rt + rt_pending_count rt)
            mod SI_AGENT_TASK_PENDING_CAPACITY := submission thread turn run now],
          rt_pending_count := rt_pending_count rt + 1, rt_updated_at_ms := now\<rparr>)
      else rt' = Some (start_turn rt (submission thread turn run now) now)))"
  using assms
  by (auto simp: si_agent_task_runtime_submit_def Let_def time_valid_def id_valid_copy submission_def
      pending_ok_def id_in_use_iff split: if_splits)

lemma advance_result:
  assumes "si_agent_task_runtime_advance_queue (Some rt) now started = (r, rt', s)"
  shows "(r \<noteq> SI_AGENT_TASK_OK \<and> rt' = Some rt) \<or>
    (r = SI_AGENT_TASK_OK \<and> rt_updated_at_ms rt \<le> now \<and>
     (rt_has_active_turn rt \<longrightarrow> si_agent_turn_status_is_terminal (tn_status (rt_active_turn rt))) \<and>
     (if rt_pending_count rt = 0
      then rt' = Some (rt\<lparr>rt_has_active_turn := False, rt_updated_at_ms := now,
             rt_active_turn := (if rt_has_active_turn rt then zero_turn else rt_active_turn rt)\<rparr>)
      else rt' = Some (rt\<lparr>rt_active_turn := started_turn (rt_pending rt ! rt_pending_head rt) now,
             rt_has_active_turn := True, rt_updated_at_ms := now,
             rt_pending := (rt_pending rt)[rt_pending_head rt := zero_pending],
             rt_pending_head := (rt_pending_head rt + 1) mod SI_AGENT_TASK_PENDING_CAPACITY,
             rt_pending_count := rt_pending_count rt - 1\<rparr>)))"
  using assms
  by (auto simp: si_agent_task_runtime_advance_queue_def Let_def time_valid_def start_turn_eq
      split: if_splits)

end
