(* ===== verification/Task_Runtime_Machine.thy ===== *)
theory Task_Runtime_Machine
  imports Task_Runtime_Props
begin

text \<open>
  The task runtime as a state machine: every public operation that changes it is a step, every
  step keeps the invariant, and the properties of the runtime hold in every reachable state.
\<close>

section \<open>The state machine\<close>

datatype rt_op =
    Rt_Submit "string option" "string option" "string option" u64
  | Rt_Advance u64
  | Rt_Set_Phase si_agent_turn_status_t u64
  | Rt_Begin_Plan "string option" u64
  | Rt_Add_Step "string option" u64
  | Rt_Set_Step_Status "string option" si_agent_step_status_t u64
  | Rt_Record_Step "string option" si_agent_verification_status_t u64
  | Rt_Record_Turn si_agent_verification_status_t u64
  | Rt_Steer u64
  | Rt_Pause u64
  | Rt_Resume u64
  | Rt_Cancel u64
  | Rt_Interrupt u64
  | Rt_Mark_Unknown u64
  | Rt_Fail u64
  | Rt_Complete u64
  | Rt_Retry "string option" u64

fun rt_exec :: "si_agent_task_runtime_t \<Rightarrow> rt_op \<Rightarrow> si_agent_task_result_t \<times> si_agent_task_runtime_t option" where
  "rt_exec rt (Rt_Submit thread turn run now) =
     (case si_agent_task_runtime_submit (Some rt) thread turn run now None of (r, rt', _) \<Rightarrow> (r, rt'))"
| "rt_exec rt (Rt_Advance now) =
     (case si_agent_task_runtime_advance_queue (Some rt) now None of (r, rt', _) \<Rightarrow> (r, rt'))"
| "rt_exec rt (Rt_Set_Phase s now) = si_agent_task_runtime_set_phase (Some rt) s now"
| "rt_exec rt (Rt_Begin_Plan i now) = si_agent_task_runtime_begin_plan (Some rt) i now"
| "rt_exec rt (Rt_Add_Step i now) = si_agent_task_runtime_add_step (Some rt) i now"
| "rt_exec rt (Rt_Set_Step_Status i s now) = si_agent_task_runtime_set_step_status (Some rt) i s now"
| "rt_exec rt (Rt_Record_Step i v now) = si_agent_task_runtime_record_step_verification (Some rt) i v now"
| "rt_exec rt (Rt_Record_Turn v now) = si_agent_task_runtime_record_turn_verification (Some rt) v now"
| "rt_exec rt (Rt_Steer now) = si_agent_task_runtime_steer (Some rt) now"
| "rt_exec rt (Rt_Pause now) = si_agent_task_runtime_pause (Some rt) now"
| "rt_exec rt (Rt_Resume now) = si_agent_task_runtime_resume (Some rt) now"
| "rt_exec rt (Rt_Cancel now) = si_agent_task_runtime_cancel (Some rt) now"
| "rt_exec rt (Rt_Interrupt now) = si_agent_task_runtime_interrupt (Some rt) now"
| "rt_exec rt (Rt_Mark_Unknown now) = si_agent_task_runtime_mark_outcome_unknown (Some rt) now"
| "rt_exec rt (Rt_Fail now) = si_agent_task_runtime_fail (Some rt) now"
| "rt_exec rt (Rt_Complete now) = si_agent_task_runtime_complete (Some rt) now"
| "rt_exec rt (Rt_Retry i now) = si_agent_task_runtime_retry (Some rt) i now"

definition rt_step :: "si_agent_task_runtime_t \<Rightarrow> rt_op \<Rightarrow> si_agent_task_runtime_t" where
  "rt_step rt x = the (snd (rt_exec rt x))"

fun is_queue_op :: "rt_op \<Rightarrow> bool" where
  "is_queue_op (Rt_Submit _ _ _ _) = True"
| "is_queue_op (Rt_Advance _) = True"
| "is_queue_op _ = False"

lemma turn_op_result:
  "\<not> is_queue_op x \<Longrightarrow> \<exists>now. turn_result rt now (rt_exec rt x)"
  by (cases x; simp; intro exI)
    (rule set_phase_result begin_plan_result add_step_result set_step_status_result
      record_step_result record_turn_result steer_result pause_result resume_result cancel_result
      interrupt_result mark_unknown_result fail_result complete_result retry_result)+

lemma turn_op_cases:
  assumes "\<not> is_queue_op x"
  obtains (err) r where "rt_exec rt x = (r, Some rt)" "r \<noteq> SI_AGENT_TASK_OK"
  | (ok) now t where "rt_exec rt x = (SI_AGENT_TASK_OK, Some (rt\<lparr>rt_active_turn := t, rt_updated_at_ms := now\<rparr>))"
      "rt_has_active_turn rt" "rt_updated_at_ms rt \<le> now" "turn_update_ok rt now t"
proof -
  obtain now where res: "turn_result rt now (rt_exec rt x)" using turn_op_result [OF assms] by blast
  obtain r rt' where e: "rt_exec rt x = (r, rt')" by (cases "rt_exec rt x")
  show thesis
  proof (cases "r = SI_AGENT_TASK_OK")
    case True
    then show ?thesis using res e ok unfolding turn_result_def by auto
  next
    case False
    then show ?thesis using res e err unfolding turn_result_def by auto
  qed
qed

section \<open>The invariant is kept\<close>

lemma rt_queue_update [simp]:
  "rt_queue (rt\<lparr>rt_active_turn := t\<rparr>) = rt_queue rt"
  "rt_queue (rt\<lparr>rt_updated_at_ms := now\<rparr>) = rt_queue rt"
  "rt_queue (rt\<lparr>rt_has_active_turn := b\<rparr>) = rt_queue rt"
  by (simp_all add: rt_queue_def)

lemma rt_inv_turn_update:
  assumes inv: "rt_inv rt" and act: "rt_has_active_turn rt" and ok: "turn_update_ok rt now t"
  shows "rt_inv (rt\<lparr>rt_active_turn := t, rt_updated_at_ms := now\<rparr>)"
proof -
  let ?rt = "rt\<lparr>rt_active_turn := t, rt_updated_at_ms := now\<rparr>"
  have shape: "queue_shape rt" using inv by (simp add: rt_inv_def)
  have "turn_ids ?rt = turn_ids rt" using ok by (simp add: turn_ids_def turn_update_ok_def)
  moreover have "distinct (run_ids ?rt)"
    using inv act ok
    by (auto simp: rt_inv_def run_ids_def turn_update_ok_def run_attempt_id_in_use_iff [OF shape])
  ultimately show ?thesis
    using inv act ok by (simp add: rt_inv_def turn_update_ok_def queue_shape_def)
qed

lemma rt_queue_push:
  assumes "queue_shape rt" "rt_pending_count rt < SI_AGENT_TASK_PENDING_CAPACITY"
  shows "rt_queue (rt\<lparr>rt_pending := (rt_pending rt)[(rt_pending_head rt + rt_pending_count rt)
            mod SI_AGENT_TASK_PENDING_CAPACITY := p],
          rt_pending_count := rt_pending_count rt + 1, rt_updated_at_ms := now\<rparr>) = rt_queue rt @ [p]"
  using ring_contents_push [of "rt_pending_count rt" "rt_pending rt" "rt_pending_head rt" p] assms
  by (simp add: rt_queue_def queue_shape_def)

lemma rt_queue_pop:
  assumes "queue_shape rt" "0 < rt_pending_count rt"
  shows "rt_queue (rt\<lparr>rt_active_turn := t, rt_has_active_turn := True, rt_updated_at_ms := now,
             rt_pending := (rt_pending rt)[rt_pending_head rt := zero_pending],
             rt_pending_head := (rt_pending_head rt + 1) mod SI_AGENT_TASK_PENDING_CAPACITY,
             rt_pending_count := rt_pending_count rt - 1\<rparr>) = tl (rt_queue rt)"
    and "rt_queue rt = rt_pending rt ! rt_pending_head rt # tl (rt_queue rt)"
proof -
  show "rt_queue (rt\<lparr>rt_active_turn := t, rt_has_active_turn := True, rt_updated_at_ms := now,
             rt_pending := (rt_pending rt)[rt_pending_head rt := zero_pending],
             rt_pending_head := (rt_pending_head rt + 1) mod SI_AGENT_TASK_PENDING_CAPACITY,
             rt_pending_count := rt_pending_count rt - 1\<rparr>) = tl (rt_queue rt)"
    using ring_contents_pop [of "rt_pending_count rt" "rt_pending rt" "rt_pending_head rt" zero_pending] assms
    by (simp add: rt_queue_def queue_shape_def)
  have "rt_queue rt \<noteq> []"
    using assms(2) by (metis length_ring_contents list.size(3) not_gr0 rt_queue_def)
  moreover have "hd (rt_queue rt) = rt_pending rt ! rt_pending_head rt"
    using assms ring_contents_hd [of "rt_pending_count rt" "rt_pending_head rt" "rt_pending rt"]
    by (simp add: rt_queue_def queue_shape_def)
  ultimately show "rt_queue rt = rt_pending rt ! rt_pending_head rt # tl (rt_queue rt)"
    by (metis list.collapse)
qed

lemma capacity_pos [simp]: "0 < SI_AGENT_TASK_PENDING_CAPACITY"
  by (simp add: SI_AGENT_TASK_PENDING_CAPACITY_def)

lemma rt_inv_submit:
  assumes inv: "rt_inv rt"
    and ex: "si_agent_task_runtime_submit (Some rt) thread turn run now started = (r, rt', s)"
  shows "rt_inv (the rt')"
proof -
  let ?p = "submission thread turn run now"
  have shape: "queue_shape rt" using inv by (simp add: rt_inv_def)
  have sub: "pd_turn_id ?p = the turn" "pd_run_attempt_id ?p = the run" by (simp_all add: submission_def)
  consider "rt' = Some rt"
    | "\<not> rt_has_active_turn rt" "rt' = Some (start_turn rt ?p now)"
    | "rt_has_active_turn rt" "rt_pending_count rt < SI_AGENT_TASK_PENDING_CAPACITY" "pending_ok ?p"
      "the turn \<notin> set (turn_ids rt)" "the run \<notin> set (run_ids rt)"
      "rt' = Some (rt\<lparr>rt_pending := (rt_pending rt)[(rt_pending_head rt + rt_pending_count rt)
            mod SI_AGENT_TASK_PENDING_CAPACITY := ?p],
          rt_pending_count := rt_pending_count rt + 1, rt_updated_at_ms := now\<rparr>)"
    using submit_result [OF shape ex] by (auto split: if_splits)
  then show ?thesis
  proof cases
    case 1
    then show ?thesis using inv by simp
  next
    case 2
    then have "rt_queue rt = []" using inv by (simp add: rt_inv_def rt_queue_def)
    then show ?thesis
      using inv 2 by (simp add: rt_inv_def start_turn_eq queue_shape_def turn_ids_def run_ids_def)
  next
    case 3
    note q = rt_queue_push [OF shape 3(2), where p = ?p and now = now]
    show ?thesis
      using inv 3 sub unfolding 3(6)
      by (auto simp: rt_inv_def queue_shape_def turn_ids_def run_ids_def q [simplified])
  qed
qed

lemma rt_inv_advance:
  assumes inv: "rt_inv rt"
    and ex: "si_agent_task_runtime_advance_queue (Some rt) now started = (r, rt', s)"
  shows "rt_inv (the rt')"
proof -
  have shape: "queue_shape rt" using inv by (simp add: rt_inv_def)
  show ?thesis
  proof (cases "r = SI_AGENT_TASK_OK \<and> rt_pending_count rt \<noteq> 0")
    case True
    then have pos: "0 < rt_pending_count rt" by simp
    let ?p = "rt_pending rt ! rt_pending_head rt"
    have rt': "rt' = Some (rt\<lparr>rt_active_turn := started_turn ?p now, rt_has_active_turn := True,
        rt_updated_at_ms := now, rt_pending := (rt_pending rt)[rt_pending_head rt := zero_pending],
        rt_pending_head := (rt_pending_head rt + 1) mod SI_AGENT_TASK_PENDING_CAPACITY,
        rt_pending_count := rt_pending_count rt - 1\<rparr>)"
      using advance_result [OF ex] True by auto
    obtain q where q: "rt_queue rt = ?p # q" "tl (rt_queue rt) = q"
      using rt_queue_pop(2) [OF shape pos] by metis
    have "distinct (map pd_turn_id (rt_queue rt))" "distinct (map pd_run_attempt_id (rt_queue rt))"
      using inv by (auto simp: rt_inv_def turn_ids_def run_ids_def)
    then show ?thesis
      using inv shape pos q unfolding rt'
      by (auto simp: rt_inv_def queue_shape_def turn_ids_def run_ids_def
          rt_queue_pop(1) [OF shape pos, simplified])
  next
    case False
    show ?thesis
    proof (cases "r = SI_AGENT_TASK_OK")
      case True
      then have "rt_pending_count rt = 0" using False by simp
      moreover from this have "rt_queue rt = []" by (simp add: rt_queue_def)
      moreover have "rt' = Some (rt\<lparr>rt_has_active_turn := False, rt_updated_at_ms := now,
             rt_active_turn := (if rt_has_active_turn rt then zero_turn else rt_active_turn rt)\<rparr>)"
        using advance_result [OF ex] True \<open>rt_pending_count rt = 0\<close> by simp
      ultimately show ?thesis
        using inv by (simp add: rt_inv_def queue_shape_def turn_ids_def run_ids_def)
    next
      case error: False
      then have "rt' = Some rt" using advance_result [OF ex] by simp
      then show ?thesis using inv by simp
    qed
  qed
qed

lemma rt_step_inv: "rt_inv rt \<Longrightarrow> rt_inv (rt_step rt x)"
proof (cases "is_queue_op x")
  case False
  assume inv: "rt_inv rt"
  from False show ?thesis
    by (cases rule: turn_op_cases [of x rt]) (simp_all add: rt_step_def inv rt_inv_turn_update)
next
  case True
  assume inv: "rt_inv rt"
  show ?thesis
  proof (cases x)
    case (Rt_Submit thread turn run now)
    then show ?thesis
      using rt_inv_submit [OF inv]
      by (cases "si_agent_task_runtime_submit (Some rt) thread turn run now None") (simp add: rt_step_def)
  next
    case (Rt_Advance now)
    then show ?thesis
      using rt_inv_advance [OF inv]
      by (cases "si_agent_task_runtime_advance_queue (Some rt) now None") (simp add: rt_step_def)
  qed (use True in simp_all)
qed

interpretation rt: invariant_machine rt_step rt_inv
  by unfold_locales (rule rt_step_inv)

lemma rt_inv_init:
  assumes "si_agent_task_runtime_init (Some rt) runtime_id now = (SI_AGENT_TASK_OK, Some r0)"
  shows "rt_inv r0"
proof -
  have "id_valid runtime_id"
    and r0: "r0 = zero_runtime\<lparr>rt_runtime_id := copy_id runtime_id, rt_created_at_ms := now,
      rt_updated_at_ms := now\<rparr>"
    using assms by (auto simp: si_agent_task_runtime_init_def split: if_splits)
  then have "copy_id runtime_id \<noteq> []"
    by (cases runtime_id) (auto simp: id_valid_def copy_id_def)
  then show ?thesis
    by (simp add: r0 rt_inv_def queue_shape_def zero_runtime_def turn_ids_def run_ids_def rt_queue_def)
qed

lemmas rt_reachable_inv = rt.run_inv [OF rt_inv_init]

text \<open>A run that plans, executes, verifies and completes a Turn with one Step.\<close>

definition sample_runtime :: si_agent_task_runtime_t where
  "sample_runtime = zero_runtime\<lparr>rt_runtime_id := ''rt'', rt_created_at_ms := 1, rt_updated_at_ms := 1\<rparr>"

definition sample_ops :: "rt_op list" where
  "sample_ops = [Rt_Submit (Some ''th'') (Some ''t1'') (Some ''r1'') 2,
     Rt_Set_Phase SI_AGENT_TURN_PLANNING 3, Rt_Begin_Plan (Some ''p'') 4, Rt_Add_Step (Some ''s'') 5,
     Rt_Set_Phase SI_AGENT_TURN_EXECUTING 6, Rt_Set_Step_Status (Some ''s'') SI_AGENT_STEP_IN_PROGRESS 7,
     Rt_Record_Step (Some ''s'') SI_AGENT_VERIFICATION_PASSED 8,
     Rt_Set_Step_Status (Some ''s'') SI_AGENT_STEP_COMPLETED 9,
     Rt_Set_Phase SI_AGENT_TURN_VERIFYING 10, Rt_Record_Turn SI_AGENT_VERIFICATION_PASSED 11,
     Rt_Complete 12]"

lemma sample_runtime_init:
  "si_agent_task_runtime_init (Some zero_runtime) (Some ''rt'') 1 = (SI_AGENT_TASK_OK, Some sample_runtime)"
  by (simp add: si_agent_task_runtime_init_def sample_runtime_def id_valid_def copy_id_def
      SI_AGENT_TASK_ID_MAX_def)

section \<open>Properties\<close>



text \<open>
  C25: the structural invariant of the runtime: in every reachable state the pending queue holds at
  most 8 Turns and only while a Turn is active, the Plan of the active Turn has at most 16 Steps
  with distinct identifiers of which at most one is in progress, no two Turns and no two Run
  attempts share an identifier, and the Run attempt's status is the one of its Turn.
\<close>

theorem task_runtime_invariant:
  assumes "si_agent_task_runtime_init (Some x) runtime_id now = (SI_AGENT_TASK_OK, Some r0)"
    and "rt = run_ops rt_step r0 ops"
  shows "si_agent_task_runtime_pending_count (Some rt) \<le> SI_AGENT_TASK_PENDING_CAPACITY \<and>
    (\<not> rt_has_active_turn rt \<longrightarrow> rt_queue rt = []) \<and>
    distinct (turn_ids rt) \<and> distinct (run_ids rt) \<and>
    (rt_has_active_turn rt \<longrightarrow>
       ra_status (tn_run_attempt (rt_active_turn rt)) = run_status_of (tn_status (rt_active_turn rt)) \<and>
       (tn_has_plan (rt_active_turn rt) \<longrightarrow>
          pl_step_count (tn_plan (rt_active_turn rt)) \<le> SI_AGENT_TASK_STEP_CAPACITY \<and>
          distinct (map st_step_id (active_steps (tn_plan (rt_active_turn rt)))) \<and>
          length (filter (\<lambda>s. st_status s = SI_AGENT_STEP_IN_PROGRESS)
            (active_steps (tn_plan (rt_active_turn rt)))) \<le> 1))"
proof -
  have inv: "rt_inv rt" using rt_reachable_inv [OF assms(1)] assms(2) by simp
  have one: "length (filter (\<lambda>s. st_status s = SI_AGENT_STEP_IN_PROGRESS) xs) \<le> 1" if "steps_ok xs" for xs
  proof (rule ccontr)
    assume "\<not> length (filter (\<lambda>s. st_status s = SI_AGENT_STEP_IN_PROGRESS) xs) \<le> 1"
    then have "2 \<le> card {i. i < length xs \<and> st_status (xs ! i) = SI_AGENT_STEP_IN_PROGRESS}"
      by (simp add: length_filter_conv_card)
    then obtain i j where "i < length xs" "j < length xs" "i \<noteq> j"
      "st_status (xs ! i) = SI_AGENT_STEP_IN_PROGRESS" "st_status (xs ! j) = SI_AGENT_STEP_IN_PROGRESS"
      by (auto simp: card_le_Suc_iff numeral_2_eq_2)
    then show False using that unfolding steps_ok_def by blast
  qed
  show ?thesis
    using inv
    by (auto simp: rt_inv_def queue_shape_def turn_ok_def plan_ok_def steps_ok_def rt_queue_def
        si_agent_task_runtime_pending_count_def intro!: one [unfolded One_nat_def])
qed

theorem task_runtime_invariant_witness:
  "let rt = run_ops rt_step sample_runtime (take 8 sample_ops @ [Rt_Submit (Some ''th'') (Some ''t2'') (Some ''r2'') 20])
   in rt_has_active_turn rt \<and> length (rt_queue rt) = 1 \<and> distinct (turn_ids rt)"
proof -
  let ?ops = "take 8 sample_ops @ [Rt_Submit (Some ''th'') (Some ''t2'') (Some ''r2'') 20]"
  have "rt_has_active_turn (run_ops rt_step sample_runtime ?ops) \<and>
      length (rt_queue (run_ops rt_step sample_runtime ?ops)) = 1" by code_simp
  with task_runtime_invariant [OF sample_runtime_init refl, of ?ops] show ?thesis
    unfolding Let_def by blast
qed

text \<open>
  Errors are atomic: an operation of the task runtime that does not return OK leaves the
  runtime exactly as it was.
\<close>

theorem task_error_atomic:
  assumes "fst (rt_exec rt x) \<noteq> SI_AGENT_TASK_OK"
  shows "snd (rt_exec rt x) = Some rt"
proof (cases "is_queue_op x")
  case False
  then show ?thesis using assms by (cases rule: turn_op_cases [of x rt]) simp_all
next
  case True
  then show ?thesis
    using assms
    by (cases x) (auto simp: si_agent_task_runtime_submit_def si_agent_task_runtime_advance_queue_def
        Let_def split: if_splits)
qed

theorem task_error_atomic_witness:
  "rt_exec sample_runtime (Rt_Complete 5) = (SI_AGENT_TASK_ERR_NO_ACTIVE_TURN, Some sample_runtime)"
proof -
  have "fst (rt_exec sample_runtime (Rt_Complete 5)) = SI_AGENT_TASK_ERR_NO_ACTIVE_TURN" by code_simp
  with task_error_atomic [of sample_runtime "Rt_Complete 5"] show ?thesis
    by (simp add: prod_eq_iff)
qed

lemma turn_op_queue:
  assumes "\<not> is_queue_op op" "rt_exec rt op = (SI_AGENT_TASK_OK, Some rt')"
  shows "rt_queue rt' = rt_queue rt"
  using assms by (cases rule: turn_op_cases [of op rt]) auto

text \<open>
  The abstract queue: a submission behind an active Turn is appended, advancing removes the oldest
  entry, everything else leaves the queue alone.
\<close>

fun queue_spec :: "bool \<Rightarrow> si_agent_task_pending_turn_t list \<Rightarrow> rt_op \<Rightarrow> si_agent_task_pending_turn_t list" where
  "queue_spec active q (Rt_Submit thread turn run now) =
     (if active then q @ [submission thread turn run now] else q)"
| "queue_spec active q (Rt_Advance now) = tl q"
| "queue_spec active q _ = q"

text \<open>
  C26: the ring of pending Turns refines a FIFO queue: in every reachable state a successful
  operation changes the queue as the abstract specification says, and advancing a non-empty queue
  makes exactly the Turn at its front, with its identifiers, the active one, in phase UNDERSTANDING.
\<close>

theorem task_queue_fifo:
  assumes "si_agent_task_runtime_init (Some x) runtime_id now0 = (SI_AGENT_TASK_OK, Some r0)"
    and "rt = run_ops rt_step r0 ops"
    and "rt_exec rt op = (SI_AGENT_TASK_OK, Some rt')"
  shows "rt_queue rt' = queue_spec (rt_has_active_turn rt) (rt_queue rt) op \<and>
    (\<forall>now p q. op = Rt_Advance now \<and> rt_queue rt = p # q \<longrightarrow>
       rt_has_active_turn rt' \<and> tn_status (rt_active_turn rt') = SI_AGENT_TURN_UNDERSTANDING \<and>
       tn_turn_id (rt_active_turn rt') = pd_turn_id p \<and>
       tn_thread_id (rt_active_turn rt') = pd_thread_id p \<and>
       ra_run_attempt_id (tn_run_attempt (rt_active_turn rt')) = pd_run_attempt_id p)"
proof -
  have inv: "rt_inv rt" using rt_reachable_inv [OF assms(1)] assms(2) by simp
  then have shape: "queue_shape rt" by (simp add: rt_inv_def)
  show ?thesis
  proof (cases op)
    case (Rt_Submit thread turn run now)
    obtain s where "si_agent_task_runtime_submit (Some rt) thread turn run now None = (SI_AGENT_TASK_OK, Some rt', s)"
      using assms(3) Rt_Submit
      by (cases "si_agent_task_runtime_submit (Some rt) thread turn run now None") auto
    note r = submit_result [OF shape this]
    show ?thesis
    proof (cases "rt_has_active_turn rt")
      case True
      then show ?thesis using r Rt_Submit by (simp add: rt_queue_push [OF shape, simplified])
    next
      case False
      then show ?thesis using r Rt_Submit by (simp add: start_turn_eq)
    qed
  next
    case (Rt_Advance now)
    obtain s where "si_agent_task_runtime_advance_queue (Some rt) now None = (SI_AGENT_TASK_OK, Some rt', s)"
      using assms(3) Rt_Advance by (cases "si_agent_task_runtime_advance_queue (Some rt) now None") auto
    note r = advance_result [OF this]
    show ?thesis
    proof (cases "rt_pending_count rt = 0")
      case True
      then have "rt_queue rt = []" by (simp add: rt_queue_def)
      then show ?thesis using r True Rt_Advance by simp
    next
      case False
      then have pos: "0 < rt_pending_count rt" by simp
      then show ?thesis
        using r False Rt_Advance rt_queue_pop(2) [OF shape pos]
        by (auto simp: rt_queue_pop(1) [OF shape pos, simplified])
    qed
  qed (use turn_op_queue [OF _ assms(3)] in simp_all)
qed

theorem task_queue_fifo_witness:
  "\<exists>rt'. rt_exec (run_ops rt_step sample_runtime (sample_ops @ [Rt_Submit (Some ''th'') (Some ''t2'') (Some ''r2'') 20]))
       (Rt_Advance 21) = (SI_AGENT_TASK_OK, Some rt') \<and>
     rt_queue rt' = [] \<and> tn_turn_id (rt_active_turn rt') = ''t2''"
proof -
  let ?rt = "run_ops rt_step sample_runtime (sample_ops @ [Rt_Submit (Some ''th'') (Some ''t2'') (Some ''r2'') 20])"
  have "case rt_exec ?rt (Rt_Advance 21) of (r, Some rt') \<Rightarrow> r = SI_AGENT_TASK_OK | _ \<Rightarrow> False"
    by code_simp
  then obtain rt' where e: "rt_exec ?rt (Rt_Advance 21) = (SI_AGENT_TASK_OK, Some rt')"
    by (auto split: prod.splits option.splits)
  have q: "map pd_turn_id (rt_queue ?rt) = [''t2'']" by code_simp
  then obtain p where "rt_queue ?rt = [p]" "pd_turn_id p = ''t2''" by auto
  with task_queue_fifo [OF sample_runtime_init refl e] e show ?thesis by auto
qed

lemma on_active_refused:
  "fst (body rt (rt_active_turn rt)) \<noteq> SI_AGENT_TASK_OK \<Longrightarrow>
     fst (on_active (Some rt) now body) \<noteq> SI_AGENT_TASK_OK"
  by (auto simp: on_active_def Let_def split: prod.split)

lemma terminal_status:
  assumes "si_agent_turn_status_is_terminal s"
  shows "s \<noteq> SI_AGENT_TURN_PLANNING" "s \<noteq> SI_AGENT_TURN_VERIFYING" "s \<noteq> SI_AGENT_TURN_PAUSED"
    and "phase_status_valid to \<Longrightarrow> \<not> phase_transition_allowed s to"
  using assms by (auto simp: turn_status_defs phase_transition_allowed_def split: if_splits)

lemma terminal_op_refused:
  assumes "\<not> is_queue_op op" "si_agent_turn_status_is_terminal (tn_status (rt_active_turn rt))"
    and "(\<forall>i now. op \<noteq> Rt_Retry i now) \<or>
      tn_status (rt_active_turn rt) \<in> {SI_AGENT_TURN_COMPLETED, SI_AGENT_TURN_CANCELLED}"
  shows "fst (rt_exec rt op) \<noteq> SI_AGENT_TASK_OK"
proof -
  note facts = assms(2) terminal_status [OF assms(2)]
  have retry: "tn_status (rt_active_turn rt) \<noteq> SI_AGENT_TURN_FAILED \<and>
      tn_status (rt_active_turn rt) \<noteq> SI_AGENT_TURN_INTERRUPTED \<and>
      tn_status (rt_active_turn rt) \<noteq> SI_AGENT_TURN_OUTCOME_UNKNOWN" if "op = Rt_Retry i now" for i now
    using assms(3) that by auto
  show ?thesis
    using assms(1)
    by (cases op)
      (simp_all add: si_agent_task_runtime_set_phase_def si_agent_task_runtime_begin_plan_def
        si_agent_task_runtime_add_step_def si_agent_task_runtime_set_step_status_def
        si_agent_task_runtime_record_step_verification_def
        si_agent_task_runtime_record_turn_verification_def si_agent_task_runtime_steer_def
        si_agent_task_runtime_pause_def si_agent_task_runtime_resume_def
        si_agent_task_runtime_cancel_def si_agent_task_runtime_interrupt_def
        si_agent_task_runtime_mark_outcome_unknown_def si_agent_task_runtime_fail_def
        si_agent_task_runtime_complete_def si_agent_task_runtime_retry_def
        on_active_refused facts retry)
qed

lemma refused_step:
  assumes "fst (rt_exec rt op) \<noteq> SI_AGENT_TASK_OK" "\<not> is_queue_op op"
  shows "rt_step rt op = rt"
  using assms(2,1) by (cases rule: turn_op_cases [of op rt]) (simp_all add: rt_step_def)

text \<open>
  An outcome is final: once the active Turn is terminal (completed, failed, interrupted,
  cancelled or of unknown outcome) every operation that could change it is refused, except starting
  a new Run attempt with retry (impossible after completion or cancellation) and retiring it with
  advance; a submission leaves it untouched.
\<close>

theorem task_terminal_final:
  assumes "rt_has_active_turn rt" "si_agent_turn_status_is_terminal (tn_status (rt_active_turn rt))"
    and "\<forall>now. op \<noteq> Rt_Advance now"
    and "(\<forall>i now. op \<noteq> Rt_Retry i now) \<or>
      tn_status (rt_active_turn rt) \<in> {SI_AGENT_TURN_COMPLETED, SI_AGENT_TURN_CANCELLED}"
  shows "rt_active_turn (rt_step rt op) = rt_active_turn rt \<and> rt_has_active_turn (rt_step rt op)"
proof (cases "is_queue_op op")
  case False
  have "fst (rt_exec rt op) \<noteq> SI_AGENT_TASK_OK"
    using False assms(2,4) by (rule terminal_op_refused)
  then show ?thesis using refused_step [OF _ False] assms(1) by simp
next
  case True
  then show ?thesis
    using assms(1,3) by (cases op)
      (auto simp: rt_step_def si_agent_task_runtime_submit_def Let_def split: if_splits)
qed

theorem task_terminal_final_witness:
  "rt_active_turn (rt_step (run_ops rt_step sample_runtime sample_ops) (Rt_Fail 30))
     = rt_active_turn (run_ops rt_step sample_runtime sample_ops)"
proof -
  have "rt_has_active_turn (run_ops rt_step sample_runtime sample_ops) \<and>
      si_agent_turn_status_is_terminal (tn_status (rt_active_turn (run_ops rt_step sample_runtime sample_ops)))"
    by code_simp
  with task_terminal_final [of "run_ops rt_step sample_runtime sample_ops" "Rt_Fail 30"] show ?thesis
    by simp
qed

text \<open>The runtime's clock never runs backwards.\<close>

lemma task_time_monotone:
  assumes "rt_inv rt"
  shows "rt_updated_at_ms rt \<le> rt_updated_at_ms (run_ops rt_step rt ops)"
proof (rule rt.run_mono [OF _ assms])
  fix t x
  assume inv: "rt_inv t"
  show "rt_updated_at_ms t \<le> rt_updated_at_ms (rt_step t x)"
  proof (cases "is_queue_op x")
    case False
    then show ?thesis by (cases rule: turn_op_cases [of x t]) (simp_all add: rt_step_def)
  next
    case True
    then show ?thesis
      by (cases x) (auto simp: rt_step_def si_agent_task_runtime_submit_def time_valid_def start_turn_eq
          si_agent_task_runtime_advance_queue_def Let_def split: if_splits)
  qed
qed

end
