(* ===== verification/Action_Event.thy ===== *)
theory Action_Event
  imports Contracts
begin

text \<open>
  The ring of recent action events, \<^verbatim>\<open>core/action_event.c\<close>: appending overwrites the oldest of 64
  slots, reading copies the events after a sequence number. The ring is seen as the list of its
  events, oldest first; as long as the 32-bit sequence numbers have not wrapped they are
  consecutive, which makes polling readers lossless or told of the loss.
\<close>

section \<open>Data\<close>

definition SI_ACTION_EVENT_SCHEMA_VERSION :: u32 where "SI_ACTION_EVENT_SCHEMA_VERSION = 1"
definition SI_ACTION_EVENT_CAPACITY :: u32 where "SI_ACTION_EVENT_CAPACITY = 64"
definition SI_ACTION_EVENT_RUN_ID_MAX :: nat where "SI_ACTION_EVENT_RUN_ID_MAX = 32"
definition SI_ACTION_EVENT_ACTION_ID_MAX :: nat where "SI_ACTION_EVENT_ACTION_ID_MAX = 32"
definition SI_ACTION_EVENT_SUMMARY_MAX :: nat where "SI_ACTION_EVENT_SUMMARY_MAX = 240"

datatype si_action_actor_t =
    SI_ACTION_ACTOR_SYSTEM
  | SI_ACTION_ACTOR_USER
  | SI_ACTION_ACTOR_AGENT
  | SI_ACTION_ACTOR_MCP
  | SI_ACTION_ACTOR_OTHER u32

datatype si_action_channel_t =
    SI_ACTION_CHANNEL_SYSTEM
  | SI_ACTION_CHANNEL_AGENT
  | SI_ACTION_CHANNEL_HID
  | SI_ACTION_CHANNEL_SSH
  | SI_ACTION_CHANNEL_UART
  | SI_ACTION_CHANNEL_VIDEO
  | SI_ACTION_CHANNEL_OTA
  | SI_ACTION_CHANNEL_OTHER u32

datatype si_action_phase_t =
    SI_ACTION_PHASE_PLANNED
  | SI_ACTION_PHASE_WAITING_APPROVAL
  | SI_ACTION_PHASE_STARTED
  | SI_ACTION_PHASE_INPUT_SENT
  | SI_ACTION_PHASE_OUTPUT_RECEIVED
  | SI_ACTION_PHASE_VERIFYING
  | SI_ACTION_PHASE_SUCCEEDED
  | SI_ACTION_PHASE_FAILED
  | SI_ACTION_PHASE_CANCELLED
  | SI_ACTION_PHASE_OTHER u32

record si_action_event_input_t =
  ai_run_id :: "string option"
  ai_action_id :: "string option"
  ai_actor :: si_action_actor_t
  ai_channel :: si_action_channel_t
  ai_phase :: si_action_phase_t
  ai_summary :: "string option"
  ai_redacted :: bool
  ai_background :: bool

record si_action_event_t =
  ae_schema_version :: u32
  ae_seq :: u32
  ae_timestamp_ms :: u32
  ae_run_id :: string
  ae_action_id :: string
  ae_actor :: si_action_actor_t
  ae_channel :: si_action_channel_t
  ae_phase :: si_action_phase_t
  ae_summary :: string
  ae_redacted :: bool
  ae_background :: bool

record si_action_event_buffer_t =
  ab_events :: "si_action_event_t list"
  ab_latest_seq :: u32
  ab_count :: u32
  ab_write_pos :: u32
  ab_dropped :: u32

definition zero_event :: si_action_event_t where
  "zero_event = \<lparr>ae_schema_version = 0, ae_seq = 0, ae_timestamp_ms = 0, ae_run_id = [],
     ae_action_id = [], ae_actor = SI_ACTION_ACTOR_SYSTEM, ae_channel = SI_ACTION_CHANNEL_SYSTEM,
     ae_phase = SI_ACTION_PHASE_PLANNED, ae_summary = [], ae_redacted = False, ae_background = False\<rparr>"

definition zero_buffer :: si_action_event_buffer_t where
  "zero_buffer = \<lparr>ab_events = replicate (unat SI_ACTION_EVENT_CAPACITY) zero_event, ab_latest_seq = 0,
     ab_count = 0, ab_write_pos = 0, ab_dropped = 0\<rparr>"

section \<open>Operations\<close>

definition copy_text :: "nat \<Rightarrow> string option \<Rightarrow> string" where
  "copy_text out_size v = c_strlcpy out_size (c_or_empty v)"

fun actor_valid :: "si_action_actor_t \<Rightarrow> bool" where
  "actor_valid (SI_ACTION_ACTOR_OTHER _) = False"
| "actor_valid _ = True"

fun channel_valid :: "si_action_channel_t \<Rightarrow> bool" where
  "channel_valid (SI_ACTION_CHANNEL_OTHER _) = False"
| "channel_valid _ = True"

fun phase_valid :: "si_action_phase_t \<Rightarrow> bool" where
  "phase_valid (SI_ACTION_PHASE_OTHER _) = False"
| "phase_valid _ = True"

definition si_action_event_buffer_init ::
    "si_action_event_buffer_t option \<Rightarrow> si_action_event_buffer_t option" where
  "si_action_event_buffer_init buffer = (case buffer of None \<Rightarrow> None | Some _ \<Rightarrow> Some zero_buffer)"

definition next_seq :: "u32 \<Rightarrow> u32" where
  "next_seq latest = (if latest + 1 = 0 then 1 else latest + 1)"

definition make_event :: "u32 \<Rightarrow> u32 \<Rightarrow> si_action_event_input_t \<Rightarrow> si_action_event_t" where
  "make_event seq timestamp_ms input = zero_event\<lparr>
     ae_schema_version := SI_ACTION_EVENT_SCHEMA_VERSION, ae_seq := seq,
     ae_timestamp_ms := timestamp_ms, ae_actor := ai_actor input, ae_channel := ai_channel input,
     ae_phase := ai_phase input, ae_redacted := ai_redacted input, ae_background := ai_background input,
     ae_run_id := copy_text (SI_ACTION_EVENT_RUN_ID_MAX + 1) (ai_run_id input),
     ae_action_id := (if c_or_empty (ai_action_id input) \<noteq> []
        then copy_text (SI_ACTION_EVENT_ACTION_ID_MAX + 1) (ai_action_id input)
        else c_strlcpy (SI_ACTION_EVENT_ACTION_ID_MAX + 1) (''a'' @ dec_digits (unat seq))),
     ae_summary := copy_text (SI_ACTION_EVENT_SUMMARY_MAX + 1) (ai_summary input)\<rparr>"

definition si_action_event_buffer_append ::
    "si_action_event_buffer_t option \<Rightarrow> u32 \<Rightarrow> si_action_event_input_t option \<Rightarrow>
     si_action_event_t option \<Rightarrow>
     bool \<times> si_action_event_buffer_t option \<times> si_action_event_t option" where
  "si_action_event_buffer_append buffer timestamp_ms input event_out =
     (case (buffer, input) of
        (Some b, Some i) \<Rightarrow>
          if \<not> actor_valid (ai_actor i) \<or> \<not> channel_valid (ai_channel i) \<or> \<not> phase_valid (ai_phase i)
          then (False, buffer, event_out)
          else
            let seq = next_seq (ab_latest_seq b);
                event = make_event seq timestamp_ms i;
                full = \<not> ab_count b < SI_ACTION_EVENT_CAPACITY
            in (True,
                Some (b\<lparr>ab_events := (ab_events b)[unat (ab_write_pos b mod SI_ACTION_EVENT_CAPACITY) := event],
                  ab_latest_seq := seq,
                  ab_write_pos := (ab_write_pos b + 1) mod SI_ACTION_EVENT_CAPACITY,
                  ab_count := (if full then ab_count b else ab_count b + 1),
                  ab_dropped := (if full then ab_dropped b + 1 else ab_dropped b)\<rparr>),
                map_option (\<lambda>_. event) event_out)
      | _ \<Rightarrow> (False, buffer, event_out))"

text \<open>The copying loop, over the indices that are left.\<close>

fun read_loop :: "si_action_event_buffer_t \<Rightarrow> u32 \<Rightarrow> u32 \<Rightarrow> nat \<Rightarrow> nat list \<Rightarrow> nat \<Rightarrow>
    si_action_event_t list \<Rightarrow> nat \<times> si_action_event_t list" where
  "read_loop b start after cap [] copied out = (copied, out)"
| "read_loop b start after cap (i # is) copied out =
     (if \<not> copied < cap then (copied, out)
      else
        let event = ab_events b ! unat ((start + of_nat i) mod SI_ACTION_EVENT_CAPACITY) in
        if ae_seq event \<le> after then read_loop b start after cap is copied out
        else read_loop b start after cap is (copied + 1) (out[copied := event]))"

definition ring_start :: "si_action_event_buffer_t \<Rightarrow> u32" where
  "ring_start b = (ab_write_pos b + SI_ACTION_EVENT_CAPACITY - ab_count b) mod SI_ACTION_EVENT_CAPACITY"

definition si_action_event_buffer_read_after ::
    "si_action_event_buffer_t option \<Rightarrow> u32 \<Rightarrow> si_action_event_t list option \<Rightarrow> nat \<Rightarrow>
     u32 option \<Rightarrow> bool option \<Rightarrow>
     nat \<times> si_action_event_t list option \<times> u32 option \<times> bool option" where
  "si_action_event_buffer_read_after buffer after_seq events_out events_capacity latest_seq_out
     history_lost_out =
     (let latest = map_option (\<lambda>_. case buffer of Some b \<Rightarrow> ab_latest_seq b | None \<Rightarrow> after_seq) latest_seq_out;
          lost = map_option (\<lambda>_. False) history_lost_out
      in case (buffer, events_out) of
           (Some b, Some out) \<Rightarrow>
             if events_capacity = 0 \<or> ab_count b = 0 then (0, events_out, latest, lost)
             else
               let start = ring_start b;
                   oldest = ab_events b ! unat start;
                   lost' = map_option (\<lambda>_. after_seq \<noteq> 0 \<and> ae_seq oldest > 1 \<and>
                             after_seq < ae_seq oldest - 1) history_lost_out;
                   (copied, out') = read_loop b start after_seq events_capacity
                     [0..<unat (ab_count b)] 0 out
               in (copied, Some out', latest, lost')
         | _ \<Rightarrow> (0, events_out, latest, lost))"

fun si_action_actor_name :: "si_action_actor_t \<Rightarrow> string" where
  "si_action_actor_name SI_ACTION_ACTOR_USER = ''user''"
| "si_action_actor_name SI_ACTION_ACTOR_AGENT = ''agent''"
| "si_action_actor_name SI_ACTION_ACTOR_MCP = ''mcp''"
| "si_action_actor_name _ = ''system''"

fun si_action_channel_name :: "si_action_channel_t \<Rightarrow> string" where
  "si_action_channel_name SI_ACTION_CHANNEL_AGENT = ''agent''"
| "si_action_channel_name SI_ACTION_CHANNEL_HID = ''hid''"
| "si_action_channel_name SI_ACTION_CHANNEL_SSH = ''ssh''"
| "si_action_channel_name SI_ACTION_CHANNEL_UART = ''uart''"
| "si_action_channel_name SI_ACTION_CHANNEL_VIDEO = ''video''"
| "si_action_channel_name SI_ACTION_CHANNEL_OTA = ''ota''"
| "si_action_channel_name _ = ''system''"

fun si_action_phase_name :: "si_action_phase_t \<Rightarrow> string" where
  "si_action_phase_name SI_ACTION_PHASE_WAITING_APPROVAL = ''waiting_approval''"
| "si_action_phase_name SI_ACTION_PHASE_STARTED = ''started''"
| "si_action_phase_name SI_ACTION_PHASE_INPUT_SENT = ''input_sent''"
| "si_action_phase_name SI_ACTION_PHASE_OUTPUT_RECEIVED = ''output_received''"
| "si_action_phase_name SI_ACTION_PHASE_VERIFYING = ''verifying''"
| "si_action_phase_name SI_ACTION_PHASE_SUCCEEDED = ''succeeded''"
| "si_action_phase_name SI_ACTION_PHASE_FAILED = ''failed''"
| "si_action_phase_name SI_ACTION_PHASE_CANCELLED = ''cancelled''"
| "si_action_phase_name _ = ''planned''"

fun si_action_phase_legacy_kind :: "si_action_phase_t \<Rightarrow> string" where
  "si_action_phase_legacy_kind SI_ACTION_PHASE_INPUT_SENT = ''cmd''"
| "si_action_phase_legacy_kind SI_ACTION_PHASE_OUTPUT_RECEIVED = ''progress''"
| "si_action_phase_legacy_kind SI_ACTION_PHASE_VERIFYING = ''progress''"
| "si_action_phase_legacy_kind SI_ACTION_PHASE_SUCCEEDED = ''ok''"
| "si_action_phase_legacy_kind SI_ACTION_PHASE_FAILED = ''bad''"
| "si_action_phase_legacy_kind SI_ACTION_PHASE_CANCELLED = ''warn''"
| "si_action_phase_legacy_kind _ = ''info''"

section \<open>The ring as a list\<close>

definition ab_shape :: "si_action_event_buffer_t \<Rightarrow> bool" where
  "ab_shape b \<longleftrightarrow> length (ab_events b) = 64 \<and> unat (ab_count b) \<le> 64 \<and> unat (ab_write_pos b) < 64"

definition ab_contents :: "si_action_event_buffer_t \<Rightarrow> si_action_event_t list" where
  "ab_contents b = ring_contents (ab_events b) (unat (ring_start b)) (unat (ab_count b))"

lemma unat_mod_64: "unat (w mod 64 :: u32) = unat w mod 64"
  by (simp add: unat_mod)

lemma unat_ring_start:
  assumes "ab_shape b"
  shows "unat (ring_start b) = (unat (ab_write_pos b) + 64 - unat (ab_count b)) mod 64"
proof -
  have w: "unat (ab_write_pos b) < 64" and c: "unat (ab_count b) \<le> 64" using assms by (simp_all add: ab_shape_def)
  have s: "unat (ab_write_pos b + 64) = unat (ab_write_pos b) + 64"
    using w by (subst unat_word_ariths) simp
  have "ab_count b \<le> ab_write_pos b + 64" using c s by (simp add: word_le_nat_alt)
  then have "unat (ab_write_pos b + 64 - ab_count b) = unat (ab_write_pos b) + 64 - unat (ab_count b)"
    using s by (simp add: unat_sub)
  then show ?thesis by (simp add: ring_start_def SI_ACTION_EVENT_CAPACITY_def unat_mod_64)
qed

lemma unat_ring_start_less: "ab_shape b \<Longrightarrow> unat (ring_start b) < 64"
  by (simp add: unat_ring_start)

lemma unat_ring_index:
  assumes "ab_shape b" "i < 64"
  shows "unat ((ring_start b + of_nat i) mod SI_ACTION_EVENT_CAPACITY) = (unat (ring_start b) + i) mod 64"
proof -
  have i: "unat (of_nat i :: u32) = i" using assms(2) by (simp add: unat_of_nat)
  have "unat (ring_start b + of_nat i) = unat (ring_start b) + i"
    using unat_ring_start_less [OF assms(1)] assms(2) i by (subst unat_word_ariths) simp
  then show ?thesis by (simp add: SI_ACTION_EVENT_CAPACITY_def unat_mod_64)
qed

lemma ab_contents_nth:
  assumes "ab_shape b" "i < unat (ab_count b)"
  shows "ab_contents b ! i = ab_events b ! unat ((ring_start b + of_nat i) mod SI_ACTION_EVENT_CAPACITY)"
  using assms unat_ring_index [of b i] by (simp add: ab_contents_def ring_contents_nth ab_shape_def)

lemma write_pos_of_start:
  fixes w c :: nat
  assumes "w < 64" "c \<le> 64"
  shows "((w + 64 - c) mod 64 + c) mod 64 = w"
proof -
  have "((w + 64 - c) mod 64 + c) mod 64 = (w + 64 - c + c) mod 64" by (rule mod_add_left_eq)
  also have "w + 64 - c + c = w + 64" using assms by simp
  finally show ?thesis using assms by simp
qed

text \<open>Appending, seen on the list: drop the oldest event when full, then add at the end.\<close>

definition push_event :: "si_action_event_buffer_t \<Rightarrow> si_action_event_t \<Rightarrow> si_action_event_buffer_t" where
  "push_event b event =
     (let full = \<not> ab_count b < SI_ACTION_EVENT_CAPACITY in
      b\<lparr>ab_events := (ab_events b)[unat (ab_write_pos b mod SI_ACTION_EVENT_CAPACITY) := event],
        ab_latest_seq := ae_seq event,
        ab_write_pos := (ab_write_pos b + 1) mod SI_ACTION_EVENT_CAPACITY,
        ab_count := (if full then ab_count b else ab_count b + 1),
        ab_dropped := (if full then ab_dropped b + 1 else ab_dropped b)\<rparr>)"

lemma count_cases:
  assumes "ab_shape b"
  shows "(ab_count b < SI_ACTION_EVENT_CAPACITY \<longleftrightarrow> unat (ab_count b) < 64)"
    and "unat (ab_count b) < 64 \<Longrightarrow> unat (ab_count b + 1) = Suc (unat (ab_count b))"
    and "unat ((ab_write_pos b + 1) mod SI_ACTION_EVENT_CAPACITY) = Suc (unat (ab_write_pos b)) mod 64"
    and "unat (ab_write_pos b mod SI_ACTION_EVENT_CAPACITY) = unat (ab_write_pos b)"
proof -
  show "(ab_count b < SI_ACTION_EVENT_CAPACITY \<longleftrightarrow> unat (ab_count b) < 64)"
    by (simp add: SI_ACTION_EVENT_CAPACITY_def word_less_nat_alt)
  show "unat (ab_count b + 1) = Suc (unat (ab_count b))" if "unat (ab_count b) < 64"
    using that by (subst unat_word_ariths) simp
  have w: "unat (ab_write_pos b) < 64" using assms by (simp add: ab_shape_def)
  then have "unat (ab_write_pos b + 1) = Suc (unat (ab_write_pos b))"
    by (subst unat_word_ariths) simp
  then show "unat ((ab_write_pos b + 1) mod SI_ACTION_EVENT_CAPACITY) = Suc (unat (ab_write_pos b)) mod 64"
    by (simp add: SI_ACTION_EVENT_CAPACITY_def unat_mod_64)
  show "unat (ab_write_pos b mod SI_ACTION_EVENT_CAPACITY) = unat (ab_write_pos b)"
    using w by (simp add: SI_ACTION_EVENT_CAPACITY_def unat_mod_64)
qed

lemma push_event_shape: "ab_shape b \<Longrightarrow> ab_shape (push_event b e)"
  using count_cases [of b]
  by (auto simp: push_event_def ab_shape_def Let_def)

lemma push_event_contents:
  assumes sh: "ab_shape b"
  shows "ab_contents (push_event b e) =
    (if unat (ab_count b) < 64 then ab_contents b else tl (ab_contents b)) @ [e]"
proof -
  let ?w = "unat (ab_write_pos b)" and ?c = "unat (ab_count b)"
  have w: "?w < 64" and c: "?c \<le> 64" and len: "length (ab_events b) = 64"
    using sh by (simp_all add: ab_shape_def)
  note sh' = push_event_shape [OF sh, of e]
  note cc = count_cases [OF sh]
  have w': "unat (ab_write_pos (push_event b e)) = Suc ?w mod 64"
    using cc(3) by (simp add: push_event_def Let_def)
  have ev': "ab_events (push_event b e) = (ab_events b)[?w := e]"
    using cc(4) by (simp add: push_event_def Let_def)
  show ?thesis
  proof (cases "?c < 64")
    case True
    then have c': "unat (ab_count (push_event b e)) = Suc ?c"
      using cc(1,2) by (simp add: push_event_def Let_def)
    have "unat (ring_start (push_event b e)) = (?w + 64 - ?c) mod 64"
    proof (cases "Suc ?w = 64")
      case True
      then show ?thesis using \<open>?c < 64\<close> by (simp add: unat_ring_start [OF sh'] w' c' le_mod_geq)
    next
      case False
      then show ?thesis using w \<open>?c < 64\<close> by (simp add: unat_ring_start [OF sh'] w' c' add.commute)
    qed
    moreover have "ring_contents ((ab_events b)[((?w + 64 - ?c) mod 64 + ?c) mod length (ab_events b) := e])
        ((?w + 64 - ?c) mod 64) (Suc ?c) = ring_contents (ab_events b) ((?w + 64 - ?c) mod 64) ?c @ [e]"
      using True len by (intro ring_contents_push) simp
    ultimately show ?thesis
      using True by (simp add: ab_contents_def ev' c' unat_ring_start [OF sh] len write_pos_of_start [OF w c])
  next
    case False
    then have c64: "?c = 64" using c by simp
    have c': "unat (ab_count (push_event b e)) = 64"
      using cc(1) c64 by (simp add: push_event_def Let_def)
    have "unat (ring_start (push_event b e)) = Suc ?w mod 64"
      by (simp add: unat_ring_start [OF sh'] w' c')
    moreover have "unat (ring_start b) = ?w" using w by (simp add: unat_ring_start [OF sh] c64)
    ultimately show ?thesis
      using False ring_contents_overwrite [of ?w "ab_events b" e] w len
      by (simp add: ab_contents_def ev' c' c64)
  qed
qed

lemma append_push:
  "si_action_event_buffer_append (Some b) ts (Some i) out =
     (if actor_valid (ai_actor i) \<and> channel_valid (ai_channel i) \<and> phase_valid (ai_phase i)
      then (True, Some (push_event b (make_event (next_seq (ab_latest_seq b)) ts i)),
            map_option (\<lambda>_. make_event (next_seq (ab_latest_seq b)) ts i) out)
      else (False, Some b, out))"
  by (simp add: si_action_event_buffer_append_def push_event_def make_event_def Let_def)

section \<open>Reading\<close>

lemma read_loop_spec:
  assumes "ab_shape b" "cap \<le> length out" "copied \<le> cap" "\<forall>i\<in>set is. i < unat (ab_count b)"
    and "read_loop b (ring_start b) after cap is copied out = (n, out')"
  shows "copied \<le> n \<and> n \<le> cap \<and> length out' = length out \<and> drop n out' = drop n out \<and>
    take n out' = take copied out
      @ take (cap - copied) (filter (\<lambda>e. \<not> ae_seq e \<le> after) (map (\<lambda>i. ab_contents b ! i) is))"
  using assms
proof (induction "is" arbitrary: copied out)
  case Nil
  then show ?case by auto
next
  case (Cons i "is")
  let ?e = "ab_contents b ! i"
  have e: "ab_events b ! unat ((ring_start b + of_nat i) mod SI_ACTION_EVENT_CAPACITY) = ?e"
    using Cons.prems(1,4) by (simp add: ab_contents_nth)
  show ?case
  proof (cases "copied < cap")
    case False
    then show ?thesis using Cons.prems by auto
  next
    case True
    show ?thesis
    proof (cases "ae_seq ?e \<le> after")
      case skip: True
      have "read_loop b (ring_start b) after cap is copied out = (n, out')"
        using Cons.prems(5) True skip e by simp
      from Cons.IH [OF Cons.prems(1,2,3) _ this] show ?thesis
        using Cons.prems(4) skip by simp
    next
      case keep: False
      have "read_loop b (ring_start b) after cap is (copied + 1) (out[copied := ?e]) = (n, out')"
        using Cons.prems(5) True keep e by simp
      from Cons.IH [OF Cons.prems(1) _ _ _ this] have ih: "copied + 1 \<le> n" "n \<le> cap" "length out' = length out"
        "drop n out' = drop n (out[copied := ?e])"
        "take n out' = take (copied + 1) (out[copied := ?e])
          @ take (cap - (copied + 1)) (filter (\<lambda>e. \<not> ae_seq e \<le> after) (map (\<lambda>i. ab_contents b ! i) is))"
        using Cons.prems(2,4) True by auto
      have lt: "copied < length out" using True Cons.prems(2) by simp
      have "take (copied + 1) (out[copied := ?e]) = take copied out @ [?e]"
        using lt by (simp add: take_Suc_conv_app_nth)
      moreover have "take (cap - copied) (?e # xs) = ?e # take (cap - (copied + 1)) xs" for xs
        using True by (simp add: take_Cons' )
      ultimately show ?thesis using ih keep by simp
    qed
  qed
qed

lemma ab_contents_map:
  "map (\<lambda>i. ab_contents b ! i) [0..<unat (ab_count b)] = ab_contents b"
  by (metis ab_contents_def length_ring_contents map_nth)

section \<open>Sequence numbers\<close>

interpretation ae_gen: generation_counter next_seq
  using succ_skip_zero_counter unfolding next_seq_def .

text \<open>Events appended so far: the valid inputs among the calls.\<close>

type_synonym append_call = "u32 \<times> si_action_event_input_t"

definition ab_step :: "si_action_event_buffer_t \<Rightarrow> append_call \<Rightarrow> si_action_event_buffer_t" where
  "ab_step b = (\<lambda>(ts, i). the (fst (snd (si_action_event_buffer_append (Some b) ts (Some i) None))))"

definition ab_seqs :: "si_action_event_buffer_t \<Rightarrow> nat list" where
  "ab_seqs b = map (\<lambda>e. unat (ae_seq e)) (ab_contents b)"

definition ab_inv :: "si_action_event_buffer_t \<Rightarrow> bool" where
  "ab_inv b \<longleftrightarrow> ab_shape b \<and> unat (ab_count b) = min 64 (unat (ab_latest_seq b)) \<and>
     ab_seqs b = [Suc (unat (ab_latest_seq b)) - unat (ab_count b)..<Suc (unat (ab_latest_seq b))]"

lemma ab_step_push:
  "ab_step b (ts, i) = (if actor_valid (ai_actor i) \<and> channel_valid (ai_channel i) \<and> phase_valid (ai_phase i)
      then push_event b (make_event (next_seq (ab_latest_seq b)) ts i) else b)"
  by (simp add: ab_step_def append_push)

lemma make_event_seq [simp]: "ae_seq (make_event q ts i) = q"
  by (simp add: make_event_def)

lemma ab_inv_push:
  assumes inv: "ab_inv b" and room: "unat (ab_latest_seq b) < 2 ^ 32 - 1"
    and q: "ae_seq e = next_seq (ab_latest_seq b)"
  shows "ab_inv (push_event b e) \<and> unat (ab_latest_seq (push_event b e)) = Suc (unat (ab_latest_seq b))"
proof -
  let ?n = "unat (ab_latest_seq b)" and ?c = "unat (ab_count b)"
  have sh: "ab_shape b" and c: "?c = min 64 ?n" and sq: "ab_seqs b = [Suc ?n - ?c..<Suc ?n]"
    using inv by (simp_all add: ab_inv_def)
  have n': "unat (ab_latest_seq (push_event b e)) = Suc ?n"
    using ae_gen.bump_succ [OF room] q by (simp add: push_event_def Let_def)
  have e: "unat (ae_seq e) = Suc ?n" using ae_gen.bump_succ [OF room] q by simp
  note cc = count_cases [OF sh]
  have c': "unat (ab_count (push_event b e)) = (if ?c < 64 then Suc ?c else ?c)"
    using cc(1,2) by (simp add: push_event_def Let_def)
  have "ab_seqs (push_event b e) = (if ?c < 64 then ab_seqs b else tl (ab_seqs b)) @ [Suc ?n]"
    by (simp add: ab_seqs_def push_event_contents [OF sh] e map_tl)
  also have "\<dots> = [Suc (Suc ?n) - (if ?c < 64 then Suc ?c else ?c)..<Suc (Suc ?n)]"
  proof (cases "?c < 64")
    case True
    then have "?c = ?n" using c by simp
    then show ?thesis using True sq by simp
  next
    case False
    then have c64: "?c = 64" "64 \<le> ?n" using c by auto
    then obtain m where m: "?n = 64 + m" using le_Suc_ex by blast
    have "tl [m + 1..<m + 65] @ [m + 65] = [m + 2..<m + 65] @ [m + 65]" by (simp del: upt_Suc)
    also have "\<dots> = [m + 2..<Suc (m + 65)]" by (rule upt_Suc_append [symmetric]) simp
    finally show ?thesis using False sq c64(1) m by (simp del: upt_Suc add: add.commute)
  qed
  finally have "ab_seqs (push_event b e) = [Suc (Suc ?n) - (if ?c < 64 then Suc ?c else ?c)..<Suc (Suc ?n)]" .
  then show ?thesis
    using push_event_shape [OF sh, of e] n' c c' by (simp add: ab_inv_def)
qed

lemma ab_inv_zero: "ab_inv zero_buffer"
  by (simp add: ab_inv_def ab_shape_def zero_buffer_def SI_ACTION_EVENT_CAPACITY_def ab_seqs_def ab_contents_def)

lemma ab_inv_run:
  "length calls < 2 ^ 32 \<Longrightarrow>
     ab_inv (run_ops ab_step zero_buffer calls) \<and>
     unat (ab_latest_seq (run_ops ab_step zero_buffer calls)) \<le> length calls"
proof (induction calls rule: rev_induct)
  case Nil
  then show ?case by (simp add: ab_inv_zero) (simp add: zero_buffer_def)
next
  case (snoc call calls)
  let ?b = "run_ops ab_step zero_buffer calls"
  obtain ts i where call: "call = (ts, i)" by (cases call)
  have ih: "ab_inv ?b" "unat (ab_latest_seq ?b) \<le> length calls" using snoc by simp_all
  then have room: "unat (ab_latest_seq ?b) < 2 ^ 32 - 1" using snoc.prems by simp
  show ?case
    using ab_inv_push [OF ih(1) room, of "make_event (next_seq (ab_latest_seq ?b)) ts i"] ih
    by (simp add: call ab_step_push)
qed

section \<open>Properties\<close>

text \<open>The complete history: every accepted event, with the sequence number after the last one.\<close>

definition log_step :: "u32 \<times> si_action_event_t list \<Rightarrow> append_call \<Rightarrow> u32 \<times> si_action_event_t list" where
  "log_step = (\<lambda>(latest, log) (ts, i).
     if actor_valid (ai_actor i) \<and> channel_valid (ai_channel i) \<and> phase_valid (ai_phase i)
     then (next_seq latest, log @ [make_event (next_seq latest) ts i]) else (latest, log))"

lemma log_step_apply:
  "log_step (latest, log) (ts, i) =
     (if actor_valid (ai_actor i) \<and> channel_valid (ai_channel i) \<and> phase_valid (ai_phase i)
      then (next_seq latest, log @ [make_event (next_seq latest) ts i]) else (latest, log))"
  by (simp add: log_step_def)

text \<open>
  The event ring refines a history that forgets: after any sequence of append calls the buffer
  holds exactly the last 64 events of the complete history (all of them while there are fewer), in
  order, and its latest sequence number is the history's.
\<close>

theorem event_ring_keeps_last_64:
  "ab_contents (run_ops ab_step zero_buffer calls)
     = (let log = snd (run_ops log_step (0, []) calls) in drop (length log - 64) log) \<and>
   ab_latest_seq (run_ops ab_step zero_buffer calls) = fst (run_ops log_step (0, []) calls)"
proof -
  have "ab_shape (run_ops ab_step zero_buffer calls) \<and>
    ab_latest_seq (run_ops ab_step zero_buffer calls) = fst (run_ops log_step (0, []) calls) \<and>
    unat (ab_count (run_ops ab_step zero_buffer calls)) = min 64 (length (snd (run_ops log_step (0, []) calls))) \<and>
    ab_contents (run_ops ab_step zero_buffer calls) =
      drop (length (snd (run_ops log_step (0, []) calls)) - 64) (snd (run_ops log_step (0, []) calls))"
  proof (induction calls rule: rev_induct)
    case Nil
    then show ?case by (simp add: ab_shape_def zero_buffer_def SI_ACTION_EVENT_CAPACITY_def ab_contents_def)
  next
    case (snoc call calls)
    let ?b = "run_ops ab_step zero_buffer calls" and ?l = "run_ops log_step (0, []) calls"
    obtain ts i where call: "call = (ts, i)" by (cases call)
    obtain q log where l: "?l = (q, log)" by (cases ?l)
    show ?case
    proof (cases "actor_valid (ai_actor i) \<and> channel_valid (ai_channel i) \<and> phase_valid (ai_phase i)")
      case False
      then have "ab_step ?b (ts, i) = ?b" "log_step (q, log) (ts, i) = (q, log)"
        by (simp_all only: ab_step_push log_step_apply if_False)
      then show ?thesis using snoc by (simp add: call l)
    next
      case True
      have sh: "ab_shape ?b" and c: "unat (ab_count ?b) = min 64 (length log)"
        and cont: "ab_contents ?b = drop (length log - 64) log" and q: "ab_latest_seq ?b = q"
        using snoc l by simp_all
      let ?e = "make_event (next_seq q) ts i"
      note cc = count_cases [OF sh]
      have "unat (ab_count (push_event ?b ?e)) = min 64 (Suc (length log))"
        using cc(1,2) c by (auto simp: push_event_def Let_def)
      moreover have "ab_contents (push_event ?b ?e) = drop (Suc (length log) - 64) (log @ [?e])"
      proof (cases "length log < 64")
        case False
        then have "length log - 63 = Suc (length log - 64)" by simp
        then show ?thesis
          using False c by (simp add: push_event_contents [OF sh] cont tl_drop drop_Suc)
      qed (use c in \<open>simp add: push_event_contents [OF sh] cont\<close>)
      ultimately show ?thesis
        using True push_event_shape [OF sh, of ?e] q
        by (simp add: call ab_step_push log_step_apply l) (simp add: push_event_def Let_def)
    qed
  qed
  then show ?thesis by (simp add: Let_def)
qed

text \<open>
  Polling loses nothing silently: while fewer than 2^32 events were appended, a reader that
  continues from a sequence number it has seen and is not told that history was lost receives
  exactly the next events, without gap or repetition, up to the capacity of its array, and no
  slot of the array beyond them is written.
\<close>

theorem event_poll_complete:
  assumes "length calls < 2 ^ 32" "b = run_ops ab_step zero_buffer calls"
    and "after \<noteq> 0" "after \<le> ab_latest_seq b" "length out = cap" "0 < cap"
    and "si_action_event_buffer_read_after (Some b) after (Some out) cap (Some l) (Some h)
           = (n, Some out', Some latest, Some False)"
  shows "map (\<lambda>e. unat (ae_seq e)) (take n out')
           = take cap [Suc (unat after)..<Suc (unat latest)] \<and>
         latest = ab_latest_seq b \<and> n \<le> cap \<and> drop n out' = drop n out"
proof -
  have inv: "ab_inv b" using ab_inv_run [OF assms(1)] assms(2) by simp
  then have sh: "ab_shape b" by (simp add: ab_inv_def)
  let ?n = "unat (ab_latest_seq b)" and ?c = "unat (ab_count b)"
  have n_pos: "0 < ?n"
    using assms(3,4) by (metis leD unat_gt_0 word_gt_0 neq0_conv)
  have c: "?c = min 64 ?n" using inv by (simp add: ab_inv_def)
  then have c0: "ab_count b \<noteq> 0" using n_pos by auto
  let ?oldest = "ab_events b ! unat (ring_start b)"
  have latest: "latest = ab_latest_seq b"
    and rl: "read_loop b (ring_start b) after cap [0..<?c] 0 out = (n, out')"
    and lost: "\<not> (ae_seq ?oldest > 1 \<and> after < ae_seq ?oldest - 1)"
    using assms(3,6,7) c0
    by (auto simp: si_action_event_buffer_read_after_def Let_def split: prod.splits)
  have old: "unat (ae_seq ?oldest) = Suc ?n - ?c"
  proof -
    have "0 < ?c" using c n_pos by simp
    then have "ab_contents b ! 0 = ?oldest"
      using unat_ring_start_less [OF sh] sh by (simp add: ab_contents_def ring_contents_nth ab_shape_def)
    moreover have "unat (ae_seq (ab_contents b ! 0)) = ab_seqs b ! 0"
      using \<open>0 < ?c\<close> by (simp add: ab_seqs_def ab_contents_def)
    ultimately show ?thesis using inv \<open>0 < ?c\<close> c by (simp add: ab_inv_def del: upt_Suc)
  qed
  have le: "Suc ?n - ?c \<le> Suc (unat after)"
  proof (cases "ae_seq ?oldest > 1")
    case True
    then have "unat (ae_seq ?oldest - 1) = unat (ae_seq ?oldest) - 1"
      by (intro unat_minus_one) auto
    then show ?thesis using lost True old by (simp add: word_less_nat_alt)
  next
    case False
    then show ?thesis using old by (simp add: word_less_nat_alt)
  qed
  have "filter (\<lambda>k. unat after < k) [Suc ?n - ?c..<Suc ?n] = [Suc (unat after)..<Suc ?n]"
  proof -
    have split: "[Suc ?n - ?c..<Suc ?n] = [Suc ?n - ?c..<Suc (unat after)] @ [Suc (unat after)..<Suc ?n]"
      using le assms(4) by (metis Suc_le_mono le_Suc_ex upt_add_eq_append word_le_nat_alt)
    show ?thesis
      unfolding split by (auto simp: filter_empty_conv filter_id_conv simp del: upt_Suc)
  qed
  moreover have "map (\<lambda>e. unat (ae_seq e)) (filter (\<lambda>e. \<not> ae_seq e \<le> after) (ab_contents b))
      = filter (\<lambda>k. unat after < k) (ab_seqs b)"
    by (simp add: ab_seqs_def filter_map comp_def word_le_nat_alt not_le)
  ultimately have seqs: "map (\<lambda>e. unat (ae_seq e)) (filter (\<lambda>e. \<not> ae_seq e \<le> after) (ab_contents b))
      = [Suc (unat after)..<Suc ?n]"
    using inv by (simp add: ab_inv_def del: upt_Suc)
  have spec: "0 \<le> n \<and> n \<le> cap \<and> length out' = length out \<and> drop n out' = drop n out \<and>
      take n out' = take 0 out @ take (cap - 0) (filter (\<lambda>e. \<not> ae_seq e \<le> after)
        (map (\<lambda>i. ab_contents b ! i) [0..<?c]))"
    using assms(5) by (intro read_loop_spec [OF sh _ _ _ rl]) auto
  then show ?thesis
    using seqs latest by (simp add: ab_contents_map take_map [symmetric])
qed

definition sample_input :: si_action_event_input_t where
  "sample_input = \<lparr>ai_run_id = Some ''run'', ai_action_id = None, ai_actor = SI_ACTION_ACTOR_AGENT,
     ai_channel = SI_ACTION_CHANNEL_HID, ai_phase = SI_ACTION_PHASE_STARTED, ai_summary = None,
     ai_redacted = False, ai_background = False\<rparr>"

theorem event_poll_complete_witness:
  "let b = run_ops ab_step zero_buffer (replicate 3 (7, sample_input));
       r = si_action_event_buffer_read_after (Some b) 1 (Some (replicate 5 zero_event)) 5 (Some 0) (Some True)
   in map (\<lambda>e. unat (ae_seq e)) (take (fst r) (the (fst (snd r)))) = [2, 3]"
proof -
  let ?b = "run_ops ab_step zero_buffer (replicate 3 (7, sample_input))"
  let ?r = "si_action_event_buffer_read_after (Some ?b) 1 (Some (replicate 5 zero_event)) 5 (Some 0) (Some True)"
  have "case ?r of (n, out, latest, lost) \<Rightarrow> n = 2 \<and> out \<noteq> None \<and> latest = Some 3 \<and> lost = Some False"
    by code_simp
  then obtain out' where r: "?r = (2, Some out', Some 3, Some False)" by (auto split: prod.splits)
  have "1 \<le> ab_latest_seq ?b" by code_simp
  then have "map (\<lambda>e. unat (ae_seq e)) (take 2 out') = take 5 [Suc (unat (1::u32))..<Suc (unat (3::u32))]"
    using event_poll_complete [OF _ refl _ _ _ _ r] by simp
  then show ?thesis using r by (simp add: Let_def upt_rec [of "Suc (Suc 0)"] upt_rec [of "Suc (Suc (Suc 0))"])
qed

end
