(* ===== verification/Rate_Limit.thy ===== *)
theory Rate_Limit
  imports Contracts
begin

text \<open>
  The discovery responder's rate limiter, \<^verbatim>\<open>core/discovery_rate_limit.c\<close>: a fixed global window
  and sixteen per-source buckets over a wrapping millisecond clock.
\<close>

section \<open>Data\<close>

definition SI_DISCOVERY_RATE_WINDOW_MS :: u32 where "SI_DISCOVERY_RATE_WINDOW_MS = 1000"
definition SI_DISCOVERY_RATE_PER_SOURCE :: u16 where "SI_DISCOVERY_RATE_PER_SOURCE = 8"
definition SI_DISCOVERY_RATE_GLOBAL :: u16 where "SI_DISCOVERY_RATE_GLOBAL = 64"
definition SI_DISCOVERY_RATE_SOURCE_SLOTS :: nat where "SI_DISCOVERY_RATE_SOURCE_SLOTS = 16"

record si_discovery_source_rate_t =
  sr_source_ipv4 :: u32
  sr_window_started_ms :: u32
  sr_last_seen_ms :: u32
  sr_requests :: u16
  sr_used :: bool

record si_discovery_rate_limiter_t =
  dl_global_window_started_ms :: u32
  dl_global_requests :: u16
  dl_replacement_cursor :: u8
  dl_initialized :: bool
  dl_sources :: "si_discovery_source_rate_t list"

section \<open>Operations\<close>

definition window_expired :: "u32 \<Rightarrow> u32 \<Rightarrow> bool" where
  "window_expired now_ms started_ms \<longleftrightarrow> now_ms - started_ms \<ge> SI_DISCOVERY_RATE_WINDOW_MS"

text \<open>The search loop: the index of the source's bucket, or else of the first free one.\<close>

fun bucket_loop :: "u32 \<Rightarrow> nat \<Rightarrow> si_discovery_source_rate_t list \<Rightarrow> nat option \<Rightarrow> (nat \<times> bool) option" where
  "bucket_loop source_ipv4 i [] free_bucket = map_option (\<lambda>f. (f, False)) free_bucket"
| "bucket_loop source_ipv4 i (bucket # rest) free_bucket =
     (if sr_used bucket \<and> sr_source_ipv4 bucket = source_ipv4 then Some (i, True)
      else bucket_loop source_ipv4 (Suc i) rest
             (if \<not> sr_used bucket \<and> free_bucket = None then Some i else free_bucket))"

definition source_bucket ::
    "si_discovery_rate_limiter_t \<Rightarrow> u32 \<Rightarrow> u32 \<Rightarrow> nat \<times> si_discovery_rate_limiter_t" where
  "source_bucket limiter source_ipv4 now_ms =
     (let fresh = \<lparr>sr_source_ipv4 = source_ipv4, sr_window_started_ms = now_ms,
            sr_last_seen_ms = now_ms, sr_requests = 0, sr_used = True\<rparr>
      in case bucket_loop source_ipv4 0 (dl_sources limiter) None of
           Some (i, True) \<Rightarrow> (i, limiter)
         | Some (i, False) \<Rightarrow> (i, limiter\<lparr>dl_sources := (dl_sources limiter)[i := fresh]\<rparr>)
         | None \<Rightarrow>
             let i = unat (dl_replacement_cursor limiter) in
             (i, limiter\<lparr>dl_replacement_cursor :=
                   of_nat ((i + 1) mod SI_DISCOVERY_RATE_SOURCE_SLOTS),
                 dl_sources := (dl_sources limiter)[i := fresh]\<rparr>))"

text \<open>The global window after the reset test of a call, and a bucket after its own.\<close>

definition rl_reset :: "si_discovery_rate_limiter_t \<Rightarrow> u32 \<Rightarrow> si_discovery_rate_limiter_t" where
  "rl_reset limiter now_ms =
     (if \<not> dl_initialized limiter \<or> window_expired now_ms (dl_global_window_started_ms limiter)
      then limiter\<lparr>dl_initialized := True, dl_global_window_started_ms := now_ms, dl_global_requests := 0\<rparr>
      else limiter)"

definition rl_touch :: "si_discovery_source_rate_t \<Rightarrow> u32 \<Rightarrow> si_discovery_source_rate_t" where
  "rl_touch bucket now_ms =
     (if window_expired now_ms (sr_window_started_ms bucket)
      then bucket\<lparr>sr_window_started_ms := now_ms, sr_requests := 0\<rparr> else bucket)\<lparr>sr_last_seen_ms := now_ms\<rparr>"

definition si_discovery_rate_limit_allow ::
    "si_discovery_rate_limiter_t option \<Rightarrow> u32 \<Rightarrow> u32 \<Rightarrow> bool \<times> si_discovery_rate_limiter_t option" where
  "si_discovery_rate_limit_allow limiter source_ipv4 now_ms =
     (case limiter of None \<Rightarrow> (False, limiter) | Some l \<Rightarrow>
      if source_ipv4 = 0 then (False, limiter)
      else
        let l1 = rl_reset l now_ms in
        if dl_global_requests l1 \<ge> SI_DISCOVERY_RATE_GLOBAL then (False, Some l1)
        else
          let (i, l2) = source_bucket l1 source_ipv4 now_ms;
              bucket = rl_touch (dl_sources l2 ! i) now_ms
          in if sr_requests bucket \<ge> SI_DISCOVERY_RATE_PER_SOURCE
             then (False, Some (l2\<lparr>dl_sources := (dl_sources l2)[i := bucket]\<rparr>))
             else (True, Some (l2\<lparr>dl_sources := (dl_sources l2)[i :=
                           bucket\<lparr>sr_requests := sr_requests bucket + 1\<rparr>],
                         dl_global_requests := dl_global_requests l2 + 1\<rparr>)))"

section \<open>Invariant\<close>

definition rl_bucket_ok :: "si_discovery_source_rate_t \<Rightarrow> bool" where
  "rl_bucket_ok s \<longleftrightarrow> sr_requests s \<le> SI_DISCOVERY_RATE_PER_SOURCE"

definition rl_inv :: "si_discovery_rate_limiter_t \<Rightarrow> bool" where
  "rl_inv l \<longleftrightarrow> length (dl_sources l) = SI_DISCOVERY_RATE_SOURCE_SLOTS \<and>
     unat (dl_replacement_cursor l) < SI_DISCOVERY_RATE_SOURCE_SLOTS \<and>
     dl_global_requests l \<le> SI_DISCOVERY_RATE_GLOBAL \<and> (\<forall>s\<in>set (dl_sources l). rl_bucket_ok s)"

definition rl_zero :: si_discovery_rate_limiter_t where
  "rl_zero = \<lparr>dl_global_window_started_ms = 0, dl_global_requests = 0, dl_replacement_cursor = 0,
     dl_initialized = False, dl_sources = replicate SI_DISCOVERY_RATE_SOURCE_SLOTS
       \<lparr>sr_source_ipv4 = 0, sr_window_started_ms = 0, sr_last_seen_ms = 0, sr_requests = 0, sr_used = False\<rparr>\<rparr>"

definition rl_step :: "si_discovery_rate_limiter_t \<Rightarrow> u32 \<times> u32 \<Rightarrow> si_discovery_rate_limiter_t" where
  "rl_step l = (\<lambda>(src, now). the (snd (si_discovery_rate_limit_allow (Some l) src now)))"

definition rl_allows :: "si_discovery_rate_limiter_t \<Rightarrow> u32 \<times> u32 \<Rightarrow> bool" where
  "rl_allows l = (\<lambda>(src, now). fst (si_discovery_rate_limit_allow (Some l) src now))"

lemma bucket_loop_range:
  "bucket_loop src i xs free = Some (j, found) \<Longrightarrow> (free = Some j \<or> i \<le> j \<and> j < i + length xs)"
  by (induction xs arbitrary: i free) (fastforce split: if_splits)+

lemma source_bucket_ok:
  assumes "rl_inv l" "source_bucket l src now = (i, l')"
  shows "rl_inv l' \<and> i < length (dl_sources l') \<and> dl_global_requests l' = dl_global_requests l \<and>
    dl_global_window_started_ms l' = dl_global_window_started_ms l \<and> dl_initialized l' = dl_initialized l"
proof -
  let ?f = "\<lparr>sr_source_ipv4 = src, sr_window_started_ms = now, sr_last_seen_ms = now, sr_requests = 0,
    sr_used = True\<rparr>"
  have up: "rl_inv (l\<lparr>dl_sources := (dl_sources l)[j := ?f]\<rparr>)" for j
    using assms(1) ball_list_update [of "dl_sources l" rl_bucket_ok ?f j]
    by (simp add: rl_inv_def rl_bucket_ok_def)
  show ?thesis
  proof (cases "bucket_loop src 0 (dl_sources l) None")
    case None
    have "unat (of_nat (Suc (unat (dl_replacement_cursor l)) mod 16) :: u8) < 16"
      by (simp add: unat_of_nat)
    then show ?thesis
      using None assms up [of "unat (dl_replacement_cursor l)"]
      by (auto simp: source_bucket_def Let_def rl_inv_def SI_DISCOVERY_RATE_SOURCE_SLOTS_def)
  next
    case (Some p)
    obtain j found where p: "p = (j, found)" by (cases p)
    then have "j < length (dl_sources l)" using bucket_loop_range [of src 0 "dl_sources l" None j] Some by simp
    then show ?thesis
      using Some assms up [of j] by (cases found) (auto simp: p source_bucket_def Let_def)
  qed
qed

lemma rl_reset_inv: "rl_inv l \<Longrightarrow> rl_inv (rl_reset l now)"
  by (simp add: rl_reset_def rl_inv_def)

lemma allow_effect:
  assumes inv: "rl_inv l"
    and ex: "si_discovery_rate_limit_allow (Some l) src now = (r, Some l')"
  shows "rl_inv l' \<and>
    (src \<noteq> 0 \<longrightarrow> dl_global_window_started_ms l' = dl_global_window_started_ms (rl_reset l now) \<and>
       dl_initialized l' = dl_initialized (rl_reset l now) \<and>
       unat (dl_global_requests l') = unat (dl_global_requests (rl_reset l now)) + (if r then 1 else 0)) \<and>
    (src = 0 \<longrightarrow> l' = l \<and> \<not> r)"
proof (cases "src = 0 \<or> dl_global_requests (rl_reset l now) \<ge> SI_DISCOVERY_RATE_GLOBAL")
  case True
  then show ?thesis
    using inv ex rl_reset_inv [OF inv, of now]
    by (auto simp: si_discovery_rate_limit_allow_def Let_def split: if_splits)
next
  case False
  then have src: "src \<noteq> 0" and lt: "dl_global_requests (rl_reset l now) < SI_DISCOVERY_RATE_GLOBAL" by auto
  obtain i l2 where sb: "source_bucket (rl_reset l now) src now = (i, l2)"
    by (cases "source_bucket (rl_reset l now) src now")
  note ok = source_bucket_ok [OF rl_reset_inv [OF inv] sb]
  let ?b = "rl_touch (dl_sources l2 ! i) now"
  have eq: "si_discovery_rate_limit_allow (Some l) src now =
     (if sr_requests ?b \<ge> SI_DISCOVERY_RATE_PER_SOURCE
      then (False, Some (l2\<lparr>dl_sources := (dl_sources l2)[i := ?b]\<rparr>))
      else (True, Some (l2\<lparr>dl_sources := (dl_sources l2)[i := ?b\<lparr>sr_requests := sr_requests ?b + 1\<rparr>],
             dl_global_requests := dl_global_requests l2 + 1\<rparr>)))"
    using src lt sb by (auto simp: si_discovery_rate_limit_allow_def Let_def not_le)
  have up: "\<forall>s\<in>set ((dl_sources l2)[i := b]). rl_bucket_ok s" if "rl_bucket_ok b" for b
    using ok that by (intro ball_list_update) (auto simp: rl_inv_def)
  show ?thesis
  proof (cases "sr_requests ?b \<ge> SI_DISCOVERY_RATE_PER_SOURCE")
    case True
    have "rl_bucket_ok ?b"
      using ok by (auto simp: rl_inv_def rl_touch_def rl_bucket_ok_def)
    then show ?thesis
      using True ex ok src up [of ?b] unfolding eq by (auto simp: rl_inv_def)
  next
    case False
    then have req: "sr_requests ?b + 1 \<le> SI_DISCOVERY_RATE_PER_SOURCE"
      by (simp add: SI_DISCOVERY_RATE_PER_SOURCE_def inc_le not_le)
    have g: "dl_global_requests l2 < 64" using lt ok by (simp add: SI_DISCOVERY_RATE_GLOBAL_def)
    then have g': "dl_global_requests l2 + 1 \<le> 64" by (rule inc_le)
    have "unat (dl_global_requests l2 + 1) = Suc (unat (dl_global_requests l2))"
      using g by (subst unat_word_ariths) (simp add: word_less_nat_alt)
    then show ?thesis
      using False req ex ok src g' up [of "?b\<lparr>sr_requests := sr_requests ?b + 1\<rparr>"] unfolding eq
      by (auto simp: rl_inv_def rl_bucket_ok_def SI_DISCOVERY_RATE_GLOBAL_def)
  qed
qed

lemma allow_total: "\<exists>r l'. si_discovery_rate_limit_allow (Some l) src now = (r, Some l')"
  by (auto simp: si_discovery_rate_limit_allow_def Let_def split: prod.split)

lemma rl_step_effect:
  fixes src now :: u32
  assumes "rl_inv l"
  defines "l' \<equiv> rl_step l (src, now)"
  shows "rl_inv l'"
    and "src \<noteq> 0 \<Longrightarrow> dl_global_window_started_ms l' = dl_global_window_started_ms (rl_reset l now)"
    and "src \<noteq> 0 \<Longrightarrow> dl_initialized l' = dl_initialized (rl_reset l now)"
    and "src \<noteq> 0 \<Longrightarrow> unat (dl_global_requests l') =
      unat (dl_global_requests (rl_reset l now)) + (if rl_allows l (src, now) then 1 else 0)"
    and "src = 0 \<Longrightarrow> l' = l \<and> \<not> rl_allows l (src, now)"
proof -
  obtain r m where ex: "si_discovery_rate_limit_allow (Some l) src now = (r, Some m)"
    using allow_total by blast
  have "l' = m" "rl_allows l (src, now) = r" by (simp_all add: l'_def rl_step_def rl_allows_def ex)
  with allow_effect [OF assms(1) ex]
  show "rl_inv l'"
    and "src \<noteq> 0 \<Longrightarrow> dl_global_window_started_ms l' = dl_global_window_started_ms (rl_reset l now)"
    and "src \<noteq> 0 \<Longrightarrow> dl_initialized l' = dl_initialized (rl_reset l now)"
    and "src \<noteq> 0 \<Longrightarrow> unat (dl_global_requests l') =
      unat (dl_global_requests (rl_reset l now)) + (if rl_allows l (src, now) then 1 else 0)"
    and "src = 0 \<Longrightarrow> l' = l \<and> \<not> rl_allows l (src, now)" by simp_all
qed

interpretation rl: invariant_machine rl_step rl_inv
  by unfold_locales (metis rl_step_effect(1) surj_pair)

section \<open>Rate bound\<close>

primrec allowed_count :: "si_discovery_rate_limiter_t \<Rightarrow> (u32 \<times> u32) list \<Rightarrow> nat" where
  "allowed_count l [] = 0"
| "allowed_count l (c # cs) = (if rl_allows l c then 1 else 0) + allowed_count (rl_step l c) cs"

text \<open>Milliseconds since \<open>t\<close>, on the wrapping clock.\<close>

definition since :: "u32 \<Rightarrow> u32 \<Rightarrow> nat" where
  "since t now = unat (now - t)"

lemma since_diff: "since t a \<le> since t b \<Longrightarrow> unat (b - a) = since t b - since t a"
proof -
  assume "since t a \<le> since t b"
  then have "a - t \<le> b - t" by (simp add: since_def word_le_nat_alt)
  then have "unat ((b - t) - (a - t)) = unat (b - t) - unat (a - t)" by (rule unat_sub)
  then show ?thesis by (simp add: since_def)
qed

lemma not_expired:
  "since t a \<le> since t b \<Longrightarrow> since t b < 1000 \<Longrightarrow> \<not> window_expired b a"
  by (simp add: window_expired_def SI_DISCOVERY_RATE_WINDOW_MS_def word_le_nat_alt since_diff not_le)

lemma allowed_in_window:
  assumes "rl_inv l" "dl_initialized l"
    and "\<forall>c\<in>set calls. since t (dl_global_window_started_ms l) \<le> since t (snd c) \<and> since t (snd c) < 1000"
  shows "allowed_count l calls + unat (dl_global_requests l) \<le> 64"
  using assms
proof (induction calls arbitrary: l)
  case Nil
  then have "dl_global_requests l \<le> 64" by (simp add: rl_inv_def SI_DISCOVERY_RATE_GLOBAL_def)
  then show ?case by (simp add: word_le_nat_alt)
next
  case (Cons c calls)
  obtain src now where c: "c = (src, now)" by (cases c)
  have reset: "rl_reset l now = l"
    using Cons.prems not_expired [of t "dl_global_window_started_ms l" now] by (simp add: rl_reset_def c)
  note eff = rl_step_effect [OF Cons.prems(1), of src now, unfolded reset]
  have "allowed_count (rl_step l c) calls + unat (dl_global_requests (rl_step l c)) \<le> 64"
    using Cons.prems eff by (intro Cons.IH) (cases "src = 0"; simp add: c)+
  then show ?case using eff by (cases "src = 0") (auto simp: c)
qed

section \<open>Properties\<close>

text \<open>
  However many sources send discovery requests, in any span of one second (calls at
  non-decreasing times within 1000 ms of each other, the 32-bit clock may wrap in between) at most
  128 requests are allowed, and at most 64 when the span lies within one global window.
\<close>

theorem rate_limit_span:
  assumes "rl_inv l" "sorted (map (\<lambda>c. since t (snd c)) calls)"
    and "\<forall>c\<in>set calls. since t (snd c) < 1000"
  shows "allowed_count l calls \<le> 128 \<and>
    (dl_initialized l \<and> (\<forall>c\<in>set calls. since t (dl_global_window_started_ms l) \<le> since t (snd c)) \<longrightarrow>
       allowed_count l calls \<le> 64)"
proof -
  have "allowed_count l calls + unat (dl_global_requests l) \<le> 128"
    using assms
  proof (induction calls arbitrary: l)
    case Nil
    then have "dl_global_requests l \<le> 64" by (simp add: rl_inv_def SI_DISCOVERY_RATE_GLOBAL_def)
    then show ?case by (simp add: word_le_nat_alt)
  next
    case (Cons c calls)
    obtain src now where c: "c = (src, now)" by (cases c)
    note eff = rl_step_effect [OF Cons.prems(1), of src now]
    have g: "unat (dl_global_requests l) \<le> 64"
      using Cons.prems(1) by (simp add: rl_inv_def SI_DISCOVERY_RATE_GLOBAL_def word_le_nat_alt)
    show ?case
    proof (cases "src = 0 \<or> rl_reset l now = l")
      case True
      have "allowed_count (rl_step l c) calls + unat (dl_global_requests (rl_step l c)) \<le> 128"
        using Cons.prems eff(1) by (intro Cons.IH) (auto simp: c)
      then show ?thesis using True eff by (cases "src = 0") (auto simp: c)
    next
      case False
      then have reset: "rl_reset l now = l\<lparr>dl_initialized := True, dl_global_window_started_ms := now,
          dl_global_requests := 0\<rparr>"
        by (auto simp: rl_reset_def split: if_splits)
      have "allowed_count (rl_step l c) calls + unat (dl_global_requests (rl_step l c)) \<le> 64"
        using Cons.prems eff False reset by (intro allowed_in_window [where t = t]) (auto simp: c)
      then show ?thesis using False eff g reset by (auto simp: c)
    qed
  qed
  moreover have "allowed_count l calls + unat (dl_global_requests l) \<le> 64"
    if "dl_initialized l \<and> (\<forall>c\<in>set calls. since t (dl_global_window_started_ms l) \<le> since t (snd c))"
    using assms that by (intro allowed_in_window [where t = t]) auto
  ultimately show ?thesis by auto
qed

lemma rl_inv_zero: "rl_inv rl_zero"
  by (simp add: rl_inv_def rl_zero_def SI_DISCOVERY_RATE_SOURCE_SLOTS_def rl_bucket_ok_def)

theorem rate_limit_span_witness:
  "allowed_count rl_zero (replicate 9 (1, 0xFFFFFFFF) @ [(2, 0)]) = 9 \<and>
   allowed_count rl_zero (replicate 9 (1, 0xFFFFFFFF) @ [(2, 0)]) \<le> 128"
proof -
  have "allowed_count rl_zero (replicate 9 (1, 0xFFFFFFFF) @ [(2, 0)]) \<le> 128"
    using rate_limit_span [OF rl_inv_zero, of "0xFFFFFFFF" "replicate 9 (1, 0xFFFFFFFF) @ [(2, 0)]"]
    by (simp add: since_def sorted_append)
  moreover have "allowed_count rl_zero (replicate 9 (1, 0xFFFFFFFF) @ [(2, 0)]) = 9" by code_simp
  ultimately show ?thesis by simp
qed

text \<open>
  The limiter's counters stay within their limits in every reachable state: at most 64 requests
  are counted in the global window and at most 8 in a bucket, and the replacement cursor always
  names one of the 16 slots.
\<close>

theorem rate_limit_bounds:
  "unat (dl_global_requests (run_ops rl_step rl_zero calls)) \<le> 64 \<and>
   unat (dl_replacement_cursor (run_ops rl_step rl_zero calls)) < 16 \<and>
   length (dl_sources (run_ops rl_step rl_zero calls)) = 16 \<and>
   list_all (\<lambda>s. unat (sr_requests s) \<le> 8) (dl_sources (run_ops rl_step rl_zero calls))"
  using rl.run_inv [OF rl_inv_zero, of calls]
  by (simp add: rl_inv_def rl_bucket_ok_def SI_DISCOVERY_RATE_SOURCE_SLOTS_def
      SI_DISCOVERY_RATE_GLOBAL_def SI_DISCOVERY_RATE_PER_SOURCE_def word_le_nat_alt list_all_iff)

end
