(* ===== verification/Echo_Redact.thy ===== *)
theory Echo_Redact
  imports Contracts
begin

text \<open>
  Redaction of an echoed secret in a terminal stream, \<^verbatim>\<open>core/echo_redact.c\<close>: a Knuth-Morris-Pratt
  matcher that withholds what may be the beginning of the secret and replaces complete occurrences
  by asterisks. The failure table is proved to hold longest borders, the loop to terminate, and
  the whole to be the replacement of the leftmost non-overlapping occurrences, independently of
  how the stream is cut into chunks.

  The inner \<open>while\<close> loop follows table entries, so whether it ends depends on the table: it is a
  partial function, and that it returns is proved.
\<close>

section \<open>Data\<close>

definition SI_ECHO_REDACT_MAX :: nat where "SI_ECHO_REDACT_MAX = 128"

record si_echo_redact_t =
  er_secret :: "u8 list"
  er_fail :: "u16 list"
  er_len :: nat
  er_state :: nat

definition zero_redact :: si_echo_redact_t where
  "zero_redact = \<lparr>er_secret = replicate SI_ECHO_REDACT_MAX 0, er_fail = replicate SI_ECHO_REDACT_MAX 0,
     er_len = 0, er_state = 0\<rparr>"

section \<open>Operations\<close>

definition si_echo_redact_disarm :: "si_echo_redact_t option \<Rightarrow> si_echo_redact_t option" where
  "si_echo_redact_disarm redact = (case redact of None \<Rightarrow> None | Some _ \<Rightarrow> Some zero_redact)"

text \<open>\<open>while (k > 0 && secret[k] != c) k = fail[k - 1];\<close>\<close>

partial_function (option) fallback :: "u8 list \<Rightarrow> u16 list \<Rightarrow> nat \<Rightarrow> u8 \<Rightarrow> nat option" where
  "fallback secret fail k c =
     (if k > 0 \<and> secret ! k \<noteq> c then fallback secret fail (unat (fail ! (k - 1))) c else Some k)"

declare fallback.simps [code]

text \<open>The loop that fills the failure table, from index \<open>i\<close> on.\<close>

function arm_loop :: "u8 list \<Rightarrow> nat \<Rightarrow> nat \<Rightarrow> nat \<Rightarrow> u16 list \<Rightarrow> u16 list option" where
  "arm_loop secret len i k fail =
     (if i < len then
        (case fallback secret fail k (secret ! i) of None \<Rightarrow> None
         | Some k1 \<Rightarrow>
             let k2 = (if secret ! i = secret ! k1 then k1 + 1 else k1)
             in arm_loop secret len (i + 1) k2 (fail[i := of_nat k2]))
      else Some fail)"
  by pat_completeness auto
termination
  by (relation "measure (\<lambda>(secret, len, i, k, fail). len - i)") auto

declare arm_loop.simps [simp del]

definition si_echo_redact_arm ::
    "si_echo_redact_t option \<Rightarrow> u8 list option \<Rightarrow> nat \<Rightarrow> si_echo_redact_t option option" where
  "si_echo_redact_arm redact secret len =
     (case redact of None \<Rightarrow> Some None | Some _ \<Rightarrow>
      let r = zero_redact in
      (case secret of None \<Rightarrow> Some (Some r) | Some s \<Rightarrow>
      if len = 0 \<or> len > SI_ECHO_REDACT_MAX then Some (Some r)
      else
        let r1 = r\<lparr>er_secret := take len s @ drop len (er_secret r), er_len := len\<rparr> in
        (case arm_loop s len 1 0 ((er_fail r1)[0 := 0]) of
           None \<Rightarrow> None
         | Some fail \<Rightarrow> Some (Some (r1\<lparr>er_fail := fail\<rparr>)))))"

definition si_echo_redact_armed :: "si_echo_redact_t option \<Rightarrow> bool" where
  "si_echo_redact_armed redact = (case redact of None \<Rightarrow> False | Some r \<Rightarrow> er_len r > 0)"

text \<open>One iteration of the feed loop: the new state and the bytes written.\<close>

definition feed_byte :: "si_echo_redact_t \<Rightarrow> u8 \<Rightarrow> (si_echo_redact_t \<times> u8 list) option" where
  "feed_byte r c =
     (let held = er_state r in
      case fallback (er_secret r) (er_fail r) held c of None \<Rightarrow> None
      | Some next0 \<Rightarrow>
          let next = (if er_secret r ! next0 = c then next0 + 1 else next0) in
          if next = er_len r then Some (r\<lparr>er_state := 0\<rparr>, replicate (er_len r) 42)
          else
            let released = held + 1 - next in
            Some (r\<lparr>er_state := next\<rparr>,
              map (\<lambda>k. if k < held then er_secret r ! k else c) [0..<released]))"

fun feed_loop :: "si_echo_redact_t \<Rightarrow> u8 list \<Rightarrow> (si_echo_redact_t \<times> u8 list) option" where
  "feed_loop r [] = Some (r, [])"
| "feed_loop r (c # cs) =
     (case feed_byte r c of None \<Rightarrow> None
      | Some (r', out) \<Rightarrow> map_option (\<lambda>(r'', out'). (r'', out @ out')) (feed_loop r' cs))"

definition si_echo_redact_feed ::
    "si_echo_redact_t option \<Rightarrow> u8 list option \<Rightarrow> bool \<Rightarrow> (si_echo_redact_t option \<times> u8 list) option" where
  "si_echo_redact_feed redact in_bytes have_out =
     (case in_bytes of None \<Rightarrow> Some (redact, []) | Some bytes \<Rightarrow>
      if \<not> have_out \<or> bytes = [] then Some (redact, [])
      else if \<not> si_echo_redact_armed redact then Some (redact, bytes)
      else map_option (\<lambda>(r, out). (Some r, out)) (feed_loop (the redact) bytes))"

definition si_echo_redact_flush ::
    "si_echo_redact_t option \<Rightarrow> bool \<Rightarrow> si_echo_redact_t option \<times> u8 list" where
  "si_echo_redact_flush redact have_out =
     (if \<not> si_echo_redact_armed redact \<or> \<not> have_out then (redact, [])
      else (Some ((the redact)\<lparr>er_state := 0\<rparr>), replicate (er_state (the redact)) 42))"

section \<open>Longest matching prefixes\<close>

text \<open>\<open>best P w k\<close>: \<open>k\<close> is the length of the longest prefix of \<open>P\<close> that ends the word \<open>w\<close>.\<close>

definition best :: "'a list \<Rightarrow> 'a list \<Rightarrow> nat \<Rightarrow> bool" where
  "best P w k \<longleftrightarrow> k \<le> length P \<and> suffix (take k P) w \<and>
     (\<forall>j\<le>length P. suffix (take j P) w \<longrightarrow> j \<le> k)"

lemma best_unique: "best P w k \<Longrightarrow> best P w j \<Longrightarrow> j = k"
  by (meson best_def le_antisym)

lemma suffix_take_snoc:
  assumes "j < length P"
  shows "suffix (take (Suc j) P) (w @ [c]) \<longleftrightarrow> P ! j = c \<and> suffix (take j P) w"
  using assms by (auto simp: take_Suc_conv_app_nth)

lemma suffix_of_suffixes:
  assumes "suffix u w" "suffix v w" "length u \<le> length v"
  shows "suffix u v"
  using assms suffix_length_suffix by blast

text \<open>The table entry for a matched length \<open>q\<close> is its longest proper border.\<close>

definition table_ok :: "u8 list \<Rightarrow> u16 list \<Rightarrow> nat \<Rightarrow> bool" where
  "table_ok P fail n \<longleftrightarrow> n \<le> length fail \<and>
     (\<forall>q. 0 < q \<and> q \<le> n \<longrightarrow> best P (drop 1 (take q P)) (unat (fail ! (q - 1))))"

lemma border_iff:
  assumes "0 < q" "q \<le> length P"
  shows "suffix (take k P) (drop 1 (take q P)) \<and> k \<le> length P \<longleftrightarrow> k < q \<and> suffix (take k P) (take q P)"
proof -
  obtain x xs where q: "take q P = x # xs" using assms by (cases "take q P") auto
  have len: "length xs = q - 1" using q assms by (metis length_Cons length_take min.absorb2 diff_Suc_1)
  show ?thesis
  proof
    assume a: "suffix (take k P) (drop 1 (take q P)) \<and> k \<le> length P"
    then have "suffix (take k P) xs" by (simp add: q)
    then have "k \<le> q - 1" using suffix_length_le [of "take k P" xs] a len by simp
    then show "k < q \<and> suffix (take k P) (take q P)"
      using assms \<open>suffix (take k P) xs\<close> by (auto simp: q suffix_Cons)
  next
    assume a: "k < q \<and> suffix (take k P) (take q P)"
    have "length (take k P) \<noteq> length (x # xs)" using a assms len by simp
    then have "take k P \<noteq> x # xs" by metis
    then have "suffix (take k P) xs" using a q by (simp add: suffix_Cons)
    then show "suffix (take k P) (drop 1 (take q P)) \<and> k \<le> length P"
      using a assms q by simp
  qed
qed

text \<open>The loop returns, with the longest border of the matched prefix that \<open>c\<close> extends.\<close>

lemma fallback_spec:
  assumes "table_ok P fail n" "k \<le> n" "k < length P" "n \<le> length P"
    and agree: "\<forall>i<length P. S ! i = P ! i"
  shows "\<exists>r. fallback S fail k c = Some r \<and> r \<le> k \<and> suffix (take r P) (take k P) \<and>
    (P ! r = c \<or> r = 0) \<and> (\<forall>j\<le>k. suffix (take j P) (take k P) \<longrightarrow> P ! j = c \<longrightarrow> j \<le> r)"
  using assms(2,3)
proof (induction k rule: less_induct)
  case (less k)
  show ?case
  proof (cases "k > 0 \<and> P ! k \<noteq> c")
    case False
    then have "fallback S fail k c = Some k" using less.prems agree by (subst fallback.simps) auto
    then show ?thesis using False by auto
  next
    case True
    define f where "f = unat (fail ! (k - 1))"
    have b: "best P (drop 1 (take k P)) f"
      using assms(1) less.prems True unfolding table_ok_def f_def by auto
    have fk: "f < k" "suffix (take f P) (take k P)"
      using b border_iff [of k P f] True less.prems by (auto simp: best_def)
    obtain r where r: "fallback S fail f c = Some r" "r \<le> f" "suffix (take r P) (take f P)"
      "P ! r = c \<or> r = 0" "\<forall>j\<le>f. suffix (take j P) (take f P) \<longrightarrow> P ! j = c \<longrightarrow> j \<le> r"
      using less.IH [of f] fk less.prems by auto
    have step: "fallback S fail k c = Some r"
      using True r(1) less.prems agree by (subst fallback.simps) (simp add: f_def)
    have "j \<le> r" if j: "j \<le> k" "suffix (take j P) (take k P)" "P ! j = c" for j
    proof -
      have "j \<noteq> k" using True j(3) by auto
      then have "j < k" using j(1) by simp
      then have "suffix (take j P) (drop 1 (take k P)) \<and> j \<le> length P"
        using border_iff [of k P j] j(2) True less.prems by simp
      then have "j \<le> f" using b by (auto simp: best_def)
      then have "suffix (take j P) (take f P)"
        using less.prems fk(1) by (intro suffix_of_suffixes [OF j(2) fk(2)]) simp
      then show ?thesis using r(5) \<open>j \<le> f\<close> j(3) by blast
    qed
    moreover have "suffix (take r P) (take k P)"
      using r(3) fk(2) by (rule suffix_order.trans)
    ultimately show ?thesis using step r(2,4) fk(1) by (intro exI [of _ r]) auto
  qed
qed

text \<open>Reading one more byte keeps the matched length the longest one.\<close>

lemma best_snoc:
  assumes h: "best P w h" "h < length P"
    and r: "r \<le> h" "suffix (take r P) (take h P)" "P ! r = c \<or> r = 0"
      "\<forall>j\<le>h. suffix (take j P) (take h P) \<longrightarrow> P ! j = c \<longrightarrow> j \<le> r"
  shows "best P (w @ [c]) (if P ! r = c then r + 1 else r)"
proof -
  have hw: "suffix (take h P) w" using h by (simp add: best_def)
  have rw: "suffix (take r P) w" using r(2) hw by (rule suffix_order.trans)
  have bound: "j \<le> (if P ! r = c then r + 1 else r)" if j: "j \<le> length P" "suffix (take j P) (w @ [c])" for j
  proof (cases j)
    case (Suc i)
    then have i: "i < length P" "P ! i = c" "suffix (take i P) w"
      using j suffix_take_snoc [of i P w c] by auto
    then have "i \<le> h" using h by (simp add: best_def)
    then have "suffix (take i P) (take h P)"
      using h(2) by (intro suffix_of_suffixes [OF i(3) hw]) simp
    then have "i \<le> r" using r(4) \<open>i \<le> h\<close> i(2) by blast
    moreover have "P ! r = c" using r(3) i(2) \<open>i \<le> r\<close> by auto
    ultimately show ?thesis using Suc by simp
  qed simp
  show ?thesis
  proof (cases "P ! r = c")
    case True
    then show ?thesis
      using bound rw r(1) h(2) suffix_take_snoc [of r P w c] by (auto simp: best_def)
  next
    case False
    then show ?thesis using bound r(3) by (auto simp: best_def)
  qed
qed

section \<open>The failure table\<close>

lemma best_length: "best P w k \<Longrightarrow> k \<le> length w"
  using suffix_length_le [of "take k P" w] by (simp add: best_def)

lemma table_ok_extend:
  assumes "table_ok P fail i" "i < length fail" "best P (drop 1 (take (Suc i) P)) k" "k < 2 ^ 16"
  shows "table_ok P (fail[i := of_nat k]) (Suc i)"
proof -
  have "unat (of_nat k :: u16) = k" using assms(4) by (simp add: unat_of_nat)
  moreover have "unat (fail[i := of_nat k] ! (q - 1)) = unat (fail ! (q - 1))" if "0 < q" "q \<le> i" for q
    using that by simp
  ultimately show ?thesis
    using assms(1-3) unfolding table_ok_def by (auto simp: le_Suc_eq)
qed

lemma arm_loop_spec:
  assumes "0 < i" "i \<le> length P" "length P \<le> length fail" "length P < 2 ^ 16"
    and "table_ok P fail i" "best P (drop 1 (take i P)) k"
    and agree: "\<forall>i<length P. S ! i = P ! i"
  shows "\<exists>fail'. arm_loop S (length P) i k fail = Some fail' \<and> table_ok P fail' (length P) \<and>
    length fail' = length fail"
  using assms(1-6)
proof (induction "length P - i" arbitrary: i k fail)
  case 0
  then have "i = length P" by simp
  then show ?case using "0.prems" by (subst arm_loop.simps) simp
next
  case (Suc d)
  then have i: "i < length P" by simp
  have k: "k < i" using best_length [OF Suc.prems(6)] Suc.prems(1,2) by simp
  obtain r where r: "fallback S fail k (P ! i) = Some r" "r \<le> k" "suffix (take r P) (take k P)"
      "P ! r = P ! i \<or> r = 0" "\<forall>j\<le>k. suffix (take j P) (take k P) \<longrightarrow> P ! j = P ! i \<longrightarrow> j \<le> r"
    using fallback_spec [OF Suc.prems(5) _ _ _ agree, of k "P ! i"] k i by auto
  define k2 where "k2 = (if P ! r = P ! i then r + 1 else r)"
  have "best P (drop 1 (take i P) @ [P ! i]) k2"
    unfolding k2_def using Suc.prems(6) k i r by (intro best_snoc) auto
  then have b: "best P (drop 1 (take (Suc i) P)) k2"
    using i Suc.prems(1) by (simp add: take_Suc_conv_app_nth)
  have k2: "k2 < 2 ^ 16" using r(2) k i Suc.prems(4) by (simp add: k2_def)
  have "\<exists>fail'. arm_loop S (length P) (Suc i) k2 (fail[i := of_nat k2]) = Some fail' \<and>
      table_ok P fail' (length P) \<and> length fail' = length (fail[i := of_nat k2])"
    using Suc.hyps(2) Suc.prems i k2 b
    by (intro Suc.hyps(1)) (auto intro: table_ok_extend)
  moreover have "arm_loop S (length P) i k fail = arm_loop S (length P) (Suc i) k2 (fail[i := of_nat k2])"
    using i r agree k by (subst arm_loop.simps) (auto simp: k2_def Let_def)
  ultimately show ?case by simp
qed

text \<open>A redactor armed with the secret \<open>P\<close>.\<close>

definition er_ok :: "u8 list \<Rightarrow> si_echo_redact_t \<Rightarrow> bool" where
  "er_ok P r \<longleftrightarrow> 0 < length P \<and> length P \<le> SI_ECHO_REDACT_MAX \<and> er_len r = length P \<and>
     length (er_secret r) = SI_ECHO_REDACT_MAX \<and> take (length P) (er_secret r) = P \<and>
     table_ok P (er_fail r) (length P) \<and> er_state r < length P"

lemma er_ok_secret: "er_ok P r \<Longrightarrow> i < length P \<Longrightarrow> er_secret r ! i = P ! i"
  unfolding er_ok_def by (metis nth_take)

lemma best_Nil: "best P [] 0"
  by (auto simp: best_def)

lemma arm_ok:
  assumes "0 < len" "len \<le> SI_ECHO_REDACT_MAX" "len \<le> length s"
  shows "\<exists>r. si_echo_redact_arm (Some r0) (Some s) len = Some (Some r) \<and> er_ok (take len s) r \<and> er_state r = 0"
proof -
  let ?P = "take len s"
  have len: "length ?P = len" using assms by simp
  have "best ?P (drop 1 (take 1 ?P)) 0" using assms len by (cases ?P) (auto simp: best_Nil)
  moreover from this have "table_ok ?P ((er_fail zero_redact)[0 := 0]) 1"
    using assms by (auto simp: table_ok_def zero_redact_def SI_ECHO_REDACT_MAX_def less_Suc_eq le_Suc_eq)
  ultimately obtain fail where f: "arm_loop s (length ?P) 1 0 ((er_fail zero_redact)[0 := 0]) = Some fail"
    "table_ok ?P fail (length ?P)"
    using arm_loop_spec [of 1 ?P "(er_fail zero_redact)[0 := 0]" 0 s] assms len
    by (auto simp: zero_redact_def SI_ECHO_REDACT_MAX_def)
  then show ?thesis
    using assms len
    by (auto simp: si_echo_redact_arm_def er_ok_def Let_def zero_redact_def)
qed

section \<open>One byte\<close>

lemma feed_byte_spec:
  assumes ok: "er_ok P r" and w: "best P w (er_state r)"
  obtains (match) "feed_byte r c = Some (r\<lparr>er_state := 0\<rparr>, replicate (length P) 42)"
      "suffix P (w @ [c])" "Suc (er_state r) = length P"
  | (hold) h where "feed_byte r c = Some (r\<lparr>er_state := h\<rparr>,
        take (Suc (er_state r) - h) (take (er_state r) P @ [c]))"
      "best P (w @ [c]) h" "h < length P" "h \<le> Suc (er_state r)"
proof -
  let ?h = "er_state r"
  have h: "?h < length P" and len: "er_len r = length P" using ok by (simp_all add: er_ok_def)
  have agree: "\<forall>i<length P. er_secret r ! i = P ! i" using er_ok_secret [OF ok] by simp
  obtain q where q: "fallback (er_secret r) (er_fail r) ?h c = Some q" "q \<le> ?h" "suffix (take q P) (take ?h P)"
      "P ! q = c \<or> q = 0" "\<forall>j\<le>?h. suffix (take j P) (take ?h P) \<longrightarrow> P ! j = c \<longrightarrow> j \<le> q"
    using fallback_spec [OF _ _ h _ agree, of "er_fail r" "length P" c] ok h by (auto simp: er_ok_def)
  define n where "n = (if P ! q = c then q + 1 else q)"
  have b: "best P (w @ [c]) n" unfolding n_def using w h q by (intro best_snoc)
  have n: "n \<le> Suc ?h" using q(2) by (simp add: n_def)
  have sq: "er_secret r ! q = P ! q" using agree q(2) h by simp
  have out: "map (\<lambda>k. if k < ?h then er_secret r ! k else c) [0..<m] = take m (take ?h P @ [c])" if "m \<le> Suc ?h" for m
    using that agree h by (intro nth_equalityI) (auto simp: nth_append)
  show thesis
  proof (cases "n = length P")
    case True
    then have "feed_byte r c = Some (r\<lparr>er_state := 0\<rparr>, replicate (length P) 42)"
      using q(1) sq len by (simp add: feed_byte_def Let_def n_def)
    moreover have "suffix P (w @ [c])" using b True by (simp add: best_def)
    ultimately show ?thesis using n h True by (intro match) auto
  next
    case False
    then have "feed_byte r c = Some (r\<lparr>er_state := n\<rparr>, take (Suc ?h - n) (take ?h P @ [c]))"
      using q(1) sq len out [of "Suc ?h - n"] by (auto simp: feed_byte_def Let_def n_def)
    moreover have "n < length P" using b False by (simp add: best_def)
    ultimately show ?thesis using b n by (intro hold) auto
  qed
qed

section \<open>The specification: replace leftmost occurrences\<close>

function redact_spec :: "u8 list \<Rightarrow> u8 list \<Rightarrow> u8 list" where
  "redact_spec P [] = []"
| "redact_spec P (x # xs) =
     (if P \<noteq> [] \<and> prefix P (x # xs)
      then replicate (length P) 42 @ redact_spec P (drop (length P) (x # xs))
      else x # redact_spec P xs)"
  by pat_completeness auto
termination
  by (relation "measure (\<lambda>(P, xs). length xs)") auto

lemma redact_spec_none: "\<not> sublist P w \<Longrightarrow> redact_spec P w = w"
  by (induction w) (auto simp: sublist_Cons_right)

lemma redact_spec_skip:
  assumes "P \<noteq> []" "\<not> sublist P (u @ butlast P)"
  shows "redact_spec P (u @ P @ z) = u @ replicate (length P) 42 @ redact_spec P z"
  using assms(2)
proof (induction u)
  case Nil
  obtain x xs where P: "P = x # xs" using assms(1) by (cases P) auto
  then have "prefix P (x # (xs @ z))" by simp
  then show ?case by (simp add: P)
next
  case (Cons a u)
  have "\<not> prefix P (a # u @ P @ z)"
  proof
    assume "prefix P (a # u @ P @ z)"
    moreover have "prefix (a # u @ butlast P) (a # u @ P @ z)"
      using assms(1) by (metis append.assoc append_Cons append_butlast_last_id prefixI)
    moreover have "length P \<le> length (a # u @ butlast P)" using assms(1) by simp
    ultimately have "prefix P (a # u @ butlast P)" by (rule prefix_length_prefix)
    then show False using Cons.prems prefix_imp_sublist by fastforce
  qed
  moreover have "\<not> sublist P (u @ butlast P)" using Cons.prems by (auto simp: sublist_Cons_right)
  ultimately show ?case using Cons.IH by simp
qed

lemma sublist_snoc: "sublist P (w @ [c]) \<longleftrightarrow> suffix P (w @ [c]) \<or> sublist P w"
proof -
  have "rev (w @ [c]) = c # rev w" by simp
  then show ?thesis
    using sublist_Cons_right [of "rev P" c "rev w"] sublist_rev [of P "w @ [c]"] sublist_rev [of P w]
    by (simp only: suffix_to_prefix)
qed

section \<open>The stream\<close>

text \<open>
  After the bytes \<open>inp\<close>: everything up to the last match is redacted for good, the text \<open>w\<close> since
  then holds no occurrence, and of it all but the matched prefix has been released.
\<close>

definition er_stream :: "u8 list \<Rightarrow> si_echo_redact_t \<Rightarrow> u8 list \<Rightarrow> u8 list \<Rightarrow> bool" where
  "er_stream P r inp out \<longleftrightarrow> er_ok P r \<and>
     (\<exists>pre w o1. inp = pre @ w \<and> (\<forall>z. redact_spec P (pre @ z) = o1 @ redact_spec P z) \<and>
        \<not> sublist P w \<and> best P w (er_state r) \<and> out @ take (er_state r) P = o1 @ w)"

lemma er_streamI:
  assumes "er_ok P r" "inp = pre @ w" "\<And>z. redact_spec P (pre @ z) = o1 @ redact_spec P z"
    and "\<not> sublist P w" "best P w (er_state r)" "out @ take (er_state r) P = o1 @ w"
  shows "er_stream P r inp out"
  using assms unfolding er_stream_def by metis

lemma er_stream_spec:
  "er_stream P r inp out \<Longrightarrow> out @ take (er_state r) P = redact_spec P inp"
  unfolding er_stream_def using redact_spec_none by metis

lemma er_stream_init: "er_ok P r \<Longrightarrow> er_state r = 0 \<Longrightarrow> er_stream P r [] []"
  by (force simp: er_stream_def er_ok_def best_Nil)

lemma er_ok_state: "er_ok P r \<Longrightarrow> h < length P \<Longrightarrow> er_ok P (r\<lparr>er_state := h\<rparr>)"
  by (simp add: er_ok_def)

lemma er_stream_byte:
  assumes "er_stream P r inp out"
  shows "\<exists>r' o'. feed_byte r c = Some (r', o') \<and> er_stream P r' (inp @ [c]) (out @ o')"
proof -
  obtain pre w o1 where ok: "er_ok P r" and inp: "inp = pre @ w"
    and pre: "\<And>z. redact_spec P (pre @ z) = o1 @ redact_spec P z"
    and nw: "\<not> sublist P w" and w: "best P w (er_state r)" and out: "out @ take (er_state r) P = o1 @ w"
    using assms by (auto simp: er_stream_def)
  have P: "P \<noteq> []" using ok by (auto simp: er_ok_def)
  from ok w show ?thesis
  proof (cases rule: feed_byte_spec [of P r w c])
    case match
    then obtain u where u: "w @ [c] = u @ P" by (auto simp: suffix_def)
    then have wu: "w = u @ butlast P" using P by (metis butlast_append butlast_snoc)
    have "take (er_state r) P = butlast P" using match(3) by (metis butlast_conv_take diff_Suc_1)
    then have "out = o1 @ u" using out wu by simp
    moreover have "redact_spec P ((inp @ [c]) @ z) = (o1 @ u @ replicate (length P) 42) @ redact_spec P z" for z
    proof -
      have "(inp @ [c]) @ z = pre @ u @ P @ z" using inp u by (metis append.assoc)
      then show ?thesis using pre redact_spec_skip [OF P, of u z] nw wu by simp
    qed
    moreover have "\<not> sublist P []" using P by simp
    ultimately have "er_stream P (r\<lparr>er_state := 0\<rparr>) (inp @ [c]) (out @ replicate (length P) 42)"
      using er_ok_state [OF ok, of 0] P best_Nil
      by (intro er_streamI [of P _ _ "inp @ [c]" "[]"]) simp_all
    then show ?thesis using match(1) by blast
  next
    case (hold h)
    have "\<not> suffix P (w @ [c])"
      using hold(2,3) by (auto simp: best_def dest: spec [of _ "length P"])
    then have nw': "\<not> sublist P (w @ [c])" using nw by (simp add: sublist_snoc)
    let ?t = "take (er_state r) P @ [c]"
    have lt: "length ?t = Suc (er_state r)" using ok by (simp add: er_ok_def)
    have st: "suffix ?t (w @ [c])" using w by (simp add: best_def)
    have "suffix (take h P) (w @ [c])" using hold(2) by (simp add: best_def)
    moreover have "length (take h P) \<le> length ?t" using hold(3,4) lt by simp
    ultimately have "suffix (take h P) ?t" by (rule suffix_of_suffixes [OF _ st])
    then obtain v where v: "?t = v @ take h P" by (auto simp: suffix_def)
    then have "length v = Suc (er_state r) - h"
      using lt hold(3) arg_cong [OF v, of length] by simp
    then have "take (Suc (er_state r) - h) ?t @ take h P = ?t" using v by simp
    then have "(out @ take (Suc (er_state r) - h) ?t) @ take h P = o1 @ w @ [c]"
      using out by simp
    then have "er_stream P (r\<lparr>er_state := h\<rparr>) (inp @ [c]) (out @ take (Suc (er_state r) - h) ?t)"
      using er_ok_state [OF ok hold(3)] nw' hold(2) pre inp
      by (intro er_streamI [of P _ _ pre "w @ [c]" o1]) simp_all
    then show ?thesis using hold(1) by blast
  qed
qed

lemma er_stream_feed:
  assumes "er_stream P r inp out"
  shows "\<exists>r' o'. feed_loop r bytes = Some (r', o') \<and> er_stream P r' (inp @ bytes) (out @ o')"
  using assms
proof (induction bytes arbitrary: r inp out)
  case Nil
  then show ?case by simp
next
  case (Cons c bytes)
  obtain r1 o1 where b: "feed_byte r c = Some (r1, o1)" "er_stream P r1 (inp @ [c]) (out @ o1)"
    using er_stream_byte [OF Cons.prems] by blast
  from Cons.IH [OF b(2)] obtain r2 o2 where
    "feed_loop r1 bytes = Some (r2, o2)" "er_stream P r2 (inp @ c # bytes) (out @ o1 @ o2)" by auto
  then show ?case using b(1) by auto
qed

section \<open>Chunks\<close>

text \<open>The stream as a function of the redactor; \<open>None\<close> would be a loop that never returns.\<close>

fun er_feed :: "si_echo_redact_t option \<Rightarrow> u8 list \<Rightarrow> si_echo_redact_t option \<times> u8 list" where
  "er_feed None bytes = (None, [])"
| "er_feed (Some r) [] = (Some r, [])"
| "er_feed (Some r) (c # cs) =
     (case feed_byte r c of None \<Rightarrow> (None, [])
      | Some (r', out) \<Rightarrow> (case er_feed (Some r') cs of (s, out') \<Rightarrow> (s, out @ out')))"

lemma er_feed_loop: "feed_loop r bytes = Some (r', out) \<Longrightarrow> er_feed (Some r) bytes = (Some r', out)"
  by (induction bytes arbitrary: r r' out) (auto split: option.splits)

lemma er_feed_nil: "er_feed s [] = (s, [])"
  by (cases s) simp_all

lemma er_feed_append:
  "er_feed s (xs @ ys) =
     (case er_feed s xs of (t, out) \<Rightarrow> case er_feed t ys of (u, out') \<Rightarrow> (u, out @ out'))"
proof (induction s xs rule: er_feed.induct)
  case (3 r c cs)
  then show ?case by (auto split: option.split prod.splits)
qed (simp_all split: prod.split)

interpretation er: chunked_stream er_feed
  by unfold_locales (simp_all add: er_feed_nil er_feed_append)

text \<open>The calls the terminal makes: one \<open>feed\<close> per chunk that arrives.\<close>

fun feed_chunks :: "si_echo_redact_t option \<Rightarrow> u8 list list \<Rightarrow> (si_echo_redact_t option \<times> u8 list) option" where
  "feed_chunks redact [] = Some (redact, [])"
| "feed_chunks redact (chunk # chunks) =
     (case si_echo_redact_feed redact (Some chunk) True of None \<Rightarrow> None
      | Some (redact', out) \<Rightarrow>
          map_option (\<lambda>(redact'', out'). (redact'', out @ out')) (feed_chunks redact' chunks))"

lemma feed_call_stream:
  assumes "er_stream P r inp out"
  shows "\<exists>r' o'. si_echo_redact_feed (Some r) (Some chunk) True = Some (Some r', o') \<and>
    er_feed (Some r) chunk = (Some r', o') \<and> er_stream P r' (inp @ chunk) (out @ o')"
proof -
  obtain r' o' where f: "feed_loop r chunk = Some (r', o')" "er_stream P r' (inp @ chunk) (out @ o')"
    using er_stream_feed [OF assms] by blast
  have "0 < er_len r" using assms by (simp add: er_stream_def er_ok_def)
  then have "si_echo_redact_feed (Some r) (Some chunk) True = Some (Some r', o')"
    using f(1) by (cases chunk) (auto simp: si_echo_redact_feed_def si_echo_redact_armed_def)
  then show ?thesis using f er_feed_loop by blast
qed

lemma feed_chunks_stream:
  assumes "er_stream P r inp out"
  shows "\<exists>r' o'. feed_chunks (Some r) chunks = Some (Some r', o') \<and>
    feed_all er_feed (Some r) chunks = (Some r', o') \<and> er_stream P r' (inp @ concat chunks) (out @ o')"
  using assms
proof (induction chunks arbitrary: r inp out)
  case Nil
  then show ?case by simp
next
  case (Cons chunk chunks)
  obtain r1 o1 where a: "si_echo_redact_feed (Some r) (Some chunk) True = Some (Some r1, o1)"
    "er_feed (Some r) chunk = (Some r1, o1)" "er_stream P r1 (inp @ chunk) (out @ o1)"
    using feed_call_stream [OF Cons.prems] by blast
  from Cons.IH [OF a(3)] show ?case using a(1,2) by auto
qed

section \<open>Properties\<close>

lemma er_stream_armed:
  assumes "0 < len" "len \<le> SI_ECHO_REDACT_MAX" "len \<le> length s"
    and "si_echo_redact_arm (Some r0) (Some s) len = Some (Some r)"
  shows "er_stream (take len s) r [] []"
  using arm_ok [OF assms(1-3), of r0] assms(4) er_stream_init by auto

text \<open>
  Redaction of an echoed secret: after arming with a secret of 1 to 128 bytes, feeding the
  terminal's output in any chunks returns (no loop runs forever), and the bytes written, followed
  by the held part of a possible match, are the input with the leftmost non-overlapping
  occurrences of the secret replaced by as many asterisks.
\<close>

theorem echo_redact_stream:
  assumes "0 < len" "len \<le> SI_ECHO_REDACT_MAX" "len \<le> length s"
  shows "\<exists>r. si_echo_redact_arm (Some r0) (Some s) len = Some (Some r) \<and>
    (\<forall>chunks. \<exists>r' out. feed_chunks (Some r) chunks = Some (Some r', out) \<and>
       out @ take (er_state r') (take len s) = redact_spec (take len s) (concat chunks))"
proof -
  obtain r where r: "si_echo_redact_arm (Some r0) (Some s) len = Some (Some r)"
    using arm_ok [OF assms] by blast
  show ?thesis
    using r feed_chunks_stream [OF er_stream_armed [OF assms r]] er_stream_spec by fastforce
qed

theorem echo_redact_stream_witness:
  "\<exists>r r' out. si_echo_redact_arm (Some zero_redact) (Some [1, 1, 2]) 3 = Some (Some r) \<and>
     feed_chunks (Some r) [[7, 1], [1, 1, 2, 1]] = Some (Some r', out) \<and>
     out @ take (er_state r') [1, 1, 2] = [7, 1, 42, 42, 42, 1]"
proof -
  have "redact_spec [1, 1, 2] [7, 1, 1, 1, 2, 1] = [7, 1, 42, 42, 42, 1]" by code_simp
  moreover obtain r where "si_echo_redact_arm (Some zero_redact) (Some [1, 1, 2]) 3 = Some (Some r)"
    "\<forall>chunks. \<exists>r' out. feed_chunks (Some r) chunks = Some (Some r', out) \<and>
       out @ take (er_state r') (take 3 [1, 1, 2]) = redact_spec (take 3 [1, 1, 2]) (concat chunks)"
    using echo_redact_stream [of 3 "[1, 1, 2]" zero_redact] by (auto simp: SI_ECHO_REDACT_MAX_def)
  ultimately show ?thesis by (auto dest!: spec [of _ "[[7, 1], [1, 1, 2, 1]]"])
qed

text \<open>
  How the terminal stream was cut does not matter: two sequences of chunks with the same bytes
  leave the redactor in the same state with the same bytes written.
\<close>

theorem echo_redact_chunk_independent:
  assumes "0 < len" "len \<le> SI_ECHO_REDACT_MAX" "len \<le> length s"
    and "si_echo_redact_arm (Some r0) (Some s) len = Some (Some r)"
    and "concat chunks = concat chunks'"
  shows "feed_chunks (Some r) chunks = feed_chunks (Some r) chunks'"
proof -
  note st = er_stream_armed [OF assms(1-4)]
  from feed_chunks_stream [OF st, of chunks] feed_chunks_stream [OF st, of chunks']
    er.rechunk [OF assms(5), of "Some r"]
  show ?thesis by auto
qed

theorem echo_redact_chunk_independent_witness:
  "\<exists>r. si_echo_redact_arm (Some zero_redact) (Some [1, 1, 2]) 3 = Some (Some r) \<and>
     feed_chunks (Some r) [[7, 1], [1, 2]] = feed_chunks (Some r) [[7], [1, 1], [], [2]]"
proof -
  obtain r where "si_echo_redact_arm (Some zero_redact) (Some [1, 1, 2]) 3 = Some (Some r)"
    using arm_ok [of 3 "[1, 1, 2]" zero_redact] by (auto simp: SI_ECHO_REDACT_MAX_def)
  with echo_redact_chunk_independent [OF _ _ _ this, of "[[7, 1], [1, 2]]" "[[7], [1, 1], [], [2]]"]
  show ?thesis by (auto simp: SI_ECHO_REDACT_MAX_def)
qed

lemma redact_prefix:
  assumes "P \<noteq> []" "prefix Q (redact_spec P xs)" "42 \<notin> set Q"
  shows "prefix Q xs"
  using assms(2,3)
proof (induction xs arbitrary: Q)
  case (Cons x xs)
  show ?case
  proof (cases "prefix P (x # xs)")
    case True
    then show ?thesis
      using Cons.prems assms(1) by (cases Q; cases P) (auto simp: prefix_Cons)
  next
    case False
    then show ?thesis using Cons by (cases Q) auto
  qed
qed simp

lemma sublist_after_stars:
  assumes "42 \<notin> set P" "P \<noteq> []" "sublist P (replicate n 42 @ ys)"
  shows "sublist P ys"
  using assms(3)
proof (induction n)
  case (Suc n)
  then show ?case using assms(1,2) by (cases P) (auto simp: sublist_Cons_right prefix_Cons)
qed simp

lemma redact_no_secret:
  assumes "P \<noteq> []" "42 \<notin> set P"
  shows "\<not> sublist P (redact_spec P xs)"
proof (induction xs rule: length_induct)
  case (1 xs)
  show ?case
  proof (cases xs)
    case Nil
    then show ?thesis using assms(1) by simp
  next
    case (Cons y ys)
    show ?thesis
    proof (cases "prefix P xs")
      case True
      have "length (drop (length P) xs) < length xs" using assms(1) Cons by simp
      then have "\<not> sublist P (redact_spec P (drop (length P) xs))" using 1 by blast
      then show ?thesis
        using True assms sublist_after_stars [OF assms(2,1)] by (auto simp: Cons)
    next
      case False
      then have eq: "redact_spec P xs = y # redact_spec P ys" by (simp add: Cons)
      have "\<not> prefix P (redact_spec P xs)" using redact_prefix [OF assms(1) _ assms(2)] False by blast
      moreover have "\<not> sublist P (redact_spec P ys)" using 1 Cons by simp
      ultimately show ?thesis by (simp add: eq sublist_Cons_right)
    qed
  qed
qed

lemma sublist_before_stars:
  assumes "42 \<notin> set P" "P \<noteq> []" "sublist P (ys @ replicate n 42)"
  shows "sublist P ys"
proof -
  have "sublist (rev P) (replicate n 42 @ rev ys)"
    using assms(3) sublist_rev [of P "ys @ replicate n 42"] by simp
  then have "sublist (rev P) (rev ys)"
    using assms(1,2) by (intro sublist_after_stars [of "rev P" n "rev ys"]) simp_all
  then show ?thesis by simp
qed

text \<open>
  C29: the secret does not leak: if it contains no asterisk, it occurs nowhere in the bytes written
  while armed, flushing included; and never more bytes are written than were read.
\<close>

theorem echo_redact_no_leak:
  assumes "0 < len" "len \<le> SI_ECHO_REDACT_MAX" "len \<le> length s" "42 \<notin> set (take len s)"
    and "si_echo_redact_arm (Some r0) (Some s) len = Some (Some r)"
    and "feed_chunks (Some r) chunks = Some (Some r', out)"
  shows "\<not> sublist (take len s) (out @ snd (si_echo_redact_flush (Some r') True)) \<and>
    length out + er_state r' = length (concat chunks)"
proof -
  let ?P = "take len s"
  have P: "?P \<noteq> []" using assms(1,3) by auto
  have st: "er_stream ?P r' (concat chunks) out"
    using feed_chunks_stream [OF er_stream_armed [OF assms(1-3,5)], of chunks] assms(6) by auto
  then have spec: "out @ take (er_state r') ?P = redact_spec ?P (concat chunks)" by (rule er_stream_spec)
  have "\<not> sublist ?P (out @ take (er_state r') ?P)"
    unfolding spec by (rule redact_no_secret [OF P assms(4)])
  moreover have "sublist ?P (out @ t)" if sub: "sublist ?P out" for t
  proof -
    obtain a b where "out = a @ ?P @ b" using sub unfolding sublist_def by blast
    then have "out @ t = a @ ?P @ b @ t" by simp
    then show ?thesis by (simp only: sublist_appendI)
  qed
  ultimately have "\<not> sublist ?P out" by blast
  then have "\<not> sublist ?P (out @ snd (si_echo_redact_flush (Some r') True))"
    using sublist_before_stars [OF assms(4) P] by (auto simp: si_echo_redact_flush_def)
  moreover have "length (redact_spec Q xs) = length xs" for Q xs
  proof (induction Q xs rule: redact_spec.induct)
    case (2 Q x xs)
    then show ?case using prefix_length_le [of Q "x # xs"] by auto
  qed simp
  moreover have "er_state r' < length ?P" using st by (simp add: er_stream_def er_ok_def)
  ultimately show ?thesis
    using arg_cong [OF spec, of length] by simp
qed

theorem echo_redact_no_leak_witness:
  "\<exists>r r' out. si_echo_redact_arm (Some zero_redact) (Some [1, 2]) 2 = Some (Some r) \<and>
     feed_chunks (Some r) [[1], [2, 1]] = Some (Some r', out) \<and>
     \<not> sublist [1, 2] (out @ snd (si_echo_redact_flush (Some r') True)) \<and> length out + er_state r' = 3"
proof -
  obtain r where r: "si_echo_redact_arm (Some zero_redact) (Some [1, 2]) 2 = Some (Some r)"
    using arm_ok [of 2 "[1, 2]" zero_redact] by (auto simp: SI_ECHO_REDACT_MAX_def)
  obtain r' out where "feed_chunks (Some r) [[1], [2, 1]] = Some (Some r', out)"
    using feed_chunks_stream [OF er_stream_armed [OF _ _ _ r], of "[[1], [2, 1]]"]
    by (auto simp: SI_ECHO_REDACT_MAX_def)
  with echo_redact_no_leak [OF _ _ _ _ r this] r show ?thesis by (auto simp: SI_ECHO_REDACT_MAX_def)
qed

end
