(* ===== verification/Relay_Protocol.thy ===== *)
theory Relay_Protocol
  imports Contracts
begin

text \<open>
  Framing of the ExoAnchor relay protocol EXAR/1, \<^verbatim>\<open>core/relay_protocol.c\<close>: big-endian header
  encoding and decoding, header and payload validation, the streaming decoder and the canonical
  authentication input.

  The decoder stores the payload in a buffer of the caller. The buffer is passed and returned
  explicitly: a pointer is an identity (a number) with the bytes it points to, and the decoder
  keeps the identity, as the code keeps and compares the pointer.
\<close>

section \<open>Data\<close>

definition SI_RELAY_PROTOCOL_VERSION :: u8 where "SI_RELAY_PROTOCOL_VERSION = 1"
definition SI_RELAY_HEADER_SIZE :: nat where "SI_RELAY_HEADER_SIZE = 20"
definition SI_RELAY_MAX_PAYLOAD_SIZE :: u32 where "SI_RELAY_MAX_PAYLOAD_SIZE = 16 * 1024"
definition SI_RELAY_MAX_DEVICE_ID_SIZE :: nat where "SI_RELAY_MAX_DEVICE_ID_SIZE = 63"
definition SI_RELAY_NONCE_SIZE :: nat where "SI_RELAY_NONCE_SIZE = 32"
definition SI_RELAY_AUTH_TAG_SIZE :: nat where "SI_RELAY_AUTH_TAG_SIZE = 32"
definition SI_RELAY_SESSION_ID_SIZE :: nat where "SI_RELAY_SESSION_ID_SIZE = 16"
definition SI_RELAY_READY_PAYLOAD_SIZE :: nat where "SI_RELAY_READY_PAYLOAD_SIZE = 24"
definition SI_RELAY_MAX_WINDOW_SIZE :: u32 where "SI_RELAY_MAX_WINDOW_SIZE = 4 * 1024 * 1024"
definition SI_RELAY_AUTH_CONTEXT :: "u8 list" where
  "SI_RELAY_AUTH_CONTEXT = map of_char ''EXAR-AUTH-V1''"
definition SI_RELAY_CAPABILITY_WEB_HTTP :: u32 where "SI_RELAY_CAPABILITY_WEB_HTTP = 1"
definition SI_RELAY_CAPABILITY_VIDEO_HTTP :: u32 where "SI_RELAY_CAPABILITY_VIDEO_HTTP = 2"
definition SI_RELAY_KNOWN_CAPABILITIES :: u32 where
  "SI_RELAY_KNOWN_CAPABILITIES = SI_RELAY_CAPABILITY_WEB_HTTP OR SI_RELAY_CAPABILITY_VIDEO_HTTP"
definition SI_RELAY_FLAG_FIN :: u16 where "SI_RELAY_FLAG_FIN = 1"
definition SI_RELAY_SERVICE_WEB_HTTP :: u8 where "SI_RELAY_SERVICE_WEB_HTTP = 1"
definition SI_RELAY_SERVICE_VIDEO_HTTP :: u8 where "SI_RELAY_SERVICE_VIDEO_HTTP = 2"

text \<open>The frame types have the byte values of the wire format; any other byte is kept as it is.\<close>

datatype si_relay_frame_type_t =
    SI_RELAY_FRAME_HELLO
  | SI_RELAY_FRAME_CHALLENGE
  | SI_RELAY_FRAME_AUTH
  | SI_RELAY_FRAME_READY
  | SI_RELAY_FRAME_OPEN
  | SI_RELAY_FRAME_OPEN_OK
  | SI_RELAY_FRAME_DATA
  | SI_RELAY_FRAME_WINDOW
  | SI_RELAY_FRAME_CLOSE
  | SI_RELAY_FRAME_PING
  | SI_RELAY_FRAME_PONG
  | SI_RELAY_FRAME_ERROR
  | SI_RELAY_FRAME_OTHER u8

datatype si_relay_result_t =
    SI_RELAY_RESULT_OK
  | SI_RELAY_RESULT_NEED_MORE
  | SI_RELAY_RESULT_FRAME_READY
  | SI_RELAY_RESULT_INVALID_ARGUMENT
  | SI_RELAY_RESULT_BAD_MAGIC
  | SI_RELAY_RESULT_UNSUPPORTED_VERSION
  | SI_RELAY_RESULT_UNKNOWN_TYPE
  | SI_RELAY_RESULT_INVALID_FLAGS
  | SI_RELAY_RESULT_INVALID_STREAM
  | SI_RELAY_RESULT_PAYLOAD_TOO_LARGE
  | SI_RELAY_RESULT_INVALID_PAYLOAD
  | SI_RELAY_RESULT_BUFFER_TOO_SMALL
  | SI_RELAY_RESULT_OTHER u32

definition frame_types :: "(u8 \<times> si_relay_frame_type_t) list" where
  "frame_types = [(0x01, SI_RELAY_FRAME_HELLO),
     (0x02, SI_RELAY_FRAME_CHALLENGE),
     (0x03, SI_RELAY_FRAME_AUTH),
     (0x04, SI_RELAY_FRAME_READY),
     (0x10, SI_RELAY_FRAME_OPEN),
     (0x11, SI_RELAY_FRAME_OPEN_OK),
     (0x12, SI_RELAY_FRAME_DATA),
     (0x13, SI_RELAY_FRAME_WINDOW),
     (0x14, SI_RELAY_FRAME_CLOSE),
     (0x20, SI_RELAY_FRAME_PING),
     (0x21, SI_RELAY_FRAME_PONG),
     (0x22, SI_RELAY_FRAME_ERROR)]"

definition frame_type_of_byte :: "u8 \<Rightarrow> si_relay_frame_type_t" where
  "frame_type_of_byte b = (case map_of frame_types b of Some t \<Rightarrow> t | None \<Rightarrow> SI_RELAY_FRAME_OTHER b)"

fun frame_type_byte :: "si_relay_frame_type_t \<Rightarrow> u8" where
  "frame_type_byte SI_RELAY_FRAME_HELLO = 0x01"
| "frame_type_byte SI_RELAY_FRAME_CHALLENGE = 0x02"
| "frame_type_byte SI_RELAY_FRAME_AUTH = 0x03"
| "frame_type_byte SI_RELAY_FRAME_READY = 0x04"
| "frame_type_byte SI_RELAY_FRAME_OPEN = 0x10"
| "frame_type_byte SI_RELAY_FRAME_OPEN_OK = 0x11"
| "frame_type_byte SI_RELAY_FRAME_DATA = 0x12"
| "frame_type_byte SI_RELAY_FRAME_WINDOW = 0x13"
| "frame_type_byte SI_RELAY_FRAME_CLOSE = 0x14"
| "frame_type_byte SI_RELAY_FRAME_PING = 0x20"
| "frame_type_byte SI_RELAY_FRAME_PONG = 0x21"
| "frame_type_byte SI_RELAY_FRAME_ERROR = 0x22"
| "frame_type_byte (SI_RELAY_FRAME_OTHER b) = b"

record si_relay_frame_header_t =
  rh_version :: u8
  rh_type :: si_relay_frame_type_t
  rh_flags :: u16
  rh_stream_id :: u32
  rh_sequence :: u32
  rh_payload_size :: u32

record si_relay_decoder_t =
  rd_header_bytes :: "u8 list"
  rd_header_used :: nat
  rd_current :: si_relay_frame_header_t
  rd_payload_used :: nat
  rd_payload_storage :: "nat option"
  rd_payload_capacity :: nat
  rd_header_ready :: bool

definition zero_header :: si_relay_frame_header_t where
  "zero_header = \<lparr>rh_version = 0, rh_type = SI_RELAY_FRAME_OTHER 0, rh_flags = 0, rh_stream_id = 0,
     rh_sequence = 0, rh_payload_size = 0\<rparr>"

definition zero_decoder :: si_relay_decoder_t where
  "zero_decoder = \<lparr>rd_header_bytes = replicate SI_RELAY_HEADER_SIZE 0, rd_header_used = 0,
     rd_current = zero_header, rd_payload_used = 0, rd_payload_storage = None,
     rd_payload_capacity = 0, rd_header_ready = False\<rparr>"

section \<open>Bytes and words\<close>

text \<open>The bytes behind a pointer that may be NULL.\<close>

definition c_bytes :: "u8 list option \<Rightarrow> u8 list" where
  "c_bytes p = (case p of None \<Rightarrow> [] | Some b \<Rightarrow> b)"

definition s_magic :: "u8 list" where "s_magic = [0x45, 0x58, 0x41, 0x52]"

definition read_u16_be :: "u8 list \<Rightarrow> u16" where
  "read_u16_be b = push_bit 8 (ucast (b ! 0)) OR ucast (b ! 1)"

definition read_u32_be :: "u8 list \<Rightarrow> u32" where
  "read_u32_be b = push_bit 24 (ucast (b ! 0)) OR push_bit 16 (ucast (b ! 1)) OR
     push_bit 8 (ucast (b ! 2)) OR ucast (b ! 3)"

definition write_u16_be :: "u16 \<Rightarrow> u8 list" where
  "write_u16_be v = [ucast (drop_bit 8 v), ucast v]"

definition write_u32_be :: "u32 \<Rightarrow> u8 list" where
  "write_u32_be v = [ucast (drop_bit 24 v), ucast (drop_bit 16 v), ucast (drop_bit 8 v), ucast v]"

lemma u8_high_bit: "8 \<le> n \<Longrightarrow> \<not> bit (b :: u8) n"
  using bit_imp_le_length [of b n] by auto

lemma read_write_u16 [simp]: "read_u16_be (write_u16_be v @ rest) = v"
  by (rule bit_word_eqI) (auto simp: read_u16_be_def write_u16_be_def bit_simps)

lemma read_write_u32 [simp]: "read_u32_be (write_u32_be v @ rest) = v"
proof (rule bit_word_eqI)
  fix n :: nat
  assume n: "n < LENGTH(32)"
  consider "n < 8" | "8 \<le> n" "n < 16" | "16 \<le> n" "n < 24" | "24 \<le> n" by linarith
  then show "bit (read_u32_be (write_u32_be v @ rest)) n = bit v n"
    using n by cases (auto simp: read_u32_be_def write_u32_be_def bit_simps less_diff_conv2)
qed

lemma write_read_u16: "write_u16_be (read_u16_be (a # b # rest)) = [a, b]"
  by (auto simp: read_u16_be_def write_u16_be_def bit_simps u8_high_bit intro!: bit_word_eqI)

lemma write_read_u32: "write_u32_be (read_u32_be (a # b # c # d # rest)) = [a, b, c, d]"
  by (auto simp: read_u32_be_def write_u32_be_def bit_simps u8_high_bit intro!: bit_word_eqI)

lemma length_write [simp]: "length (write_u16_be v) = 2" "length (write_u32_be w) = 4"
  by (simp_all add: write_u16_be_def write_u32_be_def)

section \<open>Validation\<close>

fun frame_type_known :: "si_relay_frame_type_t \<Rightarrow> bool" where
  "frame_type_known (SI_RELAY_FRAME_OTHER _) = False"
| "frame_type_known _ = True"

fun frame_is_session_scoped :: "si_relay_frame_type_t \<Rightarrow> bool" where
  "frame_is_session_scoped SI_RELAY_FRAME_HELLO = True"
| "frame_is_session_scoped SI_RELAY_FRAME_CHALLENGE = True"
| "frame_is_session_scoped SI_RELAY_FRAME_AUTH = True"
| "frame_is_session_scoped SI_RELAY_FRAME_READY = True"
| "frame_is_session_scoped SI_RELAY_FRAME_PING = True"
| "frame_is_session_scoped SI_RELAY_FRAME_PONG = True"
| "frame_is_session_scoped _ = False"

fun frame_is_stream_scoped :: "si_relay_frame_type_t \<Rightarrow> bool" where
  "frame_is_stream_scoped SI_RELAY_FRAME_OPEN = True"
| "frame_is_stream_scoped SI_RELAY_FRAME_OPEN_OK = True"
| "frame_is_stream_scoped SI_RELAY_FRAME_DATA = True"
| "frame_is_stream_scoped SI_RELAY_FRAME_WINDOW = True"
| "frame_is_stream_scoped SI_RELAY_FRAME_CLOSE = True"
| "frame_is_stream_scoped _ = False"

definition bytes_have_nonzero :: "u8 list \<Rightarrow> nat \<Rightarrow> bool" where
  "bytes_have_nonzero bytes sz \<longleftrightarrow> foldl (\<lambda>combined i. combined OR bytes ! i) 0 [0..<sz] \<noteq> 0"

definition device_id_valid :: "u8 list option \<Rightarrow> nat \<Rightarrow> bool" where
  "device_id_valid device_id sz =
     (case device_id of None \<Rightarrow> False | Some bytes \<Rightarrow>
      if sz = 0 \<or> sz > SI_RELAY_MAX_DEVICE_ID_SIZE then False
      else list_all (\<lambda>i.
        let v = bytes ! i; alpha = (0x61 \<le> v \<and> v \<le> 0x7A); digit = (0x30 \<le> v \<and> v \<le> 0x39) in
        (alpha \<or> digit \<or> v = 0x2D) \<and> ((i = 0 \<or> i + 1 = sz) \<longrightarrow> alpha \<or> digit)) [0..<sz])"

definition payload_size_valid :: "si_relay_frame_header_t \<Rightarrow> bool" where
  "payload_size_valid header =
     (let sz = unat (rh_payload_size header) in
      case rh_type header of
        SI_RELAY_FRAME_HELLO \<Rightarrow> sz \<ge> 38 \<and> sz \<le> 37 + SI_RELAY_MAX_DEVICE_ID_SIZE
      | SI_RELAY_FRAME_CHALLENGE \<Rightarrow> sz = SI_RELAY_NONCE_SIZE
      | SI_RELAY_FRAME_AUTH \<Rightarrow> sz = SI_RELAY_AUTH_TAG_SIZE
      | SI_RELAY_FRAME_READY \<Rightarrow> sz = SI_RELAY_READY_PAYLOAD_SIZE
      | SI_RELAY_FRAME_OPEN \<Rightarrow> sz = 8
      | SI_RELAY_FRAME_OPEN_OK \<Rightarrow> sz = 4
      | SI_RELAY_FRAME_WINDOW \<Rightarrow> sz = 4
      | SI_RELAY_FRAME_DATA \<Rightarrow> sz > 0 \<or> rh_flags header AND SI_RELAY_FLAG_FIN \<noteq> 0
      | SI_RELAY_FRAME_CLOSE \<Rightarrow> sz \<ge> 2 \<and> sz \<le> 130
      | SI_RELAY_FRAME_ERROR \<Rightarrow> sz \<ge> 2 \<and> sz \<le> 130
      | SI_RELAY_FRAME_PING \<Rightarrow> sz = 8
      | SI_RELAY_FRAME_PONG \<Rightarrow> sz = 8
      | SI_RELAY_FRAME_OTHER _ \<Rightarrow> False)"

definition validate_header :: "si_relay_frame_header_t option \<Rightarrow> si_relay_result_t" where
  "validate_header header =
     (case header of None \<Rightarrow> SI_RELAY_RESULT_INVALID_ARGUMENT | Some h \<Rightarrow>
      if rh_version h \<noteq> SI_RELAY_PROTOCOL_VERSION then SI_RELAY_RESULT_UNSUPPORTED_VERSION
      else if \<not> frame_type_known (rh_type h) then SI_RELAY_RESULT_UNKNOWN_TYPE
      else if (rh_type h = SI_RELAY_FRAME_DATA \<and> rh_flags h AND NOT SI_RELAY_FLAG_FIN \<noteq> 0) \<or>
              (rh_type h \<noteq> SI_RELAY_FRAME_DATA \<and> rh_flags h \<noteq> 0)
      then SI_RELAY_RESULT_INVALID_FLAGS
      else if (frame_is_session_scoped (rh_type h) \<and> rh_stream_id h \<noteq> 0) \<or>
              (frame_is_stream_scoped (rh_type h) \<and> rh_stream_id h = 0)
      then SI_RELAY_RESULT_INVALID_STREAM
      else if rh_payload_size h > SI_RELAY_MAX_PAYLOAD_SIZE then SI_RELAY_RESULT_PAYLOAD_TOO_LARGE
      else if \<not> payload_size_valid h then SI_RELAY_RESULT_INVALID_PAYLOAD
      else SI_RELAY_RESULT_OK)"

definition si_relay_decoder_init :: "si_relay_decoder_t option \<Rightarrow> si_relay_decoder_t option" where
  "si_relay_decoder_init decoder = map_option (\<lambda>_. zero_decoder) decoder"

section \<open>Header encoding\<close>

definition header_wire :: "si_relay_frame_header_t \<Rightarrow> u8 list" where
  "header_wire h = s_magic @ [rh_version h, frame_type_byte (rh_type h)] @ write_u16_be (rh_flags h) @
     write_u32_be (rh_stream_id h) @ write_u32_be (rh_sequence h) @ write_u32_be (rh_payload_size h)"

definition si_relay_encode_header ::
    "si_relay_frame_header_t option \<Rightarrow> u8 list option \<Rightarrow> si_relay_result_t \<times> u8 list option" where
  "si_relay_encode_header header output =
     (case output of None \<Rightarrow> (SI_RELAY_RESULT_INVALID_ARGUMENT, None) | Some _ \<Rightarrow>
      let result = validate_header header in
      if result \<noteq> SI_RELAY_RESULT_OK then (result, output)
      else (SI_RELAY_RESULT_OK, Some (header_wire (the header))))"

definition parse_header :: "u8 list \<Rightarrow> si_relay_frame_header_t" where
  "parse_header input = \<lparr>rh_version = input ! 4, rh_type = frame_type_of_byte (input ! 5),
     rh_flags = read_u16_be (drop 6 input), rh_stream_id = read_u32_be (drop 8 input),
     rh_sequence = read_u32_be (drop 12 input), rh_payload_size = read_u32_be (drop 16 input)\<rparr>"

definition si_relay_decode_header ::
    "u8 list option \<Rightarrow> si_relay_frame_header_t option \<Rightarrow>
     si_relay_result_t \<times> si_relay_frame_header_t option" where
  "si_relay_decode_header input header_out =
     (case (input, header_out) of
        (Some i, Some _) \<Rightarrow>
          if take 4 i \<noteq> s_magic then (SI_RELAY_RESULT_BAD_MAGIC, header_out)
          else
            let header = parse_header i; result = validate_header (Some header) in
            (result, if result = SI_RELAY_RESULT_OK then Some header else header_out)
      | _ \<Rightarrow> (SI_RELAY_RESULT_INVALID_ARGUMENT, header_out))"

section \<open>Payload validation\<close>

definition si_relay_validate_payload ::
    "si_relay_frame_header_t option \<Rightarrow> u8 list option \<Rightarrow> si_relay_result_t" where
  "si_relay_validate_payload header payload =
     (let result = validate_header header in
      if result \<noteq> SI_RELAY_RESULT_OK then result
      else let h = the header; p = c_bytes payload in
      if rh_payload_size h > 0 \<and> payload = None then SI_RELAY_RESULT_INVALID_ARGUMENT
      else case rh_type h of
        SI_RELAY_FRAME_HELLO \<Rightarrow>
          let capabilities = read_u32_be p; device_id_size = unat (p ! 36) in
          if capabilities AND NOT SI_RELAY_KNOWN_CAPABILITIES \<noteq> 0 \<or>
             capabilities AND SI_RELAY_CAPABILITY_WEB_HTTP = 0 \<or>
             \<not> bytes_have_nonzero (drop 4 p) SI_RELAY_NONCE_SIZE \<or>
             device_id_size = 0 \<or> device_id_size \<noteq> unat (rh_payload_size h - 37) \<or>
             \<not> device_id_valid (Some (drop 37 p)) device_id_size
          then SI_RELAY_RESULT_INVALID_PAYLOAD else SI_RELAY_RESULT_OK
      | SI_RELAY_FRAME_CHALLENGE \<Rightarrow>
          if \<not> bytes_have_nonzero p SI_RELAY_NONCE_SIZE
          then SI_RELAY_RESULT_INVALID_PAYLOAD else SI_RELAY_RESULT_OK
      | SI_RELAY_FRAME_READY \<Rightarrow>
          let heartbeat_ms = read_u32_be (drop 16 p); max_streams = read_u16_be (drop 20 p) in
          if \<not> bytes_have_nonzero p SI_RELAY_SESSION_ID_SIZE \<or>
             heartbeat_ms < 5000 \<or> heartbeat_ms > 120000 \<or> max_streams = 0 \<or> max_streams > 32 \<or>
             read_u16_be (drop 22 p) \<noteq> 0
          then SI_RELAY_RESULT_INVALID_PAYLOAD else SI_RELAY_RESULT_OK
      | SI_RELAY_FRAME_OPEN \<Rightarrow>
          let service = p ! 0; receive_window = read_u32_be (drop 4 p) in
          if (service \<noteq> SI_RELAY_SERVICE_WEB_HTTP \<and> service \<noteq> SI_RELAY_SERVICE_VIDEO_HTTP) \<or>
             p ! 1 \<noteq> 0 \<or> p ! 2 \<noteq> 0 \<or> p ! 3 \<noteq> 0 \<or>
             receive_window = 0 \<or> receive_window > SI_RELAY_MAX_WINDOW_SIZE
          then SI_RELAY_RESULT_INVALID_PAYLOAD else SI_RELAY_RESULT_OK
      | SI_RELAY_FRAME_OPEN_OK \<Rightarrow>
          if read_u32_be p = 0 \<or> read_u32_be p > SI_RELAY_MAX_WINDOW_SIZE
          then SI_RELAY_RESULT_INVALID_PAYLOAD else SI_RELAY_RESULT_OK
      | SI_RELAY_FRAME_WINDOW \<Rightarrow>
          if read_u32_be p = 0 \<or> read_u32_be p > SI_RELAY_MAX_WINDOW_SIZE
          then SI_RELAY_RESULT_INVALID_PAYLOAD else SI_RELAY_RESULT_OK
      | _ \<Rightarrow> SI_RELAY_RESULT_OK)"

section \<open>The streaming decoder\<close>

text \<open>\<open>memcpy (&dst[at], src, n)\<close>.\<close>

definition c_memcpy :: "'a list \<Rightarrow> nat \<Rightarrow> 'a list \<Rightarrow> nat \<Rightarrow> 'a list" where
  "c_memcpy dst at src n = take at dst @ take n src @ drop (at + n) dst"

text \<open>What a call leaves: the result, the decoder, the caller's buffer, \<open>*consumed_out\<close>, \<open>*header_out\<close>.\<close>

record consume_out =
  co_result :: si_relay_result_t
  co_decoder :: si_relay_decoder_t
  co_store :: "u8 list"
  co_consumed :: nat
  co_header :: si_relay_frame_header_t

text \<open>The second half of the call, with the header complete and \<open>consumed\<close> bytes already used.\<close>

definition consume_payload :: "si_relay_decoder_t \<Rightarrow> u8 list \<Rightarrow> u8 list \<Rightarrow> nat \<Rightarrow>
    si_relay_frame_header_t \<Rightarrow> consume_out" where
  "consume_payload d input store consumed header =
     (let available = length input - consumed;
          missing = unat (rh_payload_size (rd_current d)) - rd_payload_used d;
          copied = (if available < missing then available else missing);
          store' = (if copied > 0 then c_memcpy store (rd_payload_used d) (drop consumed input) copied
                    else store);
          d' = d\<lparr>rd_payload_used := rd_payload_used d + copied\<rparr>;
          consumed' = consumed + copied
      in if rd_payload_used d' < unat (rh_payload_size (rd_current d'))
         then \<lparr>co_result = SI_RELAY_RESULT_NEED_MORE, co_decoder = d', co_store = store',
                co_consumed = consumed', co_header = header\<rparr>
         else
           let result = si_relay_validate_payload (Some (rd_current d'))
                 (if rd_payload_storage d' = None then None else Some store') in
           if result \<noteq> SI_RELAY_RESULT_OK
           then \<lparr>co_result = result, co_decoder = zero_decoder, co_store = store',
                  co_consumed = consumed', co_header = header\<rparr>
           else \<lparr>co_result = SI_RELAY_RESULT_FRAME_READY, co_decoder = zero_decoder, co_store = store',
                  co_consumed = consumed', co_header = rd_current d'\<rparr>)"

text \<open>
  A call with all its pointers but the input and the buffer present. The buffer is its identity, if
  it is not NULL, and its bytes; \<open>input\<close> is present or empty.
\<close>

definition consume_frame :: "si_relay_decoder_t \<Rightarrow> u8 list \<Rightarrow> nat option \<Rightarrow> u8 list \<Rightarrow> nat \<Rightarrow>
    si_relay_frame_header_t \<Rightarrow> consume_out" where
  "consume_frame d input storage store capacity header =
     (let fail = (\<lambda>r consumed. \<lparr>co_result = r, co_decoder = zero_decoder, co_store = store,
                    co_consumed = consumed, co_header = header\<rparr>) in
      if \<not> rd_header_ready d then
        let missing = SI_RELAY_HEADER_SIZE - rd_header_used d;
            copied = (if length input < missing then length input else missing);
            d1 = (if copied > 0
                  then d\<lparr>rd_header_bytes := c_memcpy (rd_header_bytes d) (rd_header_used d) input copied,
                         rd_header_used := rd_header_used d + copied\<rparr>
                  else d)
        in if rd_header_used d1 < SI_RELAY_HEADER_SIZE
           then \<lparr>co_result = SI_RELAY_RESULT_NEED_MORE, co_decoder = d1, co_store = store,
                  co_consumed = copied, co_header = header\<rparr>
           else
             (case si_relay_decode_header (Some (rd_header_bytes d1)) (Some (rd_current d1)) of
                (result, current) \<Rightarrow>
                  if result \<noteq> SI_RELAY_RESULT_OK then fail result copied
                  else
                    let d2 = d1\<lparr>rd_current := the current, rd_header_ready := True\<rparr>;
                        too_small = unat (rh_payload_size (rd_current d2)) > capacity
                    in if too_small then fail SI_RELAY_RESULT_BUFFER_TOO_SMALL copied
                       else if rh_payload_size (rd_current d2) > 0 \<and> storage = None
                       then fail SI_RELAY_RESULT_INVALID_ARGUMENT copied
                       else consume_payload
                              (d2\<lparr>rd_payload_storage := storage, rd_payload_capacity := capacity\<rparr>)
                              input store copied header)
      else if rd_payload_storage d \<noteq> storage \<or> rd_payload_capacity d \<noteq> capacity
      then fail SI_RELAY_RESULT_INVALID_ARGUMENT 0
      else consume_payload d input store 0 header)"

definition si_relay_decoder_consume ::
    "si_relay_decoder_t option \<Rightarrow> u8 list option \<Rightarrow> nat \<Rightarrow> nat option \<Rightarrow> u8 list \<Rightarrow> nat \<Rightarrow>
     nat option \<Rightarrow> si_relay_frame_header_t option \<Rightarrow>
     si_relay_result_t \<times> si_relay_decoder_t option \<times> u8 list \<times> nat option \<times>
     si_relay_frame_header_t option" where
  "si_relay_decoder_consume decoder input input_size storage store capacity consumed_out header_out =
     (case (decoder, consumed_out, header_out) of
        (Some d, Some _, Some header) \<Rightarrow>
          if input = None \<and> input_size > 0
          then (SI_RELAY_RESULT_INVALID_ARGUMENT, decoder, store, consumed_out, header_out)
          else
            let c = consume_frame d (take input_size (c_bytes input)) storage store capacity header
            in (co_result c, Some (co_decoder c), co_store c, Some (co_consumed c), Some (co_header c))
      | _ \<Rightarrow> (SI_RELAY_RESULT_INVALID_ARGUMENT, decoder, store, consumed_out, header_out))"

section \<open>Authentication input\<close>

definition si_relay_build_auth_input ::
    "u8 list option \<Rightarrow> nat \<Rightarrow> u8 list option \<Rightarrow> u8 list option \<Rightarrow> nat \<Rightarrow> nat option \<Rightarrow>
     si_relay_result_t \<times> u8 list option \<times> nat option" where
  "si_relay_build_auth_input hello_payload hello_size challenge output output_capacity output_size =
     (case (hello_payload, challenge, output, output_size) of
        (Some hello, Some ch, Some out, Some _) \<Rightarrow>
          if hello_size < 38 \<or> hello_size > 37 + SI_RELAY_MAX_DEVICE_ID_SIZE
          then (SI_RELAY_RESULT_INVALID_ARGUMENT, output, output_size)
          else
            let hello_header = zero_header\<lparr>rh_version := SI_RELAY_PROTOCOL_VERSION,
                  rh_type := SI_RELAY_FRAME_HELLO, rh_payload_size := of_nat hello_size\<rparr> in
            if si_relay_validate_payload (Some hello_header) hello_payload \<noteq> SI_RELAY_RESULT_OK \<or>
               \<not> bytes_have_nonzero ch SI_RELAY_NONCE_SIZE
            then (SI_RELAY_RESULT_INVALID_PAYLOAD, output, output_size)
            else
              let required = length SI_RELAY_AUTH_CONTEXT + 1 + hello_size + SI_RELAY_NONCE_SIZE in
              if output_capacity < required
              then (SI_RELAY_RESULT_BUFFER_TOO_SMALL, output, output_size)
              else (SI_RELAY_RESULT_OK,
                    Some (SI_RELAY_AUTH_CONTEXT @ [0] @ take hello_size hello @
                          take SI_RELAY_NONCE_SIZE ch @ drop required out),
                    Some required)
      | _ \<Rightarrow> (SI_RELAY_RESULT_INVALID_ARGUMENT, output, output_size))"

fun si_relay_result_name :: "si_relay_result_t \<Rightarrow> string" where
  "si_relay_result_name SI_RELAY_RESULT_OK = ''ok''"
| "si_relay_result_name SI_RELAY_RESULT_NEED_MORE = ''need_more''"
| "si_relay_result_name SI_RELAY_RESULT_FRAME_READY = ''frame_ready''"
| "si_relay_result_name SI_RELAY_RESULT_INVALID_ARGUMENT = ''invalid_argument''"
| "si_relay_result_name SI_RELAY_RESULT_BAD_MAGIC = ''bad_magic''"
| "si_relay_result_name SI_RELAY_RESULT_UNSUPPORTED_VERSION = ''unsupported_version''"
| "si_relay_result_name SI_RELAY_RESULT_UNKNOWN_TYPE = ''unknown_type''"
| "si_relay_result_name SI_RELAY_RESULT_INVALID_FLAGS = ''invalid_flags''"
| "si_relay_result_name SI_RELAY_RESULT_INVALID_STREAM = ''invalid_stream''"
| "si_relay_result_name SI_RELAY_RESULT_PAYLOAD_TOO_LARGE = ''payload_too_large''"
| "si_relay_result_name SI_RELAY_RESULT_INVALID_PAYLOAD = ''invalid_payload''"
| "si_relay_result_name SI_RELAY_RESULT_BUFFER_TOO_SMALL = ''buffer_too_small''"
| "si_relay_result_name (SI_RELAY_RESULT_OTHER _) = ''unknown_result''"

end
