(* ===== verification/Relay_Props.thy ===== *)
theory Relay_Props
  imports Relay_Protocol
begin

text \<open>
  Correctness of the relay framing: headers round-trip, only canonical headers are accepted, payload
  validation reads nothing beyond the payload, and the streaming decoder computes, however the
  bytes arrive, what a one-shot decoder specification says of the joined bytes.
\<close>

section \<open>Headers\<close>

lemma frame_type_round_trip [simp]: "frame_type_byte (frame_type_of_byte b) = b"
  by (auto simp: frame_type_of_byte_def frame_types_def)

lemma frame_type_known_round_trip: "frame_type_known t \<Longrightarrow> frame_type_of_byte (frame_type_byte t) = t"
  by (cases t) (simp_all add: frame_type_of_byte_def frame_types_def)

lemma length_header_wire [simp]: "length (header_wire h) = 20"
  by (simp add: header_wire_def s_magic_def)

lemma parse_header_wire:
  assumes "frame_type_known (rh_type h)"
  shows "parse_header (header_wire h) = h"
proof -
  have nil: "read_u32_be (write_u32_be v) = v" for v using read_write_u32 [of v "[]"] by simp
  show ?thesis
    using assms
    by (cases h) (simp add: parse_header_def header_wire_def s_magic_def frame_type_known_round_trip nil)
qed

lemma wire_parse_header:
  assumes "length b = 20" "take 4 b = s_magic"
  shows "header_wire (parse_header b) = b"
proof -
  obtain a0 a1 a2 a3 a4 a5 a6 a7 a8 a9 b0 b1 b2 b3 b4 b5 b6 b7 b8 b9
    where b: "b = [a0, a1, a2, a3, a4, a5, a6, a7, a8, a9, b0, b1, b2, b3, b4, b5, b6, b7, b8, b9]"
    using assms(1) by (auto simp: length_Suc_conv eval_nat_numeral)
  then show ?thesis
    using assms(2)
    by (simp add: parse_header_def header_wire_def write_read_u16 write_read_u32 s_magic_def)
qed

definition header_result :: "u8 list \<Rightarrow> si_relay_result_t" where
  "header_result b = (if take 4 b \<noteq> s_magic then SI_RELAY_RESULT_BAD_MAGIC
     else validate_header (Some (parse_header b)))"

lemma decode_header_result:
  "si_relay_decode_header (Some b) (Some h) =
     (header_result b, if header_result b = SI_RELAY_RESULT_OK then Some (parse_header b) else Some h)"
  by (simp add: si_relay_decode_header_def header_result_def Let_def)

lemma validate_header_OK:
  "validate_header (Some h) = SI_RELAY_RESULT_OK \<longleftrightarrow>
     rh_version h = SI_RELAY_PROTOCOL_VERSION \<and> frame_type_known (rh_type h) \<and>
     (if rh_type h = SI_RELAY_FRAME_DATA then rh_flags h AND NOT SI_RELAY_FLAG_FIN = 0 else rh_flags h = 0) \<and>
     (frame_is_session_scoped (rh_type h) \<longrightarrow> rh_stream_id h = 0) \<and>
     (frame_is_stream_scoped (rh_type h) \<longrightarrow> rh_stream_id h \<noteq> 0) \<and>
     rh_payload_size h \<le> SI_RELAY_MAX_PAYLOAD_SIZE \<and> payload_size_valid h"
  by (auto simp: validate_header_def)

section \<open>Payload validation stays within the payload\<close>

lemma read_u32_take: "k + 4 \<le> n \<Longrightarrow> n \<le> length p \<Longrightarrow> read_u32_be (drop k (take n p)) = read_u32_be (drop k p)"
  by (simp add: read_u32_be_def)

lemma read_u16_take: "k + 2 \<le> n \<Longrightarrow> n \<le> length p \<Longrightarrow> read_u16_be (drop k (take n p)) = read_u16_be (drop k p)"
  by (simp add: read_u16_be_def)

lemma nonzero_take:
  "k + m \<le> n \<Longrightarrow> n \<le> length p \<Longrightarrow> bytes_have_nonzero (drop k (take n p)) m = bytes_have_nonzero (drop k p) m"
  unfolding bytes_have_nonzero_def by (intro arg_cong [where f = "\<lambda>x. x \<noteq> 0"] foldl_cong) auto

lemma device_id_take:
  "k + m \<le> n \<Longrightarrow> n \<le> length p \<Longrightarrow>
     device_id_valid (Some (drop k (take n p))) m = device_id_valid (Some (drop k p)) m"
  by (auto simp: device_id_valid_def list_all_iff Let_def)

lemma unat_minus_37:
  fixes w :: u32
  shows "37 \<le> unat w \<Longrightarrow> unat (w - 37) = unat w - 37"
  by (subst unat_sub) (simp_all add: word_le_nat_alt)

lemma validate_payload_take:
  assumes "unat (rh_payload_size h) \<le> length p"
  shows "si_relay_validate_payload (Some h) (Some (take (unat (rh_payload_size h)) p))
           = si_relay_validate_payload (Some h) (Some p)"
proof (cases "validate_header (Some h) = SI_RELAY_RESULT_OK")
  case False
  then show ?thesis by (simp add: si_relay_validate_payload_def Let_def)
next
  case True
  let ?n = "unat (rh_payload_size h)"
  have sz: "payload_size_valid h" using True by (simp add: validate_header_OK)
  note r32 = read_u32_take [of 0 ?n p, simplified] read_u32_take [of 4 ?n p] read_u32_take [of 16 ?n p]
  note r16 = read_u16_take [of 20 ?n p] read_u16_take [of 22 ?n p]
  show ?thesis
  proof (cases "rh_type h")
    case SI_RELAY_FRAME_HELLO
    then have n: "38 \<le> ?n" using sz by (simp add: payload_size_valid_def Let_def)
    have m: "unat (rh_payload_size h - 37) = ?n - 37" using n by (simp add: unat_minus_37)
    have "device_id_valid (Some (drop 37 (take ?n p))) (?n - 37) = device_id_valid (Some (drop 37 p)) (?n - 37)"
      using n assms by (intro device_id_take) auto
    moreover have "take ?n p ! 36 = p ! 36" using n by simp
    moreover have "bytes_have_nonzero (drop 4 (take ?n p)) 32 = bytes_have_nonzero (drop 4 p) 32"
      using n assms by (intro nonzero_take) auto
    ultimately show ?thesis
      using n assms r32 SI_RELAY_FRAME_HELLO
      by (auto simp: si_relay_validate_payload_def Let_def c_bytes_def m SI_RELAY_NONCE_SIZE_def)
  next
    case SI_RELAY_FRAME_CHALLENGE
    then have n: "?n = 32" using sz by (simp add: payload_size_valid_def Let_def SI_RELAY_NONCE_SIZE_def)
    then show ?thesis
      using assms nonzero_take [of 0 32 ?n p] SI_RELAY_FRAME_CHALLENGE
      by (simp add: si_relay_validate_payload_def Let_def c_bytes_def SI_RELAY_NONCE_SIZE_def)
  next
    case SI_RELAY_FRAME_READY
    then have n: "?n = 24" using sz by (simp add: payload_size_valid_def Let_def SI_RELAY_READY_PAYLOAD_SIZE_def)
    then show ?thesis
      using assms nonzero_take [of 0 16 ?n p] r32 r16 SI_RELAY_FRAME_READY
      by (simp add: si_relay_validate_payload_def Let_def c_bytes_def SI_RELAY_SESSION_ID_SIZE_def)
  next
    case SI_RELAY_FRAME_OPEN
    then have n: "?n = 8" using sz by (simp add: payload_size_valid_def Let_def)
    then show ?thesis
      using assms r32 SI_RELAY_FRAME_OPEN
      by (simp add: si_relay_validate_payload_def Let_def c_bytes_def)
  next
    case SI_RELAY_FRAME_OPEN_OK
    then have n: "?n = 4" using sz by (simp add: payload_size_valid_def Let_def)
    then show ?thesis
      using assms r32 SI_RELAY_FRAME_OPEN_OK by (simp add: si_relay_validate_payload_def Let_def c_bytes_def)
  next
    case SI_RELAY_FRAME_WINDOW
    then have n: "?n = 4" using sz by (simp add: payload_size_valid_def Let_def)
    then show ?thesis
      using assms r32 SI_RELAY_FRAME_WINDOW by (simp add: si_relay_validate_payload_def Let_def c_bytes_def)
  qed (simp_all add: si_relay_validate_payload_def Let_def)
qed

section \<open>The decoder against a one-shot specification\<close>

text \<open>
  \<open>decode_spec\<close> says of all the bytes received since the last frame boundary what the decoder
  must answer, given the capacity of the payload buffer: it depends neither on how the bytes were
  cut into calls nor on the decoder's state.
\<close>

definition frame_size :: "u8 list \<Rightarrow> nat" where
  "frame_size bs = unat (rh_payload_size (parse_header (take 20 bs)))"

definition decode_spec :: "nat \<Rightarrow> u8 list \<Rightarrow> si_relay_result_t" where
  "decode_spec cap bs =
     (if length bs < 20 then SI_RELAY_RESULT_NEED_MORE
      else if header_result (take 20 bs) \<noteq> SI_RELAY_RESULT_OK then header_result (take 20 bs)
      else if frame_size bs > cap then SI_RELAY_RESULT_BUFFER_TOO_SMALL
      else if length bs < 20 + frame_size bs then SI_RELAY_RESULT_NEED_MORE
      else let r = si_relay_validate_payload (Some (parse_header (take 20 bs)))
             (Some (take (frame_size bs) (drop 20 bs)))
           in if r = SI_RELAY_RESULT_OK then SI_RELAY_RESULT_FRAME_READY else r)"

text \<open>The decoder after the bytes \<open>s\<close> of a frame whose header is complete.\<close>

definition dec_ready :: "nat \<Rightarrow> nat \<Rightarrow> si_relay_decoder_t \<Rightarrow> u8 list \<Rightarrow> u8 list \<Rightarrow> bool" where
  "dec_ready b cap d store s \<longleftrightarrow>
     rd_header_ready d \<and> cap \<le> length store \<and> 20 \<le> length s \<and> length s \<le> 20 + frame_size s \<and>
     header_result (take 20 s) = SI_RELAY_RESULT_OK \<and> rd_current d = parse_header (take 20 s) \<and>
     frame_size s \<le> cap \<and> rd_payload_storage d = Some b \<and> rd_payload_capacity d = cap \<and>
     rd_payload_used d = length s - 20 \<and> take (length s - 20) store = drop 20 s"

text \<open>The decoder in the middle of a frame of which the bytes \<open>s\<close> have been consumed.\<close>

definition dec_rel :: "nat \<Rightarrow> nat \<Rightarrow> si_relay_decoder_t \<Rightarrow> u8 list \<Rightarrow> u8 list \<Rightarrow> bool" where
  "dec_rel b cap d store s \<longleftrightarrow> cap \<le> length store \<and>
     (if rd_header_ready d then dec_ready b cap d store s \<and> length s < 20 + frame_size s
      else length s < 20 \<and> length (rd_header_bytes d) = 20 \<and> rd_header_used d = length s \<and>
           take (length s) (rd_header_bytes d) = s \<and> rd_payload_used d = 0)"

text \<open>What a call that has now seen the bytes \<open>t\<close> of the frame, \<open>input\<close> the last, must leave.\<close>

definition step_ok :: "nat \<Rightarrow> nat \<Rightarrow> u8 list \<Rightarrow> u8 list \<Rightarrow> u8 list \<Rightarrow> si_relay_frame_header_t \<Rightarrow> consume_out \<Rightarrow> bool" where
  "step_ok b cap store t input h0 c \<longleftrightarrow>
     co_result c = decode_spec cap t \<and> length (co_store c) = length store \<and>
     drop cap (co_store c) = drop cap store \<and> co_consumed c \<le> length input \<and>
     (if co_result c = SI_RELAY_RESULT_NEED_MORE
      then co_consumed c = length input \<and> co_header c = h0 \<and> dec_rel b cap (co_decoder c) (co_store c) t
      else co_decoder c = zero_decoder \<and>
        (if co_result c = SI_RELAY_RESULT_FRAME_READY
         then co_header c = parse_header (take 20 t) \<and>
           length t - length input + co_consumed c = 20 + frame_size t \<and>
           take (frame_size t) (co_store c) = take (frame_size t) (drop 20 t)
         else co_header c = h0))"

lemma validate_header_final:
  "validate_header h \<noteq> SI_RELAY_RESULT_NEED_MORE" "validate_header h \<noteq> SI_RELAY_RESULT_FRAME_READY"
  by (auto simp: validate_header_def split: option.split)

lemma header_result_final [simp]:
  "header_result b \<noteq> SI_RELAY_RESULT_NEED_MORE" "header_result b \<noteq> SI_RELAY_RESULT_FRAME_READY"
  by (simp_all add: header_result_def validate_header_final)

lemma validate_payload_final [simp]:
  "si_relay_validate_payload h p \<noteq> SI_RELAY_RESULT_NEED_MORE"
  "si_relay_validate_payload h p \<noteq> SI_RELAY_RESULT_FRAME_READY"
  by (auto simp: si_relay_validate_payload_def Let_def validate_header_final
        split: si_relay_frame_type_t.split)

lemma c_memcpy_take:
  "at + n \<le> length dst \<Longrightarrow> n \<le> length src \<Longrightarrow>
     take (at + n) (c_memcpy dst at src n) = take at dst @ take n src"
  by (simp add: c_memcpy_def)

lemma c_memcpy_frame:
  "at + n \<le> length dst \<Longrightarrow> n \<le> length src \<Longrightarrow> length (c_memcpy dst at src n) = length dst"
  "at + n \<le> cap \<Longrightarrow> at + n \<le> length dst \<Longrightarrow> n \<le> length src \<Longrightarrow>
     drop cap (c_memcpy dst at src n) = drop cap dst"
  by (simp_all add: c_memcpy_def)

lemma frame_size_append [simp]: "20 \<le> length s \<Longrightarrow> frame_size (s @ x) = frame_size s"
  by (simp add: frame_size_def)

lemma zero_decoder_rel: "cap \<le> length store \<Longrightarrow> dec_rel b cap zero_decoder store []"
  by (simp add: dec_rel_def zero_decoder_def SI_RELAY_HEADER_SIZE_def)

lemma consume_payload_ok:
  assumes R: "dec_ready b cap d store s" and k: "k \<le> length input" and ks: "k \<le> length s"
  shows "step_ok b cap store (s @ drop k input) input h0 (consume_payload d input store k h0)"
proof -
  let ?x = "drop k input" and ?n = "frame_size s"
  define m where "m = min (length ?x) (?n - (length s - 20))"
  define store' where "store' = c_memcpy store (length s - 20) ?x m"
  define d' where "d' = d\<lparr>rd_payload_used := length s - 20 + m\<rparr>"
  note R' = R [unfolded dec_ready_def]
  have size: "unat (rh_payload_size (rd_current d)) = ?n" using R' by (simp add: frame_size_def)
  have used: "rd_payload_used d = length s - 20" and st: "rd_payload_storage d = Some b" using R' by simp_all
  have fit: "length s - 20 + m \<le> ?n" "length s - 20 + m \<le> cap" "length s - 20 + m \<le> length store" "m \<le> length ?x"
    using R' by (auto simp: m_def)
  have len: "length store' = length store" "drop cap store' = drop cap store"
    unfolding store'_def using fit by (auto intro: c_memcpy_frame)
  have content: "take (length s - 20 + m) store' = drop 20 s @ take m ?x"
    unfolding store'_def c_memcpy_take [OF fit(3,4)] using R' by simp
  have s0: "(if m > 0 then c_memcpy store (length s - 20) ?x m else store) = store'"
    by (auto simp: store'_def c_memcpy_def)
  have m0: "(if length input - k < ?n - (length s - 20) then length input - k else ?n - (length s - 20)) = m"
    by (auto simp: m_def)
  have eq: "consume_payload d input store k h0 =
     (if length s - 20 + m < ?n
      then \<lparr>co_result = SI_RELAY_RESULT_NEED_MORE, co_decoder = d', co_store = store',
             co_consumed = k + m, co_header = h0\<rparr>
      else let r = si_relay_validate_payload (Some (rd_current d)) (Some store') in
           if r \<noteq> SI_RELAY_RESULT_OK
           then \<lparr>co_result = r, co_decoder = zero_decoder, co_store = store', co_consumed = k + m, co_header = h0\<rparr>
           else \<lparr>co_result = SI_RELAY_RESULT_FRAME_READY, co_decoder = zero_decoder, co_store = store',
                  co_consumed = k + m, co_header = rd_current d\<rparr>)"
    by (simp only: consume_payload_def Let_def size used m0 s0 d'_def) (simp add: size st)
  show ?thesis
  proof (cases "length s - 20 + m < ?n")
    case True
    then have m: "m = length ?x" by (auto simp: m_def)
    have "dec_rel b cap d' store' (s @ ?x)"
      using R' True fit len content m by (auto simp: dec_rel_def dec_ready_def d'_def)
    then show ?thesis
      using True R' m k len by (simp add: step_ok_def eq decode_spec_def)
  next
    case False
    then have m: "length s - 20 + m = ?n" "m = ?n - (length s - 20)" using fit(1) by auto
    let ?r = "si_relay_validate_payload (Some (rd_current d)) (Some store')"
    have taken: "take ?n (drop 20 (s @ ?x)) = take ?n store'"
      using content R' m by auto
    have same: "si_relay_validate_payload (Some (rd_current d)) (Some (take ?n store')) = ?r"
      using validate_payload_take [of "rd_current d" store'] size R' len by simp
    have long: "20 \<le> length s" "\<not> length (s @ ?x) < 20 + ?n" using R' m fit(4) by auto
    have all: "length s + m = 20 + ?n" using R' m by auto
    have spec: "decode_spec cap (s @ ?x) = (if ?r = SI_RELAY_RESULT_OK then SI_RELAY_RESULT_FRAME_READY else ?r)"
      using R' long taken same by (simp add: decode_spec_def Let_def del: length_append)
    have bk: "length (s @ ?x) - length input + (k + m) = 20 + ?n"
      using all k ks by simp
    show ?thesis
    proof (cases "?r = SI_RELAY_RESULT_OK")
      case True
      have "step_ok b cap store (s @ ?x) input h0 \<lparr>co_result = SI_RELAY_RESULT_FRAME_READY,
          co_decoder = zero_decoder, co_store = store', co_consumed = k + m, co_header = rd_current d\<rparr>"
        unfolding step_ok_def using True R' fit(4) k len spec taken bk long
        by (simp del: length_append length_drop)
      then show ?thesis using False True by (simp add: eq)
    next
      case bad: False
      have "step_ok b cap store (s @ ?x) input h0 \<lparr>co_result = ?r,
          co_decoder = zero_decoder, co_store = store', co_consumed = k + m, co_header = h0\<rparr>"
        unfolding step_ok_def using bad fit(4) k len spec by simp
      then show ?thesis using False bad by (simp add: eq)
    qed
  qed
qed

text \<open>One call of the decoder, wherever it stands in the frame.\<close>

lemma decode_spec_header:
  "20 \<le> length t \<Longrightarrow> header_result (take 20 t) \<noteq> SI_RELAY_RESULT_OK \<Longrightarrow>
     decode_spec cap t = header_result (take 20 t)"
  "20 \<le> length t \<Longrightarrow> header_result (take 20 t) = SI_RELAY_RESULT_OK \<Longrightarrow> cap < frame_size t \<Longrightarrow>
     decode_spec cap t = SI_RELAY_RESULT_BUFFER_TOO_SMALL"
  by (simp_all add: decode_spec_def)

lemma consume_frame_ok:
  assumes R: "dec_rel b cap d store s"
  shows "step_ok b cap store (s @ input) input h0 (consume_frame d input (Some b) store cap h0)"
proof (cases "rd_header_ready d")
  case True
  then have "dec_ready b cap d store s" using R by (simp add: dec_rel_def)
  moreover have "consume_frame d input (Some b) store cap h0 = consume_payload d input store 0 h0"
    using calculation by (simp add: consume_frame_def dec_ready_def)
  ultimately show ?thesis using consume_payload_ok [of b cap d store s 0 input h0] by simp
next
  case False
  define k where "k = (if length input < 20 - length s then length input else 20 - length s)"
  define d1 where "d1 = d\<lparr>rd_header_bytes := c_memcpy (rd_header_bytes d) (length s) input k,
                          rd_header_used := length s + k\<rparr>"
  note R' = R [unfolded dec_rel_def, simplified False, simplified]
  have k: "k \<le> length input" "length s + k \<le> 20" using R' by (auto simp: k_def)
  have d1: "(if k > 0 then d\<lparr>rd_header_bytes := c_memcpy (rd_header_bytes d) (length s) input k,
                rd_header_used := length s + k\<rparr> else d) = d1"
    using R' append_take_drop_id [of "length s" "rd_header_bytes d"]
    by (cases d) (auto simp: d1_def c_memcpy_def)
  have bytes: "take (length s + k) (rd_header_bytes d1) = s @ take k input"
    "length (rd_header_bytes d1) = 20"
    using R' k by (simp_all add: d1_def c_memcpy_take c_memcpy_frame)
  have used: "rd_header_used d1 = length s + k" "rd_payload_used d1 = 0" using R' by (simp_all add: d1_def)
  have hu: "rd_header_used d = length s" using R' by simp
  note call = consume_frame_def Let_def SI_RELAY_HEADER_SIZE_def hu k_def [symmetric] d1
  show ?thesis
  proof (cases "length s + k < 20")
    case True
    then have kl: "k = length input" by (auto simp: k_def split: if_splits)
    have c: "consume_frame d input (Some b) store cap h0 =
       \<lparr>co_result = SI_RELAY_RESULT_NEED_MORE, co_decoder = d1, co_store = store,
         co_consumed = k, co_header = h0\<rparr>"
      using True by (simp only: call) (simp add: False used)
    have "dec_rel b cap d1 store (s @ input)"
      using R' False True kl bytes by (simp add: dec_rel_def) (simp add: d1_def)
    then show ?thesis using True kl R' by (simp add: step_ok_def c decode_spec_def)
  next
    case full: False
    then have l20: "length s + k = 20" using k by simp
    then have kd: "20 - length s = k" by simp
    let ?hb = "s @ take k input" and ?t = "s @ input"
    have hb: "rd_header_bytes d1 = ?hb" using bytes l20 by simp
    have t20: "take 20 ?t = ?hb" "20 \<le> length ?t" "length ?hb = 20"
      using k l20 by (auto simp: kd)
    have fs: "frame_size ?hb = frame_size ?t" "take 20 ?hb = ?hb"
      "unat (rh_payload_size (parse_header ?hb)) = frame_size ?t"
      using t20 by (simp_all add: frame_size_def)
    define d2 where "d2 = d1\<lparr>rd_current := parse_header ?hb, rd_header_ready := True,
        rd_payload_storage := Some b, rd_payload_capacity := cap\<rparr>"
    have c: "consume_frame d input (Some b) store cap h0 =
       (let fail = (\<lambda>r. \<lparr>co_result = r, co_decoder = zero_decoder, co_store = store, co_consumed = k, co_header = h0\<rparr>) in
        if header_result ?hb \<noteq> SI_RELAY_RESULT_OK then fail (header_result ?hb)
        else if frame_size ?t > cap then fail SI_RELAY_RESULT_BUFFER_TOO_SMALL
        else consume_payload d2 input store k h0)"
      by (simp only: call) (simp add: l20 False used hb decode_header_result d2_def Let_def
        fs(3))
    have "dec_ready b cap d2 store ?hb"
      if "header_result ?hb = SI_RELAY_RESULT_OK" "frame_size ?t \<le> cap"
      using that t20 fs R' by (simp add: dec_ready_def d2_def) (simp add: d1_def)
    from consume_payload_ok [OF this k(1), of h0] l20
    show ?thesis
      using k R' t20 decode_spec_header [of ?t cap]
      by (auto simp: c Let_def step_ok_def)
  qed
qed

section \<open>Frames fed in pieces\<close>

text \<open>
  The receive loop: pieces of the stream are given to the decoder until it answers something other
  than NEED_MORE; the result is the answer with the header, the buffer, the decoder and the bytes
  of the stream that are left.
\<close>

fun feed_frame :: "nat \<Rightarrow> nat \<Rightarrow> si_relay_decoder_t \<Rightarrow> u8 list \<Rightarrow> si_relay_frame_header_t \<Rightarrow> u8 list list \<Rightarrow>
    (si_relay_result_t \<times> si_relay_frame_header_t \<times> u8 list \<times> si_relay_decoder_t \<times> u8 list) option" where
  "feed_frame b cap d store h [] = None"
| "feed_frame b cap d store h (x # xs) =
     (case si_relay_decoder_consume (Some d) (Some x) (length x) (Some b) store cap (Some 0) (Some h) of
        (r, d', store', consumed, h') \<Rightarrow>
          if r = SI_RELAY_RESULT_NEED_MORE then feed_frame b cap (the d') store' (the h') xs
          else Some (r, the h', store', the d', drop (the consumed) x @ concat xs))"

lemma decoder_consume_frame:
  "si_relay_decoder_consume (Some d) (Some x) (length x) (Some b) store cap (Some 0) (Some h) =
     (let c = consume_frame d x (Some b) store cap h in
      (co_result c, Some (co_decoder c), co_store c, Some (co_consumed c), Some (co_header c)))"
  by (simp add: si_relay_decoder_consume_def c_bytes_def)

text \<open>More bytes never change an answer other than NEED_MORE.\<close>

lemma decode_spec_extend:
  assumes "decode_spec cap s \<noteq> SI_RELAY_RESULT_NEED_MORE"
  shows "decode_spec cap (s @ x) = decode_spec cap s"
proof -
  have s: "20 \<le> length s" using assms by (auto simp: decode_spec_def split: if_splits)
  then show ?thesis using assms by (auto simp: decode_spec_def Let_def)
qed

definition fed_ok :: "nat \<Rightarrow> u8 list \<Rightarrow>
    (si_relay_result_t \<times> si_relay_frame_header_t \<times> u8 list \<times> si_relay_decoder_t \<times> u8 list) option \<Rightarrow> bool" where
  "fed_ok cap bs fed =
     (case fed of
        None \<Rightarrow> decode_spec cap bs = SI_RELAY_RESULT_NEED_MORE
      | Some (r, h, store, d, rest) \<Rightarrow>
          r = decode_spec cap bs \<and> r \<noteq> SI_RELAY_RESULT_NEED_MORE \<and> d = zero_decoder \<and>
          (r = SI_RELAY_RESULT_FRAME_READY \<longrightarrow>
             h = parse_header (take 20 bs) \<and> rest = drop (20 + frame_size bs) bs \<and>
             take (frame_size bs) store = take (frame_size bs) (drop 20 bs)))"

lemma feed_frame_rel:
  assumes "dec_rel b cap d store s"
  shows "fed_ok cap (s @ concat chunks) (feed_frame b cap d store h chunks)"
  using assms
proof (induction chunks arbitrary: d store s h)
  case Nil
  then show ?case by (auto simp: fed_ok_def dec_rel_def dec_ready_def decode_spec_def split: if_splits)
next
  case (Cons x xs)
  define c where "c = consume_frame d x (Some b) store cap h"
  have ok: "step_ok b cap store (s @ x) x h c"
    unfolding c_def using Cons.prems by (rule consume_frame_ok)
  have feed: "feed_frame b cap d store h (x # xs) =
      (if co_result c = SI_RELAY_RESULT_NEED_MORE
       then feed_frame b cap (co_decoder c) (co_store c) (co_header c) xs
       else Some (co_result c, co_header c, co_store c, co_decoder c, drop (co_consumed c) x @ concat xs))"
    by (simp add: decoder_consume_frame Let_def c_def)
  show ?case
  proof (cases "co_result c = SI_RELAY_RESULT_NEED_MORE")
    case True
    then have "dec_rel b cap (co_decoder c) (co_store c) (s @ x)" using ok by (simp add: step_ok_def)
    from Cons.IH [OF this, of "co_header c"] show ?thesis using True feed by simp
  next
    case False
    let ?t = "s @ x"
    have ext: "decode_spec cap (?t @ concat xs) = decode_spec cap ?t"
      by (rule decode_spec_extend) (use ok False in \<open>simp add: step_ok_def\<close>)
    show ?thesis
    proof (cases "co_result c = SI_RELAY_RESULT_FRAME_READY")
      case ready: True
      have l: "20 + frame_size ?t \<le> length ?t" "length s + co_consumed c = 20 + frame_size ?t"
        using ok ready by (auto simp: step_ok_def)
      have rest: "drop (20 + frame_size ?t) (?t @ concat xs) = drop (co_consumed c) x @ concat xs"
        using l(1) unfolding l(2) [symmetric] by simp
      have out: "co_decoder c = zero_decoder" "co_header c = parse_header (take 20 ?t)"
        "take (frame_size ?t) (co_store c) = take (frame_size ?t) (drop 20 ?t)"
        "co_result c = decode_spec cap ?t"
        using ok ready by (simp_all add: step_ok_def)
      have t20: "20 \<le> length ?t" using l(1) by simp
      have whole: "frame_size (?t @ concat xs) = frame_size ?t" "take 20 (?t @ concat xs) = take 20 ?t"
        using t20 by (simp_all del: append_assoc length_append)
      have pay: "take (frame_size ?t) (drop 20 (?t @ concat xs)) = take (frame_size ?t) (drop 20 ?t)"
        using l(1) unfolding take_drop by (simp del: append_assoc length_append)
      have "fed_ok cap (?t @ concat xs)
          (Some (co_result c, co_header c, co_store c, co_decoder c, drop (co_consumed c) x @ concat xs))"
        unfolding fed_ok_def ext whole rest pay out(1,2)
        using out(3,4) False by (simp del: take_append drop_append)
      then show ?thesis using False feed by simp
    next
      case other: False
      then show ?thesis using False ok feed ext by (simp add: fed_ok_def step_ok_def)
    qed
  qed
qed

section \<open>Properties\<close>

text \<open>
  A header is accepted by the encoder exactly when the validator accepts it, the twenty bytes
  the encoder writes decode to the same header, and conversely twenty bytes the decoder accepts
  are the ones the encoder writes for the header it returned: the wire form is canonical.
\<close>

theorem relay_header_round_trip:
  fixes out :: "u8 list"
  assumes "length out = 20"
  shows "(validate_header (Some h) = SI_RELAY_RESULT_OK \<longrightarrow>
      (case si_relay_encode_header (Some h) (Some out) of (r, w) \<Rightarrow>
         r = SI_RELAY_RESULT_OK \<and> si_relay_decode_header w (Some h0) = (SI_RELAY_RESULT_OK, Some h))) \<and>
    (si_relay_decode_header (Some bs) (Some h0) = (SI_RELAY_RESULT_OK, Some h) \<and> length bs = 20 \<longrightarrow>
      si_relay_encode_header (Some h) (Some out) = (SI_RELAY_RESULT_OK, Some bs))"
proof (intro conjI impI)
  assume v: "validate_header (Some h) = SI_RELAY_RESULT_OK"
  then have "frame_type_known (rh_type h)" by (simp add: validate_header_OK)
  then have "parse_header (header_wire h) = h" by (rule parse_header_wire)
  moreover have "take 4 (header_wire h) = s_magic" by (simp add: header_wire_def s_magic_def)
  ultimately show "case si_relay_encode_header (Some h) (Some out) of (r, w) \<Rightarrow>
      r = SI_RELAY_RESULT_OK \<and> si_relay_decode_header w (Some h0) = (SI_RELAY_RESULT_OK, Some h)"
    using v by (simp add: si_relay_encode_header_def decode_header_result header_result_def)
next
  assume d: "si_relay_decode_header (Some bs) (Some h0) = (SI_RELAY_RESULT_OK, Some h) \<and> length bs = 20"
  then have "take 4 bs = s_magic" "validate_header (Some h) = SI_RELAY_RESULT_OK" "h = parse_header bs"
    by (auto simp: decode_header_result header_result_def split: if_splits)
  then show "si_relay_encode_header (Some h) (Some out) = (SI_RELAY_RESULT_OK, Some bs)"
    using d wire_parse_header [of bs] by (simp add: si_relay_encode_header_def)
qed

definition ping_header :: si_relay_frame_header_t where
  "ping_header = \<lparr>rh_version = 1, rh_type = SI_RELAY_FRAME_PING, rh_flags = 0, rh_stream_id = 0,
     rh_sequence = 7, rh_payload_size = 8\<rparr>"

lemma ping_header_valid: "validate_header (Some ping_header) = SI_RELAY_RESULT_OK"
  by (simp add: validate_header_OK ping_header_def SI_RELAY_PROTOCOL_VERSION_def
        SI_RELAY_MAX_PAYLOAD_SIZE_def payload_size_valid_def)

theorem relay_header_round_trip_witness:
  "length (replicate 20 (0::u8)) = 20 \<and>
   (case si_relay_encode_header (Some ping_header) (Some (replicate 20 0)) of (r, w) \<Rightarrow>
      r = SI_RELAY_RESULT_OK \<and>
      si_relay_decode_header w (Some zero_header) = (SI_RELAY_RESULT_OK, Some ping_header))"
  using relay_header_round_trip [of "replicate 20 0" ping_header zero_header "[]"] ping_header_valid
  by simp

text \<open>
  C27: The streaming decoder refines the one-shot specification. Started at a frame boundary with a
  buffer of at least its capacity, and however the stream is cut into calls, it asks for more
  exactly while \<open>decode_spec\<close> of the joined bytes does, and otherwise gives that answer and is back at
  a frame boundary; a ready frame has the header and the payload bytes of the stream, and exactly
  the bytes of the frame have been taken from the stream.
\<close>

theorem relay_decoder_refines:
  assumes "cap \<le> length store"
  shows "fed_ok cap (concat chunks) (feed_frame b cap zero_decoder store h0 chunks)"
  using feed_frame_rel [OF zero_decoder_rel [OF assms, of b], of chunks h0] by simp

definition ping_bytes :: "u8 list" where
  "ping_bytes = [0x45, 0x58, 0x41, 0x52, 1, 0x20, 0, 0, 0, 0, 0, 0, 0, 0, 0, 7, 0, 0, 0, 8]"

theorem relay_decoder_refines_witness:
  "fed_ok 8 (concat [take 5 ping_bytes, drop 5 ping_bytes, [1, 2, 3], [4, 5, 6, 7, 8, 0x45]])
     (feed_frame 1 8 zero_decoder (replicate 8 0) zero_header
       [take 5 ping_bytes, drop 5 ping_bytes, [1, 2, 3], [4, 5, 6, 7, 8, 0x45]])"
  by (rule relay_decoder_refines) simp

text \<open>
  C28: No frame is lost, changed or merged with the next. A valid header and payload, put on the
  stream and followed by anything, come out of the decoder as that header and that payload,
  whatever the cut of the stream into calls, and the bytes after the frame are left untouched.
\<close>

theorem relay_frame_round_trip:
  assumes "si_relay_validate_payload (Some h) (Some p) = SI_RELAY_RESULT_OK"
    and "length p = unat (rh_payload_size h)" "length p \<le> cap" "cap \<le> length store"
    and "concat chunks = header_wire h @ p @ rest"
  shows "\<exists>store'. feed_frame b cap zero_decoder store h0 chunks
      = Some (SI_RELAY_RESULT_FRAME_READY, h, store', zero_decoder, rest) \<and>
    take (unat (rh_payload_size h)) store' = p"
proof -
  have v: "validate_header (Some h) = SI_RELAY_RESULT_OK"
    using assms(1) by (auto simp: si_relay_validate_payload_def Let_def split: if_splits)
  then have "frame_type_known (rh_type h)" by (simp add: validate_header_OK)
  then have ph: "parse_header (header_wire h) = h" by (rule parse_header_wire)
  have mg: "take 4 (header_wire h) = s_magic" by (simp add: header_wire_def s_magic_def)
  have fs: "frame_size (concat chunks) = length p" using ph assms(2,5) by (simp add: frame_size_def)
  have spec: "decode_spec cap (concat chunks) = SI_RELAY_RESULT_FRAME_READY"
    using assms(1,3,5) fs mg ph v by (simp add: decode_spec_def header_result_def)
  have "fed_ok cap (concat chunks) (feed_frame b cap zero_decoder store h0 chunks)"
    using feed_frame_rel [OF zero_decoder_rel [OF assms(4), of b], of chunks h0] by simp
  then show ?thesis
    using spec fs ph assms(2,5) by (auto simp: fed_ok_def split: option.splits)
qed

lemma ping_payload_valid: "si_relay_validate_payload (Some ping_header) (Some p) = SI_RELAY_RESULT_OK"
  using ping_header_valid by (simp add: si_relay_validate_payload_def) (simp add: ping_header_def)

lemma ping_payload_size: "rh_payload_size ping_header = 8"
  by (simp add: ping_header_def)

theorem relay_frame_round_trip_witness:
  "\<exists>store'. feed_frame 1 8 zero_decoder (replicate 8 0) zero_header
      [header_wire ping_header, [1, 2, 3], [4, 5, 6, 7, 8, 0x45]]
      = Some (SI_RELAY_RESULT_FRAME_READY, ping_header, store', zero_decoder, [0x45]) \<and>
    take 8 store' = [1, 2, 3, 4, 5, 6, 7, 8]"
  using relay_frame_round_trip [OF ping_payload_valid, of "[1, 2, 3, 4, 5, 6, 7, 8]" 8 "replicate 8 0"
      "[header_wire ping_header, [1, 2, 3], [4, 5, 6, 7, 8, 0x45]]" "[0x45]" 1 zero_header]
  by (simp add: ping_payload_size del: feed_frame.simps)

lemma auth_context_length: "length SI_RELAY_AUTH_CONTEXT = 12"
  by (simp add: SI_RELAY_AUTH_CONTEXT_def)

text \<open>
  The input of the authentication tag commits to the whole handshake: two calls that succeed with
  the same output have the same HELLO payload, of the same size, and the same challenge. So a tag
  computed for one handshake can not be presented for another.
\<close>

theorem relay_auth_input_injective:
  assumes "si_relay_build_auth_input (Some p) n (Some ch) (Some o1) c1 (Some z1)
      = (SI_RELAY_RESULT_OK, Some out, Some k)"
    and "si_relay_build_auth_input (Some p') n' (Some ch') (Some o2) c2 (Some z2)
      = (SI_RELAY_RESULT_OK, Some out', Some k')"
    and "n \<le> length p" "n' \<le> length p'" "32 \<le> length ch" "32 \<le> length ch'"
    and "take k out = take k' out'"
  shows "n = n' \<and> take n p = take n' p' \<and> take 32 ch = take 32 ch'"
proof -
  have shape: "k = 45 + n \<and> take k out = SI_RELAY_AUTH_CONTEXT @ [0] @ take n p @ take 32 ch"
    if "si_relay_build_auth_input (Some p) n (Some ch) (Some o0) c (Some z) = (SI_RELAY_RESULT_OK, Some out, Some k)"
      "n \<le> length p" "32 \<le> length ch"
    for p n ch o0 c z out k
    using that
    by (auto simp: si_relay_build_auth_input_def Let_def SI_RELAY_NONCE_SIZE_def auth_context_length
          take_Cons' split: if_splits)
  note s1 = shape [OF assms(1,3,5)] and s2 = shape [OF assms(2,4,6)]
  have same: "SI_RELAY_AUTH_CONTEXT @ [0] @ take n p @ take 32 ch
      = SI_RELAY_AUTH_CONTEXT @ [0] @ take n' p' @ take 32 ch'"
    by (rule trans [OF conjunct2 [OF s1, symmetric] trans [OF assms(7) conjunct2 [OF s2]]])
  have "n = n'" using arg_cong [OF same, of length] assms(3-6) by simp
  then show ?thesis using same assms(3-6) by simp
qed

definition hello_bytes :: "u8 list" where
  "hello_bytes = [0, 0, 0, 1] @ replicate 32 9 @ [2, 0x61, 0x62]"

lemma hello_valid:
  "si_relay_build_auth_input (Some hello_bytes) 39 (Some (replicate 32 5)) (Some (replicate 84 0)) 84 (Some 0)
     = (SI_RELAY_RESULT_OK,
        Some (SI_RELAY_AUTH_CONTEXT @ [0] @ hello_bytes @ replicate 32 5), Some 84)"
  by code_simp

theorem relay_auth_input_injective_witness:
  "si_relay_build_auth_input (Some hello_bytes) 39 (Some (replicate 32 5)) (Some (replicate 84 0)) 84 (Some 0)
     = (SI_RELAY_RESULT_OK,
        Some (SI_RELAY_AUTH_CONTEXT @ [0] @ hello_bytes @ replicate 32 5), Some 84) \<and>
   take 39 hello_bytes = take 39 hello_bytes"
  using relay_auth_input_injective [OF hello_valid hello_valid] hello_valid
  by (simp add: hello_bytes_def)

end
