(* ===== verification/Storage_Path.thy ===== *)
theory Storage_Path
  imports Prelude
begin

text \<open>
  Paths of the storage service, \<^verbatim>\<open>core/storage_path.c\<close>: percent decoding of a URL component and the
  resolution of a client's path below the storage root.

  A buffer is the C string it holds. Strings hold no NUL character; that decoding keeps it so is
  proved. The relative path that resolution accepts is shown to be a list of harmless segments
  joined by slashes.
\<close>

section \<open>Data\<close>

definition SI_STORAGE_PATH_SEGMENT_MAX :: nat where "SI_STORAGE_PATH_SEGMENT_MAX = 192"

datatype si_storage_path_result_t =
    SI_STORAGE_PATH_OK
  | SI_STORAGE_PATH_INVALID_ARGUMENT
  | SI_STORAGE_PATH_TOO_LONG

section \<open>Percent decoding\<close>

definition hex_value :: "char \<Rightarrow> int" where
  "hex_value ch =
     (if 48 \<le> ccode ch \<and> ccode ch \<le> 57 then int (ccode ch) - 48
      else if 97 \<le> ccode ch \<and> ccode ch \<le> 102 then int (ccode ch) - 97 + 10
      else if 65 \<le> ccode ch \<and> ccode ch \<le> 70 then int (ccode ch) - 65 + 10
      else - 1)"

text \<open>
  The decoding loop: what \<open>dst\<close> has passed and what \<open>src\<close> has still to read. On an error the loop
  leaves the bytes already decoded in place.
\<close>

fun decode_loop :: "string \<Rightarrow> string \<Rightarrow> si_storage_path_result_t \<times> string" where
  "decode_loop written [] = (SI_STORAGE_PATH_OK, written)"
| "decode_loop written (c # rest) =
     (if c = CHR ''%'' then
        (case rest of
           a # b # rest' \<Rightarrow>
             let hi = hex_value a; lo = hex_value b in
             if hi < 0 \<or> lo < 0 then (SI_STORAGE_PATH_INVALID_ARGUMENT, written)
             else let decoded = push_bit 4 hi OR lo in
             if decoded = 0 then (SI_STORAGE_PATH_INVALID_ARGUMENT, written)
             else decode_loop (written @ [char_of decoded]) rest'
         | _ \<Rightarrow> (SI_STORAGE_PATH_INVALID_ARGUMENT, written))
      else decode_loop (written @ [if c = CHR ''+'' then CHR '' '' else c]) rest)"

definition si_storage_url_decode_inplace ::
    "string option \<Rightarrow> si_storage_path_result_t \<times> string option" where
  "si_storage_url_decode_inplace buf =
     (case buf of None \<Rightarrow> (SI_STORAGE_PATH_INVALID_ARGUMENT, None) | Some s \<Rightarrow>
      (case decode_loop [] s of (result, written) \<Rightarrow>
         if result = SI_STORAGE_PATH_OK then (result, Some written)
         else (result, Some (written @ drop (length written) s))))"

section \<open>Canonical relative paths\<close>

definition equals_ci :: "string option \<Rightarrow> string option \<Rightarrow> bool" where
  "equals_ci a b = (case (a, b) of (Some s, Some t) \<Rightarrow> strcaseeq s t | _ \<Rightarrow> False)"

definition known_top_dirs :: "string list" where
  "known_top_dirs = [''AGENT'', ''ASSETS'', ''EXPORTS'', ''LOGS'', ''MCP'', ''OTA'', ''SNAPSHOTS'']"

definition canonical_top_dir :: "string \<Rightarrow> string" where
  "canonical_top_dir segment =
     (case find (\<lambda>k. equals_ci (Some segment) (Some k)) known_top_dirs of
        Some k \<Rightarrow> k | None \<Rightarrow> segment)"

definition append_segment :: "string \<Rightarrow> nat \<Rightarrow> string \<Rightarrow> si_storage_path_result_t \<times> string" where
  "append_segment out out_size segment =
     (let current = length out; separator_len = (if current > 0 then 1 else 0) in
      if current + separator_len + length segment \<ge> out_size then (SI_STORAGE_PATH_TOO_LONG, out)
      else (SI_STORAGE_PATH_OK, out @ (if separator_len \<noteq> 0 then ''/'' else '''') @ segment))"

text \<open>
  The loop over the segments. A segment found after skipping slashes is never empty, so the
  code's test for that never fires.
\<close>

function canonicalize_loop :: "string \<Rightarrow> string \<Rightarrow> nat \<Rightarrow> nat \<Rightarrow> si_storage_path_result_t \<times> string" where
  "canonicalize_loop cursor out out_size index =
     (let start = dropWhile (\<lambda>c. c = CHR ''/'') cursor in
      if start = [] then (SI_STORAGE_PATH_OK, out)
      else
        let segment = takeWhile (\<lambda>c. c \<noteq> CHR ''/'') start;
            rest = dropWhile (\<lambda>c. c \<noteq> CHR ''/'') start
        in if length segment \<ge> SI_STORAGE_PATH_SEGMENT_MAX then (SI_STORAGE_PATH_TOO_LONG, out)
           else
             (case append_segment out out_size
                     (if index = 0 then canonical_top_dir segment else segment) of
                (ret, out') \<Rightarrow>
                  if ret \<noteq> SI_STORAGE_PATH_OK then (ret, out')
                  else canonicalize_loop rest out' out_size (index + 1)))"
  by pat_completeness auto

lemma canonicalize_rest_shorter:
  assumes "dropWhile (\<lambda>c. c = CHR ''/'') cursor \<noteq> []"
  shows "length (dropWhile (\<lambda>c. c \<noteq> CHR ''/'') (dropWhile (\<lambda>c. c = CHR ''/'') cursor)) < length cursor"
proof -
  let ?s = "dropWhile (\<lambda>c. c = CHR ''/'') cursor"
  obtain c cs where s: "?s = c # cs" using assms by (cases ?s) auto
  have "c \<noteq> CHR ''/''" using s hd_dropWhile [of "\<lambda>c. c = CHR ''/''" cursor] by simp
  then have "length (dropWhile (\<lambda>c. c \<noteq> CHR ''/'') ?s) \<le> length cs"
    using s length_dropWhile_le by simp
  also have "length cs < length ?s" using s by simp
  also have "length ?s \<le> length cursor" by (rule length_dropWhile_le)
  finally show ?thesis .
qed

termination canonicalize_loop
  by (relation "measure (\<lambda>(cursor, _). length cursor)") (auto simp: canonicalize_rest_shorter)

declare canonicalize_loop.simps [simp del]

definition canonicalize_relative_path ::
    "string option \<Rightarrow> string option \<Rightarrow> nat \<Rightarrow> si_storage_path_result_t \<times> string option" where
  "canonicalize_relative_path input out out_size =
     (case out of None \<Rightarrow> (SI_STORAGE_PATH_INVALID_ARGUMENT, out) | Some _ \<Rightarrow>
      if out_size = 0 then (SI_STORAGE_PATH_INVALID_ARGUMENT, out)
      else (case c_or_empty input of
              [] \<Rightarrow> (SI_STORAGE_PATH_OK, Some [])
            | s \<Rightarrow> (case canonicalize_loop s [] out_size 0 of (ret, r) \<Rightarrow> (ret, Some r))))"

section \<open>Resolution\<close>

text \<open>The character loop; the first argument is \<open>segment_start\<close> of the next character.\<close>

fun scan_invalid :: "bool \<Rightarrow> string \<Rightarrow> bool" where
  "scan_invalid segment_start [] = False"
| "scan_invalid segment_start (p # rest) =
     (if ccode p < 0x20 \<or> ccode p = 0x7F then True
      else
        let segment_end = (rest = [] \<or> hd rest = CHR ''/'') in
        if (segment_start \<and> p = CHR '' '') \<or> (segment_end \<and> (p = CHR ''.'' \<or> p = CHR '' ''))
        then True
        else scan_invalid (p = CHR ''/'') rest)"

text \<open>The leading slashes, the mount point and the volume's own directory are dropped.\<close>

definition strip_prefixes :: "string \<Rightarrow> string" where
  "strip_prefixes input =
     (let path = dropWhile (\<lambda>c. c = CHR ''/'') input;
          path = (if prefix ''sdcard/'' path then drop 7 path else path)
      in if prefix ''EA'' path \<and> (drop 2 path = [] \<or> hd (drop 2 path) = CHR ''/'')
         then (let path = drop 2 path in
               if path \<noteq> [] \<and> hd path = CHR ''/'' then tl path else path)
         else path)"

definition si_storage_resolve_path ::
    "string option \<Rightarrow> string option \<Rightarrow> string option \<Rightarrow> nat \<Rightarrow> string option \<Rightarrow> nat \<Rightarrow>
     si_storage_path_result_t \<times> string option \<times> string option" where
  "si_storage_resolve_path input storage_root relative_path relative_path_size absolute_path
     absolute_path_size =
     (case (storage_root, relative_path, absolute_path) of
        (Some root, Some _, Some _) \<Rightarrow>
          if relative_path_size = 0 \<or> absolute_path_size = 0
          then (SI_STORAGE_PATH_INVALID_ARGUMENT, relative_path, absolute_path)
          else
            let path = strip_prefixes (c_or_empty input) in
            if length path \<ge> relative_path_size \<or> CHR 0x5C \<in> set path \<or> CHR '':'' \<in> set path \<or>
               sublist ''..'' path
            then (SI_STORAGE_PATH_INVALID_ARGUMENT, Some [], Some [])
            else if scan_invalid True path
            then (SI_STORAGE_PATH_INVALID_ARGUMENT, Some [], Some [])
            else
              (case canonicalize_relative_path (Some path) (Some []) relative_path_size of
                 (ret, relative) \<Rightarrow>
                   if ret \<noteq> SI_STORAGE_PATH_OK then (ret, relative, Some [])
                   else
                     let written = (if c_or_empty relative \<noteq> []
                           then root @ ''/'' @ c_or_empty relative else root)
                     in if length written \<ge> absolute_path_size
                        then (SI_STORAGE_PATH_TOO_LONG, relative, Some [])
                        else (SI_STORAGE_PATH_OK, relative, Some written))
      | _ \<Rightarrow> (SI_STORAGE_PATH_INVALID_ARGUMENT, relative_path, absolute_path))"

definition si_storage_path_is_file_target :: "string option \<Rightarrow> bool" where
  "si_storage_path_is_file_target relative_path =
     (case relative_path of None \<Rightarrow> False | Some s \<Rightarrow> s \<noteq> [])"

definition si_storage_path_is_internal :: "string option \<Rightarrow> bool" where
  "si_storage_path_is_internal relative_path =
     (case relative_path of None \<Rightarrow> False
      | Some s \<Rightarrow> prefix ''AGENT'' s \<and> (drop 5 s = [] \<or> hd (drop 5 s) = CHR ''/''))"

section \<open>Segments\<close>

text \<open>The specification side: the non-empty segments of a path, and segments joined by slashes.\<close>

fun segments :: "string \<Rightarrow> string \<Rightarrow> string list" where
  "segments seg [] = (if seg = [] then [] else [seg])"
| "segments seg (c # cs) =
     (if c = CHR ''/'' then (if seg = [] then segments [] cs else seg # segments [] cs)
      else segments (seg @ [c]) cs)"

fun join_slash :: "string list \<Rightarrow> string" where
  "join_slash [] = []"
| "join_slash [s] = s"
| "join_slash (s # ss) = s @ ''/'' @ join_slash ss"

text \<open>A segment that can only name an entry of the directory it stands in.\<close>

definition segment_ok :: "string \<Rightarrow> bool" where
  "segment_ok s \<longleftrightarrow> s \<noteq> [] \<and> length s < SI_STORAGE_PATH_SEGMENT_MAX \<and>
     CHR ''/'' \<notin> set s \<and> CHR 0x5C \<notin> set s \<and> CHR '':'' \<notin> set s \<and>
     (\<forall>c\<in>set s. 0x20 \<le> ccode c \<and> ccode c \<noteq> 0x7F) \<and>
     hd s \<noteq> CHR '' '' \<and> last s \<noteq> CHR '' '' \<and> last s \<noteq> CHR ''.'' \<and> \<not> sublist ''..'' s"

definition canonical_segments :: "string list \<Rightarrow> string list" where
  "canonical_segments ss = (case ss of [] \<Rightarrow> [] | s # rest \<Rightarrow> canonical_top_dir s # rest)"

lemma segments_dropWhile: "segments [] (dropWhile (\<lambda>c. c = CHR ''/'') s) = segments [] s"
  by (induction s) auto

lemma segments_takeWhile:
  assumes "seg \<noteq> [] \<or> s \<noteq> [] \<and> hd s \<noteq> CHR ''/''"
  shows "segments seg s = (seg @ takeWhile (\<lambda>c. c \<noteq> CHR ''/'') s) # segments [] (dropWhile (\<lambda>c. c \<noteq> CHR ''/'') s)"
  using assms by (induction s arbitrary: seg) auto

lemma segments_sublist: "x \<in> set (segments seg s) \<Longrightarrow> sublist x (seg @ s)"
proof (induction s arbitrary: seg)
  case (Cons c cs)
  show ?case
  proof (cases "c = CHR ''/''")
    case True
    then consider "x = seg" | "x \<in> set (segments [] cs)" using Cons.prems by (auto split: if_splits)
    then show ?thesis
    proof cases
      case 2
      then obtain a b where "cs = a @ x @ b" using Cons.IH [of "[]"] by (auto simp: sublist_def)
      then have "seg @ c # cs = (seg @ c # a) @ x @ b" by simp
      then show ?thesis by (simp only: sublist_appendI)
    qed simp
  next
    case False
    then show ?thesis using Cons.IH [of "seg @ [c]"] Cons.prems by simp
  qed
qed (auto split: if_splits)

lemma segments_no_slash: "CHR ''/'' \<notin> set seg \<Longrightarrow> x \<in> set (segments seg s) \<Longrightarrow> CHR ''/'' \<notin> set x \<and> x \<noteq> []"
proof (induction s arbitrary: seg)
  case (Cons c cs)
  show ?case
    using Cons.IH [of "[]"] Cons.IH [of "seg @ [c]"] Cons.prems by (auto split: if_splits)
qed (auto split: if_splits)

text \<open>What the character loop guarantees of every segment.\<close>

definition chars_ok :: "string \<Rightarrow> bool" where
  "chars_ok s \<longleftrightarrow> (\<forall>c\<in>set s. 0x20 \<le> ccode c \<and> ccode c \<noteq> 0x7F) \<and> (s \<noteq> [] \<longrightarrow> hd s \<noteq> CHR '' '')"

definition end_ok :: "string \<Rightarrow> bool" where
  "end_ok s \<longleftrightarrow> s \<noteq> [] \<longrightarrow> last s \<noteq> CHR '' '' \<and> last s \<noteq> CHR ''.''"

lemma scan_segments:
  assumes "\<not> scan_invalid (seg = []) s" "chars_ok seg" "s = [] \<or> hd s = CHR ''/'' \<Longrightarrow> end_ok seg"
    and "x \<in> set (segments seg s)"
  shows "chars_ok x \<and> end_ok x"
  using assms
proof (induction s arbitrary: seg)
  case (Cons c cs)
  show ?case
  proof (cases "c = CHR ''/''")
    case True
    have "chars_ok []" "end_ok []" by (simp_all add: chars_ok_def end_ok_def)
    moreover have "\<not> scan_invalid True cs" using Cons.prems(1) True by (auto simp: Let_def split: if_splits)
    ultimately show ?thesis
      using Cons.IH [of "[]"] Cons.prems True by (auto split: if_splits)
  next
    case False
    have "\<not> scan_invalid False cs" using Cons.prems(1) False by (auto simp: Let_def split: if_splits)
    moreover have "chars_ok (seg @ [c])"
      using Cons.prems(1,2) by (auto simp: chars_ok_def Let_def hd_append split: if_splits)
    moreover have "end_ok (seg @ [c])" if "cs = [] \<or> hd cs = CHR ''/''"
      using Cons.prems(1) that by (auto simp: end_ok_def Let_def split: if_splits)
    ultimately show ?thesis using Cons.IH [of "seg @ [c]"] Cons.prems(4) False by simp
  qed
qed (auto split: if_splits)

section \<open>The canonical form\<close>

lemma canonical_top_dir_cases:
  "canonical_top_dir s \<in> set known_top_dirs \<and> strcaseeq s (canonical_top_dir s) \<or> canonical_top_dir s = s"
  by (auto simp: canonical_top_dir_def equals_ci_def find_Some_iff split: option.split)

lemma canonical_top_dir_AGENT: "canonical_top_dir s = ''AGENT'' \<longleftrightarrow> strcaseeq s ''AGENT''"
  by (auto simp: canonical_top_dir_def equals_ci_def known_top_dirs_def strcaseeq_def tolower_def isupper_def)

lemma join_slash_append: "join_slash (ss @ [x]) = join_slash ss @ (if ss = [] then '''' else ''/'') @ x"
  by (induction ss rule: join_slash.induct) auto

lemma join_slash_empty: "[] \<notin> set ss \<Longrightarrow> join_slash ss = [] \<longleftrightarrow> ss = []"
  by (induction ss rule: join_slash.induct) auto

lemma append_segment_OK:
  assumes "append_segment (join_slash ss) n x = (SI_STORAGE_PATH_OK, out)" "[] \<notin> set ss"
  shows "out = join_slash (ss @ [x]) \<and> length out < n"
  using assms join_slash_empty [of ss]
  by (auto simp: append_segment_def Let_def join_slash_append split: if_splits)

lemma canonicalize_loop_OK:
  assumes "canonicalize_loop s (join_slash ss) n index = (SI_STORAGE_PATH_OK, out)"
    and "[] \<notin> set ss" "index = length ss" "length (join_slash ss) < n"
  shows "out = join_slash (ss @ (if index = 0 then canonical_segments (segments [] s) else segments [] s)) \<and>
    length out < n \<and> (\<forall>x\<in>set (segments [] s). length x < SI_STORAGE_PATH_SEGMENT_MAX)"
  using assms
proof (induction "length s" arbitrary: s ss index rule: less_induct)
  case less
  define start where "start = dropWhile (\<lambda>c. c = CHR ''/'') s"
  have segs: "segments [] s = segments [] start" by (simp add: start_def segments_dropWhile)
  show ?case
  proof (cases "start = []")
    case True
    then show ?thesis
      using less.prems segs
      by (simp add: canonicalize_loop.simps [of s] start_def [symmetric] canonical_segments_def) auto
  next
    case False
    define seg where "seg = takeWhile (\<lambda>c. c \<noteq> CHR ''/'') start"
    define rest where "rest = dropWhile (\<lambda>c. c \<noteq> CHR ''/'') start"
    define x where "x = (if index = 0 then canonical_top_dir seg else seg)"
    have hd: "hd start \<noteq> CHR ''/''" using False hd_dropWhile [of "\<lambda>c. c = CHR ''/''" s] by (simp add: start_def)
    have segs': "segments [] s = seg # segments [] rest"
      using segs segments_takeWhile [of "[]" start] False hd by (simp add: seg_def rest_def)
    have "seg \<noteq> []" using False hd by (cases start) (auto simp: seg_def)
    then have x: "x \<noteq> []" using canonical_top_dir_cases [of seg] by (auto simp: x_def known_top_dirs_def)
    obtain out1 where a: "append_segment (join_slash ss) n x = (SI_STORAGE_PATH_OK, out1)"
      and loop: "canonicalize_loop rest out1 n (index + 1) = (SI_STORAGE_PATH_OK, out)"
      and short: "length seg < SI_STORAGE_PATH_SEGMENT_MAX"
      using less.prems(1) False
      by (auto simp: canonicalize_loop.simps [of s] Let_def start_def [symmetric] seg_def [symmetric]
            rest_def [symmetric] x_def [symmetric] split: if_splits prod.splits)
    have out1: "out1 = join_slash (ss @ [x])" "length out1 < n"
      using append_segment_OK [OF a less.prems(2)] by auto
    have "length rest < length s"
      unfolding rest_def start_def using False start_def canonicalize_rest_shorter by blast
    from less.hyps [OF this, of "ss @ [x]" "index + 1"] loop out1 x less.prems(2,3)
    show ?thesis using short segs' less.prems(3)
      by (auto simp: canonical_segments_def x_def)
  qed
qed

section \<open>Properties\<close>

lemma sublist_dots_known: "k \<in> set known_top_dirs \<Longrightarrow> segment_ok k"
  unfolding known_top_dirs_def segment_ok_def SI_STORAGE_PATH_SEGMENT_MAX_def
  by (simp, elim disjE) (simp_all, code_simp+)

lemma path_segments_ok:
  assumes "\<not> scan_invalid True path" "CHR 0x5C \<notin> set path" "CHR '':'' \<notin> set path" "\<not> sublist ''..'' path"
    and "\<forall>x\<in>set (segments [] path). length x < SI_STORAGE_PATH_SEGMENT_MAX" "x \<in> set (segments [] path)"
  shows "segment_ok x"
proof -
  have "chars_ok x \<and> end_ok x"
    using scan_segments [of "[]" path x] assms(1,6) by (simp add: chars_ok_def end_ok_def)
  moreover have "CHR ''/'' \<notin> set x \<and> x \<noteq> []" using segments_no_slash [of "[]" x path] assms(6) by simp
  moreover have sub: "sublist x path" using segments_sublist [OF assms(6)] by simp
  then have "set x \<subseteq> set path" by (rule set_mono_sublist)
  moreover have "\<not> sublist ''..'' x" using sub assms(4) sublist_order.order_trans by blast
  ultimately show ?thesis using assms(2,3,5,6) by (auto simp: segment_ok_def chars_ok_def end_ok_def)
qed

lemma canonical_segments_ok:
  "\<forall>x\<in>set ss. segment_ok x \<Longrightarrow> \<forall>x\<in>set (canonical_segments ss). segment_ok x"
  using canonical_top_dir_cases [of "hd ss"] sublist_dots_known
  by (cases ss) (auto simp: canonical_segments_def)

lemma resolve_path_OK:
  assumes "si_storage_resolve_path input (Some root) (Some rel0) rs (Some abs0) as
      = (SI_STORAGE_PATH_OK, rel, ab)"
  defines "ss \<equiv> canonical_segments (segments [] (strip_prefixes (c_or_empty input)))"
  shows "rel = Some (join_slash ss)" "length (join_slash ss) < rs" "\<forall>x\<in>set ss. segment_ok x"
    "ab = Some (if ss = [] then root else root @ ''/'' @ join_slash ss)" "length (the ab) < as"
proof -
  define path where "path = strip_prefixes (c_or_empty input)"
  have p: "length path < rs" "CHR 0x5C \<notin> set path" "CHR '':'' \<notin> set path" "\<not> sublist ''..'' path"
    "\<not> scan_invalid True path" "rs \<noteq> 0"
    using assms(1) unfolding si_storage_resolve_path_def path_def [symmetric]
    by (auto simp: Let_def split: if_splits)
  obtain r where c: "canonicalize_relative_path (Some path) (Some []) rs = (SI_STORAGE_PATH_OK, Some r)"
    and rel: "rel = Some r" and ab: "ab = Some (if r \<noteq> [] then root @ ''/'' @ r else root)"
    and len: "length (the ab) < as"
    using assms(1) p unfolding si_storage_resolve_path_def path_def [symmetric]
    by (auto simp: Let_def canonicalize_relative_path_def split: if_splits prod.splits list.splits)
  have loop: "canonicalize_loop path (join_slash []) rs 0 = (SI_STORAGE_PATH_OK, r)"
    using c p(6) by (cases path) (auto simp: canonicalize_relative_path_def canonicalize_loop.simps [of "[]"]
      split: if_splits prod.splits)
  have r: "r = join_slash ss" "length r < rs"
    and short: "\<forall>x\<in>set (segments [] path). length x < SI_STORAGE_PATH_SEGMENT_MAX"
    using canonicalize_loop_OK [OF loop] p(6) by (auto simp: ss_def path_def [symmetric])
  have ok: "\<forall>x\<in>set ss. segment_ok x"
    unfolding ss_def path_def [symmetric]
    by (rule canonical_segments_ok) (use path_segments_ok [OF p(5,2,3,4) short] in blast)
  then have "[] \<notin> set ss" by (auto simp: segment_ok_def)
  then have "r = [] \<longleftrightarrow> ss = []" using r join_slash_empty by simp
  then show "rel = Some (join_slash ss)" "length (join_slash ss) < rs" "\<forall>x\<in>set ss. segment_ok x"
    "ab = Some (if ss = [] then root else root @ ''/'' @ join_slash ss)" "length (the ab) < as"
    using r rel ab len ok by auto
qed

lemma internal_iff:
  "si_storage_path_is_internal (Some s) \<longleftrightarrow> (\<exists>v. s = ''AGENT'' @ v \<and> (v = [] \<or> hd v = CHR ''/''))"
  by (auto simp: si_storage_path_is_internal_def prefix_def)

lemma internal_join:
  assumes "\<forall>x\<in>set ss. segment_ok x"
  shows "si_storage_path_is_internal (Some (join_slash ss)) \<longleftrightarrow> ss \<noteq> [] \<and> hd ss = ''AGENT''"
proof (cases ss)
  case (Cons x xs)
  define t where "t = (if xs = [] then [] else CHR ''/'' # join_slash xs)"
  have j: "join_slash ss = x @ t" using Cons by (cases xs) (auto simp: t_def)
  have ns: "CHR ''/'' \<notin> set x" using assms Cons by (simp add: segment_ok_def)
  have t: "t = [] \<or> (\<exists>u. t = CHR ''/'' # u)" by (auto simp: t_def)
  have "si_storage_path_is_internal (Some (x @ t)) \<longleftrightarrow> x = ''AGENT''"
  proof
    assume "si_storage_path_is_internal (Some (x @ t))"
    then obtain v where v: "x @ t = ''AGENT'' @ v" "v = [] \<or> hd v = CHR ''/''"
      by (auto simp: internal_iff simp del: append.simps)
    have "takeWhile (\<lambda>c. c \<noteq> CHR ''/'') (x @ t) = x"
    proof -
      have "takeWhile (\<lambda>c. c \<noteq> CHR ''/'') (x @ t) = x @ takeWhile (\<lambda>c. c \<noteq> CHR ''/'') t"
        using ns by (intro takeWhile_append2) auto
      then show ?thesis using t by auto
    qed
    moreover have "takeWhile (\<lambda>c. c \<noteq> CHR ''/'') (''AGENT'' @ v) = ''AGENT''"
      using v(2) by (cases v) auto
    ultimately show "x = ''AGENT''" using v(1) by simp
  next
    assume "x = ''AGENT''"
    then show "si_storage_path_is_internal (Some (x @ t))"
      using t by (auto simp: si_storage_path_is_internal_def)
  qed
  then show ?thesis using Cons j by simp
qed (simp add: si_storage_path_is_internal_def)

text \<open>
  C30: A path that resolves stays below the storage root and within both buffers: the relative path
  is a list of segments joined by single slashes, each of them non-empty, free of slashes,
  backslashes, colons and control characters, without two dots in a row and neither ending in a dot
  or a space nor starting with a space; the absolute path is the root followed by it.
\<close>

theorem storage_resolve_confined:
  assumes "si_storage_resolve_path input (Some root) (Some rel0) rs (Some abs0) as
      = (SI_STORAGE_PATH_OK, rel, ab)"
  shows "\<exists>ss. (\<forall>s\<in>set ss. segment_ok s) \<and>
    rel = Some (join_slash ss) \<and> length (the rel) < rs \<and>
    ab = Some (if ss = [] then root else root @ ''/'' @ join_slash ss) \<and> length (the ab) < as"
  using resolve_path_OK [OF assms] by auto

definition agent_log :: string where
  "agent_log = ''//sdcard/EA/agent//Log.txt''"

lemma agent_log_resolves:
  "si_storage_resolve_path (Some agent_log) (Some ''/sd'') (Some []) 64 (Some []) 64
     = (SI_STORAGE_PATH_OK, Some ''AGENT/Log.txt'', Some ''/sd/AGENT/Log.txt'')"
  by code_simp

theorem storage_resolve_confined_witness:
  "\<exists>ss. (\<forall>s\<in>set ss. segment_ok s) \<and>
    Some ''AGENT/Log.txt'' = Some (join_slash ss) \<and> length (the (Some ''AGENT/Log.txt'')) < 64 \<and>
    Some ''/sd/AGENT/Log.txt'' = Some (if ss = [] then ''/sd'' else ''/sd'' @ ''/'' @ join_slash ss) \<and>
    length (the (Some ''/sd/AGENT/Log.txt'')) < 64"
  by (rule storage_resolve_confined [OF agent_log_resolves])

text \<open>
  The guard on the agent's own directory can not be passed by spelling. After a path has resolved,
  it counts as internal exactly when its first segment is AGENT in any case, which is what the
  case-insensitive file system would open.
\<close>

theorem storage_internal_any_case:
  assumes "si_storage_resolve_path input (Some root) (Some rel0) rs (Some abs0) as
      = (SI_STORAGE_PATH_OK, rel, ab)"
  shows "si_storage_path_is_internal rel \<longleftrightarrow>
    (case segments [] (strip_prefixes (c_or_empty input)) of [] \<Rightarrow> False
     | s # _ \<Rightarrow> strcaseeq s ''AGENT'')"
  using resolve_path_OK(1,3) [OF assms] internal_join
  by (auto simp: canonical_segments_def canonical_top_dir_AGENT split: list.splits)

theorem storage_internal_any_case_witness:
  "si_storage_path_is_internal (Some ''AGENT/Log.txt'') \<longleftrightarrow>
    (case segments [] (strip_prefixes (c_or_empty (Some agent_log))) of [] \<Rightarrow> False
     | s # _ \<Rightarrow> strcaseeq s ''AGENT'')"
  by (rule storage_internal_any_case [OF agent_log_resolves])

section \<open>Percent decoding inverts percent encoding\<close>

definition hex_digit :: "nat \<Rightarrow> char" where
  "hex_digit n = ''0123456789ABCDEF'' ! n"

definition percent_encode :: "string \<Rightarrow> string" where
  "percent_encode s = concat (map (\<lambda>c. if isalnum c then [c]
     else [CHR ''%'', hex_digit (ccode c div 16), hex_digit (ccode c mod 16)]) s)"

lemma hex_value_digit:
  "n < 16 \<Longrightarrow> hex_value (hex_digit n) = int n"
proof -
  have "list_all (\<lambda>n. hex_value (hex_digit n) = int n) [0..<16]" by code_simp
  then show "n < 16 \<Longrightarrow> hex_value (hex_digit n) = int n" by (simp add: list_all_iff)
qed

lemma nibbles_or: "b < 16 \<Longrightarrow> push_bit 4 (int a) OR int b = int (16 * a + b)"
proof -
  assume "b < 16"
  then have "int b = take_bit 4 (int b)" by (simp add: take_bit_int_eq_self)
  then have "push_bit 4 (int a) AND int b = push_bit 4 (int a) AND take_bit 4 (int b)" by simp
  also have "\<dots> = 0" by (rule bit_eqI) (auto simp: bit_simps)
  finally have "push_bit 4 (int a) AND int b = 0" .
  then have "push_bit 4 (int a) OR int b = push_bit 4 (int a) + int b"
    by (rule disjunctive_add_eq_or [symmetric])
  then show ?thesis by (simp add: push_bit_eq_mult)
qed

lemma ccode_less: "ccode c < 256"
  using mod_less_divisor [of 256 "ccode c"] by (simp only: of_char_mod_256)

lemma hex_value_less: "0 \<le> hex_value c \<Longrightarrow> \<exists>a. a < 16 \<and> hex_value c = int a"
  by (rule exI [of _ "nat (hex_value c)"]) (auto simp: hex_value_def split: if_splits)

lemma decoded_not_nul:
  assumes "0 \<le> hex_value a" "0 \<le> hex_value b" "push_bit 4 (hex_value a) OR hex_value b \<noteq> 0"
  shows "ccode (char_of (push_bit 4 (hex_value a) OR hex_value b)) \<noteq> 0"
proof -
  obtain m n where mn: "m < 16" "n < 16" "hex_value a = int m" "hex_value b = int n"
    using hex_value_less assms(1,2) by blast
  then have d: "push_bit 4 (hex_value a) OR hex_value b = int (16 * m + n)" by (simp add: nibbles_or)
  have "ccode (char_of (int (16 * m + n))) = 16 * m + n"
    using mn(1,2) by (simp only: char_of_nat of_char_of) simp
  moreover have "16 * m + n \<noteq> 0" using assms(3) unfolding d by (simp only: of_nat_eq_0_iff not_False_eq_True)
  ultimately show ?thesis unfolding d by (simp only: not_False_eq_True)
qed

lemma decode_loop_no_nul:
  assumes "decode_loop w s = (r, w')" "\<forall>c\<in>set w. ccode c \<noteq> 0" "\<forall>c\<in>set s. ccode c \<noteq> 0"
  shows "\<forall>c\<in>set w'. ccode c \<noteq> 0"
  using assms
proof (induction w s rule: decode_loop.induct)
  case (2 w c rest)
  show ?case
  proof (cases "c = CHR ''%''")
    case False
    let ?c = "if c = CHR ''+'' then CHR '' '' else c"
    have "decode_loop (w @ [?c]) rest = (r, w')" using "2.prems"(1) False by simp
    moreover have "\<forall>x\<in>set (w @ [?c]). ccode x \<noteq> 0" "\<forall>x\<in>set rest. ccode x \<noteq> 0"
      using "2.prems"(2,3) by auto
    ultimately show ?thesis by (rule "2.IH"(2) [OF False])
  next
    case True
    show ?thesis
    proof (cases "\<exists>a b rest'. rest = a # b # rest'")
      case False
      then show ?thesis using "2.prems" True by (cases rest; cases "tl rest") auto
    next
      case enc: True
      then obtain a b rest' where rest: "rest = a # b # rest'" by blast
      let ?d = "push_bit 4 (hex_value a) OR hex_value b"
      show ?thesis
      proof (cases "hex_value a < 0 \<or> hex_value b < 0 \<or> ?d = 0")
        case False
        then have "ccode (char_of ?d) \<noteq> 0" by (intro decoded_not_nul) auto
        moreover have "decode_loop (w @ [char_of ?d]) rest' = (r, w')"
          using "2.prems"(1) True False rest by (simp add: Let_def)
        ultimately show ?thesis
          using "2.IH"(1) [OF True rest refl refl refl _ refl] False "2.prems" rest by simp
      qed (use "2.prems" True rest in \<open>auto simp: Let_def split: if_splits\<close>)
    qed
  qed
qed simp

lemma decode_loop_char:
  assumes "ccode c \<noteq> 0"
  shows "decode_loop w ((if isalnum c then [c]
     else [CHR ''%'', hex_digit (ccode c div 16), hex_digit (ccode c mod 16)]) @ rest) = decode_loop (w @ [c]) rest"
proof (cases "isalnum c")
  case True
  then have "c \<noteq> CHR ''%''" "c \<noteq> CHR ''+''" by (auto simp: c_text)
  then show ?thesis using True by simp
next
  case False
  have "ccode c < 256" by (rule ccode_less)
  moreover have "ccode c mod 16 < 16" by simp
  ultimately have h: "hex_value (hex_digit (ccode c div 16)) = int (ccode c div 16)"
    "hex_value (hex_digit (ccode c mod 16)) = int (ccode c mod 16)"
    by (auto intro!: hex_value_digit simp: less_mult_imp_div_less)
  have "push_bit 4 (int (ccode c div 16)) OR int (ccode c mod 16) = int (ccode c)"
    using nibbles_or [of "ccode c mod 16" "ccode c div 16"] by simp
  moreover have "char_of (int (ccode c)) = c" by (simp only: char_of_nat char_of_char)
  ultimately show ?thesis
    using False assms h by (simp add: Let_def)
qed

lemma decode_loop_length: "decode_loop w s = (r, v) \<Longrightarrow> length v \<le> length w + length s"
  by (induction w s rule: decode_loop.induct) (fastforce simp: Let_def split: if_splits list.splits)+

text \<open>
  Percent decoding inverts percent encoding on every C string, and whatever it is given, it
  leaves a buffer without an embedded NUL and no longer than the input, on the error paths as well.
\<close>

theorem storage_url_decode_inverts:
  "((\<forall>c\<in>set s. ccode c \<noteq> 0) \<longrightarrow>
      si_storage_url_decode_inplace (Some (percent_encode s)) = (SI_STORAGE_PATH_OK, Some s)) \<and>
   ((\<forall>c\<in>set v. ccode c \<noteq> 0) \<longrightarrow>
      (case si_storage_url_decode_inplace (Some v) of (_, w) \<Rightarrow>
         length (the w) \<le> length v \<and> (\<forall>c\<in>set (the w). ccode c \<noteq> 0)))"
proof (intro conjI impI)
  have "decode_loop w (percent_encode s) = (SI_STORAGE_PATH_OK, w @ s)" if "\<forall>c\<in>set s. ccode c \<noteq> 0" for w
    using that
  proof (induction s arbitrary: w)
    case (Cons c cs)
    then show ?case
      using decode_loop_char [of c w "percent_encode cs"] by (simp add: percent_encode_def)
  qed (simp add: percent_encode_def)
  then show "si_storage_url_decode_inplace (Some (percent_encode s)) = (SI_STORAGE_PATH_OK, Some s)"
    if "\<forall>c\<in>set s. ccode c \<noteq> 0" using that by (simp add: si_storage_url_decode_inplace_def)
next
  assume v: "\<forall>c\<in>set v. ccode c \<noteq> 0"
  obtain r w where d: "decode_loop [] v = (r, w)" by fastforce
  have w: "\<forall>c\<in>set w. ccode c \<noteq> 0" using decode_loop_no_nul [OF d] v by simp
  have "\<forall>c\<in>set (drop (length w) v). ccode c \<noteq> 0" using v in_set_dropD by fast
  then show "case si_storage_url_decode_inplace (Some v) of (_, w) \<Rightarrow>
      length (the w) \<le> length v \<and> (\<forall>c\<in>set (the w). ccode c \<noteq> 0)"
    using w decode_loop_length [OF d] by (simp add: si_storage_url_decode_inplace_def d ball_Un)
qed

theorem storage_url_decode_inverts_witness:
  "si_storage_url_decode_inplace (Some (percent_encode ''a b/%'')) = (SI_STORAGE_PATH_OK, Some ''a b/%'') \<and>
   (case si_storage_url_decode_inplace (Some ''x%2Fy%zz'') of (_, w) \<Rightarrow>
      length (the w) \<le> length ''x%2Fy%zz'' \<and> (\<forall>c\<in>set (the w). ccode c \<noteq> 0))"
  using storage_url_decode_inverts [of "''a b/%''" "''x%2Fy%zz''"] by simp

end
