(* ===== verification/Network_Config.thy ===== *)
theory Network_Config
  imports Prelude
begin

text \<open>
  The product identity derived from the MAC address, \<^verbatim>\<open>core/product_identity.c\<close>, and the network
  configuration, \<^verbatim>\<open>core/network_config.c\<close>: the IPv4 parser and the validation of a configuration
  before it is applied.
\<close>

section \<open>Product identity\<close>

definition SI_PRODUCT_DEVICE_ID_MAX_LEN :: nat where "SI_PRODUCT_DEVICE_ID_MAX_LEN = 31"
definition SI_PRODUCT_HOSTNAME_MAX_LEN :: nat where "SI_PRODUCT_HOSTNAME_MAX_LEN = 63"
definition SI_PRODUCT_SUFFIX_LEN :: nat where "SI_PRODUCT_SUFFIX_LEN = 6"

record si_product_identity_t =
  pi_device_id :: string
  pi_hostname :: string
  pi_suffix :: string

definition label_valid :: "string option \<Rightarrow> nat \<Rightarrow> bool" where
  "label_valid v max_len =
     (case v of None \<Rightarrow> False | Some s \<Rightarrow>
      if length s = 0 \<or> length s > max_len \<or> s ! 0 = CHR ''-'' \<or> s ! (length s - 1) = CHR ''-''
      then False
      else list_all (\<lambda>ch. islower ch \<or> isdigit ch \<or> ch = CHR ''-'') s)"

definition si_product_hostname_valid :: "string option \<Rightarrow> bool" where
  "si_product_hostname_valid hostname = label_valid hostname SI_PRODUCT_HOSTNAME_MAX_LEN"

definition si_product_device_id_valid :: "string option \<Rightarrow> bool" where
  "si_product_device_id_valid device_id = label_valid device_id SI_PRODUCT_DEVICE_ID_MAX_LEN"

text \<open>\<open>%02x\<close> of a byte.\<close>

definition hex_lower_digit :: "nat \<Rightarrow> char" where
  "hex_lower_digit n = (if n < 10 then char_of (48 + n) else char_of (87 + n))"

definition print_02x :: "u8 \<Rightarrow> string" where
  "print_02x b = [hex_lower_digit (unat b div 16), hex_lower_digit (unat b mod 16)]"

definition zero_identity :: si_product_identity_t where
  "zero_identity = \<lparr>pi_device_id = [], pi_hostname = [], pi_suffix = []\<rparr>"

definition si_product_identity_default_from_mac ::
    "u8 list option \<Rightarrow> si_product_identity_t option \<Rightarrow> si_product_identity_t option" where
  "si_product_identity_default_from_mac mac out =
     (case out of None \<Rightarrow> None | Some _ \<Rightarrow>
      (case mac of None \<Rightarrow> Some zero_identity
       | Some m \<Rightarrow>
           let suffix = c_strlcpy (SI_PRODUCT_SUFFIX_LEN + 1)
                 (print_02x (m ! 3) @ print_02x (m ! 4) @ print_02x (m ! 5)) in
           Some \<lparr>pi_device_id = c_strlcpy (SI_PRODUCT_DEVICE_ID_MAX_LEN + 1) (''ea-p4-'' @ suffix),
                 pi_hostname = c_strlcpy (SI_PRODUCT_HOSTNAME_MAX_LEN + 1) (''exoanchor-'' @ suffix),
                 pi_suffix = suffix\<rparr>))"

section \<open>Network configuration\<close>

definition SI_NETWORK_CONFIG_SCHEMA_VERSION :: u32 where "SI_NETWORK_CONFIG_SCHEMA_VERSION = 1"

datatype si_network_mode_t =
    SI_NETWORK_MODE_DHCP
  | SI_NETWORK_MODE_STATIC
  | SI_NETWORK_MODE_OTHER u32

record si_network_config_t =
  nc_schema_version :: u32
  nc_generation :: u32
  nc_mode :: si_network_mode_t
  nc_autoip_fallback :: bool
  nc_hostname :: string
  nc_address :: string
  nc_netmask :: string
  nc_gateway :: string
  nc_dns_primary :: string
  nc_dns_secondary :: string

definition set_error :: "string option \<Rightarrow> nat \<Rightarrow> string \<Rightarrow> string option" where
  "set_error error error_size text =
     (case error of None \<Rightarrow> None
      | Some e \<Rightarrow> if error_size = 0 then Some e else Some (c_strlcpy error_size text))"

text \<open>The inner loop reads one decimal number; None is a return of false.\<close>

fun digit_loop :: "u32 \<Rightarrow> nat \<Rightarrow> string \<Rightarrow> (u32 \<times> string) option" where
  "digit_loop v digits [] = Some (v, [])"
| "digit_loop v digits (c # cursor) =
     (if isdigit c then
        let v' = v * 10 + of_nat (ccode c - 48) in
        if digits + 1 > 3 \<or> v' > 255 then None else digit_loop v' (digits + 1) cursor
      else Some (v, c # cursor))"

text \<open>The outer loop, with the parts read so far; four parts end the string.\<close>

function part_loop :: "u32 list \<Rightarrow> string \<Rightarrow> u32 list option" where
  "part_loop parts cursor =
     (if length parts \<ge> 4 then Some parts
      else if cursor = [] \<or> \<not> isdigit (hd cursor) then None
      else
        (case digit_loop 0 0 cursor of None \<Rightarrow> None
         | Some (v, cursor') \<Rightarrow>
             if length parts < 3
             then (if cursor' = [] \<or> hd cursor' \<noteq> CHR ''.'' then None
                   else part_loop (parts @ [v]) (tl cursor'))
             else if cursor' \<noteq> [] then None
             else part_loop (parts @ [v]) cursor'))"
  by pat_completeness auto
termination
  by (relation "measure (\<lambda>(parts, _). 4 - length parts)") auto

declare part_loop.simps [simp del]

definition ipv4_of_parts :: "u32 list \<Rightarrow> u32" where
  "ipv4_of_parts parts = push_bit 24 (parts ! 0) OR push_bit 16 (parts ! 1) OR
     push_bit 8 (parts ! 2) OR parts ! 3"

definition si_network_ipv4_parse :: "string option \<Rightarrow> u32 option \<Rightarrow> bool \<times> u32 option" where
  "si_network_ipv4_parse text host_order_out =
     (case text of None \<Rightarrow> (False, host_order_out) | Some s \<Rightarrow>
      if s = [] then (False, host_order_out)
      else (case part_loop [] s of
              None \<Rightarrow> (False, host_order_out)
            | Some parts \<Rightarrow> (True, map_option (\<lambda>_. ipv4_of_parts parts) host_order_out)))"

definition ipv4_unicast :: "u32 \<Rightarrow> bool \<Rightarrow> bool" where
  "ipv4_unicast address allow_autoip =
     (let first = (ucast (drop_bit 24 address) :: u8); second = (ucast (drop_bit 16 address) :: u8) in
      if first = 0 \<or> first = 127 \<or> first \<ge> 224 then False
      else if \<not> allow_autoip \<and> first = 169 \<and> second = 254 then False
      else address \<noteq> 0xffffffff)"

definition netmask_contiguous :: "u32 \<Rightarrow> bool" where
  "netmask_contiguous m =
     (if m = 0 then False else let inverse = NOT m in inverse AND (inverse + 1) = 0)"

definition si_network_config_default ::
    "si_network_config_t option \<Rightarrow> string option \<Rightarrow> si_network_config_t option" where
  "si_network_config_default out default_hostname =
     (case out of None \<Rightarrow> None | Some _ \<Rightarrow>
      Some \<lparr>nc_schema_version = SI_NETWORK_CONFIG_SCHEMA_VERSION, nc_generation = 0,
        nc_mode = SI_NETWORK_MODE_DHCP, nc_autoip_fallback = True,
        nc_hostname = (if si_product_hostname_valid default_hostname
          then c_strlcpy (SI_PRODUCT_HOSTNAME_MAX_LEN + 1) (c_or_empty default_hostname) else []),
        nc_address = [], nc_netmask = [], nc_gateway = [], nc_dns_primary = [], nc_dns_secondary = []\<rparr>)"

fun si_network_mode_name :: "si_network_mode_t \<Rightarrow> string" where
  "si_network_mode_name SI_NETWORK_MODE_DHCP = ''dhcp''"
| "si_network_mode_name SI_NETWORK_MODE_STATIC = ''static''"
| "si_network_mode_name (SI_NETWORK_MODE_OTHER _) = ''unknown''"

text \<open>The DNS loop: an empty entry is skipped.\<close>

fun dns_valid :: "string list \<Rightarrow> bool" where
  "dns_valid [] = True"
| "dns_valid (d # ds) =
     (if d = [] then dns_valid ds
      else case si_network_ipv4_parse (Some d) (Some 0) of
             (ok, dns) \<Rightarrow> if \<not> ok \<or> \<not> ipv4_unicast (the dns) True then False else dns_valid ds)"

text \<open>
  The parts of the validation for the static mode, the gateway and all of it: None is success,
  else the message.
\<close>

definition gateway_error :: "string \<Rightarrow> u32 \<Rightarrow> u32 \<Rightarrow> string option" where
  "gateway_error text address netmask =
     (if text = [] then None
      else case si_network_ipv4_parse (Some text) (Some 0) of (ok_g, gateway) \<Rightarrow>
        if \<not> ok_g \<or> \<not> ipv4_unicast (the gateway) False \<or>
           the gateway AND netmask \<noteq> address AND netmask
        then Some ''gateway must be a unicast address in the subnet''
        else let gateway_host_bits = the gateway AND NOT netmask in
        if gateway_host_bits = 0 \<or> gateway_host_bits = NOT netmask
        then Some ''gateway is network or broadcast'' else None)"

definition validate_static :: "si_network_config_t \<Rightarrow> string option" where
  "validate_static config =
     (case si_network_ipv4_parse (Some (nc_address config)) (Some 0) of (ok_a, address) \<Rightarrow>
      if \<not> ok_a \<or> \<not> ipv4_unicast (the address) False then Some ''static IPv4 address is invalid''
      else case si_network_ipv4_parse (Some (nc_netmask config)) (Some 0) of (ok_m, netmask) \<Rightarrow>
      if \<not> ok_m \<or> \<not> netmask_contiguous (the netmask) then Some ''static IPv4 netmask is invalid''
      else
        let address = the address; netmask = the netmask; host_bits = address AND NOT netmask in
        if host_bits = 0 \<or> host_bits = NOT netmask then Some ''static IPv4 is network or broadcast''
        else (case gateway_error (nc_gateway config) address netmask of Some e \<Rightarrow> Some e
              | None \<Rightarrow>
                  if \<not> dns_valid [nc_dns_primary config, nc_dns_secondary config]
                  then Some ''DNS IPv4 address is invalid'' else None))"

definition si_network_config_validate ::
    "si_network_config_t option \<Rightarrow> string option \<Rightarrow> nat \<Rightarrow> bool \<times> string option" where
  "si_network_config_validate config error error_size =
     (let error = (if error_size > 0 then map_option (\<lambda>_. []) error else error);
          fail = (\<lambda>text. (False, set_error error error_size text))
      in case config of None \<Rightarrow> fail ''config is required'' | Some c \<Rightarrow>
         if nc_schema_version c \<noteq> SI_NETWORK_CONFIG_SCHEMA_VERSION then fail ''unsupported schema version''
         else if \<not> si_product_hostname_valid (Some (nc_hostname c))
         then fail ''hostname is not a valid RFC1123 label''
         else if nc_mode c \<noteq> SI_NETWORK_MODE_DHCP \<and> nc_mode c \<noteq> SI_NETWORK_MODE_STATIC
         then fail ''network mode is invalid''
         else if nc_mode c = SI_NETWORK_MODE_DHCP then (True, error)
         else (case validate_static c of None \<Rightarrow> (True, error) | Some text \<Rightarrow> fail text))"

section \<open>The parser accepts exactly the dotted quads\<close>

definition dec_value :: "nat \<Rightarrow> string \<Rightarrow> nat" where
  "dec_value acc ds = foldl (\<lambda>n c. n * 10 + (ccode c - 48)) acc ds"

lemma dec_value_simps [simp]:
  "dec_value acc [] = acc" "dec_value acc (c # cs) = dec_value (acc * 10 + (ccode c - 48)) cs"
  by (simp_all add: dec_value_def)

lemma dec_value_ge: "acc \<le> dec_value acc ds"
proof (induction ds arbitrary: acc)
  case (Cons c cs)
  have "acc \<le> acc * 10 + (ccode c - 48)" by simp
  also have "\<dots> \<le> dec_value (acc * 10 + (ccode c - 48)) cs" by (rule Cons)
  finally show ?case by simp
qed simp

text \<open>One to three digits whose value fits a byte.\<close>

definition octet_text :: "string \<Rightarrow> bool" where
  "octet_text d \<longleftrightarrow> d \<noteq> [] \<and> length d \<le> 3 \<and> (\<forall>c\<in>set d. isdigit c) \<and> dec_value 0 d \<le> 255"

lemma digit_step:
  fixes v :: u32
  assumes "unat v \<le> 255" "isdigit c"
  shows "unat (v * 10 + of_nat (ccode c - 48)) = unat v * 10 + (ccode c - 48)"
proof -
  have "ccode c - 48 \<le> 9" using assms(2) by (auto simp: isdigit_def)
  then have small: "unat v * 10 + (ccode c - 48) < 2 ^ 32" using assms(1) by simp
  have "v * 10 + of_nat (ccode c - 48) = of_nat (unat v * 10 + (ccode c - 48))" by simp
  then show ?thesis using small by (simp only: unat_of_nat) simp
qed

lemma digit_loop_spec:
  assumes "unat v \<le> 255" "k \<le> 3"
  shows "digit_loop v k s =
    (let d = takeWhile isdigit s in
     if k + length d \<le> 3 \<and> dec_value (unat v) d \<le> 255
     then Some (of_nat (dec_value (unat v) d), dropWhile isdigit s) else None)"
  using assms
proof (induction s arbitrary: v k)
  case (Cons c s)
  show ?case
  proof (cases "isdigit c")
    case True
    define v' where "v' = v * 10 + of_nat (ccode c - 48)"
    have u: "unat v' = unat v * 10 + (ccode c - 48)"
      unfolding v'_def using digit_step Cons.prems(1) True by blast
    have le: "v' > 255 \<longleftrightarrow> unat v' > 255" by (simp add: word_less_nat_alt)
    have loop: "digit_loop v k (c # s) = (if k + 1 > 3 \<or> unat v' > 255 then None else digit_loop v' (k + 1) s)"
      using True le by (simp add: v'_def Let_def)
    show ?thesis
    proof (cases "k + 1 > 3 \<or> unat v' > 255")
      case bad: True
      then show ?thesis
        using loop True u dec_value_ge [of "unat v'" "takeWhile isdigit s"] by auto
    next
      case False
      then show ?thesis using loop Cons.IH [of v' "k + 1"] True u by (simp add: Let_def)
    qed
  qed (use Cons.prems in simp)
qed simp

lemma octet_Some:
  "s \<noteq> [] \<and> isdigit (hd s) \<and> digit_loop 0 0 s = Some (v, rest) \<longleftrightarrow>
   (\<exists>d. octet_text d \<and> s = d @ rest \<and> (rest = [] \<or> \<not> isdigit (hd rest)) \<and> v = of_nat (dec_value 0 d))"
  (is "?L \<longleftrightarrow> ?R")
proof
  assume L: ?L
  let ?d = "takeWhile isdigit s"
  have "?d \<noteq> []" using L by (cases s) auto
  moreover have "rest = dropWhile isdigit s" "v = of_nat (dec_value 0 ?d)" "length ?d \<le> 3" "dec_value 0 ?d \<le> 255"
    using L digit_loop_spec [of 0 0 s] by (auto simp: Let_def split: if_splits)
  moreover have "\<forall>c\<in>set ?d. isdigit c" by (auto dest: set_takeWhileD)
  moreover have "rest = [] \<or> \<not> isdigit (hd rest)" using calculation(2) hd_dropWhile by blast
  ultimately show ?R by (intro exI [of _ ?d]) (simp add: octet_text_def)
next
  assume ?R
  then obtain d where d: "octet_text d" "s = d @ rest" "rest = [] \<or> \<not> isdigit (hd rest)" "v = of_nat (dec_value 0 d)"
    by blast
  have "takeWhile isdigit s = d @ takeWhile isdigit rest" "dropWhile isdigit s = dropWhile isdigit rest"
    using d(1,2) by (auto simp: octet_text_def)
  moreover have "takeWhile isdigit rest = []" "dropWhile isdigit rest = rest"
    using d(3) by (cases rest; simp)+
  moreover have "s \<noteq> [] \<and> isdigit (hd s)" using d(1,2) by (cases d) (auto simp: octet_text_def)
  ultimately show ?L using d digit_loop_spec [of 0 0 s] by (simp add: Let_def octet_text_def)
qed

lemma part_loop_step:
  "length ps < 3 \<Longrightarrow> part_loop ps s = Some qs \<longleftrightarrow>
     (\<exists>d rest. octet_text d \<and> s = d @ ''.'' @ rest \<and> part_loop (ps @ [of_nat (dec_value 0 d)]) rest = Some qs)"
  (is "_ \<Longrightarrow> ?L \<longleftrightarrow> ?R")
proof
  assume ps: "length ps < 3" and ?L
  then obtain v c' where o: "s \<noteq> [] \<and> isdigit (hd s) \<and> digit_loop 0 0 s = Some (v, c')"
    and c': "c' \<noteq> []" "hd c' = CHR ''.''" "part_loop (ps @ [v]) (tl c') = Some qs"
    by (auto simp: part_loop.simps [of ps] split: if_splits option.splits prod.splits)
  from o obtain d where "octet_text d" "s = d @ c'" "v = of_nat (dec_value 0 d)"
    using octet_Some by blast
  moreover have "c' = ''.'' @ tl c'" using c' by (cases c') auto
  ultimately show ?R using c'(3) by metis
next
  assume ps: "length ps < 3" and ?R
  then obtain d rest where d: "octet_text d" "s = d @ ''.'' @ rest"
    "part_loop (ps @ [of_nat (dec_value 0 d)]) rest = Some qs" by blast
  have "s \<noteq> [] \<and> isdigit (hd s) \<and> digit_loop 0 0 s = Some (of_nat (dec_value 0 d), ''.'' @ rest)"
    by (rule octet_Some [THEN iffD2]) (use d in \<open>auto simp: isdigit_def\<close>)
  then show ?L using ps d(3) by (simp add: part_loop.simps [of ps])
qed

lemma part_loop_last:
  assumes "length ps = 3"
  shows "part_loop ps s = Some qs \<longleftrightarrow> octet_text s \<and> qs = ps @ [of_nat (dec_value 0 s)]"
proof -
  have full: "part_loop (ps @ [v]) r = Some (ps @ [v])" for v r
    using assms by (simp add: part_loop.simps)
  have "part_loop ps s = Some qs \<longleftrightarrow>
      (\<exists>v. s \<noteq> [] \<and> isdigit (hd s) \<and> digit_loop 0 0 s = Some (v, []) \<and> qs = ps @ [v])"
    using assms full by (auto simp: part_loop.simps [of ps] split: option.splits)
  also have "\<dots> \<longleftrightarrow> octet_text s \<and> qs = ps @ [of_nat (dec_value 0 s)]"
    using octet_Some [of s _ "[]"] by auto
  finally show ?thesis .
qed

lemma part_loop_iff:
  "part_loop [] s = Some qs \<longleftrightarrow>
   (\<exists>d0 d1 d2 d3. octet_text d0 \<and> octet_text d1 \<and> octet_text d2 \<and> octet_text d3 \<and>
      s = d0 @ ''.'' @ d1 @ ''.'' @ d2 @ ''.'' @ d3 \<and>
      qs = map (\<lambda>d. of_nat (dec_value 0 d)) [d0, d1, d2, d3])"
  (is "?L \<longleftrightarrow> ?R")
proof
  assume ?L
  then show ?R by (auto simp: part_loop_step part_loop_last)
next
  have step: "part_loop ps (d @ ''.'' @ rest) = Some rs"
    if "length ps < 3" "octet_text d" "part_loop (ps @ [of_nat (dec_value 0 d)]) rest = Some rs" for ps d rest rs
    using part_loop_step [OF that(1)] that(2,3) by blast
  assume ?R
  then obtain d0 d1 d2 d3 where d: "octet_text d0" "octet_text d1" "octet_text d2" "octet_text d3"
    "s = d0 @ ''.'' @ d1 @ ''.'' @ d2 @ ''.'' @ d3" "qs = map (\<lambda>d. of_nat (dec_value 0 d)) [d0, d1, d2, d3]"
    by blast
  show ?L
    unfolding d(5,6)
    by (rule step, simp, rule d, rule step, simp, rule d, rule step, simp, rule d)
       (simp add: part_loop_last d)
qed

text \<open>The textual form with the digits of the four bytes.\<close>

definition ipv4_print :: "u32 \<Rightarrow> string" where
  "ipv4_print a = dec_digits (unat (drop_bit 24 a AND 255)) @ ''.'' @ dec_digits (unat (drop_bit 16 a AND 255)) @ ''.'' @
     dec_digits (unat (drop_bit 8 a AND 255)) @ ''.'' @ dec_digits (unat (a AND 255))"

lemma dec_value_snoc: "dec_value acc (ds @ [c]) = dec_value acc ds * 10 + (ccode c - 48)"
  by (simp add: dec_value_def)

lemma dec_value_digits: "dec_value 0 (dec_digits n) = n"
proof (induction n rule: dec_digits.induct)
  case (1 n)
  have "ccode (char_of (48 + n mod 10)) = 48 + n mod 10"
    using of_char_of [of "48 + n mod 10"] by simp
  moreover have "ccode (char_of (48 + n)) = 48 + n" if "n < 10" using of_char_of [of "48 + n"] that by simp
  ultimately show ?case using 1 by (cases "n < 10") (simp_all add: dec_digits.simps [of n] dec_value_snoc)
qed

lemma length_dec_digits: "n < 10 ^ Suc k \<Longrightarrow> length (dec_digits n) \<le> Suc k"
proof (induction k arbitrary: n)
  case 0
  then show ?case by (simp add: dec_digits.simps [of n])
next
  case (Suc k)
  have "n div 10 < 10 ^ Suc k" using Suc.prems by (simp add: less_mult_imp_div_less)
  then show ?case using Suc.IH [of "n div 10"] by (simp add: dec_digits.simps [of n])
qed

lemma octet_text_digits: "n \<le> 255 \<Longrightarrow> octet_text (dec_digits n)"
  using length_dec_digits [of n 2] dec_digits_isdigit
  by (auto simp: octet_text_def dec_value_digits numeral_eq_Suc)

lemma unat_and_255: "unat (w AND 255 :: u32) \<le> 255"
proof -
  have "w AND 255 \<le> 255" by (rule word_and_le1)
  then show ?thesis by (simp add: word_le_nat_alt)
qed

lemma ipv4_of_bytes:
  "ipv4_of_parts [drop_bit 24 a AND 255, drop_bit 16 a AND 255, drop_bit 8 a AND 255, a AND 255] = a"
proof (rule bit_word_eqI)
  fix n :: nat
  assume n: "n < LENGTH(32)"
  have m: "(255 :: u32) = mask 8" by (simp add: mask_eq_exp_minus_1)
  consider "n < 8" | "8 \<le> n" "n < 16" | "16 \<le> n" "n < 24" | "24 \<le> n" by linarith
  then show "bit (ipv4_of_parts [drop_bit 24 a AND 255, drop_bit 16 a AND 255, drop_bit 8 a AND 255, a AND 255]) n = bit a n"
    using n unfolding m by cases (auto simp: ipv4_of_parts_def bit_simps)
qed

lemma parse_part_loop:
  "si_network_ipv4_parse (Some s) (Some w) = (True, Some a) \<longleftrightarrow>
     (\<exists>qs. part_loop [] s = Some qs \<and> a = ipv4_of_parts qs)"
  by (auto simp: si_network_ipv4_parse_def part_loop.simps [of "[]" "[]"] split: option.split)

text \<open>
  The IPv4 parser accepts exactly four decimal numbers of one to three digits and value at most
  255, separated by single dots, and returns their bytes in host order; and the text printed for
  any of the 2^32 addresses parses back to it.
\<close>

theorem network_ipv4_parse_exact:
  "(si_network_ipv4_parse (Some s) (Some w) = (True, Some a) \<longleftrightarrow>
     (\<exists>d0 d1 d2 d3. octet_text d0 \<and> octet_text d1 \<and> octet_text d2 \<and> octet_text d3 \<and>
        s = d0 @ ''.'' @ d1 @ ''.'' @ d2 @ ''.'' @ d3 \<and>
        a = ipv4_of_parts (map (\<lambda>d. of_nat (dec_value 0 d)) [d0, d1, d2, d3]))) \<and>
   si_network_ipv4_parse (Some (ipv4_print b)) (Some w) = (True, Some b)"
proof
  show "si_network_ipv4_parse (Some s) (Some w) = (True, Some a) \<longleftrightarrow>
     (\<exists>d0 d1 d2 d3. octet_text d0 \<and> octet_text d1 \<and> octet_text d2 \<and> octet_text d3 \<and>
        s = d0 @ ''.'' @ d1 @ ''.'' @ d2 @ ''.'' @ d3 \<and>
        a = ipv4_of_parts (map (\<lambda>d. of_nat (dec_value 0 d)) [d0, d1, d2, d3]))"
    unfolding parse_part_loop part_loop_iff by blast
next
  let ?n0 = "unat (drop_bit 24 b AND 255)" and ?n1 = "unat (drop_bit 16 b AND 255)"
  let ?n2 = "unat (drop_bit 8 b AND 255)" and ?n3 = "unat (b AND 255)"
  have "part_loop [] (ipv4_print b) = Some (map (\<lambda>d. of_nat (dec_value 0 d))
      [dec_digits ?n0, dec_digits ?n1, dec_digits ?n2, dec_digits ?n3])"
    unfolding part_loop_iff ipv4_print_def
    by (rule exI [of _ "dec_digits ?n0"], rule exI [of _ "dec_digits ?n1"],
        rule exI [of _ "dec_digits ?n2"], rule exI [of _ "dec_digits ?n3"])
       (simp add: octet_text_digits unat_and_255)
  then show "si_network_ipv4_parse (Some (ipv4_print b)) (Some w) = (True, Some b)"
    using ipv4_of_bytes [of b]
    by (simp add: si_network_ipv4_parse_def dec_value_digits) (simp add: ipv4_print_def)
qed

section \<open>What validation guarantees\<close>

lemma netmask_contiguous_iff:
  "netmask_contiguous m \<longleftrightarrow> (\<exists>k<32. m = NOT (2 ^ k - 1))"
proof -
  have "netmask_contiguous m \<longleftrightarrow> m \<noteq> 0 \<and> NOT m AND (NOT m + 1) = 0"
    by (simp add: netmask_contiguous_def Let_def)
  also have "\<dots> \<longleftrightarrow> (\<exists>k<32. NOT m + 1 = 2 ^ k)"
  proof (cases "NOT m + 1 = 0")
    case True
    then have "m = 0" by (simp add: not_eq_complement)
    moreover have "(2 :: u32) ^ k \<noteq> 0" if "k < 32" for k
      using that by simp
    ultimately show ?thesis using True by auto
  next
    case False
    then have "m \<noteq> 0" by auto
    moreover have "NOT m AND (NOT m + 1) = (NOT m + 1) AND (NOT m + 1 - 1)" by (simp add: and.commute)
    ultimately show ?thesis using word_and_pred_power [OF False] by simp
  qed
  also have "\<dots> \<longleftrightarrow> (\<exists>k<32. m = NOT (2 ^ k - 1))"
  proof -
    have "NOT m + 1 = x \<longleftrightarrow> m = NOT (x - 1)" for x
      by (metis add_diff_cancel bit.double_compl diff_add_cancel)
    then show ?thesis by simp
  qed
  finally show ?thesis .
qed

lemma mask_host_bits:
  assumes "a AND NOT m \<noteq> 0" "a AND NOT m \<noteq> NOT m" "m = NOT (2 ^ k - 1 :: u32)"
  shows "2 \<le> k"
proof (rule ccontr)
  assume "\<not> 2 \<le> k"
  then consider "k = 0" | "k = 1" by linarith
  then show False
  proof cases
    case 2
    have "a AND 1 = 0 \<or> a AND 1 = 1" by (metis and_one_eq odd_iff_mod_2_eq_one even_iff_mod_2_eq_zero)
    then show False using assms 2 by auto
  qed (use assms in auto)
qed

lemma netmask_hosts:
  "netmask_contiguous m \<and> a AND NOT m \<noteq> 0 \<and> a AND NOT m \<noteq> NOT m \<longleftrightarrow>
     (\<exists>k. 2 \<le> k \<and> k < 32 \<and> m = NOT (2 ^ k - 1) \<and> a AND (2 ^ k - 1) \<noteq> 0 \<and> a AND (2 ^ k - 1) \<noteq> 2 ^ k - 1)"
  (is "?L \<longleftrightarrow> ?R")
proof
  assume L: ?L
  then obtain k where k: "k < 32" "m = NOT (2 ^ k - 1)" using netmask_contiguous_iff by blast
  then have "2 \<le> k" using L mask_host_bits by blast
  moreover have "a AND (2 ^ k - 1) \<noteq> 0" "a AND (2 ^ k - 1) \<noteq> 2 ^ k - 1" using L k(2) by auto
  ultimately show ?R using k by blast
next
  assume ?R
  then obtain k where k: "k < 32" "m = NOT (2 ^ k - 1)" "a AND (2 ^ k - 1) \<noteq> 0" "a AND (2 ^ k - 1) \<noteq> 2 ^ k - 1"
    by blast
  then show ?L using netmask_contiguous_iff by auto
qed

definition ip_text :: "string \<Rightarrow> u32 \<Rightarrow> bool" where
  "ip_text s a \<longleftrightarrow> si_network_ipv4_parse (Some s) (Some 0) = (True, Some a)"

text \<open>A host address of the subnet of \<open>a\<close> with \<open>k\<close> host bits.\<close>

definition subnet_host :: "u32 \<Rightarrow> nat \<Rightarrow> u32 \<Rightarrow> bool" where
  "subnet_host a k g \<longleftrightarrow> ipv4_unicast g False \<and> g AND NOT (2 ^ k - 1) = a AND NOT (2 ^ k - 1) \<and>
     g AND (2 ^ k - 1) \<noteq> 0 \<and> g AND (2 ^ k - 1) \<noteq> 2 ^ k - 1"

definition static_ok :: "si_network_config_t \<Rightarrow> bool" where
  "static_ok c \<longleftrightarrow> (\<exists>a k. ip_text (nc_address c) a \<and> 2 \<le> k \<and> k < 32 \<and>
     ip_text (nc_netmask c) (NOT (2 ^ k - 1)) \<and> subnet_host a k a \<and>
     (nc_gateway c = [] \<or> (\<exists>g. ip_text (nc_gateway c) g \<and> subnet_host a k g)) \<and>
     (\<forall>d\<in>{nc_dns_primary c, nc_dns_secondary c}. d = [] \<or> (\<exists>x. ip_text d x \<and> ipv4_unicast x True)))"

lemma parse_cases:
  obtains (no) "si_network_ipv4_parse (Some s) (Some 0) = (False, Some 0)" "\<And>a. \<not> ip_text s a"
  | (yes) a where "si_network_ipv4_parse (Some s) (Some 0) = (True, Some a)" "ip_text s a" "\<And>b. ip_text s b \<Longrightarrow> b = a"
proof (cases "s = [] \<or> part_loop [] s = None")
  case True
  then have "si_network_ipv4_parse (Some s) (Some 0) = (False, Some 0)"
    by (auto simp: si_network_ipv4_parse_def)
  then show ?thesis by (intro no) (simp_all add: ip_text_def)
next
  case False
  then obtain qs where "si_network_ipv4_parse (Some s) (Some 0) = (True, Some (ipv4_of_parts qs))"
    by (auto simp: si_network_ipv4_parse_def)
  then show ?thesis by (intro yes [of "ipv4_of_parts qs"]) (simp_all add: ip_text_def)
qed

lemma gateway_error_None:
  "gateway_error t a (NOT (2 ^ k - 1)) = None \<longleftrightarrow> t = [] \<or> (\<exists>g. ip_text t g \<and> subnet_host a k g)"
proof (cases t rule: parse_cases)
  case (yes g)
  then have "(\<exists>g'. ip_text t g' \<and> subnet_host a k g') \<longleftrightarrow> subnet_host a k g" by blast
  then show ?thesis using yes(1) by (auto simp: gateway_error_def subnet_host_def Let_def)
next
  case no
  then show ?thesis by (simp add: gateway_error_def)
qed

lemma dns_valid_iff: "dns_valid ds \<longleftrightarrow> (\<forall>d\<in>set ds. d = [] \<or> (\<exists>x. ip_text d x \<and> ipv4_unicast x True))"
proof (induction ds)
  case (Cons d ds)
  show ?case
  proof (cases d rule: parse_cases)
    case (yes x)
    then have "(\<exists>y. ip_text d y \<and> ipv4_unicast y True) \<longleftrightarrow> ipv4_unicast x True" by blast
    then show ?thesis using yes(1) Cons by simp
  next
    case no
    then show ?thesis using Cons by simp
  qed
qed simp

lemma validate_static_None: "validate_static c = None \<longleftrightarrow> static_ok c"
proof (cases "nc_address c" rule: parse_cases)
  case no
  then show ?thesis by (simp add: validate_static_def static_ok_def)
next
  case a: (yes a)
  show ?thesis
  proof (cases "nc_netmask c" rule: parse_cases)
    case no
    then show ?thesis using a(1) by (simp add: validate_static_def static_ok_def)
  next
    case m: (yes m)
    have static: "static_ok c \<longleftrightarrow> (\<exists>k. 2 \<le> k \<and> k < 32 \<and> m = NOT (2 ^ k - 1) \<and> subnet_host a k a \<and>
        gateway_error (nc_gateway c) a m = None \<and> dns_valid [nc_dns_primary c, nc_dns_secondary c])"
      (is "_ \<longleftrightarrow> (\<exists>k. ?S k)")
    proof
      assume "static_ok c"
      then obtain a' k where s: "ip_text (nc_address c) a'" "2 \<le> k" "k < 32"
        "ip_text (nc_netmask c) (NOT (2 ^ k - 1))" "subnet_host a' k a'"
        "nc_gateway c = [] \<or> (\<exists>g. ip_text (nc_gateway c) g \<and> subnet_host a' k g)"
        "\<forall>d\<in>{nc_dns_primary c, nc_dns_secondary c}. d = [] \<or> (\<exists>x. ip_text d x \<and> ipv4_unicast x True)"
        unfolding static_ok_def by blast
      have "a' = a" "m = NOT (2 ^ k - 1)" using s(1,4) a(3) m(3) by auto
      then have "?S k" using s by (simp add: gateway_error_None dns_valid_iff)
      then show "\<exists>k. ?S k" ..
    next
      assume "\<exists>k. ?S k"
      then obtain k where k: "?S k" ..
      then have "m = NOT (2 ^ k - 1)" and "gateway_error (nc_gateway c) a m = None" by blast+
      then have g: "gateway_error (nc_gateway c) a (NOT (2 ^ k - 1)) = None" by (simp only:)
      show "static_ok c"
        unfolding static_ok_def using a(2) m(2) k g [unfolded gateway_error_None]
        by (intro exI [of _ a] exI [of _ k]) (simp add: dns_valid_iff)
    qed
    have "validate_static c = None \<longleftrightarrow> ipv4_unicast a False \<and> netmask_contiguous m \<and>
        a AND NOT m \<noteq> 0 \<and> a AND NOT m \<noteq> NOT m \<and> gateway_error (nc_gateway c) a m = None \<and>
        dns_valid [nc_dns_primary c, nc_dns_secondary c]"
      using a(1) m(1) by (auto simp: validate_static_def Let_def split: option.split)
    also have "\<dots> \<longleftrightarrow> static_ok c"
      unfolding static subnet_host_def using netmask_hosts [of m a] by blast
    finally show ?thesis .
  qed
qed

text \<open>
  A configuration is accepted exactly when its schema and hostname are valid and it either asks
  for DHCP or is a usable static configuration: the netmask leaves between 2 and 31 host bits, the
  address is a unicast host of that subnet (not its network or broadcast address), a gateway, when
  given, is such a host of the same subnet too, and every DNS server is a unicast address.
\<close>

theorem network_validate_iff:
  "fst (si_network_config_validate (Some c) error n) \<longleftrightarrow>
     nc_schema_version c = SI_NETWORK_CONFIG_SCHEMA_VERSION \<and>
     si_product_hostname_valid (Some (nc_hostname c)) \<and>
     (nc_mode c = SI_NETWORK_MODE_DHCP \<or> nc_mode c = SI_NETWORK_MODE_STATIC \<and> static_ok c)"
  using validate_static_None [of c]
  by (auto simp: si_network_config_validate_def Let_def split: option.split)

section \<open>The factory identity\<close>

lemma hex_lower_digit_ok: "n < 16 \<Longrightarrow> islower (hex_lower_digit n) \<or> isdigit (hex_lower_digit n)"
  by (cases "n < 10") (simp_all add: hex_lower_digit_def isdigit_def islower_def)

lemma print_02x_ok: "c \<in> set (print_02x b) \<Longrightarrow> islower c \<or> isdigit c" "length (print_02x b) = 2"
proof -
  have "unat b < 256" using unsigned_less [of b] by simp
  then have "unat b div 16 < 16" "unat b mod 16 < 16" by simp_all
  then show "c \<in> set (print_02x b) \<Longrightarrow> islower c \<or> isdigit c" "length (print_02x b) = 2"
    using hex_lower_digit_ok [of "unat b div 16"] hex_lower_digit_ok [of "unat b mod 16"]
    by (auto simp: print_02x_def)
qed

text \<open>
  Whatever the MAC address, the identity derived from it has a valid device id and hostname, and
  the default network configuration with that hostname passes validation.
\<close>

theorem identity_default_valid:
  "\<exists>i. si_product_identity_default_from_mac (Some mac) (Some i0) = Some i \<and>
    si_product_device_id_valid (Some (pi_device_id i)) \<and> si_product_hostname_valid (Some (pi_hostname i)) \<and>
    fst (si_network_config_validate (si_network_config_default (Some c0) (Some (pi_hostname i))) error n)"
proof -
  define s where "s = print_02x (mac ! 3) @ print_02x (mac ! 4) @ print_02x (mac ! 5)"
  have s: "length s = 6" "\<forall>c\<in>set s. islower c \<or> isdigit c"
    using print_02x_ok(1) by (auto simp: s_def print_02x_ok(2))
  have last: "(p @ s) ! (length (p @ s) - 1) = last s" for p
  proof -
    have "s \<noteq> []" using s(1) by auto
    then show ?thesis using last_conv_nth [of "p @ s"] by simp
  qed
  have "last s \<in> set s" using s(1) by (intro last_in_set) auto
  then have dash: "last s \<noteq> CHR ''-''" using s(2) by (auto simp: c_text)
  have label: "label_valid (Some (p @ s)) k"
    if "p \<noteq> []" "hd p \<noteq> CHR ''-''" "list_all (\<lambda>ch. islower ch \<or> isdigit ch \<or> ch = CHR ''-'') p" "length p + 6 \<le> k"
    for p k
  proof -
    have "(p @ s) ! 0 \<noteq> CHR ''-''" using that(1,2) by (simp add: nth_append hd_conv_nth)
    moreover have "list_all (\<lambda>ch. islower ch \<or> isdigit ch \<or> ch = CHR ''-'') (p @ s)"
      using that(3) s(2) by (auto simp: list_all_iff)
    ultimately show ?thesis using that(1,4) s(1) dash last [of p] by (simp add: label_valid_def)
  qed
  define i where "i = \<lparr>pi_device_id = ''ea-p4-'' @ s, pi_hostname = ''exoanchor-'' @ s, pi_suffix = s\<rparr>"
  have i: "si_product_identity_default_from_mac (Some mac) (Some i0) = Some i"
    using s(1) by (simp add: si_product_identity_default_from_mac_def i_def Let_def s_def [symmetric]
      SI_PRODUCT_SUFFIX_LEN_def SI_PRODUCT_DEVICE_ID_MAX_LEN_def SI_PRODUCT_HOSTNAME_MAX_LEN_def)
  have dev: "si_product_device_id_valid (Some (pi_device_id i))"
    unfolding i_def si_product_device_id_valid_def si_product_identity_t.simps
    by (rule label) (simp_all add: c_text SI_PRODUCT_DEVICE_ID_MAX_LEN_def)
  have host: "si_product_hostname_valid (Some (pi_hostname i))"
    unfolding i_def si_product_hostname_valid_def si_product_identity_t.simps
    by (rule label) (simp_all add: c_text SI_PRODUCT_HOSTNAME_MAX_LEN_def)
  then have "length (pi_hostname i) < SI_PRODUCT_HOSTNAME_MAX_LEN + 1"
    by (auto simp: si_product_hostname_valid_def label_valid_def split: if_splits)
  then have "fst (si_network_config_validate (si_network_config_default (Some c0) (Some (pi_hostname i))) error n)"
    using host by (simp add: si_network_config_validate_def si_network_config_default_def Let_def)
  then show ?thesis using i dev host by blast
qed

end
