(* ===== verification/Boot_Key.thy ===== *)
theory Boot_Key
  imports Prelude
begin

text \<open>
  The boot-key sequencer. First the pure part, \<^verbatim>\<open>core/boot_key_sequence.c\<close>: validation of a
  sequence and the decision of one poll. Then \<^verbatim>\<open>application/boot_key_manager.c\<close>: the plan a person
  approves, and the worker task that sends the keys.

  The manager's statics are the record \<open>boot_mgr\<close>. A call that takes the mutex has the outcome of
  \<open>take_lock\<close> as its first argument, and the clock value it reads as an argument. What the
  worker reads from other modules in one round (the mutex, the clock, the lease, the HID device,
  the reset line) is the record \<open>boot_env\<close>; the worker is run over a list of such rounds.
\<close>

section \<open>Sequences\<close>

definition SI_BOOT_KEY_PROFILE_ID_MAX :: nat where "SI_BOOT_KEY_PROFILE_ID_MAX = 31"
definition SI_BOOT_KEY_CODE_MAX :: nat where "SI_BOOT_KEY_CODE_MAX = 15"

datatype si_boot_key_target_t =
    SI_BOOT_KEY_TARGET_INVALID
  | SI_BOOT_KEY_TARGET_BIOS_SETUP
  | SI_BOOT_KEY_TARGET_BOOT_MENU
  | SI_BOOT_KEY_TARGET_OTHER u32

datatype si_boot_key_trigger_t =
    SI_BOOT_KEY_TRIGGER_NONE
  | SI_BOOT_KEY_TRIGGER_RESET
  | SI_BOOT_KEY_TRIGGER_OTHER u32

record si_boot_key_sequence_config_t =
  bc_profile_id :: string
  bc_target :: si_boot_key_target_t
  bc_trigger :: si_boot_key_trigger_t
  bc_key_code :: string
  bc_start_delay_ms :: u32
  bc_interval_ms :: u32
  bc_max_attempts :: u8
  bc_total_timeout_ms :: u32

datatype si_boot_key_decision_t =
    SI_BOOT_KEY_DECISION_WAIT
  | SI_BOOT_KEY_DECISION_WAIT_HID
  | SI_BOOT_KEY_DECISION_SEND
  | SI_BOOT_KEY_DECISION_COMPLETE
  | SI_BOOT_KEY_DECISION_CANCEL
  | SI_BOOT_KEY_DECISION_PREEMPT
  | SI_BOOT_KEY_DECISION_TIMEOUT

definition safe_profile_id :: "string \<Rightarrow> bool" where
  "safe_profile_id v =
     (if v = [] then False
      else if length v > SI_BOOT_KEY_PROFILE_ID_MAX \<or> \<not> isalnum (v ! 0) then False
      else list_all (\<lambda>ch. isalnum ch \<or> ch = CHR ''-'' \<or> ch = CHR ''_'' \<or> ch = CHR ''.'') v)"

definition allowed_keys :: "string list" where
  "allowed_keys = [''Delete'', ''Escape'', ''F1'', ''F2'', ''F3'', ''F4'', ''F5'', ''F6'',
     ''F7'', ''F8'', ''F9'', ''F10'', ''F11'', ''F12'']"

definition allowed_boot_key :: "string \<Rightarrow> bool" where
  "allowed_boot_key key_code =
     (if key_code = [] \<or> length key_code > SI_BOOT_KEY_CODE_MAX then False
      else key_code \<in> set allowed_keys)"

definition si_boot_key_sequence_validate :: "si_boot_key_sequence_config_t option \<Rightarrow> bool" where
  "si_boot_key_sequence_validate config =
     (case config of None \<Rightarrow> False | Some c \<Rightarrow>
      if \<not> safe_profile_id (bc_profile_id c) \<or> \<not> allowed_boot_key (bc_key_code c) \<or>
         (bc_target c \<noteq> SI_BOOT_KEY_TARGET_BIOS_SETUP \<and> bc_target c \<noteq> SI_BOOT_KEY_TARGET_BOOT_MENU) \<or>
         (bc_trigger c \<noteq> SI_BOOT_KEY_TRIGGER_NONE \<and> bc_trigger c \<noteq> SI_BOOT_KEY_TRIGGER_RESET) \<or>
         bc_start_delay_ms c > 10000 \<or>
         bc_interval_ms c < 100 \<or> bc_interval_ms c > 5000 \<or>
         bc_max_attempts c < 1 \<or> bc_max_attempts c > 20 \<or>
         bc_total_timeout_ms c < 1000 \<or> bc_total_timeout_ms c > 60000
      then False
      else
        let last_due = bc_start_delay_ms c + (ucast (bc_max_attempts c) - 1) * bc_interval_ms c in
        last_due \<le> 0xFFFFFFFF - 100 \<and> bc_total_timeout_ms c \<ge> last_due + 100)"

definition si_boot_key_sequence_decide ::
    "si_boot_key_sequence_config_t option \<Rightarrow> u32 \<Rightarrow> u8 \<Rightarrow> bool \<Rightarrow> bool \<Rightarrow> bool \<Rightarrow> bool \<Rightarrow>
     si_boot_key_decision_t" where
  "si_boot_key_sequence_decide config elapsed_ms attempts_sent cancel_requested human_kvm_active
     lease_held hid_ready =
     (if \<not> si_boot_key_sequence_validate config then SI_BOOT_KEY_DECISION_CANCEL
      else if cancel_requested then SI_BOOT_KEY_DECISION_CANCEL
      else if human_kvm_active \<or> \<not> lease_held then SI_BOOT_KEY_DECISION_PREEMPT
      else let c = the config in
      if attempts_sent \<ge> bc_max_attempts c then SI_BOOT_KEY_DECISION_COMPLETE
      else if elapsed_ms \<ge> bc_total_timeout_ms c then SI_BOOT_KEY_DECISION_TIMEOUT
      else if \<not> hid_ready then SI_BOOT_KEY_DECISION_WAIT_HID
      else
        let next_due = bc_start_delay_ms c + ucast attempts_sent * bc_interval_ms c in
        if elapsed_ms \<ge> next_due then SI_BOOT_KEY_DECISION_SEND else SI_BOOT_KEY_DECISION_WAIT)"

fun si_boot_key_target_name :: "si_boot_key_target_t \<Rightarrow> string" where
  "si_boot_key_target_name SI_BOOT_KEY_TARGET_BIOS_SETUP = ''bios_setup''"
| "si_boot_key_target_name SI_BOOT_KEY_TARGET_BOOT_MENU = ''boot_menu''"
| "si_boot_key_target_name _ = ''invalid''"

fun si_boot_key_trigger_name :: "si_boot_key_trigger_t \<Rightarrow> string" where
  "si_boot_key_trigger_name SI_BOOT_KEY_TRIGGER_NONE = ''none''"
| "si_boot_key_trigger_name SI_BOOT_KEY_TRIGGER_RESET = ''reset''"
| "si_boot_key_trigger_name (SI_BOOT_KEY_TRIGGER_OTHER _) = ''invalid''"

fun si_boot_key_decision_name :: "si_boot_key_decision_t \<Rightarrow> string" where
  "si_boot_key_decision_name SI_BOOT_KEY_DECISION_WAIT = ''wait''"
| "si_boot_key_decision_name SI_BOOT_KEY_DECISION_WAIT_HID = ''wait_hid''"
| "si_boot_key_decision_name SI_BOOT_KEY_DECISION_SEND = ''send''"
| "si_boot_key_decision_name SI_BOOT_KEY_DECISION_COMPLETE = ''complete''"
| "si_boot_key_decision_name SI_BOOT_KEY_DECISION_CANCEL = ''cancel''"
| "si_boot_key_decision_name SI_BOOT_KEY_DECISION_PREEMPT = ''preempt''"
| "si_boot_key_decision_name SI_BOOT_KEY_DECISION_TIMEOUT = ''timeout''"

section \<open>Plans\<close>

definition SI_BOOT_KEY_PLAN_ID_MAX :: nat where "SI_BOOT_KEY_PLAN_ID_MAX = 31"
definition SI_BOOT_KEY_SESSION_ID_MAX :: nat where "SI_BOOT_KEY_SESSION_ID_MAX = 31"
definition SI_BOOT_KEY_EVIDENCE_MAX :: nat where "SI_BOOT_KEY_EVIDENCE_MAX = 95"
definition SI_BOOT_KEY_ERROR_MAX :: nat where "SI_BOOT_KEY_ERROR_MAX = 127"

datatype si_boot_key_state_t =
    SI_BOOT_KEY_STATE_EMPTY
  | SI_BOOT_KEY_STATE_PLANNED
  | SI_BOOT_KEY_STATE_APPROVED
  | SI_BOOT_KEY_STATE_STARTING
  | SI_BOOT_KEY_STATE_WAITING_HID
  | SI_BOOT_KEY_STATE_WAITING_START
  | SI_BOOT_KEY_STATE_RUNNING
  | SI_BOOT_KEY_STATE_AWAITING_VERIFICATION
  | SI_BOOT_KEY_STATE_VERIFIED
  | SI_BOOT_KEY_STATE_CANCELLED
  | SI_BOOT_KEY_STATE_PREEMPTED
  | SI_BOOT_KEY_STATE_TIMED_OUT
  | SI_BOOT_KEY_STATE_FAILED

record si_boot_key_status_t =
  bs_state :: si_boot_key_state_t
  bs_approval_required :: bool
  bs_approved :: bool
  bs_cancel_requested :: bool
  bs_reset_triggered :: bool
  bs_attempts_sent :: u8
  bs_created_ms :: u32
  bs_started_ms :: u32
  bs_updated_ms :: u32
  bs_finished_ms :: u32
  bs_plan_id :: string
  bs_approved_by_session :: string
  bs_verified_by_session :: string
  bs_evidence :: string
  bs_error :: string
  bs_config :: si_boot_key_sequence_config_t

text \<open>The statics: the mutex exists, a worker handle is set, the status and the plan counter.\<close>

record boot_mgr =
  bm_lock :: bool
  bm_task :: bool
  bm_status :: si_boot_key_status_t
  bm_plan_seq :: u32

definition zero_config :: si_boot_key_sequence_config_t where
  "zero_config = \<lparr>bc_profile_id = [], bc_target = SI_BOOT_KEY_TARGET_INVALID,
     bc_trigger = SI_BOOT_KEY_TRIGGER_NONE, bc_key_code = [], bc_start_delay_ms = 0,
     bc_interval_ms = 0, bc_max_attempts = 0, bc_total_timeout_ms = 0\<rparr>"

definition zero_boot_status :: si_boot_key_status_t where
  "zero_boot_status = \<lparr>bs_state = SI_BOOT_KEY_STATE_EMPTY, bs_approval_required = False,
     bs_approved = False, bs_cancel_requested = False, bs_reset_triggered = False,
     bs_attempts_sent = 0, bs_created_ms = 0, bs_started_ms = 0, bs_updated_ms = 0,
     bs_finished_ms = 0, bs_plan_id = [], bs_approved_by_session = [],
     bs_verified_by_session = [], bs_evidence = [], bs_error = [], bs_config = zero_config\<rparr>"

definition take_lock :: "bool \<Rightarrow> boot_mgr \<Rightarrow> esp_err_t" where
  "take_lock acquired m =
     (if \<not> bm_lock m then ESP_ERR_INVALID_STATE else if acquired then ESP_OK else ESP_ERR_TIMEOUT)"

definition plan_matches_locked :: "boot_mgr \<Rightarrow> string option \<Rightarrow> bool" where
  "plan_matches_locked m plan_id =
     (case plan_id of None \<Rightarrow> False | Some p \<Rightarrow> p \<noteq> [] \<and> p = bs_plan_id (bm_status m))"

fun state_has_worker :: "si_boot_key_state_t \<Rightarrow> bool" where
  "state_has_worker SI_BOOT_KEY_STATE_STARTING = True"
| "state_has_worker SI_BOOT_KEY_STATE_WAITING_HID = True"
| "state_has_worker SI_BOOT_KEY_STATE_WAITING_START = True"
| "state_has_worker SI_BOOT_KEY_STATE_RUNNING = True"
| "state_has_worker _ = False"

fun state_accepts_new_plan :: "si_boot_key_state_t \<Rightarrow> bool" where
  "state_accepts_new_plan SI_BOOT_KEY_STATE_EMPTY = True"
| "state_accepts_new_plan SI_BOOT_KEY_STATE_CANCELLED = True"
| "state_accepts_new_plan SI_BOOT_KEY_STATE_VERIFIED = True"
| "state_accepts_new_plan SI_BOOT_KEY_STATE_TIMED_OUT = True"
| "state_accepts_new_plan SI_BOOT_KEY_STATE_FAILED = True"
| "state_accepts_new_plan SI_BOOT_KEY_STATE_PREEMPTED = True"
| "state_accepts_new_plan _ = False"

definition copy_out_locked ::
    "boot_mgr \<Rightarrow> si_boot_key_status_t option \<Rightarrow> si_boot_key_status_t option" where
  "copy_out_locked m out = map_option (\<lambda>_. bm_status m) out"

definition finish_locked :: "boot_mgr \<Rightarrow> u32 \<Rightarrow> si_boot_key_state_t \<Rightarrow> string option \<Rightarrow> boot_mgr" where
  "finish_locked m now_ms state error =
     m\<lparr>bm_status := (bm_status m)\<lparr>bs_state := state, bs_finished_ms := now_ms, bs_updated_ms := now_ms,
          bs_error := c_strlcpy (SI_BOOT_KEY_ERROR_MAX + 1) (c_or_empty error)\<rparr>,
       bm_task := False\<rparr>"

definition si_boot_key_manager_start :: "bool \<Rightarrow> boot_mgr \<Rightarrow> esp_err_t \<times> boot_mgr" where
  "si_boot_key_manager_start created m =
     (if bm_lock m then (ESP_OK, m)
      else if \<not> created then (ESP_ERR_NO_MEM, m)
      else (ESP_OK, m\<lparr>bm_lock := True,
              bm_status := zero_boot_status\<lparr>bs_state := SI_BOOT_KEY_STATE_EMPTY\<rparr>\<rparr>))"

text \<open>\<open>%0<w>lx\<close>: lower-case hexadecimal digits, padded with zeros to \<open>w\<close>.\<close>

fun hex_digits :: "nat \<Rightarrow> nat \<Rightarrow> string" where
  "hex_digits w n =
     (let d = n mod 16; c = char_of (if d < 10 then 48 + d else 87 + d) in
      if n < 16 then replicate (w - 1) (CHR ''0'') @ [c] else hex_digits (w - 1) (n div 16) @ [c])"

declare hex_digits.simps [simp del]

definition plan_id_text :: "u32 \<Rightarrow> u32 \<Rightarrow> string" where
  "plan_id_text now_ms plan_seq =
     c_strlcpy (SI_BOOT_KEY_PLAN_ID_MAX + 1)
       (''bk-'' @ hex_digits 8 (unat now_ms) @ ''-'' @ hex_digits 4 (unat (plan_seq AND 0xffff)))"

definition si_boot_key_plan_create ::
    "bool \<Rightarrow> u32 \<Rightarrow> boot_mgr \<Rightarrow> si_boot_key_sequence_config_t option \<Rightarrow> si_boot_key_status_t option \<Rightarrow>
     esp_err_t \<times> boot_mgr \<times> si_boot_key_status_t option" where
  "si_boot_key_plan_create acquired now_ms m config out =
     (if \<not> si_boot_key_sequence_validate config then (ESP_ERR_INVALID_ARG, m, out)
      else if take_lock acquired m \<noteq> ESP_OK then (take_lock acquired m, m, out)
      else if \<not> state_accepts_new_plan (bs_state (bm_status m)) then (ESP_ERR_INVALID_STATE, m, out)
      else
        let seq = bm_plan_seq m + 1;
            m' = m\<lparr>bm_plan_seq := seq,
                   bm_status := zero_boot_status\<lparr>bs_state := SI_BOOT_KEY_STATE_PLANNED,
                     bs_approval_required := True, bs_created_ms := now_ms, bs_updated_ms := now_ms,
                     bs_config := the config, bs_plan_id := plan_id_text now_ms seq\<rparr>\<rparr>
        in (ESP_OK, m', copy_out_locked m' out))"

definition si_boot_key_plan_get ::
    "bool \<Rightarrow> boot_mgr \<Rightarrow> si_boot_key_status_t option \<Rightarrow> esp_err_t \<times> si_boot_key_status_t option" where
  "si_boot_key_plan_get acquired m out =
     (case out of None \<Rightarrow> (ESP_ERR_INVALID_ARG, out) | Some _ \<Rightarrow>
      if take_lock acquired m \<noteq> ESP_OK then (take_lock acquired m, out)
      else (ESP_OK, copy_out_locked m out))"

definition session_id_bad :: "string option \<Rightarrow> bool" where
  "session_id_bad session_id =
     (case session_id of None \<Rightarrow> True | Some s \<Rightarrow> s = [] \<or> length s > SI_BOOT_KEY_SESSION_ID_MAX)"

definition si_boot_key_plan_approve ::
    "bool \<Rightarrow> u32 \<Rightarrow> boot_mgr \<Rightarrow> string option \<Rightarrow> string option \<Rightarrow> si_boot_key_status_t option \<Rightarrow>
     esp_err_t \<times> boot_mgr \<times> si_boot_key_status_t option" where
  "si_boot_key_plan_approve acquired now_ms m plan_id session_id out =
     (if session_id_bad session_id then (ESP_ERR_INVALID_ARG, m, out)
      else if take_lock acquired m \<noteq> ESP_OK then (take_lock acquired m, m, out)
      else if \<not> plan_matches_locked m plan_id then (ESP_ERR_NOT_FOUND, m, out)
      else if bs_state (bm_status m) \<noteq> SI_BOOT_KEY_STATE_PLANNED then (ESP_ERR_INVALID_STATE, m, out)
      else
        let m' = m\<lparr>bm_status := (bm_status m)\<lparr>bs_state := SI_BOOT_KEY_STATE_APPROVED,
              bs_approved := True, bs_updated_ms := now_ms,
              bs_approved_by_session := c_strlcpy (SI_BOOT_KEY_SESSION_ID_MAX + 1) (c_or_empty session_id)\<rparr>\<rparr>
        in (ESP_OK, m', copy_out_locked m' out))"

text \<open>\<open>created\<close> is the outcome of creating the worker task, which also sets its handle.\<close>

definition si_boot_key_plan_start ::
    "bool \<Rightarrow> bool \<Rightarrow> u32 \<Rightarrow> boot_mgr \<Rightarrow> string option \<Rightarrow> si_boot_key_status_t option \<Rightarrow>
     esp_err_t \<times> boot_mgr \<times> si_boot_key_status_t option" where
  "si_boot_key_plan_start acquired created now_ms m plan_id out =
     (if take_lock acquired m \<noteq> ESP_OK then (take_lock acquired m, m, out)
      else if \<not> plan_matches_locked m plan_id then (ESP_ERR_NOT_FOUND, m, out)
      else if bs_state (bm_status m) \<noteq> SI_BOOT_KEY_STATE_APPROVED \<or> \<not> bs_approved (bm_status m) \<or> bm_task m
      then (ESP_ERR_INVALID_STATE, m, out)
      else
        let m1 = m\<lparr>bm_status := (bm_status m)\<lparr>bs_state := SI_BOOT_KEY_STATE_STARTING, bs_updated_ms := now_ms\<rparr>\<rparr>
        in if \<not> created
           then (let m2 = finish_locked m1 now_ms SI_BOOT_KEY_STATE_FAILED (Some ''create boot-key task failed'')
                 in (ESP_ERR_NO_MEM, m2, copy_out_locked m2 out))
           else (let m2 = m1\<lparr>bm_task := True\<rparr> in (ESP_OK, m2, copy_out_locked m2 out)))"

definition si_boot_key_plan_cancel ::
    "bool \<Rightarrow> u32 \<Rightarrow> boot_mgr \<Rightarrow> string option \<Rightarrow> string option \<Rightarrow> si_boot_key_status_t option \<Rightarrow>
     esp_err_t \<times> boot_mgr \<times> si_boot_key_status_t option" where
  "si_boot_key_plan_cancel acquired now_ms m plan_id session_id out =
     (if session_id_bad session_id then (ESP_ERR_INVALID_ARG, m, out)
      else if take_lock acquired m \<noteq> ESP_OK then (take_lock acquired m, m, out)
      else if \<not> plan_matches_locked m plan_id then (ESP_ERR_NOT_FOUND, m, out)
      else
        let st = bs_state (bm_status m) in
        if state_has_worker st
        then (let m' = m\<lparr>bm_status := (bm_status m)\<lparr>bs_cancel_requested := True, bs_updated_ms := now_ms\<rparr>\<rparr>
              in (ESP_OK, m', copy_out_locked m' out))
        else if st = SI_BOOT_KEY_STATE_PLANNED \<or> st = SI_BOOT_KEY_STATE_APPROVED \<or>
                st = SI_BOOT_KEY_STATE_AWAITING_VERIFICATION
        then (let m1 = finish_locked m now_ms SI_BOOT_KEY_STATE_CANCELLED None;
                  m2 = m1\<lparr>bm_status := (bm_status m1)\<lparr>bs_approved := False\<rparr>\<rparr>
              in (ESP_OK, m2, copy_out_locked m2 out))
        else (ESP_ERR_INVALID_STATE, m, out))"

definition si_boot_key_plan_confirm ::
    "bool \<Rightarrow> u32 \<Rightarrow> boot_mgr \<Rightarrow> string option \<Rightarrow> string option \<Rightarrow> string option \<Rightarrow>
     si_boot_key_status_t option \<Rightarrow> esp_err_t \<times> boot_mgr \<times> si_boot_key_status_t option" where
  "si_boot_key_plan_confirm acquired now_ms m plan_id session_id evidence out =
     (if session_id_bad session_id \<or> c_or_empty evidence = [] \<or>
         length (c_or_empty evidence) > SI_BOOT_KEY_EVIDENCE_MAX
      then (ESP_ERR_INVALID_ARG, m, out)
      else if take_lock acquired m \<noteq> ESP_OK then (take_lock acquired m, m, out)
      else if \<not> plan_matches_locked m plan_id then (ESP_ERR_NOT_FOUND, m, out)
      else if bs_state (bm_status m) \<noteq> SI_BOOT_KEY_STATE_AWAITING_VERIFICATION
      then (ESP_ERR_INVALID_STATE, m, out)
      else
        let m' = m\<lparr>bm_status := (bm_status m)\<lparr>bs_state := SI_BOOT_KEY_STATE_VERIFIED,
              bs_updated_ms := now_ms, bs_finished_ms := now_ms,
              bs_verified_by_session := c_strlcpy (SI_BOOT_KEY_SESSION_ID_MAX + 1) (c_or_empty session_id),
              bs_evidence := c_strlcpy (SI_BOOT_KEY_EVIDENCE_MAX + 1) (c_or_empty evidence)\<rparr>\<rparr>
        in (ESP_OK, m', copy_out_locked m' out))"

definition si_boot_key_cancel_for_manual_hid :: "bool \<Rightarrow> u32 \<Rightarrow> boot_mgr \<Rightarrow> bool \<times> boot_mgr" where
  "si_boot_key_cancel_for_manual_hid acquired now_ms m =
     (if take_lock acquired m \<noteq> ESP_OK then (False, m)
      else
        let st = bs_state (bm_status m) in
        if state_has_worker st
        then (True, m\<lparr>bm_status := (bm_status m)\<lparr>bs_cancel_requested := True, bs_updated_ms := now_ms\<rparr>\<rparr>)
        else if st = SI_BOOT_KEY_STATE_PLANNED \<or> st = SI_BOOT_KEY_STATE_APPROVED
        then (True, finish_locked (m\<lparr>bm_status := (bm_status m)\<lparr>bs_cancel_requested := True\<rparr>\<rparr>) now_ms
                SI_BOOT_KEY_STATE_CANCELLED (Some ''cancelled by manual HID input''))
        else (False, m))"

fun si_boot_key_state_name :: "si_boot_key_state_t \<Rightarrow> string" where
  "si_boot_key_state_name SI_BOOT_KEY_STATE_EMPTY = ''empty''"
| "si_boot_key_state_name SI_BOOT_KEY_STATE_PLANNED = ''planned''"
| "si_boot_key_state_name SI_BOOT_KEY_STATE_APPROVED = ''approved''"
| "si_boot_key_state_name SI_BOOT_KEY_STATE_STARTING = ''starting''"
| "si_boot_key_state_name SI_BOOT_KEY_STATE_WAITING_HID = ''waiting_hid''"
| "si_boot_key_state_name SI_BOOT_KEY_STATE_WAITING_START = ''waiting_start''"
| "si_boot_key_state_name SI_BOOT_KEY_STATE_RUNNING = ''running''"
| "si_boot_key_state_name SI_BOOT_KEY_STATE_AWAITING_VERIFICATION = ''awaiting_verification''"
| "si_boot_key_state_name SI_BOOT_KEY_STATE_VERIFIED = ''verified''"
| "si_boot_key_state_name SI_BOOT_KEY_STATE_CANCELLED = ''cancelled''"
| "si_boot_key_state_name SI_BOOT_KEY_STATE_PREEMPTED = ''preempted''"
| "si_boot_key_state_name SI_BOOT_KEY_STATE_TIMED_OUT = ''timed_out''"
| "si_boot_key_state_name SI_BOOT_KEY_STATE_FAILED = ''failed''"

end
