(* ===== verification/Boot_Worker.thy ===== *)
theory Boot_Worker
  imports Boot_Key Hid_Owner
begin

text \<open>
  The worker task of \<^verbatim>\<open>application/boot_key_manager.c\<close> and its interleaving with the calls of the
  HTTP handlers. There are three kinds of worker steps: the prologue, the snapshot at the head of a
  round, and the rest of the round. Between any two of them any number of handler calls may run. The
  prologue takes the mutex three times in the code and is one step here, so that a handler call
  between its sections is not represented; the rest of a round takes it at most once. What the
  worker reads from other modules is the record \<open>boot_env\<close>; what it does to them is a list of events.
\<close>

section \<open>The worker\<close>

datatype boot_event =
    Press_Reset
  | Send_Key string si_hid_owner_token_t
  | Release_All si_hid_owner_token_t
  | Release_Lease si_hid_owner_token_t

text \<open>The task's local variables; \<open>bw_started_ms\<close> is set after the prologue.\<close>

record boot_worker =
  bw_plan_id :: string
  bw_config :: si_boot_key_sequence_config_t
  bw_attempts :: u8
  bw_cancel_requested :: bool
  bw_hid_owner :: si_hid_owner_token_t
  bw_started_ms :: u32

record boot_env =
  be_touch_ret :: esp_err_t
  be_touch_owner :: si_hid_owner_token_t
  be_session_matches :: bool
  be_now_ms :: u32
  be_hid_mounted :: bool
  be_send_ret :: esp_err_t
  be_reset_ret :: esp_err_t
  be_snapshot_locks :: "bool list"
  be_update_lock :: bool
  be_update_ms :: u32
  be_finish_lock :: bool
  be_finish_ms :: u32

definition initial_worker :: boot_worker where
  "initial_worker = \<lparr>bw_plan_id = [], bw_config = zero_config, bw_attempts = 0,
     bw_cancel_requested = False, bw_hid_owner = zero_token, bw_started_ms = 0\<rparr>"

definition task_snapshot :: "bool \<Rightarrow> boot_mgr \<Rightarrow> boot_worker \<Rightarrow> bool \<times> boot_worker" where
  "task_snapshot acquired m w =
     (if take_lock acquired m \<noteq> ESP_OK then (False, w)
      else (True, w\<lparr>bw_plan_id := c_strlcpy (SI_BOOT_KEY_PLAN_ID_MAX + 1) (bs_plan_id (bm_status m)),
              bw_config := bs_config (bm_status m), bw_attempts := bs_attempts_sent (bm_status m),
              bw_cancel_requested := bs_cancel_requested (bm_status m)\<rparr>))"

definition task_finish ::
    "boot_env \<Rightarrow> boot_mgr \<Rightarrow> boot_worker \<Rightarrow> si_boot_key_state_t \<Rightarrow> string option \<Rightarrow> boot_mgr \<times> boot_event list" where
  "task_finish e m w state error =
     ((if take_lock (be_finish_lock e) m = ESP_OK \<and> plan_matches_locked m (Some (bw_plan_id w))
       then finish_locked m (be_finish_ms e) state error else m),
      (if ht_generation (bw_hid_owner w) \<noteq> 0
       then [Release_All (bw_hid_owner w), Release_Lease (bw_hid_owner w)] else []))"

text \<open>The lease call writes the caller's token only when it succeeds.\<close>

definition touch_lease :: "boot_env \<Rightarrow> boot_worker \<Rightarrow> boot_worker" where
  "touch_lease e w = (if be_touch_ret e = ESP_OK then w\<lparr>bw_hid_owner := be_touch_owner e\<rparr> else w)"

text \<open>
  The task up to its loop. The worker goes on (Some) or has ended (None). The two snapshots use the
  first two outcomes of \<open>be_snapshot_locks\<close>.
\<close>

definition boot_key_task_prologue :: "boot_env \<Rightarrow> boot_mgr \<Rightarrow> boot_mgr \<times> boot_worker option \<times> boot_event list" where
  "boot_key_task_prologue e m =
     (let stop = (\<lambda>m w state error ev. case task_finish e m w state error of (m', ev') \<Rightarrow> (m', None, ev @ ev'));
          lock1 = be_snapshot_locks e ! 0; lock2 = be_snapshot_locks e ! 1;
          (ok, w) = task_snapshot lock1 m initial_worker
      in if \<not> ok then stop m w SI_BOOT_KEY_STATE_FAILED (Some ''boot-key status unavailable'') []
         else if bw_cancel_requested w then stop m w SI_BOOT_KEY_STATE_CANCELLED None []
         else
           let w = touch_lease e w in
           if be_touch_ret e \<noteq> ESP_OK
           then stop m w SI_BOOT_KEY_STATE_PREEMPTED (Some ''HID control lease unavailable or human KVM active'') []
           else
             let started = (\<lambda>w ev.
                   let m' = (if take_lock (be_update_lock e) m = ESP_OK \<and> plan_matches_locked m (Some (bw_plan_id w))
                         then m\<lparr>bm_status := (bm_status m)\<lparr>bs_started_ms := be_now_ms e, bs_updated_ms := be_now_ms e,
                                bs_reset_triggered := (bc_trigger (bw_config w) = SI_BOOT_KEY_TRIGGER_RESET),
                                bs_state := SI_BOOT_KEY_STATE_WAITING_START\<rparr>\<rparr>
                         else m)
                   in (m', Some (w\<lparr>bw_started_ms := be_now_ms e\<rparr>), ev))
             in if bc_trigger (bw_config w) = SI_BOOT_KEY_TRIGGER_RESET
                then (let (ok2, w) = task_snapshot lock2 m w in
                      if \<not> ok2 then stop m w SI_BOOT_KEY_STATE_FAILED (Some ''boot-key status unavailable'') []
                      else if bw_cancel_requested w then stop m w SI_BOOT_KEY_STATE_CANCELLED None []
                      else if be_reset_ret e \<noteq> ESP_OK
                      then stop m w SI_BOOT_KEY_STATE_FAILED (Some ''Host reset trigger failed'') [Press_Reset]
                      else started w [Press_Reset])
                else started w [])"

text \<open>One round of the loop after its snapshot.\<close>

definition boot_key_task_round ::
    "boot_env \<Rightarrow> boot_mgr \<Rightarrow> boot_worker \<Rightarrow> boot_mgr \<times> boot_worker option \<times> boot_event list" where
  "boot_key_task_round e m w =
     (let stop = (\<lambda>w state error ev. case task_finish e m w state error of (m', ev') \<Rightarrow> (m', None, ev @ ev'));
          update = (\<lambda>f. if take_lock (be_update_lock e) m = ESP_OK \<and> plan_matches_locked m (Some (bw_plan_id w))
                        then m\<lparr>bm_status := f (bm_status m)\<rparr> else m);
          w = touch_lease e w;
          lease_held = (be_touch_ret e = ESP_OK \<and> be_session_matches e);
          elapsed_ms = be_now_ms e - bw_started_ms w;
          decision = si_boot_key_sequence_decide (Some (bw_config w)) elapsed_ms (bw_attempts w)
            (bw_cancel_requested w) False lease_held (be_hid_mounted e)
      in case decision of
           SI_BOOT_KEY_DECISION_SEND \<Rightarrow>
             let ev = [Send_Key (bc_key_code (bw_config w)) (bw_hid_owner w)] in
             if be_send_ret e \<noteq> ESP_OK
             then stop w SI_BOOT_KEY_STATE_FAILED (Some ''boot-key HID send failed'') ev
             else
               let w = w\<lparr>bw_attempts := bw_attempts w + 1\<rparr> in
               (update (\<lambda>s. s\<lparr>bs_attempts_sent := bw_attempts w, bs_updated_ms := be_update_ms e,
                              bs_state := SI_BOOT_KEY_STATE_RUNNING\<rparr>), Some w, ev)
         | SI_BOOT_KEY_DECISION_WAIT_HID \<Rightarrow>
             (update (\<lambda>s. s\<lparr>bs_state := SI_BOOT_KEY_STATE_WAITING_HID, bs_updated_ms := be_update_ms e\<rparr>), Some w, [])
         | SI_BOOT_KEY_DECISION_WAIT \<Rightarrow>
             (update (\<lambda>s. s\<lparr>bs_state := SI_BOOT_KEY_STATE_WAITING_START, bs_updated_ms := be_update_ms e\<rparr>), Some w, [])
         | SI_BOOT_KEY_DECISION_COMPLETE \<Rightarrow> stop w SI_BOOT_KEY_STATE_AWAITING_VERIFICATION None []
         | SI_BOOT_KEY_DECISION_CANCEL \<Rightarrow> stop w SI_BOOT_KEY_STATE_CANCELLED None []
         | SI_BOOT_KEY_DECISION_PREEMPT \<Rightarrow>
             stop w SI_BOOT_KEY_STATE_PREEMPTED (Some ''human KVM activity or control lease revocation'') []
         | SI_BOOT_KEY_DECISION_TIMEOUT \<Rightarrow>
             stop w SI_BOOT_KEY_STATE_TIMED_OUT (Some ''boot-key sequence timed out'') [])"

section \<open>The system\<close>

text \<open>
  The manager with its worker: not there, created and not yet run, at the head of a round, past the
  snapshot of a round, or ended. \<open>by_sent\<close> counts the keys sent for the current plan.
\<close>

datatype worker_state = W_None | W_Created | W_Head boot_worker | W_Round boot_worker

record boot_sys =
  by_mgr :: boot_mgr
  by_worker :: worker_state
  by_sent :: nat

datatype boot_op =
    Op_Manager_Start bool
  | Op_Create bool u32 "si_boot_key_sequence_config_t option"
  | Op_Approve bool u32 "string option" "string option"
  | Op_Start bool bool u32 "string option"
  | Op_Cancel bool u32 "string option" "string option"
  | Op_Confirm bool u32 "string option" "string option" "string option"
  | Op_Manual_Hid bool u32
  | Op_Worker boot_env

definition count_sends :: "boot_event list \<Rightarrow> nat" where
  "count_sends ev = length (filter (\<lambda>x. case x of Send_Key _ _ \<Rightarrow> True | _ \<Rightarrow> False) ev)"

definition worker_step :: "boot_sys \<Rightarrow> boot_env \<Rightarrow> boot_sys \<times> boot_event list" where
  "worker_step y e =
     (case by_worker y of
        W_None \<Rightarrow> (y, [])
      | W_Created \<Rightarrow>
          (case boot_key_task_prologue e (by_mgr y) of (m, w, ev) \<Rightarrow>
             (y\<lparr>by_mgr := m, by_worker := (case w of None \<Rightarrow> W_None | Some w \<Rightarrow> W_Head w)\<rparr>, ev))
      | W_Head w \<Rightarrow>
          (case task_snapshot (be_snapshot_locks e ! 0) (by_mgr y) w of (ok, w') \<Rightarrow>
             if ok then (y\<lparr>by_worker := W_Round w'\<rparr>, [])
             else (case task_finish e (by_mgr y) w' SI_BOOT_KEY_STATE_FAILED (Some ''boot-key status unavailable'') of
                     (m, ev) \<Rightarrow> (y\<lparr>by_mgr := m, by_worker := W_None\<rparr>, ev)))
      | W_Round w \<Rightarrow>
          (case boot_key_task_round e (by_mgr y) w of (m, w, ev) \<Rightarrow>
             (y\<lparr>by_mgr := m, by_worker := (case w of None \<Rightarrow> W_None | Some w \<Rightarrow> W_Head w),
                by_sent := by_sent y + count_sends ev\<rparr>, ev)))"

definition boot_step :: "boot_sys \<Rightarrow> boot_op \<Rightarrow> boot_sys" where
  "boot_step y oper =
     (let m = by_mgr y in
      case oper of
        Op_Manager_Start created \<Rightarrow> y\<lparr>by_mgr := snd (si_boot_key_manager_start created m)\<rparr>
      | Op_Create l now c \<Rightarrow>
          (case si_boot_key_plan_create l now m c None of (r, m', _) \<Rightarrow>
             y\<lparr>by_mgr := m', by_sent := (if r = ESP_OK then 0 else by_sent y)\<rparr>)
      | Op_Approve l now p s \<Rightarrow> y\<lparr>by_mgr := fst (snd (si_boot_key_plan_approve l now m p s None))\<rparr>
      | Op_Start l created now p \<Rightarrow>
          (case si_boot_key_plan_start l created now m p None of (r, m', _) \<Rightarrow>
             y\<lparr>by_mgr := m', by_worker := (if r = ESP_OK then W_Created else by_worker y)\<rparr>)
      | Op_Cancel l now p s \<Rightarrow> y\<lparr>by_mgr := fst (snd (si_boot_key_plan_cancel l now m p s None))\<rparr>
      | Op_Confirm l now p s v \<Rightarrow> y\<lparr>by_mgr := fst (snd (si_boot_key_plan_confirm l now m p s v None))\<rparr>
      | Op_Manual_Hid l now \<Rightarrow> y\<lparr>by_mgr := snd (si_boot_key_cancel_for_manual_hid l now m)\<rparr>
      | Op_Worker e \<Rightarrow> fst (worker_step y e))"

definition boot_initial :: boot_sys where
  "boot_initial = \<lparr>by_mgr = \<lparr>bm_lock = False, bm_task = False, bm_status = zero_boot_status, bm_plan_seq = 0\<rparr>,
     by_worker = W_None, by_sent = 0\<rparr>"

end
