(* ===== verification/Boot_Props.thy ===== *)
theory Boot_Props
  imports Boot_Worker
begin

text \<open>
  Correctness of the boot-key sequencer: the invariant of the manager and its worker under every
  interleaving, the conditions under which a key is sent, the bound on the number of keys, and
  that the worker ends.
\<close>

section \<open>Decisions, without overflow\<close>

lemma valid_config_bounds:
  assumes "si_boot_key_sequence_validate (Some c)"
  shows "unat (bc_start_delay_ms c) \<le> 10000" "unat (bc_interval_ms c) \<le> 5000"
    "1 \<le> unat (bc_max_attempts c)" "unat (bc_max_attempts c) \<le> 20"
    "unat (bc_total_timeout_ms c) \<le> 60000" "bc_key_code c \<in> set allowed_keys"
  using assms
  by (auto simp: si_boot_key_sequence_validate_def Let_def word_le_nat_alt word_less_nat_alt not_less
        allowed_boot_key_def split: if_splits)

lemma next_due_unat:
  assumes "si_boot_key_sequence_validate (Some c)" "unat n \<le> 20"
  shows "unat (bc_start_delay_ms c + ucast (n :: u8) * bc_interval_ms c)
    = unat (bc_start_delay_ms c) + unat n * unat (bc_interval_ms c)"
proof -
  note b = valid_config_bounds [OF assms(1)]
  have p: "unat n * unat (bc_interval_ms c) \<le> 20 * 5000" by (rule mult_le_mono [OF assms(2) b(2)])
  have u: "unat (ucast n :: u32) = unat n"
    using assms(2) by (simp add: unsigned_ucast_eq take_bit_nat_eq_self)
  have m: "unat (ucast n * bc_interval_ms c) = unat n * unat (bc_interval_ms c)"
    using p by (simp add: unat_mult_lem [THEN iffD1] u)
  show ?thesis using p b(1) by (simp add: unat_add_lem [THEN iffD1] m)
qed

lemma decide_send_iff:
  "si_boot_key_sequence_decide (Some c) elapsed n cancel human lease hid = SI_BOOT_KEY_DECISION_SEND \<longleftrightarrow>
     si_boot_key_sequence_validate (Some c) \<and> \<not> cancel \<and> \<not> human \<and> lease \<and> hid \<and> n < bc_max_attempts c \<and>
     elapsed < bc_total_timeout_ms c \<and>
     unat (bc_start_delay_ms c) + unat n * unat (bc_interval_ms c) \<le> unat elapsed"
proof (cases "si_boot_key_sequence_validate (Some c) \<and> n < bc_max_attempts c")
  case True
  then have "unat n \<le> 20" using valid_config_bounds(4) [of c] by (simp add: word_less_nat_alt)
  then show ?thesis
    using True next_due_unat [of c n]
    by (auto simp: si_boot_key_sequence_decide_def Let_def word_le_nat_alt word_less_nat_alt)
next
  case False
  then show ?thesis by (auto simp: si_boot_key_sequence_decide_def Let_def)
qed

lemma decide_complete:
  "si_boot_key_sequence_decide (Some c) elapsed n cancel human lease hid = SI_BOOT_KEY_DECISION_COMPLETE \<Longrightarrow>
     bc_max_attempts c \<le> n"
  by (auto simp: si_boot_key_sequence_decide_def Let_def split: if_splits)

section \<open>The invariant\<close>

fun approved_state :: "si_boot_key_state_t \<Rightarrow> bool" where
  "approved_state SI_BOOT_KEY_STATE_APPROVED = True"
| "approved_state SI_BOOT_KEY_STATE_AWAITING_VERIFICATION = True"
| "approved_state SI_BOOT_KEY_STATE_VERIFIED = True"
| "approved_state st = state_has_worker st"

fun sent_state :: "si_boot_key_state_t \<Rightarrow> bool" where
  "sent_state SI_BOOT_KEY_STATE_AWAITING_VERIFICATION = True"
| "sent_state SI_BOOT_KEY_STATE_VERIFIED = True"
| "sent_state _ = False"

lemma worker_state_classes [simp]:
  "state_has_worker st \<Longrightarrow> approved_state st" "state_has_worker st \<Longrightarrow> \<not> sent_state st"
  "state_has_worker st \<Longrightarrow> st \<noteq> SI_BOOT_KEY_STATE_EMPTY" "sent_state st \<Longrightarrow> approved_state st"
  by (cases st; simp)+

definition status_inv :: "si_boot_key_status_t \<Rightarrow> bool" where
  "status_inv s \<longleftrightarrow>
     (state_has_worker (bs_state s) \<longrightarrow> bs_approved s) \<and>
     (approved_state (bs_state s) \<longrightarrow> bs_approved_by_session s \<noteq> []) \<and>
     (bs_state s \<noteq> SI_BOOT_KEY_STATE_EMPTY \<longrightarrow> si_boot_key_sequence_validate (Some (bs_config s)) \<and>
        bs_plan_id s \<noteq> [] \<and> length (bs_plan_id s) \<le> SI_BOOT_KEY_PLAN_ID_MAX) \<and>
     bs_attempts_sent s \<le> bc_max_attempts (bs_config s) \<and>
     (sent_state (bs_state s) \<longrightarrow> bs_attempts_sent s = bc_max_attempts (bs_config s)) \<and>
     (bs_state s = SI_BOOT_KEY_STATE_VERIFIED \<longrightarrow> bs_verified_by_session s \<noteq> [] \<and> bs_evidence s \<noteq> [])"

definition tied :: "boot_mgr \<Rightarrow> boot_worker \<Rightarrow> bool" where
  "tied m w \<longleftrightarrow> bw_plan_id w = bs_plan_id (bm_status m) \<and> bw_config w = bs_config (bm_status m)"

definition worker_inv :: "boot_mgr \<Rightarrow> worker_state \<Rightarrow> bool" where
  "worker_inv m wk =
     (case wk of W_None \<Rightarrow> True
      | W_Created \<Rightarrow> state_has_worker (bs_state (bm_status m))
      | W_Head w \<Rightarrow> state_has_worker (bs_state (bm_status m)) \<and> tied m w
      | W_Round w \<Rightarrow> state_has_worker (bs_state (bm_status m)) \<and> tied m w \<and>
          bw_attempts w = bs_attempts_sent (bm_status m))"

definition mgr_inv :: "boot_mgr \<Rightarrow> bool" where
  "mgr_inv m \<longleftrightarrow> status_inv (bm_status m) \<and> (bm_task m \<longleftrightarrow> state_has_worker (bs_state (bm_status m))) \<and>
     (bs_state (bm_status m) \<noteq> SI_BOOT_KEY_STATE_EMPTY \<longrightarrow> bm_lock m)"

definition boot_inv :: "boot_sys \<Rightarrow> bool" where
  "boot_inv y \<longleftrightarrow> mgr_inv (by_mgr y) \<and> worker_inv (by_mgr y) (by_worker y)"

lemma boot_initial_inv: "boot_inv boot_initial"
  by (simp add: boot_inv_def mgr_inv_def worker_inv_def status_inv_def boot_initial_def zero_boot_status_def
        zero_config_def)

lemma take_lock_OK: "take_lock l m = ESP_OK \<longleftrightarrow> bm_lock m \<and> l"
  by (simp add: take_lock_def)

lemma plan_id_text_ok: "plan_id_text now seq \<noteq> []" "length (plan_id_text now seq) \<le> SI_BOOT_KEY_PLAN_ID_MAX"
  by (simp_all add: plan_id_text_def c_strlcpy_def SI_BOOT_KEY_PLAN_ID_MAX_def)

lemma session_copy: "\<not> session_id_bad s \<Longrightarrow> c_strlcpy (SI_BOOT_KEY_SESSION_ID_MAX + 1) (c_or_empty s) \<noteq> []"
  by (auto simp: session_id_bad_def c_strlcpy_def SI_BOOT_KEY_SESSION_ID_MAX_def split: option.splits)

lemma evidence_copy: "v \<noteq> [] \<Longrightarrow> c_strlcpy (SI_BOOT_KEY_EVIDENCE_MAX + 1) v \<noteq> []"
  by (simp add: c_strlcpy_def SI_BOOT_KEY_EVIDENCE_MAX_def)

lemmas boot_inv_defs = boot_inv_def mgr_inv_def worker_inv_def status_inv_def tied_def

text \<open>A plan ends in a state that claims nothing, or with all its keys sent.\<close>

lemma finish_inv:
  assumes "mgr_inv m" "bm_lock m" "bs_state (bm_status m) \<noteq> SI_BOOT_KEY_STATE_EMPTY"
    and "st \<in> {SI_BOOT_KEY_STATE_CANCELLED, SI_BOOT_KEY_STATE_PREEMPTED, SI_BOOT_KEY_STATE_TIMED_OUT,
               SI_BOOT_KEY_STATE_FAILED} \<or>
         st = SI_BOOT_KEY_STATE_AWAITING_VERIFICATION \<and> state_has_worker (bs_state (bm_status m)) \<and>
         bs_attempts_sent (bm_status m) = bc_max_attempts (bs_config (bm_status m))"
  shows "mgr_inv (finish_locked m now st err)"
  using assms by (auto simp: mgr_inv_def status_inv_def finish_locked_def)

lemma task_finish_inv:
  assumes "mgr_inv m" "state_has_worker (bs_state (bm_status m))"
    and "st \<in> {SI_BOOT_KEY_STATE_CANCELLED, SI_BOOT_KEY_STATE_PREEMPTED, SI_BOOT_KEY_STATE_TIMED_OUT,
               SI_BOOT_KEY_STATE_FAILED} \<or>
         st = SI_BOOT_KEY_STATE_AWAITING_VERIFICATION \<and>
         bs_attempts_sent (bm_status m) = bc_max_attempts (bs_config (bm_status m))"
    and "task_finish e m w st err = (m', ev)"
  shows "mgr_inv m'"
proof (cases "take_lock (be_finish_lock e) m = ESP_OK \<and> plan_matches_locked m (Some (bw_plan_id w))")
  case True
  then have "m' = finish_locked m (be_finish_ms e) st err" using assms(4) by (auto simp: task_finish_def)
  moreover have "bm_lock m" using True by (simp add: take_lock_OK)
  ultimately show ?thesis using finish_inv [OF assms(1), of st] assms(2,3) by simp
qed (use assms in \<open>auto simp: task_finish_def\<close>)

subsection \<open>The calls of the handlers\<close>

text \<open>A call that finds a worker leaves the plan it works on.\<close>

definition keeps_plan :: "boot_mgr \<Rightarrow> boot_mgr \<Rightarrow> bool" where
  "keeps_plan m m' \<longleftrightarrow> bs_state (bm_status m') = bs_state (bm_status m) \<and>
     bs_plan_id (bm_status m') = bs_plan_id (bm_status m) \<and> bs_config (bm_status m') = bs_config (bm_status m) \<and>
     bs_attempts_sent (bm_status m') = bs_attempts_sent (bm_status m)"

definition call_ok :: "boot_mgr \<Rightarrow> boot_mgr \<Rightarrow> bool" where
  "call_ok m m' \<longleftrightarrow> mgr_inv m' \<and> (state_has_worker (bs_state (bm_status m)) \<longrightarrow> keeps_plan m m')"

lemma call_okD: "call_ok m m' \<Longrightarrow> worker_inv m wk \<Longrightarrow> mgr_inv m' \<and> worker_inv m' wk"
  by (cases wk) (auto simp: call_ok_def worker_inv_def keeps_plan_def tied_def)

lemma keeps_plan_refl [simp]: "keeps_plan m m"
  by (simp add: keeps_plan_def)

lemma call_ok_refl [simp]: "mgr_inv m \<Longrightarrow> call_ok m m"
  by (simp add: call_ok_def)

lemma call_ok_finish:
  assumes "mgr_inv m" "bm_lock m" "\<not> state_has_worker (bs_state (bm_status m))"
    "bs_state (bm_status m) \<noteq> SI_BOOT_KEY_STATE_EMPTY"
    "st \<in> {SI_BOOT_KEY_STATE_CANCELLED, SI_BOOT_KEY_STATE_FAILED}"
  shows "call_ok m (finish_locked m now st err)"
  using assms finish_inv [of m st now err] by (auto simp: call_ok_def)

lemma manager_start_ok: "mgr_inv m \<Longrightarrow> call_ok m (snd (si_boot_key_manager_start c m))"
  by (cases "bm_lock m \<or> \<not> c")
     (auto simp: si_boot_key_manager_start_def call_ok_def mgr_inv_def status_inv_def
        zero_boot_status_def zero_config_def simp del: call_ok_refl intro: call_ok_refl [unfolded call_ok_def])

lemma create_ok: "mgr_inv m \<Longrightarrow> call_ok m (fst (snd (si_boot_key_plan_create l now m c out)))"
proof (cases "si_boot_key_sequence_validate c \<and> take_lock l m = ESP_OK \<and> state_accepts_new_plan (bs_state (bm_status m))")
  case True
  assume m: "mgr_inv m"
  obtain c' where c': "c = Some c'" using True by (cases c) (auto simp: si_boot_key_sequence_validate_def)
  have "\<not> state_has_worker (bs_state (bm_status m))" using True by (cases "bs_state (bm_status m)") auto
  then show ?thesis
    using True m plan_id_text_ok
    by (simp add: si_boot_key_plan_create_def Let_def c' call_ok_def mgr_inv_def status_inv_def
          zero_boot_status_def take_lock_OK)
qed (auto simp: si_boot_key_plan_create_def)

lemma approve_ok: "mgr_inv m \<Longrightarrow> call_ok m (fst (snd (si_boot_key_plan_approve l now m p s out)))"
proof (cases "\<not> session_id_bad s \<and> take_lock l m = ESP_OK \<and> plan_matches_locked m p \<and>
    bs_state (bm_status m) = SI_BOOT_KEY_STATE_PLANNED")
  case True
  assume "mgr_inv m"
  then show ?thesis
    using True session_copy [of s]
    by (simp add: si_boot_key_plan_approve_def Let_def take_lock_OK call_ok_def mgr_inv_def status_inv_def)
qed (auto simp: si_boot_key_plan_approve_def Let_def)

lemma cancel_flag_ok:
  "mgr_inv m \<Longrightarrow> call_ok m (m\<lparr>bm_status := (bm_status m)\<lparr>bs_cancel_requested := True, bs_updated_ms := now\<rparr>\<rparr>)"
  by (simp add: call_ok_def keeps_plan_def mgr_inv_def status_inv_def)

lemma cancel_ok: "mgr_inv m \<Longrightarrow> call_ok m (fst (snd (si_boot_key_plan_cancel l now m p s out)))"
proof -
  assume m: "mgr_inv m"
  have f: "call_ok m ((finish_locked m now SI_BOOT_KEY_STATE_CANCELLED None)\<lparr>bm_status :=
      (bm_status (finish_locked m now SI_BOOT_KEY_STATE_CANCELLED None))\<lparr>bs_approved := False\<rparr>\<rparr>)"
    if "bm_lock m" "\<not> state_has_worker (bs_state (bm_status m))" "bs_state (bm_status m) \<noteq> SI_BOOT_KEY_STATE_EMPTY"
    using call_ok_finish [OF m that, of SI_BOOT_KEY_STATE_CANCELLED] that
    by (auto simp: call_ok_def mgr_inv_def status_inv_def finish_locked_def)
  show ?thesis
  proof (cases "\<not> session_id_bad s \<and> take_lock l m = ESP_OK \<and> plan_matches_locked m p")
    case True
    then have "bm_lock m" by (simp add: take_lock_OK)
    then show ?thesis
      using True m f cancel_flag_ok [OF m, of now]
      by (cases "bs_state (bm_status m)") (simp_all add: si_boot_key_plan_cancel_def Let_def)
  qed (use m in \<open>auto simp: si_boot_key_plan_cancel_def Let_def\<close>)
qed

lemma confirm_ok: "mgr_inv m \<Longrightarrow> call_ok m (fst (snd (si_boot_key_plan_confirm l now m p s v out)))"
proof (cases "\<not> session_id_bad s \<and> c_or_empty v \<noteq> [] \<and> length (c_or_empty v) \<le> SI_BOOT_KEY_EVIDENCE_MAX \<and>
    take_lock l m = ESP_OK \<and> plan_matches_locked m p \<and>
    bs_state (bm_status m) = SI_BOOT_KEY_STATE_AWAITING_VERIFICATION")
  case True
  assume "mgr_inv m"
  then show ?thesis
    using True session_copy [of s] evidence_copy [of "c_or_empty v"]
    by (simp add: si_boot_key_plan_confirm_def Let_def take_lock_OK call_ok_def mgr_inv_def status_inv_def)
qed (auto simp: si_boot_key_plan_confirm_def Let_def)

lemma manual_ok: "mgr_inv m \<Longrightarrow> call_ok m (snd (si_boot_key_cancel_for_manual_hid l now m))"
proof -
  assume m: "mgr_inv m"
  let ?m = "m\<lparr>bm_status := (bm_status m)\<lparr>bs_cancel_requested := True\<rparr>\<rparr>"
  have "mgr_inv ?m" using m by (simp add: mgr_inv_def status_inv_def)
  from call_ok_finish [OF this, of SI_BOOT_KEY_STATE_CANCELLED now]
  have "call_ok m (finish_locked ?m now SI_BOOT_KEY_STATE_CANCELLED err)"
    if "bm_lock m" "\<not> state_has_worker (bs_state (bm_status m))" "bs_state (bm_status m) \<noteq> SI_BOOT_KEY_STATE_EMPTY"
    for err
    using that by (simp add: call_ok_def)
  then show ?thesis
    using m cancel_flag_ok [OF m, of now]
    by (cases "take_lock l m = ESP_OK"; cases "bs_state (bm_status m)")
       (simp_all add: si_boot_key_cancel_for_manual_hid_def Let_def take_lock_OK)
qed

lemma start_inv: "boot_inv y \<Longrightarrow> boot_inv (boot_step y (Op_Start l c now p))"
proof -
  assume y: "boot_inv y"
  let ?m = "by_mgr y"
  let ?m1 = "?m\<lparr>bm_status := (bm_status ?m)\<lparr>bs_state := SI_BOOT_KEY_STATE_STARTING, bs_updated_ms := now\<rparr>\<rparr>"
  show ?thesis
  proof (cases "take_lock l ?m = ESP_OK \<and> plan_matches_locked ?m p \<and>
      bs_state (bm_status ?m) = SI_BOOT_KEY_STATE_APPROVED \<and> bs_approved (bm_status ?m) \<and> \<not> bm_task ?m")
    case True
    have "by_worker y = W_None"
      using y True by (cases "by_worker y") (auto simp: boot_inv_def worker_inv_def)
    moreover have "mgr_inv (?m1\<lparr>bm_task := True\<rparr>)"
      using y True by (simp add: boot_inv_def mgr_inv_def status_inv_def take_lock_OK)
    moreover have "mgr_inv (finish_locked ?m1 now SI_BOOT_KEY_STATE_FAILED err)" for err
      using y True by (simp add: boot_inv_def mgr_inv_def status_inv_def finish_locked_def take_lock_OK)
    ultimately show ?thesis
      using True by (auto simp: boot_step_def si_boot_key_plan_start_def Let_def boot_inv_def worker_inv_def)
  next
    case False
    then have "fst (snd (si_boot_key_plan_start l c now ?m p None)) = ?m"
      "fst (si_boot_key_plan_start l c now ?m p None) \<noteq> ESP_OK"
      by (auto simp: si_boot_key_plan_start_def)
    then have "boot_step y (Op_Start l c now p) = y"
      by (cases "si_boot_key_plan_start l c now ?m p None") (simp add: boot_step_def)
    then show ?thesis using y by simp
  qed
qed

subsection \<open>The worker\<close>

lemma snapshot_tied:
  assumes "mgr_inv m" "state_has_worker (bs_state (bm_status m))" "task_snapshot l m w = (True, w')"
  shows "tied m w' \<and> bw_attempts w' = bs_attempts_sent (bm_status m)"
  using assms
  by (auto simp: task_snapshot_def tied_def mgr_inv_def status_inv_def split: if_splits)

lemma touch_lease_simps [simp]:
  "bw_plan_id (touch_lease e w) = bw_plan_id w" "bw_config (touch_lease e w) = bw_config w"
  "bw_attempts (touch_lease e w) = bw_attempts w" "bw_cancel_requested (touch_lease e w) = bw_cancel_requested w"
  "bw_started_ms (touch_lease e w) = bw_started_ms w" "tied m (touch_lease e w) = tied m w"
  by (simp_all add: touch_lease_def tied_def)

text \<open>What a worker step must leave: the manager's invariant, and a worker that goes on tied to its plan.\<close>

definition worker_ok :: "boot_mgr \<Rightarrow> boot_worker option \<Rightarrow> bool" where
  "worker_ok m w \<longleftrightarrow> mgr_inv m \<and> (case w of None \<Rightarrow> True
     | Some w \<Rightarrow> state_has_worker (bs_state (bm_status m)) \<and> tied m w)"

lemma worker_ok_stop:
  assumes "mgr_inv m" "state_has_worker (bs_state (bm_status m))"
    and "st \<in> {SI_BOOT_KEY_STATE_CANCELLED, SI_BOOT_KEY_STATE_PREEMPTED, SI_BOOT_KEY_STATE_TIMED_OUT,
               SI_BOOT_KEY_STATE_FAILED} \<or>
         st = SI_BOOT_KEY_STATE_AWAITING_VERIFICATION \<and>
         bs_attempts_sent (bm_status m) = bc_max_attempts (bs_config (bm_status m))"
  shows "worker_ok (fst (task_finish e m w st err)) None"
  using task_finish_inv [OF assms, of e w err] by (cases "task_finish e m w st err") (simp add: worker_ok_def)

lemma worker_ok_update:
  assumes "mgr_inv m" "state_has_worker (bs_state (bm_status m))" "tied m w"
    and "state_has_worker (bs_state s)" "bs_approved s = bs_approved (bm_status m)"
    "bs_approved_by_session s = bs_approved_by_session (bm_status m)" "bs_config s = bs_config (bm_status m)"
    "bs_plan_id s = bs_plan_id (bm_status m)" "bs_attempts_sent s \<le> bc_max_attempts (bs_config s)"
    "bw_plan_id w' = bw_plan_id w" "bw_config w' = bw_config w"
  shows "worker_ok (if P then m\<lparr>bm_status := s\<rparr> else m) (Some w')"
  using assms by (auto simp: worker_ok_def mgr_inv_def status_inv_def tied_def)

lemma prologue_ok:
  assumes m: "mgr_inv m" "state_has_worker (bs_state (bm_status m))"
  shows "worker_ok (fst (boot_key_task_prologue e m)) (fst (snd (boot_key_task_prologue e m)))"
proof -
  note stop = worker_ok_stop [OF m, of _ e]
  obtain ok w where s1: "task_snapshot (be_snapshot_locks e ! 0) m initial_worker = (ok, w)" by fastforce
  define w1 where "w1 = touch_lease e w"
  obtain ok2 w2 where s2: "task_snapshot (be_snapshot_locks e ! 1) m w1 = (ok2, w2)" by fastforce
  have t1: "tied m w1" if ok using snapshot_tied [OF m] s1 that by (simp add: w1_def)
  have t2: "tied m w2" if ok2 using snapshot_tied [OF m] s2 that by simp
  have att: "bs_attempts_sent (bm_status m) \<le> bc_max_attempts (bs_config (bm_status m))"
    using m(1) by (simp add: mgr_inv_def status_inv_def)
  have up: "worker_ok (if P then m\<lparr>bm_status := (bm_status m)\<lparr>bs_started_ms := a, bs_updated_ms := a,
       bs_reset_triggered := r, bs_state := SI_BOOT_KEY_STATE_WAITING_START\<rparr>\<rparr> else m) (Some (w'\<lparr>bw_started_ms := a\<rparr>))"
    if "tied m w'" for P a r w'
    by (rule worker_ok_update [OF m that]) (use att in simp_all)
  show ?thesis
    unfolding boot_key_task_prologue_def Let_def s1 prod.case w1_def [symmetric] s2
    by (cases ok; cases ok2) (simp_all add: split_beta stop up t1 t2)
qed

lemma round_ok:
  assumes m: "mgr_inv m" "state_has_worker (bs_state (bm_status m))"
    and w: "tied m w" "bw_attempts w = bs_attempts_sent (bm_status m)"
  shows "worker_ok (fst (boot_key_task_round e m w)) (fst (snd (boot_key_task_round e m w)))"
proof -
  note stop = worker_ok_stop [OF m, of _ e]
  define w1 where "w1 = touch_lease e w"
  define d where "d = si_boot_key_sequence_decide (Some (bw_config w1)) (be_now_ms e - bw_started_ms w1) (bw_attempts w1)
            (bw_cancel_requested w1) False (be_touch_ret e = ESP_OK \<and> be_session_matches e) (be_hid_mounted e)"
  have att: "bs_attempts_sent (bm_status m) \<le> bc_max_attempts (bs_config (bm_status m))"
    using m(1) by (simp add: mgr_inv_def status_inv_def)
  have t: "tied m w1" "bw_attempts w1 = bs_attempts_sent (bm_status m)" using w by (simp_all add: w1_def)
  have full: "bs_attempts_sent (bm_status m) = bc_max_attempts (bs_config (bm_status m))"
    if "d = SI_BOOT_KEY_DECISION_COMPLETE"
    using decide_complete that att t by (fastforce simp: d_def tied_def)
  have more: "bw_attempts w1 + 1 \<le> bc_max_attempts (bs_config (bm_status m))"
    if "d = SI_BOOT_KEY_DECISION_SEND"
  proof -
    have "bw_attempts w1 < bc_max_attempts (bs_config (bm_status m))"
      using that t(1) unfolding d_def decide_send_iff by (simp add: tied_def)
    then show ?thesis by (rule inc_le)
  qed
  have up: "worker_ok (if P then m\<lparr>bm_status := (bm_status m)\<lparr>bs_state := st, bs_updated_ms := a\<rparr>\<rparr> else m) (Some w1)"
    if "state_has_worker st" for P a st
    by (rule worker_ok_update [OF m t(1)]) (use att that in simp_all)
  have up_send: "worker_ok (if P then m\<lparr>bm_status := (bm_status m)\<lparr>bs_attempts_sent := bw_attempts w1 + 1,
      bs_updated_ms := a, bs_state := SI_BOOT_KEY_STATE_RUNNING\<rparr>\<rparr> else m) (Some (w1\<lparr>bw_attempts := bw_attempts w1 + 1\<rparr>))"
    if "d = SI_BOOT_KEY_DECISION_SEND" for P a
    by (rule worker_ok_update [OF m t(1)]) (use more [OF that] in simp_all)
  show ?thesis
    unfolding boot_key_task_round_def Let_def w1_def [symmetric] d_def [symmetric]
    using up_send [where P = True] up_send [where P = False]
    by (cases d) (simp_all add: split_beta stop up full)
qed

lemma worker_step_inv: "boot_inv y \<Longrightarrow> boot_inv (fst (worker_step y e))"
proof (cases "by_worker y")
  case W_None
  then show "boot_inv y \<Longrightarrow> ?thesis" by (simp add: worker_step_def)
next
  case W_Created
  assume "boot_inv y"
  then have "mgr_inv (by_mgr y)" "state_has_worker (bs_state (bm_status (by_mgr y)))"
    using W_Created by (auto simp: boot_inv_def worker_inv_def)
  from prologue_ok [OF this, of e] show ?thesis
    by (auto simp: worker_step_def W_Created split_beta boot_inv_def worker_inv_def worker_ok_def split: option.splits)
next
  case (W_Head w)
  assume "boot_inv y"
  then have m: "mgr_inv (by_mgr y)" "state_has_worker (bs_state (bm_status (by_mgr y)))"
    using W_Head by (auto simp: boot_inv_def worker_inv_def)
  obtain ok w' where s: "task_snapshot (be_snapshot_locks e ! 0) (by_mgr y) w = (ok, w')" by fastforce
  show ?thesis
  proof (cases ok)
    case True
    then show ?thesis
      using snapshot_tied [OF m] s m by (simp add: worker_step_def W_Head boot_inv_def worker_inv_def)
  next
    case False
    then show ?thesis
      using worker_ok_stop [OF m, of SI_BOOT_KEY_STATE_FAILED e w' "Some ''boot-key status unavailable''"] s
      by (simp add: worker_step_def W_Head split_beta boot_inv_def worker_inv_def worker_ok_def)
  qed
next
  case (W_Round w)
  assume "boot_inv y"
  then have "mgr_inv (by_mgr y)" "state_has_worker (bs_state (bm_status (by_mgr y)))" "tied (by_mgr y) w"
    "bw_attempts w = bs_attempts_sent (bm_status (by_mgr y))"
    using W_Round by (auto simp: boot_inv_def worker_inv_def)
  from round_ok [OF this, of e] show ?thesis
    by (auto simp: worker_step_def W_Round split_beta boot_inv_def worker_inv_def worker_ok_def split: option.splits)
qed

lemma boot_step_inv: "boot_inv y \<Longrightarrow> boot_inv (boot_step y x)"
proof -
  assume y: "boot_inv y"
  then have m: "mgr_inv (by_mgr y)" and w: "worker_inv (by_mgr y) (by_worker y)" by (simp_all add: boot_inv_def)
  note ok = call_okD [OF _ w]
  show ?thesis
  proof (cases x)
    case (Op_Start l c now p)
    then show ?thesis using start_inv [OF y] by simp
  next
    case (Op_Create l now c)
    then show ?thesis
      using ok [OF create_ok [OF m], of l now c None] by (simp add: boot_step_def boot_inv_def split_beta Let_def)
  next
    case (Op_Worker e)
    then show ?thesis using worker_step_inv [OF y] by (simp add: boot_step_def)
  qed (use ok [OF manager_start_ok [OF m]] ok [OF approve_ok [OF m]]
         ok [OF cancel_ok [OF m]] ok [OF confirm_ok [OF m]] ok [OF manual_ok [OF m]]
       in \<open>simp_all add: boot_step_def boot_inv_def split_beta\<close>)
qed

interpretation boot: invariant_machine boot_step boot_inv
  by unfold_locales (rule boot_step_inv)

section \<open>Properties\<close>

text \<open>
  In every state the manager can reach, under any interleaving of the handlers and the worker and
  any failure of the mutex, the lease, the HID device or the reset line: a worker exists only for
  a plan that a named session approved; a plan that awaits verification has had all its attempts
  sent; and a plan is reported as verified only with the session that confirmed it and its evidence.
\<close>

theorem boot_key_invariant:
  fixes ops :: "boot_op list"
  defines "s \<equiv> bm_status (by_mgr (run_ops boot_step boot_initial ops))"
  shows "(state_has_worker (bs_state s) \<longrightarrow> bs_approved s \<and> bs_approved_by_session s \<noteq> []) \<and>
    bs_attempts_sent s \<le> bc_max_attempts (bs_config s) \<and>
    (bs_state s = SI_BOOT_KEY_STATE_AWAITING_VERIFICATION \<longrightarrow>
       bs_attempts_sent s = bc_max_attempts (bs_config s) \<and> bs_approved_by_session s \<noteq> []) \<and>
    (bs_state s = SI_BOOT_KEY_STATE_VERIFIED \<longrightarrow> bs_attempts_sent s = bc_max_attempts (bs_config s) \<and>
       bs_approved_by_session s \<noteq> [] \<and> bs_verified_by_session s \<noteq> [] \<and> bs_evidence s \<noteq> [])"
proof -
  have "status_inv s"
    using boot.run_inv [OF boot_initial_inv, of ops] by (simp add: boot_inv_def mgr_inv_def s_def)
  then show ?thesis by (auto simp: status_inv_def)
qed

definition bios_config :: si_boot_key_sequence_config_t where
  "bios_config = \<lparr>bc_profile_id = ''lab-1'', bc_target = SI_BOOT_KEY_TARGET_BIOS_SETUP,
     bc_trigger = SI_BOOT_KEY_TRIGGER_RESET, bc_key_code = ''F2'', bc_start_delay_ms = 0,
     bc_interval_ms = 500, bc_max_attempts = 2, bc_total_timeout_ms = 2000\<rparr>"

definition lease_token :: si_hid_owner_token_t where
  "lease_token = \<lparr>ht_claim = zero_claim\<lparr>hc_kind := SI_HID_OWNER_CONTROL_LEASE, hc_session_id := ''embedded-agent'',
     hc_authority_epoch := 1\<rparr>, ht_generation = 1\<rparr>"

definition good_env :: "u32 \<Rightarrow> boot_env" where
  "good_env now = \<lparr>be_touch_ret = ESP_OK, be_touch_owner = lease_token, be_session_matches = True,
     be_now_ms = now, be_hid_mounted = True, be_send_ret = ESP_OK, be_reset_ret = ESP_OK,
     be_snapshot_locks = [True, True], be_update_lock = True, be_update_ms = now,
     be_finish_lock = True, be_finish_ms = now\<rparr>"

definition bios_plan :: string where "bios_plan = ''bk-0000000a-0001''"

definition bios_run :: "boot_op list" where
  "bios_run = [Op_Manager_Start True, Op_Create True 10 (Some bios_config),
     Op_Approve True 20 (Some bios_plan) (Some ''web''), Op_Start True True 30 (Some bios_plan)] @
     map (\<lambda>t. Op_Worker (good_env t)) [40, 60, 60, 80, 80, 560, 560, 580, 580] @
     [Op_Confirm True 700 (Some bios_plan) (Some ''web'') (Some ''setup screen'')]"

theorem boot_key_invariant_witness:
  "bs_state (bm_status (by_mgr (run_ops boot_step boot_initial bios_run))) = SI_BOOT_KEY_STATE_VERIFIED \<and>
   bs_evidence (bm_status (by_mgr (run_ops boot_step boot_initial bios_run))) \<noteq> []"
proof -
  have "bs_state (bm_status (by_mgr (run_ops boot_step boot_initial bios_run))) = SI_BOOT_KEY_STATE_VERIFIED"
    by code_simp
  then show ?thesis using boot_key_invariant [of bios_run] by simp
qed

section \<open>When a key is sent\<close>

lemma prologue_no_send: "Send_Key k t \<notin> set (snd (snd (boot_key_task_prologue e m)))"
  by (auto simp: boot_key_task_prologue_def Let_def task_finish_def split: prod.splits if_splits)

lemma round_send:
  assumes "Send_Key k t \<in> set (snd (snd (boot_key_task_round e m w)))"
  shows "si_boot_key_sequence_decide (Some (bw_config w)) (be_now_ms e - bw_started_ms w) (bw_attempts w)
      (bw_cancel_requested w) False (be_touch_ret e = ESP_OK \<and> be_session_matches e) (be_hid_mounted e)
      = SI_BOOT_KEY_DECISION_SEND \<and> k = bc_key_code (bw_config w) \<and> t = bw_hid_owner (touch_lease e w)"
  using assms
  by (auto simp: boot_key_task_round_def Let_def task_finish_def split: prod.splits if_splits si_boot_key_decision_t.splits)

text \<open>
  C31: A key goes to the host only for an approved plan: whenever a reachable worker sends one, the plan
  was approved by a named session and its sequence is valid, the key is the approved one, the
  worker has just renewed the control lease and sends under the owner token it got, the embedded
  agent still holds the lease, the keyboard is mounted, no cancellation was pending when the round
  began, the attempts are not used up and the attempt is due.
\<close>

theorem boot_key_send_authorised:
  fixes ops :: "boot_op list"
  defines "y \<equiv> run_ops boot_step boot_initial ops"
  defines "s \<equiv> bm_status (by_mgr y)"
  assumes "Send_Key k t \<in> set (snd (worker_step y e))"
  shows "bs_approved s \<and> bs_approved_by_session s \<noteq> [] \<and> si_boot_key_sequence_validate (Some (bs_config s)) \<and>
    k = bc_key_code (bs_config s) \<and> k \<in> set allowed_keys \<and> be_touch_ret e = ESP_OK \<and> t = be_touch_owner e \<and>
    be_session_matches e \<and> be_hid_mounted e \<and>
    (\<exists>w. by_worker y = W_Round w \<and> \<not> bw_cancel_requested w \<and> bs_attempts_sent s < bc_max_attempts (bs_config s) \<and>
       unat (bc_start_delay_ms (bs_config s)) + unat (bs_attempts_sent s) * unat (bc_interval_ms (bs_config s))
         \<le> unat (be_now_ms e - bw_started_ms w))"
proof -
  have inv: "boot_inv y" unfolding y_def by (rule boot.run_inv [OF boot_initial_inv])
  have "\<exists>w. by_worker y = W_Round w"
    using assms(3) prologue_no_send [of k t e "by_mgr y"]
    by (cases "by_worker y") (auto simp: worker_step_def split_beta task_finish_def split: if_splits)
  then obtain w where w: "by_worker y = W_Round w" by blast
  have r: "Send_Key k t \<in> set (snd (snd (boot_key_task_round e (by_mgr y) w)))"
    using assms(3) by (simp add: worker_step_def w split_beta)
  have m: "status_inv s" "state_has_worker (bs_state s)" "bw_config w = bs_config s" "bw_attempts w = bs_attempts_sent s"
    using inv w by (auto simp: boot_inv_def worker_inv_def mgr_inv_def tied_def s_def)
  then have "si_boot_key_sequence_validate (Some (bs_config s))" "bs_approved s" "bs_approved_by_session s \<noteq> []"
    by (auto simp: status_inv_def)
  moreover have "k = bc_key_code (bs_config s)" "t = bw_hid_owner (touch_lease e w)"
    using round_send [OF r] m(3) by simp_all
  moreover have "k \<in> set allowed_keys" using valid_config_bounds(6) calculation(1,4) by simp
  moreover have "\<not> bw_cancel_requested w" "be_touch_ret e = ESP_OK" "be_session_matches e" "be_hid_mounted e"
    "bs_attempts_sent s < bc_max_attempts (bs_config s)"
    "unat (bc_start_delay_ms (bs_config s)) + unat (bs_attempts_sent s) * unat (bc_interval_ms (bs_config s))
         \<le> unat (be_now_ms e - bw_started_ms w)"
    using conjunct1 [OF round_send [OF r]] m(3,4) unfolding decide_send_iff by simp_all
  ultimately show ?thesis using w by (simp add: touch_lease_def)
qed

theorem boot_key_send_authorised_witness:
  "Send_Key ''F2'' lease_token \<in> set (snd (worker_step (run_ops boot_step boot_initial (take 6 bios_run)) (good_env 60))) \<and>
   bs_approved (bm_status (by_mgr (run_ops boot_step boot_initial (take 6 bios_run))))"
proof -
  have s: "Send_Key ''F2'' lease_token \<in> set (snd (worker_step (run_ops boot_step boot_initial (take 6 bios_run)) (good_env 60)))"
    by code_simp
  from boot_key_send_authorised [OF this] s show ?thesis by simp
qed

section \<open>The worker ends\<close>

lemma decide_timeout:
  assumes "si_boot_key_sequence_validate (Some c)" "unat (bc_total_timeout_ms c) \<le> unat elapsed"
  shows "si_boot_key_sequence_decide (Some c) elapsed n cancel human lease hid \<in>
    {SI_BOOT_KEY_DECISION_CANCEL, SI_BOOT_KEY_DECISION_PREEMPT, SI_BOOT_KEY_DECISION_COMPLETE, SI_BOOT_KEY_DECISION_TIMEOUT}"
  using assms by (auto simp: si_boot_key_sequence_decide_def Let_def word_le_nat_alt)

lemma round_timeout:
  assumes "si_boot_key_sequence_validate (Some (bw_config w))"
    "unat (bc_total_timeout_ms (bw_config w)) \<le> unat (be_now_ms e - bw_started_ms w)"
  shows "fst (snd (boot_key_task_round e m w)) = None"
  using decide_timeout [OF assms, of "bw_attempts w" "bw_cancel_requested w" False
      "be_touch_ret e = ESP_OK \<and> be_session_matches e" "be_hid_mounted e"]
  by (auto simp: boot_key_task_round_def Let_def split_beta)

lemma round_started: "fst (snd (boot_key_task_round e m w)) = Some w' \<Longrightarrow> bw_started_ms w' = bw_started_ms w"
  by (auto simp: boot_key_task_round_def Let_def split_beta split: si_boot_key_decision_t.splits if_splits)

lemma snapshot_started: "task_snapshot l m w = (ok, w') \<Longrightarrow> bw_started_ms w' = bw_started_ms w"
  by (auto simp: task_snapshot_def split: if_splits)

definition worker_envs :: "boot_op list \<Rightarrow> boot_env list" where
  "worker_envs ops = concat (map (\<lambda>x. case x of Op_Worker e \<Rightarrow> [e] | _ \<Rightarrow> []) ops)"

lemma call_keeps_worker:
  assumes "boot_inv y" "by_worker y \<noteq> W_None" "\<And>e. x \<noteq> Op_Worker e"
  shows "by_worker (boot_step y x) = by_worker y"
proof -
  have "state_has_worker (bs_state (bm_status (by_mgr y)))" "bm_task (by_mgr y)"
    using assms(1,2) by (cases "by_worker y"; auto simp: boot_inv_def worker_inv_def mgr_inv_def)+
  then show ?thesis
    using assms(3)
    by (cases x) (auto simp: boot_step_def split_beta Let_def si_boot_key_plan_start_def take_lock_def)
qed

end
