(* ===== verification/Boot_Live.thy ===== *)
theory Boot_Live
  imports Boot_Props
begin

text \<open>
  Progress of the boot-key worker: it ends within its timeout under every interleaving, it sends no
  more keys than planned as long as its own bookkeeping gets the mutex, and the one error path on
  which a plan is never reported as finished.
\<close>

section \<open>The worker ends\<close>

text \<open>
  The phase of a worker that has made \<open>k\<close> steps of its loop: at the head of a round after an even
  number, past the snapshot after an odd one.
\<close>

definition in_phase :: "boot_sys \<Rightarrow> nat \<Rightarrow> u32 \<Rightarrow> bool" where
  "in_phase y k t \<longleftrightarrow>
     (\<exists>w. by_worker y = (if even k then W_Head w else W_Round w) \<and> bw_started_ms w = t)"

lemma in_phase_step:
  assumes "boot_inv y" "in_phase y k t"
  shows "by_worker (fst (worker_step y e)) = W_None \<or> in_phase (fst (worker_step y e)) (Suc k) t"
proof -
  obtain w where w: "by_worker y = (if even k then W_Head w else W_Round w)" "bw_started_ms w = t"
    using assms(2) by (auto simp: in_phase_def)
  show ?thesis
  proof (cases "even k")
    case True
    obtain ok w' where s: "task_snapshot (be_snapshot_locks e ! 0) (by_mgr y) w = (ok, w')" by fastforce
    then show ?thesis
      using True w snapshot_started [OF s] by (auto simp: worker_step_def in_phase_def split_beta)
  next
    case False
    then show ?thesis
      using w round_started [of e "by_mgr y" w]
      by (cases "fst (snd (boot_key_task_round e (by_mgr y) w))") (auto simp: worker_step_def in_phase_def split_beta)
  qed
qed

lemma in_phase_timeout:
  assumes "boot_inv y" "in_phase y k t" "odd k" "60000 \<le> unat (be_now_ms e - t)"
  shows "by_worker (fst (worker_step y e)) = W_None"
proof -
  obtain w where w: "by_worker y = W_Round w" "bw_started_ms w = t"
    using assms(2,3) by (auto simp: in_phase_def)
  have v: "si_boot_key_sequence_validate (Some (bw_config w))"
    using assms(1) w(1) by (auto simp: boot_inv_def worker_inv_def tied_def mgr_inv_def status_inv_def)
  have "unat (bc_total_timeout_ms (bw_config w)) \<le> unat (be_now_ms e - bw_started_ms w)"
    using valid_config_bounds(5) [OF v] assms(4) w(2) by simp
  from round_timeout [OF v this] show ?thesis by (simp add: worker_step_def w(1) split_beta)
qed

lemma worker_envs_simps [simp]:
  "worker_envs [] = []" "worker_envs (Op_Worker e # xs) = e # worker_envs xs"
  "(\<And>e. x \<noteq> Op_Worker e) \<Longrightarrow> worker_envs (x # xs) = worker_envs xs"
  by (simp_all add: worker_envs_def split: boot_op.split)

lemma worker_ends_from:
  assumes "boot_inv y" "in_phase y k t" "k \<le> 6001" "6002 - k \<le> length (worker_envs ops)"
    and "\<And>i. k + i < 6002 \<Longrightarrow> 10 * (k + i) \<le> unat (be_now_ms (worker_envs ops ! i) - t)"
  shows "\<exists>n. by_worker (run_ops boot_step y (take n ops)) = W_None"
  using assms
proof (induction ops arbitrary: y k)
  case Nil
  then show ?case by simp
next
  case (Cons x ops)
  note inv' = boot_step_inv [OF Cons.prems(1), of x]
  have shift: ?case if "by_worker (run_ops boot_step (boot_step y x) (take n ops)) = W_None" for n
    using that by (intro exI [of _ "Suc n"]) simp
  show ?case
  proof (cases "\<exists>e. x = Op_Worker e")
    case True
    then obtain e where x: "x = Op_Worker e" by blast
    have step: "boot_step y x = fst (worker_step y e)" by (simp add: x boot_step_def)
    have now: "10 * k \<le> unat (be_now_ms e - t)" using Cons.prems(5) [of 0] Cons.prems(3) x by simp
    show ?thesis
    proof (cases "by_worker (boot_step y x) = W_None")
      case True
      then show ?thesis using shift [of 0] by simp
    next
      case False
      then have ph: "in_phase (boot_step y x) (Suc k) t"
        using in_phase_step [OF Cons.prems(1,2)] step by metis
      have "k \<noteq> 6001"
      proof
        assume "k = 6001"
        then have "by_worker (fst (worker_step y e)) = W_None"
          using in_phase_timeout [OF Cons.prems(1,2), of e] now by simp
        then show False using False step by simp
      qed
      then have k: "Suc k \<le> 6001" using Cons.prems(3) by simp
      have "10 * (Suc k + i) \<le> unat (be_now_ms (worker_envs ops ! i) - t)" if "Suc k + i < 6002" for i
        using Cons.prems(5) [of "Suc i"] that x by simp
      then have "\<exists>n. by_worker (run_ops boot_step (boot_step y x) (take n ops)) = W_None"
        using Cons.IH [OF inv' ph k] Cons.prems(4) x by simp
      then show ?thesis using shift by blast
    qed
  next
    case False
    have "by_worker y \<noteq> W_None" using Cons.prems(2) by (auto simp: in_phase_def split: if_splits)
    then have "by_worker (boot_step y x) = by_worker y"
      using call_keeps_worker [OF Cons.prems(1)] False by blast
    then have "in_phase (boot_step y x) k t" using Cons.prems(2) by (simp add: in_phase_def)
    moreover have "worker_envs (x # ops) = worker_envs ops" using False by simp
    ultimately have "\<exists>n. by_worker (run_ops boot_step (boot_step y x) (take n ops)) = W_None"
      using Cons.IH [OF inv'] Cons.prems(3-5) by simp
    then show ?thesis using shift by blast
  qed
qed

text \<open>
  C32: The worker always ends. Take any reachable state with a worker at the head of its loop and any
  further run, however the calls of the handlers and the steps of the worker are interleaved and
  whatever the lease, the device, the mutex and the cancel flag do. If the clock moves on by at
  least 20 ms per round (the delay between rounds) counted from the worker's start, the worker has
  ended after at most 3001 rounds, one minute.
\<close>

theorem boot_key_worker_ends:
  assumes "by_worker (run_ops boot_step boot_initial pre) = W_Head w"
    and "6002 \<le> length (worker_envs ops)"
    and "\<forall>i < 6002. 10 * i \<le> unat (be_now_ms (worker_envs ops ! i) - bw_started_ms w)"
  shows "\<exists>n. by_worker (run_ops boot_step boot_initial (pre @ take n ops)) = W_None"
proof -
  let ?y = "run_ops boot_step boot_initial pre"
  have "boot_inv ?y" by (rule boot.run_inv [OF boot_initial_inv])
  moreover have "in_phase ?y 0 (bw_started_ms w)" using assms(1) by (simp add: in_phase_def)
  ultimately show ?thesis using worker_ends_from [of ?y 0 "bw_started_ms w" ops] assms(2,3) by simp
qed

definition idle_env :: "nat \<Rightarrow> boot_env" where
  "idle_env i = (good_env (40 + of_nat (10 * i)))\<lparr>be_hid_mounted := False\<rparr>"

lemma worker_envs_map: "worker_envs (map (\<lambda>i. Op_Worker (f i)) xs) = map f xs"
  by (induction xs) simp_all

theorem boot_key_worker_ends_witness:
  "\<exists>n. by_worker (run_ops boot_step boot_initial
     (take 5 bios_run @ take n (map (\<lambda>i. Op_Worker (idle_env i)) [0..<6002]))) = W_None"
proof -
  let ?ops = "map (\<lambda>i. Op_Worker (idle_env i)) [0..<6002]"
  define w where "w = initial_worker\<lparr>bw_plan_id := bios_plan, bw_config := bios_config,
      bw_hid_owner := lease_token, bw_started_ms := 40\<rparr>"
  have h: "by_worker (run_ops boot_step boot_initial (take 5 bios_run)) = W_Head w"
    unfolding w_def by code_simp
  have "unat (be_now_ms (idle_env i) - 40) = 10 * i" if "i < 6002" for i
  proof -
    have "be_now_ms (idle_env i) - 40 = of_nat (10 * i)" unfolding idle_env_def good_env_def by simp
    moreover have "10 * i < 2 ^ LENGTH(32)" using that by simp
    ultimately show ?thesis by (simp only: unat_of_nat mod_less)
  qed
  then have "\<forall>i < 6002. 10 * i \<le> unat (be_now_ms (worker_envs ?ops ! i) - bw_started_ms w)"
    unfolding worker_envs_map by (simp add: w_def)
  moreover have "6002 \<le> length (worker_envs ?ops)" unfolding worker_envs_map by simp
  ultimately show ?thesis using boot_key_worker_ends [OF h] by blast
qed

section \<open>The number of keys\<close>

definition sent_inv :: "boot_sys \<Rightarrow> bool" where
  "sent_inv y \<longleftrightarrow>
     by_sent y \<le> unat (bc_max_attempts (bs_config (bm_status (by_mgr y)))) \<and>
     (by_worker y \<noteq> W_None \<longrightarrow> by_sent y \<le> unat (bs_attempts_sent (bm_status (by_mgr y)))) \<and>
     (bs_state (bm_status (by_mgr y)) \<in> {SI_BOOT_KEY_STATE_EMPTY, SI_BOOT_KEY_STATE_PLANNED, SI_BOOT_KEY_STATE_APPROVED}
        \<longrightarrow> by_sent y = 0)"

text \<open>A call of a handler keeps the configuration and the count, or starts a plan afresh.\<close>

definition counts_kept :: "boot_mgr \<Rightarrow> boot_mgr \<Rightarrow> bool" where
  "counts_kept m m' \<longleftrightarrow> bs_config (bm_status m') = bs_config (bm_status m) \<and>
     bs_attempts_sent (bm_status m') = bs_attempts_sent (bm_status m) \<and>
     (bs_state (bm_status m') \<in> {SI_BOOT_KEY_STATE_EMPTY, SI_BOOT_KEY_STATE_PLANNED, SI_BOOT_KEY_STATE_APPROVED} \<longrightarrow>
      bs_state (bm_status m) \<in> {SI_BOOT_KEY_STATE_EMPTY, SI_BOOT_KEY_STATE_PLANNED, SI_BOOT_KEY_STATE_APPROVED})"

lemma counts_kept_calls:
  "counts_kept m (fst (snd (si_boot_key_plan_approve l now m p s out)))"
  "counts_kept m (fst (snd (si_boot_key_plan_cancel l now m p s out)))"
  "counts_kept m (fst (snd (si_boot_key_plan_confirm l now m p s v out)))"
  "counts_kept m (snd (si_boot_key_cancel_for_manual_hid l now m))"
  "counts_kept m (fst (snd (si_boot_key_plan_start l c now m p out)))"
  by (simp_all add: counts_kept_def si_boot_key_plan_approve_def si_boot_key_plan_cancel_def Let_def
        si_boot_key_plan_confirm_def si_boot_key_cancel_for_manual_hid_def si_boot_key_plan_start_def finish_locked_def)

lemma sent_inv_kept:
  "sent_inv y \<Longrightarrow> counts_kept (by_mgr y) m' \<Longrightarrow> by_worker y' = by_worker y \<or> by_worker y' = W_None \<Longrightarrow>
   by_mgr y' = m' \<Longrightarrow> by_sent y' = by_sent y \<Longrightarrow> sent_inv y'"
  by (auto simp: sent_inv_def counts_kept_def)

lemma sent_inv_zero: "by_sent y = 0 \<Longrightarrow> sent_inv y"
  by (simp add: sent_inv_def)

lemma finish_counts: "counts_kept m (fst (task_finish e m w st err))"
  if "st \<notin> {SI_BOOT_KEY_STATE_EMPTY, SI_BOOT_KEY_STATE_PLANNED, SI_BOOT_KEY_STATE_APPROVED}"
  using that by (simp add: task_finish_def counts_kept_def finish_locked_def)

lemma prologue_counts: "counts_kept m (fst (boot_key_task_prologue e m))"
  by (simp add: boot_key_task_prologue_def Let_def split_beta finish_counts)
     (simp add: counts_kept_def)

lemma prologue_silent: "count_sends (snd (snd (boot_key_task_prologue e m))) = 0"
  using prologue_no_send [of _ _ e m]
  by (fastforce simp: count_sends_def filter_empty_conv split: boot_event.split)

lemma task_finish_silent: "count_sends (snd (task_finish e m w st err)) = 0"
  by (simp add: task_finish_def count_sends_def)

lemma sent_inv_round:
  assumes y: "boot_inv y" "sent_inv y" "by_worker y = W_Round w" and l: "be_update_lock e"
  shows "sent_inv (fst (worker_step y e))"
proof -
  let ?m = "by_mgr y"
  define w1 where "w1 = touch_lease e w"
  define d where "d = si_boot_key_sequence_decide (Some (bw_config w1)) (be_now_ms e - bw_started_ms w1) (bw_attempts w1)
            (bw_cancel_requested w1) False (be_touch_ret e = ESP_OK \<and> be_session_matches e) (be_hid_mounted e)"
  have t: "tied ?m w" "bw_attempts w1 = bs_attempts_sent (bm_status ?m)" "state_has_worker (bs_state (bm_status ?m))"
    "bm_lock ?m" "bs_plan_id (bm_status ?m) \<noteq> []" "si_boot_key_sequence_validate (Some (bs_config (bm_status ?m)))"
    using y(1,3) by (auto simp: boot_inv_def worker_inv_def mgr_inv_def status_inv_def w1_def)
  then have upd: "take_lock (be_update_lock e) ?m = ESP_OK" "plan_matches_locked ?m (Some (bw_plan_id w))"
    using l by (simp_all add: take_lock_OK plan_matches_locked_def tied_def)
  have c: "by_sent y \<le> unat (bs_attempts_sent (bm_status ?m))" using y(2,3) by (simp add: sent_inv_def)
  have st: "bs_state (bm_status ?m) \<notin> {SI_BOOT_KEY_STATE_EMPTY, SI_BOOT_KEY_STATE_PLANNED, SI_BOOT_KEY_STATE_APPROVED}"
    using t(3) by auto
  have less: "unat (bs_attempts_sent (bm_status ?m)) < unat (bc_max_attempts (bs_config (bm_status ?m)))"
    if "d = SI_BOOT_KEY_DECISION_SEND"
    using that t(1,2) unfolding d_def decide_send_iff by (simp add: tied_def w1_def word_less_nat_alt)
  have suc: "unat (bs_attempts_sent (bm_status ?m) + 1) = Suc (unat (bs_attempts_sent (bm_status ?m)))"
    if "d = SI_BOOT_KEY_DECISION_SEND"
    using less [OF that] valid_config_bounds(4) [OF t(6)] by (simp add: unat_add_lem [THEN iffD1])
  have b: "by_sent y \<le> unat (bc_max_attempts (bs_config (bm_status ?m)))" using y(2) by (simp add: sent_inv_def)
  have fin: "bs_config (bm_status (fst (task_finish e ?m v s r))) = bs_config (bm_status ?m)"
    "bs_state (bm_status (fst (task_finish e ?m v s r)))
       \<notin> {SI_BOOT_KEY_STATE_EMPTY, SI_BOOT_KEY_STATE_PLANNED, SI_BOOT_KEY_STATE_APPROVED}"
    if "s \<notin> {SI_BOOT_KEY_STATE_EMPTY, SI_BOOT_KEY_STATE_PLANNED, SI_BOOT_KEY_STATE_APPROVED}" for v s r
    using that st by (simp_all add: task_finish_def finish_locked_def)
  have silent: "count_sends (Send_Key k tok # snd (task_finish e ?m v s r)) = 1" for k tok v s r
    using task_finish_silent [of e ?m v s r] by (simp add: count_sends_def)
  have none: "count_sends [] = 0" "count_sends [Send_Key k tok] = 1" for k tok by (simp_all add: count_sends_def)
  show ?thesis
    unfolding worker_step_def y(3) worker_state.case boot_key_task_round_def Let_def w1_def [symmetric] d_def [symmetric]
    using c b less suc st t(2)
    by (cases d) (simp_all add: upd split_beta sent_inv_def task_finish_silent silent none fin(1) fin(2) [simplified])
qed

lemma sent_inv_step:
  assumes y: "boot_inv y" "sent_inv y" and l: "\<And>e. x = Op_Worker e \<Longrightarrow> be_update_lock e"
  shows "sent_inv (boot_step y x)"
proof (cases x)
  case (Op_Manager_Start c)
  show ?thesis
  proof (cases "bm_lock (by_mgr y) \<or> \<not> c")
    case True
    then have "boot_step y x = y"
      using Op_Manager_Start by (auto simp: boot_step_def si_boot_key_manager_start_def Let_def)
    then show ?thesis using y(2) by simp
  next
    case False
    then have "by_sent y = 0" using y by (auto simp: boot_inv_def mgr_inv_def sent_inv_def)
    then show ?thesis using Op_Manager_Start by (intro sent_inv_zero) (simp add: boot_step_def)
  qed
next
  case (Op_Create l' now c)
  show ?thesis
  proof (cases "fst (si_boot_key_plan_create l' now (by_mgr y) c None) = ESP_OK")
    case True
    then show ?thesis using Op_Create by (intro sent_inv_zero) (simp add: boot_step_def split_beta Let_def)
  next
    case False
    then have "fst (snd (si_boot_key_plan_create l' now (by_mgr y) c None)) = by_mgr y"
      by (auto simp: si_boot_key_plan_create_def Let_def)
    then have "boot_step y x = y" using False Op_Create by (simp add: boot_step_def split_beta Let_def)
    then show ?thesis using y(2) by simp
  qed
next
  case (Op_Start l' c now p)
  show ?thesis
  proof (cases "fst (si_boot_key_plan_start l' c now (by_mgr y) p None) = ESP_OK")
    case True
    then have "bs_state (bm_status (by_mgr y)) = SI_BOOT_KEY_STATE_APPROVED"
      by (auto simp: si_boot_key_plan_start_def Let_def split: if_splits)
    then have "by_sent y = 0" using y(2) by (simp add: sent_inv_def)
    then show ?thesis using Op_Start by (intro sent_inv_zero) (simp add: boot_step_def split_beta Let_def)
  next
    case False
    then show ?thesis
      using Op_Start sent_inv_kept [OF y(2) counts_kept_calls(5)] by (simp add: boot_step_def split_beta)
  qed
next
  case (Op_Worker e)
  note step = sent_inv_kept [OF y(2)]
  show ?thesis
  proof (cases "by_worker y")
    case W_Created
    have "by_sent y \<le> unat (bs_attempts_sent (bm_status (by_mgr y)))" using y(2) W_Created by (simp add: sent_inv_def)
    then show ?thesis
      using Op_Worker W_Created y(2) prologue_counts [of "by_mgr y" e]
      by (auto simp: boot_step_def worker_step_def split_beta sent_inv_def counts_kept_def)
  next
    case (W_Head w)
    obtain ok w' where s: "task_snapshot (be_snapshot_locks e ! 0) (by_mgr y) w = (ok, w')" by fastforce
    then show ?thesis
      using Op_Worker W_Head y(2) finish_counts [of SI_BOOT_KEY_STATE_FAILED "by_mgr y" e w' "Some ''boot-key status unavailable''"]
      by (cases ok) (auto simp: boot_step_def worker_step_def split_beta sent_inv_def counts_kept_def)
  next
    case (W_Round w)
    then show ?thesis using sent_inv_round [OF y W_Round] l Op_Worker by (simp add: boot_step_def)
  next
    case W_None
    then show ?thesis using Op_Worker y(2) by (simp add: boot_step_def worker_step_def)
  qed
qed (use sent_inv_kept [OF y(2) counts_kept_calls(1)] sent_inv_kept [OF y(2) counts_kept_calls(2)]
       sent_inv_kept [OF y(2) counts_kept_calls(3)] sent_inv_kept [OF y(2) counts_kept_calls(4)]
     in \<open>simp_all add: boot_step_def\<close>)

text \<open>
  No more keys are sent for a plan than its approved number of attempts, failed sends included, in
  every run in which the worker's bookkeeping after a send gets the mutex.
\<close>

theorem boot_key_sends_bounded:
  assumes "\<forall>e. Op_Worker e \<in> set ops \<longrightarrow> be_update_lock e"
  shows "by_sent (run_ops boot_step boot_initial ops)
    \<le> unat (bc_max_attempts (bs_config (bm_status (by_mgr (run_ops boot_step boot_initial ops)))))"
proof -
  have "sent_inv (run_ops boot_step y ops)"
    if "boot_inv y" "sent_inv y" "\<forall>e. Op_Worker e \<in> set ops \<longrightarrow> be_update_lock e" for y ops
    using that
  proof (induction ops arbitrary: y)
    case (Cons x ops)
    then show ?case using sent_inv_step [of y x] boot_step_inv [of y x] by simp
  qed simp
  moreover have "sent_inv boot_initial" by (simp add: sent_inv_def boot_initial_def zero_boot_status_def)
  ultimately show ?thesis using boot_initial_inv assms by (simp add: sent_inv_def)
qed

theorem boot_key_sends_bounded_witness:
  "by_sent (run_ops boot_step boot_initial bios_run) = 2 \<and>
   by_sent (run_ops boot_step boot_initial bios_run)
    \<le> unat (bc_max_attempts (bs_config (bm_status (by_mgr (run_ops boot_step boot_initial bios_run)))))"
proof
  show "by_sent (run_ops boot_step boot_initial bios_run) = 2" by code_simp
  show "by_sent (run_ops boot_step boot_initial bios_run)
    \<le> unat (bc_max_attempts (bs_config (bm_status (by_mgr (run_ops boot_step boot_initial bios_run)))))"
    by (rule boot_key_sends_bounded) (auto simp: bios_run_def good_env_def)
qed

section \<open>A plan that is never reported as finished\<close>

text \<open>The states from which no call of a handler leaves a plan whose worker is gone.\<close>

lemma create_rejected:
  "\<not> state_accepts_new_plan (bs_state (bm_status m)) \<Longrightarrow> fst (snd (si_boot_key_plan_create l now m c out)) = m"
  by (simp add: si_boot_key_plan_create_def)

lemma start_rejected:
  "bm_task m \<Longrightarrow> fst (si_boot_key_plan_start l c now m p out) \<noteq> ESP_OK \<and> fst (snd (si_boot_key_plan_start l c now m p out)) = m"
  by (simp add: si_boot_key_plan_start_def)

lemma stuck_step:
  assumes "boot_inv y" "by_worker y = W_None" "state_has_worker (bs_state (bm_status (by_mgr y)))"
  shows "by_worker (boot_step y x) = W_None \<and>
    bs_state (bm_status (by_mgr (boot_step y x))) = bs_state (bm_status (by_mgr y))"
proof -
  let ?m = "by_mgr y"
  have m: "mgr_inv ?m" "bm_task ?m" using assms by (auto simp: boot_inv_def mgr_inv_def)
  have na: "\<not> state_accepts_new_plan (bs_state (bm_status ?m))"
    using assms(3) by (cases "bs_state (bm_status ?m)") auto
  have calls: "call_ok ?m (snd (si_boot_key_manager_start c ?m))"
    "call_ok ?m (fst (snd (si_boot_key_plan_approve l now ?m p s out)))"
    "call_ok ?m (fst (snd (si_boot_key_plan_cancel l now ?m p s out)))"
    "call_ok ?m (fst (snd (si_boot_key_plan_confirm l now ?m p s v out)))"
    "call_ok ?m (snd (si_boot_key_cancel_for_manual_hid l now ?m))" for c l now p s v out
    by (rule manager_start_ok approve_ok cancel_ok confirm_ok manual_ok, rule m(1))+
  have kept: "bs_state (bm_status m') = bs_state (bm_status ?m)" if "call_ok ?m m'" for m'
    using that assms(3) by (simp add: call_ok_def keeps_plan_def)
  show ?thesis
  proof (cases x)
    case (Op_Create l now c)
    then show ?thesis
      using assms(2) create_rejected [OF na, of l now c None] by (simp add: boot_step_def split_beta Let_def)
  next
    case (Op_Start l c now p)
    then show ?thesis
      using assms(2) start_rejected [OF m(2), of l c now p None] by (simp add: boot_step_def split_beta Let_def)
  next
    case (Op_Worker e)
    then show ?thesis using assms(2) by (simp add: boot_step_def worker_step_def)
  next
    case (Op_Manager_Start c)
    then show ?thesis using assms(2) kept [OF calls(1) [of c]] by (simp add: boot_step_def Let_def)
  next
    case (Op_Approve l now p s)
    then show ?thesis using assms(2) kept [OF calls(2) [of l now p s None]] by (simp add: boot_step_def Let_def)
  next
    case (Op_Cancel l now p s)
    then show ?thesis using assms(2) kept [OF calls(3) [of l now p s None]] by (simp add: boot_step_def Let_def)
  next
    case (Op_Confirm l now p s v)
    then show ?thesis using assms(2) kept [OF calls(4) [of l now p s v None]] by (simp add: boot_step_def Let_def)
  next
    case (Op_Manual_Hid l now)
    then show ?thesis using assms(2) kept [OF calls(5) [of l now]] by (simp add: boot_step_def Let_def)
  qed
qed

text \<open>
  When the worker cannot read the status on its very first try, the plan is stuck. The worker ends
  without having learnt its plan id, so its final report matches no plan: the status stays
  \<open>starting\<close> with the worker handle set, and no later sequence of calls, cancellation included, ever
  changes that or admits a new plan.
\<close>

theorem boot_key_first_snapshot_lost:
  fixes pre post :: "boot_op list"
  assumes "by_worker (run_ops boot_step boot_initial pre) = W_Created"
    and "bs_state (bm_status (by_mgr (run_ops boot_step boot_initial pre))) = SI_BOOT_KEY_STATE_STARTING"
    and "\<not> be_snapshot_locks e ! 0"
  shows "bs_state (bm_status (by_mgr (run_ops boot_step boot_initial (pre @ [Op_Worker e] @ post))))
      = SI_BOOT_KEY_STATE_STARTING \<and>
    by_worker (run_ops boot_step boot_initial (pre @ [Op_Worker e] @ post)) = W_None"
proof -
  let ?y = "run_ops boot_step boot_initial pre"
  have inv: "boot_inv ?y" by (rule boot.run_inv [OF boot_initial_inv])
  have "plan_matches_locked m (Some [])= False" for m by (simp add: plan_matches_locked_def)
  then have one: "by_worker (boot_step ?y (Op_Worker e)) = W_None"
    "by_mgr (boot_step ?y (Op_Worker e)) = by_mgr ?y"
    using assms(1,3)
    by (simp_all add: boot_step_def worker_step_def boot_key_task_prologue_def Let_def task_snapshot_def take_lock_def
        task_finish_def initial_worker_def zero_token_def)
  have "bs_state (bm_status (by_mgr (run_ops boot_step y ops))) = SI_BOOT_KEY_STATE_STARTING \<and>
      by_worker (run_ops boot_step y ops) = W_None"
    if "boot_inv y" "by_worker y = W_None" "bs_state (bm_status (by_mgr y)) = SI_BOOT_KEY_STATE_STARTING" for y ops
    using that
  proof (induction ops arbitrary: y)
    case (Cons x ops)
    then show ?case using stuck_step [of y x] boot_step_inv [of y x] by simp
  qed simp
  from this [OF boot_step_inv [OF inv] one(1)] one(2) assms(2) show ?thesis by simp
qed

theorem boot_key_first_snapshot_lost_witness:
  "bs_state (bm_status (by_mgr (run_ops boot_step boot_initial
     (take 4 bios_run @ [Op_Worker ((good_env 40)\<lparr>be_snapshot_locks := [False, True]\<rparr>)] @
      [Op_Cancel True 50 (Some bios_plan) (Some ''web'')])))) = SI_BOOT_KEY_STATE_STARTING"
proof -
  have "by_worker (run_ops boot_step boot_initial (take 4 bios_run)) = W_Created"
    "bs_state (bm_status (by_mgr (run_ops boot_step boot_initial (take 4 bios_run)))) = SI_BOOT_KEY_STATE_STARTING"
    by code_simp+
  moreover have "\<not> be_snapshot_locks ((good_env 40)\<lparr>be_snapshot_locks := [False, True]\<rparr>) ! 0" by simp
  ultimately show ?thesis by (rule conjunct1 [OF boot_key_first_snapshot_lost])
qed

end
