(* ===== verification/Hid_Manager.thy ===== *)
theory Hid_Manager
  imports Hid_Owner Hid_Fence
begin

text \<open>
  The HID execution manager of \<^verbatim>\<open>drivers/hid_device.c\<close>: the report state of keyboard, mouse and
  absolute pointer, the commands, and the owner transitions that revoke one producer and admit the
  next. The manager's static variables are one record.

  What the code asks of the platform is an environment record: whether the device is mounted and
  whether the \<open>n\<close>-th report of a call is accepted by the USB stack. A command runs under the command
  lock but without the authority gate, so that another task may begin an owner transition while it
  runs; that task then waits for the command lock. The environment says before which report (or at
  the end) this happens. Two components of the record are not variables of the code: what the host
  last received on each endpoint, and the log of all reports. A host forgets the input of a device
  that is detached or enumerated again.
\<close>

section \<open>Data\<close>

definition HID_EMBEDDED_PRODUCER_SLOTS :: nat where "HID_EMBEDDED_PRODUCER_SLOTS = 8"
definition HID_REMOTE_WAKEUP_RETRY_US :: int where "HID_REMOTE_WAKEUP_RETRY_US = 1000000"
definition SI_HID_ABS_MAX :: int where "SI_HID_ABS_MAX = 32767"

definition KEY_MAP :: "(string \<times> u8) list" where
  "KEY_MAP = [
    (''KeyA'', 0x04), (''KeyB'', 0x05), (''KeyC'', 0x06), (''KeyD'', 0x07),
    (''KeyE'', 0x08), (''KeyF'', 0x09), (''KeyG'', 0x0A), (''KeyH'', 0x0B),
    (''KeyI'', 0x0C), (''KeyJ'', 0x0D), (''KeyK'', 0x0E), (''KeyL'', 0x0F),
    (''KeyM'', 0x10), (''KeyN'', 0x11), (''KeyO'', 0x12), (''KeyP'', 0x13),
    (''KeyQ'', 0x14), (''KeyR'', 0x15), (''KeyS'', 0x16), (''KeyT'', 0x17),
    (''KeyU'', 0x18), (''KeyV'', 0x19), (''KeyW'', 0x1A), (''KeyX'', 0x1B),
    (''KeyY'', 0x1C), (''KeyZ'', 0x1D),
    (''Digit1'', 0x1E), (''Digit2'', 0x1F), (''Digit3'', 0x20), (''Digit4'', 0x21),
    (''Digit5'', 0x22), (''Digit6'', 0x23), (''Digit7'', 0x24), (''Digit8'', 0x25),
    (''Digit9'', 0x26), (''Digit0'', 0x27),
    (''Enter'', 0x28), (''Escape'', 0x29), (''Backspace'', 0x2A), (''Tab'', 0x2B),
    (''Space'', 0x2C), (''Minus'', 0x2D), (''Equal'', 0x2E), (''BracketLeft'', 0x2F),
    (''BracketRight'', 0x30), (''Backslash'', 0x31), (''Semicolon'', 0x33),
    (''Quote'', 0x34), (''Backquote'', 0x35), (''Comma'', 0x36), (''Period'', 0x37),
    (''Slash'', 0x38), (''CapsLock'', 0x39),
    (''F1'', 0x3A), (''F2'', 0x3B), (''F3'', 0x3C), (''F4'', 0x3D),
    (''F5'', 0x3E), (''F6'', 0x3F), (''F7'', 0x40), (''F8'', 0x41),
    (''F9'', 0x42), (''F10'', 0x43), (''F11'', 0x44), (''F12'', 0x45),
    (''PrintScreen'', 0x46), (''ScrollLock'', 0x47), (''Pause'', 0x48),
    (''Insert'', 0x49), (''Home'', 0x4A), (''PageUp'', 0x4B),
    (''Delete'', 0x4C), (''End'', 0x4D), (''PageDown'', 0x4E),
    (''ArrowRight'', 0x4F), (''ArrowLeft'', 0x50), (''ArrowDown'', 0x51),
    (''ArrowUp'', 0x52), (''NumLock'', 0x53),
    (''NumpadDivide'', 0x54), (''NumpadMultiply'', 0x55), (''NumpadSubtract'', 0x56),
    (''NumpadAdd'', 0x57), (''NumpadEnter'', 0x58),
    (''Numpad1'', 0x59), (''Numpad2'', 0x5A), (''Numpad3'', 0x5B),
    (''Numpad4'', 0x5C), (''Numpad5'', 0x5D), (''Numpad6'', 0x5E),
    (''Numpad7'', 0x5F), (''Numpad8'', 0x60), (''Numpad9'', 0x61),
    (''Numpad0'', 0x62), (''NumpadDecimal'', 0x63),
    (''IntlBackslash'', 0x64), (''ContextMenu'', 0x65), (''Power'', 0x66)]"

definition MOD_MAP :: "(string \<times> u8) list" where
  "MOD_MAP = [
    (''ControlLeft'', 0x01), (''ShiftLeft'', 0x02), (''AltLeft'', 0x04), (''MetaLeft'', 0x08),
    (''ControlRight'', 0x10), (''ShiftRight'', 0x20), (''AltRight'', 0x40), (''MetaRight'', 0x80)]"

datatype si_hid_command_type_t =
    SI_HID_COMMAND_INVALID
  | SI_HID_COMMAND_UNSUPPORTED
  | SI_HID_COMMAND_KEY_DOWN
  | SI_HID_COMMAND_KEY_UP
  | SI_HID_COMMAND_MOUSE_MOVE
  | SI_HID_COMMAND_MOUSE_MOVE_COUNTS
  | SI_HID_COMMAND_ABS_MOVE
  | SI_HID_COMMAND_ABS_MOUSE_DOWN
  | SI_HID_COMMAND_ABS_MOUSE_UP
  | SI_HID_COMMAND_ABS_CLICK
  | SI_HID_COMMAND_MOUSE_DOWN
  | SI_HID_COMMAND_MOUSE_UP
  | SI_HID_COMMAND_CLICK
  | SI_HID_COMMAND_WHEEL
  | SI_HID_COMMAND_COMBO
  | SI_HID_COMMAND_RELEASE_ALL

text \<open>
  \<open>cm_dx\<close> and \<open>cm_dy\<close> are the counts \<open>lroundf (dx * 127.0f)\<close> of the two floating-point members.
\<close>

record si_hid_command_t =
  cm_type :: si_hid_command_type_t
  cm_code :: "string option"
  cm_error :: "string option"
  cm_dx :: int
  cm_dy :: int
  cm_x :: int
  cm_y :: int
  cm_has_x :: bool
  cm_has_y :: bool
  cm_button :: u8
  cm_wheel_y :: int
  cm_wheel_x :: int
  cm_modifiers :: "string option list"
  cm_keys :: "string option list"

record si_hid_owner_transition_t =
  tr_authorize :: bool
  tr_replace :: bool
  tr_claim :: si_hid_owner_claim_t

datatype hid_report =
    Keyboard_Report u8 "u8 list"
  | Mouse_Report u8 int int int int
  | Abs_Pointer_Report u8 u16 u16

record hid_host =
  ho_modifiers :: u8
  ho_keys :: "u8 list"
  ho_mouse_buttons :: u8
  ho_abs_buttons :: u8

type_synonym task_handle = nat

record hid_mgr =
  hm_installed :: bool
  hm_mounted :: bool
  hm_modifiers :: u8
  hm_keys :: "u8 list"
  hm_key_count :: nat
  hm_mouse_buttons :: u8
  hm_abs_buttons :: u8
  hm_abs_x :: u16
  hm_abs_y :: u16
  hm_tx_messages :: u32
  hm_failed_messages :: u32
  hm_remote_wakeup_signals :: u32
  hm_remote_wakeup_rejected :: u32
  hm_last_remote_wakeup_us :: int
  hm_last_error :: "(string \<times> esp_err_t) option"
  hm_abort_fence :: si_hid_abort_fence_t
  hm_owner_state :: si_hid_owner_state_t
  hm_active_command_generation :: u32
  hm_active_command_owner :: si_hid_owner_token_t
  hm_command_active :: bool
  hm_command_was_aborted :: bool
  hm_command_send_ok :: bool
  hm_command_send_error :: "string option"
  hm_mount_reset_pending :: bool
  hm_guard_set :: bool
  hm_producers :: "(task_handle option \<times> si_hid_owner_token_t) list"
  hm_host :: hid_host
  hm_log :: "(si_hid_owner_token_t \<times> si_hid_owner_token_t \<times> hid_report) list"

record hid_env =
  he_tud_mounted :: "nat \<Rightarrow> bool"
  he_accepts :: "nat \<Rightarrow> bool"
  he_revoke_at :: "nat option"
  he_locks :: esp_err_t
  he_gate :: bool
  he_command_lock :: bool
  he_embedded_guard :: bool
  he_caller_guard :: "bool option"
  he_suspended :: bool
  he_wake_gate :: bool
  he_now_us :: int
  he_wake_signalled :: bool
  he_wake_in_time :: bool

section \<open>Tables and clamps\<close>

definition js_code_to_hid :: "string option \<Rightarrow> u8" where
  "js_code_to_hid code =
     (case code of None \<Rightarrow> 0 | Some c \<Rightarrow> (case map_of KEY_MAP c of None \<Rightarrow> 0 | Some hid \<Rightarrow> hid))"

definition js_code_to_mod :: "string option \<Rightarrow> u8" where
  "js_code_to_mod code =
     (case code of None \<Rightarrow> 0 | Some c \<Rightarrow> (case map_of MOD_MAP c of None \<Rightarrow> 0 | Some m \<Rightarrow> m))"

definition clamp_i8 :: "int \<Rightarrow> int" where
  "clamp_i8 value = (if value > 127 then 127 else if value < -127 then -127 else value)"

definition clamp_abs :: "int \<Rightarrow> u16" where
  "clamp_abs value =
     (if value < 0 then 0 else if value > SI_HID_ABS_MAX then of_int SI_HID_ABS_MAX else of_int value)"

definition browser_button_to_hid :: "u8 \<Rightarrow> u8" where
  "browser_button_to_hid button =
     (if button = 0 then 1 else if button = 1 then 4 else if button = 2 then 2 else 1)"

section \<open>Reports\<close>

definition hid_mounted :: "hid_env \<Rightarrow> nat \<Rightarrow> hid_mgr \<Rightarrow> bool" where
  "hid_mounted e n m \<longleftrightarrow> hm_installed m \<and> hm_mounted m \<and> he_tud_mounted e n"

definition update_owner :: "(si_hid_owner_state_t option \<Rightarrow> si_hid_owner_state_t option) \<Rightarrow> hid_mgr \<Rightarrow> hid_mgr" where
  "update_owner f m = m\<lparr>hm_owner_state := the (f (Some (hm_owner_state m)))\<rparr>"

definition set_last_error :: "string option \<Rightarrow> esp_err_t \<Rightarrow> hid_mgr \<Rightarrow> hid_mgr" where
  "set_last_error message err m =
     (if err = ESP_OK then m\<lparr>hm_last_error := None\<rparr>
      else m\<lparr>hm_last_error := Some (case message of None \<Rightarrow> ''hid error'' | Some t \<Rightarrow> t, err)\<rparr>)"

definition abort_pending_commands :: "hid_mgr \<Rightarrow> hid_mgr" where
  "abort_pending_commands m =
     m\<lparr>hm_abort_fence := the (snd (si_hid_abort_fence_advance (Some (hm_abort_fence m))))\<rparr>"

definition active_command_aborted :: "hid_mgr \<Rightarrow> bool" where
  "active_command_aborted m \<longleftrightarrow> hm_command_active m \<and>
     \<not> si_hid_abort_fence_is_current (Some (hm_abort_fence m)) (hm_active_command_generation m)"

definition active_command_can_emit :: "hid_mgr \<Rightarrow> bool \<times> hid_mgr" where
  "active_command_can_emit m =
     (if \<not> active_command_aborted m then (True, m)
      else (False, m\<lparr>hm_command_send_ok := False,
                     hm_command_send_error := Some ''HID command authority revoked''\<rparr>))"

text \<open>The first half of an owner transition: the current token is revoked and the fence advanced.\<close>

definition revoke_previous :: "hid_mgr \<Rightarrow> hid_mgr" where
  "revoke_previous m =
     (let previous = hs_current (hm_owner_state m) in
      if ht_generation previous = 0 then m
      else (update_owner (\<lambda>s. fst (snd (si_hid_owner_state_revoke_current s (Some previous) None))) m)
             \<lparr>hm_producers := map (\<lambda>(t, w). if si_hid_owner_token_equal (Some w) (Some previous)
                                then (None, zero_token) else (t, w)) (hm_producers m)\<rparr>)"

text \<open>
  Another task begins a transition at point \<open>n\<close>. It holds the gate until it is finished, so that
  there is at most one: once the current token is gone nothing more happens.
\<close>

definition interfere :: "hid_env \<Rightarrow> nat \<Rightarrow> hid_mgr \<Rightarrow> hid_mgr" where
  "interfere e n m =
     (if he_revoke_at e = Some n \<and> ht_generation (hs_current (hm_owner_state m)) \<noteq> 0
      then abort_pending_commands (revoke_previous m) else m)"

text \<open>
  A report that the USB stack accepted: the host has it, and it is logged with the token it was sent
  for and the token that is current at that moment.
\<close>

definition emit_report :: "hid_report \<Rightarrow> hid_mgr \<Rightarrow> hid_mgr" where
  "emit_report r m =
     m\<lparr>hm_host := (case r of
         Keyboard_Report mods ks \<Rightarrow> (hm_host m)\<lparr>ho_modifiers := mods, ho_keys := ks\<rparr>
       | Mouse_Report b _ _ _ _ \<Rightarrow> (hm_host m)\<lparr>ho_mouse_buttons := b\<rparr>
       | Abs_Pointer_Report b _ _ \<Rightarrow> (hm_host m)\<lparr>ho_abs_buttons := b\<rparr>),
       hm_log := hm_log m @ [(hs_report_owner (hm_owner_state m), hs_current (hm_owner_state m), r)]\<rparr>"

text \<open>
  The common shape of the three send functions at program point \<open>n\<close>: the abort checks, the wait for
  the endpoint, the report, and the note of what is now dirty.
\<close>

definition send_report :: "hid_env \<Rightarrow> nat \<Rightarrow> hid_report \<Rightarrow> u8 \<Rightarrow> bool \<Rightarrow> hid_mgr \<Rightarrow> bool \<times> hid_mgr" where
  "send_report e n r report_mask neutral m =
     (let m = interfere e n m; (ok, m) = active_command_can_emit m in
      if \<not> ok then (False, m)
      else if \<not> hid_mounted e n m \<or> \<not> he_accepts e n then (False, m)
      else (True, update_owner (\<lambda>s. si_hid_owner_state_note_report s report_mask neutral) (emit_report r m)))"

definition send_keyboard_report :: "hid_env \<Rightarrow> nat \<Rightarrow> hid_mgr \<Rightarrow> bool \<times> hid_mgr" where
  "send_keyboard_report e n m =
     send_report e n (Keyboard_Report (hm_modifiers m) (hm_keys m)) SI_HID_REPORT_DIRTY_KEYBOARD
       (hm_modifiers m = 0 \<and> hm_key_count m = 0) m"

definition send_mouse_report :: "hid_env \<Rightarrow> nat \<Rightarrow> int \<Rightarrow> int \<Rightarrow> int \<Rightarrow> int \<Rightarrow> hid_mgr \<Rightarrow> bool \<times> hid_mgr" where
  "send_mouse_report e n x y wheel pan m =
     send_report e n (Mouse_Report (hm_mouse_buttons m) x y wheel pan) SI_HID_REPORT_DIRTY_MOUSE
       (hm_mouse_buttons m = 0) m"

definition send_abs_pointer_report :: "hid_env \<Rightarrow> nat \<Rightarrow> hid_mgr \<Rightarrow> bool \<times> hid_mgr" where
  "send_abs_pointer_report e n m =
     send_report e n (Abs_Pointer_Report (hm_abs_buttons m) (hm_abs_x m) (hm_abs_y m))
       SI_HID_REPORT_DIRTY_ABS_POINTER (hm_abs_buttons m = 0) m"

definition record_send_result :: "string \<Rightarrow> bool \<times> hid_mgr \<Rightarrow> hid_mgr" where
  "record_send_result error = (\<lambda>(ok, m).
     m\<lparr>hm_command_send_ok := hm_command_send_ok m \<and> ok,
       hm_command_send_error := (if \<not> ok \<and> hm_command_send_error m = None then Some error
                                 else hm_command_send_error m)\<rparr>)"

definition keyboard_error :: string where "keyboard_error = ''keyboard endpoint not writable''"
definition mouse_error :: string where "mouse_error = ''relative mouse endpoint not writable''"
definition abs_error :: string where "abs_error = ''absolute pointer endpoint not writable''"

definition send_mouse_counts :: "hid_env \<Rightarrow> nat \<Rightarrow> int \<Rightarrow> int \<Rightarrow> hid_mgr \<Rightarrow> hid_mgr" where
  "send_mouse_counts e n dx dy m =
     (if \<not> hid_mounted e n m then m\<lparr>hm_command_send_ok := False\<rparr>
      else record_send_result mouse_error (send_mouse_report e n (clamp_i8 dx) (clamp_i8 dy) 0 0 m))"

section \<open>Commands\<close>

definition hid_key_down :: "hid_env \<Rightarrow> nat \<Rightarrow> string option \<Rightarrow> hid_mgr \<Rightarrow> hid_mgr" where
  "hid_key_down e n code m =
     (let mods = js_code_to_mod code;
          m = (if mods \<noteq> 0 then m\<lparr>hm_modifiers := hm_modifiers m OR mods\<rparr>
               else let hid = js_code_to_hid code in
                 if hid \<noteq> 0 \<and> hid \<notin> set (take (hm_key_count m) (hm_keys m)) \<and> hm_key_count m < length (hm_keys m)
                 then m\<lparr>hm_keys := (hm_keys m)[hm_key_count m := hid], hm_key_count := hm_key_count m + 1\<rparr>
                 else m)
      in record_send_result keyboard_error (send_keyboard_report e n m))"

text \<open>
  The shift loop of a key release: from the key's index \<open>i\<close> the later keys move down by one and the
  last used slot is zeroed.
\<close>

definition shift_keys :: "nat \<Rightarrow> nat \<Rightarrow> u8 list \<Rightarrow> u8 list" where
  "shift_keys i count ks = (take i ks @ take (count - 1 - i) (drop (i + 1) ks) @ [0]) @ drop count ks"

fun index_of_key :: "u8 \<Rightarrow> u8 list \<Rightarrow> nat option" where
  "index_of_key hid [] = None"
| "index_of_key hid (k # ks) = (if k = hid then Some 0 else map_option Suc (index_of_key hid ks))"

definition hid_key_up :: "hid_env \<Rightarrow> nat \<Rightarrow> string option \<Rightarrow> hid_mgr \<Rightarrow> hid_mgr" where
  "hid_key_up e n code m =
     (let mods = js_code_to_mod code;
          m = (if mods \<noteq> 0 then m\<lparr>hm_modifiers := hm_modifiers m AND NOT mods\<rparr>
               else case index_of_key (js_code_to_hid code) (take (hm_key_count m) (hm_keys m)) of
                      None \<Rightarrow> m
                    | Some i \<Rightarrow> m\<lparr>hm_keys := shift_keys i (hm_key_count m) (hm_keys m),
                                  hm_key_count := hm_key_count m - 1\<rparr>)
      in record_send_result keyboard_error (send_keyboard_report e n m))"

definition reset_report_state_locked :: "hid_mgr \<Rightarrow> hid_mgr" where
  "reset_report_state_locked m =
     m\<lparr>hm_modifiers := 0, hm_key_count := 0, hm_keys := replicate 6 0, hm_mouse_buttons := 0, hm_abs_buttons := 0\<rparr>"

definition dirty :: "u8 \<Rightarrow> hid_mgr \<Rightarrow> bool" where
  "dirty report_mask m \<longleftrightarrow> hs_dirty_reports (hm_owner_state m) AND report_mask \<noteq> 0"

definition release_all_locked :: "hid_env \<Rightarrow> nat \<Rightarrow> hid_mgr \<Rightarrow> hid_mgr" where
  "release_all_locked e n m =
     (let m = m\<lparr>hm_modifiers := 0, hm_key_count := 0, hm_keys := replicate 6 0\<rparr>;
          m = (if dirty SI_HID_REPORT_DIRTY_KEYBOARD m
               then record_send_result keyboard_error (send_keyboard_report e n m) else m);
          m = m\<lparr>hm_mouse_buttons := 0\<rparr>;
          m = (if dirty SI_HID_REPORT_DIRTY_MOUSE m
               then record_send_result mouse_error (send_mouse_report e (n + 1) 0 0 0 0 m) else m);
          m = m\<lparr>hm_abs_buttons := 0\<rparr>
      in if dirty SI_HID_REPORT_DIRTY_ABS_POINTER m
         then record_send_result abs_error (send_abs_pointer_report e (n + 2) m) else m)"

text \<open>The host forgets the input of a device that is gone.\<close>

definition host_detached :: "hid_mgr \<Rightarrow> hid_mgr" where
  "host_detached m = m\<lparr>hm_host := \<lparr>ho_modifiers = 0, ho_keys = replicate 6 0, ho_mouse_buttons = 0,
     ho_abs_buttons = 0\<rparr>\<rparr>"

definition apply_mount_reset_locked :: "hid_mgr \<Rightarrow> bool \<times> hid_mgr" where
  "apply_mount_reset_locked m =
     (if \<not> hm_mount_reset_pending m then (False, m)
      else (True, update_owner si_hid_owner_state_host_reset
                    (reset_report_state_locked (m\<lparr>hm_mount_reset_pending := False\<rparr>))))"

definition drain_neutral_pending_locked :: "hid_env \<Rightarrow> nat \<Rightarrow> hid_mgr \<Rightarrow> bool \<times> hid_mgr" where
  "drain_neutral_pending_locked e n m =
     (let (applied, m) = apply_mount_reset_locked m in
      if applied then (True, m)
      else
        let m = reset_report_state_locked m in
        if \<not> hid_mounted e n m then (True, update_owner si_hid_owner_state_host_reset (host_detached m))
        else
          let m = m\<lparr>hm_command_active := False, hm_command_was_aborted := False, hm_command_send_ok := True,
                    hm_command_send_error := None\<rparr>;
              m = release_all_locked e (n + 1) m;
              pending = (\<not> hm_command_send_ok m \<or> hs_dirty_reports (hm_owner_state m) \<noteq> 0);
              m = m\<lparr>hm_owner_state := (hm_owner_state m)\<lparr>hs_neutral_pending := pending\<rparr>\<rparr>;
              m = (if \<not> pending
                   then m\<lparr>hm_owner_state := (hm_owner_state m)\<lparr>hs_report_owner := zero_token\<rparr>\<rparr> else m)
          in (\<not> pending, m))"

definition neutralize_aborted_command_locked :: "hid_env \<Rightarrow> nat \<Rightarrow> hid_mgr \<Rightarrow> bool \<times> hid_mgr" where
  "neutralize_aborted_command_locked e n m =
     (let m = interfere e n m in
      if hm_command_was_aborted m then (True, m)
      else if \<not> active_command_aborted m then (False, m)
      else (True, release_all_locked e (n + 1)
              (m\<lparr>hm_command_was_aborted := True, hm_command_active := False, hm_command_send_ok := True,
                 hm_command_send_error := Some ''HID command authority revoked''\<rparr>)))"

definition hid_mouse_move :: "hid_env \<Rightarrow> nat \<Rightarrow> int \<Rightarrow> int \<Rightarrow> hid_mgr \<Rightarrow> hid_mgr" where
  "hid_mouse_move e n mx my m = send_mouse_counts e n mx my m"

definition hid_mouse_down :: "hid_env \<Rightarrow> nat \<Rightarrow> u8 \<Rightarrow> hid_mgr \<Rightarrow> hid_mgr" where
  "hid_mouse_down e n button m =
     (let m = m\<lparr>hm_mouse_buttons := hm_mouse_buttons m OR browser_button_to_hid button\<rparr>
      in record_send_result mouse_error (send_mouse_report e n 0 0 0 0 m))"

definition hid_mouse_up :: "hid_env \<Rightarrow> nat \<Rightarrow> u8 \<Rightarrow> hid_mgr \<Rightarrow> hid_mgr" where
  "hid_mouse_up e n button m =
     (let m = m\<lparr>hm_mouse_buttons := hm_mouse_buttons m AND NOT (browser_button_to_hid button)\<rparr>
      in record_send_result mouse_error (send_mouse_report e n 0 0 0 0 m))"

definition hid_mouse_scroll :: "hid_env \<Rightarrow> nat \<Rightarrow> int \<Rightarrow> int \<Rightarrow> hid_mgr \<Rightarrow> hid_mgr" where
  "hid_mouse_scroll e n delta_y delta_x m =
     record_send_result mouse_error (send_mouse_report e n 0 0 delta_y delta_x m)"

definition hid_abs_move :: "hid_env \<Rightarrow> nat \<Rightarrow> u16 \<Rightarrow> u16 \<Rightarrow> hid_mgr \<Rightarrow> hid_mgr" where
  "hid_abs_move e n x y m =
     (let m = m\<lparr>hm_abs_x := clamp_abs (uint x), hm_abs_y := clamp_abs (uint y)\<rparr>
      in record_send_result abs_error (send_abs_pointer_report e n m))"

definition hid_abs_mouse_down :: "hid_env \<Rightarrow> nat \<Rightarrow> u8 \<Rightarrow> hid_mgr \<Rightarrow> hid_mgr" where
  "hid_abs_mouse_down e n button m =
     (let m = m\<lparr>hm_abs_buttons := hm_abs_buttons m OR browser_button_to_hid button\<rparr>
      in record_send_result abs_error (send_abs_pointer_report e n m))"

definition hid_abs_mouse_up :: "hid_env \<Rightarrow> nat \<Rightarrow> u8 \<Rightarrow> hid_mgr \<Rightarrow> hid_mgr" where
  "hid_abs_mouse_up e n button m =
     (let m = m\<lparr>hm_abs_buttons := hm_abs_buttons m AND NOT (browser_button_to_hid button)\<rparr>
      in record_send_result abs_error (send_abs_pointer_report e n m))"

text \<open>The two loops that fill the report of a combination.\<close>

definition combo_modifiers :: "string option list \<Rightarrow> u8" where
  "combo_modifiers mods = foldl (\<lambda>acc c. acc OR js_code_to_mod c) 0 mods"

definition combo_keys :: "string option list \<Rightarrow> u8 list" where
  "combo_keys codes = take 6 (filter (\<lambda>k. k \<noteq> 0) (map js_code_to_hid codes))"

definition set_keys :: "u8 \<Rightarrow> u8 list \<Rightarrow> hid_mgr \<Rightarrow> hid_mgr" where
  "set_keys mods ks m =
     m\<lparr>hm_modifiers := mods, hm_key_count := length ks, hm_keys := ks @ replicate (6 - length ks) 0\<rparr>"

definition send_combo :: "hid_env \<Rightarrow> nat \<Rightarrow> si_hid_command_t \<Rightarrow> hid_mgr \<Rightarrow> hid_mgr" where
  "send_combo e n command m =
     (let prev_mod = hm_modifiers m; prev_keys = hm_keys m; prev_count = hm_key_count m;
          m = set_keys (combo_modifiers (cm_modifiers command)) (combo_keys (cm_keys command)) m;
          m = record_send_result keyboard_error (send_keyboard_report e n m);
          (aborted, m) = neutralize_aborted_command_locked e (n + 1) m
      in if aborted then m
         else
           let (aborted, m) = neutralize_aborted_command_locked e (n + 5) m in
           if aborted then m
           else
             let m = set_keys 0 [] m;
                 m = record_send_result keyboard_error (send_keyboard_report e (n + 9) m);
                 (aborted, m) = neutralize_aborted_command_locked e (n + 10) m
             in if aborted then m
                else
                  let m = m\<lparr>hm_modifiers := prev_mod, hm_key_count := prev_count, hm_keys := prev_keys\<rparr>
                  in record_send_result keyboard_error (send_keyboard_report e (n + 14) m))"

definition click :: "(nat \<Rightarrow> hid_mgr \<Rightarrow> hid_mgr) \<Rightarrow> (nat \<Rightarrow> hid_mgr \<Rightarrow> hid_mgr) \<Rightarrow> hid_env \<Rightarrow> nat \<Rightarrow> hid_mgr \<Rightarrow> hid_mgr" where
  "click down up e n m =
     (let m = down n m; (aborted, m) = neutralize_aborted_command_locked e (n + 1) m in
      if aborted then m
      else let (aborted, m) = neutralize_aborted_command_locked e (n + 5) m in
        if aborted then m else up (n + 9) m)"

definition release_all_command :: "hid_env \<Rightarrow> nat \<Rightarrow> si_hid_owner_token_t \<Rightarrow> hid_mgr \<Rightarrow> hid_mgr" where
  "release_all_command e n owner m =
     (let m = release_all_locked e n m in
      if hm_command_send_ok m then update_owner (\<lambda>s. si_hid_owner_state_clear_report s (Some owner)) m
      else m\<lparr>hm_owner_state := (hm_owner_state m)\<lparr>hs_neutral_pending := True\<rparr>\<rparr>)"

text \<open>The dispatch of an admitted command; the first component is the local \<open>ret\<close>.\<close>

definition run_command ::
    "hid_env \<Rightarrow> si_hid_command_t \<Rightarrow> si_hid_owner_token_t \<Rightarrow> hid_mgr \<Rightarrow> esp_err_t \<times> hid_mgr" where
  "run_command e c owner m =
     (case cm_type c of
        SI_HID_COMMAND_KEY_DOWN \<Rightarrow> (ESP_OK, hid_key_down e 10 (cm_code c) m)
      | SI_HID_COMMAND_KEY_UP \<Rightarrow> (ESP_OK, hid_key_up e 10 (cm_code c) m)
      | SI_HID_COMMAND_MOUSE_MOVE \<Rightarrow> (ESP_OK, hid_mouse_move e 10 (cm_dx c) (cm_dy c) m)
      | SI_HID_COMMAND_MOUSE_MOVE_COUNTS \<Rightarrow> (ESP_OK, send_mouse_counts e 10 (cm_x c) (cm_y c) m)
      | SI_HID_COMMAND_ABS_MOVE \<Rightarrow> (ESP_OK, hid_abs_move e 10 (clamp_abs (cm_x c)) (clamp_abs (cm_y c)) m)
      | SI_HID_COMMAND_ABS_MOUSE_DOWN \<Rightarrow> (ESP_OK, hid_abs_mouse_down e 10 (cm_button c) m)
      | SI_HID_COMMAND_ABS_MOUSE_UP \<Rightarrow> (ESP_OK, hid_abs_mouse_up e 10 (cm_button c) m)
      | SI_HID_COMMAND_ABS_CLICK \<Rightarrow>
          (let m = hid_abs_move e 10 (if cm_has_x c then clamp_abs (cm_x c) else hm_abs_x m)
                     (if cm_has_y c then clamp_abs (cm_y c) else hm_abs_y m) m
           in (ESP_OK, click (\<lambda>n. hid_abs_mouse_down e n (cm_button c)) (\<lambda>n. hid_abs_mouse_up e n (cm_button c)) e 11 m))
      | SI_HID_COMMAND_MOUSE_DOWN \<Rightarrow> (ESP_OK, hid_mouse_down e 10 (cm_button c) m)
      | SI_HID_COMMAND_MOUSE_UP \<Rightarrow> (ESP_OK, hid_mouse_up e 10 (cm_button c) m)
      | SI_HID_COMMAND_CLICK \<Rightarrow>
          (ESP_OK, click (\<lambda>n. hid_mouse_down e n (cm_button c)) (\<lambda>n. hid_mouse_up e n (cm_button c)) e 10 m)
      | SI_HID_COMMAND_WHEEL \<Rightarrow> (ESP_OK, hid_mouse_scroll e 10 (cm_wheel_y c) (cm_wheel_x c) m)
      | SI_HID_COMMAND_COMBO \<Rightarrow> (ESP_OK, send_combo e 10 c m)
      | SI_HID_COMMAND_RELEASE_ALL \<Rightarrow> (ESP_OK, release_all_command e 10 owner m)
      | _ \<Rightarrow> (ESP_ERR_NOT_SUPPORTED, m))"

section \<open>Admission and completion\<close>

definition embedded_owner :: "si_hid_owner_token_t \<Rightarrow> bool" where
  "embedded_owner owner \<longleftrightarrow> hc_kind (ht_claim owner) = SI_HID_OWNER_CONTROL_LEASE \<and>
     hc_auth_generation (ht_claim owner) = 0 \<and> hc_session_id (ht_claim owner) = ''embedded-agent''"

definition guards_deny :: "hid_env \<Rightarrow> si_hid_owner_token_t \<Rightarrow> hid_mgr \<Rightarrow> bool" where
  "guards_deny e owner m \<longleftrightarrow>
     (embedded_owner owner \<and> (\<not> hm_guard_set m \<or> \<not> he_embedded_guard e)) \<or> he_caller_guard e = Some False"

definition owner_admitted_locked :: "hid_env \<Rightarrow> si_hid_owner_token_t \<Rightarrow> hid_mgr \<Rightarrow> bool" where
  "owner_admitted_locked e owner m \<longleftrightarrow>
     si_hid_owner_state_is_current (Some (hm_owner_state m)) (Some owner) \<and> \<not> guards_deny e owner m"

definition wakes_host :: "si_hid_command_type_t \<Rightarrow> bool" where
  "wakes_host t \<longleftrightarrow> t \<in> {SI_HID_COMMAND_KEY_DOWN, SI_HID_COMMAND_MOUSE_DOWN, SI_HID_COMMAND_CLICK,
     SI_HID_COMMAND_ABS_MOUSE_DOWN, SI_HID_COMMAND_ABS_CLICK, SI_HID_COMMAND_COMBO}"

definition wake_suspended_host ::
    "hid_env \<Rightarrow> si_hid_command_t \<Rightarrow> si_hid_owner_token_t \<Rightarrow> hid_mgr \<Rightarrow> bool \<times> hid_mgr" where
  "wake_suspended_host e c owner m =
     (if \<not> wakes_host (cm_type c) then (True, m)
      else if \<not> he_suspended e then (True, m)
      else if \<not> he_wake_gate e then (True, m)
      else if \<not> owner_admitted_locked e owner m then (True, m)
      else if hm_last_remote_wakeup_us m \<noteq> 0 \<and>
              he_now_us e - hm_last_remote_wakeup_us m < HID_REMOTE_WAKEUP_RETRY_US
      then (False, m)
      else if he_wake_signalled e
      then (he_wake_in_time e,
            m\<lparr>hm_remote_wakeup_signals := hm_remote_wakeup_signals m + 1, hm_last_remote_wakeup_us := he_now_us e\<rparr>)
      else (False, m\<lparr>hm_remote_wakeup_rejected := hm_remote_wakeup_rejected m + 1\<rparr>))"

definition hid_fail :: "string option \<Rightarrow> esp_err_t \<Rightarrow> hid_mgr \<Rightarrow> esp_err_t \<times> hid_mgr" where
  "hid_fail message err m =
     (err, set_last_error message err (m\<lparr>hm_failed_messages := hm_failed_messages m + 1\<rparr>))"

text \<open>
  The end of an admitted command. The neutral reports of the epilogue use the points from 40; at
  point 50, just before the command lock is given back, another task may begin a transition.
\<close>

definition finish_command ::
    "hid_env \<Rightarrow> si_hid_command_t \<Rightarrow> si_hid_owner_token_t \<Rightarrow> esp_err_t \<times> hid_mgr \<Rightarrow> esp_err_t \<times> hid_mgr" where
  "finish_command e c owner = (\<lambda>(ret, m).
     let (aborted, m) = neutralize_aborted_command_locked e 30 m;
         ret = (if aborted \<or> hm_command_was_aborted m then ESP_ERR_INVALID_STATE
                else if ret = ESP_OK \<and> \<not> hm_command_send_ok m then ESP_FAIL else ret);
         terminal_send_error = hm_command_send_error m;
         m = m\<lparr>hm_command_active := False\<rparr>;
         m = (if ret = ESP_OK \<and> hs_dirty_reports (hm_owner_state m) = 0
              then update_owner (\<lambda>s. si_hid_owner_state_clear_report s (Some owner)) m else m);
         m = (if ret = ESP_FAIL \<and> \<not> hm_command_send_ok m
              then
                let pending = (hs_dirty_reports (hm_owner_state m) \<noteq> 0);
                    m = m\<lparr>hm_owner_state := (hm_owner_state m)\<lparr>hs_neutral_pending := pending\<rparr>\<rparr>;
                    m = (if pending then snd (drain_neutral_pending_locked e 40 m) else m)
                in m\<lparr>hm_command_send_error := terminal_send_error\<rparr>
              else m);
         m = interfere e 50 (m\<lparr>hm_active_command_owner := zero_token\<rparr>)
     in if ret = ESP_OK
        then (ESP_OK, set_last_error None ESP_OK (m\<lparr>hm_tx_messages := hm_tx_messages m + 1\<rparr>))
        else hid_fail (if cm_error c \<noteq> None then cm_error c
                       else if hm_command_send_error m \<noteq> None then hm_command_send_error m
                       else Some ''HID report send failed'') ret m)"

definition si_hid_execute_owned ::
    "hid_env \<Rightarrow> si_hid_command_t option \<Rightarrow> si_hid_owner_token_t option \<Rightarrow> hid_mgr \<Rightarrow> esp_err_t \<times> hid_mgr" where
  "si_hid_execute_owned e command owner m =
     (case (command, owner) of
        (Some c, Some owner) \<Rightarrow>
          if cm_type c = SI_HID_COMMAND_INVALID
          then hid_fail (if cm_error c \<noteq> None then cm_error c else Some ''invalid hid command'') ESP_ERR_INVALID_ARG m
          else if \<not> hm_installed m then hid_fail (Some ''hid not initialized'') ESP_ERR_INVALID_STATE m
          else if \<not> hid_mounted e 0 m then hid_fail (Some ''hid not mounted'') ESP_ERR_INVALID_STATE m
          else if he_locks e \<noteq> ESP_OK then hid_fail (Some ''hid authority gate busy'') ESP_ERR_TIMEOUT m
          else
            let (awake, m) = wake_suspended_host e c owner m in
            if \<not> awake then hid_fail (Some ''host suspended, wakeup not completed'') ESP_ERR_INVALID_STATE m
            else if \<not> he_gate e then hid_fail (Some ''hid authority gate busy'') ESP_ERR_TIMEOUT m
            else if \<not> si_hid_owner_state_is_current (Some (hm_owner_state m)) (Some owner)
            then hid_fail (Some ''stale HID report owner'') ESP_ERR_INVALID_STATE m
            else
              let admission_generation = si_hid_abort_fence_snapshot (Some (hm_abort_fence m)) in
              if guards_deny e owner m then hid_fail (Some ''hid command authority denied'') ESP_ERR_INVALID_STATE m
              else if \<not> he_command_lock e then hid_fail (Some ''hid command busy'') ESP_ERR_TIMEOUT m
              else if \<not> si_hid_abort_fence_is_current (Some (hm_abort_fence m)) admission_generation
              then hid_fail (Some ''hid authority changed before command start'') ESP_ERR_INVALID_STATE m
              else
                let (drained, m) =
                      (if hm_mount_reset_pending m \<or> hs_neutral_pending (hm_owner_state m)
                       then drain_neutral_pending_locked (e\<lparr>he_revoke_at := None\<rparr>) 1 m else (True, m)) in
                if \<not> drained then hid_fail (Some ''HID neutral reports pending'') ESP_ERR_INVALID_STATE m
                else (case si_hid_owner_state_begin_report (Some (hm_owner_state m)) (Some owner) of
                        (False, _) \<Rightarrow> hid_fail (Some ''HID report owner changed'') ESP_ERR_INVALID_STATE m
                      | (True, s) \<Rightarrow>
                          finish_command e c owner (run_command e c owner
                            (m\<lparr>hm_owner_state := the s, hm_active_command_generation := admission_generation,
                               hm_active_command_owner := owner, hm_command_active := True,
                               hm_command_was_aborted := False, hm_command_send_ok := True,
                               hm_command_send_error := None\<rparr>)))
      | (c, _) \<Rightarrow> hid_fail (case c of Some c \<Rightarrow> if cm_error c \<noteq> None then cm_error c else Some ''invalid hid command''
                              | None \<Rightarrow> Some ''invalid hid command'') ESP_ERR_INVALID_ARG m)"

section \<open>Owner transitions\<close>

text \<open>
  The tests before anything changes, and the second half, after the command lock is taken. The
  authority gate is held, so that no other transition interferes.
\<close>

definition transition_early ::
    "si_hid_owner_transition_t \<Rightarrow> si_hid_owner_token_t option \<Rightarrow> hid_mgr \<Rightarrow> (bool \<times> si_hid_owner_token_t option) option" where
  "transition_early tr owner m =
     (let current = hs_current (hm_owner_state m) in
      if tr_authorize tr \<and> \<not> si_hid_owner_claim_valid (Some (tr_claim tr)) then Some (False, owner)
      else if tr_authorize tr \<and> \<not> tr_replace tr \<and> ht_generation current \<noteq> 0 \<and>
              si_hid_owner_claim_equal (Some (ht_claim current)) (Some (tr_claim tr))
      then Some (True, write_out owner current)
      else None)"

definition transition_finish ::
    "hid_env \<Rightarrow> si_hid_owner_transition_t \<Rightarrow> si_hid_owner_token_t option \<Rightarrow> si_hid_owner_token_t \<Rightarrow> hid_mgr \<Rightarrow>
     bool \<times> si_hid_owner_token_t option \<times> hid_mgr" where
  "transition_finish e tr owner previous m =
     (let m = snd (apply_mount_reset_locked m);
          previous_owned_reports = (ht_generation previous \<noteq> 0 \<and>
            si_hid_owner_token_equal (Some (hs_report_owner (hm_owner_state m))) (Some previous));
          (neutral, m) = (if previous_owned_reports \<or> hs_neutral_pending (hm_owner_state m)
                          then drain_neutral_pending_locked (e\<lparr>he_revoke_at := None\<rparr>) 1 m else (True, m))
      in if \<not> neutral \<and> hid_mounted e 5 m then (False, owner, m)
         else
           let m = (if \<not> neutral then host_detached m else m) in
           if tr_authorize tr
           then (case si_hid_owner_state_install (Some (hm_owner_state m)) (Some (tr_claim tr)) True owner of
                   (False, _, _) \<Rightarrow> (False, owner, m)
                 | (True, s, owner') \<Rightarrow> (True, owner', m\<lparr>hm_owner_state := the s\<rparr>))
           else (True, write_out owner zero_token, m))"

definition owner_transition_locked ::
    "hid_env \<Rightarrow> si_hid_owner_transition_t \<Rightarrow> si_hid_owner_token_t option \<Rightarrow> hid_mgr \<Rightarrow>
     bool \<times> si_hid_owner_token_t option \<times> hid_mgr" where
  "owner_transition_locked e tr owner m =
     (case transition_early tr owner m of
        Some (r, owner') \<Rightarrow> (r, owner', m)
      | None \<Rightarrow> transition_finish e tr owner (hs_current (hm_owner_state m))
                 (abort_pending_commands (revoke_previous m)))"

definition no_transition :: si_hid_owner_transition_t where
  "no_transition = \<lparr>tr_authorize = False, tr_replace = False, tr_claim = zero_claim\<rparr>"

text \<open>
  The callback of a domain (lease or KVM) gets the current token; it returns whether it accepts, the
  transition it wants, and its own context. Creating the locks is the environment's \<open>he_locks\<close>.
\<close>

definition si_hid_authority_transition ::
    "hid_env \<Rightarrow> (si_hid_owner_token_t \<Rightarrow> si_hid_owner_transition_t \<Rightarrow> bool \<times> si_hid_owner_transition_t \<times> 'c) \<Rightarrow> 'c \<Rightarrow>
     si_hid_owner_token_t option \<Rightarrow> hid_mgr \<Rightarrow> bool \<times> si_hid_owner_token_t option \<times> hid_mgr \<times> 'c" where
  "si_hid_authority_transition e callback ctx owner m =
     (if he_locks e \<noteq> ESP_OK then (False, owner, m, ctx)
      else
        let (accepted, transition, ctx) = callback (hs_current (hm_owner_state m)) no_transition in
        if \<not> accepted then (False, owner, m, ctx)
        else let (complete, owner, m) = owner_transition_locked e transition owner m in (complete, owner, m, ctx))"

definition si_hid_owner_release_if_current ::
    "hid_env \<Rightarrow> si_hid_owner_token_t option \<Rightarrow> hid_mgr \<Rightarrow> bool \<times> hid_mgr" where
  "si_hid_owner_release_if_current e owner m =
     (if owner = None \<or> he_locks e \<noteq> ESP_OK then (False, m)
      else if si_hid_owner_state_is_current (Some (hm_owner_state m)) owner
      then (let (complete, _, m) = owner_transition_locked e no_transition None m in (complete, m))
      else (False, m))"

definition si_hid_owner_revoke_session ::
    "hid_env \<Rightarrow> string option \<Rightarrow> u32 \<Rightarrow> hid_mgr \<Rightarrow> bool \<times> hid_mgr" where
  "si_hid_owner_revoke_session e session_id auth_generation m =
     (case session_id of None \<Rightarrow> (False, m) | Some sid \<Rightarrow>
      if sid = [] \<or> auth_generation = 0 \<or> he_locks e \<noteq> ESP_OK then (False, m)
      else
        let current = hs_current (hm_owner_state m) in
        if ht_generation current \<noteq> 0 \<and> hc_session_id (ht_claim current) = sid \<and>
           hc_auth_generation (ht_claim current) = auth_generation
        then (let (complete, _, m) = owner_transition_locked e no_transition None m in (complete, m))
        else (False, m))"

definition si_hid_owner_get_current ::
    "hid_env \<Rightarrow> si_hid_owner_token_t option \<Rightarrow> hid_mgr \<Rightarrow> bool \<times> si_hid_owner_token_t option" where
  "si_hid_owner_get_current e owner m =
     (if owner = None \<or> he_locks e \<noteq> ESP_OK \<or> \<not> he_gate e then (False, owner)
      else (ht_generation (hs_current (hm_owner_state m)) \<noteq> 0, Some (hs_current (hm_owner_state m))))"

definition si_hid_set_embedded_authority_guard :: "hid_env \<Rightarrow> hid_mgr \<Rightarrow> esp_err_t \<times> hid_mgr" where
  "si_hid_set_embedded_authority_guard e m =
     (if he_locks e \<noteq> ESP_OK then (ESP_ERR_INVALID_ARG, m) else (ESP_OK, m\<lparr>hm_guard_set := True\<rparr>))"

text \<open>The slot of the task, else the first free one.\<close>

definition producer_slot :: "task_handle \<Rightarrow> (task_handle option \<times> si_hid_owner_token_t) list \<Rightarrow> nat option" where
  "producer_slot task ps =
     (let own = filter (\<lambda>i. fst (ps ! i) = Some task) [0..<length ps];
          free = filter (\<lambda>i. fst (ps ! i) = None) [0..<length ps]
      in case own of i # _ \<Rightarrow> Some i | [] \<Rightarrow> (case free of i # _ \<Rightarrow> Some i | [] \<Rightarrow> None))"

definition si_hid_bind_embedded_producer ::
    "hid_env \<Rightarrow> task_handle option \<Rightarrow> si_hid_owner_token_t option \<Rightarrow> hid_mgr \<Rightarrow> esp_err_t \<times> hid_mgr" where
  "si_hid_bind_embedded_producer e task owner m =
     (case (task, owner) of
        (Some task, Some owner) \<Rightarrow>
          if \<not> embedded_owner owner \<or> he_locks e \<noteq> ESP_OK then (ESP_ERR_INVALID_ARG, m)
          else if \<not> si_hid_owner_state_is_current (Some (hm_owner_state m)) (Some owner)
          then (ESP_ERR_INVALID_STATE, m)
          else (case producer_slot task (hm_producers m) of
                  None \<Rightarrow> (ESP_ERR_NO_MEM, m)
                | Some slot \<Rightarrow> (ESP_OK, m\<lparr>hm_producers := (hm_producers m)[slot := (Some task, owner)]\<rparr>))
      | _ \<Rightarrow> (ESP_ERR_INVALID_ARG, m))"

definition si_hid_get_bound_embedded_owner ::
    "hid_env \<Rightarrow> task_handle option \<Rightarrow> hid_mgr \<Rightarrow> si_hid_owner_token_t option" where
  "si_hid_get_bound_embedded_owner e task m =
     (if task = None \<or> he_locks e \<noteq> ESP_OK \<or> \<not> he_gate e then None
      else map_option snd (find (\<lambda>(t, _). t = task) (hm_producers m)))"

definition si_hid_release_all :: "hid_env \<Rightarrow> task_handle option \<Rightarrow> hid_mgr \<Rightarrow> hid_mgr" where
  "si_hid_release_all e task m =
     (case si_hid_get_bound_embedded_owner e task m of
        Some owner \<Rightarrow>
          if embedded_owner owner
          then snd (si_hid_execute_owned e
                 (Some \<lparr>cm_type = SI_HID_COMMAND_RELEASE_ALL, cm_code = None, cm_error = None, cm_dx = 0, cm_dy = 0,
                    cm_x = 0, cm_y = 0, cm_has_x = False, cm_has_y = False, cm_button = 0, cm_wheel_y = 0,
                    cm_wheel_x = 0, cm_modifiers = [], cm_keys = []\<rparr>) (Some owner) m)
          else m
      | None \<Rightarrow> m)"

text \<open>Attach and detach events of the USB stack.\<close>

definition hid_event_cb :: "bool \<Rightarrow> hid_mgr \<Rightarrow> hid_mgr" where
  "hid_event_cb attached m =
     (let m = host_detached (m\<lparr>hm_mounted := attached, hm_mount_reset_pending := True\<rparr>)
      in if attached then set_last_error None ESP_OK m else m)"

definition si_hid_init :: "esp_err_t \<Rightarrow> esp_err_t \<Rightarrow> bool \<Rightarrow> hid_mgr \<Rightarrow> esp_err_t \<times> hid_mgr" where
  "si_hid_init locks installed enabled m =
     (if locks \<noteq> ESP_OK then (locks, m)
      else if \<not> enabled
      then (ESP_ERR_NOT_SUPPORTED, set_last_error (Some ''USB HID disabled'') ESP_ERR_NOT_SUPPORTED m)
      else if hm_installed m then (ESP_OK, m)
      else if installed \<noteq> ESP_OK then (installed, set_last_error (Some ''install tinyusb'') installed m)
      else (ESP_OK, set_last_error None ESP_OK (m\<lparr>hm_installed := True\<rparr>)))"

section \<open>The system\<close>

text \<open>
  A call of \<open>si_hid_execute_owned\<close> may be joined by a transition of another task that begins while
  the command runs, waits for the command lock, and finishes right after it.
\<close>

definition execute_joined ::
    "hid_env \<Rightarrow> si_hid_command_t option \<Rightarrow> si_hid_owner_token_t option \<Rightarrow> si_hid_owner_transition_t \<Rightarrow> hid_mgr \<Rightarrow> hid_mgr" where
  "execute_joined e command owner tr m =
     (let m1 = snd (si_hid_execute_owned e command owner m) in
      if hs_current (hm_owner_state m1) = hs_current (hm_owner_state m) then m1
      else snd (snd (transition_finish e tr None (hs_current (hm_owner_state m)) m1)))"

datatype hid_mgr_op =
    Mgr_Init esp_err_t esp_err_t bool
  | Mgr_Usb_Event bool
  | Mgr_Set_Guard hid_env
  | Mgr_Execute hid_env "si_hid_command_t option" "si_hid_owner_token_t option" si_hid_owner_transition_t
  | Mgr_Transition hid_env si_hid_owner_transition_t
  | Mgr_Release_If_Current hid_env "si_hid_owner_token_t option"
  | Mgr_Revoke_Session hid_env "string option" u32
  | Mgr_Bind hid_env "task_handle option" "si_hid_owner_token_t option"

definition hid_mgr_step :: "hid_mgr \<Rightarrow> hid_mgr_op \<Rightarrow> hid_mgr" where
  "hid_mgr_step m x =
     (case x of
        Mgr_Init l i b \<Rightarrow> snd (si_hid_init l i b m)
      | Mgr_Usb_Event a \<Rightarrow> hid_event_cb a m
      | Mgr_Set_Guard e \<Rightarrow> snd (si_hid_set_embedded_authority_guard e m)
      | Mgr_Execute e c w tr \<Rightarrow> execute_joined e c w tr m
      | Mgr_Transition e tr \<Rightarrow> snd (snd (owner_transition_locked e tr None m))
      | Mgr_Release_If_Current e w \<Rightarrow> snd (si_hid_owner_release_if_current e w m)
      | Mgr_Revoke_Session e sid g \<Rightarrow> snd (si_hid_owner_revoke_session e sid g m)
      | Mgr_Bind e t w \<Rightarrow> snd (si_hid_bind_embedded_producer e t w m))"

definition hid_mgr_initial :: hid_mgr where
  "hid_mgr_initial = \<lparr>hm_installed = False, hm_mounted = False, hm_modifiers = 0, hm_keys = replicate 6 0,
     hm_key_count = 0, hm_mouse_buttons = 0, hm_abs_buttons = 0, hm_abs_x = of_int (SI_HID_ABS_MAX div 2),
     hm_abs_y = of_int (SI_HID_ABS_MAX div 2), hm_tx_messages = 0, hm_failed_messages = 0,
     hm_remote_wakeup_signals = 0, hm_remote_wakeup_rejected = 0, hm_last_remote_wakeup_us = 0,
     hm_last_error = None, hm_abort_fence = SI_HID_ABORT_FENCE_INITIALIZER,
     hm_owner_state = SI_HID_OWNER_STATE_INITIALIZER, hm_active_command_generation = 0,
     hm_active_command_owner = zero_token, hm_command_active = False, hm_command_was_aborted = False,
     hm_command_send_ok = False, hm_command_send_error = None, hm_mount_reset_pending = True,
     hm_guard_set = False, hm_producers = replicate HID_EMBEDDED_PRODUCER_SLOTS (None, zero_token),
     hm_host = \<lparr>ho_modifiers = 0, ho_keys = replicate 6 0, ho_mouse_buttons = 0, ho_abs_buttons = 0\<rparr>,
     hm_log = []\<rparr>"

end
