(* ===== verification/Control_Lease.thy ===== *)
theory Control_Lease
  imports Hid_Manager
begin

text \<open>
  The control lease of \<^verbatim>\<open>application/control_lease.c\<close>: which automation session (the embedded agent or
  an MCP client) may drive the target, until when, and how that is translated into an owner of the
  HID manager. Every change runs as a callback under the HID authority gate; its outcome and the
  ownership it wants are computed here, and the ownership is changed by
  \<open>si_hid_authority_transition\<close> of the HID manager.
\<close>

section \<open>Data\<close>

definition SI_CONTROL_LEASE_GRACE_MS :: u32 where "SI_CONTROL_LEASE_GRACE_MS = 10000"
definition SI_CONTROL_LEASE_MODE_MAX_LEN :: nat where "SI_CONTROL_LEASE_MODE_MAX_LEN = 16"
definition SI_CONTROL_LEASE_OWNER_MAX_LEN :: nat where "SI_CONTROL_LEASE_OWNER_MAX_LEN = 16"
definition SI_CONTROL_LEASE_SESSION_ID_MAX_LEN :: nat where "SI_CONTROL_LEASE_SESSION_ID_MAX_LEN = 20"
definition SI_CONTROL_LEASE_REASON_MAX_LEN :: nat where "SI_CONTROL_LEASE_REASON_MAX_LEN = 96"
definition LEASE_PENDING_REVOKES :: nat where "LEASE_PENDING_REVOKES = 4"

datatype si_control_lease_update_result_t =
    SI_CONTROL_LEASE_UPDATE_OK
  | SI_CONTROL_LEASE_UPDATE_INVALID
  | SI_CONTROL_LEASE_UPDATE_HELD_BY_OTHER
  | SI_CONTROL_LEASE_UPDATE_UNAVAILABLE

record pending_revoke_t =
  pr_used :: bool
  pr_session_id :: string
  pr_auth_generation :: u32

text \<open>The static variables of the module; \<open>cl_lock\<close> says that the mutex exists.\<close>

record lease =
  cl_lock :: bool
  cl_seen :: bool
  cl_last_ms :: u32
  cl_epoch :: u32
  cl_resource_id :: u32
  cl_next_embedded_resource_id :: u32
  cl_auth_generation :: u32
  cl_owner :: string
  cl_mode :: string
  cl_session_id :: string
  cl_reason :: string
  cl_pending_revokes :: "pending_revoke_t list"
  cl_pending_revoke_fail_closed :: bool
  cl_embedded_preempted :: bool

datatype lease_operation_t =
    LEASE_OP_TOUCH_AGENT
  | LEASE_OP_TOUCH_BOOT
  | LEASE_OP_RELEASE_EMBEDDED
  | LEASE_OP_ABANDON_EMBEDDED
  | LEASE_OP_UPDATE
  | LEASE_OP_REVOKE_SESSION
  | LEASE_OP_MAINTAIN

record lease_transition_context_t =
  lx_operation :: lease_operation_t
  lx_owner :: "string option"
  lx_session_id :: "string option"
  lx_mode :: "string option"
  lx_reason :: "string option"
  lx_auth_generation :: u32
  lx_expected_owner :: "si_hid_owner_token_t option"
  lx_active :: bool
  lx_force :: bool
  lx_stale_retry :: bool
  lx_error :: esp_err_t
  lx_update_result :: si_control_lease_update_result_t
  lx_state_changed :: bool

text \<open>
  What one critical section gets from outside: the HID environment, whether the mutex is obtained,
  the time, whether a KVM page is watching, and whether the caller's live guard confirms the session.
\<close>

record lease_env =
  le_hid :: hid_env
  le_lock :: bool
  le_now_ms :: u32
  le_kvm_view_active :: bool
  le_live_guard :: bool

definition zero_context :: "lease_operation_t \<Rightarrow> lease_transition_context_t" where
  "zero_context oper = \<lparr>lx_operation = oper, lx_owner = None, lx_session_id = None, lx_mode = None, lx_reason = None,
     lx_auth_generation = 0, lx_expected_owner = None, lx_active = False, lx_force = False, lx_stale_retry = False,
     lx_error = ESP_OK, lx_update_result = SI_CONTROL_LEASE_UPDATE_OK, lx_state_changed = False\<rparr>"

definition zero_revoke :: pending_revoke_t where
  "zero_revoke = \<lparr>pr_used = False, pr_session_id = [], pr_auth_generation = 0\<rparr>"

definition initial_lease :: lease where
  "initial_lease = \<lparr>cl_lock = False, cl_seen = False, cl_last_ms = 0, cl_epoch = 1, cl_resource_id = 0,
     cl_next_embedded_resource_id = 0, cl_auth_generation = 0, cl_owner = ''agent'', cl_mode = ''supervised'',
     cl_session_id = ''embedded-agent'', cl_reason = [],
     cl_pending_revokes = replicate LEASE_PENDING_REVOKES zero_revoke,
     cl_pending_revoke_fail_closed = False, cl_embedded_preempted = False\<rparr>"

section \<open>The lease itself\<close>

definition epoch_bump_locked :: "lease \<Rightarrow> lease" where
  "epoch_bump_locked l = l\<lparr>cl_epoch := (if cl_epoch l + 1 = 0 then 1 else cl_epoch l + 1)\<rparr>"

definition active_locked :: "u32 \<Rightarrow> lease \<Rightarrow> bool" where
  "active_locked now_ms l \<longleftrightarrow> cl_seen l \<and> now_ms - cl_last_ms l \<le> SI_CONTROL_LEASE_GRACE_MS"

definition remaining_locked :: "u32 \<Rightarrow> lease \<Rightarrow> u32" where
  "remaining_locked now_ms l =
     (if active_locked now_ms l then SI_CONTROL_LEASE_GRACE_MS - (now_ms - cl_last_ms l) else 0)"

text \<open>The first loop looks for the same obligation, the second for a free slot.\<close>

definition pending_revoke_add_under_hid_gate :: "string \<Rightarrow> u32 \<Rightarrow> lease \<Rightarrow> lease" where
  "pending_revoke_add_under_hid_gate session_id auth_generation l =
     (if \<exists>p\<in>set (cl_pending_revokes l). pr_used p \<and> pr_session_id p = session_id \<and>
           pr_auth_generation p = auth_generation
      then l
      else case filter (\<lambda>i. \<not> pr_used (cl_pending_revokes l ! i)) [0..<length (cl_pending_revokes l)] of
             i # _ \<Rightarrow> l\<lparr>cl_pending_revokes := (cl_pending_revokes l)[i := \<lparr>pr_used = True,
                        pr_session_id = c_strlcpy (SI_CONTROL_LEASE_SESSION_ID_MAX_LEN + 1) session_id,
                        pr_auth_generation = auth_generation\<rparr>]\<rparr>
           | [] \<Rightarrow> l\<lparr>cl_pending_revoke_fail_closed := True\<rparr>)"

text \<open>A lease that is revoked loses its session; one that ends otherwise keeps the name.\<close>

definition revoke_lease :: "lease \<Rightarrow> lease" where
  "revoke_lease l = epoch_bump_locked (l\<lparr>cl_seen := False, cl_session_id := [], cl_reason := [],
     cl_auth_generation := 0, cl_resource_id := 0\<rparr>)"

definition drop_lease :: "lease \<Rightarrow> lease" where
  "drop_lease l = epoch_bump_locked (l\<lparr>cl_seen := False, cl_reason := [], cl_resource_id := 0\<rparr>)"

definition revoke_matches :: "string \<Rightarrow> u32 \<Rightarrow> lease \<Rightarrow> bool" where
  "revoke_matches session_id auth_generation l \<longleftrightarrow> cl_session_id l = session_id \<and>
     (auth_generation = 0 \<or> cl_auth_generation l = auth_generation)"

text \<open>The loop over the journal: each used slot is applied and cleared.\<close>

fun apply_journal :: "pending_revoke_t list \<Rightarrow> lease \<Rightarrow> bool \<times> lease" where
  "apply_journal [] l = (False, l)"
| "apply_journal (p # ps) l =
     (let hit = (pr_used p \<and> revoke_matches (pr_session_id p) (pr_auth_generation p) l \<and> cl_seen l);
          (changed, l') = apply_journal ps (if hit then revoke_lease l else l)
      in (hit \<or> changed, l'))"

definition pending_revokes_apply_locked :: "lease \<Rightarrow> bool \<times> lease" where
  "pending_revokes_apply_locked l =
     (let (c1, l) = (if cl_pending_revoke_fail_closed l
                     then (cl_seen l, (if cl_seen l then revoke_lease l else l)\<lparr>cl_pending_revoke_fail_closed := False\<rparr>)
                     else (False, l));
          (c2, l) = apply_journal (cl_pending_revokes l) l
      in (c1 \<or> c2, l\<lparr>cl_pending_revokes := map (\<lambda>p. if pr_used p then zero_revoke else p) (cl_pending_revokes l)\<rparr>))"

definition materialize_expiry_locked :: "u32 \<Rightarrow> lease \<Rightarrow> bool \<times> lease" where
  "materialize_expiry_locked now_ms l =
     (if \<not> cl_seen l \<or> active_locked now_ms l then (False, l) else (True, drop_lease l))"

definition preserve_owner :: "si_hid_owner_token_t \<Rightarrow> si_hid_owner_transition_t \<Rightarrow> si_hid_owner_transition_t" where
  "preserve_owner current tr =
     (if ht_generation current \<noteq> 0 then tr\<lparr>tr_authorize := True, tr_claim := ht_claim current\<rparr> else tr)"

definition lease_claim :: "lease \<Rightarrow> si_hid_owner_claim_t" where
  "lease_claim l = \<lparr>hc_kind = SI_HID_OWNER_CONTROL_LEASE,
     hc_session_id = c_strlcpy (SI_HID_OWNER_SESSION_ID_MAX_LEN + 1) (cl_session_id l),
     hc_auth_generation = cl_auth_generation l, hc_resource_id = cl_resource_id l,
     hc_authority_epoch = cl_epoch l\<rparr>"

definition desired_owner_locked ::
    "si_hid_owner_token_t \<Rightarrow> u32 \<Rightarrow> bool \<Rightarrow> lease \<Rightarrow> si_hid_owner_transition_t \<Rightarrow> si_hid_owner_transition_t" where
  "desired_owner_locked current now_ms kvm_view_active l tr =
     (if active_locked now_ms l \<and> \<not> strcaseeq (cl_mode l) ''observe''
      then tr\<lparr>tr_authorize := True, tr_claim := lease_claim l\<rparr>
      else if kvm_view_active \<and> hc_kind (ht_claim current) = SI_HID_OWNER_KVM_STREAM then preserve_owner current tr
      else if hc_kind (ht_claim current) \<noteq> SI_HID_OWNER_CONTROL_LEASE then preserve_owner current tr
      else tr)"

section \<open>The operations under the gate\<close>

text \<open>
  The cases of the callback's switch. False is a \<open>return false\<close>; otherwise the callback goes on to the
  desired owner.
\<close>

definition op_touch ::
    "si_hid_owner_token_t \<Rightarrow> bool \<Rightarrow> u32 \<Rightarrow> lease_transition_context_t \<Rightarrow> lease \<Rightarrow> bool \<times> lease_transition_context_t \<times> lease" where
  "op_touch current was_active now_ms x l =
     (let boot = (lx_operation x = LEASE_OP_TOUCH_BOOT);
          mode = (if boot then ''supervised'' else c_or_empty (lx_mode x));
          reason = (if boot then ''boot-key sequence'' else c_or_empty (lx_reason x))
      in if lx_stale_retry x \<and> (cl_embedded_preempted l \<or> ht_generation current \<noteq> 0)
         then (False, x\<lparr>lx_error := ESP_ERR_INVALID_STATE\<rparr>, l)
         else
           let touch = si_hid_embedded_touch_decide was_active (Some current) (lx_expected_owner x)
                         (cl_resource_id l) (cl_epoch l);
               renewal = (touch = SI_HID_EMBEDDED_TOUCH_RENEW)
           in if touch = SI_HID_EMBEDDED_TOUCH_DENY then (False, x\<lparr>lx_error := ESP_ERR_INVALID_STATE\<rparr>, l)
              else
                let changed = (\<not> renewal \<or> \<not> strcaseeq (cl_mode l) mode);
                    l = (if lx_expected_owner x = None \<and> \<not> lx_stale_retry x
                         then l\<lparr>cl_embedded_preempted := False\<rparr> else l);
                    l = l\<lparr>cl_seen := True, cl_last_ms := now_ms, cl_auth_generation := 0,
                          cl_owner := c_strlcpy (SI_CONTROL_LEASE_OWNER_MAX_LEN + 1) ''agent'',
                          cl_mode := c_strlcpy (SI_CONTROL_LEASE_MODE_MAX_LEN + 1) mode,
                          cl_session_id := c_strlcpy (SI_CONTROL_LEASE_SESSION_ID_MAX_LEN + 1) ''embedded-agent'',
                          cl_reason := c_strlcpy (SI_CONTROL_LEASE_REASON_MAX_LEN + 1) reason\<rparr>;
                    l = (if \<not> renewal
                         then
                           let r = (if cl_next_embedded_resource_id l + 1 = 0 then 1
                                    else cl_next_embedded_resource_id l + 1)
                           in epoch_bump_locked (l\<lparr>cl_next_embedded_resource_id := r, cl_resource_id := r\<rparr>)
                         else if changed then epoch_bump_locked l else l)
                in (True, x\<lparr>lx_state_changed := changed \<or> lx_state_changed x\<rparr>, l))"

definition op_release_embedded ::
    "bool \<Rightarrow> lease_transition_context_t \<Rightarrow> lease \<Rightarrow> bool \<times> lease_transition_context_t \<times> lease" where
  "op_release_embedded was_active x l =
     (if si_hid_embedded_release_matches was_active (lx_expected_owner x) (cl_resource_id l) (cl_epoch l)
      then (True, x\<lparr>lx_state_changed := True\<rparr>, drop_lease l)
      else (False, x\<lparr>lx_error := ESP_ERR_INVALID_STATE\<rparr>, l))"

definition embedded_held :: "bool \<Rightarrow> lease \<Rightarrow> bool" where
  "embedded_held was_active l \<longleftrightarrow> was_active \<and> cl_auth_generation l = 0 \<and> cl_session_id l = ''embedded-agent''"

definition op_abandon_embedded ::
    "bool \<Rightarrow> lease_transition_context_t \<Rightarrow> lease \<Rightarrow> bool \<times> lease_transition_context_t \<times> lease" where
  "op_abandon_embedded was_active x l =
     (if embedded_held was_active l then (True, x\<lparr>lx_state_changed := True\<rparr>, drop_lease l) else (True, x, l))"

definition held_by_other :: "bool \<Rightarrow> lease_transition_context_t \<Rightarrow> lease \<Rightarrow> bool" where
  "held_by_other was_active x l \<longleftrightarrow> lx_active x \<and> was_active \<and>
     (\<not> strcaseeq (cl_owner l) (c_or_empty (lx_owner x)) \<or> cl_session_id l \<noteq> c_or_empty (lx_session_id x) \<or>
      cl_auth_generation l \<noteq> lx_auth_generation x)"

definition op_update ::
    "bool \<Rightarrow> u32 \<Rightarrow> lease_transition_context_t \<Rightarrow> lease \<Rightarrow> bool \<times> lease_transition_context_t \<times> lease" where
  "op_update was_active now_ms x l =
     (let other = held_by_other was_active x l; embedded = embedded_held was_active l in
      if other \<and> \<not> lx_force x
      then (False, x\<lparr>lx_update_result := SI_CONTROL_LEASE_UPDATE_HELD_BY_OTHER\<rparr>, l)
      else if lx_active x
      then
        let l = (if embedded \<and> other then l\<lparr>cl_embedded_preempted := True\<rparr> else l);
            changed = (\<not> was_active \<or> other \<or> \<not> strcaseeq (cl_mode l) (c_or_empty (lx_mode x)));
            l = l\<lparr>cl_seen := True, cl_last_ms := now_ms, cl_auth_generation := lx_auth_generation x, cl_resource_id := 0,
                  cl_owner := c_strlcpy (SI_CONTROL_LEASE_OWNER_MAX_LEN + 1) (c_or_empty (lx_owner x)),
                  cl_mode := c_strlcpy (SI_CONTROL_LEASE_MODE_MAX_LEN + 1) (c_or_empty (lx_mode x)),
                  cl_session_id := c_strlcpy (SI_CONTROL_LEASE_SESSION_ID_MAX_LEN + 1) (c_or_empty (lx_session_id x)),
                  cl_reason := c_strlcpy (SI_CONTROL_LEASE_REASON_MAX_LEN + 1) (c_or_empty (lx_reason x))\<rparr>;
            l = (if changed then epoch_bump_locked l else l)
        in (True, x\<lparr>lx_state_changed := changed \<or> lx_state_changed x, lx_update_result := SI_CONTROL_LEASE_UPDATE_OK\<rparr>, l)
      else if \<not> was_active \<or> lx_force x \<or>
              (strcaseeq (cl_owner l) (c_or_empty (lx_owner x)) \<and> cl_session_id l = c_or_empty (lx_session_id x) \<and>
               (lx_auth_generation x = 0 \<or> cl_auth_generation l = lx_auth_generation x))
      then
        let l = (if was_active then epoch_bump_locked l else l);
            l = (if embedded then l\<lparr>cl_embedded_preempted := True\<rparr> else l)
        in (True, x\<lparr>lx_state_changed := was_active \<or> lx_state_changed x, lx_update_result := SI_CONTROL_LEASE_UPDATE_OK\<rparr>,
            l\<lparr>cl_seen := False, cl_reason := [], cl_resource_id := 0\<rparr>)
      else (True, x\<lparr>lx_update_result := SI_CONTROL_LEASE_UPDATE_OK\<rparr>, l))"

definition op_revoke_session :: "lease_transition_context_t \<Rightarrow> lease \<Rightarrow> bool \<times> lease_transition_context_t \<times> lease" where
  "op_revoke_session x l =
     (case lx_session_id x of
        Some sid \<Rightarrow>
          if revoke_matches sid (lx_auth_generation x) l
          then (True, x\<lparr>lx_state_changed := True\<rparr>,
                (if cl_seen l then epoch_bump_locked l else l)\<lparr>cl_seen := False, cl_session_id := [], cl_reason := [],
                   cl_auth_generation := 0, cl_resource_id := 0\<rparr>)
          else (True, x, l)
      | None \<Rightarrow> (True, x, l))"

definition lease_operation ::
    "si_hid_owner_token_t \<Rightarrow> bool \<Rightarrow> u32 \<Rightarrow> lease_transition_context_t \<Rightarrow> lease \<Rightarrow> bool \<times> lease_transition_context_t \<times> lease" where
  "lease_operation current was_active now_ms x l =
     (case lx_operation x of
        LEASE_OP_TOUCH_AGENT \<Rightarrow> op_touch current was_active now_ms x l
      | LEASE_OP_TOUCH_BOOT \<Rightarrow> op_touch current was_active now_ms x l
      | LEASE_OP_RELEASE_EMBEDDED \<Rightarrow> op_release_embedded was_active x l
      | LEASE_OP_ABANDON_EMBEDDED \<Rightarrow> op_abandon_embedded was_active x l
      | LEASE_OP_UPDATE \<Rightarrow> op_update was_active now_ms x l
      | LEASE_OP_REVOKE_SESSION \<Rightarrow> op_revoke_session x l
      | LEASE_OP_MAINTAIN \<Rightarrow> (True, x, l))"

definition lease_transition_under_hid_gate ::
    "lease_env \<Rightarrow> lease_transition_context_t \<Rightarrow> lease \<Rightarrow> si_hid_owner_token_t \<Rightarrow> si_hid_owner_transition_t \<Rightarrow>
     bool \<times> si_hid_owner_transition_t \<times> lease_transition_context_t \<times> lease" where
  "lease_transition_under_hid_gate e x l current tr =
     (if \<not> cl_lock l then (False, tr, x, l)
      else if lx_operation x = LEASE_OP_UPDATE \<and> \<not> le_live_guard e
      then (False, tr, x\<lparr>lx_error := ESP_ERR_INVALID_STATE, lx_update_result := SI_CONTROL_LEASE_UPDATE_INVALID\<rparr>, l)
      else if \<not> le_lock e
      then
        let sid = c_or_empty (lx_session_id x);
            revoking = (lx_operation x = LEASE_OP_REVOKE_SESSION \<and> sid \<noteq> [])
        in (False, tr,
            (if revoking then x\<lparr>lx_state_changed := True\<rparr> else x)
              \<lparr>lx_error := ESP_ERR_TIMEOUT, lx_update_result := SI_CONTROL_LEASE_UPDATE_UNAVAILABLE\<rparr>,
            if revoking then pending_revoke_add_under_hid_gate sid (lx_auth_generation x) l else l)
      else
        let now_ms = le_now_ms e;
            (c1, l) = pending_revokes_apply_locked l;
            (c2, l) = materialize_expiry_locked now_ms l;
            x = x\<lparr>lx_state_changed := c2 \<or> c1\<rparr>;
            was_active = active_locked now_ms l;
            (proceed, x, l) = lease_operation current was_active now_ms x l
        in if \<not> proceed then (False, tr, x, l)
           else (True, desired_owner_locked current now_ms (le_kvm_view_active e) l tr, x\<lparr>lx_error := ESP_OK\<rparr>, l))"

section \<open>Transitions of the lease and the HID ownership\<close>

record control =
  ct_lease :: lease
  ct_hid :: hid_mgr

definition run_transition ::
    "lease_env \<Rightarrow> lease_transition_context_t \<Rightarrow> si_hid_owner_token_t option \<Rightarrow> control \<Rightarrow>
     bool \<times> si_hid_owner_token_t option \<times> lease_transition_context_t \<times> control" where
  "run_transition e x owner s =
     (case si_hid_authority_transition (le_hid e) (lease_transition_under_hid_gate e x (ct_lease s)) (x, ct_lease s)
             owner (ct_hid s) of
        (ok, owner', m, x', l) \<Rightarrow>
          (ok, owner',
           (if ok then x'
            else x'\<lparr>lx_error := (if lx_error x' = ESP_OK then ESP_ERR_NOT_FINISHED else lx_error x'),
                    lx_update_result := (if lx_update_result x' = SI_CONTROL_LEASE_UPDATE_OK
                                         then SI_CONTROL_LEASE_UPDATE_UNAVAILABLE else lx_update_result x')\<rparr>),
           \<lparr>ct_lease = l, ct_hid = m\<rparr>))"

definition lease_maintenance :: "lease_env \<Rightarrow> control \<Rightarrow> control" where
  "lease_maintenance e s = snd (snd (snd (run_transition e (zero_context LEASE_OP_MAINTAIN) None s)))"

definition embedded_lease_live_under_hid_gate :: "lease_env \<Rightarrow> lease \<Rightarrow> bool" where
  "embedded_lease_live_under_hid_gate e l \<longleftrightarrow> cl_lock l \<and> le_lock e \<and> active_locked (le_now_ms e) l \<and>
     strcaseeq (cl_owner l) ''agent'' \<and> cl_session_id l = ''embedded-agent'' \<and> cl_auth_generation l = 0 \<and>
     \<not> strcaseeq (cl_mode l) ''observe''"

text \<open>The mutex and the maintenance task may fail to be created; then the mutex is given back.\<close>

definition si_control_lease_start :: "bool \<Rightarrow> bool \<Rightarrow> hid_env \<Rightarrow> control \<Rightarrow> esp_err_t \<times> control" where
  "si_control_lease_start mutex_created task_created e s =
     (if cl_lock (ct_lease s) then (ESP_OK, s)
      else if \<not> mutex_created then (ESP_ERR_NO_MEM, s)
      else if \<not> task_created then (ESP_ERR_NO_MEM, s)
      else
        let (guard_ret, m) = si_hid_set_embedded_authority_guard e (ct_hid s) in
        if guard_ret \<noteq> ESP_OK then (guard_ret, s\<lparr>ct_hid := m\<rparr>)
        else (ESP_OK, \<lparr>ct_lease = (ct_lease s)\<lparr>cl_lock := True\<rparr>, ct_hid = m\<rparr>))"

definition si_control_lease_mode_valid :: "string option \<Rightarrow> bool" where
  "si_control_lease_mode_valid mode =
     (case mode of None \<Rightarrow> False
      | Some m \<Rightarrow> strcaseeq m ''observe'' \<or> strcaseeq m ''supervised'' \<or> strcaseeq m ''autonomous'')"

definition si_control_lease_owner_valid :: "string option \<Rightarrow> bool" where
  "si_control_lease_owner_valid owner =
     (case owner of None \<Rightarrow> False | Some w \<Rightarrow> strcaseeq w ''agent'' \<or> strcaseeq w ''mcp'')"

text \<open>
  A touch by an embedded producer. It runs up to three transitions and the gate is free in between:
  \<open>es n\<close> is what the \<open>n\<close>-th critical section gets from outside and \<open>other n\<close> what the other tasks do
  before it.
\<close>

definition touch_embedded_owned ::
    "(nat \<Rightarrow> lease_env) \<Rightarrow> (nat \<Rightarrow> control \<Rightarrow> control) \<Rightarrow> task_handle option \<Rightarrow> lease_operation_t \<Rightarrow> string option \<Rightarrow>
     string option \<Rightarrow> si_hid_owner_token_t option \<Rightarrow> control \<Rightarrow> esp_err_t \<times> si_hid_owner_token_t option \<times> control" where
  "touch_embedded_owned es other task operation mode reason owner s =
     (case owner of None \<Rightarrow> (ESP_ERR_INVALID_ARG, owner, s) | Some expected \<Rightarrow>
      if \<not> si_control_lease_mode_valid mode then (ESP_ERR_INVALID_ARG, owner, s)
      else
        let x = (zero_context operation)\<lparr>lx_mode := mode, lx_reason := reason, lx_active := True, lx_error := ESP_FAIL,
                  lx_expected_owner := (if ht_generation expected \<noteq> 0 then Some expected else None)\<rparr>;
            (ok, granted, x, s) = run_transition (es 0) x (Some zero_token) s;
            (ok, granted, x, expected, s) =
              (if \<not> ok \<and> lx_error x = ESP_ERR_INVALID_STATE \<and> ht_generation expected \<noteq> 0
               then
                 let s = other 1 s;
                     current = the (snd (si_hid_owner_get_current (le_hid (es 1)) (Some zero_token) (ct_hid s)))
                 in if \<not> si_hid_owner_token_equal (Some current) (Some expected)
                    then
                      let (ok, granted, x, s) = run_transition (es 2)
                            (x\<lparr>lx_expected_owner := None, lx_stale_retry := True, lx_error := ESP_FAIL,
                               lx_update_result := SI_CONTROL_LEASE_UPDATE_OK, lx_state_changed := False\<rparr>)
                            granted (other 2 s)
                      in (ok, granted, x, zero_token, s)
                    else (ok, granted, x, expected, s)
               else (ok, granted, x, expected, s))
        in if \<not> ok
           then (lx_error x, owner,
                 if lx_error x = ESP_ERR_NOT_FINISHED \<and> ht_generation expected = 0
                 then snd (snd (snd (run_transition (es 3) (zero_context LEASE_OP_ABANDON_EMBEDDED) None (other 3 s))))
                 else s)
           else
             let s = other 4 s; (bind_ret, m) = si_hid_bind_embedded_producer (le_hid (es 4)) task granted (ct_hid s) in
             if bind_ret \<noteq> ESP_OK
             then (bind_ret, owner,
                   snd (snd (snd (run_transition (es 5)
                     ((zero_context LEASE_OP_RELEASE_EMBEDDED)\<lparr>lx_expected_owner := granted\<rparr>) None (other 5 (s\<lparr>ct_hid := m\<rparr>))))))
             else (ESP_OK, granted, s\<lparr>ct_hid := m\<rparr>))"

definition si_control_lease_touch_agent_owned where
  "si_control_lease_touch_agent_owned es other task mode reason owner s =
     touch_embedded_owned es other task LEASE_OP_TOUCH_AGENT mode reason owner s"

definition si_control_lease_touch_boot_sequence_owned where
  "si_control_lease_touch_boot_sequence_owned es other task owner s =
     touch_embedded_owned es other task LEASE_OP_TOUCH_BOOT (Some ''supervised'') (Some ''boot-key sequence'') owner s"

definition si_control_lease_release_embedded_owner ::
    "lease_env \<Rightarrow> si_hid_owner_token_t option \<Rightarrow> control \<Rightarrow> bool \<times> control" where
  "si_control_lease_release_embedded_owner e owner s =
     (case owner of None \<Rightarrow> (False, s) | Some w \<Rightarrow>
      if ht_generation w = 0 then (False, s)
      else (case run_transition e ((zero_context LEASE_OP_RELEASE_EMBEDDED)\<lparr>lx_expected_owner := owner\<rparr>) None s of
              (ok, _, x, s') \<Rightarrow> (ok \<and> lx_state_changed x, s')))"

definition si_control_lease_release_agent :: "lease_env \<Rightarrow> lease_env \<Rightarrow> task_handle option \<Rightarrow> control \<Rightarrow> control" where
  "si_control_lease_release_agent e0 e1 task s =
     (case si_hid_get_bound_embedded_owner (le_hid e0) task (ct_hid s) of
        None \<Rightarrow> s
      | Some owner \<Rightarrow> snd (si_control_lease_release_embedded_owner e1 (Some owner) s))"

definition si_control_lease_agent_active :: "lease_env \<Rightarrow> lease \<Rightarrow> bool" where
  "si_control_lease_agent_active e l \<longleftrightarrow> cl_lock l \<and> le_lock e \<and> active_locked (le_now_ms e) l"

definition si_control_lease_agent_allows_actions :: "lease_env \<Rightarrow> lease \<Rightarrow> bool" where
  "si_control_lease_agent_allows_actions e l \<longleftrightarrow> cl_lock l \<and> le_lock e \<and> active_locked (le_now_ms e) l \<and>
     \<not> strcaseeq (cl_mode l) ''observe''"

definition si_control_lease_owner_matches :: "lease_env \<Rightarrow> string option \<Rightarrow> lease \<Rightarrow> bool" where
  "si_control_lease_owner_matches e owner l =
     (case owner of None \<Rightarrow> False
      | Some w \<Rightarrow> cl_lock l \<and> le_lock e \<and> active_locked (le_now_ms e) l \<and> strcaseeq (cl_owner l) w)"

definition si_control_lease_owner_session_matches :: "lease_env \<Rightarrow> string option \<Rightarrow> string option \<Rightarrow> lease \<Rightarrow> bool" where
  "si_control_lease_owner_session_matches e owner session_id l =
     (case (owner, session_id) of
        (Some w, Some sid) \<Rightarrow> sid \<noteq> [] \<and> cl_lock l \<and> le_lock e \<and> active_locked (le_now_ms e) l \<and>
          strcaseeq (cl_owner l) w \<and> cl_session_id l = sid
      | _ \<Rightarrow> False)"

definition si_control_lease_get_hid_owner ::
    "lease_env \<Rightarrow> string option \<Rightarrow> string option \<Rightarrow> u32 \<Rightarrow> u32 \<Rightarrow> si_hid_owner_token_t option \<Rightarrow> control \<Rightarrow>
     bool \<times> si_hid_owner_token_t option" where
  "si_control_lease_get_hid_owner e owner session_id auth_generation expected_epoch token s =
     (case (owner, session_id, token) of
        (Some w, Some sid, Some _) \<Rightarrow>
          if \<not> cl_lock (ct_lease s) then (False, token)
          else (case si_hid_owner_get_current (le_hid e) token (ct_hid s) of
                  (present, token') \<Rightarrow>
                    let c = ht_claim (the token'); l = ct_lease s in
                    if \<not> present \<or> hc_kind c \<noteq> SI_HID_OWNER_CONTROL_LEASE \<or> hc_auth_generation c \<noteq> auth_generation \<or>
                       hc_authority_epoch c \<noteq> expected_epoch \<or> hc_session_id c \<noteq> sid
                    then (False, token')
                    else (le_lock e \<and> active_locked (le_now_ms e) l \<and> \<not> strcaseeq (cl_mode l) ''observe'' \<and>
                          strcaseeq (cl_owner l) w \<and> cl_session_id l = sid \<and> cl_auth_generation l = auth_generation \<and>
                          cl_epoch l = expected_epoch, token'))
      | _ \<Rightarrow> (False, token))"

definition si_control_lease_revoke_auth_session ::
    "lease_env \<Rightarrow> lease_env \<Rightarrow> (control \<Rightarrow> control) \<Rightarrow> string option \<Rightarrow> u32 \<Rightarrow> control \<Rightarrow> bool \<times> control" where
  "si_control_lease_revoke_auth_session e0 e1 other session_id auth_generation s =
     (case session_id of None \<Rightarrow> (False, s) | Some sid \<Rightarrow>
      if sid = [] then (False, s)
      else
        let (hid_revoked, m) = si_hid_owner_revoke_session (le_hid e0) session_id auth_generation (ct_hid s);
            x = (zero_context LEASE_OP_REVOKE_SESSION)\<lparr>lx_session_id := session_id, lx_auth_generation := auth_generation\<rparr>;
            (cleaned, _, x, s') = run_transition e1 x None (other (s\<lparr>ct_hid := m\<rparr>))
        in (hid_revoked \<or> cleaned \<or> lx_state_changed x, s'))"

definition si_control_lease_update_for_auth_session ::
    "lease_env \<Rightarrow> string option \<Rightarrow> string option \<Rightarrow> u32 \<Rightarrow> string option \<Rightarrow> string option \<Rightarrow> bool \<Rightarrow> bool \<Rightarrow> control \<Rightarrow>
     si_control_lease_update_result_t \<times> control" where
  "si_control_lease_update_for_auth_session e owner session_id auth_generation mode reason active force s =
     (if \<not> si_control_lease_owner_valid owner \<or> c_or_empty session_id = [] \<or>
         length (c_or_empty session_id) > SI_CONTROL_LEASE_SESSION_ID_MAX_LEN \<or>
         (active \<and> \<not> si_control_lease_mode_valid mode)
      then (SI_CONTROL_LEASE_UPDATE_INVALID, s)
      else (case run_transition e ((zero_context LEASE_OP_UPDATE)\<lparr>lx_owner := owner, lx_session_id := session_id,
                   lx_mode := mode, lx_reason := reason, lx_auth_generation := auth_generation, lx_active := active,
                   lx_force := force, lx_update_result := SI_CONTROL_LEASE_UPDATE_UNAVAILABLE\<rparr>) None s of
              (_, _, x, s') \<Rightarrow> (lx_update_result x, s')))"

section \<open>Status\<close>

record si_control_lease_status_t =
  st_epoch :: u32
  st_active :: bool
  st_kvm_view_active :: bool
  st_kvm_active :: bool
  st_agent_active :: bool
  st_input_control_active :: bool
  st_agent_takeover :: bool
  st_can_request :: bool
  st_kvm_remaining_ms :: u32
  st_agent_remaining_ms :: u32
  st_expires_in_ms :: u32
  st_owner :: string
  st_mode :: string
  st_agent_owner :: string
  st_session_id :: string
  st_reason :: string

text \<open>The last two arguments are the takeover flag and the remaining time the video control reports.\<close>

definition si_control_lease_get_status ::
    "lease_env \<Rightarrow> bool \<Rightarrow> u32 \<Rightarrow> control \<Rightarrow> si_control_lease_status_t" where
  "si_control_lease_get_status e agent_takeover kvm_remaining_ms s =
     (let l = ct_lease s; view = le_kvm_view_active e;
          (present, token) = si_hid_owner_get_current (le_hid e) (Some zero_token) (ct_hid s);
          c = ht_claim (the token);
          kvm_active = (view \<and> present \<and> hc_kind c = SI_HID_OWNER_KVM_STREAM);
          kvm_rem = (if view then kvm_remaining_ms else 0);
          locked = (cl_lock l \<and> le_lock e);
          raw_agent_active = (locked \<and> active_locked (le_now_ms e) l);
          agent_rem = (if locked then remaining_locked (le_now_ms e) l else 0);
          agent_owner = (if locked then cl_owner l else ''agent'')
      in \<lparr>st_epoch = (if locked then cl_epoch l else 0), st_active = (kvm_active \<or> raw_agent_active),
          st_kvm_view_active = view, st_kvm_active = kvm_active, st_agent_active = raw_agent_active,
          st_input_control_active = (raw_agent_active \<and> \<not> strcaseeq (cl_mode l) ''observe'' \<and> present \<and>
            hc_kind c = SI_HID_OWNER_CONTROL_LEASE \<and> hc_auth_generation c = cl_auth_generation l \<and>
            hc_authority_epoch c = cl_epoch l \<and> hc_session_id c = cl_session_id l),
          st_agent_takeover = agent_takeover, st_can_request = (\<not> raw_agent_active),
          st_kvm_remaining_ms = kvm_rem, st_agent_remaining_ms = agent_rem,
          st_expires_in_ms = (if raw_agent_active then agent_rem else if kvm_active then kvm_rem else 0),
          st_owner = (if raw_agent_active then agent_owner else if kvm_active then ''kvm'' else ''none''),
          st_mode = (if raw_agent_active then cl_mode l else if kvm_active then ''manual'' else ''idle''),
          st_agent_owner = agent_owner, st_session_id = (if locked then cl_session_id l else []),
          st_reason = (if locked then cl_reason l else [])\<rparr>)"

section \<open>The system\<close>

datatype control_op =
    Ctl_Start bool bool hid_env
  | Ctl_Hid hid_mgr_op
  | Ctl_Run lease_env lease_transition_context_t

definition control_step :: "control \<Rightarrow> control_op \<Rightarrow> control" where
  "control_step s x =
     (case x of
        Ctl_Start mutex task e \<Rightarrow> snd (si_control_lease_start mutex task e s)
      | Ctl_Hid h \<Rightarrow> s\<lparr>ct_hid := hid_mgr_step (ct_hid s) h\<rparr>
      | Ctl_Run e x \<Rightarrow> snd (snd (snd (run_transition e x None s))))"

definition control_initial :: control where
  "control_initial = \<lparr>ct_lease = initial_lease, ct_hid = hid_mgr_initial\<rparr>"

end
