(* ===== verification/Hid_Manager_Props.thy ===== *)
theory Hid_Manager_Props
  imports Hid_Manager
begin

text \<open>
  The invariant of the HID execution manager and what follows from it: input reaches the host only
  for the token that is current at that moment, and a transition that reports success leaves the
  host without held keys or buttons.
\<close>

section \<open>The invariant\<close>

definition neutral_report :: "hid_report \<Rightarrow> bool" where
  "neutral_report r = (case r of
       Keyboard_Report mods ks \<Rightarrow> mods = 0 \<and> (\<forall>k\<in>set ks. k = 0)
     | Mouse_Report b _ _ _ _ \<Rightarrow> b = 0
     | Abs_Pointer_Report b _ _ \<Rightarrow> b = 0)"

definition keys_ok :: "hid_mgr \<Rightarrow> bool" where
  "keys_ok m \<longleftrightarrow> length (hm_keys m) = 6 \<and> hm_key_count m \<le> 6 \<and> (\<forall>k\<in>set (drop (hm_key_count m) (hm_keys m)). k = 0)"

definition host_keyboard_neutral :: "hid_mgr \<Rightarrow> bool" where
  "host_keyboard_neutral m \<longleftrightarrow> ho_modifiers (hm_host m) = 0 \<and> (\<forall>k\<in>set (ho_keys (hm_host m)). k = 0)"

definition host_neutral :: "hid_mgr \<Rightarrow> bool" where
  "host_neutral m \<longleftrightarrow> host_keyboard_neutral m \<and> ho_mouse_buttons (hm_host m) = 0 \<and> ho_abs_buttons (hm_host m) = 0"

abbreviation dirty_reports :: "hid_mgr \<Rightarrow> u8" where
  "dirty_reports m \<equiv> hs_dirty_reports (hm_owner_state m)"

abbreviation report_owner :: "hid_mgr \<Rightarrow> si_hid_owner_token_t" where
  "report_owner m \<equiv> hs_report_owner (hm_owner_state m)"

abbreviation current :: "hid_mgr \<Rightarrow> si_hid_owner_token_t" where
  "current m \<equiv> hs_current (hm_owner_state m)"

text \<open>An endpoint that is not marked dirty holds no input at the host.\<close>

definition host_ok :: "hid_mgr \<Rightarrow> bool" where
  "host_ok m \<longleftrightarrow> (\<not> bit (dirty_reports m) 0 \<longrightarrow> host_keyboard_neutral m) \<and>
     (\<not> bit (dirty_reports m) 1 \<longrightarrow> ho_mouse_buttons (hm_host m) = 0) \<and>
     (\<not> bit (dirty_reports m) 2 \<longrightarrow> ho_abs_buttons (hm_host m) = 0) \<and>
     (\<forall>n. bit (dirty_reports m) n \<longrightarrow> n < 3)"

definition log_ok :: "hid_mgr \<Rightarrow> bool" where
  "log_ok m \<longleftrightarrow> (\<forall>(w, c, r)\<in>set (hm_log m). w = c \<or> neutral_report r)"

definition base :: "hid_mgr \<Rightarrow> bool" where
  "base m \<longleftrightarrow> keys_ok m \<and> host_ok m \<and> log_ok m \<and> fe_generation (hm_abort_fence m) \<noteq> 0 \<and> hid_inv (hm_owner_state m) \<and>
     (hm_mount_reset_pending m \<longrightarrow> host_neutral m)"

text \<open>While a command of token \<open>t\<close> runs: \<open>t\<close> is current, or it was revoked and the fence has moved.\<close>

definition busy :: "si_hid_owner_token_t \<Rightarrow> hid_mgr \<Rightarrow> bool" where
  "busy t m \<longleftrightarrow> base m \<and> \<not> hm_mount_reset_pending m \<and> report_owner m = t \<and> ht_generation t \<noteq> 0 \<and>
     (current m = t \<and> hs_next_generation (hm_owner_state m) = ht_generation t \<or>
      current m = zero_token \<and> hs_next_generation (hm_owner_state m) = bump_generation (ht_generation t)) \<and>
     (hm_command_active m \<longrightarrow> active_command_aborted m = (current m \<noteq> t))"

definition idle :: "hid_mgr \<Rightarrow> bool" where
  "idle m \<longleftrightarrow> base m \<and> \<not> hm_command_active m \<and>
     (ht_generation (report_owner m) = 0 \<longrightarrow> dirty_reports m = 0) \<and>
     (ht_generation (report_owner m) \<noteq> 0 \<longrightarrow> report_owner m = current m \<or> hs_neutral_pending (hm_owner_state m))"

lemma mask_bits:
  "bit SI_HID_REPORT_DIRTY_KEYBOARD n \<longleftrightarrow> n = 0"
  "bit SI_HID_REPORT_DIRTY_MOUSE n \<longleftrightarrow> n = 1"
  "bit SI_HID_REPORT_DIRTY_ABS_POINTER n \<longleftrightarrow> n = 2"
proof -
  have "bit ((2 :: u8) ^ k) n \<longleftrightarrow> n = k" if "k < 8" for k
    using that by (auto simp: bit_exp_iff)
  from this [of 0] this [of 1] this [of 2] show
    "bit SI_HID_REPORT_DIRTY_KEYBOARD n \<longleftrightarrow> n = 0"
    "bit SI_HID_REPORT_DIRTY_MOUSE n \<longleftrightarrow> n = 1"
    "bit SI_HID_REPORT_DIRTY_ABS_POINTER n \<longleftrightarrow> n = 2"
    by (simp_all add: SI_HID_REPORT_DIRTY_KEYBOARD_def SI_HID_REPORT_DIRTY_MOUSE_def SI_HID_REPORT_DIRTY_ABS_POINTER_def)
qed

lemma and_single_bit: "(w AND v \<noteq> 0) \<longleftrightarrow> bit w k" if "\<And>n. bit v n \<longleftrightarrow> n = k" for w v :: u8
proof
  assume "w AND v \<noteq> 0"
  then obtain n where "bit (w AND v) n" unfolding bit_eq_iff by auto
  then show "bit w k" using that by (auto simp: bit_and_iff)
next
  assume "bit w k"
  then have "bit (w AND v) k" using that by (simp add: bit_and_iff)
  then show "w AND v \<noteq> 0" by (metis bit_0_eq bot_apply bot_bool_def)
qed

lemma dirty_masks:
  "dirty SI_HID_REPORT_DIRTY_KEYBOARD m \<longleftrightarrow> bit (dirty_reports m) 0"
  "dirty SI_HID_REPORT_DIRTY_MOUSE m \<longleftrightarrow> bit (dirty_reports m) 1"
  "dirty SI_HID_REPORT_DIRTY_ABS_POINTER m \<longleftrightarrow> bit (dirty_reports m) 2"
  unfolding dirty_def by (rule and_single_bit, rule mask_bits)+

lemma mask_nonzero [simp]:
  "SI_HID_REPORT_DIRTY_KEYBOARD \<noteq> 0" "SI_HID_REPORT_DIRTY_MOUSE \<noteq> 0" "SI_HID_REPORT_DIRTY_ABS_POINTER \<noteq> 0"
  by (simp_all add: SI_HID_REPORT_DIRTY_KEYBOARD_def SI_HID_REPORT_DIRTY_MOUSE_def SI_HID_REPORT_DIRTY_ABS_POINTER_def)

lemma clean_zero: "host_ok m \<Longrightarrow> dirty_reports m = 0 \<longleftrightarrow> \<not> bit (dirty_reports m) 0 \<and> \<not> bit (dirty_reports m) 1 \<and> \<not> bit (dirty_reports m) 2"
proof -
  assume h: "host_ok m"
  have "dirty_reports m = 0" if "\<not> bit (dirty_reports m) 0" "\<not> bit (dirty_reports m) 1" "\<not> bit (dirty_reports m) 2"
  proof (rule bit_word_eqI)
    fix n
    have "\<not> bit (dirty_reports m) n"
    proof
      assume b: "bit (dirty_reports m) n"
      then have "n < 3" using h by (simp add: host_ok_def)
      then have "n = 0 \<or> n = 1 \<or> n = 2" by auto
      then show False using b that by auto
    qed
    then show "bit (dirty_reports m) n \<longleftrightarrow> bit (0::u8) n" by simp
  qed
  then show ?thesis by auto
qed

lemma clean_neutral: "host_ok m \<Longrightarrow> dirty_reports m = 0 \<Longrightarrow> host_neutral m"
  by (simp add: host_ok_def host_neutral_def)

section \<open>Reports keep the invariant\<close>

lemma fence_advance:
  "the (snd (si_hid_abort_fence_advance (Some f))) = f\<lparr>fe_generation := fence_next (fe_generation f)\<rparr>"
  by (simp add: si_hid_abort_fence_advance_def advance_loop.simps Let_def)

lemma fence_next_ne: "g \<noteq> 0 \<Longrightarrow> fence_next g \<noteq> g" "fence_next g \<noteq> 0"
  using fence.bump_pow_fresh [of g 1] fence.bump_nonzero by simp_all

lemma zero_token_gen [simp]: "ht_generation zero_token = 0"
  by (simp add: zero_token_def)

text \<open>What the beginning of a transition does when there is a current token.\<close>

lemma revoke_previous_owner:
  "hm_owner_state (revoke_previous m) =
     (if ht_generation (current m) = 0 then hm_owner_state m
      else next_generation ((hm_owner_state m)\<lparr>hs_current := zero_token\<rparr>))"
  by (simp add: revoke_previous_def update_owner_def si_hid_owner_state_revoke_current_def is_current_iff Let_def)

lemma revoke_previous_other [simp]:
  "hm_keys (revoke_previous m) = hm_keys m" "hm_key_count (revoke_previous m) = hm_key_count m"
  "hm_modifiers (revoke_previous m) = hm_modifiers m" "hm_mouse_buttons (revoke_previous m) = hm_mouse_buttons m"
  "hm_abs_buttons (revoke_previous m) = hm_abs_buttons m" "hm_host (revoke_previous m) = hm_host m"
  "hm_log (revoke_previous m) = hm_log m" "hm_abort_fence (revoke_previous m) = hm_abort_fence m"
  "hm_command_active (revoke_previous m) = hm_command_active m"
  "hm_command_was_aborted (revoke_previous m) = hm_command_was_aborted m"
  "hm_command_send_ok (revoke_previous m) = hm_command_send_ok m"
  "hm_active_command_generation (revoke_previous m) = hm_active_command_generation m"
  "hm_mount_reset_pending (revoke_previous m) = hm_mount_reset_pending m"
  "hm_installed (revoke_previous m) = hm_installed m" "hm_mounted (revoke_previous m) = hm_mounted m"
  by (simp_all add: revoke_previous_def update_owner_def Let_def)

lemma abort_pending_simps [simp]:
  "hm_owner_state (abort_pending_commands m) = hm_owner_state m"
  "hm_keys (abort_pending_commands m) = hm_keys m" "hm_key_count (abort_pending_commands m) = hm_key_count m"
  "hm_modifiers (abort_pending_commands m) = hm_modifiers m"
  "hm_mouse_buttons (abort_pending_commands m) = hm_mouse_buttons m"
  "hm_abs_buttons (abort_pending_commands m) = hm_abs_buttons m" "hm_host (abort_pending_commands m) = hm_host m"
  "hm_log (abort_pending_commands m) = hm_log m"
  "hm_command_active (abort_pending_commands m) = hm_command_active m"
  "hm_command_was_aborted (abort_pending_commands m) = hm_command_was_aborted m"
  "hm_command_send_ok (abort_pending_commands m) = hm_command_send_ok m"
  "hm_active_command_generation (abort_pending_commands m) = hm_active_command_generation m"
  "hm_mount_reset_pending (abort_pending_commands m) = hm_mount_reset_pending m"
  "hm_installed (abort_pending_commands m) = hm_installed m" "hm_mounted (abort_pending_commands m) = hm_mounted m"
  "fe_generation (hm_abort_fence (abort_pending_commands m)) = fence_next (fe_generation (hm_abort_fence m))"
  by (simp_all add: abort_pending_commands_def fence_advance)

lemma begin_transition_base: "base m \<Longrightarrow> base (abort_pending_commands (revoke_previous m))"
  by (auto simp: base_def keys_ok_def host_ok_def log_ok_def host_keyboard_neutral_def host_neutral_def revoke_previous_owner
      next_generation_def hid_inv_def zero_token_def fence_next_ne)

lemma aborted_iff:
  "active_command_aborted m \<longleftrightarrow> hm_command_active m \<and>
     (hm_active_command_generation m = 0 \<or> fe_generation (hm_abort_fence m) \<noteq> hm_active_command_generation m)"
  by (auto simp: active_command_aborted_def si_hid_abort_fence_is_current_def si_hid_abort_fence_snapshot_def)


lemma interfere_busy:
  assumes "busy t m"
  shows "busy t (interfere e n m)"
proof (cases "he_revoke_at e = Some n \<and> ht_generation (current m) \<noteq> 0")
  case True
  let ?m = "abort_pending_commands (revoke_previous m)"
  have t: "current m = t" "hs_next_generation (hm_owner_state m) = ht_generation t"
    using assms True by (auto simp: busy_def zero_token_def)
  have "active_command_aborted ?m" if "hm_command_active m"
    using assms that t(1) fence_next_ne(1) [of "fe_generation (hm_abort_fence m)"]
    by (auto simp: aborted_iff busy_def)
  moreover have "zero_token \<noteq> t" using True t(1) zero_token_gen by metis
  ultimately show ?thesis using True assms begin_transition_base [of m] t
    by (auto simp: interfere_def busy_def revoke_previous_owner next_generation_def active_command_aborted_def)
qed (use assms in \<open>auto simp: interfere_def\<close>)

text \<open>A send keeps the report variables of the driver and the activity of the command.\<close>

definition same_reports :: "hid_mgr \<Rightarrow> hid_mgr \<Rightarrow> bool" where
  "same_reports m m' \<longleftrightarrow> hm_modifiers m' = hm_modifiers m \<and> hm_keys m' = hm_keys m \<and>
     hm_key_count m' = hm_key_count m \<and> hm_mouse_buttons m' = hm_mouse_buttons m \<and>
     hm_abs_buttons m' = hm_abs_buttons m \<and> hm_command_active m' = hm_command_active m \<and>
     hm_mount_reset_pending m' = hm_mount_reset_pending m \<and>
     hs_neutral_pending (hm_owner_state m') = hs_neutral_pending (hm_owner_state m)"

lemma same_reports_refl [simp]: "same_reports m m" by (simp add: same_reports_def)

lemma same_reports_trans: "same_reports a b \<Longrightarrow> same_reports b c \<Longrightarrow> same_reports a c"
  by (simp add: same_reports_def)

lemma interfere_same: "same_reports m (interfere e n m)"
  by (simp add: same_reports_def interfere_def revoke_previous_owner next_generation_def)

text \<open>Which reports may be sent when: a neutral one always, another one only by an active command.\<close>

definition report_fits :: "hid_report \<Rightarrow> u8 \<Rightarrow> bool \<Rightarrow> bool" where
  "report_fits r report_mask neutral \<longleftrightarrow> (neutral \<longrightarrow> neutral_report r) \<and>
     (case r of Keyboard_Report _ _ \<Rightarrow> report_mask = SI_HID_REPORT_DIRTY_KEYBOARD
      | Mouse_Report _ _ _ _ _ \<Rightarrow> report_mask = SI_HID_REPORT_DIRTY_MOUSE
      | Abs_Pointer_Report _ _ _ \<Rightarrow> report_mask = SI_HID_REPORT_DIRTY_ABS_POINTER)"

lemma note_emit_base:
  assumes "base m" "ht_generation (report_owner m) \<noteq> 0" "report_fits r report_mask neutral"
    and "neutral \<or> report_owner m = current m \<and> \<not> hm_mount_reset_pending m"
  shows "base (update_owner (\<lambda>s. si_hid_owner_state_note_report s report_mask neutral) (emit_report r m))"
proof -
  have "report_mask \<noteq> 0" using assms(3) by (cases r) (auto simp: report_fits_def)
  then show ?thesis
    using assms
    by (cases r; cases neutral)
       (auto simp: base_def keys_ok_def host_ok_def log_ok_def host_keyboard_neutral_def host_neutral_def update_owner_def emit_report_def
        si_hid_owner_state_note_report_def hid_inv_def report_fits_def neutral_report_def mask_bits bit_and_iff bit_or_iff
        bit_not_iff)
qed

lemma note_emit_owner:
  "hs_current (hm_owner_state (update_owner (\<lambda>s. si_hid_owner_state_note_report s v neutral) (emit_report r m))) = current m"
  "hs_report_owner (hm_owner_state (update_owner (\<lambda>s. si_hid_owner_state_note_report s v neutral) (emit_report r m))) = report_owner m"
  "hs_next_generation (hm_owner_state (update_owner (\<lambda>s. si_hid_owner_state_note_report s v neutral) (emit_report r m)))
     = hs_next_generation (hm_owner_state m)"
  "hm_abort_fence (update_owner (\<lambda>s. si_hid_owner_state_note_report s v neutral) (emit_report r m)) = hm_abort_fence m"
  "hm_active_command_generation (update_owner (\<lambda>s. si_hid_owner_state_note_report s v neutral) (emit_report r m))
     = hm_active_command_generation m"
  by (simp_all add: update_owner_def emit_report_def si_hid_owner_state_note_report_def)

lemma note_emit_same: "same_reports m (update_owner (\<lambda>s. si_hid_owner_state_note_report s v neutral) (emit_report r m))"
  by (simp add: same_reports_def update_owner_def emit_report_def si_hid_owner_state_note_report_def)

lemma note_emit_busy:
  assumes "busy t m" "report_fits r v neutral" "neutral \<or> current m = t"
  shows "busy t (update_owner (\<lambda>s. si_hid_owner_state_note_report s v neutral) (emit_report r m))"
  using assms note_emit_base [of m r v neutral] note_emit_same [of m v neutral r]
  by (auto simp: busy_def note_emit_owner aborted_iff same_reports_def)

lemma can_emit_busy: "busy t m \<Longrightarrow> busy t (snd (active_command_can_emit m))"
  by (auto simp: busy_def active_command_can_emit_def base_def keys_ok_def host_ok_def log_ok_def
      host_keyboard_neutral_def host_neutral_def aborted_iff)

lemma can_emit_same: "same_reports m (snd (active_command_can_emit m))"
  by (simp add: active_command_can_emit_def same_reports_def)

lemma send_report_busy:
  assumes "busy t m" "report_fits r v neutral" "neutral \<or> hm_command_active m"
  shows "busy t (snd (send_report e n r v neutral m)) \<and> same_reports m (snd (send_report e n r v neutral m))"
proof -
  let ?m = "interfere e n m"
  have b: "busy t ?m" and s: "same_reports m ?m" using assms(1) by (simp_all add: interfere_busy interfere_same)
  show ?thesis
  proof (cases "active_command_aborted ?m")
    case True
    then show ?thesis using can_emit_busy [OF b] can_emit_same [of ?m] s same_reports_trans
      by (auto simp: send_report_def Let_def active_command_can_emit_def)
  next
    case False
    have "neutral \<or> current ?m = t"
      using assms(3) False b s by (auto simp: busy_def same_reports_def)
    then show ?thesis
      using False b s note_emit_busy [OF b assms(2)] same_reports_trans [OF s note_emit_same]
      by (simp add: send_report_def Let_def active_command_can_emit_def)
  qed
qed

section \<open>Commands keep the invariant\<close>

lemmas busy_unfold = busy_def base_def keys_ok_def host_ok_def log_ok_def host_keyboard_neutral_def host_neutral_def aborted_iff

lemma busy_updates [simp]:
  "busy t (m\<lparr>hm_modifiers := a\<rparr>) = busy t m" "busy t (m\<lparr>hm_mouse_buttons := a\<rparr>) = busy t m"
  "busy t (m\<lparr>hm_abs_buttons := a\<rparr>) = busy t m" "busy t (m\<lparr>hm_abs_x := x, hm_abs_y := y\<rparr>) = busy t m"
  "busy t (m\<lparr>hm_command_send_ok := ok, hm_command_send_error := err\<rparr>) = busy t m"
  "busy t (m\<lparr>hm_command_send_ok := ok\<rparr>) = busy t m"
  by (simp_all add: busy_unfold)

lemma busy_keys:
  assumes "busy t m" "length ks = 6" "c \<le> 6" "\<forall>k\<in>set (drop c ks). k = 0"
  shows "busy t (m\<lparr>hm_modifiers := v, hm_key_count := c, hm_keys := ks\<rparr>)"
    "busy t (m\<lparr>hm_keys := ks, hm_key_count := c\<rparr>)"
  using assms by (simp_all add: busy_unfold)

text \<open>One step of a running command: it stays active and keeps the invariant.\<close>

definition runs :: "si_hid_owner_token_t \<Rightarrow> hid_mgr \<Rightarrow> bool" where
  "runs t m \<longleftrightarrow> busy t m \<and> hm_command_active m"

lemma runs_busy: "runs t m \<Longrightarrow> busy t m" by (simp add: runs_def)

lemma record_runs [simp]: "runs t (record_send_result err p) = runs t (snd p)"
  "busy t (record_send_result err p) = busy t (snd p)"
  by (simp_all add: record_send_result_def split_beta runs_def)

lemma keyboard_fits:
  "keys_ok m \<Longrightarrow> report_fits (Keyboard_Report (hm_modifiers m) (hm_keys m)) SI_HID_REPORT_DIRTY_KEYBOARD
     (hm_modifiers m = 0 \<and> hm_key_count m = 0)"
  by (auto simp: report_fits_def neutral_report_def keys_ok_def)

lemma other_fits:
  "report_fits (Mouse_Report b x y w p) SI_HID_REPORT_DIRTY_MOUSE (b = 0)"
  "report_fits (Abs_Pointer_Report b ax ay) SI_HID_REPORT_DIRTY_ABS_POINTER (b = 0)"
  by (simp_all add: report_fits_def neutral_report_def)

lemma busy_keys_ok: "busy t m \<Longrightarrow> keys_ok m" by (simp add: busy_def base_def)

lemma send_runs:
  assumes "runs t m"
  shows "runs t (snd (send_keyboard_report e n m))" "runs t (snd (send_mouse_report e n x y w p m))"
    "runs t (snd (send_abs_pointer_report e n m))"
proof -
  have "runs t (snd (send_report e n r v neutral m))" if "report_fits r v neutral" for r v neutral
    using send_report_busy [OF runs_busy [OF assms] that] assms by (auto simp: runs_def same_reports_def)
  then show "runs t (snd (send_keyboard_report e n m))" "runs t (snd (send_mouse_report e n x y w p m))"
    "runs t (snd (send_abs_pointer_report e n m))"
    using keyboard_fits [OF busy_keys_ok [OF runs_busy [OF assms]]] other_fits
    by (simp_all add: send_keyboard_report_def send_mouse_report_def send_abs_pointer_report_def)
qed

lemma runs_updates [simp]:
  "runs t (m\<lparr>hm_modifiers := a\<rparr>) = runs t m" "runs t (m\<lparr>hm_mouse_buttons := a\<rparr>) = runs t m"
  "runs t (m\<lparr>hm_abs_buttons := a\<rparr>) = runs t m" "runs t (m\<lparr>hm_abs_x := x, hm_abs_y := y\<rparr>) = runs t m"
  "runs t (m\<lparr>hm_command_send_ok := ok\<rparr>) = runs t m"
  by (simp_all add: runs_def)

lemma runs_keys:
  assumes "runs t m" "length ks = 6" "c \<le> 6" "\<forall>k\<in>set (drop c ks). k = 0"
  shows "runs t (m\<lparr>hm_modifiers := v, hm_key_count := c, hm_keys := ks\<rparr>)"
    "runs t (m\<lparr>hm_keys := ks, hm_key_count := c\<rparr>)"
  using assms busy_keys [of t m ks c] by (simp_all add: runs_def)

lemma mouse_runs:
  assumes "runs t m"
  shows "runs t (send_mouse_counts e n dx dy m)" "runs t (hid_mouse_move e n dx dy m)"
    "runs t (hid_mouse_down e n b m)" "runs t (hid_mouse_up e n b m)" "runs t (hid_mouse_scroll e n dy dx m)"
    "runs t (hid_abs_move e n x y m)" "runs t (hid_abs_mouse_down e n b m)" "runs t (hid_abs_mouse_up e n b m)"
  using assms
  by (simp_all add: send_mouse_counts_def hid_mouse_move_def hid_mouse_down_def hid_mouse_up_def hid_mouse_scroll_def
      hid_abs_move_def hid_abs_mouse_down_def hid_abs_mouse_up_def Let_def send_runs)

lemma index_of_key_less: "index_of_key hid ks = Some i \<Longrightarrow> i < length ks"
  by (induction ks arbitrary: i) (auto split: if_splits)

lemma key_runs:
  assumes "runs t m"
  shows "runs t (hid_key_down e n code m)" "runs t (hid_key_up e n code m)"
proof -
  have k: "length (hm_keys m) = 6" "hm_key_count m \<le> 6" "\<forall>k\<in>set (drop (hm_key_count m) (hm_keys m)). k = 0"
    using busy_keys_ok [OF runs_busy [OF assms]] by (simp_all add: keys_ok_def)
  have "runs t (m\<lparr>hm_keys := (hm_keys m)[hm_key_count m := v], hm_key_count := Suc (hm_key_count m)\<rparr>)"
    if "hm_key_count m < 6" for v
  proof (rule runs_keys(2) [OF assms])
    have "set (drop (Suc (hm_key_count m)) (hm_keys m)) \<subseteq> set (drop (hm_key_count m) (hm_keys m))"
      using set_drop_subset_set_drop [of "hm_key_count m" "Suc (hm_key_count m)" "hm_keys m"] by simp
    then show "\<forall>k\<in>set (drop (Suc (hm_key_count m)) ((hm_keys m)[hm_key_count m := v])). k = 0"
      using k(3) by auto
  qed (use k that in auto)
  then show "runs t (hid_key_down e n code m)"
    using assms k(1) by (simp add: hid_key_down_def Let_def send_runs)
  have "runs t (m\<lparr>hm_keys := shift_keys i (hm_key_count m) (hm_keys m), hm_key_count := hm_key_count m - 1\<rparr>)"
    if "i < hm_key_count m" for i
  proof (rule runs_keys(2) [OF assms])
    show "length (shift_keys i (hm_key_count m) (hm_keys m)) = 6" using k that by (simp add: shift_keys_def)
    have "length (take i (hm_keys m) @ take (hm_key_count m - 1 - i) (drop (i + 1) (hm_keys m))) = hm_key_count m - 1"
      using k that by simp
    then have "drop (hm_key_count m - 1) (shift_keys i (hm_key_count m) (hm_keys m)) = 0 # drop (hm_key_count m) (hm_keys m)"
      unfolding shift_keys_def by simp
    then show "\<forall>k\<in>set (drop (hm_key_count m - 1) (shift_keys i (hm_key_count m) (hm_keys m))). k = 0"
      using k(3) by simp
  qed (use k in auto)
  then have up: "runs t (m\<lparr>hm_keys := shift_keys i (hm_key_count m) (hm_keys m), hm_key_count := hm_key_count m - 1\<rparr>)"
    if "index_of_key v (take (hm_key_count m) (hm_keys m)) = Some i" for i v
    using index_of_key_less [OF that] by simp
  show "runs t (hid_key_up e n code m)"
  proof (cases "index_of_key (js_code_to_hid code) (take (hm_key_count m) (hm_keys m))")
    case None
    then show ?thesis using assms by (simp add: hid_key_up_def Let_def send_runs)
  next
    case (Some i)
    then show ?thesis using assms up [OF Some] by (simp add: hid_key_up_def Let_def send_runs)
  qed
qed

section \<open>Neutral reports outside a command\<close>

definition quiet :: "hid_mgr \<Rightarrow> bool" where
  "quiet m \<longleftrightarrow> base m \<and> \<not> hm_command_active m \<and> (ht_generation (report_owner m) = 0 \<longrightarrow> dirty_reports m = 0)"

text \<open>
  What a transition that begins in between may do to the ownership, and what holds when none does.
\<close>

definition tracked :: "si_hid_owner_token_t \<Rightarrow> hid_mgr \<Rightarrow> bool" where
  "tracked t m \<longleftrightarrow> ht_generation t \<noteq> 0 \<and>
     (current m = t \<and> hs_next_generation (hm_owner_state m) = ht_generation t \<or>
      current m = zero_token \<and> hs_next_generation (hm_owner_state m) = bump_generation (ht_generation t))"

definition same_owner :: "hid_mgr \<Rightarrow> hid_mgr \<Rightarrow> bool" where
  "same_owner m m' \<longleftrightarrow> current m' = current m \<and> hm_abort_fence m' = hm_abort_fence m \<and>
     hs_next_generation (hm_owner_state m') = hs_next_generation (hm_owner_state m)"

lemma busy_tracked: "busy t m \<Longrightarrow> tracked t m" by (auto simp: busy_def tracked_def)

lemma interfere_tracked: "tracked t m \<Longrightarrow> tracked t (interfere e n m)"
  by (auto simp: tracked_def interfere_def revoke_previous_owner next_generation_def)

lemma interfere_quiet: "quiet m \<Longrightarrow> quiet (interfere e n m)"
  using begin_transition_base [of m] by (auto simp: quiet_def interfere_def revoke_previous_owner next_generation_def)

lemma interfere_none: "he_revoke_at e = None \<Longrightarrow> interfere e n m = m"
  by (simp add: interfere_def)

lemma interfere_report_owner [simp]: "report_owner (interfere e n m) = report_owner m"
  by (simp add: interfere_def revoke_previous_owner next_generation_def)

text \<open>A neutral report keeps the invariant whoever owns the keyboard.\<close>

lemma send_neutral:
  fixes e :: hid_env and n :: nat
  assumes "quiet m" "ht_generation (report_owner m) \<noteq> 0" "report_fits r v True"
  defines "m' \<equiv> snd (send_report e n r v True m)"
  shows "quiet m'" "report_owner m' = report_owner m" "same_reports m m'"
    "tracked t m \<Longrightarrow> tracked t m'" "he_revoke_at e = None \<Longrightarrow> same_owner m m'"
proof -
  let ?m = "interfere e n m" and ?f = "\<lambda>m. update_owner (\<lambda>s. si_hid_owner_state_note_report s v True) (emit_report r m)"
  have q: "quiet ?m" "\<not> active_command_aborted ?m" using interfere_quiet [OF assms(1)] by (auto simp: quiet_def aborted_iff)
  then have m': "m' = (if hid_mounted e n ?m \<and> he_accepts e n then ?f ?m else ?m)"
    by (simp add: m'_def send_report_def Let_def active_command_can_emit_def)
  have b: "base (?f ?m)" using q(1) assms(2,3) note_emit_base [of ?m r v True] by (simp add: quiet_def)
  show "quiet m'" using q(1) b assms(2) note_emit_same [of ?m v True r]
    by (simp add: m' quiet_def note_emit_owner same_reports_def)
  show "report_owner m' = report_owner m" by (simp add: m' note_emit_owner)
  show "same_reports m m'" using same_reports_trans [OF interfere_same note_emit_same] interfere_same by (simp add: m')
  show "tracked t m \<Longrightarrow> tracked t m'" using interfere_tracked [of t m] by (simp add: m' tracked_def note_emit_owner)
  show "he_revoke_at e = None \<Longrightarrow> same_owner m m'" by (simp add: m' interfere_none same_owner_def note_emit_owner)
qed

text \<open>
  Two properties of the sequence of (at most three) neutral reports, for any predicate they keep.
\<close>

lemma release_all_keeps:
  assumes send: "\<And>m r v n. P m \<Longrightarrow> report_fits r v True \<Longrightarrow> ht_generation (report_owner m) \<noteq> 0 \<Longrightarrow>
      P (snd (send_report e n r v True m)) \<and> same_reports m (snd (send_report e n r v True m)) \<and>
      report_owner (snd (send_report e n r v True m)) = report_owner m"
    and upd: "\<And>m. P m \<Longrightarrow> P (m\<lparr>hm_modifiers := 0, hm_key_count := 0, hm_keys := replicate 6 0\<rparr>)"
      "\<And>m. P m \<Longrightarrow> P (m\<lparr>hm_mouse_buttons := 0\<rparr>)" "\<And>m. P m \<Longrightarrow> P (m\<lparr>hm_abs_buttons := 0\<rparr>)"
      "\<And>m a b. P m \<Longrightarrow> P (m\<lparr>hm_command_send_ok := a, hm_command_send_error := b\<rparr>)"
    and own: "\<And>m. P m \<Longrightarrow> dirty_reports m \<noteq> 0 \<Longrightarrow> ht_generation (report_owner m) \<noteq> 0"
    and "P m"
  shows "P (release_all_locked e n m)"
proof -
  have rec: "P (record_send_result err p)" if "P (snd p)" for err p
    using upd(4) [OF that] by (simp add: record_send_result_def split_beta)
  have own': "ht_generation (report_owner m) \<noteq> 0" if "P m" "dirty v m" for m v
  proof (rule own [OF that(1)])
    show "dirty_reports m \<noteq> 0" using that(2) by (auto simp: dirty_def)
  qed
  define m1 where "m1 = m\<lparr>hm_modifiers := 0, hm_key_count := 0, hm_keys := replicate 6 0\<rparr>"
  define m2 where "m2 = (if dirty SI_HID_REPORT_DIRTY_KEYBOARD m1
    then record_send_result keyboard_error (send_keyboard_report e n m1) else m1)\<lparr>hm_mouse_buttons := 0\<rparr>"
  define m3 where "m3 = (if dirty SI_HID_REPORT_DIRTY_MOUSE m2
    then record_send_result mouse_error (send_mouse_report e (n + 1) 0 0 0 0 m2) else m2)\<lparr>hm_abs_buttons := 0\<rparr>"
  have p1: "P m1" unfolding m1_def by (rule upd(1) [OF \<open>P m\<close>])
  have f: "report_fits (Keyboard_Report 0 (replicate 6 0)) SI_HID_REPORT_DIRTY_KEYBOARD True"
    "report_fits (Mouse_Report 0 0 0 0 0) SI_HID_REPORT_DIRTY_MOUSE True"
    "report_fits (Abs_Pointer_Report 0 x y) SI_HID_REPORT_DIRTY_ABS_POINTER True" for x y
    by (simp_all add: report_fits_def neutral_report_def)
  have p2: "P m2" unfolding m2_def
    using p1 upd(2) rec own' [OF p1] send [OF p1 f(1)]
    by (simp add: send_keyboard_report_def m1_def)
  have p3: "P m3" unfolding m3_def
    using p2 upd(3) rec own' [OF p2] send [OF p2 f(2)]
    by (simp add: send_mouse_report_def m2_def)
  have "release_all_locked e n m = (if dirty SI_HID_REPORT_DIRTY_ABS_POINTER m3
    then record_send_result abs_error (send_abs_pointer_report e (n + 2) m3) else m3)"
    by (simp only: release_all_locked_def Let_def m1_def m2_def m3_def)
  then show ?thesis
    using p3 rec own' [OF p3] send [OF p3 f(3)] by (simp add: send_abs_pointer_report_def m3_def)
qed

lemma busy_report_owner: "busy t m \<Longrightarrow> report_owner m = t" "busy t m \<Longrightarrow> ht_generation t \<noteq> 0"
  by (simp_all add: busy_def)

lemma release_all_busy:
  assumes "busy t m"
  shows "busy t (release_all_locked e n m)"
    and "hm_command_active (release_all_locked e n m) = hm_command_active m"
    and "hs_neutral_pending (hm_owner_state (release_all_locked e n m)) = hs_neutral_pending (hm_owner_state m)"
proof -
  let ?P = "\<lambda>m'. busy t m' \<and> hm_command_active m' = hm_command_active m \<and>
    hs_neutral_pending (hm_owner_state m') = hs_neutral_pending (hm_owner_state m)"
  have "?P (release_all_locked e n m)"
  proof (rule release_all_keeps)
    fix m' r v k
    assume m': "?P m'" and f: "report_fits r v True"
    have s: "busy t (snd (send_report e k r v True m'))" "same_reports m' (snd (send_report e k r v True m'))"
      using send_report_busy [OF conjunct1 [OF m'] f, of e k] by simp_all
    then show "?P (snd (send_report e k r v True m')) \<and> same_reports m' (snd (send_report e k r v True m')) \<and>
      report_owner (snd (send_report e k r v True m')) = report_owner m'"
      using m' busy_report_owner(1) [OF s(1)] busy_report_owner(1) [OF conjunct1 [OF m']]
      by (simp add: same_reports_def)
  next
    fix m'
    assume m': "?P m'"
    show "?P (m'\<lparr>hm_modifiers := 0, hm_key_count := 0, hm_keys := replicate 6 0\<rparr>)"
      using busy_keys(1) [of t m' "replicate 6 0" 0 0] m' by simp
  next
    fix m'
    assume m': "?P m'"
    show "ht_generation (report_owner m') \<noteq> 0" using busy_report_owner [OF conjunct1 [OF m']] by simp
  qed (use assms in simp_all)
  then show "busy t (release_all_locked e n m)"
    and "hm_command_active (release_all_locked e n m) = hm_command_active m"
    and "hs_neutral_pending (hm_owner_state (release_all_locked e n m)) = hs_neutral_pending (hm_owner_state m)"
    by blast+
qed

lemma quiet_updates:
  "quiet m \<Longrightarrow> quiet (m\<lparr>hm_modifiers := 0, hm_key_count := 0, hm_keys := replicate 6 0\<rparr>)"
  "quiet (m\<lparr>hm_mouse_buttons := a\<rparr>) = quiet m" "quiet (m\<lparr>hm_abs_buttons := a\<rparr>) = quiet m"
  "quiet (m\<lparr>hm_command_send_ok := ok, hm_command_send_error := err\<rparr>) = quiet m"
  by (auto simp: quiet_def base_def keys_ok_def host_ok_def log_ok_def host_keyboard_neutral_def host_neutral_def)

lemma release_all_quiet:
  fixes e :: hid_env and n :: nat
  assumes "quiet m"
  defines "m' \<equiv> release_all_locked e n m"
  shows "quiet m'" "report_owner m' = report_owner m"
    "hm_mount_reset_pending m' = hm_mount_reset_pending m"
    "tracked t m \<Longrightarrow> tracked t m'" "he_revoke_at e = None \<Longrightarrow> same_owner m m'"
proof -
  let ?P = "\<lambda>x. quiet x \<and> report_owner x = report_owner m \<and>
    hm_mount_reset_pending x = hm_mount_reset_pending m \<and>
    (tracked t m \<longrightarrow> tracked t x) \<and> (he_revoke_at e = None \<longrightarrow> same_owner m x)"
  have "?P m'" unfolding m'_def
  proof (rule release_all_keeps)
    fix x r v k
    assume x: "?P x" and f: "report_fits r v True" "ht_generation (report_owner x) \<noteq> 0"
    show "?P (snd (send_report e k r v True x)) \<and> same_reports x (snd (send_report e k r v True x)) \<and>
      report_owner (snd (send_report e k r v True x)) = report_owner x"
      using send_neutral(1-3) [OF conjunct1 [OF x] f(2,1), of e k] send_neutral(4) [OF conjunct1 [OF x] f(2,1), of t e k]
        send_neutral(5) [OF conjunct1 [OF x] f(2,1), of e k] x
      by (simp add: same_reports_def same_owner_def)
  next
    fix x
    assume "?P x" and "dirty_reports x \<noteq> 0"
    then show "ht_generation (report_owner x) \<noteq> 0" by (auto simp: quiet_def)
  qed (use assms in \<open>simp_all add: quiet_updates tracked_def same_owner_def\<close>)
  then show "quiet m'" "report_owner m' = report_owner m"
    "hm_mount_reset_pending m' = hm_mount_reset_pending m"
    "tracked t m \<Longrightarrow> tracked t m'" "he_revoke_at e = None \<Longrightarrow> same_owner m m'"
    by blast+
qed

lemma neutralize_busy:
  assumes "busy t m"
  shows "busy t (snd (neutralize_aborted_command_locked e n m))"
    and "\<not> fst (neutralize_aborted_command_locked e n m) \<Longrightarrow>
      hm_command_active (snd (neutralize_aborted_command_locked e n m)) = hm_command_active m"
    and "hs_neutral_pending (hm_owner_state (snd (neutralize_aborted_command_locked e n m))) =
      hs_neutral_pending (hm_owner_state m)"
proof -
  let ?m = "interfere e n m"
  have b: "busy t ?m" by (rule interfere_busy [OF assms])
  then have "busy t (?m\<lparr>hm_command_was_aborted := True, hm_command_active := False, hm_command_send_ok := True,
      hm_command_send_error := err\<rparr>)" for err
    by (auto simp: busy_unfold)
  note r = release_all_busy [OF this]
  show "busy t (snd (neutralize_aborted_command_locked e n m))"
    using b r(1) by (simp add: neutralize_aborted_command_locked_def Let_def)
  show "\<not> fst (neutralize_aborted_command_locked e n m) \<Longrightarrow>
      hm_command_active (snd (neutralize_aborted_command_locked e n m)) = hm_command_active m"
    using interfere_same [of m e n]
    by (auto simp: neutralize_aborted_command_locked_def Let_def same_reports_def split: if_splits)
  show "hs_neutral_pending (hm_owner_state (snd (neutralize_aborted_command_locked e n m))) =
      hs_neutral_pending (hm_owner_state m)"
    using interfere_same [of m e n] r(3)
    by (simp add: neutralize_aborted_command_locked_def Let_def same_reports_def)
qed

lemma neutralize_runs:
  assumes "runs t m" "neutralize_aborted_command_locked e n m = (False, m')"
  shows "runs t m'"
  using neutralize_busy(1,2) [OF runs_busy [OF assms(1)], of e n] assms by (simp add: runs_def)

text \<open>
  A command as a whole: the token it runs for stays the owner of the reports, unless it releases them.
\<close>

lemma click_busy:
  assumes "runs t m" "\<And>k x. runs t x \<Longrightarrow> runs t (down k x)" "\<And>k x. runs t x \<Longrightarrow> runs t (up k x)"
  shows "busy t (click down up e n m)"
proof -
  obtain a1 m1 where 1: "neutralize_aborted_command_locked e (n + 1) (down n m) = (a1, m1)" by fastforce
  obtain a2 m2 where 2: "neutralize_aborted_command_locked e (n + 5) m1 = (a2, m2)" by fastforce
  have d: "runs t (down n m)" by (rule assms(2) [OF assms(1)])
  have b1: "busy t m1" using neutralize_busy(1) [OF runs_busy [OF d], of e "n + 1"] 1 by simp
  have b2: "busy t m2" using neutralize_busy(1) [OF b1, of e "n + 5"] 2 by simp
  have r1: "runs t m1" if "\<not> a1" using neutralize_runs [OF d, of e "n + 1" m1] 1 that by simp
  have r2: "runs t m2" if "\<not> a1" "\<not> a2" using neutralize_runs [OF r1 [OF that(1)], of e "n + 5" m2] 2 that by simp
  show ?thesis using b1 b2 runs_busy [OF assms(3) [OF r2]] by (simp add: click_def Let_def 1 2 del: One_nat_def)
qed

lemma set_keys_runs: "runs t m \<Longrightarrow> length ks \<le> 6 \<Longrightarrow> runs t (set_keys mods ks m)"
  unfolding set_keys_def by (rule runs_keys(1)) auto

lemma send_combo_busy:
  assumes "runs t m"
  shows "busy t (send_combo e n c m)"
proof -
  define s1 where "s1 = record_send_result keyboard_error (send_keyboard_report e n
    (set_keys (combo_modifiers (cm_modifiers c)) (combo_keys (cm_keys c)) m))"
  obtain a1 m1 where 1: "neutralize_aborted_command_locked e (n + 1) s1 = (a1, m1)" by fastforce
  obtain a2 m2 where 2: "neutralize_aborted_command_locked e (n + 5) m1 = (a2, m2)" by fastforce
  define s2 where "s2 = record_send_result keyboard_error (send_keyboard_report e (n + 9) (set_keys 0 [] m2))"
  obtain a3 m3 where 3: "neutralize_aborted_command_locked e (n + 10) s2 = (a3, m3)" by fastforce
  have r1: "runs t s1" using assms by (simp add: s1_def send_runs set_keys_runs combo_keys_def)
  have b1: "busy t m1" using neutralize_busy(1) [OF runs_busy [OF r1], of e "n + 1"] 1 by simp
  have b2: "busy t m2" using neutralize_busy(1) [OF b1, of e "n + 5"] 2 by simp
  have r1': "runs t m1" if "\<not> a1" using neutralize_runs [OF r1, of e "n + 1" m1] 1 that by simp
  have r2: "runs t s2" if "\<not> a1" "\<not> a2"
  proof -
    have "runs t m2" using neutralize_runs [OF r1' [OF that(1)], of e "n + 5" m2] 2 that by simp
    then show ?thesis by (simp add: s2_def send_runs set_keys_runs)
  qed
  have b3: "busy t m3" if "\<not> a1" "\<not> a2"
    using neutralize_busy(1) [OF runs_busy [OF r2 [OF that]], of e "n + 10"] 3 by simp
  have r4: "runs t (m3\<lparr>hm_modifiers := hm_modifiers m, hm_key_count := hm_key_count m, hm_keys := hm_keys m\<rparr>)"
    if "\<not> a1" "\<not> a2" "\<not> a3"
  proof (rule runs_keys(1))
    show "runs t m3" using neutralize_runs [OF r2 [OF that(1,2)], of e "n + 10"] 3 that(3) by simp
  qed (use busy_keys_ok [OF runs_busy [OF assms]] in \<open>auto simp: keys_ok_def\<close>)
  have b4: "busy t (snd (send_keyboard_report e (n + 14)
      (m3\<lparr>hm_modifiers := hm_modifiers m, hm_key_count := hm_key_count m, hm_keys := hm_keys m\<rparr>)))"
    if "\<not> a1" "\<not> a2" "\<not> a3" by (rule runs_busy [OF send_runs(1) [OF r4 [OF that]]])
  show ?thesis
    using b1 b2 b3 b4
    by (simp add: send_combo_def Let_def s1_def [symmetric] s2_def [symmetric] 1 2 3 del: One_nat_def)
qed

text \<open>After the command's body: the report owner is still the token, or nothing is dirty.\<close>

definition released :: "si_hid_owner_token_t \<Rightarrow> hid_mgr \<Rightarrow> bool" where
  "released t m \<longleftrightarrow> base m \<and> \<not> hm_mount_reset_pending m \<and> tracked t m \<and> report_owner m = zero_token \<and>
     dirty_reports m = 0 \<and> (hm_command_active m \<longrightarrow> active_command_aborted m = (current m \<noteq> t))"

definition ending :: "si_hid_owner_token_t \<Rightarrow> hid_mgr \<Rightarrow> bool" where
  "ending t m \<longleftrightarrow> busy t m \<or> released t m"

lemma busy_ending: "busy t m \<Longrightarrow> ending t m" by (simp add: ending_def)

lemma clear_report_ending:
  assumes "busy t m" "dirty_reports m = 0"
  shows "ending t (update_owner (\<lambda>s. si_hid_owner_state_clear_report s (Some t)) m)"
  using assms
  by (auto simp: ending_def released_def busy_unfold tracked_def update_owner_def si_hid_owner_state_clear_report_def token_equal_iff
      hid_inv_def)

lemma neutral_pending_ending: "busy t m \<Longrightarrow> ending t (m\<lparr>hm_owner_state := (hm_owner_state m)\<lparr>hs_neutral_pending := p\<rparr>\<rparr>)"
  by (auto simp: ending_def busy_unfold hid_inv_def)

text \<open>When every report of a release was accepted nothing is dirty any more.\<close>

definition sent_clean :: "nat set \<Rightarrow> hid_mgr \<Rightarrow> bool" where
  "sent_clean ks m \<longleftrightarrow> (hm_command_send_ok m \<longrightarrow> (\<forall>k\<in>ks. \<not> bit (dirty_reports m) k))"

lemma send_clears:
  assumes "ht_generation (report_owner m) \<noteq> 0" "\<And>n. bit v n \<longleftrightarrow> n = k" "sent_clean ks m"
  shows "sent_clean (insert k ks) (record_send_result err (send_report e n r v True m))"
proof -
  have v: "v \<noteq> 0" using assms(2) [of k] by auto
  have i: "dirty_reports (interfere e n m) = dirty_reports m"
    "hm_command_send_ok (interfere e n m) = hm_command_send_ok m"
    by (simp_all add: interfere_def revoke_previous_owner next_generation_def)
  show ?thesis
    using assms v i
    by (auto simp: sent_clean_def record_send_result_def send_report_def Let_def active_command_can_emit_def update_owner_def
        emit_report_def si_hid_owner_state_note_report_def bit_and_iff bit_not_iff)
qed

lemma sent_clean_updates [simp]:
  "sent_clean ks (m\<lparr>hm_mouse_buttons := a\<rparr>) = sent_clean ks m" "sent_clean ks (m\<lparr>hm_abs_buttons := a\<rparr>) = sent_clean ks m"
  "sent_clean {} m"
  by (simp_all add: sent_clean_def)

lemma sent_clean_insert: "sent_clean ks m \<Longrightarrow> \<not> bit (dirty_reports m) k \<Longrightarrow> sent_clean (insert k ks) m"
  by (simp add: sent_clean_def)

lemma release_all_clean:
  assumes "busy t m" "hm_command_send_ok (release_all_locked e n m)"
  shows "dirty_reports (release_all_locked e n m) = 0"
proof -
  define m1 where "m1 = m\<lparr>hm_modifiers := 0, hm_key_count := 0, hm_keys := replicate 6 0\<rparr>"
  define m2 where "m2 = (if dirty SI_HID_REPORT_DIRTY_KEYBOARD m1
    then record_send_result keyboard_error (send_keyboard_report e n m1) else m1)\<lparr>hm_mouse_buttons := 0\<rparr>"
  define m3 where "m3 = (if dirty SI_HID_REPORT_DIRTY_MOUSE m2
    then record_send_result mouse_error (send_mouse_report e (n + 1) 0 0 0 0 m2) else m2)\<lparr>hm_abs_buttons := 0\<rparr>"
  have f: "report_fits (Keyboard_Report 0 (replicate 6 0)) SI_HID_REPORT_DIRTY_KEYBOARD True"
    "report_fits (Mouse_Report 0 0 0 0 0) SI_HID_REPORT_DIRTY_MOUSE True"
    by (simp_all add: report_fits_def neutral_report_def)
  have o: "ht_generation (report_owner x) \<noteq> 0" if "busy t x" for x using busy_report_owner [OF that] by simp
  have b1: "busy t m1" using busy_keys(1) [OF assms(1), of "replicate 6 0" 0 0] by (simp add: m1_def)
  have b2: "busy t m2" unfolding m2_def
    using b1 send_report_busy [OF b1 f(1)] by (simp add: send_keyboard_report_def m1_def)
  have c2: "sent_clean {0} m2" unfolding m2_def
    using send_clears [OF o [OF b1] mask_bits(1), where ks = "{}"] sent_clean_insert [of "{}" m1 0]
    by (simp add: send_keyboard_report_def m1_def dirty_masks)
  have b3: "busy t m3" unfolding m3_def
    using b2 send_report_busy [OF b2 f(2)] by (simp add: send_mouse_report_def m2_def)
  have c3: "sent_clean {1, 0} m3" unfolding m3_def
    using send_clears [OF o [OF b2] mask_bits(2) c2] sent_clean_insert [OF c2, of 1]
    by (simp add: send_mouse_report_def m2_def dirty_masks)
  have r: "release_all_locked e n m = (if dirty SI_HID_REPORT_DIRTY_ABS_POINTER m3
    then record_send_result abs_error (send_abs_pointer_report e (n + 2) m3) else m3)"
    by (simp only: release_all_locked_def Let_def m1_def m2_def m3_def)
  have "sent_clean {2, 1, 0} (release_all_locked e n m)" unfolding r
    using send_clears [OF o [OF b3] mask_bits(3) c3] sent_clean_insert [OF c3, of 2]
    by (simp add: send_abs_pointer_report_def m3_def dirty_masks)
  moreover have "host_ok (release_all_locked e n m)"
    using release_all_busy(1) [OF assms(1)] by (simp add: busy_def base_def)
  ultimately show ?thesis using assms(2) by (simp add: clean_zero sent_clean_def)
qed

lemma run_command_ending:
  assumes "runs t m"
  shows "ending t (snd (run_command e c t m))"
proof -
  have k: "ending t x" if "runs t x" for x using that by (simp add: busy_ending runs_busy)
  have r: "ending t (release_all_command e n t m)" for n
    using release_all_busy(1) [OF runs_busy [OF assms]] release_all_clean [OF runs_busy [OF assms]]
    by (auto simp: release_all_command_def Let_def clear_report_ending neutral_pending_ending)
  have cl: "busy t (click (\<lambda>n. hid_mouse_down e n b) (\<lambda>n. hid_mouse_up e n b) e 10 m)"
    "busy t (click (\<lambda>n. hid_abs_mouse_down e n b) (\<lambda>n. hid_abs_mouse_up e n b) e 11 (hid_abs_move e 10 x y m))" for b x y
    using assms by (auto intro!: click_busy mouse_runs)
  show ?thesis
    using assms r cl
    by (cases "cm_type c")
       (simp_all add: run_command_def k mouse_runs key_runs busy_ending send_combo_busy Let_def)
qed

text \<open>The two outcomes of a drain.\<close>

lemma host_reset_idle:
  assumes "base m" "\<not> hm_command_active m" "host_neutral m"
  defines "m' \<equiv> update_owner si_hid_owner_state_host_reset (reset_report_state_locked m)"
  shows "quiet m'" "dirty_reports m' = 0" "report_owner m' = zero_token" "same_owner m m'"
    "\<not> hs_neutral_pending (hm_owner_state m')"
  using assms
  by (auto simp: m'_def quiet_def base_def update_owner_def reset_report_state_locked_def si_hid_owner_state_host_reset_def
      keys_ok_def host_ok_def log_ok_def host_keyboard_neutral_def host_neutral_def hid_inv_def same_owner_def)

lemma quiet_drain_state:
  assumes "quiet m"
  shows "quiet ((reset_report_state_locked m)\<lparr>hm_command_active := False, hm_command_was_aborted := False,
    hm_command_send_ok := True, hm_command_send_error := None\<rparr>)"
  using assms
  by (auto simp: quiet_def base_def reset_report_state_locked_def keys_ok_def host_ok_def log_ok_def
      host_keyboard_neutral_def host_neutral_def)

lemma quiet_flags:
  "quiet m \<Longrightarrow> quiet (m\<lparr>hm_owner_state := (hm_owner_state m)\<lparr>hs_neutral_pending := p\<rparr>\<rparr>)"
  "quiet m \<Longrightarrow> dirty_reports m = 0 \<Longrightarrow>
     quiet (m\<lparr>hm_owner_state := (hm_owner_state m)\<lparr>hs_neutral_pending := p, hs_report_owner := zero_token\<rparr>\<rparr>)"
  by (auto simp: quiet_def base_def keys_ok_def host_ok_def log_ok_def host_keyboard_neutral_def host_neutral_def hid_inv_def)

lemma host_detached_base: "base m \<Longrightarrow> base (host_detached m)" "host_neutral (host_detached m)"
  by (auto simp: host_detached_def base_def keys_ok_def host_ok_def log_ok_def host_keyboard_neutral_def host_neutral_def)

lemma host_detached_simps [simp]:
  "hm_owner_state (host_detached m) = hm_owner_state m" "hm_command_active (host_detached m) = hm_command_active m"
  "hm_mount_reset_pending (host_detached m) = hm_mount_reset_pending m" "hm_abort_fence (host_detached m) = hm_abort_fence m"
  by (simp_all add: host_detached_def)

text \<open>A drain leaves nothing dirty, or the obligation to try again.\<close>

definition drained :: "hid_mgr \<Rightarrow> bool \<times> hid_mgr \<Rightarrow> bool" where
  "drained m = (\<lambda>(ok, m'). quiet m' \<and> \<not> hm_mount_reset_pending m' \<and>
     (if ok then report_owner m' = zero_token \<and> dirty_reports m' = 0 \<and> \<not> hs_neutral_pending (hm_owner_state m')
      else report_owner m' = report_owner m \<and> hs_neutral_pending (hm_owner_state m')))"

lemma apply_mount_reset:
  assumes "quiet m" "hm_mount_reset_pending m"
  shows "fst (apply_mount_reset_locked m)" "drained m (apply_mount_reset_locked m)"
    "same_owner m (snd (apply_mount_reset_locked m))"
proof -
  let ?m = "m\<lparr>hm_mount_reset_pending := False\<rparr>"
  have b: "base ?m" "\<not> hm_command_active ?m" "host_neutral ?m"
    using assms by (auto simp: quiet_def base_def keys_ok_def host_ok_def log_ok_def host_keyboard_neutral_def host_neutral_def)
  show "fst (apply_mount_reset_locked m)" using assms(2) by (simp add: apply_mount_reset_locked_def)
  have "\<not> hm_mount_reset_pending (update_owner f (reset_report_state_locked ?m))" for f
    by (simp add: update_owner_def reset_report_state_locked_def)
  then show "drained m (apply_mount_reset_locked m)"
    using assms(2) host_reset_idle [OF b] by (simp add: drained_def apply_mount_reset_locked_def)
  show "same_owner m (snd (apply_mount_reset_locked m))"
    using assms(2) host_reset_idle(4) [OF b] by (simp add: apply_mount_reset_locked_def same_owner_def)
qed

lemma drain_ok:
  assumes "quiet m"
  shows "drained m (drain_neutral_pending_locked e n m)"
    and "tracked t m \<Longrightarrow> tracked t (snd (drain_neutral_pending_locked e n m))"
    and "he_revoke_at e = None \<Longrightarrow> same_owner m (snd (drain_neutral_pending_locked e n m))"
proof -
  let ?r = "reset_report_state_locked m"
  let ?m1 = "?r\<lparr>hm_command_active := False, hm_command_was_aborted := False, hm_command_send_ok := True,
    hm_command_send_error := None\<rparr>"
  let ?m2 = "release_all_locked e (n + 1) ?m1"
  have r: "hm_owner_state ?r = hm_owner_state m" by (simp add: reset_report_state_locked_def)
  note q1 = quiet_drain_state [OF assms]
  note q2 = release_all_quiet(1-3) [OF q1, of e "n + 1"] release_all_quiet(4) [OF q1, of t e "n + 1"]
    release_all_quiet(5) [OF q1, of e "n + 1"]
  have goal: "drained m (drain_neutral_pending_locked e n m) \<and>
    (tracked t m \<longrightarrow> tracked t (snd (drain_neutral_pending_locked e n m))) \<and>
    (he_revoke_at e = None \<longrightarrow> same_owner m (snd (drain_neutral_pending_locked e n m)))"
  proof (cases "hm_mount_reset_pending m")
    case True
    have "drain_neutral_pending_locked e n m = (True, snd (apply_mount_reset_locked m))"
      using apply_mount_reset(1) [OF assms True] by (simp add: drain_neutral_pending_locked_def Let_def split_beta)
    moreover have "apply_mount_reset_locked m = (True, snd (apply_mount_reset_locked m))"
      using apply_mount_reset(1) [OF assms True] by (metis prod.collapse)
    ultimately show ?thesis
      using apply_mount_reset(2,3) [OF assms True] by (auto simp: tracked_def same_owner_def)
  next
    case False
    then have a: "apply_mount_reset_locked m = (False, m)" by (simp add: apply_mount_reset_locked_def)
    show ?thesis
    proof (cases "hid_mounted e n ?r")
      case False
      have b: "base (host_detached m)" "\<not> hm_command_active (host_detached m)" "host_neutral (host_detached m)"
        using assms host_detached_base by (auto simp: quiet_def)
      have sw: "host_detached ?r = reset_report_state_locked (host_detached m)"
        by (simp add: host_detached_def reset_report_state_locked_def)
      have np: "\<not> hm_mount_reset_pending (update_owner f (reset_report_state_locked (host_detached m)))" for f
        using \<open>\<not> hm_mount_reset_pending m\<close> by (simp add: update_owner_def reset_report_state_locked_def host_detached_def)
      have "drain_neutral_pending_locked e n m = (True, update_owner si_hid_owner_state_host_reset (host_detached ?r))"
        using a False by (simp add: drain_neutral_pending_locked_def Let_def)
      then show ?thesis
        using host_reset_idle [OF b] np by (simp add: sw drained_def same_owner_def tracked_def)
    next
      case True
      let ?p = "\<not> hm_command_send_ok ?m2 \<or> dirty_reports ?m2 \<noteq> 0"
      have d: "drain_neutral_pending_locked e n m =
          (\<not> ?p, if ?p then ?m2\<lparr>hm_owner_state := (hm_owner_state ?m2)\<lparr>hs_neutral_pending := True\<rparr>\<rparr>
                 else ?m2\<lparr>hm_owner_state := (hm_owner_state ?m2)\<lparr>hs_neutral_pending := False, hs_report_owner := zero_token\<rparr>\<rparr>)"
        using a True by (auto simp: drain_neutral_pending_locked_def Let_def)
      have mp: "\<not> hm_mount_reset_pending ?m2"
        using q2(3) \<open>\<not> hm_mount_reset_pending m\<close> by (simp add: reset_report_state_locked_def)
      show ?thesis
        using q2 quiet_flags(1) [OF q2(1)] quiet_flags(2) [OF q2(1)] r mp
        unfolding d by (auto simp: drained_def tracked_def same_owner_def reset_report_state_locked_def)
    qed
  qed
  then show "drained m (drain_neutral_pending_locked e n m)"
    and "tracked t m \<Longrightarrow> tracked t (snd (drain_neutral_pending_locked e n m))"
    and "he_revoke_at e = None \<Longrightarrow> same_owner m (snd (drain_neutral_pending_locked e n m))" by blast+
qed

end
