(* ===== verification/Hid_Handover.thy ===== *)
theory Hid_Handover
  imports Hid_Manager_Props
begin

text \<open>
  The HID execution manager as a whole: its invariant holds after every operation, whatever the USB
  stack does and whenever another task begins a transition, and the properties of the handover of
  the keyboard from one owner to the next.
\<close>

section \<open>The end of a command\<close>

lemma interfere_aborted_cond:
  assumes "base m" "tracked t m" "hm_command_active m \<longrightarrow> active_command_aborted m = (current m \<noteq> t)"
  shows "hm_command_active (interfere e n m) \<longrightarrow> active_command_aborted (interfere e n m) = (current (interfere e n m) \<noteq> t)"
proof (cases "he_revoke_at e = Some n \<and> ht_generation (current m) \<noteq> 0")
  case True
  then have "current m = t" using assms(2) by (auto simp: tracked_def)
  moreover have "zero_token \<noteq> t" using assms(2) zero_token_gen by (metis tracked_def)
  ultimately show ?thesis using True assms fence_next_ne(1) [of "fe_generation (hm_abort_fence m)"]
    by (auto simp: interfere_def aborted_iff revoke_previous_owner next_generation_def base_def)
next
  case False
  then show ?thesis using assms(3) by (auto simp: interfere_def)
qed

lemma interfere_released: "released t m \<Longrightarrow> released t (interfere e n m)"
proof -
  assume r: "released t m"
  have "base (interfere e n m)" using r begin_transition_base by (simp add: released_def interfere_def)
  moreover have "dirty_reports (interfere e n m) = dirty_reports m"
    "hm_mount_reset_pending (interfere e n m) = hm_mount_reset_pending m"
    by (simp_all add: interfere_def revoke_previous_owner next_generation_def)
  ultimately show ?thesis using r interfere_tracked [of t m e n] interfere_aborted_cond [of m t e n]
    by (simp add: released_def)
qed

lemma release_all_released:
  assumes "released t m"
  shows "released t (release_all_locked e n m)" "hm_command_active (release_all_locked e n m) = hm_command_active m"
proof -
  have d: "\<not> dirty v x" if "dirty_reports x = 0" for v x using that by (simp add: dirty_def)
  have "release_all_locked e n m = m\<lparr>hm_modifiers := 0, hm_key_count := 0, hm_keys := replicate 6 0,
      hm_mouse_buttons := 0, hm_abs_buttons := 0\<rparr>"
    using assms by (simp add: release_all_locked_def Let_def released_def d)
  then show "released t (release_all_locked e n m)"
    "hm_command_active (release_all_locked e n m) = hm_command_active m"
    using assms
    by (auto simp: released_def base_def keys_ok_def host_ok_def log_ok_def host_keyboard_neutral_def host_neutral_def
        tracked_def aborted_iff)
qed

lemma neutralize_ending: "ending t m \<Longrightarrow> ending t (snd (neutralize_aborted_command_locked e n m))"
proof (cases "busy t m")
  case True
  then show ?thesis using neutralize_busy(1) by (simp add: ending_def)
next
  case False
  assume "ending t m"
  then have r: "released t (interfere e n m)" using False interfere_released by (simp add: ending_def)
  then have "released t ((interfere e n m)\<lparr>hm_command_was_aborted := True, hm_command_active := False,
      hm_command_send_ok := True, hm_command_send_error := err\<rparr>)" for err
    by (auto simp: released_def base_def keys_ok_def host_ok_def log_ok_def host_keyboard_neutral_def host_neutral_def
        tracked_def aborted_iff)
  then show ?thesis using r release_all_released(1)
    by (simp add: neutralize_aborted_command_locked_def Let_def ending_def)
qed

text \<open>After the command: nobody's command, and the reports of the token are accounted for.\<close>

definition over :: "si_hid_owner_token_t \<Rightarrow> hid_mgr \<Rightarrow> bool" where
  "over t m \<longleftrightarrow> quiet m \<and> tracked t m \<and>
     (ht_generation (report_owner m) \<noteq> 0 \<longrightarrow> report_owner m = t \<or> hs_neutral_pending (hm_owner_state m))"

lemma ending_inactive_over: "ending t m \<Longrightarrow> over t (m\<lparr>hm_command_active := False\<rparr>)"
  by (auto simp: ending_def busy_unfold released_def over_def quiet_def tracked_def)

lemma over_updates [simp]:
  "over t (m\<lparr>hm_command_send_error := a\<rparr>) = over t m" "over t (m\<lparr>hm_active_command_owner := w\<rparr>) = over t m"
  "over t (m\<lparr>hm_tx_messages := k\<rparr>) = over t m" "over t (m\<lparr>hm_failed_messages := k\<rparr>) = over t m"
  "over t (m\<lparr>hm_last_error := x\<rparr>) = over t m"
  by (simp_all add: over_def quiet_def base_def keys_ok_def host_ok_def log_ok_def host_keyboard_neutral_def host_neutral_def
      tracked_def)

lemma over_set_last_error [simp]: "over t (set_last_error a b m) = over t m"
  by (simp add: set_last_error_def)

lemma over_clear:
  "over t m \<Longrightarrow> dirty_reports m = 0 \<Longrightarrow> over t (update_owner (\<lambda>s. si_hid_owner_state_clear_report s (Some t)) m)"
  by (auto simp: over_def quiet_def base_def keys_ok_def host_ok_def log_ok_def host_keyboard_neutral_def host_neutral_def
      tracked_def update_owner_def si_hid_owner_state_clear_report_def token_equal_iff hid_inv_def)

lemma over_drain:
  assumes "over t m"
  shows "over t (snd (drain_neutral_pending_locked e n m))"
proof -
  have q: "quiet m" "tracked t m" using assms by (simp_all add: over_def)
  obtain ok m' where d: "drain_neutral_pending_locked e n m = (ok, m')" by fastforce
  show ?thesis using drain_ok(1) [OF q(1), of e n] drain_ok(2) [OF q, of e n]
    by (cases ok) (simp_all add: over_def d drained_def)
qed

lemma over_pending:
  assumes "over t m" "ht_generation (report_owner m) \<noteq> 0 \<longrightarrow> report_owner m = t"
  shows "over t (m\<lparr>hm_owner_state := (hm_owner_state m)\<lparr>hs_neutral_pending := p\<rparr>\<rparr>)"
  using assms quiet_flags(1) [of m p] by (auto simp: over_def tracked_def)

lemma over_interfere: "over t m \<Longrightarrow> over t (interfere e n m)"
  using interfere_quiet [of m e n] interfere_tracked [of t m e n] interfere_same [of m e n]
  by (simp add: over_def same_reports_def)
lemma finish_command_over:
  assumes "ending t m"
  shows "over t (snd (finish_command e c t (r, m)))"
proof -
  obtain a m1 where n: "neutralize_aborted_command_locked e 30 m = (a, m1)" by fastforce
  define ret where "ret = (if a \<or> hm_command_was_aborted m1 then ESP_ERR_INVALID_STATE
                else if r = ESP_OK \<and> \<not> hm_command_send_ok m1 then ESP_FAIL else r)"
  define m2 where "m2 = m1\<lparr>hm_command_active := False\<rparr>"
  define m3 where "m3 = (if ret = ESP_OK \<and> dirty_reports m2 = 0
    then update_owner (\<lambda>s. si_hid_owner_state_clear_report s (Some t)) m2 else m2)"
  define m4 where "m4 = m3\<lparr>hm_owner_state := (hm_owner_state m3)\<lparr>hs_neutral_pending := dirty_reports m3 \<noteq> 0\<rparr>\<rparr>"
  define m5 where "m5 = (if ret = ESP_FAIL \<and> \<not> hm_command_send_ok m3
    then (if dirty_reports m3 \<noteq> 0 then snd (drain_neutral_pending_locked e 40 m4) else m4)
           \<lparr>hm_command_send_error := hm_command_send_error m1\<rparr> else m3)"
  have e1: "ending t m1" using neutralize_ending [OF assms, of e 30] n by simp
  then have o2: "over t m2" "ht_generation (report_owner m2) \<noteq> 0 \<longrightarrow> report_owner m2 = t"
    using ending_inactive_over [OF e1] by (auto simp: m2_def ending_def busy_def released_def)
  then have o3: "over t m3" "ht_generation (report_owner m3) \<noteq> 0 \<longrightarrow> report_owner m3 = t"
    using over_clear [OF o2(1)]
    by (auto simp: m3_def update_owner_def si_hid_owner_state_clear_report_def)
  have o4: "over t m4" unfolding m4_def by (rule over_pending [OF o3])
  have o5: "over t m5" using o3(1) o4 over_drain [OF o4, of e 40] by (simp add: m5_def)
  have o6: "over t (interfere e 50 (m5\<lparr>hm_active_command_owner := zero_token\<rparr>))"
    using over_interfere o5 by simp
  have "snd (finish_command e c t (r, m)) =
      snd (if ret = ESP_OK then (ESP_OK, set_last_error None ESP_OK ((interfere e 50 (m5\<lparr>hm_active_command_owner := zero_token\<rparr>))
             \<lparr>hm_tx_messages := hm_tx_messages (interfere e 50 (m5\<lparr>hm_active_command_owner := zero_token\<rparr>)) + 1\<rparr>))
        else hid_fail (if cm_error c \<noteq> None then cm_error c
                       else if hm_command_send_error (interfere e 50 (m5\<lparr>hm_active_command_owner := zero_token\<rparr>)) \<noteq> None
                       then hm_command_send_error (interfere e 50 (m5\<lparr>hm_active_command_owner := zero_token\<rparr>))
                       else Some ''HID report send failed'') ret (interfere e 50 (m5\<lparr>hm_active_command_owner := zero_token\<rparr>)))"
    unfolding finish_command_def Let_def split n prod.case ret_def [symmetric] m2_def [symmetric] m3_def [symmetric]
      m4_def [symmetric] m5_def [symmetric] ..
  then show ?thesis using o6 by (simp add: hid_fail_def)
qed

lemma wake_owner:
  "hm_owner_state (snd (wake_suspended_host e c w m)) = hm_owner_state m \<and>
    hm_abort_fence (snd (wake_suspended_host e c w m)) = hm_abort_fence m"
  "idle (snd (wake_suspended_host e c w m)) = idle m"
  by (simp_all add: wake_suspended_host_def idle_def base_def keys_ok_def host_ok_def log_ok_def host_keyboard_neutral_def
      host_neutral_def)

lemma hid_fail_idle [simp]:
  "idle (snd (hid_fail msg err m)) = idle m" "hm_owner_state (snd (hid_fail msg err m)) = hm_owner_state m"
  "hm_abort_fence (snd (hid_fail msg err m)) = hm_abort_fence m"
  by (simp_all add: hid_fail_def set_last_error_def idle_def base_def keys_ok_def host_ok_def log_ok_def
      host_keyboard_neutral_def host_neutral_def)

lemma idle_quiet: "idle m \<Longrightarrow> quiet m" by (simp add: idle_def quiet_def)

lemma drained_idle:
  assumes "idle m" "drained m (ok, m')" "same_owner m m'"
  shows "idle m'"
  using assms by (auto simp: idle_def drained_def quiet_def same_owner_def split: if_splits)

text \<open>Admission begins a run of the token.\<close>

lemma admitted_runs:
  assumes "idle m" "\<not> hm_mount_reset_pending m" "si_hid_owner_state_is_current (Some (hm_owner_state m)) (Some t)"
    and "si_hid_owner_state_begin_report (Some (hm_owner_state m)) (Some t) = (True, Some s)"
  shows "runs t (m\<lparr>hm_owner_state := s, hm_active_command_generation := fe_generation (hm_abort_fence m),
     hm_active_command_owner := t, hm_command_active := True, hm_command_was_aborted := False,
     hm_command_send_ok := True, hm_command_send_error := None\<rparr>)"
proof -
  have s: "s = (hm_owner_state m)\<lparr>hs_report_owner := t\<rparr>"
    using assms(4) by (simp add: si_hid_owner_state_begin_report_def split: if_splits)
  let ?m = "m\<lparr>hm_owner_state := s, hm_active_command_generation := fe_generation (hm_abort_fence m),
     hm_active_command_owner := t, hm_command_active := True, hm_command_was_aborted := False,
     hm_command_send_ok := True, hm_command_send_error := None\<rparr>"
  have b: "base m" using assms(1) by (simp add: idle_def)
  then have "base ?m" unfolding s base_def keys_ok_def host_ok_def log_ok_def host_keyboard_neutral_def host_neutral_def hid_inv_def
    by simp
  moreover have "current m = t" "ht_generation t \<noteq> 0" using assms(3) by (simp_all add: is_current_iff)
  moreover from this have "hs_next_generation (hm_owner_state m) = ht_generation t" using b by (simp add: base_def hid_inv_def)
  moreover have "\<not> active_command_aborted ?m" using b by (simp add: aborted_iff base_def)
  ultimately show ?thesis using assms(2) by (simp add: runs_def busy_def s)
qed

section \<open>Every operation keeps the invariant\<close>

lemma same_owner_refl [simp]: "same_owner m m" by (simp add: same_owner_def)

lemma execute_cases:
  fixes e :: hid_env
  fixes command owner
  assumes "idle m"
  defines "m' \<equiv> snd (si_hid_execute_owned e command owner m)"
  shows "(idle m' \<and> same_owner m m') \<or>
    (owner = Some (current m) \<and> ht_generation (current m) \<noteq> 0 \<and> over (current m) m')"
proof (cases "\<exists>c t. command = Some c \<and> owner = Some t")
  case False
  then have "m' = snd (hid_fail (case command of Some c \<Rightarrow> if cm_error c \<noteq> None then cm_error c else Some ''invalid hid command''
                              | None \<Rightarrow> Some ''invalid hid command'') ESP_ERR_INVALID_ARG m)"
    unfolding m'_def si_hid_execute_owned_def by (cases command; cases owner) simp_all
  then show ?thesis using assms(1) by (simp add: same_owner_def)
next
  case True
  then obtain c t where ct: "command = Some c" "owner = Some t" by blast
  obtain awake w where w: "wake_suspended_host e c t m = (awake, w)" by fastforce
  then have iw: "idle w" "hm_owner_state w = hm_owner_state m" using wake_owner [of e c t m] assms(1) by simp_all
  obtain ok d where d: "(if hm_mount_reset_pending w \<or> hs_neutral_pending (hm_owner_state w)
      then drain_neutral_pending_locked (e\<lparr>he_revoke_at := None\<rparr>) 1 w else (True, w)) = (ok, d)" by fastforce
  have id: "idle d" "same_owner w d" and np: "\<not> hm_mount_reset_pending d"
    using d iw(1) drain_ok(1) [OF idle_quiet [OF iw(1)], of "e\<lparr>he_revoke_at := None\<rparr>" 1]
      drain_ok(3) [OF idle_quiet [OF iw(1)], of "e\<lparr>he_revoke_at := None\<rparr>" 1] drained_idle [OF iw(1)]
    by (auto simp: drained_def split: if_splits)
  define m0 where "m0 = (\<lambda>s. d\<lparr>hm_owner_state := the s, hm_active_command_generation := si_hid_abort_fence_snapshot (Some (hm_abort_fence w)),
     hm_active_command_owner := t, hm_command_active := True, hm_command_was_aborted := False,
     hm_command_send_ok := True, hm_command_send_error := None\<rparr>)"
  have run: "over (current m) (snd (finish_command e c t (run_command e c t (m0 s))))" "t = current m" "ht_generation t \<noteq> 0"
    if cu: "si_hid_owner_state_is_current (Some (hm_owner_state w)) (Some t)"
      and br: "si_hid_owner_state_begin_report (Some (hm_owner_state d)) (Some t) = (True, s)" for s
  proof -
    obtain s' where s: "s = Some s'" using br by (auto simp: si_hid_owner_state_begin_report_def split: if_splits)
    have cur: "si_hid_owner_state_is_current (Some (hm_owner_state d)) (Some t)"
      using cu id(2) by (simp add: is_current_iff same_owner_def)
    have "runs t (m0 s)"
      using admitted_runs [OF id(1) np cur, of s'] br id(2)
      by (simp add: m0_def s si_hid_abort_fence_snapshot_def same_owner_def)
    then show "t = current m" "ht_generation t \<noteq> 0" using cu iw(2) by (simp_all add: is_current_iff)
    then show "over (current m) (snd (finish_command e c t (run_command e c t (m0 s))))"
      using finish_command_over [OF run_command_ending [OF \<open>runs t (m0 s)\<close>, of e c]] by (metis prod.collapse)
  qed
  have so: "same_owner m (snd (hid_fail msg err w))" "same_owner m (snd (hid_fail msg err d))"
    "same_owner m (snd (hid_fail msg err m))" for msg err
    using iw id(2) wake_owner(1) [of e c t m] w by (simp_all add: same_owner_def)
  show ?thesis
    unfolding m'_def si_hid_execute_owned_def ct option.case prod.case w Let_def d
    using assms(1) iw(1) id(1) so run [unfolded m0_def] ct by (auto split: prod.split bool.split)
qed

text \<open>
  The second half of a transition, after the previous token was revoked. Whatever happens, the
  invariant holds again; and when the transition reports success the host holds no input.
\<close>

definition revoked :: "si_hid_owner_token_t \<Rightarrow> hid_mgr \<Rightarrow> bool" where
  "revoked previous m \<longleftrightarrow> quiet m \<and> ht_generation (current m) = 0 \<and>
     (ht_generation (report_owner m) \<noteq> 0 \<longrightarrow> report_owner m = previous \<or> hs_neutral_pending (hm_owner_state m))"

text \<open>Between the drain and the installation of the next owner.\<close>

lemma settle:
  fixes e :: hid_env
  assumes "revoked previous m"
  defines "m1 \<equiv> snd (apply_mount_reset_locked m)"
  defines "d \<equiv> (if ht_generation previous \<noteq> 0 \<and> si_hid_owner_token_equal (Some (report_owner m1)) (Some previous) \<or>
                   hs_neutral_pending (hm_owner_state m1)
                then drain_neutral_pending_locked (e\<lparr>he_revoke_at := None\<rparr>) 1 m1 else (True, m1))"
  shows "idle (snd d)" "same_owner m (snd d)" "fst d \<Longrightarrow> host_neutral (snd d)"
proof -
  have q: "quiet m" using assms(1) by (simp add: revoked_def)
  have m1: "quiet m1" "same_owner m m1"
    "ht_generation (report_owner m1) \<noteq> 0 \<longrightarrow> report_owner m1 = previous \<or> hs_neutral_pending (hm_owner_state m1)"
    using assms(1) apply_mount_reset [OF q] q
    by (auto simp: m1_def apply_mount_reset_locked_def revoked_def drained_def)
  have clean: "quiet x \<Longrightarrow> dirty_reports x = 0 \<Longrightarrow> host_neutral x" for x
    by (rule clean_neutral) (simp_all add: quiet_def base_def)
  show "idle (snd d)" "same_owner m (snd d)" "fst d \<Longrightarrow> host_neutral (snd d)"
  proof -
    note dr = drain_ok(1,3) [OF m1(1), of "e\<lparr>he_revoke_at := None\<rparr>" 1]
    have "idle (snd d) \<and> same_owner m (snd d) \<and> (fst d \<longrightarrow> host_neutral (snd d))"
    proof (cases "ht_generation previous \<noteq> 0 \<and> si_hid_owner_token_equal (Some (report_owner m1)) (Some previous) \<or>
                   hs_neutral_pending (hm_owner_state m1)")
      case True
      then have "d = drain_neutral_pending_locked (e\<lparr>he_revoke_at := None\<rparr>) 1 m1" by (simp add: d_def)
      then show ?thesis
        using dr m1(2) clean by (cases d) (auto simp: drained_def idle_def quiet_def same_owner_def split: if_splits)
    next
      case False
      then have d: "d = (True, m1)" unfolding d_def by (rule if_not_P)
      have ro: "ht_generation (report_owner m1) = 0" using False m1(3) by (auto simp: token_equal_iff)
      then have "dirty_reports m1 = 0" using m1(1) by (simp add: quiet_def)
      then show ?thesis using m1 clean [OF m1(1)] ro d by (simp add: idle_def quiet_def)
    qed
    then show "idle (snd d)" "same_owner m (snd d)" "fst d \<Longrightarrow> host_neutral (snd d)" by blast+
  qed
qed

lemma idle_install:
  assumes "idle m" "ht_generation (current m) = 0"
    and "si_hid_owner_state_install (Some (hm_owner_state m)) (Some c) True owner = (True, Some s, owner')"
  shows "idle (m\<lparr>hm_owner_state := s\<rparr>)" "hs_current s = \<lparr>ht_claim = c, ht_generation = bump_generation (hs_next_generation (hm_owner_state m))\<rparr>"
    "hs_next_generation s = bump_generation (hs_next_generation (hm_owner_state m))" "owner' = write_out owner (hs_current s)"
proof -
  have s: "s = (next_generation (hm_owner_state m))\<lparr>hs_current :=
      \<lparr>ht_claim = c, ht_generation = bump_generation (hs_next_generation (hm_owner_state m))\<rparr>\<rparr>"
    "si_hid_owner_claim_valid (Some c)" "owner' = write_out owner (hs_current s)"
    using assms(3) by (auto simp: si_hid_owner_state_install_def Let_def next_generation_def split: if_splits)
  then show "hs_current s = \<lparr>ht_claim = c, ht_generation = bump_generation (hs_next_generation (hm_owner_state m))\<rparr>"
    "hs_next_generation s = bump_generation (hs_next_generation (hm_owner_state m))" "owner' = write_out owner (hs_current s)"
    by (simp_all add: next_generation_def)
  have "ht_generation (report_owner m) = 0 \<or> hs_neutral_pending (hm_owner_state m)"
    using assms(1,2) by (metis idle_def)
  then show "idle (m\<lparr>hm_owner_state := s\<rparr>)"
    using assms(1) s(2)
    by (auto simp: s(1) next_generation_def idle_def base_def keys_ok_def host_ok_def log_ok_def host_keyboard_neutral_def
        host_neutral_def hid_inv_def)
qed

text \<open>What a transition of the ownership may have done.\<close>

definition handed_over ::
    "si_hid_owner_transition_t \<Rightarrow> u32 \<Rightarrow> bool \<times> si_hid_owner_token_t option \<times> hid_mgr \<Rightarrow> si_hid_owner_token_t option \<Rightarrow> bool" where
  "handed_over tr g = (\<lambda>(r, owner', m') owner. idle m' \<and> (r \<longrightarrow> host_neutral m') \<and>
     (if r \<and> tr_authorize tr
      then current m' = \<lparr>ht_claim = tr_claim tr, ht_generation = bump_generation g\<rparr> \<and>
           hs_next_generation (hm_owner_state m') = bump_generation g \<and>
           si_hid_owner_claim_valid (Some (tr_claim tr)) \<and> owner' = write_out owner (current m')
      else ht_generation (current m') = 0 \<and> hs_next_generation (hm_owner_state m') = g \<and>
           owner' = (if r then write_out owner zero_token else owner)))"

lemma transition_finish_ok:
  assumes "revoked previous m"
  shows "handed_over tr (hs_next_generation (hm_owner_state m)) (transition_finish e tr owner previous m) owner"
proof -
  define m1 where "m1 = snd (apply_mount_reset_locked m)"
  obtain ok d where d: "(if ht_generation previous \<noteq> 0 \<and> si_hid_owner_token_equal (Some (report_owner m1)) (Some previous) \<or>
                   hs_neutral_pending (hm_owner_state m1)
                then drain_neutral_pending_locked (e\<lparr>he_revoke_at := None\<rparr>) 1 m1 else (True, m1)) = (ok, d)" by fastforce
  note s = settle [OF assms, of e, folded m1_def, unfolded d, simplified]
  define x where "x = (if \<not> ok then host_detached d else d)"
  have x: "idle x" "host_neutral x" "hm_owner_state x = hm_owner_state d"
    using s host_detached_base by (auto simp: x_def idle_def)
  have g: "ht_generation (current d) = 0" "hs_next_generation (hm_owner_state d) = hs_next_generation (hm_owner_state m)"
    using s(2) assms by (simp_all add: same_owner_def revoked_def)
  have eq: "transition_finish e tr owner previous m =
      (if \<not> ok \<and> hid_mounted e 5 d then (False, owner, d)
       else if tr_authorize tr
       then (case si_hid_owner_state_install (Some (hm_owner_state x)) (Some (tr_claim tr)) True owner of
               (False, _, _) \<Rightarrow> (False, owner, x)
             | (True, s, owner') \<Rightarrow> (True, owner', x\<lparr>hm_owner_state := the s\<rparr>))
       else (True, write_out owner zero_token, x))"
    unfolding transition_finish_def Let_def m1_def [symmetric] d prod.case x_def [symmetric] ..
  show ?thesis
  proof (cases "tr_authorize tr \<and> \<not> (\<not> ok \<and> hid_mounted e 5 d)")
    case False
    then show ?thesis using s(1) x g by (auto simp: eq handed_over_def)
  next
    case True
    obtain r st o' where i: "si_hid_owner_state_install (Some (hm_owner_state x)) (Some (tr_claim tr)) True owner = (r, st, o')"
      by (cases "si_hid_owner_state_install (Some (hm_owner_state x)) (Some (tr_claim tr)) True owner") auto
    show ?thesis
    proof (cases r)
      case False
      then show ?thesis using True x g i s(1) by (simp add: eq handed_over_def)
    next
      case r: True
      obtain s' where s': "st = Some s'" using i r by (auto simp: si_hid_owner_state_install_def Let_def split: if_splits)
      have v: "si_hid_owner_claim_valid (Some (tr_claim tr))"
        using i r by (auto simp: si_hid_owner_state_install_def Let_def split: if_splits)
      have "host_neutral (x\<lparr>hm_owner_state := s'\<rparr>)"
        using x(2) by (simp add: host_neutral_def host_keyboard_neutral_def)
      then show ?thesis
        using True x g i r s(1) idle_install [OF x(1), of "tr_claim tr" owner s' o'] s' v by (simp add: eq handed_over_def)
    qed
  qed
qed

lemma begin_transition_revoked:
  assumes "idle m"
  shows "revoked (current m) (abort_pending_commands (revoke_previous m))"
proof -
  have "base (abort_pending_commands (revoke_previous m))" using assms by (intro begin_transition_base) (simp add: idle_def)
  then show ?thesis using assms
    by (auto simp: revoked_def quiet_def revoke_previous_owner next_generation_def idle_def)
qed

lemma begin_transition_gen:
  "hs_next_generation (hm_owner_state (abort_pending_commands (revoke_previous m))) =
     (if ht_generation (current m) = 0 then hs_next_generation (hm_owner_state m)
      else bump_generation (hs_next_generation (hm_owner_state m)))"
  by (simp add: revoke_previous_owner next_generation_def)

lemma owner_transition_cases:
  assumes "idle m"
  obtains "snd (snd (owner_transition_locked e tr owner m)) = m"
      "fst (owner_transition_locked e tr owner m) \<longrightarrow> tr_authorize tr \<and> ht_claim (current m) = tr_claim tr \<and>
        ht_generation (current m) \<noteq> 0 \<and> fst (snd (owner_transition_locked e tr owner m)) = write_out owner (current m)"
    | g where "handed_over tr g (owner_transition_locked e tr owner m) owner"
      "g = (if ht_generation (current m) = 0 then hs_next_generation (hm_owner_state m)
            else bump_generation (hs_next_generation (hm_owner_state m)))"
proof (cases "transition_early tr owner m")
  case None
  then have "owner_transition_locked e tr owner m =
      transition_finish e tr owner (current m) (abort_pending_commands (revoke_previous m))"
    by (simp add: owner_transition_locked_def)
  then show ?thesis
    using that(2) transition_finish_ok [OF begin_transition_revoked [OF assms], of tr e owner] begin_transition_gen [of m]
    by simp
next
  case (Some p)
  then show ?thesis
    using that(1) by (cases p) (auto simp: owner_transition_locked_def transition_early_def Let_def claim_equal_iff split: if_splits)
qed

text \<open>An operation moves the generation by at most two and keeps the current token otherwise.\<close>

definition moves :: "hid_mgr \<Rightarrow> hid_mgr \<Rightarrow> bool" where
  "moves m m' \<longleftrightarrow> (\<exists>k\<le>2. hs_next_generation (hm_owner_state m') = (bump_generation ^^ k) (hs_next_generation (hm_owner_state m)) \<and>
     (k = 0 \<longrightarrow> current m' = current m \<or> ht_generation (current m) = 0 \<and> ht_generation (current m') = 0))"

lemma moves_same: "same_owner m m' \<Longrightarrow> moves m m'"
  unfolding moves_def by (intro exI [of _ 0]) (simp add: same_owner_def)

lemma handed_over_moves:
  assumes "handed_over tr g (r, owner', m') owner"
    and "g = (if ht_generation (current m) = 0 then hs_next_generation (hm_owner_state m)
              else bump_generation (hs_next_generation (hm_owner_state m)))"
  shows "moves m m'"
proof -
  have m: "moves m m'" if "hs_next_generation (hm_owner_state m') = (bump_generation ^^ k) (hs_next_generation (hm_owner_state m))"
    "k \<le> 2" "k = 0 \<longrightarrow> ht_generation (current m) = 0 \<and> ht_generation (current m') = 0" for k
    unfolding moves_def by (intro exI [of _ k]) (use that in blast)
  have g: "hs_next_generation (hm_owner_state m') = (if r \<and> tr_authorize tr then bump_generation g else g)"
    "\<not> (r \<and> tr_authorize tr) \<Longrightarrow> ht_generation (current m') = 0"
    using assms(1) by (simp_all add: handed_over_def split: if_splits)
  show ?thesis
  proof (cases "ht_generation (current m) = 0")
    case True
    then show ?thesis using m [of "if r \<and> tr_authorize tr then 1 else 0"] g assms(2) by (simp split: if_splits)
  next
    case False
    then show ?thesis using m [of "if r \<and> tr_authorize tr then 2 else 1"] g(1) assms(2)
      by (simp add: numeral_2_eq_2 split: if_splits)
  qed
qed

lemma owner_transition_idle:
  assumes "idle m"
  shows "idle (snd (snd (owner_transition_locked e tr owner m)))" "moves m (snd (snd (owner_transition_locked e tr owner m)))"
proof -
  obtain r o' m' where t: "owner_transition_locked e tr owner m = (r, o', m')"
    by (cases "owner_transition_locked e tr owner m") auto
  have "idle m' \<and> moves m m'"
  proof (rule owner_transition_cases [OF assms, of e tr owner])
    fix g
    assume h: "handed_over tr g (owner_transition_locked e tr owner m) owner" and
      g: "g = (if ht_generation (current m) = 0 then hs_next_generation (hm_owner_state m)
            else bump_generation (hs_next_generation (hm_owner_state m)))"
    have "moves m m'" using handed_over_moves [of tr g r o' m' owner m] h g t by simp
    moreover have "idle m'" using h t by (simp add: handed_over_def)
    ultimately show ?thesis by simp
  qed (use assms t in \<open>simp add: moves_same\<close>)
  then show "idle (snd (snd (owner_transition_locked e tr owner m)))" "moves m (snd (snd (owner_transition_locked e tr owner m)))"
    using t by simp_all
qed

lemma over_idle:
  assumes "idle m" "over (current m) m'" "current m' = current m"
  shows "idle m' \<and> moves m m'"
proof -
  have "hs_next_generation (hm_owner_state m') = hs_next_generation (hm_owner_state m)"
    using assms zero_token_gen by (auto simp: over_def tracked_def idle_def base_def hid_inv_def)
  then have "moves m m'" unfolding moves_def using assms(3) by (intro exI [of _ 0]) simp
  then show ?thesis using assms by (auto simp: over_def idle_def quiet_def)
qed

lemma over_revoked:
  assumes "over t m'" "current m' \<noteq> t"
  shows "revoked t m'" "hs_next_generation (hm_owner_state m') = bump_generation (ht_generation t)"
  using assms by (auto simp: over_def revoked_def tracked_def)

lemma execute_joined_idle:
  assumes "idle m"
  shows "idle (execute_joined e command owner tr m) \<and> moves m (execute_joined e command owner tr m)"
proof -
  let ?m1 = "snd (si_hid_execute_owned e command owner m)"
  consider (same) "idle ?m1" "same_owner m ?m1" | (run) "ht_generation (current m) \<noteq> 0" "over (current m) ?m1"
    using execute_cases [OF assms, of e command owner] by blast
  then show ?thesis
  proof cases
    case same
    then show ?thesis using moves_same [OF same(2)] by (simp add: execute_joined_def Let_def same_owner_def)
  next
    case run
    show ?thesis
    proof (cases "current ?m1 = current m")
      case True
      then show ?thesis using over_idle [OF assms run(2)] by (simp add: execute_joined_def Let_def)
    next
      case False
      obtain r o' m' where f: "transition_finish e tr None (current m) ?m1 = (r, o', m')"
        by (cases "transition_finish e tr None (current m) ?m1") auto
      have g: "ht_generation (current m) = hs_next_generation (hm_owner_state m)"
        using assms run(1) by (simp add: idle_def base_def hid_inv_def)
      have h: "handed_over tr (bump_generation (hs_next_generation (hm_owner_state m))) (r, o', m') None"
        using transition_finish_ok [OF over_revoked(1) [OF run(2) False], of tr e None] over_revoked(2) [OF run(2) False] f g
        by simp
      have "moves m m'" by (rule handed_over_moves [OF h]) (simp add: run(1))
      moreover have "idle m'" using h by (simp add: handed_over_def)
      ultimately show ?thesis using False f by (simp add: execute_joined_def Let_def)
    qed
  qed
qed

text \<open>The operations that leave the ownership alone.\<close>

lemma idle_frame:
  assumes "idle m" "hm_owner_state m' = hm_owner_state m" "hm_abort_fence m' = hm_abort_fence m"
    and "hm_keys m' = hm_keys m" "hm_key_count m' = hm_key_count m" "hm_log m' = hm_log m"
    and "hm_host m' = hm_host m \<and> hm_mount_reset_pending m' = hm_mount_reset_pending m \<or> host_neutral m'"
    and "hm_command_active m' = hm_command_active m"
  shows "idle m'" "moves m m'"
proof -
  have "same_owner m m'" using assms by (simp add: same_owner_def)
  then show "moves m m'" by (rule moves_same)
  have b: "base m" using assms(1) by (simp add: idle_def)
  from assms(7) have "base m'"
  proof
    assume "hm_host m' = hm_host m \<and> hm_mount_reset_pending m' = hm_mount_reset_pending m"
    then show ?thesis using b
      by (simp add: base_def keys_ok_def host_ok_def log_ok_def host_neutral_def host_keyboard_neutral_def assms(2-6))
  next
    assume "host_neutral m'"
    then show ?thesis using b
      by (simp add: base_def keys_ok_def host_ok_def log_ok_def host_neutral_def assms(2-6))
  qed
  then show "idle m'" using assms(1) by (simp add: idle_def assms(2,8))
qed

lemma hid_mgr_step_idle:
  assumes "idle m"
  shows "idle (hid_mgr_step m x) \<and> moves m (hid_mgr_step m x)"
proof (cases x)
  case (Mgr_Execute e c w tr)
  then show ?thesis using execute_joined_idle [OF assms] by (simp add: hid_mgr_step_def)
next
  case (Mgr_Transition e tr)
  then show ?thesis using owner_transition_idle [OF assms] by (simp add: hid_mgr_step_def)
next
  case (Mgr_Release_If_Current e w)
  then show ?thesis
    using owner_transition_idle [OF assms, of e no_transition None] assms moves_same [of m m]
    by (simp add: hid_mgr_step_def si_hid_owner_release_if_current_def split_beta Let_def)
next
  case (Mgr_Revoke_Session e sid g)
  then show ?thesis
    using owner_transition_idle [OF assms, of e no_transition None] assms moves_same [of m m]
    by (simp add: hid_mgr_step_def si_hid_owner_revoke_session_def split_beta Let_def split: option.split)
next
  case (Mgr_Init l i b)
  have "idle (snd (si_hid_init l i b m)) \<and> moves m (snd (si_hid_init l i b m))"
    by (intro conjI idle_frame [OF assms]) (simp_all add: si_hid_init_def set_last_error_def)
  then show ?thesis using Mgr_Init by (simp add: hid_mgr_step_def)
next
  case (Mgr_Usb_Event a)
  have "idle (hid_event_cb a m) \<and> moves m (hid_event_cb a m)"
    by (intro conjI idle_frame [OF assms])
       (simp_all add: hid_event_cb_def set_last_error_def host_detached_def host_neutral_def host_keyboard_neutral_def Let_def)
  then show ?thesis using Mgr_Usb_Event by (simp add: hid_mgr_step_def)
next
  case (Mgr_Set_Guard e)
  have "idle (snd (si_hid_set_embedded_authority_guard e m)) \<and> moves m (snd (si_hid_set_embedded_authority_guard e m))"
    by (intro conjI idle_frame [OF assms]) (simp_all add: si_hid_set_embedded_authority_guard_def)
  then show ?thesis using Mgr_Set_Guard by (simp add: hid_mgr_step_def)
next
  case (Mgr_Bind e t w)
  have "hm_owner_state (snd (si_hid_bind_embedded_producer e t w m)) = hm_owner_state m \<and>
      idle (snd (si_hid_bind_embedded_producer e t w m)) \<and> moves m (snd (si_hid_bind_embedded_producer e t w m))"
    by (intro conjI idle_frame [OF assms])
       (simp_all add: si_hid_bind_embedded_producer_def split: option.split)
  then show ?thesis using Mgr_Bind by (simp add: hid_mgr_step_def)
qed

text \<open>
  The contract of every system built around the HID manager: its operations keep the manager's
  invariant and move the ownership like an operation of the manager. Its clients get that a token
  that was replaced does not come back before the generations have gone round.
\<close>

locale owned_machine =
  fixes step :: "'s \<Rightarrow> 'op \<Rightarrow> 's" and hid :: "'s \<Rightarrow> hid_mgr"
  assumes step_hid: "idle (hid s) \<Longrightarrow> idle (hid (step s x)) \<and> moves (hid s) (hid (step s x))"
begin

lemma run_idle: "idle (hid s) \<Longrightarrow> idle (hid (run_ops step s xs))"
  by (induction xs arbitrary: s) (simp_all add: step_hid)

lemma run_moves:
  assumes "idle (hid s)"
  shows "\<exists>k \<le> 2 * length xs. hs_next_generation (hm_owner_state (hid (run_ops step s xs))) =
      (bump_generation ^^ k) (hs_next_generation (hm_owner_state (hid s)))"
proof (induction xs rule: rev_induct)
  case Nil
  then show ?case by (intro exI [of _ 0]) simp
next
  case (snoc x xs)
  let ?n = "run_ops step s xs"
  obtain k where k: "k \<le> 2 * length xs"
    "hs_next_generation (hm_owner_state (hid ?n)) = (bump_generation ^^ k) (hs_next_generation (hm_owner_state (hid s)))"
    using snoc by blast
  obtain j where j: "j \<le> 2" "hs_next_generation (hm_owner_state (hid (step ?n x))) =
      (bump_generation ^^ j) (hs_next_generation (hm_owner_state (hid ?n)))"
    using step_hid [OF run_idle [OF assms, of xs], of x] unfolding moves_def by blast
  show ?case using k j by (intro exI [of _ "j + k"]) (simp add: funpow_add)
qed

lemma never_current_again:
  assumes "idle (hid s)" "current (hid s) = t" "ht_generation t \<noteq> 0" "current (hid (step s x)) \<noteq> t"
    and "length xs < 2 ^ 31 - 2"
  shows "current (hid (run_ops step (step s x) xs)) \<noteq> t"
proof -
  note i = step_hid [OF assms(1), of x]
  have g: "hs_next_generation (hm_owner_state (hid s)) = ht_generation t"
    using assms(1-3) by (simp add: idle_def base_def hid_inv_def)
  obtain j where j: "j \<le> 2" "0 < j" "hs_next_generation (hm_owner_state (hid (step s x))) =
      (bump_generation ^^ j) (ht_generation t)"
    using i assms(2-4) g unfolding moves_def by auto
  obtain k where k: "k \<le> 2 * length xs" "hs_next_generation (hm_owner_state (hid (run_ops step (step s x) xs))) =
      (bump_generation ^^ k) (hs_next_generation (hm_owner_state (hid (step s x))))"
    using run_moves [OF conjunct1 [OF i], of xs] by blast
  have "(bump_generation ^^ (k + j)) (ht_generation t) \<noteq> ht_generation t"
    using assms(3,5) j(1,2) k(1) by (intro hid_gen.bump_pow_fresh) simp_all
  then have "hs_next_generation (hm_owner_state (hid (run_ops step (step s x) xs))) \<noteq> ht_generation t"
    using j(3) k(2) by (simp add: funpow_add)
  then show ?thesis using run_idle [OF conjunct1 [OF i], of xs] assms(3) by (auto simp: idle_def base_def hid_inv_def)
qed

end

interpretation hid_mgr: owned_machine hid_mgr_step "\<lambda>m. m"
  by unfold_locales (rule hid_mgr_step_idle)

lemma hid_mgr_initial_idle: "idle hid_mgr_initial"
  by (simp add: idle_def base_def keys_ok_def host_ok_def log_ok_def host_neutral_def host_keyboard_neutral_def hid_inv_def
      hid_mgr_initial_def SI_HID_OWNER_STATE_INITIALIZER_def SI_HID_ABORT_FENCE_INITIALIZER_def zero_token_def)

section \<open>Properties\<close>

lemma hid_mgr_reachable: "idle (run_ops hid_mgr_step hid_mgr_initial xs)"
  by (rule hid_mgr.run_idle [OF hid_mgr_initial_idle])




lemma stale_refused:
  assumes "hs_current (hm_owner_state m) \<noteq> t"
  shows "fst (si_hid_execute_owned e command (Some t) m) \<noteq> ESP_OK \<and>
    hm_log (snd (si_hid_execute_owned e command (Some t) m)) = hm_log m \<and>
    hm_host (snd (si_hid_execute_owned e command (Some t) m)) = hm_host m"
proof -
  have w: "hm_log (snd (wake_suspended_host e c t m)) = hm_log m \<and> hm_host (snd (wake_suspended_host e c t m)) = hm_host m"
    for c by (simp add: wake_suspended_host_def)
  have f: "hm_log (snd (hid_fail msg err x)) = hm_log x" "hm_host (snd (hid_fail msg err x)) = hm_host x"
    "fst (hid_fail msg err x) = err" for msg err x by (simp_all add: hid_fail_def set_last_error_def)
  show ?thesis
  proof (cases command)
    case None
    then show ?thesis by (simp add: si_hid_execute_owned_def f)
  next
    case (Some c)
    then show ?thesis using assms w [of c] wake_owner(1) [of e c t m]
      by (simp add: si_hid_execute_owned_def split_beta Let_def f is_current_iff)
  qed
qed

text \<open>
  C16: A revoked producer never types again. Take a token that is current in a reachable state and any
  operation after which it is not. Then, after any further run of fewer than \<open>2\<^sup>3\<^sup>1 - 2\<close> operations,
  whatever command it presents is refused with an error and changes nothing the host has seen.
\<close>

theorem hid_revoked_token_refused:
  fixes pre xs :: "hid_mgr_op list" and x :: hid_mgr_op
  defines "m \<equiv> run_ops hid_mgr_step hid_mgr_initial pre"
  defines "m' \<equiv> run_ops hid_mgr_step (hid_mgr_step m x) xs"
  assumes "hs_current (hm_owner_state m) = t" "ht_generation t \<noteq> 0"
    and "hs_current (hm_owner_state (hid_mgr_step m x)) \<noteq> t" "length xs < 2 ^ 31 - 2"
  shows "fst (si_hid_execute_owned e command (Some t) m') \<noteq> ESP_OK \<and>
    hm_log (snd (si_hid_execute_owned e command (Some t) m')) = hm_log m' \<and>
    hm_host (snd (si_hid_execute_owned e command (Some t) m')) = hm_host m'"
proof (rule stale_refused)
  show "hs_current (hm_owner_state m') \<noteq> t"
    unfolding m'_def by (rule hid_mgr.never_current_again [OF _ assms(3-6)]) (simp add: m_def hid_mgr_reachable)
qed

section \<open>Witnesses\<close>

text \<open>
  A browser owns the keyboard and presses Ctrl+Alt+Delete; the transition to the agent begins
  between the two reports of the combination.
\<close>

definition usb_env :: "nat option \<Rightarrow> hid_env" where
  "usb_env r = \<lparr>he_tud_mounted = (\<lambda>_. True), he_accepts = (\<lambda>_. True), he_revoke_at = r, he_locks = ESP_OK, he_gate = True,
     he_command_lock = True, he_embedded_guard = True, he_caller_guard = None, he_suspended = False, he_wake_gate = True,
     he_now_us = 0, he_wake_signalled = True, he_wake_in_time = True\<rparr>"

definition browser_transition :: si_hid_owner_transition_t where
  "browser_transition = \<lparr>tr_authorize = True, tr_replace = False,
     tr_claim = \<lparr>hc_kind = SI_HID_OWNER_KVM_STREAM, hc_session_id = ''web'', hc_auth_generation = 1,
       hc_resource_id = 7, hc_authority_epoch = 1\<rparr>\<rparr>"

definition agent_transition :: si_hid_owner_transition_t where
  "agent_transition = \<lparr>tr_authorize = True, tr_replace = False, tr_claim = agent_claim\<rparr>"

definition key_combo :: si_hid_command_t where
  "key_combo = \<lparr>cm_type = SI_HID_COMMAND_COMBO, cm_code = None, cm_error = None, cm_dx = 0, cm_dy = 0, cm_x = 0, cm_y = 0,
     cm_has_x = False, cm_has_y = False, cm_button = 0, cm_wheel_y = 0, cm_wheel_x = 0,
     cm_modifiers = [Some ''ControlLeft'', Some ''AltLeft''], cm_keys = [Some ''Delete'']\<rparr>"

definition browser_token :: si_hid_owner_token_t where
  "browser_token = \<lparr>ht_claim = tr_claim browser_transition, ht_generation = 1\<rparr>"

definition takeover_run :: "hid_mgr_op list" where
  "takeover_run = [Mgr_Init ESP_OK ESP_OK True, Mgr_Usb_Event True, Mgr_Transition (usb_env None) browser_transition]"



theorem hid_revoked_token_refused_witness:
  "fst (si_hid_execute_owned (usb_env None) (Some key_combo) (Some browser_token)
     (run_ops hid_mgr_step (hid_mgr_step (run_ops hid_mgr_step hid_mgr_initial takeover_run)
        (Mgr_Transition (usb_env None) agent_transition)) [Mgr_Usb_Event False, Mgr_Usb_Event True])) \<noteq> ESP_OK"
proof -
  have "hs_current (hm_owner_state (run_ops hid_mgr_step hid_mgr_initial takeover_run)) = browser_token" by code_simp
  moreover have "ht_generation browser_token \<noteq> 0" by (simp add: browser_token_def)
  moreover have "hs_current (hm_owner_state (hid_mgr_step (run_ops hid_mgr_step hid_mgr_initial takeover_run)
        (Mgr_Transition (usb_env None) agent_transition))) \<noteq> browser_token" by code_simp
  ultimately show ?thesis by (intro conjunct1 [OF hid_revoked_token_refused]) simp_all
qed

end
