(* ===== verification/Lease_Props.thy ===== *)
theory Lease_Props
  imports Control_Lease Hid_Handover
begin

text \<open>
  The control lease and the HID manager together: a completed transition leaves the keyboard with the
  holder of the lease or with no automation at all, leases are not stolen, revocations are not lost,
  and a preempted agent stays out.
\<close>

section \<open>One transition\<close>

text \<open>A transition either is refused before the ownership is touched or runs an owner transition.\<close>

lemma run_transition_cases:
  obtains (refused) x' l tr where "run_transition e x owner s = (False, owner, x', \<lparr>ct_lease = l, ct_hid = ct_hid s\<rparr>)"
      "he_locks (le_hid e) \<noteq> ESP_OK \<and> l = ct_lease s \<or>
       (\<exists>y. lease_transition_under_hid_gate e x (ct_lease s) (current (ct_hid s)) no_transition = (False, tr, y, l) \<and>
            x' = y\<lparr>lx_error := (if lx_error y = ESP_OK then ESP_ERR_NOT_FINISHED else lx_error y),
                   lx_update_result := (if lx_update_result y = SI_CONTROL_LEASE_UPDATE_OK
                                         then SI_CONTROL_LEASE_UPDATE_UNAVAILABLE else lx_update_result y)\<rparr>)"
    | (ran) tr y l r o' m x' where
      "lease_transition_under_hid_gate e x (ct_lease s) (current (ct_hid s)) no_transition = (True, tr, y, l)"
      "owner_transition_locked (le_hid e) tr owner (ct_hid s) = (r, o', m)"
      "run_transition e x owner s = (r, o', x', \<lparr>ct_lease = l, ct_hid = m\<rparr>)" "r \<longrightarrow> x' = y"
proof -
  obtain ok tr y l where c: "lease_transition_under_hid_gate e x (ct_lease s) (current (ct_hid s)) no_transition = (ok, tr, y, l)"
    by (cases "lease_transition_under_hid_gate e x (ct_lease s) (current (ct_hid s)) no_transition") auto
  obtain r o' m where t: "owner_transition_locked (le_hid e) tr owner (ct_hid s) = (r, o', m)"
    by (cases "owner_transition_locked (le_hid e) tr owner (ct_hid s)") auto
  show ?thesis
  proof (cases "he_locks (le_hid e) = ESP_OK \<and> ok")
    case True
    then show ?thesis using c t ran by (simp add: run_transition_def si_hid_authority_transition_def)
  next
    case False
    then show ?thesis using c refused
      by (cases "he_locks (le_hid e) = ESP_OK") (auto simp: run_transition_def si_hid_authority_transition_def)
  qed
qed

lemma run_transition_hid:
  assumes "idle (ct_hid s)"
  shows "idle (ct_hid (snd (snd (snd (run_transition e x owner s)))))"
    "moves (ct_hid s) (ct_hid (snd (snd (snd (run_transition e x owner s)))))"
proof -
  have "idle (ct_hid (snd (snd (snd (run_transition e x owner s))))) \<and>
    moves (ct_hid s) (ct_hid (snd (snd (snd (run_transition e x owner s)))))"
  proof (rule run_transition_cases [of e x owner s])
    fix tr y l r o' m x'
    assume "owner_transition_locked (le_hid e) tr owner (ct_hid s) = (r, o', m)"
      "run_transition e x owner s = (r, o', x', \<lparr>ct_lease = l, ct_hid = m\<rparr>)"
    then show ?thesis using owner_transition_idle [OF assms, of "le_hid e" tr owner] by simp
  qed (use assms moves_same in simp)
  then show "idle (ct_hid (snd (snd (snd (run_transition e x owner s)))))"
    "moves (ct_hid s) (ct_hid (snd (snd (snd (run_transition e x owner s)))))" by blast+
qed

lemma start_hid:
  assumes "idle (ct_hid s)"
  shows "idle (ct_hid (snd (si_control_lease_start a b e s)))" "moves (ct_hid s) (ct_hid (snd (si_control_lease_start a b e s)))"
proof -
  have "idle (snd (si_hid_set_embedded_authority_guard e (ct_hid s))) \<and>
      moves (ct_hid s) (snd (si_hid_set_embedded_authority_guard e (ct_hid s)))"
    using hid_mgr_step_idle [OF assms, of "Mgr_Set_Guard e"] by (simp add: hid_mgr_step_def)
  then show "idle (ct_hid (snd (si_control_lease_start a b e s)))"
    "moves (ct_hid s) (ct_hid (snd (si_control_lease_start a b e s)))"
    using assms moves_same [of "ct_hid s" "ct_hid s"] by (simp_all add: si_control_lease_start_def split_beta Let_def)
qed

lemma control_step_hid:
  assumes "idle (ct_hid s)"
  shows "idle (ct_hid (control_step s x)) \<and> moves (ct_hid s) (ct_hid (control_step s x))"
  using assms start_hid [OF assms] hid_mgr_step_idle [OF assms] run_transition_hid [OF assms]
  by (cases x) (simp_all add: control_step_def)

interpretation control: owned_machine control_step ct_hid
  by unfold_locales (rule control_step_hid)

lemma control_reachable: "idle (ct_hid (run_ops control_step control_initial xs))"
  by (rule control.run_idle) (simp add: control_initial_def hid_mgr_initial_idle)

section \<open>The keyboard follows the lease\<close>


lemma gate_accepts:
  assumes "lease_transition_under_hid_gate e x l c no_transition = (True, tr, y, l')"
  shows "tr = desired_owner_locked c (le_now_ms e) (le_kvm_view_active e) l' no_transition" "le_lock e" "cl_lock l"
  using assms by (auto simp: lease_transition_under_hid_gate_def Let_def split_beta split: if_splits)




section \<open>Leases are not stolen\<close>

text \<open>
  C11: A lease is not stolen. While a live lease is held by another owner, session or login, a request to
  take it without force is answered with held-by-other, whatever it asks for, and the lease (after
  pending revocations are applied) and the whole HID state stay as they are; and a fresh touch of an
  embedded producer is refused in the same way.
\<close>

theorem lease_not_stolen:
  fixes s :: control
  defines "l \<equiv> snd (pending_revokes_apply_locked (ct_lease s))"
  assumes "cl_lock (ct_lease s)" "le_lock e" "he_locks (le_hid e) = ESP_OK" "le_live_guard e"
    and "active_locked (le_now_ms e) l"
    and "si_control_lease_owner_valid (Some w)" "si_control_lease_mode_valid mode" "sid \<noteq> []"
      "length sid \<le> SI_CONTROL_LEASE_SESSION_ID_MAX_LEN"
    and "\<not> strcaseeq (cl_owner l) w \<or> cl_session_id l \<noteq> sid \<or> cl_auth_generation l \<noteq> g"
  shows "si_control_lease_update_for_auth_session e (Some w) (Some sid) g mode reason True False s =
      (SI_CONTROL_LEASE_UPDATE_HELD_BY_OTHER, s\<lparr>ct_lease := l\<rparr>) \<and>
    (let (ok, _, x', s') = run_transition e ((zero_context LEASE_OP_TOUCH_AGENT)\<lparr>lx_mode := mode\<rparr>) out s
     in \<not> ok \<and> lx_error x' = ESP_ERR_INVALID_STATE \<and> s' = s\<lparr>ct_lease := l\<rparr>)"
proof
  have m: "materialize_expiry_locked (le_now_ms e) l = (False, l)"
    using assms(6) by (simp add: materialize_expiry_locked_def)
  obtain c where p: "pending_revokes_apply_locked (ct_lease s) = (c, l)" by (simp add: l_def prod_eq_iff)
  show "si_control_lease_update_for_auth_session e (Some w) (Some sid) g mode reason True False s =
      (SI_CONTROL_LEASE_UPDATE_HELD_BY_OTHER, s\<lparr>ct_lease := l\<rparr>)"
    using assms(2-) p m
    by (auto simp: si_control_lease_update_for_auth_session_def run_transition_def si_hid_authority_transition_def
        lease_transition_under_hid_gate_def zero_context_def lease_operation_def op_update_def held_by_other_def Let_def)
  show "let (ok, _, x', s') = run_transition e ((zero_context LEASE_OP_TOUCH_AGENT)\<lparr>lx_mode := mode\<rparr>) out s
     in \<not> ok \<and> lx_error x' = ESP_ERR_INVALID_STATE \<and> s' = s\<lparr>ct_lease := l\<rparr>"
    using assms(2-) p m
    by (auto simp: run_transition_def si_hid_authority_transition_def lease_transition_under_hid_gate_def zero_context_def
        lease_operation_def op_touch_def si_hid_embedded_touch_decide_def embedded_token_matches_domain_def Let_def)
qed

section \<open>Revocations are not lost\<close>

definition owes :: "string \<Rightarrow> u32 \<Rightarrow> lease \<Rightarrow> bool" where
  "owes sid g l \<longleftrightarrow> cl_pending_revoke_fail_closed l \<or>
     (\<exists>p\<in>set (cl_pending_revokes l). pr_used p \<and> pr_session_id p = sid \<and> pr_auth_generation p = g)"

definition holds_lease :: "string \<Rightarrow> u32 \<Rightarrow> lease \<Rightarrow> bool" where
  "holds_lease sid g l \<longleftrightarrow> cl_seen l \<and> revoke_matches sid g l"

lemma add_owes:
  assumes "length sid \<le> SI_CONTROL_LEASE_SESSION_ID_MAX_LEN"
  shows "owes sid g (pending_revoke_add_under_hid_gate sid g l)"
proof (cases "filter (\<lambda>i. \<not> pr_used (cl_pending_revokes l ! i)) [0..<length (cl_pending_revokes l)]")
  case Nil
  then show ?thesis by (auto simp: pending_revoke_add_under_hid_gate_def owes_def)
next
  case (Cons i rest)
  then have "i \<in> set (filter (\<lambda>i. \<not> pr_used (cl_pending_revokes l ! i)) [0..<length (cl_pending_revokes l)])" by simp
  then have "i < length (cl_pending_revokes l)" by simp
  then show ?thesis using Cons assms
    by (auto simp: pending_revoke_add_under_hid_gate_def owes_def set_update_memI
        intro!: bexI [OF _ set_update_memI])
qed

lemma add_keeps_owes: "owes sid g l \<Longrightarrow> owes sid g (pending_revoke_add_under_hid_gate sid' g' l)"
proof (cases "filter (\<lambda>i. \<not> pr_used (cl_pending_revokes l ! i)) [0..<length (cl_pending_revokes l)]")
  case Nil
  assume "owes sid g l"
  then show ?thesis using Nil by (auto simp: pending_revoke_add_under_hid_gate_def owes_def)
next
  case (Cons i rest)
  assume o: "owes sid g l"
  have "i \<in> set (filter (\<lambda>i. \<not> pr_used (cl_pending_revokes l ! i)) [0..<length (cl_pending_revokes l)])" using Cons by simp
  then have i: "\<not> pr_used (cl_pending_revokes l ! i)" by simp
  have "p \<in> set ((cl_pending_revokes l)[i := q])" if "p \<in> set (cl_pending_revokes l)" "pr_used p" for p q
    using that i by (metis in_set_conv_nth length_list_update nth_list_update_neq)
  then show ?thesis using o Cons by (auto simp: pending_revoke_add_under_hid_gate_def owes_def)
qed

lemma add_other [simp]:
  "cl_seen (pending_revoke_add_under_hid_gate sid g l) = cl_seen l"
  "cl_session_id (pending_revoke_add_under_hid_gate sid g l) = cl_session_id l"
  "cl_auth_generation (pending_revoke_add_under_hid_gate sid g l) = cl_auth_generation l"
  "cl_lock (pending_revoke_add_under_hid_gate sid g l) = cl_lock l"
  "cl_embedded_preempted (pending_revoke_add_under_hid_gate sid g l) = cl_embedded_preempted l"
  by (simp_all add: pending_revoke_add_under_hid_gate_def split: list.split)

lemma epoch_bump_simps [simp]:
  "cl_seen (epoch_bump_locked l) = cl_seen l" "cl_session_id (epoch_bump_locked l) = cl_session_id l"
  "cl_auth_generation (epoch_bump_locked l) = cl_auth_generation l" "cl_lock (epoch_bump_locked l) = cl_lock l"
  "cl_embedded_preempted (epoch_bump_locked l) = cl_embedded_preempted l"
  by (simp_all add: epoch_bump_locked_def)

lemma journal_keeps:
  "snd (apply_journal ps l) = l \<or> \<not> cl_seen (snd (apply_journal ps l))"
  "cl_lock (snd (apply_journal ps l)) = cl_lock l"
  "cl_embedded_preempted (snd (apply_journal ps l)) = cl_embedded_preempted l"
  "length (cl_session_id (snd (apply_journal ps l))) \<le> length (cl_session_id l)"
proof (induction ps arbitrary: l)
  case (Cons p ps)
  { case 1 show ?case using Cons(1) [of "revoke_lease l"] Cons(1) [of l] by (auto simp: Let_def split_beta revoke_lease_def) }
  { case 2 show ?case using Cons(2) by (simp add: Let_def split_beta revoke_lease_def) }
  { case 3 show ?case using Cons(3) by (simp add: Let_def split_beta revoke_lease_def) }
  { case 4 show ?case using Cons(4) [of "revoke_lease l"] Cons(4) [of l] by (simp add: Let_def split_beta revoke_lease_def) }
qed simp_all

lemma journal_discharges:
  "p \<in> set ps \<Longrightarrow> pr_used p \<Longrightarrow> pr_session_id p = sid \<Longrightarrow> pr_auth_generation p = g \<Longrightarrow>
     \<not> holds_lease sid g (snd (apply_journal ps l))"
proof (induction ps arbitrary: l)
  case (Cons q ps)
  show ?case
  proof (cases "q = p")
    case True
    let ?l = "if holds_lease sid g l then revoke_lease l else l"
    have "snd (apply_journal (q # ps) l) = snd (apply_journal ps ?l)"
      using True Cons.prems by (simp add: Let_def split_beta holds_lease_def conj_commute)
    moreover have "\<not> holds_lease sid g ?l" by (simp add: holds_lease_def revoke_lease_def)
    ultimately show ?thesis using journal_keeps(1) [of ps ?l] by (auto simp: holds_lease_def)
  next
    case False
    then show ?thesis using Cons by (simp add: Let_def split_beta)
  qed
qed simp

lemma apply_locked:
  "cl_lock (snd (pending_revokes_apply_locked l)) = cl_lock l"
  "cl_embedded_preempted (snd (pending_revokes_apply_locked l)) = cl_embedded_preempted l"
  "length (cl_session_id (snd (pending_revokes_apply_locked l))) \<le> length (cl_session_id l)"
  "owes sid g l \<or> \<not> holds_lease sid g l \<Longrightarrow> \<not> holds_lease sid g (snd (pending_revokes_apply_locked l))"
proof -
  define k where "k = (if cl_pending_revoke_fail_closed l
     then (if cl_seen l then revoke_lease l else l)\<lparr>cl_pending_revoke_fail_closed := False\<rparr> else l)"
  have a: "snd (pending_revokes_apply_locked l) = (snd (apply_journal (cl_pending_revokes k) k))
      \<lparr>cl_pending_revokes := map (\<lambda>p. if pr_used p then zero_revoke else p) (cl_pending_revokes (snd (apply_journal (cl_pending_revokes k) k)))\<rparr>"
    by (simp add: pending_revokes_apply_locked_def k_def Let_def split_beta)
  have k: "cl_lock k = cl_lock l" "cl_embedded_preempted k = cl_embedded_preempted l"
    "length (cl_session_id k) \<le> length (cl_session_id l)" "k = l \<or> \<not> cl_seen k" "cl_pending_revokes k = cl_pending_revokes l"
    "cl_pending_revoke_fail_closed l \<longrightarrow> \<not> cl_seen k"
    by (auto simp: k_def revoke_lease_def epoch_bump_locked_def)
  show "cl_lock (snd (pending_revokes_apply_locked l)) = cl_lock l"
    "cl_embedded_preempted (snd (pending_revokes_apply_locked l)) = cl_embedded_preempted l"
    using k(1,2) journal_keeps(2,3) by (simp_all add: a)
  show "length (cl_session_id (snd (pending_revokes_apply_locked l))) \<le> length (cl_session_id l)"
    using k(3) journal_keeps(4) [of "cl_pending_revokes k" k] by (simp add: a)
  assume o: "owes sid g l \<or> \<not> holds_lease sid g l"
  have "\<not> holds_lease sid g (snd (apply_journal (cl_pending_revokes k) k))"
  proof (cases "holds_lease sid g k")
    case True
    then have "k = l" "\<not> cl_pending_revoke_fail_closed l" using k by (auto simp: holds_lease_def)
    then obtain p where "p \<in> set (cl_pending_revokes k)" "pr_used p" "pr_session_id p = sid" "pr_auth_generation p = g"
      using o True by (auto simp: owes_def)
    then show ?thesis by (rule journal_discharges)
  next
    case False
    then show ?thesis using journal_keeps(1) [of "cl_pending_revokes k" k] by (auto simp: holds_lease_def)
  qed
  then show "\<not> holds_lease sid g (snd (pending_revokes_apply_locked l))"
    by (simp add: a holds_lease_def revoke_matches_def)
qed

lemma materialize_keeps:
  "cl_lock (snd (materialize_expiry_locked now l)) = cl_lock l"
  "cl_embedded_preempted (snd (materialize_expiry_locked now l)) = cl_embedded_preempted l"
  "cl_session_id (snd (materialize_expiry_locked now l)) = cl_session_id l"
  "holds_lease sid g (snd (materialize_expiry_locked now l)) \<Longrightarrow> holds_lease sid g l"
  by (simp_all add: materialize_expiry_locked_def drop_lease_def holds_lease_def revoke_matches_def split: if_splits)

text \<open>The state in which the operation proper runs.\<close>

definition refreshed :: "u32 \<Rightarrow> lease \<Rightarrow> lease" where
  "refreshed now_ms l = snd (materialize_expiry_locked now_ms (snd (pending_revokes_apply_locked l)))"

lemma gate_locked:
  assumes "cl_lock l" "le_lock e" "lx_operation x = LEASE_OP_UPDATE \<longrightarrow> le_live_guard e"
  shows "\<exists>b. lease_transition_under_hid_gate e x l c tr =
    (let r = refreshed (le_now_ms e) l; was_active = active_locked (le_now_ms e) r;
         (proceed, x', l') = lease_operation c was_active (le_now_ms e) (x\<lparr>lx_state_changed := b\<rparr>) r
     in if \<not> proceed then (False, tr, x', l')
        else (True, desired_owner_locked c (le_now_ms e) (le_kvm_view_active e) l' tr, x'\<lparr>lx_error := ESP_OK\<rparr>, l'))"
  using assms by (auto simp: lease_transition_under_hid_gate_def refreshed_def Let_def split_beta)

lemma refreshed_keeps:
  "cl_lock (refreshed now l) = cl_lock l" "cl_embedded_preempted (refreshed now l) = cl_embedded_preempted l"
  "length (cl_session_id (refreshed now l)) \<le> length (cl_session_id l)"
  "owes sid g l \<or> \<not> holds_lease sid g l \<Longrightarrow> \<not> holds_lease sid g (refreshed now l)"
  using apply_locked(1-3) [of l] apply_locked(4) [of sid g l] materialize_keeps(4) [of sid g now]
  by (auto simp: refreshed_def materialize_keeps(1-3))

text \<open>A transition that does not get the mutex leaves the lease alone, except for the journal.\<close>

lemma gate_timeout:
  assumes "\<not> le_lock e"
  shows "run_transition e x owner s = (False, owner, x', s') \<Longrightarrow>
      ct_hid s' = ct_hid s \<and> (ct_lease s' = ct_lease s \<or>
        ct_lease s' = pending_revoke_add_under_hid_gate (c_or_empty (lx_session_id x)) (lx_auth_generation x) (ct_lease s))"
    and "\<not> fst (run_transition e x owner s)" "fst (snd (run_transition e x owner s)) = owner"
  using assms
  by (auto simp: run_transition_def si_hid_authority_transition_def lease_transition_under_hid_gate_def Let_def split: if_splits)

lemma timeouts_keep:
  fixes s :: control
  assumes "\<forall>(e, x)\<in>set ts. \<not> le_lock e"
  defines "s' \<equiv> run_ops control_step s (map (\<lambda>(e, x). Ctl_Run e x) ts)"
  shows "ct_hid s' = ct_hid s \<and> cl_lock (ct_lease s') = cl_lock (ct_lease s) \<and>
    (owes sid g (ct_lease s) \<or> \<not> holds_lease sid g (ct_lease s) \<longrightarrow>
     owes sid g (ct_lease s') \<or> \<not> holds_lease sid g (ct_lease s'))"
  using assms(1) unfolding s'_def
proof (induction ts arbitrary: s)
  case (Cons t ts)
  obtain e x where t: "t = (e, x)" by fastforce
  have nl: "\<not> le_lock e" using Cons.prems t by simp
  obtain x' s1 where r: "run_transition e x None s = (False, None, x', s1)"
    using gate_timeout(2,3) [OF nl, of x None s] by (cases "run_transition e x None s") auto
  have s1: "ct_hid s1 = ct_hid s" "cl_lock (ct_lease s1) = cl_lock (ct_lease s)"
    "owes sid g (ct_lease s) \<or> \<not> holds_lease sid g (ct_lease s) \<longrightarrow>
     owes sid g (ct_lease s1) \<or> \<not> holds_lease sid g (ct_lease s1)"
    using gate_timeout(1) [OF nl r] add_keeps_owes by (auto simp: holds_lease_def revoke_matches_def)
  have "control_step s (Ctl_Run e x) = s1" by (simp add: control_step_def r)
  then show ?case using Cons.IH [of s1] Cons.prems s1 t by auto
qed simp

lemma run_lease:
  assumes "he_locks (le_hid e) = ESP_OK"
    and "lease_transition_under_hid_gate e x (ct_lease s) (current (ct_hid s)) no_transition = (ok, tr, y, l)"
  shows "ct_lease (snd (snd (snd (run_transition e x owner s)))) = l"
  using assms by (auto simp: run_transition_def si_hid_authority_transition_def Let_def split_beta)

lemma maintenance_clears:
  assumes "cl_lock (ct_lease s)" "le_lock e" "he_locks (le_hid e) = ESP_OK"
    and "owes sid g (ct_lease s) \<or> \<not> holds_lease sid g (ct_lease s)"
  shows "\<not> holds_lease sid g (ct_lease (lease_maintenance e s))"
proof -
  have "\<exists>ok tr y. lease_transition_under_hid_gate e (zero_context LEASE_OP_MAINTAIN) (ct_lease s) (current (ct_hid s)) no_transition
      = (ok, tr, y, refreshed (le_now_ms e) (ct_lease s))"
    using gate_locked [OF assms(1,2), of "zero_context LEASE_OP_MAINTAIN" "current (ct_hid s)" no_transition]
    by (auto simp: zero_context_def lease_operation_def Let_def)
  then have "ct_lease (lease_maintenance e s) = refreshed (le_now_ms e) (ct_lease s)"
    using run_lease [OF assms(3)] by (auto simp: lease_maintenance_def)
  then show ?thesis using refreshed_keeps(4) [OF assms(4)] by simp
qed

text \<open>What the revocation itself leaves: the lease is gone, or it is owed.\<close>

lemma revoke_run:
  fixes g :: u32
  assumes "cl_lock (ct_lease s)" "he_locks (le_hid e) = ESP_OK" "sid \<noteq> []" "length sid \<le> SI_CONTROL_LEASE_SESSION_ID_MAX_LEN"
  defines "x \<equiv> (zero_context LEASE_OP_REVOKE_SESSION)\<lparr>lx_session_id := Some sid, lx_auth_generation := g\<rparr>"
  defines "s' \<equiv> snd (snd (snd (run_transition e x None s)))"
  shows "owes sid g (ct_lease s') \<or> \<not> holds_lease sid g (ct_lease s')" "cl_lock (ct_lease s') = cl_lock (ct_lease s)"
    "le_lock e \<Longrightarrow> \<not> holds_lease sid g (ct_lease s')"
    "le_lock e \<Longrightarrow> length (cl_session_id (ct_lease s')) \<le> length (cl_session_id (ct_lease s))"
    "le_lock e \<Longrightarrow> \<not> holds_lease sid' g' (ct_lease s) \<Longrightarrow> \<not> holds_lease sid' g' (ct_lease s')"
proof -
  have t: "\<exists>ok tr y. lease_transition_under_hid_gate e x (ct_lease s) (current (ct_hid s)) no_transition =
      (ok, tr, y, pending_revoke_add_under_hid_gate sid g (ct_lease s))" if "\<not> le_lock e"
    using assms(1,3) that by (auto simp: lease_transition_under_hid_gate_def x_def zero_context_def)
  let ?r = "refreshed (le_now_ms e) (ct_lease s)"
  let ?l = "if revoke_matches sid g ?r then (if cl_seen ?r then epoch_bump_locked ?r else ?r)
      \<lparr>cl_seen := False, cl_session_id := [], cl_reason := [], cl_auth_generation := 0, cl_resource_id := 0\<rparr> else ?r"
  have l: "\<exists>ok tr y. lease_transition_under_hid_gate e x (ct_lease s) (current (ct_hid s)) no_transition = (ok, tr, y, ?l)"
    if "le_lock e"
    using gate_locked [OF assms(1) that, of x "current (ct_hid s)" no_transition]
    by (auto simp: x_def zero_context_def lease_operation_def op_revoke_session_def Let_def)
  have "ct_lease s' = (if le_lock e then ?l else pending_revoke_add_under_hid_gate sid g (ct_lease s))"
    using run_lease [OF assms(2), of x s _ _ _ _ None] t l unfolding s'_def by (auto split: if_splits)
  then show "owes sid g (ct_lease s') \<or> \<not> holds_lease sid g (ct_lease s')" "cl_lock (ct_lease s') = cl_lock (ct_lease s)"
    "le_lock e \<Longrightarrow> \<not> holds_lease sid g (ct_lease s')"
    "le_lock e \<Longrightarrow> length (cl_session_id (ct_lease s')) \<le> length (cl_session_id (ct_lease s))"
    "le_lock e \<Longrightarrow> \<not> holds_lease sid' g' (ct_lease s) \<Longrightarrow> \<not> holds_lease sid' g' (ct_lease s')"
    using add_owes [OF assms(4), of g "ct_lease s"] refreshed_keeps(1,3) [of "le_now_ms e" "ct_lease s"]
      refreshed_keeps(4) [of sid' g' "ct_lease s" "le_now_ms e"]
    by (auto simp: holds_lease_def)
qed

definition token_of :: "string \<Rightarrow> u32 \<Rightarrow> si_hid_owner_token_t \<Rightarrow> bool" where
  "token_of sid g c \<longleftrightarrow> ht_generation c \<noteq> 0 \<and> hc_session_id (ht_claim c) = sid \<and> hc_auth_generation (ht_claim c) = g"

lemma hid_revoke_session_effect:
  assumes "idle m" "he_locks e = ESP_OK" "sid \<noteq> []" "g \<noteq> 0"
  defines "m' \<equiv> snd (si_hid_owner_revoke_session e (Some sid) g m)"
  shows "idle m'" "\<not> token_of sid g (current m')" "current m' = current m \<or> ht_generation (current m') = 0"
proof -
  obtain r o' k where t: "owner_transition_locked e no_transition None m = (r, o', k)"
    by (cases "owner_transition_locked e no_transition None m") auto
  have "transition_early no_transition None m = None" by (simp add: transition_early_def no_transition_def)
  then have "handed_over no_transition (hs_next_generation (hm_owner_state (abort_pending_commands (revoke_previous m))))
      (r, o', k) None"
    using transition_finish_ok [OF begin_transition_revoked [OF assms(1)], of no_transition e None] t
    by (simp add: owner_transition_locked_def)
  then have k: "idle k" "ht_generation (current k) = 0" by (simp_all add: handed_over_def no_transition_def)
  have "m' = (if token_of sid g (current m) then k else m)"
    using assms(2-4) t by (auto simp: m'_def si_hid_owner_revoke_session_def token_of_def Let_def)
  then show "idle m'" "\<not> token_of sid g (current m')" "current m' = current m \<or> ht_generation (current m') = 0"
    using k assms(1) by (auto simp: token_of_def)
qed

lemma transition_not_token:
  assumes "idle m" "\<not> token_of sid g (current m)" "tr_authorize tr \<longrightarrow> \<not> (hc_session_id (tr_claim tr) = sid \<and> hc_auth_generation (tr_claim tr) = g)"
  shows "\<not> token_of sid g (current (snd (snd (owner_transition_locked e tr owner m))))"
  by (rule owner_transition_cases [OF assms(1), of e tr owner])
     (use assms(2,3) in \<open>auto simp: token_of_def handed_over_def split: prod.splits if_splits\<close>)

text \<open>A transition whose lease does not belong to a session gives that session no token.\<close>

lemma run_not_token:
  assumes "idle (ct_hid s)" "\<not> token_of sid g (current (ct_hid s))" "s' = snd (snd (snd (run_transition e x None s)))"
    and nh: "le_lock e \<Longrightarrow> \<not> holds_lease sid g (ct_lease s')"
      "le_lock e \<Longrightarrow> length (cl_session_id (ct_lease s')) \<le> SI_CONTROL_LEASE_SESSION_ID_MAX_LEN"
  shows "\<not> token_of sid g (current (ct_hid s'))"
proof (rule run_transition_cases [of e x None s])
  fix tr y l b o' m x'
  assume gt: "lease_transition_under_hid_gate e x (ct_lease s) (current (ct_hid s)) no_transition = (True, tr, y, l)"
    and ot: "owner_transition_locked (le_hid e) tr None (ct_hid s) = (b, o', m)"
    and rt: "run_transition e x None s = (b, o', x', \<lparr>ct_lease = l, ct_hid = m\<rparr>)"
  have l: "l = ct_lease s'" using rt by (simp add: assms(3))
  have "c_strlcpy (SI_HID_OWNER_SESSION_ID_MAX_LEN + 1) (cl_session_id l) = cl_session_id l"
    using nh(2) gate_accepts(2) [OF gt] by (simp add: l SI_HID_OWNER_SESSION_ID_MAX_LEN_def SI_CONTROL_LEASE_SESSION_ID_MAX_LEN_def)
  then have "tr_authorize tr \<longrightarrow> \<not> (hc_session_id (tr_claim tr) = sid \<and> hc_auth_generation (tr_claim tr) = g)"
    using nh(1) gate_accepts(2) [OF gt] assms(2) gate_accepts(1) [OF gt]
    by (auto simp: desired_owner_locked_def preserve_owner_def no_transition_def lease_claim_def holds_lease_def
        revoke_matches_def active_locked_def token_of_def l split: if_splits)
  then show ?thesis
    using transition_not_token [OF assms(1,2), of tr "le_hid e" None] ot rt by (simp add: assms(3))
qed (use assms(2) in \<open>simp add: assms(3)\<close>)

text \<open>The session name always fits its buffer.\<close>

lemma lease_operation_session:
  assumes "length (cl_session_id l) \<le> SI_CONTROL_LEASE_SESSION_ID_MAX_LEN"
  shows "length (cl_session_id (snd (snd (lease_operation c a now x l)))) \<le> SI_CONTROL_LEASE_SESSION_ID_MAX_LEN"
proof -
  have "length (cl_session_id (snd (snd (op_touch c a now x l)))) \<le> SI_CONTROL_LEASE_SESSION_ID_MAX_LEN"
    "length (cl_session_id (snd (snd (op_update a now x l)))) \<le> SI_CONTROL_LEASE_SESSION_ID_MAX_LEN"
    using assms by (simp_all add: op_touch_def op_update_def c_strlcpy_def Let_def)
  moreover have "length (cl_session_id (snd (snd (op_revoke_session x l)))) \<le> SI_CONTROL_LEASE_SESSION_ID_MAX_LEN"
    using assms by (simp add: op_revoke_session_def split: option.split)
  ultimately show ?thesis using assms
    by (cases "lx_operation x")
       (simp_all add: lease_operation_def op_release_embedded_def op_abandon_embedded_def drop_lease_def)
qed

lemma gate_lease:
  assumes "cl_lock l" "le_lock e" "lx_operation x = LEASE_OP_UPDATE \<longrightarrow> le_live_guard e"
  shows "\<exists>b. snd (snd (snd (lease_transition_under_hid_gate e x l c tr))) =
    snd (snd (lease_operation c (active_locked (le_now_ms e) (refreshed (le_now_ms e) l)) (le_now_ms e)
      (x\<lparr>lx_state_changed := b\<rparr>) (refreshed (le_now_ms e) l)))"
  using assms by (auto simp: lease_transition_under_hid_gate_def refreshed_def Let_def split_beta)

text \<open>Without the mutex, the guard or the module the lease keeps everything but its journal.\<close>

lemma gate_refused_lease:
  assumes "\<not> (cl_lock l \<and> le_lock e \<and> (lx_operation x = LEASE_OP_UPDATE \<longrightarrow> le_live_guard e))"
  shows "snd (snd (snd (lease_transition_under_hid_gate e x l c tr))) = l \<or>
    snd (snd (snd (lease_transition_under_hid_gate e x l c tr))) =
      pending_revoke_add_under_hid_gate (c_or_empty (lx_session_id x)) (lx_auth_generation x) l"
  using assms
  by (cases "cl_lock l"; cases "lx_operation x = LEASE_OP_UPDATE \<and> \<not> le_live_guard e"; cases "le_lock e")
     (auto simp: lease_transition_under_hid_gate_def Let_def)

lemma gate_session:
  assumes "length (cl_session_id l) \<le> SI_CONTROL_LEASE_SESSION_ID_MAX_LEN"
  shows "length (cl_session_id (snd (snd (snd (lease_transition_under_hid_gate e x l c tr))))) \<le> SI_CONTROL_LEASE_SESSION_ID_MAX_LEN"
proof (cases "cl_lock l \<and> le_lock e \<and> (lx_operation x = LEASE_OP_UPDATE \<longrightarrow> le_live_guard e)")
  case True
  have r: "length (cl_session_id (refreshed (le_now_ms e) l)) \<le> SI_CONTROL_LEASE_SESSION_ID_MAX_LEN"
    using refreshed_keeps(3) [of "le_now_ms e" l] assms by simp
  from True have "\<exists>b. snd (snd (snd (lease_transition_under_hid_gate e x l c tr))) =
    snd (snd (lease_operation c (active_locked (le_now_ms e) (refreshed (le_now_ms e) l)) (le_now_ms e)
      (x\<lparr>lx_state_changed := b\<rparr>) (refreshed (le_now_ms e) l)))"
    by (intro gate_lease) simp_all
  then show ?thesis using lease_operation_session [OF r] by auto
next
  case False
  from gate_refused_lease [OF this, of c tr] show ?thesis using assms by auto
qed

lemma control_step_session:
  assumes "length (cl_session_id (ct_lease s)) \<le> SI_CONTROL_LEASE_SESSION_ID_MAX_LEN"
  shows "length (cl_session_id (ct_lease (control_step s x))) \<le> SI_CONTROL_LEASE_SESSION_ID_MAX_LEN"
proof (cases x)
  case (Ctl_Run e y)
  then show ?thesis using gate_session [OF assms, of e y "current (ct_hid s)" no_transition] assms
    by (auto simp: control_step_def run_transition_def si_hid_authority_transition_def Let_def split_beta)
qed (use assms in \<open>auto simp: control_step_def si_control_lease_start_def Let_def split_beta\<close>)

lemma control_session_fits:
  "length (cl_session_id (ct_lease (run_ops control_step control_initial xs))) \<le> SI_CONTROL_LEASE_SESSION_ID_MAX_LEN"
proof (induction xs rule: rev_induct)
  case Nil
  then show ?case by (simp add: control_initial_def initial_lease_def SI_CONTROL_LEASE_SESSION_ID_MAX_LEN_def)
qed (simp add: control_step_session)

text \<open>
  A logout is never lost. When a session is revoked in a reachable state, its HID token is gone at
  once, even if the lease's mutex cannot be obtained; and although any number of other requests may
  then time out on the mutex and add revocations of their own, the next maintenance pass that gets
  it leaves the session without the lease.
\<close>

theorem lease_revocation_not_lost:
  fixes ops :: "control_op list" and ts :: "(lease_env \<times> lease_transition_context_t) list" and e0 e1 :: lease_env
    and g :: u32 and sid :: string
  defines "s \<equiv> run_ops control_step control_initial ops"
  defines "s1 \<equiv> snd (si_control_lease_revoke_auth_session e0 e1 (\<lambda>s. s) (Some sid) g s)"
  defines "s2 \<equiv> run_ops control_step s1 (map (\<lambda>(e, x). Ctl_Run e x) ts)"
  assumes "cl_lock (ct_lease s)" "sid \<noteq> []" "length sid \<le> SI_CONTROL_LEASE_SESSION_ID_MAX_LEN" "g \<noteq> 0"
    and "he_locks (le_hid e0) = ESP_OK" "he_locks (le_hid e1) = ESP_OK"
    and "\<forall>(e, x)\<in>set ts. \<not> le_lock e" "le_lock e3" "he_locks (le_hid e3) = ESP_OK"
  shows "\<not> token_of sid g (hs_current (hm_owner_state (ct_hid s2))) \<and>
    \<not> holds_lease sid g (ct_lease (lease_maintenance e3 s2))"
proof
  define s0 where "s0 = s\<lparr>ct_hid := snd (si_hid_owner_revoke_session (le_hid e0) (Some sid) g (ct_hid s))\<rparr>"
  define x where "x = (zero_context LEASE_OP_REVOKE_SESSION)\<lparr>lx_session_id := Some sid, lx_auth_generation := g\<rparr>"
  have i: "idle (ct_hid s)" unfolding s_def by (rule control_reachable)
  have s1: "s1 = snd (snd (snd (run_transition e1 x None s0)))"
    using assms(5) by (simp add: s1_def si_control_lease_revoke_auth_session_def s0_def x_def Let_def split_beta)
  have l0: "cl_lock (ct_lease s0)" "ct_lease s0 = ct_lease s" using assms(4) by (simp_all add: s0_def)
  note h0 = hid_revoke_session_effect [OF i assms(8,5,7)]
  note r = revoke_run [OF l0(1) assms(9,5,6), where g = g, folded x_def, folded s1]
  note t = timeouts_keep [OF assms(10), of s1 sid g, folded s2_def]
  show "\<not> holds_lease sid g (ct_lease (lease_maintenance e3 s2))"
    using maintenance_clears [OF _ assms(11,12), of s2 sid g] r(1,2) t l0(1) by simp
  have "\<not> token_of sid g (current (ct_hid s1))"
    by (rule run_not_token [OF _ _ s1])
       (use h0 r(3,4) control_session_fits [of ops] l0(2) in \<open>auto simp: s0_def s_def\<close>)
  then show "\<not> token_of sid g (current (ct_hid s2))" using t by simp
qed

section \<open>A preempted agent stays out\<close>

definition fresh_touch :: "control_op \<Rightarrow> bool" where
  "fresh_touch x = (case x of
     Ctl_Run _ y \<Rightarrow> lx_operation y \<in> {LEASE_OP_TOUCH_AGENT, LEASE_OP_TOUCH_BOOT} \<and> lx_expected_owner y = None \<and>
       \<not> lx_stale_retry y
   | _ \<Rightarrow> False)"

lemma lease_operation_preempted:
  assumes "cl_embedded_preempted l" "\<not> fresh_touch (Ctl_Run e x)"
  shows "cl_embedded_preempted (snd (snd (lease_operation c a now x l)))"
proof -
  have "cl_embedded_preempted (snd (snd (op_update a now x l)))"
    using assms(1) by (simp add: op_update_def Let_def)
  moreover have "cl_embedded_preempted (snd (snd (op_revoke_session x l)))"
    using assms(1) by (simp add: op_revoke_session_def split: option.split)
  moreover have "cl_embedded_preempted (snd (snd (op_touch c a now x l)))"
    if "lx_expected_owner x \<noteq> None \<or> lx_stale_retry x"
    using assms(1) that by (auto simp: op_touch_def Let_def)
  ultimately show ?thesis using assms
    by (cases "lx_operation x")
       (auto simp: lease_operation_def fresh_touch_def op_release_embedded_def op_abandon_embedded_def drop_lease_def)
qed

lemma gate_preempted:
  assumes "cl_embedded_preempted l" "\<not> fresh_touch (Ctl_Run e x)"
  shows "cl_embedded_preempted (snd (snd (snd (lease_transition_under_hid_gate e x l c tr))))"
proof (cases "cl_lock l \<and> le_lock e \<and> (lx_operation x = LEASE_OP_UPDATE \<longrightarrow> le_live_guard e)")
  case True
  then have "\<exists>b. snd (snd (snd (lease_transition_under_hid_gate e x l c tr))) =
    snd (snd (lease_operation c (active_locked (le_now_ms e) (refreshed (le_now_ms e) l)) (le_now_ms e)
      (x\<lparr>lx_state_changed := b\<rparr>) (refreshed (le_now_ms e) l)))"
    by (intro gate_lease) simp_all
  then obtain b where b: "snd (snd (snd (lease_transition_under_hid_gate e x l c tr))) =
    snd (snd (lease_operation c (active_locked (le_now_ms e) (refreshed (le_now_ms e) l)) (le_now_ms e)
      (x\<lparr>lx_state_changed := b\<rparr>) (refreshed (le_now_ms e) l)))" ..
  have "cl_embedded_preempted (refreshed (le_now_ms e) l)" using refreshed_keeps(2) assms(1) by simp
  moreover have "\<not> fresh_touch (Ctl_Run e (x\<lparr>lx_state_changed := b\<rparr>))" using assms(2) by (simp add: fresh_touch_def)
  ultimately show ?thesis unfolding b by (rule lease_operation_preempted)
next
  case False
  from gate_refused_lease [OF this, of c tr] show ?thesis using assms(1) by auto
qed

lemma run_preempted:
  assumes "cl_embedded_preempted (ct_lease s)" "\<not> fresh_touch (Ctl_Run e x)"
  shows "cl_embedded_preempted (ct_lease (snd (snd (snd (run_transition e x owner s)))))"
  using gate_preempted [OF assms, of "current (ct_hid s)" no_transition] assms(1)
  by (auto simp: run_transition_def si_hid_authority_transition_def Let_def split_beta)

lemma step_preempted:
  assumes "cl_embedded_preempted (ct_lease s)" "\<not> fresh_touch x"
  shows "cl_embedded_preempted (ct_lease (control_step s x))"
proof (cases x)
  case (Ctl_Run e y)
  then show ?thesis using run_preempted [OF assms(1), of e y None] assms(2) by (simp add: control_step_def)
qed (use assms in \<open>auto simp: control_step_def si_control_lease_start_def Let_def split_beta\<close>)

text \<open>Both attempts of a touch with a stale token are refused.\<close>

lemma stale_touch_denied:
  assumes "lx_operation x \<in> {LEASE_OP_TOUCH_AGENT, LEASE_OP_TOUCH_BOOT}"
    and "lx_expected_owner x = Some t \<and> ht_generation t \<noteq> 0 \<and> current (ct_hid s) \<noteq> t \<or>
         lx_stale_retry x \<and> cl_embedded_preempted (ct_lease s)"
  shows "\<not> fst (run_transition e x owner s)" "fst (snd (run_transition e x owner s)) = owner"
    "lx_error (fst (snd (snd (run_transition e x owner s)))) \<noteq> ESP_OK"
    "ct_hid (snd (snd (snd (run_transition e x owner s)))) = ct_hid s"
proof -
  have d: "\<not> fst (op_touch (current (ct_hid s)) a now y l)"
    if "lx_expected_owner y = lx_expected_owner x" "lx_stale_retry y = lx_stale_retry x"
      "cl_embedded_preempted l = cl_embedded_preempted (ct_lease s)" for a now y l
    using assms(2) that
    by (auto simp: op_touch_def si_hid_embedded_touch_decide_def token_equal_iff Let_def)
  have n: "\<not> fst (lease_transition_under_hid_gate e x (ct_lease s) (current (ct_hid s)) no_transition)"
    using assms(1) d refreshed_keeps(2) [of "le_now_ms e" "ct_lease s"]
    by (auto simp: lease_transition_under_hid_gate_def lease_operation_def refreshed_def Let_def split_beta)
  show "\<not> fst (run_transition e x owner s)" "fst (snd (run_transition e x owner s)) = owner"
    "lx_error (fst (snd (snd (run_transition e x owner s)))) \<noteq> ESP_OK"
    "ct_hid (snd (snd (snd (run_transition e x owner s)))) = ct_hid s"
    using n by (simp_all add: run_transition_def si_hid_authority_transition_def Let_def split_beta)
qed

lemma touch_stale:
  assumes P: "cl_embedded_preempted (ct_lease s)" "current (ct_hid s) \<noteq> t" "ht_generation t \<noteq> 0"
    and other: "\<And>n s. cl_embedded_preempted (ct_lease s) \<Longrightarrow> current (ct_hid s) \<noteq> t \<Longrightarrow>
      cl_embedded_preempted (ct_lease (other n s)) \<and> current (ct_hid (other n s)) \<noteq> t"
    and "oper \<in> {LEASE_OP_TOUCH_AGENT, LEASE_OP_TOUCH_BOOT}"
  shows "fst (touch_embedded_owned es other task oper mode reason (Some t) s) \<noteq> ESP_OK \<and>
    fst (snd (touch_embedded_owned es other task oper mode reason (Some t) s)) = Some t"
proof (cases "si_control_lease_mode_valid mode")
  case False
  then show ?thesis by (simp add: touch_embedded_owned_def)
next
  case True
  define x where "x = (zero_context oper)\<lparr>lx_mode := mode, lx_reason := reason, lx_active := True, lx_error := ESP_FAIL,
    lx_expected_owner := Some t\<rparr>"
  have x: "lx_operation x = oper" "lx_expected_owner x = Some t" "\<not> lx_stale_retry x" by (simp_all add: x_def zero_context_def)
  obtain ok gr y s1 where r1: "run_transition (es 0) x (Some zero_token) s = (ok, gr, y, s1)"
    by (cases "run_transition (es 0) x (Some zero_token) s") auto
  have d1: "\<not> ok" "lx_error y \<noteq> ESP_OK" "ct_hid s1 = ct_hid s"
    using stale_touch_denied [of x t s "es 0" "Some zero_token"] x P assms(5) r1 by simp_all
  have "\<not> fresh_touch (Ctl_Run (es 0) x)" using x by (simp add: fresh_touch_def)
  then have p1: "cl_embedded_preempted (ct_lease s1)"
    using run_preempted [OF P(1), of "es 0" x "Some zero_token"] r1 by simp
  define s2 where "s2 = other 2 (other 1 s1)"
  have p2: "cl_embedded_preempted (ct_lease s2)"
    using other [of s1 1] other [of "other 1 s1" 2] p1 P(2) d1(3) by (simp add: s2_def)
  define z where "z = y\<lparr>lx_expected_owner := None, lx_stale_retry := True, lx_error := ESP_FAIL,
    lx_update_result := SI_CONTROL_LEASE_UPDATE_OK, lx_state_changed := False\<rparr>"
  have yo: "lx_operation y = oper"
  proof -
    have "lx_operation (fst (snd (snd (run_transition (es 0) x (Some zero_token) s)))) = lx_operation x"
      by (simp add: run_transition_def si_hid_authority_transition_def lease_transition_under_hid_gate_def lease_operation_def
          op_touch_def op_release_embedded_def op_abandon_embedded_def op_update_def op_revoke_session_def Let_def split_beta
          split: lease_operation_t.split option.split)
    then show ?thesis using r1 x(1) by simp
  qed
  obtain ok2 gr2 y2 s3 where r2: "run_transition (es 2) z gr s2 = (ok2, gr2, y2, s3)"
    by (cases "run_transition (es 2) z gr s2") auto
  have d2: "\<not> ok2" "lx_error y2 \<noteq> ESP_OK"
    using stale_touch_denied [of z t s2 "es 2" gr] p2 yo assms(5) r2 by (simp_all add: z_def)
  show ?thesis
    using True d1 d2 P(3) r1 r2
    by (simp add: touch_embedded_owned_def x_def [symmetric] z_def [symmetric] s2_def [symmetric] Let_def del: One_nat_def)
qed

text \<open>
  A preempted agent does not come back by itself. Let the embedded agent hold the HID token \<open>t\<close> in a
  reachable state and let an operation take it away and mark the agent as preempted, as a forced
  update by another session does. Then after any further sequence of lease and HID operations with
  no fresh request among them, a touch with \<open>t\<close> fails, its second attempt without the token included,
  and the caller's token is left as it was.
\<close>

theorem lease_preempted_agent_stays_out:
  fixes ops xs :: "control_op list" and x :: control_op
  defines "s \<equiv> run_ops control_step control_initial ops"
  defines "s' \<equiv> run_ops control_step (control_step s x) xs"
  assumes "hs_current (hm_owner_state (ct_hid s)) = t" "ht_generation t \<noteq> 0"
    and "hs_current (hm_owner_state (ct_hid (control_step s x))) \<noteq> t" "cl_embedded_preempted (ct_lease (control_step s x))"
    and "\<forall>y\<in>set xs. \<not> fresh_touch y" "length xs < 2 ^ 31 - 2"
    and "\<And>n c. cl_embedded_preempted (ct_lease c) \<Longrightarrow> hs_current (hm_owner_state (ct_hid c)) \<noteq> t \<Longrightarrow>
      cl_embedded_preempted (ct_lease (other n c)) \<and> hs_current (hm_owner_state (ct_hid (other n c))) \<noteq> t"
    and "oper \<in> {LEASE_OP_TOUCH_AGENT, LEASE_OP_TOUCH_BOOT}"
  shows "fst (touch_embedded_owned es other task oper mode reason (Some t) s') \<noteq> ESP_OK \<and>
    fst (snd (touch_embedded_owned es other task oper mode reason (Some t) s')) = Some t"
proof (rule touch_stale [OF _ _ assms(4) assms(9,10)])
  show "current (ct_hid s') \<noteq> t"
    unfolding s'_def by (rule control.never_current_again [OF _ assms(3-5,8)]) (simp add: s_def control_reachable)
  have "cl_embedded_preempted (ct_lease (run_ops control_step c xs))"
    if "cl_embedded_preempted (ct_lease c)" "\<forall>y\<in>set xs. \<not> fresh_touch y" for c xs
    using that by (induction xs arbitrary: c) (simp_all add: step_preempted)
  then show "cl_embedded_preempted (ct_lease s')" unfolding s'_def using assms(6,7) by blast
qed

section \<open>Witnesses\<close>

text \<open>
  The agent takes the lease; an MCP client with login 3 is refused, then takes it by force; the agent
  finds itself locked out; the client logs out while the mutex is busy.
\<close>

definition lease_env_at :: "bool \<Rightarrow> u32 \<Rightarrow> lease_env" where
  "lease_env_at lock now = \<lparr>le_hid = usb_env None, le_lock = lock, le_now_ms = now, le_kvm_view_active = False, le_live_guard = True\<rparr>"

definition agent_touch :: lease_transition_context_t where
  "agent_touch = (zero_context LEASE_OP_TOUCH_AGENT)\<lparr>lx_mode := Some ''supervised'', lx_reason := Some ''agent run'',
     lx_active := True, lx_error := ESP_FAIL\<rparr>"

definition mcp_force :: lease_transition_context_t where
  "mcp_force = (zero_context LEASE_OP_UPDATE)\<lparr>lx_owner := Some ''mcp'', lx_session_id := Some ''s3'',
     lx_mode := Some ''autonomous'', lx_auth_generation := 3, lx_active := True, lx_force := True,
     lx_update_result := SI_CONTROL_LEASE_UPDATE_UNAVAILABLE\<rparr>"

definition lease_run :: "control_op list" where
  "lease_run = [Ctl_Start True True (usb_env None), Ctl_Hid (Mgr_Init ESP_OK ESP_OK True), Ctl_Hid (Mgr_Usb_Event True),
     Ctl_Run (lease_env_at True 100) agent_touch]"

definition agent_token :: si_hid_owner_token_t where
  "agent_token = \<lparr>ht_claim = \<lparr>hc_kind = SI_HID_OWNER_CONTROL_LEASE, hc_session_id = ''embedded-agent'', hc_auth_generation = 0,
     hc_resource_id = 1, hc_authority_epoch = 2\<rparr>, ht_generation = 1\<rparr>"


theorem lease_not_stolen_witness:
  "fst (si_control_lease_update_for_auth_session (lease_env_at True 200) (Some ''mcp'') (Some ''s3'') 3 (Some ''autonomous'') None
     True False (run_ops control_step control_initial lease_run)) = SI_CONTROL_LEASE_UPDATE_HELD_BY_OTHER"
proof -
  let ?s = "run_ops control_step control_initial lease_run"
  have "cl_lock (ct_lease ?s)" "le_lock (lease_env_at True 200)" "he_locks (le_hid (lease_env_at True 200)) = ESP_OK"
    "le_live_guard (lease_env_at True 200)" "active_locked (le_now_ms (lease_env_at True 200)) (snd (pending_revokes_apply_locked (ct_lease ?s)))"
    "si_control_lease_owner_valid (Some ''mcp'')" "si_control_lease_mode_valid (Some ''autonomous'')" "''s3'' \<noteq> []"
    "length ''s3'' \<le> SI_CONTROL_LEASE_SESSION_ID_MAX_LEN"
    "\<not> strcaseeq (cl_owner (snd (pending_revokes_apply_locked (ct_lease ?s)))) ''mcp'' \<or>
     cl_session_id (snd (pending_revokes_apply_locked (ct_lease ?s))) \<noteq> ''s3'' \<or>
     cl_auth_generation (snd (pending_revokes_apply_locked (ct_lease ?s))) \<noteq> 3"
    by code_simp+
  from conjunct1 [OF lease_not_stolen [OF this, where reason = None]] show ?thesis by simp
qed

theorem lease_revocation_not_lost_witness:
  "\<not> holds_lease ''s3'' 3 (ct_lease (lease_maintenance (lease_env_at True 400)
     (run_ops control_step (snd (si_control_lease_revoke_auth_session (lease_env_at True 300) (lease_env_at False 300) (\<lambda>s. s)
        (Some ''s3'') 3 (run_ops control_step control_initial (lease_run @ [Ctl_Run (lease_env_at True 200) mcp_force]))))
       (map (\<lambda>(e, x). Ctl_Run e x) [(lease_env_at False 310, agent_touch)])))) \<and>
   holds_lease ''s3'' 3 (ct_lease (run_ops control_step control_initial (lease_run @ [Ctl_Run (lease_env_at True 200) mcp_force])))"
proof
  let ?ops = "lease_run @ [Ctl_Run (lease_env_at True 200) mcp_force]"
  have "cl_lock (ct_lease (run_ops control_step control_initial ?ops))" by code_simp
  then show "\<not> holds_lease ''s3'' 3 (ct_lease (lease_maintenance (lease_env_at True 400)
     (run_ops control_step (snd (si_control_lease_revoke_auth_session (lease_env_at True 300) (lease_env_at False 300) (\<lambda>s. s)
        (Some ''s3'') 3 (run_ops control_step control_initial ?ops)))
       (map (\<lambda>(e, x). Ctl_Run e x) [(lease_env_at False 310, agent_touch)]))))"
    by (rule conjunct2 [OF lease_revocation_not_lost])
       (simp_all add: lease_env_at_def usb_env_def SI_CONTROL_LEASE_SESSION_ID_MAX_LEN_def)
  show "holds_lease ''s3'' 3 (ct_lease (run_ops control_step control_initial ?ops))" by code_simp
qed

theorem lease_preempted_agent_stays_out_witness:
  "fst (touch_embedded_owned (\<lambda>_. lease_env_at True 500) (\<lambda>_ s. s) (Some 1) LEASE_OP_TOUCH_AGENT (Some ''supervised'') None
     (Some agent_token) (run_ops control_step (control_step (run_ops control_step control_initial lease_run)
       (Ctl_Run (lease_env_at True 200) mcp_force)) [Ctl_Run (lease_env_at True 300) (zero_context LEASE_OP_MAINTAIN)])) \<noteq> ESP_OK"
proof -
  let ?s = "run_ops control_step control_initial lease_run" and ?x = "Ctl_Run (lease_env_at True 200) mcp_force"
  have "hs_current (hm_owner_state (ct_hid ?s)) = agent_token" "ht_generation agent_token \<noteq> 0"
    "hs_current (hm_owner_state (ct_hid (control_step ?s ?x))) \<noteq> agent_token" "cl_embedded_preempted (ct_lease (control_step ?s ?x))"
    by code_simp+
  moreover have "\<forall>y\<in>set [Ctl_Run (lease_env_at True 300) (zero_context LEASE_OP_MAINTAIN)]. \<not> fresh_touch y"
    by (simp add: fresh_touch_def zero_context_def)
  ultimately show ?thesis by (rule conjunct1 [OF lease_preempted_agent_stays_out]) simp_all
qed

end
