(* ===== verification/Video_Control.thy ===== *)
theory Video_Control
  imports Hid_Manager
begin

text \<open>
  The video control of \<^verbatim>\<open>application/video_control.c\<close>: which browser stream is the live KVM view, whether
  an automation observes or has taken over, which capture mode the camera should run in, and the KVM
  side of the HID ownership. As in the control lease, every change that can move the keyboard runs as a
  callback under the HID authority gate.

  The static variables of the module are one record; the seven \<^verbatim>\<open>s_active_*\<close> variables are the request
  they are stored from. What a critical section gets from outside (locks obtained, time, answers of the
  capture driver and of the settings store) is an argument. Functions with several critical sections
  also take what the other tasks do in between.
\<close>

section \<open>Data\<close>

definition SI_VIDEO_CONTROL_KVM_GRACE_MS :: u32 where "SI_VIDEO_CONTROL_KVM_GRACE_MS = 10000"
definition SI_VIDEO_CONTROL_AGENT_GRACE_MS :: u32 where "SI_VIDEO_CONTROL_AGENT_GRACE_MS = 10000"
definition SI_VIDEO_CONTROL_PREVIEW_WIDTH :: u32 where "SI_VIDEO_CONTROL_PREVIEW_WIDTH = 1280"
definition SI_VIDEO_CONTROL_PREVIEW_HEIGHT :: u32 where "SI_VIDEO_CONTROL_PREVIEW_HEIGHT = 720"
definition SI_VIDEO_CONTROL_PREVIEW_FPS_X100 :: u32 where "SI_VIDEO_CONTROL_PREVIEW_FPS_X100 = 100"
definition SI_VIDEO_CONTROL_PREVIEW_STRIDE_MS :: u32 where "SI_VIDEO_CONTROL_PREVIEW_STRIDE_MS = 1000"
definition SI_VIDEO_CONTROL_PREVIEW_FPS_X100_MIN :: u32 where "SI_VIDEO_CONTROL_PREVIEW_FPS_X100_MIN = 100"
definition SI_VIDEO_CONTROL_PREVIEW_FPS_X100_MAX :: u32 where "SI_VIDEO_CONTROL_PREVIEW_FPS_X100_MAX = 1000"
definition SI_VIDEO_CONTROL_WIDTH_MIN :: u32 where "SI_VIDEO_CONTROL_WIDTH_MIN = 160"
definition SI_VIDEO_CONTROL_HEIGHT_MIN :: u32 where "SI_VIDEO_CONTROL_HEIGHT_MIN = 120"
definition SI_VIDEO_CONTROL_WIDTH_MAX :: u32 where "SI_VIDEO_CONTROL_WIDTH_MAX = 3840"
definition SI_VIDEO_CONTROL_HEIGHT_MAX :: u32 where "SI_VIDEO_CONTROL_HEIGHT_MAX = 2160"
definition SI_VIDEO_CONTROL_FPS_X100_MAX :: u32 where "SI_VIDEO_CONTROL_FPS_X100_MAX = 24000"
definition VIDEO_CANCELED_STREAM_SLOTS :: nat where "VIDEO_CANCELED_STREAM_SLOTS = 32"

text \<open>The build configuration, with the values the firmware is shipped with.\<close>

definition SI_CFG_VIDEO_WIDTH :: u32 where "SI_CFG_VIDEO_WIDTH = 1920"
definition SI_CFG_VIDEO_HEIGHT :: u32 where "SI_CFG_VIDEO_HEIGHT = 1080"
definition SI_CFG_VIDEO_FPS :: u32 where "SI_CFG_VIDEO_FPS = 25"

record si_video_control_kvm_reject_t =
  rj_requested :: u32
  rj_previous :: u32
  rj_current :: u32
  rj_claim :: bool
  rj_current_active :: bool

record video_control_request_t =
  rq_enabled :: bool
  rq_exact_fps :: bool
  rq_width :: u32
  rq_height :: u32
  rq_fps_x100 :: u32
  rq_stride_ms :: u32
  rq_owner :: string

record video =
  vc_last_kvm_reject :: si_video_control_kvm_reject_t
  vc_lock :: bool
  vc_apply_lock :: bool
  vc_transport_lock :: bool
  vc_preview_enabled :: bool
  vc_always_on :: bool
  vc_suspended :: bool
  vc_kvm_seen :: bool
  vc_kvm_last_ms :: u32
  vc_kvm_stream_id :: u32
  vc_kvm_owner_epoch :: u32
  vc_kvm_auth_generation :: u32
  vc_kvm_session_id :: string
  vc_kvm_canceled_streams :: "u32 list"
  vc_kvm_canceled_cursor :: u32
  vc_agent_stream_epoch :: u32
  vc_agent_seen :: bool
  vc_agent_last_ms :: u32
  vc_agent_takeover :: bool
  vc_agent_actor :: string
  vc_h264_transport_active :: bool
  vc_settings_loaded :: bool
  vc_kvm_width :: u32
  vc_kvm_height :: u32
  vc_kvm_fps_x100 :: u32
  vc_preview_fps_x100 :: u32
  vc_active :: video_control_request_t

datatype kvm_operation_t =
    KVM_OP_ACQUIRE
  | KVM_OP_RELEASE
  | KVM_OP_WS_CLAIM
  | KVM_OP_AGENT
  | KVM_OP_EXPIRE

record kvm_transition_context_t =
  kx_operation :: kvm_operation_t
  kx_stream_id :: u32
  kx_expected_previous_stream_id :: u32
  kx_session_id :: "string option"
  kx_auth_generation :: u32
  kx_force :: bool
  kx_claim :: bool
  kx_takeover :: bool
  kx_actor :: "string option"
  kx_replace :: bool
  kx_accepted :: bool

record video_env =
  ve_hid :: hid_env
  ve_lock :: bool
  ve_now_ms :: u32
  ve_live_guard :: bool

definition off_request :: video_control_request_t where
  "off_request = \<lparr>rq_enabled = False, rq_exact_fps = False, rq_width = 0, rq_height = 0, rq_fps_x100 = 0,
     rq_stride_ms = 0, rq_owner = ''off''\<rparr>"

definition initial_video :: video where
  "initial_video = \<lparr>vc_last_kvm_reject = \<lparr>rj_requested = 0, rj_previous = 0, rj_current = 0, rj_claim = False,
       rj_current_active = False\<rparr>,
     vc_lock = False, vc_apply_lock = False, vc_transport_lock = False, vc_preview_enabled = False,
     vc_always_on = False, vc_suspended = False, vc_kvm_seen = False, vc_kvm_last_ms = 0, vc_kvm_stream_id = 0,
     vc_kvm_owner_epoch = 1, vc_kvm_auth_generation = 0, vc_kvm_session_id = [],
     vc_kvm_canceled_streams = replicate VIDEO_CANCELED_STREAM_SLOTS 0, vc_kvm_canceled_cursor = 0,
     vc_agent_stream_epoch = 0, vc_agent_seen = False, vc_agent_last_ms = 0, vc_agent_takeover = False,
     vc_agent_actor = ''agent'', vc_h264_transport_active = False, vc_settings_loaded = False,
     vc_kvm_width = SI_CFG_VIDEO_WIDTH, vc_kvm_height = SI_CFG_VIDEO_HEIGHT,
     vc_kvm_fps_x100 = SI_CFG_VIDEO_FPS * 100, vc_preview_fps_x100 = SI_VIDEO_CONTROL_PREVIEW_FPS_X100,
     vc_active = off_request\<rparr>"

definition zero_kvm_context :: "kvm_operation_t \<Rightarrow> kvm_transition_context_t" where
  "zero_kvm_context oper = \<lparr>kx_operation = oper, kx_stream_id = 0, kx_expected_previous_stream_id = 0,
     kx_session_id = None, kx_auth_generation = 0, kx_force = False, kx_claim = False, kx_takeover = False,
     kx_actor = None, kx_replace = False, kx_accepted = False\<rparr>"

section \<open>Streams and automations\<close>

definition stream_was_canceled_locked :: "u32 \<Rightarrow> video \<Rightarrow> bool" where
  "stream_was_canceled_locked stream_id v \<longleftrightarrow> stream_id \<noteq> 0 \<and> stream_id \<in> set (vc_kvm_canceled_streams v)"

definition remember_canceled_stream_locked :: "u32 \<Rightarrow> video \<Rightarrow> video" where
  "remember_canceled_stream_locked stream_id v =
     (if stream_id = 0 \<or> stream_was_canceled_locked stream_id v then v
      else v\<lparr>vc_kvm_canceled_streams :=
               (vc_kvm_canceled_streams v)[unat (vc_kvm_canceled_cursor v) mod VIDEO_CANCELED_STREAM_SLOTS := stream_id],
             vc_kvm_canceled_cursor := vc_kvm_canceled_cursor v + 1\<rparr>)"

definition forget_canceled_stream_locked :: "u32 \<Rightarrow> video \<Rightarrow> video" where
  "forget_canceled_stream_locked stream_id v =
     v\<lparr>vc_kvm_canceled_streams := map (\<lambda>s. if s = stream_id then 0 else s) (vc_kvm_canceled_streams v)\<rparr>"

definition preview_stride_ms :: "u32 \<Rightarrow> u32" where
  "preview_stride_ms fps_x100 = (if fps_x100 > 0 then (100000 + fps_x100 - 1) div fps_x100 else 0)"

definition kvm_active_locked :: "u32 \<Rightarrow> video \<Rightarrow> bool" where
  "kvm_active_locked now_ms v \<longleftrightarrow> vc_kvm_seen v \<and> now_ms - vc_kvm_last_ms v \<le> SI_VIDEO_CONTROL_KVM_GRACE_MS"

definition kvm_remaining_locked :: "u32 \<Rightarrow> video \<Rightarrow> u32" where
  "kvm_remaining_locked now_ms v =
     (if \<not> kvm_active_locked now_ms v then 0 else SI_VIDEO_CONTROL_KVM_GRACE_MS - (now_ms - vc_kvm_last_ms v))"

definition agent_active_locked :: "u32 \<Rightarrow> video \<Rightarrow> bool" where
  "agent_active_locked now_ms v \<longleftrightarrow>
     vc_agent_seen v \<and> now_ms - vc_agent_last_ms v \<le> SI_VIDEO_CONTROL_AGENT_GRACE_MS"

definition agent_remaining_locked :: "u32 \<Rightarrow> video \<Rightarrow> u32" where
  "agent_remaining_locked now_ms v =
     (if \<not> agent_active_locked now_ms v then 0 else SI_VIDEO_CONTROL_AGENT_GRACE_MS - (now_ms - vc_agent_last_ms v))"

definition agent_takeover_active_locked :: "u32 \<Rightarrow> video \<Rightarrow> bool" where
  "agent_takeover_active_locked now_ms v \<longleftrightarrow> vc_agent_takeover v \<and> agent_active_locked now_ms v"

definition automation_actor_name :: "string option \<Rightarrow> string" where
  "automation_actor_name actor = (if actor = Some ''mcp'' then ''mcp'' else ''agent'')"

definition agent_epoch_bump_locked :: "video \<Rightarrow> video" where
  "agent_epoch_bump_locked v =
     v\<lparr>vc_agent_stream_epoch := (if vc_agent_stream_epoch v + 1 = 0 then 1 else vc_agent_stream_epoch v + 1)\<rparr>"

definition kvm_epoch_bump_locked :: "video \<Rightarrow> video" where
  "kvm_epoch_bump_locked v =
     v\<lparr>vc_kvm_owner_epoch := (if vc_kvm_owner_epoch v + 1 = 0 then 1 else vc_kvm_owner_epoch v + 1)\<rparr>"

section \<open>The wanted capture\<close>

definition desired_locked :: "u32 \<Rightarrow> video \<Rightarrow> video_control_request_t" where
  "desired_locked now_ms v =
     (let preview = \<lparr>rq_enabled = True, rq_exact_fps = False, rq_width = SI_VIDEO_CONTROL_PREVIEW_WIDTH,
            rq_height = SI_VIDEO_CONTROL_PREVIEW_HEIGHT, rq_fps_x100 = SI_VIDEO_CONTROL_PREVIEW_FPS_X100,
            rq_stride_ms = SI_VIDEO_CONTROL_PREVIEW_STRIDE_MS, rq_owner = ''agent''\<rparr>
      in if vc_suspended v then off_request
         else if kvm_active_locked now_ms v
         then \<lparr>rq_enabled = True, rq_exact_fps = True, rq_width = vc_kvm_width v, rq_height = vc_kvm_height v,
               rq_fps_x100 = vc_kvm_fps_x100 v, rq_stride_ms = 0, rq_owner = ''kvm''\<rparr>
         else if agent_takeover_active_locked now_ms v then preview
         else if agent_active_locked now_ms v then preview
         else if vc_preview_enabled v
         then preview\<lparr>rq_fps_x100 := vc_preview_fps_x100 v, rq_stride_ms := preview_stride_ms (vc_preview_fps_x100 v),
                      rq_owner := ''preview''\<rparr>
         else if vc_always_on v then preview\<lparr>rq_owner := ''always''\<rparr>
         else off_request)"

definition matches_active_locked :: "video_control_request_t \<Rightarrow> video \<Rightarrow> bool" where
  "matches_active_locked request v =
     (let a = vc_active v in
      if rq_enabled request \<noteq> rq_enabled a then False
      else if \<not> rq_enabled request then rq_owner a = ''off''
      else rq_owner request = rq_owner a \<and> rq_width request = rq_width a \<and> rq_height request = rq_height a \<and>
           rq_fps_x100 request = rq_fps_x100 a \<and> rq_stride_ms request = rq_stride_ms a \<and>
           rq_exact_fps request = rq_exact_fps a)"

definition store_active_locked :: "video_control_request_t \<Rightarrow> video \<Rightarrow> video" where
  "store_active_locked request v =
     v\<lparr>vc_active := request\<lparr>rq_owner := (if rq_enabled request then rq_owner request else ''off'')\<rparr>\<rparr>"

text \<open>
  The environment of a function that talks to the capture driver: \<open>ae_lock n\<close> says whether the
  \<open>n\<close>-th attempt to take the mutex succeeds, \<open>ae_other n\<close> is what other tasks do before it.
\<close>

record apply_env =
  ae_apply_lock :: bool
  ae_lock :: "nat \<Rightarrow> bool"
  ae_other :: "nat \<Rightarrow> video \<Rightarrow> video"
  ae_now_ms :: u32
  ae_validate :: "u32 \<Rightarrow> u32 \<Rightarrow> u32 \<Rightarrow> esp_err_t"
  ae_capture :: "video_control_request_t \<Rightarrow> esp_err_t"

text \<open>The second component of a result is the request handed to the capture driver, if any.\<close>

definition si_video_control_apply :: "apply_env \<Rightarrow> video \<Rightarrow> esp_err_t \<times> video_control_request_t option \<times> video" where
  "si_video_control_apply e v =
     (if \<not> vc_lock v \<or> \<not> vc_apply_lock v then (ESP_ERR_INVALID_STATE, None, v)
      else if \<not> ae_apply_lock e then (ESP_ERR_TIMEOUT, None, v)
      else
        let v = ae_other e 0 v in
        if \<not> ae_lock e 0 then (ESP_ERR_TIMEOUT, None, v)
        else
          let request = desired_locked (ae_now_ms e) v in
          if matches_active_locked request v then (ESP_OK, None, v)
          else
            let ret = ae_capture e request; v = ae_other e 1 v in
            (ret, Some request, if ret = ESP_OK \<and> ae_lock e 1 then store_active_locked request v else v))"

section \<open>Operations under the gate\<close>

definition preserve_hid_owner :: "si_hid_owner_token_t \<Rightarrow> si_hid_owner_transition_t \<Rightarrow> si_hid_owner_transition_t" where
  "preserve_hid_owner current tr =
     (if ht_generation current \<noteq> 0 then tr\<lparr>tr_authorize := True, tr_claim := ht_claim current\<rparr> else tr)"

definition kvm_claim :: "video \<Rightarrow> si_hid_owner_claim_t" where
  "kvm_claim v = \<lparr>hc_kind = SI_HID_OWNER_KVM_STREAM,
     hc_session_id = c_strlcpy (SI_HID_OWNER_SESSION_ID_MAX_LEN + 1) (vc_kvm_session_id v),
     hc_auth_generation = vc_kvm_auth_generation v, hc_resource_id = vc_kvm_stream_id v,
     hc_authority_epoch = vc_kvm_owner_epoch v\<rparr>"

definition set_kvm_hid_claim_locked :: "video \<Rightarrow> si_hid_owner_transition_t \<Rightarrow> si_hid_owner_transition_t" where
  "set_kvm_hid_claim_locked v tr =
     (if \<not> vc_kvm_seen v \<or> vc_kvm_stream_id v = 0 \<or> vc_kvm_session_id v = [] \<or> vc_agent_takeover v then tr
      else tr\<lparr>tr_authorize := True, tr_claim := kvm_claim v\<rparr>)"

text \<open>The session of the context is the one of the stream: the \<open>strcmp\<close> and the generation test.\<close>

definition same_session :: "kvm_transition_context_t \<Rightarrow> video \<Rightarrow> bool" where
  "same_session x v \<longleftrightarrow> kx_session_id x = Some (vc_kvm_session_id v) \<and> vc_kvm_auth_generation v = kx_auth_generation x"

definition op_acquire :: "bool \<Rightarrow> u32 \<Rightarrow> kvm_transition_context_t \<Rightarrow> video \<Rightarrow> kvm_transition_context_t \<times> video" where
  "op_acquire was_kvm_active now_ms x v =
     (let heartbeat = (vc_kvm_stream_id v = kx_stream_id x);
          canceled = stream_was_canceled_locked (kx_stream_id x) v;
          initial = (kx_claim x \<and> vc_kvm_stream_id v = 0 \<and> \<not> canceled);
          compare_exchange = (kx_claim x \<and> kx_expected_previous_stream_id x \<noteq> 0 \<and>
            vc_kvm_stream_id v = kx_expected_previous_stream_id x \<and> \<not> canceled);
          expired = (kx_claim x \<and> \<not> was_kvm_active \<and> \<not> canceled);
          live_heartbeat = (heartbeat \<and> was_kvm_active \<and> same_session x v);
          accepted = (kx_force x \<or> live_heartbeat \<or> initial \<or> compare_exchange \<or> expired);
          x = x\<lparr>kx_accepted := accepted\<rparr>;
          v = (if accepted then v
               else v\<lparr>vc_last_kvm_reject := \<lparr>rj_requested = kx_stream_id x, rj_previous = kx_expected_previous_stream_id x,
                        rj_current = vc_kvm_stream_id v, rj_claim = kx_claim x, rj_current_active = was_kvm_active\<rparr>\<rparr>)
      in if \<not> accepted \<or> c_or_empty (kx_session_id x) = [] then (x, v)
         else
           let v = (if kx_force x then (forget_canceled_stream_locked (kx_stream_id x) v)
                                         \<lparr>vc_agent_seen := False, vc_agent_takeover := False\<rparr> else v);
               identity_changed = (\<not> live_heartbeat \<or> \<not> same_session x v);
               v = (if heartbeat then v
                    else (remember_canceled_stream_locked (vc_kvm_stream_id v) v)\<lparr>vc_kvm_stream_id := kx_stream_id x\<rparr>);
               v = (if identity_changed then agent_epoch_bump_locked (kvm_epoch_bump_locked v) else v)
           in (x, v\<lparr>vc_kvm_seen := True, vc_kvm_last_ms := now_ms, vc_kvm_auth_generation := kx_auth_generation x,
                    vc_kvm_session_id := c_strlcpy (SI_HID_OWNER_SESSION_ID_MAX_LEN + 1) (c_or_empty (kx_session_id x))\<rparr>))"

definition op_release :: "kvm_transition_context_t \<Rightarrow> video \<Rightarrow> kvm_transition_context_t \<times> video" where
  "op_release x v =
     (let accepted = (kx_stream_id x \<noteq> 0 \<and> vc_kvm_stream_id v = kx_stream_id x \<and> same_session x v)
      in (x\<lparr>kx_accepted := accepted\<rparr>,
          if accepted
          then kvm_epoch_bump_locked ((remember_canceled_stream_locked (kx_stream_id x) v)\<lparr>vc_kvm_seen := False,
                 vc_kvm_stream_id := 0, vc_kvm_session_id := [], vc_kvm_auth_generation := 0\<rparr>)
          else v))"

definition op_ws_claim :: "bool \<Rightarrow> u32 \<Rightarrow> kvm_transition_context_t \<Rightarrow> video \<Rightarrow> kvm_transition_context_t \<times> video" where
  "op_ws_claim was_kvm_active now_ms x v =
     (let accepted = (kx_stream_id x \<noteq> 0 \<and> vc_kvm_stream_id v = kx_stream_id x \<and> was_kvm_active \<and>
            \<not> stream_was_canceled_locked (kx_stream_id x) v \<and> \<not> agent_takeover_active_locked now_ms v \<and>
            c_or_empty (kx_session_id x) \<noteq> [] \<and> kx_auth_generation x \<noteq> 0 \<and> same_session x v)
      in (x\<lparr>kx_accepted := accepted\<rparr>,
          if accepted
          then (kvm_epoch_bump_locked v)\<lparr>vc_kvm_auth_generation := kx_auth_generation x,
                 vc_kvm_session_id := c_strlcpy (SI_HID_OWNER_SESSION_ID_MAX_LEN + 1) (c_or_empty (kx_session_id x))\<rparr>
          else v))"

text \<open>The part of \<open>KVM_OP_AGENT\<close> that a mere keep-alive shares with it.\<close>

definition touch_actor :: "u32 \<Rightarrow> string option \<Rightarrow> video \<Rightarrow> video" where
  "touch_actor now_ms actor v =
     (let v = (if \<not> agent_active_locked now_ms v \<or> vc_agent_actor v \<noteq> automation_actor_name actor
               then agent_epoch_bump_locked v else v)
      in v\<lparr>vc_agent_seen := True, vc_agent_last_ms := now_ms, vc_agent_actor := automation_actor_name actor\<rparr>)"

definition op_agent :: "u32 \<Rightarrow> kvm_transition_context_t \<Rightarrow> video \<Rightarrow> kvm_transition_context_t \<times> video" where
  "op_agent now_ms x v =
     (x\<lparr>kx_accepted := True\<rparr>, (touch_actor now_ms (kx_actor x) v)\<lparr>vc_agent_takeover := kx_takeover x\<rparr>)"

definition op_expire :: "bool \<Rightarrow> kvm_transition_context_t \<Rightarrow> video \<Rightarrow> kvm_transition_context_t \<times> video" where
  "op_expire was_kvm_active x v =
     (let accepted = (vc_kvm_seen v \<and> \<not> was_kvm_active)
      in (x\<lparr>kx_accepted := accepted\<rparr>,
          if accepted
          then kvm_epoch_bump_locked (v\<lparr>vc_kvm_seen := False, vc_kvm_session_id := [], vc_kvm_auth_generation := 0\<rparr>)
          else v))"

definition kvm_operation ::
    "bool \<Rightarrow> u32 \<Rightarrow> kvm_transition_context_t \<Rightarrow> video \<Rightarrow> kvm_transition_context_t \<times> video" where
  "kvm_operation was_kvm_active now_ms x v =
     (case kx_operation x of
        KVM_OP_ACQUIRE \<Rightarrow> op_acquire was_kvm_active now_ms x v
      | KVM_OP_RELEASE \<Rightarrow> op_release x v
      | KVM_OP_WS_CLAIM \<Rightarrow> op_ws_claim was_kvm_active now_ms x v
      | KVM_OP_AGENT \<Rightarrow> op_agent now_ms x v
      | KVM_OP_EXPIRE \<Rightarrow> op_expire was_kvm_active x v)"

text \<open>The owner wanted after an accepted operation; \<open>replace\<close> is also set by an accepted claim.\<close>

definition kvm_desired_owner ::
    "u32 \<Rightarrow> kvm_transition_context_t \<Rightarrow> video \<Rightarrow> si_hid_owner_token_t \<Rightarrow> si_hid_owner_transition_t \<Rightarrow> si_hid_owner_transition_t" where
  "kvm_desired_owner now_ms x v current tr =
     (let automated_input_owner = (hc_kind (ht_claim current) = SI_HID_OWNER_CONTROL_LEASE);
          wants_kvm = (kvm_active_locked now_ms v \<and> \<not> agent_takeover_active_locked now_ms v \<and>
                       \<not> automated_input_owner \<and> vc_kvm_session_id v \<noteq> []);
          tr = (if wants_kvm then set_kvm_hid_claim_locked v tr
                else if hc_kind (ht_claim current) \<noteq> SI_HID_OWNER_KVM_STREAM then preserve_hid_owner current tr
                else tr)
      in if kx_replace x then tr\<lparr>tr_replace := True\<rparr> else tr)"

definition kvm_transition_under_hid_gate ::
    "video_env \<Rightarrow> kvm_transition_context_t \<Rightarrow> video \<Rightarrow> si_hid_owner_token_t \<Rightarrow> si_hid_owner_transition_t \<Rightarrow>
     bool \<times> si_hid_owner_transition_t \<times> kvm_transition_context_t \<times> video" where
  "kvm_transition_under_hid_gate e x v current tr =
     (if \<not> ve_live_guard e \<or> \<not> vc_lock v \<or> \<not> ve_lock e then (False, tr, x, v)
      else
        let now_ms = ve_now_ms e;
            was_kvm_active = kvm_active_locked now_ms v;
            v = (if vc_agent_takeover v \<and> \<not> agent_active_locked now_ms v then v\<lparr>vc_agent_takeover := False\<rparr> else v);
            (x, v) = kvm_operation was_kvm_active now_ms x v;
            tr = (if kx_operation x = KVM_OP_WS_CLAIM \<and> kx_accepted x then tr\<lparr>tr_replace := True\<rparr> else tr)
        in if \<not> kx_accepted x then (False, tr, x, v)
           else if kx_operation x = KVM_OP_AGENT \<and> \<not> kx_takeover x then (True, preserve_hid_owner current tr, x, v)
           else (True, kvm_desired_owner now_ms x v current tr, x, v))"

section \<open>Entry points of the KVM view\<close>

text \<open>The video control together with the HID manager.\<close>

record kvm =
  kv_video :: video
  kv_hid :: hid_mgr

definition run_kvm_transition ::
    "video_env \<Rightarrow> kvm_transition_context_t \<Rightarrow> si_hid_owner_token_t option \<Rightarrow> kvm \<Rightarrow>
     bool \<times> si_hid_owner_token_t option \<times> kvm_transition_context_t \<times> kvm" where
  "run_kvm_transition e x owner s =
     (case si_hid_authority_transition (ve_hid e) (kvm_transition_under_hid_gate e x (kv_video s)) (x, kv_video s)
             owner (kv_hid s) of
        (ok, owner', m, x', v) \<Rightarrow> (ok, owner', x', \<lparr>kv_video = v, kv_hid = m\<rparr>))"

definition si_video_control_last_kvm_reject :: "video \<Rightarrow> si_video_control_kvm_reject_t" where
  "si_video_control_last_kvm_reject v = vc_last_kvm_reject v"

definition si_video_control_acquire_kvm_stream_for_session ::
    "video_env \<Rightarrow> u32 \<Rightarrow> bool \<Rightarrow> bool \<Rightarrow> u32 \<Rightarrow> string option \<Rightarrow> u32 \<Rightarrow> kvm \<Rightarrow> bool \<times> kvm" where
  "si_video_control_acquire_kvm_stream_for_session e stream_id force claim expected_previous_stream_id session_id
       auth_generation s =
     (if stream_id = 0 \<or> c_or_empty session_id = [] \<or> auth_generation = 0 then (False, s)
      else (case run_kvm_transition e ((zero_kvm_context KVM_OP_ACQUIRE)\<lparr>kx_stream_id := stream_id,
                   kx_expected_previous_stream_id := expected_previous_stream_id, kx_session_id := session_id,
                   kx_auth_generation := auth_generation, kx_force := force, kx_claim := claim\<rparr>) None s of
              (_, _, x, s') \<Rightarrow> (kx_accepted x, s')))"

definition ws_claim_context :: "u32 \<Rightarrow> string option \<Rightarrow> u32 \<Rightarrow> kvm_transition_context_t" where
  "ws_claim_context stream_id session_id auth_generation =
     (zero_kvm_context KVM_OP_WS_CLAIM)\<lparr>kx_stream_id := stream_id, kx_session_id := session_id,
       kx_auth_generation := auth_generation, kx_replace := True\<rparr>"

definition si_video_control_claim_kvm_hid_owner ::
    "video_env \<Rightarrow> u32 \<Rightarrow> string option \<Rightarrow> u32 \<Rightarrow> si_hid_owner_token_t option \<Rightarrow> kvm \<Rightarrow>
     bool \<times> si_hid_owner_token_t option \<times> kvm" where
  "si_video_control_claim_kvm_hid_owner e stream_id session_id auth_generation owner s =
     (case run_kvm_transition e (ws_claim_context stream_id session_id auth_generation) owner s of
        (ok, owner', x, s') \<Rightarrow> (ok \<and> kx_accepted x, owner', s'))"

definition si_video_control_kvm_hid_owner_is_current ::
    "video_env \<Rightarrow> u32 \<Rightarrow> u32 \<Rightarrow> string option \<Rightarrow> u32 \<Rightarrow> video \<Rightarrow> bool" where
  "si_video_control_kvm_hid_owner_is_current e stream_id owner_epoch session_id auth_generation v \<longleftrightarrow>
     vc_lock v \<and> stream_id \<noteq> 0 \<and> owner_epoch \<noteq> 0 \<and> c_or_empty session_id \<noteq> [] \<and> ve_lock e \<and>
     vc_kvm_seen v \<and> kvm_active_locked (ve_now_ms e) v \<and> \<not> agent_takeover_active_locked (ve_now_ms e) v \<and>
     vc_kvm_stream_id v = stream_id \<and> vc_kvm_owner_epoch v = owner_epoch \<and>
     vc_kvm_auth_generation v = auth_generation \<and> Some (vc_kvm_session_id v) = session_id \<and>
     \<not> stream_was_canceled_locked stream_id v"

definition si_video_control_release_kvm_stream_for_session ::
    "video_env \<Rightarrow> u32 \<Rightarrow> string option \<Rightarrow> u32 \<Rightarrow> kvm \<Rightarrow> bool \<times> kvm" where
  "si_video_control_release_kvm_stream_for_session e stream_id session_id auth_generation s =
     (if stream_id = 0 \<or> c_or_empty session_id = [] \<or> auth_generation = 0 then (False, s)
      else (case run_kvm_transition e ((zero_kvm_context KVM_OP_RELEASE)\<lparr>kx_stream_id := stream_id,
                   kx_session_id := session_id, kx_auth_generation := auth_generation\<rparr>) None s of
              (ok, _, x, s') \<Rightarrow> (ok \<and> kx_accepted x, s')))"

definition si_video_control_kvm_stream_is_current :: "video_env \<Rightarrow> u32 \<Rightarrow> video \<Rightarrow> bool" where
  "si_video_control_kvm_stream_is_current e stream_id v \<longleftrightarrow>
     stream_id = 0 \<or>
     (vc_lock v \<and> ve_lock e \<and> vc_kvm_stream_id v = stream_id \<and> \<not> stream_was_canceled_locked stream_id v \<and>
      kvm_active_locked (ve_now_ms e) v)"

definition si_video_control_kvm_stream_can_control :: "video_env \<Rightarrow> u32 \<Rightarrow> video \<Rightarrow> bool" where
  "si_video_control_kvm_stream_can_control e stream_id v \<longleftrightarrow>
     vc_lock v \<and> ve_lock e \<and>
     (stream_id = 0 \<or> (vc_kvm_stream_id v = stream_id \<and> \<not> stream_was_canceled_locked stream_id v \<and>
        kvm_active_locked (ve_now_ms e) v)) \<and>
     \<not> agent_takeover_active_locked (ve_now_ms e) v"

definition si_video_control_agent_stream_epoch :: "video_env \<Rightarrow> video \<Rightarrow> u32" where
  "si_video_control_agent_stream_epoch e v = (if \<not> vc_lock v \<or> \<not> ve_lock e then 0 else vc_agent_stream_epoch v)"

definition si_video_control_touch_automation :: "video_env \<Rightarrow> string option \<Rightarrow> bool \<Rightarrow> kvm \<Rightarrow> kvm" where
  "si_video_control_touch_automation e actor takeover s =
     snd (snd (snd (run_kvm_transition e
       ((zero_kvm_context KVM_OP_AGENT)\<lparr>kx_takeover := takeover, kx_actor := actor\<rparr>) None s)))"

definition si_video_control_keep_automation_alive :: "video_env \<Rightarrow> string option \<Rightarrow> video \<Rightarrow> video" where
  "si_video_control_keep_automation_alive e actor v =
     (if vc_lock v \<and> ve_lock e then touch_actor (ve_now_ms e) actor v else v)"

definition si_video_control_touch_agent :: "video_env \<Rightarrow> bool \<Rightarrow> kvm \<Rightarrow> kvm" where
  "si_video_control_touch_agent e takeover s = si_video_control_touch_automation e (Some ''agent'') takeover s"

definition si_video_control_keep_agent_alive :: "video_env \<Rightarrow> video \<Rightarrow> video" where
  "si_video_control_keep_agent_alive e v = si_video_control_keep_automation_alive e (Some ''agent'') v"

definition si_video_control_release_agent :: "video_env \<Rightarrow> video \<Rightarrow> video" where
  "si_video_control_release_agent e v =
     (if vc_lock v \<and> ve_lock e
      then (if vc_agent_seen v \<or> vc_agent_takeover v then agent_epoch_bump_locked v else v)
             \<lparr>vc_agent_seen := False, vc_agent_takeover := False, vc_agent_actor := ''agent''\<rparr>
      else v)"

section \<open>Capture mode and settings\<close>

definition si_video_control_set_kvm_mode :: "video_env \<Rightarrow> u32 \<Rightarrow> u32 \<Rightarrow> u32 \<Rightarrow> video \<Rightarrow> bool \<times> video" where
  "si_video_control_set_kvm_mode e width height fps_x100 v =
     (if \<not> vc_lock v \<or> \<not> ve_lock e then (False, v)
      else
        let fps = (if fps_x100 > 0 then fps_x100 else vc_kvm_fps_x100 v);
            v = v\<lparr>vc_kvm_width := width, vc_kvm_height := height,
                  vc_kvm_fps_x100 := (if fps = 0 then SI_CFG_VIDEO_FPS * 100 else fps)\<rparr>
        in (kvm_active_locked (ve_now_ms e) v, v))"

definition si_video_control_mode_valid :: "u32 \<Rightarrow> u32 \<Rightarrow> u32 \<Rightarrow> bool" where
  "si_video_control_mode_valid width height fps_x100 \<longleftrightarrow>
     SI_VIDEO_CONTROL_WIDTH_MIN \<le> width \<and> width \<le> SI_VIDEO_CONTROL_WIDTH_MAX \<and>
     SI_VIDEO_CONTROL_HEIGHT_MIN \<le> height \<and> height \<le> SI_VIDEO_CONTROL_HEIGHT_MAX \<and>
     fps_x100 > 0 \<and> fps_x100 \<le> SI_VIDEO_CONTROL_FPS_X100_MAX"

text \<open>
  The capture mode of the KVM view is changed and rolled back when the driver refuses it. The result
  is the error, the flag for the caller, the request handed to the driver and the state.
\<close>

definition si_video_control_change_kvm_mode ::
    "apply_env \<Rightarrow> u32 \<Rightarrow> u32 \<Rightarrow> u32 \<Rightarrow> video \<Rightarrow> esp_err_t \<times> bool \<times> video_control_request_t option \<times> video" where
  "si_video_control_change_kvm_mode e width height fps_x100 v =
     (if \<not> vc_lock v \<or> \<not> vc_apply_lock v then (ESP_ERR_INVALID_STATE, False, None, v)
      else if \<not> ae_apply_lock e then (ESP_ERR_TIMEOUT, False, None, v)
      else
        let v = ae_other e 0 v in
        if \<not> ae_lock e 0 then (ESP_ERR_TIMEOUT, False, None, v)
        else
          let previous_width = vc_kvm_width v; previous_height = vc_kvm_height v;
              previous_fps_x100 = vc_kvm_fps_x100 v;
              requested_fps_x100 = (if fps_x100 > 0 then fps_x100 else previous_fps_x100)
          in if \<not> si_video_control_mode_valid width height requested_fps_x100
             then (ESP_ERR_INVALID_ARG, False, None, v)
             else
               let ret = ae_validate e width height requested_fps_x100 in
               if ret \<noteq> ESP_OK then (ret, False, None, v)
               else
                 let v = ae_other e 1 v in
                 if \<not> ae_lock e 1 then (ESP_ERR_TIMEOUT, False, None, v)
                 else
                   let v = v\<lparr>vc_kvm_width := width, vc_kvm_height := height, vc_kvm_fps_x100 := requested_fps_x100\<rparr>;
                       request = desired_locked (ae_now_ms e) v;
                       apply_to_kvm = (rq_enabled request \<and> rq_owner request = ''kvm'');
                       ret = (if apply_to_kvm then ae_capture e request else ESP_OK);
                       v = ae_other e 2 v;
                       v = (if ret = ESP_OK \<and> apply_to_kvm \<and> ae_lock e 2 then store_active_locked request v else v);
                       issued = (if apply_to_kvm then Some request else None)
                   in if ret \<noteq> ESP_OK
                      then (ret, False, issued, v\<lparr>vc_kvm_width := previous_width, vc_kvm_height := previous_height,
                                                vc_kvm_fps_x100 := previous_fps_x100\<rparr>)
                      else (ret, apply_to_kvm, issued, v))"

definition si_video_control_get_kvm_mode :: "video_env \<Rightarrow> video \<Rightarrow> esp_err_t + (u32 \<times> u32 \<times> u32)" where
  "si_video_control_get_kvm_mode e v =
     (if \<not> vc_lock v then Inl ESP_ERR_INVALID_STATE
      else if \<not> ve_lock e then Inl ESP_ERR_TIMEOUT
      else Inr (vc_kvm_width v, vc_kvm_height v, vc_kvm_fps_x100 v))"

text \<open>
  The settings store is asked to open a namespace, to set keys and to commit; the argument says what
  it answers. The result is the error and the keys that were set before a failure.
\<close>

record settings_write =
  sw_open :: esp_err_t
  sw_set :: "string \<Rightarrow> esp_err_t"
  sw_commit :: esp_err_t

fun set_keys_in_order :: "settings_write \<Rightarrow> (string \<times> u32) list \<Rightarrow> esp_err_t \<times> (string \<times> u32) list" where
  "set_keys_in_order w [] = (sw_commit w, [])"
| "set_keys_in_order w ((k, x) # kxs) =
     (if sw_set w k \<noteq> ESP_OK then (sw_set w k, [])
      else let (ret, done) = set_keys_in_order w kxs in (ret, (k, x) # done))"

definition write_settings :: "settings_write \<Rightarrow> (string \<times> u32) list \<Rightarrow> esp_err_t \<times> (string \<times> u32) list" where
  "write_settings w kxs = (if sw_open w \<noteq> ESP_OK then (sw_open w, []) else set_keys_in_order w kxs)"

definition si_video_control_save_kvm_mode ::
    "settings_write \<Rightarrow> u32 \<Rightarrow> u32 \<Rightarrow> u32 \<Rightarrow> esp_err_t \<times> (string \<times> u32) list" where
  "si_video_control_save_kvm_mode w width height fps_x100 =
     (if \<not> si_video_control_mode_valid width height fps_x100 then (ESP_ERR_INVALID_ARG, [])
      else write_settings w [(''kvm_width'', width), (''kvm_height'', height), (''kvm_fps_x100'', fps_x100)])"

definition si_video_control_save_quality :: "settings_write \<Rightarrow> u32 \<Rightarrow> esp_err_t \<times> (string \<times> u32) list" where
  "si_video_control_save_quality w quality =
     (if quality < 1 \<or> quality > 100 then (ESP_ERR_INVALID_ARG, []) else write_settings w [(''quality'', quality)])"

definition si_video_control_preview_fps_valid :: "u32 \<Rightarrow> bool" where
  "si_video_control_preview_fps_valid fps_x100 \<longleftrightarrow>
     SI_VIDEO_CONTROL_PREVIEW_FPS_X100_MIN \<le> fps_x100 \<and> fps_x100 \<le> SI_VIDEO_CONTROL_PREVIEW_FPS_X100_MAX \<and>
     fps_x100 mod 100 = 0"

definition si_video_control_save_runtime_settings ::
    "settings_write \<Rightarrow> bool \<Rightarrow> u32 \<Rightarrow> esp_err_t \<times> (string \<times> u32) list" where
  "si_video_control_save_runtime_settings w always_on preview_fps_x100 =
     (if \<not> si_video_control_preview_fps_valid preview_fps_x100 then (ESP_ERR_INVALID_ARG, [])
      else write_settings w [(''always_on'', if always_on then 1 else 0), (''preview_fps100'', preview_fps_x100)])"

definition si_video_control_set_always_on :: "video_env \<Rightarrow> bool \<Rightarrow> video \<Rightarrow> esp_err_t \<times> video" where
  "si_video_control_set_always_on e enabled v =
     (if \<not> vc_lock v then (ESP_ERR_INVALID_STATE, v)
      else if \<not> ve_lock e then (ESP_ERR_TIMEOUT, v) else (ESP_OK, v\<lparr>vc_always_on := enabled\<rparr>))"

definition si_video_control_set_preview_fps :: "video_env \<Rightarrow> u32 \<Rightarrow> video \<Rightarrow> esp_err_t \<times> video" where
  "si_video_control_set_preview_fps e fps_x100 v =
     (if \<not> si_video_control_preview_fps_valid fps_x100 then (ESP_ERR_INVALID_ARG, v)
      else if \<not> vc_lock v then (ESP_ERR_INVALID_STATE, v)
      else if \<not> ve_lock e then (ESP_ERR_TIMEOUT, v) else (ESP_OK, v\<lparr>vc_preview_fps_x100 := fps_x100\<rparr>))"

text \<open>
  Loading at start: the store answers None when the namespace cannot be opened, and per key None when
  the value is missing. The result is also the quality passed to the capture driver, if any. The
  environments are those of the three setters.
\<close>

record settings_read =
  sr_u32 :: "string \<Rightarrow> u32 option"
  sr_u8 :: "string \<Rightarrow> u8 option"

definition saved_kvm_mode :: "settings_read option \<Rightarrow> u32 \<times> u32 \<times> u32" where
  "saved_kvm_mode store =
     (let defaults = (SI_CFG_VIDEO_WIDTH, SI_CFG_VIDEO_HEIGHT, SI_CFG_VIDEO_FPS * 100)
      in case store of None \<Rightarrow> defaults
         | Some r \<Rightarrow>
             (case (sr_u32 r ''kvm_width'', sr_u32 r ''kvm_height'') of
                (Some w, Some h) \<Rightarrow>
                  let f = (case sr_u32 r ''kvm_fps_x100'' of None \<Rightarrow> SI_CFG_VIDEO_FPS * 100 | Some f \<Rightarrow> f)
                  in if si_video_control_mode_valid w h f then (w, h, f) else defaults
              | _ \<Rightarrow> defaults))"

definition saved_quality :: "settings_read option \<Rightarrow> u32 option" where
  "saved_quality store =
     (case store of None \<Rightarrow> None
      | Some r \<Rightarrow> (case sr_u32 r ''quality'' of None \<Rightarrow> None | Some q \<Rightarrow> if 1 \<le> q \<and> q \<le> 100 then Some q else None))"

definition saved_always_on :: "settings_read option \<Rightarrow> bool" where
  "saved_always_on store =
     (case store of None \<Rightarrow> False | Some r \<Rightarrow> (case sr_u8 r ''always_on'' of None \<Rightarrow> False | Some x \<Rightarrow> x \<noteq> 0))"

definition saved_preview_fps :: "settings_read option \<Rightarrow> u32" where
  "saved_preview_fps store =
     (case store of None \<Rightarrow> SI_VIDEO_CONTROL_PREVIEW_FPS_X100
      | Some r \<Rightarrow> (case sr_u32 r ''preview_fps100'' of None \<Rightarrow> SI_VIDEO_CONTROL_PREVIEW_FPS_X100
                  | Some f \<Rightarrow> if si_video_control_preview_fps_valid f then f else SI_VIDEO_CONTROL_PREVIEW_FPS_X100))"

definition load_settings ::
    "settings_read option \<Rightarrow> video_env \<Rightarrow> video_env \<Rightarrow> video_env \<Rightarrow> video \<Rightarrow> u32 option \<times> video" where
  "load_settings store e1 e2 e3 v =
     (if vc_settings_loaded v then (None, v)
      else
        let (width, height, fps_x100) = saved_kvm_mode store;
            v = snd (si_video_control_set_kvm_mode e1 width height fps_x100 v);
            v = snd (si_video_control_set_always_on e2 (saved_always_on store) v);
            v = snd (si_video_control_set_preview_fps e3 (saved_preview_fps store) v)
        in (saved_quality store, v\<lparr>vc_settings_loaded := True\<rparr>))"

definition si_video_control_set_preview :: "video_env \<Rightarrow> bool \<Rightarrow> video \<Rightarrow> esp_err_t \<times> video" where
  "si_video_control_set_preview e enabled v =
     (if \<not> vc_lock v then (ESP_ERR_INVALID_STATE, v)
      else if \<not> ve_lock e then (ESP_ERR_TIMEOUT, v) else (ESP_OK, v\<lparr>vc_preview_enabled := enabled\<rparr>))"

definition si_video_control_set_suspended ::
    "video_env \<Rightarrow> apply_env \<Rightarrow> bool \<Rightarrow> video \<Rightarrow> esp_err_t \<times> video_control_request_t option \<times> video" where
  "si_video_control_set_suspended e a suspended v =
     (if \<not> vc_lock v then (ESP_ERR_INVALID_STATE, None, v)
      else if \<not> ve_lock e then (ESP_ERR_TIMEOUT, None, v)
      else si_video_control_apply a (v\<lparr>vc_suspended := suspended\<rparr>))"

definition si_video_control_set_h264_transport ::
    "bool \<Rightarrow> bool \<Rightarrow> bool \<Rightarrow> (video \<Rightarrow> video) \<Rightarrow> (bool \<Rightarrow> esp_err_t) \<Rightarrow> bool \<Rightarrow> video \<Rightarrow> esp_err_t \<times> video" where
  "si_video_control_set_h264_transport transport_lock lock1 lock2 other driver active v =
     (if \<not> vc_lock v \<or> \<not> vc_transport_lock v then (ESP_ERR_INVALID_STATE, v)
      else if \<not> transport_lock then (ESP_ERR_TIMEOUT, v)
      else if \<not> lock1 then (ESP_ERR_TIMEOUT, v)
      else
        let previous = vc_h264_transport_active v; changed = (previous \<noteq> active);
            v = other (v\<lparr>vc_h264_transport_active := active\<rparr>); ret = driver active
        in if ret \<noteq> ESP_OK
           then (ret, if changed \<and> lock2 then v\<lparr>vc_h264_transport_active := previous\<rparr> else v)
           else (ESP_OK, v))"

record si_video_control_status_t =
  vs_preview_enabled :: bool
  vs_always_on :: bool
  vs_suspended :: bool
  vs_kvm_active :: bool
  vs_agent_active :: bool
  vs_agent_takeover :: bool
  vs_kvm_remaining_ms :: u32
  vs_agent_remaining_ms :: u32
  vs_kvm_width :: u32
  vs_kvm_height :: u32
  vs_kvm_fps_x100 :: u32
  vs_preview_fps_x100 :: u32
  vs_preview_stride_ms :: u32
  vs_active_enabled :: bool
  vs_active_width :: u32
  vs_active_height :: u32
  vs_active_fps_x100 :: u32
  vs_active_stride_ms :: u32
  vs_active_owner :: string
  vs_agent_actor :: string

definition si_video_control_get_status :: "video_env \<Rightarrow> video \<Rightarrow> si_video_control_status_t" where
  "si_video_control_get_status e v =
     (if \<not> vc_lock v \<or> \<not> ve_lock e
      then \<lparr>vs_preview_enabled = False, vs_always_on = False, vs_suspended = False, vs_kvm_active = False,
            vs_agent_active = False, vs_agent_takeover = False, vs_kvm_remaining_ms = 0, vs_agent_remaining_ms = 0,
            vs_kvm_width = 0, vs_kvm_height = 0, vs_kvm_fps_x100 = 0, vs_preview_fps_x100 = 0, vs_preview_stride_ms = 0,
            vs_active_enabled = False, vs_active_width = 0, vs_active_height = 0, vs_active_fps_x100 = 0,
            vs_active_stride_ms = 0, vs_active_owner = ''off'', vs_agent_actor = ''agent''\<rparr>
      else
        let now_ms = ve_now_ms e; a = vc_active v in
        \<lparr>vs_preview_enabled = vc_preview_enabled v, vs_always_on = vc_always_on v, vs_suspended = vc_suspended v,
         vs_kvm_active = kvm_active_locked now_ms v, vs_agent_active = agent_active_locked now_ms v,
         vs_agent_takeover = agent_takeover_active_locked now_ms v,
         vs_kvm_remaining_ms = kvm_remaining_locked now_ms v, vs_agent_remaining_ms = agent_remaining_locked now_ms v,
         vs_kvm_width = vc_kvm_width v, vs_kvm_height = vc_kvm_height v, vs_kvm_fps_x100 = vc_kvm_fps_x100 v,
         vs_preview_fps_x100 = vc_preview_fps_x100 v, vs_preview_stride_ms = preview_stride_ms (vc_preview_fps_x100 v),
         vs_active_enabled = rq_enabled a, vs_active_width = rq_width a, vs_active_height = rq_height a,
         vs_active_fps_x100 = rq_fps_x100 a, vs_active_stride_ms = rq_stride_ms a, vs_active_owner = rq_owner a,
         vs_agent_actor = vc_agent_actor v\<rparr>)"

text \<open>One round of each of the two tasks.\<close>

definition control_task :: "apply_env \<Rightarrow> video \<Rightarrow> video" where
  "control_task e v = snd (snd (si_video_control_apply e v))"

definition hid_authority_task :: "video_env \<Rightarrow> kvm \<Rightarrow> kvm" where
  "hid_authority_task e s = snd (snd (snd (run_kvm_transition e (zero_kvm_context KVM_OP_EXPIRE) None s)))"

text \<open>
  What start gets from outside: whether each mutex and task is created, the two calls of apply, the
  store. A failure after the mutexes exist leaves them in place.
\<close>

record start_env =
  se_mutexes :: "bool \<times> bool \<times> bool"
  se_store_off :: bool
  se_control_task :: bool
  se_authority_task :: bool
  se_apply1 :: apply_env
  se_store :: "settings_read option"
  se_setters :: "video_env \<times> video_env \<times> video_env"
  se_apply2 :: apply_env

definition si_video_control_start :: "start_env \<Rightarrow> video \<Rightarrow> esp_err_t \<times> video" where
  "si_video_control_start s v =
     (if vc_lock v then (ESP_OK, v)
      else
        let (m1, m2, m3) = se_mutexes s in
        if \<not> m1 \<or> \<not> m2 \<or> \<not> m3 then (ESP_ERR_NO_MEM, v)
        else
          let v = v\<lparr>vc_lock := True, vc_apply_lock := True, vc_transport_lock := True\<rparr>;
              v = (if se_store_off s then store_active_locked off_request v else v)
          in if \<not> se_control_task s then (ESP_ERR_NO_MEM, v)
             else if \<not> se_authority_task s then (ESP_ERR_NO_MEM, v)
             else
               let (ret, _, v) = si_video_control_apply (se_apply1 s) v in
               if ret \<noteq> ESP_OK then (ret, v)
               else
                 let (e1, e2, e3) = se_setters s;
                     (_, v) = load_settings (se_store s) e1 e2 e3 v;
                     (ret, _, v) = si_video_control_apply (se_apply2 s) v
                 in (ret, v))"

end
