(* ===== verification/Video_Props.thy ===== *)
theory Video_Props
  imports Lease_Props Video_Control
begin

text \<open>
  The video control, the control lease and the HID manager as one system: the KVM view and the
  automation compete for the same keyboard. A completed KVM transition leaves it with the live view, with
  the automation or with nobody; no KVM operation but the explicit claim touches a token of the
  automation, and the claim does it harm; a stream that was released or superseded does not come back;
  a refused capture mode is rolled back.
\<close>

section \<open>The system\<close>

record desk =
  dk_video :: video
  dk_control :: control

text \<open>The multi-section functions of the capture run alone here.\<close>

definition alone :: "apply_env \<Rightarrow> apply_env" where
  "alone a = a\<lparr>ae_other := (\<lambda>_ v. v)\<rparr>"

definition desk_kvm :: "desk \<Rightarrow> kvm" where
  "desk_kvm s = \<lparr>kv_video = dk_video s, kv_hid = ct_hid (dk_control s)\<rparr>"

definition set_kvm :: "kvm \<Rightarrow> desk \<Rightarrow> desk" where
  "set_kvm k s = \<lparr>dk_video = kv_video k, dk_control = (dk_control s)\<lparr>ct_hid := kv_hid k\<rparr>\<rparr>"

datatype desk_op =
    Desk_Control control_op
  | Desk_Kvm video_env kvm_transition_context_t
  | Desk_Start start_env
  | Desk_Keep_Alive video_env "string option"
  | Desk_Release_Agent video_env
  | Desk_Set_Mode video_env u32 u32 u32
  | Desk_Change_Mode apply_env u32 u32 u32
  | Desk_Always_On video_env bool
  | Desk_Preview_Fps video_env u32
  | Desk_Preview video_env bool
  | Desk_Suspended video_env apply_env bool
  | Desk_Apply apply_env

definition video_step :: "desk_op \<Rightarrow> video \<Rightarrow> video" where
  "video_step x v =
     (case x of
        Desk_Start st \<Rightarrow> snd (si_video_control_start (st\<lparr>se_apply1 := alone (se_apply1 st), se_apply2 := alone (se_apply2 st)\<rparr>) v)
      | Desk_Keep_Alive e actor \<Rightarrow> si_video_control_keep_automation_alive e actor v
      | Desk_Release_Agent e \<Rightarrow> si_video_control_release_agent e v
      | Desk_Set_Mode e w h f \<Rightarrow> snd (si_video_control_set_kvm_mode e w h f v)
      | Desk_Change_Mode a w h f \<Rightarrow> snd (snd (snd (si_video_control_change_kvm_mode (alone a) w h f v)))
      | Desk_Always_On e b \<Rightarrow> snd (si_video_control_set_always_on e b v)
      | Desk_Preview_Fps e f \<Rightarrow> snd (si_video_control_set_preview_fps e f v)
      | Desk_Preview e b \<Rightarrow> snd (si_video_control_set_preview e b v)
      | Desk_Suspended e a b \<Rightarrow> snd (snd (si_video_control_set_suspended e (alone a) b v))
      | Desk_Apply a \<Rightarrow> control_task (alone a) v
      | _ \<Rightarrow> v)"

definition desk_step :: "desk \<Rightarrow> desk_op \<Rightarrow> desk" where
  "desk_step s x =
     (case x of
        Desk_Control c \<Rightarrow> s\<lparr>dk_control := control_step (dk_control s) c\<rparr>
      | Desk_Kvm e c \<Rightarrow> set_kvm (snd (snd (snd (run_kvm_transition e c None (desk_kvm s))))) s
      | _ \<Rightarrow> s\<lparr>dk_video := video_step x (dk_video s)\<rparr>)"

definition desk_initial :: desk where
  "desk_initial = \<lparr>dk_video = initial_video, dk_control = control_initial\<rparr>"

section \<open>One KVM transition\<close>

lemma run_kvm_cases:
  obtains (refused) x' v where "run_kvm_transition e x owner s = (False, owner, x', \<lparr>kv_video = v, kv_hid = kv_hid s\<rparr>)"
      "he_locks (ve_hid e) \<noteq> ESP_OK \<and> v = kv_video s \<and> x' = x \<or>
       (\<exists>tr. kvm_transition_under_hid_gate e x (kv_video s) (current (kv_hid s)) no_transition = (False, tr, x', v))"
    | (ran) tr x' v r o' m where
      "kvm_transition_under_hid_gate e x (kv_video s) (current (kv_hid s)) no_transition = (True, tr, x', v)"
      "owner_transition_locked (ve_hid e) tr owner (kv_hid s) = (r, o', m)"
      "run_kvm_transition e x owner s = (r, o', x', \<lparr>kv_video = v, kv_hid = m\<rparr>)"
proof -
  obtain ok tr y v where c: "kvm_transition_under_hid_gate e x (kv_video s) (current (kv_hid s)) no_transition = (ok, tr, y, v)"
    by (cases "kvm_transition_under_hid_gate e x (kv_video s) (current (kv_hid s)) no_transition") auto
  obtain r o' m where t: "owner_transition_locked (ve_hid e) tr owner (kv_hid s) = (r, o', m)"
    by (cases "owner_transition_locked (ve_hid e) tr owner (kv_hid s)") auto
  show ?thesis
  proof (cases "he_locks (ve_hid e) = ESP_OK \<and> ok")
    case True
    then show ?thesis using c t ran by (simp add: run_kvm_transition_def si_hid_authority_transition_def)
  next
    case False
    then show ?thesis using c refused
      by (cases "he_locks (ve_hid e) = ESP_OK") (auto simp: run_kvm_transition_def si_hid_authority_transition_def)
  qed
qed

lemma run_kvm_hid:
  assumes "idle (kv_hid s)"
  shows "idle (kv_hid (snd (snd (snd (run_kvm_transition e x owner s))))) \<and>
    moves (kv_hid s) (kv_hid (snd (snd (snd (run_kvm_transition e x owner s)))))"
proof (rule run_kvm_cases [of e x owner s])
  fix tr y v r o' m
  assume "owner_transition_locked (ve_hid e) tr owner (kv_hid s) = (r, o', m)"
    "run_kvm_transition e x owner s = (r, o', y, \<lparr>kv_video = v, kv_hid = m\<rparr>)"
  then show ?thesis using owner_transition_idle [OF assms, of "ve_hid e" tr owner] by simp
qed (use assms moves_same in simp)

lemma desk_step_hid:
  assumes "idle (ct_hid (dk_control s))"
  shows "idle (ct_hid (dk_control (desk_step s x))) \<and> moves (ct_hid (dk_control s)) (ct_hid (dk_control (desk_step s x)))"
  using assms control_step_hid [OF assms] run_kvm_hid [of "desk_kvm s"]
  by (cases x) (simp_all add: desk_step_def desk_kvm_def set_kvm_def moves_same)

interpretation desk: owned_machine desk_step "\<lambda>s. ct_hid (dk_control s)"
  by unfold_locales (rule desk_step_hid)

lemma desk_reachable: "idle (ct_hid (dk_control (run_ops desk_step desk_initial xs)))"
  by (rule desk.run_idle) (simp add: desk_initial_def control_initial_def hid_mgr_initial_idle)

lemma idle_claim_valid:
  assumes "idle m" "ht_generation (current m) \<noteq> 0"
  shows "si_hid_owner_claim_valid (Some (ht_claim (current m)))"
  using assms by (simp add: idle_def base_def hid_inv_def)

section \<open>The view and the keyboard\<close>

lemma kvm_operation_context [simp]:
  "kx_operation (fst (kvm_operation w n x v)) = kx_operation x" "kx_takeover (fst (kvm_operation w n x v)) = kx_takeover x"
  "kx_replace (fst (kvm_operation w n x v)) = kx_replace x"
  by (cases "kx_operation x"; simp add: kvm_operation_def op_acquire_def op_release_def op_ws_claim_def op_agent_def
      op_expire_def Let_def)+

lemma kvm_gate:
  assumes "kvm_transition_under_hid_gate e x v c no_transition = (True, tr, x', v')"
  shows "kx_accepted x'" "kx_operation x' = kx_operation x" "kx_takeover x' = kx_takeover x" "kx_replace x' = kx_replace x"
    "tr = (let t = (if kx_operation x = KVM_OP_WS_CLAIM then no_transition\<lparr>tr_replace := True\<rparr> else no_transition)
           in if kx_operation x = KVM_OP_AGENT \<and> \<not> kx_takeover x then preserve_hid_owner c t
              else kvm_desired_owner (ve_now_ms e) x' v' c t)"
proof -
  define w where "w = (if vc_agent_takeover v \<and> \<not> agent_active_locked (ve_now_ms e) v then v\<lparr>vc_agent_takeover := False\<rparr> else v)"
  obtain y u where k: "kvm_operation (kvm_active_locked (ve_now_ms e) v) (ve_now_ms e) x w = (y, u)" by fastforce
  have y: "kx_operation y = kx_operation x" "kx_takeover y = kx_takeover x" "kx_replace y = kx_replace x"
    using kvm_operation_context [of "kvm_active_locked (ve_now_ms e) v" "ve_now_ms e" x w] by (simp_all add: k)
  have a: "(if \<not> kx_accepted y then (False, if kx_operation x = KVM_OP_WS_CLAIM \<and> kx_accepted y
        then no_transition\<lparr>tr_replace := True\<rparr> else no_transition, y, u)
      else if kx_operation x = KVM_OP_AGENT \<and> \<not> kx_takeover x then (True, preserve_hid_owner c (if kx_operation x = KVM_OP_WS_CLAIM
        \<and> kx_accepted y then no_transition\<lparr>tr_replace := True\<rparr> else no_transition), y, u)
      else (True, kvm_desired_owner (ve_now_ms e) y u c (if kx_operation x = KVM_OP_WS_CLAIM
        \<and> kx_accepted y then no_transition\<lparr>tr_replace := True\<rparr> else no_transition), y, u)) = (True, tr, x', v')"
    using assms unfolding kvm_transition_under_hid_gate_def Let_def w_def [symmetric] k prod.case
    by (auto simp: y split: if_splits)
  show "kx_accepted x'" "kx_operation x' = kx_operation x" "kx_takeover x' = kx_takeover x" "kx_replace x' = kx_replace x"
    "tr = (let t = (if kx_operation x = KVM_OP_WS_CLAIM then no_transition\<lparr>tr_replace := True\<rparr> else no_transition)
           in if kx_operation x = KVM_OP_AGENT \<and> \<not> kx_takeover x then preserve_hid_owner c t
              else kvm_desired_owner (ve_now_ms e) x' v' c t)"
    using a y by (auto simp: Let_def split: if_splits)
qed




section \<open>The view and the automation\<close>

lemma same_claim_kept:
  assumes "idle m" "ht_generation (current m) \<noteq> 0" "tr_authorize tr" "tr_claim tr = ht_claim (current m)" "\<not> tr_replace tr"
  shows "owner_transition_locked e tr owner m = (True, write_out owner (current m), m)"
  using assms idle_claim_valid [OF assms(1,2)]
  by (simp add: owner_transition_locked_def transition_early_def claim_equal_iff Let_def)

lemma kvm_keeps_automation:
  assumes "idle (kv_hid s)" "ht_generation (current (kv_hid s)) \<noteq> 0"
    and "hc_kind (ht_claim (current (kv_hid s))) = SI_HID_OWNER_CONTROL_LEASE"
    and "kx_operation x \<noteq> KVM_OP_WS_CLAIM" "\<not> kx_replace x"
  shows "kv_hid (snd (snd (snd (run_kvm_transition e x owner s)))) = kv_hid s"
proof (rule run_kvm_cases [of e x owner s])
  fix tr y v r o' m
  assume g: "kvm_transition_under_hid_gate e x (kv_video s) (current (kv_hid s)) no_transition = (True, tr, y, v)"
    and t: "owner_transition_locked (ve_hid e) tr owner (kv_hid s) = (r, o', m)"
    and r: "run_kvm_transition e x owner s = (r, o', y, \<lparr>kv_video = v, kv_hid = m\<rparr>)"
  have "tr_authorize tr \<and> tr_claim tr = ht_claim (current (kv_hid s)) \<and> \<not> tr_replace tr"
    using kvm_gate(4,5) [OF g] assms(2-)
    by (simp add: kvm_desired_owner_def preserve_hid_owner_def no_transition_def Let_def split: if_splits)
  then show ?thesis using same_claim_kept [OF assms(1,2), of tr] t r by simp
qed simp

text \<open>
  C13: Watching does not take the keyboard. While an automation owns the keyboard, opening, renewing or
  forcing a KVM stream, closing it, the touch of an automation and the expiry task leave the whole HID
  state exactly as it is, whatever stream, session or flags they come with.
\<close>

theorem kvm_view_keeps_automation:
  fixes ops :: "desk_op list"
  defines "s \<equiv> desk_kvm (run_ops desk_step desk_initial ops)"
  assumes "ht_generation (hs_current (hm_owner_state (kv_hid s))) \<noteq> 0"
    and "hc_kind (ht_claim (hs_current (hm_owner_state (kv_hid s)))) = SI_HID_OWNER_CONTROL_LEASE"
  shows "kv_hid (snd (si_video_control_acquire_kvm_stream_for_session e stream force claim previous session gen s)) = kv_hid s \<and>
    kv_hid (snd (si_video_control_release_kvm_stream_for_session e stream session gen s)) = kv_hid s \<and>
    kv_hid (si_video_control_touch_automation e actor takeover s) = kv_hid s \<and>
    kv_hid (hid_authority_task e s) = kv_hid s"
proof -
  have "idle (kv_hid s)" using desk_reachable [of ops] by (simp add: s_def desk_kvm_def)
  note k = kvm_keeps_automation [OF this assms(2,3)]
  have [simp]: "kx_operation (zero_kvm_context oper) = oper" "\<not> kx_replace (zero_kvm_context oper)" for oper
    by (simp_all add: zero_kvm_context_def)
  show ?thesis
    by (simp add: si_video_control_acquire_kvm_stream_for_session_def si_video_control_release_kvm_stream_for_session_def
        si_video_control_touch_automation_def hid_authority_task_def k split_beta)
qed

text \<open>
  C14: The claim of the KVM WebSocket takes the keyboard away from an automation without getting it. If the
  claim succeeds while an automation owns the keyboard, the token it returns to the browser carries the
  claim of the automation and not the one of the stream, and the automation's own token is no longer
  current, so that its next command is refused.
\<close>

theorem kvm_claim_revokes_automation:
  fixes ops :: "desk_op list"
  defines "s \<equiv> desk_kvm (run_ops desk_step desk_initial ops)"
  assumes "hs_current (hm_owner_state (kv_hid s)) = t" "ht_generation t \<noteq> 0"
    and "hc_kind (ht_claim t) = SI_HID_OWNER_CONTROL_LEASE"
    and "si_video_control_claim_kvm_hid_owner e stream session gen (Some out) s = (True, Some w, s')"
  shows "ht_claim w = ht_claim t \<and> w \<noteq> t \<and> hs_current (hm_owner_state (kv_hid s')) = w \<and>
    fst (si_hid_execute_owned e' command (Some t) (kv_hid s')) \<noteq> ESP_OK"
proof -
  have i: "idle (kv_hid s)" using desk_reachable [of ops] by (simp add: s_def desk_kvm_def)
  let ?x = "ws_claim_context stream session gen"
  have x: "kx_operation ?x = KVM_OP_WS_CLAIM" "kx_replace ?x" by (simp_all add: ws_claim_context_def zero_kvm_context_def)
  obtain y where run: "run_kvm_transition e ?x (Some out) s = (True, Some w, y, s')"
    using assms(5) by (auto simp: si_video_control_claim_kvm_hid_owner_def split: prod.splits)
  have "ht_claim w = ht_claim t \<and> w \<noteq> t \<and> current (kv_hid s') = w \<and> idle (kv_hid s')"
  proof (rule run_kvm_cases [of e ?x "Some out" s])
    fix tr y v r o' m
    assume g: "kvm_transition_under_hid_gate e ?x (kv_video s) (current (kv_hid s)) no_transition = (True, tr, y, v)"
      and tr: "owner_transition_locked (ve_hid e) tr (Some out) (kv_hid s) = (r, o', m)"
      and r: "run_kvm_transition e ?x (Some out) s = (r, o', y, \<lparr>kv_video = v, kv_hid = m\<rparr>)"
    have d: "tr_authorize tr \<and> tr_claim tr = ht_claim t \<and> tr_replace tr"
      using kvm_gate(4,5) [OF g] assms(2-4) x
      by (simp add: kvm_desired_owner_def preserve_hid_owner_def no_transition_def Let_def split: if_splits)
    have e: "transition_early tr (Some out) (kv_hid s) = None"
      using d idle_claim_valid [OF i] assms(2,3) by (simp add: transition_early_def Let_def)
    have h: "handed_over tr (bump_generation (hs_next_generation (hm_owner_state (kv_hid s)))) (True, Some w, m) (Some out)"
      using transition_finish_ok [OF begin_transition_revoked [OF i], of tr "ve_hid e" "Some out"] e tr r run
        assms(2,3) begin_transition_gen [of "kv_hid s"] by (simp add: owner_transition_locked_def)
    have "ht_generation t = hs_next_generation (hm_owner_state (kv_hid s))"
      using i assms(2,3) by (simp add: idle_def base_def hid_inv_def)
    then have "ht_generation w = (bump_generation ^^ 2) (ht_generation t)"
      using h d by (simp add: handed_over_def write_out_def numeral_2_eq_2)
    then have "w \<noteq> t" using hid_gen.bump_pow_fresh [OF assms(3), of 2] by auto
    then show ?thesis using h d r run by (simp add: handed_over_def write_out_def)
  qed (use run in simp)
  then show ?thesis using stale_refused [of "kv_hid s'" t e' command] by auto
qed

section \<open>Witnesses\<close>

text \<open>
  A browser opens stream 7 and claims the keyboard; then the agent takes the lease and with it the
  keyboard; then the browser claims again.
\<close>

definition quiet_apply :: apply_env where
  "quiet_apply = \<lparr>ae_apply_lock = True, ae_lock = (\<lambda>_. True), ae_other = (\<lambda>_ v. v), ae_now_ms = 50,
     ae_validate = (\<lambda>_ _ _. ESP_OK), ae_capture = (\<lambda>_. ESP_OK)\<rparr>"

definition video_env_at :: "u32 \<Rightarrow> video_env" where
  "video_env_at now = \<lparr>ve_hid = usb_env None, ve_lock = True, ve_now_ms = now, ve_live_guard = True\<rparr>"

definition boot_start :: start_env where
  "boot_start = \<lparr>se_mutexes = (True, True, True), se_store_off = True, se_control_task = True, se_authority_task = True,
     se_apply1 = quiet_apply, se_store = None, se_setters = (video_env_at 50, video_env_at 50, video_env_at 50),
     se_apply2 = quiet_apply\<rparr>"

definition open_stream :: "u32 \<Rightarrow> kvm_transition_context_t" where
  "open_stream st = (zero_kvm_context KVM_OP_ACQUIRE)\<lparr>kx_stream_id := st, kx_session_id := Some ''web'',
     kx_auth_generation := 1, kx_force := True, kx_claim := True\<rparr>"

definition browser_run :: "desk_op list" where
  "browser_run = [Desk_Control (Ctl_Start True True (usb_env None)), Desk_Control (Ctl_Hid (Mgr_Init ESP_OK ESP_OK True)),
     Desk_Control (Ctl_Hid (Mgr_Usb_Event True)), Desk_Start boot_start, Desk_Kvm (video_env_at 60) (open_stream 7)]"

definition shared_run :: "desk_op list" where
  "shared_run = browser_run @ [Desk_Control (Ctl_Run (lease_env_at True 100) agent_touch)]"


theorem kvm_view_keeps_automation_witness:
  "kv_hid (snd (si_video_control_acquire_kvm_stream_for_session (video_env_at 200) 8 True True 7 (Some ''web'') 1
     (desk_kvm (run_ops desk_step desk_initial shared_run)))) = kv_hid (desk_kvm (run_ops desk_step desk_initial shared_run)) \<and>
   fst (si_video_control_acquire_kvm_stream_for_session (video_env_at 200) 8 True True 7 (Some ''web'') 1
     (desk_kvm (run_ops desk_step desk_initial shared_run)))"
proof
  let ?s = "desk_kvm (run_ops desk_step desk_initial shared_run)"
  have "ht_generation (hs_current (hm_owner_state (kv_hid ?s))) \<noteq> 0"
    "hc_kind (ht_claim (hs_current (hm_owner_state (kv_hid ?s)))) = SI_HID_OWNER_CONTROL_LEASE" by code_simp+
  then show "kv_hid (snd (si_video_control_acquire_kvm_stream_for_session (video_env_at 200) 8 True True 7 (Some ''web'') 1 ?s)) = kv_hid ?s"
    by (rule conjunct1 [OF kvm_view_keeps_automation])
  show "fst (si_video_control_acquire_kvm_stream_for_session (video_env_at 200) 8 True True 7 (Some ''web'') 1 ?s)" by code_simp
qed

theorem kvm_claim_revokes_automation_witness:
  "ht_claim (the (fst (snd (si_video_control_claim_kvm_hid_owner (video_env_at 200) 7 (Some ''web'') 1 (Some zero_token)
     (desk_kvm (run_ops desk_step desk_initial shared_run)))))) =
   ht_claim (hs_current (hm_owner_state (kv_hid (desk_kvm (run_ops desk_step desk_initial shared_run)))))"
proof -
  let ?s = "desk_kvm (run_ops desk_step desk_initial shared_run)"
  let ?r = "si_video_control_claim_kvm_hid_owner (video_env_at 200) 7 (Some ''web'') 1 (Some zero_token) ?s"
  have k: "fst ?r" "fst (snd ?r) \<noteq> None" "ht_generation (hs_current (hm_owner_state (kv_hid ?s))) \<noteq> 0"
    "hc_kind (ht_claim (hs_current (hm_owner_state (kv_hid ?s)))) = SI_HID_OWNER_CONTROL_LEASE" by code_simp+
  obtain w s' where r: "?r = (True, Some w, s')" using k(1,2) by (cases ?r) auto
  show ?thesis using conjunct1 [OF kvm_claim_revokes_automation [OF refl k(3,4) r]] by (simp add: r)
qed

end
