(* ===== verification/Video_Streams.thy ===== *)
theory Video_Streams
  imports Video_Props
begin

text \<open>
  The identity of the KVM view over time: a stream that was released or superseded does not come back
  while it is remembered, and it is remembered for the next 31 cancellations. Then the capture mode: a
  refused change is rolled back, an apply that succeeds leaves the wanted capture, and what is saved is
  what the next start loads.
\<close>

section \<open>The ring of cancelled streams\<close>

definition streams_ok :: "video \<Rightarrow> bool" where
  "streams_ok v \<longleftrightarrow> length (vc_kvm_canceled_streams v) = VIDEO_CANCELED_STREAM_SLOTS \<and>
     (vc_kvm_stream_id v \<noteq> 0 \<longrightarrow> vc_kvm_stream_id v \<notin> set (vc_kvm_canceled_streams v))"

text \<open>A stream is out, and \<open>d\<close> more cancellations will not make the ring forget it.\<close>

definition stays_out :: "u32 \<Rightarrow> nat \<Rightarrow> video \<Rightarrow> bool" where
  "stays_out sid d v \<longleftrightarrow> sid \<noteq> 0 \<and> vc_kvm_stream_id v \<noteq> sid \<and>
     length (vc_kvm_canceled_streams v) = VIDEO_CANCELED_STREAM_SLOTS \<and> d < VIDEO_CANCELED_STREAM_SLOTS \<and>
     vc_kvm_canceled_streams v ! ((unat (vc_kvm_canceled_cursor v) + d) mod VIDEO_CANCELED_STREAM_SLOTS) = sid"

lemma slots [simp]: "VIDEO_CANCELED_STREAM_SLOTS = 32" by (simp add: VIDEO_CANCELED_STREAM_SLOTS_def)

lemma unat_succ_slot: "unat (c + 1 :: u32) mod 32 = (unat c + 1) mod 32"
proof -
  have "unat (c + 1) = (unat c + 1) mod 2 ^ 32" using unat_word_ariths(1) [of c 1] by simp
  then show ?thesis by (simp add: mod_mod_cancel)
qed

lemma unat_succ_slot_add: "(unat (c + 1 :: u32) + d) mod 32 = (unat c + Suc d) mod 32"
  by (metis unat_succ_slot add_Suc_shift mod_add_left_eq Suc_eq_plus1)

lemma stays_out_canceled: "stays_out sid d v \<Longrightarrow> stream_was_canceled_locked sid v"
  unfolding stays_out_def stream_was_canceled_locked_def by (metis nth_mem mod_less_divisor slots zero_less_numeral)

lemma remember_same [simp]:
  "vc_kvm_stream_id (remember_canceled_stream_locked st v) = vc_kvm_stream_id v"
  "length (vc_kvm_canceled_streams (remember_canceled_stream_locked st v)) = length (vc_kvm_canceled_streams v)"
  by (simp_all add: remember_canceled_stream_locked_def)

lemma other_slot: "0 < d \<Longrightarrow> d < 32 \<Longrightarrow> (n + d) mod 32 \<noteq> n mod (32 :: nat)"
  using mod_eq_dvd_iff_nat [of n "n + d" 32] by (auto dest: dvd_imp_le)

lemma remember_stays_out:
  assumes "stays_out sid d v"
  shows "vc_kvm_canceled_cursor (remember_canceled_stream_locked st v) = vc_kvm_canceled_cursor v \<and>
      stays_out sid d (remember_canceled_stream_locked st v) \<or>
    vc_kvm_canceled_cursor (remember_canceled_stream_locked st v) \<noteq> vc_kvm_canceled_cursor v \<and>
      (0 < d \<longrightarrow> stays_out sid (d - 1) (remember_canceled_stream_locked st v))"
proof (cases "st = 0 \<or> stream_was_canceled_locked st v")
  case True
  then show ?thesis using assms by (simp add: remember_canceled_stream_locked_def)
next
  case False
  have "stays_out sid (d - 1) (remember_canceled_stream_locked st v)" if d: "0 < d"
  proof -
    have "(unat (vc_kvm_canceled_cursor v + 1) + (d - 1)) mod 32 = (unat (vc_kvm_canceled_cursor v) + d) mod 32"
      using unat_succ_slot_add [of "vc_kvm_canceled_cursor v" "d - 1"] d by simp
    moreover have "unat (vc_kvm_canceled_cursor v) mod 32 \<noteq> (unat (vc_kvm_canceled_cursor v) + d) mod 32"
      using other_slot [OF d, of "unat (vc_kvm_canceled_cursor v)"] assms by (simp add: stays_out_def)
    moreover have "d - 1 < 32" using assms by (auto simp: stays_out_def)
    ultimately show ?thesis
      using False assms by (simp add: stays_out_def remember_canceled_stream_locked_def)
  qed
  then show ?thesis using False by (simp add: remember_canceled_stream_locked_def)
qed

lemma remember_leaves:
  assumes "streams_ok v" "vc_kvm_stream_id v = sid" "sid \<noteq> 0" "st \<noteq> sid"
  shows "stays_out sid 31 ((remember_canceled_stream_locked sid v)\<lparr>vc_kvm_stream_id := st\<rparr>)"
proof -
  have "(unat (vc_kvm_canceled_cursor v + 1) + 31) mod 32 = unat (vc_kvm_canceled_cursor v) mod 32"
    using unat_succ_slot_add [of "vc_kvm_canceled_cursor v" 31] by simp
  then show ?thesis using assms
    by (simp add: streams_ok_def stays_out_def remember_canceled_stream_locked_def stream_was_canceled_locked_def)
qed

lemma remember_streams_ok:
  assumes "streams_ok v" "st = 0 \<or> st \<notin> set (vc_kvm_canceled_streams v) \<and> st \<noteq> vc_kvm_stream_id v"
  shows "streams_ok ((remember_canceled_stream_locked (vc_kvm_stream_id v) v)\<lparr>vc_kvm_stream_id := st\<rparr>)"
  using assms set_update_subset_insert [of "vc_kvm_canceled_streams v"]
  by (auto simp: streams_ok_def remember_canceled_stream_locked_def)

lemma forget_streams:
  "streams_ok v \<Longrightarrow> streams_ok (forget_canceled_stream_locked st v)"
  "st \<noteq> sid \<Longrightarrow> stays_out sid d v \<Longrightarrow> stays_out sid d (forget_canceled_stream_locked st v)"
  "st \<noteq> 0 \<Longrightarrow> st \<notin> set (vc_kvm_canceled_streams (forget_canceled_stream_locked st v))"
  by (auto simp: streams_ok_def stays_out_def forget_canceled_stream_locked_def)

lemma forget_same [simp]:
  "vc_kvm_stream_id (forget_canceled_stream_locked st v) = vc_kvm_stream_id v"
  "vc_kvm_canceled_cursor (forget_canceled_stream_locked st v) = vc_kvm_canceled_cursor v"
  by (simp_all add: forget_canceled_stream_locked_def)

section \<open>Operations\<close>

text \<open>Only these three variables matter here.\<close>

definition same_streams :: "video \<Rightarrow> video \<Rightarrow> bool" where
  "same_streams v v' \<longleftrightarrow> vc_kvm_stream_id v' = vc_kvm_stream_id v \<and>
     vc_kvm_canceled_streams v' = vc_kvm_canceled_streams v \<and> vc_kvm_canceled_cursor v' = vc_kvm_canceled_cursor v"

lemma same_streams_cong:
  assumes "same_streams v v'"
  shows "streams_ok v' = streams_ok v" "stays_out sid d v' = stays_out sid d v"
    "stream_was_canceled_locked sid v' = stream_was_canceled_locked sid v"
  using assms by (simp_all add: same_streams_def streams_ok_def stays_out_def stream_was_canceled_locked_def)

text \<open>What an operation may do to the streams: nothing, or replace the stream by another.\<close>

definition replaces :: "u32 option \<Rightarrow> video \<Rightarrow> video \<Rightarrow> bool" where
  "replaces forced v v' \<longleftrightarrow> same_streams v v' \<or>
     (\<exists>u st. (u = v \<or> forced = Some st \<and> u = forget_canceled_stream_locked st v) \<and>
       (same_streams u v' \<and> st = vc_kvm_stream_id v \<or>
        st \<noteq> vc_kvm_stream_id v \<and> \<not> stream_was_canceled_locked st u \<and>
        same_streams ((remember_canceled_stream_locked (vc_kvm_stream_id v) u)\<lparr>vc_kvm_stream_id := st\<rparr>) v'))"

lemma replaces_cases:
  assumes "replaces f v v'"
  obtains (same) "same_streams v v'"
    | (forgot) "f = Some (vc_kvm_stream_id v)" "same_streams (forget_canceled_stream_locked (vc_kvm_stream_id v) v) v'"
    | (new) u st where "u = v \<or> f = Some st \<and> u = forget_canceled_stream_locked st v"
        "st \<noteq> vc_kvm_stream_id v" "\<not> stream_was_canceled_locked st u"
        "same_streams ((remember_canceled_stream_locked (vc_kvm_stream_id v) u)\<lparr>vc_kvm_stream_id := st\<rparr>) v'"
  using assms unfolding replaces_def by blast

lemma replaces_same: "same_streams v v' \<Longrightarrow> replaces f v v'" by (simp add: replaces_def)

lemma replaces_forgot:
  assumes "f = Some (vc_kvm_stream_id v)" "same_streams (forget_canceled_stream_locked (vc_kvm_stream_id v) v) v'"
  shows "replaces f v v'"
  unfolding replaces_def
  by (intro disjI2 exI [of _ "forget_canceled_stream_locked (vc_kvm_stream_id v) v"] exI [of _ "vc_kvm_stream_id v"]) (simp add: assms)

lemma replaces_new:
  assumes "u = v \<or> f = Some st \<and> u = forget_canceled_stream_locked st v"
    and "st \<noteq> vc_kvm_stream_id v" "\<not> stream_was_canceled_locked st u"
    and "same_streams ((remember_canceled_stream_locked (vc_kvm_stream_id v) u)\<lparr>vc_kvm_stream_id := st\<rparr>) v'"
  shows "replaces f v v'"
  unfolding replaces_def by (rule disjI2, rule exI [of _ u], rule exI [of _ st]) (rule conjI [OF assms(1)], use assms(2-) in simp)

lemma replaces_ok:
  assumes "replaces f v v'" "streams_ok v"
  shows "streams_ok v'"
  using assms(1)
proof (cases rule: replaces_cases)
  case (new u st)
  note st = new(2,3) and v' = new(4)
  note u = new(1)
  have "streams_ok u" "vc_kvm_stream_id u = vc_kvm_stream_id v" using u assms(2) forget_streams(1) by auto
  then show ?thesis using remember_streams_ok [of u st] st same_streams_cong(1) [OF v']
    by (auto simp: stream_was_canceled_locked_def)
qed (use assms(2) forget_streams(1) in \<open>auto simp: same_streams_cong(1)\<close>)

lemma replaces_leaves:
  assumes "replaces f v v'" "streams_ok v" "vc_kvm_stream_id v = sid" "sid \<noteq> 0" "vc_kvm_stream_id v' \<noteq> sid"
  shows "stays_out sid 31 v'"
  using assms(1)
proof (cases rule: replaces_cases)
  case (new u st)
  note st = new(2,3) and v' = new(4)
  note u = new(1)
  have "streams_ok u" "vc_kvm_stream_id u = sid" using u assms(2,3) forget_streams(1) by auto
  then show ?thesis using remember_leaves [of u sid st] st assms(3,4) same_streams_cong(2) [OF v'] by simp
qed (use assms(3,5) in \<open>auto simp: same_streams_def\<close>)

lemma replaces_stays_out:
  assumes "replaces f v v'" "stays_out sid d v" "f \<noteq> Some sid"
  shows "vc_kvm_canceled_cursor v' = vc_kvm_canceled_cursor v \<and> stays_out sid d v' \<or>
    vc_kvm_canceled_cursor v' \<noteq> vc_kvm_canceled_cursor v \<and> (0 < d \<longrightarrow> stays_out sid (d - 1) v')"
  using assms(1)
proof (cases rule: replaces_cases)
  case same
  then show ?thesis using assms(2) same_streams_cong(2) [OF same] by (simp add: same_streams_def)
next
  case forgot
  then show ?thesis using assms(2,3) forget_streams(2) [of "vc_kvm_stream_id v" sid d v] same_streams_cong(2) [OF forgot(2)]
    by (simp add: same_streams_def)
next
  case (new u st)
  let ?r = "remember_canceled_stream_locked (vc_kvm_stream_id v) u"
  have o: "stays_out sid d u" "vc_kvm_canceled_cursor u = vc_kvm_canceled_cursor v"
    using new(1) assms(2,3) forget_streams(2) by auto
  have "st \<noteq> sid" using new(3) stays_out_canceled [OF o(1)] by auto
  then have k: "stays_out sid k v'" if "stays_out sid k ?r" for k
    using that unfolding same_streams_cong(2) [OF new(4)] by (simp add: stays_out_def)
  have c: "vc_kvm_canceled_cursor v' = vc_kvm_canceled_cursor ?r" using new(4) by (simp add: same_streams_def)
  show ?thesis unfolding c o(2) [symmetric]
    using remember_stays_out [OF o(1), of "vc_kvm_stream_id v"] k by blast
qed

text \<open>The stream a context forces.\<close>

definition forced_stream :: "kvm_transition_context_t \<Rightarrow> u32 option" where
  "forced_stream x = (if kx_operation x = KVM_OP_ACQUIRE \<and> kx_force x then Some (kx_stream_id x) else None)"

lemma same_streams_refl [simp]: "same_streams v v" by (simp add: same_streams_def)

lemma bump_streams [simp]:
  "same_streams v (kvm_epoch_bump_locked u) = same_streams v u" "same_streams v (agent_epoch_bump_locked u) = same_streams v u"
  by (simp_all add: same_streams_def kvm_epoch_bump_locked_def agent_epoch_bump_locked_def)

lemma update_streams [simp]:
  "same_streams v (u\<lparr>vc_kvm_seen := a\<rparr>) = same_streams v u" "same_streams v (u\<lparr>vc_kvm_last_ms := b\<rparr>) = same_streams v u"
  "same_streams v (u\<lparr>vc_kvm_auth_generation := b\<rparr>) = same_streams v u" "same_streams v (u\<lparr>vc_kvm_session_id := c\<rparr>) = same_streams v u"
  "same_streams v (u\<lparr>vc_agent_seen := a\<rparr>) = same_streams v u" "same_streams v (u\<lparr>vc_agent_takeover := a\<rparr>) = same_streams v u"
  "same_streams v (u\<lparr>vc_last_kvm_reject := d\<rparr>) = same_streams v u" "same_streams v (u\<lparr>vc_agent_last_ms := b\<rparr>) = same_streams v u"
  "same_streams v (u\<lparr>vc_agent_actor := c\<rparr>) = same_streams v u"
  by (simp_all add: same_streams_def)

lemma remember_cong:
  "same_streams u u' \<Longrightarrow> same_streams ((remember_canceled_stream_locked a u)\<lparr>vc_kvm_stream_id := st\<rparr>)
      ((remember_canceled_stream_locked a u')\<lparr>vc_kvm_stream_id := st\<rparr>)"
  by (simp add: same_streams_def remember_canceled_stream_locked_def stream_was_canceled_locked_def)

text \<open>When an acquisition is accepted.\<close>

definition acquires :: "bool \<Rightarrow> kvm_transition_context_t \<Rightarrow> video \<Rightarrow> bool" where
  "acquires w x v \<longleftrightarrow> kx_force x \<or> vc_kvm_stream_id v = kx_stream_id x \<and> w \<and> same_session x v \<or>
     kx_claim x \<and> \<not> stream_was_canceled_locked (kx_stream_id x) v \<and>
     (vc_kvm_stream_id v = 0 \<or> kx_expected_previous_stream_id x \<noteq> 0 \<and> vc_kvm_stream_id v = kx_expected_previous_stream_id x \<or> \<not> w)"

lemma acquires_fresh: "acquires w x v \<Longrightarrow> vc_kvm_stream_id v \<noteq> kx_stream_id x \<Longrightarrow> kx_force x \<or> \<not> stream_was_canceled_locked (kx_stream_id x) v"
  by (auto simp: acquires_def)

lemma op_acquire_eq:
  assumes "acquires w x v" "c_or_empty (kx_session_id x) \<noteq> []"
  defines "u \<equiv> (if kx_force x then (forget_canceled_stream_locked (kx_stream_id x) v)\<lparr>vc_agent_seen := False, vc_agent_takeover := False\<rparr> else v)"
  shows "fst (op_acquire w n x v) = x\<lparr>kx_accepted := True\<rparr>"
    "same_streams (if vc_kvm_stream_id v = kx_stream_id x then u
       else (remember_canceled_stream_locked (vc_kvm_stream_id v) u)\<lparr>vc_kvm_stream_id := kx_stream_id x\<rparr>) (snd (op_acquire w n x v))"
proof -
  have a: "(kx_force x \<or> vc_kvm_stream_id v = kx_stream_id x \<and> w \<and> same_session x v \<or>
      kx_claim x \<and> vc_kvm_stream_id v = 0 \<and> \<not> stream_was_canceled_locked (kx_stream_id x) v \<or>
      kx_claim x \<and> kx_expected_previous_stream_id x \<noteq> 0 \<and> vc_kvm_stream_id v = kx_expected_previous_stream_id x \<and>
        \<not> stream_was_canceled_locked (kx_stream_id x) v \<or>
      kx_claim x \<and> \<not> w \<and> \<not> stream_was_canceled_locked (kx_stream_id x) v) = True"
    using assms(1) by (auto simp: acquires_def)
  have s: "c_or_empty (kx_session_id (x\<lparr>kx_accepted := True\<rparr>)) \<noteq> []" using assms(2) by simp
  show "fst (op_acquire w n x v) = x\<lparr>kx_accepted := True\<rparr>"
    unfolding op_acquire_def Let_def a by simp
  show "same_streams (if vc_kvm_stream_id v = kx_stream_id x then u
       else (remember_canceled_stream_locked (vc_kvm_stream_id v) u)\<lparr>vc_kvm_stream_id := kx_stream_id x\<rparr>) (snd (op_acquire w n x v))"
    unfolding op_acquire_def Let_def a if_not_P [OF s] simp_thms if_False if_True
    by (simp add: assms(2) u_def)
qed

lemma op_acquire_refused:
  assumes "\<not> (acquires w x v \<and> c_or_empty (kx_session_id x) \<noteq> [])"
  shows "same_streams v (snd (op_acquire w n x v))" "kx_accepted (fst (op_acquire w n x v)) = acquires w x v"
proof -
  have a: "(kx_force x \<or> vc_kvm_stream_id v = kx_stream_id x \<and> w \<and> same_session x v \<or>
      kx_claim x \<and> vc_kvm_stream_id v = 0 \<and> \<not> stream_was_canceled_locked (kx_stream_id x) v \<or>
      kx_claim x \<and> kx_expected_previous_stream_id x \<noteq> 0 \<and> vc_kvm_stream_id v = kx_expected_previous_stream_id x \<and>
        \<not> stream_was_canceled_locked (kx_stream_id x) v \<or>
      kx_claim x \<and> \<not> w \<and> \<not> stream_was_canceled_locked (kx_stream_id x) v) = acquires w x v"
    by (auto simp: acquires_def)
  show "same_streams v (snd (op_acquire w n x v))" "kx_accepted (fst (op_acquire w n x v)) = acquires w x v"
    unfolding op_acquire_def Let_def a using assms by (cases "acquires w x v"; simp)+
qed

lemma acquire_replaces:
  assumes "kx_operation x = KVM_OP_ACQUIRE"
  shows "replaces (forced_stream x) v (snd (op_acquire w n x v))"
proof (cases "acquires w x v \<and> c_or_empty (kx_session_id x) \<noteq> []")
  case False
  then show ?thesis by (intro replaces_same op_acquire_refused(1))
next
  case True
  let ?st = "kx_stream_id x" and ?cur = "vc_kvm_stream_id v" and ?v' = "snd (op_acquire w n x v)"
  define u where "u = (if kx_force x then forget_canceled_stream_locked ?st v else v)"
  define ua where "ua = (if kx_force x then (forget_canceled_stream_locked ?st v)\<lparr>vc_agent_seen := False, vc_agent_takeover := False\<rparr> else v)"
  have ua: "same_streams u ua" by (simp add: ua_def u_def)
  have f: "forced_stream x = (if kx_force x then Some ?st else None)" using assms by (simp add: forced_stream_def)
  note eq = op_acquire_eq(2) [OF conjunct1 [OF True] conjunct2 [OF True], of n, folded ua_def]
  show ?thesis
  proof (cases "?cur = ?st")
    case heartbeat: True
    have "same_streams u ?v'" using eq ua heartbeat by (simp add: same_streams_def)
    then show ?thesis using heartbeat replaces_same [of v ?v'] replaces_forgot [of _ v ?v']
      by (simp add: f u_def split: if_splits)
  next
    case other: False
    have c: "\<not> stream_was_canceled_locked ?st u"
      using acquires_fresh [OF conjunct1 [OF True] other] forget_streams(3) [of ?st v]
      by (auto simp: u_def stream_was_canceled_locked_def)
    have "same_streams ((remember_canceled_stream_locked ?cur u)\<lparr>vc_kvm_stream_id := ?st\<rparr>) ?v'"
      using remember_cong [OF ua, of ?st ?cur] eq other by (simp add: same_streams_def)
    moreover have "u = v \<or> forced_stream x = Some ?st \<and> u = forget_canceled_stream_locked ?st v" by (simp add: u_def f)
    ultimately show ?thesis using other c by (intro replaces_new [of u v _ ?st]) simp_all
  qed
qed

lemma kvm_operation_replaces: "replaces (forced_stream x) v (snd (kvm_operation w n x v))"
proof (cases "kx_operation x")
  case KVM_OP_ACQUIRE
  then show ?thesis using acquire_replaces by (simp add: kvm_operation_def)
next
  case KVM_OP_RELEASE
  show ?thesis
  proof (cases "kx_stream_id x \<noteq> 0 \<and> vc_kvm_stream_id v = kx_stream_id x \<and> same_session x v")
    case True
    then have "same_streams ((remember_canceled_stream_locked (vc_kvm_stream_id v) v)\<lparr>vc_kvm_stream_id := 0\<rparr>)
        (snd (kvm_operation w n x v))"
      using KVM_OP_RELEASE by (simp add: kvm_operation_def op_release_def same_streams_def kvm_epoch_bump_locked_def)
    moreover have "\<not> stream_was_canceled_locked 0 v" by (simp add: stream_was_canceled_locked_def)
    ultimately show ?thesis using True by (intro replaces_new [of v v _ 0]) simp_all
  next
    case False
    then have "snd (kvm_operation w n x v) = v" using KVM_OP_RELEASE by (auto simp: kvm_operation_def op_release_def Let_def)
    then show ?thesis by (simp add: replaces_same)
  qed
qed (auto simp: kvm_operation_def op_ws_claim_def op_agent_def op_expire_def touch_actor_def Let_def intro!: replaces_same)

lemma gate_replaces:
  "replaces (forced_stream x) v (snd (snd (snd (kvm_transition_under_hid_gate e x v c tr))))"
proof -
  define w where "w = (if vc_agent_takeover v \<and> \<not> agent_active_locked (ve_now_ms e) v then v\<lparr>vc_agent_takeover := False\<rparr> else v)"
  define p where "p = kvm_operation (kvm_active_locked (ve_now_ms e) v) (ve_now_ms e) x w"
  have w: "same_streams v w" "vc_kvm_stream_id w = vc_kvm_stream_id v" by (simp_all add: w_def)
  have eq: "snd (snd (snd (kvm_transition_under_hid_gate e x v c tr))) =
      (if \<not> ve_live_guard e \<or> \<not> vc_lock v \<or> \<not> ve_lock e then v else snd p)"
    unfolding kvm_transition_under_hid_gate_def Let_def w_def [symmetric] p_def [symmetric] by (simp add: split_beta)
  have "replaces (forced_stream x) w (snd p)" unfolding p_def by (rule kvm_operation_replaces)
  then have "replaces (forced_stream x) v (snd p)"
  proof (cases rule: replaces_cases)
    case same
    then show ?thesis using w by (intro replaces_same) (simp add: same_streams_def)
  next
    case forgot
    have "same_streams (forget_canceled_stream_locked (vc_kvm_stream_id v) v) (snd p)"
      using forgot(2) w by (simp add: same_streams_def forget_canceled_stream_locked_def)
    then show ?thesis using forgot(1) w(2) by (intro replaces_forgot) simp_all
  next
    case (new u st)
    define u' where "u' = (if u = w then v else forget_canceled_stream_locked st v)"
    have u': "same_streams u' u" "u' = v \<or> forced_stream x = Some st \<and> u' = forget_canceled_stream_locked st v"
      using new(1) w by (auto simp: u'_def same_streams_def forget_canceled_stream_locked_def)
    have "same_streams ((remember_canceled_stream_locked (vc_kvm_stream_id v) u')\<lparr>vc_kvm_stream_id := st\<rparr>) (snd p)"
      using remember_cong [OF u'(1), of st "vc_kvm_stream_id v"] new(4) w(2) by (simp add: same_streams_def)
    moreover have "\<not> stream_was_canceled_locked st u'" using new(3) same_streams_cong(3) [OF u'(1)] by simp
    ultimately show ?thesis using u'(2) new(2) w(2) by (intro replaces_new [of u' v _ st]) simp_all
  qed
  then show ?thesis by (simp add: eq replaces_same)
qed

lemma run_kvm_video:
  "replaces (forced_stream x) (kv_video s) (kv_video (snd (snd (snd (run_kvm_transition e x owner s)))))"
proof (rule run_kvm_cases [of e x owner s])
  fix tr y v r o' m
  assume "kvm_transition_under_hid_gate e x (kv_video s) (current (kv_hid s)) no_transition = (True, tr, y, v)"
    "run_kvm_transition e x owner s = (r, o', y, \<lparr>kv_video = v, kv_hid = m\<rparr>)"
  then show ?thesis using gate_replaces [of x "kv_video s" e "current (kv_hid s)" no_transition] by simp
next
  fix y v
  assume "run_kvm_transition e x owner s = (False, owner, y, \<lparr>kv_video = v, kv_hid = kv_hid s\<rparr>)"
    "he_locks (ve_hid e) \<noteq> ESP_OK \<and> v = kv_video s \<and> y = x \<or>
       (\<exists>tr. kvm_transition_under_hid_gate e x (kv_video s) (current (kv_hid s)) no_transition = (False, tr, y, v))"
  then show ?thesis using gate_replaces [of x "kv_video s" e "current (kv_hid s)" no_transition]
    by (auto simp: replaces_same)
qed

definition forces :: "u32 \<Rightarrow> desk_op \<Rightarrow> bool" where
  "forces sid x \<longleftrightarrow> (case x of Desk_Kvm e c \<Rightarrow> forced_stream c = Some sid | _ \<Rightarrow> False)"

lemma store_active_streams [simp]: "same_streams v (store_active_locked r u) = same_streams v u"
  by (simp add: same_streams_def store_active_locked_def)

lemma apply_streams: "same_streams v (snd (snd (si_video_control_apply (alone a) v)))"
  by (simp add: si_video_control_apply_def alone_def Let_def)

lemma setter_streams:
  "same_streams v (snd (si_video_control_set_kvm_mode e w h f v))" "same_streams v (snd (si_video_control_set_always_on e b v))"
  "same_streams v (snd (si_video_control_set_preview_fps e f v))"
  by (simp_all add: same_streams_def si_video_control_set_kvm_mode_def si_video_control_set_always_on_def
      si_video_control_set_preview_fps_def Let_def)

lemma same_streams_trans: "same_streams v u \<Longrightarrow> same_streams u w \<Longrightarrow> same_streams v w"
  by (simp add: same_streams_def)

lemma load_streams: "same_streams v (snd (load_settings st e1 e2 e3 v))"
proof (cases "vc_settings_loaded v")
  case False
  obtain w h f where m: "saved_kvm_mode st = (w, h, f)" by (cases "saved_kvm_mode st")
  let ?a = "snd (si_video_control_set_kvm_mode e1 w h f v)"
  let ?b = "snd (si_video_control_set_always_on e2 (saved_always_on st) ?a)"
  let ?c = "snd (si_video_control_set_preview_fps e3 (saved_preview_fps st) ?b)"
  have "same_streams v ?c" by (meson setter_streams same_streams_trans)
  then show ?thesis using False by (simp add: load_settings_def m same_streams_def)
qed (simp add: load_settings_def)

lemma start_streams:
  "same_streams v (snd (si_video_control_start (st\<lparr>se_apply1 := alone a, se_apply2 := alone b\<rparr>) v))"
proof -
  define v1 where "v1 = (if se_store_off st then store_active_locked off_request (v\<lparr>vc_lock := True, vc_apply_lock := True, vc_transport_lock := True\<rparr>)
    else v\<lparr>vc_lock := True, vc_apply_lock := True, vc_transport_lock := True\<rparr>)"
  define v2 where "v2 = snd (snd (si_video_control_apply (alone a) v1))"
  obtain e1 e2 e3 where e: "se_setters st = (e1, e2, e3)" by (cases "se_setters st")
  define v3 where "v3 = snd (load_settings (se_store st) e1 e2 e3 v2)"
  define v4 where "v4 = snd (snd (si_video_control_apply (alone b) v3))"
  have "same_streams v v1" by (simp add: v1_def same_streams_def store_active_locked_def)
  moreover have "same_streams v1 v2" "same_streams v2 v3" "same_streams v3 v4"
    by (simp_all add: v2_def v3_def v4_def apply_streams load_streams)
  ultimately have "same_streams v v1" "same_streams v v2" "same_streams v v4" by (meson same_streams_trans)+
  then show ?thesis
    by (simp add: si_video_control_start_def split_beta Let_def e flip: v1_def v2_def v3_def v4_def)
qed

lemma change_mode_streams: "same_streams v (snd (snd (snd (si_video_control_change_kvm_mode (alone a) w h f v))))"
  by (simp add: si_video_control_change_kvm_mode_def alone_def Let_def same_streams_def store_active_locked_def)

lemma video_step_streams: "same_streams v (video_step x v)"
proof (cases x)
  case (Desk_Suspended e a b)
  then show ?thesis using apply_streams [of "v\<lparr>vc_suspended := b\<rparr>" a]
    by (simp add: video_step_def si_video_control_set_suspended_def same_streams_def)
qed (simp_all add: video_step_def start_streams apply_streams setter_streams change_mode_streams control_task_def
    si_video_control_keep_automation_alive_def si_video_control_release_agent_def touch_actor_def Let_def,
    simp add: same_streams_def si_video_control_set_preview_def)

lemma desk_step_streams:
  "\<exists>f. replaces f (dk_video s) (dk_video (desk_step s x)) \<and> (\<forall>sid. f = Some sid \<longrightarrow> forces sid x)"
proof (cases x)
  case (Desk_Kvm e c)
  then show ?thesis using run_kvm_video [of c "desk_kvm s" e None]
    by (intro exI [of _ "forced_stream c"]) (simp add: desk_step_def set_kvm_def desk_kvm_def forces_def)
qed (intro exI [of _ None], simp add: desk_step_def replaces_same video_step_streams)+

interpretation desk_streams: invariant_machine desk_step "\<lambda>s. streams_ok (dk_video s)"
  by unfold_locales (use desk_step_streams replaces_ok in blast)

lemma desk_streams_ok: "streams_ok (dk_video (run_ops desk_step desk_initial xs))"
  by (rule desk_streams.run_inv) (simp add: streams_ok_def desk_initial_def initial_video_def)

text \<open>How many steps of a run cancel a stream: each moves the cursor of the ring.\<close>

fun cancellations :: "desk \<Rightarrow> desk_op list \<Rightarrow> nat" where
  "cancellations s [] = 0"
| "cancellations s (x # xs) =
     (if vc_kvm_canceled_cursor (dk_video (desk_step s x)) \<noteq> vc_kvm_canceled_cursor (dk_video s) then 1 else 0) +
     cancellations (desk_step s x) xs"

lemma run_stays_out:
  assumes "stays_out sid d (dk_video s)" "\<forall>x\<in>set xs. \<not> forces sid x" "cancellations s xs \<le> d"
  shows "\<exists>d'. stays_out sid d' (dk_video (run_ops desk_step s xs))"
  using assms
proof (induction xs arbitrary: s d)
  case Nil
  then show ?case by auto
next
  case (Cons x xs)
  obtain f where f: "replaces f (dk_video s) (dk_video (desk_step s x))" "f \<noteq> Some sid"
    using desk_step_streams [of s x] Cons.prems(2) by auto
  show ?case
  proof (cases "vc_kvm_canceled_cursor (dk_video (desk_step s x)) = vc_kvm_canceled_cursor (dk_video s)")
    case True
    then show ?thesis using replaces_stays_out [OF f(1) Cons.prems(1) f(2)] Cons.prems Cons.IH [of d "desk_step s x"] by simp
  next
    case False
    then show ?thesis using replaces_stays_out [OF f(1) Cons.prems(1) f(2)] Cons.prems Cons.IH [of "d - 1" "desk_step s x"] by simp
  qed
qed

lemma gate_not_accepted:
  assumes "\<not> kx_accepted x" "\<And>w n u. same_streams v u \<Longrightarrow> \<not> kx_accepted (fst (kvm_operation w n x u))"
  shows "\<not> kx_accepted (fst (snd (snd (kvm_transition_under_hid_gate e x v c tr))))"
proof -
  define w where "w = (if vc_agent_takeover v \<and> \<not> agent_active_locked (ve_now_ms e) v then v\<lparr>vc_agent_takeover := False\<rparr> else v)"
  define p where "p = kvm_operation (kvm_active_locked (ve_now_ms e) v) (ve_now_ms e) x w"
  have "\<not> kx_accepted (fst p)" unfolding p_def by (rule assms(2)) (simp add: w_def)
  then show ?thesis using assms(1)
    unfolding kvm_transition_under_hid_gate_def Let_def w_def [symmetric] p_def [symmetric] by (simp add: split_beta)
qed

lemma stays_out_refused:
  assumes "stays_out sid d (kv_video s)"
  shows "\<not> si_video_control_kvm_stream_is_current e sid (kv_video s)"
    "\<not> si_video_control_kvm_hid_owner_is_current e sid epoch session gen (kv_video s)"
    "\<not> fst (si_video_control_acquire_kvm_stream_for_session e sid False claim previous session gen s)"
    "\<not> fst (si_video_control_claim_kvm_hid_owner e sid session gen owner s)"
proof -
  note c = stays_out_canceled [OF assms]
  have sid: "sid \<noteq> 0" "vc_kvm_stream_id (kv_video s) \<noteq> sid" using assms by (simp_all add: stays_out_def)
  show "\<not> si_video_control_kvm_stream_is_current e sid (kv_video s)"
    "\<not> si_video_control_kvm_hid_owner_is_current e sid epoch session gen (kv_video s)"
    using c sid by (simp_all add: si_video_control_kvm_stream_is_current_def si_video_control_kvm_hid_owner_is_current_def)
  have refused: "\<not> kx_accepted (fst (snd (snd (run_kvm_transition e x owner s))))"
    if "\<not> kx_accepted x" "\<And>w n v. same_streams (kv_video s) v \<Longrightarrow> \<not> kx_accepted (fst (kvm_operation w n x v))" for x owner
  proof (rule run_kvm_cases [of e x owner s])
    fix tr y v r o' m
    assume "kvm_transition_under_hid_gate e x (kv_video s) (current (kv_hid s)) no_transition = (True, tr, y, v)"
      and "run_kvm_transition e x owner s = (r, o', y, \<lparr>kv_video = v, kv_hid = m\<rparr>)"
    then show ?thesis using gate_not_accepted [where v = "kv_video s" and e = e and c = "current (kv_hid s)" and tr = no_transition, OF that] by simp
  next
    fix y v
    assume "run_kvm_transition e x owner s = (False, owner, y, \<lparr>kv_video = v, kv_hid = kv_hid s\<rparr>)"
      "he_locks (ve_hid e) \<noteq> ESP_OK \<and> v = kv_video s \<and> y = x \<or>
       (\<exists>tr. kvm_transition_under_hid_gate e x (kv_video s) (current (kv_hid s)) no_transition = (False, tr, y, v))"
    then show ?thesis using gate_not_accepted [where v = "kv_video s" and e = e and c = "current (kv_hid s)" and tr = no_transition, OF that] that(1) by auto
  qed
  have v: "vc_kvm_stream_id v \<noteq> sid \<and> stream_was_canceled_locked sid v" if "same_streams (kv_video s) v" for v
    using that c sid same_streams_cong(3) [OF that] by (simp add: same_streams_def)
  show "\<not> fst (si_video_control_acquire_kvm_stream_for_session e sid False claim previous session gen s)"
  proof -
    let ?x = "(zero_kvm_context KVM_OP_ACQUIRE)\<lparr>kx_stream_id := sid, kx_expected_previous_stream_id := previous,
      kx_session_id := session, kx_auth_generation := gen, kx_force := False, kx_claim := claim\<rparr>"
    have "\<not> kx_accepted (fst (kvm_operation w n ?x u))" if "same_streams (kv_video s) u" for w n u
      using v [OF that] op_acquire_refused(2) [of w ?x u n]
      by (simp add: kvm_operation_def zero_kvm_context_def acquires_def)
    then show ?thesis using refused [of ?x None]
      by (simp add: si_video_control_acquire_kvm_stream_for_session_def zero_kvm_context_def split_beta)
  qed
  show "\<not> fst (si_video_control_claim_kvm_hid_owner e sid session gen owner s)"
  proof -
    have "\<not> kx_accepted (fst (kvm_operation w n (ws_claim_context sid session gen) u))" if "same_streams (kv_video s) u" for w n u
      using v [OF that] by (simp add: kvm_operation_def ws_claim_context_def zero_kvm_context_def op_ws_claim_def Let_def)
    then show ?thesis using refused [of "ws_claim_context sid session gen" owner]
      by (simp add: si_video_control_claim_kvm_hid_owner_def ws_claim_context_def zero_kvm_context_def split_beta)
  qed
qed

text \<open>
  A closed view does not come back. Let a KVM stream be the current one in a reachable state of the
  whole system and let some step end or replace it. Then, through any further run that does not force
  this very stream and cancels at most 31 others, the stream is not current, the HID guard of its
  WebSocket refuses, it cannot be acquired again, as a claim or as a heartbeat and whatever session it
  comes with, and it cannot claim the keyboard.
\<close>

theorem kvm_cancelled_stream_stays_out:
  fixes ops xs :: "desk_op list" and x :: desk_op
  defines "s \<equiv> run_ops desk_step desk_initial ops"
  defines "k \<equiv> desk_kvm (run_ops desk_step (desk_step s x) xs)"
  assumes "vc_kvm_stream_id (dk_video s) = sid" "sid \<noteq> 0" "vc_kvm_stream_id (dk_video (desk_step s x)) \<noteq> sid"
    and "\<forall>y\<in>set xs. \<not> forces sid y" "cancellations (desk_step s x) xs \<le> 31"
  shows "\<not> si_video_control_kvm_stream_is_current e sid (kv_video k) \<and>
    \<not> si_video_control_kvm_hid_owner_is_current e sid epoch session gen (kv_video k) \<and>
    \<not> fst (si_video_control_acquire_kvm_stream_for_session e sid False claim previous session gen k) \<and>
    \<not> fst (si_video_control_claim_kvm_hid_owner e sid session gen owner k)"
proof -
  obtain f where "replaces f (dk_video s) (dk_video (desk_step s x))" using desk_step_streams [of s x] by blast
  then have "stays_out sid 31 (dk_video (desk_step s x))"
    using replaces_leaves desk_streams_ok [of ops] assms(3-5) unfolding s_def by blast
  from run_stays_out [OF this assms(6,7)] obtain d where "stays_out sid d (kv_video k)"
    by (auto simp: k_def desk_kvm_def)
  then show ?thesis using stays_out_refused [of sid d k] by simp
qed

section \<open>The capture mode\<close>

lemma alone_simps:
  "ae_other (alone a) n v = v" "ae_apply_lock (alone a) = ae_apply_lock a" "ae_lock (alone a) = ae_lock a"
  "ae_now_ms (alone a) = ae_now_ms a" "ae_validate (alone a) = ae_validate a" "ae_capture (alone a) = ae_capture a"
  by (simp_all add: alone_def)

lemma desired_store [simp]: "desired_locked n (store_active_locked r u) = desired_locked n u"
  by (simp add: desired_locked_def store_active_locked_def kvm_active_locked_def agent_active_locked_def
      agent_takeover_active_locked_def Let_def)

lemma desired_off: "rq_enabled (desired_locked n u) \<or> rq_owner (desired_locked n u) = ''off''"
  by (simp add: desired_locked_def off_request_def Let_def)

lemma desired_kvm: "rq_enabled (desired_locked n u) \<and> rq_owner (desired_locked n u) = ''kvm'' \<longleftrightarrow>
    kvm_active_locked n u \<and> \<not> vc_suspended u"
  by (simp add: desired_locked_def off_request_def Let_def)

lemma matches_stored: "matches_active_locked (desired_locked n u) (store_active_locked (desired_locked n u) w)"
  using desired_off [of n u] by (auto simp: matches_active_locked_def store_active_locked_def)

lemma store_active_other [simp]:
  "vc_lock (store_active_locked r u) = vc_lock u" "vc_apply_lock (store_active_locked r u) = vc_apply_lock u"
  "vc_kvm_width (store_active_locked r u) = vc_kvm_width u" "vc_kvm_height (store_active_locked r u) = vc_kvm_height u"
  "vc_kvm_fps_x100 (store_active_locked r u) = vc_kvm_fps_x100 u"
  by (simp_all add: store_active_locked_def)

text \<open>
  A change of the capture mode is all or nothing. Run alone, a change that reports an error leaves the
  whole state as it was, a refusal by the capture driver after the new mode was entered included; one
  that succeeds leaves a mode within the limits, the one asked for, and when the live view was switched
  over, the recorded capture is the wanted one.
\<close>

theorem video_mode_change_atomic:
  fixes e :: apply_env and v :: video and width height fps_x100 :: u32
  defines "r \<equiv> si_video_control_change_kvm_mode (alone e) width height fps_x100 v"
  shows "(fst r \<noteq> ESP_OK \<longrightarrow> snd (snd (snd r)) = v) \<and>
    (fst r = ESP_OK \<longrightarrow>
      vc_kvm_width (snd (snd (snd r))) = width \<and> vc_kvm_height (snd (snd (snd r))) = height \<and>
      vc_kvm_fps_x100 (snd (snd (snd r))) = (if fps_x100 > 0 then fps_x100 else vc_kvm_fps_x100 v) \<and>
      si_video_control_mode_valid width height (vc_kvm_fps_x100 (snd (snd (snd r)))) \<and>
      (fst (snd r) \<longleftrightarrow> kvm_active_locked (ae_now_ms e) v \<and> \<not> vc_suspended v) \<and>
      (fst (snd r) \<and> ae_lock e 2 \<longrightarrow>
        matches_active_locked (desired_locked (ae_now_ms e) (snd (snd (snd r)))) (snd (snd (snd r)))))"
proof -
  define fps where "fps = (if fps_x100 > 0 then fps_x100 else vc_kvm_fps_x100 v)"
  define u where "u = v\<lparr>vc_kvm_width := width, vc_kvm_height := height, vc_kvm_fps_x100 := fps\<rparr>"
  have restored: "u\<lparr>vc_kvm_width := vc_kvm_width v, vc_kvm_height := vc_kvm_height v, vc_kvm_fps_x100 := vc_kvm_fps_x100 v\<rparr> = v"
    unfolding u_def by (cases v) simp
  have u: "kvm_active_locked n u = kvm_active_locked n v" "vc_suspended u = vc_suspended v" "vc_kvm_width u = width"
    "vc_kvm_height u = height" "vc_kvm_fps_x100 u = fps" for n by (simp_all add: u_def kvm_active_locked_def)
  let ?ap = "kvm_active_locked (ae_now_ms e) v \<and> \<not> vc_suspended v" and ?d = "desired_locked (ae_now_ms e) u"
  show ?thesis
  proof (cases "vc_lock v \<and> vc_apply_lock v \<and> ae_apply_lock e \<and> ae_lock e 0 \<and> si_video_control_mode_valid width height fps \<and>
      ae_validate e width height fps = ESP_OK \<and> ae_lock e 1")
    case False
    then have "\<exists>err. err \<noteq> ESP_OK \<and> r = (err, False, None, v)"
      unfolding r_def si_video_control_change_kvm_mode_def Let_def alone_simps fps_def [symmetric] by auto
    then show ?thesis by auto
  next
    case True
    have r: "r = (if ?ap \<and> ae_capture e ?d \<noteq> ESP_OK then (ae_capture e ?d, False, Some ?d, v)
        else (ESP_OK, ?ap, if ?ap then Some ?d else None, if ?ap \<and> ae_lock e 2 then store_active_locked ?d u else u))"
      unfolding r_def si_video_control_change_kvm_mode_def Let_def alone_simps fps_def [symmetric] u_def [symmetric]
        desired_kvm u by (simp add: True restored del: One_nat_def)
    show ?thesis
    proof (cases "?ap \<and> ae_capture e ?d \<noteq> ESP_OK")
      case False
      then show ?thesis using True unfolding r if_not_P [OF False] by (simp add: u matches_stored fps_def)
    qed (simp add: r)
  qed
qed

text \<open>
  The periodic apply converges. When it succeeds and gets to record its result, the recorded capture
  is the one wanted at that time, and an apply right after it asks the driver for nothing.
\<close>

theorem video_apply_converges:
  fixes e :: apply_env and v :: video
  defines "v' \<equiv> snd (snd (si_video_control_apply (alone e) v))"
  assumes "fst (si_video_control_apply (alone e) v) = ESP_OK" "ae_lock e 1"
  shows "matches_active_locked (desired_locked (ae_now_ms e) v') v' \<and>
    si_video_control_apply (alone e) v' = (ESP_OK, None, v')"
  using assms(2,3)
  by (auto simp: v'_def si_video_control_apply_def alone_def Let_def matches_stored split: if_splits)

section \<open>Saved settings\<close>

text \<open>
  What is saved is what the next start loads. If saving the KVM mode and the runtime settings
  succeeded, and the store later returns for each of these keys the value that was set, then loading the
  settings with the mutex available installs exactly this mode, this always-on flag and this preview rate.
\<close>

theorem video_settings_round_trip:
  assumes "si_video_control_save_kvm_mode w width height fps_x100 = (ESP_OK, kxs)"
    and "si_video_control_save_runtime_settings w' always_on preview = (ESP_OK, kys)"
    and "\<forall>(k, x)\<in>set (kxs @ kys). k \<noteq> ''always_on'' \<longrightarrow> sr_u32 r k = Some x"
    and "\<forall>(k, x)\<in>set kys. k = ''always_on'' \<longrightarrow> sr_u8 r k = Some (ucast x)"
    and "vc_lock v" "\<not> vc_settings_loaded v" "ve_lock e1" "ve_lock e2" "ve_lock e3"
  shows "let v' = snd (load_settings (Some r) e1 e2 e3 v)
    in vc_kvm_width v' = width \<and> vc_kvm_height v' = height \<and> vc_kvm_fps_x100 v' = fps_x100 \<and>
       vc_always_on v' = always_on \<and> vc_preview_fps_x100 v' = preview"
proof -
  have m: "si_video_control_mode_valid width height fps_x100" "kxs = [(''kvm_width'', width), (''kvm_height'', height), (''kvm_fps_x100'', fps_x100)]"
    using assms(1) by (auto simp: si_video_control_save_kvm_mode_def write_settings_def split: if_splits)
  have p: "si_video_control_preview_fps_valid preview" "kys = [(''always_on'', if always_on then 1 else 0), (''preview_fps100'', preview)]"
    using assms(2) by (auto simp: si_video_control_save_runtime_settings_def write_settings_def split: if_splits)
  have s: "saved_kvm_mode (Some r) = (width, height, fps_x100)" "saved_preview_fps (Some r) = preview" "saved_always_on (Some r) = always_on"
    using assms(3,4) m p by (simp_all add: saved_kvm_mode_def saved_preview_fps_def saved_always_on_def)
  have "fps_x100 > 0" "fps_x100 \<noteq> 0" using m(1) by (auto simp: si_video_control_mode_valid_def)
  then show ?thesis using assms(5-) p(1)
    by (simp add: load_settings_def s si_video_control_set_kvm_mode_def si_video_control_set_always_on_def
        si_video_control_set_preview_fps_def Let_def)
qed

section \<open>Witnesses\<close>

text \<open>Stream 7 is replaced by 8, then 8 by 9; the old page tries to come back.\<close>

theorem kvm_cancelled_stream_stays_out_witness:
  "\<not> fst (si_video_control_acquire_kvm_stream_for_session (video_env_at 400) 7 False True 9 (Some ''web'') 1
     (desk_kvm (run_ops desk_step (desk_step (run_ops desk_step desk_initial browser_run) (Desk_Kvm (video_env_at 200) (open_stream 8)))
       [Desk_Kvm (video_env_at 300) (open_stream 9)])))"
proof -
  let ?s = "run_ops desk_step desk_initial browser_run" and ?x = "Desk_Kvm (video_env_at 200) (open_stream 8)"
  let ?xs = "[Desk_Kvm (video_env_at 300) (open_stream 9)]"
  have "vc_kvm_stream_id (dk_video ?s) = 7" "(7 :: u32) \<noteq> 0" "vc_kvm_stream_id (dk_video (desk_step ?s ?x)) \<noteq> 7"
    "cancellations (desk_step ?s ?x) ?xs \<le> 31" by code_simp+
  moreover have "\<forall>y\<in>set ?xs. \<not> forces 7 y" by (simp add: forces_def forced_stream_def open_stream_def zero_kvm_context_def)
  ultimately show ?thesis using kvm_cancelled_stream_stays_out [of browser_run 7 ?x ?xs "video_env_at 400"] by blast
qed

theorem video_mode_change_atomic_witness:
  "snd (snd (snd (si_video_control_change_kvm_mode (alone (quiet_apply\<lparr>ae_now_ms := 70, ae_capture := (\<lambda>_. ESP_FAIL)\<rparr>)) 1280 720 3000
     (dk_video (run_ops desk_step desk_initial browser_run))))) = dk_video (run_ops desk_step desk_initial browser_run)"
proof -
  let ?v = "dk_video (run_ops desk_step desk_initial browser_run)"
  let ?e = "quiet_apply\<lparr>ae_now_ms := 70, ae_capture := (\<lambda>_. ESP_FAIL)\<rparr>"
  have "fst (si_video_control_change_kvm_mode (alone ?e) 1280 720 3000 ?v) = ESP_FAIL" by code_simp
  then show ?thesis using conjunct1 [OF video_mode_change_atomic [of ?e 1280 720 3000 ?v]] by simp
qed

theorem video_apply_converges_witness:
  "matches_active_locked (desired_locked 50 (snd (snd (si_video_control_apply (alone quiet_apply)
      (dk_video (run_ops desk_step desk_initial browser_run))))))
    (snd (snd (si_video_control_apply (alone quiet_apply) (dk_video (run_ops desk_step desk_initial browser_run)))))"
proof -
  let ?v = "dk_video (run_ops desk_step desk_initial browser_run)"
  have "fst (si_video_control_apply (alone quiet_apply) ?v) = ESP_OK" "ae_lock quiet_apply 1" "ae_now_ms quiet_apply = 50" by code_simp+
  then show ?thesis using conjunct1 [OF video_apply_converges [of quiet_apply ?v]] by simp
qed

theorem video_settings_round_trip_witness:
  "vc_kvm_width (snd (load_settings (Some \<lparr>sr_u32 = [''kvm_width'' \<mapsto> 1280, ''kvm_height'' \<mapsto> 720, ''kvm_fps_x100'' \<mapsto> 3000,
       ''preview_fps100'' \<mapsto> 200], sr_u8 = [''always_on'' \<mapsto> 1]\<rparr>) (video_env_at 1) (video_env_at 2) (video_env_at 3)
     (initial_video\<lparr>vc_lock := True\<rparr>))) = 1280"
proof -
  let ?w = "\<lparr>sw_open = ESP_OK, sw_set = (\<lambda>_. ESP_OK), sw_commit = ESP_OK\<rparr>"
  let ?r = "\<lparr>sr_u32 = [''kvm_width'' \<mapsto> 1280, ''kvm_height'' \<mapsto> 720, ''kvm_fps_x100'' \<mapsto> 3000, ''preview_fps100'' \<mapsto> 200],
    sr_u8 = [''always_on'' \<mapsto> 1]\<rparr> :: settings_read"
  have s: "si_video_control_save_kvm_mode ?w 1280 720 3000 = (ESP_OK, [(''kvm_width'', 1280), (''kvm_height'', 720), (''kvm_fps_x100'', 3000)])"
    "si_video_control_save_runtime_settings ?w True 200 = (ESP_OK, [(''always_on'', 1), (''preview_fps100'', 200)])" by code_simp+
  have v: "vc_lock (initial_video\<lparr>vc_lock := True\<rparr>)" "\<not> vc_settings_loaded (initial_video\<lparr>vc_lock := True\<rparr>)"
    "ve_lock (video_env_at n)" for n by (simp_all add: initial_video_def video_env_at_def)
  show ?thesis
    using video_settings_round_trip [OF s, of ?r "initial_video\<lparr>vc_lock := True\<rparr>" "video_env_at 1" "video_env_at 2" "video_env_at 3"] v
    by (simp add: Let_def)
qed

end
