(* ===== verification/Autonomy.thy ===== *)
theory Autonomy
  imports Prelude
begin

text \<open>
  The autonomy policy of the embedded agent, \<^verbatim>\<open>core/agent_autonomy.c\<close>: the levels and what they allow, the
  tokenizer for shell command lines, and the classification of a command or of a written path as reading,
  operating, changing the system or irreversible.

  A shell command is the list of its characters. The pointer that scans it is the rest of the list, so that
  the two loops are recursions on it; that the outer loop always moves on is its termination proof. The
  array of tokens with its index is the list of the tokens from that index on.
\<close>

section \<open>Levels\<close>

datatype si_agent_autonomy_level_t =
    SI_AGENT_AUTONOMY_L0
  | SI_AGENT_AUTONOMY_L1
  | SI_AGENT_AUTONOMY_L2
  | SI_AGENT_AUTONOMY_L3
  | SI_AGENT_AUTONOMY_L4
  | SI_AGENT_AUTONOMY_OTHER

datatype si_agent_action_class_t =
    SI_AGENT_ACTION_READ
  | SI_AGENT_ACTION_OPERATE
  | SI_AGENT_ACTION_SYSTEM
  | SI_AGENT_ACTION_IRREVERSIBLE
  | SI_AGENT_ACTION_OTHER

text \<open>The integer value of an enumerator; a value outside the enumeration is larger than all of them.\<close>

fun level_int :: "si_agent_autonomy_level_t \<Rightarrow> int" where
  "level_int SI_AGENT_AUTONOMY_L0 = 0"
| "level_int SI_AGENT_AUTONOMY_L1 = 1"
| "level_int SI_AGENT_AUTONOMY_L2 = 2"
| "level_int SI_AGENT_AUTONOMY_L3 = 3"
| "level_int SI_AGENT_AUTONOMY_L4 = 4"
| "level_int SI_AGENT_AUTONOMY_OTHER = 5"

fun class_int :: "si_agent_action_class_t \<Rightarrow> int" where
  "class_int SI_AGENT_ACTION_READ = 0"
| "class_int SI_AGENT_ACTION_OPERATE = 1"
| "class_int SI_AGENT_ACTION_SYSTEM = 2"
| "class_int SI_AGENT_ACTION_IRREVERSIBLE = 3"
| "class_int SI_AGENT_ACTION_OTHER = 4"

definition si_agent_autonomy_level_valid :: "int \<Rightarrow> bool" where
  "si_agent_autonomy_level_valid level \<longleftrightarrow> level_int SI_AGENT_AUTONOMY_L0 \<le> level \<and> level \<le> level_int SI_AGENT_AUTONOMY_L4"

definition si_agent_autonomy_allows :: "si_agent_autonomy_level_t \<Rightarrow> si_agent_action_class_t \<Rightarrow> bool" where
  "si_agent_autonomy_allows level action_class =
     (if \<not> si_agent_autonomy_level_valid (level_int level) \<or>
         class_int action_class > class_int SI_AGENT_ACTION_IRREVERSIBLE
      then False
      else level \<noteq> SI_AGENT_AUTONOMY_L0 \<and> class_int action_class \<le> level_int level - 1)"

definition si_agent_autonomy_auto_through :: "si_agent_autonomy_level_t \<Rightarrow> int" where
  "si_agent_autonomy_auto_through level =
     (if \<not> si_agent_autonomy_level_valid (level_int level) \<or> level = SI_AGENT_AUTONOMY_L0 then -1
      else if level = SI_AGENT_AUTONOMY_L1 then class_int SI_AGENT_ACTION_READ
      else
        let through = level_int level - 2 in
        if through \<ge> class_int SI_AGENT_ACTION_IRREVERSIBLE then class_int SI_AGENT_ACTION_SYSTEM else through)"

definition si_agent_autonomy_auto_approves :: "si_agent_autonomy_level_t \<Rightarrow> si_agent_action_class_t \<Rightarrow> bool" where
  "si_agent_autonomy_auto_approves level action_class \<longleftrightarrow>
     si_agent_autonomy_allows level action_class \<and>
     class_int action_class \<le> si_agent_autonomy_auto_through level"

fun si_agent_action_class_name :: "si_agent_action_class_t \<Rightarrow> string" where
  "si_agent_action_class_name SI_AGENT_ACTION_READ = ''read''"
| "si_agent_action_class_name SI_AGENT_ACTION_OPERATE = ''operate''"
| "si_agent_action_class_name SI_AGENT_ACTION_SYSTEM = ''system''"
| "si_agent_action_class_name SI_AGENT_ACTION_IRREVERSIBLE = ''irreversible''"
| "si_agent_action_class_name SI_AGENT_ACTION_OTHER = ''irreversible''"

section \<open>The tokenizer\<close>

definition CLASSIFY_MAX_COMMAND :: nat where "CLASSIFY_MAX_COMMAND = 1024"
definition CLASSIFY_MAX_TOKENS :: nat where "CLASSIFY_MAX_TOKENS = 96"
definition CLASSIFY_MAX_TOKEN :: nat where "CLASSIFY_MAX_TOKEN = 128"

record classify_token_t =
  tk_text :: string
  tk_segment :: nat
  tk_after_redirect :: bool

record classify_command_t =
  cc_tokens :: "classify_token_t list"
  cc_segments :: nat
  cc_control :: bool
  cc_redirect :: bool
  cc_truncated :: bool

abbreviation backslash :: char where "backslash \<equiv> CHR 0x5C"

definition quote_char :: "char \<Rightarrow> bool" where
  "quote_char ch \<longleftrightarrow> ch = CHR 0x22 \<or> ch = CHR 0x27"

definition word_char :: "char \<Rightarrow> bool" where
  "word_char ch \<longleftrightarrow> ch \<noteq> CHR 0x00 \<and> \<not> isspace ch \<and> ch \<notin> set ''|;&<>()`$''"

text \<open>The local variables of the inner loop; the text is what is written into the token.\<close>

record word_state =
  ws_text :: string
  ws_chars :: nat
  ws_name_ok :: bool
  ws_assignment :: bool
  ws_quote :: "char option"
  ws_truncated :: bool

definition word_put :: "bool \<Rightarrow> char \<Rightarrow> word_state \<Rightarrow> word_state" where
  "word_put token ch w =
     (let w = w\<lparr>ws_chars := ws_chars w + 1\<rparr>
      in if token \<and> length (ws_text w) + 1 < CLASSIFY_MAX_TOKEN then w\<lparr>ws_text := ws_text w @ [tolower ch]\<rparr>
         else w\<lparr>ws_truncated := True\<rparr>)"

text \<open>How an unquoted character changes what is known about an assignment \<open>name=\<close>.\<close>

definition word_name :: "char \<Rightarrow> word_state \<Rightarrow> word_state" where
  "word_name ch w =
     (if ws_assignment w then w
      else if ch = CHR ''='' \<and> ws_name_ok w \<and> ws_chars w > 0 then w\<lparr>ws_assignment := True\<rparr>
      else if \<not> (isalnum ch \<or> ch = CHR ''_'') \<or> (ws_chars w = 0 \<and> isdigit ch) then w\<lparr>ws_name_ok := False\<rparr>
      else w)"

fun word_loop :: "bool \<Rightarrow> word_state \<Rightarrow> string \<Rightarrow> word_state \<times> string" where
  "word_loop token w [] = (w, [])"
| "word_loop token w (c # cs) =
     (if word_char c \<or> (ws_quote w \<noteq> None \<and> isspace c)
      then
        if c = backslash
        then (case cs of
                [] \<Rightarrow> (w, [])
              | d # ds \<Rightarrow>
                  if quote_char d then word_loop token w ds
                  else word_loop token (word_put token d (if ws_assignment w then w else w\<lparr>ws_name_ok := False\<rparr>)) ds)
        else if ws_quote w \<noteq> None
        then if ws_quote w = Some c then word_loop token (w\<lparr>ws_quote := None\<rparr>) cs
             else word_loop token (word_put token c w) cs
        else if quote_char c
        then word_loop token (if ws_assignment w then w\<lparr>ws_quote := Some c\<rparr> else w) cs
        else word_loop token (word_put token c (word_name c w)) cs
      else (w, c # cs))"

lemma word_loop_shorter: "length (snd (word_loop token w cs)) \<le> length cs"
proof (induction "length cs" arbitrary: w cs rule: less_induct)
  case less
  then have IH: "length xs < n \<Longrightarrow> length (snd (word_loop token w' xs)) \<le> n" if "n \<le> length cs" for w' xs n
    using that le_trans [OF less(1) [of xs w'], of n] by simp
  show ?case
  proof (cases cs)
    case (Cons c cs')
    show ?thesis unfolding Cons word_loop.simps(2)
      by (simp split: if_split list.split add: IH Cons)
  qed simp
qed

definition word_start :: word_state where
  "word_start = \<lparr>ws_text = [], ws_chars = 0, ws_name_ok = True, ws_assignment = False, ws_quote = None,
     ws_truncated = False\<rparr>"

lemma word_loop_progress:
  assumes "word_char c" "c \<noteq> backslash" "\<not> quote_char c"
  shows "length (snd (word_loop token word_start (c # cs))) < length (c # cs)"
  using assms word_loop_shorter [of token _ cs] by (simp add: word_start_def le_imp_less_Suc)

declare word_loop.simps(2) [simp del]

text \<open>A word that has ended: its token is stored if there is room.\<close>

definition store_word :: "bool \<Rightarrow> word_state \<Rightarrow> classify_command_t \<Rightarrow> classify_command_t" where
  "store_word after_redirect w out =
     (if length (cc_tokens out) < CLASSIFY_MAX_TOKENS
      then out\<lparr>cc_tokens := cc_tokens out @ [\<lparr>tk_text = ws_text w, tk_segment = cc_segments out,
                 tk_after_redirect = after_redirect\<rparr>],
               cc_truncated := cc_truncated out \<or> ws_truncated w\<rparr>
      else out\<lparr>cc_truncated := True\<rparr>)"

definition next_segment :: "bool \<Rightarrow> classify_command_t \<Rightarrow> classify_command_t" where
  "next_segment control out = out\<lparr>cc_control := cc_control out \<or> control, cc_segments := cc_segments out + 1\<rparr>"

definition control_char :: "char \<Rightarrow> bool" where
  "control_char ch \<longleftrightarrow> ch \<in> set '';&`$()''"

lemma word_charI:
  assumes "c \<noteq> CHR 0x00" "\<not> isspace c" "c \<noteq> CHR ''|''" "\<not> control_char c" "\<not> (c = CHR ''>'' \<or> c = CHR ''<'')"
  shows "word_char c"
  using assms by (auto simp: word_char_def control_char_def)

function classify_parse_loop :: "bool \<Rightarrow> classify_command_t \<Rightarrow> string \<Rightarrow> classify_command_t" where
  "classify_parse_loop after_redirect out [] = out"
| "classify_parse_loop after_redirect out (c # cs) =
     (if c = CHR 0x00 then out
      else if isspace c
      then classify_parse_loop after_redirect
             (if c = CHR 0x0A \<or> c = CHR 0x0D then next_segment True out else out) cs
      else if c = CHR ''|''
      then (let control = prefix ''|'' cs
            in classify_parse_loop False (next_segment control out) (if control then drop 1 cs else cs))
      else if c = backslash then classify_parse_loop after_redirect out cs
      else if prefix ''$ifs'' (c # cs) then classify_parse_loop after_redirect out (drop 3 cs)
      else if prefix ''${ifs}'' (c # cs) then classify_parse_loop after_redirect out (drop 5 cs)
      else if control_char c then classify_parse_loop False (next_segment True out) cs
      else if c = CHR ''>'' \<or> c = CHR ''<''
      then classify_parse_loop (c = CHR ''>'') (out\<lparr>cc_redirect := True\<rparr>) cs
      else if quote_char c then classify_parse_loop after_redirect out cs
      else
        let (w, rest) = word_loop (length (cc_tokens out) < CLASSIFY_MAX_TOKENS) word_start (c # cs)
        in classify_parse_loop False (store_word after_redirect w out) rest)"
  by pat_completeness auto
termination
proof (relation "measure (\<lambda>(_, _, cs). length cs)")
  fix after_redirect c cs p w rest and out :: classify_command_t
  assume a: "c \<noteq> CHR 0x00" "\<not> isspace c" "c \<noteq> CHR ''|''" "c \<noteq> backslash" "\<not> control_char c"
    "\<not> (c = CHR ''>'' \<or> c = CHR ''<'')" "\<not> quote_char c"
    and p: "p = word_loop (length (cc_tokens out) < CLASSIFY_MAX_TOKENS) word_start (c # cs)" "(w, rest) = p"
  have "length (snd p) < length (c # cs)" unfolding p(1)
    by (rule word_loop_progress [OF word_charI [OF a(1-3,5,6)] a(4,7)])
  then show "((False, store_word after_redirect w out, rest), (after_redirect, out, c # cs)) \<in> measure (\<lambda>(_, _, cs). length cs)"
    using p(2) by (cases p) simp
qed (simp_all add: less_Suc_eq_le)

declare classify_parse_loop.simps(2) [simp del]

definition classify_parse :: "string \<Rightarrow> classify_command_t" where
  "classify_parse command = classify_parse_loop False
     \<lparr>cc_tokens = [], cc_segments = 0, cc_control = False, cc_redirect = False, cc_truncated = False\<rparr> command"

section \<open>Word lists\<close>

definition SYSTEM_PREFIXES :: "string list" where
  "SYSTEM_PREFIXES = [''/etc'', ''/usr'', ''/boot'', ''/lib'', ''/lib64'', ''/bin'', ''/sbin'', ''/opt'',
     ''/var/lib'', ''/var/spool'', ''/var/log'', ''/sys'', ''/proc'', ''/root'', ''/srv'', ''/efi'']"

definition sensitive_markers :: "string list" where
  "sensitive_markers = [''shadow'', ''gshadow'', ''/.ssh/'', ''id_rsa'', ''id_ed25519'', ''id_ecdsa'',
     ''id_dsa'', ''.pem'', ''.p12'', ''.pfx'', ''.netrc'', ''.pgpass'', ''.git-credentials'', ''credentials'',
     ''secret'', ''token'', ''.env'', ''private'', ''sudoers'', ''.kube/config'', ''.docker/config'']"

definition irreversible_programs :: "string list" where
  "irreversible_programs = [''wipefs'', ''fdisk'', ''sfdisk'', ''cfdisk'', ''parted'', ''sgdisk'', ''gdisk'',
     ''shred'', ''poweroff'', ''shutdown'', ''halt'', ''blkdiscard'', ''mkswap'', ''cryptsetup'', ''zpool'',
     ''zfs'', ''lvremove'', ''vgremove'', ''pvremove'', ''dd'', ''telinit'', ''nvme'', ''hdparm'',
     ''flashrom'']"

definition system_programs :: "string list" where
  "system_programs = [''sudo'', ''su'', ''doas'', ''pkexec'', ''runuser'', ''chroot'', ''apt'', ''apt-get'',
     ''aptitude'', ''dnf'', ''yum'', ''pacman'', ''zypper'', ''apk'', ''snap'', ''flatpak'', ''useradd'',
     ''userdel'', ''usermod'', ''groupadd'', ''groupdel'', ''gpasswd'', ''passwd'', ''chpasswd'', ''chage'',
     ''visudo'', ''mount'', ''umount'', ''swapon'', ''swapoff'', ''modprobe'', ''insmod'', ''rmmod'',
     ''iptables'', ''ip6tables'', ''nft'', ''ufw'', ''firewall-cmd'', ''nmcli'', ''reboot'', ''kill'',
     ''killall'', ''pkill'', ''service'', ''update-grub'', ''grub-install'', ''grub-mkconfig'', ''efibootmgr'',
     ''setenforce'', ''chattr'', ''ldconfig'', ''depmod'', ''update-initramfs'', ''dracut'', ''mkinitcpio'',
     ''init'', ''sysctl'', ''timedatectl'', ''hostnamectl'', ''localectl'', ''loginctl'', ''machinectl'',
     ''dpkg'', ''rpm'', ''docker'', ''podman'', ''crontab'', ''at'', ''insserv'', ''update-rc.d'',
     ''chkconfig'', ''setcap'', ''ethtool'']"

definition writer_programs :: "string list" where
  "writer_programs = [''cp'', ''mv'', ''tee'', ''ln'', ''install'', ''touch'', ''mkdir'', ''rmdir'', ''rm'',
     ''truncate'', ''chmod'', ''chown'', ''chgrp'', ''rsync'', ''tar'', ''unzip'', ''sed'', ''curl'', ''wget'',
     ''patch'']"

definition systemctl_mutations :: "string list" where
  "systemctl_mutations = [''start'', ''stop'', ''restart'', ''reload'', ''try-restart'', ''reload-or-restart'',
     ''enable'', ''disable'', ''reenable'', ''mask'', ''unmask'', ''daemon-reload'', ''daemon-reexec'',
     ''isolate'', ''kill'', ''reset-failed'', ''set-property'', ''set-default'', ''edit'', ''link'',
     ''revert'', ''preset'', ''suspend'', ''hibernate'', ''reboot'', ''kexec'', ''default'', ''rescue'',
     ''emergency'']"

definition systemctl_off :: "string list" where
  "systemctl_off = [''poweroff'', ''halt'']"

definition ip_mutations :: "string list" where
  "ip_mutations = [''set'', ''add'', ''del'', ''delete'', ''flush'', ''change'', ''replace'', ''append'']"

definition read_flags_dpkg :: "string list" where
  "read_flags_dpkg = [''-l'', ''--list'', ''-s'', ''--status'', ''-L'', ''--listfiles'', ''-S'', ''--search'',
     ''--version'']"

definition read_docker :: "string list" where
  "read_docker = [''ps'', ''images'', ''version'', ''info'']"

definition runner_programs :: "string list" where
  "runner_programs = [''sudo'', ''doas'', ''su'', ''pkexec'', ''runuser'', ''env'', ''xargs'', ''nohup'',
     ''timeout'', ''nice'', ''ionice'', ''exec'', ''busybox'', ''sh'', ''bash'', ''zsh'', ''dash'', ''ksh'',
     ''eval'', ''watch'', ''time'', ''stdbuf'', ''setsid'', ''chroot'', ''find'', ''flock'', ''script'']"

definition shell_keywords :: "string list" where
  "shell_keywords = [''if'', ''then'', ''else'', ''elif'', ''do'', ''while'', ''until'', ''!'', ''{'']"

definition dmesg_clear :: "string list" where
  "dmesg_clear = [''-c'', ''-C'', ''--clear'', ''--read-clear'']"

definition read_programs :: "string list" where
  "read_programs = [''uname'', ''uptime'', ''whoami'', ''id'', ''df'', ''du'', ''free'', ''lsblk'', ''lscpu'',
     ''lsusb'', ''lspci'', ''lsmod'', ''lshw'', ''ls'', ''cat'', ''head'', ''tail'', ''wc'', ''stat'',
     ''file'', ''which'', ''whereis'', ''ps'', ''pgrep'', ''pidof'', ''pwd'', ''printenv'', ''nproc'',
     ''getent'', ''last'', ''lastlog'', ''w'', ''who'', ''groups'', ''ss'', ''netstat'', ''journalctl'',
     ''dmesg'', ''systemctl'', ''ip'', ''grep'', ''egrep'', ''fgrep'', ''zgrep'', ''sort'', ''uniq'', ''cut'',
     ''tr'', ''column'', ''find'', ''echo'', ''true'', ''sensors'', ''vmstat'', ''iostat'', ''mpstat'',
     ''lsof'', ''top'', ''hostname'', ''date'', ''hostnamectl'', ''timedatectl'', ''lsb_release'',
     ''sha256sum'', ''md5sum'', ''readlink'', ''realpath'', ''basename'', ''dirname'', ''nl'', ''dpkg'',
     ''rpm'', ''docker'', ''podman'', ''sysctl'', ''crontab'', ''env'']"

definition systemctl_reads :: "string list" where
  "systemctl_reads = [''status'', ''is-active'', ''is-enabled'', ''is-failed'', ''list-units'',
     ''list-unit-files'', ''list-timers'', ''list-sockets'', ''show'', ''cat'', ''list-dependencies'',
     ''--version'', ''--failed'']"

definition find_effects :: "string list" where
  "find_effects = [''-delete'', ''-exec'', ''-execdir'', ''-ok'', ''-okdir'', ''-fprint'', ''-fprint0'',
     ''-fprintf'', ''-fls'']"

lemmas word_lists = SYSTEM_PREFIXES_def sensitive_markers_def irreversible_programs_def system_programs_def
  writer_programs_def systemctl_mutations_def systemctl_off_def ip_mutations_def read_flags_dpkg_def read_docker_def
  runner_programs_def shell_keywords_def dmesg_clear_def read_programs_def systemctl_reads_def find_effects_def

section \<open>Classification\<close>

text \<open>\<open>in_list word list\<close> is \<open>word \<in> set list\<close> and \<open>starts_with value prefix\<close> is \<open>prefix prefix value\<close>.\<close>

definition assignment_word :: "string \<Rightarrow> bool" where
  "assignment_word token =
     (case token of
        [] \<Rightarrow> False
      | c # _ \<Rightarrow> (isalpha c \<or> c = CHR ''_'') \<and> prefix ''='' (dropWhile (\<lambda>c. isalnum c \<or> c = CHR ''_'') token))"

definition program_name :: "string \<Rightarrow> string" where
  "program_name token = rev (takeWhile (\<lambda>c. c \<noteq> CHR ''/'') (rev token))"

text \<open>The later words of the segment of a token: \<open>rest\<close> are the tokens after it.\<close>

definition segment_args :: "classify_token_t \<Rightarrow> classify_token_t list \<Rightarrow> string list" where
  "segment_args t rest = map tk_text (takeWhile (\<lambda>a. tk_segment a = tk_segment t) rest)"

definition segment_has :: "string list \<Rightarrow> string list \<Rightarrow> bool" where
  "segment_has args words = list_ex (\<lambda>a. a \<in> set words) args"

definition segment_has_prefix :: "string list \<Rightarrow> string \<Rightarrow> bool" where
  "segment_has_prefix args p = list_ex (\<lambda>a. prefix p a) args"

definition recursive_rm :: "string list \<Rightarrow> bool" where
  "recursive_rm args = list_ex (\<lambda>a. a = ''--recursive'' \<or>
     (prefix ''-'' a \<and> \<not> prefix ''--'' a \<and> (CHR ''r'' \<in> set a \<or> CHR ''R'' \<in> set a))) args"

definition system_path :: "string \<Rightarrow> bool" where
  "system_path path \<longleftrightarrow> path = ''/'' \<or>
     list_ex (\<lambda>p. prefix p path \<and> (length path = length p \<or> path ! length p = CHR ''/'')) SYSTEM_PREFIXES"

definition sensitive_token :: "string \<Rightarrow> bool" where
  "sensitive_token token \<longleftrightarrow> list_ex (\<lambda>m. sublist m token) sensitive_markers \<or>
     (length token > 4 \<and> drop (length token - 4) token = ''.key'')"

text \<open>The loop over the \<open>>\<close> characters of the raw command.\<close>

fun device_redirect :: "string \<Rightarrow> bool" where
  "device_redirect [] = False"
| "device_redirect (c # cs) =
     ((c = CHR ''>'' \<and>
       (let target = dropWhile (\<lambda>d. d = CHR ''>'' \<or> d = CHR ''|'' \<or> isspace d) cs
        in prefix ''/dev/'' target \<and> \<not> prefix ''/dev/null'' target)) \<or>
      device_redirect cs)"

definition runner_segments :: "classify_token_t list \<Rightarrow> nat list" where
  "runner_segments ts = map tk_segment (filter (\<lambda>t. program_name (tk_text t) \<in> set runner_programs) ts)"

text \<open>
  A command word: None is \<open>return SI_AGENT_ACTION_IRREVERSIBLE\<close>, otherwise whether it is a hit for the
  system class.
\<close>

definition classify_command_word :: "string \<Rightarrow> bool \<Rightarrow> classify_token_t \<Rightarrow> classify_token_t list \<Rightarrow> bool option" where
  "classify_command_word raw control t rest =
     (let program = program_name (tk_text t); args = segment_args t rest in
      if program \<in> set irreversible_programs then None
      else if program = ''rm'' \<and> recursive_rm args then None
      else if program = ''systemctl''
      then if segment_has args systemctl_off then None else Some (segment_has args systemctl_mutations)
      else if (program = ''init'' \<or> program = ''telinit'') \<and> rest \<noteq> [] \<and> tk_text (hd rest) = ''0'' then None
      else if program = ''ip'' then Some (segment_has args ip_mutations)
      else if program = ''journalctl''
      then Some (segment_has_prefix args ''--vacuum'' \<or> segment_has_prefix args ''--rotate'' \<or>
                 segment_has_prefix args ''--flush'')
      else if program = ''dmesg'' then Some (segment_has args dmesg_clear)
      else if program = ''dpkg'' \<and> segment_has args read_flags_dpkg \<and> \<not> control then Some False
      else if program = ''rpm'' \<and> segment_has_prefix args ''-q'' \<and> \<not> control then Some False
      else if (program = ''docker'' \<or> program = ''podman'') \<and> args \<noteq> [] \<and> hd args \<in> set read_docker then Some False
      else if (program = ''hostnamectl'' \<or> program = ''timedatectl'') \<and> (args = [] \<or> hd args = ''status'')
      then Some False
      else if program = ''sysctl'' \<and> \<not> segment_has args [''-w'', ''-p'', ''--write'', ''--load''] \<and>
              CHR ''='' \<notin> set raw
      then Some False
      else if program = ''crontab'' \<and> segment_has args [''-l''] \<and> \<not> segment_has args [''-r'', ''-e'']
      then Some False
      else if program \<in> set system_programs then Some True
      else if program \<in> set writer_programs then Some (list_ex system_path args)
      else Some False)"

record scan_state =
  sc_system_hit :: bool
  sc_prefix_open :: bool
  sc_after_builtin :: bool
  sc_assignment_seen :: bool

text \<open>What a token in the prefix of a simple command does to the scan.\<close>

definition scan_prefix :: "string \<Rightarrow> scan_state \<Rightarrow> scan_state" where
  "scan_prefix token s =
     (if \<not> sc_prefix_open s then s
      else if token = ''command'' \<or> token = ''builtin'' then s\<lparr>sc_after_builtin := True\<rparr>
      else if assignment_word token then s\<lparr>sc_assignment_seen := True\<rparr>
      else if token \<notin> set shell_keywords \<and> \<not> (sc_after_builtin s \<and> prefix ''-'' token)
      then s\<lparr>sc_prefix_open := False\<rparr>
      else s)"

text \<open>The loop over the tokens; \<open>prev\<close> is the segment of the token before.\<close>

fun scan_tokens :: "string \<Rightarrow> bool \<Rightarrow> nat list \<Rightarrow> nat option \<Rightarrow> scan_state \<Rightarrow> classify_token_t list \<Rightarrow>
    si_agent_action_class_t" where
  "scan_tokens raw control runners prev s [] =
     (if sc_system_hit s then SI_AGENT_ACTION_SYSTEM else SI_AGENT_ACTION_OPERATE)"
| "scan_tokens raw control runners prev s (t # rest) =
     (let s = (if prev \<noteq> Some (tk_segment t) then s\<lparr>sc_prefix_open := True, sc_after_builtin := False\<rparr> else s);
          command_word = (sc_prefix_open s \<or> sc_assignment_seen s \<or> tk_segment t \<in> set runners);
          s = scan_prefix (tk_text t) s
      in if prefix ''of=/dev/'' (tk_text t) \<or> prefix ''mkfs'' (program_name (tk_text t))
         then SI_AGENT_ACTION_IRREVERSIBLE
         else
           let s = (if sensitive_token (tk_text t) \<or> (tk_after_redirect t \<and> system_path (tk_text t))
                    then s\<lparr>sc_system_hit := True\<rparr> else s)
           in if \<not> command_word then scan_tokens raw control runners (Some (tk_segment t)) s rest
              else (case classify_command_word raw control t rest of
                      None \<Rightarrow> SI_AGENT_ACTION_IRREVERSIBLE
                    | Some hit \<Rightarrow> scan_tokens raw control runners (Some (tk_segment t))
                                   (s\<lparr>sc_system_hit := sc_system_hit s \<or> hit\<rparr>) rest))"

declare scan_tokens.simps(2) [simp del]

definition classify_irreversible_or_system :: "string \<Rightarrow> classify_command_t \<Rightarrow> si_agent_action_class_t" where
  "classify_irreversible_or_system raw cmd =
     (if sublist '':(){'' raw \<or> sublist '':() {'' raw then SI_AGENT_ACTION_IRREVERSIBLE
      else if device_redirect raw then SI_AGENT_ACTION_IRREVERSIBLE
      else scan_tokens raw (cc_control cmd) (runner_segments (cc_tokens cmd)) None
             \<lparr>sc_system_hit = False, sc_prefix_open = False, sc_after_builtin = False, sc_assignment_seen = False\<rparr>
             (cc_tokens cmd))"

definition read_only_segment :: "classify_token_t \<Rightarrow> classify_token_t list \<Rightarrow> bool" where
  "read_only_segment t rest =
     (let program = program_name (tk_text t); args = segment_args t rest in
      if program \<notin> set read_programs then False
      else if program = ''env'' then args = []
      else if program = ''find'' then \<not> segment_has args find_effects
      else if program = ''top'' then segment_has_prefix args ''-b''
      else if program = ''hostname''
      then list_all (\<lambda>a. prefix ''-'' a \<and> a \<notin> set [''-b'', ''-f'', ''--file'', ''--boot'']) args
      else if program = ''date'' then \<not> segment_has args [''-s'', ''--set''] \<and> \<not> segment_has_prefix args ''--set=''
      else if program = ''systemctl'' then args = [] \<or> segment_has args systemctl_reads
      else if program = ''crontab'' then segment_has args [''-l'']
      else True)"

fun all_read_only :: "nat option \<Rightarrow> classify_token_t list \<Rightarrow> bool" where
  "all_read_only prev [] = True"
| "all_read_only prev (t # rest) =
     ((prev \<noteq> Some (tk_segment t) \<longrightarrow> read_only_segment t rest) \<and> all_read_only (Some (tk_segment t)) rest)"

text \<open>The first argument says whether the buffer for the tokens could be allocated.\<close>

definition si_agent_classify_shell_command :: "bool \<Rightarrow> string option \<Rightarrow> si_agent_action_class_t" where
  "si_agent_classify_shell_command allocated command =
     (case command of None \<Rightarrow> SI_AGENT_ACTION_IRREVERSIBLE
      | Some cs \<Rightarrow>
          if cs = [] \<or> length cs > CLASSIFY_MAX_COMMAND then SI_AGENT_ACTION_IRREVERSIBLE
          else if \<not> allocated then SI_AGENT_ACTION_IRREVERSIBLE
          else
            let lowered = map tolower cs; parsed = classify_parse lowered in
            if cc_tokens parsed = [] then SI_AGENT_ACTION_IRREVERSIBLE
            else if cc_truncated parsed then SI_AGENT_ACTION_SYSTEM
            else
              let result = classify_irreversible_or_system lowered parsed in
              if result = SI_AGENT_ACTION_OPERATE \<and> \<not> cc_control parsed \<and> \<not> cc_redirect parsed
              then if all_read_only None (cc_tokens parsed) then SI_AGENT_ACTION_READ else SI_AGENT_ACTION_OPERATE
              else result)"

definition si_agent_classify_path_write :: "string option \<Rightarrow> si_agent_action_class_t" where
  "si_agent_classify_path_write path =
     (case path of None \<Rightarrow> SI_AGENT_ACTION_IRREVERSIBLE
      | Some cs \<Rightarrow>
          if cs = [] then SI_AGENT_ACTION_IRREVERSIBLE
          else if length cs \<ge> CLASSIFY_MAX_TOKEN then SI_AGENT_ACTION_SYSTEM
          else
            let lowered = map tolower cs in
            if sublist ''..'' lowered then SI_AGENT_ACTION_SYSTEM
            else if prefix ''/dev/'' lowered
            then (if lowered = ''/dev/null'' then SI_AGENT_ACTION_OPERATE else SI_AGENT_ACTION_IRREVERSIBLE)
            else if system_path lowered then SI_AGENT_ACTION_SYSTEM
            else if \<not> prefix ''/'' lowered \<or> prefix ''/home/'' lowered \<or> prefix ''/tmp/'' lowered \<or>
                    prefix ''/var/tmp/'' lowered \<or> prefix ''~'' lowered
            then (if sensitive_token lowered then SI_AGENT_ACTION_SYSTEM else SI_AGENT_ACTION_OPERATE)
            else SI_AGENT_ACTION_SYSTEM)"

end
