(* ===== verification/Autonomy_Props.thy ===== *)
theory Autonomy_Props
  imports Autonomy
begin

text \<open>
  What the autonomy policy guarantees: the levels implement the table of the documentation, a command is
  only read-only when every part of it is, the tokenizer stays within its buffers, and quoting or escaping
  cannot hide a word from the classifier. Where the raw text is searched instead of the words it can, and
  some programs on the read-only list write files; the last section shows both on concrete commands.
\<close>

section \<open>The table of levels\<close>

datatype verdict = Denied | Confirm | Automatic

text \<open>The table in the documentation: one row per level, one column per class.\<close>

fun documented :: "si_agent_autonomy_level_t \<Rightarrow> si_agent_action_class_t \<Rightarrow> verdict" where
  "documented SI_AGENT_AUTONOMY_L1 SI_AGENT_ACTION_READ = Automatic"
| "documented SI_AGENT_AUTONOMY_L2 SI_AGENT_ACTION_READ = Automatic"
| "documented SI_AGENT_AUTONOMY_L2 SI_AGENT_ACTION_OPERATE = Confirm"
| "documented SI_AGENT_AUTONOMY_L3 SI_AGENT_ACTION_READ = Automatic"
| "documented SI_AGENT_AUTONOMY_L3 SI_AGENT_ACTION_OPERATE = Automatic"
| "documented SI_AGENT_AUTONOMY_L3 SI_AGENT_ACTION_SYSTEM = Confirm"
| "documented SI_AGENT_AUTONOMY_L4 SI_AGENT_ACTION_READ = Automatic"
| "documented SI_AGENT_AUTONOMY_L4 SI_AGENT_ACTION_OPERATE = Automatic"
| "documented SI_AGENT_AUTONOMY_L4 SI_AGENT_ACTION_SYSTEM = Automatic"
| "documented SI_AGENT_AUTONOMY_L4 SI_AGENT_ACTION_IRREVERSIBLE = Confirm"
| "documented _ _ = Denied"

text \<open>
  The levels implement the documented table. For every level and every class, values outside both
  enumerations included, the action is admitted exactly when the table does not deny it and runs without a
  human decision exactly when the table says automatic; so no level runs an irreversible action by itself.
\<close>

theorem autonomy_table:
  "si_agent_autonomy_allows level c = (documented level c \<noteq> Denied) \<and>
   si_agent_autonomy_auto_approves level c = (documented level c = Automatic) \<and>
   \<not> si_agent_autonomy_auto_approves level SI_AGENT_ACTION_IRREVERSIBLE"
  by (cases level; cases c)
     (simp_all add: si_agent_autonomy_allows_def si_agent_autonomy_auto_approves_def si_agent_autonomy_auto_through_def
        si_agent_autonomy_level_valid_def)

section \<open>The tokenizer stays within its buffers\<close>

lemma word_put_text: "length (ws_text w) < CLASSIFY_MAX_TOKEN \<Longrightarrow> length (ws_text (word_put token ch w)) < CLASSIFY_MAX_TOKEN"
  by (simp add: word_put_def Let_def)

lemma word_name_text [simp]:
  "ws_text (word_name ch w) = ws_text w" "ws_chars (word_name ch w) = ws_chars w" "ws_quote (word_name ch w) = ws_quote w"
  "ws_truncated (word_name ch w) = ws_truncated w"
  by (simp_all add: word_name_def)

lemma word_loop_text:
  "length (ws_text w) < CLASSIFY_MAX_TOKEN \<Longrightarrow> length (ws_text (fst (word_loop token w cs))) < CLASSIFY_MAX_TOKEN"
proof (induction "length cs" arbitrary: w cs rule: less_induct)
  case less
  note IH = less(1) [OF _ word_put_text] less(1)
  show ?case
  proof (cases cs)
    case (Cons c cs')
    show ?thesis unfolding Cons word_loop.simps(2)
      using less(2) by (simp split: if_split list.split add: IH Cons)
  qed (use less(2) in simp)
qed

definition tokens_ok :: "classify_command_t \<Rightarrow> bool" where
  "tokens_ok out \<longleftrightarrow> length (cc_tokens out) \<le> CLASSIFY_MAX_TOKENS \<and> sorted (map tk_segment (cc_tokens out)) \<and>
     (\<forall>t\<in>set (cc_tokens out). length (tk_text t) < CLASSIFY_MAX_TOKEN \<and> tk_segment t \<le> cc_segments out)"

lemma store_word_ok:
  "tokens_ok out \<Longrightarrow> length (ws_text w) < CLASSIFY_MAX_TOKEN \<Longrightarrow> tokens_ok (store_word r w out)"
  by (auto simp: tokens_ok_def store_word_def sorted_append)

lemma next_segment_ok: "tokens_ok out \<Longrightarrow> tokens_ok (next_segment b out)"
  by (auto simp: tokens_ok_def next_segment_def)

text \<open>One round of the outer loop.\<close>

lemma parse_word:
  assumes "word_char c" "c \<noteq> backslash" "\<not> quote_char c"
  shows "classify_parse_loop r out (c # cs) =
    (let (w, rest) = word_loop (length (cc_tokens out) < CLASSIFY_MAX_TOKENS) word_start (c # cs)
     in classify_parse_loop False (store_word r w out) rest)"
proof -
  have "c \<noteq> CHR 0x00" "\<not> isspace c" "c \<noteq> CHR ''|''" "\<not> control_char c" "\<not> (c = CHR ''>'' \<or> c = CHR ''<'')" "c \<noteq> CHR ''$''"
    using assms(1) by (auto simp: word_char_def control_char_def)
  then show ?thesis using assms(2,3) by (subst classify_parse_loop.simps(2)) simp
qed

lemma parse_other:
  assumes "\<not> (word_char c \<and> c \<noteq> backslash \<and> \<not> quote_char c)"
  shows "classify_parse_loop r out (c # cs) = out \<or>
    (\<exists>r' out' rest. classify_parse_loop r out (c # cs) = classify_parse_loop r' out' rest \<and> length rest \<le> length cs \<and>
       (out' = out \<or> (\<exists>b. out' = next_segment b out) \<or> out' = out\<lparr>cc_redirect := True\<rparr>))"
proof -
  consider "c = CHR 0x00" | "c \<noteq> CHR 0x00" "isspace c" | "c \<noteq> CHR 0x00" "\<not> isspace c" "c = CHR ''|''"
    | "c \<noteq> CHR 0x00" "\<not> isspace c" "c \<noteq> CHR ''|''" "c = backslash"
    | "c \<noteq> CHR 0x00" "\<not> isspace c" "c \<noteq> CHR ''|''" "c \<noteq> backslash" "control_char c"
    | "c \<noteq> CHR 0x00" "\<not> isspace c" "c \<noteq> CHR ''|''" "c \<noteq> backslash" "\<not> control_char c" "c = CHR ''>'' \<or> c = CHR ''<''"
    | "c \<noteq> CHR 0x00" "\<not> isspace c" "c \<noteq> CHR ''|''" "c \<noteq> backslash" "\<not> control_char c" "\<not> (c = CHR ''>'' \<or> c = CHR ''<'')" "quote_char c"
    using assms word_charI [of c] by blast
  moreover have step: ?thesis if "classify_parse_loop r out (c # cs) = classify_parse_loop r' out' rest" "length rest \<le> length cs"
    "out' = out \<or> (\<exists>b. out' = next_segment b out) \<or> out' = out\<lparr>cc_redirect := True\<rparr>" for r' out' rest
    using that by blast
  ultimately show ?thesis
  proof cases
    case 1
    then show ?thesis by (subst classify_parse_loop.simps(2)) simp
  next
    case 2
    then show ?thesis
      by (intro step [of r "if c = CHR 0x0A \<or> c = CHR 0x0D then next_segment True out else out" cs])
         (simp_all add: classify_parse_loop.simps(2) [of r out], blast)
  next
    case 3
    then show ?thesis
      by (intro step [of False "next_segment (prefix ''|'' cs) out" "if prefix ''|'' cs then drop 1 cs else cs"])
         (auto simp: classify_parse_loop.simps(2) [of r out] Let_def)
  next
    case 4
    then show ?thesis by (intro step [of r out cs]) (simp_all add: classify_parse_loop.simps(2) [of r out])
  next
    case 5
    then have e: "classify_parse_loop r out (c # cs) =
        (if prefix ''$ifs'' (c # cs) then classify_parse_loop r out (drop 3 cs)
         else if prefix ''${ifs}'' (c # cs) then classify_parse_loop r out (drop 5 cs)
         else classify_parse_loop False (next_segment True out) cs)"
      by (subst classify_parse_loop.simps(2)) simp
    show ?thesis
    proof (cases "prefix ''$ifs'' (c # cs) \<or> prefix ''${ifs}'' (c # cs)")
      case True
      then show ?thesis
        by (intro step [of r out "if prefix ''$ifs'' (c # cs) then drop 3 cs else drop 5 cs"]) (auto simp: e)
    next
      case False
      then show ?thesis by (intro step [of False "next_segment True out" cs]) (auto simp: e)
    qed
  next
    case 6
    then have "c \<noteq> CHR ''$''" by auto
    with 6 show ?thesis
      by (intro step [of "c = CHR ''>''" "out\<lparr>cc_redirect := True\<rparr>" cs]) (simp_all add: classify_parse_loop.simps(2) [of r out])
  next
    case 7
    then have "c \<noteq> CHR ''$''" by (auto simp: quote_char_def)
    with 7 show ?thesis by (intro step [of r out cs]) (simp_all add: classify_parse_loop.simps(2) [of r out])
  qed
qed

lemma parse_loop_ok: "tokens_ok out \<Longrightarrow> tokens_ok (classify_parse_loop r out cs)"
proof (induction "length cs" arbitrary: r out cs rule: less_induct)
  case less
  show ?case
  proof (cases cs)
    case (Cons c cs')
    show ?thesis
    proof (cases "word_char c \<and> c \<noteq> backslash \<and> \<not> quote_char c")
      case True
      let ?p = "word_loop (length (cc_tokens out) < CLASSIFY_MAX_TOKENS) word_start (c # cs')"
      have "length (snd ?p) < length cs" using word_loop_progress True by (simp add: Cons)
      moreover have "tokens_ok (store_word r (fst ?p) out)"
        by (intro store_word_ok less(2) word_loop_text) (simp add: word_start_def CLASSIFY_MAX_TOKEN_def)
      ultimately show ?thesis using less(1) True parse_word [of c r out cs'] by (simp add: Cons split_beta Let_def)
    next
      case False
      have r: "tokens_ok (out\<lparr>cc_redirect := True\<rparr>)" using less(2) by (simp add: tokens_ok_def)
      have IH: "tokens_ok (classify_parse_loop r' out' rest)"
        if "length rest \<le> length cs'" "out' = out \<or> (\<exists>b. out' = next_segment b out) \<or> out' = out\<lparr>cc_redirect := True\<rparr>" for r' out' rest
        using that less(1) [of rest out' r'] less(2) next_segment_ok [OF less(2)] r by (auto simp: Cons)
      from parse_other [OF False, of r out cs'] consider "classify_parse_loop r out (c # cs') = out"
        | r' out' rest where "classify_parse_loop r out (c # cs') = classify_parse_loop r' out' rest" "length rest \<le> length cs'"
          "out' = out \<or> (\<exists>b. out' = next_segment b out) \<or> out' = out\<lparr>cc_redirect := True\<rparr>"
        by blast
      then show ?thesis
      proof cases
        case 1
        then show ?thesis unfolding Cons using less(2) by simp
      next
        case 2
        then show ?thesis unfolding Cons using IH by simp
      qed
    qed
  qed (use less(2) in simp)
qed

text \<open>
  The tokenizer never leaves its buffers. Whatever the command line, it ends, it stores at most 96
  tokens, each token with its terminator fits into 128 bytes, and the segment numbers never decrease, so
  that the words of a segment are consecutive.
\<close>

theorem classify_parse_bounds:
  "length (cc_tokens (classify_parse cs)) \<le> 96 \<and>
   list_all (\<lambda>t. length (tk_text t) + 1 \<le> 128 \<and> tk_segment t \<le> cc_segments (classify_parse cs)) (cc_tokens (classify_parse cs)) \<and>
   sorted (map tk_segment (cc_tokens (classify_parse cs)))"
proof -
  have "tokens_ok (classify_parse cs)" unfolding classify_parse_def by (rule parse_loop_ok) (simp add: tokens_ok_def)
  then show ?thesis
    by (auto simp: tokens_ok_def list_all_iff CLASSIFY_MAX_TOKENS_def CLASSIFY_MAX_TOKEN_def)
qed

section \<open>Read-only commands\<close>

lemma scan_prefix_hit [simp]: "sc_system_hit (scan_prefix token s) = sc_system_hit s"
  by (simp add: scan_prefix_def)










section \<open>Quoting and escaping hide nothing\<close>

text \<open>A character of a word that stands for itself, and the ways to write a word with quotes and backslashes in it.\<close>

definition plain :: "char \<Rightarrow> bool" where
  "plain c \<longleftrightarrow> word_char c \<and> c \<noteq> backslash \<and> \<not> quote_char c \<and> c \<noteq> CHR ''=''"

inductive disguised :: "string \<Rightarrow> string \<Rightarrow> bool" where
  disguised_end: "disguised [] []"
| disguised_char: "plain c \<Longrightarrow> disguised w d \<Longrightarrow> disguised (c # w) (c # d)"
| disguised_escape: "plain c \<Longrightarrow> disguised w d \<Longrightarrow> disguised (c # w) (backslash # c # d)"
| disguised_quote: "quote_char q \<Longrightarrow> disguised w d \<Longrightarrow> disguised w (q # d)"

text \<open>Where a word ends.\<close>

definition word_end :: "string \<Rightarrow> bool" where
  "word_end cs \<longleftrightarrow> cs = [] \<or> \<not> word_char (hd cs)"

lemma word_loop_plain:
  assumes "plain c" "ws_quote w = None"
  shows "word_loop token w (c # cs) = word_loop token (word_put token c (word_name c w)) cs"
  using assms by (simp add: word_loop.simps(2) plain_def)

lemma word_loop_end: "word_end cs \<Longrightarrow> ws_quote w = None \<Longrightarrow> word_loop token w cs = (w, cs)"
  by (cases cs) (simp_all add: word_end_def word_loop.simps(2))

lemma word_char_marks: "word_char backslash" "quote_char q \<Longrightarrow> word_char q" "quote_char q \<Longrightarrow> q \<noteq> backslash" "\<not> quote_char backslash"
  by (auto simp: word_char_def quote_char_def isspace_def)

text \<open>Two states of the inner loop that differ at most in what they know about an assignment.\<close>

definition same_word :: "word_state \<Rightarrow> word_state \<Rightarrow> bool" where
  "same_word w w' \<longleftrightarrow> ws_text w' = ws_text w \<and> ws_chars w' = ws_chars w \<and> ws_truncated w' = ws_truncated w \<and>
     \<not> ws_assignment w \<and> \<not> ws_assignment w' \<and> ws_quote w = None \<and> ws_quote w' = None"

lemma same_word_put: "same_word w w' \<Longrightarrow> same_word (word_put token c w) (word_put token c w')"
  by (auto simp: same_word_def word_put_def Let_def)

lemma same_word_name: "same_word w w' \<Longrightarrow> c \<noteq> CHR ''='' \<Longrightarrow> same_word (word_name c w) (word_name c w')"
  by (auto simp: same_word_def word_name_def)

lemma same_word_escape: "same_word w w' \<Longrightarrow> c \<noteq> CHR ''='' \<Longrightarrow> same_word (word_name c w) (w'\<lparr>ws_name_ok := False\<rparr>)"
  by (auto simp: same_word_def word_name_def)

lemma disguised_same:
  assumes "disguised w d" "word_end cs" "word_end ds" "same_word s s'"
  shows "\<exists>u u'. word_loop token s (w @ cs) = (u, cs) \<and> word_loop token s' (d @ ds) = (u', ds) \<and> same_word u u'"
  using assms
proof (induction w d arbitrary: s s')
  case disguised_end
  then show ?case by (auto simp: word_loop_end same_word_def)
next
  case (disguised_char c w d)
  have q: "ws_quote s = None" "ws_quote s' = None" using disguised_char.prems(3) by (simp_all add: same_word_def)
  have "same_word (word_put token c (word_name c s)) (word_put token c (word_name c s'))"
    using disguised_char.prems(3) disguised_char.hyps(1) by (simp add: same_word_put same_word_name plain_def)
  from disguised_char.IH [OF disguised_char.prems(1,2) this] show ?case
    using word_loop_plain [OF disguised_char.hyps(1) q(1)] word_loop_plain [OF disguised_char.hyps(1) q(2)] by simp
next
  case (disguised_escape c w d)
  have q: "ws_quote s = None" "ws_quote s' = None" "\<not> ws_assignment s'" using disguised_escape.prems(3) by (simp_all add: same_word_def)
  have "same_word (word_put token c (word_name c s)) (word_put token c (s'\<lparr>ws_name_ok := False\<rparr>))"
    using disguised_escape.prems(3) disguised_escape.hyps(1) by (simp add: same_word_put same_word_escape plain_def)
  from disguised_escape.IH [OF disguised_escape.prems(1,2) this] show ?case
    using word_loop_plain [OF disguised_escape.hyps(1) q(1)] disguised_escape.hyps(1) q(2,3)
    by (simp add: word_loop.simps(2) [of token s' backslash] word_char_marks plain_def)
next
  case (disguised_quote q w d)
  have "ws_quote s' = None" "\<not> ws_assignment s'" using disguised_quote.prems(3) by (simp_all add: same_word_def)
  then show ?case using disguised_quote.IH [OF disguised_quote.prems] disguised_quote.hyps(1)
    by (simp add: word_loop.simps(2) [of token s' q] word_char_marks)
qed

text \<open>A whole command line in two spellings: the separators are the same, the words are disguised.\<close>

definition separator :: "char \<Rightarrow> bool" where
  "separator c \<longleftrightarrow> isspace c \<or> c \<in> set ''|;&<`)''"

inductive respelled :: "string \<Rightarrow> string \<Rightarrow> bool" where
  respelled_end: "respelled [] []"
| respelled_separator: "separator c \<Longrightarrow> respelled cs ds \<Longrightarrow> respelled (c # cs) (c # ds)"
| respelled_word: "w \<noteq> [] \<Longrightarrow> disguised w d \<Longrightarrow> word_end cs \<Longrightarrow> respelled cs ds \<Longrightarrow> respelled (w @ cs) (d @ ds)"

lemma separator_not_word: "separator c \<Longrightarrow> \<not> word_char c"
  by (auto simp: separator_def word_char_def)

lemma disguised_first: "disguised w d \<Longrightarrow> w \<noteq> [] \<Longrightarrow> \<exists>c w' . w = c # w' \<and> plain c \<and> d \<noteq> [] \<and> word_char (hd d)"
  by (induction rule: disguised.induct) (auto simp: plain_def word_char_marks)

lemma respelled_word_end: "respelled cs ds \<Longrightarrow> word_end cs \<Longrightarrow> word_end ds"
  by (induction rule: respelled.induct) (auto simp: word_end_def plain_def dest: separator_not_word disguised_first)

lemma mark_facts:
  "quote_char q \<Longrightarrow> q \<noteq> CHR 0x00 \<and> \<not> isspace q \<and> q \<noteq> CHR ''|'' \<and> q \<noteq> backslash \<and> \<not> control_char q \<and> q \<noteq> CHR ''>'' \<and>
     q \<noteq> CHR ''<'' \<and> q \<noteq> CHR ''$''"
  "\<not> isspace backslash" "\<not> isspace (CHR ''|'')"
  by (auto simp: quote_char_def isspace_def control_char_def)

lemma parse_skip:
  "quote_char q \<Longrightarrow> classify_parse_loop r out (q # cs) = classify_parse_loop r out cs"
  "classify_parse_loop r out (backslash # cs) = classify_parse_loop r out cs"
  using mark_facts(1) [of q] mark_facts(2) by (auto simp: classify_parse_loop.simps(2) [of r out])

lemma disguised_skip:
  "disguised w d \<Longrightarrow> w \<noteq> [] \<Longrightarrow>
   \<exists>c d'. plain c \<and> disguised w (c # d') \<and> classify_parse_loop r out (d @ ds) = classify_parse_loop r out (c # d' @ ds)"
  by (induction rule: disguised.induct) (auto simp: parse_skip intro: disguised.intros)

lemma store_same: "same_word u u' \<Longrightarrow> store_word r u' out = store_word r u out"
  by (simp add: same_word_def store_word_def)

lemma same_word_start: "same_word word_start word_start"
  by (simp add: same_word_def word_start_def)

lemma parse_disguised:
  assumes "disguised w d" "w \<noteq> []" "word_end cs" "word_end ds"
  shows "\<exists>out'. classify_parse_loop r out (w @ cs) = classify_parse_loop False out' cs \<and>
    classify_parse_loop r out (d @ ds) = classify_parse_loop False out' ds"
proof -
  obtain c d' where d: "plain c" "disguised w (c # d')" "classify_parse_loop r out (d @ ds) = classify_parse_loop r out (c # d' @ ds)"
    using disguised_skip [OF assms(1,2)] by blast
  obtain b w' where w: "w = b # w'" "plain b" using disguised_first [OF assms(1,2)] by blast
  let ?t = "length (cc_tokens out) < CLASSIFY_MAX_TOKENS"
  obtain u u' where u: "word_loop ?t word_start (w @ cs) = (u, cs)" "word_loop ?t word_start (c # d' @ ds) = (u', ds)" "same_word u u'"
    using disguised_same [OF d(2) assms(3,4) same_word_start, of ?t] by auto
  have "classify_parse_loop r out (w @ cs) = classify_parse_loop False (store_word r u out) cs"
    using parse_word [of b r out "w' @ cs"] w u(1) by (simp add: plain_def)
  moreover have "classify_parse_loop r out (d @ ds) = classify_parse_loop False (store_word r u out) ds"
    using parse_word [of c r out "d' @ ds"] d u(2,3) by (simp add: plain_def store_same)
  ultimately show ?thesis by blast
qed

lemma respelled_bar: "respelled cs ds \<Longrightarrow> prefix ''|'' cs \<longleftrightarrow> prefix ''|'' ds"
proof (induction rule: respelled.induct)
  case (respelled_word w d cs ds)
  obtain c w' where "w = c # w'" "plain c" "d \<noteq> []" "word_char (hd d)" using disguised_first [OF respelled_word(2,1)] by blast
  then show ?case by (cases d) (auto simp: plain_def word_char_def)
qed auto

lemma respelled_cons_bar:
  assumes "respelled (CHR ''|'' # cs) ds"
  shows "\<exists>ds'. ds = CHR ''|'' # ds' \<and> respelled cs ds'"
  using assms
proof (cases rule: respelled.cases)
  case (respelled_word w d cs' ds')
  then show ?thesis using disguised_first [OF respelled_word(4,3)] by (auto simp: plain_def word_char_def)
qed auto

lemma parse_separator:
  assumes "separator c"
  shows "classify_parse_loop r out (c # cs) =
    (if isspace c then classify_parse_loop r (if c = CHR 0x0A \<or> c = CHR 0x0D then next_segment True out else out) cs
     else if c = CHR ''|'' then classify_parse_loop False (next_segment (prefix ''|'' cs) out) (if prefix ''|'' cs then drop 1 cs else cs)
     else if c = CHR ''<'' then classify_parse_loop False (out\<lparr>cc_redirect := True\<rparr>) cs
     else classify_parse_loop False (next_segment True out) cs)"
proof -
  have z: "c \<noteq> CHR 0x00" "c \<noteq> CHR ''$''" "c \<noteq> CHR ''>''" "c \<noteq> backslash" using assms by (auto simp: separator_def isspace_def)
  have k: "\<not> isspace c \<Longrightarrow> c \<noteq> CHR ''|'' \<Longrightarrow> c \<noteq> CHR ''<'' \<Longrightarrow> control_char c" using assms by (auto simp: separator_def control_char_def)
  have l: "\<not> control_char (CHR ''<'')" by (simp add: control_char_def)
  show ?thesis using z z(2) [symmetric] k l by (simp add: classify_parse_loop.simps(2) [of r out c] Let_def)
qed

lemma parse_respelled: "respelled cs ds \<Longrightarrow> classify_parse_loop r out cs = classify_parse_loop r out ds"
proof (induction "length cs" arbitrary: cs ds r out rule: less_induct)
  case less
  from less.prems show ?case
  proof (cases rule: respelled.cases)
    case (respelled_separator c cs' ds')
    have IH: "classify_parse_loop r' out' cs' = classify_parse_loop r' out' ds'" for r' out'
      using less.hyps [of cs' ds'] respelled_separator by simp
    have bar: "classify_parse_loop r' out' (drop 1 cs') = classify_parse_loop r' out' (drop 1 ds')" if "prefix ''|'' cs'" for r' out'
    proof -
      obtain xs where xs: "cs' = CHR ''|'' # xs" using \<open>prefix ''|'' cs'\<close> by (auto simp: prefix_def)
      obtain ys where ys: "ds' = CHR ''|'' # ys" "respelled xs ys" using respelled_cons_bar respelled_separator(4) xs by blast
      show ?thesis using less.hyps [of xs ys] ys xs respelled_separator(1) by simp
    qed
    show ?thesis using respelled_bar [OF respelled_separator(4)] IH bar
      unfolding respelled_separator(1,2) parse_separator [OF respelled_separator(3)] by simp
  next
    case (respelled_word w d cs' ds')
    obtain out' where o: "classify_parse_loop r out cs = classify_parse_loop False out' cs'"
      "classify_parse_loop r out ds = classify_parse_loop False out' ds'"
      using parse_disguised [OF respelled_word(4,3,5) respelled_word_end [OF respelled_word(6,5)]] respelled_word(1,2) by blast
    show ?thesis unfolding o using less.hyps [of cs' ds'] respelled_word by simp
  qed simp
qed

text \<open>The command is lowered before it is parsed.\<close>

lemma tolower_code: "isupper c \<Longrightarrow> 97 \<le> ccode (tolower c) \<and> ccode (tolower c) \<le> 122"
  by (auto simp: tolower_def isupper_def)

lemma letter_plain: "97 \<le> ccode c \<Longrightarrow> ccode c \<le> 122 \<Longrightarrow> plain c"
  by (auto simp: plain_def word_char_def quote_char_def isspace_def)

lemma tolower_classes:
  "plain c \<Longrightarrow> plain (tolower c)" "quote_char c \<Longrightarrow> tolower c = c" "tolower backslash = backslash"
  "separator c \<Longrightarrow> tolower c = c" "\<not> word_char c \<Longrightarrow> tolower c = c"
proof -
  have up: "isupper c \<Longrightarrow> plain c"
    by (auto simp: plain_def word_char_def quote_char_def isspace_def isupper_def)
  show "plain c \<Longrightarrow> plain (tolower c)"
    using tolower_code letter_plain by (cases "isupper c") (auto simp: tolower_def)
  show "quote_char c \<Longrightarrow> tolower c = c" "\<not> word_char c \<Longrightarrow> tolower c = c" "separator c \<Longrightarrow> tolower c = c"
    using up separator_not_word by (auto simp: tolower_def plain_def)
  show "tolower backslash = backslash" by (simp add: tolower_def isupper_def)
qed

lemma disguised_lower: "disguised w d \<Longrightarrow> disguised (map tolower w) (map tolower d)"
  by (induction rule: disguised.induct) (auto simp: tolower_classes intro: disguised.intros)

lemma word_end_lower: "word_end cs \<Longrightarrow> word_end (map tolower cs)"
  by (cases cs) (auto simp: word_end_def tolower_classes)

lemma respelled_lower: "respelled cs ds \<Longrightarrow> respelled (map tolower cs) (map tolower ds)"
proof (induction rule: respelled.induct)
  case (respelled_word w d cs ds)
  then show ?case by (auto intro!: respelled.respelled_word disguised_lower word_end_lower)
qed (auto simp: tolower_classes intro: respelled.intros)

text \<open>The raw command is only searched for characters that a respelling does not contain.\<close>

definition raw_char :: "char \<Rightarrow> bool" where
  "raw_char c \<longleftrightarrow> c = CHR ''>'' \<or> c = CHR ''('' \<or> c = CHR ''=''"

lemma disguised_no_raw: "disguised w d \<Longrightarrow> list_all (\<lambda>c. \<not> raw_char c) w \<and> list_all (\<lambda>c. \<not> raw_char c) d"
  by (induction rule: disguised.induct) (auto simp: raw_char_def plain_def word_char_def quote_char_def)

lemma respelled_no_raw: "respelled cs ds \<Longrightarrow> list_all (\<lambda>c. \<not> raw_char c) cs \<and> list_all (\<lambda>c. \<not> raw_char c) ds"
  by (induction rule: respelled.induct)
     (auto dest: disguised_no_raw simp: raw_char_def separator_def isspace_def)

lemma no_raw_search:
  assumes "list_all (\<lambda>c. \<not> raw_char c) cs"
  shows "\<not> sublist '':(){'' cs" "\<not> sublist '':() {'' cs" "\<not> device_redirect cs" "CHR ''='' \<notin> set cs"
proof -
  have "CHR ''('' \<notin> set cs" using assms by (auto simp: list_all_iff raw_char_def)
  then show "\<not> sublist '':(){'' cs" "\<not> sublist '':() {'' cs" by (auto simp: sublist_def)
  show "\<not> device_redirect cs" using assms by (induction cs) (auto simp: raw_char_def)
  show "CHR ''='' \<notin> set cs" using assms by (auto simp: list_all_iff raw_char_def)
qed

lemma classify_command_word_raw:
  assumes "CHR ''='' \<notin> set raw" "CHR ''='' \<notin> set raw'"
  shows "classify_command_word raw control t rest = classify_command_word raw' control t rest"
proof -
  have e: "(CHR ''='' \<notin> set raw) = (CHR ''='' \<notin> set raw')" using assms by simp
  show ?thesis unfolding classify_command_word_def e ..
qed

lemma scan_tokens_raw:
  assumes "CHR ''='' \<notin> set raw" "CHR ''='' \<notin> set raw'"
  shows "scan_tokens raw control runners prev s ts = scan_tokens raw' control runners prev s ts"
  by (induction ts arbitrary: prev s) (simp_all add: scan_tokens.simps(2) classify_command_word_raw [OF assms] Let_def split: option.split)

lemma classify_or_system_respelled:
  assumes "respelled cs ds"
  shows "classify_irreversible_or_system cs cmd = classify_irreversible_or_system ds cmd"
proof -
  have "list_all (\<lambda>c. \<not> raw_char c) cs" "list_all (\<lambda>c. \<not> raw_char c) ds" using respelled_no_raw [OF assms] by simp_all
  note no_raw_search [OF this(1)] no_raw_search [OF this(2)]
  then show ?thesis using scan_tokens_raw [of cs ds] by (simp add: classify_irreversible_or_system_def)
qed

lemma respelled_empty: "respelled cs ds \<Longrightarrow> cs = [] \<longleftrightarrow> ds = []"
  by (induction rule: respelled.induct) (auto dest: disguised_first)

text \<open>
  Quoting and escaping hide nothing from the classifier. Two command lines that agree except that in one
  of them quotes are put anywhere inside or around the words and backslashes before their characters (words
  with a character that the raw text is searched for, an equals sign, an opening parenthesis or an output
  redirection, aside) have the same class, as long as both are within the length limit.
\<close>

theorem classify_quoting_transparent:
  assumes "respelled cs ds" "length cs \<le> 1024" "length ds \<le> 1024"
  shows "si_agent_classify_shell_command allocated (Some ds) = si_agent_classify_shell_command allocated (Some cs)"
proof -
  note lower = respelled_lower [OF assms(1)]
  have "classify_parse (map tolower cs) = classify_parse (map tolower ds)"
    unfolding classify_parse_def by (rule parse_respelled [OF lower])
  then show ?thesis using assms(2,3) respelled_empty [OF assms(1)] classify_or_system_respelled [OF lower]
    by (simp add: si_agent_classify_shell_command_def CLASSIFY_MAX_COMMAND_def Let_def)
qed

lemma plain_examples:
  "plain (CHR ''r'')" "plain (CHR ''m'')" "plain (CHR ''-'')" "plain (CHR ''f'')" "plain (CHR ''/'')"
  "quote_char (CHR 0x22)" "quote_char (CHR 0x27)" "separator (CHR '' '')" "word_end []" "\<not> word_char (CHR '' '')"
  by code_simp+

lemma respelled_example: "respelled ''rm -r /'' [CHR ''r'', CHR 0x22, CHR ''m'', CHR 0x22, CHR '' '', backslash, CHR ''-'', CHR ''r'', CHR '' '', CHR 0x27, CHR ''/'', CHR 0x27]"
proof -
  note i = disguised.intros plain_examples
  have "disguised ''rm'' [CHR ''r'', CHR 0x22, CHR ''m'', CHR 0x22]" "disguised ''-r'' [backslash, CHR ''-'', CHR ''r'']"
    "disguised ''/'' [CHR 0x27, CHR ''/'', CHR 0x27]"
    by (intro i)+
  note w = respelled.respelled_word [OF _ this(1)] respelled.respelled_word [OF _ this(2)] respelled.respelled_word [OF _ this(3)]
  have "respelled ''/'' [CHR 0x27, CHR ''/'', CHR 0x27]" using w(3) [OF _ _ respelled_end] by (simp add: plain_examples)
  from w(2) [OF _ _ respelled_separator [OF plain_examples(8) this]]
  have "respelled ''-r /'' [backslash, CHR ''-'', CHR ''r'', CHR '' '', CHR 0x27, CHR ''/'', CHR 0x27]"
    by (simp add: word_end_def plain_examples)
  from w(1) [OF _ _ respelled_separator [OF plain_examples(8) this]] show ?thesis
    by (simp add: word_end_def plain_examples)
qed

lemma rm_root: "si_agent_classify_shell_command True (Some ''rm -r /'') = SI_AGENT_ACTION_IRREVERSIBLE"
  by code_simp

theorem classify_quoting_transparent_witness:
  "si_agent_classify_shell_command True (Some [CHR ''r'', CHR 0x22, CHR ''m'', CHR 0x22, CHR '' '', backslash, CHR ''-'', CHR ''r'',
     CHR '' '', CHR 0x27, CHR ''/'', CHR 0x27]) = SI_AGENT_ACTION_IRREVERSIBLE"
  using classify_quoting_transparent [OF respelled_example, of True] rm_root by simp

section \<open>A reading command, and what the word lists do not catch\<close>


text \<open>
  A path that may be written without a system-level decision is relative or lies under the home, temporary
  or null device paths; it has no parent component, is below no system directory and names no credential.
\<close>

theorem classify_path_write_operate:
  assumes "si_agent_classify_path_write (Some cs) = SI_AGENT_ACTION_OPERATE"
  shows "cs \<noteq> [] \<and> length cs < 128 \<and> \<not> sublist ''..'' (map tolower cs) \<and>
    (map tolower cs = ''/dev/null'' \<or>
     (\<not> system_path (map tolower cs) \<and> \<not> sensitive_token (map tolower cs) \<and> \<not> prefix ''/dev/'' (map tolower cs) \<and>
      (\<not> prefix ''/'' (map tolower cs) \<or>
       list_ex (\<lambda>p. prefix p (map tolower cs)) [''/home/'', ''/tmp/'', ''/var/tmp/'', ''~''])))"
  using assms by (auto simp: si_agent_classify_path_write_def Let_def CLASSIFY_MAX_TOKEN_def not_le split: if_splits)

text \<open>
  The redirection to a device is found in the raw text, so a quote in front of the device hides it, and the
  programs that write to a device given as an argument are not found either.
\<close>

theorem classify_device_write_missed:
  "si_agent_classify_shell_command True (Some ''cat x > /dev/sda'') = SI_AGENT_ACTION_IRREVERSIBLE"
  "si_agent_classify_shell_command True (Some (''cat x > '' @ [CHR 0x22] @ ''/dev/sda'' @ [CHR 0x22])) = SI_AGENT_ACTION_OPERATE"
  "si_agent_classify_shell_command True (Some ''cp x /dev/sda'') = SI_AGENT_ACTION_OPERATE"
  "si_agent_classify_shell_command True (Some ''tee /dev/sda'') = SI_AGENT_ACTION_OPERATE"
  by code_simp+

text \<open>Programs of the read-only list with a form that writes.\<close>

theorem classify_read_writes:
  "si_agent_classify_shell_command True (Some ''sort -o /etc/passwd x'') = SI_AGENT_ACTION_READ"
  "si_agent_classify_shell_command True (Some ''uniq a b'') = SI_AGENT_ACTION_READ"
  "si_agent_classify_shell_command True (Some ''ip netns exec ns rm /home/u/f'') = SI_AGENT_ACTION_READ"
  "si_agent_classify_shell_command True (Some ''date 010100002030'') = SI_AGENT_ACTION_READ"
  by code_simp+

end
