(* ===== verification/Auth_Service.thy ===== *)
theory Auth_Service
  imports Control_Lease Authorization
begin

text \<open>
  The login service of \<^verbatim>\<open>application/auth_service.c\<close>: credentials and their storage format, sessions in
  a memory area that survives a restart, login throttling, and the fencing of pending logins by a
  credential generation.

  The file-scope variables are one record. What a call gets from outside is an argument: whether a mutex
  can be created and obtained, the time, random bytes, the answers of the settings store. The hash
  functions of mbedTLS, the byte image of the retained structure and the build configuration are
  parameters, collected in \<open>auth_build\<close>. Times in \<^verbatim>\<open>int64_t\<close> microseconds are integers: the timer does not
  come near the range of the type.

  The settings store is seen as the map of what is set in the namespace of the service. A call that fails
  keeps as many of its first writes as the environment says; one that succeeds keeps all of them.

  Sessions that end are handed to \<open>revoked_sessions_apply\<close> after the mutex is released; the field
  \<open>au_revoked\<close> records what was handed over, in order, and \<open>revoked_sessions_apply\<close> passes it on to the
  control lease and the listeners.
\<close>

section \<open>Data\<close>

definition SI_AUTH_USERNAME_MAX_LEN :: nat where "SI_AUTH_USERNAME_MAX_LEN = 32"
definition SI_AUTH_PASSWORD_MAX_LEN :: nat where "SI_AUTH_PASSWORD_MAX_LEN = 64"
definition SI_AUTH_PASSWORD_MIN_LEN :: nat where "SI_AUTH_PASSWORD_MIN_LEN = 6"
definition SI_AUTH_BOOTSTRAP_PASSWORD_LEN :: nat where "SI_AUTH_BOOTSTRAP_PASSWORD_LEN = 32"
definition SI_AUTH_TOKEN_LEN :: nat where "SI_AUTH_TOKEN_LEN = 64"
definition SI_AUTH_SESSION_ID_MAX_LEN :: nat where "SI_AUTH_SESSION_ID_MAX_LEN = 20"
definition SI_AUTH_DISABLED_SESSION_GENERATION :: u32 where "SI_AUTH_DISABLED_SESSION_GENERATION = 1"
definition AUTH_SALT_BYTES :: nat where "AUTH_SALT_BYTES = 16"
definition AUTH_SALT_HEX_LEN :: nat where "AUTH_SALT_HEX_LEN = AUTH_SALT_BYTES * 2"
definition AUTH_VERIFIER_BYTES :: nat where "AUTH_VERIFIER_BYTES = 32"
definition AUTH_PBKDF2_ITERATIONS :: u32 where "AUTH_PBKDF2_ITERATIONS = 60000"
definition AUTH_PBKDF2_MIN_ITERATIONS :: u32 where "AUTH_PBKDF2_MIN_ITERATIONS = 10000"
definition AUTH_SALTED_SHA256_ITERATIONS :: u32 where "AUTH_SALTED_SHA256_ITERATIONS = 1"
definition AUTH_BROWSER_SESSION_SLOTS :: nat where "AUTH_BROWSER_SESSION_SLOTS = 12"
definition AUTH_MCP_SESSION_SLOTS :: nat where "AUTH_MCP_SESSION_SLOTS = 4"
definition AUTH_SESSION_SLOTS :: nat where
  "AUTH_SESSION_SLOTS = AUTH_BROWSER_SESSION_SLOTS + AUTH_MCP_SESSION_SLOTS"
definition AUTH_SESSION_ABSOLUTE_MS :: int where "AUTH_SESSION_ABSOLUTE_MS = 24 * 60 * 60 * 1000"
definition AUTH_RETAINED_MAGIC :: u32 where "AUTH_RETAINED_MAGIC = 0x45415353"
definition AUTH_RETAINED_VERSION :: u32 where "AUTH_RETAINED_VERSION = 3"
definition AUTH_FAILURE_WINDOW_MS :: int where "AUTH_FAILURE_WINDOW_MS = 60000"
definition AUTH_FAILURE_LIMIT :: u32 where "AUTH_FAILURE_LIMIT = 5"
definition AUTH_LOCKOUT_MS :: int where "AUTH_LOCKOUT_MS = 30000"
definition AUTH_REVOKED_LISTENER_SLOTS :: nat where "AUTH_REVOKED_LISTENER_SLOTS = 2"

lemmas auth_consts = SI_AUTH_USERNAME_MAX_LEN_def SI_AUTH_PASSWORD_MAX_LEN_def SI_AUTH_PASSWORD_MIN_LEN_def
  SI_AUTH_BOOTSTRAP_PASSWORD_LEN_def SI_AUTH_TOKEN_LEN_def SI_AUTH_SESSION_ID_MAX_LEN_def AUTH_SALT_BYTES_def
  AUTH_SALT_HEX_LEN_def AUTH_VERIFIER_BYTES_def AUTH_PBKDF2_ITERATIONS_def AUTH_PBKDF2_MIN_ITERATIONS_def
  AUTH_SALTED_SHA256_ITERATIONS_def AUTH_BROWSER_SESSION_SLOTS_def AUTH_MCP_SESSION_SLOTS_def AUTH_SESSION_SLOTS_def
  AUTH_SESSION_ABSOLUTE_MS_def AUTH_RETAINED_MAGIC_def AUTH_RETAINED_VERSION_def AUTH_FAILURE_WINDOW_MS_def
  AUTH_FAILURE_LIMIT_def AUTH_LOCKOUT_MS_def AUTH_REVOKED_LISTENER_SLOTS_def

datatype si_auth_method_t =
    SI_AUTH_METHOD_PASSWORD
  | SI_AUTH_METHOD_PASSKEY
  | SI_AUTH_METHOD_OTHER u32

record auth_session_t =
  as_used :: bool
  as_principal :: si_principal_kind_t
  as_capabilities :: si_capability_set_t
  as_method :: si_auth_method_t
  as_generation :: u32
  as_session_id :: string
  as_token_digest :: "u8 list"
  as_created_us :: int
  as_last_seen_us :: int

definition zero_session :: auth_session_t where
  "zero_session = \<lparr>as_used = False, as_principal = SI_PRINCIPAL_ANONYMOUS, as_capabilities = 0,
     as_method = SI_AUTH_METHOD_OTHER 0, as_generation = 0, as_session_id = [],
     as_token_digest = replicate AUTH_VERIFIER_BYTES 0, as_created_us = 0, as_last_seen_us = 0\<rparr>"

record auth_retained_state_t =
  ar_magic :: u32
  ar_version :: u32
  ar_checksum :: u32
  ar_next_generation :: u32
  ar_clock_us :: int
  ar_sessions :: "auth_session_t list"

definition zero_retained :: auth_retained_state_t where
  "zero_retained = \<lparr>ar_magic = 0, ar_version = 0, ar_checksum = 0, ar_next_generation = 0, ar_clock_us = 0,
     ar_sessions = replicate AUTH_SESSION_SLOTS zero_session\<rparr>"

record si_auth_session_context_t =
  sc_authenticated :: bool
  sc_principal :: si_principal_kind_t
  sc_method :: si_auth_method_t
  sc_capabilities :: si_capability_set_t
  sc_generation :: u32
  sc_authenticated_at_us :: int
  sc_session_id :: string

definition anonymous_context :: si_auth_session_context_t where
  "anonymous_context = \<lparr>sc_authenticated = False, sc_principal = SI_PRINCIPAL_ANONYMOUS,
     sc_method = SI_AUTH_METHOD_OTHER 0, sc_capabilities = 0, sc_generation = 0, sc_authenticated_at_us = 0,
     sc_session_id = []\<rparr>"

record si_session_settings_t =
  ss_auto_logout_enabled :: bool
  ss_auto_logout_minutes :: u32

datatype esp_reset_reason_t =
    ESP_RST_SW
  | ESP_RST_PANIC
  | ESP_RST_INT_WDT
  | ESP_RST_TASK_WDT
  | ESP_RST_WDT
  | ESP_RST_OTHER

text \<open>Values in the settings store.\<close>

datatype store_value = StoreString string | StoreU32 u32 | StoreU8 u8

type_synonym auth_store = "string \<Rightarrow> store_value option"

record auth =
  au_credential_generation :: u32
  au_username :: string
  au_verifier :: string
  au_salt :: string
  au_iterations :: u32
  au_loaded :: bool
  au_using_default :: bool
  au_setup_pending :: bool
  au_legacy_password :: bool
  au_login_count_loaded :: bool
  au_login_count :: u32
  au_lock :: bool
  au_credentials_lock :: bool
  au_retained :: auth_retained_state_t
  au_retained_initialized :: bool
  au_failure_count :: u32
  au_failure_window_started_us :: int
  au_lockout_until_us :: int
  au_session_evictions :: u32
  au_session_expirations :: u32
  au_session_restores :: u32
  au_validation_misses :: u32
  au_lock_timeouts :: u32
  au_listeners :: "nat option list"
  au_reset_reason :: esp_reset_reason_t
  au_store :: auth_store
  au_revoked :: "(string \<times> u32) list"

text \<open>
  The parameters: build configuration, hash functions (None is an error of the library) and the bytes of
  the retained structure in memory.
\<close>

record auth_build =
  ab_username :: string
  ab_password :: string
  ab_password_pbkdf2 :: bool
  ab_disabled_for_lan_testing :: bool
  ab_sha256 :: "u8 list \<Rightarrow> u8 list option"
  ab_pbkdf2_hmac :: "u8 list \<Rightarrow> u8 list \<Rightarrow> u32 \<Rightarrow> u8 list option"
  ab_image :: "auth_retained_state_t \<Rightarrow> u8 list"

definition AUTH_PASSWORD_ITERATIONS :: "auth_build \<Rightarrow> u32" where
  "AUTH_PASSWORD_ITERATIONS b =
     (if ab_password_pbkdf2 b then AUTH_PBKDF2_ITERATIONS else AUTH_SALTED_SHA256_ITERATIONS)"

text \<open>One critical section of the session mutex.\<close>

record auth_env =
  ae_mutex :: bool
  ae_lock :: bool
  ae_init_us :: int
  ae_now_us :: int
  ae_settings :: si_session_settings_t

text \<open>One change of the credentials; \<open>sv_other\<close> is what other tasks do before its sessions are revoked.\<close>

record set_env =
  sv_salt :: "u8 list"
  sv_mutex :: bool
  sv_lock :: bool
  sv_open :: esp_err_t
  sv_set :: "string \<Rightarrow> esp_err_t"
  sv_commit :: esp_err_t
  sv_kept :: nat
  sv_other :: "auth \<Rightarrow> auth"
  sv_revoke :: auth_env

text \<open>The first load of the credentials.\<close>

record load_env =
  lo_open :: esp_err_t
  lo_get :: "string \<Rightarrow> esp_err_t"
  lo_random :: "u8 list"
  lo_set :: set_env

section \<open>Bytes and text\<close>

definition str_bytes :: "string \<Rightarrow> u8 list" where
  "str_bytes s = map (\<lambda>c. of_nat (ccode c)) s"

definition byte_at :: "u8 list \<Rightarrow> nat \<Rightarrow> u8" where
  "byte_at xs i = (if i < length xs then xs ! i else 0)"

definition secure_equal :: "u8 list \<Rightarrow> u8 list \<Rightarrow> bool" where
  "secure_equal a b \<longleftrightarrow>
     foldl (\<lambda>diff i. diff OR (byte_at a i XOR byte_at b i))
       (of_nat (length a) XOR of_nat (length b)) [0..<max (length a) (length b)] = 0"

definition hex_char :: "nat \<Rightarrow> char" where
  "hex_char n = (if n < 10 then char_of (48 + n) else char_of (87 + n))"

definition byte_hex :: "u8 \<Rightarrow> string" where
  "byte_hex b = [hex_char (unat b div 16), hex_char (unat b mod 16)]"

definition bytes_to_hex :: "u8 list \<Rightarrow> string" where
  "bytes_to_hex bytes = concat (map byte_hex bytes)"

definition hex_nibble :: "char \<Rightarrow> int" where
  "hex_nibble ch =
     (if isdigit ch then int (ccode ch) - 48
      else if 97 \<le> ccode ch \<and> ccode ch \<le> 102 then int (ccode ch) - 97 + 10
      else if 65 \<le> ccode ch \<and> ccode ch \<le> 70 then int (ccode ch) - 65 + 10
      else -1)"

fun hex_loop :: "string \<Rightarrow> u8 list option" where
  "hex_loop (h # l # cs) =
     (if hex_nibble h < 0 \<or> hex_nibble l < 0 then None
      else map_option ((#) (of_int (hex_nibble h * 16 + hex_nibble l))) (hex_loop cs))"
| "hex_loop _ = Some []"

definition hex_to_bytes :: "string \<Rightarrow> nat \<Rightarrow> u8 list option" where
  "hex_to_bytes hex expected_len = (if length hex \<noteq> expected_len * 2 then None else hex_loop hex)"

definition hex32 :: "u32 \<Rightarrow> string" where
  "hex32 w = map (\<lambda>i. hex_char (unat w div 16 ^ (7 - i) mod 16)) [0..<8]"

definition sha256_text :: "auth_build \<Rightarrow> string option \<Rightarrow> esp_err_t \<times> u8 list" where
  "sha256_text b text =
     (case text of None \<Rightarrow> (ESP_ERR_INVALID_ARG, [])
      | Some t \<Rightarrow> (case ab_sha256 b (str_bytes t) of None \<Rightarrow> (ESP_FAIL, []) | Some digest \<Rightarrow> (ESP_OK, digest)))"

definition legacy_hash_password :: "auth_build \<Rightarrow> string \<Rightarrow> esp_err_t \<times> string" where
  "legacy_hash_password b password =
     (let (ret, digest) = sha256_text b (Some password)
      in if ret \<noteq> ESP_OK then (ret, []) else (ESP_OK, bytes_to_hex digest))"

definition derive_password :: "auth_build \<Rightarrow> string \<Rightarrow> string \<Rightarrow> u32 \<Rightarrow> esp_err_t \<times> string" where
  "derive_password b password salt_hex iterations =
     (case hex_to_bytes salt_hex AUTH_SALT_BYTES of
        None \<Rightarrow> (ESP_ERR_INVALID_ARG, [])
      | Some salt \<Rightarrow>
          if iterations \<noteq> AUTH_SALTED_SHA256_ITERATIONS \<and> iterations < AUTH_PBKDF2_MIN_ITERATIONS
          then (ESP_ERR_INVALID_ARG, [])
          else
            (case (if iterations = AUTH_SALTED_SHA256_ITERATIONS then ab_sha256 b (salt @ str_bytes password)
                   else ab_pbkdf2_hmac b (str_bytes password) salt iterations) of
               None \<Rightarrow> (ESP_FAIL, [])
             | Some verifier \<Rightarrow> (ESP_OK, bytes_to_hex verifier)))"

definition printable :: "char \<Rightarrow> bool" where
  "printable ch \<longleftrightarrow> 33 \<le> ccode ch \<and> ccode ch \<le> 126"

definition si_auth_validate_username :: "string option \<Rightarrow> esp_err_t" where
  "si_auth_validate_username username =
     (case username of None \<Rightarrow> ESP_ERR_INVALID_ARG
      | Some u \<Rightarrow>
          if length u < 1 \<or> length u > SI_AUTH_USERNAME_MAX_LEN then ESP_ERR_INVALID_SIZE
          else if list_all printable u then ESP_OK else ESP_ERR_INVALID_ARG)"

definition si_auth_validate_password :: "string option \<Rightarrow> esp_err_t" where
  "si_auth_validate_password password =
     (case password of None \<Rightarrow> ESP_ERR_INVALID_ARG
      | Some p \<Rightarrow>
          if length p < SI_AUTH_PASSWORD_MIN_LEN \<or> length p > SI_AUTH_PASSWORD_MAX_LEN then ESP_ERR_INVALID_SIZE
          else if list_all printable p then ESP_OK else ESP_ERR_INVALID_ARG)"

definition si_auth_default_username :: "auth_build \<Rightarrow> string" where
  "si_auth_default_username b = (if ab_username b \<noteq> [] then ab_username b else ''admin'')"

section \<open>Sessions in retained memory\<close>

definition fnv_bytes :: "u8 list \<Rightarrow> u32" where
  "fnv_bytes bytes = foldl (\<lambda>hash value. (hash XOR ucast value) * 16777619) 2166136261 bytes"

text \<open>The bytes of the checksum itself count as zero.\<close>

definition retained_checksum :: "auth_build \<Rightarrow> auth_retained_state_t \<Rightarrow> u32" where
  "retained_checksum b state = fnv_bytes (ab_image b (state\<lparr>ar_checksum := 0\<rparr>))"

definition retained_reset_allowed :: "esp_reset_reason_t \<Rightarrow> bool" where
  "retained_reset_allowed reason \<longleftrightarrow> reason = ESP_RST_SW \<or> reason = ESP_RST_PANIC \<or> reason = ESP_RST_INT_WDT \<or>
     reason = ESP_RST_TASK_WDT \<or> reason = ESP_RST_WDT"

definition retained_commit_locked :: "auth_build \<Rightarrow> int \<Rightarrow> auth \<Rightarrow> auth" where
  "retained_commit_locked b now_us s =
     (let r = (au_retained s)\<lparr>ar_magic := AUTH_RETAINED_MAGIC, ar_version := AUTH_RETAINED_VERSION,
                ar_clock_us := now_us, ar_checksum := 0\<rparr>
      in s\<lparr>au_retained := r\<lparr>ar_checksum := retained_checksum b r\<rparr>\<rparr>)"

definition retained_session_sane :: "auth_session_t \<Rightarrow> int \<Rightarrow> bool" where
  "retained_session_sane session retained_clock_us =
     (if \<not> as_used session \<or> (as_principal session \<noteq> SI_PRINCIPAL_BROWSER \<and> as_principal session \<noteq> SI_PRINCIPAL_MCP) \<or>
         as_generation session = 0 \<or> as_last_seen_us session < as_created_us session \<or>
         as_last_seen_us session > retained_clock_us \<or> length (as_session_id session) = 0 \<or>
         length (as_session_id session) \<ge> SI_AUTH_SESSION_ID_MAX_LEN + 1
      then False
      else as_created_us session \<ge> retained_clock_us - AUTH_SESSION_ABSOLUTE_MS * 1000)"

text \<open>One session of the restore loop: the times are moved to the new time base.\<close>

definition restore_session :: "int \<Rightarrow> int \<Rightarrow> auth_session_t \<Rightarrow> auth_session_t" where
  "restore_session now_us previous_clock_us session =
     (if \<not> as_used session then session
      else if \<not> retained_session_sane session previous_clock_us then zero_session
      else
        let created_age_us = previous_clock_us - as_created_us session;
            idle_age_us = previous_clock_us - as_last_seen_us session
        in session\<lparr>as_created_us := now_us - created_age_us, as_last_seen_us := now_us - idle_age_us\<rparr>)"

definition retained_valid :: "auth_build \<Rightarrow> esp_reset_reason_t \<Rightarrow> auth_retained_state_t \<Rightarrow> bool" where
  "retained_valid b reason r \<longleftrightarrow> retained_reset_allowed reason \<and> ar_magic r = AUTH_RETAINED_MAGIC \<and>
     ar_version r = AUTH_RETAINED_VERSION \<and> ar_clock_us r \<ge> 0 \<and> ar_checksum r = retained_checksum b r"

definition retained_init_locked :: "auth_build \<Rightarrow> auth_env \<Rightarrow> auth \<Rightarrow> auth" where
  "retained_init_locked b e s =
     (if au_retained_initialized s then s
      else
        let r = au_retained s;
            s = (if \<not> retained_valid b (au_reset_reason s) r then s\<lparr>au_retained := zero_retained\<rparr>
                 else s\<lparr>au_retained := r\<lparr>ar_sessions := map (restore_session (ae_init_us e) (ar_clock_us r)) (ar_sessions r)\<rparr>,
                        au_session_restores := au_session_restores s +
                          of_nat (length (filter (\<lambda>x. as_used x \<and> retained_session_sane x (ar_clock_us r)) (ar_sessions r)))\<rparr>)
        in retained_commit_locked b (ae_init_us e) (s\<lparr>au_retained_initialized := True\<rparr>))"

definition ensure_lock :: "bool \<Rightarrow> auth \<Rightarrow> esp_err_t \<times> auth" where
  "ensure_lock created s =
     (if au_lock s then (ESP_OK, s) else (if created then ESP_OK else ESP_ERR_NO_MEM, s\<lparr>au_lock := created\<rparr>))"

definition next_session_generation_locked :: "auth \<Rightarrow> u32 \<times> auth" where
  "next_session_generation_locked s =
     (let g = ar_next_generation (au_retained s) + 1; g = (if g = 0 then 1 else g)
      in (g, s\<lparr>au_retained := (au_retained s)\<lparr>ar_next_generation := g\<rparr>\<rparr>))"

definition session_expired :: "auth_session_t \<Rightarrow> int \<Rightarrow> si_session_settings_t \<Rightarrow> bool" where
  "session_expired session now_us settings =
     (if \<not> as_used session \<or> now_us < as_created_us session \<or> now_us < as_last_seen_us session then True
      else if (now_us - as_created_us session) div 1000 > AUTH_SESSION_ABSOLUTE_MS then True
      else if \<not> ss_auto_logout_enabled settings then False
      else (now_us - as_last_seen_us session) div 1000 > int (unat (ss_auto_logout_minutes settings)) * 60000)"

subsection \<open>Revocation\<close>

type_synonym auth_revoked_sessions_t = "(string \<times> u32) list"

definition revoked_sessions_add :: "auth_revoked_sessions_t \<Rightarrow> auth_session_t \<Rightarrow> auth_revoked_sessions_t" where
  "revoked_sessions_add revoked session =
     (if \<not> as_used session \<or> as_session_id session = [] \<or> length revoked \<ge> AUTH_SESSION_SLOTS then revoked
      else revoked @ [(c_strlcpy (SI_AUTH_SESSION_ID_MAX_LEN + 1) (as_session_id session), as_generation session)])"

text \<open>The sessions are passed to the loops with the list of those revoked and the number of expirations.\<close>

definition session_clear_locked ::
    "nat \<Rightarrow> auth_session_t list \<times> auth_revoked_sessions_t \<Rightarrow> auth_session_t list \<times> auth_revoked_sessions_t" where
  "session_clear_locked i x = ((fst x)[i := zero_session], revoked_sessions_add (snd x) (fst x ! i))"

definition si_auth_add_session_revoked_listener :: "nat option \<Rightarrow> auth \<Rightarrow> esp_err_t \<times> auth" where
  "si_auth_add_session_revoked_listener listener s =
     (case listener of None \<Rightarrow> (ESP_ERR_INVALID_ARG, s)
      | Some l \<Rightarrow>
          (case filter (\<lambda>i. au_listeners s ! i = None) [0..<length (au_listeners s)] of
             [] \<Rightarrow> (ESP_ERR_NO_MEM, s)
           | i # _ \<Rightarrow> (ESP_OK, s\<lparr>au_listeners := (au_listeners s)[i := Some l]\<rparr>)))"

text \<open>
  Each revoked session is revoked at the control lease, then each listener is called with it. The result
  is the control state and the calls of the listeners, in order; the environments are those of each
  revocation at the control lease.
\<close>

fun revoked_sessions_apply ::
    "(lease_env \<times> lease_env \<times> (control \<Rightarrow> control)) list \<Rightarrow> nat option list \<Rightarrow> auth_revoked_sessions_t \<Rightarrow> control \<Rightarrow>
     control \<times> (nat \<times> string \<times> u32) list" where
  "revoked_sessions_apply ((e0, e1, other) # es) listeners ((session_id, generation) # revoked) c =
     (let c = snd (si_control_lease_revoke_auth_session e0 e1 other (Some session_id) generation c);
          calls = map (\<lambda>l. (l, session_id, generation)) (map the (filter (\<lambda>l. l \<noteq> None) listeners));
          (c, calls') = revoked_sessions_apply es listeners revoked c
      in (c, calls @ calls'))"
| "revoked_sessions_apply _ _ _ c = (c, [])"

text \<open>The loop that clears every session.\<close>

definition clear_all_loop :: "auth_session_t list \<Rightarrow> auth_session_t list \<times> auth_revoked_sessions_t" where
  "clear_all_loop sessions =
     foldl (\<lambda>x i. if as_used (fst x ! i) then session_clear_locked i x else x) (sessions, []) [0..<AUTH_SESSION_SLOTS]"

definition clear_all_locked :: "auth_build \<Rightarrow> auth_env \<Rightarrow> auth \<Rightarrow> auth" where
  "clear_all_locked b e s =
     (let s = retained_init_locked b e s;
          (sessions, revoked) = clear_all_loop (ar_sessions (au_retained s));
          s = s\<lparr>au_retained := (au_retained s)\<lparr>ar_sessions := sessions\<rparr>\<rparr>
      in (retained_commit_locked b (ae_now_us e) s)\<lparr>au_revoked := au_revoked s @ revoked\<rparr>)"

text \<open>The mutex is waited for without limit.\<close>

definition si_auth_revoke_all_sessions :: "auth_build \<Rightarrow> auth_env \<Rightarrow> auth \<Rightarrow> auth" where
  "si_auth_revoke_all_sessions b e s =
     (let (ret, s) = ensure_lock (ae_mutex e) s
      in if ret \<noteq> ESP_OK then s else clear_all_locked b e s)"

section \<open>Credentials\<close>

subsection \<open>The settings store\<close>

text \<open>
  Reading: the answer of the store, a missing key, a string that does not fit with its terminator into
  the buffer. A secret that is empty counts as missing.
\<close>

definition get_string :: "load_env \<Rightarrow> auth_store \<Rightarrow> string \<Rightarrow> nat \<Rightarrow> esp_err_t \<times> string" where
  "get_string l store key n =
     (if lo_get l key \<noteq> ESP_OK then (lo_get l key, [])
      else (case store key of
              Some (StoreString v) \<Rightarrow> if length v \<ge> n then (ESP_ERR_INVALID_SIZE, []) else (ESP_OK, v)
            | _ \<Rightarrow> (ESP_ERR_NOT_FOUND, [])))"

definition si_secret_store_get_string :: "load_env \<Rightarrow> auth_store \<Rightarrow> string \<Rightarrow> nat \<Rightarrow> esp_err_t \<times> string" where
  "si_secret_store_get_string l store key n =
     (let (ret, out) = get_string l store key n
      in if ret \<noteq> ESP_OK \<or> out = [] then (if ret = ESP_OK then ESP_ERR_NOT_FOUND else ret, []) else (ESP_OK, out))"

definition get_u32 :: "load_env \<Rightarrow> auth_store \<Rightarrow> string \<Rightarrow> u32 \<Rightarrow> esp_err_t \<times> u32" where
  "get_u32 l store key out =
     (if lo_get l key \<noteq> ESP_OK then (lo_get l key, out)
      else (case store key of Some (StoreU32 v) \<Rightarrow> (ESP_OK, v) | _ \<Rightarrow> (ESP_ERR_NOT_FOUND, out)))"

definition get_u8 :: "load_env \<Rightarrow> auth_store \<Rightarrow> string \<Rightarrow> u8 \<Rightarrow> esp_err_t \<times> u8" where
  "get_u8 l store key out =
     (if lo_get l key \<noteq> ESP_OK then (lo_get l key, out)
      else (case store key of Some (StoreU8 v) \<Rightarrow> (ESP_OK, v) | _ \<Rightarrow> (ESP_ERR_NOT_FOUND, out)))"

text \<open>Writing: the keys are set one after the other until one fails, then committed. The store of secrets refuses an empty one.\<close>

definition si_secret_store_set_string :: "set_env \<Rightarrow> string \<Rightarrow> string \<Rightarrow> esp_err_t" where
  "si_secret_store_set_string v key value = (if value = [] then ESP_ERR_INVALID_ARG else sv_set v key)"

definition set_value :: "set_env \<Rightarrow> string \<Rightarrow> store_value \<Rightarrow> esp_err_t" where
  "set_value v key x =
     (case x of StoreString value \<Rightarrow>
        if key = ''password_hash'' \<or> key = ''password_salt'' then si_secret_store_set_string v key value else sv_set v key
      | _ \<Rightarrow> sv_set v key)"

fun sets_in_order :: "set_env \<Rightarrow> (string \<times> store_value) list \<Rightarrow> esp_err_t \<times> (string \<times> store_value) list" where
  "sets_in_order v [] = (ESP_OK, [])"
| "sets_in_order v ((key, x) # kxs) =
     (if set_value v key x \<noteq> ESP_OK then (set_value v key x, [])
      else let (ret, kept) = sets_in_order v kxs in (ret, (key, x) # kept))"

definition apply_writes :: "(string \<times> store_value) list \<Rightarrow> auth_store \<Rightarrow> auth_store" where
  "apply_writes kxs store = foldl (\<lambda>st (key, x). st(key \<mapsto> x)) store kxs"

definition write_store :: "set_env \<Rightarrow> (string \<times> store_value) list \<Rightarrow> auth_store \<Rightarrow> esp_err_t \<times> auth_store" where
  "write_store v kxs store =
     (if sv_open v \<noteq> ESP_OK then (sv_open v, store)
      else
        let (ret, kept) = sets_in_order v kxs;
            ret = (if ret = ESP_OK then sv_commit v else ret)
        in (ret, apply_writes (if ret = ESP_OK then kept else take (sv_kept v) kept) store))"

definition credential_writes ::
    "string \<Rightarrow> string \<Rightarrow> string \<Rightarrow> u32 \<Rightarrow> bool \<Rightarrow> bool \<Rightarrow> (string \<times> store_value) list" where
  "credential_writes username verifier salt_hex iterations bootstrap_required setup_flag =
     [(''username'', StoreString username), (''password_hash'', StoreString verifier),
      (''password_salt'', StoreString salt_hex), (''password_iter'', StoreU32 iterations)] @
     (if \<not> setup_flag then [(''setup'', StoreU8 0)] else []) @
     [(''bootstrap'', StoreU8 (if bootstrap_required then 1 else 0))] @
     (if setup_flag then [(''setup'', StoreU8 1)] else [])"

subsection \<open>Changing and loading them\<close>

definition set_credentials_internal ::
    "auth_build \<Rightarrow> set_env \<Rightarrow> string option \<Rightarrow> string option \<Rightarrow> bool \<Rightarrow> bool \<Rightarrow> bool \<Rightarrow> bool \<Rightarrow> u32 \<Rightarrow> auth \<Rightarrow> esp_err_t \<times> auth" where
  "set_credentials_internal b v username password bootstrap_required rotates locked allow_setup expected_generation s =
     (if si_auth_validate_username username \<noteq> ESP_OK then (si_auth_validate_username username, s)
      else if si_auth_validate_password password \<noteq> ESP_OK then (si_auth_validate_password password, s)
      else
        let next_username = c_strlcpy (SI_AUTH_USERNAME_MAX_LEN + 1) (the username);
            salt_hex = bytes_to_hex (sv_salt v);
            (ret, verifier) = derive_password b (the password) salt_hex (AUTH_PASSWORD_ITERATIONS b)
        in
        if ret \<noteq> ESP_OK then (ret, s)
        else
          let s = s\<lparr>au_credentials_lock := au_credentials_lock s \<or> sv_mutex v\<rparr> in
          if \<not> au_credentials_lock s \<or> (\<not> locked \<and> \<not> sv_lock v) then (ESP_ERR_TIMEOUT, s)
          else if expected_generation \<noteq> 0 \<and> expected_generation \<noteq> au_credential_generation s
          then (ESP_ERR_INVALID_STATE, s)
          else
            let (ret, store) = write_store v (credential_writes next_username verifier salt_hex (AUTH_PASSWORD_ITERATIONS b)
                                 bootstrap_required (bootstrap_required \<and> allow_setup)) (au_store s);
                s = s\<lparr>au_store := store\<rparr>
            in
            if ret \<noteq> ESP_OK then (ret, s)
            else
              let s = s\<lparr>au_username := next_username, au_verifier := c_strlcpy (SI_AUTH_TOKEN_LEN + 1) verifier,
                        au_salt := c_strlcpy (AUTH_SALT_HEX_LEN + 1) salt_hex,
                        au_iterations := AUTH_PASSWORD_ITERATIONS b, au_loaded := True,
                        au_using_default := bootstrap_required,
                        au_setup_pending := (bootstrap_required \<and> allow_setup), au_legacy_password := False\<rparr>
              in if rotates
                 then (ESP_OK, si_auth_revoke_all_sessions b (sv_revoke v)
                         (sv_other v (s\<lparr>au_credential_generation := au_credential_generation s + 1\<rparr>)))
                 else (ESP_OK, s))"

definition si_auth_reset_bootstrap ::
    "auth_build \<Rightarrow> set_env \<Rightarrow> u8 list \<Rightarrow> nat option \<Rightarrow> auth \<Rightarrow> esp_err_t \<times> string \<times> auth" where
  "si_auth_reset_bootstrap b v random out_size s =
     (case out_size of None \<Rightarrow> (ESP_ERR_INVALID_ARG, [], s)
      | Some n \<Rightarrow>
          if n < SI_AUTH_BOOTSTRAP_PASSWORD_LEN + 1 then (ESP_ERR_INVALID_ARG, [], s)
          else
            let password = bytes_to_hex random;
                (ret, s) = set_credentials_internal b v (Some (si_auth_default_username b)) (Some password) True True False True 0 s
            in (ret, if ret = ESP_OK then c_strlcpy n password else [], s))"

text \<open>No stored credentials: a bootstrap credential is made.\<close>

definition bootstrap_credentials :: "auth_build \<Rightarrow> load_env \<Rightarrow> auth \<Rightarrow> auth" where
  "bootstrap_credentials b l s =
     (let configured = (si_auth_validate_password (Some (ab_password b)) = ESP_OK);
          (ret, s) = set_credentials_internal b (lo_set l) (Some (au_username s))
            (Some (if configured then ab_password b else bytes_to_hex (lo_random l))) True True False (\<not> configured) 0 s
      in if ret \<noteq> ESP_OK then s\<lparr>au_verifier := [], au_loaded := True\<rparr> else s)"

text \<open>A stored credential that is still the factory password is replaced.\<close>

definition replace_factory_password :: "auth_build \<Rightarrow> load_env \<Rightarrow> auth \<Rightarrow> auth" where
  "replace_factory_password b l s =
     (let (check, factory_verifier) =
            (if au_legacy_password s then legacy_hash_password b ''admin''
             else derive_password b ''admin'' (au_salt s) (au_iterations s))
      in if check = ESP_OK \<and> secure_equal (str_bytes factory_verifier) (str_bytes (au_verifier s))
         then (case si_auth_reset_bootstrap b (lo_set l) (lo_random l) (Some (SI_AUTH_BOOTSTRAP_PASSWORD_LEN + 1)) s of
                 (ret, _, s) \<Rightarrow> if ret \<noteq> ESP_OK then s\<lparr>au_verifier := []\<rparr> else s)
         else s)"

text \<open>The stored credential, after its verifier was read.\<close>

definition load_stored ::
    "auth_build \<Rightarrow> load_env \<Rightarrow> esp_err_t \<Rightarrow> esp_err_t \<Rightarrow> auth \<Rightarrow> auth" where
  "load_stored b l salt_err iteration_err s =
     (let store = au_store s;
          (username_err, username) = get_string l store ''username'' (SI_AUTH_USERNAME_MAX_LEN + 1);
          (bootstrap_err, bootstrap_required) = get_u8 l store ''bootstrap'' 0;
          (setup_err, setup_flag) = get_u8 l store ''setup'' 0;
          s = (if username_err = ESP_OK \<and> si_auth_validate_username (Some username) = ESP_OK
               then s\<lparr>au_username := username\<rparr> else s);
          legacy = (salt_err \<noteq> ESP_OK \<or> length (au_salt s) \<noteq> AUTH_SALT_HEX_LEN \<or> iteration_err \<noteq> ESP_OK \<or>
                    (au_iterations s \<noteq> AUTH_SALTED_SHA256_ITERATIONS \<and> au_iterations s < AUTH_PBKDF2_MIN_ITERATIONS));
          s = s\<lparr>au_legacy_password := legacy\<rparr>;
          s = (if legacy then s\<lparr>au_salt := [], au_iterations := 0\<rparr> else s);
          s = s\<lparr>au_using_default := (bootstrap_err = ESP_OK \<and> bootstrap_required = 1)\<rparr>
      in
      if (setup_err \<noteq> ESP_OK \<and> setup_err \<noteq> ESP_ERR_NOT_FOUND) \<or> setup_flag > 1 \<or>
         (setup_err = ESP_OK \<and> setup_flag \<noteq> 0 \<and> \<not> au_using_default s)
      then s\<lparr>au_verifier := [], au_loaded := True\<rparr>
      else
        let s = s\<lparr>au_setup_pending := (if setup_err = ESP_OK then setup_flag = 1
                    else au_using_default s \<and> si_auth_validate_password (Some (ab_password b)) \<noteq> ESP_OK),
                  au_loaded := True\<rparr>
        in if au_using_default s then replace_factory_password b l s else s)"

definition load_credentials :: "auth_build \<Rightarrow> load_env \<Rightarrow> auth \<Rightarrow> auth" where
  "load_credentials b l s =
     (if au_loaded s then s
      else
        let s = s\<lparr>au_username := c_strlcpy (SI_AUTH_USERNAME_MAX_LEN + 1) (si_auth_default_username b), au_verifier := [],
                  au_salt := [], au_iterations := 0, au_using_default := True, au_legacy_password := False\<rparr>
        in
        if lo_open l = ESP_OK
        then
          let (verifier_err, verifier) = si_secret_store_get_string l (au_store s) ''password_hash'' (SI_AUTH_TOKEN_LEN + 1);
              (salt_err, salt) = si_secret_store_get_string l (au_store s) ''password_salt'' (AUTH_SALT_HEX_LEN + 1);
              (iteration_err, iterations) = get_u32 l (au_store s) ''password_iter'' 0;
              s = s\<lparr>au_verifier := verifier, au_salt := salt, au_iterations := iterations\<rparr>
          in
          if verifier_err = ESP_OK \<and> length verifier = SI_AUTH_TOKEN_LEN then load_stored b l salt_err iteration_err s
          else if verifier_err \<noteq> ESP_ERR_NOT_FOUND then s\<lparr>au_verifier := [], au_loaded := True\<rparr>
          else bootstrap_credentials b l s
        else if lo_open l \<noteq> ESP_ERR_NOT_FOUND then s\<lparr>au_loaded := True\<rparr>
        else bootstrap_credentials b l s)"

definition si_auth_setup_required :: "auth \<Rightarrow> bool" where
  "si_auth_setup_required s \<longleftrightarrow> au_loaded s \<and> au_verifier s \<noteq> [] \<and> au_using_default s \<and> au_setup_pending s"

definition si_auth_initialize :: "auth_build \<Rightarrow> load_env \<Rightarrow> bool \<Rightarrow> auth \<Rightarrow> esp_err_t \<times> auth" where
  "si_auth_initialize b l created s =
     (let s = load_credentials b l s;
          s = s\<lparr>au_credentials_lock := au_credentials_lock s \<or> created\<rparr>
      in (if au_verifier s \<noteq> [] \<and> au_credentials_lock s then ESP_OK else ESP_FAIL, s))"

definition si_auth_is_enabled :: "auth_build \<Rightarrow> load_env \<Rightarrow> bool \<Rightarrow> auth \<Rightarrow> bool \<times> auth" where
  "si_auth_is_enabled b l created s =
     (let s = load_credentials b l s in (\<not> ab_disabled_for_lan_testing b, snd (ensure_lock created s)))"

text \<open>\<open>sv_mutex\<close> and \<open>sv_lock\<close> are those of the credential mutex; the rest serves a migration of the format.\<close>

definition si_auth_credentials_match ::
    "auth_build \<Rightarrow> load_env \<Rightarrow> set_env \<Rightarrow> string option \<Rightarrow> string option \<Rightarrow> auth \<Rightarrow> bool \<times> auth" where
  "si_auth_credentials_match b l v username password s =
     (case (username, password) of
        (Some user, Some pass) \<Rightarrow>
          if length pass > SI_AUTH_PASSWORD_MAX_LEN \<or> si_auth_setup_required s then (False, s)
          else
            let s = load_credentials b l s;
                s = s\<lparr>au_credentials_lock := au_credentials_lock s \<or> sv_mutex v\<rparr>
            in
            if \<not> au_credentials_lock s \<or> \<not> sv_lock v then (False, s)
            else
              let (ret, verifier) = (if au_legacy_password s then legacy_hash_password b pass
                                     else derive_password b pass (au_salt s) (au_iterations s));
                  matches = (ret = ESP_OK \<and> secure_equal (str_bytes user) (str_bytes (au_username s)) \<and>
                             secure_equal (str_bytes verifier) (str_bytes (au_verifier s)))
              in
              if matches \<and> (au_legacy_password s \<or> au_iterations s \<noteq> AUTH_PASSWORD_ITERATIONS b) \<and>
                 si_auth_validate_password password = ESP_OK
              then
                let (ret, s) = set_credentials_internal b v (Some (au_username s)) password (au_using_default s) False True
                                 (au_setup_pending s) 0 s
                in (ret = ESP_OK, s)
              else (matches, s)
      | _ \<Rightarrow> (False, s))"

definition si_auth_set_credentials ::
    "auth_build \<Rightarrow> set_env \<Rightarrow> string option \<Rightarrow> string option \<Rightarrow> auth \<Rightarrow> esp_err_t \<times> auth" where
  "si_auth_set_credentials b v username password s = set_credentials_internal b v username password False True False False 0 s"

definition si_auth_set_credentials_for_generation ::
    "auth_build \<Rightarrow> set_env \<Rightarrow> string option \<Rightarrow> string option \<Rightarrow> u32 \<Rightarrow> auth \<Rightarrow> esp_err_t \<times> auth" where
  "si_auth_set_credentials_for_generation b v username password expected_generation s =
     (if expected_generation = 0 then (ESP_ERR_INVALID_STATE, s)
      else set_credentials_internal b v username password False True False False expected_generation s)"

definition si_auth_setup_credentials ::
    "auth_build \<Rightarrow> set_env \<Rightarrow> string option \<Rightarrow> string option \<Rightarrow> u32 \<Rightarrow> auth \<Rightarrow> esp_err_t \<times> auth" where
  "si_auth_setup_credentials b v username password expected_generation s =
     (if \<not> au_credentials_lock s \<or> \<not> sv_lock v then (ESP_ERR_TIMEOUT, s)
      else if si_auth_setup_required s \<and> expected_generation = au_credential_generation s
      then set_credentials_internal b v username password False True True False 0 s
      else (ESP_ERR_INVALID_STATE, s))"

section \<open>Creating and checking sessions\<close>

text \<open>The environment of a login: the session mutex, the load of the credentials, 32 and twice 4 random bytes.\<close>

record create_env =
  cv_env :: auth_env
  cv_load :: load_env
  cv_token :: "u8 list"
  cv_random1 :: u32
  cv_random2 :: u32

text \<open>
  The loop over the slots: expired sessions are cleared on the way, the first free slot ends the search,
  otherwise the slot that was idle longest is taken. The state of the loop is the oldest time, the slot,
  and the sessions with those revoked and the number of expirations.
\<close>

type_synonym slot_state = "auth_session_t list \<times> auth_revoked_sessions_t \<times> u32"

definition expire_slot :: "int \<Rightarrow> si_session_settings_t \<Rightarrow> nat \<Rightarrow> slot_state \<Rightarrow> slot_state" where
  "expire_slot now_us settings i x =
     (case x of (sessions, revoked, expirations) \<Rightarrow>
        if as_used (sessions ! i) \<and> session_expired (sessions ! i) now_us settings
        then (case session_clear_locked i (sessions, revoked) of (sessions, revoked) \<Rightarrow> (sessions, revoked, expirations + 1))
        else x)"

fun slot_loop :: "int \<Rightarrow> si_session_settings_t \<Rightarrow> nat list \<Rightarrow> int \<Rightarrow> nat option \<Rightarrow> slot_state \<Rightarrow> nat option \<times> slot_state" where
  "slot_loop now_us settings [] oldest slot x = (slot, x)"
| "slot_loop now_us settings (i # rest) oldest slot x =
     (let x = expire_slot now_us settings i x in
      if \<not> as_used (fst x ! i) then (Some i, x)
      else if as_last_seen_us (fst x ! i) < oldest
      then slot_loop now_us settings rest (as_last_seen_us (fst x ! i)) (Some i) x
      else slot_loop now_us settings rest oldest slot x)"

definition is_mcp_client :: "string option \<Rightarrow> bool" where
  "is_mcp_client client = (case client of None \<Rightarrow> False | Some c \<Rightarrow> strcaseeq c ''exoanchor-mcp'')"

definition client_slots :: "bool \<Rightarrow> nat list" where
  "client_slots is_mcp = (if is_mcp then [AUTH_BROWSER_SESSION_SLOTS..<AUTH_SESSION_SLOTS] else [0..<AUTH_BROWSER_SESSION_SLOTS])"

text \<open>The critical section of a login.\<close>

definition create_session_locked ::
    "auth_build \<Rightarrow> create_env \<Rightarrow> bool \<Rightarrow> si_auth_method_t \<Rightarrow> u8 list \<Rightarrow> auth \<Rightarrow> esp_err_t \<times> auth" where
  "create_session_locked b c is_mcp method digest s =
     (let e = cv_env c;
          s = retained_init_locked b e s;
          (slot, sessions, revoked, expirations) =
            slot_loop (ae_now_us e) (ae_settings e) (client_slots is_mcp) (2 ^ 63 - 1) None
              (ar_sessions (au_retained s), [], au_session_expirations s);
          s = s\<lparr>au_retained := (au_retained s)\<lparr>ar_sessions := sessions\<rparr>, au_session_expirations := expirations\<rparr>
      in
      case slot of
        None \<Rightarrow> (ESP_ERR_NO_MEM, s)
      | Some i \<Rightarrow>
          let revoked' = (if as_used (sessions ! i) then revoked_sessions_add revoked (sessions ! i) else revoked);
              s = (if as_used (sessions ! i) then s\<lparr>au_session_evictions := au_session_evictions s + 1\<rparr> else s);
              (generation, s) = next_session_generation_locked s;
              session = \<lparr>as_used = True, as_principal = (if is_mcp then SI_PRINCIPAL_MCP else SI_PRINCIPAL_BROWSER),
                 as_capabilities = (if is_mcp then SI_CAPABILITIES_MCP_DEFAULT else SI_CAPABILITIES_WEB_DEFAULT),
                 as_method = method, as_generation = generation,
                 as_session_id = c_strlcpy (SI_AUTH_SESSION_ID_MAX_LEN + 1) (''s'' @ hex32 (cv_random1 c) @ hex32 (cv_random2 c)),
                 as_token_digest = digest, as_created_us = ae_now_us e, as_last_seen_us = ae_now_us e\<rparr>;
              s = s\<lparr>au_retained := (au_retained s)\<lparr>ar_sessions := sessions[i := session]\<rparr>\<rparr>
          in (ESP_OK, (retained_commit_locked b (ae_now_us e) s)\<lparr>au_revoked := au_revoked s @ revoked'\<rparr>))"

text \<open>The token is the text given to the client; it is empty after a failure.\<close>

definition si_auth_create_session_for_method ::
    "auth_build \<Rightarrow> create_env \<Rightarrow> string option \<Rightarrow> u32 \<Rightarrow> si_auth_method_t \<Rightarrow> auth \<Rightarrow> esp_err_t \<times> string \<times> auth" where
  "si_auth_create_session_for_method b c client expected_generation method s =
     (let e = cv_env c;
          (enabled, s) = si_auth_is_enabled b (cv_load c) (ae_mutex e) s
      in
      if \<not> enabled \<or> au_verifier s = [] \<or> si_auth_setup_required s \<or>
         (method \<noteq> SI_AUTH_METHOD_PASSWORD \<and> method \<noteq> SI_AUTH_METHOD_PASSKEY)
      then (ESP_ERR_INVALID_ARG, [], s)
      else
        let (lock_ret, s) = ensure_lock (ae_mutex e) s in
        if lock_ret \<noteq> ESP_OK then (lock_ret, [], s)
        else
          let token = bytes_to_hex (cv_token c);
              (ret, digest) = sha256_text b (Some token)
          in
          if ret \<noteq> ESP_OK then (ret, [], s)
          else if \<not> ae_lock e then (ESP_ERR_TIMEOUT, [], s\<lparr>au_lock_timeouts := au_lock_timeouts s + 1\<rparr>)
          else if expected_generation \<noteq> 0 \<and> expected_generation \<noteq> au_credential_generation s
          then (ESP_ERR_INVALID_STATE, [], s)
          else (case create_session_locked b c (is_mcp_client client) method digest s of
                  (ret, s) \<Rightarrow> (ret, if ret = ESP_OK then token else [], s)))"

definition si_auth_create_session_for_generation ::
    "auth_build \<Rightarrow> create_env \<Rightarrow> string option \<Rightarrow> u32 \<Rightarrow> auth \<Rightarrow> esp_err_t \<times> string \<times> auth" where
  "si_auth_create_session_for_generation b c client expected_generation s =
     si_auth_create_session_for_method b c client expected_generation SI_AUTH_METHOD_PASSWORD s"

definition si_auth_create_session_for_client ::
    "auth_build \<Rightarrow> create_env \<Rightarrow> string option \<Rightarrow> auth \<Rightarrow> esp_err_t \<times> string \<times> auth" where
  "si_auth_create_session_for_client b c client s = si_auth_create_session_for_generation b c client 0 s"

definition si_auth_create_session :: "auth_build \<Rightarrow> create_env \<Rightarrow> auth \<Rightarrow> esp_err_t \<times> string \<times> auth" where
  "si_auth_create_session b c s = si_auth_create_session_for_client b c None s"

definition session_context :: "auth_session_t \<Rightarrow> si_auth_session_context_t" where
  "session_context session = \<lparr>sc_authenticated = True, sc_principal = as_principal session, sc_method = as_method session,
     sc_capabilities = as_capabilities session, sc_generation = as_generation session,
     sc_authenticated_at_us = as_created_us session,
     sc_session_id = c_strlcpy (SI_AUTH_SESSION_ID_MAX_LEN + 1) (as_session_id session)\<rparr>"

text \<open>The loop of the token check; it ends with the first session that has the digest.\<close>

fun token_loop ::
    "int \<Rightarrow> si_session_settings_t \<Rightarrow> u8 list \<Rightarrow> bool \<Rightarrow> nat list \<Rightarrow> slot_state \<Rightarrow> si_auth_session_context_t option \<times> slot_state" where
  "token_loop now_us settings digest touch [] x = (None, x)"
| "token_loop now_us settings digest touch (i # rest) x =
     (let expired = (as_used (fst x ! i) \<and> session_expired (fst x ! i) now_us settings);
          x = expire_slot now_us settings i x
      in
      if \<not> expired \<and> as_used (fst x ! i) \<and> secure_equal digest (as_token_digest (fst x ! i))
      then
        let x = (if touch then ((fst x)[i := (fst x ! i)\<lparr>as_last_seen_us := now_us\<rparr>], snd x) else x)
        in (Some (session_context (fst x ! i)), x)
      else token_loop now_us settings digest touch rest x)"

text \<open>What both context lookups do with the state after their loop.\<close>

definition close_section :: "auth_build \<Rightarrow> int \<Rightarrow> slot_state \<Rightarrow> auth \<Rightarrow> auth" where
  "close_section b now_us x s =
     (case x of (sessions, revoked, expirations) \<Rightarrow>
        (retained_commit_locked b now_us
           (s\<lparr>au_retained := (au_retained s)\<lparr>ar_sessions := sessions\<rparr>, au_session_expirations := expirations\<rparr>))
           \<lparr>au_revoked := au_revoked s @ revoked\<rparr>)"

definition si_auth_token_get_context ::
    "auth_build \<Rightarrow> auth_env \<Rightarrow> load_env \<Rightarrow> string option \<Rightarrow> bool \<Rightarrow> auth \<Rightarrow> bool \<times> si_auth_session_context_t \<times> auth" where
  "si_auth_token_get_context b e l token touch s =
     (case token of None \<Rightarrow> (False, anonymous_context, s)
      | Some t \<Rightarrow>
          if length t \<noteq> SI_AUTH_TOKEN_LEN then (False, anonymous_context, s)
          else
            let (enabled, s) = si_auth_is_enabled b l (ae_mutex e) s in
            if \<not> enabled then (False, anonymous_context, s)
            else
              let (lock_ret, s) = ensure_lock (ae_mutex e) s;
                  (ret, digest) = sha256_text b token
              in
              if lock_ret \<noteq> ESP_OK \<or> ret \<noteq> ESP_OK then (False, anonymous_context, s)
              else if \<not> ae_lock e then (False, anonymous_context, s\<lparr>au_lock_timeouts := au_lock_timeouts s + 1\<rparr>)
              else
                let s = retained_init_locked b e s;
                    (found, x) = token_loop (ae_now_us e) (ae_settings e) digest touch [0..<AUTH_SESSION_SLOTS]
                      (ar_sessions (au_retained s), [], au_session_expirations s);
                    s = (if found = None then s\<lparr>au_validation_misses := au_validation_misses s + 1\<rparr> else s);
                    s = close_section b (ae_now_us e) x s
                in (case found of None \<Rightarrow> (False, anonymous_context, s) | Some ctx \<Rightarrow> (True, ctx, s)))"

text \<open>The loop of the lookup by session id; it ends with the first session that has the id.\<close>

fun live_loop ::
    "int \<Rightarrow> si_session_settings_t \<Rightarrow> string \<Rightarrow> u32 \<Rightarrow> nat list \<Rightarrow> slot_state \<Rightarrow> si_auth_session_context_t option \<times> slot_state" where
  "live_loop now_us settings session_id generation [] x = (None, x)"
| "live_loop now_us settings session_id generation (i # rest) x =
     (if \<not> as_used (fst x ! i) \<or> as_session_id (fst x ! i) \<noteq> session_id
      then live_loop now_us settings session_id generation rest x
      else if session_expired (fst x ! i) now_us settings then (None, expire_slot now_us settings i x)
      else if as_generation (fst x ! i) \<noteq> generation then (None, x)
      else (Some (session_context (fst x ! i)), x))"

definition si_auth_session_get_live_context ::
    "auth_build \<Rightarrow> auth_env \<Rightarrow> load_env \<Rightarrow> string option \<Rightarrow> u32 \<Rightarrow> auth \<Rightarrow> bool \<times> si_auth_session_context_t \<times> auth" where
  "si_auth_session_get_live_context b e l session_id expected_generation s =
     (if c_or_empty session_id = [] \<or> expected_generation = 0 then (False, anonymous_context, s)
      else
        let sid = c_or_empty session_id;
            (enabled, s) = si_auth_is_enabled b l (ae_mutex e) s
        in
        if \<not> enabled
        then if sid \<noteq> ''auth-disabled'' \<or> expected_generation \<noteq> SI_AUTH_DISABLED_SESSION_GENERATION
             then (False, anonymous_context, s)
             else (True, anonymous_context\<lparr>sc_authenticated := True, sc_principal := SI_PRINCIPAL_BROWSER,
                           sc_capabilities := SI_CAPABILITIES_WEB_DEFAULT, sc_method := SI_AUTH_METHOD_PASSWORD,
                           sc_generation := SI_AUTH_DISABLED_SESSION_GENERATION, sc_session_id := ''auth-disabled''\<rparr>, s)
        else
          let (lock_ret, s) = ensure_lock (ae_mutex e) s in
          if lock_ret \<noteq> ESP_OK then (False, anonymous_context, s)
          else if \<not> ae_lock e then (False, anonymous_context, s\<lparr>au_lock_timeouts := au_lock_timeouts s + 1\<rparr>)
          else
            let s = retained_init_locked b e s;
                (found, x) = live_loop (ae_now_us e) (ae_settings e) sid expected_generation [0..<AUTH_SESSION_SLOTS]
                  (ar_sessions (au_retained s), [], au_session_expirations s);
                s = close_section b (ae_now_us e) x s
            in (case found of None \<Rightarrow> (False, anonymous_context, s) | Some ctx \<Rightarrow> (True, ctx, s)))"

definition si_auth_token_matches :: "auth_build \<Rightarrow> auth_env \<Rightarrow> load_env \<Rightarrow> string option \<Rightarrow> auth \<Rightarrow> bool \<times> auth" where
  "si_auth_token_matches b e l token s = (case si_auth_token_get_context b e l token True s of (ok, _, s) \<Rightarrow> (ok, s))"

definition si_auth_token_is_mcp :: "auth_build \<Rightarrow> auth_env \<Rightarrow> load_env \<Rightarrow> string option \<Rightarrow> auth \<Rightarrow> bool \<times> auth" where
  "si_auth_token_is_mcp b e l token s =
     (case si_auth_token_get_context b e l token False s of (ok, ctx, s) \<Rightarrow> (ok \<and> sc_principal ctx = SI_PRINCIPAL_MCP, s))"

definition si_auth_token_is_browser :: "auth_build \<Rightarrow> auth_env \<Rightarrow> load_env \<Rightarrow> string option \<Rightarrow> auth \<Rightarrow> bool \<times> auth" where
  "si_auth_token_is_browser b e l token s =
     (case si_auth_token_get_context b e l token False s of (ok, ctx, s) \<Rightarrow>
        (ok \<and> sc_principal ctx = SI_PRINCIPAL_BROWSER \<and> sc_capabilities ctx AND SI_CAPABILITY_SETTINGS \<noteq> 0, s))"

text \<open>\<open>now\<close> is the time read before the lookup.\<close>

definition token_recent_browser ::
    "auth_build \<Rightarrow> auth_env \<Rightarrow> load_env \<Rightarrow> int \<Rightarrow> string option \<Rightarrow> bool \<Rightarrow> auth \<Rightarrow> bool \<times> auth" where
  "token_recent_browser b e l now token password_only s =
     (case si_auth_token_get_context b e l token False s of (ok, ctx, s) \<Rightarrow>
        (ok \<and> sc_principal ctx = SI_PRINCIPAL_BROWSER \<and> sc_capabilities ctx AND SI_CAPABILITY_SETTINGS \<noteq> 0 \<and>
         (\<not> password_only \<or> sc_method ctx = SI_AUTH_METHOD_PASSWORD) \<and> sc_authenticated_at_us ctx > 0 \<and>
         now \<ge> sc_authenticated_at_us ctx \<and> now - sc_authenticated_at_us ctx \<le> 60000000, s))"

definition si_auth_token_is_recent :: "auth_build \<Rightarrow> auth_env \<Rightarrow> load_env \<Rightarrow> int \<Rightarrow> string option \<Rightarrow> auth \<Rightarrow> bool \<times> auth" where
  "si_auth_token_is_recent b e l now token s = token_recent_browser b e l now token False s"

definition si_auth_token_is_recent_password ::
    "auth_build \<Rightarrow> auth_env \<Rightarrow> load_env \<Rightarrow> int \<Rightarrow> string option \<Rightarrow> auth \<Rightarrow> bool \<times> auth" where
  "si_auth_token_is_recent_password b e l now token s = token_recent_browser b e l now token True s"

section \<open>Logout, throttling, counters\<close>

text \<open>The loop of the logout clears the first session that has the digest.\<close>

fun revoke_loop :: "u8 list \<Rightarrow> nat list \<Rightarrow> auth_session_t list \<times> auth_revoked_sessions_t \<Rightarrow> auth_session_t list \<times> auth_revoked_sessions_t" where
  "revoke_loop digest [] x = x"
| "revoke_loop digest (i # rest) x =
     (if as_used (fst x ! i) \<and> secure_equal digest (as_token_digest (fst x ! i)) then session_clear_locked i x
      else revoke_loop digest rest x)"

definition si_auth_revoke_session :: "auth_build \<Rightarrow> auth_env \<Rightarrow> string option \<Rightarrow> auth \<Rightarrow> auth" where
  "si_auth_revoke_session b e token s =
     (case token of None \<Rightarrow> s
      | Some t \<Rightarrow>
          let (lock_ret, s) = ensure_lock (ae_mutex e) s;
              (ret, digest) = sha256_text b token
          in
          if lock_ret \<noteq> ESP_OK \<or> ret \<noteq> ESP_OK then s
          else
            let s = retained_init_locked b e s;
                (sessions, revoked) = revoke_loop digest [0..<AUTH_SESSION_SLOTS] (ar_sessions (au_retained s), []);
                s = s\<lparr>au_retained := (au_retained s)\<lparr>ar_sessions := sessions\<rparr>\<rparr>
            in (retained_commit_locked b (ae_now_us e) s)\<lparr>au_revoked := au_revoked s @ revoked\<rparr>)"

text \<open>A change of a second factor: \<open>commit\<close> is the result of the callback, None for no callback.\<close>

definition si_auth_security_commit ::
    "auth_build \<Rightarrow> auth_env \<Rightarrow> bool \<Rightarrow> u32 \<Rightarrow> esp_err_t option \<Rightarrow> auth \<Rightarrow> esp_err_t \<times> auth" where
  "si_auth_security_commit b e credentials_lock expected_generation commit s =
     (if \<not> au_credentials_lock s \<or> \<not> credentials_lock then (ESP_ERR_TIMEOUT, s)
      else if expected_generation \<noteq> au_credential_generation s then (ESP_ERR_INVALID_STATE, s)
      else
        let (lock_ret, s) = ensure_lock (ae_mutex e) s in
        if lock_ret \<noteq> ESP_OK then (ESP_FAIL, s)
        else
          let s = clear_all_locked b e (s\<lparr>au_credential_generation := au_credential_generation s + 1\<rparr>)
          in (case commit of None \<Rightarrow> ESP_OK | Some ret \<Rightarrow> ret, s))"

definition si_auth_login_retry_after_ms :: "auth_env \<Rightarrow> auth \<Rightarrow> u32 \<times> auth" where
  "si_auth_login_retry_after_ms e s =
     (let (lock_ret, s) = ensure_lock (ae_mutex e) s in
      if lock_ret \<noteq> ESP_OK \<or> \<not> ae_lock e then (0, s)
      else (if ae_now_us e < au_lockout_until_us s then of_int ((au_lockout_until_us s - ae_now_us e + 999) div 1000) else 0, s))"

definition si_auth_record_login_failure :: "auth_env \<Rightarrow> auth \<Rightarrow> auth" where
  "si_auth_record_login_failure e s =
     (let (lock_ret, s) = ensure_lock (ae_mutex e) s in
      if lock_ret \<noteq> ESP_OK \<or> \<not> ae_lock e then s
      else
        let now_us = ae_now_us e;
            s = (if au_failure_window_started_us s = 0 \<or>
                    now_us - au_failure_window_started_us s > AUTH_FAILURE_WINDOW_MS * 1000
                 then s\<lparr>au_failure_window_started_us := now_us, au_failure_count := 0\<rparr> else s);
            s = s\<lparr>au_failure_count := au_failure_count s + 1\<rparr>
        in if au_failure_count s \<ge> AUTH_FAILURE_LIMIT
           then s\<lparr>au_lockout_until_us := now_us + AUTH_LOCKOUT_MS * 1000, au_failure_count := 0,
                  au_failure_window_started_us := now_us\<rparr>
           else s)"

definition si_auth_clear_login_failures :: "auth_env \<Rightarrow> auth \<Rightarrow> auth" where
  "si_auth_clear_login_failures e s =
     (let (lock_ret, s) = ensure_lock (ae_mutex e) s in
      if lock_ret = ESP_OK \<and> ae_lock e
      then s\<lparr>au_failure_count := 0, au_failure_window_started_us := 0, au_lockout_until_us := 0\<rparr> else s)"

definition si_auth_login_count :: "load_env \<Rightarrow> auth \<Rightarrow> u32 \<times> auth" where
  "si_auth_login_count l s =
     (if au_login_count_loaded s then (au_login_count s, s)
      else
        let count = (if lo_open l = ESP_OK then snd (get_u32 l (au_store s) ''login_count'' (au_login_count s))
                     else au_login_count s)
        in (count, s\<lparr>au_login_count := count, au_login_count_loaded := True\<rparr>))"

definition si_auth_record_login :: "load_env \<Rightarrow> set_env \<Rightarrow> auth \<Rightarrow> auth" where
  "si_auth_record_login l v s =
     (let (count, s) = si_auth_login_count l s; count = count + 1 in
      if sv_open v = ESP_OK
      then
        let (ret, store) = write_store v [(''login_count'', StoreU32 count)] (au_store s);
            s = s\<lparr>au_store := store\<rparr>
        in if ret = ESP_OK then s\<lparr>au_login_count := count\<rparr> else s
      else s\<lparr>au_login_count := count\<rparr>)"

record si_auth_status_t =
  us_enabled :: bool
  us_using_default :: bool
  us_setup_required :: bool
  us_legacy_password :: bool
  us_login_count :: u32
  us_username :: string

definition si_auth_get_status :: "auth_build \<Rightarrow> load_env \<Rightarrow> bool \<Rightarrow> auth \<Rightarrow> si_auth_status_t \<times> auth" where
  "si_auth_get_status b l created s =
     (let s = load_credentials b l s;
          (enforced, s) = si_auth_is_enabled b l created s;
          (count, s) = si_auth_login_count l s
      in (\<lparr>us_enabled = (enforced \<and> au_verifier s \<noteq> []), us_using_default = (enforced \<and> au_using_default s),
           us_setup_required = (enforced \<and> si_auth_setup_required s), us_legacy_password = au_legacy_password s,
           us_login_count = count, us_username = c_strlcpy (SI_AUTH_USERNAME_MAX_LEN + 1) (au_username s)\<rparr>, s))"

record si_auth_runtime_status_t =
  ur_browser_active :: u32
  ur_mcp_active :: u32
  ur_restored :: u32
  ur_evictions :: u32
  ur_expirations :: u32
  ur_validation_misses :: u32
  ur_lock_timeouts :: u32

definition count_principal :: "si_principal_kind_t \<Rightarrow> auth_session_t list \<Rightarrow> u32" where
  "count_principal p sessions =
     of_nat (length (filter (\<lambda>i. as_used (sessions ! i) \<and> as_principal (sessions ! i) = p) [0..<AUTH_SESSION_SLOTS]))"

definition si_auth_get_runtime_status :: "auth_build \<Rightarrow> auth_env \<Rightarrow> auth \<Rightarrow> si_auth_runtime_status_t \<times> auth" where
  "si_auth_get_runtime_status b e s =
     (let st = \<lparr>ur_browser_active = 0, ur_mcp_active = 0, ur_restored = au_session_restores s,
                ur_evictions = au_session_evictions s, ur_expirations = au_session_expirations s,
                ur_validation_misses = au_validation_misses s, ur_lock_timeouts = au_lock_timeouts s\<rparr>;
          (lock_ret, s) = ensure_lock (ae_mutex e) s
      in
      if lock_ret \<noteq> ESP_OK \<or> \<not> ae_lock e
      then let s = s\<lparr>au_lock_timeouts := au_lock_timeouts s + 1\<rparr> in (st\<lparr>ur_lock_timeouts := au_lock_timeouts s\<rparr>, s)
      else
        let s = retained_init_locked b e s;
            x = foldl (\<lambda>x i. expire_slot (ae_now_us e) (ae_settings e) i x)
                  (ar_sessions (au_retained s), [], au_session_expirations s) [0..<AUTH_SESSION_SLOTS];
            s = close_section b (ae_now_us e) x s
        in (st\<lparr>ur_browser_active := count_principal SI_PRINCIPAL_BROWSER (fst x),
                ur_mcp_active := count_principal SI_PRINCIPAL_MCP (fst x),
                ur_expirations := au_session_expirations s, ur_restored := au_session_restores s\<rparr>, s))"

text \<open>A start: the reset reason is that of this start, the variables have their initial values; the retained memory and the store are what they were.\<close>

definition power_on :: "esp_reset_reason_t \<Rightarrow> auth_retained_state_t \<Rightarrow> auth_store \<Rightarrow> auth" where
  "power_on reason retained store = \<lparr>au_credential_generation = 1, au_username = [], au_verifier = [], au_salt = [],
     au_iterations = 0, au_loaded = False, au_using_default = False, au_setup_pending = False, au_legacy_password = False,
     au_login_count_loaded = False, au_login_count = 0, au_lock = False, au_credentials_lock = False,
     au_retained = retained, au_retained_initialized = False, au_failure_count = 0, au_failure_window_started_us = 0,
     au_lockout_until_us = 0, au_session_evictions = 0, au_session_expirations = 0, au_session_restores = 0,
     au_validation_misses = 0, au_lock_timeouts = 0, au_listeners = replicate AUTH_REVOKED_LISTENER_SLOTS None,
     au_reset_reason = reason, au_store = store, au_revoked = []\<rparr>"

end
