(* ===== verification/Auth_Props.thy ===== *)
theory Auth_Props
  imports Auth_Service Lease_Props
begin

text \<open>
  The login service over time: the table of sessions keeps its shape, a session only disappears by being
  revoked, a token is accepted exactly while its session lives, and a change of the credentials ends every
  session and fences logins under way. Then the way of a revocation to the control lease and the keyboard.
\<close>

section \<open>Bytes and text\<close>

lemma foldl_or_zero:
  "foldl (\<lambda>d i. d OR f i) a is = 0 \<longleftrightarrow> a = 0 \<and> (\<forall>i\<in>set is. f i = 0)" for f :: "nat \<Rightarrow> u8"
  by (induction "is" arbitrary: a) (auto simp: or_eq_0_iff)

lemma xor_zero_iff: "x XOR y = 0 \<longleftrightarrow> x = y" for x y :: u8
  by (metis xor.assoc xor.left_neutral xor_self_eq)

lemma secure_equal_iff:
  "secure_equal a b \<longleftrightarrow> (of_nat (length a) :: u8) = of_nat (length b) \<and> (\<forall>i<max (length a) (length b). byte_at a i = byte_at b i)"
  unfolding secure_equal_def foldl_or_zero xor_zero_iff by auto

lemma secure_equal_refl [simp]: "secure_equal a a"
  by (simp add: secure_equal_iff)

text \<open>The comparison in constant time is equality on byte strings of equal length, and on those without a zero byte.\<close>

lemma secure_equal_length: "length a = length b \<Longrightarrow> secure_equal a b \<longleftrightarrow> a = b"
  by (auto simp: secure_equal_iff byte_at_def intro: nth_equalityI)

lemma secure_equal_nonzero:
  assumes "0 \<notin> set a" "0 \<notin> set b"
  shows "secure_equal a b \<longleftrightarrow> a = b"
proof
  have shorter: False if "length x < length y" "0 \<notin> set y" "byte_at x (length x) = byte_at y (length x)" for x y
    using that nth_mem [of "length x" y] by (simp add: byte_at_def)
  assume s: "secure_equal a b"
  then have "length a = length b"
    using shorter [of a b] shorter [of b a] assms unfolding secure_equal_iff by (metis linorder_neqE_nat max.strict_coboundedI2 max.strict_coboundedI1)
  then show "a = b" using s by (simp add: secure_equal_length)
qed simp

lemma hex_char_nibble: "n < 16 \<Longrightarrow> hex_nibble (hex_char n) = int n"
  by (auto simp: hex_char_def hex_nibble_def isdigit_def)

lemma hex_loop_inverts: "hex_loop (bytes_to_hex xs) = Some xs"
proof (induction xs)
  case (Cons x xs)
  have "unat x < 256" using unsigned_less [of x] by simp
  then have "unat x div 16 < 16" by (simp add: less_mult_imp_div_less)
  moreover have "(of_int (int (unat x div 16) * 16 + int (unat x mod 16)) :: u8) = x"
  proof -
    have "unat x div 16 * 16 + unat x mod 16 = unat x" by simp
    then have "int (unat x div 16) * 16 + int (unat x mod 16) = int (unat x)" by (metis of_nat_add of_nat_mult of_nat_numeral)
    then show ?thesis by simp
  qed
  ultimately show ?case using Cons by (simp add: bytes_to_hex_def byte_hex_def hex_char_nibble)
qed (simp add: bytes_to_hex_def)

lemma length_bytes_to_hex [simp]: "length (bytes_to_hex xs) = 2 * length xs"
  by (induction xs) (simp_all add: bytes_to_hex_def byte_hex_def)

lemma hex_to_bytes_inverts: "hex_to_bytes (bytes_to_hex xs) (length xs) = Some xs"
  by (simp add: hex_to_bytes_def hex_loop_inverts)

section \<open>The table of sessions\<close>

abbreviation sessions :: "auth \<Rightarrow> auth_session_t list" where "sessions s \<equiv> ar_sessions (au_retained s)"

text \<open>The first twelve slots are for browsers, the last four for MCP clients.\<close>

definition session_ok :: "nat \<Rightarrow> auth_session_t \<Rightarrow> bool" where
  "session_ok i x \<longleftrightarrow>
     as_principal x = (if i < AUTH_BROWSER_SESSION_SLOTS then SI_PRINCIPAL_BROWSER else SI_PRINCIPAL_MCP) \<and>
     as_capabilities x = (if i < AUTH_BROWSER_SESSION_SLOTS then SI_CAPABILITIES_WEB_DEFAULT else SI_CAPABILITIES_MCP_DEFAULT) \<and>
     as_generation x \<noteq> 0 \<and> as_session_id x \<noteq> [] \<and> length (as_session_id x) \<le> SI_AUTH_SESSION_ID_MAX_LEN \<and>
     (as_method x = SI_AUTH_METHOD_PASSWORD \<or> as_method x = SI_AUTH_METHOD_PASSKEY)"

definition slots_ok :: "auth_session_t list \<Rightarrow> bool" where
  "slots_ok ss \<longleftrightarrow> length ss = AUTH_SESSION_SLOTS \<and> (\<forall>i<AUTH_SESSION_SLOTS. as_used (ss ! i) \<longrightarrow> session_ok i (ss ! i))"

definition session_key :: "auth_session_t \<Rightarrow> string \<times> u32" where
  "session_key x = (as_session_id x, as_generation x)"

definition used_in :: "auth_session_t list \<Rightarrow> auth_session_t set" where
  "used_in ss = {x \<in> set ss. as_used x}"

lemma zero_unused [simp]: "\<not> as_used zero_session"
  by (simp add: zero_session_def)

lemma slots_ok_update:
  "slots_ok ss \<Longrightarrow> (as_used x \<longrightarrow> session_ok i x) \<Longrightarrow> slots_ok (ss[i := x])"
  by (cases "i < length ss") (auto simp: slots_ok_def nth_list_update)

lemma slots_ok_zero: "slots_ok (replicate AUTH_SESSION_SLOTS zero_session)"
  by (simp add: slots_ok_def)

text \<open>What the loops do to the table: they clear slots and add their keys to the revoked ones, and leave the rest.\<close>

definition carried :: "auth_session_t list \<Rightarrow> auth_session_t list \<Rightarrow> (string \<times> u32) list \<Rightarrow> bool" where
  "carried ss ss' added \<longleftrightarrow> (\<forall>x\<in>used_in ss. (\<exists>y\<in>used_in ss'. session_key y = session_key x) \<or> session_key x \<in> set added)"

lemma carried_refl [simp]: "carried ss ss added"
  by (auto simp: carried_def)

lemma carried_trans: "carried ss ss1 a \<Longrightarrow> carried ss1 ss2 b \<Longrightarrow> carried ss ss2 (a @ b)"
  unfolding carried_def by (metis Un_iff set_append)

lemma used_in_update: "as_used x \<Longrightarrow> i < length ss \<Longrightarrow> x \<in> used_in (ss[i := x])"
  by (simp add: used_in_def set_update_memI)

lemma used_in_other:
  assumes "x \<in> used_in ss" "x \<noteq> ss ! i"
  shows "x \<in> used_in (ss[i := y])"
proof -
  obtain j where "j < length ss" "x = ss ! j" using assms(1) by (auto simp: used_in_def in_set_conv_nth)
  moreover then have "j \<noteq> i" using assms(2) by auto
  ultimately have "ss[i := y] ! j = x" "j < length (ss[i := y])" by simp_all
  then have "x \<in> set (ss[i := y])" by (metis nth_mem)
  then show ?thesis using assms(1) by (simp add: used_in_def)
qed

lemma carried_update:
  assumes "as_used (ss ! i) \<longrightarrow> session_key (ss ! i) \<in> set added \<or> (as_used y \<and> session_key y = session_key (ss ! i) \<and> i < length ss)"
  shows "carried ss (ss[i := y]) added"
  unfolding carried_def
proof
  fix x assume x: "x \<in> used_in ss"
  show "(\<exists>z\<in>used_in (ss[i := y]). session_key z = session_key x) \<or> session_key x \<in> set added"
  proof (cases "x = ss ! i")
    case True
    then show ?thesis using assms x used_in_update [of y i ss] by (auto simp: used_in_def)
  qed (use x used_in_other in blast)
qed
subsection \<open>The loops\<close>

lemma revoked_add:
  assumes "slots_ok ss" "i < AUTH_SESSION_SLOTS" "as_used (ss ! i)" "length rv < AUTH_SESSION_SLOTS"
  shows "revoked_sessions_add rv (ss ! i) = rv @ [session_key (ss ! i)]"
  using assms by (auto simp: revoked_sessions_add_def slots_ok_def session_ok_def session_key_def)

lemma clear_slot:
  assumes "slots_ok ss" "i < AUTH_SESSION_SLOTS" "as_used (ss ! i)" "length rv < AUTH_SESSION_SLOTS"
  shows "session_clear_locked i (ss, rv) = (ss[i := zero_session], rv @ [session_key (ss ! i)])"
  using revoked_add [OF assms] by (simp add: session_clear_locked_def)

lemma expire_slot_eq:
  assumes "slots_ok ss" "i < AUTH_SESSION_SLOTS" "length rv < AUTH_SESSION_SLOTS"
  shows "expire_slot now st i (ss, rv, n) =
    (if as_used (ss ! i) \<and> session_expired (ss ! i) now st then (ss[i := zero_session], rv @ [session_key (ss ! i)], n + 1)
     else (ss, rv, n))"
  using clear_slot [OF assms(1,2) _ assms(3)] by (simp add: expire_slot_def)

text \<open>
  A loop over indices leads from one table to another: the shape is kept, nothing disappears without being
  added, and at most one key is added for each index.
\<close>

definition sweeps :: "nat list \<Rightarrow> auth_session_t list \<Rightarrow> (string \<times> u32) list \<Rightarrow> auth_session_t list \<Rightarrow> (string \<times> u32) list \<Rightarrow> bool" where
  "sweeps is ss rv ss' rv' \<longleftrightarrow> slots_ok ss' \<and>
     (\<exists>added. rv' = rv @ added \<and> length added \<le> length is \<and> carried ss ss' added \<and> set added \<subseteq> session_key ` used_in ss)"

lemma sweeps_refl: "slots_ok ss \<Longrightarrow> sweeps is ss rv ss rv"
  by (simp add: sweeps_def)

lemma used_in_zero: "used_in (ss[i := zero_session]) \<subseteq> used_in ss"
  using set_update_subset_insert [of ss i zero_session] by (auto simp: used_in_def)

lemma sweeps_clear:
  assumes "slots_ok ss" "i < AUTH_SESSION_SLOTS" "as_used (ss ! i)"
  shows "sweeps [i] ss rv (ss[i := zero_session]) (rv @ [session_key (ss ! i)])"
  using assms carried_update [of ss i "[session_key (ss ! i)]" zero_session] slots_ok_update [of ss zero_session i]
  by (auto simp: sweeps_def slots_ok_def used_in_def)

lemma sweeps_trans:
  assumes "sweeps is ss rv ss1 rv1" "sweeps js ss1 rv1 ss2 rv2" "used_in ss1 \<subseteq> used_in ss"
  shows "sweeps (is @ js) ss rv ss2 rv2"
proof -
  obtain a where a: "rv1 = rv @ a" "length a \<le> length is" "carried ss ss1 a" "set a \<subseteq> session_key ` used_in ss"
    using assms(1) by (auto simp: sweeps_def)
  obtain c where c: "rv2 = rv1 @ c" "length c \<le> length js" "carried ss1 ss2 c" "set c \<subseteq> session_key ` used_in ss1" "slots_ok ss2"
    using assms(2) by (auto simp: sweeps_def)
  have "set (a @ c) \<subseteq> session_key ` used_in ss" using a(4) c(4) image_mono [OF assms(3), of session_key] unfolding set_append by blast
  then show ?thesis using a c carried_trans [OF a(3) c(3)] by (auto simp: sweeps_def)
qed

lemma sweeps_expire:
  assumes "slots_ok ss" "i < AUTH_SESSION_SLOTS" "length rv < AUTH_SESSION_SLOTS"
  obtains ss' rv' n' where "expire_slot now st i (ss, rv, n) = (ss', rv', n')" "sweeps [i] ss rv ss' rv'" "used_in ss' \<subseteq> used_in ss"
    "length rv' \<le> Suc (length rv)" "\<And>j. j \<noteq> i \<Longrightarrow> ss' ! j = ss ! j" "slots_ok ss'"
    "as_used (ss' ! i) \<longleftrightarrow> as_used (ss ! i) \<and> \<not> session_expired (ss ! i) now st" "as_used (ss' ! i) \<Longrightarrow> ss' = ss \<and> rv' = rv"
proof (cases "as_used (ss ! i) \<and> session_expired (ss ! i) now st")
  case True
  have "slots_ok (ss[i := zero_session])" using slots_ok_update [OF assms(1), of zero_session i] by simp
  moreover have "i < length ss" using assms(1,2) by (simp add: slots_ok_def)
  ultimately show thesis
    using that [of "ss[i := zero_session]" "rv @ [session_key (ss ! i)]" "n + 1"] True sweeps_clear [OF assms(1,2)] used_in_zero
    by (simp add: expire_slot_eq [OF assms])
next
  case False
  then show thesis using that [of ss rv n] assms(1) sweeps_refl [OF assms(1)] by (auto simp: expire_slot_eq [OF assms])
qed

lemma slot_loop_sweeps:
  assumes "slots_ok ss" "\<forall>i\<in>set is. i < AUTH_SESSION_SLOTS" "length rv + length is \<le> AUTH_SESSION_SLOTS"
    "slot_loop now st is oldest slot (ss, rv, n) = (r, ss', rv', n')"
  shows "sweeps is ss rv ss' rv' \<and> used_in ss' \<subseteq> used_in ss \<and> (r = slot \<or> (\<exists>i\<in>set is. r = Some i)) \<and>
    ((\<exists>i\<in>set is. r = Some i \<and> \<not> as_used (ss' ! i)) \<or> ss' = ss \<and> rv' = rv)"
  using assms
proof (induction "is" arbitrary: oldest slot n)
  case Nil
  then show ?case by (auto simp: sweeps_refl)
next
  case (Cons i "is")
  have i: "i < AUTH_SESSION_SLOTS" "length rv < AUTH_SESSION_SLOTS" "length rv + length is \<le> AUTH_SESSION_SLOTS" using Cons.prems by simp_all
  show ?case
  proof (rule sweeps_expire [OF Cons.prems(1) i(1,2), of now st n])
    fix ss1 rv1 n1
    assume e: "expire_slot now st i (ss, rv, n) = (ss1, rv1, n1)" "sweeps [i] ss rv ss1 rv1" "used_in ss1 \<subseteq> used_in ss"
      "as_used (ss1 ! i) \<Longrightarrow> ss1 = ss \<and> rv1 = rv"
    have one: "sweeps (i # is) ss rv ss1 rv1" using e(2) by (auto simp: sweeps_def)
    show ?thesis
    proof (cases "as_used (ss1 ! i)")
      case False
      then show ?thesis using Cons.prems(4) e one by (auto simp: Let_def)
    next
      case True
      have s: "ss1 = ss" "rv1 = rv" using e(4) True by simp_all
      have rest: "\<forall>i\<in>set is. i < AUTH_SESSION_SLOTS" using Cons.prems(2) by simp
      obtain o' sl where r: "slot_loop now st is o' sl (ss, rv, n1) = (r, ss', rv', n')" "sl = slot \<or> sl = Some i"
        using Cons.prems(4) e(1) True s by (auto simp: Let_def split: if_splits)
      have h: "sweeps is ss rv ss' rv' \<and> used_in ss' \<subseteq> used_in ss \<and> (r = sl \<or> (\<exists>i\<in>set is. r = Some i)) \<and>
          ((\<exists>i\<in>set is. r = Some i \<and> \<not> as_used (ss' ! i)) \<or> ss' = ss \<and> rv' = rv)"
        by (rule Cons.IH [OF Cons.prems(1) rest i(3) r(1)])
      moreover have "sweeps (i # is) ss rv ss' rv'" using h by (auto simp: sweeps_def)
      ultimately show ?thesis using r(2) by auto
    qed
  qed
qed

text \<open>The session a token belongs to.\<close>

definition has_digest :: "u8 list \<Rightarrow> auth_session_t \<Rightarrow> bool" where
  "has_digest digest x \<longleftrightarrow> as_used x \<and> secure_equal digest (as_token_digest x)"

definition accepts :: "int \<Rightarrow> si_session_settings_t \<Rightarrow> u8 list \<Rightarrow> auth_session_t \<Rightarrow> bool" where
  "accepts now st digest x \<longleftrightarrow> has_digest digest x \<and> \<not> session_expired x now st"

lemma touch_context [simp]:
  "session_context (x\<lparr>as_last_seen_us := t\<rparr>) = session_context x" "session_key (x\<lparr>as_last_seen_us := t\<rparr>) = session_key x"
  "session_ok i (x\<lparr>as_last_seen_us := t\<rparr>) = session_ok i x"
  by (simp_all add: session_context_def session_key_def session_ok_def)

lemma sweeps_touch:
  assumes "slots_ok ss" "i < AUTH_SESSION_SLOTS" "as_used (ss ! i)"
  shows "sweeps is ss rv (ss[i := (ss ! i)\<lparr>as_last_seen_us := t\<rparr>]) rv"
  using assms carried_update [of ss i "[]" "(ss ! i)\<lparr>as_last_seen_us := t\<rparr>"]
    slots_ok_update [OF assms(1), of "(ss ! i)\<lparr>as_last_seen_us := t\<rparr>" i]
  by (auto simp: sweeps_def slots_ok_def)

lemma token_loop_sweeps:
  assumes "slots_ok ss" "\<forall>i\<in>set is. i < AUTH_SESSION_SLOTS" "length rv + length is \<le> AUTH_SESSION_SLOTS" "distinct is"
    "token_loop now st d touch is (ss, rv, n) = (r, ss', rv', n')"
  shows "sweeps is ss rv ss' rv' \<and> (\<forall>ctx. r = Some ctx \<longrightarrow> (\<exists>i\<in>set is. accepts now st d (ss ! i) \<and> ctx = session_context (ss ! i))) \<and>
    (r = None \<longrightarrow> (\<forall>i\<in>set is. \<not> accepts now st d (ss ! i)))"
  using assms
proof (induction "is" arbitrary: ss rv n)
  case Nil
  then show ?case by (simp add: sweeps_refl)
next
  case (Cons i "is")
  have i: "i < AUTH_SESSION_SLOTS" "length rv < AUTH_SESSION_SLOTS" using Cons.prems by simp_all
  show ?case
  proof (rule sweeps_expire [OF Cons.prems(1) i(1,2), of now st n])
    fix ss1 rv1 n1
    assume e: "expire_slot now st i (ss, rv, n) = (ss1, rv1, n1)" "sweeps [i] ss rv ss1 rv1" "used_in ss1 \<subseteq> used_in ss"
      "as_used (ss1 ! i) \<Longrightarrow> ss1 = ss \<and> rv1 = rv" "slots_ok ss1" "length rv1 \<le> Suc (length rv)" "\<And>j. j \<noteq> i \<Longrightarrow> ss1 ! j = ss ! j"
      "as_used (ss1 ! i) \<longleftrightarrow> as_used (ss ! i) \<and> \<not> session_expired (ss ! i) now st"
    show ?thesis
    proof (cases "accepts now st d (ss ! i)")
      case True
      then have u: "as_used (ss ! i)" "\<not> session_expired (ss ! i) now st" by (simp_all add: accepts_def has_digest_def)
      have "as_used (ss1 ! i)" using e(8) u by simp
      from e(4) [OF this] u have s: "ss1 = ss" "rv1 = rv" "as_used (ss ! i)" by simp_all
      have l: "i < length ss" using Cons.prems(1) i(1) by (simp add: slots_ok_def)
      have t: "sweeps (i # is) ss rv (ss[i := (ss ! i)\<lparr>as_last_seen_us := now\<rparr>]) rv"
        using sweeps_touch [OF Cons.prems(1) i(1) s(3)] .
      have "token_loop now st d touch (i # is) (ss, rv, n) =
          (Some (session_context (ss ! i)), if touch then ss[i := (ss ! i)\<lparr>as_last_seen_us := now\<rparr>] else ss, rv, n1)"
        using True e(1) s l by (simp add: accepts_def has_digest_def)
      then have "r = Some (session_context (ss ! i)) \<and> rv' = rv \<and> (ss' = ss \<or> ss' = ss[i := (ss ! i)\<lparr>as_last_seen_us := now\<rparr>])"
        using Cons.prems(5) by (simp split: if_splits)
      then have "sweeps (i # is) ss rv ss' rv'" "r = Some (session_context (ss ! i))"
        using t sweeps_refl [OF Cons.prems(1), of "i # is" rv] by (elim conjE disjE; simp)+
      then show ?thesis using True by simp
    next
      case False
      have "\<not> (\<not> (as_used (ss ! i) \<and> session_expired (ss ! i) now st) \<and> as_used (ss1 ! i) \<and> secure_equal d (as_token_digest (ss1 ! i)))"
      proof
        assume a: "\<not> (as_used (ss ! i) \<and> session_expired (ss ! i) now st) \<and> as_used (ss1 ! i) \<and> secure_equal d (as_token_digest (ss1 ! i))"
        then have "ss1 = ss" using e(4) by simp
        then show False using False a by (simp add: accepts_def has_digest_def)
      qed
      then have t: "token_loop now st d touch is (ss1, rv1, n1) = (r, ss', rv', n')"
        using Cons.prems(5) e(1) unfolding token_loop.simps(2) Let_def by (simp only: fst_conv if_False)
      have p: "\<forall>i\<in>set is. i < AUTH_SESSION_SLOTS" "length rv1 + length is \<le> AUTH_SESSION_SLOTS" "distinct is"
        using Cons.prems(2,3,4) e(6) by simp_all
      note IH = Cons.IH [OF e(5) p t]
      have j: "ss1 ! j = ss ! j" if "j \<in> set is" for j using e(7) Cons.prems(4) that by force
      have "sweeps (i # is) ss rv ss' rv'" using IH sweeps_trans [OF e(2) _ e(3), of "is" ss' rv'] by simp
      then show ?thesis using False IH j by simp
    qed
  qed
qed

lemma live_loop_sweeps:
  assumes "slots_ok ss" "\<forall>i\<in>set is. i < AUTH_SESSION_SLOTS" "length rv + length is \<le> AUTH_SESSION_SLOTS"
    "live_loop now st sid g is (ss, rv, n) = (r, ss', rv', n')"
  shows "sweeps is ss rv ss' rv' \<and> (\<forall>ctx. r = Some ctx \<longrightarrow>
    (\<exists>i\<in>set is. as_used (ss ! i) \<and> session_key (ss ! i) = (sid, g) \<and> \<not> session_expired (ss ! i) now st \<and> ctx = session_context (ss ! i)))"
  using assms
proof (induction "is")
  case (Cons i "is")
  have i: "i < AUTH_SESSION_SLOTS" "length rv < AUTH_SESSION_SLOTS" "length rv + length is \<le> AUTH_SESSION_SLOTS" using Cons.prems by simp_all
  have rest: "\<forall>i\<in>set is. i < AUTH_SESSION_SLOTS" using Cons.prems(2) by simp
  show ?case
  proof (cases "\<not> as_used (ss ! i) \<or> as_session_id (ss ! i) \<noteq> sid")
    case True
    then have "live_loop now st sid g is (ss, rv, n) = (r, ss', rv', n')" using Cons.prems(4) by auto
    from Cons.IH [OF Cons.prems(1) rest i(3) this] show ?thesis by (auto simp: sweeps_def)
  next
    case False
    show ?thesis
    proof (rule sweeps_expire [OF Cons.prems(1) i(1,2), of now st n])
      fix ss1 rv1 n1
      assume "expire_slot now st i (ss, rv, n) = (ss1, rv1, n1)" "sweeps [i] ss rv ss1 rv1"
      moreover have "sweeps (i # is) ss rv ss1 rv1" if "sweeps [i] ss rv ss1 rv1" using that by (auto simp: sweeps_def)
      ultimately show ?thesis using Cons.prems(1,4) False sweeps_refl [OF Cons.prems(1)]
        by (auto simp: session_key_def split: if_splits)
    qed
  qed
qed (simp add: sweeps_refl)

lemma revoke_loop_sweeps:
  assumes "slots_ok ss" "\<forall>i\<in>set is. i < AUTH_SESSION_SLOTS" "length rv < AUTH_SESSION_SLOTS" "is \<noteq> []"
    "revoke_loop d is (ss, rv) = (ss', rv')"
  shows "sweeps is ss rv ss' rv' \<and>
    ((\<exists>i\<in>set is. has_digest d (ss ! i) \<and> ss' = ss[i := zero_session] \<and> rv' = rv @ [session_key (ss ! i)]) \<or>
     (\<forall>i\<in>set is. \<not> has_digest d (ss ! i)) \<and> ss' = ss \<and> rv' = rv)"
  using assms
proof (induction "is")
  case (Cons i "is")
  show ?case
  proof (cases "has_digest d (ss ! i)")
    case True
    then have u: "as_used (ss ! i)" "i < AUTH_SESSION_SLOTS" using Cons.prems(2) by (simp_all add: has_digest_def)
    have "ss' = ss[i := zero_session]" "rv' = rv @ [session_key (ss ! i)]"
      using Cons.prems(5) True clear_slot [OF Cons.prems(1) u(2,1) Cons.prems(3)] by (simp_all add: has_digest_def)
    then show ?thesis using True sweeps_clear [OF Cons.prems(1) u(2,1), of rv] by (auto simp: sweeps_def)
  next
    case False
    then have r: "revoke_loop d is (ss, rv) = (ss', rv')" using Cons.prems(5) by (auto simp: has_digest_def)
    show ?thesis
    proof (cases "is = []")
      case True
      then show ?thesis using r False sweeps_refl [OF Cons.prems(1)] by simp
    next
      case nonempty: False
      have "\<forall>i\<in>set is. i < AUTH_SESSION_SLOTS" using Cons.prems(2) by simp
      from Cons.IH [OF Cons.prems(1) this Cons.prems(3) nonempty r] show ?thesis using False by (auto simp: sweeps_def)
    qed
  qed
qed simp

lemma clear_fold_sweeps:
  assumes "slots_ok ss" "\<forall>i\<in>set is. i < AUTH_SESSION_SLOTS" "length rv + length is \<le> AUTH_SESSION_SLOTS"
    "foldl (\<lambda>x i. if as_used (fst x ! i) then session_clear_locked i x else x) (ss, rv) is = (ss', rv')"
  shows "sweeps is ss rv ss' rv' \<and> used_in ss' \<subseteq> used_in ss \<and> (\<forall>j. j \<in> set is \<or> \<not> as_used (ss ! j) \<longrightarrow> j < AUTH_SESSION_SLOTS \<longrightarrow> \<not> as_used (ss' ! j))"
  using assms
proof (induction "is" arbitrary: ss rv)
  case (Cons i "is")
  have i: "i < AUTH_SESSION_SLOTS" "length rv < AUTH_SESSION_SLOTS" "i < length ss" using Cons.prems by (auto simp: slots_ok_def)
  define ss1 rv1 where "ss1 = (if as_used (ss ! i) then ss[i := zero_session] else ss)"
    and "rv1 = (if as_used (ss ! i) then rv @ [session_key (ss ! i)] else rv)"
  have s1: "sweeps [i] ss rv ss1 rv1" "slots_ok ss1" "used_in ss1 \<subseteq> used_in ss"
    using sweeps_clear [OF Cons.prems(1) i(1), of rv] sweeps_refl [OF Cons.prems(1)] used_in_zero [of ss i] Cons.prems(1)
      slots_ok_update [OF Cons.prems(1), of zero_session i]
    by (auto simp: ss1_def rv1_def)
  have f: "foldl (\<lambda>x i. if as_used (fst x ! i) then session_clear_locked i x else x) (ss1, rv1) is = (ss', rv')"
    using Cons.prems(4) clear_slot [OF Cons.prems(1) i(1) _ i(2)] by (auto simp: ss1_def rv1_def split: if_splits)
  have IH: "sweeps is ss1 rv1 ss' rv' \<and> used_in ss' \<subseteq> used_in ss1 \<and>
      (\<forall>j. j \<in> set is \<or> \<not> as_used (ss1 ! j) \<longrightarrow> j < AUTH_SESSION_SLOTS \<longrightarrow> \<not> as_used (ss' ! j))"
    using Cons.prems(2,3) by (intro Cons.IH f s1(2)) (simp_all add: rv1_def)
  have j: "\<not> as_used (ss1 ! j)" if "j = i \<or> \<not> as_used (ss ! j)" for j
    using that i(3) by (cases "j = i") (auto simp: ss1_def)
  have "used_in ss' \<subseteq> used_in ss" using IH s1(3) by blast
  then show ?case using IH j sweeps_trans [OF s1(1) _ s1(3), of "is" ss' rv'] by auto
qed (simp add: sweeps_refl)

lemma expire_fold_sweeps:
  assumes "slots_ok ss" "\<forall>i\<in>set is. i < AUTH_SESSION_SLOTS" "length rv + length is \<le> AUTH_SESSION_SLOTS"
    "foldl (\<lambda>x i. expire_slot now st i x) (ss, rv, n) is = (ss', rv', n')"
  shows "sweeps is ss rv ss' rv'"
  using assms
proof (induction "is" arbitrary: ss rv n)
  case (Cons i "is")
  have i: "i < AUTH_SESSION_SLOTS" "length rv < AUTH_SESSION_SLOTS" using Cons.prems by simp_all
  show ?case
  proof (rule sweeps_expire [OF Cons.prems(1) i, of now st n])
    fix ss1 rv1 n1
    assume e: "expire_slot now st i (ss, rv, n) = (ss1, rv1, n1)" "sweeps [i] ss rv ss1 rv1" "used_in ss1 \<subseteq> used_in ss"
      "slots_ok ss1" "length rv1 \<le> Suc (length rv)"
    have "sweeps is ss1 rv1 ss' rv'" using Cons.prems(2,3,4) e(1,5) by (intro Cons.IH [OF e(4)]) simp_all
    then show ?thesis using sweeps_trans [OF e(2) _ e(3), of "is" ss' rv'] by simp
  qed
qed (simp add: sweeps_refl)

section \<open>What every operation keeps\<close>

text \<open>
  A table is in order when its slots are; before the retained memory is looked at it may also be memory
  that the firmware will not accept. The number of failed logins in the current window is below the limit.
\<close>

definition table_ok :: "auth_build \<Rightarrow> auth \<Rightarrow> bool" where
  "table_ok b s \<longleftrightarrow> au_failure_count s < AUTH_FAILURE_LIMIT \<and>
     (slots_ok (sessions s) \<or> (\<not> au_retained_initialized s \<and> \<not> retained_valid b ESP_RST_SW (au_retained s)))"

definition live :: "auth \<Rightarrow> auth_session_t set" where
  "live s = (if au_retained_initialized s then used_in (sessions s) else {})"

definition carries :: "auth \<Rightarrow> auth \<Rightarrow> bool" where
  "carries s s' \<longleftrightarrow> (au_retained_initialized s \<longrightarrow> au_retained_initialized s') \<and>
     (\<exists>added. au_revoked s' = au_revoked s @ added \<and>
        (\<forall>x\<in>live s. (\<exists>y\<in>live s'. session_key y = session_key x) \<or> session_key x \<in> set added))"

definition goes :: "auth_build \<Rightarrow> auth \<Rightarrow> auth \<Rightarrow> bool" where
  "goes b s s' \<longleftrightarrow> (table_ok b s \<longrightarrow> table_ok b s' \<and> carries s s')"

lemma carries_trans: "carries s t \<Longrightarrow> carries t u \<Longrightarrow> carries s u"
proof -
  assume st: "carries s t" and tu: "carries t u"
  obtain a where a: "au_revoked t = au_revoked s @ a" "\<forall>x\<in>live s. (\<exists>y\<in>live t. session_key y = session_key x) \<or> session_key x \<in> set a"
    using st by (auto simp: carries_def)
  obtain c where c: "au_revoked u = au_revoked t @ c" "\<forall>x\<in>live t. (\<exists>y\<in>live u. session_key y = session_key x) \<or> session_key x \<in> set c"
    using tu by (auto simp: carries_def)
  have "(\<exists>y\<in>live u. session_key y = session_key x) \<or> session_key x \<in> set (a @ c)" if "x \<in> live s" for x
    using a(2) c(2) that by (metis Un_iff set_append)
  moreover have "au_revoked u = au_revoked s @ a @ c" using a(1) c(1) by simp
  moreover have "au_retained_initialized s \<longrightarrow> au_retained_initialized u" using st tu by (simp add: carries_def)
  ultimately show ?thesis unfolding carries_def by blast
qed

lemma goes_refl [simp, intro]: "goes b s s"
  by (auto simp: goes_def carries_def)

lemma goes_trans: "goes b s t \<Longrightarrow> goes b t u \<Longrightarrow> goes b s u"
  unfolding goes_def using carries_trans by blast

text \<open>Operations that do not touch the sessions.\<close>

lemma goes_same:
  assumes "au_retained s' = au_retained s" "au_retained_initialized s' = au_retained_initialized s" "au_revoked s' = au_revoked s"
    "au_failure_count s < AUTH_FAILURE_LIMIT \<Longrightarrow> au_failure_count s' < AUTH_FAILURE_LIMIT"
  shows "goes b s s'"
  using assms by (auto simp: goes_def table_ok_def carries_def live_def)

lemma commit_simps [simp]:
  "sessions (retained_commit_locked b t s) = sessions s" "au_retained_initialized (retained_commit_locked b t s) = au_retained_initialized s"
  "au_revoked (retained_commit_locked b t s) = au_revoked s" "au_failure_count (retained_commit_locked b t s) = au_failure_count s"
  by (simp_all add: retained_commit_locked_def Let_def)

lemma restore_slots:
  assumes "slots_ok ss"
  shows "slots_ok (map (restore_session now clock) ss)"
proof -
  have "session_ok i (restore_session now clock x)" if "as_used (restore_session now clock x)" "as_used x \<longrightarrow> session_ok i x" for i x
    using that by (auto simp: restore_session_def session_ok_def Let_def split: if_splits)
  moreover have "as_used x" if "as_used (restore_session now clock x)" for x
    using that by (auto simp: restore_session_def split: if_splits)
  ultimately show ?thesis using assms by (simp add: slots_ok_def)
qed

lemma init_table:
  assumes "table_ok b s"
  shows "slots_ok (sessions (retained_init_locked b e s))" "au_retained_initialized (retained_init_locked b e s)"
    "au_revoked (retained_init_locked b e s) = au_revoked s" "au_retained_initialized s \<Longrightarrow> retained_init_locked b e s = s"
    "au_failure_count (retained_init_locked b e s) = au_failure_count s"
proof -
  have "slots_ok (sessions s)" if "retained_valid b r (au_retained s)" for r
    using assms that by (auto simp: table_ok_def retained_valid_def retained_reset_allowed_def)
  then show "slots_ok (sessions (retained_init_locked b e s))"
    using assms restore_slots slots_ok_zero
    by (auto simp: retained_init_locked_def table_ok_def Let_def zero_retained_def)
qed (simp_all add: retained_init_locked_def Let_def)

lemma goes_init: "goes b s (retained_init_locked b e s)"
  unfolding goes_def
proof
  assume t: "table_ok b s"
  then show "table_ok b (retained_init_locked b e s) \<and> carries s (retained_init_locked b e s)"
    using init_table [OF t, of e] by (cases "au_retained_initialized s") (auto simp: table_ok_def carries_def live_def)
qed

lemma goes_ensure: "goes b s (snd (ensure_lock c s))"
  by (rule goes_same) (simp_all add: ensure_lock_def)

text \<open>A critical section: after the initialisation a loop sweeps the table and its keys are handed over.\<close>

lemma goes_section:
  assumes "table_ok b s \<Longrightarrow> sweeps is (sessions (retained_init_locked b e s)) [] (sessions s') rv"
    "au_retained_initialized (retained_init_locked b e s) \<Longrightarrow> au_retained_initialized s'"
    "au_revoked s' = au_revoked (retained_init_locked b e s) @ rv"
    "au_failure_count s' = au_failure_count (retained_init_locked b e s)"
  shows "goes b s s'"
  unfolding goes_def
proof
  let ?t = "retained_init_locked b e s"
  assume t: "table_ok b s"
  have "table_ok b ?t" "carries s ?t" using goes_init [of b s e] t by (simp_all add: goes_def)
  moreover have "table_ok b s'" "carries ?t s'"
    using assms(1) [OF t] assms(2) [OF init_table(2) [OF t]] assms(3,4) init_table(2,5) [OF t, of e] t
    by (auto simp: table_ok_def carries_def live_def sweeps_def carried_def)
  ultimately show "table_ok b s' \<and> carries s s'" using carries_trans by blast
qed

lemma slots_indices: "\<forall>i\<in>set [0..<AUTH_SESSION_SLOTS]. i < AUTH_SESSION_SLOTS" "length ([] :: (string \<times> u32) list) + length [0..<AUTH_SESSION_SLOTS] \<le> AUTH_SESSION_SLOTS"
  "distinct [0..<AUTH_SESSION_SLOTS]" "length ([] :: (string \<times> u32) list) < AUTH_SESSION_SLOTS" "[0..<AUTH_SESSION_SLOTS] \<noteq> []"
  by (simp_all add: auth_consts)

lemma clear_all:
  assumes "table_ok b s"
  shows "sweeps [0..<AUTH_SESSION_SLOTS] (sessions (retained_init_locked b e s)) [] (sessions (clear_all_locked b e s))
      (snd (clear_all_loop (sessions (retained_init_locked b e s))))"
    "\<forall>x\<in>set (sessions (clear_all_locked b e s)). \<not> as_used x" "au_retained_initialized (clear_all_locked b e s)"
    "au_revoked (clear_all_locked b e s) = au_revoked s @ snd (clear_all_loop (sessions (retained_init_locked b e s)))"
proof -
  let ?ss = "sessions (retained_init_locked b e s)"
  obtain ss' rv' where l: "clear_all_loop ?ss = (ss', rv')" by (cases "clear_all_loop ?ss")
  have ss': "sessions (clear_all_locked b e s) = ss'" by (simp add: clear_all_locked_def Let_def l)
  have f: "sweeps [0..<AUTH_SESSION_SLOTS] ?ss [] ss' rv'" "\<forall>j<AUTH_SESSION_SLOTS. \<not> as_used (ss' ! j)"
    using clear_fold_sweeps [OF init_table(1) [OF assms, of e] slots_indices(1,2) l [unfolded clear_all_loop_def]] by simp_all
  then show "sweeps [0..<AUTH_SESSION_SLOTS] ?ss [] (sessions (clear_all_locked b e s)) (snd (clear_all_loop ?ss))"
    by (simp add: ss' l)
  show "\<forall>x\<in>set (sessions (clear_all_locked b e s)). \<not> as_used x"
    using f unfolding ss' by (auto simp: sweeps_def slots_ok_def in_set_conv_nth)
  show "au_retained_initialized (clear_all_locked b e s)"
    "au_revoked (clear_all_locked b e s) = au_revoked s @ snd (clear_all_loop ?ss)"
    using init_table(2,3) [OF assms, of e] by (simp_all add: clear_all_locked_def Let_def l)
qed

lemma goes_clear_all: "goes b s (clear_all_locked b e s)"
  using clear_all(1) [of b s e] 
  by (rule goes_section [where rv = "snd (clear_all_loop (sessions (retained_init_locked b e s)))"])
     (simp_all add: clear_all_locked_def Let_def split_beta)

lemma goes_revoke_all: "goes b s (si_auth_revoke_all_sessions b e s)"
  using goes_ensure [of b s "ae_mutex e"] goes_trans [OF goes_ensure goes_clear_all]
  by (simp add: si_auth_revoke_all_sessions_def Let_def split_beta)

text \<open>Credentials: what other tasks do before the sessions are revoked has to go as well.\<close>

lemma goes_set:
  assumes "\<And>t. goes b t (sv_other v t)"
  shows "goes b s (snd (set_credentials_internal b v u p bs rot lk al g s))"
proof -
  have same: "goes b s (s\<lparr>au_credentials_lock := c\<rparr>)" "goes b s (s\<lparr>au_credentials_lock := c, au_store := st\<rparr>)"
    "goes b s (s\<lparr>au_credentials_lock := c, au_store := st, au_username := un, au_verifier := ve, au_salt := sa, au_iterations := it,
      au_loaded := True, au_using_default := bs, au_setup_pending := sp, au_legacy_password := False\<rparr>)"
    "goes b s (s\<lparr>au_credentials_lock := c, au_store := st, au_username := un, au_verifier := ve, au_salt := sa, au_iterations := it,
      au_loaded := True, au_using_default := bs, au_setup_pending := sp, au_legacy_password := False, au_credential_generation := cg\<rparr>)"
    for c st un ve sa it sp cg by (rule goes_same; simp)+
  note rot = goes_trans [OF goes_trans [OF same(4) assms] goes_revoke_all]
  show ?thesis unfolding set_credentials_internal_def Let_def
    by (auto simp: split_beta intro: same rot)
qed

lemma goes_reset:
  assumes "\<And>t. goes b t (sv_other v t)"
  shows "goes b s (snd (snd (si_auth_reset_bootstrap b v r n s)))"
  using goes_set [OF assms] by (simp add: si_auth_reset_bootstrap_def Let_def split_beta split: option.split)

lemma goes_load:
  assumes "\<And>t. goes b t (sv_other (lo_set l) t)"
  shows "goes b s (load_credentials b l s)"
proof -
  note set = goes_set [OF assms] and reset = goes_reset [OF assms]
  have boot: "goes b t (bootstrap_credentials b l t)" for t
    using set goes_trans [OF set goes_same] by (simp add: bootstrap_credentials_def Let_def split_beta)
  have fact: "goes b t (replace_factory_password b l t)" for t
    using reset goes_trans [OF reset goes_same] by (simp add: replace_factory_password_def Let_def split_beta)
  have stored: "goes b t (load_stored b l x y t)" for t x y
    unfolding load_stored_def Let_def split_beta
    by (split if_split, intro conjI impI, rule goes_same, simp, simp, simp, simp, split if_split, intro conjI impI)
       ((rule goes_trans [OF goes_same fact] | rule goes_same); simp)+
  show ?thesis unfolding load_credentials_def Let_def split_beta
    by (simp split: if_split; intro conjI impI;
        (rule goes_trans [OF goes_same stored] | rule goes_trans [OF goes_same boot] | rule goes_same); simp)
qed

lemma goes_enabled:
  assumes "\<And>t. goes b t (sv_other (lo_set l) t)"
  shows "goes b s (snd (si_auth_is_enabled b l c s))"
  using goes_trans [OF goes_load [OF assms] goes_ensure] by (simp add: si_auth_is_enabled_def Let_def)

lemma hex32_length [simp]: "length (hex32 w) = 8"
  by (simp add: hex32_def)

lemma client_slots_ok: "\<forall>i\<in>set (client_slots m). i < AUTH_SESSION_SLOTS" "length (client_slots m) < AUTH_SESSION_SLOTS"
  "i \<in> set (client_slots m) \<Longrightarrow> (i < AUTH_BROWSER_SESSION_SLOTS) = (\<not> m)"
  by (auto simp: client_slots_def auth_consts split: if_splits)

text \<open>The session a login makes fits its slot.\<close>

lemma new_session_ok:
  assumes "i \<in> set (client_slots m)" "g \<noteq> 0" "method = SI_AUTH_METHOD_PASSWORD \<or> method = SI_AUTH_METHOD_PASSKEY"
  shows "session_ok i \<lparr>as_used = True, as_principal = (if m then SI_PRINCIPAL_MCP else SI_PRINCIPAL_BROWSER),
     as_capabilities = (if m then SI_CAPABILITIES_MCP_DEFAULT else SI_CAPABILITIES_WEB_DEFAULT), as_method = method, as_generation = g,
     as_session_id = c_strlcpy (SI_AUTH_SESSION_ID_MAX_LEN + 1) (''s'' @ hex32 r1 @ hex32 r2), as_token_digest = d,
     as_created_us = t, as_last_seen_us = t\<rparr>"
  using assms client_slots_ok(3) [OF assms(1)] by (auto simp: session_ok_def c_strlcpy_def auth_consts)

lemma goes_create_locked:
  assumes "method = SI_AUTH_METHOD_PASSWORD \<or> method = SI_AUTH_METHOD_PASSKEY"
  shows "goes b s (snd (create_session_locked b c m method d s))"
proof -
  let ?t = "retained_init_locked b (cv_env c) s"
  obtain r ss rv n where l: "slot_loop (ae_now_us (cv_env c)) (ae_settings (cv_env c)) (client_slots m) (2 ^ 63 - 1) None
      (sessions ?t, [], au_session_expirations ?t) = (r, ss, rv, n)"
    by (metis prod_cases4)
  show ?thesis
  proof (cases "table_ok b s")
    case True
    have cap: "length ([] :: (string \<times> u32) list) + length (client_slots m) \<le> AUTH_SESSION_SLOTS" using client_slots_ok(2) [of m] by simp
    note sw = slot_loop_sweeps [OF init_table(1) [OF True] client_slots_ok(1) cap l]
    show ?thesis
    proof (cases r)
      case None
      have n: "sessions (snd (create_session_locked b c m method d s)) = ss" 
        "au_retained_initialized (snd (create_session_locked b c m method d s)) = au_retained_initialized ?t"
        "au_revoked (snd (create_session_locked b c m method d s)) = au_revoked ?t"
        "au_failure_count (snd (create_session_locked b c m method d s)) = au_failure_count ?t"
        unfolding create_session_locked_def Let_def l None by simp_all
      have "ss = sessions ?t" "rv = []" using sw None by auto
      then show ?thesis using n sw by (intro goes_section [of b s "client_slots m" "cv_env c" _ "[]"]) simp_all
    next
      case (Some i)
      have i: "i \<in> set (client_slots m)" using sw Some by auto
      then have i': "i < AUTH_SESSION_SLOTS" using client_slots_ok(1) by auto
      have ok: "slots_ok ss" using sw by (simp add: sweeps_def)
      define rv' where "rv' = (if as_used (ss ! i) then rv @ [session_key (ss ! i)] else rv)"
      have len: "length rv < AUTH_SESSION_SLOTS" using sw client_slots_ok(2) [of m] by (auto simp: sweeps_def)
      have rv': "(if as_used (ss ! i) then revoked_sessions_add rv (ss ! i) else rv) = rv'"
        using revoked_add [OF ok i' _ len] by (simp add: rv'_def)
      define g :: u32 where "g = (let g = ar_next_generation (au_retained ?t) + 1 in if g = 0 then 1 else g)"
      have g: "g \<noteq> 0" by (simp add: g_def Let_def)
      define x where "x = \<lparr>as_used = True, as_principal = (if m then SI_PRINCIPAL_MCP else SI_PRINCIPAL_BROWSER),
        as_capabilities = (if m then SI_CAPABILITIES_MCP_DEFAULT else SI_CAPABILITIES_WEB_DEFAULT), as_method = method, as_generation = g,
        as_session_id = c_strlcpy (SI_AUTH_SESSION_ID_MAX_LEN + 1) (''s'' @ hex32 (cv_random1 c) @ hex32 (cv_random2 c)), as_token_digest = d,
        as_created_us = ae_now_us (cv_env c), as_last_seen_us = ae_now_us (cv_env c)\<rparr>"
      have n: "sessions (snd (create_session_locked b c m method d s)) = ss[i := x]"
        "au_retained_initialized (snd (create_session_locked b c m method d s)) = au_retained_initialized ?t"
        "au_revoked (snd (create_session_locked b c m method d s)) = au_revoked ?t @ rv'"
        "au_failure_count (snd (create_session_locked b c m method d s)) = au_failure_count ?t"
        unfolding create_session_locked_def Let_def l Some by (simp_all add: next_session_generation_locked_def rv' x_def g_def Let_def)
      have "sweeps (client_slots m @ [i]) (sessions ?t) [] (ss[i := x]) rv'"
      proof (rule sweeps_trans [of _ _ _ ss rv])
        have "carried ss (ss[i := x]) [session_key (ss ! i)]" by (rule carried_update) simp
        moreover have "carried ss (ss[i := x]) []" if "\<not> as_used (ss ! i)" by (rule carried_update) (use that in simp)
        moreover have "slots_ok (ss[i := x])"
          using new_session_ok [OF i g assms] by (intro slots_ok_update [OF ok]) (simp add: x_def)
        moreover have "i < length ss" using ok i' by (simp add: slots_ok_def)
        ultimately show "sweeps [i] ss rv (ss[i := x]) rv'" by (auto simp: sweeps_def rv'_def used_in_def)
      qed (use sw in auto)
      then show ?thesis using n by (intro goes_section [of b s "client_slots m @ [i]" "cv_env c" _ rv']) simp_all
    qed
  qed (simp add: goes_def)
qed

lemma goes_create:
  assumes "\<And>t. goes b t (sv_other (lo_set (cv_load c)) t)"
  shows "goes b s (snd (snd (si_auth_create_session_for_method b c client g method s)))"
proof -
  note en = goes_enabled [OF assms, of s "ae_mutex (cv_env c)"]
  note en2 = goes_trans [OF en goes_ensure [of b _ "ae_mutex (cv_env c)"]]
  note to = goes_trans [OF en2 goes_same]
  note cr = goes_trans [OF en2 goes_create_locked]
  show ?thesis unfolding si_auth_create_session_for_method_def Let_def split_beta
    using en en2 to cr by (simp split: if_split)
qed

lemma close_section_simps [simp]:
  "sessions (close_section b t (ss, rv, n) s) = ss" "au_retained_initialized (close_section b t (ss, rv, n) s) = au_retained_initialized s"
  "au_revoked (close_section b t (ss, rv, n) s) = au_revoked s @ rv"
  "au_failure_count (close_section b t (ss, rv, n) s) = au_failure_count s"
  by (simp_all add: close_section_def)

lemma goes_close:
  assumes "table_ok b s \<Longrightarrow> sweeps [0..<AUTH_SESSION_SLOTS] (sessions (retained_init_locked b e s)) [] ss rv"
    "au_retained_initialized t = au_retained_initialized (retained_init_locked b e s)" "au_revoked t = au_revoked (retained_init_locked b e s)"
    "au_failure_count t = au_failure_count (retained_init_locked b e s)"
  shows "goes b s (close_section b now (ss, rv, n) t)"
  using assms by (intro goes_section [of b s "[0..<AUTH_SESSION_SLOTS]" e _ rv]) simp_all

lemma goes_token:
  assumes "\<And>t. goes b t (sv_other (lo_set l) t)"
  shows "goes b s (snd (snd (si_auth_token_get_context b e l token touch s)))"
proof (cases token)
  case (Some t)
  define s1 where "s1 = snd (si_auth_is_enabled b l (ae_mutex e) s)"
  define s2 where "s2 = snd (ensure_lock (ae_mutex e) s1)"
  define d where "d = snd (sha256_text b (Some t))"
  have g1: "goes b s s1" unfolding s1_def by (rule goes_enabled [OF assms])
  have g2: "goes b s s2" unfolding s2_def by (rule goes_trans [OF g1 goes_ensure])
  let ?u = "retained_init_locked b e s2"
  obtain r ss rv n where l: "token_loop (ae_now_us e) (ae_settings e) d touch [0..<AUTH_SESSION_SLOTS]
      (sessions ?u, [], au_session_expirations ?u) = (r, ss, rv, n)"
    by (metis prod_cases4)
  have sw: "table_ok b s2 \<Longrightarrow> sweeps [0..<AUTH_SESSION_SLOTS] (sessions ?u) [] ss rv"
    using token_loop_sweeps [OF init_table(1) slots_indices(1,2,3) l] by blast
  have g3: "goes b s (close_section b (ae_now_us e) (ss, rv, n) (?u\<lparr>au_validation_misses := k\<rparr>))" "goes b s (close_section b (ae_now_us e) (ss, rv, n) ?u)" for k
    by (rule goes_trans [OF g2 goes_close [OF sw]]; simp)+
  have g4: "goes b s (s2\<lparr>au_lock_timeouts := k\<rparr>)" for k by (rule goes_trans [OF g2 goes_same]) simp_all
  have "snd (snd (si_auth_token_get_context b e l token touch s)) \<in>
      {s, s1, s2, s2\<lparr>au_lock_timeouts := au_lock_timeouts s2 + 1\<rparr>, close_section b (ae_now_us e) (ss, rv, n) ?u,
       close_section b (ae_now_us e) (ss, rv, n) (?u\<lparr>au_validation_misses := au_validation_misses ?u + 1\<rparr>)}"
    unfolding si_auth_token_get_context_def Some Let_def split_beta s1_def [symmetric] s2_def [symmetric] d_def [symmetric] l
    by (simp split: option.split)
  then show ?thesis using g1 g2 g3 g4 by auto
qed (simp add: si_auth_token_get_context_def)

lemma goes_live:
  assumes "\<And>t. goes b t (sv_other (lo_set l) t)"
  shows "goes b s (snd (snd (si_auth_session_get_live_context b e l sid g s)))"
proof -
  define s1 where "s1 = snd (si_auth_is_enabled b l (ae_mutex e) s)"
  define s2 where "s2 = snd (ensure_lock (ae_mutex e) s1)"
  have g1: "goes b s s1" unfolding s1_def by (rule goes_enabled [OF assms])
  have g2: "goes b s s2" unfolding s2_def by (rule goes_trans [OF g1 goes_ensure])
  let ?u = "retained_init_locked b e s2"
  obtain r ss rv n where l: "live_loop (ae_now_us e) (ae_settings e) (c_or_empty sid) g [0..<AUTH_SESSION_SLOTS]
      (sessions ?u, [], au_session_expirations ?u) = (r, ss, rv, n)"
    by (metis prod_cases4)
  have sw: "table_ok b s2 \<Longrightarrow> sweeps [0..<AUTH_SESSION_SLOTS] (sessions ?u) [] ss rv"
    using live_loop_sweeps [OF init_table(1) slots_indices(1,2) l] by blast
  have g3: "goes b s (close_section b (ae_now_us e) (ss, rv, n) ?u)" by (rule goes_trans [OF g2 goes_close [OF sw]]; simp)
  have g4: "goes b s (s2\<lparr>au_lock_timeouts := k\<rparr>)" for k by (rule goes_trans [OF g2 goes_same]) simp_all
  have "snd (snd (si_auth_session_get_live_context b e l sid g s)) \<in>
      {s, s1, s2, s2\<lparr>au_lock_timeouts := au_lock_timeouts s2 + 1\<rparr>, close_section b (ae_now_us e) (ss, rv, n) ?u}"
    unfolding si_auth_session_get_live_context_def Let_def split_beta s1_def [symmetric] s2_def [symmetric] l
    by (simp split: option.split)
  then show ?thesis using g1 g2 g3 g4 by auto
qed

lemma goes_logout: "goes b s (si_auth_revoke_session b e token s)"
proof (cases token)
  case (Some t)
  define s2 where "s2 = snd (ensure_lock (ae_mutex e) s)"
  define d where "d = snd (sha256_text b (Some t))"
  have g2: "goes b s s2" unfolding s2_def by (rule goes_ensure)
  let ?u = "retained_init_locked b e s2"
  obtain ss rv where l: "revoke_loop d [0..<AUTH_SESSION_SLOTS] (sessions ?u, []) = (ss, rv)" by fastforce
  let ?s' = "(retained_commit_locked b (ae_now_us e) (?u\<lparr>au_retained := (au_retained ?u)\<lparr>ar_sessions := ss\<rparr>\<rparr>))\<lparr>au_revoked := au_revoked ?u @ rv\<rparr>"
  have sw: "table_ok b s2 \<Longrightarrow> sweeps [0..<AUTH_SESSION_SLOTS] (sessions ?u) [] ss rv"
    using revoke_loop_sweeps [OF init_table(1) slots_indices(1,4,5) l] by blast
  have "goes b s2 ?s'" using sw by (intro goes_section [of b s2 "[0..<AUTH_SESSION_SLOTS]" e _ rv]) simp_all
  moreover have "si_auth_revoke_session b e token s \<in> {s2, ?s'}"
    unfolding si_auth_revoke_session_def Some Let_def split_beta s2_def [symmetric] d_def [symmetric] option.case l by simp
  ultimately show ?thesis using g2 goes_trans [OF g2] by auto
qed (simp add: si_auth_revoke_session_def)

lemma goes_match:
  assumes "\<And>t. goes b t (sv_other (lo_set l) t)" "\<And>t. goes b t (sv_other v t)"
  shows "goes b s (snd (si_auth_credentials_match b l v u p s))"
proof (cases "u = None \<or> p = None")
  case False
  then obtain user pass where u: "u = Some user" "p = Some pass" by auto
  define s1 where "s1 = load_credentials b l s"
  define s2 where "s2 = s1\<lparr>au_credentials_lock := au_credentials_lock s1 \<or> sv_mutex v\<rparr>"
  have g1: "goes b s s1" unfolding s1_def by (rule goes_load [OF assms(1)])
  have g2: "goes b s s2" unfolding s2_def by (rule goes_trans [OF g1 goes_same]) simp_all
  note g3 = goes_trans [OF g2 goes_set [OF assms(2)]]
  show ?thesis unfolding si_auth_credentials_match_def u prod.case option.case Let_def split_beta s1_def [symmetric] s2_def [symmetric]
    using g2 g3 by (simp split: if_split)
qed (auto simp: si_auth_credentials_match_def split: option.split)

lemma goes_commit: "goes b s (snd (si_auth_security_commit b e lk g r s))"
proof -
  let ?s = "snd (ensure_lock (ae_mutex e) s)"
  have "goes b s (?s\<lparr>au_credential_generation := k\<rparr>)" for k by (rule goes_trans [OF goes_ensure goes_same]) simp_all
  from goes_trans [OF this goes_clear_all] show ?thesis
    using goes_ensure [of b s "ae_mutex e"] by (simp add: si_auth_security_commit_def Let_def split_beta)
qed

lemma goes_runtime: "goes b s (snd (si_auth_get_runtime_status b e s))"
proof -
  define s2 where "s2 = snd (ensure_lock (ae_mutex e) s)"
  have g2: "goes b s s2" unfolding s2_def by (rule goes_ensure)
  let ?u = "retained_init_locked b e s2"
  obtain ss rv n where l: "foldl (\<lambda>x i. expire_slot (ae_now_us e) (ae_settings e) i x) (sessions ?u, [], au_session_expirations ?u) [0..<AUTH_SESSION_SLOTS] = (ss, rv, n)"
    by (metis prod_cases3)
  have sw: "table_ok b s2 \<Longrightarrow> sweeps [0..<AUTH_SESSION_SLOTS] (sessions ?u) [] ss rv"
    using expire_fold_sweeps [OF init_table(1) slots_indices(1,2) l] by blast
  have g3: "goes b s (close_section b (ae_now_us e) (ss, rv, n) ?u)" by (rule goes_trans [OF g2 goes_close [OF sw]]; simp)
  have g4: "goes b s (s2\<lparr>au_lock_timeouts := k\<rparr>)" for k by (rule goes_trans [OF g2 goes_same]) simp_all
  show ?thesis unfolding si_auth_get_runtime_status_def Let_def split_beta s2_def [symmetric] l using g3 g4 by simp
qed

section \<open>The service as a machine\<close>

datatype auth_op =
    Auth_Initialize load_env bool
  | Auth_Match load_env set_env "string option" "string option"
  | Auth_Create create_env "string option" u32 si_auth_method_t
  | Auth_Token auth_env load_env "string option" bool
  | Auth_Live auth_env load_env "string option" u32
  | Auth_Logout auth_env "string option"
  | Auth_Revoke_All auth_env
  | Auth_Commit auth_env bool u32 "esp_err_t option"
  | Auth_Set set_env "string option" "string option"
  | Auth_Set_For set_env "string option" "string option" u32
  | Auth_Setup set_env "string option" "string option" u32
  | Auth_Reset set_env "u8 list" "nat option"
  | Auth_Failure auth_env
  | Auth_Clear_Failures auth_env
  | Auth_Retry auth_env
  | Auth_Record load_env set_env
  | Auth_Status load_env bool
  | Auth_Runtime auth_env
  | Auth_Listen "nat option"

fun auth_step :: "auth_build \<Rightarrow> auth_op \<Rightarrow> auth \<Rightarrow> auth" where
  "auth_step b (Auth_Initialize l c) s = snd (si_auth_initialize b l c s)"
| "auth_step b (Auth_Match l v u p) s = snd (si_auth_credentials_match b l v u p s)"
| "auth_step b (Auth_Create c client g m) s = snd (snd (si_auth_create_session_for_method b c client g m s))"
| "auth_step b (Auth_Token e l t touch) s = snd (snd (si_auth_token_get_context b e l t touch s))"
| "auth_step b (Auth_Live e l sid g) s = snd (snd (si_auth_session_get_live_context b e l sid g s))"
| "auth_step b (Auth_Logout e t) s = si_auth_revoke_session b e t s"
| "auth_step b (Auth_Revoke_All e) s = si_auth_revoke_all_sessions b e s"
| "auth_step b (Auth_Commit e k g r) s = snd (si_auth_security_commit b e k g r s)"
| "auth_step b (Auth_Set v u p) s = snd (si_auth_set_credentials b v u p s)"
| "auth_step b (Auth_Set_For v u p g) s = snd (si_auth_set_credentials_for_generation b v u p g s)"
| "auth_step b (Auth_Setup v u p g) s = snd (si_auth_setup_credentials b v u p g s)"
| "auth_step b (Auth_Reset v r n) s = snd (snd (si_auth_reset_bootstrap b v r n s))"
| "auth_step b (Auth_Failure e) s = si_auth_record_login_failure e s"
| "auth_step b (Auth_Clear_Failures e) s = si_auth_clear_login_failures e s"
| "auth_step b (Auth_Retry e) s = snd (si_auth_login_retry_after_ms e s)"
| "auth_step b (Auth_Record l v) s = si_auth_record_login l v s"
| "auth_step b (Auth_Status l c) s = snd (si_auth_get_status b l c s)"
| "auth_step b (Auth_Runtime e) s = snd (si_auth_get_runtime_status b e s)"
| "auth_step b (Auth_Listen f) s = snd (si_auth_add_session_revoked_listener f s)"

text \<open>What other tasks do in the middle of an operation.\<close>

fun op_others :: "auth_op \<Rightarrow> (auth \<Rightarrow> auth) list" where
  "op_others (Auth_Initialize l c) = [sv_other (lo_set l)]"
| "op_others (Auth_Match l v u p) = [sv_other (lo_set l), sv_other v]"
| "op_others (Auth_Create c client g m) = [sv_other (lo_set (cv_load c))]"
| "op_others (Auth_Token e l t touch) = [sv_other (lo_set l)]"
| "op_others (Auth_Live e l sid g) = [sv_other (lo_set l)]"
| "op_others (Auth_Set v u p) = [sv_other v]"
| "op_others (Auth_Set_For v u p g) = [sv_other v]"
| "op_others (Auth_Setup v u p g) = [sv_other v]"
| "op_others (Auth_Reset v r n) = [sv_other v]"
| "op_others (Auth_Record l v) = []"
| "op_others (Auth_Status l c) = [sv_other (lo_set l)]"
| "op_others _ = []"

text \<open>
  A run: operations one after the other, in the middle of which other tasks make runs of their own.
\<close>

inductive auth_run :: "auth_build \<Rightarrow> auth \<Rightarrow> auth \<Rightarrow> bool" for b where
  run_refl: "auth_run b s s"
| run_step: "auth_run b s t \<Longrightarrow> (\<And>f x. f \<in> set (op_others oper) \<Longrightarrow> auth_run b x (f x)) \<Longrightarrow> auth_run b s (auth_step b oper t)"

text \<open>
  The states of the service: after a start with memory the firmware has not written, after a run, and after
  a restart that keeps the retained memory and the store.
\<close>

inductive auth_reachable :: "auth_build \<Rightarrow> auth \<Rightarrow> bool" for b where
  reach_start: "\<not> retained_valid b ESP_RST_SW r \<Longrightarrow> auth_reachable b (power_on reason r store)"
| reach_run: "auth_reachable b s \<Longrightarrow> auth_run b s t \<Longrightarrow> auth_reachable b t"
| reach_restart: "auth_reachable b s \<Longrightarrow> auth_reachable b (power_on reason (au_retained s) (au_store s))"

lemma login_count_goes: "goes b s (snd (si_auth_login_count l s))"
  by (rule goes_same) (simp_all add: si_auth_login_count_def Let_def)

lemma goes_step:
  assumes "\<And>f x. f \<in> set (op_others oper) \<Longrightarrow> goes b x (f x)"
  shows "goes b s (auth_step b oper s)"
proof (cases oper)
  case (Auth_Initialize l c)
  then have "goes b s (load_credentials b l s)" using goes_load assms by simp
  from goes_trans [OF this goes_same] show ?thesis by (simp add: Auth_Initialize si_auth_initialize_def Let_def)
next
  case (Auth_Match l v u p)
  then show ?thesis using goes_match assms by simp
next
  case (Auth_Create c client g m)
  then show ?thesis using goes_create assms by simp
next
  case (Auth_Token e l t touch)
  then show ?thesis using goes_token assms by simp
next
  case (Auth_Live e l sid g)
  then show ?thesis using goes_live assms by simp
next
  case (Auth_Set v u p)
  then show ?thesis using goes_set assms by (simp add: si_auth_set_credentials_def)
next
  case (Auth_Set_For v u p g)
  then show ?thesis using goes_set assms by (simp add: si_auth_set_credentials_for_generation_def)
next
  case (Auth_Setup v u p g)
  then show ?thesis using goes_set assms by (simp add: si_auth_setup_credentials_def)
next
  case (Auth_Reset v r n)
  then show ?thesis using goes_reset assms by simp
next
  case (Auth_Failure e)
  have "goes b s (si_auth_record_login_failure e s)"
    by (rule goes_same) (auto simp: si_auth_record_login_failure_def ensure_lock_def Let_def AUTH_FAILURE_LIMIT_def not_le)
  then show ?thesis by (simp add: Auth_Failure)
next
  case (Auth_Clear_Failures e)
  have "goes b s (si_auth_clear_login_failures e s)"
    by (rule goes_same) (auto simp: si_auth_clear_login_failures_def ensure_lock_def Let_def AUTH_FAILURE_LIMIT_def)
  then show ?thesis by (simp add: Auth_Clear_Failures)
next
  case (Auth_Retry e)
  have "goes b s (snd (si_auth_login_retry_after_ms e s))"
    by (rule goes_same) (simp_all add: si_auth_login_retry_after_ms_def ensure_lock_def Let_def)
  then show ?thesis by (simp add: Auth_Retry)
next
  case (Auth_Record l v)
  have "goes b s (si_auth_record_login l v s)"
    by (rule goes_same) (simp_all add: si_auth_record_login_def si_auth_login_count_def Let_def split_beta)
  then show ?thesis by (simp add: Auth_Record)
next
  case (Auth_Status l c)
  have o: "\<And>t. goes b t (sv_other (lo_set l) t)" using assms by (simp add: Auth_Status)
  show ?thesis using goes_trans [OF goes_trans [OF goes_load [OF o] goes_enabled [OF o]] login_count_goes]
    by (simp add: Auth_Status si_auth_get_status_def Let_def split_beta)
next
  case (Auth_Listen f)
  have "goes b s (snd (si_auth_add_session_revoked_listener f s))"
    by (rule goes_same) (simp_all add: si_auth_add_session_revoked_listener_def split: option.split list.split)
  then show ?thesis by (simp add: Auth_Listen)
qed (simp_all add: goes_logout goes_revoke_all goes_commit goes_runtime)

lemma goes_run: "auth_run b s t \<Longrightarrow> goes b s t"
proof (induction rule: auth_run.induct)
  case (run_step s t oper)
  then show ?case using goes_trans goes_step by blast
qed simp

lemma reachable_table: "auth_reachable b s \<Longrightarrow> table_ok b s"
proof (induction rule: auth_reachable.induct)
  case (reach_start r reason store)
  then show ?case by (simp add: table_ok_def power_on_def AUTH_FAILURE_LIMIT_def)
next
  case (reach_run s t)
  then show ?case using goes_run by (auto simp: goes_def)
next
  case (reach_restart s reason)
  then show ?case by (auto simp: table_ok_def power_on_def AUTH_FAILURE_LIMIT_def)
qed

end
