(* ===== verification/Auth_Sessions.thy ===== *)
theory Auth_Sessions
  imports Auth_Props
begin

text \<open>
  What the login service guarantees of its sessions: which tokens are accepted, what a logout and a change
  of the credentials end, how fast passwords can be guessed, and what a restart keeps.
\<close>

section \<open>The table and its changes\<close>

text \<open>
  C17: In every reachable state of the login service, restarts included, a session in one of the first twelve
  slots is a browser session with exactly the capabilities of the web interface, one in the last four is an
  MCP session with exactly those of MCP clients, each has a generation and an identifier, and was opened
  with a password or a passkey; MCP logins never take the slot of a browser.
\<close>

theorem auth_session_table:
  assumes "auth_reachable b s" "au_retained_initialized s" "i < 16" "as_used (ar_sessions (au_retained s) ! i)"
  defines "x \<equiv> ar_sessions (au_retained s) ! i"
  shows "length (ar_sessions (au_retained s)) = 16 \<and>
    (as_principal x, as_capabilities x) = (if i < 12 then (SI_PRINCIPAL_BROWSER, SI_CAPABILITIES_WEB_DEFAULT)
       else (SI_PRINCIPAL_MCP, SI_CAPABILITIES_MCP_DEFAULT)) \<and>
    as_generation x \<noteq> 0 \<and> as_session_id x \<noteq> [] \<and> length (as_session_id x) \<le> 20 \<and>
    as_method x \<in> {SI_AUTH_METHOD_PASSWORD, SI_AUTH_METHOD_PASSKEY}"
  using reachable_table [OF assms(1)] assms(2-4) by (auto simp: table_ok_def slots_ok_def session_ok_def x_def auth_consts)

text \<open>
  C21: A session never disappears silently. Whatever operations run, with whatever failures and interleaving,
  a session that lived before still lives with its identifier and generation, or it has been handed to the
  revocation of control leases.
\<close>

theorem auth_sessions_not_lost:
  assumes "auth_reachable b s" "auth_run b s t" "x \<in> live s"
  shows "(\<exists>y\<in>live t. session_key y = session_key x) \<or> session_key x \<in> set (drop (length (au_revoked s)) (au_revoked t))"
proof -
  have "carries s t" using goes_run [OF assms(2)] reachable_table [OF assms(1)] by (simp add: goes_def)
  then show ?thesis using assms(3) by (auto simp: carries_def)
qed

section \<open>Tokens\<close>

lemma enabled_loaded:
  assumes "au_loaded s" "au_lock s" "\<not> ab_disabled_for_lan_testing b"
  shows "si_auth_is_enabled b l c s = (True, s)"
  using assms by (simp add: si_auth_is_enabled_def load_credentials_def ensure_lock_def)

lemma used_nth: "slots_ok ss \<Longrightarrow> (\<exists>x\<in>used_in ss. P x) \<longleftrightarrow> (\<exists>i\<in>set [0..<AUTH_SESSION_SLOTS]. as_used (ss ! i) \<and> P (ss ! i))"
proof -
  assume "slots_ok ss"
  then have "used_in ss = (\<lambda>i. ss ! i) ` {i \<in> set [0..<AUTH_SESSION_SLOTS]. as_used (ss ! i)}"
    by (auto simp: used_in_def slots_ok_def in_set_conv_nth image_iff)
  then show ?thesis by auto
qed

lemma token_context_eq:
  assumes "table_ok b s" "au_loaded s" "au_lock s" "\<not> ab_disabled_for_lan_testing b" "ae_lock e" "length t = SI_AUTH_TOKEN_LEN"
    "ab_sha256 b (str_bytes t) = Some d"
  defines "u \<equiv> retained_init_locked b e s"
  obtains r ss rv n where "si_auth_token_get_context b e l (Some t) touch s =
      (case r of None \<Rightarrow> (False, anonymous_context, close_section b (ae_now_us e) (ss, rv, n) (u\<lparr>au_validation_misses := au_validation_misses u + 1\<rparr>))
       | Some ctx \<Rightarrow> (True, ctx, close_section b (ae_now_us e) (ss, rv, n) u))"
    "sweeps [0..<AUTH_SESSION_SLOTS] (sessions u) [] ss rv"
    "\<And>ctx. r = Some ctx \<Longrightarrow> \<exists>x\<in>used_in (sessions u). accepts (ae_now_us e) (ae_settings e) d x \<and> ctx = session_context x"
    "r = None \<Longrightarrow> \<forall>x\<in>used_in (sessions u). \<not> accepts (ae_now_us e) (ae_settings e) d x"
proof -
  obtain r ss rv n where l: "token_loop (ae_now_us e) (ae_settings e) d touch [0..<AUTH_SESSION_SLOTS]
      (sessions u, [], au_session_expirations u) = (r, ss, rv, n)"
    by (metis prod_cases4)
  have ok: "slots_ok (sessions u)" unfolding u_def by (rule init_table(1) [OF assms(1)])
  note sw = token_loop_sweeps [OF ok slots_indices(1,2,3) l]
  have "si_auth_token_get_context b e l (Some t) touch s =
      (case r of None \<Rightarrow> (False, anonymous_context, close_section b (ae_now_us e) (ss, rv, n) (u\<lparr>au_validation_misses := au_validation_misses u + 1\<rparr>))
       | Some ctx \<Rightarrow> (True, ctx, close_section b (ae_now_us e) (ss, rv, n) u))"
    using assms(2-7) l unfolding u_def
    by (simp add: si_auth_token_get_context_def enabled_loaded ensure_lock_def sha256_text_def Let_def split: option.split)
  moreover have "\<exists>x\<in>used_in (sessions u). accepts (ae_now_us e) (ae_settings e) d x \<and> ctx = session_context x" if "r = Some ctx" for ctx
    using sw that used_nth [OF ok, of "\<lambda>x. accepts (ae_now_us e) (ae_settings e) d x \<and> ctx = session_context x"]
    by (auto simp: accepts_def has_digest_def)
  moreover have "\<forall>x\<in>used_in (sessions u). \<not> accepts (ae_now_us e) (ae_settings e) d x" if "r = None"
    using sw that used_nth [OF ok, of "accepts (ae_now_us e) (ae_settings e) d"] by auto
  ultimately show thesis using that sw by blast
qed

text \<open>
  C18: A token is accepted exactly while a session with its digest lives. In every reachable state of the
  running service the check answers yes if and only if the table holds a session with the digest of the
  token that is not expired, and then the context is that of such a session; the login of an accepted
  session was at most 24 hours ago and, with automatic logout, its last use within the limit.
\<close>

theorem auth_token_accepted_iff:
  assumes "auth_reachable b s" "au_loaded s" "au_lock s" "\<not> ab_disabled_for_lan_testing b" "ae_lock e" "length t = 64"
    "ab_sha256 b (str_bytes t) = Some d"
  defines "u \<equiv> retained_init_locked b e s"
  shows "(fst (si_auth_token_get_context b e l (Some t) touch s) \<longleftrightarrow>
      (\<exists>x\<in>used_in (ar_sessions (au_retained u)). secure_equal d (as_token_digest x) \<and> \<not> session_expired x (ae_now_us e) (ae_settings e))) \<and>
    (fst (si_auth_token_get_context b e l (Some t) touch s) \<longrightarrow>
      (\<exists>x\<in>used_in (ar_sessions (au_retained u)). secure_equal d (as_token_digest x) \<and>
         fst (snd (si_auth_token_get_context b e l (Some t) touch s)) = session_context x \<and>
         0 \<le> ae_now_us e - as_created_us x \<and> (ae_now_us e - as_created_us x) div 1000 \<le> 24 * 60 * 60 * 1000 \<and>
         (ss_auto_logout_enabled (ae_settings e) \<longrightarrow>
            (ae_now_us e - as_last_seen_us x) div 1000 \<le> int (unat (ss_auto_logout_minutes (ae_settings e))) * 60000)))"
proof -
  have len: "length t = SI_AUTH_TOKEN_LEN" using assms(6) by (simp add: auth_consts)
  obtain r ss rv n where r: "si_auth_token_get_context b e l (Some t) touch s =
      (case r of None \<Rightarrow> (False, anonymous_context, close_section b (ae_now_us e) (ss, rv, n) (u\<lparr>au_validation_misses := au_validation_misses u + 1\<rparr>))
       | Some ctx \<Rightarrow> (True, ctx, close_section b (ae_now_us e) (ss, rv, n) u))"
    "\<And>ctx. r = Some ctx \<Longrightarrow> \<exists>x\<in>used_in (sessions u). accepts (ae_now_us e) (ae_settings e) d x \<and> ctx = session_context x"
    "r = None \<Longrightarrow> \<forall>x\<in>used_in (sessions u). \<not> accepts (ae_now_us e) (ae_settings e) d x"
    using token_context_eq [OF reachable_table [OF assms(1)] assms(2-5) len assms(7), of l touch] unfolding u_def by metis
  have live: "0 \<le> ae_now_us e - as_created_us x \<and> (ae_now_us e - as_created_us x) div 1000 \<le> 24 * 60 * 60 * 1000 \<and>
      (ss_auto_logout_enabled (ae_settings e) \<longrightarrow>
         (ae_now_us e - as_last_seen_us x) div 1000 \<le> int (unat (ss_auto_logout_minutes (ae_settings e))) * 60000)"
    if "\<not> session_expired x (ae_now_us e) (ae_settings e)" for x
    using that by (auto simp: session_expired_def auth_consts split: if_splits)
  show ?thesis
  proof (cases r)
    case None
    then show ?thesis using r(1) r(3) by (auto simp: accepts_def has_digest_def used_in_def)
  next
    case (Some ctx)
    then obtain x where x: "x \<in> used_in (sessions u)" "accepts (ae_now_us e) (ae_settings e) d x" "ctx = session_context x" using r(2) by blast
    then show ?thesis using r(1) Some live [of x] unfolding accepts_def has_digest_def by auto
  qed
qed

section \<open>A change of the credentials\<close>

lemma set_ok_state:
  assumes "set_credentials_internal b v u p bs True lk al g s = (ESP_OK, s')"
  obtains t where "s' = si_auth_revoke_all_sessions b (sv_revoke v) (sv_other v (t\<lparr>au_credential_generation := au_credential_generation t + 1\<rparr>))"
    "au_retained t = au_retained s" "au_retained_initialized t = au_retained_initialized s" "au_revoked t = au_revoked s"
    "au_failure_count t = au_failure_count s" "au_credential_generation t = au_credential_generation s"
    "g = 0 \<or> g = au_credential_generation s" "au_loaded t"
  using assms by (auto simp: set_credentials_internal_def Let_def split_beta split: if_splits)

lemma clear_all_other [simp]:
  "au_credential_generation (clear_all_locked b e s) = au_credential_generation s" "au_lock (clear_all_locked b e s) = au_lock s"
  "au_loaded (clear_all_locked b e s) = au_loaded s" "au_listeners (clear_all_locked b e s) = au_listeners s"
  by (simp_all add: clear_all_locked_def retained_commit_locked_def retained_init_locked_def Let_def split_beta)

lemma revoke_all_ends:
  assumes "table_ok b s" "au_lock (si_auth_revoke_all_sessions b e s)"
  shows "live (si_auth_revoke_all_sessions b e s) = {}" "au_retained_initialized (si_auth_revoke_all_sessions b e s)"
    "au_credential_generation (si_auth_revoke_all_sessions b e s) = au_credential_generation s"
proof -
  let ?t = "snd (ensure_lock (ae_mutex e) s)"
  have t: "table_ok b ?t" using goes_ensure [of b s "ae_mutex e"] assms(1) by (simp add: goes_def)
  have "fst (ensure_lock (ae_mutex e) s) = ESP_OK"
    using assms(2) by (auto simp: si_auth_revoke_all_sessions_def ensure_lock_def Let_def split: if_splits)
  then have r: "si_auth_revoke_all_sessions b e s = clear_all_locked b e ?t"
    by (simp add: si_auth_revoke_all_sessions_def split_beta Let_def)
  show "live (si_auth_revoke_all_sessions b e s) = {}" "au_retained_initialized (si_auth_revoke_all_sessions b e s)"
    using clear_all(2,3) [OF t, of e] unfolding r by (auto simp: live_def used_in_def)
  show "au_credential_generation (si_auth_revoke_all_sessions b e s) = au_credential_generation s"
    unfolding r by (simp add: ensure_lock_def)
qed

lemma revoke_all_loaded: "au_loaded (si_auth_revoke_all_sessions b e s) = au_loaded s"
  by (simp add: si_auth_revoke_all_sessions_def ensure_lock_def Let_def)

text \<open>A login whose generation is no longer current opens nothing.\<close>

lemma create_fenced:
  assumes "g \<noteq> 0" "g \<noteq> au_credential_generation s" "au_loaded s"
  shows "fst (si_auth_create_session_for_method b c client g how s) \<noteq> ESP_OK \<and>
    au_retained (snd (snd (si_auth_create_session_for_method b c client g how s))) = au_retained s"
  using assms
  by (auto simp: si_auth_create_session_for_method_def si_auth_is_enabled_def load_credentials_def ensure_lock_def Let_def split_beta
      split: if_splits)

text \<open>
  C19: A change of the password ends every session and fences the logins under way. When it succeeds in a
  reachable state, however other tasks log in, check and log out before the sessions are revoked, no session
  lives afterwards, every session that lived before has been handed to the revocation of control leases,
  and a login that started under the old password opens nothing.
\<close>

theorem auth_password_change_ends_sessions:
  assumes "auth_reachable b s" "\<And>x. auth_run b x (sv_other v x)" "\<And>x. au_credential_generation (sv_other v x) = au_credential_generation x"
    "\<And>x. au_loaded (sv_other v x) = au_loaded x"
    "si_auth_set_credentials b v u p s = (ESP_OK, s')" "au_lock s'" "au_credential_generation s \<noteq> 0"
  shows "live s' = {} \<and> au_retained_initialized s' \<and>
    session_key ` live s \<subseteq> set (drop (length (au_revoked s)) (au_revoked s')) \<and>
    fst (si_auth_create_session_for_method b c client (au_credential_generation s) how s') \<noteq> ESP_OK \<and>
    au_retained (snd (snd (si_auth_create_session_for_method b c client (au_credential_generation s) how s'))) = au_retained s'"
proof -
  have set: "set_credentials_internal b v u p False True False False 0 s = (ESP_OK, s')"
    using assms(5) by (simp add: si_auth_set_credentials_def)
  obtain t where t: "s' = si_auth_revoke_all_sessions b (sv_revoke v) (sv_other v (t\<lparr>au_credential_generation := au_credential_generation t + 1\<rparr>))"
    "au_retained t = au_retained s" "au_retained_initialized t = au_retained_initialized s" "au_revoked t = au_revoked s"
    "au_failure_count t = au_failure_count s" "au_credential_generation t = au_credential_generation s" "au_loaded t"
    using set_ok_state [OF set] by metis
  let ?t = "t\<lparr>au_credential_generation := au_credential_generation t + 1\<rparr>"
  have "table_ok b ?t" using reachable_table [OF assms(1)] t(2-5) by (simp add: table_ok_def)
  then have ok: "table_ok b (sv_other v ?t)" using goes_run [OF assms(2), of ?t] by (simp add: goes_def)
  note ends = revoke_all_ends [OF ok assms(6) [unfolded t(1)], folded t(1)]
  have "goes b s s'" using goes_set [of b v s u p False True False False 0] goes_run [OF assms(2)] set by simp
  then have "carries s s'" using reachable_table [OF assms(1)] by (simp add: goes_def)
  then have rv: "session_key ` live s \<subseteq> set (drop (length (au_revoked s)) (au_revoked s'))" using ends(1) by (auto simp: carries_def)
  have loaded: "au_loaded s'" using t(7) assms(4) by (simp add: t(1) revoke_all_loaded)
  have "au_credential_generation s' = au_credential_generation s + 1" using ends(3) assms(3) t(6) by simp
  then show ?thesis using ends(1,2) rv create_fenced [OF assms(7) _ loaded, of b c client how] by simp
qed

section \<open>The way of a revocation to the keyboard\<close>












end
