(* ===== verification/Auth_Credentials.thy ===== *)
theory Auth_Credentials
  imports Auth_Props
begin

text \<open>
  Guessing and storage: how fast passwords can be tried, that a password change survives a restart, that no
  failure of the store makes a claimed device claimable again, and what happens to the age of a session.
\<close>

section \<open>Login throttling\<close>

text \<open>
  Failed logins one after the other: each is tried only when the service asks for no delay, and is recorded.
  The result is None when one of them is refused.
\<close>

fun failed_logins :: "auth_env list \<Rightarrow> auth \<Rightarrow> auth option" where
  "failed_logins [] s = Some s"
| "failed_logins (e # es) s =
     (let (delay, s) = si_auth_login_retry_after_ms e s
      in if delay \<noteq> 0 then None else failed_logins es (si_auth_record_login_failure e s))"

lemma ensure_lock_true: "ensure_lock True s = (ESP_OK, s\<lparr>au_lock := True\<rparr>)"
  by (cases s) (simp add: ensure_lock_def)

lemma lockout_delay:
  assumes "now < lock" "lock \<le> now + AUTH_LOCKOUT_MS * 1000"
  shows "(of_int ((lock - now + 999) div 1000) :: u32) \<noteq> 0"
proof -
  let ?d = "(lock - now + 999) div 1000"
  have d: "0 < ?d" "?d < 2 ^ 32" using assms by (simp_all add: auth_consts)
  have "uint (of_int ?d :: u32) = ?d" using d by (simp add: uint_word_of_int take_bit_int_eq_self)
  then show ?thesis using d(1) by auto
qed

text \<open>Within 30 seconds at most nine logins fail: those left in the old window, then those of a new one.\<close>

lemma failed_logins_bound:
  assumes "failed_logins es s = Some s'" "list_all (\<lambda>e. ae_mutex e \<and> ae_lock e \<and> T \<le> ae_now_us e \<and> ae_now_us e < T + 30000000) es"
    "sorted (map ae_now_us es)" "0 < T" "au_failure_count s < 5"
  shows "length es \<le> (if au_failure_window_started_us s \<ge> T then 5 else 9) - unat (au_failure_count s)"
  using assms
proof (induction es arbitrary: s)
  case (Cons e es)
  define c w t where "c = au_failure_count s" and "w = au_failure_window_started_us s" and "t = ae_now_us e"
  have t: "T \<le> t" "t < T + 30000000" "ae_mutex e" "ae_lock e" using Cons.prems(2) by (simp_all add: t_def)
  have c4: "unat c \<le> 4" using Cons.prems(5) by (simp add: c_def word_less_nat_alt)
  let ?s = "s\<lparr>au_lock := True\<rparr>"
  define s1 where "s1 = si_auth_record_login_failure e ?s"
  have rest: "failed_logins es s1 = Some s'"
    using Cons.prems(1) t(3,4) by (simp add: si_auth_login_retry_after_ms_def ensure_lock_true s1_def split: if_splits)
  have rec: "s1 = (let r = w = 0 \<or> t - w > 60000000; w' = if r then t else w; c' = if r then 1 else c + 1
      in if c' \<ge> 5 then ?s\<lparr>au_lockout_until_us := t + 30000000, au_failure_count := 0, au_failure_window_started_us := t\<rparr>
         else ?s\<lparr>au_failure_window_started_us := w', au_failure_count := c'\<rparr>)"
    using t(3,4) unfolding s1_def si_auth_record_login_failure_def ensure_lock_true c_def w_def t_def auth_consts Let_def
    by (simp add: ensure_lock_def)
  have IH: "length es \<le> (if au_failure_window_started_us s1 \<ge> T then 5 else 9) - unat (au_failure_count s1)" if "au_failure_count s1 < 5"
    using Cons.prems(2,3,4) that by (intro Cons.IH [OF rest]) simp_all
  consider (reset) "w = 0 \<or> t - w > 60000000" | (lock) "\<not> (w = 0 \<or> t - w > 60000000)" "c = 4"
    | (count) "\<not> (w = 0 \<or> t - w > 60000000)" "unat c < 4"
  proof -
    have "c = 4 \<or> unat c < 4" using c4 by (auto simp: le_less word_unat_eq_iff)
    then show thesis using that by blast
  qed
  then show ?case
  proof cases
    case reset
    have "\<not> T \<le> w" using reset t(1,2) Cons.prems(4) by linarith
    moreover have "au_failure_count s1 = 1" "au_failure_window_started_us s1 = t" using reset by (simp_all add: rec Let_def word_le_nat_alt)
    ultimately show ?thesis using IH t(1) c4 by (simp add: c_def w_def)
  next
    case lock
    have "es = []"
    proof (rule ccontr)
      assume "es \<noteq> []"
      then obtain e2 es2 where es: "es = e2 # es2" by (cases es) auto
      have "au_lockout_until_us s1 = t + 30000000" using lock by (simp add: rec Let_def)
      moreover have "t \<le> ae_now_us e2" "ae_now_us e2 < t + 30000000" "ae_mutex e2" "ae_lock e2" using Cons.prems(2,3) t(1) by (auto simp: es t_def)
      ultimately show False
        using rest lockout_delay [of "ae_now_us e2" "t + 30000000"]
        by (simp add: es si_auth_login_retry_after_ms_def ensure_lock_true auth_consts split: if_splits)
    qed
    then show ?thesis using lock by (simp add: c_def)
  next
    case count
    have c1: "unat (c + 1) = unat c + 1" using count(2) by (simp add: unat_word_ariths)
    then have "\<not> 5 \<le> c + 1" using count(2) by (simp add: word_le_nat_alt)
    then have "au_failure_count s1 = c + 1" "au_failure_window_started_us s1 = w" using count by (simp_all add: rec Let_def)
    moreover have "c + 1 < 5" using c1 count(2) by (simp add: word_less_nat_alt)
    ultimately show ?thesis using IH c1 count(2) by (auto simp: c_def w_def split: if_splits)
  qed
qed simp

text \<open>
  C24: Passwords cannot be tried fast. In every reachable state, ten logins that fail one after the other,
  each tried only when the service asks for no delay, take at least 30 seconds, as long as the mutex is
  obtained.
\<close>

theorem auth_guessing_throttled:
  assumes "auth_reachable b s" "failed_logins es s = Some s'" "list_all (\<lambda>e. ae_mutex e \<and> ae_lock e) es"
    "sorted (map ae_now_us es)" "0 < ae_now_us (hd es)" "length es = 10"
  shows "30000000 \<le> ae_now_us (last es) - ae_now_us (hd es)"
proof (rule ccontr)
  assume n: "\<not> 30000000 \<le> ae_now_us (last es) - ae_now_us (hd es)"
  obtain e0 rest where es: "es = e0 # rest" using assms(6) by (cases es) auto
  have "ae_now_us e0 \<le> ae_now_us e \<and> ae_now_us e \<le> ae_now_us (last es)" if e: "e \<in> set es" for e
  proof -
    obtain i where i: "i < length es" "e = es ! i" using e by (auto simp: in_set_conv_nth)
    have "map ae_now_us es ! 0 \<le> map ae_now_us es ! i" "map ae_now_us es ! i \<le> map ae_now_us es ! (length es - 1)"
      using sorted_nth_mono [OF assms(4), of 0 i] sorted_nth_mono [OF assms(4), of i "length es - 1"] assms(6) i(1) by simp_all
    moreover have "e0 = es ! 0" "last es = es ! (length es - 1)" using assms(6) last_conv_nth [of es] by (auto simp: es)
    ultimately show ?thesis using i assms(6) by simp
  qed
  then have "list_all (\<lambda>e. ae_mutex e \<and> ae_lock e \<and> ae_now_us e0 \<le> ae_now_us e \<and> ae_now_us e < ae_now_us e0 + 30000000) es"
    using assms(3) n by (force simp: list_all_iff es)
  moreover have "au_failure_count s < 5" using reachable_table [OF assms(1)] by (simp add: table_ok_def auth_consts)
  ultimately have "length es \<le> 9"
    using failed_logins_bound [OF assms(2) _ assms(4), of "ae_now_us e0"] assms(5) by (auto simp: es split: if_splits)
  then show False using assms(6) by simp
qed

section \<open>Storage\<close>

lemma sets_subset: "set (snd (sets_in_order v kxs)) \<subseteq> set kxs"
  by (induction v kxs rule: sets_in_order.induct) (auto simp: split_beta Let_def)

lemma sets_ok: "fst (sets_in_order v kxs) = ESP_OK \<Longrightarrow> snd (sets_in_order v kxs) = kxs"
  by (induction v kxs rule: sets_in_order.induct) (auto simp: split_beta Let_def split: if_splits)

lemma apply_writes_inv:
  assumes "\<And>st k x. P st \<Longrightarrow> (k, x) \<in> set kxs \<Longrightarrow> P (st(k \<mapsto> x))" "P store"
  shows "P (apply_writes kxs store)"
  using assms by (induction kxs arbitrary: store) (auto simp: apply_writes_def)

lemma write_store_inv:
  assumes "\<And>st k x. P st \<Longrightarrow> (k, x) \<in> set kxs \<Longrightarrow> P (st(k \<mapsto> x))" "P store"
  shows "P (snd (write_store v kxs store))"
proof -
  have "P (apply_writes ys store)" if "set ys \<subseteq> set kxs" for ys
    by (rule apply_writes_inv [where P = P, OF _ assms(2)]) (rule assms(1), assumption, use that in blast)
  then have "P (apply_writes (snd (sets_in_order v kxs)) store)" "P (apply_writes (take (sv_kept v) (snd (sets_in_order v kxs))) store)"
    using sets_subset [of v kxs] set_take_subset [of "sv_kept v" "snd (sets_in_order v kxs)"] by blast+
  then show ?thesis using assms(2) unfolding write_store_def split_beta Let_def by (simp split: if_split)
qed

text \<open>The hash functions give 32 bytes.\<close>

definition hash_ok :: "auth_build \<Rightarrow> bool" where
  "hash_ok b \<longleftrightarrow> (\<forall>x d. ab_sha256 b x = Some d \<longrightarrow> length d = AUTH_VERIFIER_BYTES) \<and>
     (\<forall>x y n d. ab_pbkdf2_hmac b x y n = Some d \<longrightarrow> length d = AUTH_VERIFIER_BYTES)"

lemma derive_length: "hash_ok b \<Longrightarrow> fst (derive_password b p salt n) = ESP_OK \<Longrightarrow> length (snd (derive_password b p salt n)) = SI_AUTH_TOKEN_LEN"
  by (auto simp: derive_password_def hash_ok_def auth_consts split: option.splits if_splits)

text \<open>A device somebody has claimed: an account that is not the bootstrap one, and no pending setup.\<close>

definition claimed :: "auth_store \<Rightarrow> bool" where
  "claimed store \<longleftrightarrow> store ''setup'' = Some (StoreU8 0) \<and> store ''bootstrap'' = Some (StoreU8 0) \<and>
     (\<exists>h. store ''password_hash'' = Some (StoreString h) \<and> length h = SI_AUTH_TOKEN_LEN)"

lemma claimed_write:
  assumes "claimed st" "(k, x) \<in> set (credential_writes u h salt n False False)" "length h = SI_AUTH_TOKEN_LEN"
  shows "claimed (st(k \<mapsto> x))"
proof -
  have "(k, x) = (''username'', StoreString u) \<or> (k, x) = (''password_hash'', StoreString h) \<or> (k, x) = (''password_salt'', StoreString salt) \<or>
      (k, x) = (''password_iter'', StoreU32 n) \<or> (k, x) = (''setup'', StoreU8 0) \<or> (k, x) = (''bootstrap'', StoreU8 0)"
    using assms(2) by (simp add: credential_writes_def del: prod.inject)
  then show ?thesis using assms(1,3) unfolding claimed_def by (elim disjE) simp_all
qed

lemma claimed_set:
  assumes "claimed (au_store s)" "hash_ok b" "\<And>x. au_store (sv_other v x) = au_store x"
  shows "claimed (au_store (snd (si_auth_set_credentials b v u p s)))"
proof -
  have rev: "au_store (si_auth_revoke_all_sessions b e t) = au_store t" for e t
    by (simp add: si_auth_revoke_all_sessions_def clear_all_locked_def retained_commit_locked_def retained_init_locked_def ensure_lock_def
        Let_def split_beta)
  let ?salt = "bytes_to_hex (sv_salt v)"
  let ?d = "derive_password b (the p) ?salt (AUTH_PASSWORD_ITERATIONS b)"
  have "claimed (snd (write_store v (credential_writes un (snd ?d) ?salt n False False) (au_store s)))" if "fst ?d = ESP_OK" for un n
    by (rule write_store_inv [where P = claimed, OF claimed_write [OF _ _ derive_length [OF assms(2) that]] assms(1)])
  then show ?thesis using assms(1,3)
    by (simp add: si_auth_set_credentials_def set_credentials_internal_def Let_def split_beta rev)
qed

text \<open>A store that does not deny what it holds.\<close>

definition honest :: "load_env \<Rightarrow> bool" where
  "honest l \<longleftrightarrow> lo_open l \<noteq> ESP_ERR_NOT_FOUND \<and> (\<forall>k. lo_get l k \<noteq> ESP_ERR_NOT_FOUND)"

lemma claimed_load:
  assumes "claimed (au_store s)" "honest l"
  shows "\<not> si_auth_setup_required (load_credentials b l (power_on reason r (au_store s)))"
proof -
  let ?s = "power_on reason r (au_store s)"
  obtain h where h: "au_store s ''password_hash'' = Some (StoreString h)" "length h = SI_AUTH_TOKEN_LEN" using assms(1) by (auto simp: claimed_def)
  have st: "au_store s ''setup'' = Some (StoreU8 0)" "au_store s ''bootstrap'' = Some (StoreU8 0)" using assms(1) by (simp_all add: claimed_def)
  have hash: "si_secret_store_get_string l (au_store s) ''password_hash'' (SI_AUTH_TOKEN_LEN + 1) =
      (if lo_get l ''password_hash'' = ESP_OK then (ESP_OK, h) else (lo_get l ''password_hash'', []))"
    using h by (auto simp: si_secret_store_get_string_def get_string_def auth_consts)
  have stored: "\<not> si_auth_setup_required (load_stored b l x y t)" if "au_store t = au_store s" for x y t
    using that st assms(2)
    by (auto simp: load_stored_def get_u8_def si_auth_setup_required_def honest_def Let_def split_beta split: if_splits)
  show ?thesis
  proof (cases "lo_open l = ESP_OK \<and> lo_get l ''password_hash'' = ESP_OK")
    case True
    then show ?thesis using hash h(2) stored by (simp add: load_credentials_def power_on_def Let_def split_beta)
  next
    case False
    then show ?thesis using hash assms(2)
      by (auto simp: load_credentials_def power_on_def Let_def split_beta honest_def si_auth_setup_required_def)
  qed
qed

text \<open>
  C22: A claimed device stays claimed. Whatever failures a change of the password meets, wherever its writes
  stop and however many of them reach the flash, after a restart in which any read may fail the device does
  not ask for the creation of a first account, and an attempt to create one is refused.
\<close>

theorem auth_claim_survives_failures:
  fixes s :: auth and v :: set_env and u p :: "string option" and reason :: esp_reset_reason_t and r :: auth_retained_state_t
  assumes "claimed (au_store s)" "hash_ok b" "\<And>x. au_store (sv_other v x) = au_store x" "honest l"
  defines "s' \<equiv> snd (si_auth_set_credentials b v u p s)"
  defines "t \<equiv> load_credentials b l (power_on reason r (au_store s'))"
  shows "\<not> si_auth_setup_required t \<and> fst (si_auth_setup_credentials b v' u' p' g t) \<noteq> ESP_OK"
proof -
  have "\<not> si_auth_setup_required t"
    unfolding t_def s'_def by (rule claimed_load [OF claimed_set [OF assms(1-3)] assms(4)])
  then show ?thesis by (simp add: si_auth_setup_credentials_def)
qed

lemma credential_writes_ok:
  "apply_writes (credential_writes u h salt n bs setup) st ''username'' = Some (StoreString u)"
  "apply_writes (credential_writes u h salt n bs setup) st ''password_hash'' = Some (StoreString h)"
  "apply_writes (credential_writes u h salt n bs setup) st ''password_salt'' = Some (StoreString salt)"
  "apply_writes (credential_writes u h salt n bs setup) st ''password_iter'' = Some (StoreU32 n)"
  "apply_writes (credential_writes u h salt n bs setup) st ''bootstrap'' = Some (StoreU8 (if bs then 1 else 0))"
  "apply_writes (credential_writes u h salt n bs setup) st ''setup'' = Some (StoreU8 (if setup then 1 else 0))"
  by (simp_all add: apply_writes_def credential_writes_def)

lemma write_store_ok:
  "fst (write_store v kxs st) = ESP_OK \<Longrightarrow> snd (write_store v kxs st) = apply_writes kxs st"
  using sets_ok [of v kxs] by (auto simp: write_store_def split_beta Let_def split: if_splits)

lemma set_ok_store:
  assumes "si_auth_set_credentials b v (Some u) (Some p) s = (ESP_OK, s')" "\<And>x. au_store (sv_other v x) = au_store x"
  obtains h where "derive_password b p (bytes_to_hex (sv_salt v)) (AUTH_PASSWORD_ITERATIONS b) = (ESP_OK, h)"
    "au_store s' = apply_writes (credential_writes u h (bytes_to_hex (sv_salt v)) (AUTH_PASSWORD_ITERATIONS b) False False) (au_store s)"
    "si_auth_validate_username (Some u) = ESP_OK" "si_auth_validate_password (Some p) = ESP_OK"
proof -
  have rev: "au_store (si_auth_revoke_all_sessions b e t) = au_store t" for e t
    by (simp add: si_auth_revoke_all_sessions_def clear_all_locked_def retained_commit_locked_def retained_init_locked_def ensure_lock_def
        Let_def split_beta)
  obtain ret h where d: "derive_password b p (bytes_to_hex (sv_salt v)) (AUTH_PASSWORD_ITERATIONS b) = (ret, h)" by fastforce
  have ok: "ret = ESP_OK" "si_auth_validate_username (Some u) = ESP_OK" "si_auth_validate_password (Some p) = ESP_OK"
    using assms(1) d by (auto simp: si_auth_set_credentials_def set_credentials_internal_def Let_def split: if_splits)
  have u: "c_strlcpy (SI_AUTH_USERNAME_MAX_LEN + 1) u = u"
    using ok(2) by (simp add: si_auth_validate_username_def auth_consts split: if_splits)
  let ?w = "credential_writes u h (bytes_to_hex (sv_salt v)) (AUTH_PASSWORD_ITERATIONS b) False False"
  have w: "fst (write_store v ?w (au_store s)) = ESP_OK \<and> au_store s' = snd (write_store v ?w (au_store s))"
    using assms ok d u by (auto simp: si_auth_set_credentials_def set_credentials_internal_def rev Let_def split_beta split: if_splits)
  show thesis using that [of h] d ok w write_store_ok by auto
qed

lemma byte_code: "unat (of_nat (ccode c) :: u8) = ccode c"
proof -
  have "ccode c < 2 ^ 8" by simp
  then show ?thesis by (simp add: unat_of_nat)
qed

lemma str_bytes_eq: "str_bytes x = str_bytes y \<longleftrightarrow> x = y"
proof
  assume "str_bytes x = str_bytes y"
  then have "map unat (str_bytes x) = map unat (str_bytes y)" by simp
  then have "map ccode x = map ccode y" by (simp add: str_bytes_def comp_def byte_code)
  then show "x = y" by (rule map_injective) (simp add: inj_def)
qed simp

lemma str_bytes_length: "length (str_bytes x) = length x"
  by (simp add: str_bytes_def)

lemma str_bytes_nonzero: "CHR 0x00 \<notin> set u \<Longrightarrow> 0 \<notin> set (str_bytes u)"
proof
  assume n: "CHR 0x00 \<notin> set u" and "0 \<in> set (str_bytes u)"
  then obtain c where c: "c \<in> set u" "(of_nat (ccode c) :: u8) = 0" by (auto simp: str_bytes_def)
  have "ccode c = 0" using c(2) byte_code [of c] by simp
  then have "ccode c = ccode (CHR 0x00)" by simp
  then have "c = CHR 0x00" by (simp only: of_char_eq_iff)
  then show False using c(1) n by simp
qed

text \<open>A store that can be read.\<close>

definition readable :: "load_env \<Rightarrow> bool" where
  "readable l \<longleftrightarrow> lo_open l = ESP_OK \<and> (\<forall>k. lo_get l k = ESP_OK)"

lemma iterations_ok: "\<not> (AUTH_PASSWORD_ITERATIONS b \<noteq> AUTH_SALTED_SHA256_ITERATIONS \<and> AUTH_PASSWORD_ITERATIONS b < AUTH_PBKDF2_MIN_ITERATIONS)"
  by (simp add: AUTH_PASSWORD_ITERATIONS_def auth_consts)

text \<open>What the next start reads of a written account.\<close>

lemma load_written:
  fixes b :: auth_build and reason :: esp_reset_reason_t and r :: auth_retained_state_t and st :: auth_store
  assumes "readable l" "si_auth_validate_username (Some u) = ESP_OK" "length h = SI_AUTH_TOKEN_LEN" "length salt = AUTH_SALT_HEX_LEN"
  defines "t \<equiv> load_credentials b l (power_on reason r (apply_writes (credential_writes u h salt (AUTH_PASSWORD_ITERATIONS b) False False) st))"
  shows "au_loaded t" "au_username t = u" "au_verifier t = h" "au_salt t = salt" "au_iterations t = AUTH_PASSWORD_ITERATIONS b"
    "\<not> au_legacy_password t" "\<not> au_using_default t" "\<not> si_auth_setup_required t"
proof -
  let ?w = "apply_writes (credential_writes u h salt (AUTH_PASSWORD_ITERATIONS b) False False) st"
  have g: "get_string l ?w ''username'' (SI_AUTH_USERNAME_MAX_LEN + 1) = (ESP_OK, u)"
    "si_secret_store_get_string l ?w ''password_hash'' (SI_AUTH_TOKEN_LEN + 1) = (ESP_OK, h)"
    "si_secret_store_get_string l ?w ''password_salt'' (AUTH_SALT_HEX_LEN + 1) = (ESP_OK, salt)"
    "get_u32 l ?w ''password_iter'' 0 = (ESP_OK, AUTH_PASSWORD_ITERATIONS b)" "get_u8 l ?w ''bootstrap'' 0 = (ESP_OK, 0)"
    "get_u8 l ?w ''setup'' 0 = (ESP_OK, 0)"
    using assms(1-4)
    by (auto simp: readable_def get_string_def si_secret_store_get_string_def get_u32_def get_u8_def credential_writes_ok
        si_auth_validate_username_def auth_consts split: if_splits)
  have "t = (power_on reason r ?w)\<lparr>au_username := u, au_verifier := h, au_salt := salt, au_iterations := AUTH_PASSWORD_ITERATIONS b,
      au_using_default := False, au_legacy_password := False, au_setup_pending := False, au_loaded := True\<rparr>"
    using assms(1-4) iterations_ok [of b] g
    by (simp add: t_def load_credentials_def load_stored_def power_on_def readable_def Let_def)
  then show "au_loaded t" "au_username t = u" "au_verifier t = h" "au_salt t = salt" "au_iterations t = AUTH_PASSWORD_ITERATIONS b"
    "\<not> au_legacy_password t" "\<not> au_using_default t" "\<not> si_auth_setup_required t"
    by (simp_all add: si_auth_setup_required_def)
qed

lemma match_loaded:
  assumes "au_loaded t" "\<not> au_legacy_password t" "au_iterations t = AUTH_PASSWORD_ITERATIONS b" "\<not> si_auth_setup_required t"
    "sv_mutex v" "sv_lock v" "length p \<le> SI_AUTH_PASSWORD_MAX_LEN"
  shows "fst (si_auth_credentials_match b l v (Some u) (Some p) t) \<longleftrightarrow>
    fst (derive_password b p (au_salt t) (au_iterations t)) = ESP_OK \<and> secure_equal (str_bytes u) (str_bytes (au_username t)) \<and>
    secure_equal (str_bytes (snd (derive_password b p (au_salt t) (au_iterations t)))) (str_bytes (au_verifier t))"
  using assms by (simp add: si_auth_credentials_match_def load_credentials_def Let_def split_beta)

text \<open>
  C23: A new password is the one that works, also after a restart. When a change of the credentials has
  succeeded and the device starts again from what was stored, a login with the new name and password is
  accepted, and any other name, or a password with another derived value, is refused.
\<close>

theorem auth_password_survives_restart:
  fixes u' p' :: string and r :: auth_retained_state_t and reason :: esp_reset_reason_t and l :: load_env
  assumes "si_auth_set_credentials b v (Some u) (Some p) s = (ESP_OK, s')" "\<And>x. au_store (sv_other v x) = au_store x" "hash_ok b"
    "length (sv_salt v) = 16" "readable l" "sv_mutex v'" "sv_lock v'" "length p' \<le> 64" "CHR 0x00 \<notin> set u'" "CHR 0x00 \<notin> set u"
  defines "t \<equiv> load_credentials b l (power_on reason r (au_store s'))"
  shows "fst (si_auth_credentials_match b l v' (Some u) (Some p) t) \<and>
    (fst (si_auth_credentials_match b l v' (Some u') (Some p') t) \<longleftrightarrow>
     u' = u \<and> derive_password b p' (bytes_to_hex (sv_salt v)) (AUTH_PASSWORD_ITERATIONS b) =
       derive_password b p (bytes_to_hex (sv_salt v)) (AUTH_PASSWORD_ITERATIONS b))"
proof -
  let ?salt = "bytes_to_hex (sv_salt v)" and ?n = "AUTH_PASSWORD_ITERATIONS b"
  obtain h where h: "derive_password b p ?salt ?n = (ESP_OK, h)"
    "au_store s' = apply_writes (credential_writes u h ?salt ?n False False) (au_store s)"
    "si_auth_validate_username (Some u) = ESP_OK" "si_auth_validate_password (Some p) = ESP_OK"
    by (rule set_ok_store [OF assms(1,2)])
  have len: "length h = SI_AUTH_TOKEN_LEN" "length ?salt = AUTH_SALT_HEX_LEN" "length p \<le> SI_AUTH_PASSWORD_MAX_LEN"
    "length p' \<le> SI_AUTH_PASSWORD_MAX_LEN"
    using derive_length [OF assms(3), of p ?salt ?n] h(1,4) assms(4,8) by (auto simp: auth_consts si_auth_validate_password_def split: if_splits)
  note t = load_written [OF assms(5) h(3) len(1,2), of b reason r "au_store s", folded h(2), folded t_def]
  have m: "fst (si_auth_credentials_match b l v' (Some x) (Some q) t) \<longleftrightarrow> x = u \<and> derive_password b q ?salt ?n = (ESP_OK, h)"
    if "length q \<le> SI_AUTH_PASSWORD_MAX_LEN" "CHR 0x00 \<notin> set x" for x q
  proof -
    have "secure_equal (str_bytes x) (str_bytes u) \<longleftrightarrow> x = u"
      using secure_equal_nonzero [OF str_bytes_nonzero [OF that(2)] str_bytes_nonzero [OF assms(10)]] str_bytes_eq by simp
    moreover have "secure_equal (str_bytes y) (str_bytes h) \<longleftrightarrow> y = h" if "length y = SI_AUTH_TOKEN_LEN" for y
      using secure_equal_length [of "str_bytes y" "str_bytes h"] that len(1) by (simp add: str_bytes_length str_bytes_eq)
    ultimately show ?thesis using derive_length [OF assms(3), of q ?salt ?n] match_loaded [OF t(1,6,5,8) assms(6,7) that(1), of l x]
      by (auto simp: t(2,3,4,5) prod_eq_iff)
  qed
  show ?thesis using m [OF len(3) assms(10)] m [OF len(4) assms(9)] h(1) by simp
qed

end
