(* ===== verification/Auth_Example.thy ===== *)
theory Auth_Example
  imports Auth_Sessions Auth_Credentials
begin

text \<open>
  A concrete device for the witnesses of the login service: a build whose hash functions keep the first
  bytes of their input, a store with an account, and the state after a browser has logged in.
\<close>

definition ex_build :: auth_build where
  "ex_build = \<lparr>ab_username = ''admin'', ab_password = [], ab_password_pbkdf2 = False, ab_disabled_for_lan_testing = False,
     ab_sha256 = (\<lambda>xs. Some (take 32 (xs @ replicate 32 0))), ab_pbkdf2_hmac = (\<lambda>p salt n. Some (take 32 (p @ salt @ replicate 32 0))),
     ab_image = (\<lambda>r. [])\<rparr>"

definition ex_store :: auth_store where
  "ex_store = apply_writes (credential_writes ''root'' (replicate 64 CHR ''0'') (replicate 32 CHR ''1'') 1 False False) Map.empty"

definition ex_env :: "int \<Rightarrow> auth_env" where
  "ex_env now = \<lparr>ae_mutex = True, ae_lock = True, ae_init_us = now, ae_now_us = now,
     ae_settings = \<lparr>ss_auto_logout_enabled = True, ss_auto_logout_minutes = 15\<rparr>\<rparr>"

definition ex_set :: set_env where
  "ex_set = \<lparr>sv_salt = replicate 16 7, sv_mutex = True, sv_lock = True, sv_open = ESP_OK, sv_set = (\<lambda>_. ESP_OK), sv_commit = ESP_OK,
     sv_kept = 0, sv_other = (\<lambda>s. s), sv_revoke = ex_env 3000000\<rparr>"

definition ex_load :: load_env where
  "ex_load = \<lparr>lo_open = ESP_OK, lo_get = (\<lambda>_. ESP_OK), lo_random = replicate 16 9, lo_set = ex_set\<rparr>"

definition ex_create :: create_env where
  "ex_create = \<lparr>cv_env = ex_env 1000000, cv_load = ex_load, cv_token = replicate 32 0xAB, cv_random1 = 1, cv_random2 = 2\<rparr>"

definition ex_token :: string where "ex_token = bytes_to_hex (replicate 32 0xAB)"

definition ex_start :: auth where "ex_start = power_on ESP_RST_OTHER zero_retained ex_store"

definition ex_state :: auth where
  "ex_state = auth_step ex_build (Auth_Create ex_create (Some ''web'') 0 SI_AUTH_METHOD_PASSWORD)
     (auth_step ex_build (Auth_Listen (Some 7)) ex_start)"

lemma ex_other [simp]: "sv_other ex_set x = x" "sv_other (lo_set ex_load) x = x" "sv_other (lo_set (cv_load ex_create)) x = x"
  by (simp_all add: ex_set_def ex_load_def ex_create_def)

lemma ex_start_reachable: "auth_reachable ex_build ex_start"
  unfolding ex_start_def by (rule reach_start) (simp add: retained_valid_def zero_retained_def auth_consts)

lemma ex_run_start: "auth_run ex_build ex_start ex_state"
  unfolding ex_state_def by (intro run_step run_refl) (auto intro: run_refl)

lemma ex_reachable: "auth_reachable ex_build ex_state"
  by (rule reach_run [OF ex_start_reachable ex_run_start])

definition ex_session :: auth_session_t where
  "ex_session = \<lparr>as_used = True, as_principal = SI_PRINCIPAL_BROWSER, as_capabilities = SI_CAPABILITIES_WEB_DEFAULT,
     as_method = SI_AUTH_METHOD_PASSWORD, as_generation = 1, as_session_id = ''s0000000100000002'',
     as_token_digest = take 32 (str_bytes ex_token), as_created_us = 1000000, as_last_seen_us = 1000000\<rparr>"

lemma ex_hex: "hex32 1 = ''00000001''" "hex32 2 = ''00000002''"
  by (simp_all add: hex32_def hex_char_def char_of_def upt_rec bit_Suc_0_iff)

lemma ex_token_length: "length ex_token = 64" "length (str_bytes ex_token) = 64" by (simp_all add: ex_token_def str_bytes_length)

lemma ex_digest: "ab_sha256 ex_build (str_bytes ex_token) = Some (take 32 (str_bytes ex_token))"
  by (simp add: ex_build_def ex_token_length)

lemma ex_loaded:
  defines "t \<equiv> load_credentials ex_build ex_load (snd (si_auth_add_session_revoked_listener (Some 7) ex_start))"
  shows "au_loaded t" "au_verifier t \<noteq> []" "\<not> si_auth_setup_required t" "\<not> au_retained_initialized t" "\<not> au_lock t"
    "au_credential_generation t = 1" "au_reset_reason t = ESP_RST_OTHER" "au_listeners t = [Some 7, None]" "au_revoked t = []"
  unfolding t_def by code_simp+

lemma ex_create_env:
  "cv_env ex_create = ex_env 1000000" "cv_load ex_create = ex_load" "bytes_to_hex (cv_token ex_create) = ex_token" "cv_random1 ex_create = 1"
  "cv_random2 ex_create = 2" "ae_mutex (ex_env n)" "ae_lock (ex_env n)" "ae_init_us (ex_env n) = n" "ae_now_us (ex_env n) = n"
  by (simp_all add: ex_create_def ex_env_def ex_token_def)

text \<open>The state after the login: one session, in the first slot.\<close>

lemma ex_created:
  "sessions ex_state = (replicate AUTH_SESSION_SLOTS zero_session)[0 := ex_session]" "au_retained_initialized ex_state" "au_loaded ex_state"
  "au_lock ex_state" "au_credential_generation ex_state = 1" "au_listeners ex_state = [Some 7, None]" "au_revoked ex_state = []"
  "\<not> ab_disabled_for_lan_testing ex_build"
proof -
  let ?s = "snd (si_auth_add_session_revoked_listener (Some 7) ex_start)"
  define t where "t = load_credentials ex_build ex_load ?s"
  note t = ex_loaded [folded t_def]
  have dis: "\<not> ab_disabled_for_lan_testing ex_build" by (simp add: ex_build_def)
  have sl: "\<not> is_mcp_client (Some ''web'')" "client_slots False = 0 # [1..<12]" by code_simp+
  have e: "ex_state = snd (create_session_locked ex_build ex_create False SI_AUTH_METHOD_PASSWORD (take 32 (str_bytes ex_token))
      (t\<lparr>au_lock := True\<rparr>))"
    using t ex_digest dis sl(1)
    by (auto simp add: ex_state_def si_auth_create_session_for_method_def si_auth_is_enabled_def t_def [symmetric] ex_create_env ensure_lock_def
        sha256_text_def si_auth_setup_required_def Let_def split_beta)
  show "sessions ex_state = (replicate AUTH_SESSION_SLOTS zero_session)[0 := ex_session]" "au_retained_initialized ex_state"
    "au_loaded ex_state" "au_lock ex_state" "au_credential_generation ex_state = 1" "au_listeners ex_state = [Some 7, None]" "au_revoked ex_state = []"
    using t unfolding e
    by (simp_all add: create_session_locked_def sl retained_init_locked_def retained_valid_def retained_reset_allowed_def expire_slot_def
        zero_retained_def auth_consts retained_commit_locked_def next_session_generation_locked_def ex_session_def
        ex_create_env ex_hex Let_def split_beta)
qed (simp add: ex_build_def)

lemma ex_used: "as_used (sessions ex_state ! 0)" "sessions ex_state ! 0 = ex_session" "has_digest (take 32 (str_bytes ex_token)) (sessions ex_state ! 0)"
  by (simp_all add: ex_created(1) auth_consts ex_session_def has_digest_def)


lemma ex_live: "ex_session \<in> used_in (sessions ex_state)"
  unfolding ex_created(1) by (rule used_in_update) (simp_all add: ex_session_def auth_consts)

section \<open>Witnesses\<close>

theorem auth_session_table_witness:
  "as_principal (sessions ex_state ! 0) = SI_PRINCIPAL_BROWSER \<and> as_capabilities (sessions ex_state ! 0) = SI_CAPABILITIES_WEB_DEFAULT"
  using auth_session_table [OF ex_reachable ex_created(2) _ ex_used(1)] by simp

theorem auth_sessions_not_lost_witness:
  "ex_session \<in> live ex_state \<and>
   ((\<exists>y\<in>live (auth_step ex_build (Auth_Logout (ex_env 2000000) (Some ex_token)) ex_state). session_key y = session_key ex_session) \<or>
    session_key ex_session \<in> set (drop (length (au_revoked ex_state))
      (au_revoked (auth_step ex_build (Auth_Logout (ex_env 2000000) (Some ex_token)) ex_state))))"
proof -
  have "auth_run ex_build ex_state (auth_step ex_build (Auth_Logout (ex_env 2000000) (Some ex_token)) ex_state)"
    by (intro run_step run_refl) simp
  moreover have l: "ex_session \<in> live ex_state"
    using ex_live ex_created(2) by (simp add: live_def)
  ultimately show ?thesis using auth_sessions_not_lost [OF ex_reachable] by blast
qed

theorem auth_token_accepted_iff_witness:
  "fst (si_auth_token_get_context ex_build (ex_env 2000000) ex_load (Some ex_token) True ex_state)"
proof -
  have i: "retained_init_locked ex_build (ex_env 2000000) ex_state = ex_state"
    by (rule init_table(4) [OF reachable_table [OF ex_reachable] ex_created(2)])
  have "\<not> session_expired ex_session (ae_now_us (ex_env 2000000)) (ae_settings (ex_env 2000000))"
    by (simp add: session_expired_def ex_session_def ex_env_def auth_consts)
  then show ?thesis
    using ex_live auth_token_accepted_iff [OF ex_reachable ex_created(3,4,8), of "ex_env 2000000" ex_token, OF ex_create_env(7) ex_token_length(1) ex_digest,
        of ex_load True] ex_used(3)
    by (auto simp: i has_digest_def ex_used(2))
qed

lemma bytes_to_hex_empty [simp]: "bytes_to_hex xs = [] \<longleftrightarrow> xs = []"
  using length_bytes_to_hex [of xs] by (metis length_0_conv mult_eq_0_iff zero_neq_numeral)

lemma ex_changed: "fst (si_auth_set_credentials ex_build ex_set (Some ''root'') (Some ''secret'') ex_state) = ESP_OK"
proof -
  have "fst (write_store ex_set kxs st) = ESP_OK" if "list_all (\<lambda>(k, x). \<forall>v. x = StoreString v \<longrightarrow> v \<noteq> []) kxs" for kxs st
  proof -
    have "fst (sets_in_order ex_set kxs) = ESP_OK" using that
      by (induction kxs rule: list.induct)
         (auto simp: set_value_def si_secret_store_set_string_def ex_set_def split_beta Let_def split: store_value.split)
    then show ?thesis by (simp add: write_store_def ex_set_def split_beta Let_def)
  qed
  moreover have "si_auth_validate_username (Some ''root'') = ESP_OK" "si_auth_validate_password (Some ''secret'') = ESP_OK" by code_simp+
  moreover have "derive_password ex_build ''secret'' (bytes_to_hex (sv_salt ex_set)) 1 = (ESP_OK, bytes_to_hex (replicate 16 7 @ take 16 (str_bytes ''secret'' @ replicate 32 0)))"
    using hex_to_bytes_inverts [of "sv_salt ex_set"]
    by (simp add: derive_password_def ex_set_def ex_build_def auth_consts str_bytes_length)
  ultimately show ?thesis
    by (simp add: si_auth_set_credentials_def set_credentials_internal_def AUTH_PASSWORD_ITERATIONS_def auth_consts ex_set_def ex_build_def
        credential_writes_def Let_def split_beta)
qed

definition ex_after :: auth where
  "ex_after = snd (si_auth_set_credentials ex_build ex_set (Some ''root'') (Some ''secret'') ex_state)"

lemma ex_after_eq: "si_auth_set_credentials ex_build ex_set (Some ''root'') (Some ''secret'') ex_state = (ESP_OK, ex_after)"
  using ex_changed by (simp add: ex_after_def prod_eq_iff)

lemma ex_revoke_lock: "au_lock (si_auth_revoke_all_sessions ex_build (sv_revoke ex_set) x)"
  by (simp add: si_auth_revoke_all_sessions_def ensure_lock_def ex_set_def ex_env_def Let_def)

theorem auth_password_change_ends_sessions_witness:
  "session_key ex_session \<in> set (drop (length (au_revoked ex_state)) (au_revoked ex_after)) \<and> live ex_after = {}"
proof -
  have "set_credentials_internal ex_build ex_set (Some ''root'') (Some ''secret'') False True False False 0 ex_state = (ESP_OK, ex_after)"
    using ex_after_eq by (simp add: si_auth_set_credentials_def)
  then have "au_lock ex_after"
    by (rule set_ok_state) (metis ex_revoke_lock)
  moreover have "auth_run ex_build x (sv_other ex_set x)" for x by (simp add: run_refl)
  ultimately have "live ex_after = {} \<and> session_key ` live ex_state \<subseteq> set (drop (length (au_revoked ex_state)) (au_revoked ex_after))"
    using auth_password_change_ends_sessions [OF ex_reachable _ _ _ ex_after_eq] ex_created(5) by simp
  then show ?thesis using ex_live ex_created(2) by (auto simp: live_def)
qed


lemma ex_hash: "hash_ok ex_build"
  by (auto simp: hash_ok_def ex_build_def auth_consts)

lemma ex_claimed: "claimed (au_store ex_start)"
  by (simp add: ex_start_def power_on_def claimed_def ex_store_def credential_writes_ok auth_consts)

theorem auth_claim_survives_failures_witness:
  "\<not> si_auth_setup_required (load_credentials ex_build (ex_load\<lparr>lo_get := (\<lambda>_. ESP_FAIL)\<rparr>) (power_on ESP_RST_SW (au_retained ex_start)
     (au_store (snd (si_auth_set_credentials ex_build (ex_set\<lparr>sv_commit := ESP_FAIL, sv_kept := 2\<rparr>) (Some ''root'') (Some ''secret'') ex_start)))))"
proof -
  have "honest (ex_load\<lparr>lo_get := (\<lambda>_. ESP_FAIL)\<rparr>)" by (simp add: honest_def ex_load_def)
  then show ?thesis
    using auth_claim_survives_failures [OF ex_claimed ex_hash, of "ex_set\<lparr>sv_commit := ESP_FAIL, sv_kept := 2\<rparr>"] by (simp add: ex_set_def)
qed

theorem auth_password_survives_restart_witness:
  "fst (si_auth_credentials_match ex_build ex_load ex_set (Some ''root'') (Some ''secret'')
     (load_credentials ex_build ex_load (power_on ESP_RST_OTHER zero_retained (au_store ex_after)))) \<and>
   \<not> fst (si_auth_credentials_match ex_build ex_load ex_set (Some ''boot'') (Some ''secret'')
     (load_credentials ex_build ex_load (power_on ESP_RST_OTHER zero_retained (au_store ex_after))))"
proof -
  have "readable ex_load" "length (sv_salt ex_set) = 16" "sv_mutex ex_set" "sv_lock ex_set"
    by (simp_all add: readable_def ex_load_def ex_set_def)
  then show ?thesis using auth_password_survives_restart [OF ex_after_eq, of ex_load ex_set "''secret''" "''boot''"] ex_hash by simp
qed

definition ex_guesses :: "auth_env list" where
  "ex_guesses = replicate 5 (ex_env 1000000) @ replicate 5 (ex_env 31000000)"

theorem auth_guessing_throttled_witness:
  "failed_logins ex_guesses ex_start \<noteq> None \<and> 30000000 \<le> ae_now_us (last ex_guesses) - ae_now_us (hd ex_guesses)"
proof -
  have "case failed_logins ex_guesses ex_start of None \<Rightarrow> False | Some s \<Rightarrow> True" by code_simp
  then obtain s where s: "failed_logins ex_guesses ex_start = Some s" by (auto split: option.splits)
  moreover have "30000000 \<le> ae_now_us (last ex_guesses) - ae_now_us (hd ex_guesses)"
    by (rule auth_guessing_throttled [OF ex_start_reachable s]) (simp_all add: ex_guesses_def ex_env_def numeral_eq_Suc)
  ultimately show ?thesis by simp
qed

end
