(* ===== verification/Frame_Store.thy ===== *)
theory Frame_Store
  imports Contracts
begin

text \<open>
  The frame store of \<^verbatim>\<open>drivers/video_frame_store.c\<close>: one memory area holds up to two frames. The writer copies
  the next frame into it while the mutex is released, and readers borrow the current frame and read it, also
  without the mutex. The store is right when a borrowed frame is a whole published frame and stays as it is
  until it is given back, whatever is written meanwhile.

  The area is a list of bytes and a pointer into it is an index. A publication is three parts: the critical
  section that reserves a slot, the copy, byte by byte, and the critical section that publishes. Between any
  two of them, and between the bytes of the copy, other tasks run. A mutex that is waited for without limit
  is obtained; where the wait is limited, an argument says whether it was.
\<close>

section \<open>Data\<close>

definition SI_VIDEO_FRAME_STORE_SLOTS :: nat where "SI_VIDEO_FRAME_STORE_SLOTS = 2"

record si_video_frame_slot_t =
  fs_data :: nat
  fs_offset :: nat
  fs_len :: nat
  fs_frame_id :: u32
  fs_generation :: u32
  fs_refs :: u32
  fs_valid :: bool
  fs_writing :: bool

definition zero_slot :: si_video_frame_slot_t where
  "zero_slot = \<lparr>fs_data = 0, fs_offset = 0, fs_len = 0, fs_frame_id = 0, fs_generation = 0, fs_refs = 0,
     fs_valid = False, fs_writing = False\<rparr>"

record si_video_frame_store_t =
  st_lock :: bool
  st_arena :: "u8 list option"
  st_capacity :: nat
  st_generation :: u32
  st_next_frame_id :: u32
  st_current :: "nat option"
  st_slots :: "si_video_frame_slot_t list"

text \<open>The index \<^verbatim>\<open>current\<close> is -1 for no slot, which is None here.\<close>

definition initial_store :: si_video_frame_store_t where
  "initial_store = \<lparr>st_lock = False, st_arena = None, st_capacity = 0, st_generation = 0, st_next_frame_id = 0,
     st_current = None, st_slots = replicate SI_VIDEO_FRAME_STORE_SLOTS zero_slot\<rparr>"

record si_video_frame_store_view_t =
  vw_data :: nat
  vw_len :: nat
  vw_frame_id :: u32
  vw_token :: "nat option"

definition zero_view :: si_video_frame_store_view_t where
  "zero_view = \<lparr>vw_data = 0, vw_len = 0, vw_frame_id = 0, vw_token = None\<rparr>"

definition put_slot :: "nat \<Rightarrow> si_video_frame_slot_t \<Rightarrow> si_video_frame_store_t \<Rightarrow> si_video_frame_store_t" where
  "put_slot i slot s = s\<lparr>st_slots := (st_slots s)[i := slot]\<rparr>"

section \<open>Operations\<close>

text \<open>\<open>mutex\<close> tells whether the mutex could be created, \<open>memory\<close> what the allocator answered.\<close>

definition si_video_frame_store_init ::
    "bool \<Rightarrow> u8 list option \<Rightarrow> nat \<Rightarrow> si_video_frame_store_t \<Rightarrow> esp_err_t \<times> si_video_frame_store_t" where
  "si_video_frame_store_init mutex memory capacity s =
     (if capacity = 0 then (ESP_ERR_INVALID_ARG, s)
      else if st_arena s \<noteq> None then (if st_capacity s \<ge> capacity then ESP_OK else ESP_ERR_INVALID_SIZE, s)
      else if \<not> mutex then (ESP_ERR_NO_MEM, s\<lparr>st_lock := False\<rparr>)
      else (case memory of
              None \<Rightarrow> (ESP_ERR_NO_MEM, initial_store)
            | Some bytes \<Rightarrow>
                (ESP_OK, s\<lparr>st_lock := True, st_arena := Some bytes, st_capacity := capacity, st_generation := 1\<rparr>)))"

definition clear_slot :: "si_video_frame_slot_t \<Rightarrow> si_video_frame_slot_t" where
  "clear_slot slot =
     (if fs_refs slot = 0 \<and> \<not> fs_writing slot then slot\<lparr>fs_valid := False, fs_len := 0\<rparr> else slot)"

definition si_video_frame_store_clear :: "bool \<Rightarrow> si_video_frame_store_t \<Rightarrow> si_video_frame_store_t" where
  "si_video_frame_store_clear lock s =
     (if \<not> st_lock s \<or> \<not> lock then s
      else s\<lparr>st_generation := (if st_generation s + 1 = 0 then 1 else st_generation s + 1), st_current := None,
             st_slots := map clear_slot (st_slots s)\<rparr>)"

definition slot_occupies_arena_locked :: "nat \<Rightarrow> si_video_frame_store_t \<Rightarrow> bool" where
  "slot_occupies_arena_locked index s \<longleftrightarrow>
     (let slot = st_slots s ! index;
          visible = (Some index = st_current s \<and> fs_valid slot \<and> fs_generation slot = st_generation s)
      in fs_writing slot \<or> fs_refs slot > 0 \<or> visible)"

text \<open>The offset, or None when the frame does not fit beside the other slot.\<close>

definition layout_slot_locked :: "nat \<Rightarrow> nat \<Rightarrow> si_video_frame_store_t \<Rightarrow> nat option" where
  "layout_slot_locked target len s =
     (if target \<ge> SI_VIDEO_FRAME_STORE_SLOTS \<or> len > st_capacity s then None
      else
        let other = st_slots s ! (1 - target);
            other_occupied = slot_occupies_arena_locked (1 - target) s
        in
        if target = 0 then (if \<not> other_occupied \<or> len \<le> fs_offset other then Some 0 else None)
        else
          let offset = st_capacity s - len
          in if \<not> other_occupied \<or> offset \<ge> fs_offset other + fs_len other then Some offset else None)"

fun select_candidates :: "nat \<Rightarrow> nat list \<Rightarrow> si_video_frame_store_t \<Rightarrow> (nat \<times> nat) option" where
  "select_candidates len [] s = None"
| "select_candidates len (candidate # rest) s =
     (let slot = st_slots s ! candidate
      in if fs_refs slot \<noteq> 0 \<or> fs_writing slot then select_candidates len rest s
         else (case layout_slot_locked candidate len s of
                 None \<Rightarrow> select_candidates len rest s
               | Some offset \<Rightarrow> Some (candidate, offset)))"

definition select_write_slot_locked :: "nat \<Rightarrow> si_video_frame_store_t \<Rightarrow> (nat \<times> nat) option" where
  "select_write_slot_locked len s =
     (if fs_writing (st_slots s ! 0) \<or> fs_writing (st_slots s ! 1) then None
      else
        let (first, second) = (case st_current s of Some c \<Rightarrow> (1 - c, c) | None \<Rightarrow> (0, 1))
        in select_candidates len [first, second] s)"

text \<open>The publication under way: its slot, the generation it began in, its data and how much of it is copied.\<close>

record publication =
  pb_target :: nat
  pb_generation :: u32
  pb_bytes :: "u8 list"
  pb_done :: nat

text \<open>The first critical section of \<^verbatim>\<open>si_video_frame_store_publish\<close>.\<close>

definition publish_reserve ::
    "bool \<Rightarrow> u8 list option \<Rightarrow> si_video_frame_store_t \<Rightarrow> esp_err_t \<times> publication option \<times> si_video_frame_store_t" where
  "publish_reserve lock data s =
     (case data of None \<Rightarrow> (ESP_ERR_INVALID_STATE, None, s)
      | Some bytes \<Rightarrow>
          if bytes = [] \<or> \<not> st_lock s \<or> st_arena s = None then (ESP_ERR_INVALID_STATE, None, s)
          else if length bytes > st_capacity s then (ESP_ERR_INVALID_SIZE, None, s)
          else if \<not> lock then (ESP_ERR_NOT_FINISHED, None, s)
          else (case select_write_slot_locked (length bytes) s of
                  None \<Rightarrow> (ESP_ERR_NOT_FINISHED, None, s)
                | Some (target, target_offset) \<Rightarrow>
                    let s = (if st_current s = Some target then s\<lparr>st_current := None\<rparr> else s);
                        slot = (st_slots s ! target)\<lparr>fs_valid := False, fs_writing := True, fs_offset := target_offset,
                                  fs_data := target_offset, fs_len := length bytes\<rparr>
                    in (ESP_OK, Some \<lparr>pb_target = target, pb_generation = st_generation s, pb_bytes = bytes, pb_done = 0\<rparr>,
                        put_slot target slot s)))"

text \<open>One byte of the copy.\<close>

definition publish_copy_byte :: "publication \<Rightarrow> si_video_frame_store_t \<Rightarrow> publication \<times> si_video_frame_store_t" where
  "publish_copy_byte p s =
     (p\<lparr>pb_done := pb_done p + 1\<rparr>,
      s\<lparr>st_arena := map_option (\<lambda>a. a[fs_data (st_slots s ! pb_target p) + pb_done p := pb_bytes p ! pb_done p]) (st_arena s)\<rparr>)"

text \<open>The second critical section. The previous frame is dropped unless somebody has borrowed it.\<close>

definition drop_previous :: "nat \<Rightarrow> si_video_frame_store_t \<Rightarrow> si_video_frame_store_t" where
  "drop_previous target s =
     (case st_current s of
        None \<Rightarrow> s
      | Some previous_current \<Rightarrow>
          if previous_current \<noteq> target \<and> fs_refs (st_slots s ! previous_current) = 0
          then put_slot previous_current ((st_slots s ! previous_current)\<lparr>fs_valid := False, fs_len := 0\<rparr>) s
          else s)"

definition publish_commit :: "publication \<Rightarrow> si_video_frame_store_t \<Rightarrow> esp_err_t \<times> u32 \<times> si_video_frame_store_t" where
  "publish_commit p s =
     (let target = pb_target p in
      if pb_generation p \<noteq> st_generation s
      then (ESP_ERR_INVALID_STATE, 0, put_slot target ((st_slots s ! target)\<lparr>fs_writing := False, fs_valid := False, fs_len := 0\<rparr>) s)
      else
        let s = drop_previous target s;
            next_frame_id = (if st_next_frame_id s + 1 = 0 then 1 else st_next_frame_id s + 1);
            slot = (st_slots s ! target)\<lparr>fs_frame_id := next_frame_id, fs_generation := pb_generation p, fs_valid := True,
                      fs_writing := False\<rparr>
        in (ESP_OK, next_frame_id, (put_slot target slot s)\<lparr>st_next_frame_id := next_frame_id, st_current := Some target\<rparr>))"

definition si_video_frame_store_acquire ::
    "bool \<Rightarrow> u32 \<Rightarrow> si_video_frame_store_t \<Rightarrow> esp_err_t \<times> si_video_frame_store_view_t \<times> si_video_frame_store_t" where
  "si_video_frame_store_acquire lock last_frame_id s =
     (if \<not> st_lock s \<or> \<not> lock then (ESP_ERR_TIMEOUT, zero_view, s)
      else (case st_current s of
              None \<Rightarrow> (ESP_ERR_NOT_FOUND, zero_view, s)
            | Some current \<Rightarrow>
                let slot = st_slots s ! current in
                if \<not> fs_valid slot \<or> fs_writing slot \<or> fs_generation slot \<noteq> st_generation s \<or> fs_len slot = 0
                then (ESP_ERR_NOT_FOUND, zero_view, s)
                else if last_frame_id \<noteq> 0xFFFFFFFF \<and> last_frame_id = fs_frame_id slot then (ESP_ERR_NOT_FINISHED, zero_view, s)
                else (ESP_OK, \<lparr>vw_data = fs_data slot, vw_len = fs_len slot, vw_frame_id = fs_frame_id slot, vw_token = Some current\<rparr>,
                      put_slot current (slot\<lparr>fs_refs := fs_refs slot + 1\<rparr>) s)))"

text \<open>The view is zeroed by the release.\<close>

definition si_video_frame_store_release ::
    "si_video_frame_store_view_t \<Rightarrow> si_video_frame_store_t \<Rightarrow> si_video_frame_store_view_t \<times> si_video_frame_store_t" where
  "si_video_frame_store_release view s =
     (case vw_token view of None \<Rightarrow> (view, s)
      | Some index \<Rightarrow>
          if \<not> st_lock s then (view, s)
          else
            (zero_view,
             if index < SI_VIDEO_FRAME_STORE_SLOTS \<and> fs_refs (st_slots s ! index) > 0
             then
               let slot = st_slots s ! index;
                   slot = slot\<lparr>fs_refs := fs_refs slot - 1\<rparr>;
                   slot = (if fs_refs slot = 0 \<and>
                              (st_current s \<noteq> Some index \<or> fs_generation slot \<noteq> st_generation s \<or> \<not> fs_valid slot)
                           then slot\<lparr>fs_valid := False, fs_len := 0\<rparr> else slot)
               in put_slot index slot s
             else s))"

definition view_bytes :: "si_video_frame_store_view_t \<Rightarrow> si_video_frame_store_t \<Rightarrow> u8 list" where
  "view_bytes view s = (case st_arena s of None \<Rightarrow> [] | Some a \<Rightarrow> take (vw_len view) (drop (vw_data view) a))"

text \<open>\<open>other\<close> and \<open>last_other\<close> are what other tasks do before the bytes are read and before the view is given back.\<close>

definition si_video_frame_store_copy ::
    "bool \<Rightarrow> (si_video_frame_store_t \<Rightarrow> si_video_frame_store_t) \<Rightarrow> (si_video_frame_store_t \<Rightarrow> si_video_frame_store_t) \<Rightarrow>
     u32 \<Rightarrow> bool \<Rightarrow> nat \<Rightarrow> si_video_frame_store_t \<Rightarrow> esp_err_t \<times> u8 list \<times> nat \<times> u32 \<times> si_video_frame_store_t" where
  "si_video_frame_store_copy lock other last_other last_frame_id require_new capacity s =
     (let (ret, view, s) = si_video_frame_store_acquire lock (if require_new then last_frame_id else 0xFFFFFFFF) s in
      if ret \<noteq> ESP_OK then (ret, [], 0, 0, s)
      else
        let s = other s in
        if vw_len view > capacity
        then (ESP_ERR_INVALID_SIZE, [], vw_len view, 0, snd (si_video_frame_store_release view (last_other s)))
        else (ESP_OK, view_bytes view s, vw_len view, vw_frame_id view, snd (si_video_frame_store_release view (last_other s))))"

definition si_video_frame_store_scratch_acquire :: "bool \<Rightarrow> esp_err_t" where
  "si_video_frame_store_scratch_acquire scratch_given = (if scratch_given then ESP_ERR_NOT_SUPPORTED else ESP_ERR_INVALID_ARG)"

definition si_video_frame_store_scratch_release :: "bool \<Rightarrow> esp_err_t" where
  "si_video_frame_store_scratch_release scratch_given = (if scratch_given then ESP_ERR_NOT_SUPPORTED else ESP_ERR_INVALID_ARG)"

definition si_video_frame_store_capacity :: "si_video_frame_store_t \<Rightarrow> nat" where
  "si_video_frame_store_capacity s = st_capacity s"

end
