(* ===== verification/Frame_Store_Props.thy ===== *)
theory Frame_Store_Props
  imports Frame_Store
begin

text \<open>
  The frame store with its writer and its readers as one system. The invariant says which part of the memory
  belongs to whom; it is kept by every step, so a borrowed frame is a whole published frame and does not
  change, and a publication finds room when nothing is borrowed.
\<close>

section \<open>The system\<close>

text \<open>
  \<open>sy_views\<close> are the borrowed views, each with the bytes it showed when it was borrowed; \<open>sy_published\<close> is the
  history of what was published, with the numbers of the frames.
\<close>

record frame_sys =
  sy_store :: si_video_frame_store_t
  sy_job :: "publication option"
  sy_views :: "(si_video_frame_store_view_t \<times> u8 list) list"
  sy_published :: "(u32 \<times> u8 list) list"

datatype frame_op =
    Fs_Init bool "u8 list" bool nat
  | Fs_Clear bool
  | Fs_Reserve bool "u8 list option"
  | Fs_Copy
  | Fs_Commit
  | Fs_Acquire bool u32
  | Fs_Release nat

definition drop_nth :: "nat \<Rightarrow> 'a list \<Rightarrow> 'a list" where
  "drop_nth i xs = take i xs @ drop (Suc i) xs"

text \<open>
  The allocator gives memory of the size asked for, with any contents. Fewer than \<open>2 ^ 32 - 1\<close> views are
  borrowed at a time, so that the reference count does not wrap.
\<close>

definition frame_step :: "frame_sys \<Rightarrow> frame_op \<Rightarrow> frame_sys" where
  "frame_step y x =
     (case x of
        Fs_Init mutex fill got capacity \<Rightarrow>
          y\<lparr>sy_store := snd (si_video_frame_store_init mutex (if got then Some (take capacity (fill @ replicate capacity 0)) else None)
               capacity (sy_store y))\<rparr>
      | Fs_Clear lock \<Rightarrow> y\<lparr>sy_store := si_video_frame_store_clear lock (sy_store y)\<rparr>
      | Fs_Reserve lock data \<Rightarrow>
          (case publish_reserve lock data (sy_store y) of
             (ret, Some p, s) \<Rightarrow> y\<lparr>sy_store := s, sy_job := Some p\<rparr>
           | (ret, None, s) \<Rightarrow> y\<lparr>sy_store := s\<rparr>)
      | Fs_Copy \<Rightarrow>
          (case sy_job y of
             Some p \<Rightarrow> if pb_done p < length (pb_bytes p)
                then (case publish_copy_byte p (sy_store y) of (p, s) \<Rightarrow> y\<lparr>sy_store := s, sy_job := Some p\<rparr>) else y
           | None \<Rightarrow> y)
      | Fs_Commit \<Rightarrow>
          (case sy_job y of
             Some p \<Rightarrow> if pb_done p = length (pb_bytes p)
                then (case publish_commit p (sy_store y) of (ret, frame_id, s) \<Rightarrow>
                        y\<lparr>sy_store := s, sy_job := None,
                          sy_published := sy_published y @ (if ret = ESP_OK then [(frame_id, pb_bytes p)] else [])\<rparr>)
                else y
           | None \<Rightarrow> y)
      | Fs_Acquire lock last_frame_id \<Rightarrow>
          (case si_video_frame_store_acquire lock last_frame_id (sy_store y) of (ret, view, s) \<Rightarrow>
             if ret = ESP_OK \<and> length (sy_views y) < 2 ^ 32 - 2
             then y\<lparr>sy_store := s, sy_views := (view, view_bytes view s) # sy_views y\<rparr> else y)
      | Fs_Release i \<Rightarrow>
          if i < length (sy_views y)
          then y\<lparr>sy_store := snd (si_video_frame_store_release (fst (sy_views y ! i)) (sy_store y)), sy_views := drop_nth i (sy_views y)\<rparr>
          else y)"

definition frame_initial :: frame_sys where
  "frame_initial = \<lparr>sy_store = initial_store, sy_job = None, sy_views = [], sy_published = []\<rparr>"

section \<open>The invariant\<close>

abbreviation slot :: "si_video_frame_store_t \<Rightarrow> nat \<Rightarrow> si_video_frame_slot_t" where
  "slot s i \<equiv> st_slots s ! i"

definition arena_of :: "si_video_frame_store_t \<Rightarrow> u8 list" where
  "arena_of s = (case st_arena s of None \<Rightarrow> [] | Some a \<Rightarrow> a)"

definition slice :: "si_video_frame_store_t \<Rightarrow> nat \<Rightarrow> u8 list" where
  "slice s i = take (fs_len (slot s i)) (drop (fs_data (slot s i)) (arena_of s))"

text \<open>A slot owns its area while it is written or holds a frame.\<close>

definition owns :: "si_video_frame_slot_t \<Rightarrow> bool" where
  "owns x \<longleftrightarrow> fs_valid x \<or> fs_writing x"

definition area_ok :: "nat \<Rightarrow> si_video_frame_slot_t \<Rightarrow> bool" where
  "area_ok capacity x \<longleftrightarrow> (owns x \<longrightarrow> fs_data x = fs_offset x \<and> fs_offset x + fs_len x \<le> capacity \<and> fs_len x > 0)"

definition borrowed :: "nat \<Rightarrow> (si_video_frame_store_view_t \<times> u8 list) list \<Rightarrow> nat" where
  "borrowed i views = length (filter (\<lambda>(v, b). vw_token v = Some i) views)"

text \<open>What holds of one slot with its bytes, given the current slot, the publication under way, the views and the history.\<close>

definition shows_slot :: "nat \<Rightarrow> si_video_frame_slot_t \<Rightarrow> u8 list \<Rightarrow> si_video_frame_store_view_t \<times> u8 list \<Rightarrow> bool" where
  "shows_slot i x bytes w \<longleftrightarrow> (vw_token (fst w) = Some i \<longrightarrow>
     vw_data (fst w) = fs_data x \<and> vw_len (fst w) = fs_len x \<and> vw_frame_id (fst w) = fs_frame_id x \<and> snd w = bytes)"

definition job_on :: "nat \<Rightarrow> publication option \<Rightarrow> bool" where
  "job_on i job \<longleftrightarrow> (case job of None \<Rightarrow> False | Some p \<Rightarrow> pb_target p = i)"

definition job_ok :: "si_video_frame_slot_t \<Rightarrow> u8 list \<Rightarrow> publication \<Rightarrow> bool" where
  "job_ok x bytes p \<longleftrightarrow> fs_len x = length (pb_bytes p) \<and> pb_done p \<le> length (pb_bytes p) \<and>
     take (pb_done p) bytes = take (pb_done p) (pb_bytes p)"

definition slot_ok ::
    "nat \<Rightarrow> si_video_frame_slot_t \<Rightarrow> u8 list \<Rightarrow> nat \<Rightarrow> nat option \<Rightarrow> publication option \<Rightarrow>
     (si_video_frame_store_view_t \<times> u8 list) list \<Rightarrow> (u32 \<times> u8 list) list \<Rightarrow> bool" where
  "slot_ok i x bytes capacity current job views published \<longleftrightarrow>
     area_ok capacity x \<and> \<not> (fs_valid x \<and> fs_writing x) \<and> (fs_refs x \<noteq> 0 \<longrightarrow> fs_valid x) \<and>
     (fs_valid x \<longrightarrow> fs_refs x \<noteq> 0 \<or> current = Some i) \<and> (fs_valid x \<longrightarrow> (fs_frame_id x, bytes) \<in> set published) \<and>
     unat (fs_refs x) = borrowed i views \<and> list_all (shows_slot i x bytes) views \<and>
     (fs_writing x \<longleftrightarrow> job_on i job) \<and> (fs_writing x \<longrightarrow> job_ok x bytes (the job))"

definition apart :: "si_video_frame_slot_t \<Rightarrow> si_video_frame_slot_t \<Rightarrow> bool" where
  "apart x0 x1 \<longleftrightarrow> (owns x0 \<and> owns x1 \<longrightarrow> fs_offset x0 + fs_len x0 \<le> fs_offset x1)"

definition store_ok :: "si_video_frame_store_t \<Rightarrow> (u32 \<times> u8 list) list \<Rightarrow> bool" where
  "store_ok s published \<longleftrightarrow> length (st_slots s) = 2 \<and> length (arena_of s) = st_capacity s \<and> (st_arena s \<noteq> None \<longrightarrow> st_lock s) \<and>
     apart (slot s 0) (slot s 1) \<and>
     (\<forall>c. st_current s = Some c \<longrightarrow> c < 2 \<and> fs_valid (slot s c) \<and> fs_generation (slot s c) = st_generation s \<and>
        published \<noteq> [] \<and> last published = (fs_frame_id (slot s c), slice s c))"

definition clients_ok :: "publication option \<Rightarrow> (si_video_frame_store_view_t \<times> u8 list) list \<Rightarrow> bool" where
  "clients_ok job views \<longleftrightarrow> (\<forall>p. job = Some p \<longrightarrow> pb_target p < 2) \<and> length views < 2 ^ 32 - 1 \<and>
     list_all (\<lambda>w. \<exists>i<2. vw_token (fst w) = Some i) views"

definition frame_inv :: "frame_sys \<Rightarrow> bool" where
  "frame_inv y \<longleftrightarrow> store_ok (sy_store y) (sy_published y) \<and> clients_ok (sy_job y) (sy_views y) \<and>
     (\<forall>i<2. slot_ok i (slot (sy_store y) i) (slice (sy_store y) i) (st_capacity (sy_store y)) (st_current (sy_store y)) (sy_job y)
        (sy_views y) (sy_published y))"

lemma all2: "(\<forall>i<2. P i) \<longleftrightarrow> P 0 \<and> P (1 :: nat)"
  by (auto simp: less_2_cases_iff)

lemma initial_inv: "frame_inv frame_initial"
  by (simp add: frame_inv_def frame_initial_def store_ok_def initial_store_def SI_VIDEO_FRAME_STORE_SLOTS_def zero_slot_def owns_def
      area_ok_def slot_ok_def clients_ok_def borrowed_def apart_def arena_of_def job_on_def all2)

lemma not_borrowed: "borrowed i views = 0 \<Longrightarrow> list_all (shows_slot i x bytes) views"
  by (induction views) (auto simp: borrowed_def shows_slot_def split: if_splits)

text \<open>A slot without an area may show anything.\<close>

lemma slot_ok_unowned:
  assumes "slot_ok i x bytes capacity current job views published" "\<not> owns x" "\<not> owns x'" "fs_refs x' = fs_refs x"
  shows "slot_ok i x' bytes' capacity' current' job views published'"
proof -
  have "fs_refs x = 0" using assms(1,2) by (auto simp: slot_ok_def owns_def)
  then have "borrowed i views = 0" using assms(1) by (simp add: slot_ok_def)
  then show ?thesis using assms not_borrowed [of i views x' bytes'] by (auto simp: slot_ok_def area_ok_def owns_def)
qed

text \<open>A slot that is neither borrowed nor written can be freed.\<close>

lemma slot_ok_freed:
  assumes "slot_ok i x bytes capacity current job views published" "fs_refs x = 0" "\<not> fs_writing x"
  shows "slot_ok i (x\<lparr>fs_valid := False, fs_len := 0\<rparr>) bytes' capacity' current' job views published'"
proof -
  have "borrowed i views = 0" using assms by (simp add: slot_ok_def)
  then show ?thesis using assms not_borrowed [of i views "x\<lparr>fs_valid := False, fs_len := 0\<rparr>" bytes']
    by (auto simp: slot_ok_def area_ok_def owns_def)
qed

lemma slot_ok_current:
  "slot_ok i x bytes capacity current job views published \<Longrightarrow> fs_valid x \<longrightarrow> fs_refs x \<noteq> 0 \<or> current' = Some i \<Longrightarrow>
   set published \<subseteq> set published' \<Longrightarrow> slot_ok i x bytes capacity current' job views published'"
  by (auto simp: slot_ok_def)

lemma slice_same: "slot t i = slot s i \<Longrightarrow> st_arena t = st_arena s \<Longrightarrow> slice t i = slice s i"
  by (simp add: slice_def arena_of_def)

lemma clear_inv:
  assumes "frame_inv y"
  shows "frame_inv (y\<lparr>sy_store := si_video_frame_store_clear lock (sy_store y)\<rparr>)"
proof (cases "st_lock (sy_store y) \<and> lock")
  case True
  let ?s = "sy_store y"
  define t where "t = si_video_frame_store_clear lock ?s"
  have len: "length (st_slots ?s) = 2" using assms by (simp add: frame_inv_def store_ok_def)
  have t: "st_current t = None" "st_arena t = st_arena ?s" "st_capacity t = st_capacity ?s" "st_lock t" "length (st_slots t) = 2"
    "\<And>i. i < 2 \<Longrightarrow> slot t i = clear_slot (slot ?s i)"
    using True len by (simp_all add: si_video_frame_store_clear_def t_def)
  have "slot_ok i (slot t i) (slice t i) (st_capacity t) None (sy_job y) (sy_views y) (sy_published y)" if i: "i < 2" for i
  proof -
    have ok: "slot_ok i (slot ?s i) (slice ?s i) (st_capacity ?s) (st_current ?s) (sy_job y) (sy_views y) (sy_published y)"
      using assms i by (simp add: frame_inv_def)
    show ?thesis
    proof (cases "fs_refs (slot ?s i) = 0 \<and> \<not> fs_writing (slot ?s i)")
      case True
      then show ?thesis using slot_ok_freed [OF ok] t(6) [OF i] by (simp add: clear_slot_def)
    next
      case False
      then have "slot t i = slot ?s i" using t(6) [OF i] by (auto simp: clear_slot_def)
      moreover have "fs_valid (slot ?s i) \<longrightarrow> fs_refs (slot ?s i) \<noteq> 0" using False ok by (auto simp: slot_ok_def)
      ultimately show ?thesis using slot_ok_current [OF ok, of None "sy_published y"] slice_same [of t i ?s] t(2,3) by simp
    qed
  qed
  moreover have "apart (slot t 0) (slot t 1)"
    using assms t(6) [of 0] t(6) [of 1] by (auto simp: frame_inv_def store_ok_def apart_def clear_slot_def owns_def split: if_splits)
  ultimately show ?thesis using assms t unfolding t_def [symmetric] by (simp add: frame_inv_def store_ok_def arena_of_def)
qed (use assms in \<open>auto simp: si_video_frame_store_clear_def\<close>)

lemma init_inv:
  assumes "frame_inv y" "\<And>bytes. memory = Some bytes \<Longrightarrow> length bytes = capacity"
  shows "frame_inv (y\<lparr>sy_store := snd (si_video_frame_store_init mutex memory capacity (sy_store y))\<rparr>)"
proof (cases "st_arena (sy_store y)")
  case None
  let ?s = "sy_store y" and ?t = "snd (si_video_frame_store_init mutex memory capacity (sy_store y))"
  have c0: "st_capacity ?s = 0" using assms(1) None by (simp add: frame_inv_def store_ok_def arena_of_def)
  have ok: "slot_ok i (slot ?s i) (slice ?s i) (st_capacity ?s) (st_current ?s) (sy_job y) (sy_views y) (sy_published y)" if "i < 2" for i
    using assms(1) that by (simp add: frame_inv_def)
  have un: "\<not> owns (slot ?s i)" if "i < 2" for i using ok [OF that] c0 by (auto simp: slot_ok_def area_ok_def)
  then have cur: "st_current ?s = None" using assms(1) by (cases "st_current ?s") (auto simp: frame_inv_def store_ok_def owns_def)
  have z: "\<not> owns (slot initial_store i)" "fs_refs (slot initial_store i) = 0" if "i < 2" for i
    using that by (simp_all add: initial_store_def SI_VIDEO_FRAME_STORE_SLOTS_def zero_slot_def owns_def)
  have r: "fs_refs (slot ?s i) = 0" if "i < 2" for i using ok [OF that] un [OF that] by (auto simp: slot_ok_def owns_def)
  define t where "t = ?t"
  have "t \<in> {?s, ?s\<lparr>st_lock := False\<rparr>, initial_store, ?s\<lparr>st_lock := True, st_arena := memory, st_capacity := capacity, st_generation := 1\<rparr>}"
    using None by (simp add: t_def si_video_frame_store_init_def split: option.splits)
  then have m: "\<not> owns (slot t i)" "fs_refs (slot t i) = 0" "st_current t = None" "length (st_slots t) = 2" if "i < 2" for i
    using un [OF that] z [OF that] r [OF that] cur assms(1)
    by (auto simp: frame_inv_def store_ok_def initial_store_def SI_VIDEO_FRAME_STORE_SLOTS_def)
  have a: "length (arena_of t) = st_capacity t" "st_arena t \<noteq> None \<longrightarrow> st_lock t"
    using None c0 assms(2) by (auto simp: t_def si_video_frame_store_init_def arena_of_def initial_store_def split: option.splits)
  have "slot_ok i (slot t i) (slice t i) (st_capacity t) (st_current t) (sy_job y) (sy_views y) (sy_published y)" if "i < 2" for i
    using slot_ok_unowned [OF ok [OF that] un [OF that] m(1) [OF that]] m(2) [OF that] r [OF that] by simp
  then have "frame_inv (y\<lparr>sy_store := t\<rparr>)" using assms(1) m [of 0] a by (simp add: frame_inv_def store_ok_def apart_def)
  then show ?thesis by (simp add: t_def)
qed (use assms in \<open>simp add: si_video_frame_store_init_def\<close>)

section \<open>Publication\<close>

lemma slot_ok_job:
  "slot_ok i x bytes capacity current job views published \<Longrightarrow> \<not> fs_writing x \<Longrightarrow> \<not> job_on i job' \<Longrightarrow>
   slot_ok i x bytes capacity current job' views published"
  by (simp add: slot_ok_def)

lemma put_slot_simps [simp]:
  "st_current (put_slot i x s) = st_current s" "st_arena (put_slot i x s) = st_arena s" "st_capacity (put_slot i x s) = st_capacity s"
  "st_lock (put_slot i x s) = st_lock s" "st_generation (put_slot i x s) = st_generation s" "length (st_slots (put_slot i x s)) = length (st_slots s)"
  "st_next_frame_id (put_slot i x s) = st_next_frame_id s"
  by (simp_all add: put_slot_def)

lemma slot_put: "i < length (st_slots s) \<Longrightarrow> slot (put_slot i x s) j = (if j = i then x else slot s j)"
  by (simp add: put_slot_def)

lemma apart_put:
  assumes "apart (slot s 0) (slot s 1)" "i < 2" "length (st_slots s) = 2"
    "owns x \<Longrightarrow> owns (slot s i) \<and> fs_offset x = fs_offset (slot s i) \<and> fs_len x = fs_len (slot s i)"
  shows "apart (slot (put_slot i x s) 0) (slot (put_slot i x s) 1)"
proof -
  consider "i = 0" | "i = 1" using assms(2) by (auto simp: less_2_cases_iff)
  then show ?thesis using assms by cases (auto simp: apart_def slot_put)
qed

lemma owns_occupies:
  assumes "frame_inv y" "i < 2" "owns (slot (sy_store y) i)"
  shows "slot_occupies_arena_locked i (sy_store y)"
proof -
  have "slot_ok i (slot (sy_store y) i) (slice (sy_store y) i) (st_capacity (sy_store y)) (st_current (sy_store y)) (sy_job y) (sy_views y) (sy_published y)"
    using assms by (simp add: frame_inv_def)
  moreover have "st_current (sy_store y) = Some i \<Longrightarrow> fs_generation (slot (sy_store y) i) = st_generation (sy_store y)"
    using assms by (simp add: frame_inv_def store_ok_def)
  ultimately show ?thesis using assms(3) by (auto simp: slot_occupies_arena_locked_def slot_ok_def owns_def Let_def word_gt_0)
qed

lemma select_candidates_Some:
  "select_candidates len cs s = Some (i, offset) \<Longrightarrow>
   i \<in> set cs \<and> fs_refs (slot s i) = 0 \<and> layout_slot_locked i len s = Some offset"
  by (induction cs) (auto simp: Let_def split: if_splits option.splits)

lemma select_Some:
  assumes "select_write_slot_locked len s = Some (i, offset)" "\<forall>c. st_current s = Some c \<longrightarrow> c < 2"
  shows "i < 2" "\<not> fs_writing (slot s 0)" "\<not> fs_writing (slot s 1)" "fs_refs (slot s i) = 0" "layout_slot_locked i len s = Some offset"
proof -
  have n: "\<not> fs_writing (slot s 0)" "\<not> fs_writing (slot s 1)"
    using assms(1) by (simp_all add: select_write_slot_locked_def split: if_splits)
  obtain cs where c: "select_candidates len cs s = Some (i, offset)" "set cs \<subseteq> {0, 1}"
  proof (cases "st_current s")
    case None
    then show thesis using that [of "[0, 1]"] assms(1) n by (simp add: select_write_slot_locked_def del: select_candidates.simps)
  next
    case (Some c)
    then have "set [1 - c, c] \<subseteq> {0, 1}" using assms(2) by (auto simp: less_2_cases_iff)
    then show thesis using that [of "[1 - c, c]"] assms(1) n Some by (simp add: select_write_slot_locked_def del: select_candidates.simps)
  qed
  have "i \<in> {0, 1}" using select_candidates_Some [OF c(1)] c(2) by blast
  then show "i < 2" by auto
  show "\<not> fs_writing (slot s 0)" "\<not> fs_writing (slot s 1)" using n by simp_all
  show "fs_refs (slot s i) = 0" "layout_slot_locked i len s = Some offset" using select_candidates_Some [OF c(1)] by simp_all
qed

lemma layout_apart:
  assumes "layout_slot_locked i len s = Some offset" "i < 2" "owns (slot s (1 - i)) \<longrightarrow> slot_occupies_arena_locked (1 - i) s"
  shows "offset + len \<le> st_capacity s"
    "owns (slot s (1 - i)) \<Longrightarrow> if i = 0 then offset + len \<le> fs_offset (slot s 1) else fs_offset (slot s 0) + fs_len (slot s 0) \<le> offset"
  using assms by (auto simp: layout_slot_locked_def Let_def less_2_cases_iff split: if_splits)

lemma inv_slot:
  "frame_inv y \<Longrightarrow> i < 2 \<Longrightarrow> slot_ok i (slot (sy_store y) i) (slice (sy_store y) i) (st_capacity (sy_store y)) (st_current (sy_store y)) (sy_job y)
     (sy_views y) (sy_published y)"
  by (simp add: frame_inv_def)

lemma inv_intro:
  assumes "i < 2" "j < 2" "j \<noteq> i" "store_ok (sy_store y) (sy_published y)" "clients_ok (sy_job y) (sy_views y)"
    "slot_ok i (slot (sy_store y) i) (slice (sy_store y) i) (st_capacity (sy_store y)) (st_current (sy_store y)) (sy_job y) (sy_views y) (sy_published y)"
    "slot_ok j (slot (sy_store y) j) (slice (sy_store y) j) (st_capacity (sy_store y)) (st_current (sy_store y)) (sy_job y) (sy_views y) (sy_published y)"
  shows "frame_inv y"
  using assms by (auto simp: frame_inv_def less_2_cases_iff)

lemma rival_slot: "i < 2 \<Longrightarrow> 1 - i < (2 :: nat)" "i < 2 \<Longrightarrow> 1 - i \<noteq> (i :: nat)" "i < 2 \<Longrightarrow> j < 2 \<Longrightarrow> j \<noteq> i \<Longrightarrow> j = (1 - i :: nat)"
  by presburger+

lemma not_job: "slot_ok i x bytes capacity current job views published \<Longrightarrow> \<not> fs_writing x \<Longrightarrow> \<not> job_on i job"
  by (simp add: slot_ok_def)

lemma reserve_inv:
  assumes "frame_inv y"
  shows "frame_inv (frame_step y (Fs_Reserve lock data))"
proof (cases "fst (snd (publish_reserve lock data (sy_store y)))")
  case None
  then have "snd (snd (publish_reserve lock data (sy_store y))) = sy_store y"
    by (auto simp: publish_reserve_def Let_def split: option.splits if_splits prod.splits)
  then show ?thesis using assms None by (auto simp: frame_step_def split: prod.splits option.splits)
next
  case (Some p)
  let ?s = "sy_store y"
  obtain bytes i offset where r: "data = Some bytes" "bytes \<noteq> []" "st_arena ?s \<noteq> None" "length bytes \<le> st_capacity ?s"
    "select_write_slot_locked (length bytes) ?s = Some (i, offset)"
    using Some by (auto simp: publish_reserve_def Let_def split: option.splits if_splits prod.splits)
  have cur: "c < 2" "fs_valid (slot ?s c)" if "st_current ?s = Some c" for c using assms that by (simp_all add: frame_inv_def store_ok_def)
  have "\<forall>c. st_current ?s = Some c \<longrightarrow> c < 2" using cur by blast
  note sel = select_Some [OF r(5) this]
  note j = rival_slot(1,2) [OF sel(1)]
  have len: "length (st_slots ?s) = 2" using assms by (simp add: frame_inv_def store_ok_def)
  define x where "x = (slot ?s i)\<lparr>fs_valid := False, fs_writing := True, fs_offset := offset, fs_data := offset, fs_len := length bytes\<rparr>"
  define c where "c = (if st_current ?s = Some i then None else st_current ?s)"
  define p where "p = \<lparr>pb_target = i, pb_generation = st_generation ?s, pb_bytes = bytes, pb_done = 0\<rparr>"
  define t where "t = (put_slot i x ?s)\<lparr>st_current := c\<rparr>"
  have st: "frame_step y (Fs_Reserve lock data) = y\<lparr>sy_store := t, sy_job := Some p\<rparr>"
    using Some r by (auto simp: frame_step_def publish_reserve_def t_def p_def x_def c_def put_slot_def Let_def split: if_splits)
  have sl: "slot t i = x" "slot t (1 - i) = slot ?s (1 - i)" using sel(1) len j(2) by (simp_all add: t_def put_slot_def)
  have oth: "slot_ok (1 - i) (slot ?s (1 - i)) (slice ?s (1 - i)) (st_capacity ?s) (st_current ?s) (sy_job y) (sy_views y) (sy_published y)"
    by (rule inv_slot [OF assms j(1)])
  have nw: "\<not> fs_writing (slot ?s (1 - i))" "\<not> fs_writing (slot ?s i)" using sel(1-3) by (auto simp: less_2_cases_iff)
  note lay = layout_apart [OF sel(5,1)]
  have occ: "owns (slot ?s (1 - i)) \<longrightarrow> slot_occupies_arena_locked (1 - i) ?s" using owns_occupies [OF assms j(1)] by blast
  have b0: "borrowed i (sy_views y) = 0" using inv_slot [OF assms sel(1)] sel(4) by (simp add: slot_ok_def)
  have "slot_ok i x (slice t i) (st_capacity ?s) c (Some p) (sy_views y) (sy_published y)"
    using lay(1) [OF occ] r(2) sel(4) b0 not_borrowed [OF b0] by (simp add: slot_ok_def area_ok_def x_def job_on_def job_ok_def p_def)
  moreover have "slot_ok (1 - i) (slot ?s (1 - i)) (slice t (1 - i)) (st_capacity ?s) c (Some p) (sy_views y) (sy_published y)"
  proof -
    have "slot_ok (1 - i) (slot ?s (1 - i)) (slice ?s (1 - i)) (st_capacity ?s) c (sy_job y) (sy_views y) (sy_published y)"
      using oth j(2) by (intro slot_ok_current [OF oth]) (auto simp: slot_ok_def c_def)
    moreover have "slice t (1 - i) = slice ?s (1 - i)" by (rule slice_same [OF sl(2)]) (simp add: t_def)
    moreover have "\<not> job_on (1 - i) (Some p)" using j(2) by (simp add: job_on_def p_def)
    ultimately show ?thesis using slot_ok_job nw(1) by simp
  qed
  moreover have "apart (slot t 0) (slot t 1)"
    using lay(2) [OF occ] sl sel(1) by (auto simp: apart_def x_def less_2_cases_iff)
  moreover have "st_current t = Some d \<longrightarrow> d < 2 \<and> fs_valid (slot t d) \<and> fs_generation (slot t d) = st_generation t \<and>
      sy_published y \<noteq> [] \<and> last (sy_published y) = (fs_frame_id (slot t d), slice t d)" for d
  proof
    assume "st_current t = Some d"
    then have d: "st_current ?s = Some d" "d \<noteq> i" by (auto simp: t_def c_def split: if_splits)
    then have "slot t d = slot ?s d" using sl rival_slot(3) [OF sel(1) cur(1)] by auto
    moreover have "slice t d = slice ?s d" by (rule slice_same [OF calculation]) (simp add: t_def)
    ultimately show "d < 2 \<and> fs_valid (slot t d) \<and> fs_generation (slot t d) = st_generation t \<and>
      sy_published y \<noteq> [] \<and> last (sy_published y) = (fs_frame_id (slot t d), slice t d)"
      using assms d(1) by (simp add: frame_inv_def store_ok_def t_def)
  qed
  ultimately show ?thesis unfolding st using assms sl sel(1) len
    by (intro inv_intro [OF sel(1) j]) (auto simp: frame_inv_def store_ok_def clients_ok_def t_def p_def arena_of_def)
qed

text \<open>A byte written into the area of one slot leaves the other one alone.\<close>

lemma slice_length:
  assumes "frame_inv y" "i < 2" "owns (slot (sy_store y) i)"
  shows "length (slice (sy_store y) i) = fs_len (slot (sy_store y) i)"
proof -
  have "area_ok (st_capacity (sy_store y)) (slot (sy_store y) i)" using inv_slot [OF assms(1,2)] by (simp add: slot_ok_def)
  moreover have "length (arena_of (sy_store y)) = st_capacity (sy_store y)" using assms(1) by (simp add: frame_inv_def store_ok_def)
  ultimately show ?thesis using assms(3) by (auto simp: area_ok_def slice_def)
qed

lemma slice_write_other:
  assumes "frame_inv y" "i < 2" "j < 2" "i \<noteq> j" "owns (slot (sy_store y) i)" "owns (slot (sy_store y) j)" "k < fs_len (slot (sy_store y) i)"
  shows "take (fs_len (slot (sy_store y) j)) (drop (fs_data (slot (sy_store y) j))
      ((arena_of (sy_store y))[fs_data (slot (sy_store y) i) + k := b])) = slice (sy_store y) j"
proof -
  let ?x = "slot (sy_store y) i" and ?z = "slot (sy_store y) j"
  have d: "fs_data ?x = fs_offset ?x" "fs_data ?z = fs_offset ?z"
    using inv_slot [OF assms(1,2)] inv_slot [OF assms(1,3)] assms(5,6) by (simp_all add: slot_ok_def area_ok_def)
  have "apart (slot (sy_store y) 0) (slot (sy_store y) 1)" using assms(1) by (simp add: frame_inv_def store_ok_def)
  then have "fs_offset ?x + k < fs_offset ?z \<or> fs_offset ?z + fs_len ?z \<le> fs_offset ?x + k"
    using assms(2-7) by (auto simp: apart_def less_2_cases_iff)
  then show ?thesis by (rule disjE) (simp_all add: slice_def d drop_update_swap)
qed

lemma copy_inv:
  assumes "frame_inv y"
  shows "frame_inv (frame_step y Fs_Copy)"
proof (cases "\<exists>p. sy_job y = Some p \<and> pb_done p < length (pb_bytes p)")
  case True
  then obtain p where p: "sy_job y = Some p" "pb_done p < length (pb_bytes p)" by blast
  let ?s = "sy_store y" and ?i = "pb_target p" and ?k = "pb_done p"
  have i: "?i < 2" using assms p(1) by (simp add: frame_inv_def clients_ok_def)
  note j = rival_slot(1,2) [OF i]
  note ok = inv_slot [OF assms i]
  have w: "fs_writing (slot ?s ?i)" using ok p(1) by (simp add: slot_ok_def job_on_def)
  then have own: "owns (slot ?s ?i)" and jok: "job_ok (slot ?s ?i) (slice ?s ?i) p" using ok p(1) by (simp_all add: owns_def slot_ok_def)
  define t where "t = ?s\<lparr>st_arena := map_option (\<lambda>a. a[fs_data (slot ?s ?i) + ?k := pb_bytes p ! ?k]) (st_arena ?s)\<rparr>"
  have st: "frame_step y Fs_Copy = y\<lparr>sy_store := t, sy_job := Some (p\<lparr>pb_done := ?k + 1\<rparr>)\<rparr>"
    using p by (simp add: frame_step_def publish_copy_byte_def t_def)
  have ar: "arena_of t = (arena_of ?s)[fs_data (slot ?s ?i) + ?k := pb_bytes p ! ?k]"
    by (simp add: t_def arena_of_def split: option.split)
  have sl: "slice t ?i = (slice ?s ?i)[?k := pb_bytes p ! ?k]"
    by (simp add: slice_def ar) (simp add: t_def drop_update_swap take_update_swap)
  have "job_ok (slot ?s ?i) (slice t ?i) (p\<lparr>pb_done := ?k + 1\<rparr>)"
    using jok p(2) slice_length [OF assms i own] by (simp add: job_ok_def sl take_Suc_conv_app_nth)
  then have "slot_ok ?i (slot t ?i) (slice t ?i) (st_capacity t) (st_current t) (Some (p\<lparr>pb_done := ?k + 1\<rparr>)) (sy_views y) (sy_published y)"
    using ok w p(1) not_borrowed [of ?i "sy_views y"] by (auto simp: slot_ok_def job_on_def t_def)
  moreover have same: "slice t (1 - ?i) = slice ?s (1 - ?i)" if "owns (slot ?s (1 - ?i))"
    using slice_write_other [OF assms i j(1) not_sym [OF j(2)] own that, of ?k] jok p(2) by (simp add: slice_def [of t] ar job_ok_def) (simp add: t_def)
  have "slot_ok (1 - ?i) (slot t (1 - ?i)) (slice t (1 - ?i)) (st_capacity t) (st_current t) (Some (p\<lparr>pb_done := ?k + 1\<rparr>)) (sy_views y) (sy_published y)"
  proof -
    have o: "slot_ok (1 - ?i) (slot ?s (1 - ?i)) (slice t (1 - ?i)) (st_capacity ?s) (st_current ?s) (sy_job y) (sy_views y) (sy_published y)"
      using inv_slot [OF assms j(1)] same slot_ok_unowned [OF inv_slot [OF assms j(1)]] by (cases "owns (slot ?s (1 - ?i))") auto
    have "\<not> fs_writing (slot ?s (1 - ?i))" using inv_slot [OF assms j(1)] p(1) j(2) by (simp add: slot_ok_def job_on_def)
    moreover have "\<not> job_on (1 - ?i) (Some (p\<lparr>pb_done := ?k + 1\<rparr>))" using j(2) by (simp add: job_on_def)
    ultimately show ?thesis using slot_ok_job [OF o] by (simp add: t_def)
  qed
  moreover have "st_current t = Some d \<longrightarrow> d < 2 \<and> fs_valid (slot t d) \<and> fs_generation (slot t d) = st_generation t \<and>
      sy_published y \<noteq> [] \<and> last (sy_published y) = (fs_frame_id (slot t d), slice t d)" for d
  proof
    assume "st_current t = Some d"
    then have d: "d < 2" "fs_valid (slot ?s d)" "fs_generation (slot ?s d) = st_generation ?s" "sy_published y \<noteq> []"
      "last (sy_published y) = (fs_frame_id (slot ?s d), slice ?s d)"
      using assms by (simp_all add: frame_inv_def store_ok_def t_def)
    have "d \<noteq> ?i" using d(2) w ok by (auto simp: slot_ok_def)
    then have "slice t d = slice ?s d" using same d(2) rival_slot(3) [OF i d(1)] by (simp add: owns_def)
    then show "d < 2 \<and> fs_valid (slot t d) \<and> fs_generation (slot t d) = st_generation t \<and>
      sy_published y \<noteq> [] \<and> last (sy_published y) = (fs_frame_id (slot t d), slice t d)" using d by (simp add: t_def)
  qed
  ultimately show ?thesis unfolding st using assms i p(1) ar
    by (intro inv_intro [OF i j]) (auto simp: frame_inv_def store_ok_def clients_ok_def t_def)
qed (use assms in \<open>auto simp: frame_step_def split: option.splits\<close>)

text \<open>The slot of the publication under way.\<close>

lemma job_slot:
  assumes "frame_inv y" "sy_job y = Some p"
  defines "x \<equiv> slot (sy_store y) (pb_target p)"
  shows "pb_target p < 2" "fs_writing x" "owns x" "job_ok x (slice (sy_store y) (pb_target p)) p" "fs_refs x = 0" "borrowed (pb_target p) (sy_views y) = 0"
    "area_ok (st_capacity (sy_store y)) x" "st_current (sy_store y) \<noteq> Some (pb_target p)" "j < 2 \<Longrightarrow> j \<noteq> pb_target p \<Longrightarrow> \<not> fs_writing (slot (sy_store y) j)"
proof -
  show i: "pb_target p < 2" using assms(1,2) by (simp add: frame_inv_def clients_ok_def)
  note ok = inv_slot [OF assms(1) i]
  show w: "fs_writing x" using ok assms(2) by (simp add: slot_ok_def job_on_def x_def)
  show "owns x" "job_ok x (slice (sy_store y) (pb_target p)) p" "area_ok (st_capacity (sy_store y)) x"
    using ok w assms(2) by (simp_all add: owns_def slot_ok_def x_def)
  show r: "fs_refs x = 0" using ok w by (auto simp: slot_ok_def x_def)
  show "borrowed (pb_target p) (sy_views y) = 0" using ok r by (simp add: slot_ok_def x_def)
  have "st_current (sy_store y) = Some (pb_target p) \<Longrightarrow> fs_valid x" using assms(1) by (simp add: frame_inv_def store_ok_def x_def)
  then show "st_current (sy_store y) \<noteq> Some (pb_target p)" using ok w by (auto simp: slot_ok_def x_def)
  show "\<not> fs_writing (slot (sy_store y) j)" if "j < 2" "j \<noteq> pb_target p"
    using inv_slot [OF assms(1) that(1)] that(2) assms(2) by (simp add: slot_ok_def job_on_def)
qed

text \<open>The store was cleared meanwhile: the copy is dropped.\<close>

lemma commit_dropped:
  assumes "frame_inv y" "sy_job y = Some p" "pb_generation p \<noteq> st_generation (sy_store y)"
  shows "frame_inv (y\<lparr>sy_store := snd (snd (publish_commit p (sy_store y))), sy_job := None\<rparr>)"
proof -
  let ?s = "sy_store y" and ?i = "pb_target p"
  note job = job_slot [OF assms(1,2)] and i = job_slot(1) [OF assms(1,2)]
  define j where "j = 1 - ?i"
  have j: "j < 2" "j \<noteq> ?i" using rival_slot(1,2) [OF i] by (simp_all add: j_def)
  have len: "length (st_slots ?s) = 2" and cl: "clients_ok (sy_job y) (sy_views y)" using assms(1) by (simp_all add: frame_inv_def store_ok_def)
  define x where "x = (slot ?s ?i)\<lparr>fs_writing := False, fs_valid := False, fs_len := 0\<rparr>"
  have st: "snd (snd (publish_commit p ?s)) = put_slot ?i x ?s" using assms(3) by (simp add: publish_commit_def x_def Let_def)
  have sl: "slot (put_slot ?i x ?s) ?i = x" "\<And>k. k \<noteq> ?i \<Longrightarrow> slot (put_slot ?i x ?s) k = slot ?s k"
    using slot_put i len by simp_all
  have same: "slice (put_slot ?i x ?s) k = slice ?s k" if "k \<noteq> ?i" for k by (rule slice_same [OF sl(2) [OF that]]) simp
  have "slot_ok ?i x (slice (put_slot ?i x ?s) ?i) (st_capacity ?s) (st_current ?s) None (sy_views y) (sy_published y)"
    using job(5,6) not_borrowed [OF job(6)] by (simp add: slot_ok_def area_ok_def owns_def x_def job_on_def)
  moreover have "slot_ok j (slot ?s j) (slice ?s j) (st_capacity ?s) (st_current ?s) None (sy_views y) (sy_published y)"
    by (rule slot_ok_job [OF inv_slot [OF assms(1) j(1)] job(9) [OF j]]) (simp add: job_on_def)
  moreover have "apart (slot (put_slot ?i x ?s) 0) (slot (put_slot ?i x ?s) 1)"
    using slot_put i len by (auto simp: apart_def owns_def x_def less_2_cases_iff)
  moreover have "store_ok (put_slot ?i x ?s) (sy_published y)"
    using calculation(3) assms(1) job(8) sl(2) same len unfolding frame_inv_def store_ok_def by (auto simp: arena_of_def)
  ultimately show ?thesis unfolding st using cl sl(1) sl(2) [OF j(2)] same [OF j(2)]
    by (intro inv_intro [OF i j]) (simp_all add: clients_ok_def)
qed

text \<open>What becomes of the other slot when a frame is published.\<close>

lemma drop_previous_other:
  assumes "frame_inv y" "sy_job y = Some p" "j < 2" "j \<noteq> pb_target p"
  defines "d \<equiv> drop_previous (pb_target p) (sy_store y)"
  shows "slot_ok j (slot d j) (slice d j) (st_capacity (sy_store y)) (Some (pb_target p)) None (sy_views y) (sy_published y) \<and>
    (owns (slot d j) \<longrightarrow> slot d j = slot (sy_store y) j)"
proof -
  let ?s = "sy_store y" and ?i = "pb_target p"
  note job = job_slot [OF assms(1,2)] and oth = inv_slot [OF assms(1,3)]
  have nw: "\<not> fs_writing (slot ?s j)" by (rule job(9) [OF assms(3,4)])
  have len: "length (st_slots ?s) = 2" using assms(1) by (simp add: frame_inv_def store_ok_def)
  show ?thesis
  proof (cases "st_current ?s = Some j \<and> fs_refs (slot ?s j) = 0")
    case True
    then have "slot d j = (slot ?s j)\<lparr>fs_valid := False, fs_len := 0\<rparr>"
      using assms(3,4) len by (simp add: d_def drop_previous_def slot_put)
    then show ?thesis using slot_ok_job [OF slot_ok_freed [OF oth _ nw]] True nw by (simp add: job_on_def owns_def)
  next
    case False
    have "slot d j = slot ?s j"
    proof (cases "st_current ?s")
      case (Some c)
      then have "c = j" using assms(1,3,4) job(1,8) rival_slot(3) [OF job(1)] by (auto simp: frame_inv_def store_ok_def)
      then show ?thesis using False Some by (simp add: d_def drop_previous_def)
    qed (simp add: d_def drop_previous_def)
    moreover have "slice d j = slice ?s j" by (rule slice_same [OF calculation]) (simp add: d_def drop_previous_def split: option.split)
    moreover have "slot_ok j (slot ?s j) (slice ?s j) (st_capacity ?s) (Some ?i) (sy_job y) (sy_views y) (sy_published y)"
      using False oth by (intro slot_ok_current [OF oth]) (auto simp: slot_ok_def)
    ultimately show ?thesis using slot_ok_job nw by (simp add: job_on_def)
  qed
qed

lemma commit_published:
  assumes "frame_inv y" "sy_job y = Some p" "pb_generation p = st_generation (sy_store y)" "pb_done p = length (pb_bytes p)"
  shows "frame_inv (y\<lparr>sy_store := snd (snd (publish_commit p (sy_store y))), sy_job := None,
    sy_published := sy_published y @ [(fst (snd (publish_commit p (sy_store y))), pb_bytes p)]\<rparr>)"
proof -
  let ?s = "sy_store y" and ?i = "pb_target p"
  note job = job_slot [OF assms(1,2)] and i = job_slot(1) [OF assms(1,2)]
  define j where "j = 1 - ?i"
  have j: "j < 2" "j \<noteq> ?i" using rival_slot(1,2) [OF i] by (simp_all add: j_def)
  have len: "length (st_slots ?s) = 2" "length (arena_of ?s) = st_capacity ?s" "st_arena ?s \<noteq> None \<longrightarrow> st_lock ?s"
    and cl: "clients_ok (sy_job y) (sy_views y)" using assms(1) by (simp_all add: frame_inv_def store_ok_def)
  have bytes: "slice ?s ?i = pb_bytes p" using job(4) assms(4) slice_length [OF assms(1) i job(3)] by (simp add: job_ok_def)
  define d where "d = drop_previous ?i ?s"
  define n where "n = (if st_next_frame_id d + 1 = 0 then 1 else st_next_frame_id d + 1)"
  define x where "x = (slot d ?i)\<lparr>fs_frame_id := n, fs_generation := pb_generation p, fs_valid := True, fs_writing := False\<rparr>"
  define t where "t = (put_slot ?i x d)\<lparr>st_next_frame_id := n, st_current := Some ?i\<rparr>"
  have st: "publish_commit p ?s = (ESP_OK, n, t)" using assms(3) by (simp add: publish_commit_def t_def x_def n_def d_def Let_def)
  have d: "st_arena d = st_arena ?s" "st_capacity d = st_capacity ?s" "st_lock d = st_lock ?s" "length (st_slots d) = 2" "slot d ?i = slot ?s ?i"
    "st_generation d = st_generation ?s"
    using len(1) by (simp_all add: d_def drop_previous_def put_slot_def split: option.splits)
  note dj = drop_previous_other [OF assms(1,2) j, folded d_def]
  have sl: "slot t ?i = x" "slot t j = slot d j" using slot_put [of ?i d] i d(4) j(2) by (simp_all add: t_def put_slot_def)
  have si: "slice t ?i = pb_bytes p" "slice t j = slice d j"
    using bytes sl d by (simp_all add: slice_def arena_of_def t_def x_def)
  have "slot_ok ?i x (slice t ?i) (st_capacity ?s) (Some ?i) None (sy_views y) (sy_published y @ [(n, pb_bytes p)])"
    using job(3,5,6,7) not_borrowed [OF job(6)] d(5) si(1) by (simp add: slot_ok_def area_ok_def owns_def x_def job_on_def)
  moreover have "slot_ok j (slot t j) (slice t j) (st_capacity ?s) (Some ?i) None (sy_views y) (sy_published y @ [(n, pb_bytes p)])"
    unfolding sl(2) si(2) by (rule slot_ok_current [OF conjunct1 [OF dj]]) (use dj in \<open>auto simp: slot_ok_def\<close>)
  moreover have "apart (slot t 0) (slot t 1)"
  proof -
    have a: "apart (slot ?s 0) (slot ?s 1)" using assms(1) by (simp add: frame_inv_def store_ok_def)
    have x: "fs_offset x = fs_offset (slot ?s ?i)" "fs_len x = fs_len (slot ?s ?i)" by (simp_all add: x_def d(5))
    consider "?i = 0" "j = 1" | "?i = 1" "j = 0" using i by (auto simp: j_def less_2_cases_iff)
    then show ?thesis using a job(3) x dj sl by cases (auto simp: apart_def)
  qed
  ultimately show ?thesis using cl len d sl(1) si(1) i assms(3) st
    by (intro inv_intro [OF i j]) (auto simp: clients_ok_def store_ok_def t_def arena_of_def x_def)
qed

lemma commit_inv:
  assumes "frame_inv y"
  shows "frame_inv (frame_step y Fs_Commit)"
proof (cases "\<exists>p. sy_job y = Some p \<and> pb_done p = length (pb_bytes p)")
  case True
  then obtain p where p: "sy_job y = Some p" "pb_done p = length (pb_bytes p)" by blast
  show ?thesis
  proof (cases "pb_generation p = st_generation (sy_store y)")
    case True
    then have "fst (publish_commit p (sy_store y)) = ESP_OK" by (simp add: publish_commit_def Let_def)
    then show ?thesis using commit_published [OF assms p(1) True p(2)] p by (simp add: frame_step_def split_beta)
  next
    case False
    then have "fst (publish_commit p (sy_store y)) \<noteq> ESP_OK" by (simp add: publish_commit_def Let_def)
    then show ?thesis using commit_dropped [OF assms p(1) False] p by (simp add: frame_step_def split_beta)
  qed
qed (use assms in \<open>auto simp: frame_step_def split: option.splits\<close>)

section \<open>Readers\<close>

lemma borrowed_Cons: "borrowed i (w # views) = (if vw_token (fst w) = Some i then Suc (borrowed i views) else borrowed i views)"
  by (cases w) (simp add: borrowed_def)

lemma borrowed_le: "borrowed i views \<le> length views"
  by (simp add: borrowed_def)

lemma borrowed_drop:
  "k < length views \<Longrightarrow> borrowed i views = (if vw_token (fst (views ! k)) = Some i then 1 else 0) + borrowed i (drop_nth k views)"
proof -
  assume k: "k < length views"
  have "views = take k views @ views ! k # drop (Suc k) views" using id_take_nth_drop [OF k] .
  then have "borrowed i views = length (filter (\<lambda>(v, b). vw_token v = Some i) (take k views @ views ! k # drop (Suc k) views))"
    by (simp add: borrowed_def)
  then show ?thesis by (cases "views ! k") (simp add: borrowed_def drop_nth_def)
qed

lemma list_all_drop: "list_all P views \<Longrightarrow> list_all P (drop_nth k views)"
  by (auto simp: list_all_iff drop_nth_def dest: in_set_takeD in_set_dropD)

lemma length_drop_nth: "length (drop_nth k views) \<le> length views"
  by (simp add: drop_nth_def)

lemma acquire_inv:
  assumes "frame_inv y"
  shows "frame_inv (frame_step y (Fs_Acquire lock last_frame_id))"
proof (cases "fst (si_video_frame_store_acquire lock last_frame_id (sy_store y)) = ESP_OK \<and> length (sy_views y) < 2 ^ 32 - 2")
  case True
  let ?s = "sy_store y"
  obtain c where c: "st_current ?s = Some c" using True by (auto simp: si_video_frame_store_acquire_def split: if_splits option.splits)
  define x where "x = (slot ?s c)\<lparr>fs_refs := fs_refs (slot ?s c) + 1\<rparr>"
  define v where "v = \<lparr>vw_data = fs_data (slot ?s c), vw_len = fs_len (slot ?s c), vw_frame_id = fs_frame_id (slot ?s c), vw_token = Some c\<rparr>"
  define t where "t = put_slot c x ?s"
  have r: "si_video_frame_store_acquire lock last_frame_id ?s = (ESP_OK, v, t)"
    using True c by (auto simp: si_video_frame_store_acquire_def x_def v_def t_def Let_def split: if_splits)
  have i: "c < 2" "fs_valid (slot ?s c)" "length (st_slots ?s) = 2" using assms c by (simp_all add: frame_inv_def store_ok_def)
  define j where "j = 1 - c"
  have j: "j < 2" "j \<noteq> c" using rival_slot(1,2) [OF i(1)] by (simp_all add: j_def)
  note ok = inv_slot [OF assms i(1)] and oth = inv_slot [OF assms j(1)]
  have sl: "slot t c = x" "\<And>k. k \<noteq> c \<Longrightarrow> slot t k = slot ?s k" using slot_put i by (simp_all add: t_def)
  have si: "slice t k = slice ?s k" for k
    using sl by (cases "k = c") (simp_all add: slice_def arena_of_def x_def t_def)
  have b: "view_bytes v t = slice ?s c" by (simp add: view_bytes_def v_def slice_def arena_of_def t_def split: option.split)
  have st: "frame_step y (Fs_Acquire lock last_frame_id) = y\<lparr>sy_store := t, sy_views := (v, slice ?s c) # sy_views y\<rparr>"
    using True r b by (simp add: frame_step_def)
  have "borrowed c (sy_views y) < 2 ^ 32 - 2" using borrowed_le [of c "sy_views y"] True by simp
  then have u: "unat (fs_refs (slot ?s c) + 1) = Suc (borrowed c (sy_views y))"
    using ok by (simp add: slot_ok_def unat_word_ariths)
  then have "fs_refs (slot ?s c) + 1 \<noteq> 0" by (metis nat.distinct(1) unat_0)
  then have "slot_ok c x (slice t c) (st_capacity ?s) (st_current ?s) (sy_job y) ((v, slice ?s c) # sy_views y) (sy_published y)"
    using ok i(2) u si by (auto simp: slot_ok_def x_def area_ok_def owns_def shows_slot_def v_def borrowed_Cons list_all_iff)
  moreover have "slot_ok j (slot t j) (slice t j) (st_capacity ?s) (st_current ?s) (sy_job y) ((v, slice ?s c) # sy_views y) (sy_published y)"
    using oth j(2) sl(2) [OF j(2)] si by (auto simp: slot_ok_def shows_slot_def v_def borrowed_Cons)
  moreover have "apart (slot t 0) (slot t 1)"
    unfolding t_def using assms i by (intro apart_put) (auto simp: frame_inv_def store_ok_def owns_def x_def)
  moreover have "st_current t = Some c" "fs_generation x = fs_generation (slot ?s c)" "fs_valid x" "fs_frame_id x = fs_frame_id (slot ?s c)"
    using c i(2) by (simp_all add: t_def x_def)
  moreover have "store_ok t (sy_published y)"
    using assms c sl(1) si i(3) calculation(3-7) by (simp add: frame_inv_def store_ok_def arena_of_def t_def)
  ultimately show ?thesis unfolding st using assms True i(1) sl(1)
    by (intro inv_intro [OF i(1) j]) (auto simp: frame_inv_def clients_ok_def t_def v_def)
qed (use assms in \<open>auto simp: frame_step_def split: prod.splits\<close>)

lemma release_slot:
  assumes "slot_ok i x bytes capacity current job views published" "k < length views" "vw_token (fst (views ! k)) = Some i"
    "current = Some i \<longrightarrow> fs_valid x \<and> fs_generation x = generation"
  defines "x1 \<equiv> x\<lparr>fs_refs := fs_refs x - 1\<rparr>"
  defines "x' \<equiv> if fs_refs x1 = 0 \<and> (current \<noteq> Some i \<or> fs_generation x1 \<noteq> generation \<or> \<not> fs_valid x1) then x1\<lparr>fs_valid := False, fs_len := 0\<rparr> else x1"
  shows "fs_refs x > 0" "slot_ok i x' (if owns x' then bytes else bytes') capacity current job (drop_nth k views) published" "owns x' \<Longrightarrow> x' = x1"
proof -
  have b: "unat (fs_refs x) = Suc (borrowed i (drop_nth k views))" using assms(1-3) borrowed_drop [of k views i] by (simp add: slot_ok_def)
  then have p: "fs_refs x \<noteq> 0" by (metis nat.distinct(1) unat_0)
  then show "fs_refs x > 0" by (simp add: word_gt_0)
  have v: "fs_valid x" "\<not> fs_writing x" using assms(1) p by (auto simp: slot_ok_def)
  have u: "unat (fs_refs x - 1) = borrowed i (drop_nth k views)" using b p by (simp add: unat_sub word_le_nat_alt)
  show "owns x' \<Longrightarrow> x' = x1" using v by (auto simp: x'_def x1_def owns_def split: if_splits)
  show "slot_ok i x' (if owns x' then bytes else bytes') capacity current job (drop_nth k views) published"
  proof (cases "fs_refs x - 1 = 0 \<and> current \<noteq> Some i")
    case True
    then have x': "x' = x1\<lparr>fs_valid := False, fs_len := 0\<rparr>" by (simp add: x'_def x1_def)
    have "borrowed i (drop_nth k views) = 0" using u True by simp
    then show ?thesis using assms(1) v x' True not_borrowed [of i "drop_nth k views" x' bytes'] by (simp add: slot_ok_def area_ok_def owns_def x1_def)
  next
    case False
    then have x': "x' = x1" using assms(4) v by (auto simp: x'_def x1_def)
    have "list_all (shows_slot i x1 bytes) (drop_nth k views)"
      using assms(1) by (intro list_all_drop) (simp add: slot_ok_def list_all_iff shows_slot_def x1_def)
    then show ?thesis using assms(1) v u False x' by (auto simp: slot_ok_def area_ok_def owns_def x1_def)
  qed
qed

lemma release_inv:
  assumes "frame_inv y"
  shows "frame_inv (frame_step y (Fs_Release k))"
proof (cases "k < length (sy_views y)")
  case True
  let ?s = "sy_store y" and ?w = "drop_nth k (sy_views y)"
  have len: "length (st_slots ?s) = 2" "length (arena_of ?s) = st_capacity ?s" "st_arena ?s \<noteq> None \<longrightarrow> st_lock ?s" and cl: "clients_ok (sy_job y) (sy_views y)"
    and cur: "\<forall>c. st_current ?s = Some c \<longrightarrow> c < 2 \<and> fs_valid (slot ?s c) \<and> fs_generation (slot ?s c) = st_generation ?s"
    and ap: "apart (slot ?s 0) (slot ?s 1)"
    using assms by (simp_all add: frame_inv_def store_ok_def)
  obtain i where i: "i < 2" "vw_token (fst (sy_views y ! k)) = Some i" using cl True by (auto simp: clients_ok_def list_all_length)
  define j where "j = 1 - i"
  have j: "j < 2" "j \<noteq> i" using rival_slot(1,2) [OF i(1)] by (simp_all add: j_def)
  define x1 where "x1 = (slot ?s i)\<lparr>fs_refs := fs_refs (slot ?s i) - 1\<rparr>"
  define x where "x = (if fs_refs x1 = 0 \<and> (st_current ?s \<noteq> Some i \<or> fs_generation x1 \<noteq> st_generation ?s \<or> \<not> fs_valid x1)
    then x1\<lparr>fs_valid := False, fs_len := 0\<rparr> else x1)"
  define t where "t = put_slot i x ?s"
  note r = release_slot [OF inv_slot [OF assms i(1)] True i(2), of "st_generation ?s", folded x1_def, folded x_def]
  have r: "fs_refs (slot ?s i) > 0" "owns x \<Longrightarrow> x = x1"
    "\<And>b. slot_ok i x (if owns x then slice ?s i else b) (st_capacity ?s) (st_current ?s) (sy_job y) ?w (sy_published y)"
    using r cur by simp_all
  have "owns (slot ?s i)" using inv_slot [OF assms i(1)] r(1) by (auto simp: slot_ok_def owns_def)
  then have "st_capacity ?s > 0" using inv_slot [OF assms i(1)] by (auto simp: slot_ok_def area_ok_def)
  then have lock: "st_lock ?s" using len by (auto simp: arena_of_def)
  have st: "frame_step y (Fs_Release k) = y\<lparr>sy_store := t, sy_views := ?w\<rparr>"
    using True i r(1) lock
    by (auto simp: frame_step_def si_video_frame_store_release_def t_def x_def x1_def SI_VIDEO_FRAME_STORE_SLOTS_def Let_def)
  have sl: "slot t i = x" "\<And>k. k \<noteq> i \<Longrightarrow> slot t k = slot ?s k" using slot_put i len(1) by (simp_all add: t_def)
  have sj: "slice t k = slice ?s k" if "k \<noteq> i" for k by (rule slice_same [OF sl(2) [OF that]]) (simp add: t_def)
  have si: "slice t i = slice ?s i" if "owns x" using r(2) [OF that] sl(1) by (simp add: slice_def x1_def arena_of_def t_def)
  have "slot_ok i x (slice t i) (st_capacity ?s) (st_current ?s) (sy_job y) ?w (sy_published y)"
    using r(3) [of "slice t i"] si by (cases "owns x") simp_all
  moreover have "slot_ok j (slot ?s j) (slice ?s j) (st_capacity ?s) (st_current ?s) (sy_job y) ?w (sy_published y)"
    using inv_slot [OF assms j(1)] borrowed_drop [OF True, of j] i(2) j(2) list_all_drop by (auto simp: slot_ok_def)
  moreover have "apart (slot t 0) (slot t 1)"
    unfolding t_def by (rule apart_put [OF ap i(1) len(1)]) (use r(2) in \<open>simp add: x1_def owns_def\<close>)
  moreover have "st_current t = Some c \<longrightarrow> c < 2 \<and> fs_valid (slot t c) \<and> fs_generation (slot t c) = st_generation t \<and>
      sy_published y \<noteq> [] \<and> last (sy_published y) = (fs_frame_id (slot t c), slice t c)" for c
  proof
    assume "st_current t = Some c"
    then have c: "st_current ?s = Some c" by (simp add: t_def)
    have "c = i \<Longrightarrow> x = x1" using cur c by (auto simp: x_def x1_def)
    then have "fs_valid (slot t c) = fs_valid (slot ?s c) \<and> fs_generation (slot t c) = fs_generation (slot ?s c) \<and>
        fs_frame_id (slot t c) = fs_frame_id (slot ?s c) \<and> slice t c = slice ?s c"
      using sl sj si cur c by (cases "c = i") (auto simp: x1_def owns_def)
    then show "c < 2 \<and> fs_valid (slot t c) \<and> fs_generation (slot t c) = st_generation t \<and>
      sy_published y \<noteq> [] \<and> last (sy_published y) = (fs_frame_id (slot t c), slice t c)"
      using assms c by (simp add: frame_inv_def store_ok_def t_def)
  qed
  ultimately show ?thesis unfolding st using cl len sl(1) sl(2) [OF j(2)] sj [OF j(2)] lock list_all_drop length_drop_nth [of k "sy_views y"]
    by (intro inv_intro [OF i(1) j]) (auto simp: store_ok_def clients_ok_def t_def arena_of_def)
qed (use assms in \<open>simp add: frame_step_def\<close>)

lemma frame_step_inv: "frame_inv y \<Longrightarrow> frame_inv (frame_step y x)"
proof (cases x)
  case (Fs_Init mutex fill got capacity)
  assume "frame_inv y"
  then show ?thesis unfolding Fs_Init frame_step_def frame_op.case by (rule init_inv) (auto split: if_splits)
next
  case (Fs_Clear lock)
  assume "frame_inv y"
  then show ?thesis unfolding Fs_Clear frame_step_def frame_op.case by (rule clear_inv)
qed (simp_all add: reserve_inv copy_inv commit_inv acquire_inv release_inv)

interpretation frames: invariant_machine frame_step frame_inv
  by unfold_locales (rule frame_step_inv)

section \<open>What readers and the writer get\<close>

lemma frames_reachable: "frame_inv (run_ops frame_step frame_initial ops)"
  by (rule frames.run_inv [OF initial_inv])

lemma view_slice:
  assumes "frame_inv y" "(v, b) \<in> set (sy_views y)"
  shows "view_bytes v (sy_store y) = b" "(vw_frame_id v, b) \<in> set (sy_published y)"
proof -
  obtain i where i: "i < 2" "vw_token v = Some i" using assms by (auto simp: frame_inv_def clients_ok_def list_all_iff)
  note ok = inv_slot [OF assms(1) i(1)]
  have "shows_slot i (slot (sy_store y) i) (slice (sy_store y) i) (v, b)" using ok assms(2) unfolding slot_ok_def list_all_iff by blast
  then have s: "vw_data v = fs_data (slot (sy_store y) i)" "vw_len v = fs_len (slot (sy_store y) i)"
    "vw_frame_id v = fs_frame_id (slot (sy_store y) i)" "b = slice (sy_store y) i" using i(2) by (simp_all add: shows_slot_def)
  then show "view_bytes v (sy_store y) = b" by (simp add: view_bytes_def slice_def arena_of_def split: option.split)
  have "borrowed i (sy_views y) \<noteq> 0" using assms(2) i(2) by (auto simp: borrowed_def filter_empty_conv)
  then have "fs_valid (slot (sy_store y) i)" using ok by (auto simp: slot_ok_def)
  then show "(vw_frame_id v, b) \<in> set (sy_published y)" using ok s by (simp add: slot_ok_def)
qed

text \<open>
  C34: A borrowed frame is whole and stays as it is. After any sequence of steps of the writer, the readers and
  the capture control, with the bytes of the copy interleaved with everything else, every view that has not
  been given back shows the bytes it showed when it was borrowed, and they are a frame that was published
  under the number of the view.
\<close>

theorem frame_views_stable:
  assumes "(v, b) \<in> set (sy_views (run_ops frame_step frame_initial ops))"
  shows "view_bytes v (sy_store (run_ops frame_step frame_initial ops)) = b \<and>
    (vw_frame_id v, b) \<in> set (sy_published (run_ops frame_step frame_initial ops))"
  using view_slice [OF frames_reachable assms] by blast

lemma acquire_latest:
  assumes "frame_inv y" "si_video_frame_store_acquire lock last_frame_id (sy_store y) = (ESP_OK, v, t)"
  shows "sy_published y \<noteq> []" "last (sy_published y) = (vw_frame_id v, view_bytes v t)" "vw_len v = length (view_bytes v t)"
    "view_bytes v t = view_bytes v (sy_store y)"
proof -
  let ?s = "sy_store y"
  obtain c where c: "st_current ?s = Some c" "fs_valid (slot ?s c)" "t = put_slot c ((slot ?s c)\<lparr>fs_refs := fs_refs (slot ?s c) + 1\<rparr>) ?s"
    "v = \<lparr>vw_data = fs_data (slot ?s c), vw_len = fs_len (slot ?s c), vw_frame_id = fs_frame_id (slot ?s c), vw_token = Some c\<rparr>"
    using assms(2) by (auto simp: si_video_frame_store_acquire_def Let_def split: if_splits option.splits)
  have b: "view_bytes v t = slice ?s c" by (simp add: c(3,4) view_bytes_def slice_def arena_of_def split: option.split)
  have i: "c < 2" and h: "sy_published y \<noteq> []" "last (sy_published y) = (fs_frame_id (slot ?s c), slice ?s c)"
    using assms(1) c(1) by (simp_all add: frame_inv_def store_ok_def)
  show "sy_published y \<noteq> []" by (rule h(1))
  show "last (sy_published y) = (vw_frame_id v, view_bytes v t)" using h(2) b c(4) by simp
  show "vw_len v = length (view_bytes v t)" using slice_length [OF assms(1) i] c(2,4) b by (simp add: owns_def)
  show "view_bytes v t = view_bytes v ?s" by (simp add: c(3) view_bytes_def)
qed

text \<open>
  C35: A copy of the current frame is the frame published last. In every reachable state, if the copy reports
  success, then whatever other tasks do while the frame is borrowed the bytes it delivers are exactly those
  of the last publication, with its number and its length; a buffer that is too small is reported with the
  length needed.
\<close>

theorem frame_copy_latest:
  fixes ops later :: "frame_op list" and lock :: bool and last_frame_id :: u32 and require_new :: bool
    and other :: "si_video_frame_store_t \<Rightarrow> si_video_frame_store_t"
  defines "y \<equiv> run_ops frame_step frame_initial ops"
  defines "y1 \<equiv> frame_step y (Fs_Acquire lock (if require_new then last_frame_id else 0xFFFFFFFF))"
  defines "y2 \<equiv> run_ops frame_step y1 later"
  assumes "si_video_frame_store_copy lock (\<lambda>_. sy_store y2) other last_frame_id require_new capacity (sy_store y) = (ret, bytes, n, frame_id, t)"
    "ret = ESP_OK \<or> ret = ESP_ERR_INVALID_SIZE" "length (sy_views y) < 2 ^ 32 - 2" "hd (sy_views y1) \<in> set (sy_views y2)"
  shows "sy_published y \<noteq> [] \<and> n = length (snd (last (sy_published y))) \<and> (ret = ESP_OK \<longleftrightarrow> n \<le> capacity) \<and>
    (ret = ESP_OK \<longrightarrow> last (sy_published y) = (frame_id, bytes))"
proof -
  let ?l = "if require_new then last_frame_id else 0xFFFFFFFF"
  obtain r v u where a: "si_video_frame_store_acquire lock ?l (sy_store y) = (r, v, u)" by (metis prod_cases3)
  have r: "r = ESP_OK"
  proof (rule ccontr)
    assume n: "r \<noteq> ESP_OK"
    have "r \<noteq> ESP_ERR_INVALID_SIZE" using a by (auto simp: si_video_frame_store_acquire_def Let_def split: if_splits option.splits)
    moreover have "ret = r" using assms(4) a n by (simp add: si_video_frame_store_copy_def)
    ultimately show False using assms(5) n by simp
  qed
  have inv: "frame_inv y" unfolding y_def by (rule frames_reachable)
  note l = acquire_latest [OF inv a [unfolded r]]
  have y1: "hd (sy_views y1) = (v, view_bytes v u)" using a r assms(6) by (simp add: y1_def frame_step_def)
  have "frame_inv y2" unfolding y2_def y1_def by (intro frames.run_inv frame_step_inv inv)
  then have "view_bytes v (sy_store y2) = view_bytes v u" using view_slice(1) assms(7) y1 by metis
  then show ?thesis using assms(4) a r l(1-3) by (auto simp: si_video_frame_store_copy_def Let_def split: if_splits)
qed

lemma select_free:
  assumes "frame_inv y" "sy_job y = None" "sy_views y = []" "len \<le> st_capacity (sy_store y)"
  shows "\<exists>r. select_write_slot_locked len (sy_store y) = Some r"
proof -
  let ?s = "sy_store y"
  have f: "\<not> fs_writing (slot ?s i)" "fs_refs (slot ?s i) = 0" if "i < 2" for i
    using inv_slot [OF assms(1) that] assms(2,3) by (simp_all add: slot_ok_def job_on_def borrowed_def unat_eq_0)
  have nw: "\<not> fs_writing (slot ?s 0)" "\<not> fs_writing (slot ?s 1)" using f(1) by simp_all
  have lay: "layout_slot_locked i len ?s \<noteq> None" if "i < 2" "st_current ?s \<noteq> Some (1 - i)" for i
  proof -
    have "\<not> slot_occupies_arena_locked (1 - i) ?s"
      using f [OF rival_slot(1) [OF that(1)]] that(2) by (auto simp: slot_occupies_arena_locked_def Let_def)
    then show ?thesis using that(1) assms(4) by (simp add: layout_slot_locked_def SI_VIDEO_FRAME_STORE_SLOTS_def Let_def)
  qed
  have one: "select_candidates len (i # cs) ?s \<noteq> None" if "i < 2" "layout_slot_locked i len ?s \<noteq> None \<or> select_candidates len cs ?s \<noteq> None" for i cs
    using f [OF that(1)] that(2) by (auto simp: Let_def split: option.split)
  show ?thesis
  proof (cases "st_current ?s")
    case None
    then have "select_candidates len [0, 1] ?s \<noteq> None" by (intro one) (use lay [of 0] in simp_all)
    then show ?thesis using None nw by (simp add: select_write_slot_locked_def del: select_candidates.simps)
  next
    case (Some c)
    then have c: "c < 2" using assms(1) by (simp add: frame_inv_def store_ok_def)
    have "layout_slot_locked c len ?s \<noteq> None" using lay [OF c] Some rival_slot(2) [OF c] by auto
    then have "select_candidates len [c] ?s \<noteq> None" by (intro one [OF c]) simp
    then have "select_candidates len [1 - c, c] ?s \<noteq> None" by (intro one [OF rival_slot(1) [OF c]]) blast
    then show ?thesis using Some nw by (simp add: select_write_slot_locked_def del: select_candidates.simps)
  qed
qed

lemma copy_run:
  assumes "sy_job y = Some p" "pb_done p + n \<le> length (pb_bytes p)"
  shows "sy_job (run_ops frame_step y (replicate n Fs_Copy)) = Some (p\<lparr>pb_done := pb_done p + n\<rparr>)"
    "sy_published (run_ops frame_step y (replicate n Fs_Copy)) = sy_published y"
    "st_generation (sy_store (run_ops frame_step y (replicate n Fs_Copy))) = st_generation (sy_store y)"
  using assms by (induction n arbitrary: y p) (simp_all add: frame_step_def publish_copy_byte_def)

text \<open>
  A frame that fits is published. In every reachable state in which no frame is borrowed and none is being
  written, a publication that gets the mutex reserves a slot, copies its bytes and commits, whatever the
  store held before; then the frame is the last of the history and a reader gets exactly its bytes.
\<close>

theorem frame_publish_succeeds:
  fixes ops :: "frame_op list" and bytes :: "u8 list"
  defines "y \<equiv> run_ops frame_step frame_initial ops"
  assumes "sy_job y = None" "sy_views y = []" "st_arena (sy_store y) \<noteq> None" "bytes \<noteq> []" "length bytes \<le> st_capacity (sy_store y)"
  defines "y' \<equiv> run_ops frame_step y (Fs_Reserve True (Some bytes) # replicate (length bytes) Fs_Copy @ [Fs_Commit])"
  shows "\<exists>frame_id v t. sy_published y' = sy_published y @ [(frame_id, bytes)] \<and>
    si_video_frame_store_acquire True 0xFFFFFFFF (sy_store y') = (ESP_OK, v, t) \<and> view_bytes v t = bytes \<and> vw_frame_id v = frame_id"
proof -
  have inv: "frame_inv y" unfolding y_def by (rule frames_reachable)
  obtain i offset where sel: "select_write_slot_locked (length bytes) (sy_store y) = Some (i, offset)"
    using select_free [OF inv assms(2,3,6)] by fastforce
  have lock: "st_lock (sy_store y)" using inv assms(4) by (simp add: frame_inv_def store_ok_def)
  define y1 where "y1 = frame_step y (Fs_Reserve True (Some bytes))"
  define p where "p = \<lparr>pb_target = i, pb_generation = st_generation (sy_store y), pb_bytes = bytes, pb_done = 0\<rparr>"
  have y1: "sy_job y1 = Some p" "sy_published y1 = sy_published y" "st_generation (sy_store y1) = st_generation (sy_store y)"
    using assms(4-6) sel lock by (auto simp: y1_def frame_step_def publish_reserve_def p_def Let_def put_slot_def)
  define y2 where "y2 = run_ops frame_step y1 (replicate (length bytes) Fs_Copy)"
  have y2: "sy_job y2 = Some (p\<lparr>pb_done := length bytes\<rparr>)" "sy_published y2 = sy_published y" "st_generation (sy_store y2) = st_generation (sy_store y)"
    using copy_run [OF y1(1), of "length bytes"] y1(2,3) by (simp_all add: y2_def p_def)
  have y': "y' = frame_step y2 Fs_Commit" by (simp add: y'_def y2_def y1_def)
  have inv2: "frame_inv y2" unfolding y2_def y1_def by (intro frames.run_inv frame_step_inv inv)
  have inv': "frame_inv y'" unfolding y' by (rule frame_step_inv [OF inv2])
  obtain frame_id s where c: "publish_commit (p\<lparr>pb_done := length bytes\<rparr>) (sy_store y2) = (ESP_OK, frame_id, s)" "st_current s = Some i"
    using y2(3) by (auto simp: publish_commit_def p_def Let_def)
  have yp: "sy_store y' = s" "sy_published y' = sy_published y @ [(frame_id, bytes)]" "sy_job y' = None"
    using c(1) y2(1,2) by (simp_all add: y' frame_step_def p_def)
  have ok: "i < 2" "fs_valid (slot s i)" "fs_generation (slot s i) = st_generation s" using inv' c(2) yp(1) by (auto simp: frame_inv_def store_ok_def)
  note so = inv_slot [OF inv' ok(1), unfolded yp(1)]
  have "area_ok (st_capacity s) (slot s i)" "\<not> fs_writing (slot s i)" using so ok(2) by (simp_all add: slot_ok_def)
  then have n: "fs_len (slot s i) > 0" "\<not> fs_writing (slot s i)" "st_capacity s > 0" using ok(2) by (simp_all add: area_ok_def owns_def)
  have "length (arena_of s) = st_capacity s" "st_arena s \<noteq> None \<longrightarrow> st_lock s" using inv' yp(1) by (simp_all add: frame_inv_def store_ok_def)
  then have "st_lock s" using n(3) by (cases "st_arena s") (simp_all add: arena_of_def)
  then obtain v t where a: "si_video_frame_store_acquire True 0xFFFFFFFF s = (ESP_OK, v, t)"
    using n ok(2,3) c(2) by (simp add: si_video_frame_store_acquire_def Let_def)
  note l = acquire_latest [OF inv', unfolded yp(1), OF a]
  show ?thesis using a l(2) yp by auto
qed

section \<open>Witnesses\<close>

text \<open>A frame is borrowed, and the first byte of the next one is already copied.\<close>

definition ex_frames :: "frame_op list" where
  "ex_frames = [Fs_Init True [0, 0, 0, 0] True 4, Fs_Reserve True (Some [1, 2]), Fs_Copy, Fs_Copy, Fs_Commit, Fs_Acquire True 0xFFFFFFFF,
     Fs_Reserve True (Some [3, 4]), Fs_Copy]"

lemmas frame_eval = frame_step_def si_video_frame_store_init_def publish_reserve_def select_write_slot_locked_def layout_slot_locked_def
  slot_occupies_arena_locked_def publish_copy_byte_def publish_commit_def drop_previous_def si_video_frame_store_acquire_def put_slot_def
  view_bytes_def initial_store_def frame_initial_def zero_slot_def SI_VIDEO_FRAME_STORE_SLOTS_def si_video_frame_store_release_def
  si_video_frame_store_clear_def clear_slot_def

lemma ex_frames_run:
  "sy_views (run_ops frame_step frame_initial ex_frames) = [(\<lparr>vw_data = 0, vw_len = 2, vw_frame_id = 1, vw_token = Some 0\<rparr>, [1, 2])]"
  by (simp add: ex_frames_def frame_eval Let_def)

theorem frame_views_stable_witness:
  "view_bytes \<lparr>vw_data = 0, vw_len = 2, vw_frame_id = 1, vw_token = Some 0\<rparr> (sy_store (run_ops frame_step frame_initial ex_frames)) = [1, 2]"
  using frame_views_stable [of _ _ ex_frames] ex_frames_run by simp

theorem frame_copy_latest_witness:
  "fst (snd (si_video_frame_store_copy True (\<lambda>_. sy_store (run_ops frame_step frame_initial ex_frames)) (\<lambda>s. s) 0 False 8
     (sy_store (run_ops frame_step frame_initial (take 5 ex_frames))))) = [1, 2]"
proof -
  let ?y = "run_ops frame_step frame_initial (take 5 ex_frames)"
  let ?c = "si_video_frame_store_copy True (\<lambda>_. sy_store (run_ops frame_step frame_initial ex_frames)) (\<lambda>s. s) 0 False 8 (sy_store ?y)"
  obtain ret bytes n f t where c: "?c = (ret, bytes, n, f, t)" by (metis prod_cases5)
  have e: "run_ops frame_step (frame_step ?y (Fs_Acquire True (if False then 0 else 0xFFFFFFFF))) (drop 6 ex_frames) =
      run_ops frame_step frame_initial ex_frames"
    by (simp add: ex_frames_def)
  have p: "sy_published ?y = [(1, [1, 2])]" "sy_views ?y = []" by (simp_all add: ex_frames_def frame_eval Let_def)
  have "fst ?c = ESP_OK" by (simp add: ex_frames_def frame_eval si_video_frame_store_copy_def Let_def)
  then have r: "ret = ESP_OK" using c by simp
  have h: "hd (sy_views (frame_step ?y (Fs_Acquire True (if False then 0 else 0xFFFFFFFF)))) \<in> set (sy_views (run_ops frame_step frame_initial ex_frames))"
    unfolding ex_frames_run by (simp add: ex_frames_def frame_eval Let_def)
  show ?thesis
    using frame_copy_latest [where ops = "take 5 ex_frames" and lock = True and require_new = False and last_frame_id = 0
        and later = "drop 6 ex_frames" and capacity = 8 and other = "\<lambda>s. s", unfolded e, OF c _ _ h] r p c by simp
qed

theorem frame_publish_succeeds_witness:
  "last (sy_published (run_ops frame_step frame_initial (take 5 ex_frames @ Fs_Reserve True (Some [5, 6, 7]) # replicate 3 Fs_Copy @ [Fs_Commit]))) =
     (2, [5, 6, 7])"
proof -
  let ?y = "run_ops frame_step frame_initial (take 5 ex_frames)"
  have "sy_job ?y = None" "sy_views ?y = []" "st_arena (sy_store ?y) \<noteq> None" "length [5, 6, 7] \<le> st_capacity (sy_store ?y)" "st_next_frame_id (sy_store ?y) = 1"
    by (simp_all add: ex_frames_def frame_eval Let_def)
  then show ?thesis using frame_publish_succeeds [of "take 5 ex_frames" "[5, 6, 7]"] by (simp add: ex_frames_def frame_eval Let_def numeral_3_eq_3)
qed

end
