(* ===== verification/Hex_Text.thy ===== *)
theory Hex_Text
  imports Prelude
begin

text \<open>Hexadecimal text with a fixed number of digits, as \<^verbatim>\<open>%08lx\<close>, \<^verbatim>\<open>%04lx\<close> and \<^verbatim>\<open>%02x\<close> print values that fit.\<close>

definition hex_digit :: "nat \<Rightarrow> char" where
  "hex_digit n = (if n < 10 then char_of (48 + n) else char_of (87 + n))"

fun hex_fixed :: "nat \<Rightarrow> nat \<Rightarrow> string" where
  "hex_fixed 0 n = []"
| "hex_fixed (Suc k) n = hex_fixed k (n div 16) @ [hex_digit (n mod 16)]"

lemma length_hex_fixed [simp]: "length (hex_fixed k n) = k"
  by (induction k arbitrary: n) simp_all

lemma hex_digit_inj:
  assumes "m < 16" "n < 16"
  shows "hex_digit m = hex_digit n \<longleftrightarrow> m = n"
proof -
  have "inj_on hex_digit (set [0..<16])" by code_simp
  then show ?thesis using assms by (simp add: inj_on_eq_iff)
qed

lemma hex_fixed_inj: "m < 16 ^ k \<Longrightarrow> n < 16 ^ k \<Longrightarrow> hex_fixed k m = hex_fixed k n \<longleftrightarrow> m = n"
proof (induction k arbitrary: m n)
  case (Suc k)
  have "m div 16 < 16 ^ k" "n div 16 < 16 ^ k" using Suc.prems by (auto simp: less_mult_imp_div_less mult.commute)
  then have "hex_fixed (Suc k) m = hex_fixed (Suc k) n \<longleftrightarrow> m div 16 = n div 16 \<and> m mod 16 = n mod 16"
    using Suc.IH by (simp add: hex_digit_inj)
  then show ?case by (metis div_mod_decomp)
qed simp

end
