(* ===== verification/Host_Display.thy ===== *)
theory Host_Display
  imports Contracts Hex_Text
begin

text \<open>
  The display mode of the target host: the validation of a request and the shell commands built from it,
  \<^verbatim>\<open>core/host_display_mode.c\<close>, and the plan that has to be approved before they run,
  \<^verbatim>\<open>application/host_display_manager.c\<close>. The commands run as root on the host, so what matters is that a
  request cannot change their structure, and that only an approved plan gets to them.

  A command builder gets the size of its output buffer, None for no buffer; its result is the code and the text
  left in the buffer. The mutex of the manager is obtained or not, which is an argument.
\<close>

section \<open>Requests\<close>

definition SI_HOST_DISPLAY_CONNECTOR_MAX :: nat where "SI_HOST_DISPLAY_CONNECTOR_MAX = 31"
definition SI_HOST_DISPLAY_PLAN_ID_MAX :: nat where "SI_HOST_DISPLAY_PLAN_ID_MAX = 47"
definition SI_HOST_DISPLAY_MODE_MAX :: nat where "SI_HOST_DISPLAY_MODE_MAX = 63"
definition SI_HOST_DISPLAY_COMMAND_MAX :: nat where "SI_HOST_DISPLAY_COMMAND_MAX = 3072"
definition SI_HOST_DISPLAY_SESSION_ID_MAX :: nat where "SI_HOST_DISPLAY_SESSION_ID_MAX = 31"
definition SI_HOST_DISPLAY_ERROR_MAX :: nat where "SI_HOST_DISPLAY_ERROR_MAX = 127"

lemmas display_consts = SI_HOST_DISPLAY_CONNECTOR_MAX_def SI_HOST_DISPLAY_PLAN_ID_MAX_def SI_HOST_DISPLAY_MODE_MAX_def
  SI_HOST_DISPLAY_COMMAND_MAX_def SI_HOST_DISPLAY_SESSION_ID_MAX_def SI_HOST_DISPLAY_ERROR_MAX_def

datatype si_host_display_result_t =
    SI_HOST_DISPLAY_OK
  | SI_HOST_DISPLAY_INVALID_ARGUMENT
  | SI_HOST_DISPLAY_UNSUPPORTED
  | SI_HOST_DISPLAY_OUTPUT_TOO_SMALL

record si_host_display_request_t =
  dr_connector :: string
  dr_width :: u16
  dr_height :: u16
  dr_refresh_millihz :: u32
  dr_persistent :: bool

definition identifier_char :: "char \<Rightarrow> bool" where
  "identifier_char ch \<longleftrightarrow> isalnum ch \<or> ch = CHR ''-'' \<or> ch = CHR ''_'' \<or> ch = CHR ''.''"

definition safe_identifier :: "string option \<Rightarrow> nat \<Rightarrow> bool" where
  "safe_identifier value max_len \<longleftrightarrow>
     (case value of None \<Rightarrow> False
      | Some v \<Rightarrow> v \<noteq> [] \<and> length v \<le> max_len \<and> isalnum (v ! 0) \<and> list_all identifier_char v)"

text \<open>\<open>written\<close> is the text \<^verbatim>\<open>snprintf\<close> was asked to print.\<close>

definition checked_snprintf :: "nat option \<Rightarrow> string \<Rightarrow> si_host_display_result_t \<times> string" where
  "checked_snprintf out written =
     (case out of None \<Rightarrow> (SI_HOST_DISPLAY_OUTPUT_TOO_SMALL, [])
      | Some out_size \<Rightarrow>
          if out_size = 0 \<or> length written \<ge> out_size then (SI_HOST_DISPLAY_OUTPUT_TOO_SMALL, [])
          else (SI_HOST_DISPLAY_OK, written))"

definition si_host_display_validate_request :: "si_host_display_request_t option \<Rightarrow> si_host_display_result_t" where
  "si_host_display_validate_request request =
     (case request of None \<Rightarrow> SI_HOST_DISPLAY_INVALID_ARGUMENT
      | Some r \<Rightarrow>
          if \<not> safe_identifier (Some (dr_connector r)) SI_HOST_DISPLAY_CONNECTOR_MAX \<or>
             dr_width r < 320 \<or> dr_width r > 7680 \<or> dr_height r < 200 \<or> dr_height r > 4320 \<or>
             dr_refresh_millihz r < 10000 \<or> dr_refresh_millihz r > 240000 \<or> dr_refresh_millihz r mod 1000 \<noteq> 0
          then SI_HOST_DISPLAY_INVALID_ARGUMENT
          else SI_HOST_DISPLAY_OK)"

definition mode_text :: "si_host_display_request_t \<Rightarrow> string" where
  "mode_text r = dr_connector r @ '':'' @ dec_digits (unat (dr_width r)) @ ''x'' @ dec_digits (unat (dr_height r)) @ ''@'' @
     dec_digits (unat (dr_refresh_millihz r div 1000))"

definition si_host_display_format_mode ::
    "si_host_display_request_t option \<Rightarrow> nat option \<Rightarrow> si_host_display_result_t \<times> string" where
  "si_host_display_format_mode request out =
     (if si_host_display_validate_request request \<noteq> SI_HOST_DISPLAY_OK then (SI_HOST_DISPLAY_INVALID_ARGUMENT, [])
      else checked_snprintf out (mode_text (the request)))"

section \<open>Commands\<close>

abbreviation sq :: string where "sq \<equiv> [CHR 0x27]"
abbreviation dq :: string where "dq \<equiv> [CHR 0x22]"
abbreviation bs :: string where "bs \<equiv> [CHR 0x5C]"

definition observe_text :: string where
  "observe_text =
     ''set -eu; printf '' @ sq @ ''schema=exoanchor.host_display.v1'' @ bs @ ''n'' @ sq @ ''; printf '' @ sq @ ''kernel='' @ sq @
     ''; uname -r; printf '' @ sq @ ''cmdline='' @ sq @ ''; cat /proc/cmdline; printf '' @ sq @ ''os_id='' @ sq @
     ''; ( . /etc/os-release 2>/dev/null; printf '' @ sq @ ''%s'' @ bs @ ''n'' @ sq @ '' '' @ dq @ ''${ID:-unknown}'' @ dq @
     '' ) || printf '' @ sq @ ''unknown'' @ bs @ ''n'' @ sq @ ''; printf '' @ sq @ ''fb_virtual_size='' @ sq @
     ''; cat /sys/class/graphics/fb0/virtual_size 2>/dev/null || printf '' @ sq @ ''unavailable'' @ bs @ ''n'' @ sq @
     ''; printf '' @ sq @ ''grub_dropin_support='' @ sq @ ''; test -d /etc/default/grub.d && printf '' @ sq @ ''yes'' @ bs @
     ''n'' @ sq @ '' || printf '' @ sq @ ''no'' @ bs @ ''n'' @ sq @ ''; for d in /sys/class/drm/card*-*; do test -d '' @ dq @
     ''$d'' @ dq @ '' || continue; n=${d##*/}; printf '' @ sq @ ''connector=%s status='' @ sq @ '' '' @ dq @ ''$n'' @ dq @
     ''; cat '' @ dq @ ''$d/status'' @ dq @ '' 2>/dev/null || printf '' @ sq @ ''unknown'' @ bs @ ''n'' @ sq @ ''; printf '' @
     sq @ ''modes[%s]='' @ sq @ '' '' @ dq @ ''$n'' @ dq @ ''; tr '' @ sq @ bs @ ''n'' @ sq @ '' '' @ sq @ '','' @ sq @ '' < '' @
     dq @ ''$d/modes'' @ dq @ '' 2>/dev/null || true; printf '' @ sq @ bs @ ''n'' @ sq @ ''; done''"

definition apply_text :: "string \<Rightarrow> string \<Rightarrow> string" where
  "apply_text plan_id mode =
     ''set -eu; cfg=/etc/default/grub.d/99-exoanchor-display.cfg; bak=/var/lib/exoanchor/display/'' @ plan_id @
     ''; sudo install -d -m 0755 /etc/default/grub.d '' @ dq @ ''$bak'' @ dq @ ''; if sudo test -f '' @ dq @ ''$cfg'' @ dq @
     ''; then sudo cp -a '' @ dq @ ''$cfg'' @ dq @ '' '' @ dq @ ''$bak/previous.cfg'' @ dq @ ''; printf '' @ sq @ ''yes'' @ bs @
     ''n'' @ sq @ '' | sudo tee '' @ dq @ ''$bak/previous_present'' @ dq @ '' >/dev/null; else printf '' @ sq @ ''no'' @ bs @
     ''n'' @ sq @ '' | sudo tee '' @ dq @ ''$bak/previous_present'' @ dq @ '' >/dev/null; fi; printf '' @ sq @ ''%s'' @ bs @
     ''n'' @ sq @ '' '' @ sq @ ''# Managed by ExoAnchor Agent plan '' @ plan_id @ sq @ '' '' @ sq @
     ''GRUB_CMDLINE_LINUX_DEFAULT='' @ dq @ ''${GRUB_CMDLINE_LINUX_DEFAULT} video='' @ mode @ ''e'' @ dq @ sq @
     '' | sudo tee '' @ dq @ ''$cfg'' @ dq @ '' >/dev/null; sudo update-grub; printf '' @ sq @ ''plan_id=%s'' @ bs @
     ''nbackup=%s'' @ bs @ ''nmode=%s'' @ bs @ ''nreboot_required=yes'' @ bs @ ''n'' @ sq @ '' '' @ sq @ plan_id @ sq @ '' '' @
     dq @ ''$bak'' @ dq @ '' '' @ sq @ mode @ sq"

definition verify_text :: "string \<Rightarrow> string \<Rightarrow> string" where
  "verify_text plan_id mode =
     ''set -eu; cfg=/etc/default/grub.d/99-exoanchor-display.cfg; printf '' @ sq @ ''schema=exoanchor.host_display.verify.v1'' @
     bs @ ''nplan_id='' @ plan_id @ bs @ ''nexpected='' @ mode @ bs @ ''n'' @ sq @ ''; printf '' @ sq @ ''config_present='' @
     sq @ ''; test -f '' @ dq @ ''$cfg'' @ dq @ '' && printf '' @ sq @ ''yes'' @ bs @ ''n'' @ sq @ '' || printf '' @ sq @
     ''no'' @ bs @ ''n'' @ sq @ ''; printf '' @ sq @ ''config_token='' @ sq @ ''; grep -F '' @ sq @ ''video='' @ mode @ ''e'' @
     sq @ '' '' @ dq @ ''$cfg'' @ dq @ '' >/dev/null 2>&1 && printf '' @ sq @ ''yes'' @ bs @ ''n'' @ sq @ '' || printf '' @ sq @
     ''no'' @ bs @ ''n'' @ sq @ ''; printf '' @ sq @ ''runtime_token='' @ sq @ ''; grep -F '' @ sq @ ''video='' @ mode @ ''e'' @
     sq @ '' /proc/cmdline >/dev/null 2>&1 && printf '' @ sq @ ''yes'' @ bs @ ''n'' @ sq @ '' || printf '' @ sq @ ''no'' @ bs @
     ''n'' @ sq @ ''; printf '' @ sq @ ''cmdline='' @ sq @ ''; cat /proc/cmdline; printf '' @ sq @ ''fb_virtual_size='' @ sq @
     ''; cat /sys/class/graphics/fb0/virtual_size 2>/dev/null || printf '' @ sq @ ''unavailable'' @ bs @ ''n'' @ sq @
     ''; for d in /sys/class/drm/card*-*; do test -d '' @ dq @ ''$d'' @ dq @ '' || continue; n=${d##*/}; printf '' @ sq @
     ''connector=%s status='' @ sq @ '' '' @ dq @ ''$n'' @ dq @ ''; cat '' @ dq @ ''$d/status'' @ dq @
     '' 2>/dev/null || printf '' @ sq @ ''unknown'' @ bs @ ''n'' @ sq @ ''; done''"

definition rollback_text :: "string \<Rightarrow> string" where
  "rollback_text plan_id =
     ''set -eu; cfg=/etc/default/grub.d/99-exoanchor-display.cfg; bak=/var/lib/exoanchor/display/'' @ plan_id @ ''; test -f '' @
     dq @ ''$bak/previous_present'' @ dq @ ''; if grep -qx yes '' @ dq @ ''$bak/previous_present'' @ dq @
     ''; then sudo test -f '' @ dq @ ''$bak/previous.cfg'' @ dq @ ''; sudo cp -a '' @ dq @ ''$bak/previous.cfg'' @ dq @ '' '' @
     dq @ ''$cfg'' @ dq @ ''; else sudo rm -f '' @ dq @ ''$cfg'' @ dq @ ''; fi; sudo update-grub; printf '' @ sq @ ''plan_id='' @
     plan_id @ bs @ ''nrollback=restored'' @ bs @ ''nreboot_required=yes'' @ bs @ ''n'' @ sq"

definition si_host_display_build_observe_command :: "nat option \<Rightarrow> si_host_display_result_t \<times> string" where
  "si_host_display_build_observe_command out = checked_snprintf out observe_text"

definition si_host_display_build_apply_command ::
    "string option \<Rightarrow> si_host_display_request_t option \<Rightarrow> nat option \<Rightarrow> si_host_display_result_t \<times> string" where
  "si_host_display_build_apply_command plan_id request out =
     (if \<not> safe_identifier plan_id SI_HOST_DISPLAY_PLAN_ID_MAX \<or> si_host_display_validate_request request \<noteq> SI_HOST_DISPLAY_OK
      then (SI_HOST_DISPLAY_INVALID_ARGUMENT, [])
      else if \<not> dr_persistent (the request) then (SI_HOST_DISPLAY_UNSUPPORTED, [])
      else
        let (mode_result, mode) = si_host_display_format_mode request (Some (SI_HOST_DISPLAY_MODE_MAX + 1))
        in if mode_result \<noteq> SI_HOST_DISPLAY_OK then (mode_result, [])
           else checked_snprintf out (apply_text (the plan_id) mode))"

definition si_host_display_build_verify_command ::
    "string option \<Rightarrow> si_host_display_request_t option \<Rightarrow> nat option \<Rightarrow> si_host_display_result_t \<times> string" where
  "si_host_display_build_verify_command plan_id request out =
     (if \<not> safe_identifier plan_id SI_HOST_DISPLAY_PLAN_ID_MAX \<or> si_host_display_validate_request request \<noteq> SI_HOST_DISPLAY_OK
      then (SI_HOST_DISPLAY_INVALID_ARGUMENT, [])
      else
        let (mode_result, mode) = si_host_display_format_mode request (Some (SI_HOST_DISPLAY_MODE_MAX + 1))
        in if mode_result \<noteq> SI_HOST_DISPLAY_OK then (mode_result, [])
           else checked_snprintf out (verify_text (the plan_id) mode))"

definition si_host_display_build_rollback_command :: "string option \<Rightarrow> nat option \<Rightarrow> si_host_display_result_t \<times> string" where
  "si_host_display_build_rollback_command plan_id out =
     (if \<not> safe_identifier plan_id SI_HOST_DISPLAY_PLAN_ID_MAX then (SI_HOST_DISPLAY_INVALID_ARGUMENT, [])
      else checked_snprintf out (rollback_text (the plan_id)))"

definition si_host_display_result_name :: "si_host_display_result_t \<Rightarrow> string" where
  "si_host_display_result_name result =
     (case result of SI_HOST_DISPLAY_OK \<Rightarrow> ''ok'' | SI_HOST_DISPLAY_INVALID_ARGUMENT \<Rightarrow> ''invalid_argument''
      | SI_HOST_DISPLAY_UNSUPPORTED \<Rightarrow> ''unsupported'' | SI_HOST_DISPLAY_OUTPUT_TOO_SMALL \<Rightarrow> ''output_too_small'')"

section \<open>The plan\<close>

datatype si_host_display_state_t =
    SI_HOST_DISPLAY_STATE_EMPTY
  | SI_HOST_DISPLAY_STATE_PLANNED
  | SI_HOST_DISPLAY_STATE_APPROVED
  | SI_HOST_DISPLAY_STATE_APPLYING
  | SI_HOST_DISPLAY_STATE_APPLIED
  | SI_HOST_DISPLAY_STATE_VERIFYING
  | SI_HOST_DISPLAY_STATE_VERIFIED
  | SI_HOST_DISPLAY_STATE_FAILED
  | SI_HOST_DISPLAY_STATE_ROLLING_BACK
  | SI_HOST_DISPLAY_STATE_ROLLED_BACK
  | SI_HOST_DISPLAY_STATE_CANCELLED

record si_host_display_status_t =
  ds_state :: si_host_display_state_t
  ds_approval_required :: bool
  ds_approved :: bool
  ds_reboot_required :: bool
  ds_created_ms :: u32
  ds_updated_ms :: u32
  ds_plan_id :: string
  ds_approved_by_session :: string
  ds_error :: string
  ds_request :: si_host_display_request_t

definition zero_status :: si_host_display_status_t where
  "zero_status = \<lparr>ds_state = SI_HOST_DISPLAY_STATE_EMPTY, ds_approval_required = False, ds_approved = False,
     ds_reboot_required = False, ds_created_ms = 0, ds_updated_ms = 0, ds_plan_id = [], ds_approved_by_session = [],
     ds_error = [], ds_request = \<lparr>dr_connector = [], dr_width = 0, dr_height = 0, dr_refresh_millihz = 0, dr_persistent = False\<rparr>\<rparr>"

text \<open>The file-scope variables.\<close>

record display =
  dm_lock :: bool
  dm_status :: si_host_display_status_t
  dm_plan_seq :: u32

definition display_initial :: display where
  "display_initial = \<lparr>dm_lock = False, dm_status = zero_status, dm_plan_seq = 0\<rparr>"

definition plan_matches_locked :: "string option \<Rightarrow> display \<Rightarrow> bool" where
  "plan_matches_locked plan_id m \<longleftrightarrow>
     c_or_empty plan_id \<noteq> [] \<and> ds_plan_id (dm_status m) \<noteq> [] \<and> c_or_empty plan_id = ds_plan_id (dm_status m)"

definition state_accepts_new_plan :: "si_host_display_state_t \<Rightarrow> bool" where
  "state_accepts_new_plan state \<longleftrightarrow> state = SI_HOST_DISPLAY_STATE_EMPTY \<or> state = SI_HOST_DISPLAY_STATE_CANCELLED \<or>
     state = SI_HOST_DISPLAY_STATE_VERIFIED \<or> state = SI_HOST_DISPLAY_STATE_ROLLED_BACK \<or> state = SI_HOST_DISPLAY_STATE_FAILED"

definition take_lock :: "bool \<Rightarrow> display \<Rightarrow> esp_err_t" where
  "take_lock lock m = (if dm_lock m \<and> lock then ESP_OK else ESP_ERR_TIMEOUT)"

definition transition_begin ::
    "bool \<Rightarrow> u32 \<Rightarrow> string option \<Rightarrow> si_host_display_state_t \<Rightarrow> si_host_display_state_t \<Rightarrow> si_host_display_state_t \<Rightarrow> display \<Rightarrow>
     esp_err_t \<times> display" where
  "transition_begin lock now_ms plan_id from_a from_b next m =
     (if take_lock lock m \<noteq> ESP_OK then (take_lock lock m, m)
      else if \<not> plan_matches_locked plan_id m then (ESP_ERR_NOT_FOUND, m)
      else if ds_state (dm_status m) \<noteq> from_a \<and> ds_state (dm_status m) \<noteq> from_b then (ESP_ERR_INVALID_STATE, m)
      else (ESP_OK, m\<lparr>dm_status := (dm_status m)\<lparr>ds_state := next, ds_updated_ms := now_ms, ds_error := []\<rparr>\<rparr>))"

definition transition_finish ::
    "bool \<Rightarrow> u32 \<Rightarrow> string option \<Rightarrow> si_host_display_state_t \<Rightarrow> si_host_display_state_t \<Rightarrow> bool \<Rightarrow> string option \<Rightarrow> display \<Rightarrow>
     esp_err_t \<times> display" where
  "transition_finish lock now_ms plan_id expected success_state success error m =
     (if take_lock lock m \<noteq> ESP_OK then (take_lock lock m, m)
      else if \<not> plan_matches_locked plan_id m then (ESP_ERR_NOT_FOUND, m)
      else if ds_state (dm_status m) \<noteq> expected then (ESP_ERR_INVALID_STATE, m)
      else (ESP_OK, m\<lparr>dm_status := (dm_status m)\<lparr>ds_state := (if success then success_state else SI_HOST_DISPLAY_STATE_FAILED),
              ds_updated_ms := now_ms,
              ds_error := c_strlcpy (SI_HOST_DISPLAY_ERROR_MAX + 1)
                (if success then [] else case error of None \<Rightarrow> ''operation failed'' | Some e \<Rightarrow> e)\<rparr>\<rparr>))"

definition si_host_display_manager_start :: "bool \<Rightarrow> display \<Rightarrow> esp_err_t \<times> display" where
  "si_host_display_manager_start created m =
     (if dm_lock m then (ESP_OK, m)
      else if \<not> created then (ESP_ERR_NO_MEM, m)
      else (ESP_OK, m\<lparr>dm_lock := True, dm_status := zero_status\<rparr>))"

definition make_plan_id :: "u32 \<Rightarrow> u32 \<Rightarrow> string" where
  "make_plan_id now_ms plan_seq = ''hd-'' @ hex_fixed 8 (unat now_ms) @ ''-'' @ hex_fixed 4 (unat (plan_seq AND 0xFFFF))"

definition si_host_display_plan_create ::
    "bool \<Rightarrow> u32 \<Rightarrow> si_host_display_request_t option \<Rightarrow> display \<Rightarrow> esp_err_t \<times> display" where
  "si_host_display_plan_create lock now_ms request m =
     (if si_host_display_validate_request request \<noteq> SI_HOST_DISPLAY_OK then (ESP_ERR_INVALID_ARG, m)
      else if take_lock lock m \<noteq> ESP_OK then (take_lock lock m, m)
      else if \<not> state_accepts_new_plan (ds_state (dm_status m)) then (ESP_ERR_INVALID_STATE, m)
      else
        let plan_seq = dm_plan_seq m + 1
        in (ESP_OK, m\<lparr>dm_plan_seq := plan_seq,
              dm_status := zero_status\<lparr>ds_state := SI_HOST_DISPLAY_STATE_PLANNED, ds_approval_required := True,
                ds_reboot_required := dr_persistent (the request), ds_created_ms := now_ms, ds_updated_ms := now_ms,
                ds_request := the request,
                ds_plan_id := c_strlcpy (SI_HOST_DISPLAY_PLAN_ID_MAX + 1) (make_plan_id now_ms plan_seq)\<rparr>\<rparr>))"

definition si_host_display_plan_get :: "bool \<Rightarrow> bool \<Rightarrow> display \<Rightarrow> esp_err_t \<times> si_host_display_status_t option" where
  "si_host_display_plan_get out lock m =
     (if \<not> out then (ESP_ERR_INVALID_ARG, None)
      else if take_lock lock m \<noteq> ESP_OK then (take_lock lock m, None)
      else (ESP_OK, Some (dm_status m)))"

definition session_invalid :: "string option \<Rightarrow> bool" where
  "session_invalid session_id \<longleftrightarrow> c_or_empty session_id = [] \<or> length (c_or_empty session_id) > SI_HOST_DISPLAY_SESSION_ID_MAX"

definition si_host_display_plan_approve ::
    "bool \<Rightarrow> u32 \<Rightarrow> string option \<Rightarrow> string option \<Rightarrow> display \<Rightarrow> esp_err_t \<times> display" where
  "si_host_display_plan_approve lock now_ms plan_id session_id m =
     (if session_invalid session_id then (ESP_ERR_INVALID_ARG, m)
      else if take_lock lock m \<noteq> ESP_OK then (take_lock lock m, m)
      else if \<not> plan_matches_locked plan_id m then (ESP_ERR_NOT_FOUND, m)
      else if ds_state (dm_status m) \<noteq> SI_HOST_DISPLAY_STATE_PLANNED then (ESP_ERR_INVALID_STATE, m)
      else (ESP_OK, m\<lparr>dm_status := (dm_status m)\<lparr>ds_state := SI_HOST_DISPLAY_STATE_APPROVED, ds_approved := True,
              ds_updated_ms := now_ms,
              ds_approved_by_session := c_strlcpy (SI_HOST_DISPLAY_SESSION_ID_MAX + 1) (c_or_empty session_id)\<rparr>\<rparr>))"

definition si_host_display_plan_cancel ::
    "bool \<Rightarrow> u32 \<Rightarrow> string option \<Rightarrow> string option \<Rightarrow> display \<Rightarrow> esp_err_t \<times> display" where
  "si_host_display_plan_cancel lock now_ms plan_id session_id m =
     (if session_invalid session_id then (ESP_ERR_INVALID_ARG, m)
      else if take_lock lock m \<noteq> ESP_OK then (take_lock lock m, m)
      else if \<not> plan_matches_locked plan_id m then (ESP_ERR_NOT_FOUND, m)
      else if ds_state (dm_status m) \<noteq> SI_HOST_DISPLAY_STATE_PLANNED \<and> ds_state (dm_status m) \<noteq> SI_HOST_DISPLAY_STATE_APPROVED
      then (ESP_ERR_INVALID_STATE, m)
      else (ESP_OK, m\<lparr>dm_status := (dm_status m)\<lparr>ds_state := SI_HOST_DISPLAY_STATE_CANCELLED, ds_approved := False,
              ds_updated_ms := now_ms,
              ds_approved_by_session := c_strlcpy (SI_HOST_DISPLAY_SESSION_ID_MAX + 1) (c_or_empty session_id)\<rparr>\<rparr>))"

definition si_host_display_plan_begin_apply :: "bool \<Rightarrow> u32 \<Rightarrow> string option \<Rightarrow> display \<Rightarrow> esp_err_t \<times> display" where
  "si_host_display_plan_begin_apply lock now_ms plan_id m =
     transition_begin lock now_ms plan_id SI_HOST_DISPLAY_STATE_APPROVED SI_HOST_DISPLAY_STATE_APPROVED SI_HOST_DISPLAY_STATE_APPLYING m"

definition si_host_display_plan_finish_apply ::
    "bool \<Rightarrow> u32 \<Rightarrow> string option \<Rightarrow> bool \<Rightarrow> string option \<Rightarrow> display \<Rightarrow> esp_err_t \<times> display" where
  "si_host_display_plan_finish_apply lock now_ms plan_id success error m =
     transition_finish lock now_ms plan_id SI_HOST_DISPLAY_STATE_APPLYING SI_HOST_DISPLAY_STATE_APPLIED success error m"

definition si_host_display_plan_begin_verify :: "bool \<Rightarrow> u32 \<Rightarrow> string option \<Rightarrow> display \<Rightarrow> esp_err_t \<times> display" where
  "si_host_display_plan_begin_verify lock now_ms plan_id m =
     transition_begin lock now_ms plan_id SI_HOST_DISPLAY_STATE_APPLIED SI_HOST_DISPLAY_STATE_FAILED SI_HOST_DISPLAY_STATE_VERIFYING m"

definition si_host_display_plan_finish_verify ::
    "bool \<Rightarrow> u32 \<Rightarrow> string option \<Rightarrow> bool \<Rightarrow> string option \<Rightarrow> display \<Rightarrow> esp_err_t \<times> display" where
  "si_host_display_plan_finish_verify lock now_ms plan_id success error m =
     transition_finish lock now_ms plan_id SI_HOST_DISPLAY_STATE_VERIFYING SI_HOST_DISPLAY_STATE_VERIFIED success error m"

definition si_host_display_plan_begin_rollback :: "bool \<Rightarrow> u32 \<Rightarrow> string option \<Rightarrow> display \<Rightarrow> esp_err_t \<times> display" where
  "si_host_display_plan_begin_rollback lock now_ms plan_id m =
     (if take_lock lock m \<noteq> ESP_OK then (take_lock lock m, m)
      else if \<not> plan_matches_locked plan_id m then (ESP_ERR_NOT_FOUND, m)
      else if ds_state (dm_status m) \<noteq> SI_HOST_DISPLAY_STATE_APPLIED \<and> ds_state (dm_status m) \<noteq> SI_HOST_DISPLAY_STATE_VERIFIED \<and>
              ds_state (dm_status m) \<noteq> SI_HOST_DISPLAY_STATE_FAILED
      then (ESP_ERR_INVALID_STATE, m)
      else (ESP_OK, m\<lparr>dm_status := (dm_status m)\<lparr>ds_state := SI_HOST_DISPLAY_STATE_ROLLING_BACK, ds_updated_ms := now_ms, ds_error := []\<rparr>\<rparr>))"

definition si_host_display_plan_finish_rollback ::
    "bool \<Rightarrow> u32 \<Rightarrow> string option \<Rightarrow> bool \<Rightarrow> string option \<Rightarrow> display \<Rightarrow> esp_err_t \<times> display" where
  "si_host_display_plan_finish_rollback lock now_ms plan_id success error m =
     transition_finish lock now_ms plan_id SI_HOST_DISPLAY_STATE_ROLLING_BACK SI_HOST_DISPLAY_STATE_ROLLED_BACK success error m"

definition si_host_display_state_name :: "si_host_display_state_t \<Rightarrow> string" where
  "si_host_display_state_name state =
     (case state of
        SI_HOST_DISPLAY_STATE_EMPTY \<Rightarrow> ''empty'' | SI_HOST_DISPLAY_STATE_PLANNED \<Rightarrow> ''planned''
      | SI_HOST_DISPLAY_STATE_APPROVED \<Rightarrow> ''approved'' | SI_HOST_DISPLAY_STATE_APPLYING \<Rightarrow> ''applying''
      | SI_HOST_DISPLAY_STATE_APPLIED \<Rightarrow> ''applied'' | SI_HOST_DISPLAY_STATE_VERIFYING \<Rightarrow> ''verifying''
      | SI_HOST_DISPLAY_STATE_VERIFIED \<Rightarrow> ''verified'' | SI_HOST_DISPLAY_STATE_FAILED \<Rightarrow> ''failed''
      | SI_HOST_DISPLAY_STATE_ROLLING_BACK \<Rightarrow> ''rolling_back'' | SI_HOST_DISPLAY_STATE_ROLLED_BACK \<Rightarrow> ''rolled_back''
      | SI_HOST_DISPLAY_STATE_CANCELLED \<Rightarrow> ''cancelled'')"

end
