(* ===== verification/Host_Display_Props.thy ===== *)
theory Host_Display_Props
  imports Host_Display
begin

text \<open>
  What holds of the display commands and the plan: no request changes the structure of a command, nothing is
  applied without the approval of a named session, and an approved plan has all its commands.
\<close>

section \<open>Commands\<close>

text \<open>The characters a request can put into a command; all others can mean something to the shell.\<close>

definition harmless :: "char \<Rightarrow> bool" where
  "harmless ch \<longleftrightarrow> identifier_char ch \<or> ch = CHR '':'' \<or> ch = CHR ''@''"

definition shell_structure :: "string \<Rightarrow> string" where
  "shell_structure command = filter (\<lambda>ch. \<not> harmless ch) command"

lemma structure_append: "shell_structure (xs @ ys) = shell_structure xs @ shell_structure ys"
  by (simp add: shell_structure_def)

lemma structure_harmless: "list_all harmless xs \<Longrightarrow> shell_structure xs = []"
  by (simp add: shell_structure_def list_all_iff filter_empty_conv)

lemma digits_harmless: "list_all harmless (dec_digits n)"
  using dec_digits_isdigit by (auto simp: list_all_iff harmless_def identifier_char_def isalnum_def)

lemma identifier_harmless: "safe_identifier (Some v) n \<Longrightarrow> list_all harmless v"
  by (auto simp: safe_identifier_def list_all_iff harmless_def)

lemma validate_ok:
  assumes "si_host_display_validate_request request = SI_HOST_DISPLAY_OK"
  obtains r where "request = Some r" "safe_identifier (Some (dr_connector r)) SI_HOST_DISPLAY_CONNECTOR_MAX" "dr_width r \<le> 7680" "dr_height r \<le> 4320"
    "dr_refresh_millihz r \<le> 240000"
  using assms by (auto simp: si_host_display_validate_request_def not_less split: option.splits if_splits)

lemma validate_Some: "si_host_display_validate_request request = SI_HOST_DISPLAY_OK \<Longrightarrow> \<exists>r. request = Some r"
  by (cases request) (simp_all add: si_host_display_validate_request_def)

lemma identifier_Some: "safe_identifier v n \<Longrightarrow> \<exists>p. v = Some p"
  by (cases v) (simp_all add: safe_identifier_def)

lemma mode_harmless:
  assumes "si_host_display_validate_request (Some r) = SI_HOST_DISPLAY_OK"
  shows "list_all harmless (mode_text r)"
proof -
  have "list_all harmless (dr_connector r)" using validate_ok [OF assms] identifier_harmless by blast
  then show ?thesis using digits_harmless by (simp add: mode_text_def harmless_def identifier_char_def isalnum_def isalpha_def islower_def)
qed

lemma length_digits: "n < 10 ^ Suc k \<Longrightarrow> length (dec_digits n) \<le> Suc k"
proof (induction k arbitrary: n)
  case 0
  then show ?case by (simp add: dec_digits.simps [of n])
next
  case (Suc k)
  have "length (dec_digits (n div 10)) \<le> Suc k" by (rule Suc.IH) (use Suc.prems in simp)
  then show ?case by (simp add: dec_digits.simps [of n])
qed

lemma mode_length:
  assumes "si_host_display_validate_request (Some r) = SI_HOST_DISPLAY_OK"
  shows "length (mode_text r) \<le> 45"
proof -
  obtain "safe_identifier (Some (dr_connector r)) SI_HOST_DISPLAY_CONNECTOR_MAX" "dr_width r \<le> 7680" "dr_height r \<le> 4320" "dr_refresh_millihz r \<le> 240000"
    using validate_ok [OF assms] by blast
  then have "length (dr_connector r) \<le> 31" "unat (dr_width r) < 10 ^ Suc 3" "unat (dr_height r) < 10 ^ Suc 3" "unat (dr_refresh_millihz r div 1000) < 10 ^ Suc 2"
    by (simp_all add: safe_identifier_def display_consts word_le_nat_alt unat_div)
  then show ?thesis using length_digits [of "unat (dr_width r)" 3] length_digits [of "unat (dr_height r)" 3]
      length_digits [of "unat (dr_refresh_millihz r div 1000)" 2]
    by (simp add: mode_text_def)
qed

lemma format_ok:
  assumes "si_host_display_validate_request (Some r) = SI_HOST_DISPLAY_OK"
  shows "si_host_display_format_mode (Some r) (Some (SI_HOST_DISPLAY_MODE_MAX + 1)) = (SI_HOST_DISPLAY_OK, mode_text r)"
  using assms mode_length [OF assms] by (simp add: si_host_display_format_mode_def checked_snprintf_def display_consts)

lemma structures:
  assumes "list_all harmless p" "list_all harmless m"
  shows "shell_structure (apply_text p m) = shell_structure (apply_text [] [])"
    "shell_structure (verify_text p m) = shell_structure (verify_text [] [])"
    "shell_structure (rollback_text p) = shell_structure (rollback_text [])"
  using structure_harmless [OF assms(1)] structure_harmless [OF assms(2)]
  by (simp_all only: apply_text_def verify_text_def rollback_text_def structure_append append_Nil)

lemma snprintf_ok: "checked_snprintf out text = (SI_HOST_DISPLAY_OK, c) \<Longrightarrow> c = text"
  by (auto simp: checked_snprintf_def split: option.splits if_splits)

lemma apply_ok:
  assumes "si_host_display_build_apply_command plan_id request out = (SI_HOST_DISPLAY_OK, c)"
  obtains p r where "plan_id = Some p" "request = Some r" "list_all harmless p" "list_all harmless (mode_text r)" "c = apply_text p (mode_text r)"
proof -
  have v: "safe_identifier plan_id SI_HOST_DISPLAY_PLAN_ID_MAX" "si_host_display_validate_request request = SI_HOST_DISPLAY_OK"
    using assms by (auto simp: si_host_display_build_apply_command_def split: if_splits)
  obtain p r where pr: "plan_id = Some p" "request = Some r" using identifier_Some [OF v(1)] validate_Some [OF v(2)] by blast
  have "checked_snprintf out (apply_text p (mode_text r)) = (SI_HOST_DISPLAY_OK, c)"
    using assms v format_ok [of r] pr by (simp add: si_host_display_build_apply_command_def split: if_splits)
  then show thesis using that [OF pr] identifier_harmless v mode_harmless pr snprintf_ok by blast
qed

lemma verify_ok:
  assumes "si_host_display_build_verify_command plan_id request out = (SI_HOST_DISPLAY_OK, c)"
  obtains p r where "plan_id = Some p" "request = Some r" "list_all harmless p" "list_all harmless (mode_text r)" "c = verify_text p (mode_text r)"
proof -
  have v: "safe_identifier plan_id SI_HOST_DISPLAY_PLAN_ID_MAX" "si_host_display_validate_request request = SI_HOST_DISPLAY_OK"
    using assms by (auto simp: si_host_display_build_verify_command_def split: if_splits)
  obtain p r where pr: "plan_id = Some p" "request = Some r" using identifier_Some [OF v(1)] validate_Some [OF v(2)] by blast
  have "checked_snprintf out (verify_text p (mode_text r)) = (SI_HOST_DISPLAY_OK, c)"
    using assms v format_ok [of r] pr by (simp add: si_host_display_build_verify_command_def split: if_splits)
  then show thesis using that [OF pr] identifier_harmless v mode_harmless pr snprintf_ok by blast
qed

lemma rollback_ok:
  assumes "si_host_display_build_rollback_command plan_id out = (SI_HOST_DISPLAY_OK, c)"
  obtains p where "plan_id = Some p" "list_all harmless p" "c = rollback_text p"
proof -
  have v: "safe_identifier plan_id SI_HOST_DISPLAY_PLAN_ID_MAX"
    using assms by (auto simp: si_host_display_build_rollback_command_def split: if_splits)
  obtain p where p: "plan_id = Some p" using identifier_Some [OF v] by blast
  have "checked_snprintf out (rollback_text p) = (SI_HOST_DISPLAY_OK, c)" using assms v p by (simp add: si_host_display_build_rollback_command_def)
  then show thesis using that p identifier_harmless v snprintf_ok by blast
qed

text \<open>
  C36: A display request cannot inject anything into the commands that run as root on the host. Whatever plan
  and mode are asked for, the characters of an accepted command that can mean something to the shell (quotes,
  separators, expansions, redirections, blanks) are those of the fixed text, in the same order.
\<close>

theorem display_no_injection:
  "(si_host_display_build_apply_command plan_id request out = (SI_HOST_DISPLAY_OK, c) \<longrightarrow> shell_structure c = shell_structure (apply_text [] [])) \<and>
   (si_host_display_build_verify_command plan_id request out = (SI_HOST_DISPLAY_OK, c) \<longrightarrow> shell_structure c = shell_structure (verify_text [] [])) \<and>
   (si_host_display_build_rollback_command plan_id out = (SI_HOST_DISPLAY_OK, c) \<longrightarrow> shell_structure c = shell_structure (rollback_text []))"
proof (intro conjI impI)
  assume "si_host_display_build_apply_command plan_id request out = (SI_HOST_DISPLAY_OK, c)"
  then show "shell_structure c = shell_structure (apply_text [] [])" using structures(1) by (elim apply_ok) blast
next
  assume "si_host_display_build_verify_command plan_id request out = (SI_HOST_DISPLAY_OK, c)"
  then show "shell_structure c = shell_structure (verify_text [] [])" using structures(2) by (elim verify_ok) blast
next
  assume "si_host_display_build_rollback_command plan_id out = (SI_HOST_DISPLAY_OK, c)"
  then show "shell_structure c = shell_structure (rollback_text [])" using structures(3) by (elim rollback_ok) blast
qed

section \<open>The plan\<close>

datatype display_op =
    Display_Start bool
  | Display_Create bool u32 "si_host_display_request_t option"
  | Display_Approve bool u32 "string option" "string option"
  | Display_Cancel bool u32 "string option" "string option"
  | Display_Begin_Apply bool u32 "string option"
  | Display_Finish_Apply bool u32 "string option" bool "string option"
  | Display_Begin_Verify bool u32 "string option"
  | Display_Finish_Verify bool u32 "string option" bool "string option"
  | Display_Begin_Rollback bool u32 "string option"
  | Display_Finish_Rollback bool u32 "string option" bool "string option"

fun display_step :: "display \<Rightarrow> display_op \<Rightarrow> display" where
  "display_step m (Display_Start created) = snd (si_host_display_manager_start created m)"
| "display_step m (Display_Create lock now r) = snd (si_host_display_plan_create lock now r m)"
| "display_step m (Display_Approve lock now p sid) = snd (si_host_display_plan_approve lock now p sid m)"
| "display_step m (Display_Cancel lock now p sid) = snd (si_host_display_plan_cancel lock now p sid m)"
| "display_step m (Display_Begin_Apply lock now p) = snd (si_host_display_plan_begin_apply lock now p m)"
| "display_step m (Display_Finish_Apply lock now p ok e) = snd (si_host_display_plan_finish_apply lock now p ok e m)"
| "display_step m (Display_Begin_Verify lock now p) = snd (si_host_display_plan_begin_verify lock now p m)"
| "display_step m (Display_Finish_Verify lock now p ok e) = snd (si_host_display_plan_finish_verify lock now p ok e m)"
| "display_step m (Display_Begin_Rollback lock now p) = snd (si_host_display_plan_begin_rollback lock now p m)"
| "display_step m (Display_Finish_Rollback lock now p ok e) = snd (si_host_display_plan_finish_rollback lock now p ok e m)"

definition unapproved_states :: "si_host_display_state_t list" where
  "unapproved_states = [SI_HOST_DISPLAY_STATE_EMPTY, SI_HOST_DISPLAY_STATE_PLANNED, SI_HOST_DISPLAY_STATE_CANCELLED]"

definition display_inv :: "display \<Rightarrow> bool" where
  "display_inv m \<longleftrightarrow> (let s = dm_status m in
     (ds_state s \<noteq> SI_HOST_DISPLAY_STATE_EMPTY \<longrightarrow> si_host_display_validate_request (Some (ds_request s)) = SI_HOST_DISPLAY_OK \<and>
        safe_identifier (Some (ds_plan_id s)) SI_HOST_DISPLAY_PLAN_ID_MAX) \<and>
     (ds_state s \<notin> set unapproved_states \<longrightarrow> ds_approved s \<and> ds_approved_by_session s \<noteq> []))"

lemma hex_digit_identifier: "n < 16 \<Longrightarrow> identifier_char (hex_digit n)"
  by (auto simp: hex_digit_def identifier_char_def isalnum_def isalpha_def isdigit_def islower_def)

lemma hex_fixed_identifier: "list_all identifier_char (hex_fixed k n)"
  by (induction k arbitrary: n) (simp_all add: hex_digit_identifier)

lemma make_plan_id_safe: "safe_identifier (Some (c_strlcpy (SI_HOST_DISPLAY_PLAN_ID_MAX + 1) (make_plan_id now_ms plan_seq))) SI_HOST_DISPLAY_PLAN_ID_MAX"
proof -
  have l: "length (make_plan_id now_ms plan_seq) = 16" by (simp add: make_plan_id_def hex_fixed_identifier)
  have "list_all identifier_char (make_plan_id now_ms plan_seq)"
    by (simp add: make_plan_id_def hex_fixed_identifier) (simp add: identifier_char_def isalnum_def isalpha_def islower_def)
  then show ?thesis using l by (simp add: safe_identifier_def display_consts) (simp add: make_plan_id_def isalnum_def isalpha_def islower_def)
qed

lemma display_inv_step: "display_inv m \<Longrightarrow> display_inv (display_step m x)"
proof (cases x)
  case (Display_Create lock now r)
  assume "display_inv m"
  then show ?thesis using make_plan_id_safe validate_Some [of r]
    by (auto simp: Display_Create si_host_display_plan_create_def display_inv_def unapproved_states_def Let_def)
next
  case (Display_Approve lock now p sid)
  assume "display_inv m"
  then show ?thesis
    by (auto simp: Display_Approve si_host_display_plan_approve_def display_inv_def unapproved_states_def session_invalid_def display_consts Let_def)
qed (auto simp: display_inv_def unapproved_states_def si_host_display_manager_start_def zero_status_def si_host_display_plan_cancel_def
    si_host_display_plan_begin_apply_def si_host_display_plan_finish_apply_def si_host_display_plan_begin_verify_def
    si_host_display_plan_finish_verify_def si_host_display_plan_begin_rollback_def si_host_display_plan_finish_rollback_def
    transition_begin_def transition_finish_def Let_def)

interpretation displays: invariant_machine display_step display_inv
  by unfold_locales (rule display_inv_step)

lemma display_reachable: "display_inv (run_ops display_step display_initial ops)"
  by (rule displays.run_inv) (simp add: display_inv_def display_initial_def zero_status_def unapproved_states_def)

lemma command_lengths:
  assumes "length p \<le> 47" "length m \<le> 63"
  shows "length (apply_text p m) < 3073" "length (verify_text p m) < 3073" "length (rollback_text p) < 3073"
  using assms by (simp_all add: apply_text_def verify_text_def rollback_text_def)

text \<open>
  C37: Nothing is applied without approval, and an approved plan can always be carried out. In every reachable
  state of the plan manager, a plan that is being or has been applied, verified or rolled back was approved by
  a named session; its request is valid; the rollback and the verify command exist and fit into the buffer of
  the caller; and the apply command exists exactly when the request is persistent.
\<close>

theorem display_plan_ready:
  fixes ops :: "display_op list"
  defines "s \<equiv> dm_status (run_ops display_step display_initial ops)"
  assumes "ds_state s \<notin> {SI_HOST_DISPLAY_STATE_EMPTY, SI_HOST_DISPLAY_STATE_PLANNED, SI_HOST_DISPLAY_STATE_CANCELLED}"
  shows "ds_approved s \<and> ds_approved_by_session s \<noteq> [] \<and> si_host_display_validate_request (Some (ds_request s)) = SI_HOST_DISPLAY_OK \<and>
    fst (si_host_display_build_rollback_command (Some (ds_plan_id s)) (Some (SI_HOST_DISPLAY_COMMAND_MAX + 1))) = SI_HOST_DISPLAY_OK \<and>
    fst (si_host_display_build_verify_command (Some (ds_plan_id s)) (Some (ds_request s)) (Some (SI_HOST_DISPLAY_COMMAND_MAX + 1))) = SI_HOST_DISPLAY_OK \<and>
    fst (si_host_display_build_apply_command (Some (ds_plan_id s)) (Some (ds_request s)) (Some (SI_HOST_DISPLAY_COMMAND_MAX + 1))) =
      (if dr_persistent (ds_request s) then SI_HOST_DISPLAY_OK else SI_HOST_DISPLAY_UNSUPPORTED)"
proof -
  have a: "ds_approved s" "ds_approved_by_session s \<noteq> []" "si_host_display_validate_request (Some (ds_request s)) = SI_HOST_DISPLAY_OK"
    "safe_identifier (Some (ds_plan_id s)) SI_HOST_DISPLAY_PLAN_ID_MAX"
    using display_reachable [of ops] assms(2) by (simp_all add: display_inv_def unapproved_states_def s_def Let_def)
  have l: "length (ds_plan_id s) \<le> 47" "length (mode_text (ds_request s)) \<le> 63"
    using a(4) mode_length [OF a(3)] by (simp_all add: safe_identifier_def display_consts)
  note t = command_lengths [OF l]
  have f: "checked_snprintf (Some (SI_HOST_DISPLAY_COMMAND_MAX + 1)) c = (SI_HOST_DISPLAY_OK, c)" if "length c < 3073" for c
    using that by (simp add: checked_snprintf_def display_consts)
  show ?thesis
    using a f [OF t(1)] f [OF t(2)] f [OF t(3)] format_ok [OF a(3)]
    by (simp add: si_host_display_build_rollback_command_def si_host_display_build_verify_command_def si_host_display_build_apply_command_def)
qed

section \<open>Witnesses\<close>

definition ex_request :: si_host_display_request_t where
  "ex_request = \<lparr>dr_connector = ''HDMI-A-1'', dr_width = 1920, dr_height = 1080, dr_refresh_millihz = 60000, dr_persistent = True\<rparr>"

definition ex_display :: "display_op list" where
  "ex_display = [Display_Start True, Display_Create True 1 (Some ex_request), Display_Approve True 2 (Some ''hd-00000001-0001'') (Some ''s1''),
     Display_Begin_Apply True 3 (Some ''hd-00000001-0001'')]"

lemma ex_request_valid: "si_host_display_validate_request (Some ex_request) = SI_HOST_DISPLAY_OK"
  by code_simp

lemma ex_plan_id: "make_plan_id 1 1 = ''hd-00000001-0001''"
  by code_simp

lemma ex_display_state: "ds_state (dm_status (run_ops display_step display_initial ex_display)) = SI_HOST_DISPLAY_STATE_APPLYING"
  using ex_request_valid ex_plan_id
  by (simp add: ex_display_def display_initial_def si_host_display_manager_start_def si_host_display_plan_create_def take_lock_def
      zero_status_def state_accepts_new_plan_def si_host_display_plan_approve_def session_invalid_def display_consts plan_matches_locked_def
      si_host_display_plan_begin_apply_def transition_begin_def)

theorem display_no_injection_witness:
  "fst (si_host_display_build_rollback_command (Some ''hd-1'') (Some 2000)) = SI_HOST_DISPLAY_OK \<and>
   shell_structure (snd (si_host_display_build_rollback_command (Some ''hd-1'') (Some 2000))) = shell_structure (rollback_text [])"
proof -
  have "safe_identifier (Some ''hd-1'') SI_HOST_DISPLAY_PLAN_ID_MAX" by code_simp
  moreover have "length (rollback_text ''hd-1'') < 2000" by (simp add: rollback_text_def)
  ultimately have "si_host_display_build_rollback_command (Some ''hd-1'') (Some 2000) = (SI_HOST_DISPLAY_OK, rollback_text ''hd-1'')"
    by (simp add: si_host_display_build_rollback_command_def checked_snprintf_def)
  then show ?thesis using display_no_injection [of _ None] by simp
qed

theorem display_plan_ready_witness:
  "fst (si_host_display_build_rollback_command (Some (ds_plan_id (dm_status (run_ops display_step display_initial ex_display))))
     (Some (SI_HOST_DISPLAY_COMMAND_MAX + 1))) = SI_HOST_DISPLAY_OK"
  using display_plan_ready [of ex_display] by (simp add: ex_display_state)

end
