(* ===== verification/Text_Utils.thy ===== *)
theory Text_Utils
  imports Contracts
begin

text \<open>
  Text helpers of the firmware: making a byte string valid UTF-8 and cutting it between characters,
  \<^verbatim>\<open>core/utf8_utils.c\<close>; the comparison of version numbers, \<^verbatim>\<open>core/version_utils.c\<close>; the windows and texts of
  \<^verbatim>\<open>core/device_observation_utils.c\<close>. A C string is the list of its bytes before the terminator.
\<close>

section \<open>UTF-8\<close>

definition continuation :: "u8 \<Rightarrow> bool" where
  "continuation ch \<longleftrightarrow> ch AND 0xC0 = 0x80"

text \<open>The length of the valid sequence at the beginning of \<open>s\<close>, which has all the bytes that are available.\<close>

definition valid_sequence :: "u8 list \<Rightarrow> nat option" where
  "valid_sequence s =
     (let c = s ! 0; available = length s in
      if c < 0x80 then Some 1
      else if c \<ge> 0xC2 \<and> c \<le> 0xDF \<and> available \<ge> 2 \<and> continuation (s ! 1) then Some 2
      else if c = 0xE0 \<and> available \<ge> 3 \<and> s ! 1 \<ge> 0xA0 \<and> s ! 1 \<le> 0xBF \<and> continuation (s ! 2) then Some 3
      else if ((c \<ge> 0xE1 \<and> c \<le> 0xEC) \<or> (c \<ge> 0xEE \<and> c \<le> 0xEF)) \<and> available \<ge> 3 \<and> continuation (s ! 1) \<and> continuation (s ! 2)
      then Some 3
      else if c = 0xED \<and> available \<ge> 3 \<and> s ! 1 \<ge> 0x80 \<and> s ! 1 \<le> 0x9F \<and> continuation (s ! 2) then Some 3
      else if c = 0xF0 \<and> available \<ge> 4 \<and> s ! 1 \<ge> 0x90 \<and> s ! 1 \<le> 0xBF \<and> continuation (s ! 2) \<and> continuation (s ! 3) then Some 4
      else if c \<ge> 0xF1 \<and> c \<le> 0xF3 \<and> available \<ge> 4 \<and> continuation (s ! 1) \<and> continuation (s ! 2) \<and> continuation (s ! 3) then Some 4
      else if c = 0xF4 \<and> available \<ge> 4 \<and> s ! 1 \<ge> 0x80 \<and> s ! 1 \<le> 0x8F \<and> continuation (s ! 2) \<and> continuation (s ! 3) then Some 4
      else None)"

lemma valid_sequence_length: "valid_sequence s = Some n \<Longrightarrow> s \<noteq> [] \<Longrightarrow> 0 < n \<and> n \<le> length s"
  by (auto simp: valid_sequence_def Let_def Suc_le_eq split: if_splits)

definition ascii_out :: "u8 \<Rightarrow> u8" where
  "ascii_out ch = (if ch < 0x20 \<and> ch \<noteq> 10 \<and> ch \<noteq> 13 \<and> ch \<noteq> 9 then 32 else ch)"

text \<open>The loop; its result is the position it stopped at and the output.\<close>

function sanitize_loop :: "u8 list \<Rightarrow> nat \<Rightarrow> nat \<Rightarrow> nat \<Rightarrow> u8 list \<Rightarrow> nat \<times> u8 list" where
  "sanitize_loop content limit capacity i out =
     (if i < limit \<and> i < length content \<and> length out + 5 < capacity
      then
        if content ! i < 0x80 then sanitize_loop content limit capacity (i + 1) (out @ [ascii_out (content ! i)])
        else (case valid_sequence (drop i content) of
                Some n \<Rightarrow> if i + n \<le> limit then sanitize_loop content limit capacity (i + n) (out @ take n (drop i content))
                          else sanitize_loop content limit capacity (i + 1) (out @ [63])
              | None \<Rightarrow> sanitize_loop content limit capacity (i + 1) (out @ [63]))
      else (i, out))"
  by pat_completeness auto
termination
proof (relation "measure (\<lambda>(content, limit, capacity, i, out). limit - i)")
  fix content :: "u8 list" and limit capacity i n :: nat and out :: "u8 list"
  assume a: "i < limit \<and> i < length content \<and> length out + 5 < capacity" "valid_sequence (drop i content) = Some n"
  then have "0 < n" using valid_sequence_length [OF a(2)] by simp
  then show "((content, limit, capacity, i + n, out @ take n (drop i content)), content, limit, capacity, i, out)
      \<in> measure (\<lambda>(content, limit, capacity, i, out). limit - i)"
    using a(1) by auto
qed auto

text \<open>\<open>allocated\<close> tells whether the memory for the result was there. The limit is at most the length of the content.\<close>

definition suffix_text :: "u8 list" where
  "suffix_text = [10, 91, 116, 114, 117, 110, 99, 97, 116, 101, 100, 93]"

definition si_utf8_sanitize :: "bool \<Rightarrow> u8 list option \<Rightarrow> nat \<Rightarrow> u8 list option" where
  "si_utf8_sanitize allocated content max_len =
     (case content of None \<Rightarrow> None
      | Some c \<Rightarrow>
          if \<not> allocated then None
          else
            let input_len = length c;
                limit = (if max_len \<noteq> 0 \<and> input_len > max_len then max_len else input_len);
                capacity = limit + 16;
                (i, out) = sanitize_loop c limit capacity 0 [];
                truncated = (input_len > limit \<or> (max_len \<noteq> 0 \<and> input_len > i))
            in Some (if truncated \<and> length out + (length suffix_text + 1) < capacity then out @ suffix_text else out))"

fun prefix_cut :: "u8 list \<Rightarrow> nat \<Rightarrow> nat" where
  "prefix_cut text 0 = 0"
| "prefix_cut text (Suc k) = (if continuation (text ! Suc k) then prefix_cut text k else Suc k)"

definition si_utf8_prefix_len :: "u8 list \<Rightarrow> nat \<Rightarrow> nat \<Rightarrow> nat" where
  "si_utf8_prefix_len text len max_len = (if len \<le> max_len then len else prefix_cut text max_len)"

text \<open>The text left in a buffer of \<open>dst_size\<close> bytes, None for no buffer.\<close>

definition si_utf8_strlcpy :: "nat \<Rightarrow> u8 list option \<Rightarrow> u8 list option" where
  "si_utf8_strlcpy dst_size src =
     (if dst_size = 0 then None
      else Some (case src of None \<Rightarrow> [] | Some s \<Rightarrow> take (si_utf8_prefix_len s (length s) (dst_size - 1)) s))"

section \<open>Version numbers\<close>

text \<open>\<^verbatim>\<open>strtoul\<close> at a digit: the value of the digits, at most \<^verbatim>\<open>ULONG_MAX\<close>, and the rest. \<^verbatim>\<open>unsigned long\<close> has 32 bits.\<close>

definition digits_value :: "string \<Rightarrow> nat" where
  "digits_value ds = foldl (\<lambda>v d. v * 10 + (ccode d - 48)) 0 ds"

definition strtoul :: "string \<Rightarrow> nat \<times> string" where
  "strtoul s = (min (digits_value (takeWhile isdigit s)) (2 ^ 32 - 1), dropWhile isdigit s)"

definition skip_v :: "string \<Rightarrow> string" where
  "skip_v s = (case s of c # cs \<Rightarrow> if c = CHR ''v'' \<or> c = CHR ''V'' then cs else s | [] \<Rightarrow> [])"

text \<open>The character at the pointer, which is the terminator at the end.\<close>

definition char_at :: "string \<Rightarrow> nat" where
  "char_at s = (case s of c # _ \<Rightarrow> ccode (tolower c) | [] \<Rightarrow> 0)"

text \<open>The loop may not end as far as its definition goes; None would be a loop that does not return.\<close>

partial_function (option) version_loop :: "string \<Rightarrow> string \<Rightarrow> int option" where
  "version_loop pa pb =
     (if pa = [] \<and> pb = [] then Some 0
      else
        let pa = dropWhile (\<lambda>c. \<not> isalnum c) pa;
            pb = dropWhile (\<lambda>c. \<not> isalnum c) pb
        in
        if pa \<noteq> [] \<and> isdigit (hd pa) \<and> pb \<noteq> [] \<and> isdigit (hd pb)
        then
          let (va, pa) = strtoul pa; (vb, pb) = strtoul pb
          in if va \<noteq> vb then Some (if va > vb then 1 else -1) else version_loop pa pb
        else if char_at pa \<noteq> char_at pb then Some (if char_at pa > char_at pb then 1 else -1)
        else version_loop (tl pa) (tl pb))"

definition si_version_compare :: "string option \<Rightarrow> string option \<Rightarrow> int option" where
  "si_version_compare a b = version_loop (skip_v (c_or_empty a)) (skip_v (c_or_empty b))"

section \<open>Observation\<close>

text \<open>The text in a buffer of \<open>out_size\<close> bytes.\<close>

definition si_observation_format_uptime :: "u32 \<Rightarrow> nat \<Rightarrow> string option" where
  "si_observation_format_uptime seconds out_size =
     (if out_size = 0 then None
      else Some (c_strlcpy out_size
             (dec_digits (unat (seconds div 86400)) @ ''d '' @ dec_digits (unat ((seconds mod 86400) div 3600)) @ ''h '' @
              dec_digits (unat ((seconds mod 3600) div 60)) @ ''m'')))"

text \<open>The number of entries of the window and its first index.\<close>

definition si_observation_recent_window :: "nat \<Rightarrow> nat \<Rightarrow> nat \<Rightarrow> nat \<Rightarrow> nat \<times> nat" where
  "si_observation_recent_window head count capacity requested =
     (if capacity = 0 \<or> count = 0 \<or> requested = 0 then (0, 0)
      else
        let count = (if count > capacity then capacity else count);
            total = (if requested < count then requested else count)
        in (total, (head + capacity - total) mod capacity))"

end
