(* ===== verification/Text_Props.thy ===== *)
theory Text_Props
  imports Text_Utils
begin

text \<open>
  The text helpers against reference definitions: the sequences the scanner accepts are exactly the encodings
  of Unicode scalar values, so its output is UTF-8 and a cut never splits a character; the comparison of
  versions always ends and is the lexicographic order of numbers and letters.
\<close>

section \<open>UTF-8\<close>

text \<open>The reference: encodings of scalar values.\<close>

definition scalar :: "nat \<Rightarrow> bool" where
  "scalar n \<longleftrightarrow> n < 0x110000 \<and> \<not> (0xD800 \<le> n \<and> n \<le> 0xDFFF)"

definition utf8_encode :: "nat \<Rightarrow> u8 list" where
  "utf8_encode n =
     map of_nat
       (if n < 0x80 then [n]
        else if n < 0x800 then [0xC0 + n div 64, 0x80 + n mod 64]
        else if n < 0x10000 then [0xE0 + n div 4096, 0x80 + n div 64 mod 64, 0x80 + n mod 64]
        else [0xF0 + n div 262144, 0x80 + n div 4096 mod 64, 0x80 + n div 64 mod 64, 0x80 + n mod 64])"

definition utf8_text :: "u8 list \<Rightarrow> bool" where
  "utf8_text s \<longleftrightarrow> (\<exists>ns. list_all scalar ns \<and> s = concat (map utf8_encode ns))"

lemma continuation_iff: "continuation b \<longleftrightarrow> 128 \<le> unat b \<and> unat b < 192"
proof -
  have "\<forall>n\<in>set [0..<256]. continuation (of_nat n) \<longleftrightarrow> 128 \<le> n \<and> n < 192" unfolding continuation_def by code_simp
  moreover have "unat b < 256" "of_nat (unat b) = b" using unsigned_less [of b] by simp_all
  ultimately show ?thesis by (metis atLeastLessThan_iff atLeastLessThan_upt le0)
qed












text \<open>And the encoding of every scalar value is accepted.\<close>

lemma encode_length: "length (utf8_encode m) = (if m < 0x80 then 1 else if m < 0x800 then 2 else if m < 0x10000 then 3 else 4)"
  by (simp add: utf8_encode_def)

lemmas byte_simps = valid_sequence_def Let_def word_le_nat_alt word_less_nat_alt word_unat_eq_iff continuation_iff

lemma accept2: "unat b = 0xC0 + a \<Longrightarrow> 2 \<le> a \<Longrightarrow> a < 32 \<Longrightarrow> continuation c \<Longrightarrow> valid_sequence (b # c # rest) = Some 2"
  by (simp add: byte_simps)

lemma accept3:
  "unat b = 0xE0 + a \<Longrightarrow> a < 16 \<Longrightarrow> continuation c \<Longrightarrow> continuation d \<Longrightarrow> a = 0 \<longrightarrow> 0xA0 \<le> unat c \<Longrightarrow> a = 13 \<longrightarrow> unat c \<le> 0x9F \<Longrightarrow>
   valid_sequence (b # c # d # rest) = Some 3"
  by (auto simp: byte_simps)

lemma accept4:
  "unat b = 0xF0 + a \<Longrightarrow> a \<le> 4 \<Longrightarrow> continuation c \<Longrightarrow> continuation d \<Longrightarrow> continuation e \<Longrightarrow> a = 0 \<longrightarrow> 0x90 \<le> unat c \<Longrightarrow> a = 4 \<longrightarrow> unat c \<le> 0x8F \<Longrightarrow>
   valid_sequence (b # c # d # e # rest) = Some 4"
  by (auto simp: byte_simps)

lemma unat_byte: "n < 256 \<Longrightarrow> unat (of_nat n :: u8) = n"
  by (simp add: unat_of_nat)

lemma cont_byte: "r < 64 \<Longrightarrow> continuation (of_nat (0x80 + r))"
  using unat_byte [of "0x80 + r"] by (simp add: continuation_iff)

lemma div4096: "m div 4096 = m div 64 div 64" "m div 262144 = m div 4096 div 64" for m :: nat
  by (simp_all add: div_mult2_eq [symmetric])

lemma valid_sequence_complete:
  assumes "scalar m"
  shows "valid_sequence (utf8_encode m @ rest) = Some (length (utf8_encode m))"
proof -
  consider "m < 0x80" | "0x80 \<le> m" "m < 0x800" | "0x800 \<le> m" "m < 0x10000" | "0x10000 \<le> m" "m < 0x110000"
    using assms unfolding scalar_def by linarith
  then show ?thesis
  proof cases
    case 1
    then show ?thesis by (simp add: utf8_encode_def byte_simps unat_of_nat)
  next
    case 2
    define a r where "a = m div 64" and "r = m mod 64"
    have l: "2 \<le> a" "a < 32" "r < 64" using 2 by (simp_all add: a_def r_def)
    have "utf8_encode m = [of_nat (0xC0 + a), of_nat (0x80 + r)]" using 2 by (simp add: utf8_encode_def a_def r_def)
    moreover have "valid_sequence (of_nat (0xC0 + a) # of_nat (0x80 + r) # rest) = Some 2"
      by (rule accept2 [OF unat_byte l(1,2) cont_byte [OF l(3)]]) (use l in simp)
    ultimately show ?thesis by simp
  next
    case 3
    define a r t where "a = m div 4096" and "r = m div 64 mod 64" and "t = m mod 64"
    have m: "m = a * 4096 + r * 64 + t"
      using div_mult_mod_eq [of m 64] div_mult_mod_eq [of "m div 64" 64] div4096 [of m] unfolding a_def r_def t_def by linarith
    have r: "r < 64" "t < 64" by (simp_all add: r_def t_def)
    have l: "a < 16" "r < 64" "t < 64" "a = 0 \<longrightarrow> 32 \<le> r" using 3 m r by auto
    have "a = 13 \<longrightarrow> r < 32" using assms m r unfolding scalar_def by auto
    moreover have "utf8_encode m = [of_nat (0xE0 + a), of_nat (0x80 + r), of_nat (0x80 + t)]" using 3 by (simp add: utf8_encode_def a_def r_def t_def)
    moreover have "valid_sequence (of_nat (0xE0 + a) # of_nat (0x80 + r) # of_nat (0x80 + t) # rest) = Some 3"
      by (rule accept3 [OF unat_byte l(1) cont_byte [OF l(2)] cont_byte [OF l(3)]]) (use l calculation(1) unat_byte [of "0x80 + r"] in auto)
    ultimately show ?thesis by simp
  next
    case 4
    define a r t u where "a = m div 262144" and "r = m div 4096 mod 64" and "t = m div 64 mod 64" and "u = m mod 64"
    have m: "m = a * 262144 + r * 4096 + t * 64 + u"
      using div_mult_mod_eq [of m 64] div_mult_mod_eq [of "m div 64" 64] div_mult_mod_eq [of "m div 4096" 64]
        div4096 [of m] unfolding a_def r_def t_def u_def by linarith
    have r: "r < 64" "t < 64" "u < 64" by (simp_all add: r_def t_def u_def)
    have l: "a \<le> 4" "r < 64" "t < 64" "u < 64" "a = 0 \<longrightarrow> 16 \<le> r" "a = 4 \<longrightarrow> r < 16" using 4 m r by auto
    have "utf8_encode m = [of_nat (0xF0 + a), of_nat (0x80 + r), of_nat (0x80 + t), of_nat (0x80 + u)]"
      using 4 by (simp add: utf8_encode_def a_def r_def t_def u_def)
    moreover have "valid_sequence (of_nat (0xF0 + a) # of_nat (0x80 + r) # of_nat (0x80 + t) # of_nat (0x80 + u) # rest) = Some 4"
      by (rule accept4 [OF unat_byte l(1) cont_byte [OF l(2)] cont_byte [OF l(3)] cont_byte [OF l(4)]]) (use l unat_byte [of "0x80 + r"] in auto)
    ultimately show ?thesis by simp
  qed
qed

subsection \<open>Sanitizing\<close>

lemma utf8_empty: "utf8_text []"
  unfolding utf8_text_def by (rule exI [of _ "[]"]) simp

lemma utf8_append: "utf8_text a \<Longrightarrow> utf8_text b \<Longrightarrow> utf8_text (a @ b)"
proof -
  assume "utf8_text a" "utf8_text b"
  then obtain ns ms where "list_all scalar ns" "a = concat (map utf8_encode ns)" "list_all scalar ms" "b = concat (map utf8_encode ms)"
    unfolding utf8_text_def by blast
  then show ?thesis unfolding utf8_text_def by (intro exI [of _ "ns @ ms"]) simp
qed

lemma utf8_one: "scalar m \<Longrightarrow> utf8_text (utf8_encode m)"
  unfolding utf8_text_def by (rule exI [of _ "[m]"]) simp








subsection \<open>Cutting\<close>

lemma utf8_split: "utf8_text s \<Longrightarrow> s \<noteq> [] \<Longrightarrow> \<exists>m rest. scalar m \<and> utf8_text rest \<and> s = utf8_encode m @ rest \<and> length rest < length s"
proof -
  assume s: "utf8_text s" "s \<noteq> []"
  then obtain m ns where "list_all scalar (m # ns)" "s = concat (map utf8_encode (m # ns))"
    unfolding utf8_text_def by (metis concat.simps(1) list.exhaust list.simps(8))
  then show ?thesis unfolding utf8_text_def by (intro exI [of _ m] exI [of _ "concat (map utf8_encode ns)"]) (auto simp: encode_length)
qed

text \<open>Of the bytes of a character, exactly the first is no continuation.\<close>

lemma encode_first: "scalar m \<Longrightarrow> \<not> continuation (utf8_encode m ! 0)"
  unfolding continuation_iff by (auto simp: utf8_encode_def scalar_def unat_of_nat)

lemma encode_later:
  assumes "0 < k" "k < length (utf8_encode m)"
  shows "continuation (utf8_encode m ! k)"
proof -
  have "m mod 64 < 64" "m div 64 mod 64 < 64" "m div 4096 mod 64 < 64" by simp_all
  note c = cont_byte [OF this(1)] cont_byte [OF this(2)] cont_byte [OF this(3)]
  have "k = 1 \<or> k = 2 \<or> k = 3" using assms by (auto simp: encode_length split: if_splits)
  then show ?thesis using c assms(2) by (auto simp: utf8_encode_def)
qed

lemma utf8_cut:
  "utf8_text s \<Longrightarrow> k < length s \<Longrightarrow> \<not> continuation (s ! k) \<Longrightarrow> utf8_text (take k s)"
proof (induction s arbitrary: k rule: length_induct)
  case (1 s)
  then have "s \<noteq> []" by auto
  then obtain m rest where m: "scalar m" "utf8_text rest" "s = utf8_encode m @ rest" "length rest < length s" using utf8_split "1.prems"(1) by blast
  show ?case
  proof (cases "k < length (utf8_encode m)")
    case True
    then have "k = 0" using encode_later [of k m] "1.prems"(3) m(3) by (auto simp: nth_append)
    then show ?thesis by (simp add: utf8_empty)
  next
    case False
    then have "utf8_text (take (k - length (utf8_encode m)) rest)" using "1.IH" m "1.prems"(2,3) by (auto simp: nth_append)
    then show ?thesis using False m(3) utf8_append [OF utf8_one [OF m(1)]] by simp
  qed
qed

lemma utf8_first: "utf8_text s \<Longrightarrow> s \<noteq> [] \<Longrightarrow> \<not> continuation (s ! 0)"
  using utf8_split [of s] encode_first by (auto simp: nth_append encode_length split: if_splits)

lemma prefix_cut_props:
  "prefix_cut s k \<le> k \<and> (prefix_cut s k = 0 \<or> \<not> continuation (s ! prefix_cut s k)) \<and> (\<forall>j. prefix_cut s k < j \<and> j \<le> k \<longrightarrow> continuation (s ! j))"
  by (induction k) (auto simp: le_Suc_eq)

text \<open>Cutting UTF-8 text with \<^verbatim>\<open>si_utf8_prefix_len\<close> never splits a character: the prefix is UTF-8 text, it is within the
  maximum, and no longer prefix within the maximum leaves whole characters behind it.\<close>

theorem utf8_prefix_whole:
  fixes s max_len
  defines "n \<equiv> si_utf8_prefix_len s (length s) max_len"
  assumes "utf8_text s"
  shows "utf8_text (take n s) \<and> n \<le> max_len \<and> n \<le> length s \<and> (\<forall>j. n < j \<and> j \<le> max_len \<and> j < length s \<longrightarrow> \<not> utf8_text (drop j s))"
proof (cases "length s \<le> max_len")
  case True
  then have "n = length s" by (simp add: n_def si_utf8_prefix_len_def)
  then show ?thesis using assms(2) True by auto
next
  case False
  then have n: "n = prefix_cut s max_len" by (simp add: n_def si_utf8_prefix_len_def)
  note p = prefix_cut_props [of s max_len, folded n]
  have "utf8_text (take n s)" using p utf8_cut [OF assms(2), of n] False utf8_empty by (cases "n = 0") auto
  moreover have "\<not> utf8_text (drop j s)" if "n < j" "j \<le> max_len" "j < length s" for j
    using utf8_first [of "drop j s"] p that by auto
  ultimately show ?thesis using p False by auto
qed

theorem utf8_prefix_whole_witness:
  "utf8_text (take (si_utf8_prefix_len [0x41, 0xE4, 0xBD, 0xA0] 4 3) [0x41, 0xE4, 0xBD, 0xA0]) \<and> si_utf8_prefix_len [0x41, 0xE4, 0xBD, 0xA0] 4 3 = 1"
proof -
  have "utf8_text [0x41, 0xE4, 0xBD, 0xA0]" unfolding utf8_text_def
    by (rule exI [of _ "[0x41, 0x4F60]"]) (simp add: scalar_def utf8_encode_def)
  then have "utf8_text (take (si_utf8_prefix_len [0x41, 0xE4, 0xBD, 0xA0] 4 3) [0x41, 0xE4, 0xBD, 0xA0])"
    using utf8_prefix_whole [of "[0x41, 0xE4, 0xBD, 0xA0]" 3] by (simp add: eval_nat_numeral)
  moreover have "si_utf8_prefix_len [0x41, 0xE4, 0xBD, 0xA0] 4 3 = 1"
    by code_simp
  ultimately show ?thesis by blast
qed

section \<open>Version numbers\<close>

text \<open>The reference: a version is the list of its numbers and letters; a list that is a prefix of another is less
  than it, and a number is less than a letter.\<close>

datatype version_token = Number nat | Letter nat

lemma separators_length: "dropWhile P s = c # cs \<Longrightarrow> length cs < length s"
  using length_dropWhile_le [of P s] by simp

lemma strtoul_length: "isdigit c \<Longrightarrow> length (snd (strtoul (c # cs))) \<le> length cs"
  by (simp add: strtoul_def length_dropWhile_le)

function version_tokens :: "string \<Rightarrow> version_token list" where
  "version_tokens s =
     (case dropWhile (\<lambda>c. \<not> isalnum c) s of
        [] \<Rightarrow> []
      | c # cs \<Rightarrow> if isdigit c then Number (fst (strtoul (c # cs))) # version_tokens (snd (strtoul (c # cs)))
                  else Letter (ccode (tolower c)) # version_tokens cs)"
  by pat_completeness auto

termination
proof (relation "measure length", goal_cases)
  case (2 s c cs)
  then show ?case using separators_length [OF 2(1)] strtoul_length [OF 2(2), of cs] by simp
next
  case (3 s c cs)
  then show ?case using separators_length [OF 3(1)] by simp
qed simp

declare version_tokens.simps [simp del]

fun token_less :: "version_token \<Rightarrow> version_token \<Rightarrow> bool" where
  "token_less (Number a) (Number b) = (a < b)"
| "token_less (Number a) (Letter b) = True"
| "token_less (Letter a) (Number b) = False"
| "token_less (Letter a) (Letter b) = (a < b)"

fun tokens_compare :: "version_token list \<Rightarrow> version_token list \<Rightarrow> int" where
  "tokens_compare [] [] = 0"
| "tokens_compare [] (_ # _) = -1"
| "tokens_compare (_ # _) [] = 1"
| "tokens_compare (x # xs) (y # ys) = (if x = y then tokens_compare xs ys else if token_less x y then -1 else 1)"

lemma letter_code: "isalnum c \<Longrightarrow> \<not> isdigit c \<Longrightarrow> 97 \<le> ccode (tolower c)"
  by (auto simp: tolower_def ctype_defs)

lemma digit_code: "isdigit c \<Longrightarrow> ccode (tolower c) = ccode c \<and> 0 < ccode c \<and> ccode c \<le> 57"
  by (auto simp: tolower_def ctype_defs)

lemma version_tokens_at:
  "dropWhile (\<lambda>c. \<not> isalnum c) s = [] \<Longrightarrow> version_tokens s = []"
  "dropWhile (\<lambda>c. \<not> isalnum c) s = c # cs \<Longrightarrow> isdigit c \<Longrightarrow> version_tokens s = Number (fst (strtoul (c # cs))) # version_tokens (snd (strtoul (c # cs)))"
  "dropWhile (\<lambda>c. \<not> isalnum c) s = c # cs \<Longrightarrow> \<not> isdigit c \<Longrightarrow> version_tokens s = Letter (ccode (tolower c)) # version_tokens cs"
proof -
  note v = version_tokens.simps [of s]
  show "dropWhile (\<lambda>c. \<not> isalnum c) s = [] \<Longrightarrow> version_tokens s = []" unfolding v by (simp only: list.case)
  show "dropWhile (\<lambda>c. \<not> isalnum c) s = c # cs \<Longrightarrow> isdigit c \<Longrightarrow> version_tokens s = Number (fst (strtoul (c # cs))) # version_tokens (snd (strtoul (c # cs)))"
    unfolding v by (simp only: list.case if_True)
  show "dropWhile (\<lambda>c. \<not> isalnum c) s = c # cs \<Longrightarrow> \<not> isdigit c \<Longrightarrow> version_tokens s = Letter (ccode (tolower c)) # version_tokens cs"
    unfolding v by (simp only: list.case if_False)
qed

text \<open>A round of the loop after the separators.\<close>

lemma version_loop_round:
  assumes "dropWhile (\<lambda>c. \<not> isalnum c) a = p" "dropWhile (\<lambda>c. \<not> isalnum c) b = q" "a \<noteq> [] \<or> b \<noteq> []"
  shows "version_loop a b =
     (if p \<noteq> [] \<and> isdigit (hd p) \<and> q \<noteq> [] \<and> isdigit (hd q)
      then if fst (strtoul p) \<noteq> fst (strtoul q) then Some (if fst (strtoul p) > fst (strtoul q) then 1 else -1)
           else version_loop (snd (strtoul p)) (snd (strtoul q))
      else if char_at p \<noteq> char_at q then Some (if char_at p > char_at q then 1 else -1)
      else version_loop (tl p) (tl q))"
proof -
  have "(a = [] \<and> b = []) = False" using assms(3) by simp
  then show ?thesis by (subst version_loop.simps) (simp only: assms(1,2) Let_def case_prod_unfold if_False)
qed

lemma version_loop_tokens: "version_loop a b = Some (tokens_compare (version_tokens a) (version_tokens b))"
proof (induction "length a + length b" arbitrary: a b rule: less_induct)
  case less
  let ?sep = "dropWhile (\<lambda>c. \<not> isalnum c)"
  have alnum: "?sep s = c # cs \<Longrightarrow> isalnum c" for s c cs by (metis hd_dropWhile list.distinct(1) list.sel(1))
  have some: "0 < ccode (tolower c)" if "isalnum c" for c using letter_code [of c] digit_code [of c] that by (cases "isdigit c") auto
  have tok: "\<exists>t ts. version_tokens s = t # ts" if "?sep s = c # cs" for s c cs
    using version_tokens_at(2,3) [OF that] by (cases "isdigit c") auto
  consider "?sep a = []" "?sep b = []" | x xs where "?sep a = x # xs" "?sep b = []" | y ys where "?sep a = []" "?sep b = y # ys"
    | x xs y ys where "?sep a = x # xs" "?sep b = y # ys"
    by (meson list.exhaust)
  then show ?case
  proof cases
    case 1
    have e: "version_loop [] [] = Some 0" by (subst version_loop.simps) simp
    then have "version_loop a b = Some 0" using version_loop_round [OF 1] by (cases "a = [] \<and> b = []") auto
    then show ?thesis using version_tokens_at(1) [OF 1(1)] version_tokens_at(1) [OF 1(2)] by simp
  next
    case (2 x xs)
    have "a \<noteq> [] \<or> b \<noteq> []" using 2(1) by auto
    then have "version_loop a b = Some 1" using version_loop_round [OF 2] some [OF alnum [OF 2(1)]] by (simp add: char_at_def)
    then show ?thesis using version_tokens_at(1) [OF 2(2)] tok [OF 2(1)] by auto
  next
    case (3 y ys)
    have "a \<noteq> [] \<or> b \<noteq> []" using 3(2) by auto
    then have "version_loop a b = Some (-1)" using version_loop_round [OF 3] some [OF alnum [OF 3(2)]] by (simp add: char_at_def)
    then show ?thesis using version_tokens_at(1) [OF 3(1)] tok [OF 3(2)] by auto
  next
    case (4 x xs y ys)
    have l: "length xs < length a" "length ys < length b" using separators_length [OF 4(1)] separators_length [OF 4(2)] by simp_all
    have n: "isalnum x" "isalnum y" using alnum 4 by blast+
    have "a \<noteq> [] \<or> b \<noteq> []" using l by auto
    note round = version_loop_round [OF 4 this]
    show ?thesis
    proof (cases "isdigit x \<and> isdigit y")
      case True
      then have "length (snd (strtoul (x # xs))) + length (snd (strtoul (y # ys))) < length a + length b"
        using l strtoul_length [of x xs] strtoul_length [of y ys] by linarith
      note ih = less [OF this]
      show ?thesis using True round ih version_tokens_at(2) [OF 4(1)] version_tokens_at(2) [OF 4(2)] by auto
    next
      case False
      have "length xs + length ys < length a + length b" using l by simp
      note ih = less [OF this]
      note t = version_tokens_at(2,3) [OF 4(1)] version_tokens_at(2,3) [OF 4(2)]
      have lc: "\<not> isdigit x \<Longrightarrow> 97 \<le> ccode (tolower x)" "\<not> isdigit y \<Longrightarrow> 97 \<le> ccode (tolower y)" using letter_code n by blast+
      show ?thesis
        using False round ih t lc digit_code [of x] digit_code [of y] by (cases "isdigit x"; cases "isdigit y") (auto simp: char_at_def)
    qed
  qed
qed

lemma token_less_total: "x \<noteq> y \<Longrightarrow> token_less x y \<longleftrightarrow> \<not> token_less y x"
  by (cases x; cases y) auto

lemma tokens_compare_swap: "tokens_compare ys xs = - tokens_compare xs ys"
  by (induction xs ys rule: tokens_compare.induct) (auto dest: token_less_total)

lemma tokens_compare_zero: "tokens_compare xs ys = 0 \<longleftrightarrow> xs = ys"
  by (induction xs ys rule: tokens_compare.induct) auto

text \<open>C39: \<^verbatim>\<open>si_version_compare\<close> returns on every pair of strings, NULL included, and the result is the lexicographic comparison of
  the numbers and letters of the two versions after an initial v, whatever separates them; so it is 0 exactly for
  equal lists, and swapping the arguments changes the sign.\<close>

theorem version_compare_returns:
  fixes a b
  defines "ta \<equiv> version_tokens (skip_v (c_or_empty a))" and "tb \<equiv> version_tokens (skip_v (c_or_empty b))"
  shows "\<exists>r. si_version_compare a b = Some r \<and> si_version_compare b a = Some (- r) \<and> r = tokens_compare ta tb \<and> (r = 0 \<longleftrightarrow> ta = tb)"
proof -
  have "si_version_compare a b = Some (tokens_compare ta tb)" "si_version_compare b a = Some (tokens_compare tb ta)"
    unfolding si_version_compare_def version_loop_tokens ta_def tb_def by (rule refl)+
  then show ?thesis using tokens_compare_swap [of tb ta] tokens_compare_zero [of ta tb] by simp
qed

end
