(* ===== verification/Request_Broker.thy ===== *)
theory Request_Broker
  imports Contracts Hex_Text
begin

text \<open>
  The broker of the agent's requests, \<^verbatim>\<open>application/agent_request_broker.c\<close>: an agent asks for a context or an action,
  a person, a reviewer or the policy grants or denies it, and an executor consumes the grant before the effect.

  A \<^verbatim>\<open>char[N + 1]\<close> field is the string before its terminator; a buffer without a terminator would be a string of
  \<open>N + 1\<close> characters or more. An \<open>out\<close> pointer is left out where it only receives a copy of the record that the result
  has. The hash function of mbedTLS, the mutex, the clock and the random numbers are arguments.
\<close>

section \<open>Data\<close>

definition SI_AGENT_REQUEST_QUEUE_CAPACITY :: nat where "SI_AGENT_REQUEST_QUEUE_CAPACITY = 32"
definition SI_AGENT_REQUEST_ID_MAX_LEN :: nat where "SI_AGENT_REQUEST_ID_MAX_LEN = 24"
definition SI_AGENT_REQUEST_RUN_ID_MAX_LEN :: nat where "SI_AGENT_REQUEST_RUN_ID_MAX_LEN = 40"
definition SI_AGENT_REQUEST_THREAD_ID_MAX_LEN :: nat where "SI_AGENT_REQUEST_THREAD_ID_MAX_LEN = 40"
definition SI_AGENT_REQUEST_TURN_ID_MAX_LEN :: nat where "SI_AGENT_REQUEST_TURN_ID_MAX_LEN = 40"
definition SI_AGENT_REQUEST_STEP_ID_MAX_LEN :: nat where "SI_AGENT_REQUEST_STEP_ID_MAX_LEN = 40"
definition SI_AGENT_REQUEST_DEVICE_ID_MAX_LEN :: nat where "SI_AGENT_REQUEST_DEVICE_ID_MAX_LEN = 64"
definition SI_AGENT_REQUEST_RESOURCE_MAX_LEN :: nat where "SI_AGENT_REQUEST_RESOURCE_MAX_LEN = 40"
definition SI_AGENT_REQUEST_REASON_MAX_LEN :: nat where "SI_AGENT_REQUEST_REASON_MAX_LEN = 160"
definition SI_AGENT_REQUEST_EFFECT_MAX_LEN :: nat where "SI_AGENT_REQUEST_EFFECT_MAX_LEN = 160"
definition SI_AGENT_REQUEST_VERIFY_MAX_LEN :: nat where "SI_AGENT_REQUEST_VERIFY_MAX_LEN = 120"
definition SI_AGENT_REQUEST_PARAMS_MAX_LEN :: nat where "SI_AGENT_REQUEST_PARAMS_MAX_LEN = 768"
definition SI_AGENT_REQUEST_HASH_HEX_LEN :: nat where "SI_AGENT_REQUEST_HASH_HEX_LEN = 64"
definition SI_AGENT_REQUEST_SESSION_ID_MAX_LEN :: nat where "SI_AGENT_REQUEST_SESSION_ID_MAX_LEN = 40"
definition SI_AGENT_REQUEST_INSTANCE_ID_MAX_LEN :: nat where "SI_AGENT_REQUEST_INSTANCE_ID_MAX_LEN = 40"
definition SI_AGENT_REQUEST_IDEMPOTENCY_KEY_MAX_LEN :: nat where "SI_AGENT_REQUEST_IDEMPOTENCY_KEY_MAX_LEN = 64"
definition SI_AGENT_REQUEST_RESPONSE_MAX_LEN :: nat where "SI_AGENT_REQUEST_RESPONSE_MAX_LEN = 512"
definition SI_AGENT_REQUEST_ERROR_MAX_LEN :: nat where "SI_AGENT_REQUEST_ERROR_MAX_LEN = 128"
definition SI_AGENT_REQUEST_SNAPSHOT_SCHEMA_VERSION :: u32 where "SI_AGENT_REQUEST_SNAPSHOT_SCHEMA_VERSION = 2"
definition SI_AGENT_REQUEST_DEFAULT_TTL_MS :: u32 where "SI_AGENT_REQUEST_DEFAULT_TTL_MS = 120000"
definition SI_AGENT_REQUEST_MIN_TTL_MS :: u32 where "SI_AGENT_REQUEST_MIN_TTL_MS = 5000"
definition SI_AGENT_REQUEST_MAX_TTL_MS :: u32 where "SI_AGENT_REQUEST_MAX_TTL_MS = 600000"

lemmas request_consts = SI_AGENT_REQUEST_QUEUE_CAPACITY_def SI_AGENT_REQUEST_ID_MAX_LEN_def SI_AGENT_REQUEST_RUN_ID_MAX_LEN_def
  SI_AGENT_REQUEST_THREAD_ID_MAX_LEN_def SI_AGENT_REQUEST_TURN_ID_MAX_LEN_def SI_AGENT_REQUEST_STEP_ID_MAX_LEN_def
  SI_AGENT_REQUEST_DEVICE_ID_MAX_LEN_def SI_AGENT_REQUEST_RESOURCE_MAX_LEN_def SI_AGENT_REQUEST_REASON_MAX_LEN_def
  SI_AGENT_REQUEST_EFFECT_MAX_LEN_def SI_AGENT_REQUEST_VERIFY_MAX_LEN_def SI_AGENT_REQUEST_PARAMS_MAX_LEN_def
  SI_AGENT_REQUEST_HASH_HEX_LEN_def SI_AGENT_REQUEST_SESSION_ID_MAX_LEN_def SI_AGENT_REQUEST_INSTANCE_ID_MAX_LEN_def
  SI_AGENT_REQUEST_IDEMPOTENCY_KEY_MAX_LEN_def SI_AGENT_REQUEST_RESPONSE_MAX_LEN_def SI_AGENT_REQUEST_ERROR_MAX_LEN_def
  SI_AGENT_REQUEST_SNAPSHOT_SCHEMA_VERSION_def SI_AGENT_REQUEST_DEFAULT_TTL_MS_def SI_AGENT_REQUEST_MIN_TTL_MS_def
  SI_AGENT_REQUEST_MAX_TTL_MS_def

datatype si_agent_request_kind_t =
    SI_AGENT_REQUEST_KIND_CONTEXT
  | SI_AGENT_REQUEST_KIND_ACTION
  | SI_AGENT_REQUEST_KIND_OTHER

datatype si_agent_request_risk_t =
    SI_AGENT_REQUEST_RISK_LOW
  | SI_AGENT_REQUEST_RISK_MEDIUM
  | SI_AGENT_REQUEST_RISK_HIGH
  | SI_AGENT_REQUEST_RISK_CRITICAL
  | SI_AGENT_REQUEST_RISK_OTHER

datatype si_agent_request_state_t =
    SI_AGENT_REQUEST_EMPTY
  | SI_AGENT_REQUEST_REQUESTED
  | SI_AGENT_REQUEST_EVALUATING
  | SI_AGENT_REQUEST_REVIEWING
  | SI_AGENT_REQUEST_WAITING_USER
  | SI_AGENT_REQUEST_GRANTED
  | SI_AGENT_REQUEST_EXECUTING
  | SI_AGENT_REQUEST_VERIFYING
  | SI_AGENT_REQUEST_COMPLETED
  | SI_AGENT_REQUEST_FAILED
  | SI_AGENT_REQUEST_DENIED
  | SI_AGENT_REQUEST_EXPIRED
  | SI_AGENT_REQUEST_CANCELLED
  | SI_AGENT_REQUEST_UNKNOWN
  | SI_AGENT_REQUEST_OTHER

datatype si_agent_request_grant_scope_t =
    SI_AGENT_REQUEST_GRANT_ONCE
  | SI_AGENT_REQUEST_GRANT_STEP
  | SI_AGENT_REQUEST_GRANT_RUN
  | SI_AGENT_REQUEST_GRANT_THREAD
  | SI_AGENT_REQUEST_GRANT_OTHER

datatype si_agent_request_principal_t =
    SI_AGENT_REQUEST_PRINCIPAL_UNSPECIFIED
  | SI_AGENT_REQUEST_PRINCIPAL_AGENT
  | SI_AGENT_REQUEST_PRINCIPAL_BROWSER
  | SI_AGENT_REQUEST_PRINCIPAL_REVIEWER
  | SI_AGENT_REQUEST_PRINCIPAL_POLICY
  | SI_AGENT_REQUEST_PRINCIPAL_RUNTIME
  | SI_AGENT_REQUEST_PRINCIPAL_OTHER

text \<open>The values of the enumerations that are compared; the last stands for the ones that are none of the enumerators.\<close>

fun risk_value :: "si_agent_request_risk_t \<Rightarrow> nat" where
  "risk_value SI_AGENT_REQUEST_RISK_LOW = 0"
| "risk_value SI_AGENT_REQUEST_RISK_MEDIUM = 1"
| "risk_value SI_AGENT_REQUEST_RISK_HIGH = 2"
| "risk_value SI_AGENT_REQUEST_RISK_CRITICAL = 3"
| "risk_value SI_AGENT_REQUEST_RISK_OTHER = 4"

fun scope_value :: "si_agent_request_grant_scope_t \<Rightarrow> nat" where
  "scope_value SI_AGENT_REQUEST_GRANT_ONCE = 0"
| "scope_value SI_AGENT_REQUEST_GRANT_STEP = 1"
| "scope_value SI_AGENT_REQUEST_GRANT_RUN = 2"
| "scope_value SI_AGENT_REQUEST_GRANT_THREAD = 3"
| "scope_value SI_AGENT_REQUEST_GRANT_OTHER = 4"

record si_agent_request_actor_t =
  ac_principal :: si_agent_request_principal_t
  ac_session_id :: string
  ac_instance_id :: string

record si_agent_request_binding_input_t =
  bi_device_id :: "string option"
  bi_thread_id :: "string option"
  bi_turn_id :: "string option"
  bi_run_id :: "string option"
  bi_step_id :: "string option"
  bi_plan_version :: u32
  bi_normalized_args_json :: "string option"
  bi_idempotency_key :: "string option"

record si_agent_request_input_t =
  li_run_id :: "string option"
  li_kind :: si_agent_request_kind_t
  li_resource :: "string option"
  li_reason :: "string option"
  li_params_json :: "string option"
  li_expected_effect :: "string option"
  li_verification :: "string option"
  li_risk :: si_agent_request_risk_t
  li_lease_required :: bool
  li_ttl_ms :: u32

record si_agent_request_v2_input_t =
  vi_binding :: si_agent_request_binding_input_t
  vi_requester :: si_agent_request_actor_t
  vi_kind :: si_agent_request_kind_t
  vi_resource :: "string option"
  vi_reason :: "string option"
  vi_expected_effect :: "string option"
  vi_verification :: "string option"
  vi_risk :: si_agent_request_risk_t
  vi_lease_required :: bool
  vi_reviewer_allowed :: bool
  vi_delegated_auto_approval :: bool
  vi_auto_approve_through :: si_agent_request_risk_t
  vi_requested_grant_scope :: si_agent_request_grant_scope_t
  vi_ttl_ms :: u32

record si_agent_request_status_t =
  rq_state :: si_agent_request_state_t
  rq_kind :: si_agent_request_kind_t
  rq_risk :: si_agent_request_risk_t
  rq_lease_required :: bool
  rq_reviewer_allowed :: bool
  rq_grant_consumed :: bool
  rq_requested_grant_scope :: si_agent_request_grant_scope_t
  rq_grant_scope :: si_agent_request_grant_scope_t
  rq_created_ms :: u32
  rq_expires_at_ms :: u32
  rq_decided_ms :: u32
  rq_consumed_ms :: u32
  rq_verifying_ms :: u32
  rq_completed_ms :: u32
  rq_plan_version :: u32
  rq_sequence :: u64
  rq_request_id :: string
  rq_parent_grant_request_id :: string
  rq_device_id :: string
  rq_thread_id :: string
  rq_turn_id :: string
  rq_run_id :: string
  rq_step_id :: string
  rq_resource :: string
  rq_reason :: string
  rq_params_json :: string
  rq_params_hash :: string
  rq_normalized_args_hash :: string
  rq_idempotency_key :: string
  rq_expected_effect :: string
  rq_verification :: string
  rq_requester :: si_agent_request_actor_t
  rq_reviewer :: si_agent_request_actor_t
  rq_decider :: si_agent_request_actor_t
  rq_decision_source :: string
  rq_decided_by_session :: string
  rq_response :: string
  rq_verification_evidence :: string
  rq_error :: string

definition zero_actor :: si_agent_request_actor_t where
  "zero_actor = \<lparr>ac_principal = SI_AGENT_REQUEST_PRINCIPAL_UNSPECIFIED, ac_session_id = [], ac_instance_id = []\<rparr>"

definition zero_request :: si_agent_request_status_t where
  "zero_request = \<lparr>rq_state = SI_AGENT_REQUEST_EMPTY, rq_kind = SI_AGENT_REQUEST_KIND_CONTEXT, rq_risk = SI_AGENT_REQUEST_RISK_LOW,
     rq_lease_required = False, rq_reviewer_allowed = False, rq_grant_consumed = False,
     rq_requested_grant_scope = SI_AGENT_REQUEST_GRANT_ONCE, rq_grant_scope = SI_AGENT_REQUEST_GRANT_ONCE,
     rq_created_ms = 0, rq_expires_at_ms = 0, rq_decided_ms = 0, rq_consumed_ms = 0, rq_verifying_ms = 0, rq_completed_ms = 0,
     rq_plan_version = 0, rq_sequence = 0, rq_request_id = [], rq_parent_grant_request_id = [], rq_device_id = [], rq_thread_id = [],
     rq_turn_id = [], rq_run_id = [], rq_step_id = [], rq_resource = [], rq_reason = [], rq_params_json = [], rq_params_hash = [],
     rq_normalized_args_hash = [], rq_idempotency_key = [], rq_expected_effect = [], rq_verification = [],
     rq_requester = zero_actor, rq_reviewer = zero_actor, rq_decider = zero_actor, rq_decision_source = [],
     rq_decided_by_session = [], rq_response = [], rq_verification_evidence = [], rq_error = []\<rparr>"

record si_agent_request_decision_t =
  de_request_id :: "string option"
  de_approved :: bool
  de_response :: "string option"
  de_decider :: si_agent_request_actor_t
  de_grant_scope :: si_agent_request_grant_scope_t

record si_agent_request_consume_t =
  co_request_id :: "string option"
  co_binding :: si_agent_request_binding_input_t

record si_agent_request_snapshot_entry_t =
  se_status :: si_agent_request_status_t
  se_remaining_ttl_ms :: u32

text \<open>The entries that count: \<^verbatim>\<open>count\<close> is the length of the list.\<close>

record si_agent_request_snapshot_t =
  sn_schema_version :: u32
  sn_next_sequence :: u64
  sn_entries :: "si_agent_request_snapshot_entry_t list"

text \<open>The file-scope variables. The provider of the time is a function pointer with a context, told apart by a number.\<close>

record broker =
  bk_lock :: bool
  bk_requests :: "si_agent_request_status_t list"
  bk_next_sequence :: u64
  bk_now_fn :: "nat option"

definition broker_initial :: broker where
  "broker_initial = \<lparr>bk_lock = False, bk_requests = replicate SI_AGENT_REQUEST_QUEUE_CAPACITY zero_request, bk_next_sequence = 1,
     bk_now_fn = None\<rparr>"

text \<open>What a call meets: whether the mutex can be created and is obtained, the clocks, a random number, the hash function.\<close>

record broker_env =
  be_created :: bool
  be_lock :: bool
  be_now :: "nat option \<Rightarrow> u32"
  be_random :: u32
  be_sha256 :: "string \<Rightarrow> u8 list option"

section \<open>Helpers\<close>

definition copy_text :: "nat \<Rightarrow> string option \<Rightarrow> string" where
  "copy_text destination_size source = c_strlcpy destination_size (c_or_empty source)"

definition value_valid :: "string option \<Rightarrow> nat \<Rightarrow> bool \<Rightarrow> bool" where
  "value_valid value max_len required =
     (case value of None \<Rightarrow> \<not> required | Some v \<Rightarrow> (\<not> required \<or> length v > 0) \<and> length v \<le> max_len)"

definition fixed_value_valid :: "string \<Rightarrow> nat \<Rightarrow> bool \<Rightarrow> bool" where
  "fixed_value_valid value capacity required \<longleftrightarrow> length value < capacity \<and> (\<not> required \<or> value \<noteq> [])"

definition kind_valid :: "si_agent_request_kind_t \<Rightarrow> bool" where
  "kind_valid kind \<longleftrightarrow> kind = SI_AGENT_REQUEST_KIND_CONTEXT \<or> kind = SI_AGENT_REQUEST_KIND_ACTION"

definition risk_valid :: "si_agent_request_risk_t \<Rightarrow> bool" where
  "risk_valid risk \<longleftrightarrow> risk_value risk \<le> risk_value SI_AGENT_REQUEST_RISK_CRITICAL"

definition scope_valid :: "si_agent_request_grant_scope_t \<Rightarrow> bool" where
  "scope_valid scope \<longleftrightarrow> scope_value scope \<le> scope_value SI_AGENT_REQUEST_GRANT_THREAD"

definition state_valid :: "si_agent_request_state_t \<Rightarrow> bool" where
  "state_valid state \<longleftrightarrow> state \<noteq> SI_AGENT_REQUEST_EMPTY \<and> state \<noteq> SI_AGENT_REQUEST_OTHER"

definition actor_valid :: "si_agent_request_actor_t \<Rightarrow> bool \<Rightarrow> bool" where
  "actor_valid actor require_known_principal \<longleftrightarrow>
     fixed_value_valid (ac_session_id actor) (SI_AGENT_REQUEST_SESSION_ID_MAX_LEN + 1) True \<and>
     fixed_value_valid (ac_instance_id actor) (SI_AGENT_REQUEST_INSTANCE_ID_MAX_LEN + 1) True \<and>
     (\<not> require_known_principal \<or>
      (ac_principal actor \<noteq> SI_AGENT_REQUEST_PRINCIPAL_UNSPECIFIED \<and> ac_principal actor \<noteq> SI_AGENT_REQUEST_PRINCIPAL_OTHER))"

definition actor_equal :: "si_agent_request_actor_t \<Rightarrow> si_agent_request_actor_t \<Rightarrow> bool" where
  "actor_equal left right \<longleftrightarrow> ac_principal left = ac_principal right \<and> ac_session_id left = ac_session_id right \<and>
     ac_instance_id left = ac_instance_id right"

definition clamp_ttl :: "u32 \<Rightarrow> u32" where
  "clamp_ttl ttl_ms =
     (if ttl_ms = 0 then SI_AGENT_REQUEST_DEFAULT_TTL_MS
      else if ttl_ms < SI_AGENT_REQUEST_MIN_TTL_MS then SI_AGENT_REQUEST_MIN_TTL_MS
      else if ttl_ms > SI_AGENT_REQUEST_MAX_TTL_MS then SI_AGENT_REQUEST_MAX_TTL_MS
      else ttl_ms)"

definition broker_now_ms :: "broker_env \<Rightarrow> broker \<Rightarrow> u32" where
  "broker_now_ms e b = be_now e (bk_now_fn b)"

text \<open>None is a failure of the hash function.\<close>

definition sha256_hex :: "broker_env \<Rightarrow> string \<Rightarrow> string option" where
  "sha256_hex e value = map_option (\<lambda>digest. concat (map (\<lambda>index. hex_fixed 2 (unat (digest ! index))) [0..<32])) (be_sha256 e value)"

definition broker_lock :: "broker_env \<Rightarrow> broker \<Rightarrow> esp_err_t" where
  "broker_lock e b = (if \<not> bk_lock b \<or> \<not> be_lock e then ESP_ERR_TIMEOUT else ESP_OK)"

text \<open>The difference as a signed 32-bit number is not negative.\<close>

definition deadline_reached :: "u32 \<Rightarrow> u32 \<Rightarrow> bool" where
  "deadline_reached now_ms expires_at_ms \<longleftrightarrow> now_ms - expires_at_ms < 0x80000000"

definition remaining_ttl :: "u32 \<Rightarrow> u32 \<Rightarrow> u32" where
  "remaining_ttl now_ms expires_at_ms = (if deadline_reached now_ms expires_at_ms then 0 else expires_at_ms - now_ms)"

section \<open>States\<close>

fun transition_allowed :: "si_agent_request_state_t \<Rightarrow> si_agent_request_state_t \<Rightarrow> bool" where
  "transition_allowed SI_AGENT_REQUEST_REQUESTED to =
     (to = SI_AGENT_REQUEST_EVALUATING \<or> to = SI_AGENT_REQUEST_CANCELLED \<or> to = SI_AGENT_REQUEST_EXPIRED)"
| "transition_allowed SI_AGENT_REQUEST_EVALUATING to =
     (to = SI_AGENT_REQUEST_REVIEWING \<or> to = SI_AGENT_REQUEST_WAITING_USER \<or> to = SI_AGENT_REQUEST_GRANTED \<or>
      to = SI_AGENT_REQUEST_DENIED \<or> to = SI_AGENT_REQUEST_CANCELLED \<or> to = SI_AGENT_REQUEST_EXPIRED)"
| "transition_allowed SI_AGENT_REQUEST_REVIEWING to =
     (to = SI_AGENT_REQUEST_WAITING_USER \<or> to = SI_AGENT_REQUEST_GRANTED \<or> to = SI_AGENT_REQUEST_DENIED \<or>
      to = SI_AGENT_REQUEST_CANCELLED \<or> to = SI_AGENT_REQUEST_EXPIRED)"
| "transition_allowed SI_AGENT_REQUEST_WAITING_USER to =
     (to = SI_AGENT_REQUEST_GRANTED \<or> to = SI_AGENT_REQUEST_DENIED \<or> to = SI_AGENT_REQUEST_CANCELLED \<or>
      to = SI_AGENT_REQUEST_EXPIRED)"
| "transition_allowed SI_AGENT_REQUEST_GRANTED to =
     (to = SI_AGENT_REQUEST_EXECUTING \<or> to = SI_AGENT_REQUEST_CANCELLED \<or> to = SI_AGENT_REQUEST_EXPIRED)"
| "transition_allowed SI_AGENT_REQUEST_EXECUTING to =
     (to = SI_AGENT_REQUEST_VERIFYING \<or> to = SI_AGENT_REQUEST_FAILED \<or> to = SI_AGENT_REQUEST_UNKNOWN)"
| "transition_allowed SI_AGENT_REQUEST_VERIFYING to =
     (to = SI_AGENT_REQUEST_COMPLETED \<or> to = SI_AGENT_REQUEST_FAILED \<or> to = SI_AGENT_REQUEST_UNKNOWN)"
| "transition_allowed from to = False"

text \<open>The times a new state sets.\<close>

definition stamp_state :: "si_agent_request_state_t \<Rightarrow> u32 \<Rightarrow> si_agent_request_status_t \<Rightarrow> si_agent_request_status_t" where
  "stamp_state next now_ms request =
     (if next \<in> {SI_AGENT_REQUEST_GRANTED, SI_AGENT_REQUEST_DENIED, SI_AGENT_REQUEST_EXPIRED, SI_AGENT_REQUEST_CANCELLED}
      then request\<lparr>rq_decided_ms := now_ms\<rparr>
      else if next = SI_AGENT_REQUEST_EXECUTING then request\<lparr>rq_consumed_ms := now_ms, rq_grant_consumed := True\<rparr>
      else if next = SI_AGENT_REQUEST_VERIFYING then request\<lparr>rq_verifying_ms := now_ms\<rparr>
      else if next \<in> {SI_AGENT_REQUEST_COMPLETED, SI_AGENT_REQUEST_FAILED, SI_AGENT_REQUEST_UNKNOWN}
      then request\<lparr>rq_completed_ms := now_ms\<rparr>
      else request)"

definition set_state_locked ::
    "si_agent_request_status_t \<Rightarrow> si_agent_request_state_t \<Rightarrow> u32 \<Rightarrow> bool \<times> si_agent_request_status_t" where
  "set_state_locked request next now_ms =
     (if \<not> transition_allowed (rq_state request) next then (False, request)
      else (True, stamp_state next now_ms (request\<lparr>rq_state := next\<rparr>)))"

text \<open>The calls that ignore the result.\<close>

definition set_state :: "si_agent_request_state_t \<Rightarrow> u32 \<Rightarrow> si_agent_request_status_t \<Rightarrow> si_agent_request_status_t" where
  "set_state next now_ms request = snd (set_state_locked request next now_ms)"

definition state_expires :: "si_agent_request_state_t \<Rightarrow> bool" where
  "state_expires state \<longleftrightarrow> state = SI_AGENT_REQUEST_REQUESTED \<or> state = SI_AGENT_REQUEST_EVALUATING \<or>
     state = SI_AGENT_REQUEST_REVIEWING \<or> state = SI_AGENT_REQUEST_WAITING_USER \<or> state = SI_AGENT_REQUEST_GRANTED"

definition state_terminal :: "si_agent_request_state_t \<Rightarrow> bool" where
  "state_terminal state \<longleftrightarrow> state = SI_AGENT_REQUEST_COMPLETED \<or> state = SI_AGENT_REQUEST_FAILED \<or> state = SI_AGENT_REQUEST_DENIED \<or>
     state = SI_AGENT_REQUEST_EXPIRED \<or> state = SI_AGENT_REQUEST_CANCELLED \<or> state = SI_AGENT_REQUEST_UNKNOWN"

abbreviation set_source :: "string \<Rightarrow> si_agent_request_status_t \<Rightarrow> si_agent_request_status_t" where
  "set_source t r \<equiv> r\<lparr>rq_decision_source := copy_text 24 (Some t)\<rparr>"

abbreviation set_error :: "string \<Rightarrow> si_agent_request_status_t \<Rightarrow> si_agent_request_status_t" where
  "set_error t r \<equiv> r\<lparr>rq_error := copy_text (SI_AGENT_REQUEST_ERROR_MAX_LEN + 1) (Some t)\<rparr>"

abbreviation set_decided_by :: "string \<Rightarrow> si_agent_request_status_t \<Rightarrow> si_agent_request_status_t" where
  "set_decided_by t r \<equiv> r\<lparr>rq_decided_by_session := copy_text (SI_AGENT_REQUEST_SESSION_ID_MAX_LEN + 1) (Some t)\<rparr>"

definition expire_request :: "u32 \<Rightarrow> si_agent_request_status_t \<Rightarrow> si_agent_request_status_t" where
  "expire_request now_ms request =
     (if state_expires (rq_state request) \<and> deadline_reached now_ms (rq_expires_at_ms request)
      then set_error ''request or grant expired'' (set_source ''ttl'' (set_state SI_AGENT_REQUEST_EXPIRED now_ms request))
      else request)"

definition expire_all_locked :: "u32 \<Rightarrow> broker \<Rightarrow> broker" where
  "expire_all_locked now_ms b = b\<lparr>bk_requests := map (expire_request now_ms) (bk_requests b)\<rparr>"

text \<open>The first record with a property, as an index.\<close>

fun find_loop :: "(si_agent_request_status_t \<Rightarrow> bool) \<Rightarrow> si_agent_request_status_t list \<Rightarrow> nat option" where
  "find_loop P [] = None"
| "find_loop P (r # rs) = (if P r then Some 0 else map_option Suc (find_loop P rs))"

definition find_by_id_locked :: "string option \<Rightarrow> broker \<Rightarrow> nat option" where
  "find_by_id_locked request_id b =
     (if c_or_empty request_id = [] then None
      else find_loop (\<lambda>r. rq_request_id r = c_or_empty request_id) (bk_requests b))"

definition find_idempotency_locked :: "string \<Rightarrow> broker \<Rightarrow> nat option" where
  "find_idempotency_locked idempotency_key b =
     find_loop (\<lambda>r. rq_state r \<noteq> SI_AGENT_REQUEST_EMPTY \<and> rq_idempotency_key r = idempotency_key) (bk_requests b)"

definition allocate_slot_locked :: "broker \<Rightarrow> nat option" where
  "allocate_slot_locked b = find_loop (\<lambda>r. rq_state r = SI_AGENT_REQUEST_EMPTY) (bk_requests b)"

definition put_request :: "nat \<Rightarrow> si_agent_request_status_t \<Rightarrow> broker \<Rightarrow> broker" where
  "put_request i r b = b\<lparr>bk_requests := (bk_requests b)[i := r]\<rparr>"

section \<open>Policy\<close>

definition auto_resources :: "string list" where
  "auto_resources = [''capability.catalog'', ''device.status'', ''observe_status'', ''observe_hid_status'', ''observe_video_status'',
     ''uart_status'', ''uart_read'', ''check_service'', ''verify_port'', ''memory_search'', ''history_search'', ''wait'', ''web_search'',
     ''host_display.observe'', ''host_display.status'', ''host_display.plan'', ''boot_key_sequence.status'', ''boot_key_sequence.plan'']"

definition resource_auto_approved :: "si_agent_request_v2_input_t \<Rightarrow> bool" where
  "resource_auto_approved i \<longleftrightarrow> vi_risk i = SI_AGENT_REQUEST_RISK_LOW \<and> \<not> vi_lease_required i \<and>
     c_or_empty (vi_resource i) \<in> set auto_resources"

definition binding_matches_status ::
    "si_agent_request_binding_input_t \<Rightarrow> si_agent_request_status_t \<Rightarrow> string \<Rightarrow> bool" where
  "binding_matches_status binding status normalized_args_hash \<longleftrightarrow>
     bi_device_id binding = Some (rq_device_id status) \<and> bi_thread_id binding = Some (rq_thread_id status) \<and>
     bi_turn_id binding = Some (rq_turn_id status) \<and> bi_run_id binding = Some (rq_run_id status) \<and>
     bi_step_id binding = Some (rq_step_id status) \<and> bi_plan_version binding = rq_plan_version status \<and>
     bi_idempotency_key binding = Some (rq_idempotency_key status) \<and> normalized_args_hash = rq_normalized_args_hash status"

definition request_exact_match ::
    "si_agent_request_v2_input_t \<Rightarrow> si_agent_request_status_t \<Rightarrow> string \<Rightarrow> bool" where
  "request_exact_match i status normalized_args_hash \<longleftrightarrow>
     binding_matches_status (vi_binding i) status normalized_args_hash \<and>
     vi_kind i = rq_kind status \<and> vi_risk i = rq_risk status \<and> vi_lease_required i = rq_lease_required status \<and>
     vi_reviewer_allowed i = rq_reviewer_allowed status \<and> vi_requested_grant_scope i = rq_requested_grant_scope status \<and>
     vi_resource i = Some (rq_resource status) \<and> vi_reason i = Some (rq_reason status) \<and>
     c_or_empty (vi_expected_effect i) = rq_expected_effect status \<and> c_or_empty (vi_verification i) = rq_verification status \<and>
     actor_equal (vi_requester i) (rq_requester status)"

definition grant_scope_matches ::
    "si_agent_request_v2_input_t \<Rightarrow> string \<Rightarrow> u32 \<Rightarrow> si_agent_request_status_t \<Rightarrow> bool" where
  "grant_scope_matches i normalized_args_hash now_ms grant \<longleftrightarrow>
     (let binding = vi_binding i;
          thread = (bi_thread_id binding = Some (rq_thread_id grant));
          turn = (bi_turn_id binding = Some (rq_turn_id grant));
          run = (bi_run_id binding = Some (rq_run_id grant));
          step = (bi_step_id binding = Some (rq_step_id grant))
      in
      rq_state grant = SI_AGENT_REQUEST_COMPLETED \<and> rq_grant_scope grant \<noteq> SI_AGENT_REQUEST_GRANT_ONCE \<and>
      \<not> deadline_reached now_ms (rq_expires_at_ms grant) \<and> rq_kind grant = vi_kind i \<and> rq_risk grant = vi_risk i \<and>
      rq_lease_required grant = vi_lease_required i \<and> rq_plan_version grant = bi_plan_version binding \<and>
      bi_device_id binding = Some (rq_device_id grant) \<and> vi_resource i = Some (rq_resource grant) \<and>
      rq_expected_effect grant = c_or_empty (vi_expected_effect i) \<and> rq_verification grant = c_or_empty (vi_verification i) \<and>
      rq_normalized_args_hash grant = normalized_args_hash \<and> actor_equal (rq_requester grant) (vi_requester i) \<and>
      (case rq_grant_scope grant of
         SI_AGENT_REQUEST_GRANT_STEP \<Rightarrow> thread \<and> turn \<and> run \<and> step
       | SI_AGENT_REQUEST_GRANT_RUN \<Rightarrow> thread \<and> turn \<and> run
       | SI_AGENT_REQUEST_GRANT_THREAD \<Rightarrow>
           rq_kind grant = SI_AGENT_REQUEST_KIND_CONTEXT \<and> rq_risk grant = SI_AGENT_REQUEST_RISK_LOW \<and> thread
       | _ \<Rightarrow> False))"

definition binding_valid :: "si_agent_request_binding_input_t \<Rightarrow> bool" where
  "binding_valid binding \<longleftrightarrow>
     value_valid (bi_device_id binding) SI_AGENT_REQUEST_DEVICE_ID_MAX_LEN True \<and>
     value_valid (bi_thread_id binding) SI_AGENT_REQUEST_THREAD_ID_MAX_LEN True \<and>
     value_valid (bi_turn_id binding) SI_AGENT_REQUEST_TURN_ID_MAX_LEN True \<and>
     value_valid (bi_run_id binding) SI_AGENT_REQUEST_RUN_ID_MAX_LEN True \<and>
     value_valid (bi_step_id binding) SI_AGENT_REQUEST_STEP_ID_MAX_LEN True \<and>
     bi_plan_version binding \<noteq> 0 \<and>
     value_valid (bi_normalized_args_json binding) SI_AGENT_REQUEST_PARAMS_MAX_LEN True \<and>
     value_valid (bi_idempotency_key binding) SI_AGENT_REQUEST_IDEMPOTENCY_KEY_MAX_LEN True"

definition v2_input_valid :: "si_agent_request_v2_input_t option \<Rightarrow> bool" where
  "v2_input_valid input =
     (case input of None \<Rightarrow> False
      | Some i \<Rightarrow>
          kind_valid (vi_kind i) \<and> risk_valid (vi_risk i) \<and>
          (vi_delegated_auto_approval i \<longrightarrow> risk_valid (vi_auto_approve_through i)) \<and>
          scope_valid (vi_requested_grant_scope i) \<and>
          ac_principal (vi_requester i) = SI_AGENT_REQUEST_PRINCIPAL_AGENT \<and> actor_valid (vi_requester i) True \<and>
          binding_valid (vi_binding i) \<and>
          value_valid (vi_resource i) SI_AGENT_REQUEST_RESOURCE_MAX_LEN True \<and>
          value_valid (vi_reason i) SI_AGENT_REQUEST_REASON_MAX_LEN True \<and>
          value_valid (vi_expected_effect i) SI_AGENT_REQUEST_EFFECT_MAX_LEN (vi_kind i = SI_AGENT_REQUEST_KIND_ACTION) \<and>
          value_valid (vi_verification i) SI_AGENT_REQUEST_VERIFY_MAX_LEN (vi_kind i = SI_AGENT_REQUEST_KIND_ACTION) \<and>
          (vi_requested_grant_scope i \<noteq> SI_AGENT_REQUEST_GRANT_THREAD \<or>
           (vi_kind i = SI_AGENT_REQUEST_KIND_CONTEXT \<and> vi_risk i = SI_AGENT_REQUEST_RISK_LOW \<and> \<not> vi_lease_required i)))"

definition set_actor :: "si_agent_request_principal_t \<Rightarrow> string option \<Rightarrow> string option \<Rightarrow> si_agent_request_actor_t" where
  "set_actor who session_id instance_id =
     \<lparr>ac_principal = who, ac_session_id = copy_text (SI_AGENT_REQUEST_SESSION_ID_MAX_LEN + 1) session_id,
      ac_instance_id = copy_text (SI_AGENT_REQUEST_INSTANCE_ID_MAX_LEN + 1) instance_id\<rparr>"

section \<open>Operations\<close>

definition si_agent_request_broker_start :: "broker_env \<Rightarrow> broker \<Rightarrow> esp_err_t \<times> broker" where
  "si_agent_request_broker_start e b =
     (if bk_lock b then (ESP_OK, b)
      else if \<not> be_created e then (ESP_ERR_NO_MEM, b)
      else (ESP_OK, b\<lparr>bk_lock := True, bk_requests := replicate SI_AGENT_REQUEST_QUEUE_CAPACITY zero_request, bk_next_sequence := 1\<rparr>))"

text \<open>Every operation starts the broker and takes the mutex.\<close>

definition broker_enter :: "broker_env \<Rightarrow> broker \<Rightarrow> esp_err_t \<times> broker" where
  "broker_enter e b =
     (let (ret, b) = si_agent_request_broker_start e b in if ret \<noteq> ESP_OK then (ret, b) else (broker_lock e b, b))"

definition si_agent_request_broker_set_now_provider :: "broker_env \<Rightarrow> nat option \<Rightarrow> broker \<Rightarrow> esp_err_t \<times> broker" where
  "si_agent_request_broker_set_now_provider e now_fn b =
     (let (ret, b) = broker_enter e b in if ret \<noteq> ESP_OK then (ret, b) else (ESP_OK, b\<lparr>bk_now_fn := now_fn\<rparr>))"

definition make_request_id :: "u32 \<Rightarrow> u64 \<Rightarrow> string" where
  "make_request_id random sequence =
     copy_text (SI_AGENT_REQUEST_ID_MAX_LEN + 1)
       (Some (''req-'' @ hex_fixed 8 (unat random) @ ''-'' @ hex_fixed 8 (unat (ucast sequence :: u32))))"

text \<open>The record of a new request before it is evaluated.\<close>

definition new_request ::
    "broker_env \<Rightarrow> u32 \<Rightarrow> u64 \<Rightarrow> si_agent_request_v2_input_t \<Rightarrow> string \<Rightarrow> si_agent_request_status_t" where
  "new_request e now_ms sequence i args_hash =
     zero_request\<lparr>rq_state := SI_AGENT_REQUEST_REQUESTED, rq_sequence := sequence, rq_created_ms := now_ms,
       rq_expires_at_ms := now_ms + clamp_ttl (vi_ttl_ms i), rq_kind := vi_kind i, rq_risk := vi_risk i,
       rq_lease_required := vi_lease_required i, rq_reviewer_allowed := vi_reviewer_allowed i,
       rq_requested_grant_scope := vi_requested_grant_scope i, rq_grant_scope := SI_AGENT_REQUEST_GRANT_ONCE,
       rq_plan_version := bi_plan_version (vi_binding i), rq_requester := vi_requester i,
       rq_request_id := make_request_id (be_random e) sequence,
       rq_device_id := copy_text (SI_AGENT_REQUEST_DEVICE_ID_MAX_LEN + 1) (bi_device_id (vi_binding i)),
       rq_thread_id := copy_text (SI_AGENT_REQUEST_THREAD_ID_MAX_LEN + 1) (bi_thread_id (vi_binding i)),
       rq_turn_id := copy_text (SI_AGENT_REQUEST_TURN_ID_MAX_LEN + 1) (bi_turn_id (vi_binding i)),
       rq_run_id := copy_text (SI_AGENT_REQUEST_RUN_ID_MAX_LEN + 1) (bi_run_id (vi_binding i)),
       rq_step_id := copy_text (SI_AGENT_REQUEST_STEP_ID_MAX_LEN + 1) (bi_step_id (vi_binding i)),
       rq_resource := copy_text (SI_AGENT_REQUEST_RESOURCE_MAX_LEN + 1) (vi_resource i),
       rq_reason := copy_text (SI_AGENT_REQUEST_REASON_MAX_LEN + 1) (vi_reason i),
       rq_params_json := copy_text (SI_AGENT_REQUEST_PARAMS_MAX_LEN + 1) (bi_normalized_args_json (vi_binding i)),
       rq_params_hash := copy_text (SI_AGENT_REQUEST_HASH_HEX_LEN + 1) (Some args_hash),
       rq_normalized_args_hash := copy_text (SI_AGENT_REQUEST_HASH_HEX_LEN + 1) (Some args_hash),
       rq_idempotency_key := copy_text (SI_AGENT_REQUEST_IDEMPOTENCY_KEY_MAX_LEN + 1) (bi_idempotency_key (vi_binding i)),
       rq_expected_effect := copy_text (SI_AGENT_REQUEST_EFFECT_MAX_LEN + 1) (vi_expected_effect i),
       rq_verification := copy_text (SI_AGENT_REQUEST_VERIFY_MAX_LEN + 1) (vi_verification i)\<rparr>"

text \<open>A grant that is reused; a decision of the policy.\<close>

definition reuse_grant ::
    "u32 \<Rightarrow> si_agent_request_v2_input_t \<Rightarrow> si_agent_request_status_t \<Rightarrow> si_agent_request_status_t \<Rightarrow> si_agent_request_status_t" where
  "reuse_grant now_ms i grant request =
     (let request = request\<lparr>rq_grant_scope :=
            (if scope_value (rq_grant_scope grant) < scope_value (vi_requested_grant_scope i)
             then rq_grant_scope grant else vi_requested_grant_scope i)\<rparr>;
          request = (if remaining_ttl now_ms (rq_expires_at_ms grant) < remaining_ttl now_ms (rq_expires_at_ms request)
                     then request\<lparr>rq_expires_at_ms := rq_expires_at_ms grant\<rparr> else request);
          request = request\<lparr>rq_parent_grant_request_id := copy_text (SI_AGENT_REQUEST_ID_MAX_LEN + 1) (Some (rq_request_id grant))\<rparr>;
          request = set_source ''grant_reuse'' request;
          request = request\<lparr>rq_decider := rq_decider grant, rq_reviewer := rq_reviewer grant\<rparr>;
          request = set_decided_by (rq_decided_by_session grant) request
      in set_state SI_AGENT_REQUEST_GRANTED now_ms request)"

definition policy_grant ::
    "u32 \<Rightarrow> string \<Rightarrow> string \<Rightarrow> string \<Rightarrow> si_agent_request_status_t \<Rightarrow> si_agent_request_status_t" where
  "policy_grant now_ms session instance_id source request =
     set_state SI_AGENT_REQUEST_GRANTED now_ms
       (set_decided_by session (set_source source
          (request\<lparr>rq_grant_scope := SI_AGENT_REQUEST_GRANT_ONCE,
                   rq_decider := set_actor SI_AGENT_REQUEST_PRINCIPAL_POLICY (Some session) (Some instance_id)\<rparr>)))"

definition evaluate_request ::
    "u32 \<Rightarrow> si_agent_request_v2_input_t \<Rightarrow> si_agent_request_status_t option \<Rightarrow> si_agent_request_status_t \<Rightarrow> si_agent_request_status_t" where
  "evaluate_request now_ms i reusable request =
     (let request = set_state SI_AGENT_REQUEST_EVALUATING now_ms request in
      case reusable of
        Some grant \<Rightarrow> reuse_grant now_ms i grant request
      | None \<Rightarrow>
          if vi_delegated_auto_approval i \<and> risk_value (vi_risk i) \<le> risk_value (vi_auto_approve_through i)
          then policy_grant now_ms ''access-mode'' ''delegated-policy-v1'' ''delegated_policy'' request
          else if resource_auto_approved i
          then policy_grant now_ms ''broker'' ''deterministic-policy-v1'' ''policy'' request
          else if vi_reviewer_allowed i \<and> risk_value (vi_risk i) \<le> risk_value SI_AGENT_REQUEST_RISK_MEDIUM
          then set_state SI_AGENT_REQUEST_REVIEWING now_ms request
          else set_state SI_AGENT_REQUEST_WAITING_USER now_ms request)"

text \<open>The part under the mutex, after the expiry: a duplicate is answered, or a free slot gets the new request.\<close>

definition create_locked ::
    "broker_env \<Rightarrow> si_agent_request_v2_input_t \<Rightarrow> string \<Rightarrow> u32 \<Rightarrow> broker \<Rightarrow> esp_err_t \<times> si_agent_request_status_t option \<times> broker" where
  "create_locked e i args_hash now_ms b =
     (case find_idempotency_locked (c_or_empty (bi_idempotency_key (vi_binding i))) b of
        Some d \<Rightarrow>
          (let duplicate = bk_requests b ! d
           in (if request_exact_match i duplicate args_hash then ESP_OK else ESP_ERR_INVALID_STATE, Some duplicate, b))
      | None \<Rightarrow>
          (let reusable = map_option (\<lambda>g. bk_requests b ! g) (find_loop (grant_scope_matches i args_hash now_ms) (bk_requests b))
           in (case allocate_slot_locked b of
                 None \<Rightarrow> (ESP_ERR_NO_MEM, None, b)
               | Some slot \<Rightarrow>
                   (let sequence = bk_next_sequence b;
                        request = evaluate_request now_ms i reusable (new_request e now_ms sequence i args_hash)
                    in (ESP_OK, Some request, put_request slot request (b\<lparr>bk_next_sequence := sequence + 1\<rparr>))))))"

definition si_agent_request_broker_create_v2 ::
    "broker_env \<Rightarrow> si_agent_request_v2_input_t option \<Rightarrow> broker \<Rightarrow> esp_err_t \<times> si_agent_request_status_t option \<times> broker" where
  "si_agent_request_broker_create_v2 e input b =
     (if \<not> v2_input_valid input then (ESP_ERR_INVALID_ARG, None, b)
      else
        case sha256_hex e (c_or_empty (bi_normalized_args_json (vi_binding (the input)))) of
          None \<Rightarrow> (ESP_FAIL, None, b)
        | Some args_hash \<Rightarrow>
            let (ret, b) = broker_enter e b in
            if ret \<noteq> ESP_OK then (ret, None, b)
            else
              let now_ms = broker_now_ms e b
              in create_locked e (the input) args_hash now_ms (expire_all_locked now_ms b))"

definition si_agent_request_broker_get_by_id ::
    "broker_env \<Rightarrow> string option \<Rightarrow> bool \<Rightarrow> broker \<Rightarrow> esp_err_t \<times> si_agent_request_status_t option \<times> broker" where
  "si_agent_request_broker_get_by_id e request_id out b =
     (if \<not> value_valid request_id SI_AGENT_REQUEST_ID_MAX_LEN True \<or> \<not> out then (ESP_ERR_INVALID_ARG, None, b)
      else
        let (ret, b) = broker_enter e b in
        if ret \<noteq> ESP_OK then (ret, None, b)
        else
          let b = expire_all_locked (broker_now_ms e b) b in
          case find_by_id_locked request_id b of
            Some r \<Rightarrow> (ESP_OK, Some (bk_requests b ! r), b)
          | None \<Rightarrow> (ESP_ERR_NOT_FOUND, Some zero_request, b))"

text \<open>The insertion of an index into the list sorted by sequence numbers, from its end.\<close>

definition insert_index :: "si_agent_request_status_t list \<Rightarrow> nat list \<Rightarrow> nat \<Rightarrow> nat list" where
  "insert_index rs indices index =
     (let later = (\<lambda>j. rq_sequence (rs ! j) > rq_sequence (rs ! index))
      in rev (dropWhile later (rev indices)) @ [index] @ rev (takeWhile later (rev indices)))"

definition of_run :: "string option \<Rightarrow> si_agent_request_status_t \<Rightarrow> bool" where
  "of_run run_id r \<longleftrightarrow> rq_state r \<noteq> SI_AGENT_REQUEST_EMPTY \<and> (c_or_empty run_id = [] \<or> c_or_empty run_id = rq_run_id r)"

definition si_agent_request_broker_enumerate ::
    "broker_env \<Rightarrow> string option \<Rightarrow> bool \<Rightarrow> nat \<Rightarrow> bool \<Rightarrow> broker \<Rightarrow> esp_err_t \<times> si_agent_request_status_t list \<times> nat \<times> broker" where
  "si_agent_request_broker_enumerate e run_id out capacity out_count b =
     (if \<not> out_count \<or> (run_id \<noteq> None \<and> \<not> value_valid run_id SI_AGENT_REQUEST_RUN_ID_MAX_LEN False) \<or> (capacity > 0 \<and> \<not> out)
      then (ESP_ERR_INVALID_ARG, [], 0, b)
      else
        let (ret, b) = broker_enter e b in
        if ret \<noteq> ESP_OK then (ret, [], 0, b)
        else
          let b = expire_all_locked (broker_now_ms e b) b;
              rs = bk_requests b;
              indices = foldl (insert_index rs) [] (filter (\<lambda>index. of_run run_id (rs ! index)) [0..<length rs]);
              count = length indices
          in (if count > capacity then ESP_ERR_INVALID_SIZE else ESP_OK, map ((!) rs) (take capacity indices), count, b))"

text \<open>What a decision makes of a request that waits for one.\<close>

definition decide_request ::
    "u32 \<Rightarrow> si_agent_request_decision_t \<Rightarrow> si_agent_request_status_t \<Rightarrow> esp_err_t \<times> si_agent_request_status_t" where
  "decide_request now_ms d request =
     (if actor_equal (de_decider d) (rq_requester request) then (ESP_ERR_INVALID_STATE, request)
      else if rq_state request \<noteq> SI_AGENT_REQUEST_WAITING_USER \<and> rq_state request \<noteq> SI_AGENT_REQUEST_REVIEWING
      then (ESP_ERR_INVALID_STATE, request)
      else
        let browser_decision = (ac_principal (de_decider d) = SI_AGENT_REQUEST_PRINCIPAL_BROWSER);
            reviewer_decision = (ac_principal (de_decider d) = SI_AGENT_REQUEST_PRINCIPAL_REVIEWER \<and> rq_reviewer_allowed request \<and>
              risk_value (rq_risk request) \<le> risk_value SI_AGENT_REQUEST_RISK_MEDIUM)
        in
        if \<not> browser_decision \<and> \<not> reviewer_decision then (ESP_ERR_INVALID_STATE, request)
        else if de_approved d \<and>
                (scope_value (de_grant_scope d) > scope_value (rq_requested_grant_scope request) \<or>
                 (de_grant_scope d = SI_AGENT_REQUEST_GRANT_THREAD \<and>
                  (rq_kind request \<noteq> SI_AGENT_REQUEST_KIND_CONTEXT \<or> rq_risk request \<noteq> SI_AGENT_REQUEST_RISK_LOW \<or>
                   rq_lease_required request)))
        then (ESP_ERR_INVALID_ARG, request)
        else
          let request = request\<lparr>rq_decider := de_decider d\<rparr>;
              request = (if reviewer_decision then set_source ''reviewer'' (request\<lparr>rq_reviewer := de_decider d\<rparr>)
                         else set_source ''browser'' request);
              request = set_decided_by (ac_session_id (de_decider d)) request
          in (ESP_OK,
              if de_approved d
              then set_state SI_AGENT_REQUEST_GRANTED now_ms
                     (request\<lparr>rq_grant_scope := de_grant_scope d,
                              rq_response := copy_text (SI_AGENT_REQUEST_RESPONSE_MAX_LEN + 1) (de_response d)\<rparr>)
              else set_state SI_AGENT_REQUEST_DENIED now_ms (set_error ''request denied'' request)))"

text \<open>The rest of an operation on the record with an identifier.\<close>

definition with_request ::
    "string option \<Rightarrow> (si_agent_request_status_t \<Rightarrow> esp_err_t \<times> si_agent_request_status_t) \<Rightarrow> broker \<Rightarrow>
     esp_err_t \<times> si_agent_request_status_t option \<times> broker" where
  "with_request request_id f b =
     (case find_by_id_locked request_id b of
        None \<Rightarrow> (ESP_ERR_NOT_FOUND, None, b)
      | Some r \<Rightarrow> let (ret, request) = f (bk_requests b ! r) in (ret, Some request, put_request r request b))"

definition si_agent_request_broker_decide_v2 ::
    "broker_env \<Rightarrow> si_agent_request_decision_t option \<Rightarrow> broker \<Rightarrow> esp_err_t \<times> si_agent_request_status_t option \<times> broker" where
  "si_agent_request_broker_decide_v2 e decision b =
     (case decision of None \<Rightarrow> (ESP_ERR_INVALID_ARG, None, b)
      | Some d \<Rightarrow>
          if \<not> value_valid (de_request_id d) SI_AGENT_REQUEST_ID_MAX_LEN True \<or>
             \<not> value_valid (de_response d) SI_AGENT_REQUEST_RESPONSE_MAX_LEN False \<or>
             \<not> actor_valid (de_decider d) True \<or> \<not> scope_valid (de_grant_scope d)
          then (ESP_ERR_INVALID_ARG, None, b)
          else
            let (ret, b) = broker_enter e b in
            if ret \<noteq> ESP_OK then (ret, None, b)
            else
              let now_ms = broker_now_ms e b
              in with_request (de_request_id d) (decide_request now_ms d) (expire_all_locked now_ms b))"

definition consume_request ::
    "u32 \<Rightarrow> si_agent_request_consume_t \<Rightarrow> string \<Rightarrow> si_agent_request_status_t \<Rightarrow> esp_err_t \<times> si_agent_request_status_t" where
  "consume_request now_ms c args_hash request =
     (if rq_state request \<noteq> SI_AGENT_REQUEST_GRANTED then (ESP_ERR_INVALID_STATE, request)
      else if \<not> binding_matches_status (co_binding c) request args_hash
      then (ESP_ERR_INVALID_STATE,
            set_error ''binding, plan, arguments, or idempotency changed''
              (set_source ''scope_changed'' (set_state SI_AGENT_REQUEST_EXPIRED now_ms request)))
      else
        let (ok, request) = set_state_locked request SI_AGENT_REQUEST_EXECUTING now_ms
        in (if \<not> ok then ESP_ERR_INVALID_STATE else ESP_OK, request))"

definition si_agent_request_broker_consume ::
    "broker_env \<Rightarrow> si_agent_request_consume_t option \<Rightarrow> broker \<Rightarrow> esp_err_t \<times> si_agent_request_status_t option \<times> broker" where
  "si_agent_request_broker_consume e consume b =
     (case consume of None \<Rightarrow> (ESP_ERR_INVALID_ARG, None, b)
      | Some c \<Rightarrow>
          if \<not> value_valid (co_request_id c) SI_AGENT_REQUEST_ID_MAX_LEN True \<or> \<not> binding_valid (co_binding c)
          then (ESP_ERR_INVALID_ARG, None, b)
          else
            (case sha256_hex e (c_or_empty (bi_normalized_args_json (co_binding c))) of
               None \<Rightarrow> (ESP_FAIL, None, b)
             | Some args_hash \<Rightarrow>
                 let (ret, b) = broker_enter e b in
                 if ret \<noteq> ESP_OK then (ret, None, b)
                 else
                   let now_ms = broker_now_ms e b
                   in with_request (co_request_id c) (consume_request now_ms c args_hash) (expire_all_locked now_ms b)))"

text \<open>The state is set, and on success the record is completed by \<open>f\<close>.\<close>

definition advance_request ::
    "si_agent_request_state_t \<Rightarrow> u32 \<Rightarrow> (si_agent_request_status_t \<Rightarrow> si_agent_request_status_t) \<Rightarrow> si_agent_request_status_t \<Rightarrow>
     esp_err_t \<times> si_agent_request_status_t" where
  "advance_request next now_ms f request =
     (let (ok, request) = set_state_locked request next now_ms
      in if \<not> ok then (ESP_ERR_INVALID_STATE, request) else (ESP_OK, f request))"

definition si_agent_request_broker_mark_verifying ::
    "broker_env \<Rightarrow> string option \<Rightarrow> broker \<Rightarrow> esp_err_t \<times> si_agent_request_status_t option \<times> broker" where
  "si_agent_request_broker_mark_verifying e request_id b =
     (if \<not> value_valid request_id SI_AGENT_REQUEST_ID_MAX_LEN True then (ESP_ERR_INVALID_ARG, None, b)
      else
        let (ret, b) = broker_enter e b in
        if ret \<noteq> ESP_OK then (ret, None, b)
        else with_request request_id (advance_request SI_AGENT_REQUEST_VERIFYING (broker_now_ms e b) id) b)"

definition si_agent_request_broker_complete_verified ::
    "broker_env \<Rightarrow> string option \<Rightarrow> string option \<Rightarrow> broker \<Rightarrow> esp_err_t \<times> si_agent_request_status_t option \<times> broker" where
  "si_agent_request_broker_complete_verified e request_id verification_evidence b =
     (if \<not> value_valid request_id SI_AGENT_REQUEST_ID_MAX_LEN True \<or>
         \<not> value_valid verification_evidence SI_AGENT_REQUEST_RESPONSE_MAX_LEN True
      then (ESP_ERR_INVALID_ARG, None, b)
      else
        let (ret, b) = broker_enter e b in
        if ret \<noteq> ESP_OK then (ret, None, b)
        else with_request request_id
               (advance_request SI_AGENT_REQUEST_COMPLETED (broker_now_ms e b)
                  (\<lambda>r. r\<lparr>rq_verification_evidence := copy_text (SI_AGENT_REQUEST_RESPONSE_MAX_LEN + 1) verification_evidence, rq_error := []\<rparr>)) b)"

definition si_agent_request_broker_mark_unknown ::
    "broker_env \<Rightarrow> string option \<Rightarrow> string option \<Rightarrow> broker \<Rightarrow> esp_err_t \<times> si_agent_request_status_t option \<times> broker" where
  "si_agent_request_broker_mark_unknown e request_id error b =
     (if \<not> value_valid request_id SI_AGENT_REQUEST_ID_MAX_LEN True \<or> \<not> value_valid error SI_AGENT_REQUEST_ERROR_MAX_LEN False
      then (ESP_ERR_INVALID_ARG, None, b)
      else
        let (ret, b) = broker_enter e b in
        if ret \<noteq> ESP_OK then (ret, None, b)
        else with_request request_id
               (advance_request SI_AGENT_REQUEST_UNKNOWN (broker_now_ms e b)
                  (set_error (if c_or_empty error \<noteq> [] then c_or_empty error else ''execution outcome unknown''))) b)"

section \<open>Snapshots\<close>

definition snapshot_texts_valid :: "si_agent_request_status_t \<Rightarrow> bool" where
  "snapshot_texts_valid s \<longleftrightarrow>
     fixed_value_valid (rq_request_id s) (SI_AGENT_REQUEST_ID_MAX_LEN + 1) True \<and>
     fixed_value_valid (rq_parent_grant_request_id s) (SI_AGENT_REQUEST_ID_MAX_LEN + 1) False \<and>
     fixed_value_valid (rq_device_id s) (SI_AGENT_REQUEST_DEVICE_ID_MAX_LEN + 1) True \<and>
     fixed_value_valid (rq_thread_id s) (SI_AGENT_REQUEST_THREAD_ID_MAX_LEN + 1) True \<and>
     fixed_value_valid (rq_turn_id s) (SI_AGENT_REQUEST_TURN_ID_MAX_LEN + 1) True \<and>
     fixed_value_valid (rq_run_id s) (SI_AGENT_REQUEST_RUN_ID_MAX_LEN + 1) True \<and>
     fixed_value_valid (rq_step_id s) (SI_AGENT_REQUEST_STEP_ID_MAX_LEN + 1) True \<and>
     fixed_value_valid (rq_resource s) (SI_AGENT_REQUEST_RESOURCE_MAX_LEN + 1) True \<and>
     fixed_value_valid (rq_reason s) (SI_AGENT_REQUEST_REASON_MAX_LEN + 1) True \<and>
     fixed_value_valid (rq_params_json s) (SI_AGENT_REQUEST_PARAMS_MAX_LEN + 1) True \<and>
     fixed_value_valid (rq_normalized_args_hash s) (SI_AGENT_REQUEST_HASH_HEX_LEN + 1) True \<and>
     fixed_value_valid (rq_params_hash s) (SI_AGENT_REQUEST_HASH_HEX_LEN + 1) True \<and>
     fixed_value_valid (rq_idempotency_key s) (SI_AGENT_REQUEST_IDEMPOTENCY_KEY_MAX_LEN + 1) True \<and>
     fixed_value_valid (rq_expected_effect s) (SI_AGENT_REQUEST_EFFECT_MAX_LEN + 1) False \<and>
     fixed_value_valid (rq_verification s) (SI_AGENT_REQUEST_VERIFY_MAX_LEN + 1) False \<and>
     fixed_value_valid (rq_decision_source s) 24 False \<and>
     fixed_value_valid (rq_decided_by_session s) (SI_AGENT_REQUEST_SESSION_ID_MAX_LEN + 1) False \<and>
     fixed_value_valid (rq_response s) (SI_AGENT_REQUEST_RESPONSE_MAX_LEN + 1) False \<and>
     fixed_value_valid (rq_verification_evidence s) (SI_AGENT_REQUEST_RESPONSE_MAX_LEN + 1) False \<and>
     fixed_value_valid (rq_error s) (SI_AGENT_REQUEST_ERROR_MAX_LEN + 1) False"

definition effect_started :: "si_agent_request_state_t \<Rightarrow> bool" where
  "effect_started state \<longleftrightarrow> state = SI_AGENT_REQUEST_EXECUTING \<or> state = SI_AGENT_REQUEST_VERIFYING \<or>
     state = SI_AGENT_REQUEST_COMPLETED \<or> state = SI_AGENT_REQUEST_FAILED \<or> state = SI_AGENT_REQUEST_UNKNOWN"

definition snapshot_status_valid :: "broker_env \<Rightarrow> si_agent_request_status_t \<Rightarrow> bool" where
  "snapshot_status_valid e s \<longleftrightarrow>
     state_valid (rq_state s) \<and> kind_valid (rq_kind s) \<and> risk_valid (rq_risk s) \<and> scope_valid (rq_requested_grant_scope s) \<and>
     scope_valid (rq_grant_scope s) \<and> rq_plan_version s \<noteq> 0 \<and> rq_sequence s \<noteq> 0 \<and>
     ac_principal (rq_requester s) = SI_AGENT_REQUEST_PRINCIPAL_AGENT \<and> actor_valid (rq_requester s) True \<and>
     snapshot_texts_valid s \<and>
     (ac_principal (rq_reviewer s) \<noteq> SI_AGENT_REQUEST_PRINCIPAL_UNSPECIFIED \<longrightarrow>
      ac_principal (rq_reviewer s) = SI_AGENT_REQUEST_PRINCIPAL_REVIEWER \<and> actor_valid (rq_reviewer s) True) \<and>
     (ac_principal (rq_decider s) \<noteq> SI_AGENT_REQUEST_PRINCIPAL_UNSPECIFIED \<longrightarrow> actor_valid (rq_decider s) True) \<and>
     (rq_grant_scope s = SI_AGENT_REQUEST_GRANT_THREAD \<longrightarrow>
      rq_kind s = SI_AGENT_REQUEST_KIND_CONTEXT \<and> rq_risk s = SI_AGENT_REQUEST_RISK_LOW \<and> \<not> rq_lease_required s) \<and>
     rq_grant_consumed s = effect_started (rq_state s) \<and>
     (case sha256_hex e (rq_params_json s) of None \<Rightarrow> False
      | Some hash \<Rightarrow> hash = rq_normalized_args_hash s \<and> hash = rq_params_hash s)"

definition si_agent_request_broker_export_snapshot ::
    "broker_env \<Rightarrow> bool \<Rightarrow> broker \<Rightarrow> esp_err_t \<times> si_agent_request_snapshot_t option \<times> broker" where
  "si_agent_request_broker_export_snapshot e out b =
     (if \<not> out then (ESP_ERR_INVALID_ARG, None, b)
      else
        let (ret, b) = broker_enter e b in
        if ret \<noteq> ESP_OK then (ret, None, b)
        else
          let now_ms = broker_now_ms e b;
              b = expire_all_locked now_ms b
          in (ESP_OK,
              Some \<lparr>sn_schema_version = SI_AGENT_REQUEST_SNAPSHOT_SCHEMA_VERSION, sn_next_sequence = bk_next_sequence b,
                    sn_entries = map (\<lambda>r. \<lparr>se_status = r, se_remaining_ttl_ms = remaining_ttl now_ms (rq_expires_at_ms r)\<rparr>)
                                   (filter (\<lambda>r. rq_state r \<noteq> SI_AGENT_REQUEST_EMPTY) (bk_requests b))\<rparr>,
              b))"

text \<open>The checks of the entries in order, against the ones before; the result is the largest sequence number.\<close>

fun import_check :: "broker_env \<Rightarrow> si_agent_request_status_t list \<Rightarrow> u64 \<Rightarrow> si_agent_request_status_t list \<Rightarrow> u64 option" where
  "import_check e previous max_sequence [] = Some max_sequence"
| "import_check e previous max_sequence (status # rest) =
     (if \<not> snapshot_status_valid e status then None
      else if list_ex (\<lambda>other. rq_request_id status = rq_request_id other \<or> rq_idempotency_key status = rq_idempotency_key other \<or>
                               rq_sequence status = rq_sequence other) previous
      then None
      else import_check e (previous @ [status]) (if rq_sequence status > max_sequence then rq_sequence status else max_sequence) rest)"

definition restore_request :: "u32 \<Rightarrow> si_agent_request_snapshot_entry_t \<Rightarrow> si_agent_request_status_t" where
  "restore_request now_ms entry =
     (let status = se_status entry; remaining = se_remaining_ttl_ms entry in
      if rq_state status = SI_AGENT_REQUEST_EXECUTING \<or> rq_state status = SI_AGENT_REQUEST_VERIFYING
      then set_error ''device restarted after effect began; outcome unknown''
             (set_source ''restore'' (status\<lparr>rq_state := SI_AGENT_REQUEST_UNKNOWN, rq_completed_ms := now_ms\<rparr>))
      else if rq_state status = SI_AGENT_REQUEST_GRANTED
      then set_error ''grant invalidated by restart''
             (set_source ''restore'' (status\<lparr>rq_state := SI_AGENT_REQUEST_EXPIRED, rq_decided_ms := now_ms\<rparr>))
      else if state_expires (rq_state status)
      then
        let status = status\<lparr>rq_expires_at_ms := now_ms + remaining\<rparr>
        in if remaining = 0
           then set_error ''request expired before restore''
                  (set_source ''restore'' (status\<lparr>rq_state := SI_AGENT_REQUEST_EXPIRED, rq_decided_ms := now_ms\<rparr>))
           else status
      else status\<lparr>rq_expires_at_ms := now_ms\<rparr>)"

definition si_agent_request_broker_import_snapshot ::
    "broker_env \<Rightarrow> si_agent_request_snapshot_t option \<Rightarrow> broker \<Rightarrow> esp_err_t \<times> broker" where
  "si_agent_request_broker_import_snapshot e snapshot b =
     (case snapshot of None \<Rightarrow> (ESP_ERR_INVALID_ARG, b)
      | Some s \<Rightarrow>
          if sn_schema_version s \<noteq> SI_AGENT_REQUEST_SNAPSHOT_SCHEMA_VERSION \<or> length (sn_entries s) > SI_AGENT_REQUEST_QUEUE_CAPACITY
          then (ESP_ERR_INVALID_ARG, b)
          else
            case import_check e [] 0 (map se_status (sn_entries s)) of
              None \<Rightarrow> (ESP_ERR_INVALID_ARG, b)
            | Some max_sequence \<Rightarrow>
                let (ret, b) = broker_enter e b in
                if ret \<noteq> ESP_OK then (ret, b)
                else
                  let now_ms = broker_now_ms e b;
                      candidate = (if sn_next_sequence s \<le> max_sequence then max_sequence + 1 else sn_next_sequence s)
                  in (ESP_OK,
                      b\<lparr>bk_requests := map (restore_request now_ms) (sn_entries s) @
                                        replicate (SI_AGENT_REQUEST_QUEUE_CAPACITY - length (sn_entries s)) zero_request,
                        bk_next_sequence := (if candidate > 0 then candidate else 1)\<rparr>))"

section \<open>Runs\<close>

definition retire_request :: "string \<Rightarrow> si_agent_request_status_t \<Rightarrow> si_agent_request_status_t" where
  "retire_request run_id r = (if rq_state r \<noteq> SI_AGENT_REQUEST_EMPTY \<and> rq_run_id r = run_id then zero_request else r)"

definition si_agent_request_broker_retire_run :: "broker_env \<Rightarrow> string option \<Rightarrow> broker \<Rightarrow> esp_err_t \<times> broker" where
  "si_agent_request_broker_retire_run e run_id b =
     (if \<not> value_valid run_id SI_AGENT_REQUEST_RUN_ID_MAX_LEN True then (ESP_ERR_INVALID_ARG, b)
      else
        let (ret, b) = broker_enter e b in
        if ret \<noteq> ESP_OK then (ret, b)
        else
          let b = expire_all_locked (broker_now_ms e b) b; run = c_or_empty run_id in
          if list_ex (\<lambda>r. rq_state r \<noteq> SI_AGENT_REQUEST_EMPTY \<and> rq_run_id r = run \<and> \<not> state_terminal (rq_state r)) (bk_requests b)
          then (ESP_ERR_INVALID_STATE, b)
          else (ESP_OK, b\<lparr>bk_requests := map (retire_request run) (bk_requests b)\<rparr>))"

definition terminalize_request :: "u32 \<Rightarrow> string \<Rightarrow> si_agent_request_status_t \<Rightarrow> si_agent_request_status_t" where
  "terminalize_request now_ms run_id r =
     (if rq_state r = SI_AGENT_REQUEST_EMPTY \<or> rq_run_id r \<noteq> run_id \<or> state_terminal (rq_state r) then r
      else set_source ''runtime''
             (if rq_state r = SI_AGENT_REQUEST_EXECUTING \<or> rq_state r = SI_AGENT_REQUEST_VERIFYING
              then set_error ''run retired after effect began; outcome unknown'' (set_state SI_AGENT_REQUEST_UNKNOWN now_ms r)
              else set_error ''run retired before effect began'' (set_state SI_AGENT_REQUEST_CANCELLED now_ms r)))"

definition si_agent_request_broker_terminalize_and_retire_run :: "broker_env \<Rightarrow> string option \<Rightarrow> broker \<Rightarrow> esp_err_t \<times> broker" where
  "si_agent_request_broker_terminalize_and_retire_run e run_id b =
     (if \<not> value_valid run_id SI_AGENT_REQUEST_RUN_ID_MAX_LEN True then (ESP_ERR_INVALID_ARG, b)
      else
        let (ret, b) = broker_enter e b in
        if ret \<noteq> ESP_OK then (ret, b)
        else
          let now_ms = broker_now_ms e b; run = c_or_empty run_id in
          if list_ex (\<lambda>r. \<not> (rq_state r = SI_AGENT_REQUEST_EMPTY \<or> rq_run_id r \<noteq> run \<or> state_terminal (rq_state r)) \<and>
                          \<not> state_expires (rq_state r) \<and> rq_state r \<noteq> SI_AGENT_REQUEST_EXECUTING \<and>
                          rq_state r \<noteq> SI_AGENT_REQUEST_VERIFYING) (bk_requests b)
          then (ESP_ERR_INVALID_STATE, b)
          else (ESP_OK, b\<lparr>bk_requests := map (retire_request run \<circ> terminalize_request now_ms run) (bk_requests b)\<rparr>))"

section \<open>The older interface\<close>

definition legacy_key :: "broker_env \<Rightarrow> broker \<Rightarrow> string" where
  "legacy_key e b = copy_text (SI_AGENT_REQUEST_IDEMPOTENCY_KEY_MAX_LEN + 1)
     (Some (''legacy-'' @ hex_fixed 8 (unat (be_random e)) @ ''-'' @ hex_fixed 8 (unat (broker_now_ms e b))))"

text \<open>The random number of the request's identifier is drawn after the one of the key, \<open>second_random\<close>.\<close>

definition si_agent_request_broker_create ::
    "broker_env \<Rightarrow> u32 \<Rightarrow> si_agent_request_input_t option \<Rightarrow> broker \<Rightarrow> esp_err_t \<times> si_agent_request_status_t option \<times> broker" where
  "si_agent_request_broker_create e second_random input b =
     (case input of None \<Rightarrow> (ESP_ERR_INVALID_ARG, None, b)
      | Some i \<Rightarrow>
          if \<not> value_valid (li_run_id i) SI_AGENT_REQUEST_RUN_ID_MAX_LEN True \<or>
             \<not> value_valid (li_resource i) SI_AGENT_REQUEST_RESOURCE_MAX_LEN True \<or>
             \<not> value_valid (li_reason i) SI_AGENT_REQUEST_REASON_MAX_LEN True \<or>
             \<not> value_valid (li_params_json i) SI_AGENT_REQUEST_PARAMS_MAX_LEN True \<or>
             \<not> value_valid (li_expected_effect i) SI_AGENT_REQUEST_EFFECT_MAX_LEN False \<or>
             \<not> value_valid (li_verification i) SI_AGENT_REQUEST_VERIFY_MAX_LEN False \<or>
             \<not> kind_valid (li_kind i) \<or> \<not> risk_valid (li_risk i)
          then (ESP_ERR_INVALID_ARG, None, b)
          else
            let v2 = \<lparr>vi_binding = \<lparr>bi_device_id = Some ''legacy-device'', bi_thread_id = li_run_id i, bi_turn_id = li_run_id i,
                        bi_run_id = li_run_id i, bi_step_id = Some ''legacy-step'', bi_plan_version = 1,
                        bi_normalized_args_json = li_params_json i, bi_idempotency_key = Some (legacy_key e b)\<rparr>,
                      vi_requester = set_actor SI_AGENT_REQUEST_PRINCIPAL_AGENT (li_run_id i) (Some ''legacy-embedded-agent''),
                      vi_kind = li_kind i, vi_resource = li_resource i, vi_reason = li_reason i,
                      vi_expected_effect = li_expected_effect i, vi_verification = li_verification i, vi_risk = li_risk i,
                      vi_lease_required = li_lease_required i, vi_reviewer_allowed = False, vi_delegated_auto_approval = False,
                      vi_auto_approve_through = SI_AGENT_REQUEST_RISK_LOW, vi_requested_grant_scope = SI_AGENT_REQUEST_GRANT_ONCE,
                      vi_ttl_ms = li_ttl_ms i\<rparr>
            in si_agent_request_broker_create_v2 (e\<lparr>be_random := second_random\<rparr>) (Some v2) b)"

fun newest_loop :: "string option \<Rightarrow> si_agent_request_status_t option \<Rightarrow> si_agent_request_status_t list \<Rightarrow> si_agent_request_status_t option" where
  "newest_loop run_id newest [] = newest"
| "newest_loop run_id newest (candidate # rest) =
     newest_loop run_id
       (if \<not> of_run run_id candidate then newest
        else (case newest of None \<Rightarrow> Some candidate
              | Some n \<Rightarrow> if rq_sequence candidate > rq_sequence n then Some candidate else newest)) rest"

definition si_agent_request_broker_get ::
    "broker_env \<Rightarrow> string option \<Rightarrow> bool \<Rightarrow> broker \<Rightarrow> esp_err_t \<times> si_agent_request_status_t option \<times> broker" where
  "si_agent_request_broker_get e run_id out b =
     (if \<not> out \<or> (run_id \<noteq> None \<and> \<not> value_valid run_id SI_AGENT_REQUEST_RUN_ID_MAX_LEN False) then (ESP_ERR_INVALID_ARG, None, b)
      else
        let (ret, b) = broker_enter e b in
        if ret \<noteq> ESP_OK then (ret, None, b)
        else
          let b = expire_all_locked (broker_now_ms e b) b in
          case newest_loop run_id None (bk_requests b) of
            Some newest \<Rightarrow> (ESP_OK, Some newest, b)
          | None \<Rightarrow> (if c_or_empty run_id \<noteq> [] then ESP_ERR_NOT_FOUND else ESP_OK, Some zero_request, b))"

definition si_agent_request_broker_decide ::
    "broker_env \<Rightarrow> string option \<Rightarrow> bool \<Rightarrow> string option \<Rightarrow> string option \<Rightarrow> broker \<Rightarrow>
     esp_err_t \<times> si_agent_request_status_t option \<times> broker" where
  "si_agent_request_broker_decide e request_id approved response session_id b =
     (if \<not> value_valid session_id SI_AGENT_REQUEST_SESSION_ID_MAX_LEN True then (ESP_ERR_INVALID_ARG, None, b)
      else si_agent_request_broker_decide_v2 e
             (Some \<lparr>de_request_id = request_id, de_approved = approved, de_response = response,
                    de_decider = set_actor SI_AGENT_REQUEST_PRINCIPAL_BROWSER session_id (Some ''legacy-browser''),
                    de_grant_scope = SI_AGENT_REQUEST_GRANT_ONCE\<rparr>) b)"

definition cancel_request :: "u32 \<Rightarrow> string \<Rightarrow> si_agent_request_status_t \<Rightarrow> esp_err_t \<times> si_agent_request_status_t" where
  "cancel_request now_ms session_id request =
     (if rq_state request = SI_AGENT_REQUEST_EXECUTING \<or> rq_state request = SI_AGENT_REQUEST_VERIFYING
      then (ESP_OK, set_error ''cancelled after execution began; outcome unknown''
              (set_decided_by session_id (set_source ''browser'' (set_state SI_AGENT_REQUEST_UNKNOWN now_ms request))))
      else if state_expires (rq_state request)
      then (ESP_OK, set_error ''request cancelled''
              (set_decided_by session_id (set_source ''browser'' (set_state SI_AGENT_REQUEST_CANCELLED now_ms request))))
      else (ESP_ERR_INVALID_STATE, request))"

definition si_agent_request_broker_cancel ::
    "broker_env \<Rightarrow> string option \<Rightarrow> string option \<Rightarrow> broker \<Rightarrow> esp_err_t \<times> si_agent_request_status_t option \<times> broker" where
  "si_agent_request_broker_cancel e request_id session_id b =
     (if \<not> value_valid request_id SI_AGENT_REQUEST_ID_MAX_LEN True \<or> \<not> value_valid session_id SI_AGENT_REQUEST_SESSION_ID_MAX_LEN True
      then (ESP_ERR_INVALID_ARG, None, b)
      else
        let (ret, b) = broker_enter e b in
        if ret \<noteq> ESP_OK then (ret, None, b)
        else
          let now_ms = broker_now_ms e b
          in with_request request_id (cancel_request now_ms (c_or_empty session_id)) (expire_all_locked now_ms b))"

definition finish_request :: "u32 \<Rightarrow> bool \<Rightarrow> string option \<Rightarrow> si_agent_request_status_t \<Rightarrow> esp_err_t \<times> si_agent_request_status_t" where
  "finish_request now_ms ok error request =
     (let request = (if rq_state request = SI_AGENT_REQUEST_GRANTED then set_state SI_AGENT_REQUEST_EXECUTING now_ms request else request) in
      if rq_state request \<noteq> SI_AGENT_REQUEST_EXECUTING then (ESP_ERR_INVALID_STATE, request)
      else if ok then (ESP_OK, set_state SI_AGENT_REQUEST_VERIFYING now_ms request)
      else (ESP_OK, set_error (if c_or_empty error \<noteq> [] then c_or_empty error else ''request execution failed'')
                      (set_state SI_AGENT_REQUEST_FAILED now_ms request)))"

definition si_agent_request_broker_finish ::
    "broker_env \<Rightarrow> string option \<Rightarrow> bool \<Rightarrow> string option \<Rightarrow> broker \<Rightarrow> esp_err_t \<times> si_agent_request_status_t option \<times> broker" where
  "si_agent_request_broker_finish e request_id ok error b =
     (if \<not> value_valid request_id SI_AGENT_REQUEST_ID_MAX_LEN True \<or> \<not> value_valid error SI_AGENT_REQUEST_ERROR_MAX_LEN False
      then (ESP_ERR_INVALID_ARG, None, b)
      else
        let (ret, b) = broker_enter e b in
        if ret \<noteq> ESP_OK then (ret, None, b)
        else
          let now_ms = broker_now_ms e b
          in with_request request_id (finish_request now_ms ok error) (expire_all_locked now_ms b))"

definition cancel_run_request :: "u32 \<Rightarrow> string \<Rightarrow> si_agent_request_status_t \<Rightarrow> si_agent_request_status_t" where
  "cancel_run_request now_ms run_id r =
     (if rq_run_id r \<noteq> run_id then r
      else if rq_state r = SI_AGENT_REQUEST_EXECUTING \<or> rq_state r = SI_AGENT_REQUEST_VERIFYING
      then set_source ''runtime'' (set_error ''run cancelled after execution began; outcome unknown''
             (set_state SI_AGENT_REQUEST_UNKNOWN now_ms r))
      else if state_expires (rq_state r)
      then set_source ''runtime'' (set_error ''run cancelled'' (set_state SI_AGENT_REQUEST_CANCELLED now_ms r))
      else r)"

definition si_agent_request_broker_cancel_run :: "broker_env \<Rightarrow> string option \<Rightarrow> broker \<Rightarrow> broker" where
  "si_agent_request_broker_cancel_run e run_id b =
     (if c_or_empty run_id = [] then b
      else
        let (ret, b) = broker_enter e b in
        if ret \<noteq> ESP_OK then b
        else
          let now_ms = broker_now_ms e b; b = expire_all_locked now_ms b
          in b\<lparr>bk_requests := map (cancel_run_request now_ms (c_or_empty run_id)) (bk_requests b)\<rparr>)"

section \<open>Names\<close>

definition si_agent_request_kind_name :: "si_agent_request_kind_t \<Rightarrow> string" where
  "si_agent_request_kind_name kind = (if kind = SI_AGENT_REQUEST_KIND_ACTION then ''action'' else ''context'')"

definition si_agent_request_risk_name :: "si_agent_request_risk_t \<Rightarrow> string" where
  "si_agent_request_risk_name risk =
     (case risk of SI_AGENT_REQUEST_RISK_MEDIUM \<Rightarrow> ''medium'' | SI_AGENT_REQUEST_RISK_HIGH \<Rightarrow> ''high''
      | SI_AGENT_REQUEST_RISK_CRITICAL \<Rightarrow> ''critical'' | _ \<Rightarrow> ''low'')"

definition si_agent_request_state_name :: "si_agent_request_state_t \<Rightarrow> string" where
  "si_agent_request_state_name state =
     (case state of
        SI_AGENT_REQUEST_REQUESTED \<Rightarrow> ''requested'' | SI_AGENT_REQUEST_EVALUATING \<Rightarrow> ''evaluating''
      | SI_AGENT_REQUEST_REVIEWING \<Rightarrow> ''reviewing'' | SI_AGENT_REQUEST_WAITING_USER \<Rightarrow> ''waiting_user''
      | SI_AGENT_REQUEST_GRANTED \<Rightarrow> ''granted'' | SI_AGENT_REQUEST_EXECUTING \<Rightarrow> ''executing''
      | SI_AGENT_REQUEST_VERIFYING \<Rightarrow> ''verifying'' | SI_AGENT_REQUEST_COMPLETED \<Rightarrow> ''completed''
      | SI_AGENT_REQUEST_FAILED \<Rightarrow> ''failed'' | SI_AGENT_REQUEST_DENIED \<Rightarrow> ''denied''
      | SI_AGENT_REQUEST_EXPIRED \<Rightarrow> ''expired'' | SI_AGENT_REQUEST_CANCELLED \<Rightarrow> ''cancelled''
      | SI_AGENT_REQUEST_UNKNOWN \<Rightarrow> ''unknown'' | _ \<Rightarrow> ''empty'')"

definition si_agent_request_grant_scope_name :: "si_agent_request_grant_scope_t \<Rightarrow> string" where
  "si_agent_request_grant_scope_name scope =
     (case scope of SI_AGENT_REQUEST_GRANT_STEP \<Rightarrow> ''step'' | SI_AGENT_REQUEST_GRANT_RUN \<Rightarrow> ''run''
      | SI_AGENT_REQUEST_GRANT_THREAD \<Rightarrow> ''thread'' | _ \<Rightarrow> ''once'')"

definition si_agent_request_principal_name :: "si_agent_request_principal_t \<Rightarrow> string" where
  "si_agent_request_principal_name who =
     (case who of SI_AGENT_REQUEST_PRINCIPAL_AGENT \<Rightarrow> ''agent'' | SI_AGENT_REQUEST_PRINCIPAL_BROWSER \<Rightarrow> ''browser''
      | SI_AGENT_REQUEST_PRINCIPAL_REVIEWER \<Rightarrow> ''reviewer'' | SI_AGENT_REQUEST_PRINCIPAL_POLICY \<Rightarrow> ''policy''
      | SI_AGENT_REQUEST_PRINCIPAL_RUNTIME \<Rightarrow> ''runtime'' | _ \<Rightarrow> ''unspecified'')"

end
