(* ===== verification/Broker_Props.thy ===== *)
theory Broker_Props
  imports Request_Broker
begin

text \<open>
  The records of the request broker: their invariant, with who has to have granted what, and that every change the
  operations make to a record keeps it.
\<close>

section \<open>The records\<close>

text \<open>A hash function that never fails, and a call whose hash function agrees with it where it answers.\<close>

definition sure :: "(string \<Rightarrow> u8 list) \<Rightarrow> broker_env" where
  "sure h = \<lparr>be_created = True, be_lock = True, be_now = (\<lambda>_. 0), be_random = 0, be_sha256 = (\<lambda>s. Some (h s))\<rparr>"

definition with_hash :: "(string \<Rightarrow> u8 list) \<Rightarrow> broker_env \<Rightarrow> broker_env" where
  "with_hash h e = e\<lparr>be_sha256 := (\<lambda>s. map_option (\<lambda>_. h s) (be_sha256 e s))\<rparr>"

definition hash_text :: "(string \<Rightarrow> u8 list) \<Rightarrow> string \<Rightarrow> string" where
  "hash_text h s = concat (map (\<lambda>index. hex_fixed 2 (unat (h s ! index))) [0..<32])"

lemma sha256_sure: "sha256_hex (sure h) s = Some (hash_text h s)"
  by (simp add: sha256_hex_def sure_def hash_text_def)

lemma sha256_with: "sha256_hex (with_hash h e) s = Some x \<Longrightarrow> x = hash_text h s"
  by (auto simp: sha256_hex_def with_hash_def hash_text_def)

lemma hash_text_length [simp]: "length (hash_text h s) = 64"
proof -
  have "length (concat (map (\<lambda>i. hex_fixed 2 (f i)) is)) = 2 * length is" for f :: "nat \<Rightarrow> nat" and "is" by (induction "is") simp_all
  then show ?thesis unfolding hash_text_def by simp
qed

lemma hash_text_nonempty [simp]: "hash_text h s \<noteq> []"
  using hash_text_length [of h s] by (metis list.size(3) zero_neq_numeral)

text \<open>Who may have granted a request; \<open>dl\<close> tells whether the access mode delegates to the policy.\<close>

definition granted_by :: "bool \<Rightarrow> si_agent_request_status_t \<Rightarrow> bool" where
  "granted_by dl r \<longleftrightarrow>
     ac_principal (rq_decider r) = SI_AGENT_REQUEST_PRINCIPAL_BROWSER \<or>
     (ac_principal (rq_decider r) = SI_AGENT_REQUEST_PRINCIPAL_REVIEWER \<and> risk_value (rq_risk r) \<le> risk_value SI_AGENT_REQUEST_RISK_MEDIUM) \<or>
     (ac_principal (rq_decider r) = SI_AGENT_REQUEST_PRINCIPAL_POLICY \<and>
      (dl \<or> (rq_risk r = SI_AGENT_REQUEST_RISK_LOW \<and> \<not> rq_lease_required r \<and> rq_resource r \<in> set auto_resources)))"

definition needs_grant :: "si_agent_request_state_t \<Rightarrow> bool" where
  "needs_grant state \<longleftrightarrow> state = SI_AGENT_REQUEST_GRANTED \<or> effect_started state"

definition request_ok :: "(string \<Rightarrow> u8 list) \<Rightarrow> bool \<Rightarrow> si_agent_request_status_t \<Rightarrow> bool" where
  "request_ok h dl r \<longleftrightarrow> snapshot_status_valid (sure h) r \<and> (needs_grant (rq_state r) \<longrightarrow> granted_by dl r)"

lemma copy_text_length [simp]: "0 < n \<Longrightarrow> length (copy_text n t) < n"
  by (simp add: copy_text_def)

lemma copy_text_fits: "length (c_or_empty t) < n \<Longrightarrow> copy_text n t = c_or_empty t"
  by (simp add: copy_text_def)

text \<open>What a new state changes of a record.\<close>

lemma stamp_state_more [simp]:
  "rq_state (stamp_state n t r) = rq_state r" "rq_kind (stamp_state n t r) = rq_kind r" "rq_risk (stamp_state n t r) = rq_risk r"
  "rq_lease_required (stamp_state n t r) = rq_lease_required r" "rq_reviewer_allowed (stamp_state n t r) = rq_reviewer_allowed r"
  "rq_grant_consumed (stamp_state n t r) = (rq_grant_consumed r \<or> n = SI_AGENT_REQUEST_EXECUTING)"
  "rq_requested_grant_scope (stamp_state n t r) = rq_requested_grant_scope r" "rq_grant_scope (stamp_state n t r) = rq_grant_scope r"
  "rq_expires_at_ms (stamp_state n t r) = rq_expires_at_ms r" "rq_plan_version (stamp_state n t r) = rq_plan_version r"
  "rq_sequence (stamp_state n t r) = rq_sequence r" "rq_request_id (stamp_state n t r) = rq_request_id r"
  "rq_parent_grant_request_id (stamp_state n t r) = rq_parent_grant_request_id r" "rq_device_id (stamp_state n t r) = rq_device_id r"
  "rq_thread_id (stamp_state n t r) = rq_thread_id r" "rq_turn_id (stamp_state n t r) = rq_turn_id r" "rq_run_id (stamp_state n t r) = rq_run_id r"
  "rq_step_id (stamp_state n t r) = rq_step_id r" "rq_resource (stamp_state n t r) = rq_resource r" "rq_reason (stamp_state n t r) = rq_reason r"
  "rq_params_json (stamp_state n t r) = rq_params_json r" "rq_params_hash (stamp_state n t r) = rq_params_hash r"
  "rq_normalized_args_hash (stamp_state n t r) = rq_normalized_args_hash r" "rq_idempotency_key (stamp_state n t r) = rq_idempotency_key r"
  "rq_expected_effect (stamp_state n t r) = rq_expected_effect r" "rq_verification (stamp_state n t r) = rq_verification r"
  "rq_requester (stamp_state n t r) = rq_requester r" "rq_reviewer (stamp_state n t r) = rq_reviewer r" "rq_decider (stamp_state n t r) = rq_decider r"
  "rq_decision_source (stamp_state n t r) = rq_decision_source r" "rq_decided_by_session (stamp_state n t r) = rq_decided_by_session r"
  "rq_response (stamp_state n t r) = rq_response r" "rq_verification_evidence (stamp_state n t r) = rq_verification_evidence r"
  "rq_error (stamp_state n t r) = rq_error r"
  by (simp_all add: stamp_state_def)

lemma set_state_cases: "set_state n t r = (if transition_allowed (rq_state r) n then stamp_state n t (r\<lparr>rq_state := n\<rparr>) else r)"
  by (simp add: set_state_def set_state_locked_def)

text \<open>What never changes of a record, and a step of it.\<close>

definition same_request :: "si_agent_request_status_t \<Rightarrow> si_agent_request_status_t \<Rightarrow> bool" where
  "same_request r s \<longleftrightarrow> rq_idempotency_key s = rq_idempotency_key r \<and> rq_request_id s = rq_request_id r \<and> rq_sequence s = rq_sequence r \<and>
     rq_run_id s = rq_run_id r \<and> (rq_grant_consumed r \<longrightarrow> rq_grant_consumed s)"

definition good_step :: "(string \<Rightarrow> u8 list) \<Rightarrow> bool \<Rightarrow> si_agent_request_status_t \<Rightarrow> si_agent_request_status_t \<Rightarrow> bool" where
  "good_step h dl r s \<longleftrightarrow> same_request r s \<and> request_ok h dl s"

lemma good_refl: "request_ok h dl r \<Longrightarrow> good_step h dl r r"
  by (simp add: good_step_def same_request_def)

lemma good_trans: "good_step h dl r s \<Longrightarrow> good_step h dl s t \<Longrightarrow> good_step h dl r t"
  by (simp add: good_step_def same_request_def)

lemma good_ok: "good_step h dl r s \<Longrightarrow> request_ok h dl s"
  by (simp add: good_step_def)

lemma snapshot_valid_iff:
  "snapshot_status_valid (sure h) s \<longleftrightarrow>
     state_valid (rq_state s) \<and> kind_valid (rq_kind s) \<and> risk_valid (rq_risk s) \<and> scope_valid (rq_requested_grant_scope s) \<and>
     scope_valid (rq_grant_scope s) \<and> rq_plan_version s \<noteq> 0 \<and> rq_sequence s \<noteq> 0 \<and>
     ac_principal (rq_requester s) = SI_AGENT_REQUEST_PRINCIPAL_AGENT \<and> actor_valid (rq_requester s) True \<and>
     snapshot_texts_valid s \<and>
     (ac_principal (rq_reviewer s) \<noteq> SI_AGENT_REQUEST_PRINCIPAL_UNSPECIFIED \<longrightarrow>
      ac_principal (rq_reviewer s) = SI_AGENT_REQUEST_PRINCIPAL_REVIEWER \<and> actor_valid (rq_reviewer s) True) \<and>
     (ac_principal (rq_decider s) \<noteq> SI_AGENT_REQUEST_PRINCIPAL_UNSPECIFIED \<longrightarrow> actor_valid (rq_decider s) True) \<and>
     (rq_grant_scope s = SI_AGENT_REQUEST_GRANT_THREAD \<longrightarrow>
      rq_kind s = SI_AGENT_REQUEST_KIND_CONTEXT \<and> rq_risk s = SI_AGENT_REQUEST_RISK_LOW \<and> \<not> rq_lease_required s) \<and>
     rq_grant_consumed s = effect_started (rq_state s) \<and>
     rq_normalized_args_hash s = hash_text h (rq_params_json s) \<and> rq_params_hash s = hash_text h (rq_params_json s)"
  by (simp add: snapshot_status_valid_def sha256_sure eq_commute [of "hash_text h (rq_params_json s)"])

lemmas request_ok_defs = request_ok_def snapshot_valid_iff snapshot_texts_valid_def fixed_value_valid_def

lemma good_texts:
  assumes "request_ok h dl r"
  shows "good_step h dl r (set_source a r)" "good_step h dl r (set_error b r)" "good_step h dl r (set_decided_by c r)"
    "good_step h dl r (r\<lparr>rq_verification_evidence := copy_text (SI_AGENT_REQUEST_RESPONSE_MAX_LEN + 1) d, rq_error := []\<rparr>)"
  using assms unfolding good_step_def same_request_def request_ok_defs granted_by_def request_consts by simp_all

lemma allowed_facts:
  assumes "transition_allowed s n"
  shows "state_valid n" "effect_started n \<longleftrightarrow> (effect_started s \<or> n = SI_AGENT_REQUEST_EXECUTING)"
    "needs_grant n \<Longrightarrow> n \<noteq> SI_AGENT_REQUEST_GRANTED \<Longrightarrow> needs_grant s"
  using assms by (cases s; auto simp: state_valid_def effect_started_def needs_grant_def)+

lemma good_set_state:
  assumes "request_ok h dl r" "n = SI_AGENT_REQUEST_GRANTED \<longrightarrow> granted_by dl r"
  shows "good_step h dl r (set_state n t r)"
proof (cases "transition_allowed (rq_state r) n")
  case False
  then show ?thesis using good_refl [OF assms(1)] by (simp add: set_state_cases)
next
  case True
  let ?s = "stamp_state n t (r\<lparr>rq_state := n\<rparr>)"
  note a = allowed_facts [OF True]
  have "snapshot_texts_valid ?s = snapshot_texts_valid r" by (simp add: snapshot_texts_valid_def)
  then have "snapshot_status_valid (sure h) ?s" using assms(1) a(1,2) by (simp add: request_ok_def snapshot_valid_iff)
  moreover have "needs_grant n \<longrightarrow> granted_by dl ?s" using assms a(3) by (auto simp: request_ok_def granted_by_def)
  ultimately show ?thesis using True by (simp add: set_state_cases good_step_def same_request_def request_ok_def)
qed

text \<open>A chain of changes of a record.\<close>

lemma good_chain:
  "good_step h dl r s \<Longrightarrow> good_step h dl r (set_source a s)" "good_step h dl r s \<Longrightarrow> good_step h dl r (set_error b s)"
  "good_step h dl r s \<Longrightarrow> good_step h dl r (set_decided_by c s)"
  "good_step h dl r s \<Longrightarrow> n \<noteq> SI_AGENT_REQUEST_GRANTED \<Longrightarrow> good_step h dl r (set_state n t s)"
  using good_trans good_texts good_set_state good_ok by metis+

lemma good_expire: "request_ok h dl r \<Longrightarrow> good_step h dl r (expire_request t r)"
  unfolding expire_request_def by (simp only: split: if_split, intro conjI impI; (intro good_chain good_refl; simp)?)

lemma good_cancel: "request_ok h dl r \<Longrightarrow> good_step h dl r (snd (cancel_request t s r))"
  unfolding cancel_request_def by (simp only: snd_conv split: if_split, intro conjI impI; (intro good_chain good_refl; simp)?)

lemma good_cancel_run: "request_ok h dl r \<Longrightarrow> good_step h dl r (cancel_run_request t run r)"
  unfolding cancel_run_request_def by (simp only: split: if_split, intro conjI impI; (intro good_chain good_refl; simp)?)

lemma good_terminalize: "request_ok h dl r \<Longrightarrow> good_step h dl r (terminalize_request t run r)"
  unfolding terminalize_request_def by (simp only: split: if_split, intro conjI impI; (intro good_chain good_refl; simp)?)

lemma good_finish: "request_ok h dl r \<Longrightarrow> good_step h dl r (snd (finish_request t k err r))"
  unfolding finish_request_def Let_def by (cases "rq_state r = SI_AGENT_REQUEST_GRANTED") (simp_all only: if_True if_False snd_conv split: if_split, (intro conjI impI good_chain good_refl; simp)+)

lemma good_consume: "request_ok h dl r \<Longrightarrow> good_step h dl r (snd (consume_request t c x r))"
  unfolding consume_request_def Let_def case_prod_unfold set_state_def [symmetric] by (simp only: snd_conv split: if_split, intro conjI impI; (intro good_chain good_refl; simp)?)

lemma good_advance:
  assumes "request_ok h dl r" "n \<noteq> SI_AGENT_REQUEST_GRANTED" "\<And>s. request_ok h dl s \<Longrightarrow> good_step h dl s (f s)"
  shows "good_step h dl r (snd (advance_request n t f r))"
proof -
  have s: "good_step h dl r (set_state n t r)" using good_set_state [OF assms(1)] assms(2) by blast
  then have "good_step h dl r (f (set_state n t r))" using good_trans assms(3) good_ok by blast
  then show ?thesis using s unfolding advance_request_def set_state_def Let_def by (simp add: case_prod_unfold)
qed

text \<open>A decision. The record waits, so nobody has granted it yet.\<close>

lemma good_decided:
  assumes "request_ok h dl r" "\<not> needs_grant (rq_state r)" "actor_valid d True"
  shows "good_step h dl r (r\<lparr>rq_decider := d\<rparr>)"
    "ac_principal d = SI_AGENT_REQUEST_PRINCIPAL_REVIEWER \<Longrightarrow> good_step h dl r (r\<lparr>rq_decider := d, rq_reviewer := d\<rparr>)"
  using assms unfolding good_step_def same_request_def request_ok_defs request_consts by simp_all

lemma good_scope:
  assumes "request_ok h dl r" "scope_valid s"
    "s = SI_AGENT_REQUEST_GRANT_THREAD \<longrightarrow> rq_kind r = SI_AGENT_REQUEST_KIND_CONTEXT \<and> rq_risk r = SI_AGENT_REQUEST_RISK_LOW \<and> \<not> rq_lease_required r"
  shows "good_step h dl r (r\<lparr>rq_grant_scope := s, rq_response := copy_text (SI_AGENT_REQUEST_RESPONSE_MAX_LEN + 1) t\<rparr>)"
    "good_step h dl r (r\<lparr>rq_grant_scope := s\<rparr>)"
  using assms unfolding good_step_def same_request_def request_ok_defs granted_by_def request_consts by simp_all

lemma good_decide:
  assumes "request_ok h dl r" "actor_valid (de_decider d) True" "scope_valid (de_grant_scope d)"
  shows "good_step h dl r (snd (decide_request t d r))"
proof (cases "fst (decide_request t d r) = ESP_OK")
  case False
  then have "snd (decide_request t d r) = r" by (auto simp: decide_request_def Let_def split: if_splits)
  then show ?thesis using good_refl [OF assms(1)] by simp
next
  case True
  let ?b = "ac_principal (de_decider d) = SI_AGENT_REQUEST_PRINCIPAL_BROWSER"
  let ?v = "ac_principal (de_decider d) = SI_AGENT_REQUEST_PRINCIPAL_REVIEWER \<and> rq_reviewer_allowed r \<and>
    risk_value (rq_risk r) \<le> risk_value SI_AGENT_REQUEST_RISK_MEDIUM"
  define s where "s = set_decided_by (ac_session_id (de_decider d))
    (if ?v then set_source ''reviewer'' (r\<lparr>rq_decider := de_decider d, rq_reviewer := de_decider d\<rparr>)
     else set_source ''browser'' (r\<lparr>rq_decider := de_decider d\<rparr>))"
  have k: "\<not> actor_equal (de_decider d) (rq_requester r)"
    "\<not> (rq_state r \<noteq> SI_AGENT_REQUEST_WAITING_USER \<and> rq_state r \<noteq> SI_AGENT_REQUEST_REVIEWING)"
    "\<not> (\<not> ?b \<and> \<not> ?v)"
    "\<not> (de_approved d \<and>
        (scope_value (de_grant_scope d) > scope_value (rq_requested_grant_scope r) \<or>
         (de_grant_scope d = SI_AGENT_REQUEST_GRANT_THREAD \<and>
          (rq_kind r \<noteq> SI_AGENT_REQUEST_KIND_CONTEXT \<or> rq_risk r \<noteq> SI_AGENT_REQUEST_RISK_LOW \<or> rq_lease_required r))))"
    using True by (auto simp: decide_request_def Let_def split: if_splits)
  have c: "rq_state r = SI_AGENT_REQUEST_WAITING_USER \<or> rq_state r = SI_AGENT_REQUEST_REVIEWING" "?b \<or> ?v"
    "de_approved d \<Longrightarrow> de_grant_scope d = SI_AGENT_REQUEST_GRANT_THREAD \<longrightarrow>
       rq_kind r = SI_AGENT_REQUEST_KIND_CONTEXT \<and> rq_risk r = SI_AGENT_REQUEST_RISK_LOW \<and> \<not> rq_lease_required r"
    using k by blast+
  have e: "snd (decide_request t d r) =
      (if de_approved d
       then set_state SI_AGENT_REQUEST_GRANTED t
              (s\<lparr>rq_grant_scope := de_grant_scope d, rq_response := copy_text (SI_AGENT_REQUEST_RESPONSE_MAX_LEN + 1) (de_response d)\<rparr>)
       else set_state SI_AGENT_REQUEST_DENIED t (set_error ''request denied'' s))"
    unfolding s_def decide_request_def Let_def if_not_P [OF k(1)] if_not_P [OF k(2)] if_not_P [OF k(3)] if_not_P [OF k(4)] snd_conv by (rule refl)
  have n: "\<not> needs_grant (rq_state r)" using c(1) by (auto simp: needs_grant_def effect_started_def)
  note gd = good_decided [OF assms(1) n assms(2)]
  have s: "good_step h dl r s"
  proof (cases ?v)
    case True
    show ?thesis unfolding s_def if_P [OF True] by (intro good_chain(1,3) gd(2)) (use True in blast)
  next
    case False
    show ?thesis unfolding s_def if_not_P [OF False] by (intro good_chain(1,3) gd(1))
  qed
  have f: "rq_kind s = rq_kind r" "rq_risk s = rq_risk r" "rq_lease_required s = rq_lease_required r" "rq_decider s = de_decider d"
    by (simp_all add: s_def)
  show ?thesis
  proof (cases "de_approved d")
    case False
    show ?thesis unfolding e if_not_P [OF False] by (intro good_chain s) simp
  next
    case True
    let ?g = "s\<lparr>rq_grant_scope := de_grant_scope d, rq_response := copy_text (SI_AGENT_REQUEST_RESPONSE_MAX_LEN + 1) (de_response d)\<rparr>"
    have g: "good_step h dl s ?g" by (rule good_scope(1) [OF good_ok [OF s] assms(3)]) (use c(3) [OF True] f in simp)
    have "granted_by dl ?g" using c(2) f by (auto simp: granted_by_def)
    then show ?thesis unfolding e using True good_trans [OF s good_trans [OF g good_set_state [OF good_ok [OF g]]]] by simp
  qed
qed

text \<open>A new request and its evaluation.\<close>

lemma value_fixed: "value_valid v n k \<Longrightarrow> copy_text (n + 1) v = c_or_empty v \<and> length (c_or_empty v) < n + 1 \<and> (k \<longrightarrow> c_or_empty v \<noteq> [])"
  by (auto simp: value_valid_def copy_text_def split: option.splits)

lemma request_id_length: "length (make_request_id x n) < 25" "make_request_id x n \<noteq> []"
  by (simp_all add: make_request_id_def copy_text_def request_consts)

lemma new_request_ok:
  assumes "v2_input_valid (Some i)" "n \<noteq> 0"
  shows "request_ok h dl (new_request e t n i (hash_text h (c_or_empty (bi_normalized_args_json (vi_binding i)))))"
proof -
  note v = assms(1) [unfolded v2_input_valid_def option.case binding_valid_def]
  have "value_valid (bi_normalized_args_json (vi_binding i)) SI_AGENT_REQUEST_PARAMS_MAX_LEN True" using v by blast
  then have p: "copy_text 769 (bi_normalized_args_json (vi_binding i)) = c_or_empty (bi_normalized_args_json (vi_binding i))"
    "length (c_or_empty (bi_normalized_args_json (vi_binding i))) < 769" "c_or_empty (bi_normalized_args_json (vi_binding i)) \<noteq> []"
    using value_fixed by (fastforce simp: request_consts)+
  have x: "copy_text 65 (Some (hash_text h s)) = hash_text h s" for s by (simp add: copy_text_fits)
  have "copy_text m v \<noteq> []" if "value_valid v k True" "m = k + 1" for m v k using value_fixed [OF that(1)] that(2) by simp
  then have r: "copy_text 65 (bi_device_id (vi_binding i)) \<noteq> []" "copy_text 41 (bi_thread_id (vi_binding i)) \<noteq> []"
    "copy_text 41 (bi_turn_id (vi_binding i)) \<noteq> []" "copy_text 41 (bi_run_id (vi_binding i)) \<noteq> []" "copy_text 41 (bi_step_id (vi_binding i)) \<noteq> []"
    "copy_text 65 (bi_idempotency_key (vi_binding i)) \<noteq> []" "copy_text 41 (vi_resource i) \<noteq> []" "copy_text 161 (vi_reason i) \<noteq> []"
    using v by (fastforce simp: request_consts)+
  have s: "vi_requested_grant_scope i \<noteq> SI_AGENT_REQUEST_GRANT_OTHER" "scope_valid SI_AGENT_REQUEST_GRANT_ONCE"
    using v by (auto simp: scope_valid_def)
  show ?thesis using assms(2) v p x r s
    unfolding request_ok_defs request_consts new_request_def zero_request_def zero_actor_def
    by (simp add: request_id_length state_valid_def needs_grant_def effect_started_def)
qed

text \<open>Changes of a record nobody has granted yet.\<close>

lemma good_reuse_fields:
  assumes "request_ok h dl r" "request_ok h dl g" "\<not> needs_grant (rq_state r)"
  shows "good_step h dl r (r\<lparr>rq_decider := rq_decider g, rq_reviewer := rq_reviewer g\<rparr>)" "good_step h dl r (r\<lparr>rq_expires_at_ms := x\<rparr>)"
    "good_step h dl r (r\<lparr>rq_parent_grant_request_id := copy_text (SI_AGENT_REQUEST_ID_MAX_LEN + 1) y\<rparr>)"
  using assms unfolding good_step_def same_request_def request_ok_defs request_consts by simp_all

lemma good_reuse:
  assumes r: "request_ok h dl r" "rq_state r = SI_AGENT_REQUEST_EVALUATING" and g: "request_ok h dl g" "granted_by dl g"
    and same: "rq_risk r = rq_risk g" "rq_lease_required r = rq_lease_required g" "rq_resource r = rq_resource g"
    and scope: "scope_valid (vi_requested_grant_scope i)" "vi_requested_grant_scope i = SI_AGENT_REQUEST_GRANT_THREAD \<longrightarrow>
       rq_kind r = SI_AGENT_REQUEST_KIND_CONTEXT \<and> rq_risk r = SI_AGENT_REQUEST_RISK_LOW \<and> \<not> rq_lease_required r"
  shows "good_step h dl r (reuse_grant t i g r)"
proof -
  let ?sc = "if scope_value (rq_grant_scope g) < scope_value (vi_requested_grant_scope i) then rq_grant_scope g else vi_requested_grant_scope i"
  define r1 where "r1 = r\<lparr>rq_grant_scope := ?sc\<rparr>"
  define r2 where "r2 = (if remaining_ttl t (rq_expires_at_ms g) < remaining_ttl t (rq_expires_at_ms r1) then r1\<lparr>rq_expires_at_ms := rq_expires_at_ms g\<rparr> else r1)"
  define r3 where "r3 = set_source ''grant_reuse'' (r2\<lparr>rq_parent_grant_request_id := copy_text (SI_AGENT_REQUEST_ID_MAX_LEN + 1) (Some (rq_request_id g))\<rparr>)"
  define r4 where "r4 = r3\<lparr>rq_decider := rq_decider g, rq_reviewer := rq_reviewer g\<rparr>"
  define r5 where "r5 = set_decided_by (rq_decided_by_session g) r4"
  have n: "\<not> needs_grant SI_AGENT_REQUEST_EVALUATING" by (simp add: needs_grant_def effect_started_def)
  have "rq_grant_scope g \<noteq> SI_AGENT_REQUEST_GRANT_THREAD" if "scope_value (rq_grant_scope g) < scope_value (vi_requested_grant_scope i)"
    using that scope(1) by (cases "rq_grant_scope g"; cases "vi_requested_grant_scope i") (auto simp: scope_valid_def)
  moreover have "scope_valid (rq_grant_scope g)" using g(1) by (simp add: request_ok_def snapshot_valid_iff)
  ultimately have s: "scope_valid ?sc" "?sc = SI_AGENT_REQUEST_GRANT_THREAD \<longrightarrow>
       rq_kind r = SI_AGENT_REQUEST_KIND_CONTEXT \<and> rq_risk r = SI_AGENT_REQUEST_RISK_LOW \<and> \<not> rq_lease_required r" using scope by auto
  have 1: "good_step h dl r r1" unfolding r1_def by (rule good_scope(2) [OF r(1) s])
  have e: "rq_state r1 = SI_AGENT_REQUEST_EVALUATING" "rq_state r2 = SI_AGENT_REQUEST_EVALUATING" "rq_state r3 = SI_AGENT_REQUEST_EVALUATING"
    using r(2) by (simp_all add: r1_def r2_def r3_def)
  have 2: "good_step h dl r r2"
    using 1 good_trans [OF 1 good_reuse_fields(2) [OF good_ok [OF 1] g(1)]] e(1) n unfolding r2_def by simp
  have 3: "good_step h dl r r3" unfolding r3_def
    by (rule good_chain(1) [OF good_trans [OF 2 good_reuse_fields(3) [OF good_ok [OF 2] g(1)]]]) (simp add: e n)
  have 4: "good_step h dl r r4" unfolding r4_def
    by (rule good_trans [OF 3 good_reuse_fields(1) [OF good_ok [OF 3] g(1)]]) (simp add: e n)
  have 5: "good_step h dl r r5" unfolding r5_def by (rule good_chain(3) [OF 4])
  have "granted_by dl r5" using g(2) same by (simp add: granted_by_def r5_def r4_def r3_def r2_def r1_def)
  then have "good_step h dl r (set_state SI_AGENT_REQUEST_GRANTED t r5)" using good_trans [OF 5 good_set_state [OF good_ok [OF 5]]] by blast
  then show ?thesis unfolding r5_def r4_def r3_def r2_def r1_def reuse_grant_def Let_def .
qed

lemma good_policy:
  assumes "request_ok h dl r" "rq_state r = SI_AGENT_REQUEST_EVALUATING" "actor_valid (set_actor SI_AGENT_REQUEST_PRINCIPAL_POLICY (Some a) (Some b)) True"
    "dl \<or> (rq_risk r = SI_AGENT_REQUEST_RISK_LOW \<and> \<not> rq_lease_required r \<and> rq_resource r \<in> set auto_resources)"
  shows "good_step h dl r (policy_grant t a b c r)"
proof -
  let ?r = "r\<lparr>rq_grant_scope := SI_AGENT_REQUEST_GRANT_ONCE, rq_decider := set_actor SI_AGENT_REQUEST_PRINCIPAL_POLICY (Some a) (Some b)\<rparr>"
  have "\<not> needs_grant (rq_state r)" using assms(2) by (simp add: needs_grant_def effect_started_def)
  then have "good_step h dl r ?r"
    using assms(1,3) unfolding good_step_def same_request_def request_ok_defs request_consts by (simp add: scope_valid_def)
  then have 1: "good_step h dl r (set_decided_by a (set_source c ?r))" by (intro good_chain)
  have "granted_by dl (set_decided_by a (set_source c ?r))" using assms(4) by (simp add: granted_by_def set_actor_def)
  then show ?thesis unfolding policy_grant_def using good_trans [OF 1 good_set_state [OF good_ok [OF 1]]] by blast
qed

lemma policy_actors:
  "actor_valid (set_actor SI_AGENT_REQUEST_PRINCIPAL_POLICY (Some ''access-mode'') (Some ''delegated-policy-v1'')) True"
  "actor_valid (set_actor SI_AGENT_REQUEST_PRINCIPAL_POLICY (Some ''broker'') (Some ''deterministic-policy-v1'')) True"
  by (simp_all add: actor_valid_def set_actor_def fixed_value_valid_def copy_text_def request_consts)

lemma good_evaluate:
  assumes v: "v2_input_valid (Some i)" and x: "x = hash_text h (c_or_empty (bi_normalized_args_json (vi_binding i)))" and "n \<noteq> 0"
    and grant: "\<And>g. reusable = Some g \<Longrightarrow> request_ok h dl g \<and> grant_scope_matches i x t g" and dl: "dl \<or> \<not> vi_delegated_auto_approval i"
  shows "good_step h dl (new_request e t n i x) (evaluate_request t i reusable (new_request e t n i x))"
proof -
  define r where "r = new_request e t n i x"
  define r1 where "r1 = set_state SI_AGENT_REQUEST_EVALUATING t r"
  have ok: "request_ok h dl r" unfolding r_def x by (rule new_request_ok [OF v \<open>n \<noteq> 0\<close>])
  have 1: "good_step h dl r r1" unfolding r1_def by (rule good_set_state [OF ok]) simp
  note ok1 = good_ok [OF 1]
  have f: "rq_state r1 = SI_AGENT_REQUEST_EVALUATING" "rq_risk r1 = vi_risk i" "rq_lease_required r1 = vi_lease_required i" "rq_kind r1 = vi_kind i"
    "rq_resource r1 = copy_text (SI_AGENT_REQUEST_RESOURCE_MAX_LEN + 1) (vi_resource i)"
    by (simp_all add: r1_def r_def set_state_cases new_request_def)
  have "value_valid (vi_resource i) SI_AGENT_REQUEST_RESOURCE_MAX_LEN True" using v by (simp add: v2_input_valid_def)
  then have res: "rq_resource r1 = c_or_empty (vi_resource i)" using f(5) value_fixed by simp
  have "good_step h dl r1 (case reusable of Some grant \<Rightarrow> reuse_grant t i grant r1
      | None \<Rightarrow>
          if vi_delegated_auto_approval i \<and> risk_value (vi_risk i) \<le> risk_value (vi_auto_approve_through i)
          then policy_grant t ''access-mode'' ''delegated-policy-v1'' ''delegated_policy'' r1
          else if resource_auto_approved i then policy_grant t ''broker'' ''deterministic-policy-v1'' ''policy'' r1
          else if vi_reviewer_allowed i \<and> risk_value (vi_risk i) \<le> risk_value SI_AGENT_REQUEST_RISK_MEDIUM
          then set_state SI_AGENT_REQUEST_REVIEWING t r1
          else set_state SI_AGENT_REQUEST_WAITING_USER t r1)"
  proof (cases reusable)
    case (Some g)
    note g = grant [OF Some]
    have m: "rq_state g = SI_AGENT_REQUEST_COMPLETED" "rq_risk g = vi_risk i" "rq_lease_required g = vi_lease_required i" "vi_resource i = Some (rq_resource g)"
      using g by (simp_all add: grant_scope_matches_def Let_def)
    have "granted_by dl g" using g m(1) by (simp add: request_ok_def needs_grant_def effect_started_def)
    moreover have "rq_resource r1 = rq_resource g" using res m(4) by simp
    moreover have "scope_valid (vi_requested_grant_scope i)" "vi_requested_grant_scope i = SI_AGENT_REQUEST_GRANT_THREAD \<longrightarrow>
       vi_kind i = SI_AGENT_REQUEST_KIND_CONTEXT \<and> vi_risk i = SI_AGENT_REQUEST_RISK_LOW \<and> \<not> vi_lease_required i"
      using v by (auto simp: v2_input_valid_def)
    ultimately show ?thesis using good_reuse [OF ok1 f(1), of g i t] g m f Some by simp
  next
    case None
    have a: "dl \<Longrightarrow> good_step h dl r1 (policy_grant t ''access-mode'' ''delegated-policy-v1'' ''delegated_policy'' r1)"
      by (rule good_policy [OF ok1 f(1) policy_actors(1)]) simp
    have b: "resource_auto_approved i \<Longrightarrow> good_step h dl r1 (policy_grant t ''broker'' ''deterministic-policy-v1'' ''policy'' r1)"
      by (rule good_policy [OF ok1 f(1) policy_actors(2)]) (simp add: resource_auto_approved_def f(2,3) res)
    have c: "good_step h dl r1 (set_state SI_AGENT_REQUEST_REVIEWING t r1)" "good_step h dl r1 (set_state SI_AGENT_REQUEST_WAITING_USER t r1)"
      by (rule good_set_state [OF ok1], simp)+
    show ?thesis using a b c dl None by (cases dl) auto
  qed
  then have "good_step h dl r (evaluate_request t i reusable r)" unfolding evaluate_request_def Let_def r1_def [symmetric] by (rule good_trans [OF 1])
  then show ?thesis unfolding r_def .
qed

end
