(* ===== verification/Broker_Machine.thy ===== *)
theory Broker_Machine
  imports Broker_Props
begin

text \<open>
  The table of the request broker: its invariant, and that every operation on existing records changes each of them by
  good steps.
\<close>

section \<open>The table\<close>

definition live :: "si_agent_request_status_t list \<Rightarrow> si_agent_request_status_t list" where
  "live rs = filter (\<lambda>r. rq_state r \<noteq> SI_AGENT_REQUEST_EMPTY) rs"

definition own_id :: "si_agent_request_status_t \<Rightarrow> bool" where
  "own_id r \<longleftrightarrow> (\<exists>x. rq_request_id r = make_request_id x (rq_sequence r))"

definition table_ok :: "(string \<Rightarrow> u8 list) \<Rightarrow> bool \<Rightarrow> si_agent_request_status_t list \<Rightarrow> u64 \<Rightarrow> bool" where
  "table_ok h dl rs n \<longleftrightarrow> length rs = 32 \<and> (\<forall>r\<in>set rs. rq_state r = SI_AGENT_REQUEST_EMPTY \<longrightarrow> r = zero_request) \<and>
     (\<forall>r\<in>set (live rs). request_ok h dl r \<and> own_id r \<and> rq_sequence r < n) \<and>
     distinct (map rq_idempotency_key (live rs)) \<and> distinct (map rq_sequence (live rs)) \<and> 0 < n \<and> n \<le> 2 ^ 32"

definition broker_inv :: "(string \<Rightarrow> u8 list) \<Rightarrow> bool \<Rightarrow> broker \<Rightarrow> bool" where
  "broker_inv h dl b \<longleftrightarrow> table_ok h dl (bk_requests b) (bk_next_sequence b) \<and>
     (\<not> bk_lock b \<longrightarrow> bk_requests b = replicate 32 zero_request \<and> bk_next_sequence b = 1)"

lemma request_ok_live: "request_ok h dl r \<Longrightarrow> rq_state r \<noteq> SI_AGENT_REQUEST_EMPTY"
  by (auto simp: request_ok_def snapshot_valid_iff state_valid_def)

lemma zero_state [simp]: "rq_state zero_request = SI_AGENT_REQUEST_EMPTY" "rq_request_id zero_request = []" "rq_run_id zero_request = []"
  by (simp_all add: zero_request_def)

lemma live_zero [simp]: "live (replicate n zero_request) = []"
  by (simp add: live_def)

text \<open>Each record stays empty, is given up, or takes a good step.\<close>

definition table_step :: "(string \<Rightarrow> u8 list) \<Rightarrow> bool \<Rightarrow> si_agent_request_status_t \<Rightarrow> si_agent_request_status_t \<Rightarrow> bool" where
  "table_step h dl r s \<longleftrightarrow> (if rq_state r = SI_AGENT_REQUEST_EMPTY then s = r else s = zero_request \<or> good_step h dl r s)"

lemma table_step_live:
  assumes "table_step h dl r s" "rq_state s \<noteq> SI_AGENT_REQUEST_EMPTY"
  shows "rq_state r \<noteq> SI_AGENT_REQUEST_EMPTY" "good_step h dl r s"
  using assms by (auto simp: table_step_def split: if_splits)

lemma distinct_live:
  assumes "list_all2 (table_step h dl) rs ss" "\<And>r s. good_step h dl r s \<Longrightarrow> f s = f r" "distinct (map f (live rs))"
  shows "distinct (map f (live ss)) \<and> set (map f (live ss)) \<subseteq> set (map f (live rs))"
  using assms(1,3)
proof (induction rule: list_all2_induct)
  case Nil
  then show ?case by (simp add: live_def)
next
  case (Cons r rs s ss)
  show ?case
  proof (cases "rq_state s = SI_AGENT_REQUEST_EMPTY")
    case True
    then show ?thesis using Cons by (auto simp: live_def split: if_splits)
  next
    case False
    note l = table_step_live [OF Cons.hyps(1) False]
    then show ?thesis using Cons assms(2) [OF l(2)] False by (auto simp: live_def split: if_splits)
  qed
qed

lemma table_pointwise:
  assumes "table_ok h dl rs n" "list_all2 (table_step h dl) rs ss"
  shows "table_ok h dl ss n"
proof -
  have len: "length ss = 32" using assms(1) list_all2_lengthD [OF assms(2)] by (simp add: table_ok_def)
  have z: "s = zero_request" if "s \<in> set ss" "rq_state s = SI_AGENT_REQUEST_EMPTY" for s
  proof -
    obtain k where k: "k < length ss" "s = ss ! k" using \<open>s \<in> set ss\<close> by (metis in_set_conv_nth)
    have "table_step h dl (rs ! k) s" using list_all2_nthD2 [OF assms(2) k(1)] k(2) by simp
    moreover have "rs ! k \<in> set rs" using k(1) list_all2_lengthD [OF assms(2)] by simp
    then have "rq_state (rs ! k) = SI_AGENT_REQUEST_EMPTY \<longrightarrow> rs ! k = zero_request" using assms(1) by (simp add: table_ok_def)
    moreover have "\<not> good_step h dl (rs ! k) s" using request_ok_live [OF good_ok] that(2) by blast
    ultimately show ?thesis by (auto simp: table_step_def split: if_splits)
  qed
  have l: "request_ok h dl s \<and> own_id s \<and> rq_sequence s < n" if "s \<in> set (live ss)" for s
  proof -
    have m: "s \<in> set ss" "rq_state s \<noteq> SI_AGENT_REQUEST_EMPTY" using that by (simp_all add: live_def)
    obtain k where k: "k < length ss" "s = ss ! k" using m(1) by (metis in_set_conv_nth)
    have "table_step h dl (rs ! k) s" using list_all2_nthD2 [OF assms(2) k(1)] k(2) by simp
    note t = table_step_live [OF this m(2)]
    have "rs ! k \<in> set rs" using k(1) list_all2_lengthD [OF assms(2)] by simp
    then have "rs ! k \<in> set (live rs)" using t(1) by (simp add: live_def)
    then have "own_id (rs ! k) \<and> rq_sequence (rs ! k) < n" using assms(1) by (simp add: table_ok_def)
    then show ?thesis using t(2) by (simp add: good_step_def same_request_def own_id_def)
  qed
  have d: "distinct (map rq_idempotency_key (live rs))" "distinct (map rq_sequence (live rs))" using assms(1) by (simp_all add: table_ok_def)
  have i: "good_step h dl r s \<Longrightarrow> rq_idempotency_key s = rq_idempotency_key r" "good_step h dl r s \<Longrightarrow> rq_sequence s = rq_sequence r" for r s
    by (simp_all add: good_step_def same_request_def)
  note distinct_live [OF assms(2), of rq_idempotency_key, OF i(1) d(1)] distinct_live [OF assms(2), of rq_sequence, OF i(2) d(2)]
  moreover have "0 < n" "n \<le> 2 ^ 32" using assms(1) unfolding table_ok_def by blast+
  ultimately show ?thesis unfolding table_ok_def using len z l by blast
qed

lemma table_map:
  assumes "table_ok h dl rs n" "\<And>r. request_ok h dl r \<Longrightarrow> f r = zero_request \<or> good_step h dl r (f r)" "f zero_request = zero_request"
  shows "list_all2 (table_step h dl) rs (map f rs)" "table_ok h dl (map f rs) n"
proof -
  have "table_step h dl r (f r)" if "r \<in> set rs" for r
    using that assms by (auto simp: table_ok_def table_step_def live_def)
  then show "list_all2 (table_step h dl) rs (map f rs)" by (simp add: list_all2_map2 list.rel_refl_strong)
  then show "table_ok h dl (map f rs) n" using table_pointwise assms(1) by blast
qed

lemma table_refl: "table_ok h dl rs n \<Longrightarrow> r \<in> set rs \<Longrightarrow> table_step h dl r r"
  using good_refl by (auto simp: table_ok_def table_step_def live_def)

lemma table_update:
  assumes "table_ok h dl rs n" "k < length rs" "rq_state (rs ! k) \<noteq> SI_AGENT_REQUEST_EMPTY" "request_ok h dl (rs ! k) \<Longrightarrow> good_step h dl (rs ! k) s"
  shows "list_all2 (table_step h dl) rs (rs[k := s])" "table_ok h dl (rs[k := s]) n"
proof -
  have "rs ! k \<in> set (live rs)" using assms(2,3) by (simp add: live_def)
  then have "good_step h dl (rs ! k) s" using assms(1,4) by (simp add: table_ok_def)
  then have "table_step h dl (rs ! k) s" using assms(3) by (simp add: table_step_def)
  then show "list_all2 (table_step h dl) rs (rs[k := s])"
    using table_refl [OF assms(1)] assms(2) by (auto simp: list_all2_conv_all_nth nth_list_update)
  then show "table_ok h dl (rs[k := s]) n" using table_pointwise assms(1) by blast
qed

lemma live_add:
  assumes "k < length rs" "rq_state (rs ! k) = SI_AGENT_REQUEST_EMPTY" "rq_state r \<noteq> SI_AGENT_REQUEST_EMPTY"
  shows "live (rs[k := r]) = live (take k rs) @ r # live (drop (Suc k) rs)" "live rs = live (take k rs) @ live (drop (Suc k) rs)"
proof -
  show "live (rs[k := r]) = live (take k rs) @ r # live (drop (Suc k) rs)" using assms by (simp add: live_def upd_conv_take_nth_drop)
  have "rs = take k rs @ rs ! k # drop (Suc k) rs" using assms(1) by (rule id_take_nth_drop)
  then have "live rs = live (take k rs @ rs ! k # drop (Suc k) rs)" by simp
  then show "live rs = live (take k rs) @ live (drop (Suc k) rs)" using assms(2) by (simp add: live_def)
qed

lemma table_add:
  assumes t: "table_ok h dl rs n" and k: "k < length rs" "rq_state (rs ! k) = SI_AGENT_REQUEST_EMPTY"
    and r: "request_ok h dl r" "own_id r" "rq_sequence r = n" "\<forall>s\<in>set (live rs). rq_idempotency_key s \<noteq> rq_idempotency_key r"
    and n: "n < 2 ^ 32"
  shows "table_ok h dl (rs[k := r]) (n + 1)"
proof -
  note l = live_add [OF k request_ok_live [OF r(1)]]
  have "unat n < 2 ^ 32" using n by (simp add: word_less_nat_alt)
  then have m: "unat (n + 1) = Suc (unat n)" by (simp add: unat_word_ariths)
  then have b: "0 < n + 1" "n + 1 \<le> 2 ^ 32" "n < n + 1" using n by (simp_all add: word_less_nat_alt word_le_nat_alt)
  have old: "\<forall>s\<in>set (live rs). request_ok h dl s \<and> own_id s \<and> rq_sequence s < n" using t by (simp add: table_ok_def)
  have "rq_sequence s < n + 1 \<and> rq_sequence s \<noteq> n" if "s \<in> set (live rs)" for s using old that b(3) by (meson less_irrefl less_trans)
  moreover have "s = zero_request" if "s \<in> set (rs[k := r])" "rq_state s = SI_AGENT_REQUEST_EMPTY" for s
    using that t request_ok_live [OF r(1)] set_update_subset_insert [of rs k r] by (auto simp: table_ok_def)
  ultimately show ?thesis using t r b old unfolding table_ok_def l by (auto simp: l(2))
qed

lemma table_zero: "table_ok h dl (replicate 32 zero_request) 1"
  by (simp add: table_ok_def word_le_nat_alt)

section \<open>Operations that create no record\<close>

definition evolve :: "(string \<Rightarrow> u8 list) \<Rightarrow> bool \<Rightarrow> broker \<Rightarrow> broker \<Rightarrow> bool" where
  "evolve h dl b c \<longleftrightarrow> list_all2 (table_step h dl) (bk_requests b) (bk_requests c) \<and> bk_next_sequence c = bk_next_sequence b \<and>
     (\<not> bk_lock c \<longrightarrow> \<not> bk_lock b \<and> bk_requests c = bk_requests b)"

lemma evolve_inv: "broker_inv h dl b \<Longrightarrow> evolve h dl b c \<Longrightarrow> broker_inv h dl c"
  unfolding broker_inv_def evolve_def using table_pointwise by auto

lemma evolve_refl: "broker_inv h dl b \<Longrightarrow> evolve h dl b b"
  unfolding broker_inv_def evolve_def using table_refl by (auto intro!: list.rel_refl_strong)

lemma table_step_trans: "table_step h dl r s \<Longrightarrow> table_step h dl s t \<Longrightarrow> table_step h dl r t"
  using request_ok_live [OF good_ok] good_trans unfolding table_step_def by (auto split: if_splits)

lemma evolve_trans: "evolve h dl b c \<Longrightarrow> evolve h dl c d \<Longrightarrow> evolve h dl b d"
proof -
  assume a: "evolve h dl b c" "evolve h dl c d"
  have "list_all2 (table_step h dl) (bk_requests b) (bk_requests d)"
    by (rule list_all2_trans [of "table_step h dl" "table_step h dl" "table_step h dl" _ "bk_requests c"]) (use table_step_trans a in \<open>auto simp: evolve_def\<close>)
  then show ?thesis using a by (simp add: evolve_def)
qed

lemma evolve_enter:
  assumes "broker_inv h dl b"
  shows "evolve h dl b (snd (broker_enter e b))" "fst (broker_enter e b) = ESP_OK \<Longrightarrow> bk_lock (snd (broker_enter e b))"
proof -
  have "snd (broker_enter e b) = b \<or> (\<not> bk_lock b \<and> snd (broker_enter e b) = b\<lparr>bk_lock := True\<rparr>)"
  proof (cases "bk_lock b \<or> \<not> be_created e")
    case True
    then show ?thesis by (auto simp: broker_enter_def si_agent_request_broker_start_def)
  next
    case False
    then have "bk_requests b = replicate 32 zero_request" "bk_next_sequence b = 1" using assms by (simp_all add: broker_inv_def)
    then have "snd (si_agent_request_broker_start e b) = b\<lparr>bk_lock := True\<rparr>"
      using False by (cases b) (simp add: si_agent_request_broker_start_def request_consts)
    then show ?thesis using False by (simp add: broker_enter_def case_prod_unfold Let_def)
  qed
  then show "evolve h dl b (snd (broker_enter e b))" using evolve_refl [OF assms] by (auto simp: evolve_def)
  show "fst (broker_enter e b) = ESP_OK \<Longrightarrow> bk_lock (snd (broker_enter e b))"
    by (auto simp: broker_enter_def broker_lock_def si_agent_request_broker_start_def Let_def split: if_splits)
qed

lemma evolve_map:
  assumes "broker_inv h dl b" "bk_lock b" "\<And>r. request_ok h dl r \<Longrightarrow> f r = zero_request \<or> good_step h dl r (f r)" "f zero_request = zero_request"
  shows "evolve h dl b (b\<lparr>bk_requests := map f (bk_requests b)\<rparr>)"
  using table_map(1) [OF _ assms(3,4)] assms(1,2) by (simp add: evolve_def broker_inv_def)

lemma zero_fixed [simp]:
  "expire_request t zero_request = zero_request" "cancel_run_request t run zero_request = zero_request"
  "terminalize_request t run zero_request = zero_request" "retire_request run zero_request = zero_request"
  by (simp_all add: expire_request_def cancel_run_request_def terminalize_request_def retire_request_def state_expires_def)

lemma evolve_expire: "broker_inv h dl b \<Longrightarrow> bk_lock b \<Longrightarrow> evolve h dl b (expire_all_locked t b)"
  unfolding expire_all_locked_def by (rule evolve_map) (simp_all add: good_expire)

lemma find_loop_Some: "find_loop P rs = Some k \<Longrightarrow> k < length rs \<and> P (rs ! k)"
  by (induction rs arbitrary: k) (auto split: if_splits)

lemma find_loop_None: "find_loop P rs = None \<Longrightarrow> r \<in> set rs \<Longrightarrow> \<not> P r"
  by (induction rs) (auto split: if_splits)

lemma find_by_id_Some:
  assumes "find_by_id_locked i b = Some k" "broker_inv h dl b"
  shows "k < length (bk_requests b)" "rq_request_id (bk_requests b ! k) = c_or_empty i" "rq_state (bk_requests b ! k) \<noteq> SI_AGENT_REQUEST_EMPTY"
    "request_ok h dl (bk_requests b ! k)"
proof -
  have n: "c_or_empty i \<noteq> []" and f: "find_loop (\<lambda>r. rq_request_id r = c_or_empty i) (bk_requests b) = Some k"
    using assms(1) by (auto simp: find_by_id_locked_def split: if_splits)
  note k = find_loop_Some [OF f]
  show "k < length (bk_requests b)" "rq_request_id (bk_requests b ! k) = c_or_empty i" using k by auto
  have "bk_requests b ! k \<in> set (bk_requests b)" using k by simp
  moreover have "bk_requests b ! k \<noteq> zero_request" using k n by auto
  ultimately show l: "rq_state (bk_requests b ! k) \<noteq> SI_AGENT_REQUEST_EMPTY" using assms(2) by (auto simp: broker_inv_def table_ok_def)
  then have "bk_requests b ! k \<in> set (live (bk_requests b))" using k by (simp add: live_def)
  then show "request_ok h dl (bk_requests b ! k)" using assms(2) by (simp add: broker_inv_def table_ok_def)
qed

lemma evolve_with:
  assumes "broker_inv h dl b" "bk_lock b" "\<And>r. request_ok h dl r \<Longrightarrow> good_step h dl r (snd (f r))"
  shows "evolve h dl b (snd (snd (with_request i f b)))"
proof (cases "find_by_id_locked i b")
  case None
  then show ?thesis using evolve_refl [OF assms(1)] by (simp add: with_request_def)
next
  case (Some k)
  note k = find_by_id_Some [OF Some assms(1)]
  have "snd (snd (with_request i f b)) = put_request k (snd (f (bk_requests b ! k))) b"
    using Some by (simp add: with_request_def case_prod_unfold Let_def)
  moreover have "list_all2 (table_step h dl) (bk_requests b) ((bk_requests b)[k := snd (f (bk_requests b ! k))])"
    by (rule table_update(1) [where n = "bk_next_sequence b", OF _ k(1,3) assms(3)]) (use assms(1) in \<open>simp_all add: broker_inv_def\<close>)
  ultimately show ?thesis using assms(2) by (simp add: evolve_def put_request_def)
qed

text \<open>An operation under the mutex.\<close>

lemma evolve_under:
  assumes "broker_inv h dl b" "\<And>c. broker_inv h dl c \<Longrightarrow> bk_lock c \<Longrightarrow> evolve h dl c (sel (k c))" "\<And>ret c. sel (g ret c) = c"
  shows "evolve h dl b (sel (let (ret, b) = broker_enter e b in if ret \<noteq> ESP_OK then g ret b else k b))"
proof -
  let ?c = "snd (broker_enter e b)"
  note en = evolve_enter [OF assms(1), of e]
  have "evolve h dl b (sel (k ?c))" if "fst (broker_enter e b) = ESP_OK"
    using evolve_trans [OF en(1) assms(2) [OF evolve_inv [OF assms(1) en(1)] en(2) [OF that]]] .
  then show ?thesis using en(1) assms(3) by (simp add: case_prod_unfold Let_def)
qed

lemma evolve_under1:
  assumes "broker_inv h dl b" "\<And>c. broker_inv h dl c \<Longrightarrow> bk_lock c \<Longrightarrow> evolve h dl c (snd (k c))"
  shows "evolve h dl b (snd (let (ret, b) = broker_enter e b in if ret \<noteq> ESP_OK then (ret, b) else k b))"
  using evolve_under [OF assms(1), of "\<lambda>x. snd x" k "\<lambda>ret b. (ret, b)" e] assms(2) by (simp only: snd_conv)

lemma evolve_under2:
  assumes "broker_inv h dl b" "\<And>c. broker_inv h dl c \<Longrightarrow> bk_lock c \<Longrightarrow> evolve h dl c (snd (snd (k c)))"
  shows "evolve h dl b (snd (snd (let (ret, b) = broker_enter e b in if ret \<noteq> ESP_OK then (ret, None, b) else k b)))"
  using evolve_under [OF assms(1), of "\<lambda>x. snd (snd x)" k "\<lambda>ret b. (ret, None, b)" e] assms(2) by (simp only: snd_conv)

lemma evolve_under3:
  assumes "broker_inv h dl b" "\<And>c. broker_inv h dl c \<Longrightarrow> bk_lock c \<Longrightarrow> evolve h dl c (snd (snd (snd (k c))))"
  shows "evolve h dl b (snd (snd (snd (let (ret, b) = broker_enter e b in if ret \<noteq> ESP_OK then (ret, [], 0, b) else k b))))"
  using evolve_under [OF assms(1), of "\<lambda>x. snd (snd (snd x))" k "\<lambda>ret b. (ret, [], 0, b)" e] assms(2) by (simp only: snd_conv)

lemma evolve_with_expired:
  assumes "broker_inv h dl b" "bk_lock b" "\<And>r. request_ok h dl r \<Longrightarrow> good_step h dl r (snd (f r))"
  shows "evolve h dl b (snd (snd (with_request i f (expire_all_locked t b))))"
proof -
  note x = evolve_expire [OF assms(1,2), of t]
  have "bk_lock (expire_all_locked t b)" using assms(2) by (simp add: expire_all_locked_def)
  then show ?thesis using evolve_trans [OF x evolve_with [OF evolve_inv [OF assms(1) x] _ assms(3)]] by blast
qed

lemma set_actor_valid:
  "value_valid s SI_AGENT_REQUEST_SESSION_ID_MAX_LEN True \<Longrightarrow> actor_valid (set_actor SI_AGENT_REQUEST_PRINCIPAL_BROWSER s (Some ''legacy-browser'')) True"
  "value_valid s SI_AGENT_REQUEST_SESSION_ID_MAX_LEN True \<Longrightarrow> actor_valid (set_actor SI_AGENT_REQUEST_PRINCIPAL_AGENT s (Some ''legacy-embedded-agent'')) True"
  using value_fixed [of s SI_AGENT_REQUEST_SESSION_ID_MAX_LEN True] by (auto simp: actor_valid_def set_actor_def fixed_value_valid_def copy_text_def request_consts)

lemma evolve_decide_v2: "broker_inv h dl b \<Longrightarrow> evolve h dl b (snd (snd (si_agent_request_broker_decide_v2 e d b)))"
proof (cases d)
  case (Some x)
  assume i: "broker_inv h dl b"
  show ?thesis
  proof (cases "\<not> value_valid (de_request_id x) SI_AGENT_REQUEST_ID_MAX_LEN True \<or> \<not> value_valid (de_response x) SI_AGENT_REQUEST_RESPONSE_MAX_LEN False \<or>
             \<not> actor_valid (de_decider x) True \<or> \<not> scope_valid (de_grant_scope x)")
    case True
    then show ?thesis using Some evolve_refl [OF i] by (auto simp: si_agent_request_broker_decide_v2_def)
  next
    case False
    then have g: "request_ok h dl r \<Longrightarrow> good_step h dl r (snd (decide_request t x r))" for r t using good_decide by blast
    show ?thesis unfolding Some si_agent_request_broker_decide_v2_def option.case if_not_P [OF False]
      by (rule evolve_under2 [OF i]) (simp add: Let_def evolve_with_expired g)
  qed
qed (simp add: si_agent_request_broker_decide_v2_def evolve_refl)

lemma evolve_decide: "broker_inv h dl b \<Longrightarrow> evolve h dl b (snd (snd (si_agent_request_broker_decide e i k x s b)))"
  by (simp add: si_agent_request_broker_decide_def evolve_refl evolve_decide_v2)

lemma evolve_consume: "broker_inv h dl b \<Longrightarrow> evolve h dl b (snd (snd (si_agent_request_broker_consume e c b)))"
proof (cases c)
  case (Some x)
  assume i: "broker_inv h dl b"
  show ?thesis
  proof (cases "sha256_hex e (c_or_empty (bi_normalized_args_json (co_binding x)))")
    case None
    then show ?thesis using i by (simp add: Some si_agent_request_broker_consume_def evolve_refl)
  next
    case hash: (Some y)
    have "evolve h dl b (snd (snd (let (ret, b) = broker_enter e b in if ret \<noteq> ESP_OK then (ret, None, b)
        else let now_ms = broker_now_ms e b in with_request (co_request_id x) (consume_request now_ms x y) (expire_all_locked now_ms b))))"
      by (rule evolve_under2 [OF i]) (simp add: Let_def evolve_with_expired good_consume)
    then show ?thesis using i unfolding Some si_agent_request_broker_consume_def option.case hash by (simp add: evolve_refl)
  qed
qed (simp add: si_agent_request_broker_consume_def evolve_refl)

lemma good_evidence: "request_ok h dl s \<Longrightarrow> good_step h dl s (s\<lparr>rq_verification_evidence := copy_text (SI_AGENT_REQUEST_RESPONSE_MAX_LEN + 1) d, rq_error := []\<rparr>)"
  by (rule good_texts(4))

lemma good_verifying: "request_ok h dl r \<Longrightarrow> good_step h dl r (snd (advance_request SI_AGENT_REQUEST_VERIFYING t id r))"
  by (rule good_advance) (simp_all add: good_refl)

lemma good_completed: "request_ok h dl r \<Longrightarrow> good_step h dl r (snd (advance_request SI_AGENT_REQUEST_COMPLETED t
    (\<lambda>r. r\<lparr>rq_verification_evidence := copy_text (SI_AGENT_REQUEST_RESPONSE_MAX_LEN + 1) d, rq_error := []\<rparr>) r))"
  by (rule good_advance [OF _ _ good_evidence]) simp_all

lemma good_unknown: "request_ok h dl r \<Longrightarrow> good_step h dl r (snd (advance_request SI_AGENT_REQUEST_UNKNOWN t (set_error x) r))"
  by (rule good_advance [OF _ _ good_texts(2)]) simp_all

lemma evolve_mark_verifying: "broker_inv h dl b \<Longrightarrow> evolve h dl b (snd (snd (si_agent_request_broker_mark_verifying e i b)))"
proof -
  assume i: "broker_inv h dl b"
  have "evolve h dl b (snd (snd (let (ret, b) = broker_enter e b in if ret \<noteq> ESP_OK then (ret, None, b)
      else with_request i (advance_request SI_AGENT_REQUEST_VERIFYING (broker_now_ms e b) id) b)))"
    by (rule evolve_under2 [OF i], rule evolve_with, assumption+, rule good_verifying)
  then show ?thesis unfolding si_agent_request_broker_mark_verifying_def using evolve_refl [OF i] by (simp split: if_split)
qed

lemma evolve_complete: "broker_inv h dl b \<Longrightarrow> evolve h dl b (snd (snd (si_agent_request_broker_complete_verified e i v b)))"
proof -
  assume i: "broker_inv h dl b"
  let ?f = "\<lambda>r. r\<lparr>rq_verification_evidence := copy_text (SI_AGENT_REQUEST_RESPONSE_MAX_LEN + 1) v, rq_error := []\<rparr>"
  have e: "evolve h dl b (snd (snd (let (ret, b) = broker_enter e b in if ret \<noteq> ESP_OK then (ret, None, b)
      else with_request i (advance_request SI_AGENT_REQUEST_COMPLETED (broker_now_ms e b) ?f) b)))"
    by (rule evolve_under2 [OF i], rule evolve_with, assumption+, rule good_completed)
  show ?thesis unfolding si_agent_request_broker_complete_verified_def
    by (cases "\<not> value_valid i SI_AGENT_REQUEST_ID_MAX_LEN True \<or> \<not> value_valid v SI_AGENT_REQUEST_RESPONSE_MAX_LEN True")
      (use e evolve_refl [OF i] in \<open>simp_all only: if_True if_False snd_conv\<close>)
qed

lemma evolve_mark_unknown: "broker_inv h dl b \<Longrightarrow> evolve h dl b (snd (snd (si_agent_request_broker_mark_unknown e i x b)))"
proof -
  assume i: "broker_inv h dl b"
  have e: "evolve h dl b (snd (snd (let (ret, b) = broker_enter e b in if ret \<noteq> ESP_OK then (ret, None, b)
      else with_request i (advance_request SI_AGENT_REQUEST_UNKNOWN (broker_now_ms e b)
        (set_error (if c_or_empty x \<noteq> [] then c_or_empty x else ''execution outcome unknown''))) b)))"
    by (rule evolve_under2 [OF i], rule evolve_with, assumption+, rule good_unknown)
  show ?thesis unfolding si_agent_request_broker_mark_unknown_def
    by (cases "\<not> value_valid i SI_AGENT_REQUEST_ID_MAX_LEN True \<or> \<not> value_valid x SI_AGENT_REQUEST_ERROR_MAX_LEN False")
      (use e evolve_refl [OF i] in \<open>simp_all only: if_True if_False snd_conv\<close>)
qed

lemma evolve_cancel: "broker_inv h dl b \<Longrightarrow> evolve h dl b (snd (snd (si_agent_request_broker_cancel e i s b)))"
proof -
  assume i: "broker_inv h dl b"
  have "evolve h dl b (snd (snd (let (ret, b) = broker_enter e b in if ret \<noteq> ESP_OK then (ret, None, b)
      else let now_ms = broker_now_ms e b in with_request i (cancel_request now_ms (c_or_empty s)) (expire_all_locked now_ms b))))"
    by (rule evolve_under2 [OF i]) (simp add: Let_def evolve_with_expired good_cancel)
  then show ?thesis unfolding si_agent_request_broker_cancel_def using evolve_refl [OF i] by (simp split: if_split)
qed

lemma evolve_finish: "broker_inv h dl b \<Longrightarrow> evolve h dl b (snd (snd (si_agent_request_broker_finish e i k x b)))"
proof -
  assume i: "broker_inv h dl b"
  have "evolve h dl b (snd (snd (let (ret, b) = broker_enter e b in if ret \<noteq> ESP_OK then (ret, None, b)
      else let now_ms = broker_now_ms e b in with_request i (finish_request now_ms k x) (expire_all_locked now_ms b))))"
    by (rule evolve_under2 [OF i]) (simp add: Let_def evolve_with_expired good_finish)
  then show ?thesis unfolding si_agent_request_broker_finish_def using evolve_refl [OF i] by (simp split: if_split)
qed

lemma evolve_get_by_id: "broker_inv h dl b \<Longrightarrow> evolve h dl b (snd (snd (si_agent_request_broker_get_by_id e i k b)))"
proof -
  assume i: "broker_inv h dl b"
  have "evolve h dl b (snd (snd (let (ret, b) = broker_enter e b in if ret \<noteq> ESP_OK then (ret, None, b)
      else let b = expire_all_locked (broker_now_ms e b) b in case find_by_id_locked i b of
        Some r \<Rightarrow> (ESP_OK, Some (bk_requests b ! r), b) | None \<Rightarrow> (ESP_ERR_NOT_FOUND, Some zero_request, b))))"
    by (rule evolve_under2 [OF i]) (simp add: Let_def evolve_expire split: option.split)
  then show ?thesis unfolding si_agent_request_broker_get_by_id_def using evolve_refl [OF i] by (simp split: if_split)
qed

lemma evolve_get: "broker_inv h dl b \<Longrightarrow> evolve h dl b (snd (snd (si_agent_request_broker_get e run k b)))"
proof -
  assume i: "broker_inv h dl b"
  have "evolve h dl b (snd (snd (let (ret, b) = broker_enter e b in if ret \<noteq> ESP_OK then (ret, None, b)
      else let b = expire_all_locked (broker_now_ms e b) b in case newest_loop run None (bk_requests b) of
        Some newest \<Rightarrow> (ESP_OK, Some newest, b) | None \<Rightarrow> (if c_or_empty run \<noteq> [] then ESP_ERR_NOT_FOUND else ESP_OK, Some zero_request, b))))"
    by (rule evolve_under2 [OF i]) (simp add: Let_def evolve_expire split: option.split)
  then show ?thesis unfolding si_agent_request_broker_get_def using evolve_refl [OF i] by (simp split: if_split)
qed

lemma evolve_enumerate: "broker_inv h dl b \<Longrightarrow> evolve h dl b (snd (snd (snd (si_agent_request_broker_enumerate e run k n c b))))"
proof -
  assume i: "broker_inv h dl b"
  let ?k = "\<lambda>b. let b = expire_all_locked (broker_now_ms e b) b; rs = bk_requests b;
              indices = foldl (insert_index rs) [] (filter (\<lambda>index. of_run run (rs ! index)) [0..<length rs]);
              count = length indices
          in (if count > n then ESP_ERR_INVALID_SIZE else ESP_OK, map ((!) rs) (take n indices), count, b)"
  have x: "evolve h dl b (snd (snd (snd (let (ret, b) = broker_enter e b in if ret \<noteq> ESP_OK then (ret, [], 0, b) else ?k b))))"
    by (rule evolve_under3 [OF i]) (simp add: Let_def evolve_expire)
  show ?thesis unfolding si_agent_request_broker_enumerate_def
    by (cases "\<not> c \<or> (run \<noteq> None \<and> \<not> value_valid run SI_AGENT_REQUEST_RUN_ID_MAX_LEN False) \<or> (n > 0 \<and> \<not> k)")
      (use x evolve_refl [OF i] in \<open>simp_all only: if_True if_False snd_conv\<close>)
qed

lemma evolve_export: "broker_inv h dl b \<Longrightarrow> evolve h dl b (snd (snd (si_agent_request_broker_export_snapshot e k b)))"
proof -
  assume i: "broker_inv h dl b"
  let ?k = "\<lambda>b. let now_ms = broker_now_ms e b; b = expire_all_locked now_ms b
     in (ESP_OK, Some \<lparr>sn_schema_version = SI_AGENT_REQUEST_SNAPSHOT_SCHEMA_VERSION, sn_next_sequence = bk_next_sequence b,
           sn_entries = map (\<lambda>r. \<lparr>se_status = r, se_remaining_ttl_ms = remaining_ttl now_ms (rq_expires_at_ms r)\<rparr>)
                          (filter (\<lambda>r. rq_state r \<noteq> SI_AGENT_REQUEST_EMPTY) (bk_requests b))\<rparr>, b)"
  have x: "evolve h dl b (snd (snd (let (ret, b) = broker_enter e b in if ret \<noteq> ESP_OK then (ret, None, b) else ?k b)))"
    by (rule evolve_under2 [OF i]) (simp add: Let_def evolve_expire)
  show ?thesis unfolding si_agent_request_broker_export_snapshot_def
    by (cases k) (use x evolve_refl [OF i] in \<open>simp_all only: simp_thms if_True if_False snd_conv\<close>)
qed

lemma evolve_now_fn: "evolve h dl b c \<Longrightarrow> bk_lock c \<Longrightarrow> evolve h dl b (c\<lparr>bk_now_fn := f\<rparr>)"
  by (simp add: evolve_def)

lemma evolve_provider: "broker_inv h dl b \<Longrightarrow> evolve h dl b (snd (si_agent_request_broker_set_now_provider e f b))"
  unfolding si_agent_request_broker_set_now_provider_def by (rule evolve_under1) (simp_all add: evolve_now_fn evolve_refl)

lemma evolve_start: "broker_inv h dl b \<Longrightarrow> evolve h dl b (snd (si_agent_request_broker_start e b))"
proof -
  assume i: "broker_inv h dl b"
  have "snd (broker_enter e b) = snd (si_agent_request_broker_start e b)" by (simp add: broker_enter_def case_prod_unfold Let_def)
  then show ?thesis using evolve_enter(1) [OF i, of e] by simp
qed

lemma good_retire: "request_ok h dl r \<Longrightarrow> retire_request run r = zero_request \<or> good_step h dl r (retire_request run r)"
  using good_refl by (auto simp: retire_request_def)

lemma evolve_retire: "broker_inv h dl b \<Longrightarrow> evolve h dl b (snd (si_agent_request_broker_retire_run e run b))"
proof -
  assume i: "broker_inv h dl b"
  let ?k = "\<lambda>b. let b = expire_all_locked (broker_now_ms e b) b; run = c_or_empty run in
          if list_ex (\<lambda>r. rq_state r \<noteq> SI_AGENT_REQUEST_EMPTY \<and> rq_run_id r = run \<and> \<not> state_terminal (rq_state r)) (bk_requests b)
          then (ESP_ERR_INVALID_STATE, b) else (ESP_OK, b\<lparr>bk_requests := map (retire_request run) (bk_requests b)\<rparr>)"
  have k: "evolve h dl c (snd (?k c))" if c: "broker_inv h dl c" "bk_lock c" for c
  proof -
    let ?d = "expire_all_locked (broker_now_ms e c) c"
    have d: "evolve h dl c ?d" "bk_lock ?d" using evolve_expire [OF c] c(2) by (simp_all add: expire_all_locked_def)
    have "evolve h dl ?d (?d\<lparr>bk_requests := map (retire_request (c_or_empty run)) (bk_requests ?d)\<rparr>)"
      by (rule evolve_map [OF evolve_inv [OF c(1) d(1)] d(2) good_retire]) simp_all
    then show ?thesis using d(1) evolve_trans by (simp add: Let_def)
  qed
  have x: "evolve h dl b (snd (let (ret, b) = broker_enter e b in if ret \<noteq> ESP_OK then (ret, b) else ?k b))"
    by (rule evolve_under1 [OF i k])
  show ?thesis unfolding si_agent_request_broker_retire_run_def
    by (cases "value_valid run SI_AGENT_REQUEST_RUN_ID_MAX_LEN True") (use x evolve_refl [OF i] in \<open>simp_all only: simp_thms if_True if_False snd_conv\<close>)
qed

lemma evolve_terminalize: "broker_inv h dl b \<Longrightarrow> evolve h dl b (snd (si_agent_request_broker_terminalize_and_retire_run e run b))"
proof -
  assume i: "broker_inv h dl b"
  let ?k = "\<lambda>b. let now_ms = broker_now_ms e b; run = c_or_empty run in
          if list_ex (\<lambda>r. \<not> (rq_state r = SI_AGENT_REQUEST_EMPTY \<or> rq_run_id r \<noteq> run \<or> state_terminal (rq_state r)) \<and>
                          \<not> state_expires (rq_state r) \<and> rq_state r \<noteq> SI_AGENT_REQUEST_EXECUTING \<and>
                          rq_state r \<noteq> SI_AGENT_REQUEST_VERIFYING) (bk_requests b)
          then (ESP_ERR_INVALID_STATE, b)
          else (ESP_OK, b\<lparr>bk_requests := map (retire_request run \<circ> terminalize_request now_ms run) (bk_requests b)\<rparr>)"
  have g: "(retire_request r \<circ> terminalize_request t r) x = zero_request \<or> good_step h dl x ((retire_request r \<circ> terminalize_request t r) x)"
    if "request_ok h dl x" for x t r
    using good_retire [OF good_ok [OF good_terminalize [OF that]], of r t r] good_trans [OF good_terminalize [OF that]] by (metis comp_apply)
  have k: "evolve h dl c (snd (?k c))" if c: "broker_inv h dl c" "bk_lock c" for c
    using evolve_map [where f = "retire_request (c_or_empty run) \<circ> terminalize_request (broker_now_ms e c) (c_or_empty run)", OF c g]
      evolve_refl [OF c(1)] by (simp add: Let_def)
  have x: "evolve h dl b (snd (let (ret, b) = broker_enter e b in if ret \<noteq> ESP_OK then (ret, b) else ?k b))"
    by (rule evolve_under1 [OF i k])
  show ?thesis unfolding si_agent_request_broker_terminalize_and_retire_run_def
    by (cases "value_valid run SI_AGENT_REQUEST_RUN_ID_MAX_LEN True") (use x evolve_refl [OF i] in \<open>simp_all only: simp_thms if_True if_False snd_conv\<close>)
qed

lemma evolve_cancel_run: "broker_inv h dl b \<Longrightarrow> evolve h dl b (si_agent_request_broker_cancel_run e run b)"
proof -
  assume i: "broker_inv h dl b"
  let ?k = "\<lambda>b. let now_ms = broker_now_ms e b; b = expire_all_locked now_ms b
          in b\<lparr>bk_requests := map (cancel_run_request now_ms (c_or_empty run)) (bk_requests b)\<rparr>"
  have k: "evolve h dl c (?k c)" if c: "broker_inv h dl c" "bk_lock c" for c
  proof -
    let ?d = "expire_all_locked (broker_now_ms e c) c"
    have d: "evolve h dl c ?d" "bk_lock ?d" using evolve_expire [OF c] c(2) by (simp_all add: expire_all_locked_def)
    have "evolve h dl ?d (?d\<lparr>bk_requests := map (cancel_run_request (broker_now_ms e c) (c_or_empty run)) (bk_requests ?d)\<rparr>)"
      by (rule evolve_map [OF evolve_inv [OF c(1) d(1)] d(2)]) (simp_all add: good_cancel_run)
    then show ?thesis using d(1) evolve_trans by (simp add: Let_def)
  qed
  have "evolve h dl b (let (ret, b) = broker_enter e b in if ret \<noteq> ESP_OK then b else ?k b)"
    by (rule evolve_under [OF i, of "\<lambda>x. x" ?k "\<lambda>ret b. b", OF k refl])
  then show ?thesis unfolding si_agent_request_broker_cancel_run_def using evolve_refl [OF i] by (simp split: if_split)
qed

end
