(* ===== verification/Broker_System.thy ===== *)
theory Broker_System
  imports Broker_Machine
begin

text \<open>
  Runs of the request broker: creation of records, restarts over a snapshot, and the machine of all operations with the
  history of the effects that have begun.
\<close>

section \<open>Keys\<close>

definition live_keys :: "broker \<Rightarrow> string list" where
  "live_keys b = map rq_idempotency_key (live (bk_requests b))"

definition consumed_keys :: "broker \<Rightarrow> string list" where
  "consumed_keys b = map rq_idempotency_key (filter rq_grant_consumed (live (bk_requests b)))"

lemma consumed_live: "set (consumed_keys b) \<subseteq> set (live_keys b)"
  by (auto simp: consumed_keys_def live_keys_def)

lemma key_unique:
  assumes "broker_inv h dl b" "r \<in> set (live (bk_requests b))" "s \<in> set (live (bk_requests b))" "rq_idempotency_key r = rq_idempotency_key s"
  shows "r = s"
proof -
  have "distinct (map rq_idempotency_key (live (bk_requests b)))" using assms(1) by (simp add: broker_inv_def table_ok_def)
  then have "inj_on rq_idempotency_key (set (live (bk_requests b)))" by (simp add: distinct_map)
  then show ?thesis using assms(2-4) by (simp add: inj_on_eq_iff)
qed

lemma evolve_live:
  assumes "evolve h dl b c" "s \<in> set (live (bk_requests c))"
  obtains r where "r \<in> set (live (bk_requests b))" "good_step h dl r s"
proof -
  have l: "list_all2 (table_step h dl) (bk_requests b) (bk_requests c)" using assms(1) by (simp add: evolve_def)
  have s: "s \<in> set (bk_requests c)" "rq_state s \<noteq> SI_AGENT_REQUEST_EMPTY" using assms(2) by (simp_all add: live_def)
  obtain k where k: "k < length (bk_requests c)" "s = bk_requests c ! k" using s(1) by (metis in_set_conv_nth)
  have "table_step h dl (bk_requests b ! k) s" using list_all2_nthD2 [OF l k(1)] k(2) by simp
  note t = table_step_live [OF this s(2)]
  have "bk_requests b ! k \<in> set (bk_requests b)" using k(1) list_all2_lengthD [OF l] by simp
  then show ?thesis using that t by (simp add: live_def)
qed

text \<open>A key that has been consumed stays consumed while its record is kept.\<close>

lemma evolve_keeps_consumed:
  assumes "broker_inv h dl b" "evolve h dl b c" "k \<in> set (consumed_keys b)" "k \<in> set (live_keys c)"
  shows "k \<in> set (consumed_keys c)"
proof -
  obtain s where s: "s \<in> set (live (bk_requests c))" "rq_idempotency_key s = k" using assms(4) by (auto simp: live_keys_def)
  obtain r where r: "r \<in> set (live (bk_requests b))" "good_step h dl r s" using evolve_live [OF assms(2) s(1)] .
  obtain q where q: "q \<in> set (live (bk_requests b))" "rq_grant_consumed q" "rq_idempotency_key q = k" using assms(3) by (auto simp: consumed_keys_def)
  have "r = q" by (rule key_unique [OF assms(1) r(1) q(1)]) (use r(2) s(2) q(3) in \<open>simp add: good_step_def same_request_def\<close>)
  then have "rq_grant_consumed s" using q(2) r(2) by (simp add: good_step_def same_request_def)
  then show ?thesis using s by (auto simp: consumed_keys_def)
qed

lemma enter_requests: "broker_inv h dl b \<Longrightarrow> bk_requests (snd (broker_enter e b)) = bk_requests b"
  by (auto simp: broker_enter_def si_agent_request_broker_start_def broker_inv_def request_consts Let_def)

lemma expire_live_keys: "live_keys (expire_all_locked t b) = live_keys b"
proof -
  have "rq_idempotency_key (expire_request t r) = rq_idempotency_key r"
    "rq_state (expire_request t r) = SI_AGENT_REQUEST_EMPTY \<longleftrightarrow> rq_state r = SI_AGENT_REQUEST_EMPTY" for r
    by (auto simp: expire_request_def set_state_cases state_expires_def)
  then show ?thesis unfolding live_keys_def live_def expire_all_locked_def by (simp add: filter_map comp_def)
qed

section \<open>Creation\<close>

lemma live_ok: "broker_inv h dl b \<Longrightarrow> k < length (bk_requests b) \<Longrightarrow> rq_state (bk_requests b ! k) \<noteq> SI_AGENT_REQUEST_EMPTY \<Longrightarrow> request_ok h dl (bk_requests b ! k)"
  by (auto simp: broker_inv_def table_ok_def live_def)

text \<open>A record is added, or nothing changes.\<close>

definition grow :: "broker \<Rightarrow> broker \<Rightarrow> bool" where
  "grow b c \<longleftrightarrow> c = b \<or>
     (\<exists>k r. k < length (bk_requests b) \<and> rq_state (bk_requests b ! k) = SI_AGENT_REQUEST_EMPTY \<and> rq_state r \<noteq> SI_AGENT_REQUEST_EMPTY \<and>
        bk_requests c = (bk_requests b)[k := r])"

lemma create_grow:
  assumes inv: "broker_inv h dl b" "bk_lock b" and n: "bk_next_sequence b < 2 ^ 32" and v: "v2_input_valid (Some i)"
    and x: "x = hash_text h (c_or_empty (bi_normalized_args_json (vi_binding i)))" and dl: "dl \<or> \<not> vi_delegated_auto_approval i"
  shows "broker_inv h dl (snd (snd (create_locked e i x t b))) \<and> grow b (snd (snd (create_locked e i x t b)))"
proof (cases "find_idempotency_locked (c_or_empty (bi_idempotency_key (vi_binding i))) b = None \<and> allocate_slot_locked b \<noteq> None")
  case False
  then have "snd (snd (create_locked e i x t b)) = b" by (auto simp: create_locked_def Let_def split: option.splits)
  then show ?thesis using inv(1) by (simp add: grow_def)
next
  case True
  then obtain k where f: "find_idempotency_locked (c_or_empty (bi_idempotency_key (vi_binding i))) b = None" and k: "allocate_slot_locked b = Some k" by blast
  let ?rs = "bk_requests b"
  define g where "g = map_option ((!) ?rs) (find_loop (grant_scope_matches i x t) ?rs)"
  define r0 where "r0 = new_request e t (bk_next_sequence b) i x"
  define r where "r = evaluate_request t i g r0"
  have c: "snd (snd (create_locked e i x t b)) = put_request k r (b\<lparr>bk_next_sequence := bk_next_sequence b + 1\<rparr>)"
    unfolding create_locked_def f k option.case Let_def snd_conv r_def r0_def g_def by (rule refl)
  have slot: "k < length ?rs" "rq_state (?rs ! k) = SI_AGENT_REQUEST_EMPTY" using find_loop_Some k by (auto simp: allocate_slot_locked_def)
  have grant: "request_ok h dl y \<and> grant_scope_matches i x t y" if a: "g = Some y" for y
  proof -
    obtain j where j: "find_loop (grant_scope_matches i x t) ?rs = Some j" "y = ?rs ! j" using a by (auto simp: g_def)
    note m = find_loop_Some [OF j(1)]
    then have "rq_state y \<noteq> SI_AGENT_REQUEST_EMPTY" using j(2) by (simp add: grant_scope_matches_def Let_def)
    then show ?thesis using live_ok [OF inv(1)] m j(2) by blast
  qed
  have "0 < bk_next_sequence b" using inv(1) by (simp add: broker_inv_def table_ok_def)
  then have step: "good_step h dl r0 r" unfolding r_def r0_def by (intro good_evaluate [OF v x _ grant dl]) auto
  have "value_valid (bi_idempotency_key (vi_binding i)) SI_AGENT_REQUEST_IDEMPOTENCY_KEY_MAX_LEN True"
    using v by (simp add: v2_input_valid_def binding_valid_def)
  then have "rq_idempotency_key r0 = c_or_empty (bi_idempotency_key (vi_binding i))" using value_fixed by (simp add: r0_def new_request_def)
  then have key: "\<forall>s\<in>set (live ?rs). rq_idempotency_key s \<noteq> rq_idempotency_key r"
    using find_loop_None [OF f [unfolded find_idempotency_locked_def]] step by (auto simp: live_def good_step_def same_request_def)
  have "own_id r" "rq_sequence r = bk_next_sequence b" using step by (auto simp: good_step_def same_request_def own_id_def r0_def new_request_def)
  then have "table_ok h dl (?rs[k := r]) (bk_next_sequence b + 1)"
    by (intro table_add [OF _ slot good_ok [OF step] _ _ key n]) (use inv in \<open>simp_all add: broker_inv_def\<close>)
  then show ?thesis unfolding c using inv(2) slot request_ok_live [OF good_ok [OF step]] by (auto simp: broker_inv_def put_request_def grow_def)
qed

lemma create_v2_steps:
  assumes inv: "broker_inv h dl b" and n: "bk_next_sequence b < 2 ^ 32"
    and dl: "dl \<or> (\<forall>i. input = Some i \<longrightarrow> \<not> vi_delegated_auto_approval i)"
  shows "\<exists>c. evolve h dl b c \<and> live_keys c = live_keys b \<and> broker_inv h dl (snd (snd (si_agent_request_broker_create_v2 (with_hash h e) input b))) \<and>
    grow c (snd (snd (si_agent_request_broker_create_v2 (with_hash h e) input b)))"
proof -
  let ?e = "with_hash h e" and ?c = "snd (broker_enter (with_hash h e) b)"
  let ?r = "snd (snd (si_agent_request_broker_create_v2 ?e input b))"
  note en = evolve_enter [OF inv, of ?e]
  have skip: "\<exists>c. evolve h dl b c \<and> live_keys c = live_keys b \<and> broker_inv h dl ?r \<and> grow c ?r" if "evolve h dl b ?r" "live_keys ?r = live_keys b"
    using that evolve_inv [OF inv that(1)] by (auto simp: grow_def)
  have lk: "live_keys ?c = live_keys b" using enter_requests [OF inv] by (simp add: live_keys_def)
  show ?thesis
  proof (cases "v2_input_valid input")
    case False
    then have "?r = b" by (simp add: si_agent_request_broker_create_v2_def)
    then show ?thesis using skip evolve_refl [OF inv] by simp
  next
    case v: True
    then obtain i where i: "input = Some i" by (cases input) (auto simp: v2_input_valid_def)
    show ?thesis
    proof (cases "sha256_hex ?e (c_or_empty (bi_normalized_args_json (vi_binding i)))")
      case None
      then have "?r = b" using i by (simp add: si_agent_request_broker_create_v2_def)
      then show ?thesis using skip evolve_refl [OF inv] by simp
    next
      case (Some x)
      have u: "?r = snd (snd (let (ret, b) = broker_enter ?e b in if ret \<noteq> ESP_OK then (ret, None, b)
          else let now_ms = broker_now_ms ?e b in create_locked ?e i x now_ms (expire_all_locked now_ms b)))"
        using v Some i by (simp add: si_agent_request_broker_create_v2_def case_prod_unfold Let_def)
      show ?thesis
      proof (cases "fst (broker_enter ?e b) = ESP_OK")
        case False
        then have "?r = ?c" unfolding u by (simp add: case_prod_unfold Let_def)
        then show ?thesis using skip en(1) lk by simp
      next
        case True
        define t where "t = broker_now_ms ?e ?c"
        define d where "d = expire_all_locked t ?c"
        have r: "?r = snd (snd (create_locked ?e i x t d))" unfolding u using True by (simp add: case_prod_unfold Let_def t_def d_def)
        note ic = evolve_inv [OF inv en(1)]
        have d: "evolve h dl b d" unfolding d_def by (rule evolve_trans [OF en(1) evolve_expire [OF ic en(2) [OF True]]])
        have "bk_lock d" using en(2) [OF True] by (simp add: d_def expire_all_locked_def)
        moreover have "live_keys d = live_keys b" using lk by (simp add: d_def expire_live_keys)
        moreover have "bk_next_sequence d < 2 ^ 32" using d n by (simp add: evolve_def)
        moreover have "x = hash_text h (c_or_empty (bi_normalized_args_json (vi_binding i)))" using sha256_with [OF Some] .
        moreover have "v2_input_valid (Some i)" "dl \<or> \<not> vi_delegated_auto_approval i" using v i dl by simp_all
        ultimately show ?thesis unfolding r using create_grow [OF evolve_inv [OF inv d]] d by blast
      qed
    qed
  qed
qed

lemma create_steps:
  assumes inv: "broker_inv h dl b" and n: "bk_next_sequence b < 2 ^ 32"
  shows "\<exists>c. evolve h dl b c \<and> live_keys c = live_keys b \<and> broker_inv h dl (snd (snd (si_agent_request_broker_create (with_hash h e) rnd input b))) \<and>
    grow c (snd (snd (si_agent_request_broker_create (with_hash h e) rnd input b)))"
proof -
  have w: "(with_hash h e)\<lparr>be_random := rnd\<rparr> = with_hash h (e\<lparr>be_random := rnd\<rparr>)" by (simp add: with_hash_def)
  have refl: "\<exists>c. evolve h dl b c \<and> live_keys c = live_keys b \<and> broker_inv h dl b \<and> grow c b" using inv evolve_refl [OF inv] by (auto simp: grow_def)
  show ?thesis
  proof (cases input)
    case None
    then show ?thesis using refl by (simp add: si_agent_request_broker_create_def)
  next
    case (Some i)
    show ?thesis
    proof (cases "snd (snd (si_agent_request_broker_create (with_hash h e) rnd input b)) = b")
      case True
      then show ?thesis using refl by simp
    next
      case False
      then show ?thesis using create_v2_steps [OF inv n]
        unfolding Some si_agent_request_broker_create_def option.case Let_def w by (simp split: if_splits)
    qed
  qed
qed

lemma grow_keeps_consumed: "grow b c \<Longrightarrow> set (consumed_keys b) \<subseteq> set (consumed_keys c)"
  unfolding grow_def
proof (elim disjE exE conjE)
  fix k r
  assume a: "k < length (bk_requests b)" "rq_state (bk_requests b ! k) = SI_AGENT_REQUEST_EMPTY" "rq_state r \<noteq> SI_AGENT_REQUEST_EMPTY"
    "bk_requests c = (bk_requests b)[k := r]"
  show ?thesis unfolding consumed_keys_def a(4) live_add [OF a(1-3)] by auto
qed simp

section \<open>Restarts\<close>

lemma good_new_state:
  assumes "request_ok h dl r" "state_valid s" "effect_started s \<longleftrightarrow> effect_started (rq_state r)" "needs_grant s \<longrightarrow> needs_grant (rq_state r)"
  shows "good_step h dl r (r\<lparr>rq_state := s, rq_completed_ms := t\<rparr>)" "good_step h dl r (r\<lparr>rq_state := s, rq_decided_ms := t\<rparr>)"
proof -
  have t: "snapshot_texts_valid (r\<lparr>rq_state := s, rq_completed_ms := t\<rparr>) = snapshot_texts_valid r"
    "snapshot_texts_valid (r\<lparr>rq_state := s, rq_decided_ms := t\<rparr>) = snapshot_texts_valid r"
    by (simp_all add: snapshot_texts_valid_def)
  show "good_step h dl r (r\<lparr>rq_state := s, rq_completed_ms := t\<rparr>)"
    using assms unfolding good_step_def same_request_def request_ok_def snapshot_valid_iff t granted_by_def by simp
  show "good_step h dl r (r\<lparr>rq_state := s, rq_decided_ms := t\<rparr>)"
    using assms unfolding good_step_def same_request_def request_ok_def snapshot_valid_iff t granted_by_def by simp
qed

lemma good_expires: "request_ok h dl r \<Longrightarrow> good_step h dl r (r\<lparr>rq_expires_at_ms := z\<rparr>)"
proof -
  assume a: "request_ok h dl r"
  have t: "snapshot_texts_valid (r\<lparr>rq_expires_at_ms := z\<rparr>) = snapshot_texts_valid r" by (simp add: snapshot_texts_valid_def)
  show ?thesis using a unfolding good_step_def same_request_def request_ok_def snapshot_valid_iff granted_by_def t by simp
qed

lemma good_restore: "request_ok h dl (se_status y) \<Longrightarrow> good_step h dl (se_status y) (restore_request t y)"
proof -
  assume a: "request_ok h dl (se_status y)"
  let ?r = "se_status y"
  have i: "good_step h dl ?r (?r\<lparr>rq_state := SI_AGENT_REQUEST_UNKNOWN, rq_completed_ms := t\<rparr>)"
    if "rq_state ?r = SI_AGENT_REQUEST_EXECUTING \<or> rq_state ?r = SI_AGENT_REQUEST_VERIFYING"
    by (rule good_new_state(1) [OF a]) (use that in \<open>auto simp: needs_grant_def effect_started_def state_valid_def\<close>)
  have e: "good_step h dl q (q\<lparr>rq_state := SI_AGENT_REQUEST_EXPIRED, rq_decided_ms := t\<rparr>)"
    if "request_ok h dl q" "state_expires (rq_state q)" for q
    by (rule good_new_state(2) [OF that(1)]) (use that(2) in \<open>auto simp: state_expires_def needs_grant_def effect_started_def state_valid_def\<close>)
  note x = good_expires [OF a]
  have p: "good_step h dl ?r (set_error m (set_source n ((?r\<lparr>rq_expires_at_ms := z\<rparr>)\<lparr>rq_state := SI_AGENT_REQUEST_EXPIRED, rq_decided_ms := t\<rparr>)))"
    if "state_expires (rq_state ?r)" for m n z
    by (intro good_chain(1,2) good_trans [OF x e [OF good_ok [OF x]]]) (simp add: that)
  consider "rq_state ?r = SI_AGENT_REQUEST_EXECUTING \<or> rq_state ?r = SI_AGENT_REQUEST_VERIFYING"
    | "rq_state ?r = SI_AGENT_REQUEST_GRANTED" | "rq_state ?r \<noteq> SI_AGENT_REQUEST_EXECUTING" "rq_state ?r \<noteq> SI_AGENT_REQUEST_VERIFYING"
      "rq_state ?r \<noteq> SI_AGENT_REQUEST_GRANTED" by blast
  then show ?thesis
  proof cases
    case 1
    show ?thesis unfolding restore_request_def Let_def if_P [OF 1] by (intro good_chain(1,2) i [OF 1])
  next
    case 2
    then have n: "\<not> (rq_state ?r = SI_AGENT_REQUEST_EXECUTING \<or> rq_state ?r = SI_AGENT_REQUEST_VERIFYING)" by simp
    have "state_expires (rq_state ?r)" using 2 by (simp add: state_expires_def)
    then show ?thesis unfolding restore_request_def Let_def if_not_P [OF n] if_P [OF 2] by (intro good_chain(1,2) e [OF a])
  next
    case 3
    then have n: "\<not> (rq_state ?r = SI_AGENT_REQUEST_EXECUTING \<or> rq_state ?r = SI_AGENT_REQUEST_VERIFYING)" by simp
    show ?thesis unfolding restore_request_def Let_def if_not_P [OF n] if_not_P [OF 3(3)] by (simp only: split: if_split) (intro conjI impI x p)
  qed
qed

lemma import_check_max:
  assumes "import_check e p m rs = Some m'" "m < n" "\<forall>r\<in>set rs. rq_sequence r < n"
  shows "m' < n"
  using assms by (induction e p m rs rule: import_check.induct) (auto split: if_splits)

text \<open>The table over a list of live records.\<close>

lemma table_compact:
  assumes "table_ok h dl rs n"
  shows "table_ok h dl (live rs @ replicate (32 - length (live rs)) zero_request) n"
proof -
  have "length (live rs) \<le> 32" using assms length_filter_le [of _ rs] by (simp add: table_ok_def live_def)
  moreover have "live (live rs @ replicate (32 - length (live rs)) zero_request) = live rs" by (simp add: live_def)
  moreover have "r \<in> set (live rs) \<Longrightarrow> rq_state r \<noteq> SI_AGENT_REQUEST_EMPTY" for r by (simp add: live_def)
  ultimately show ?thesis using assms unfolding table_ok_def by auto
qed

text \<open>A restart: the snapshot taken before is imported into fresh memory.\<close>

definition broker_restart :: "broker_env \<Rightarrow> broker_env \<Rightarrow> broker \<Rightarrow> broker" where
  "broker_restart e1 e2 b =
     (case si_agent_request_broker_export_snapshot e1 True b of
        (ret, Some snapshot, c) \<Rightarrow> if ret = ESP_OK then snd (si_agent_request_broker_import_snapshot e2 (Some snapshot) broker_initial) else broker_initial
      | (ret, None, c) \<Rightarrow> broker_initial)"

lemma broker_initial_inv: "broker_inv h dl broker_initial"
  using table_zero by (simp add: broker_inv_def broker_initial_def request_consts)

lemma export_result:
  assumes "si_agent_request_broker_export_snapshot e True b = (ESP_OK, Some s, c)" "broker_inv h dl b"
  shows "broker_inv h dl c" "evolve h dl b c" "map se_status (sn_entries s) = live (bk_requests c)" "sn_next_sequence s = bk_next_sequence c"
    "sn_schema_version s = SI_AGENT_REQUEST_SNAPSHOT_SCHEMA_VERSION"
proof -
  show e: "evolve h dl b c" using evolve_export [OF assms(2), of e True] assms(1) by simp
  then show "broker_inv h dl c" using evolve_inv assms(2) by blast
  show "map se_status (sn_entries s) = live (bk_requests c)" "sn_next_sequence s = bk_next_sequence c"
    "sn_schema_version s = SI_AGENT_REQUEST_SNAPSHOT_SCHEMA_VERSION"
    using assms(1) by (auto simp: si_agent_request_broker_export_snapshot_def Let_def live_def comp_def split: prod.splits if_splits)
qed

text \<open>What the import makes of a snapshot of a broker that keeps the invariant.\<close>

lemma import_result:
  assumes c: "broker_inv h dl c" and s: "map se_status (sn_entries s) = live (bk_requests c)" "sn_next_sequence s = bk_next_sequence c"
    and i: "si_agent_request_broker_import_snapshot e (Some s) broker_initial = (ESP_OK, d)"
  shows "\<exists>t. bk_requests d = map (restore_request t) (sn_entries s) @ replicate (32 - length (sn_entries s)) zero_request" "bk_next_sequence d = bk_next_sequence c"
    "broker_inv h dl d"
proof -
  obtain m where m: "import_check e [] 0 (map se_status (sn_entries s)) = Some m"
    using i by (auto simp: si_agent_request_broker_import_snapshot_def split: option.splits if_splits)
  have n: "0 < bk_next_sequence c" "\<forall>r\<in>set (live (bk_requests c)). rq_sequence r < bk_next_sequence c" and tab: "table_ok h dl (bk_requests c) (bk_next_sequence c)"
    using c by (simp_all add: broker_inv_def table_ok_def)
  have "m < bk_next_sequence c" using import_check_max [OF m n(1)] n(2) s(1) by simp
  then have "\<not> bk_next_sequence c \<le> m" by (simp add: not_le)
  then have k: "(if sn_next_sequence s \<le> m then m + 1 else sn_next_sequence s) = bk_next_sequence c" using s(2) by simp
  obtain f where f: "snd (broker_enter e broker_initial) = f" "bk_lock f"
    using evolve_enter(2) [OF broker_initial_inv] i m by (auto simp: si_agent_request_broker_import_snapshot_def Let_def case_prod_unfold split: if_splits)
  have d: "d = f\<lparr>bk_requests := map (restore_request (broker_now_ms e f)) (sn_entries s) @ replicate (32 - length (sn_entries s)) zero_request,
      bk_next_sequence := bk_next_sequence c\<rparr>"
    using i m k n(1) unfolding f(1) [symmetric]
    by (auto simp: si_agent_request_broker_import_snapshot_def Let_def case_prod_unfold request_consts split: if_splits)
  then show "\<exists>t. bk_requests d = map (restore_request t) (sn_entries s) @ replicate (32 - length (sn_entries s)) zero_request" "bk_next_sequence d = bk_next_sequence c"
    by auto
  have len: "length (sn_entries s) = length (live (bk_requests c))" using s(1) by (metis length_map)
  have ok: "\<forall>y\<in>set (sn_entries s). request_ok h dl (se_status y)"
  proof
    fix y
    assume "y \<in> set (sn_entries s)"
    then have "se_status y \<in> set (live (bk_requests c))" by (simp flip: s(1))
    then show "request_ok h dl (se_status y)" using tab by (simp add: table_ok_def)
  qed
  have "table_step h dl (se_status y) (restore_request t y)" if "y \<in> set (sn_entries s)" for y t
    using request_ok_live good_restore ok that unfolding table_step_def by (metis (no_types, lifting))
  then have a: "list_all2 (table_step h dl) (live (bk_requests c)) (map (restore_request t) (sn_entries s))" for t
    unfolding s(1) [symmetric] by (simp add: list_all2_map1 list_all2_map2 list_all2_same)
  have z: "list_all2 (table_step h dl) (replicate n zero_request) (replicate n zero_request)" for n
    by (simp add: list_all2_conv_all_nth table_step_def)
  have "list_all2 (table_step h dl) (live (bk_requests c) @ replicate (32 - length (sn_entries s)) zero_request)
      (map (restore_request t) (sn_entries s) @ replicate (32 - length (sn_entries s)) zero_request)" for t
    by (rule list_all2_appendI [OF a z])
  then have "table_ok h dl (map (restore_request t) (sn_entries s) @ replicate (32 - length (sn_entries s)) zero_request) (bk_next_sequence c)" for t
    using table_pointwise [OF table_compact [OF tab]] len by simp
  then show "broker_inv h dl d" using f(2) by (simp add: d broker_inv_def)
qed

lemma restart_keeps:
  assumes "broker_inv h dl b"
  shows "broker_inv h dl (broker_restart e1 e2 b)"
    "k \<in> set (consumed_keys b) \<Longrightarrow> k \<in> set (live_keys (broker_restart e1 e2 b)) \<Longrightarrow> k \<in> set (consumed_keys (broker_restart e1 e2 b))"
proof -
  have z: "live_keys broker_initial = []" by (simp add: live_keys_def broker_initial_def)
  obtain ret snap c where ex: "si_agent_request_broker_export_snapshot e1 True b = (ret, snap, c)" by (metis prod_cases3)
  have "broker_inv h dl (broker_restart e1 e2 b) \<and>
    (k \<in> set (consumed_keys b) \<longrightarrow> k \<in> set (live_keys (broker_restart e1 e2 b)) \<longrightarrow> k \<in> set (consumed_keys (broker_restart e1 e2 b)))"
  proof (cases "ret = ESP_OK \<and> snap \<noteq> None")
    case False
    then have "broker_restart e1 e2 b = broker_initial" by (auto simp: broker_restart_def ex split: option.split)
    then show ?thesis using broker_initial_inv z by simp
  next
    case True
    then obtain s where 1: "si_agent_request_broker_export_snapshot e1 True b = (ESP_OK, Some s, c)" using ex by auto
    obtain ret' d where im: "si_agent_request_broker_import_snapshot e2 (Some s) broker_initial = (ret', d)" by (metis prod.exhaust)
    have r: "broker_restart e1 e2 b = d" by (simp add: broker_restart_def 1 im)
    show ?thesis
    proof (cases "ret' = ESP_OK")
      case True
      then have 2: "si_agent_request_broker_import_snapshot e2 (Some s) broker_initial = (ESP_OK, d)" using im by simp
      note x = export_result [OF 1 assms]
      note y = import_result [OF x(1,3,4) 2]
      obtain t where t: "bk_requests d = map (restore_request t) (sn_entries s) @ replicate (32 - length (sn_entries s)) zero_request" using y(1) by blast
      have ok: "request_ok h dl (se_status y)" if "y \<in> set (sn_entries s)" for y
      proof -
        have "se_status y \<in> set (live (bk_requests c))" using that by (simp flip: x(3))
        then show ?thesis using x(1) by (simp add: broker_inv_def table_ok_def)
      qed
      have g: "good_step h dl (se_status y) (restore_request t y)" if "y \<in> set (sn_entries s)" for y using good_restore [OF ok [OF that]] .
      have l: "live (bk_requests d) = map (restore_request t) (sn_entries s)"
        using request_ok_live [OF good_ok [OF g]] unfolding t live_def by (auto simp: filter_id_conv)
      have keys: "live_keys d = live_keys c"
        using g by (simp add: live_keys_def l x(3) [symmetric] good_step_def same_request_def)
      have "rq_idempotency_key (restore_request t y) = rq_idempotency_key (se_status y) \<and> (rq_grant_consumed (se_status y) \<longrightarrow> rq_grant_consumed (restore_request t y))"
        if "y \<in> set (sn_entries s)" for y using g [OF that] by (simp add: good_step_def same_request_def)
      then have "set (consumed_keys c) \<subseteq> set (consumed_keys d)" unfolding consumed_keys_def l x(3) [symmetric] by (auto simp: image_iff) metis
      then show ?thesis using y(3) r keys evolve_keeps_consumed [OF assms x(2)] by auto
    next
      case False
      have "d = snd (broker_enter e2 broker_initial) \<or> d = broker_initial"
        using im False by (auto simp: si_agent_request_broker_import_snapshot_def Let_def case_prod_unfold split: option.splits if_splits)
      then have "broker_inv h dl d" "bk_requests d = replicate 32 zero_request"
        using evolve_inv [OF broker_initial_inv evolve_enter(1) [OF broker_initial_inv]] broker_initial_inv
        by (auto simp: broker_enter_def si_agent_request_broker_start_def broker_initial_def Let_def request_consts)
      then show ?thesis using r by (simp add: live_keys_def)
    qed
  qed
  then show "broker_inv h dl (broker_restart e1 e2 b)"
    "k \<in> set (consumed_keys b) \<Longrightarrow> k \<in> set (live_keys (broker_restart e1 e2 b)) \<Longrightarrow> k \<in> set (consumed_keys (broker_restart e1 e2 b))" by blast+
qed

section \<open>The machine\<close>

datatype broker_op =
    Bk_Start broker_env
  | Bk_Provider broker_env "nat option"
  | Bk_Create_V2 broker_env "si_agent_request_v2_input_t option"
  | Bk_Create broker_env u32 "si_agent_request_input_t option"
  | Bk_Get_By_Id broker_env "string option" bool
  | Bk_Enumerate broker_env "string option" bool nat bool
  | Bk_Get broker_env "string option" bool
  | Bk_Decide_V2 broker_env "si_agent_request_decision_t option"
  | Bk_Decide broker_env "string option" bool "string option" "string option"
  | Bk_Consume broker_env "si_agent_request_consume_t option"
  | Bk_Mark_Verifying broker_env "string option"
  | Bk_Complete broker_env "string option" "string option"
  | Bk_Mark_Unknown broker_env "string option" "string option"
  | Bk_Cancel broker_env "string option" "string option"
  | Bk_Finish broker_env "string option" bool "string option"
  | Bk_Cancel_Run broker_env "string option"
  | Bk_Retire broker_env "string option"
  | Bk_Terminalize broker_env "string option"
  | Bk_Export broker_env bool
  | Bk_Restart broker_env broker_env

text \<open>Fewer than \<open>2 ^ 32\<close> requests are created, so that identifiers differ; without delegation no request comes with it.\<close>

definition create_allowed :: "bool \<Rightarrow> si_agent_request_v2_input_t option \<Rightarrow> broker \<Rightarrow> bool" where
  "create_allowed dl input b \<longleftrightarrow> bk_next_sequence b < 2 ^ 32 \<and>
     (dl \<or> (case input of Some i \<Rightarrow> \<not> vi_delegated_auto_approval i | None \<Rightarrow> True))"

fun broker_apply :: "(string \<Rightarrow> u8 list) \<Rightarrow> bool \<Rightarrow> broker_op \<Rightarrow> broker \<Rightarrow> broker" where
  "broker_apply h dl (Bk_Start e) b = snd (si_agent_request_broker_start (with_hash h e) b)"
| "broker_apply h dl (Bk_Provider e f) b = snd (si_agent_request_broker_set_now_provider (with_hash h e) f b)"
| "broker_apply h dl (Bk_Create_V2 e input) b =
     (if create_allowed dl input b then snd (snd (si_agent_request_broker_create_v2 (with_hash h e) input b)) else b)"
| "broker_apply h dl (Bk_Create e rnd input) b =
     (if create_allowed dl None b then snd (snd (si_agent_request_broker_create (with_hash h e) rnd input b)) else b)"
| "broker_apply h dl (Bk_Get_By_Id e i k) b = snd (snd (si_agent_request_broker_get_by_id (with_hash h e) i k b))"
| "broker_apply h dl (Bk_Enumerate e run k n c) b = snd (snd (snd (si_agent_request_broker_enumerate (with_hash h e) run k n c b)))"
| "broker_apply h dl (Bk_Get e run k) b = snd (snd (si_agent_request_broker_get (with_hash h e) run k b))"
| "broker_apply h dl (Bk_Decide_V2 e d) b = snd (snd (si_agent_request_broker_decide_v2 (with_hash h e) d b))"
| "broker_apply h dl (Bk_Decide e i k x s) b = snd (snd (si_agent_request_broker_decide (with_hash h e) i k x s b))"
| "broker_apply h dl (Bk_Consume e c) b = snd (snd (si_agent_request_broker_consume (with_hash h e) c b))"
| "broker_apply h dl (Bk_Mark_Verifying e i) b = snd (snd (si_agent_request_broker_mark_verifying (with_hash h e) i b))"
| "broker_apply h dl (Bk_Complete e i v) b = snd (snd (si_agent_request_broker_complete_verified (with_hash h e) i v b))"
| "broker_apply h dl (Bk_Mark_Unknown e i x) b = snd (snd (si_agent_request_broker_mark_unknown (with_hash h e) i x b))"
| "broker_apply h dl (Bk_Cancel e i s) b = snd (snd (si_agent_request_broker_cancel (with_hash h e) i s b))"
| "broker_apply h dl (Bk_Finish e i k x) b = snd (snd (si_agent_request_broker_finish (with_hash h e) i k x b))"
| "broker_apply h dl (Bk_Cancel_Run e run) b = si_agent_request_broker_cancel_run (with_hash h e) run b"
| "broker_apply h dl (Bk_Retire e run) b = snd (si_agent_request_broker_retire_run (with_hash h e) run b)"
| "broker_apply h dl (Bk_Terminalize e run) b = snd (si_agent_request_broker_terminalize_and_retire_run (with_hash h e) run b)"
| "broker_apply h dl (Bk_Export e k) b = snd (snd (si_agent_request_broker_export_snapshot (with_hash h e) k b))"
| "broker_apply h dl (Bk_Restart e1 e2) b = broker_restart (with_hash h e1) (with_hash h e2) b"

text \<open>The key of the request whose effect an operation begins: an executor is told so by a successful consumption; an executor
  of the older interface has carried out a granted request it reports as finished.\<close>

fun broker_effect :: "(string \<Rightarrow> u8 list) \<Rightarrow> broker_op \<Rightarrow> broker \<Rightarrow> string list" where
  "broker_effect h (Bk_Consume e c) b =
     (case si_agent_request_broker_consume (with_hash h e) c b of
        (ret, Some r, _) \<Rightarrow> if ret = ESP_OK then [rq_idempotency_key r] else []
      | _ \<Rightarrow> [])"
| "broker_effect h (Bk_Finish e i k x) b =
     (case (si_agent_request_broker_finish (with_hash h e) i k x b, find_by_id_locked i b) of
        ((ret, Some r, _), Some j) \<Rightarrow>
          if ret = ESP_OK \<and> rq_state (bk_requests b ! j) = SI_AGENT_REQUEST_GRANTED then [rq_idempotency_key r] else []
      | _ \<Rightarrow> [])"
| "broker_effect h op b = []"

record broker_sys =
  bs_broker :: broker
  bs_begun :: "string list"

definition broker_step :: "(string \<Rightarrow> u8 list) \<Rightarrow> bool \<Rightarrow> broker_sys \<Rightarrow> broker_op \<Rightarrow> broker_sys" where
  "broker_step h dl y op =
     (let c = broker_apply h dl op (bs_broker y)
      in \<lparr>bs_broker = c, bs_begun = filter (\<lambda>k. k \<in> set (live_keys c)) (bs_begun y) @ broker_effect h op (bs_broker y)\<rparr>)"

definition broker_start_sys :: broker_sys where
  "broker_start_sys = \<lparr>bs_broker = broker_initial, bs_begun = []\<rparr>"

definition sys_inv :: "(string \<Rightarrow> u8 list) \<Rightarrow> bool \<Rightarrow> broker_sys \<Rightarrow> bool" where
  "sys_inv h dl y \<longleftrightarrow> broker_inv h dl (bs_broker y) \<and> distinct (bs_begun y) \<and> set (bs_begun y) \<subseteq> set (consumed_keys (bs_broker y))"

lemmas evolve_ops = evolve_start evolve_provider evolve_get_by_id evolve_enumerate evolve_get evolve_decide_v2 evolve_decide evolve_consume
  evolve_mark_verifying evolve_complete evolve_mark_unknown evolve_cancel evolve_finish evolve_cancel_run evolve_retire evolve_terminalize evolve_export

lemma apply_keeps:
  assumes "broker_inv h dl b"
  shows "broker_inv h dl (broker_apply h dl op b) \<and>
    (k \<in> set (consumed_keys b) \<longrightarrow> k \<in> set (live_keys (broker_apply h dl op b)) \<longrightarrow> k \<in> set (consumed_keys (broker_apply h dl op b)))"
proof -
  have ev: "broker_inv h dl c \<and> (k \<in> set (consumed_keys b) \<longrightarrow> k \<in> set (live_keys c) \<longrightarrow> k \<in> set (consumed_keys c))" if "evolve h dl b c" for c
    using evolve_inv [OF assms that] evolve_keeps_consumed [OF assms that] by blast
  have gr: "broker_inv h dl d \<and> (k \<in> set (consumed_keys b) \<longrightarrow> k \<in> set (live_keys d) \<longrightarrow> k \<in> set (consumed_keys d))"
    if a: "\<exists>c. evolve h dl b c \<and> live_keys c = live_keys b \<and> broker_inv h dl d \<and> grow c d" for d
  proof -
    obtain c where c: "evolve h dl b c" "live_keys c = live_keys b" "broker_inv h dl d" "grow c d" using a by blast
    have "k \<in> set (consumed_keys b) \<Longrightarrow> k \<in> set (consumed_keys c)" using evolve_keeps_consumed [OF assms c(1)] consumed_live [of b] c(2) by auto
    then show ?thesis using c(3) grow_keeps_consumed [OF c(4)] by blast
  qed
  have same: "broker_inv h dl b \<and> (k \<in> set (consumed_keys b) \<longrightarrow> k \<in> set (live_keys b) \<longrightarrow> k \<in> set (consumed_keys b))" using assms by blast
  show ?thesis
  proof (cases op)
    case (Bk_Create_V2 e input)
    show ?thesis
    proof (cases "create_allowed dl input b")
      case True
      then have "bk_next_sequence b < 2 ^ 32" "dl \<or> (\<forall>i. input = Some i \<longrightarrow> \<not> vi_delegated_auto_approval i)"
        by (auto simp: create_allowed_def split: option.splits)
      then show ?thesis using gr [OF create_v2_steps [OF assms]] True Bk_Create_V2 by simp
    next
      case False
      then show ?thesis using same Bk_Create_V2 by simp
    qed
  next
    case (Bk_Create e rnd input)
    then show ?thesis using gr [OF create_steps [OF assms]] same by (auto simp: create_allowed_def)
  next
    case (Bk_Restart e1 e2)
    then show ?thesis using restart_keeps [OF assms] by simp
  qed (use ev evolve_ops [OF assms] in simp_all)
qed

section \<open>Effects\<close>

text \<open>An operation that begins an effect finds a granted record and leaves it consumed.\<close>

definition begins :: "(string \<Rightarrow> u8 list) \<Rightarrow> bool \<Rightarrow> broker \<Rightarrow> string \<Rightarrow> broker \<Rightarrow> bool" where
  "begins h dl b k c \<longleftrightarrow> (\<exists>d r. evolve h dl b d \<and> r \<in> set (live (bk_requests d)) \<and> rq_state r = SI_AGENT_REQUEST_GRANTED \<and>
     rq_idempotency_key r = k \<and> k \<in> set (consumed_keys c))"

lemma with_request_effect:
  assumes d: "broker_inv h dl d" and w: "with_request i f d = (ret, Some r, c)"
    and f: "\<And>q. request_ok h dl q \<Longrightarrow> good_step h dl q (snd (f q))" "\<And>q. fst (f q) = ESP_OK \<Longrightarrow> request_ok h dl q \<Longrightarrow> rq_grant_consumed (snd (f q))"
    and "ret = ESP_OK"
  shows "\<exists>j. find_by_id_locked i d = Some j \<and> fst (f (bk_requests d ! j)) = ESP_OK \<and> bk_requests d ! j \<in> set (live (bk_requests d)) \<and>
    rq_idempotency_key r = rq_idempotency_key (bk_requests d ! j) \<and> rq_idempotency_key r \<in> set (consumed_keys c)"
proof -
  obtain j where j: "find_by_id_locked i d = Some j" using w by (cases "find_by_id_locked i d") (simp_all add: with_request_def)
  note k = find_by_id_Some [OF j d]
  let ?q = "bk_requests d ! j"
  have r: "f ?q = (ret, r)" "c = put_request j r d" using w j by (auto simp: with_request_def Let_def split: prod.splits)
  have g: "good_step h dl ?q r" "rq_grant_consumed r" using f(1) [OF k(4)] f(2) [of ?q] k(4) r(1) assms(5) by simp_all
  have "r \<in> set (bk_requests c)" using k(1) by (simp add: r(2) put_request_def set_update_memI)
  then have "r \<in> set (live (bk_requests c))" using request_ok_live [OF good_ok [OF g(1)]] by (simp add: live_def)
  then have "rq_idempotency_key r \<in> set (consumed_keys c)" using g(2) by (auto simp: consumed_keys_def)
  moreover have "?q \<in> set (live (bk_requests d))" using k(1,3) by (simp add: live_def)
  moreover have "rq_idempotency_key r = rq_idempotency_key ?q" using g(1) by (simp add: good_step_def same_request_def)
  ultimately show ?thesis using j r(1) assms(5) by simp
qed

lemma expired_enter:
  assumes "broker_inv h dl b" "fst (broker_enter e b) = ESP_OK"
  shows "evolve h dl b (expire_all_locked t (snd (broker_enter e b)))" "broker_inv h dl (expire_all_locked t (snd (broker_enter e b)))"
proof -
  note en = evolve_enter [OF assms(1), of e]
  show e: "evolve h dl b (expire_all_locked t (snd (broker_enter e b)))"
    by (rule evolve_trans [OF en(1) evolve_expire [OF evolve_inv [OF assms(1) en(1)] en(2) [OF assms(2)]]])
  show "broker_inv h dl (expire_all_locked t (snd (broker_enter e b)))" by (rule evolve_inv [OF assms(1) e])
qed

lemma consume_ok: "fst (consume_request t c x q) = ESP_OK \<Longrightarrow> rq_state q = SI_AGENT_REQUEST_GRANTED \<and> rq_grant_consumed (snd (consume_request t c x q))"
  by (auto simp: consume_request_def set_state_locked_def Let_def split: if_splits)

lemma consume_begins:
  assumes b: "broker_inv h dl b" and c: "si_agent_request_broker_consume e c b = (ESP_OK, Some r, d)"
  shows "begins h dl b (rq_idempotency_key r) d"
proof -
  obtain x where x: "c = Some x" using c by (cases c) (simp_all add: si_agent_request_broker_consume_def)
  obtain y where y: "sha256_hex e (c_or_empty (bi_normalized_args_json (co_binding x))) = Some y"
    using c by (cases "sha256_hex e (c_or_empty (bi_normalized_args_json (co_binding x)))") (auto simp: x si_agent_request_broker_consume_def split: if_splits)
  let ?b = "snd (broker_enter e b)"
  define t where "t = broker_now_ms e ?b"
  have m: "fst (broker_enter e b) = ESP_OK" "with_request (co_request_id x) (consume_request t x y) (expire_all_locked t ?b) = (ESP_OK, Some r, d)"
    using c y by (auto simp: x si_agent_request_broker_consume_def Let_def case_prod_unfold t_def split: if_splits)
  note z = expired_enter [OF b m(1), of t]
  obtain j where j: "fst (consume_request t x y (bk_requests (expire_all_locked t ?b) ! j)) = ESP_OK"
    "bk_requests (expire_all_locked t ?b) ! j \<in> set (live (bk_requests (expire_all_locked t ?b)))"
    "rq_idempotency_key r = rq_idempotency_key (bk_requests (expire_all_locked t ?b) ! j)" "rq_idempotency_key r \<in> set (consumed_keys d)"
    using with_request_effect [OF z(2) m(2)] good_consume consume_ok by blast
  then have "rq_state (bk_requests (expire_all_locked t ?b) ! j) = SI_AGENT_REQUEST_GRANTED" using consume_ok by blast
  then show ?thesis unfolding begins_def using z(1) j(2-4)
    by (intro exI [of _ "expire_all_locked t ?b"] exI [of _ "bk_requests (expire_all_locked t ?b) ! j"]) simp
qed

lemma finish_ok:
  "fst (finish_request t k x q) = ESP_OK \<Longrightarrow> rq_grant_consumed q = effect_started (rq_state q) \<Longrightarrow>
   (rq_state q = SI_AGENT_REQUEST_GRANTED \<or> rq_state q = SI_AGENT_REQUEST_EXECUTING) \<and> rq_grant_consumed (snd (finish_request t k x q))"
  by (auto simp: finish_request_def set_state_cases Let_def effect_started_def split: if_splits)

lemma find_loop_map: "(\<And>r. P (f r) = P r) \<Longrightarrow> find_loop P (map f rs) = find_loop P rs"
  by (induction rs) simp_all

lemma find_by_id_expire: "find_by_id_locked i (expire_all_locked t b) = find_by_id_locked i b"
proof -
  have "rq_request_id (expire_request t r) = rq_request_id r" for r by (simp add: expire_request_def set_state_cases)
  then show ?thesis by (simp add: find_by_id_locked_def expire_all_locked_def find_loop_map)
qed

lemma finish_begins:
  assumes b: "broker_inv h dl b" and f: "si_agent_request_broker_finish e i k x b = (ESP_OK, Some r, d)"
    and j: "find_by_id_locked i b = Some j" "rq_state (bk_requests b ! j) = SI_AGENT_REQUEST_GRANTED"
  shows "begins h dl b (rq_idempotency_key r) d"
proof -
  let ?b = "snd (broker_enter e b)"
  define t where "t = broker_now_ms e ?b"
  have m: "fst (broker_enter e b) = ESP_OK" "with_request i (finish_request t k x) (expire_all_locked t ?b) = (ESP_OK, Some r, d)"
    using f by (auto simp: si_agent_request_broker_finish_def Let_def case_prod_unfold t_def split: if_splits)
  note z = expired_enter [OF b m(1), of t]
  have ok: "request_ok h dl q \<Longrightarrow> rq_grant_consumed q = effect_started (rq_state q)" for q by (simp add: request_ok_def snapshot_valid_iff)
  have w: "\<exists>l. find_by_id_locked i (expire_all_locked t ?b) = Some l \<and> fst (finish_request t k x (bk_requests (expire_all_locked t ?b) ! l)) = ESP_OK \<and>
      bk_requests (expire_all_locked t ?b) ! l \<in> set (live (bk_requests (expire_all_locked t ?b))) \<and>
      rq_idempotency_key r = rq_idempotency_key (bk_requests (expire_all_locked t ?b) ! l) \<and> rq_idempotency_key r \<in> set (consumed_keys d)"
    by (rule with_request_effect [OF z(2) m(2) good_finish]) (use finish_ok ok in blast)+
  have "find_by_id_locked i ?b = find_by_id_locked i b" by (simp add: find_by_id_locked_def enter_requests [OF b])
  then have "find_by_id_locked i (expire_all_locked t ?b) = Some j" using j(1) by (simp add: find_by_id_expire)
  then obtain q where q: "q = bk_requests (expire_all_locked t ?b) ! j" "fst (finish_request t k x q) = ESP_OK" "q \<in> set (live (bk_requests (expire_all_locked t ?b)))"
      "rq_idempotency_key r = rq_idempotency_key q" "rq_idempotency_key r \<in> set (consumed_keys d)"
    using w by auto
  have "j < length (bk_requests b)" using find_by_id_Some [OF j(1) b] by simp
  then have "q = expire_request t (bk_requests b ! j)" using q(1) enter_requests [OF b, of e] by (simp add: expire_all_locked_def)
  then have "rq_state q \<noteq> SI_AGENT_REQUEST_EXECUTING" using j(2) by (auto simp: expire_request_def set_state_cases)
  moreover have "request_ok h dl q" using q(3) z(2) by (simp add: broker_inv_def table_ok_def)
  ultimately have "rq_state q = SI_AGENT_REQUEST_GRANTED" using finish_ok [OF q(2)] ok by blast
  then show ?thesis unfolding begins_def using z(1) q(3-5) by (intro exI [of _ "expire_all_locked t ?b"] exI [of _ q]) simp
qed

lemma effect_begins:
  assumes "broker_inv h dl b"
  shows "broker_effect h op b = [] \<or> (\<exists>k. broker_effect h op b = [k] \<and> begins h dl b k (broker_apply h dl op b))"
proof (cases op)
  case (Bk_Consume e c)
  then show ?thesis using consume_begins [OF assms] by (auto split: prod.split option.split)
next
  case (Bk_Finish e i k x)
  then show ?thesis using finish_begins [OF assms] by (auto split: prod.split option.split)
qed simp_all

lemma sys_step: "sys_inv h dl y \<Longrightarrow> sys_inv h dl (broker_step h dl y op)"
proof -
  assume a: "sys_inv h dl y"
  let ?b = "bs_broker y" and ?c = "broker_apply h dl op (bs_broker y)"
  have b: "broker_inv h dl ?b" "distinct (bs_begun y)" "set (bs_begun y) \<subseteq> set (consumed_keys ?b)" using a by (simp_all add: sys_inv_def)
  note ap = apply_keeps [OF b(1), of op]
  let ?kept = "filter (\<lambda>k. k \<in> set (live_keys ?c)) (bs_begun y)"
  have kept: "set ?kept \<subseteq> set (consumed_keys ?c)" "distinct ?kept" using b ap by auto
  have new: "k \<notin> set ?kept \<and> k \<in> set (consumed_keys ?c)" if begun: "begins h dl ?b k ?c" for k
  proof -
    obtain d r where r: "evolve h dl ?b d" "r \<in> set (live (bk_requests d))" "rq_state r = SI_AGENT_REQUEST_GRANTED" "rq_idempotency_key r = k"
      "k \<in> set (consumed_keys ?c)" using begun unfolding begins_def by blast
    have d: "broker_inv h dl d" by (rule evolve_inv [OF b(1) r(1)])
    have "k \<in> set (live_keys d)" using r(2,4) by (auto simp: live_keys_def)
    have "k \<notin> set (consumed_keys d)"
    proof
      assume "k \<in> set (consumed_keys d)"
      then obtain q where q: "q \<in> set (live (bk_requests d))" "rq_grant_consumed q" "rq_idempotency_key q = k" by (auto simp: consumed_keys_def)
      then have "q = r" using key_unique [OF d q(1) r(2)] r(4) by simp
      moreover have "request_ok h dl r" using d r(2) by (simp add: broker_inv_def table_ok_def)
      ultimately show False using q(2) r(3) by (simp add: request_ok_def snapshot_valid_iff effect_started_def)
    qed
    then have "k \<notin> set (consumed_keys ?b)" using evolve_keeps_consumed [OF b(1) r(1)] \<open>k \<in> set (live_keys d)\<close> by blast
    then show ?thesis using b(3) r(5) by auto
  qed
  show ?thesis using effect_begins [OF b(1), of op] ap kept new unfolding sys_inv_def broker_step_def Let_def by auto
qed

interpretation brokers: invariant_machine "broker_step h dl" "sys_inv h dl" for h dl
  by unfold_locales (rule sys_step)

lemma sys_reachable: "sys_inv h dl (run_ops (broker_step h dl) broker_start_sys ops)"
  by (rule brokers.run_inv) (simp add: sys_inv_def broker_start_sys_def broker_initial_inv)

end
