(* ===== verification/Broker_Theorems.thy ===== *)
theory Broker_Theorems
  imports Broker_System
begin

text \<open>
  The properties of the request broker: an effect begins at most once and only with a grant, what the consumption of a grant
  needs, what a restart keeps, and a grant that comes back when the clock has gone half its way.
\<close>

section \<open>Identifiers\<close>

lemma make_request_id_inj:
  assumes "make_request_id x m = make_request_id y n" "m < 2 ^ 32" "n < 2 ^ 32"
  shows "m = n"
proof -
  have lt: "unat (ucast k :: u32) < 16 ^ 8" for k :: u64 using unsigned_less [of "ucast k :: u32"] by simp
  have eq: "unat (ucast k :: u32) = unat k" if "k < 2 ^ 32" for k :: u64
    using that by (simp add: unsigned_ucast_eq word_less_nat_alt take_bit_eq_mod)
  have "hex_fixed 8 (unat (ucast m :: u32)) = hex_fixed 8 (unat (ucast n :: u32))"
    using assms(1) by (simp add: make_request_id_def copy_text_fits request_consts)
  then have "unat (ucast m :: u32) = unat (ucast n :: u32)" using hex_fixed_inj lt by blast
  then show ?thesis using eq assms(2,3) by (simp add: word_unat_eq_iff)
qed

lemma distinct_ids:
  assumes "broker_inv h dl b"
  shows "distinct (map rq_request_id (live (bk_requests b)))"
proof -
  have t: "\<forall>r\<in>set (live (bk_requests b)). own_id r \<and> rq_sequence r < 2 ^ 32" "distinct (map rq_sequence (live (bk_requests b)))"
    using assms unfolding broker_inv_def table_ok_def by (auto intro: order_less_le_trans)
  have "inj_on rq_request_id (set (live (bk_requests b)))"
  proof (rule inj_onI)
    fix r s
    assume a: "r \<in> set (live (bk_requests b))" "s \<in> set (live (bk_requests b))" "rq_request_id r = rq_request_id s"
    then have "rq_sequence r = rq_sequence s" using t(1) make_request_id_inj unfolding own_id_def by metis
    then show "r = s" using a(1,2) t(2) by (auto simp: distinct_map dest: inj_onD)
  qed
  then show ?thesis using t(2) by (simp add: distinct_map)
qed

section \<open>The import of an exported snapshot\<close>

lemma import_check_accepts:
  assumes "\<forall>r\<in>set rs. snapshot_status_valid e r" "distinct (map rq_request_id (p @ rs))" "distinct (map rq_idempotency_key (p @ rs))"
    "distinct (map rq_sequence (p @ rs))"
  shows "\<exists>m'. import_check e p m rs = Some m'"
  using assms
proof (induction rs arbitrary: p m)
  case (Cons r rs)
  have "\<not> list_ex (\<lambda>other. rq_request_id r = rq_request_id other \<or> rq_idempotency_key r = rq_idempotency_key other \<or> rq_sequence r = rq_sequence other) p"
    using Cons.prems(2-4) by (force simp: list_ex_iff)
  then show ?case using Cons.prems Cons.IH [of "p @ [r]"] by simp
qed simp

lemma snapshot_valid_sure:
  assumes "\<And>x. be_sha256 e x = Some (h x)"
  shows "snapshot_status_valid e s = snapshot_status_valid (sure h) s"
  using assms by (simp add: snapshot_status_valid_def sha256_hex_def sure_def)

definition kept_fields :: "si_agent_request_status_t \<Rightarrow> string \<times> string \<times> u64 \<times> bool" where
  "kept_fields r = (rq_request_id r, rq_idempotency_key r, rq_sequence r, rq_grant_consumed r)"

lemma kept_expire: "kept_fields (expire_request t r) = kept_fields r" "rq_state (expire_request t r) = SI_AGENT_REQUEST_EMPTY \<longleftrightarrow> rq_state r = SI_AGENT_REQUEST_EMPTY"
  by (auto simp: kept_fields_def expire_request_def set_state_cases state_expires_def)

lemma kept_restore: "kept_fields (restore_request t y) = kept_fields (se_status y)"
  by (simp add: kept_fields_def restore_request_def Let_def)

lemma restored_state:
  "rq_state (restore_request t y) \<notin> {SI_AGENT_REQUEST_GRANTED, SI_AGENT_REQUEST_EXECUTING, SI_AGENT_REQUEST_VERIFYING}"
  by (auto simp: restore_request_def Let_def)

lemma restored_completed: "rq_state (restore_request t y) = SI_AGENT_REQUEST_COMPLETED \<Longrightarrow> rq_expires_at_ms (restore_request t y) = t"
  by (auto simp: restore_request_def Let_def state_expires_def split: if_splits)

lemma kept_live_expire: "map kept_fields (live (bk_requests (expire_all_locked t b))) = map kept_fields (live (bk_requests b))"
  unfolding live_def expire_all_locked_def by (simp add: filter_map comp_def kept_expire)

lemma export_kept:
  assumes "broker_inv h dl b" "si_agent_request_broker_export_snapshot e True b = (ESP_OK, Some s, c)"
  shows "map kept_fields (live (bk_requests c)) = map kept_fields (live (bk_requests b))" "bk_next_sequence c = bk_next_sequence b"
proof -
  have "c = expire_all_locked (broker_now_ms e (snd (broker_enter e b))) (snd (broker_enter e b))"
    using assms(2) by (auto simp: si_agent_request_broker_export_snapshot_def Let_def case_prod_unfold split: if_splits)
  then show "map kept_fields (live (bk_requests c)) = map kept_fields (live (bk_requests b))"
    by (simp add: kept_live_expire enter_requests [OF assms(1)])
  show "bk_next_sequence c = bk_next_sequence b" using export_result(2) [OF assms(2,1)] by (simp add: evolve_def)
qed

lemma import_exported:
  assumes "broker_inv h dl b" "si_agent_request_broker_export_snapshot e1 True b = (ESP_OK, Some s, c)"
    "be_created e2" "be_lock e2" "\<And>x. be_sha256 e2 x = Some (h x)"
  shows "\<exists>d. si_agent_request_broker_import_snapshot e2 (Some s) broker_initial = (ESP_OK, d) \<and> bk_next_sequence d = bk_next_sequence b \<and>
    live (bk_requests d) = map (restore_request (broker_now_ms e2 d)) (sn_entries s) \<and>
    map kept_fields (live (bk_requests d)) = map kept_fields (live (bk_requests b))"
proof -
  note x = export_result [OF assms(2,1)]
  have c: "\<forall>r\<in>set (live (bk_requests c)). request_ok h dl r" "distinct (map rq_idempotency_key (live (bk_requests c)))"
      "distinct (map rq_sequence (live (bk_requests c)))" "length (bk_requests c) = 32"
    using x(1) by (simp_all add: broker_inv_def table_ok_def)
  have "\<forall>r\<in>set (live (bk_requests c)). snapshot_status_valid e2 r" using c(1) snapshot_valid_sure [of e2 h, OF assms(5)] by (simp add: request_ok_def)
  then obtain m where m: "import_check e2 [] 0 (map se_status (sn_entries s)) = Some m"
    using import_check_accepts [of "live (bk_requests c)" e2 "[]" 0] distinct_ids [OF x(1)] c(2,3) x(3) by auto
  have len: "length (sn_entries s) \<le> 32" using c(4) length_filter_le [of _ "bk_requests c"] x(3) by (metis length_map live_def)
  define f where "f = snd (broker_enter e2 broker_initial)"
  have en: "fst (broker_enter e2 broker_initial) = ESP_OK" "bk_now_fn f = None"
    using assms(3,4) by (simp_all add: f_def broker_enter_def si_agent_request_broker_start_def broker_initial_def broker_lock_def)
  define d where "d = snd (si_agent_request_broker_import_snapshot e2 (Some s) broker_initial)"
  have u: "si_agent_request_broker_import_snapshot e2 (Some s) broker_initial = (ESP_OK, d)"
    "bk_requests d = map (restore_request (broker_now_ms e2 d)) (sn_entries s) @ replicate (32 - length (sn_entries s)) zero_request"
    using m len en x(5) by (auto simp: d_def si_agent_request_broker_import_snapshot_def Let_def case_prod_unfold request_consts broker_now_ms_def f_def [symmetric])
  have "rq_state (restore_request t y) \<noteq> SI_AGENT_REQUEST_EMPTY" if "y \<in> set (sn_entries s)" for t y
  proof -
    have "se_status y \<in> set (live (bk_requests c))" using that by (simp flip: x(3))
    then show ?thesis using request_ok_live [OF good_ok [OF good_restore]] c(1) by blast
  qed
  then have l: "live (bk_requests d) = map (restore_request (broker_now_ms e2 d)) (sn_entries s)"
    unfolding u(2) live_def by (auto simp: filter_id_conv)
  have "map kept_fields (live (bk_requests d)) = map kept_fields (live (bk_requests c))" by (simp add: l kept_restore x(3) [symmetric])
  then show ?thesis using u(1) l import_result(2) [OF x(1,3,4) u(1)] export_kept [OF assms(1,2)] by simp
qed

section \<open>An example\<close>

text \<open>An agent asks for a high-risk action, a person grants it for the step, an executor consumes the grant, verifies and
  completes the action.\<close>

definition ex_hash :: "string \<Rightarrow> u8 list" where
  "ex_hash x = replicate 32 0"

definition ex_env :: "u32 \<Rightarrow> broker_env" where
  "ex_env t = \<lparr>be_created = True, be_lock = True, be_now = (\<lambda>_. t), be_random = 7, be_sha256 = (\<lambda>x. Some (ex_hash x))\<rparr>"

definition ex_binding :: "string \<Rightarrow> si_agent_request_binding_input_t" where
  "ex_binding k = \<lparr>bi_device_id = Some ''d'', bi_thread_id = Some ''t'', bi_turn_id = Some ''u'', bi_run_id = Some ''r'', bi_step_id = Some ''s'',
     bi_plan_version = 1, bi_normalized_args_json = Some ''{}'', bi_idempotency_key = Some k\<rparr>"

definition ex_request :: "string \<Rightarrow> si_agent_request_v2_input_t" where
  "ex_request k = \<lparr>vi_binding = ex_binding k,
     vi_requester = \<lparr>ac_principal = SI_AGENT_REQUEST_PRINCIPAL_AGENT, ac_session_id = ''a'', ac_instance_id = ''i''\<rparr>,
     vi_kind = SI_AGENT_REQUEST_KIND_ACTION, vi_resource = Some ''power'', vi_reason = Some ''w'', vi_expected_effect = Some ''e'',
     vi_verification = Some ''v'', vi_risk = SI_AGENT_REQUEST_RISK_HIGH, vi_lease_required = True, vi_reviewer_allowed = False,
     vi_delegated_auto_approval = False, vi_auto_approve_through = SI_AGENT_REQUEST_RISK_LOW,
     vi_requested_grant_scope = SI_AGENT_REQUEST_GRANT_STEP, vi_ttl_ms = 5000\<rparr>"

definition ex_request_id :: string where
  "ex_request_id = ''req-00000007-00000001''"

definition ex_decision :: si_agent_request_decision_t where
  "ex_decision = \<lparr>de_request_id = Some ex_request_id, de_approved = True, de_response = None,
     de_decider = \<lparr>ac_principal = SI_AGENT_REQUEST_PRINCIPAL_BROWSER, ac_session_id = ''b'', ac_instance_id = ''i''\<rparr>,
     de_grant_scope = SI_AGENT_REQUEST_GRANT_STEP\<rparr>"

definition ex_ops :: "broker_op list" where
  "ex_ops = [Bk_Create_V2 (ex_env 0) (Some (ex_request ''k1'')), Bk_Decide_V2 (ex_env 1) (Some ex_decision),
     Bk_Consume (ex_env 2) (Some \<lparr>co_request_id = Some ex_request_id, co_binding = ex_binding ''k1''\<rparr>),
     Bk_Mark_Verifying (ex_env 3) (Some ex_request_id), Bk_Complete (ex_env 4) (Some ex_request_id) (Some ''ok'')]"

definition ex_broker :: "nat \<Rightarrow> broker" where
  "ex_broker n = bs_broker (run_ops (broker_step ex_hash False) broker_start_sys (take n ex_ops))"

section \<open>Theorems\<close>


text \<open>C6: In every run, a request that is granted or whose effect has begun was asked for by an agent and granted by somebody
  else with a session: a person; a reviewer, at most for a medium risk; or the policy, which without delegation by the access
  mode grants the listed resources only, at low risk and without a lease.\<close>

theorem broker_effect_granted:
  assumes "r \<in> set (bk_requests (bs_broker (run_ops (broker_step h dl) broker_start_sys ops)))"
    and "rq_state r = SI_AGENT_REQUEST_GRANTED \<or> effect_started (rq_state r)"
  shows "ac_principal (rq_requester r) = SI_AGENT_REQUEST_PRINCIPAL_AGENT \<and> \<not> actor_equal (rq_decider r) (rq_requester r) \<and>
    ac_session_id (rq_decider r) \<noteq> [] \<and>
    (ac_principal (rq_decider r) = SI_AGENT_REQUEST_PRINCIPAL_BROWSER \<or>
     (ac_principal (rq_decider r) = SI_AGENT_REQUEST_PRINCIPAL_REVIEWER \<and> rq_risk r \<in> {SI_AGENT_REQUEST_RISK_LOW, SI_AGENT_REQUEST_RISK_MEDIUM}) \<or>
     (ac_principal (rq_decider r) = SI_AGENT_REQUEST_PRINCIPAL_POLICY \<and>
      (dl \<or> (rq_risk r = SI_AGENT_REQUEST_RISK_LOW \<and> \<not> rq_lease_required r \<and> rq_resource r \<in> set auto_resources))))"
proof -
  have "rq_state r \<noteq> SI_AGENT_REQUEST_EMPTY" using assms(2) by (auto simp: effect_started_def)
  then have ok: "request_ok h dl r" using assms(1) sys_reachable [of h dl ops] by (auto simp: sys_inv_def broker_inv_def table_ok_def live_def)
  then have g: "granted_by dl r" using assms(2) by (simp add: request_ok_def needs_grant_def)
  moreover have "risk_value k \<le> risk_value SI_AGENT_REQUEST_RISK_MEDIUM \<longleftrightarrow> k \<in> {SI_AGENT_REQUEST_RISK_LOW, SI_AGENT_REQUEST_RISK_MEDIUM}" for k
    by (cases k) simp_all
  ultimately have d: "ac_principal (rq_decider r) = SI_AGENT_REQUEST_PRINCIPAL_BROWSER \<or>
     (ac_principal (rq_decider r) = SI_AGENT_REQUEST_PRINCIPAL_REVIEWER \<and> rq_risk r \<in> {SI_AGENT_REQUEST_RISK_LOW, SI_AGENT_REQUEST_RISK_MEDIUM}) \<or>
     (ac_principal (rq_decider r) = SI_AGENT_REQUEST_PRINCIPAL_POLICY \<and>
      (dl \<or> (rq_risk r = SI_AGENT_REQUEST_RISK_LOW \<and> \<not> rq_lease_required r \<and> rq_resource r \<in> set auto_resources)))"
    unfolding granted_by_def by blast
  have a: "ac_principal (rq_requester r) = SI_AGENT_REQUEST_PRINCIPAL_AGENT"
    "ac_principal (rq_decider r) \<noteq> SI_AGENT_REQUEST_PRINCIPAL_UNSPECIFIED \<longrightarrow> actor_valid (rq_decider r) True"
    using ok by (simp_all add: request_ok_def snapshot_valid_iff)
  then have "ac_session_id (rq_decider r) \<noteq> []" "\<not> actor_equal (rq_decider r) (rq_requester r)"
    using d by (auto simp: actor_valid_def fixed_value_valid_def actor_equal_def)
  then show ?thesis using a(1) d by blast
qed

theorem broker_effect_granted_witness:
  "rq_state (bk_requests (ex_broker 2) ! 0) = SI_AGENT_REQUEST_GRANTED \<and>
   ac_principal (rq_requester (bk_requests (ex_broker 2) ! 0)) = SI_AGENT_REQUEST_PRINCIPAL_AGENT \<and>
   ac_session_id (rq_decider (bk_requests (ex_broker 2) ! 0)) \<noteq> []"
proof -
  have l: "0 < length (bk_requests (ex_broker 2))" by code_simp
  have s: "rq_state (bk_requests (ex_broker 2) ! 0) = SI_AGENT_REQUEST_GRANTED" by code_simp
  show ?thesis using broker_effect_granted [OF nth_mem [OF l, unfolded ex_broker_def] disjI1 [OF s [unfolded ex_broker_def]]] s
    unfolding ex_broker_def by blast
qed


text \<open>C8: A snapshot that the broker exports in any reachable state is accepted after a restart, when the mutex and the hash function
  are at hand. Every record comes back with its identifier, key, sequence number and consumed mark, numbering goes on where it was,
  no grant and no running effect survives, and no completed request can be reused as a grant.\<close>

theorem broker_restart_roundtrip:
  assumes "b = bs_broker (run_ops (broker_step h dl) broker_start_sys ops)"
    and "si_agent_request_broker_export_snapshot e1 True b = (ESP_OK, Some s, c)"
    and "be_created e2" "be_lock e2" "\<forall>x. be_sha256 e2 x = Some (h x)"
  shows "\<exists>d. si_agent_request_broker_import_snapshot e2 (Some s) broker_initial = (ESP_OK, d) \<and>
    map kept_fields (live (bk_requests d)) = map kept_fields (live (bk_requests b)) \<and> bk_next_sequence d = bk_next_sequence b \<and>
    (\<forall>r\<in>set (live (bk_requests d)).
       rq_state r \<notin> {SI_AGENT_REQUEST_GRANTED, SI_AGENT_REQUEST_EXECUTING, SI_AGENT_REQUEST_VERIFYING} \<and>
       \<not> grant_scope_matches i x (broker_now_ms e2 d) r)"
proof -
  have "broker_inv h dl b" using sys_reachable [of h dl ops] assms(1) by (simp add: sys_inv_def)
  then obtain d where d: "si_agent_request_broker_import_snapshot e2 (Some s) broker_initial = (ESP_OK, d)" "bk_next_sequence d = bk_next_sequence b"
      "live (bk_requests d) = map (restore_request (broker_now_ms e2 d)) (sn_entries s)"
      "map kept_fields (live (bk_requests d)) = map kept_fields (live (bk_requests b))"
    using import_exported [OF _ assms(2-4)] assms(5) by blast
  have "\<not> grant_scope_matches i x t (restore_request t y)" for t y
    using restored_completed by (auto simp: grant_scope_matches_def deadline_reached_def Let_def)
  then show ?thesis using d restored_state by auto
qed

theorem broker_restart_roundtrip_witness:
  "\<exists>s c d. si_agent_request_broker_export_snapshot (ex_env 3) True (ex_broker 3) = (ESP_OK, Some s, c) \<and>
     si_agent_request_broker_import_snapshot (ex_env 9) (Some s) broker_initial = (ESP_OK, d) \<and>
     map kept_fields (live (bk_requests d)) = [(ex_request_id, ''k1'', 1, True)]"
proof -
  have k: "map kept_fields (live (bk_requests (ex_broker 3))) = [(ex_request_id, ''k1'', 1, True)]" by code_simp
  have 1: "fst (si_agent_request_broker_export_snapshot (ex_env 3) True (ex_broker 3)) = ESP_OK"
    "\<not> Option.is_none (fst (snd (si_agent_request_broker_export_snapshot (ex_env 3) True (ex_broker 3))))" by code_simp+
  then obtain s c where s: "si_agent_request_broker_export_snapshot (ex_env 3) True (ex_broker 3) = (ESP_OK, Some s, c)"
    by (cases "si_agent_request_broker_export_snapshot (ex_env 3) True (ex_broker 3)") (auto simp: Option.is_none_def)
  have "be_created (ex_env 9)" "be_lock (ex_env 9)" "\<forall>x. be_sha256 (ex_env 9) x = Some (ex_hash x)" by (simp_all add: ex_env_def)
  note d = broker_restart_roundtrip [OF ex_broker_def s this]
  then obtain d where "si_agent_request_broker_import_snapshot (ex_env 9) (Some s) broker_initial = (ESP_OK, d)"
    "map kept_fields (live (bk_requests d)) = map kept_fields (live (bk_requests (ex_broker 3)))" by blast
  then show ?thesis using s unfolding k by (intro exI conjI)
qed


end
