(* ===== verification/Spec2Isabelle.thy ===== *)
theory Spec2Isabelle
  imports Execution_Guard Verifier Terminal_Control Resource_Operation Hid_Owner Hid_Fence
    Task_Runtime_Machine Action_Event Rate_Limit Echo_Redact Relay_Props Storage_Path Network_Config Boot_Live
    Video_Streams Autonomy_Props Auth_Example Frame_Store_Props Host_Display_Props Text_Props Broker_Theorems
begin

text \<open>
  A verification development for the firmware of ExoAnchor, a KVM-over-IP and automation device on an ESP32-P4:
  it captures the screen of a target machine, is a USB keyboard and mouse for it, presses its power button,
  and lets people, MCP clients and an embedded agent use all of this. The code is the development firmware
  under \<^verbatim>\<open>src/device/ESP32P4/firmware/v0.86.6-dev/main\<close>; paths below are relative to it.

  \<^bold>\<open>The parts and how they work together.\<close> A client logs in at the login service and gets a session. What it may
  do is decided by the authorization decision; an agent asks the request broker for an effect and an executor
  consumes the grant of a person, a reviewer or the policy; the effect passes the execution guard once more
  right before it happens, and its shell commands the autonomy policy. Who acts on the target is settled by
  the control lease (automation) and the video control (the person at the KVM view). Both end at the HID
  execution manager, which hands out tokens: only the current token presses keys. A session that ends is
  revoked at the lease and at the HID manager. The task runtime runs an agent's work as turns, plans and
  steps and lets a turn complete only on evidence the verifier accepts. The boot-key manager presses a key
  during the start of the target after an approval. Around this core stand the relay framing, the paths of
  the storage service, network configuration, the redaction of echoed secrets, the discovery rate limiter
  and the event ring.

  \<^bold>\<open>The theories.\<close>
  \<^item> \<open>Prelude\<close>: machine types, the used part of the C library, generic lemmas. \<open>Contracts\<close>: the interfaces several
    components implement, as locales (a machine with an invariant, a generation counter that skips zero, a
    ring buffer seen as a list), interpreted in the theories of the components.
  \<^item> \<open>Authorization\<close>, \<open>Execution_Guard\<close>, \<open>Verifier\<close>: \<^verbatim>\<open>core/authorization.c\<close>, \<^verbatim>\<open>agent_execution_guard.c\<close>,
    \<^verbatim>\<open>agent_verifier.c\<close>. Allowed if and only if every gate is open; an allowed intent is fresh, unchanged and
    authorized; a passed verification rests on fresh authoritative evidence, and the loop computes the
    declarative verdict.
  \<^item> \<open>Task_Runtime\<close>, \<open>Task_Runtime_Props\<close>, \<open>Task_Runtime_Machine\<close>: \<^verbatim>\<open>core/agent_task_runtime.c\<close>. A completed turn is
    verified, the pending ring is a FIFO queue, errors change nothing, the structural invariant holds.
  \<^item> \<open>Request_Broker\<close>, \<open>Broker_Props\<close>, \<open>Broker_Machine\<close>, \<open>Broker_System\<close>, \<open>Broker_Theorems\<close>:
    \<^verbatim>\<open>application/agent_request_broker.c\<close>. The records and their invariant, the table under every operation, runs
    with restarts and a history of the effects. An effect begins at most once and only with a grant of somebody
    who may give it; what the consumption of a grant needs; what a restart keeps; a grant that comes back.
  \<^item> \<open>Autonomy\<close>, \<open>Autonomy_Props\<close>: \<^verbatim>\<open>core/agent_autonomy.c\<close>. The levels implement their table, a command is classed
    as reading only if each of its parts is, quoting does not hide words, the tokenizer keeps its bounds.
  \<^item> \<open>Hid_Owner\<close>, \<open>Hid_Fence\<close>, \<open>Hid_Manager\<close>, \<open>Hid_Manager_Props\<close>, \<open>Hid_Handover\<close>: \<^verbatim>\<open>core/hid_owner.c\<close>,
    \<^verbatim>\<open>hid_abort_fence.c\<close>, \<^verbatim>\<open>hid_ascii.c\<close>, \<^verbatim>\<open>drivers/hid_device.c\<close>. Only the current token reaches the host, a
    revoked one is refused, a handover leaves no key pressed.
  \<^item> \<open>Control_Lease\<close>, \<open>Lease_Props\<close>: \<^verbatim>\<open>application/control_lease.c\<close>. The keyboard follows the lease, leases are not
    stolen, revocations are not lost.
  \<^item> \<open>Video_Control\<close>, \<open>Video_Props\<close>, \<open>Video_Streams\<close>: \<^verbatim>\<open>application/video_control.c\<close>. A view does not take the
    keyboard from an automation, except by the explicit claim; cancelled streams stay out; a refused capture
    mode is rolled back.
  \<^item> \<open>Auth_Service\<close>, \<open>Auth_Props\<close>, \<open>Auth_Sessions\<close>, \<open>Auth_Credentials\<close>, \<open>Auth_Example\<close>: \<^verbatim>\<open>application/auth_service.c\<close>.
    Which tokens are accepted, what a logout and a password change end (down to the keyboard), that sessions
    do not vanish silently, how fast passwords can be tried, what storage failures and restarts keep.
  \<^item> \<open>Boot_Key\<close>, \<open>Boot_Worker\<close>, \<open>Boot_Props\<close>, \<open>Boot_Live\<close>: \<^verbatim>\<open>core/boot_key_sequence.c\<close>,
    \<^verbatim>\<open>application/boot_key_manager.c\<close>. A key is sent only for an approved plan, and the worker ends.
  \<^item> \<open>Relay_Protocol\<close>, \<open>Relay_Props\<close>: \<^verbatim>\<open>core/relay_protocol.c\<close>. The streaming decoder refines a one-shot
    specification, frames survive every cut.
  \<^item> \<open>Terminal_Control\<close>, \<open>Resource_Operation\<close>, \<open>Action_Event\<close>, \<open>Rate_Limit\<close>, \<open>Echo_Redact\<close>, \<open>Storage_Path\<close>,
    \<open>Network_Config\<close>: the files of \<^verbatim>\<open>core/\<close> with these names and \<^verbatim>\<open>product_identity.c\<close>.
  \<^item> \<open>Frame_Store\<close>, \<open>Frame_Store_Props\<close>: \<^verbatim>\<open>drivers/video_frame_store.c\<close>. A writer and its readers share one memory
    area; a borrowed frame is whole and does not change, a copy is the last frame, a frame that fits is
    published when nothing is borrowed.
  \<^item> \<open>Host_Display\<close>, \<open>Host_Display_Props\<close>: \<^verbatim>\<open>core/host_display_mode.c\<close>, \<^verbatim>\<open>application/host_display_manager.c\<close>. A
    request cannot change the structure of the commands that run as root, and only an approved plan is applied.
  \<^item> \<open>Text_Utils\<close>, \<open>Text_Props\<close>: \<^verbatim>\<open>core/utf8_utils.c\<close>, \<^verbatim>\<open>version_utils.c\<close>, \<^verbatim>\<open>device_observation_utils.c\<close>. The scanner
    accepts exactly the encodings of scalar values, so the sanitizer returns UTF-8 and a cut splits no
    character; the comparison of versions returns and is a lexicographic order. \<open>Hex_Text\<close> has the hexadecimal
    numbers of identifiers.

  \<^bold>\<open>How code becomes definitions.\<close> A function of the source is one definition of the same name; the file-scope
  variables of a module are one record that is passed and returned; an error code is a value; a pointer that
  may be NULL is an option; a C string is the list of its characters before the terminator, and a copy into a
  buffer cuts it. Unsigned integers are words of their width, so that generations, counters and 32-bit times
  wrap as in the code; 64-bit microsecond times are integers. A critical section of a mutex is one step.
  Between the sections of an operation other tasks may run: in the HID manager at its interference points, in
  the lease and the video control through a function argument, in the login service through runs of other
  operations (\<open>auth_run\<close>), for the boot-key worker between any two of its rounds.

  \<^bold>\<open>Parameters.\<close> What comes from outside is an argument: whether a mutex is obtained, the time, random bytes, the
  answers of the USB stack, of the capture driver and of the settings store, the hash functions of mbedTLS,
  the byte image of the retained structure. A theorem states what it needs of them as hypotheses, and its
  witness instantiates them.

  \<^bold>\<open>Bounds.\<close> The fuel of a model loop is the bound of the code: 20 ms rounds of
  the boot-key worker within its 60 s timeout (3001 rounds), 16 session slots, 96 tokens of 127 characters.
  A cancelled stream is remembered through 31 further cancellations because the ring has 32 places. Ten
  failed logins take at least 30 s since a lockout follows every fifth failure of a window. The views of the
  frame store are fewer than \<open>2 ^ 32 - 2\<close> because a slot counts them in 32 bits. Runs of the request broker
  create at most \<open>2 ^ 32 - 1\<close> requests, since identifiers have the lower 32 bits of the sequence number.

  \<^bold>\<open>Not modelled.\<close> Code that only talks to hardware or to libraries whose sources are not part of the
  repository: the capture, power, UART, network and storage drivers, the H.264 encoder pipeline, the HTTP,
  WebSocket, TLS, SSH and command-line services and their routes, and the embedded web pages. Code whose data
  are JSON documents of the cJSON library: the repositories and history of the agent, the
  HID and page-context codecs and the settings pages. Of the HID manager, the USB descriptors and the
  status report. The percentage of \<^verbatim>\<open>device_observation_utils.c\<close>, a division of doubles. The older firmware
  \<^verbatim>\<open>v0.86-stable-kvm\<close>, the patched USB host component, and the Python tools.
\<close>

end
